(* ===== verification/CF_Prelude.thy ===== *)
theory CF_Prelude
  imports Main "HOL-Library.Char_ord" "HOL-Library.Multiset"
begin

text \<open>
  Shared vocabulary of the development: C strings, the parts of the C standard library the modelled
  code uses, run-time errors as values, and the generic list and option lemmas the components share.

  A C string is a \<open>string\<close> without its terminating NUL; reading at index \<open>strlen s\<close> gives the NUL
  character.  A possibly-NULL \<open>char *\<close> is a \<open>string option\<close>.  A failing \<open>assert\<close>, a call of
  \<open>FatalError\<close> and an access outside an object are values of \<open>c_error\<close>; functions that can end in one
  return \<open>c_error + 'a\<close>, with \<open>Inl\<close> for the abnormal end.
\<close>

section \<open>Errors as values\<close>

datatype c_error =
    AssertionFailed
  | FatalErrorExit
  | OutOfBounds
  | NullDereference
  | UseAfterFree
  | Overflow
  | Uninitialised

type_synonym 'a res = "c_error + 'a"

definition res_bind :: "'a res \<Rightarrow> ('a \<Rightarrow> 'b res) \<Rightarrow> 'b res" where
  "res_bind r f = (case r of Inl e \<Rightarrow> Inl e | Inr x \<Rightarrow> f x)"

definition c_assert :: "bool \<Rightarrow> 'a res \<Rightarrow> 'a res" where
  "c_assert b r = (if b then r else Inl AssertionFailed)"

lemma res_bind_simps [simp]:
  "res_bind (Inl e) f = Inl e"
  "res_bind (Inr x) f = f x"
  by (simp_all add: res_bind_def)

lemma res_bind_eq_Inr:
  "res_bind r f = Inr y \<longleftrightarrow> (\<exists>x. r = Inr x \<and> f x = Inr y)"
  by (cases r) auto

lemma res_bind_cong [fundef_cong]:
  "r = r' \<Longrightarrow> (\<And>x. r' = Inr x \<Longrightarrow> f x = f' x) \<Longrightarrow> res_bind r f = res_bind r' f'"
  by (cases r') auto

lemma c_assert_True [simp]: "c_assert True r = r"
  by (simp add: c_assert_def)

lemma c_assert_False [simp]: "c_assert False r = Inl AssertionFailed"
  by (simp add: c_assert_def)

lemma c_assert_eq_Inr:
  "c_assert b r = Inr y \<longleftrightarrow> b \<and> r = Inr y"
  by (simp add: c_assert_def)

lemma c_assert_cong [fundef_cong]:
  "b = b' \<Longrightarrow> (b' \<Longrightarrow> r = r') \<Longrightarrow> c_assert b r = c_assert b' r'"
  by (simp add: c_assert_def)

text \<open>
  A computation that may not end takes a number, its fuel, and gives \<open>None\<close> when that is used up; \<open>None\<close> for every
  number is a computation that does not end.
\<close>

type_synonym 'a run = "'a res option"

definition ret :: "'a \<Rightarrow> 'a run" where
  "ret x = Some (Inr x)"

definition run_bind :: "'a run \<Rightarrow> ('a \<Rightarrow> 'b run) \<Rightarrow> 'b run" where
  "run_bind r f = (case r of None \<Rightarrow> None | Some (Inl e) \<Rightarrow> Some (Inl e) | Some (Inr x) \<Rightarrow> f x)"

lemma run_bind_simps [simp]:
  "run_bind None f = None"
  "run_bind (Some (Inl e)) f = Some (Inl e)"
  "run_bind (Some (Inr x)) f = f x"
  "run_bind (ret x) f = f x"
  by (simp_all add: run_bind_def ret_def)

lemma run_bind_eq_ret:
  "run_bind r f = Some (Inr y) \<longleftrightarrow> (\<exists>x. r = Some (Inr x) \<and> f x = Some (Inr y))"
  by (cases r) (auto simp: run_bind_def split: sum.splits)

lemma run_bind_cong [fundef_cong]:
  "r = r' \<Longrightarrow> (\<And>x. r' = Some (Inr x) \<Longrightarrow> f x = f' x) \<Longrightarrow> run_bind r f = run_bind r' f'"
  by (auto simp: run_bind_def split: option.splits sum.splits)

fun run_map :: "('a \<Rightarrow> 'b run) \<Rightarrow> 'a list \<Rightarrow> 'b list run" where
  "run_map f [] = ret []"
| "run_map f (x # xs) = run_bind (f x) (\<lambda>y. run_bind (run_map f xs) (\<lambda>ys. ret (y # ys)))"

section \<open>C strings\<close>

abbreviation NUL :: char where
  "NUL \<equiv> CHR 0x00"

text \<open>\<open>char_at s i\<close> is \<open>s[i]\<close> for \<open>i \<le> strlen(s)\<close>.\<close>

definition char_at :: "string \<Rightarrow> nat \<Rightarrow> char" where
  "char_at s i = (if i < length s then s ! i else NUL)"

text \<open>A plain \<open>char\<close> as an \<open>int\<close>: signed, as on the platforms of the build.\<close>

definition signed_char :: "char \<Rightarrow> int" where
  "signed_char c = (let n = of_char c :: int in if n \<ge> 128 then n - 256 else n)"

definition c_string :: "string \<Rightarrow> bool" where
  "c_string s \<longleftrightarrow> NUL \<notin> set s"

lemma char_at_less [simp]: "i < length s \<Longrightarrow> char_at s i = s ! i"
  by (simp add: char_at_def)

lemma char_at_ge [simp]: "length s \<le> i \<Longrightarrow> char_at s i = NUL"
  by (simp add: char_at_def)

lemma char_at_Cons_0 [simp]: "char_at (c # s) 0 = c"
  by (simp add: char_at_def)

lemma char_at_Cons_Suc [simp]: "char_at (c # s) (Suc i) = char_at s i"
  by (simp add: char_at_def)

lemma char_at_append_left: "i < length s \<Longrightarrow> char_at (s @ t) i = s ! i"
  by (simp add: char_at_def nth_append)

lemma char_at_append_right [simp]: "char_at (s @ t) (length s + i) = char_at t i"
  by (simp add: char_at_def nth_append)

lemma char_at_append_right0 [simp]: "char_at (s @ t) (length s) = char_at t 0"
  using char_at_append_right [of s t 0] by simp

lemma c_string_simps [simp]:
  "c_string []"
  "c_string (c # s) \<longleftrightarrow> c \<noteq> NUL \<and> c_string s"
  "c_string (s @ t) \<longleftrightarrow> c_string s \<and> c_string t"
  by (auto simp: c_string_def)

lemma char_at_not_NUL: "c_string s \<Longrightarrow> char_at s i \<noteq> NUL \<longleftrightarrow> i < length s"
  by (auto simp: c_string_def char_at_def in_set_conv_nth)

section \<open>The string functions of the C library\<close>

text \<open>\<open>strcmp\<close> compares bytes as unsigned; only the sign of the result is specified.\<close>

fun strcmp :: "string \<Rightarrow> string \<Rightarrow> int" where
  "strcmp [] [] = 0"
| "strcmp [] (d # t) = -1"
| "strcmp (c # s) [] = 1"
| "strcmp (c # s) (d # t) = (if c = d then strcmp s t else if c < d then -1 else 1)"

lemma strcmp_eq_0 [simp]: "strcmp s t = 0 \<longleftrightarrow> s = t"
  by (induction s t rule: strcmp.induct) auto

lemma strcmp_antisym: "strcmp s t < 0 \<longleftrightarrow> strcmp t s > 0"
  by (induction s t rule: strcmp.induct) auto

lemma strcmp_less_trans: "strcmp s t < 0 \<Longrightarrow> strcmp t u < 0 \<Longrightarrow> strcmp s u < 0"
proof (induction s t arbitrary: u rule: strcmp.induct)
  case (4 c s d t)
  then show ?case by (cases u) (auto split: if_splits)
next
  case (2 d t)
  then show ?case by (cases u) auto
qed auto

text \<open>\<open>strncmp s t (strlen t) == 0\<close>: \<open>t\<close> is a prefix of \<open>s\<close>.\<close>

fun starts_with :: "string \<Rightarrow> string \<Rightarrow> bool" where
  "starts_with [] s = True"
| "starts_with (c # t) [] = False"
| "starts_with (c # t) (d # s) = (c = d \<and> starts_with t s)"

lemma starts_with_iff: "starts_with t s \<longleftrightarrow> (\<exists>u. s = t @ u)"
  by (induction t s rule: starts_with.induct) auto

lemma starts_with_append [simp]: "starts_with t (t @ u)"
  by (simp add: starts_with_iff)

lemma starts_with_length: "starts_with t s \<Longrightarrow> length t \<le> length s"
  by (auto simp: starts_with_iff)

text \<open>\<open>strstr s t\<close>: the index of the first occurrence, or \<open>None\<close> for NULL.\<close>

fun strstr :: "string \<Rightarrow> string \<Rightarrow> nat option" where
  "strstr [] t = (if t = [] then Some 0 else None)"
| "strstr (c # s) t = (if starts_with t (c # s) then Some 0 else map_option Suc (strstr s t))"

lemma strstr_SomeD: "strstr s t = Some i \<Longrightarrow> i \<le> length s \<and> starts_with t (drop i s)"
  by (induction s t arbitrary: i rule: strstr.induct) (auto split: if_splits)

lemma strstr_bound: "strstr s t = Some i \<Longrightarrow> i + length t \<le> length s"
proof -
  assume "strstr s t = Some i"
  then have "i \<le> length s" and "length t \<le> length (drop i s)"
    using strstr_SomeD starts_with_length by blast+
  then show ?thesis by simp
qed

lemma strstr_NoneD: "strstr s t = None \<Longrightarrow> \<not> starts_with t (drop i s)"
proof (induction s t arbitrary: i rule: strstr.induct)
  case (1 t)
  then show ?case by (cases t) (auto split: if_splits)
next
  case (2 c s t)
  then show ?case by (cases i) (auto split: if_splits)
qed

lemma strstr_first: "strstr s t = Some i \<Longrightarrow> j < i \<Longrightarrow> \<not> starts_with t (drop j s)"
proof (induction s t arbitrary: i j rule: strstr.induct)
  case (2 c s t)
  then show ?case by (cases j) (auto split: if_splits)
qed (auto split: if_splits)

section \<open>Character classes of the C locale\<close>

definition c_isupper :: "char \<Rightarrow> bool" where
  "c_isupper c \<longleftrightarrow> CHR ''A'' \<le> c \<and> c \<le> CHR ''Z''"

definition c_islower :: "char \<Rightarrow> bool" where
  "c_islower c \<longleftrightarrow> CHR ''a'' \<le> c \<and> c \<le> CHR ''z''"

definition c_isdigit :: "char \<Rightarrow> bool" where
  "c_isdigit c \<longleftrightarrow> CHR ''0'' \<le> c \<and> c \<le> CHR ''9''"

definition c_isalnum :: "char \<Rightarrow> bool" where
  "c_isalnum c \<longleftrightarrow> c_isupper c \<or> c_islower c \<or> c_isdigit c"

definition c_ispunct :: "char \<Rightarrow> bool" where
  "c_ispunct c \<longleftrightarrow> CHR ''!'' \<le> c \<and> c \<le> CHR ''~'' \<and> \<not> c_isalnum c"

section \<open>Lists\<close>

lemma list_update_append_last: "(xs @ [y])[length xs := z] = xs @ [z]"
  by (induction xs) auto

text \<open>\<open>substr s i j\<close> is the part of a buffer between two positions, \<open>s[i..j)\<close>.\<close>

definition substr :: "'a list \<Rightarrow> nat \<Rightarrow> nat \<Rightarrow> 'a list" where
  "substr s i j = take (j - i) (drop i s)"

lemma substr_append: "i \<le> j \<Longrightarrow> j \<le> k \<Longrightarrow> substr s i j @ substr s j k = substr s i k"
proof -
  assume "i \<le> j" "j \<le> k"
  then have "take (k - i) (drop i s) = take ((j - i) + (k - j)) (drop i s)" by simp
  also have "\<dots> = take (j - i) (drop i s) @ take (k - j) (drop (j - i) (drop i s))"
    by (rule take_add)
  also have "drop (j - i) (drop i s) = drop j s" using \<open>i \<le> j\<close> by simp
  finally show ?thesis by (simp add: substr_def)
qed

lemma substr_same [simp]: "substr s i i = []"
  by (simp add: substr_def)

lemma substr_single: "i < length s \<Longrightarrow> substr s i (Suc i) = [s ! i]"
  by (simp add: substr_def take_Suc_conv_app_nth)

lemma substr_full [simp]: "substr s 0 (length s) = s"
  by (simp add: substr_def)

lemma length_substr [simp]: "j \<le> length s \<Longrightarrow> length (substr s i j) = j - i"
  by (simp add: substr_def)

lemma set_substr: "j \<le> length s \<Longrightarrow> (\<And>k. i \<le> k \<Longrightarrow> k < j \<Longrightarrow> P (s ! k)) \<Longrightarrow> x \<in> set (substr s i j) \<Longrightarrow> P x"
  by (auto simp: substr_def in_set_conv_nth)

section \<open>Decimal numbers: printf and strtol\<close>

definition digit_char :: "nat \<Rightarrow> char" where
  "digit_char d = char_of (48 + d)"

definition digit_value :: "char \<Rightarrow> nat" where
  "digit_value c = of_char c - 48"

fun show_nat :: "nat \<Rightarrow> string" where
  "show_nat n = (if n < 10 then [digit_char n] else show_nat (n div 10) @ [digit_char (n mod 10)])"

declare show_nat.simps [simp del]

text \<open>\<open>%d\<close> and \<open>%ld\<close>.\<close>

definition show_int :: "int \<Rightarrow> string" where
  "show_int i = (if i < 0 then CHR ''-'' # show_nat (nat (- i)) else show_nat (nat i))"

definition c_isspace :: "char \<Rightarrow> bool" where
  "c_isspace c \<longleftrightarrow> c = CHR '' '' \<or> (9 \<le> (of_char c :: nat) \<and> of_char c \<le> (13 :: nat))"

definition read_nat :: "string \<Rightarrow> nat" where
  "read_nat ds = foldl (\<lambda>a c. 10 * a + digit_value c) 0 ds"

definition LONG_MAX :: int where
  "LONG_MAX = 2 ^ 63 - 1"

definition LONG_MIN :: int where
  "LONG_MIN = - (2 ^ 63)"

text \<open>\<open>strtol(s, &end, 10)\<close> on a platform with 64-bit \<open>long\<close>: the clamped value, and the text from \<open>end\<close> on.\<close>

definition strtol10 :: "string \<Rightarrow> int \<times> string" where
  "strtol10 s =
     (let s1 = dropWhile c_isspace s;
          neg = (s1 \<noteq> [] \<and> hd s1 = CHR ''-'');
          s2 = (if s1 \<noteq> [] \<and> (hd s1 = CHR ''-'' \<or> hd s1 = CHR ''+'') then tl s1 else s1);
          ds = takeWhile c_isdigit s2;
          v = (if neg then - int (read_nat ds) else int (read_nat ds))
      in if ds = [] then (0, s)
         else (max LONG_MIN (min LONG_MAX v), dropWhile c_isdigit s2))"

text \<open>A conversion \<open>%d\<close> or \<open>%ld\<close> of \<open>sscanf\<close>: the number and the rest of the text, or \<open>None\<close> when there is no number.\<close>

definition scan_int :: "string \<Rightarrow> (int \<times> string) option" where
  "scan_int s = (case strtol10 s of (v, rest) \<Rightarrow> if rest = s then None else Some (v, rest))"

text \<open>A literal character of a format.\<close>

definition scan_char :: "char \<Rightarrow> string \<Rightarrow> string option" where
  "scan_char c s = (if s \<noteq> [] \<and> hd s = c then Some (tl s) else None)"

lemma of_char_digit: "d < 10 \<Longrightarrow> (of_char (digit_char d) :: nat) = 48 + d"
  by (simp add: digit_char_def)

lemma digit_value_char [simp]: "d < 10 \<Longrightarrow> digit_value (digit_char d) = d"
  by (simp add: digit_value_def of_char_digit)

lemma c_isdigit_nat: "c_isdigit c \<longleftrightarrow> 48 \<le> (of_char c :: nat) \<and> of_char c \<le> (57 :: nat)"
  by (simp add: c_isdigit_def less_eq_char_def)

lemma c_isdigit_char [simp]: "d < 10 \<Longrightarrow> c_isdigit (digit_char d)"
  by (simp add: c_isdigit_nat of_char_digit)

lemma show_nat_digits: "list_all c_isdigit (show_nat n)"
proof (induction n rule: show_nat.induct)
  case (1 n)
  then show ?case by (cases "n < 10") (simp_all add: show_nat.simps [of n])
qed

lemma show_nat_nonempty [simp]: "show_nat n \<noteq> []"
  by (simp add: show_nat.simps [of n])

lemma read_nat_snoc: "read_nat (ds @ [c]) = 10 * read_nat ds + digit_value c"
  by (simp add: read_nat_def)

lemma read_show_nat [simp]: "read_nat (show_nat n) = n"
proof (induction n rule: show_nat.induct)
  case (1 n)
  show ?case
  proof (cases "n < 10")
    case True
    then show ?thesis by (simp add: show_nat.simps [of n] read_nat_def)
  next
    case False
    with 1 show ?thesis by (simp add: show_nat.simps [of n] read_nat_snoc)
  qed
qed

lemma show_nat_first: "0 < n \<Longrightarrow> hd (show_nat n) \<noteq> CHR ''0''"
proof (induction n rule: show_nat.induct)
  case (1 n)
  show ?case
  proof (cases "n < 10")
    case True
    have "digit_char n \<noteq> CHR ''0''"
    proof
      assume "digit_char n = CHR ''0''"
      then have "(of_char (digit_char n) :: nat) = 48" by simp
      with True "1.prems" show False by (simp add: of_char_digit)
    qed
    with True show ?thesis by (simp add: show_nat.simps [of n])
  next
    case False
    with 1 show ?thesis by (simp add: show_nat.simps [of n])
  qed
qed

lemma strtol10_show_int_append:
  assumes "LONG_MIN \<le> i" and "i \<le> LONG_MAX" and "r = [] \<or> \<not> c_isdigit (hd r)"
  shows "strtol10 (show_int i @ r) = (i, r)"
proof -
  from assms(3) have "takeWhile c_isdigit r = []" "dropWhile c_isdigit r = r" by (cases r, auto)+
  then have digs: "takeWhile c_isdigit (show_nat n @ r) = show_nat n" "dropWhile c_isdigit (show_nat n @ r) = r" for n
    using show_nat_digits [of n] by (simp_all add: list_all_iff)
  have first: "\<exists>c cs. show_nat n = c # cs \<and> \<not> c_isspace c \<and> c \<noteq> CHR ''-'' \<and> c \<noteq> CHR ''+''" for n
  proof -
    obtain c cs where "show_nat n = c # cs" by (meson neq_Nil_conv show_nat_nonempty)
    moreover with show_nat_digits [of n] have "c_isdigit c" by simp
    ultimately show ?thesis by (auto simp: c_isdigit_nat c_isspace_def)
  qed
  show ?thesis
  proof (cases "i < 0")
    case True
    have "\<not> c_isspace (CHR ''-'')" by (simp add: c_isspace_def)
    with True assms(1,2) digs [of "nat (- i)"] show ?thesis
      by (simp add: strtol10_def show_int_def Let_def)
  next
    case False
    obtain c cs where c: "show_nat (nat i) = c # cs" "\<not> c_isspace c" "c \<noteq> CHR ''-''" "c \<noteq> CHR ''+''" using first by blast
    with False assms(1,2) digs [of "nat i"] read_show_nat [of "nat i"] show ?thesis
      by (simp add: strtol10_def show_int_def Let_def)
  qed
qed

lemma strtol10_show_int: "LONG_MIN \<le> i \<Longrightarrow> i \<le> LONG_MAX \<Longrightarrow> strtol10 (show_int i) = (i, [])"
  using strtol10_show_int_append [of i "[]"] by simp

lemma show_int_nonempty [simp]: "show_int i \<noteq> []"
  by (simp add: show_int_def)

section \<open>Sizes of the buffers, from \<open>cf3.defs.h\<close>\<close>

definition CF_BUFSIZE :: nat where
  "CF_BUFSIZE = 4096"

definition CF_EXPANDSIZE :: nat where
  "CF_EXPANDSIZE = 2 * CF_BUFSIZE"

definition CF_BUFFERMARGIN :: nat where
  "CF_BUFFERMARGIN = 128"

definition CF_MAXVARSIZE :: nat where
  "CF_MAXVARSIZE = 1024"

definition CF_MAXLINKSIZE :: nat where
  "CF_MAXLINKSIZE = 256"

end
