(* ===== verification/CF_StringExpressions.thy ===== *)
theory CF_StringExpressions
  imports CF_Prelude
begin

text \<open>
  \<open>src/string_expressions.c\<close>: names with variable references inside class expressions, such as
  \<open>web_$(sys.host)\<close>.  The recursive-descent parser works on a buffer and a half-open range
  \<open>[start, end)\<close> and returns the tree, or NULL, with the position reached.  The evaluator concatenates
  literals and the values of variable references; NULL from the variable evaluator aborts it.
\<close>

section \<open>Data\<close>

datatype StringExpression =
    CONCAT StringExpression StringExpression
  | LITERAL string
  | VARREF StringExpression

type_synonym StringParseResult = "StringExpression option \<times> nat"

section \<open>The parser\<close>

definition ValidTokenCharacter :: "char \<Rightarrow> bool" where
  "ValidTokenCharacter c =
     (if c \<ge> CHR ''a'' \<and> c \<le> CHR ''z'' then True
      else if c \<ge> CHR ''A'' \<and> c \<le> CHR ''Z'' then True
      else if c \<ge> CHR ''0'' \<and> c \<le> CHR ''9'' then True
      else c = CHR ''_'' \<or> c = CHR ''['' \<or> c = CHR '']'' \<or> c = CHR '':'')"

text \<open>The \<open>while\<close> loop of \<open>ParseToken\<close>: the first position that is not a token character.\<close>

function token_end :: "string \<Rightarrow> nat \<Rightarrow> nat \<Rightarrow> nat" where
  "token_end expr endlit stop =
     (if endlit < stop \<and> ValidTokenCharacter (char_at expr endlit)
      then token_end expr (Suc endlit) stop else endlit)"
  by pat_completeness auto
termination
  by (relation "measure (\<lambda>(expr, endlit, stop). stop - endlit)") auto

declare token_end.simps [simp del]

definition ParseToken :: "string \<Rightarrow> nat \<Rightarrow> nat \<Rightarrow> StringParseResult" where
  "ParseToken expr start stop =
     (let endlit = token_end expr start stop
      in if endlit > start
         then (Some (LITERAL (take (endlit - start) (drop start expr))), endlit)
         else (None, endlit))"

function ParseQname :: "string \<Rightarrow> nat \<Rightarrow> nat \<Rightarrow> StringParseResult"
  and ParseVarRef :: "string \<Rightarrow> nat \<Rightarrow> nat \<Rightarrow> StringParseResult"
  and ParseTerm :: "string \<Rightarrow> nat \<Rightarrow> nat \<Rightarrow> StringParseResult"
  and ParseStringExpression :: "string \<Rightarrow> nat \<Rightarrow> nat \<Rightarrow> StringParseResult" where
  "ParseQname expr start stop =
     (case ParseStringExpression expr start stop of
        (None, pos) \<Rightarrow> (None, pos)
      | (Some lhs, pos) \<Rightarrow>
          if pos = stop \<or> char_at expr pos \<noteq> CHR ''.'' then (Some lhs, pos)
          else
            (case ParseStringExpression expr (pos + 1) stop of
               (None, pos') \<Rightarrow> (None, pos')
             | (Some rhs, pos') \<Rightarrow>
                 (Some (CONCAT lhs (CONCAT (LITERAL ''.'') rhs)), pos')))"
| "ParseVarRef expr start stop =
     (if start + 1 < stop \<and> char_at expr start = CHR ''$'' then
        if char_at expr (start + 1) = CHR ''('' \<or> char_at expr (start + 1) = CHR ''{'' then
          (let closing_bracket =
                 (if char_at expr (start + 1) = CHR ''('' then CHR '')'' else CHR ''}'')
           in case ParseQname expr (start + 2) stop of
                (Some r, pos) \<Rightarrow>
                  if pos < stop \<and> char_at expr pos = closing_bracket
                  then (Some (VARREF r), pos + 1) else (None, pos)
              | (None, pos) \<Rightarrow> (None, pos))
        else (None, start + 1)
      else (None, start))"
| "ParseTerm expr start stop =
     (case ParseToken expr start stop of
        (Some r, pos) \<Rightarrow> (Some r, pos)
      | (None, pos) \<Rightarrow> ParseVarRef expr start stop)"
| "ParseStringExpression expr start stop =
     (case ParseTerm expr start stop of
        (Some lhs, pos) \<Rightarrow>
          (case ParseStringExpression expr pos stop of
             (Some rhs, pos') \<Rightarrow> (Some (CONCAT lhs rhs), pos')
           | (None, _) \<Rightarrow> (Some lhs, pos))
      | (None, pos) \<Rightarrow> (None, pos))"
  by pat_completeness auto

text \<open>
  The parser recurses on the position reached by its own recursive calls, so its termination needs to
  know that a successful call moves forward and stays inside the range.
\<close>

lemma token_end_bounds: "start \<le> token_end expr start stop \<and> (start \<le> stop \<longrightarrow> token_end expr start stop \<le> stop)"
proof (induction expr start stop rule: token_end.induct)
  case (1 expr endlit stop)
  then show ?case by (subst (1 2) token_end.simps) auto
qed

lemma token_end_le: "start < token_end expr start stop \<Longrightarrow> token_end expr start stop \<le> stop"
  using token_end_bounds [of start expr stop] token_end.simps [of expr start stop]
  by (cases "start < stop") auto

lemma ParseToken_progress: "ParseToken expr start stop = (Some r, pos) \<Longrightarrow> start < pos \<and> pos \<le> stop"
  by (auto simp: ParseToken_def Let_def token_end_le split: if_splits)

lemma string_parser_progress_dom:
  "ParseQname_ParseVarRef_ParseTerm_ParseStringExpression_dom (Inl (Inl (expr, start, stop))) \<Longrightarrow>
     ParseQname expr start stop = (Some r, pos) \<Longrightarrow> start < pos \<and> pos \<le> stop"
  "ParseQname_ParseVarRef_ParseTerm_ParseStringExpression_dom (Inl (Inr (expr, start, stop))) \<Longrightarrow>
     ParseVarRef expr start stop = (Some r, pos) \<Longrightarrow> start < pos \<and> pos \<le> stop"
  "ParseQname_ParseVarRef_ParseTerm_ParseStringExpression_dom (Inr (Inl (expr, start, stop))) \<Longrightarrow>
     ParseTerm expr start stop = (Some r, pos) \<Longrightarrow> start < pos \<and> pos \<le> stop"
  "ParseQname_ParseVarRef_ParseTerm_ParseStringExpression_dom (Inr (Inr (expr, start, stop))) \<Longrightarrow>
     ParseStringExpression expr start stop = (Some r, pos) \<Longrightarrow> start < pos \<and> pos \<le> stop"
proof (induction expr start stop and expr start stop and expr start stop and expr start stop
    arbitrary: r pos and r pos and r pos and r pos
    rule: ParseQname_ParseVarRef_ParseTerm_ParseStringExpression.pinduct)
  case (1 expr start stop)
  show ?case
    using "1.prems" "1.IH"(1) "1.IH"(2) 
    by (fastforce simp: ParseQname.psimps [OF "1.hyps"] split: prod.splits option.splits if_splits)
next
  case (2 expr start stop)
  show ?case
    using "2.prems" "2.IH"
    by (fastforce simp: ParseVarRef.psimps [OF "2.hyps"] Let_def split: prod.splits option.splits if_splits)
next
  case (3 expr start stop)
  show ?case
    using "3.prems" "3.IH"
    by (fastforce simp: ParseTerm.psimps [OF "3.hyps"] dest: ParseToken_progress split: prod.splits option.splits)
next
  case (4 expr start stop)
  show ?case
    using "4.prems" "4.IH"(1) "4.IH"(2)
    by (fastforce simp: ParseStringExpression.psimps [OF "4.hyps"] split: prod.splits option.splits)
qed

lemmas string_parser_advances_dom =
  string_parser_progress_dom [OF _ sym]

termination ParseQname
  by (relation "measure (\<lambda>x. case x of
       Inl (Inl (expr, start, stop)) \<Rightarrow> 4 * (stop - start) + 3
     | Inl (Inr (expr, start, stop)) \<Rightarrow> 4 * (stop - start)
     | Inr (Inl (expr, start, stop)) \<Rightarrow> 4 * (stop - start) + 1
     | Inr (Inr (expr, start, stop)) \<Rightarrow> 4 * (stop - start) + 2)")
     (auto dest!: string_parser_advances_dom)

declare ParseQname.simps [simp del] ParseVarRef.simps [simp del]
  ParseTerm.simps [simp del] ParseStringExpression.simps [simp del]

lemmas string_parser_induct =
  ParseQname_ParseVarRef_ParseTerm_ParseStringExpression.induct

lemma string_parser_progress:
  "ParseQname expr start stop = (Some r, pos) \<Longrightarrow> start < pos \<and> pos \<le> stop"
  "ParseVarRef expr start stop = (Some r, pos) \<Longrightarrow> start < pos \<and> pos \<le> stop"
  "ParseTerm expr start stop = (Some r, pos) \<Longrightarrow> start < pos \<and> pos \<le> stop"
  "ParseStringExpression expr start stop = (Some r, pos) \<Longrightarrow> start < pos \<and> pos \<le> stop"
proof (induction expr start stop and expr start stop and expr start stop and expr start stop
    arbitrary: r pos and r pos and r pos and r pos rule: string_parser_induct)
  case (1 expr start stop)
  show ?case using "1.prems" "1.IH"(1) "1.IH"(2)
    by (fastforce simp: ParseQname.simps [of expr start] split: prod.splits option.splits if_splits)
next
  case (2 expr start stop)
  show ?case using "2.prems" "2.IH"
    by (fastforce simp: ParseVarRef.simps [of expr start] Let_def split: prod.splits option.splits if_splits)
next
  case (3 expr start stop)
  show ?case using "3.prems" "3.IH"
    by (fastforce simp: ParseTerm.simps [of expr start] dest: ParseToken_progress split: prod.splits option.splits)
next
  case (4 expr start stop)
  show ?case using "4.prems" "4.IH"(1) "4.IH"(2)
    by (fastforce simp: ParseStringExpression.simps [of expr start] split: prod.splits option.splits)
qed

section \<open>The grammar of the header, and soundness of the parser\<close>

text \<open>
  \<open>src/string_expressions.h\<close> states the language.  \<open>gen_name w e\<close> says that the text \<open>w\<close> derives from
  \<open><name>\<close> with tree \<open>e\<close>.  Tokens are over \<open>ValidTokenCharacter\<close>, which also takes \<open>[\<close> and \<open>]\<close>.
\<close>

inductive gen_term :: "string \<Rightarrow> StringExpression \<Rightarrow> bool"
  and gen_name :: "string \<Rightarrow> StringExpression \<Rightarrow> bool"
  and gen_qname :: "string \<Rightarrow> StringExpression \<Rightarrow> bool" where
  gen_token: "w \<noteq> [] \<Longrightarrow> list_all ValidTokenCharacter w \<Longrightarrow> gen_term w (LITERAL w)"
| gen_paren: "gen_qname w e \<Longrightarrow> gen_term (''$('' @ w @ '')'') (VARREF e)"
| gen_brace: "gen_qname w e \<Longrightarrow> gen_term (''${'' @ w @ ''}'') (VARREF e)"
| gen_one: "gen_term w e \<Longrightarrow> gen_name w e"
| gen_more: "gen_term w a \<Longrightarrow> gen_name v b \<Longrightarrow> gen_name (w @ v) (CONCAT a b)"
| gen_unqualified: "gen_name w e \<Longrightarrow> gen_qname w e"
| gen_dot: "gen_name w a \<Longrightarrow> gen_name v b \<Longrightarrow>
    gen_qname (w @ ''.'' @ v) (CONCAT a (CONCAT (LITERAL ''.'') b))"

lemma token_end_chars:
  "start \<le> k \<Longrightarrow> k < token_end expr start stop \<Longrightarrow> ValidTokenCharacter (char_at expr k)"
proof (induction expr start stop rule: token_end.induct)
  case (1 expr endlit stop)
  then show ?case
    by (cases "k = endlit") (auto simp: token_end.simps [of expr endlit] split: if_splits)
qed

lemma ParseToken_sound:
  assumes "ParseToken expr start stop = (Some e, pos)" and "stop \<le> length expr"
  shows "gen_term (substr expr start pos) e"
proof -
  from assms(1) have pos: "pos = token_end expr start stop" and lt: "start < pos"
    and e: "e = LITERAL (substr expr start pos)"
    by (auto simp: ParseToken_def Let_def substr_def split: if_splits)
  from ParseToken_progress [OF assms(1)] assms(2) have le: "pos \<le> length expr" by simp
  have "ValidTokenCharacter x" if "x \<in> set (substr expr start pos)" for x
    using le token_end_chars [of start _ expr stop] pos
    by (auto intro: set_substr [OF le _ that])
  moreover from lt le have "substr expr start pos \<noteq> []"
    by (metis length_substr list.size(3) less_numeral_extra(3) zero_less_diff)
  ultimately show ?thesis by (simp add: e gen_token list_all_iff)
qed

lemma substr_around:
  assumes "start + 2 \<le> pos" and "pos < length expr"
  shows "substr expr start (Suc pos) =
    [expr ! start, expr ! Suc start] @ substr expr (start + 2) pos @ [expr ! pos]"
proof -
  have "substr expr start (Suc start) @ substr expr (Suc start) (Suc (Suc start)) @
      substr expr (Suc (Suc start)) pos @ substr expr pos (Suc pos) = substr expr start (Suc pos)"
    using assms by (simp add: substr_append)
  then show ?thesis using assms by (simp add: substr_single)
qed

lemma substr_dot:
  assumes "start \<le> pos" and "pos < pos'" and "pos' \<le> length expr"
  shows "substr expr start pos @ [expr ! pos] @ substr expr (Suc pos) pos' = substr expr start pos'"
proof -
  have "substr expr start pos @ substr expr pos (Suc pos) @ substr expr (Suc pos) pos' = substr expr start pos'"
    using assms by (simp add: substr_append)
  then show ?thesis using assms by (simp add: substr_single)
qed

lemma string_parser_sound:
  "ParseQname expr start stop = (Some e, pos) \<Longrightarrow> stop \<le> length expr \<Longrightarrow> gen_qname (substr expr start pos) e"
  "ParseVarRef expr start stop = (Some e, pos) \<Longrightarrow> stop \<le> length expr \<Longrightarrow> gen_term (substr expr start pos) e"
  "ParseTerm expr start stop = (Some e, pos) \<Longrightarrow> stop \<le> length expr \<Longrightarrow> gen_term (substr expr start pos) e"
  "ParseStringExpression expr start stop = (Some e, pos) \<Longrightarrow> stop \<le> length expr \<Longrightarrow> gen_name (substr expr start pos) e"
proof (induction expr start stop and expr start stop and expr start stop and expr start stop
    arbitrary: e pos and e pos and e pos and e pos rule: string_parser_induct)
  case (1 expr start stop)
  obtain lo p where lp: "ParseStringExpression expr start stop = (lo, p)" by (meson surj_pair)
  with "1.prems"(1) obtain l where l: "lo = Some l"
    by (cases lo) (auto simp: ParseQname.simps [of expr start])
  note name_l = "1.IH"(1) [OF lp [unfolded l] "1.prems"(2)]
  show ?case
  proof (cases "p = stop \<or> char_at expr p \<noteq> CHR ''.''")
    case True
    with "1.prems"(1) lp l have "e = l" "pos = p" by (auto simp: ParseQname.simps [of expr start])
    with name_l show ?thesis by (simp add: gen_unqualified)
  next
    case False
    with "1.prems"(1) lp l obtain r where
      r: "ParseStringExpression expr (p + 1) stop = (Some r, pos)"
      and e: "e = CONCAT l (CONCAT (LITERAL ''.'') r)"
      by (auto simp: ParseQname.simps [of expr start] split: prod.splits option.splits)
    have name_r: "gen_name (substr expr (p + 1) pos) r"
      using "1.IH"(2) [OF lp [symmetric] l _ r "1.prems"(2)] False by blast
    from string_parser_progress(4) [OF r] "1.prems"(2) have "p < pos" "pos \<le> length expr" by auto
    moreover from string_parser_progress(4) [OF lp [unfolded l]] have "start \<le> p" by simp
    ultimately have "substr expr start pos = substr expr start p @ ''.'' @ substr expr (p + 1) pos"
      using substr_dot [of start p pos expr] False by (simp add: less_le_trans)
    with gen_dot [OF name_l name_r] show ?thesis by (simp add: e)
  qed
next
  case (2 expr start stop)
  from "2.prems"(1) obtain q p where
    g: "start + 1 < stop" "char_at expr start = CHR ''$''"
    and q: "ParseQname expr (start + 2) stop = (Some q, p)" and p: "p < stop" "pos = p + 1"
    and br: "char_at expr (start + 1) = CHR ''('' \<and> char_at expr p = CHR '')'' \<or>
       char_at expr (start + 1) = CHR ''{'' \<and> char_at expr p = CHR ''}''"
    and e: "e = VARREF q"
    by (auto simp: ParseVarRef.simps [of expr start] Let_def
        split: if_splits prod.splits option.splits)
  from br have open_br: "char_at expr (start + 1) = CHR ''('' \<or> char_at expr (start + 1) = CHR ''{''" by blast
  have name_q: "gen_qname (substr expr (start + 2) p) q"
    using "2.IH" [OF _ open_br _ q "2.prems"(2)] g by blast
  from string_parser_progress(1) [OF q] have "start + 2 \<le> p" by simp
  with substr_around [of start p expr] p "2.prems"(2)
  have "substr expr start pos =
    [expr ! start, expr ! Suc start] @ substr expr (start + 2) p @ [expr ! p]" by simp
  with br g p "2.prems"(2) gen_paren [OF name_q] gen_brace [OF name_q] show ?case
    by (auto simp: e)
next
  case (3 expr start stop)
  then show ?case
    by (fastforce simp: ParseTerm.simps [of expr start] dest: ParseToken_sound
        split: prod.splits option.splits)
next
  case (4 expr start stop)
  obtain to p where lp: "ParseTerm expr start stop = (to, p)" by (meson surj_pair)
  with "4.prems"(1) obtain t where t: "to = Some t"
    by (cases to) (auto simp: ParseStringExpression.simps [of expr start])
  note term_t = "4.IH"(1) [OF lp [unfolded t] "4.prems"(2)]
  obtain ro p' where rp: "ParseStringExpression expr p stop = (ro, p')" by (meson surj_pair)
  show ?case
  proof (cases ro)
    case None
    with "4.prems"(1) lp t rp have "e = t" "pos = p"
      by (auto simp: ParseStringExpression.simps [of expr start])
    with term_t show ?thesis by (simp add: gen_one)
  next
    case (Some r)
    with "4.prems"(1) lp t rp have e: "e = CONCAT t r" and pos: "pos = p'"
      by (auto simp: ParseStringExpression.simps [of expr start])
    have name_r: "gen_name (substr expr p pos) r"
      using "4.IH"(2) [OF lp [symmetric] t _ "4.prems"(2)] rp Some pos by blast
    have "substr expr start pos = substr expr start p @ substr expr p pos"
      using string_parser_progress(3) [OF lp [unfolded t]] string_parser_progress(4) [OF rp [unfolded Some]] pos
      by (simp add: substr_append)
    with gen_more [OF term_t name_r] show ?thesis by (simp add: e)
  qed
qed

section \<open>Evaluation\<close>

text \<open>\<open>VarRefEvaluator\<close> is a callback: \<open>None\<close> is its NULL.\<close>

fun EvalStringExpression :: "StringExpression \<Rightarrow> (string \<Rightarrow> string option) \<Rightarrow> string option" where
  "EvalStringExpression (CONCAT lhs rhs) evalfn =
     (case EvalStringExpression lhs evalfn of
        None \<Rightarrow> None
      | Some l \<Rightarrow> (case EvalStringExpression rhs evalfn of None \<Rightarrow> None | Some r \<Rightarrow> Some (l @ r)))"
| "EvalStringExpression (LITERAL l) evalfn = Some l"
| "EvalStringExpression (VARREF name) evalfn =
     (case EvalStringExpression name evalfn of None \<Rightarrow> None | Some n \<Rightarrow> evalfn n)"

section \<open>Printing, and parsing what was printed\<close>

text \<open>
  A canonical text for the trees the parser builds: \<open>show_name\<close> writes every reference as \<open>$(...)\<close>.
  \<open>wf_name\<close> are the trees of \<open><name>\<close> (terms nested to the right, no two adjacent tokens), \<open>wf_qname\<close>
  those of \<open><qname>\<close>.
\<close>

fun is_LITERAL :: "StringExpression \<Rightarrow> bool" where
  "is_LITERAL (LITERAL l) = True"
| "is_LITERAL (VARREF n) = False"
| "is_LITERAL (CONCAT a b) = is_LITERAL a"

fun show_name :: "StringExpression \<Rightarrow> string" where
  "show_name (LITERAL l) = l"
| "show_name (VARREF n) = ''$('' @ show_name n @ '')''"
| "show_name (CONCAT a b) = show_name a @ show_name b"

function wf_name :: "StringExpression \<Rightarrow> bool"
  and wf_qname :: "StringExpression \<Rightarrow> bool" where
  "wf_name (LITERAL l) \<longleftrightarrow> l \<noteq> [] \<and> list_all ValidTokenCharacter l"
| "wf_name (VARREF n) \<longleftrightarrow> wf_qname n"
| "wf_name (CONCAT a b) \<longleftrightarrow>
     (case a of LITERAL l \<Rightarrow> wf_name a \<and> \<not> is_LITERAL b | VARREF n \<Rightarrow> wf_name a | CONCAT _ _ \<Rightarrow> False) \<and> wf_name b"
| "wf_qname e \<longleftrightarrow> wf_name e \<or>
     (case e of CONCAT l d \<Rightarrow> (case d of CONCAT dot r \<Rightarrow> dot = LITERAL ''.'' \<and> wf_name l \<and> wf_name r | _ \<Rightarrow> False)
      | _ \<Rightarrow> False)"
  by pat_completeness auto
termination
  by (relation "measure (\<lambda>x. case x of Inl e \<Rightarrow> 2 * size e | Inr e \<Rightarrow> 2 * size e + 1)") auto

declare wf_qname.simps [simp del]

text \<open>What may follow a printed name: nothing, or a character that starts neither a token nor a reference.\<close>

definition ends_name :: "string \<Rightarrow> bool" where
  "ends_name post \<longleftrightarrow> \<not> ValidTokenCharacter (char_at post 0) \<and> char_at post 0 \<noteq> CHR ''$''"

lemma NUL_not_token [simp]: "\<not> ValidTokenCharacter NUL"
  by (simp add: ValidTokenCharacter_def)

lemma dollar_not_token [simp]: "\<not> ValidTokenCharacter (CHR ''$'')"
  by (simp add: ValidTokenCharacter_def)

lemma ends_name_Nil [simp]: "ends_name []"
  by (simp add: ends_name_def)

lemma ends_name_Cons [simp]: "ends_name (c # post) \<longleftrightarrow> \<not> ValidTokenCharacter c \<and> c \<noteq> CHR ''$''"
  by (simp add: ends_name_def)

lemma token_end_here: "\<not> ValidTokenCharacter (char_at expr start) \<Longrightarrow> token_end expr start stop = start"
  by (simp add: token_end.simps [of expr start])

lemma token_end_append:
  assumes "list_all ValidTokenCharacter l" and "\<not> ValidTokenCharacter (char_at post 0)"
  shows "token_end (pre @ l @ post) (length pre) (length (pre @ l @ post)) = length pre + length l"
  using assms
proof (induction l arbitrary: pre)
  case Nil
  then show ?case by (simp add: token_end_here)
next
  case (Cons c l)
  from Cons.IH [of "pre @ [c]"] Cons.prems
  have "token_end (pre @ (c # l) @ post) (Suc (length pre)) (length (pre @ (c # l) @ post)) = Suc (length pre) + length l"
    by simp
  with Cons.prems show ?case by (simp add: token_end.simps [of _ "length pre"])
qed

lemma ParseToken_append:
  assumes "l \<noteq> []" and "list_all ValidTokenCharacter l" and "\<not> ValidTokenCharacter (char_at post 0)"
  shows "ParseToken (pre @ l @ post) (length pre) (length (pre @ l @ post)) = (Some (LITERAL l), length pre + length l)"
  using assms token_end_append [OF assms(2,3), of pre] by (simp add: ParseToken_def Let_def)

lemma ParseStringExpression_none:
  assumes "ends_name post"
  shows "\<exists>p. ParseStringExpression (pre @ post) (length pre) (length (pre @ post)) = (None, p)"
  using assms
  by (simp add: ParseStringExpression.simps [of "pre @ post"] ParseTerm.simps [of "pre @ post"]
      ParseToken_def Let_def token_end_here ParseVarRef.simps [of "pre @ post"] ends_name_def)

lemma ParseTerm_LITERAL:
  assumes "wf_name (LITERAL l)" and "\<not> ValidTokenCharacter (char_at post 0)"
  shows "ParseTerm (pre @ l @ post) (length pre) (length (pre @ l @ post)) = (Some (LITERAL l), length pre + length l)"
  using ParseToken_append [of l post pre] assms by (simp add: ParseTerm.simps [of "pre @ l @ post"])

lemma ParseTerm_VARREF:
  assumes "ParseQname (pre @ ''$('' @ w @ '')'' @ post) (length pre + 2) (length (pre @ ''$('' @ w @ '')'' @ post))
    = (Some n, length pre + 2 + length w)"
  shows "ParseTerm (pre @ ''$('' @ w @ '')'' @ post) (length pre) (length (pre @ ''$('' @ w @ '')'' @ post))
    = (Some (VARREF n), length pre + length w + 3)"
proof -
  let ?e = "pre @ ''$('' @ w @ '')'' @ post"
  have "ParseToken ?e (length pre) (length ?e) = (None, length pre)"
    by (simp add: ParseToken_def Let_def token_end_here)
  moreover have "?e ! (length pre + 2 + length w) = CHR '')''" by (simp add: nth_append)
  moreover have "?e ! length pre = CHR ''$''" "?e ! Suc (length pre) = CHR ''(''" by (simp_all add: nth_append)
  ultimately show ?thesis using assms
    by (simp add: ParseTerm.simps ParseVarRef.simps Let_def)
qed

lemma not_LITERAL_start:
  "wf_name b \<Longrightarrow> \<not> is_LITERAL b \<Longrightarrow> char_at (show_name b @ post) 0 = CHR ''$''"
proof (induction b arbitrary: post)
  case (CONCAT a b)
  from CONCAT.prems have "wf_name a" and "\<not> is_LITERAL a"
    by (auto split: StringExpression.splits)
  from CONCAT.IH(1) [OF this, of "show_name b @ post"] show ?case by simp
qed auto

lemma ParseStringExpression_show:
  assumes "wf_name e" and "ends_name post"
  shows "ParseStringExpression (pre @ show_name e @ post) (length pre) (length (pre @ show_name e @ post))
    = (Some e, length pre + length (show_name e))"
  using assms
proof (induction e arbitrary: pre post rule: measure_induct_rule [of size])
  case (less e)
  have qname: "ParseQname (pre @ show_name q @ '')'' @ post) (length pre) (length (pre @ show_name q @ '')'' @ post))
      = (Some q, length pre + length (show_name q))" if "wf_qname q" "size q < size e" for q pre post
  proof (cases "wf_name q")
    case True
    have close: "ends_name ('')'' @ post)" by (simp add: ValidTokenCharacter_def)
    from less.IH [OF that(2) True close, of pre] show ?thesis
      by (simp add: ParseQname.simps nth_append)
  next
    case False
    with that(1) obtain l r where q: "q = CONCAT l (CONCAT (LITERAL ''.'') r)" and wf: "wf_name l" "wf_name r"
      by (auto simp: wf_qname.simps split: StringExpression.splits)
    have close: "ends_name ('')'' @ post)" "ends_name (''.'' @ show_name r @ '')'' @ post)"
      by (simp_all add: ValidTokenCharacter_def)
    from that(2) q have sz: "size l < size e" "size r < size e" by simp_all
    from less.IH [OF sz(1) wf(1) close(2), of pre]
      less.IH [OF sz(2) wf(2) close(1), of "pre @ show_name l @ ''.''"]
    show ?thesis by (simp add: q ParseQname.simps nth_append)
  qed
  have term_: "ParseTerm (pre @ show_name t @ post) (length pre) (length (pre @ show_name t @ post))
      = (Some t, length pre + length (show_name t))"
    if "wf_name t" "size t \<le> size e" "\<forall>a b. t \<noteq> CONCAT a b" "is_LITERAL t \<Longrightarrow> \<not> ValidTokenCharacter (char_at post 0)"
    for t pre post
  proof (cases t)
    case (LITERAL l)
    with that ParseTerm_LITERAL [of l post pre] show ?thesis by simp
  next
    case (VARREF n)
    with that have "wf_qname n" "size n < size e" by auto
    from qname [OF this, of "pre @ ''$(''" post] ParseTerm_VARREF [of pre "show_name n" post n]
    show ?thesis by (simp add: VARREF)
  next
    case CONCAT
    with that show ?thesis by blast
  qed
  show ?case
  proof (cases "\<exists>a b. e = CONCAT a b")
    case False
    from less.prems(2) obtain p where
      "ParseStringExpression (pre @ show_name e @ post) (length pre + length (show_name e))
         (length (pre @ show_name e @ post)) = (None, p)"
      using ParseStringExpression_none [of post "pre @ show_name e"] by auto
    with term_ [OF less.prems(1), of post pre] False less.prems(2) show ?thesis
      by (simp add: ParseStringExpression.simps [of _ "length pre"] ends_name_def)
  next
    case True
    then obtain a b where e: "e = CONCAT a b" by blast
    from less.prems(1) have wf: "wf_name a" "wf_name b" and a: "\<forall>c d. a \<noteq> CONCAT c d"
      and ab: "is_LITERAL a \<Longrightarrow> \<not> is_LITERAL b"
      by (auto simp: e split: StringExpression.splits)
    have "\<not> ValidTokenCharacter (char_at (show_name b @ post) 0)" if "is_LITERAL a"
      using not_LITERAL_start [OF wf(2) ab [OF that]] by simp
    with term_ [OF wf(1) _ a, of "show_name b @ post" pre]
    have "ParseTerm (pre @ show_name e @ post) (length pre) (length (pre @ show_name e @ post))
      = (Some a, length pre + length (show_name a))" by (simp add: e)
    moreover from less.IH [of b, OF _ wf(2) less.prems(2), of "pre @ show_name a"]
    have "ParseStringExpression (pre @ show_name e @ post) (length pre + length (show_name a))
       (length (pre @ show_name e @ post)) = (Some b, length pre + length (show_name e))"
      by (simp add: e add.assoc)
    ultimately show ?thesis
      by (simp add: ParseStringExpression.simps [of _ "length pre"] e)
  qed
qed

end
