(* ===== verification/CF_LogicExpressions.thy ===== *)
theory CF_LogicExpressions
  imports CF_StringExpressions
begin

text \<open>
  \<open>src/logic_expressions.c\<close>: class expressions such as \<open>linux.!(debian|$(os)_4)\<close>, the guards that
  decide whether a promise applies.  Parser, evaluator over three truth values, and the grammar of
  \<open>src/logic_expressions.h\<close> as the specification.
\<close>

section \<open>Data\<close>

text \<open>The constructors carry the suffix \<open>_op\<close>; in the source they are \<open>OR\<close>, \<open>AND\<close>, \<open>NOT\<close>, \<open>EVAL\<close>.\<close>

datatype Expression =
    OR_op Expression Expression
  | AND_op Expression Expression
  | NOT_op Expression
  | EVAL_op StringExpression

type_synonym ParseResult = "Expression option \<times> nat"

datatype ExpressionValue = EXP_ERROR | EXP_FALSE | EXP_TRUE

section \<open>The parser\<close>

text \<open>\<open>lhs || rhs\<close> is read as \<open>lhs | rhs\<close>: the second bar is skipped.\<close>

definition skip_second_bar :: "string \<Rightarrow> nat \<Rightarrow> nat \<Rightarrow> nat" where
  "skip_second_bar expr position stop =
     (if position + 1 < stop \<and> char_at expr (position + 1) = CHR ''|'' then position + 1 else position)"

lemma skip_second_bar_bounds [simp]:
  "position \<le> skip_second_bar expr position stop"
  "position < stop \<Longrightarrow> skip_second_bar expr position stop < stop"
  by (auto simp: skip_second_bar_def)

lemma skip_second_bar_less:
  "start < position \<Longrightarrow> position \<le> stop \<Longrightarrow> stop - Suc (skip_second_bar expr position stop) < stop - start \<or> position = stop"
  by (auto simp: skip_second_bar_def)

function ParsePrimary :: "string \<Rightarrow> nat \<Rightarrow> nat \<Rightarrow> ParseResult"
  and ParseNotExpression :: "string \<Rightarrow> nat \<Rightarrow> nat \<Rightarrow> ParseResult"
  and ParseAndExpression :: "string \<Rightarrow> nat \<Rightarrow> nat \<Rightarrow> ParseResult"
  and ParseExpression :: "string \<Rightarrow> nat \<Rightarrow> nat \<Rightarrow> ParseResult" where
  "ParsePrimary expr start stop =
     (if start < stop \<and> char_at expr start = CHR ''('' then
        (case ParseExpression expr (start + 1) stop of
           (Some r, pos) \<Rightarrow>
             if pos < stop \<and> char_at expr pos = CHR '')'' then (Some r, pos + 1) else (None, pos)
         | (None, pos) \<Rightarrow> (None, pos))
      else
        (case ParseStringExpression expr start stop of
           (Some r, pos) \<Rightarrow> (Some (EVAL_op r), pos)
         | (None, pos) \<Rightarrow> (None, pos)))"
| "ParseNotExpression expr start stop =
     (if start < stop \<and> char_at expr start = CHR ''!'' then
        (case ParsePrimary expr (start + 1) stop of
           (Some r, pos) \<Rightarrow> (Some (NOT_op r), pos)
         | (None, pos) \<Rightarrow> (None, pos))
      else ParsePrimary expr start stop)"
| "ParseAndExpression expr start stop =
     (case ParseNotExpression expr start stop of
        (None, pos) \<Rightarrow> (None, pos)
      | (Some lhs, pos) \<Rightarrow>
          if pos = stop \<or> (char_at expr pos \<noteq> CHR ''.'' \<and> char_at expr pos \<noteq> CHR ''&'') then (Some lhs, pos)
          else
            (case ParseAndExpression expr (pos + 1) stop of
               (None, pos') \<Rightarrow> (None, pos')
             | (Some rhs, pos') \<Rightarrow> (Some (AND_op lhs rhs), pos')))"
| "ParseExpression expr start stop =
     (case ParseAndExpression expr start stop of
        (None, pos) \<Rightarrow> (None, pos)
      | (Some lhs, position) \<Rightarrow>
          if position = stop \<or> char_at expr position \<noteq> CHR ''|'' then (Some lhs, position)
          else
            (case ParseExpression expr (skip_second_bar expr position stop + 1) stop of
               (None, pos') \<Rightarrow> (None, pos')
             | (Some rhs, pos') \<Rightarrow> (Some (OR_op lhs rhs), pos')))"
  by pat_completeness auto

lemma logic_parser_progress_dom:
  "ParsePrimary_ParseNotExpression_ParseAndExpression_ParseExpression_dom (Inl (Inl (expr, start, stop))) \<Longrightarrow>
     ParsePrimary expr start stop = (Some r, pos) \<Longrightarrow> start < pos \<and> pos \<le> stop"
  "ParsePrimary_ParseNotExpression_ParseAndExpression_ParseExpression_dom (Inl (Inr (expr, start, stop))) \<Longrightarrow>
     ParseNotExpression expr start stop = (Some r, pos) \<Longrightarrow> start < pos \<and> pos \<le> stop"
  "ParsePrimary_ParseNotExpression_ParseAndExpression_ParseExpression_dom (Inr (Inl (expr, start, stop))) \<Longrightarrow>
     ParseAndExpression expr start stop = (Some r, pos) \<Longrightarrow> start < pos \<and> pos \<le> stop"
  "ParsePrimary_ParseNotExpression_ParseAndExpression_ParseExpression_dom (Inr (Inr (expr, start, stop))) \<Longrightarrow>
     ParseExpression expr start stop = (Some r, pos) \<Longrightarrow> start < pos \<and> pos \<le> stop"
proof (induction expr start stop and expr start stop and expr start stop and expr start stop
    arbitrary: r pos and r pos and r pos and r pos
    rule: ParsePrimary_ParseNotExpression_ParseAndExpression_ParseExpression.pinduct)
  case (1 expr start stop)
  show ?case
    using "1.prems" "1.IH"
    by (fastforce simp: ParsePrimary.psimps [OF "1.hyps"] dest: string_parser_progress(4)
        split: prod.splits option.splits if_splits)
next
  case (2 expr start stop)
  show ?case
  proof (cases "start < stop \<and> char_at expr start = CHR ''!''")
    case True
    with "2.prems" obtain a where "ParsePrimary expr (start + 1) stop = (Some a, pos)"
      by (auto simp: ParseNotExpression.psimps [OF "2.hyps"] split: prod.splits option.splits)
    from "2.IH"(1) [OF True this] show ?thesis by simp
  next
    case False
    with "2.prems" have "ParsePrimary expr start stop = (Some r, pos)"
      by (auto simp: ParseNotExpression.psimps [OF "2.hyps"])
    with False show ?thesis by (rule "2.IH"(2))
  qed
next
  case (3 expr start stop)
  show ?case
    using "3.prems" "3.IH"(1) "3.IH"(2)
    by (fastforce simp: ParseAndExpression.psimps [OF "3.hyps"] split: prod.splits option.splits if_splits)
next
  case (4 expr start stop)
  obtain lo p where lp: "ParseAndExpression expr start stop = (lo, p)" by (meson surj_pair)
  show ?case
  proof (cases "p = stop \<or> char_at expr p \<noteq> CHR ''|''")
    case True
    with "4.prems" lp have "ParseAndExpression expr start stop = (Some r, pos)"
      by (simp add: ParseExpression.psimps [OF "4.hyps"] split: option.splits)
    then show ?thesis by (rule "4.IH"(1))
  next
    case False
    with "4.prems" lp obtain l rhs where l: "lo = Some l"
      and r: "ParseExpression expr (skip_second_bar expr p stop + 1) stop = (Some rhs, pos)"
      by (auto simp: ParseExpression.psimps [OF "4.hyps"] split: option.splits prod.splits)
    from "4.IH"(2) [OF lp [symmetric] l False r] "4.IH"(1) [OF lp [unfolded l]]
      skip_second_bar_bounds(1) [of p expr stop]
    show ?thesis by linarith
  qed
qed

lemmas logic_parser_advances_dom =
  logic_parser_progress_dom [OF _ sym]

termination ParsePrimary
  by (relation "measure (\<lambda>x. case x of
       Inl (Inl (expr, start, stop)) \<Rightarrow> 4 * (stop - start)
     | Inl (Inr (expr, start, stop)) \<Rightarrow> 4 * (stop - start) + 1
     | Inr (Inl (expr, start, stop)) \<Rightarrow> 4 * (stop - start) + 2
     | Inr (Inr (expr, start, stop)) \<Rightarrow> 4 * (stop - start) + 3)")
     (auto dest!: logic_parser_advances_dom dest: skip_second_bar_less)

declare ParsePrimary.simps [simp del] ParseNotExpression.simps [simp del]
  ParseAndExpression.simps [simp del] ParseExpression.simps [simp del]

lemmas logic_parser_induct =
  ParsePrimary_ParseNotExpression_ParseAndExpression_ParseExpression.induct

lemma logic_parser_progress:
  "ParsePrimary expr start stop = (Some r, pos) \<Longrightarrow> start < pos \<and> pos \<le> stop"
  "ParseNotExpression expr start stop = (Some r, pos) \<Longrightarrow> start < pos \<and> pos \<le> stop"
  "ParseAndExpression expr start stop = (Some r, pos) \<Longrightarrow> start < pos \<and> pos \<le> stop"
  "ParseExpression expr start stop = (Some r, pos) \<Longrightarrow> start < pos \<and> pos \<le> stop"
proof (induction expr start stop and expr start stop and expr start stop and expr start stop
    arbitrary: r pos and r pos and r pos and r pos rule: logic_parser_induct)
  case (1 expr start stop)
  show ?case using "1.prems" "1.IH"
    by (fastforce simp: ParsePrimary.simps [of expr start] dest: string_parser_progress(4)
        split: prod.splits option.splits if_splits)
next
  case (2 expr start stop)
  show ?case
  proof (cases "start < stop \<and> char_at expr start = CHR ''!''")
    case True
    with "2.prems" obtain a where "ParsePrimary expr (start + 1) stop = (Some a, pos)"
      by (auto simp: ParseNotExpression.simps [of expr start] split: prod.splits option.splits)
    from "2.IH"(1) [OF True this] show ?thesis by simp
  next
    case False
    with "2.prems" have "ParsePrimary expr start stop = (Some r, pos)"
      by (auto simp: ParseNotExpression.simps [of expr start])
    with False show ?thesis by (rule "2.IH"(2))
  qed
next
  case (3 expr start stop)
  show ?case using "3.prems" "3.IH"(1) "3.IH"(2)
    by (fastforce simp: ParseAndExpression.simps [of expr start] split: prod.splits option.splits if_splits)
next
  case (4 expr start stop)
  obtain lo p where lp: "ParseAndExpression expr start stop = (lo, p)" by (meson surj_pair)
  show ?case
  proof (cases "p = stop \<or> char_at expr p \<noteq> CHR ''|''")
    case True
    with "4.prems" lp have "ParseAndExpression expr start stop = (Some r, pos)"
      by (simp add: ParseExpression.simps [of expr start] split: option.splits)
    then show ?thesis by (rule "4.IH"(1))
  next
    case False
    with "4.prems" lp obtain l rhs where l: "lo = Some l"
      and r: "ParseExpression expr (skip_second_bar expr p stop + 1) stop = (Some rhs, pos)"
      by (auto simp: ParseExpression.simps [of expr start] split: option.splits prod.splits)
    from "4.IH"(2) [OF lp [symmetric] l False r] "4.IH"(1) [OF lp [unfolded l]]
      skip_second_bar_bounds(1) [of p expr stop]
    show ?thesis by linarith
  qed
qed

section \<open>The grammar of the header, and soundness of the parser\<close>

text \<open>
  The four classes of \<open>src/logic_expressions.h\<close>.  Conjunctions and disjunctions nest to the right to
  any length, which the parser does and the header writes out for two operands only.
\<close>

inductive gen_primary :: "string \<Rightarrow> Expression \<Rightarrow> bool"
  and gen_not :: "string \<Rightarrow> Expression \<Rightarrow> bool"
  and gen_and :: "string \<Rightarrow> Expression \<Rightarrow> bool"
  and gen_or :: "string \<Rightarrow> Expression \<Rightarrow> bool" where
  gen_bracket: "gen_or w e \<Longrightarrow> gen_primary (''('' @ w @ '')'') e"
| gen_eval: "gen_name w n \<Longrightarrow> gen_primary w (EVAL_op n)"
| gen_negation: "gen_primary w e \<Longrightarrow> gen_not (''!'' @ w) (NOT_op e)"
| gen_positive: "gen_primary w e \<Longrightarrow> gen_not w e"
| gen_and_one: "gen_not w e \<Longrightarrow> gen_and w e"
| gen_and_more: "gen_not w a \<Longrightarrow> gen_and v b \<Longrightarrow> c = CHR ''.'' \<or> c = CHR ''&'' \<Longrightarrow>
    gen_and (w @ [c] @ v) (AND_op a b)"
| gen_or_one: "gen_and w e \<Longrightarrow> gen_or w e"
| gen_or_more: "gen_and w a \<Longrightarrow> gen_or v b \<Longrightarrow> bar = ''|'' \<or> bar = ''||'' \<Longrightarrow>
    gen_or (w @ bar @ v) (OR_op a b)"

lemma substr_first: "start < pos \<Longrightarrow> pos \<le> length expr \<Longrightarrow> substr expr start pos = [expr ! start] @ substr expr (Suc start) pos"
  using substr_append [of start "Suc start" pos expr] by (simp add: substr_single)

lemma skip_second_bar_text:
  assumes "p < stop" and "stop \<le> length expr" and "char_at expr p = CHR ''|''"
  shows "substr expr p (Suc (skip_second_bar expr p stop)) = ''|'' \<or> substr expr p (Suc (skip_second_bar expr p stop)) = ''||''"
proof (cases "Suc p < stop \<and> char_at expr (Suc p) = CHR ''|''")
  case True
  with assms substr_append [of p "Suc p" "Suc (Suc p)" expr] show ?thesis
    by (auto simp: skip_second_bar_def substr_single)
next
  case False
  with assms have "skip_second_bar expr p stop = p" by (simp add: skip_second_bar_def)
  with assms show ?thesis by (simp add: substr_single)
qed

lemma logic_parser_sound:
  "ParsePrimary expr start stop = (Some e, pos) \<Longrightarrow> stop \<le> length expr \<Longrightarrow> gen_primary (substr expr start pos) e"
  "ParseNotExpression expr start stop = (Some e, pos) \<Longrightarrow> stop \<le> length expr \<Longrightarrow> gen_not (substr expr start pos) e"
  "ParseAndExpression expr start stop = (Some e, pos) \<Longrightarrow> stop \<le> length expr \<Longrightarrow> gen_and (substr expr start pos) e"
  "ParseExpression expr start stop = (Some e, pos) \<Longrightarrow> stop \<le> length expr \<Longrightarrow> gen_or (substr expr start pos) e"
proof (induction expr start stop and expr start stop and expr start stop and expr start stop
    arbitrary: e pos and e pos and e pos and e pos rule: logic_parser_induct)
  case (1 expr start stop)
  show ?case
  proof (cases "start < stop \<and> char_at expr start = CHR ''(''")
    case True
    with "1.prems" obtain p where sub: "ParseExpression expr (start + 1) stop = (Some e, p)"
      and p: "p < stop" "char_at expr p = CHR '')''" "pos = p + 1"
      by (auto simp: ParsePrimary.simps [of expr start] split: prod.splits option.splits if_splits)
    from logic_parser_progress(4) [OF sub] have "start < p" by simp
    with p True "1.prems"(2) substr_dot [of "Suc start" p pos expr] substr_first [of start pos expr]
    have "substr expr start pos = ''('' @ substr expr (start + 1) p @ '')''" by simp
    with gen_bracket [OF "1.IH" [OF True sub "1.prems"(2)]] show ?thesis by simp
  next
    case False
    with "1.prems"(1) obtain n where "ParseStringExpression expr start stop = (Some n, pos)" and "e = EVAL_op n"
      by (auto simp: ParsePrimary.simps [of expr start] split: prod.splits option.splits)
    with string_parser_sound(4) "1.prems"(2) show ?thesis by (simp add: gen_eval)
  qed
next
  case (2 expr start stop)
  show ?case
  proof (cases "start < stop \<and> char_at expr start = CHR ''!''")
    case True
    with "2.prems" obtain a where sub: "ParsePrimary expr (start + 1) stop = (Some a, pos)" and e: "e = NOT_op a"
      by (auto simp: ParseNotExpression.simps [of expr start] split: prod.splits option.splits)
    from logic_parser_progress(1) [OF sub] "2.prems"(2) True
    have "substr expr start pos = ''!'' @ substr expr (start + 1) pos"
      by (simp add: substr_first)
    with gen_negation [OF "2.IH"(1) [OF True sub "2.prems"(2)]] e show ?thesis by simp
  next
    case False
    with "2.prems"(1) have "ParsePrimary expr start stop = (Some e, pos)"
      by (auto simp: ParseNotExpression.simps [of expr start])
    from "2.IH"(2) [OF False this "2.prems"(2)] show ?thesis by (rule gen_positive)
  qed
next
  case (3 expr start stop)
  obtain lo p where lp: "ParseNotExpression expr start stop = (lo, p)" by (meson surj_pair)
  show ?case
  proof (cases "p = stop \<or> (char_at expr p \<noteq> CHR ''.'' \<and> char_at expr p \<noteq> CHR ''&'')")
    case True
    with "3.prems" lp have "ParseNotExpression expr start stop = (Some e, pos)"
      by (simp add: ParseAndExpression.simps [of expr start] split: option.splits)
    from "3.IH"(1) [OF this "3.prems"(2)] show ?thesis by (rule gen_and_one)
  next
    case False
    with "3.prems" lp obtain l r where l: "lo = Some l" and e: "e = AND_op l r"
      and r: "ParseAndExpression expr (p + 1) stop = (Some r, pos)"
      by (auto simp: ParseAndExpression.simps [of expr start] split: option.splits prod.splits)
    from logic_parser_progress(2) [OF lp [unfolded l]] logic_parser_progress(3) [OF r] "3.prems"(2)
    have b: "start < p" "p < pos" "pos \<le> length expr" by auto
    then have "substr expr start pos = substr expr start p @ [char_at expr p] @ substr expr (p + 1) pos"
      using substr_dot [of start p pos expr] by simp
    with gen_and_more [OF "3.IH"(1) [OF lp [unfolded l] "3.prems"(2)]
        "3.IH"(2) [OF lp [symmetric] l False r "3.prems"(2)], of "char_at expr p"] False
    show ?thesis by (auto simp: e)
  qed
next
  case (4 expr start stop)
  obtain lo p where lp: "ParseAndExpression expr start stop = (lo, p)" by (meson surj_pair)
  show ?case
  proof (cases "p = stop \<or> char_at expr p \<noteq> CHR ''|''")
    case True
    with "4.prems" lp have "ParseAndExpression expr start stop = (Some e, pos)"
      by (simp add: ParseExpression.simps [of expr start] split: option.splits)
    from "4.IH"(1) [OF this "4.prems"(2)] show ?thesis by (rule gen_or_one)
  next
    case False
    let ?q = "skip_second_bar expr p stop + 1"
    from False "4.prems" lp obtain l r where l: "lo = Some l" and e: "e = OR_op l r"
      and r: "ParseExpression expr ?q stop = (Some r, pos)"
      by (auto simp: ParseExpression.simps [of expr start] split: option.splits prod.splits)
    from logic_parser_progress(3) [OF lp [unfolded l]] logic_parser_progress(4) [OF r]
    have b: "start < p" "p \<le> stop" "?q < pos" by auto
    with False have "p < stop" by simp
    with skip_second_bar_text [of p stop expr] False "4.prems"(2)
    have bar: "substr expr p ?q = ''|'' \<or> substr expr p ?q = ''||''" by simp
    have q: "p \<le> ?q" by (simp add: le_SucI)
    with b have "substr expr start pos = substr expr start p @ substr expr p ?q @ substr expr ?q pos"
      by (simp only: substr_append less_imp_le order.strict_implies_order order.trans)
    with gen_or_more [OF "4.IH"(1) [OF lp [unfolded l] "4.prems"(2)]
        "4.IH"(2) [OF lp [symmetric] l False r "4.prems"(2)] bar]
    show ?thesis by (simp add: e)
  qed
qed

section \<open>Evaluation\<close>

text \<open>
  Both operands are always evaluated, and an error in either makes the result an error, also where the
  other operand would decide the value.
\<close>

fun EvalExpression ::
  "Expression \<Rightarrow> (string \<Rightarrow> ExpressionValue) \<Rightarrow> (string \<Rightarrow> string option) \<Rightarrow> ExpressionValue" where
  "EvalExpression (OR_op l r) nameevalfn varrefevalfn =
     (let lhs = EvalExpression l nameevalfn varrefevalfn
      in if lhs = EXP_ERROR then EXP_ERROR
         else let rhs = EvalExpression r nameevalfn varrefevalfn
              in if rhs = EXP_ERROR then EXP_ERROR
                 else if lhs = EXP_TRUE \<or> rhs = EXP_TRUE then EXP_TRUE else EXP_FALSE)"
| "EvalExpression (AND_op l r) nameevalfn varrefevalfn =
     (let lhs = EvalExpression l nameevalfn varrefevalfn
      in if lhs = EXP_ERROR then EXP_ERROR
         else let rhs = EvalExpression r nameevalfn varrefevalfn
              in if rhs = EXP_ERROR then EXP_ERROR
                 else if lhs = EXP_TRUE \<and> rhs = EXP_TRUE then EXP_TRUE else EXP_FALSE)"
| "EvalExpression (NOT_op a) nameevalfn varrefevalfn =
     (let arg = EvalExpression a nameevalfn varrefevalfn
      in if arg = EXP_ERROR then EXP_ERROR
         else if arg = EXP_TRUE then EXP_FALSE else EXP_TRUE)"
| "EvalExpression (EVAL_op name) nameevalfn varrefevalfn =
     (case EvalStringExpression name varrefevalfn of
        None \<Rightarrow> EXP_ERROR
      | Some n \<Rightarrow> nameevalfn n)"

text \<open>
  The reference semantics: the names an expression mentions, and its value in a classical two-valued
  interpretation of them.
\<close>

fun names_of :: "Expression \<Rightarrow> StringExpression list" where
  "names_of (OR_op l r) = names_of l @ names_of r"
| "names_of (AND_op l r) = names_of l @ names_of r"
| "names_of (NOT_op a) = names_of a"
| "names_of (EVAL_op n) = [n]"

fun holds :: "Expression \<Rightarrow> (StringExpression \<Rightarrow> bool) \<Rightarrow> bool" where
  "holds (OR_op l r) I \<longleftrightarrow> holds l I \<or> holds r I"
| "holds (AND_op l r) I \<longleftrightarrow> holds l I \<and> holds r I"
| "holds (NOT_op a) I \<longleftrightarrow> \<not> holds a I"
| "holds (EVAL_op n) I \<longleftrightarrow> I n"

definition name_value :: "(string \<Rightarrow> ExpressionValue) \<Rightarrow> (string \<Rightarrow> string option) \<Rightarrow> StringExpression \<Rightarrow> ExpressionValue" where
  "name_value nameevalfn varrefevalfn n = EvalExpression (EVAL_op n) nameevalfn varrefevalfn"

lemma EvalExpression_reference:
  "EvalExpression e nameevalfn varrefevalfn =
     (if list_ex (\<lambda>n. name_value nameevalfn varrefevalfn n = EXP_ERROR) (names_of e) then EXP_ERROR
      else if holds e (\<lambda>n. name_value nameevalfn varrefevalfn n = EXP_TRUE) then EXP_TRUE else EXP_FALSE)"
proof (induction e)
  case (EVAL_op n)
  then show ?case
    by (cases "name_value nameevalfn varrefevalfn n") (simp_all add: name_value_def)
qed (simp_all add: Let_def)

section \<open>Printing, and parsing what was printed\<close>

text \<open>
  \<open>show_expr 0\<close> writes an expression with the fewest brackets; level 1 is an operand of \<open>|\<close> on the left,
  2 an operand of \<open>.\<close> on the left, 3 the operand of \<open>!\<close>.
\<close>

fun show_expr :: "nat \<Rightarrow> Expression \<Rightarrow> string" where
  "show_expr k (OR_op a b) =
     (if k = 0 then show_expr 1 a @ ''|'' @ show_expr 0 b
      else ''('' @ show_expr 1 a @ ''|'' @ show_expr 0 b @ '')'')"
| "show_expr k (AND_op a b) =
     (if k \<le> 1 then show_expr 2 a @ ''.'' @ show_expr 1 b
      else ''('' @ show_expr 2 a @ ''.'' @ show_expr 1 b @ '')'')"
| "show_expr k (NOT_op a) =
     (if k \<le> 2 then ''!'' @ show_expr 3 a else ''(!'' @ show_expr 3 a @ '')'')"
| "show_expr k (EVAL_op n) = show_name n"

fun wf_expr :: "Expression \<Rightarrow> bool" where
  "wf_expr (OR_op a b) \<longleftrightarrow> wf_expr a \<and> wf_expr b"
| "wf_expr (AND_op a b) \<longleftrightarrow> wf_expr a \<and> wf_expr b"
| "wf_expr (NOT_op a) \<longleftrightarrow> wf_expr a"
| "wf_expr (EVAL_op n) \<longleftrightarrow> wf_name n"

text \<open>What may follow a printed operand of each level.\<close>

definition follows :: "nat \<Rightarrow> string \<Rightarrow> bool" where
  "follows k post \<longleftrightarrow> ends_name post \<and>
     (k \<le> 1 \<longrightarrow> char_at post 0 \<noteq> CHR ''.'' \<and> char_at post 0 \<noteq> CHR ''&'') \<and>
     (k = 0 \<longrightarrow> char_at post 0 \<noteq> CHR ''|'')"

text \<open>\<open>reads parse w e pre post\<close>: in the buffer \<open>pre @ w @ post\<close> the parser takes exactly \<open>w\<close> and returns \<open>e\<close>.\<close>

definition reads :: "(string \<Rightarrow> nat \<Rightarrow> nat \<Rightarrow> 'a option \<times> nat) \<Rightarrow> string \<Rightarrow> 'a \<Rightarrow> string \<Rightarrow> string \<Rightarrow> bool" where
  "reads parse w e pre post \<longleftrightarrow>
     parse (pre @ w @ post) (length pre) (length (pre @ w @ post)) = (Some e, length pre + length w)"

lemma name_first_char: "wf_name n \<Longrightarrow> c \<in> set ''!(|'' \<Longrightarrow> char_at (show_name n @ post) 0 \<noteq> c"
proof (induction n arbitrary: post)
  case (LITERAL l)
  then show ?case by (cases l) (auto simp: ValidTokenCharacter_def)
next
  case (CONCAT a b)
  then have "wf_name a" by (auto split: StringExpression.splits)
  from CONCAT.IH(1) [OF this CONCAT.prems(2), of "show_name b @ post"] show ?case by simp
qed auto

lemma reads_name:
  assumes "wf_name n" and "ends_name post"
  shows "reads ParsePrimary (show_name n) (EVAL_op n) pre post"
proof -
  have "char_at (pre @ show_name n @ post) (length pre) \<noteq> CHR ''(''"
    using name_first_char [OF assms(1), of "CHR ''(''" post] by simp
  with ParseStringExpression_show [OF assms, of pre] show ?thesis
    by (simp add: reads_def ParsePrimary.simps)
qed

lemma reads_bracket:
  assumes "reads ParseExpression w e (pre @ ''('') ('')'' @ post)"
  shows "reads ParsePrimary (''('' @ w @ '')'') e pre post"
  using assms by (simp add: reads_def ParsePrimary.simps nth_append)

lemma reads_not:
  assumes "reads ParsePrimary w e (pre @ ''!'') post"
  shows "reads ParseNotExpression (''!'' @ w) (NOT_op e) pre post"
  using assms by (simp add: reads_def ParseNotExpression.simps nth_append)

lemma reads_positive:
  assumes "reads ParsePrimary w e pre post" and "char_at (w @ post) 0 \<noteq> CHR ''!''"
  shows "reads ParseNotExpression w e pre post"
  using assms by (simp add: reads_def ParseNotExpression.simps)

lemma reads_and_one:
  assumes "reads ParseNotExpression w e pre post" and "follows 1 post"
  shows "reads ParseAndExpression w e pre post"
proof -
  have "char_at (pre @ w @ post) (length pre + length w) = char_at post 0"
    using char_at_append_right0 [of "pre @ w" post] by simp
  with assms show ?thesis
    by (simp add: reads_def ParseAndExpression.simps [of _ "length pre"] follows_def del: char_at_append_right)
qed

lemma reads_or_one:
  assumes "reads ParseAndExpression w e pre post" and "follows 0 post"
  shows "reads ParseExpression w e pre post"
proof -
  have "char_at (pre @ w @ post) (length pre + length w) = char_at post 0"
    using char_at_append_right0 [of "pre @ w" post] by simp
  with assms show ?thesis
    by (simp add: reads_def ParseExpression.simps [of _ "length pre"] follows_def del: char_at_append_right)
qed

lemma reads_and_more:
  assumes "reads ParseNotExpression w a pre (''.'' @ v @ post)"
    and "reads ParseAndExpression v b (pre @ w @ ''.'') post"
  shows "reads ParseAndExpression (w @ ''.'' @ v) (AND_op a b) pre post"
  using assms by (simp add: reads_def ParseAndExpression.simps [of _ "length pre"] nth_append)

lemma reads_or_more:
  assumes "reads ParseAndExpression w a pre (''|'' @ v @ post)"
    and "reads ParseExpression v b (pre @ w @ ''|'') post"
    and "char_at (v @ post) 0 \<noteq> CHR ''|''"
  shows "reads ParseExpression (w @ ''|'' @ v) (OR_op a b) pre post"
proof -
  have "char_at (pre @ w @ CHR ''|'' # v @ post) (Suc (length pre + length w)) = char_at (v @ post) 0"
    using char_at_append_right0 [of "pre @ w @ ''|''" "v @ post"] by simp
  with assms(3) have "skip_second_bar (pre @ w @ CHR ''|'' # v @ post) (length pre + length w)
      (Suc (length pre + (length w + (length v + length post)))) = length pre + length w"
    by (simp add: skip_second_bar_def)
  with assms(1,2) show ?thesis
    by (simp add: reads_def ParseExpression.simps [of _ "length pre"] nth_append)
qed

lemma show_first_char:
  "wf_expr e \<Longrightarrow> char_at (show_expr k e @ post) 0 \<noteq> CHR ''|''"
  "wf_expr e \<Longrightarrow> char_at (show_expr 3 e @ post) 0 \<noteq> CHR ''!''"
  by (induction e arbitrary: k post) (auto dest: name_first_char simp del: char_at_less)

lemma follows_0: "follows 0 post \<Longrightarrow> follows 1 post"
  by (simp add: follows_def)

lemma follows_1: "follows 1 post \<Longrightarrow> ends_name post"
  by (simp add: follows_def)

lemma follows_operators:
  "follows 0 ('')'' @ post)" "follows 1 (''|'' @ post)" "ends_name (''.'' @ post)"
  by (simp_all add: follows_def ValidTokenCharacter_def)

lemma parse_show:
  assumes "wf_expr e"
  shows "(ends_name post \<longrightarrow> reads ParsePrimary (show_expr 3 e) e pre post) \<and>
     (ends_name post \<longrightarrow> reads ParseNotExpression (show_expr 2 e) e pre post) \<and>
     (follows 1 post \<longrightarrow> reads ParseAndExpression (show_expr 1 e) e pre post) \<and>
     (follows 0 post \<longrightarrow> reads ParseExpression (show_expr 0 e) e pre post)"
  using assms
proof (induction e arbitrary: pre post)
  case (OR_op a b)
  have or: "reads ParseExpression (show_expr 0 (OR_op a b)) (OR_op a b) pre post"
    if "follows 0 post" for pre post
    using OR_op that show_first_char(1) [of b 0 post] follows_operators(2)
    by (simp add: reads_or_more [simplified] del: One_nat_def)
  have prim: "reads ParsePrimary (show_expr 3 (OR_op a b)) (OR_op a b) pre post" for pre post
    using reads_bracket [OF or, OF follows_operators(1)] by simp
  have no: "reads ParseNotExpression (show_expr 3 (OR_op a b)) (OR_op a b) pre post" for pre post
    using reads_positive [OF prim] by simp
  show ?case using or prim no reads_and_one [OF no] by simp
next
  case (AND_op a b)
  have and_: "reads ParseAndExpression (show_expr 1 (AND_op a b)) (AND_op a b) pre post"
    if "follows 1 post" for pre post
    using AND_op that follows_operators(3)
    by (simp add: reads_and_more [simplified] del: One_nat_def)
  have or: "reads ParseExpression (show_expr 1 (AND_op a b)) (AND_op a b) pre post"
    if "follows 0 post" for pre post
    using reads_or_one [OF and_] that follows_0 by simp
  have prim: "reads ParsePrimary (show_expr 3 (AND_op a b)) (AND_op a b) pre post" for pre post
    using reads_bracket [OF or, OF follows_operators(1)] by simp
  have no: "reads ParseNotExpression (show_expr 3 (AND_op a b)) (AND_op a b) pre post" for pre post
    using reads_positive [OF prim] by simp
  show ?case using and_ or prim no by simp
next
  case (NOT_op a)
  have no: "reads ParseNotExpression (show_expr 2 (NOT_op a)) (NOT_op a) pre post"
    if "ends_name post" for pre post
    using NOT_op that reads_not by simp
  have and_: "reads ParseAndExpression (show_expr 2 (NOT_op a)) (NOT_op a) pre post"
    if "follows 1 post" for pre post
    using reads_and_one [OF no] that follows_1 by simp
  have or: "reads ParseExpression (show_expr 2 (NOT_op a)) (NOT_op a) pre post"
    if "follows 0 post" for pre post
    using reads_or_one [OF and_] that follows_0 by simp
  have prim: "reads ParsePrimary (show_expr 3 (NOT_op a)) (NOT_op a) pre post" for pre post
    using reads_bracket [OF or, OF follows_operators(1)] by simp
  show ?case using no and_ or prim by simp
next
  case (EVAL_op n)
  then have wf: "wf_name n" by simp
  have no: "reads ParseNotExpression (show_name n) (EVAL_op n) pre post" if "ends_name post" for pre post
    using reads_positive [OF reads_name [OF wf that]] name_first_char [OF wf] by simp
  have and_: "reads ParseAndExpression (show_name n) (EVAL_op n) pre post" if "follows 1 post" for pre post
    using reads_and_one [OF no] that follows_1 by simp
  have or: "reads ParseExpression (show_name n) (EVAL_op n) pre post" if "follows 0 post" for pre post
    using reads_or_one [OF and_] that follows_0 by simp
  show ?case using reads_name [OF wf] no and_ or by simp
qed

section \<open>Properties of the expression parsers\<close>

definition sample_name :: StringExpression where
  "sample_name = CONCAT (LITERAL ''web_'') (VARREF (CONCAT (LITERAL ''sys'') (CONCAT (LITERAL ''.'') (LITERAL ''host''))))"

definition sample_expr :: Expression where
  "sample_expr = OR_op (AND_op (EVAL_op (LITERAL ''linux'')) (NOT_op (OR_op (EVAL_op (LITERAL ''debian'')) (EVAL_op sample_name))))
     (EVAL_op (LITERAL ''any''))"

lemma sample_name_wf: "wf_name sample_name"
  by (simp add: sample_name_def ValidTokenCharacter_def wf_qname.simps)

lemma sample_expr_wf: "wf_expr sample_expr"
  by (simp add: sample_expr_def sample_name_wf ValidTokenCharacter_def)

text \<open>C1: Parsing a printed class expression reads the whole text and gives back the expression: no operator,
  bracket or name is lost, and the precedences of the printer are those of the parser.\<close>

lemma ParseExpression_prints:
  assumes "wf_expr e"
  shows "ParseExpression (show_expr 0 e) 0 (length (show_expr 0 e)) = (Some e, length (show_expr 0 e))"
proof -
  have "follows 0 []" by (simp add: follows_def)
  with parse_show [OF assms, of "[]" "[]"] show ?thesis by (simp add: reads_def)
qed

lemma ParseExpression_prints_witness:
  "ParseExpression (show_expr 0 sample_expr) 0 (length (show_expr 0 sample_expr)) = (Some sample_expr, length (show_expr 0 sample_expr))"
  by (rule ParseExpression_prints [OF sample_expr_wf])

text \<open>C2: What the class expression parser accepts is in the language of the grammar, with the tree the grammar
  gives it, and the parser has consumed at least one character and stays inside the range it was given.\<close>

lemma ParseExpression_sound:
  assumes "ParseExpression expr start stop = (Some e, pos)" and "stop \<le> length expr"
  shows "gen_or (substr expr start pos) e \<and> start < pos \<and> pos \<le> stop"
  using logic_parser_sound(4) [OF assms] logic_parser_progress(4) [OF assms(1)] by simp

lemma ParseExpression_sound_witness:
  "gen_or (substr (show_expr 0 sample_expr) 0 (length (show_expr 0 sample_expr))) sample_expr \<and>
   0 < length (show_expr 0 sample_expr) \<and> length (show_expr 0 sample_expr) \<le> length (show_expr 0 sample_expr)"
proof (rule ParseExpression_sound)
  have "follows 0 []" by (simp add: follows_def)
  with parse_show [OF sample_expr_wf, of "[]" "[]"]
  show "ParseExpression (show_expr 0 sample_expr) 0 (length (show_expr 0 sample_expr)) = (Some sample_expr, length (show_expr 0 sample_expr))"
    by (simp add: reads_def)
qed simp

text \<open>C3: The evaluator computes the classical value of the expression from the values of its names, and is an error
  exactly when the evaluation of some name is, wherever in the expression the name stands.\<close>

lemma EvalExpression_classical:
  "EvalExpression e nameevalfn varrefevalfn =
     (if list_ex (\<lambda>n. name_value nameevalfn varrefevalfn n = EXP_ERROR) (names_of e) then EXP_ERROR
      else if holds e (\<lambda>n. name_value nameevalfn varrefevalfn n = EXP_TRUE) then EXP_TRUE else EXP_FALSE)"
  by (rule EvalExpression_reference)

text \<open>The name parser takes exactly the printed name in front of a character that cannot continue it, with its
  tree, variable references nested to any depth included.\<close>

lemma ParseStringExpression_prints:
  assumes "wf_name e" and "ends_name post"
  shows "ParseStringExpression (pre @ show_name e @ post) (length pre) (length (pre @ show_name e @ post))
    = (Some e, length pre + length (show_name e))"
  by (rule ParseStringExpression_show [OF assms])

lemma ParseStringExpression_prints_witness:
  "ParseStringExpression (''!'' @ show_name sample_name @ ''|x'') (length ''!'') (length (''!'' @ show_name sample_name @ ''|x''))
    = (Some sample_name, length ''!'' + length (show_name sample_name))"
  by (rule ParseStringExpression_prints [OF sample_name_wf]) (simp add: ValidTokenCharacter_def)

end
