(* ===== verification/CF_Sequence.thy ===== *)
theory CF_Sequence
  imports CF_Prelude
begin

text \<open>
  \<open>src/sequence.c\<close>: the growable array behind policies and JSON containers.  A sequence is its
  capacity, the first \<open>length\<close> cells of \<open>data\<close>, and whether an \<open>ItemDestroy\<close> callback was given; the
  operations that destroy items also return the items they pass to it, in order.
\<close>

section \<open>Data and operations\<close>

datatype 'a Sequence = Sequence (seq_capacity: nat) (seq_data: "'a list") (seq_ItemDestroy: bool)

abbreviation seq_length :: "'a Sequence \<Rightarrow> nat" where
  "seq_length seq \<equiv> length (seq_data seq)"

definition EXPAND_FACTOR :: nat where
  "EXPAND_FACTOR = 2"

definition SequenceCreate :: "nat \<Rightarrow> bool \<Rightarrow> 'a Sequence" where
  "SequenceCreate initialCapacity destroy =
     (let initialCapacity' = (if initialCapacity \<le> 0 then 1 else initialCapacity)
      in Sequence initialCapacity' [] destroy)"

text \<open>The items \<open>data[start..stop]\<close>, both ends included, go to the callback.\<close>

definition DestroyRange :: "'a Sequence \<Rightarrow> nat \<Rightarrow> nat \<Rightarrow> 'a list" where
  "DestroyRange seq start stop =
     (if seq_ItemDestroy seq then substr (seq_data seq) start (Suc stop) else [])"

definition SequenceDestroy :: "'a Sequence \<Rightarrow> 'a list" where
  "SequenceDestroy seq =
     (if seq_length seq > 0 then DestroyRange seq 0 (seq_length seq - 1) else [])"

definition ExpandIfNeccessary :: "'a Sequence \<Rightarrow> 'a Sequence res" where
  "ExpandIfNeccessary seq =
     c_assert (seq_length seq \<le> seq_capacity seq)
       (Inr (if seq_length seq = seq_capacity seq
             then Sequence (seq_capacity seq * EXPAND_FACTOR) (seq_data seq) (seq_ItemDestroy seq)
             else seq))"

text \<open>Writing \<open>data[length]\<close> needs a cell behind the items.\<close>

definition SequenceAppend :: "'a Sequence \<Rightarrow> 'a \<Rightarrow> 'a Sequence res" where
  "SequenceAppend seq item =
     res_bind (ExpandIfNeccessary seq) (\<lambda>seq'.
       if seq_length seq' < seq_capacity seq'
       then Inr (Sequence (seq_capacity seq') (seq_data seq' @ [item]) (seq_ItemDestroy seq'))
       else Inl OutOfBounds)"

text \<open>The \<open>memmove\<close> and the new length, shared by the two removals.\<close>

definition drop_range :: "'a Sequence \<Rightarrow> nat \<Rightarrow> nat \<Rightarrow> 'a Sequence" where
  "drop_range seq start stop =
     (let rest_len = seq_length seq - stop - 1;
          data' = (if rest_len > 0
                   then take start (seq_data seq) @ take rest_len (drop (stop + 1) (seq_data seq))
                   else take start (seq_data seq))
      in Sequence (seq_capacity seq) data' (seq_ItemDestroy seq))"

definition SequenceRemoveRange :: "'a Sequence \<Rightarrow> nat \<Rightarrow> nat \<Rightarrow> ('a Sequence \<times> 'a list) res" where
  "SequenceRemoveRange seq start stop =
     c_assert (stop < seq_length seq) (c_assert (start \<le> stop)
       (Inr (drop_range seq start stop, DestroyRange seq start stop)))"

definition SequenceRemove :: "'a Sequence \<Rightarrow> nat \<Rightarrow> ('a Sequence \<times> 'a list) res" where
  "SequenceRemove seq index = SequenceRemoveRange seq index index"

definition SequenceSoftRemoveRange :: "'a Sequence \<Rightarrow> nat \<Rightarrow> nat \<Rightarrow> 'a Sequence res" where
  "SequenceSoftRemoveRange seq start stop =
     c_assert (stop < seq_length seq) (c_assert (start \<le> stop) (Inr (drop_range seq start stop)))"

definition SequenceSoftRemove :: "'a Sequence \<Rightarrow> nat \<Rightarrow> 'a Sequence res" where
  "SequenceSoftRemove seq index = SequenceSoftRemoveRange seq index index"

fun lookup_loop :: "'k \<Rightarrow> ('k \<Rightarrow> 'a \<Rightarrow> int) \<Rightarrow> 'a list \<Rightarrow> 'a option" where
  "lookup_loop key Compare [] = None"
| "lookup_loop key Compare (x # xs) = (if Compare key x = 0 then Some x else lookup_loop key Compare xs)"

definition SequenceLookup :: "'a Sequence \<Rightarrow> 'k \<Rightarrow> ('k \<Rightarrow> 'a \<Rightarrow> int) \<Rightarrow> 'a option" where
  "SequenceLookup seq key Compare = lookup_loop key Compare (seq_data seq)"

fun index_loop :: "'k \<Rightarrow> ('k \<Rightarrow> 'a \<Rightarrow> int) \<Rightarrow> 'a list \<Rightarrow> nat \<Rightarrow> int" where
  "index_loop key Compare [] i = -1"
| "index_loop key Compare (x # xs) i = (if Compare key x = 0 then int i else index_loop key Compare xs (Suc i))"

definition SequenceIndexOf :: "'a Sequence \<Rightarrow> 'k \<Rightarrow> ('k \<Rightarrow> 'a \<Rightarrow> int) \<Rightarrow> int" where
  "SequenceIndexOf seq key Compare = index_loop key Compare (seq_data seq) 0"

definition Swap :: "'a list \<Rightarrow> nat \<Rightarrow> nat \<Rightarrow> 'a list" where
  "Swap data l r = data[l := data ! r, r := data ! l]"

function reverse_loop :: "'a list \<Rightarrow> nat \<Rightarrow> 'a list" where
  "reverse_loop data i =
     (if i < length data div 2 then reverse_loop (Swap data i (length data - 1 - i)) (Suc i) else data)"
  by pat_completeness auto
termination
  by (relation "measure (\<lambda>(data, i). length data div 2 - i)") (auto simp: Swap_def)

declare reverse_loop.simps [simp del]

definition SequenceReverse :: "'a Sequence \<Rightarrow> 'a Sequence" where
  "SequenceReverse seq = Sequence (seq_capacity seq) (reverse_loop (seq_data seq) 0) (seq_ItemDestroy seq)"

section \<open>Sorting\<close>

text \<open>
  \<open>QuickSortRecursive\<close> partitions with two cursors.  The model checks every read of \<open>*l\<close> and \<open>*r\<close>
  against the array and returns \<open>OutOfBounds\<close> for one outside; \<open>r\<close> may end one before the array.
\<close>

function scan_up :: "('a \<Rightarrow> 'a \<Rightarrow> int) \<Rightarrow> 'a \<Rightarrow> 'a list \<Rightarrow> int \<Rightarrow> int res" where
  "scan_up Compare pivot data l =
     (if l < 0 \<or> l \<ge> int (length data) then Inl OutOfBounds
      else if Compare (data ! nat l) pivot < 0 then scan_up Compare pivot data (l + 1) else Inr l)"
  by pat_completeness auto
termination
  by (relation "measure (\<lambda>(Compare, pivot, data, l). nat (int (length data) - l))") auto

function scan_down :: "('a \<Rightarrow> 'a \<Rightarrow> int) \<Rightarrow> 'a \<Rightarrow> 'a list \<Rightarrow> int \<Rightarrow> int res" where
  "scan_down Compare pivot data r =
     (if r < 0 \<or> r \<ge> int (length data) then Inl OutOfBounds
      else if Compare (data ! nat r) pivot > 0 then scan_down Compare pivot data (r - 1) else Inr r)"
  by pat_completeness auto
termination
  by (relation "measure (\<lambda>(Compare, pivot, data, r). nat (r + 1))") auto

declare scan_up.simps [simp del] scan_down.simps [simp del]

lemma scan_up_ge: "scan_up Compare pivot data l = Inr l' \<Longrightarrow> l \<le> l'"
  by (induction Compare pivot data l rule: scan_up.induct)
     (force simp: scan_up.simps split: if_splits)

lemma scan_down_le: "scan_down Compare pivot data r = Inr r' \<Longrightarrow> r' \<le> r"
  by (induction Compare pivot data r rule: scan_down.induct)
     (force simp: scan_down.simps split: if_splits)

function partition_loop ::
  "('a \<Rightarrow> 'a \<Rightarrow> int) \<Rightarrow> 'a \<Rightarrow> 'a list \<Rightarrow> int \<Rightarrow> int \<Rightarrow> ('a list \<times> int \<times> int) res" where
  "partition_loop Compare pivot data l r =
     (if l \<le> r then
        (case scan_up Compare pivot data l of
           Inl e \<Rightarrow> Inl e
         | Inr l' \<Rightarrow>
             (case scan_down Compare pivot data r of
                Inl e \<Rightarrow> Inl e
              | Inr r' \<Rightarrow>
                  if l' \<le> r'
                  then partition_loop Compare pivot (Swap data (nat l') (nat r')) (l' + 1) (r' - 1)
                  else Inr (data, l', r')))
      else Inr (data, l, r))"
  by pat_completeness auto
termination
  by (relation "measure (\<lambda>(Compare, pivot, data, l, r). nat (r - l + 1))")
     (auto dest!: scan_up_ge scan_down_le)

declare partition_loop.simps [simp del]

text \<open>The depth assertion \<open>maxterm < 1000\<close> is also what makes the recursion end for any comparator.\<close>

function QuickSortRecursive :: "('a \<Rightarrow> 'a \<Rightarrow> int) \<Rightarrow> 'a list \<Rightarrow> nat \<Rightarrow> 'a list res" where
  "QuickSortRecursive Compare data maxterm =
     (if \<not> maxterm < 1000 then Inl AssertionFailed
      else if length data < 2 then Inr data
      else
        (case partition_loop Compare (data ! (length data div 2)) data 0 (int (length data) - 1) of
           Inl e \<Rightarrow> Inl e
         | Inr (data', l, r) \<Rightarrow>
             (case QuickSortRecursive Compare (take (nat (r + 1)) data') (maxterm + 1) of
                Inl e \<Rightarrow> Inl e
              | Inr left \<Rightarrow>
                  (case QuickSortRecursive Compare (drop (nat l) data') (maxterm + 1) of
                     Inl e \<Rightarrow> Inl e
                   | Inr right \<Rightarrow> Inr (left @ substr data' (nat (r + 1)) (nat l) @ right)))))"
  by pat_completeness auto
termination
  by (relation "measure (\<lambda>(Compare, data, maxterm). 1000 - maxterm)") auto

declare QuickSortRecursive.simps [simp del]

definition SequenceSort :: "'a Sequence \<Rightarrow> ('a \<Rightarrow> 'a \<Rightarrow> int) \<Rightarrow> 'a Sequence res" where
  "SequenceSort seq Compare =
     res_bind (QuickSortRecursive Compare (seq_data seq) 0) (\<lambda>data'.
       Inr (Sequence (seq_capacity seq) data' (seq_ItemDestroy seq)))"

section \<open>Invariant and functional behaviour\<close>

definition seq_invar :: "'a Sequence \<Rightarrow> bool" where
  "seq_invar seq \<longleftrightarrow> seq_length seq \<le> seq_capacity seq \<and> 0 < seq_capacity seq"

lemma seq_invar_Create: "seq_invar (SequenceCreate n d)"
  by (simp add: seq_invar_def SequenceCreate_def)

lemma SequenceCreate_data [simp]: "seq_data (SequenceCreate n d) = []"
  by (simp add: SequenceCreate_def)

lemma SequenceAppend_ok:
  assumes "seq_invar seq"
  shows "\<exists>seq'. SequenceAppend seq x = Inr seq' \<and> seq_data seq' = seq_data seq @ [x] \<and> seq_invar seq' \<and>
    seq_ItemDestroy seq' = seq_ItemDestroy seq"
  using assms by (auto simp: SequenceAppend_def ExpandIfNeccessary_def seq_invar_def EXPAND_FACTOR_def)

lemma drop_range_data:
  assumes "stop < seq_length seq" and "start \<le> stop"
  shows "seq_data (drop_range seq start stop) = take start (seq_data seq) @ drop (Suc stop) (seq_data seq)"
proof -
  have "take (seq_length seq - Suc stop) (drop (Suc stop) (seq_data seq)) = drop (Suc stop) (seq_data seq)"
    by simp
  with assms show ?thesis by (simp add: drop_range_def Let_def)
qed

lemma seq_invar_drop_range:
  assumes "seq_invar seq" and "stop < seq_length seq" and "start \<le> stop"
  shows "seq_invar (drop_range seq start stop)"
proof -
  have "length (take start (seq_data seq) @ drop (Suc stop) (seq_data seq)) \<le> seq_length seq"
    using assms(2,3) by simp
  with assms show ?thesis
    by (simp add: seq_invar_def drop_range_data) (simp add: drop_range_def Let_def)
qed

lemma lookup_loop_find: "lookup_loop key Compare xs = find (\<lambda>x. Compare key x = 0) xs"
  by (induction xs) auto

lemma index_loop_bound:
  "index_loop key Compare xs i = int j \<Longrightarrow> i \<le> j \<and> j < i + length xs \<and> Compare key (xs ! (j - i)) = 0"
proof (induction xs arbitrary: i)
  case (Cons x xs)
  show ?case
  proof (cases "Compare key x = 0")
    case True
    with Cons.prems show ?thesis by auto
  next
    case False
    with Cons.prems Cons.IH [of "Suc i"] show ?thesis by (auto simp: nth_Cons')
  qed
qed auto

lemma index_loop_minus: "index_loop key Compare xs i = -1 \<or> (\<exists>j. index_loop key Compare xs i = int j)"
  by (induction xs arbitrary: i) auto

lemma index_lookup_loop:
  "lookup_loop key Compare xs = (if index_loop key Compare xs i = -1 then None
     else Some (xs ! (nat (index_loop key Compare xs i) - i)))"
proof (induction xs arbitrary: i)
  case (Cons x xs)
  show ?case
  proof (cases "Compare key x = 0")
    case False
    have "index_loop key Compare xs (Suc i) \<noteq> -1 \<Longrightarrow> Suc i \<le> nat (index_loop key Compare xs (Suc i))"
      using index_loop_minus [of key Compare xs "Suc i"] index_loop_bound [of key Compare xs "Suc i"] by auto
    with False Cons.IH [of "Suc i"] show ?thesis by (auto simp: nth_Cons')
  qed auto
qed auto

section \<open>Reversal\<close>

lemma length_Swap [simp]: "length (Swap data l r) = length data"
  by (simp add: Swap_def)

lemma mset_Swap: "l < length data \<Longrightarrow> r < length data \<Longrightarrow> mset (Swap data l r) = mset data"
  unfolding Swap_def by (rule mset_swap)

lemma nth_Swap:
  "l < length data \<Longrightarrow> r < length data \<Longrightarrow> k < length data \<Longrightarrow>
     Swap data l r ! k = (if k = r then data ! l else if k = l then data ! r else data ! k)"
  by (simp add: Swap_def nth_list_update)

lemma reverse_loop_nth:
  "(\<And>k. k < length data \<Longrightarrow> data ! k = (if k < i \<or> length data - 1 - k < i then xs ! (length data - 1 - k) else xs ! k)) \<Longrightarrow>
   length xs = length data \<Longrightarrow> i \<le> length data div 2 \<Longrightarrow> reverse_loop data i = rev xs"
proof (induction data i rule: reverse_loop.induct)
  case (1 data i)
  show ?case
  proof (cases "i < length data div 2")
    case True
    let ?d = "Swap data i (length data - 1 - i)"
    have "?d ! k = (if k < Suc i \<or> length ?d - 1 - k < Suc i then xs ! (length ?d - 1 - k) else xs ! k)"
      if k: "k < length ?d" for k
      using True k "1.prems"(1) [of k] "1.prems"(1) [of i] "1.prems"(1) [of "length data - 1 - i"]
      by (auto simp: nth_Swap)
    with 1(1) [OF True] "1.prems"(2) True show ?thesis
      by (simp add: reverse_loop.simps [of data i])
  next
    case False
    have "data = rev xs"
    proof (rule nth_equalityI)
      fix k assume k: "k < length data"
      with "1.prems"(2) have r: "rev xs ! k = xs ! (length data - 1 - k)" by (simp add: rev_nth)
      show "data ! k = rev xs ! k"
      proof (cases "k < i \<or> length data - 1 - k < i")
        case True
        with "1.prems"(1) [OF k] r show ?thesis by simp
      next
        case mid: False
        with False k have "length data - 1 - k = k" by linarith
        with "1.prems"(1) [OF k] r show ?thesis by simp
      qed
    qed (use "1.prems"(2) in simp)
    with False show ?thesis by (subst reverse_loop.simps) simp
  qed
qed

lemma SequenceReverse_data: "seq_data (SequenceReverse seq) = rev (seq_data seq)"
  unfolding SequenceReverse_def Sequence.sel
  by (rule reverse_loop_nth) auto

section \<open>Comparators\<close>

text \<open>What \<open>SequenceSort\<close> needs of its callback: the sign of a total preorder.\<close>

locale comparator =
  fixes Compare :: "'a \<Rightarrow> 'a \<Rightarrow> int"
  assumes flip: "Compare x y < 0 \<longleftrightarrow> Compare y x > 0"
    and trans_le: "Compare x y \<le> 0 \<Longrightarrow> Compare y z \<le> 0 \<Longrightarrow> Compare x z \<le> 0"
begin

lemma refl0: "Compare x x = 0"
  using flip [of x x] by linarith

lemma ge_flip: "Compare x y \<ge> 0 \<longleftrightarrow> Compare y x \<le> 0"
  using flip [of x y] by linarith

lemma scan_up_stops:
  assumes "0 \<le> l" and "l \<le> int i" and "i < length data" and "Compare (data ! i) pivot \<ge> 0"
  shows "\<exists>l'. scan_up Compare pivot data l = Inr l' \<and> l \<le> l' \<and> l' \<le> int i \<and>
    Compare (data ! nat l') pivot \<ge> 0 \<and> (\<forall>k. l \<le> int k \<and> int k < l' \<longrightarrow> Compare (data ! k) pivot < 0)"
  using assms
proof (induction Compare pivot data l rule: scan_up.induct)
  case (1 Compare pivot data l)
  show ?case
  proof (cases "Compare (data ! nat l) pivot < 0")
    case True
    with "1.prems" have "l \<noteq> int i" by auto
    with "1.prems" have l: "l + 1 \<le> int i" "0 \<le> l + 1" by auto
    have g: "\<not> (l < 0 \<or> int (length data) \<le> l)" using "1.prems" by auto
    from "1.IH" [OF g True l(2,1) "1.prems"(3,4)] obtain l' where
      l': "scan_up Compare pivot data (l + 1) = Inr l'" "l + 1 \<le> l'" "l' \<le> int i" "Compare (data ! nat l') pivot \<ge> 0"
        "\<forall>k. l + 1 \<le> int k \<and> int k < l' \<longrightarrow> Compare (data ! k) pivot < 0" by blast
    have "Compare (data ! k) pivot < 0" if "l \<le> int k" "int k < l'" for k
    proof (cases "int k = l")
      case True
      then have "k = nat l" by simp
      with \<open>Compare (data ! nat l) pivot < 0\<close> show ?thesis by simp
    next
      case False
      with that l'(5) show ?thesis by simp
    qed
    with g True l' show ?thesis by (intro exI [of _ l']) (simp add: scan_up.simps [of _ _ _ l])
  next
    case False
    with "1.prems" show ?thesis by (auto simp: scan_up.simps [of _ _ _ l])
  qed
qed

lemma scan_down_stops:
  assumes "r < int (length data)" and "int i \<le> r" and "Compare (data ! i) pivot \<le> 0"
  shows "\<exists>r'. scan_down Compare pivot data r = Inr r' \<and> r' \<le> r \<and> int i \<le> r' \<and>
    Compare (data ! nat r') pivot \<le> 0 \<and> (\<forall>k. r' < int k \<and> int k \<le> r \<longrightarrow> Compare (data ! k) pivot > 0)"
  using assms
proof (induction Compare pivot data r rule: scan_down.induct)
  case (1 Compare pivot data r)
  show ?case
  proof (cases "Compare (data ! nat r) pivot > 0")
    case True
    with "1.prems" have "r \<noteq> int i" by auto
    with "1.prems" have r: "int i \<le> r - 1" "r - 1 < int (length data)" by auto
    have g: "\<not> (r < 0 \<or> int (length data) \<le> r)" using "1.prems" by auto
    from "1.IH" [OF g True r(2,1) "1.prems"(3)] obtain r' where
      r': "scan_down Compare pivot data (r - 1) = Inr r'" "r' \<le> r - 1" "int i \<le> r'" "Compare (data ! nat r') pivot \<le> 0"
        "\<forall>k. r' < int k \<and> int k \<le> r - 1 \<longrightarrow> Compare (data ! k) pivot > 0" by blast
    have "Compare (data ! k) pivot > 0" if "r' < int k" "int k \<le> r" for k
    proof (cases "int k = r")
      case True
      then have "k = nat r" by simp
      with \<open>Compare (data ! nat r) pivot > 0\<close> show ?thesis by simp
    next
      case False
      with that r'(5) show ?thesis by simp
    qed
    with g True r' show ?thesis by (intro exI [of _ r']) (simp add: scan_down.simps [of _ _ _ r])
  next
    case False
    with "1.prems" show ?thesis by (auto simp: scan_down.simps [of _ _ _ r])
  qed
qed

text \<open>What holds between two rounds of the partition loop.\<close>

definition part_inv :: "'a \<Rightarrow> 'a list \<Rightarrow> int \<Rightarrow> int \<Rightarrow> bool" where
  "part_inv pivot data l r \<longleftrightarrow> 0 \<le> l \<and> r < int (length data) \<and> -1 \<le> r \<and> l \<le> int (length data) \<and>
     (\<forall>k. int k < l \<longrightarrow> Compare (data ! k) pivot \<le> 0) \<and>
     (\<forall>k < length data. r < int k \<longrightarrow> Compare (data ! k) pivot \<ge> 0) \<and>
     (l \<le> r \<longrightarrow> (\<exists>i < length data. l \<le> int i \<and> Compare (data ! i) pivot \<ge> 0) \<and>
       (\<exists>i. int i \<le> r \<and> Compare (data ! i) pivot \<le> 0))"

definition part_done :: "'a \<Rightarrow> 'a list \<Rightarrow> int \<Rightarrow> int \<Rightarrow> bool" where
  "part_done pivot data l r \<longleftrightarrow> 0 \<le> l \<and> r < int (length data) \<and> -1 \<le> r \<and> l \<le> int (length data) \<and> r < l \<and>
     (\<forall>k. int k < l \<longrightarrow> Compare (data ! k) pivot \<le> 0) \<and>
     (\<forall>k < length data. r < int k \<longrightarrow> Compare (data ! k) pivot \<ge> 0)"

lemma part_inv_swap:
  assumes inv: "part_inv pivot data l r" and le: "l' \<le> r'" and b: "l \<le> l'" "r' \<le> r"
    and x: "Compare (data ! nat l') pivot \<ge> 0" and y: "Compare (data ! nat r') pivot \<le> 0"
    and up: "\<forall>k. l \<le> int k \<and> int k < l' \<longrightarrow> Compare (data ! k) pivot < 0"
    and down: "\<forall>k. r' < int k \<and> int k \<le> r \<longrightarrow> Compare (data ! k) pivot > 0"
  shows "part_inv pivot (Swap data (nat l') (nat r')) (l' + 1) (r' - 1)"
proof -
  from inv le b have len: "nat l' < length data" "nat r' < length data" and n: "0 \<le> l'" "0 \<le> r'" "l' < int (length data)" "r' < int (length data)"
    by (auto simp: part_inv_def)
  have before: "Compare (Swap data (nat l') (nat r') ! k) pivot \<le> 0" if k: "int k < l' + 1" for k
  proof (cases "k = nat l'")
    case True
    with len y x le show ?thesis by (auto simp: nth_Swap)
  next
    case False
    with k n have k': "int k < l'" "k < length data" "k \<noteq> nat r'" using le by auto
    then have "Compare (data ! k) pivot \<le> 0"
      using inv up by (cases "int k < l") (auto simp: part_inv_def order.strict_implies_order)
    with False k' len show ?thesis by (simp add: nth_Swap)
  qed
  have after: "Compare (Swap data (nat l') (nat r') ! k) pivot \<ge> 0" if k: "r' - 1 < int k" "k < length data" for k
  proof (cases "k = nat r'")
    case True
    with len x show ?thesis by (auto simp: nth_Swap)
  next
    case False
    with k n le have k': "r' < int k" "k \<noteq> nat l'" by auto
    then have "Compare (data ! k) pivot \<ge> 0"
      using inv down k(2) by (cases "r < int k") (auto simp: part_inv_def order.strict_implies_order)
    with False k' k(2) len show ?thesis by (simp add: nth_Swap)
  qed
  have "\<exists>i < length data. l' + 1 \<le> int i \<and> Compare (Swap data (nat l') (nat r') ! i) pivot \<ge> 0"
    if "l' + 1 \<le> r' - 1"
    using len n that after [of "nat r'"] by (intro exI [of _ "nat r'"]) auto
  moreover have "\<exists>i. int i \<le> r' - 1 \<and> Compare (Swap data (nat l') (nat r') ! i) pivot \<le> 0"
    if "l' + 1 \<le> r' - 1"
    using n that before [of "nat l'"] by (intro exI [of _ "nat l'"]) auto
  ultimately show ?thesis using before after n le by (auto simp: part_inv_def)
qed

lemma part_inv_stop:
  assumes inv: "part_inv pivot data l r" and gt: "\<not> l' \<le> r'" and b: "l \<le> l'" "r' \<le> r"
    and up: "\<forall>k. l \<le> int k \<and> int k < l' \<longrightarrow> Compare (data ! k) pivot < 0"
    and down: "\<forall>k. r' < int k \<and> int k \<le> r \<longrightarrow> Compare (data ! k) pivot > 0"
    and n: "l' \<le> int (length data)" "-1 \<le> r'"
  shows "part_done pivot data l' r'"
proof -
  have "Compare (data ! k) pivot \<le> 0" if "int k < l'" for k
    using inv up that by (cases "int k < l") (auto simp: part_inv_def order.strict_implies_order)
  moreover have "Compare (data ! k) pivot \<ge> 0" if "r' < int k" "k < length data" for k
    using inv down that by (cases "r < int k") (auto simp: part_inv_def order.strict_implies_order)
  ultimately show ?thesis using inv gt b n by (auto simp: part_done_def part_inv_def)
qed

lemma partition_loop_done:
  assumes "part_inv pivot data l r"
  shows "\<exists>data' l' r'. partition_loop Compare pivot data l r = Inr (data', l', r') \<and> part_done pivot data' l' r' \<and>
    mset data' = mset data \<and> l \<le> l' \<and> r' \<le> r"
  using assms
proof (induction "nat (r - l + 1)" arbitrary: data l r rule: less_induct)
  case less
  show ?case
  proof (cases "l \<le> r")
    case False
    with less.prems show ?thesis
      by (auto simp: partition_loop.simps [of _ _ data l r] part_inv_def part_done_def)
  next
    case True
    with less.prems obtain i j where i: "i < length data" "l \<le> int i" "Compare (data ! i) pivot \<ge> 0"
      and j: "int j \<le> r" "Compare (data ! j) pivot \<le> 0" by (auto simp: part_inv_def)
    from less.prems have lr: "0 \<le> l" "r < int (length data)" by (auto simp: part_inv_def)
    from scan_up_stops [OF lr(1) i(2,1,3)] obtain l' where l': "scan_up Compare pivot data l = Inr l'" "l \<le> l'" "l' \<le> int i"
      "Compare (data ! nat l') pivot \<ge> 0" "\<forall>k. l \<le> int k \<and> int k < l' \<longrightarrow> Compare (data ! k) pivot < 0" by blast
    from scan_down_stops [OF lr(2) j] obtain r' where r': "scan_down Compare pivot data r = Inr r'" "r' \<le> r" "int j \<le> r'"
      "Compare (data ! nat r') pivot \<le> 0" "\<forall>k. r' < int k \<and> int k \<le> r \<longrightarrow> Compare (data ! k) pivot > 0" by blast
    show ?thesis
    proof (cases "l' \<le> r'")
      case le: True
      let ?d = "Swap data (nat l') (nat r')"
      from part_inv_swap [OF less.prems le l'(2) r'(2) l'(4) r'(4) l'(5) r'(5)]
      have inv': "part_inv pivot ?d (l' + 1) (r' - 1)" .
      have "nat (r' - 1 - (l' + 1) + 1) < nat (r - l + 1)" using le l'(2) r'(2) by simp
      from less.hyps [OF this inv'] obtain d2 l2 r2 where
        *: "partition_loop Compare pivot ?d (l' + 1) (r' - 1) = Inr (d2, l2, r2)" "part_done pivot d2 l2 r2"
          "mset d2 = mset ?d" "l' + 1 \<le> l2" "r2 \<le> r' - 1" by blast
      have "mset ?d = mset data" using le l' r' lr by (intro mset_Swap) auto
      with * True le l' r' show ?thesis
        by (intro exI [of _ d2] exI [of _ l2] exI [of _ r2])
           (simp add: partition_loop.simps [of _ _ data l r])
    next
      case False
      have "part_done pivot data l' r'"
        by (rule part_inv_stop [OF less.prems False l'(2) r'(2) l'(5) r'(5)]) (use l' r' i in linarith)+
      with True False l' r' show ?thesis
        by (simp add: partition_loop.simps [of _ _ data l r])
    qed
  qed
qed

text \<open>The first round always swaps, so both parts are shorter than the array.\<close>

lemma part_inv_start:
  assumes "2 \<le> length data"
  shows "part_inv (data ! (length data div 2)) data 0 (int (length data) - 1)"
proof -
  let ?m = "length data div 2"
  from assms have "?m < length data" by simp
  then show ?thesis using assms refl0 [of "data ! ?m"]
    by (auto simp: part_inv_def intro!: exI [of _ ?m])
qed

lemma partition_loop_start:
  assumes n: "2 \<le> length data"
  shows "\<exists>data' l r. partition_loop Compare (data ! (length data div 2)) data 0 (int (length data) - 1) = Inr (data', l, r) \<and>
    part_done (data ! (length data div 2)) data' l r \<and> mset data' = mset data \<and> 0 < l \<and> r < int (length data) - 1"
proof -
  let ?m = "length data div 2" and ?p = "data ! (length data div 2)" and ?r = "int (length data) - 1"
  note inv = part_inv_start [OF n]
  have m: "?m < length data" "int ?m \<le> ?r" and c: "Compare (data ! ?m) ?p \<ge> 0" "Compare (data ! ?m) ?p \<le> 0"
    using n refl0 [of ?p] by auto
  from scan_up_stops [of 0 ?m data ?p] m c obtain l' where l': "scan_up Compare ?p data 0 = Inr l'" "0 \<le> l'" "l' \<le> int ?m"
    "Compare (data ! nat l') ?p \<ge> 0" "\<forall>k. 0 \<le> int k \<and> int k < l' \<longrightarrow> Compare (data ! k) ?p < 0" by auto
  from scan_down_stops [of ?r data ?m ?p] m c obtain r' where r': "scan_down Compare ?p data ?r = Inr r'" "r' \<le> ?r" "int ?m \<le> r'"
    "Compare (data ! nat r') ?p \<le> 0" "\<forall>k. r' < int k \<and> int k \<le> ?r \<longrightarrow> Compare (data ! k) ?p > 0" by auto
  from l'(3) r'(3) have le: "l' \<le> r'" by simp
  let ?d = "Swap data (nat l') (nat r')"
  from part_inv_swap [OF inv le l'(2) r'(2) l'(4) r'(4) l'(5) r'(5)]
  have "part_inv ?p ?d (l' + 1) (r' - 1)" .
  from partition_loop_done [OF this] obtain d2 l2 r2 where
    *: "partition_loop Compare ?p ?d (l' + 1) (r' - 1) = Inr (d2, l2, r2)" "part_done ?p d2 l2 r2"
      "mset d2 = mset ?d" "l' + 1 \<le> l2" "r2 \<le> r' - 1" by blast
  have "mset ?d = mset data" using l'(2,3) r'(2,3) m by (intro mset_Swap) auto
  moreover have "partition_loop Compare ?p data 0 ?r = Inr (d2, l2, r2)"
    using *(1) l'(1) r'(1) le n by (subst partition_loop.simps) auto
  ultimately show ?thesis using *(2-) l'(2) r'(2) by auto
qed

abbreviation ordered :: "'a list \<Rightarrow> bool" where
  "ordered \<equiv> sorted_wrt (\<lambda>x y. Compare x y \<le> 0)"

lemma ordered_join:
  assumes "ordered left" "ordered right"
    and "\<And>x. x \<in> set left \<Longrightarrow> Compare x p \<le> 0" and "\<And>x. x \<in> set mid \<Longrightarrow> Compare x p = 0"
    and "\<And>x. x \<in> set right \<Longrightarrow> Compare x p \<ge> 0"
  shows "ordered (left @ mid @ right)"
proof -
  have le: "Compare x y \<le> 0" if "Compare x p \<le> 0" "Compare y p \<ge> 0" for x y
    using trans_le [OF that(1)] that(2) ge_flip by blast
  have "ordered mid" using assms(4) le
    by (induction mid) (auto intro: le)
  with assms le show ?thesis by (auto simp: sorted_wrt_append)
qed

lemma part_done_parts:
  assumes d: "part_done p data l r"
  shows "x \<in> set (take (nat (r + 1)) data) \<Longrightarrow> Compare x p \<le> 0"
    and "x \<in> set (substr data (nat (r + 1)) (nat l)) \<Longrightarrow> Compare x p = 0"
    and "x \<in> set (drop (nat l) data) \<Longrightarrow> Compare x p \<ge> 0"
proof -
  from d have le: "\<And>k. int k < l \<Longrightarrow> Compare (data ! k) p \<le> 0"
    and ge: "\<And>k. k < length data \<Longrightarrow> r < int k \<Longrightarrow> Compare (data ! k) p \<ge> 0"
    and b: "0 \<le> l" "l \<le> int (length data)" "r < l" by (auto simp: part_done_def)
  show "x \<in> set (take (nat (r + 1)) data) \<Longrightarrow> Compare x p \<le> 0"
    using le b by (auto simp: in_set_conv_nth)
  show "x \<in> set (drop (nat l) data) \<Longrightarrow> Compare x p \<ge> 0"
    using ge b by (auto simp: in_set_conv_nth)
  show "x \<in> set (substr data (nat (r + 1)) (nat l)) \<Longrightarrow> Compare x p = 0"
  proof (rule set_substr [where P = "\<lambda>x. Compare x p = 0" and s = data and i = "nat (r + 1)" and j = "nat l"])
    fix k assume "nat (r + 1) \<le> k" "k < nat l"
    with le [of k] ge [of k] b show "Compare (data ! k) p = 0" by fastforce
  qed (use b in auto)
qed

lemma QuickSort_sorts:
  assumes "maxterm + max 1 (length data) \<le> 1000"
  shows "\<exists>ys. QuickSortRecursive Compare data maxterm = Inr ys \<and> mset ys = mset data \<and> ordered ys"
  using assms
proof (induction "length data" arbitrary: data maxterm rule: less_induct)
  case less
  show ?case
  proof (cases "length data < 2")
    case True
    then have "ordered data" by (cases data rule: remdups_adj.cases) auto
    with True less.prems show ?thesis by (simp add: QuickSortRecursive.simps [of _ data])
  next
    case False
    then have n: "2 \<le> length data" by simp
    let ?p = "data ! (length data div 2)"
    from partition_loop_start [OF n] obtain d l r where
      part: "partition_loop Compare ?p data 0 (int (length data) - 1) = Inr (d, l, r)"
      and fin: "part_done ?p d l r" and ms: "mset d = mset data" and prog: "0 < l" "r < int (length data) - 1" by blast
    from ms have len: "length d = length data" by (metis size_mset)
    from fin have b: "l \<le> int (length d)" "r < l" "-1 \<le> r" by (auto simp: part_done_def)
    let ?a = "take (nat (r + 1)) d" and ?c = "drop (nat l) d"
    have la: "length ?a < length data" and lc: "length ?c < length data" using prog b len n by auto
    from less.prems la lc n have "Suc maxterm + max 1 (length ?a) \<le> 1000" "Suc maxterm + max 1 (length ?c) \<le> 1000" by auto
    with less.hyps [OF la, of "Suc maxterm"] less.hyps [OF lc, of "Suc maxterm"] obtain left right where
      left: "QuickSortRecursive Compare ?a (Suc maxterm) = Inr left" "mset left = mset ?a" "ordered left"
      and right: "QuickSortRecursive Compare ?c (Suc maxterm) = Inr right" "mset right = mset ?c" "ordered right" by blast
    let ?mid = "substr d (nat (r + 1)) (nat l)"
    have split: "d = ?a @ ?mid @ ?c"
      using b by (simp add: substr_def) (metis append_assoc append_take_drop_id drop_drop le_add_diff_inverse2 nat_mono zless_imp_add1_zle take_add le_add_diff_inverse)
    have "mset (left @ ?mid @ right) = mset (?a @ ?mid @ ?c)" using left(2) right(2) by simp
    also from split ms have "\<dots> = mset data" by metis
    finally have perm: "mset (left @ ?mid @ right) = mset data" .
    have "ordered (left @ ?mid @ right)"
      using part_done_parts [OF fin] left(2) right(2)
      by (intro ordered_join [OF left(3) right(3), of ?p]) (auto dest: mset_eq_setD)
    with perm part left(1) right(1) less.prems n show ?thesis
      by (simp add: QuickSortRecursive.simps [of _ data])
  qed
qed

end

interpretation strcmp_order: comparator strcmp
proof
  show "strcmp x y < 0 \<longleftrightarrow> strcmp y x > 0" for x y by (rule strcmp_antisym)
  show "strcmp x z \<le> 0" if "strcmp x y \<le> 0" "strcmp y z \<le> 0" for x y z
    using that strcmp_less_trans [of x y z] by (cases "x = y"; cases "y = z") (auto simp: order_le_less)
qed

section \<open>Properties of the sequence component\<close>

text \<open>C37: For a comparison that is a total preorder, sorting a sequence of at most 1000 items returns a permutation of it
  in ascending order, with the depth assertion never failing.\<close>

lemma SequenceSort_sorts:
  assumes "comparator Compare" and "seq_length seq \<le> 1000"
  shows "\<exists>seq'. SequenceSort seq Compare = Inr seq' \<and> mset (seq_data seq') = mset (seq_data seq) \<and>
    sorted_wrt (\<lambda>x y. Compare x y \<le> 0) (seq_data seq') \<and> seq_capacity seq' = seq_capacity seq"
  using comparator.QuickSort_sorts [OF assms(1), where data = "seq_data seq" and maxterm = 0] assms(2)
  by (auto simp: SequenceSort_def)

lemma SequenceSort_sorts_witness:
  "\<exists>seq'. SequenceSort (Sequence 4 [''pear'', ''fig'', ''apple''] True) strcmp = Inr seq' \<and>
     mset (seq_data seq') = mset (seq_data (Sequence 4 [''pear'', ''fig'', ''apple''] True)) \<and>
     sorted_wrt (\<lambda>x y. strcmp x y \<le> 0) (seq_data seq') \<and>
     seq_capacity seq' = seq_capacity (Sequence 4 [''pear'', ''fig'', ''apple''] True)"
  by (rule SequenceSort_sorts [OF strcmp_order.comparator_axioms]) simp

text \<open>Reversing a sequence in place by swaps from both ends gives the reversed list of items.\<close>

lemma SequenceReverse_reverses: "seq_data (SequenceReverse seq) = rev (seq_data seq)"
  by (rule SequenceReverse_data)

text \<open>Removing a range keeps the items before and after it in order and passes exactly the items of the range to the
  destructor; an index out of range, or an empty range, is an assertion failure.\<close>

lemma SequenceRemoveRange_result:
  "SequenceRemoveRange seq start stop =
     (if stop < seq_length seq \<and> start \<le> stop
      then Inr (Sequence (seq_capacity seq) (take start (seq_data seq) @ drop (stop + 1) (seq_data seq)) (seq_ItemDestroy seq),
        if seq_ItemDestroy seq then take (stop + 1 - start) (drop start (seq_data seq)) else [])
      else Inl AssertionFailed)"
  by (auto simp: SequenceRemoveRange_def DestroyRange_def substr_def drop_range_def Let_def c_assert_def)

text \<open>The index search and the lookup agree: the index is -1 exactly when the lookup returns NULL, and otherwise it is
  the position of an item that compares equal to the key, the one the lookup returns.\<close>

lemma SequenceIndexOf_lookup:
  "SequenceLookup seq key Compare =
     (if SequenceIndexOf seq key Compare = -1 then None else Some (seq_data seq ! nat (SequenceIndexOf seq key Compare))) \<and>
   (SequenceIndexOf seq key Compare = -1 \<or>
     0 \<le> SequenceIndexOf seq key Compare \<and> nat (SequenceIndexOf seq key Compare) < seq_length seq \<and>
     Compare key (seq_data seq ! nat (SequenceIndexOf seq key Compare)) = 0)"
  using index_lookup_loop [of key Compare "seq_data seq" 0] index_loop_minus [of key Compare "seq_data seq" 0]
    index_loop_bound [of key Compare "seq_data seq" 0]
  by (auto simp: SequenceLookup_def SequenceIndexOf_def)

end
