(* ===== verification/CF_Json.thy ===== *)
theory CF_Json
  imports CF_Sequence
begin

text \<open>
  \<open>src/json.c\<close>, first part: JSON elements and the operations on them.  An element is a container (an
  object or an array, with its children in a \<open>Sequence\<close>) or a primitive (with its value as text, strings
  already escaped); a child of an object carries its property name.  The C code updates containers in
  place; the model returns the updated container.  Every \<open>assert\<close> is a branch that returns
  \<open>AssertionFailed\<close>.
\<close>

section \<open>Data\<close>

datatype JsonElementType = JSON_ELEMENT_TYPE_CONTAINER | JSON_ELEMENT_TYPE_PRIMITIVE

datatype JsonContainerType = JSON_CONTAINER_TYPE_OBJECT | JSON_CONTAINER_TYPE_ARRAY

datatype JsonPrimitiveType =
    JSON_PRIMITIVE_TYPE_STRING
  | JSON_PRIMITIVE_TYPE_INTEGER
  | JSON_PRIMITIVE_TYPE_REAL
  | JSON_PRIMITIVE_TYPE_BOOL
  | JSON_PRIMITIVE_TYPE_NULL

datatype JsonElement =
    JsonContainer JsonContainerType (propertyName: "string option") "JsonElement Sequence"
  | JsonPrimitive JsonPrimitiveType (propertyName: "string option") string

definition SPACES_PER_INDENT :: nat where
  "SPACES_PER_INDENT = 2"

definition DEFAULT_CONTAINER_CAPACITY :: nat where
  "DEFAULT_CONTAINER_CAPACITY = 64"

definition JSON_TRUE :: string where
  "JSON_TRUE = ''true''"

definition JSON_FALSE :: string where
  "JSON_FALSE = ''false''"

definition JSON_NULL :: string where
  "JSON_NULL = ''null''"

section \<open>Elements\<close>

fun JsonElementSetPropertyName :: "JsonElement \<Rightarrow> string option \<Rightarrow> JsonElement" where
  "JsonElementSetPropertyName (JsonContainer t old s) name = JsonContainer t name s"
| "JsonElementSetPropertyName (JsonPrimitive t old v) name = JsonPrimitive t name v"

definition JsonElementCreateContainer :: "JsonContainerType \<Rightarrow> string option \<Rightarrow> nat \<Rightarrow> JsonElement" where
  "JsonElementCreateContainer containerType name initialCapacity =
     JsonContainer containerType name (SequenceCreate initialCapacity True)"

definition JsonElementCreatePrimitive :: "JsonPrimitiveType \<Rightarrow> string \<Rightarrow> JsonElement" where
  "JsonElementCreatePrimitive primitiveType v = JsonPrimitive primitiveType None v"

fun JsonElementLength :: "JsonElement \<Rightarrow> nat" where
  "JsonElementLength (JsonContainer t n s) = seq_length s"
| "JsonElementLength (JsonPrimitive t n v) = length v"

fun JsonGetElementType :: "JsonElement \<Rightarrow> JsonElementType" where
  "JsonGetElementType (JsonContainer t n s) = JSON_ELEMENT_TYPE_CONTAINER"
| "JsonGetElementType (JsonPrimitive t n v) = JSON_ELEMENT_TYPE_PRIMITIVE"

fun JsonGetContrainerType :: "JsonElement \<Rightarrow> JsonContainerType res" where
  "JsonGetContrainerType (JsonContainer t n s) = Inr t"
| "JsonGetContrainerType (JsonPrimitive t n v) = Inl AssertionFailed"

fun JsonGetPrimitiveType :: "JsonElement \<Rightarrow> JsonPrimitiveType res" where
  "JsonGetPrimitiveType (JsonContainer t n s) = Inl AssertionFailed"
| "JsonGetPrimitiveType (JsonPrimitive t n v) = Inr t"

fun JsonPrimitiveGetAsString :: "JsonElement \<Rightarrow> string res" where
  "JsonPrimitiveGetAsString (JsonContainer t n s) = Inl AssertionFailed"
| "JsonPrimitiveGetAsString (JsonPrimitive t n v) = Inr v"

fun JsonPrimitiveGetAsBool :: "JsonElement \<Rightarrow> bool res" where
  "JsonPrimitiveGetAsBool (JsonContainer t n s) = Inl AssertionFailed"
| "JsonPrimitiveGetAsBool (JsonPrimitive t n v) =
     c_assert (t = JSON_PRIMITIVE_TYPE_BOOL) (Inr (JSON_TRUE = v))"

text \<open>\<open>src/string_lib.c\<close>: the whole text must be a number, or the assertion fails.\<close>

definition StringToLong :: "string \<Rightarrow> int res" where
  "StringToLong str = (let (result, rest) = strtol10 str in c_assert (rest = []) (Inr result))"

definition StringFromLong :: "int \<Rightarrow> string" where
  "StringFromLong number = show_int number"

fun JsonPrimitiveGetAsInteger :: "JsonElement \<Rightarrow> int res" where
  "JsonPrimitiveGetAsInteger (JsonContainer t n s) = Inl AssertionFailed"
| "JsonPrimitiveGetAsInteger (JsonPrimitive t n v) =
     c_assert (t = JSON_PRIMITIVE_TYPE_INTEGER) (StringToLong v)"

text \<open>Primitive constructors.  The text of a \<open>double\<close> comes from \<open>snprintf("%.4f")\<close>, a parameter.\<close>

definition escape_char :: "char \<Rightarrow> string" where
  "escape_char c =
     (if c = CHR 0x22 \<or> c = CHR 0x5C then [CHR 0x5C, c]
      else if c = CHR 0x08 then [CHR 0x5C, CHR ''b'']
      else if c = CHR 0x0C then [CHR 0x5C, CHR ''f'']
      else if c = CHR 0x0A then [CHR 0x5C, CHR ''n'']
      else if c = CHR 0x0D then [CHR 0x5C, CHR ''r'']
      else if c = CHR 0x09 then [CHR 0x5C, CHR ''t'']
      else [c])"

fun EscapeJsonString :: "string \<Rightarrow> string" where
  "EscapeJsonString [] = []"
| "EscapeJsonString (c # cs) = escape_char c @ EscapeJsonString cs"

definition JsonStringCreate :: "string option \<Rightarrow> JsonElement res" where
  "JsonStringCreate v = (case v of
     None \<Rightarrow> Inl AssertionFailed
   | Some s \<Rightarrow> Inr (JsonElementCreatePrimitive JSON_PRIMITIVE_TYPE_STRING (EscapeJsonString s)))"

definition JsonIntegerCreate :: "int \<Rightarrow> JsonElement" where
  "JsonIntegerCreate v = JsonElementCreatePrimitive JSON_PRIMITIVE_TYPE_INTEGER (show_int v)"

definition JsonRealCreate :: "('d \<Rightarrow> string) \<Rightarrow> 'd \<Rightarrow> JsonElement" where
  "JsonRealCreate format_4f v = JsonElementCreatePrimitive JSON_PRIMITIVE_TYPE_REAL (format_4f v)"

definition JsonBoolCreate :: "bool \<Rightarrow> JsonElement" where
  "JsonBoolCreate v = JsonElementCreatePrimitive JSON_PRIMITIVE_TYPE_BOOL (if v then JSON_TRUE else JSON_FALSE)"

definition JsonNullCreate :: JsonElement where
  "JsonNullCreate = JsonElementCreatePrimitive JSON_PRIMITIVE_TYPE_NULL JSON_NULL"

section \<open>Iterators\<close>

record JsonIterator =
  container :: JsonElement
  index :: nat

fun children :: "JsonElement \<Rightarrow> JsonElement Sequence res" where
  "children (JsonContainer t n s) = Inr s"
| "children (JsonPrimitive t n v) = Inl AssertionFailed"

definition JsonIteratorInit :: "JsonElement \<Rightarrow> JsonIterator res" where
  "JsonIteratorInit c = c_assert (JsonGetElementType c = JSON_ELEMENT_TYPE_CONTAINER) (Inr \<lparr>container = c, index = 0\<rparr>)"

definition JsonIteratorNextValue :: "JsonIterator \<Rightarrow> (JsonElement option \<times> JsonIterator) res" where
  "JsonIteratorNextValue iter =
     res_bind (children (container iter)) (\<lambda>s.
       if index iter \<ge> JsonElementLength (container iter) then Inr (None, iter)
       else Inr (Some (seq_data s ! index iter), iter\<lparr>index := index iter + 1\<rparr>))"

definition JsonIteratorNextKey :: "JsonIterator \<Rightarrow> (string option \<times> JsonIterator) res" where
  "JsonIteratorNextKey iter =
     c_assert (JsonGetContrainerType (container iter) = Inr JSON_CONTAINER_TYPE_OBJECT)
       (res_bind (JsonIteratorNextValue iter) (\<lambda>(child, iter').
          Inr (case child of None \<Rightarrow> None | Some e \<Rightarrow> propertyName e, iter')))"

text \<open>\<open>data[index - 1]\<close>: before the first \<open>Next\<close> this reads in front of the array.\<close>

definition JsonIteratorCurrentValue :: "JsonIterator \<Rightarrow> JsonElement option res" where
  "JsonIteratorCurrentValue iter =
     res_bind (children (container iter)) (\<lambda>s.
       if index iter > JsonElementLength (container iter) then Inr None
       else if index iter = 0 then Inl OutOfBounds
       else Inr (Some (seq_data s ! (index iter - 1))))"

definition JsonIteratorCurrentKey :: "JsonIterator \<Rightarrow> string option res" where
  "JsonIteratorCurrentKey iter =
     c_assert (JsonGetContrainerType (container iter) = Inr JSON_CONTAINER_TYPE_OBJECT)
       (res_bind (JsonIteratorCurrentValue iter) (\<lambda>child.
          Inr (case child of None \<Rightarrow> None | Some e \<Rightarrow> propertyName e)))"

definition JsonIteratorCurrentElementType :: "JsonIterator \<Rightarrow> JsonElementType res" where
  "JsonIteratorCurrentElementType iter =
     res_bind (JsonIteratorCurrentValue iter) (\<lambda>child.
       case child of None \<Rightarrow> Inl NullDereference | Some e \<Rightarrow> Inr (JsonGetElementType e))"

definition JsonIteratorCurrentContrainerType :: "JsonIterator \<Rightarrow> JsonContainerType res" where
  "JsonIteratorCurrentContrainerType iter =
     res_bind (JsonIteratorCurrentValue iter) (\<lambda>child.
       case child of None \<Rightarrow> Inl NullDereference | Some e \<Rightarrow> JsonGetContrainerType e)"

definition JsonIteratorCurrentPrimitiveType :: "JsonIterator \<Rightarrow> JsonPrimitiveType res" where
  "JsonIteratorCurrentPrimitiveType iter =
     res_bind (JsonIteratorCurrentValue iter) (\<lambda>child.
       case child of None \<Rightarrow> Inl NullDereference | Some e \<Rightarrow> JsonGetPrimitiveType e)"

section \<open>Containers\<close>

text \<open>The children of an object, resp. an array, under the assertions that it is one.\<close>

definition object_children :: "JsonElement \<Rightarrow> JsonElement Sequence res" where
  "object_children e = (case e of
     JsonContainer t n s \<Rightarrow> c_assert (t = JSON_CONTAINER_TYPE_OBJECT) (Inr s)
   | JsonPrimitive _ _ _ \<Rightarrow> Inl AssertionFailed)"

definition array_children :: "JsonElement \<Rightarrow> JsonElement Sequence res" where
  "array_children e = (case e of
     JsonContainer t n s \<Rightarrow> c_assert (t = JSON_CONTAINER_TYPE_ARRAY) (Inr s)
   | JsonPrimitive _ _ _ \<Rightarrow> Inl AssertionFailed)"

fun set_children :: "JsonElement \<Rightarrow> JsonElement Sequence \<Rightarrow> JsonElement" where
  "set_children (JsonContainer t n old) s = JsonContainer t n s"
| "set_children (JsonPrimitive t n v) s = JsonPrimitive t n v"

definition JsonAt :: "JsonElement \<Rightarrow> nat \<Rightarrow> JsonElement res" where
  "JsonAt c i = res_bind (children c) (\<lambda>s. c_assert (i < JsonElementLength c) (Inr (seq_data s ! i)))"

definition JsonSort :: "JsonElement \<Rightarrow> (JsonElement \<Rightarrow> JsonElement \<Rightarrow> int) \<Rightarrow> JsonElement res" where
  "JsonSort c Compare =
     res_bind (children c) (\<lambda>s. res_bind (SequenceSort s Compare) (\<lambda>s'. Inr (set_children c s')))"

subsection \<open>Objects\<close>

definition JsonObjectCreate :: "nat \<Rightarrow> JsonElement" where
  "JsonObjectCreate initialCapacity = JsonElementCreateContainer JSON_CONTAINER_TYPE_OBJECT None initialCapacity"

definition JsonObjectAppendPrimitive :: "JsonElement \<Rightarrow> string option \<Rightarrow> JsonElement \<Rightarrow> JsonElement res" where
  "JsonObjectAppendPrimitive object key child_primitive =
     res_bind (object_children object) (\<lambda>s.
       c_assert (JsonGetElementType child_primitive = JSON_ELEMENT_TYPE_PRIMITIVE)
         (res_bind (SequenceAppend s (JsonElementSetPropertyName child_primitive key)) (\<lambda>s'.
            Inr (set_children object s'))))"

definition JsonObjectAppendString :: "JsonElement \<Rightarrow> string option \<Rightarrow> string option \<Rightarrow> JsonElement res" where
  "JsonObjectAppendString object key v =
     res_bind (object_children object) (\<lambda>_. c_assert (key \<noteq> None) (c_assert (v \<noteq> None)
       (JsonObjectAppendPrimitive object key
          (JsonElementCreatePrimitive JSON_PRIMITIVE_TYPE_STRING (EscapeJsonString (the v))))))"

definition JsonObjectAppendInteger :: "JsonElement \<Rightarrow> string option \<Rightarrow> int \<Rightarrow> JsonElement res" where
  "JsonObjectAppendInteger object key v =
     res_bind (object_children object) (\<lambda>_. c_assert (key \<noteq> None)
       (JsonObjectAppendPrimitive object key (JsonIntegerCreate v)))"

definition JsonObjectAppendBool :: "JsonElement \<Rightarrow> string option \<Rightarrow> bool \<Rightarrow> JsonElement res" where
  "JsonObjectAppendBool object key v =
     res_bind (object_children object) (\<lambda>_. c_assert (key \<noteq> None)
       (JsonObjectAppendPrimitive object key (JsonBoolCreate v)))"

definition JsonObjectAppendReal :: "('d \<Rightarrow> string) \<Rightarrow> JsonElement \<Rightarrow> string option \<Rightarrow> 'd \<Rightarrow> JsonElement res" where
  "JsonObjectAppendReal format_4f object key v =
     res_bind (object_children object) (\<lambda>_. c_assert (key \<noteq> None)
       (JsonObjectAppendPrimitive object key (JsonRealCreate format_4f v)))"

definition JsonObjectAppendArray :: "JsonElement \<Rightarrow> string option \<Rightarrow> JsonElement \<Rightarrow> JsonElement res" where
  "JsonObjectAppendArray object key a =
     res_bind (object_children object) (\<lambda>s. c_assert (key \<noteq> None)
       (res_bind (array_children a) (\<lambda>_.
          res_bind (SequenceAppend s (JsonElementSetPropertyName a key)) (\<lambda>s'. Inr (set_children object s')))))"

definition JsonObjectAppendObject :: "JsonElement \<Rightarrow> string option \<Rightarrow> JsonElement \<Rightarrow> JsonElement res" where
  "JsonObjectAppendObject object key childObject =
     res_bind (object_children object) (\<lambda>s. c_assert (key \<noteq> None)
       (res_bind (object_children childObject) (\<lambda>_.
          res_bind (SequenceAppend s (JsonElementSetPropertyName childObject key)) (\<lambda>s'. Inr (set_children object s')))))"

text \<open>
  \<open>JsonElementHasProperty\<close> asserts that every child it is shown has a name: \<open>has_property_loop\<close> is
  \<open>SequenceLookup\<close> with that callback.  \<open>CompareKeyToPropertyName\<close> is \<open>StringSafeCompare\<close>.
\<close>

fun has_property_loop :: "string \<Rightarrow> JsonElement list \<Rightarrow> JsonElement option res" where
  "has_property_loop name [] = Inr None"
| "has_property_loop name (e # es) =
     (case propertyName e of
        None \<Rightarrow> Inl AssertionFailed
      | Some n \<Rightarrow> if strcmp name n = 0 then Inr (Some e) else has_property_loop name es)"

definition CompareKeyToPropertyName :: "string \<Rightarrow> JsonElement \<Rightarrow> int" where
  "CompareKeyToPropertyName key e = (case propertyName e of None \<Rightarrow> -1 | Some n \<Rightarrow> strcmp key n)"

definition JsonElementIndexInParentObject :: "JsonElement \<Rightarrow> string option \<Rightarrow> int res" where
  "JsonElementIndexInParentObject parent key =
     res_bind (object_children parent) (\<lambda>s. c_assert (key \<noteq> None)
       (Inr (SequenceIndexOf s (the key) CompareKeyToPropertyName)))"

definition JsonObjectRemoveKey :: "JsonElement \<Rightarrow> string option \<Rightarrow> JsonElement res" where
  "JsonObjectRemoveKey object key =
     res_bind (object_children object) (\<lambda>s. c_assert (key \<noteq> None)
       (res_bind (JsonElementIndexInParentObject object key) (\<lambda>i.
          if i \<noteq> -1
          then res_bind (SequenceRemove s (nat i)) (\<lambda>(s', destroyed). Inr (set_children object s'))
          else Inr object)))"

definition JsonObjectDetachKey :: "JsonElement \<Rightarrow> string option \<Rightarrow> (JsonElement option \<times> JsonElement) res" where
  "JsonObjectDetachKey object key =
     res_bind (object_children object) (\<lambda>s. c_assert (key \<noteq> None)
       (res_bind (JsonElementIndexInParentObject object key) (\<lambda>i.
          if i \<noteq> -1
          then res_bind (has_property_loop (the key) (seq_data s)) (\<lambda>detached.
                 res_bind (SequenceSoftRemove s (nat i)) (\<lambda>s'. Inr (detached, set_children object s')))
          else Inr (None, object))))"

definition JsonObjectGet :: "JsonElement \<Rightarrow> string option \<Rightarrow> JsonElement option res" where
  "JsonObjectGet object key =
     res_bind (object_children object) (\<lambda>s. c_assert (key \<noteq> None) (has_property_loop (the key) (seq_data s)))"

definition JsonObjectGetAsString :: "JsonElement \<Rightarrow> string option \<Rightarrow> string option res" where
  "JsonObjectGetAsString object key =
     res_bind (JsonObjectGet object key) (\<lambda>child. case child of
         None \<Rightarrow> Inr None
       | Some e \<Rightarrow> res_bind (JsonGetPrimitiveType e) (\<lambda>t. c_assert (t = JSON_PRIMITIVE_TYPE_STRING)
           (res_bind (JsonPrimitiveGetAsString e) (\<lambda>v. Inr (Some v)))))"

definition JsonObjectGetAsObject :: "JsonElement \<Rightarrow> string option \<Rightarrow> JsonElement option res" where
  "JsonObjectGetAsObject object key =
     res_bind (JsonObjectGet object key) (\<lambda>child. case child of
         None \<Rightarrow> Inr None
       | Some e \<Rightarrow> res_bind (object_children e) (\<lambda>_. Inr (Some e)))"

definition JsonObjectGetAsArray :: "JsonElement \<Rightarrow> string option \<Rightarrow> JsonElement option res" where
  "JsonObjectGetAsArray object key =
     res_bind (JsonObjectGet object key) (\<lambda>child. case child of
         None \<Rightarrow> Inr None
       | Some e \<Rightarrow> res_bind (array_children e) (\<lambda>_. Inr (Some e)))"

subsection \<open>Arrays\<close>

definition JsonArrayCreate :: "nat \<Rightarrow> JsonElement" where
  "JsonArrayCreate initialCapacity = JsonElementCreateContainer JSON_CONTAINER_TYPE_ARRAY None initialCapacity"

definition JsonArrayAppendPrimitive :: "JsonElement \<Rightarrow> JsonElement \<Rightarrow> JsonElement res" where
  "JsonArrayAppendPrimitive a child_primitive =
     res_bind (array_children a) (\<lambda>s.
       c_assert (JsonGetElementType child_primitive = JSON_ELEMENT_TYPE_PRIMITIVE)
         (res_bind (SequenceAppend s child_primitive) (\<lambda>s'. Inr (set_children a s'))))"

definition JsonArrayAppendString :: "JsonElement \<Rightarrow> string option \<Rightarrow> JsonElement res" where
  "JsonArrayAppendString a v =
     res_bind (array_children a) (\<lambda>_. c_assert (v \<noteq> None)
       (res_bind (JsonStringCreate v) (\<lambda>child. JsonArrayAppendPrimitive a child)))"

definition JsonArrayAppendBool :: "JsonElement \<Rightarrow> bool \<Rightarrow> JsonElement res" where
  "JsonArrayAppendBool a v = JsonArrayAppendPrimitive a (JsonBoolCreate v)"

definition JsonArrayAppendInteger :: "JsonElement \<Rightarrow> int \<Rightarrow> JsonElement res" where
  "JsonArrayAppendInteger a v = JsonArrayAppendPrimitive a (JsonIntegerCreate v)"

definition JsonArrayAppendReal :: "('d \<Rightarrow> string) \<Rightarrow> JsonElement \<Rightarrow> 'd \<Rightarrow> JsonElement res" where
  "JsonArrayAppendReal format_4f a v = JsonArrayAppendPrimitive a (JsonRealCreate format_4f v)"

definition JsonArrayAppendArray :: "JsonElement \<Rightarrow> JsonElement \<Rightarrow> JsonElement res" where
  "JsonArrayAppendArray a childArray =
     res_bind (array_children a) (\<lambda>s. res_bind (array_children childArray) (\<lambda>_.
       res_bind (SequenceAppend s childArray) (\<lambda>s'. Inr (set_children a s'))))"

definition JsonArrayAppendObject :: "JsonElement \<Rightarrow> JsonElement \<Rightarrow> JsonElement res" where
  "JsonArrayAppendObject a object =
     res_bind (array_children a) (\<lambda>s. res_bind (object_children object) (\<lambda>_.
       res_bind (SequenceAppend s object) (\<lambda>s'. Inr (set_children a s'))))"

definition JsonArrayRemoveRange :: "JsonElement \<Rightarrow> nat \<Rightarrow> nat \<Rightarrow> JsonElement res" where
  "JsonArrayRemoveRange a start stop =
     res_bind (array_children a) (\<lambda>s. c_assert (stop < seq_length s) (c_assert (start \<le> stop)
       (res_bind (SequenceRemoveRange s start stop) (\<lambda>(s', destroyed). Inr (set_children a s')))))"

definition JsonArrayGetAsString :: "JsonElement \<Rightarrow> nat \<Rightarrow> string res" where
  "JsonArrayGetAsString a i =
     res_bind (array_children a) (\<lambda>s. c_assert (i < seq_length s)
       (res_bind (JsonGetPrimitiveType (seq_data s ! i)) (\<lambda>t. c_assert (t = JSON_PRIMITIVE_TYPE_STRING)
          (JsonPrimitiveGetAsString (seq_data s ! i)))))"

definition JsonArrayGetAsObject :: "JsonElement \<Rightarrow> nat \<Rightarrow> JsonElement res" where
  "JsonArrayGetAsObject a i =
     res_bind (array_children a) (\<lambda>s. c_assert (i < seq_length s)
       (res_bind (object_children (seq_data s ! i)) (\<lambda>_. Inr (seq_data s ! i))))"

definition JsonContainerReverse :: "JsonElement \<Rightarrow> JsonElement res" where
  "JsonContainerReverse a = res_bind (array_children a) (\<lambda>s. Inr (set_children a (SequenceReverse s)))"

end
