(* ===== verification/CF_JsonText.thy ===== *)
theory CF_JsonText
  imports CF_Json
begin

text \<open>
  \<open>src/json.c\<close>, second part: the pretty printer and the parser.  The printer returns the text it writes.
  The parser's \<open>const char **data\<close> is a buffer and an index into it; a parse function returns its element,
  or NULL, with the index it leaves in \<open>*data\<close>.  \<open>pcre\<close> is the library's matcher (regular expression,
  subject), a parameter.
\<close>

section \<open>Printing\<close>

lemma size_Sequence_data: "size_Sequence f s = size_list f (seq_data s) + 1"
  by (cases s) simp

definition IsWhitespace :: "char \<Rightarrow> bool" where
  "IsWhitespace ch \<longleftrightarrow> ch = CHR '' '' \<or> ch = CHR 0x09 \<or> ch = CHR 0x0A \<or> ch = CHR 0x0D"

definition IsSeparator :: "char \<Rightarrow> bool" where
  "IsSeparator ch \<longleftrightarrow> IsWhitespace ch \<or> ch = CHR '','' \<or> ch = CHR '']'' \<or> ch = CHR ''}''"

text \<open>\<open>[1,9]\<close>: zero is not a digit here.\<close>

definition IsDigit :: "char \<Rightarrow> bool" where
  "IsDigit ch \<longleftrightarrow> ch \<ge> CHR ''1'' \<and> ch \<le> CHR ''9''"

definition PrintIndent :: "nat \<Rightarrow> string" where
  "PrintIndent num = replicate (num * SPACES_PER_INDENT) CHR '' ''"

definition JsonPrimitivePrint :: "JsonPrimitiveType \<Rightarrow> string \<Rightarrow> nat \<Rightarrow> string" where
  "JsonPrimitivePrint t v indent_level =
     (case t of
        JSON_PRIMITIVE_TYPE_STRING \<Rightarrow> PrintIndent indent_level @ [CHR 0x22] @ v @ [CHR 0x22]
      | _ \<Rightarrow> PrintIndent indent_level @ v)"

function JsonArrayPrint :: "JsonElement list \<Rightarrow> nat \<Rightarrow> string res"
  and array_print_loop :: "JsonElement list \<Rightarrow> nat \<Rightarrow> string res"
  and JsonObjectPrint :: "JsonElement list \<Rightarrow> nat \<Rightarrow> string res"
  and object_print_loop :: "JsonElement list \<Rightarrow> nat \<Rightarrow> string res"
  and JsonContainerPrint :: "JsonElement \<Rightarrow> nat \<Rightarrow> string res" where
  "JsonArrayPrint es indent_level =
     (if es = [] then Inr ''[]''
      else res_bind (array_print_loop es indent_level) (\<lambda>body.
        Inr ([CHR ''['', CHR 0x0A] @ body @ PrintIndent indent_level @ '']'')))"
| "array_print_loop [] indent_level = Inr []"
| "array_print_loop (child # es) indent_level =
     res_bind (case child of
         JsonPrimitive t n v \<Rightarrow> Inr (JsonPrimitivePrint t v (indent_level + 1))
       | JsonContainer t n s \<Rightarrow>
           res_bind (JsonContainerPrint child (indent_level + 1)) (\<lambda>w. Inr (PrintIndent (indent_level + 1) @ w)))
       (\<lambda>this.
          res_bind (array_print_loop es indent_level) (\<lambda>rest.
            Inr (this @ (if es \<noteq> [] then [CHR '','', CHR 0x0A] else [CHR 0x0A]) @ rest)))"
| "JsonObjectPrint es indent_level =
     res_bind (object_print_loop es indent_level) (\<lambda>body.
       Inr ([CHR ''{'', CHR 0x0A] @ body @ PrintIndent indent_level @ ''}''))"
| "object_print_loop [] indent_level = Inr []"
| "object_print_loop (child # es) indent_level =
     (case propertyName child of
        None \<Rightarrow> Inl AssertionFailed
      | Some name \<Rightarrow>
          res_bind (case child of
              JsonPrimitive t n v \<Rightarrow> Inr (JsonPrimitivePrint t v 0)
            | JsonContainer t n s \<Rightarrow> JsonContainerPrint child (indent_level + 1))
            (\<lambda>this.
               res_bind (object_print_loop es indent_level) (\<lambda>rest.
                 Inr (PrintIndent (indent_level + 1) @ [CHR 0x22] @ name @ [CHR 0x22] @ '': '' @ this @
                      (if es \<noteq> [] then '','' else []) @ [CHR 0x0A] @ rest))))"
| "JsonContainerPrint (JsonContainer t n s) indent_level =
     (case t of
        JSON_CONTAINER_TYPE_OBJECT \<Rightarrow> JsonObjectPrint (seq_data s) indent_level
      | JSON_CONTAINER_TYPE_ARRAY \<Rightarrow> JsonArrayPrint (seq_data s) indent_level)"
| "JsonContainerPrint (JsonPrimitive t n v) indent_level = Inl AssertionFailed"
  by pat_completeness auto
termination
  by (relation "measure (\<lambda>x. case x of
       Inl (Inl (es, k)) \<Rightarrow> 2 * size_list size es + 1
     | Inl (Inr (es, k)) \<Rightarrow> 2 * size_list size es
     | Inr (Inl (es, k)) \<Rightarrow> 2 * size_list size es + 1
     | Inr (Inr (Inl (es, k))) \<Rightarrow> 2 * size_list size es
     | Inr (Inr (Inr (e, k))) \<Rightarrow> 2 * size e)") (auto simp: size_Sequence_data)

definition JsonElementPrint :: "JsonElement \<Rightarrow> nat \<Rightarrow> string res" where
  "JsonElementPrint e indent_level =
     (case e of
        JsonContainer t n s \<Rightarrow> JsonContainerPrint e indent_level
      | JsonPrimitive t n v \<Rightarrow> Inr (JsonPrimitivePrint t v indent_level))"

section \<open>Parsing: scalars\<close>

text \<open>\<open>src/string_lib.c\<close>: an equal string matches; otherwise \<open>pcre_exec\<close> decides.\<close>

definition StringMatch :: "(string \<Rightarrow> string \<Rightarrow> bool) \<Rightarrow> string \<Rightarrow> string \<Rightarrow> bool" where
  "StringMatch pcre regex str = (if strcmp regex str = 0 then True else pcre regex str)"

definition ends_literal :: "char \<Rightarrow> bool" where
  "ends_literal c \<longleftrightarrow> IsSeparator c \<or> c = NUL"

definition JsonParseAsBoolean :: "(string \<Rightarrow> string \<Rightarrow> bool) \<Rightarrow> string \<Rightarrow> nat \<Rightarrow> JsonElement option \<times> nat" where
  "JsonParseAsBoolean pcre s i =
     (if StringMatch pcre ''^true'' (drop i s) then
        if ends_literal (char_at s (i + 4)) then (Some (JsonBoolCreate True), i + 3) else (None, i)
      else if StringMatch pcre ''^false'' (drop i s) then
        if ends_literal (char_at s (i + 5)) then (Some (JsonBoolCreate False), i + 4) else (None, i)
      else (None, i))"

definition JsonParseAsNull :: "(string \<Rightarrow> string \<Rightarrow> bool) \<Rightarrow> string \<Rightarrow> nat \<Rightarrow> JsonElement option \<times> nat" where
  "JsonParseAsNull pcre s i =
     (if StringMatch pcre ''^null'' (drop i s) then
        if ends_literal (char_at s (i + 4)) then (Some JsonNullCreate, i + 3) else (None, i)
      else (None, i))"

text \<open>The characters after a backslash that make the parser drop the backslash: quote, backslash, \<open>\b \f \n \r \t\<close> as control characters.\<close>

definition drops_backslash :: "char \<Rightarrow> bool" where
  "drops_backslash c \<longleftrightarrow> c = CHR 0x22 \<or> c = CHR 0x5C \<or> c = CHR 0x08 \<or> c = CHR 0x0C \<or> c = CHR 0x0A \<or> c = CHR 0x0D \<or> c = CHR 0x09"

lemma char_at_NUL_ge: "char_at s i \<noteq> NUL \<Longrightarrow> i < length s"
  by (rule ccontr) simp

lemma char_at_eq_less: "char_at s i = c \<Longrightarrow> c \<noteq> NUL \<Longrightarrow> i < length s"
  using char_at_NUL_ge by blast

function string_loop :: "string \<Rightarrow> nat \<Rightarrow> string \<Rightarrow> string option \<times> nat" where
  "string_loop s i acc =
     (if char_at s i \<noteq> NUL then
        if char_at s i = CHR 0x22 \<and> char_at s (i - 1) \<noteq> CHR 0x5C then (Some acc, i)
        else if char_at s i = CHR 0x5C \<and> drops_backslash (char_at s (i + 1)) then string_loop s (i + 1) acc
        else string_loop s (i + 1) (acc @ [char_at s i])
      else (None, i))"
  by pat_completeness auto
termination
  by (relation "measure (\<lambda>(s, i, acc). length s - i)") (auto dest: char_at_NUL_ge char_at_eq_less)

definition JsonParseAsString :: "string \<Rightarrow> nat \<Rightarrow> string option \<times> nat" where
  "JsonParseAsString s i = (if char_at s i \<noteq> CHR 0x22 then (None, i) else string_loop s (i + 1) [])"

text \<open>The \<open>switch\<close> of the number loop: \<open>None\<close> is an error, else the new flags.\<close>

definition number_step :: "char \<Rightarrow> char \<Rightarrow> bool \<times> bool \<times> bool \<Rightarrow> (bool \<times> bool \<times> bool) option" where
  "number_step c prev flags =
     (case flags of (zero_started, seen_dot, seen_exponent) \<Rightarrow>
        if c = CHR ''-'' then
          if prev \<noteq> NUL \<and> prev \<noteq> CHR ''e'' \<and> prev \<noteq> CHR ''E'' then None else Some flags
        else if c = CHR ''+'' then
          if prev \<noteq> CHR ''e'' \<and> prev \<noteq> CHR ''E'' then None else Some flags
        else if c = CHR ''0'' then
          if zero_started \<and> \<not> seen_dot \<and> \<not> seen_exponent then None
          else if prev = NUL then Some (True, seen_dot, seen_exponent) else Some flags
        else if c = CHR ''.'' then
          if prev \<noteq> CHR ''0'' \<and> \<not> IsDigit prev then None else Some (zero_started, True, seen_exponent)
        else if c = CHR ''e'' \<or> c = CHR ''E'' then
          if seen_exponent then None
          else if \<not> IsDigit prev \<and> prev \<noteq> CHR ''0'' then None
          else Some (zero_started, seen_dot, True)
        else
          if zero_started \<and> \<not> seen_dot \<and> \<not> seen_exponent then None
          else if \<not> IsDigit c then None else Some flags)"

function number_loop :: "string \<Rightarrow> nat \<Rightarrow> char \<Rightarrow> bool \<times> bool \<times> bool \<Rightarrow> string \<Rightarrow> JsonElement option \<times> nat" where
  "number_loop s i prev flags acc =
     (if char_at s i \<noteq> NUL \<and> \<not> IsSeparator (char_at s i) then
        (case number_step (char_at s i) prev flags of
           None \<Rightarrow> (None, i)
         | Some flags' \<Rightarrow> number_loop s (i + 1) (char_at s i) flags' (acc @ [char_at s i]))
      else if prev \<noteq> CHR ''0'' \<and> \<not> IsDigit prev then (None, i)
      else (Some (JsonElementCreatePrimitive
              (if fst (snd flags) then JSON_PRIMITIVE_TYPE_REAL else JSON_PRIMITIVE_TYPE_INTEGER) acc), i - 1))"
  by pat_completeness auto
termination
  by (relation "measure (\<lambda>(s, i, prev, flags, acc). length s - i)") (auto dest: char_at_NUL_ge char_at_eq_less)

declare string_loop.simps [simp del] number_loop.simps [simp del]

definition JsonParseAsNumber :: "string \<Rightarrow> nat \<Rightarrow> JsonElement option \<times> nat" where
  "JsonParseAsNumber s i = number_loop s i NUL (False, False, False) []"

section \<open>Parsing: containers\<close>

definition starts_number :: "char \<Rightarrow> bool" where
  "starts_number c \<longleftrightarrow> c = CHR ''-'' \<or> c = CHR ''0'' \<or> IsDigit c"

text \<open>
  One round of the array loop at a character that neither is white space, a comma or a bracket: the
  string case and the \<open>default\<close> case, with the extended array and the position of the last character
  read.  A string that does not end hands NULL to \<open>JsonArrayAppendString\<close>.
\<close>

definition array_scalar :: "(string \<Rightarrow> string \<Rightarrow> bool) \<Rightarrow> string \<Rightarrow> nat \<Rightarrow> JsonElement \<Rightarrow> (JsonElement option \<times> nat) res" where
  "array_scalar pcre s i a =
     (if char_at s i = CHR 0x22 then
        (case JsonParseAsString s i of (v, j) \<Rightarrow> res_bind (JsonArrayAppendString a v) (\<lambda>a'. Inr (Some a', j)))
      else if starts_number (char_at s i) then
        (case JsonParseAsNumber s i of
           (None, j) \<Rightarrow> Inr (None, j)
         | (Some child, j) \<Rightarrow> res_bind (JsonArrayAppendPrimitive a child) (\<lambda>a'. Inr (Some a', j)))
      else
        (case JsonParseAsBoolean pcre s i of
           (Some child, j) \<Rightarrow> res_bind (JsonArrayAppendPrimitive a child) (\<lambda>a'. Inr (Some a', j))
         | (None, j) \<Rightarrow>
             (case JsonParseAsNull pcre s j of
                (Some child, j') \<Rightarrow> res_bind (JsonArrayAppendPrimitive a child) (\<lambda>a'. Inr (Some a', j'))
              | (None, j') \<Rightarrow> Inr (None, j'))))"

text \<open>The same for the object loop, whose state also holds the pending property name.\<close>

definition object_scalar :: "(string \<Rightarrow> string \<Rightarrow> bool) \<Rightarrow> string \<Rightarrow> nat \<Rightarrow> JsonElement \<Rightarrow> string option \<Rightarrow>
    ((JsonElement \<times> string option) option \<times> nat) res" where
  "object_scalar pcre s i object property_name =
     (if char_at s i = CHR 0x22 then
        (case JsonParseAsString s i of
           (None, j) \<Rightarrow> Inr (None, j)
         | (Some v, j) \<Rightarrow>
             if property_name \<noteq> None
             then res_bind (JsonObjectAppendString object property_name (Some v)) (\<lambda>o'. Inr (Some (o', None), j))
             else Inr (Some (object, Some v), j))
      else if char_at s i = CHR '':'' then
        if property_name = None then Inr (None, i) else Inr (Some (object, property_name), i)
      else if char_at s i = CHR '','' then
        if property_name \<noteq> None then Inr (None, i) else Inr (Some (object, property_name), i)
      else if property_name = None then Inr (None, i)
      else if starts_number (char_at s i) then
        (case JsonParseAsNumber s i of
           (None, j) \<Rightarrow> Inr (None, j)
         | (Some child, j) \<Rightarrow> res_bind (JsonObjectAppendPrimitive object property_name child) (\<lambda>o'. Inr (Some (o', None), j)))
      else
        (case JsonParseAsBoolean pcre s i of
           (Some child, j) \<Rightarrow> res_bind (JsonObjectAppendPrimitive object property_name child) (\<lambda>o'. Inr (Some (o', None), j))
         | (None, j) \<Rightarrow>
             (case JsonParseAsNull pcre s j of
                (Some child, j') \<Rightarrow> res_bind (JsonObjectAppendPrimitive object property_name child) (\<lambda>o'. Inr (Some (o', None), j'))
              | (None, j') \<Rightarrow> Inr (None, j'))))"

function JsonParseAsArray :: "(string \<Rightarrow> string \<Rightarrow> bool) \<Rightarrow> string \<Rightarrow> nat \<Rightarrow> (JsonElement option \<times> nat) res"
  and array_loop :: "(string \<Rightarrow> string \<Rightarrow> bool) \<Rightarrow> string \<Rightarrow> nat \<Rightarrow> JsonElement \<Rightarrow> (JsonElement option \<times> nat) res"
  and JsonParseAsObject :: "(string \<Rightarrow> string \<Rightarrow> bool) \<Rightarrow> string \<Rightarrow> nat \<Rightarrow> (JsonElement option \<times> nat) res"
  and object_loop :: "(string \<Rightarrow> string \<Rightarrow> bool) \<Rightarrow> string \<Rightarrow> nat \<Rightarrow> JsonElement \<Rightarrow> string option \<Rightarrow> (JsonElement option \<times> nat) res" where
  "JsonParseAsArray pcre s i =
     (if char_at s i \<noteq> CHR ''['' then Inr (None, i)
      else array_loop pcre s (i + 1) (JsonArrayCreate DEFAULT_CONTAINER_CAPACITY))"
| "array_loop pcre s i a =
     (if char_at s i = NUL then Inr (None, i)
      else if IsWhitespace (char_at s i) \<or> char_at s i = CHR '','' then array_loop pcre s (i + 1) a
      else if char_at s i = CHR ''['' then
        (case JsonParseAsArray pcre s i of
           Inl e \<Rightarrow> Inl e
         | Inr (None, j) \<Rightarrow> Inr (None, j)
         | Inr (Some child, j) \<Rightarrow>
             (case JsonArrayAppendArray a child of Inl e \<Rightarrow> Inl e | Inr a' \<Rightarrow> array_loop pcre s (j + 1) a'))
      else if char_at s i = CHR ''{'' then
        (case JsonParseAsObject pcre s i of
           Inl e \<Rightarrow> Inl e
         | Inr (None, j) \<Rightarrow> Inr (None, j)
         | Inr (Some child, j) \<Rightarrow>
             (case JsonArrayAppendObject a child of Inl e \<Rightarrow> Inl e | Inr a' \<Rightarrow> array_loop pcre s (j + 1) a'))
      else if char_at s i = CHR '']'' then Inr (Some a, i)
      else
        (case array_scalar pcre s i a of
           Inl e \<Rightarrow> Inl e
         | Inr (None, j) \<Rightarrow> Inr (None, j)
         | Inr (Some a', j) \<Rightarrow> array_loop pcre s (j + 1) a'))"
| "JsonParseAsObject pcre s i =
     (if char_at s i \<noteq> CHR ''{'' then Inr (None, i)
      else object_loop pcre s (i + 1) (JsonObjectCreate DEFAULT_CONTAINER_CAPACITY) None)"
| "object_loop pcre s i object property_name =
     (if char_at s i = NUL then Inr (None, i)
      else if IsWhitespace (char_at s i) then object_loop pcre s (i + 1) object property_name
      else if char_at s i = CHR ''['' then
        if property_name = None then Inr (None, i)
        else
          (case JsonParseAsArray pcre s i of
             Inl e \<Rightarrow> Inl e
           | Inr (None, j) \<Rightarrow> Inr (None, j)
           | Inr (Some child, j) \<Rightarrow>
               (case JsonObjectAppendArray object property_name child of
                  Inl e \<Rightarrow> Inl e | Inr o' \<Rightarrow> object_loop pcre s (j + 1) o' None))
      else if char_at s i = CHR ''{'' then
        if property_name = None then Inr (None, i)
        else
          (case JsonParseAsObject pcre s i of
             Inl e \<Rightarrow> Inl e
           | Inr (None, j) \<Rightarrow> Inr (None, j)
           | Inr (Some child, j) \<Rightarrow>
               (case JsonObjectAppendObject object property_name child of
                  Inl e \<Rightarrow> Inl e | Inr o' \<Rightarrow> object_loop pcre s (j + 1) o' None))
      else if char_at s i = CHR ''}'' then
        if property_name \<noteq> None then Inr (None, i) else Inr (Some object, i)
      else
        (case object_scalar pcre s i object property_name of
           Inl e \<Rightarrow> Inl e
         | Inr (None, j) \<Rightarrow> Inr (None, j)
         | Inr (Some (o', p'), j) \<Rightarrow> object_loop pcre s (j + 1) o' p'))"
  by pat_completeness auto

section \<open>The parser moves forward\<close>

lemma string_loop_ge: "string_loop s i acc = (r, j) \<Longrightarrow> i \<le> j"
proof (induction s i acc rule: string_loop.induct)
  case (1 s i acc)
  then show ?case by (subst (asm) (2) string_loop.simps) (auto split: if_splits)
qed

lemma JsonParseAsString_ge: "JsonParseAsString s i = (r, j) \<Longrightarrow> i \<le> j"
  by (auto simp: JsonParseAsString_def split: if_splits dest: string_loop_ge)

lemma JsonParseAsBoolean_ge: "JsonParseAsBoolean pcre s i = (r, j) \<Longrightarrow> i \<le> j"
  by (auto simp: JsonParseAsBoolean_def split: if_splits)

lemma JsonParseAsNull_ge: "JsonParseAsNull pcre s i = (r, j) \<Longrightarrow> i \<le> j"
  by (auto simp: JsonParseAsNull_def split: if_splits)

lemma number_loop_ge: "number_loop s i prev flags acc = (Some e, j) \<Longrightarrow> i \<le> j + 1 \<and> (prev = NUL \<longrightarrow> i \<le> j)"
proof (induction s i prev flags acc rule: number_loop.induct)
  case (1 s i prev flags acc)
  show ?case
  proof (cases "char_at s i \<noteq> NUL \<and> \<not> IsSeparator (char_at s i)")
    case True
    with "1.prems" obtain fl where fl: "number_step (char_at s i) prev flags = Some fl"
      and "number_loop s (i + 1) (char_at s i) fl (acc @ [char_at s i]) = (Some e, j)"
      by (auto simp: number_loop.simps [of s i] split: option.splits)
    from "1.IH" [OF True this] show ?thesis by simp
  next
    case False
    with "1.prems" show ?thesis
      by (subst (asm) number_loop.simps) (auto simp: IsDigit_def split: if_splits)
  qed
qed

lemma JsonParseAsNumber_ge: "JsonParseAsNumber s i = (Some e, j) \<Longrightarrow> i \<le> j"
  using number_loop_ge [of s i NUL] by (simp add: JsonParseAsNumber_def)

lemma array_scalar_ge: "array_scalar pcre s i a = Inr (Some a', j) \<Longrightarrow> i \<le> j"
  by (auto simp: array_scalar_def res_bind_eq_Inr split: if_splits prod.splits option.splits
      dest!: JsonParseAsString_ge JsonParseAsNumber_ge JsonParseAsBoolean_ge JsonParseAsNull_ge)

lemma object_scalar_ge: "object_scalar pcre s i a p = Inr (Some a', j) \<Longrightarrow> i \<le> j"
  by (auto simp: object_scalar_def res_bind_eq_Inr split: if_splits prod.splits option.splits
      dest!: JsonParseAsString_ge JsonParseAsNumber_ge JsonParseAsBoolean_ge JsonParseAsNull_ge)

lemma json_parser_ge_dom:
  "JsonParseAsArray_array_loop_JsonParseAsObject_object_loop_dom (Inl (Inl (pcre, s, i))) \<Longrightarrow> JsonParseAsArray pcre s i = Inr (Some e, j) \<Longrightarrow> i \<le> j"
  "JsonParseAsArray_array_loop_JsonParseAsObject_object_loop_dom (Inl (Inr (pcre, s, i, a))) \<Longrightarrow> array_loop pcre s i a = Inr (Some e, j) \<Longrightarrow> i \<le> j"
  "JsonParseAsArray_array_loop_JsonParseAsObject_object_loop_dom (Inr (Inl (pcre, s, i))) \<Longrightarrow> JsonParseAsObject pcre s i = Inr (Some e, j) \<Longrightarrow> i \<le> j"
  "JsonParseAsArray_array_loop_JsonParseAsObject_object_loop_dom (Inr (Inr (pcre, s, i, ob, p))) \<Longrightarrow> object_loop pcre s i ob p = Inr (Some e, j) \<Longrightarrow> i \<le> j"
proof (induction pcre s i and pcre s i a and pcre s i and pcre s i ob p
    arbitrary: e j and e j and e j and e j
    rule: JsonParseAsArray_array_loop_JsonParseAsObject_object_loop.pinduct)
  case (1 pcre s i)
  then show ?case by (force simp: JsonParseAsArray.psimps split: if_splits)
next
  case (2 pcre s i a)
  show ?case
    using "2.prems" "2.IH"
    by (auto simp: array_loop.psimps [OF "2.hyps"] dest!: array_scalar_ge
        split: if_splits sum.splits option.splits prod.splits) (fastforce)+
next
  case (3 pcre s i)
  then show ?case by (force simp: JsonParseAsObject.psimps split: if_splits)
next
  case (4 pcre s i ob p)
  show ?case
    using "4.prems" "4.IH"
    by (auto simp: object_loop.psimps [OF "4.hyps"] dest!: object_scalar_ge
        split: if_splits sum.splits option.splits prod.splits) (fastforce)+
qed
termination JsonParseAsArray
  by (relation "measure (\<lambda>x. case x of
       Inl (Inl (pcre, s, i)) \<Rightarrow> 2 * (length s - i)
     | Inl (Inr (pcre, s, i, a)) \<Rightarrow> 2 * (length s - i) + 1
     | Inr (Inl (pcre, s, i)) \<Rightarrow> 2 * (length s - i)
     | Inr (Inr (pcre, s, i, ob, p)) \<Rightarrow> 2 * (length s - i) + 1)")
     (auto dest!: array_scalar_ge object_scalar_ge json_parser_ge_dom
        dest: char_at_NUL_ge char_at_eq_less)

declare JsonParseAsArray.simps [simp del] array_loop.simps [simp del]
  JsonParseAsObject.simps [simp del] object_loop.simps [simp del]

text \<open>\<open>JsonParse\<close> skips white space and dispatches on the first other character.\<close>

function JsonParse :: "(string \<Rightarrow> string \<Rightarrow> bool) \<Rightarrow> string \<Rightarrow> nat \<Rightarrow> (JsonElement option \<times> nat) res" where
  "JsonParse pcre s i =
     (if char_at s i = NUL then Inr (None, i)
      else if char_at s i = CHR ''{'' then JsonParseAsObject pcre s i
      else if char_at s i = CHR ''['' then JsonParseAsArray pcre s i
      else if IsWhitespace (char_at s i) then JsonParse pcre s (i + 1)
      else Inr (None, i))"
  by pat_completeness auto
termination
  by (relation "measure (\<lambda>(pcre, s, i). length s - i)") (auto dest: char_at_NUL_ge)

declare JsonParse.simps [simp del]

end
