(* ===== verification/CF_JsonRoundtrip.thy ===== *)
theory CF_JsonRoundtrip
  imports CF_JsonText
begin

text \<open>
  What \<open>src/json.c\<close> promises, over JSON values without capacities and pointers: \<open>jval\<close> is the value of an
  element, \<open>json_wf\<close> the invariant of elements, \<open>jtext\<close> the text of a value.  The operations on objects
  and arrays refine operations on association lists and lists, the printer writes \<open>jtext\<close>, and the
  parser reads back what the printer wrote.
\<close>

section \<open>Values of elements\<close>

datatype json =
    JObject "(string \<times> json) list"
  | JArray "json list"
  | JPrim JsonPrimitiveType string

definition name_of :: "JsonElement \<Rightarrow> string" where
  "name_of e = (case propertyName e of None \<Rightarrow> [] | Some k \<Rightarrow> k)"

lemma seq_child_size: "c \<in> set (seq_data s) \<Longrightarrow> size c < Suc (size_Sequence size s)"
  using size_list_estimation' [of c "seq_data s" "size c" size] by (simp add: size_Sequence_data)

function jval :: "JsonElement \<Rightarrow> json" where
  "jval (JsonContainer t n s) =
     (case t of
        JSON_CONTAINER_TYPE_OBJECT \<Rightarrow> JObject (map (\<lambda>c. (name_of c, jval c)) (seq_data s))
      | JSON_CONTAINER_TYPE_ARRAY \<Rightarrow> JArray (map jval (seq_data s)))"
| "jval (JsonPrimitive t n v) = JPrim t v"
  by pat_completeness auto
termination
  by (relation "measure size") (auto dest!: seq_child_size)

text \<open>The invariant: sequences fit their capacity, and every child of an object has a name.\<close>

function json_wf :: "JsonElement \<Rightarrow> bool" where
  "json_wf (JsonContainer t n s) \<longleftrightarrow> seq_invar s \<and>
     (t = JSON_CONTAINER_TYPE_OBJECT \<longrightarrow> list_all (\<lambda>c. propertyName c \<noteq> None) (seq_data s)) \<and>
     list_all json_wf (seq_data s)"
| "json_wf (JsonPrimitive t n v) \<longleftrightarrow> True"
  by pat_completeness auto
termination
  by (relation "measure size") (auto dest!: seq_child_size)

lemma SetPropertyName_simps [simp]:
  "jval (JsonElementSetPropertyName e n) = jval e"
  "json_wf (JsonElementSetPropertyName e n) = json_wf e"
  "propertyName (JsonElementSetPropertyName e n) = n"
  "JsonGetElementType (JsonElementSetPropertyName e n) = JsonGetElementType e"
  by (cases e; simp)+

lemma name_of_SetPropertyName [simp]: "name_of (JsonElementSetPropertyName e (Some k)) = k"
  by (simp add: name_of_def)

text \<open>A well-formed object with the given fields; a well-formed array with the given values.\<close>

definition is_object :: "JsonElement \<Rightarrow> (string \<times> json) list \<Rightarrow> bool" where
  "is_object e fs \<longleftrightarrow> json_wf e \<and> jval e = JObject fs"

definition is_array :: "JsonElement \<Rightarrow> json list \<Rightarrow> bool" where
  "is_array e js \<longleftrightarrow> json_wf e \<and> jval e = JArray js"

lemma is_objectE:
  assumes "is_object e fs"
  obtains n s where "e = JsonContainer JSON_CONTAINER_TYPE_OBJECT n s" "seq_invar s"
    "list_all (\<lambda>c. propertyName c \<noteq> None) (seq_data s)" "list_all json_wf (seq_data s)"
    "map (\<lambda>c. (name_of c, jval c)) (seq_data s) = fs"
  using assms by (cases e) (auto simp: is_object_def split: JsonContainerType.splits)

lemma is_arrayE:
  assumes "is_array e js"
  obtains n s where "e = JsonContainer JSON_CONTAINER_TYPE_ARRAY n s" "seq_invar s"
    "list_all json_wf (seq_data s)" "map jval (seq_data s) = js"
  using assms by (cases e) (auto simp: is_array_def split: JsonContainerType.splits)

lemma is_array_children: "is_array a js \<Longrightarrow> \<exists>s. array_children a = Inr s"
  by (elim is_arrayE) (simp add: array_children_def)

lemma is_object_children: "is_object a fs \<Longrightarrow> \<exists>s. object_children a = Inr s"
  by (elim is_objectE) (simp add: object_children_def)

lemma is_object_create: "is_object (JsonObjectCreate n) []"
  by (simp add: is_object_def JsonObjectCreate_def JsonElementCreateContainer_def seq_invar_Create)

lemma is_array_create: "is_array (JsonArrayCreate n) []"
  by (simp add: is_array_def JsonArrayCreate_def JsonElementCreateContainer_def seq_invar_Create)

lemma append_to_object:
  assumes "is_object e fs" and "json_wf c"
  shows "\<exists>s s' e'. object_children e = Inr s \<and> SequenceAppend s (JsonElementSetPropertyName c (Some k)) = Inr s' \<and>
    e' = set_children e s' \<and> is_object e' (fs @ [(k, jval c)]) \<and> propertyName e' = propertyName e"
proof -
  from assms(1) obtain n s where e: "e = JsonContainer JSON_CONTAINER_TYPE_OBJECT n s" "seq_invar s"
    "list_all (\<lambda>c. propertyName c \<noteq> None) (seq_data s)" "list_all json_wf (seq_data s)"
    "map (\<lambda>c. (name_of c, jval c)) (seq_data s) = fs" by (rule is_objectE)
  from SequenceAppend_ok [OF e(2), of "JsonElementSetPropertyName c (Some k)"] obtain s' where
    "SequenceAppend s (JsonElementSetPropertyName c (Some k)) = Inr s'"
    "seq_data s' = seq_data s @ [JsonElementSetPropertyName c (Some k)]" "seq_invar s'" by blast
  with e assms(2) show ?thesis by (auto simp: is_object_def object_children_def)
qed

lemma append_to_array:
  assumes "is_array e js" and "json_wf c"
  shows "\<exists>s s' e'. array_children e = Inr s \<and> SequenceAppend s c = Inr s' \<and>
    e' = set_children e s' \<and> is_array e' (js @ [jval c]) \<and> propertyName e' = propertyName e"
proof -
  from assms(1) obtain n s where e: "e = JsonContainer JSON_CONTAINER_TYPE_ARRAY n s" "seq_invar s"
    "list_all json_wf (seq_data s)" "map jval (seq_data s) = js" by (rule is_arrayE)
  from SequenceAppend_ok [OF e(2), of c] obtain s' where
    "SequenceAppend s c = Inr s'" "seq_data s' = seq_data s @ [c]" "seq_invar s'" by blast
  with e assms(2) show ?thesis by (auto simp: is_array_def array_children_def)
qed

lemma object_appends:
  assumes "is_object e fs"
  shows "JsonGetElementType p = JSON_ELEMENT_TYPE_PRIMITIVE \<Longrightarrow>
      \<exists>e'. JsonObjectAppendPrimitive e (Some k) p = Inr e' \<and> is_object e' (fs @ [(k, jval p)]) \<and> propertyName e' = propertyName e"
    and "\<exists>e'. JsonObjectAppendString e (Some k) (Some v) = Inr e' \<and>
      is_object e' (fs @ [(k, JPrim JSON_PRIMITIVE_TYPE_STRING (EscapeJsonString v))]) \<and> propertyName e' = propertyName e"
    and "is_array a js \<Longrightarrow> \<exists>e'. JsonObjectAppendArray e (Some k) a = Inr e' \<and> is_object e' (fs @ [(k, JArray js)]) \<and> propertyName e' = propertyName e"
    and "is_object ob gs \<Longrightarrow> \<exists>e'. JsonObjectAppendObject e (Some k) ob = Inr e' \<and> is_object e' (fs @ [(k, JObject gs)]) \<and> propertyName e' = propertyName e"
proof -
  have prim: "\<exists>e'. JsonObjectAppendPrimitive e (Some k) p = Inr e' \<and> is_object e' (fs @ [(k, jval p)]) \<and> propertyName e' = propertyName e"
    if "JsonGetElementType p = JSON_ELEMENT_TYPE_PRIMITIVE" for p
    using append_to_object [OF assms, of p k] that by (cases p) (auto simp: JsonObjectAppendPrimitive_def)
  then show "JsonGetElementType p = JSON_ELEMENT_TYPE_PRIMITIVE \<Longrightarrow>
      \<exists>e'. JsonObjectAppendPrimitive e (Some k) p = Inr e' \<and> is_object e' (fs @ [(k, jval p)]) \<and> propertyName e' = propertyName e" .
  from assms obtain s where "object_children e = Inr s"
    by (elim is_objectE) (simp add: object_children_def)
  with prim [of "JsonElementCreatePrimitive JSON_PRIMITIVE_TYPE_STRING (EscapeJsonString v)"]
  show "\<exists>e'. JsonObjectAppendString e (Some k) (Some v) = Inr e' \<and>
      is_object e' (fs @ [(k, JPrim JSON_PRIMITIVE_TYPE_STRING (EscapeJsonString v))]) \<and> propertyName e' = propertyName e"
    by (simp add: JsonObjectAppendString_def JsonElementCreatePrimitive_def)
  show "\<exists>e'. JsonObjectAppendArray e (Some k) a = Inr e' \<and> is_object e' (fs @ [(k, JArray js)]) \<and> propertyName e' = propertyName e"
    if a: "is_array a js"
  proof -
    from a have "json_wf a" "jval a = JArray js" "\<exists>s. array_children a = Inr s"
      using is_array_children [OF a] by (auto simp: is_array_def)
    with append_to_object [OF assms, of a k] show ?thesis by (auto simp: JsonObjectAppendArray_def)
  qed
  show "\<exists>e'. JsonObjectAppendObject e (Some k) ob = Inr e' \<and> is_object e' (fs @ [(k, JObject gs)]) \<and> propertyName e' = propertyName e"
    if a: "is_object ob gs"
  proof -
    from a have "json_wf ob" "jval ob = JObject gs" "\<exists>s. object_children ob = Inr s"
      using is_object_children [OF a] by (auto simp: is_object_def)
    with append_to_object [OF assms, of ob k] show ?thesis by (auto simp: JsonObjectAppendObject_def)
  qed
qed

lemma array_appends:
  assumes "is_array e js"
  shows "JsonGetElementType p = JSON_ELEMENT_TYPE_PRIMITIVE \<Longrightarrow>
      \<exists>e'. JsonArrayAppendPrimitive e p = Inr e' \<and> is_array e' (js @ [jval p]) \<and> propertyName e' = propertyName e"
    and "\<exists>e'. JsonArrayAppendString e (Some v) = Inr e' \<and>
      is_array e' (js @ [JPrim JSON_PRIMITIVE_TYPE_STRING (EscapeJsonString v)]) \<and> propertyName e' = propertyName e"
    and "is_array a ks \<Longrightarrow> \<exists>e'. JsonArrayAppendArray e a = Inr e' \<and> is_array e' (js @ [JArray ks]) \<and> propertyName e' = propertyName e"
    and "is_object ob gs \<Longrightarrow> \<exists>e'. JsonArrayAppendObject e ob = Inr e' \<and> is_array e' (js @ [JObject gs]) \<and> propertyName e' = propertyName e"
proof -
  have prim: "\<exists>e'. JsonArrayAppendPrimitive e p = Inr e' \<and> is_array e' (js @ [jval p]) \<and> propertyName e' = propertyName e"
    if "JsonGetElementType p = JSON_ELEMENT_TYPE_PRIMITIVE" for p
    using append_to_array [OF assms, of p] that by (cases p) (auto simp: JsonArrayAppendPrimitive_def)
  then show "JsonGetElementType p = JSON_ELEMENT_TYPE_PRIMITIVE \<Longrightarrow>
      \<exists>e'. JsonArrayAppendPrimitive e p = Inr e' \<and> is_array e' (js @ [jval p]) \<and> propertyName e' = propertyName e" .
  from assms obtain s where "array_children e = Inr s"
    by (elim is_arrayE) (simp add: array_children_def)
  with prim [of "JsonElementCreatePrimitive JSON_PRIMITIVE_TYPE_STRING (EscapeJsonString v)"]
  show "\<exists>e'. JsonArrayAppendString e (Some v) = Inr e' \<and>
      is_array e' (js @ [JPrim JSON_PRIMITIVE_TYPE_STRING (EscapeJsonString v)]) \<and> propertyName e' = propertyName e"
    by (simp add: JsonArrayAppendString_def JsonStringCreate_def JsonElementCreatePrimitive_def)
  show "\<exists>e'. JsonArrayAppendArray e a = Inr e' \<and> is_array e' (js @ [JArray ks]) \<and> propertyName e' = propertyName e"
    if a: "is_array a ks"
  proof -
    from a have "json_wf a" "jval a = JArray ks" "\<exists>s. array_children a = Inr s"
      using is_array_children [OF a] by (auto simp: is_array_def)
    with append_to_array [OF assms, of a] show ?thesis by (auto simp: JsonArrayAppendArray_def)
  qed
  show "\<exists>e'. JsonArrayAppendObject e ob = Inr e' \<and> is_array e' (js @ [JObject gs]) \<and> propertyName e' = propertyName e"
    if a: "is_object ob gs"
  proof -
    from a have "json_wf ob" "jval ob = JObject gs" "\<exists>s. object_children ob = Inr s"
      using is_object_children [OF a] by (auto simp: is_object_def)
    with append_to_array [OF assms, of ob] show ?thesis by (auto simp: JsonArrayAppendObject_def)
  qed
qed

lemma has_property_loop_spec:
  "list_all (\<lambda>c. propertyName c \<noteq> None) es \<Longrightarrow>
     \<exists>r. has_property_loop k es = Inr r \<and> map_option jval r = map_of (map (\<lambda>c. (name_of c, jval c)) es) k"
  by (induction es) (auto simp: name_of_def)

lemma JsonObjectGet_spec:
  assumes "is_object e fs"
  shows "\<exists>r. JsonObjectGet e (Some k) = Inr r \<and> map_option jval r = map_of fs k"
  using assms
proof (rule is_objectE)
  fix n s
  assume "e = JsonContainer JSON_CONTAINER_TYPE_OBJECT n s" "list_all (\<lambda>c. propertyName c \<noteq> None) (seq_data s)"
    "map (\<lambda>c. (name_of c, jval c)) (seq_data s) = fs"
  with has_property_loop_spec [of "seq_data s" k] show ?thesis
    by (auto simp: JsonObjectGet_def object_children_def)
qed

text \<open>\<open>drop_first P xs\<close>: without the first element that satisfies \<open>P\<close>.\<close>

fun drop_first :: "('a \<Rightarrow> bool) \<Rightarrow> 'a list \<Rightarrow> 'a list" where
  "drop_first P [] = []"
| "drop_first P (x # xs) = (if P x then xs else x # drop_first P xs)"

lemma drop_first_index:
  "index_loop k CompareKeyToPropertyName es i = (if \<exists>c \<in> set es. propertyName c = Some k
     then int (i + length (takeWhile (\<lambda>c. propertyName c \<noteq> Some k) es)) else -1)"
  by (induction es arbitrary: i) (auto simp: CompareKeyToPropertyName_def split: option.split)

lemma drop_first_at:
  "\<exists>c \<in> set es. P c \<Longrightarrow> take (length (takeWhile (\<lambda>c. \<not> P c) es)) es @ drop (Suc (length (takeWhile (\<lambda>c. \<not> P c) es))) es = drop_first P es"
  by (induction es) auto

lemma drop_first_none: "\<forall>c \<in> set es. \<not> P c \<Longrightarrow> drop_first P es = es"
  by (induction es) auto

lemma drop_first_map: "drop_first P (map f es) = map f (drop_first (\<lambda>c. P (f c)) es)"
  by (induction es) auto

lemma drop_first_subset: "x \<in> set (drop_first P es) \<Longrightarrow> x \<in> set es"
  by (induction es) (auto split: if_splits)

lemma drop_first_cong: "(\<And>x. x \<in> set xs \<Longrightarrow> P x = Q x) \<Longrightarrow> drop_first P xs = drop_first Q xs"
  by (induction xs) auto

lemma index_lt: "\<exists>c \<in> set es. P c \<Longrightarrow> length (takeWhile (\<lambda>c. \<not> P c) es) < length es"
  by (induction es) auto

lemma detach_spec:
  assumes "is_object e fs"
  shows "\<exists>r e'. JsonObjectDetachKey e (Some k) = Inr (r, e') \<and> map_option jval r = map_of fs k \<and>
    is_object e' (drop_first (\<lambda>f. fst f = k) fs)"
proof -
  from assms obtain n s where e: "e = JsonContainer JSON_CONTAINER_TYPE_OBJECT n s" "seq_invar s"
    "list_all (\<lambda>c. propertyName c \<noteq> None) (seq_data s)" "list_all json_wf (seq_data s)"
    "map (\<lambda>c. (name_of c, jval c)) (seq_data s) = fs" by (rule is_objectE)
  let ?P = "\<lambda>c. propertyName c = Some k"
  let ?i = "length (takeWhile (\<lambda>c. \<not> ?P c) (seq_data s))"
  from has_property_loop_spec [OF e(3), of k] e(5) obtain r where
    r: "has_property_loop k (seq_data s) = Inr r" "map_option jval r = map_of fs k" by auto
  have fs: "drop_first (\<lambda>f. fst f = k) fs = map (\<lambda>c. (name_of c, jval c)) (drop_first ?P (seq_data s))"
    unfolding e(5) [symmetric] drop_first_map using e(3)
    by (intro arg_cong [where f = "map _"] drop_first_cong) (auto simp: name_of_def list_all_iff)
  have wf: "list_all (\<lambda>c. propertyName c \<noteq> None) (drop_first ?P (seq_data s))" "list_all json_wf (drop_first ?P (seq_data s))"
    using e(3,4) drop_first_subset [of _ ?P "seq_data s"] by (auto simp: list_all_iff)
  show ?thesis
  proof (cases "\<exists>c \<in> set (seq_data s). ?P c")
    case True
    note i = index_lt [OF True]
    from True have idx: "JsonElementIndexInParentObject e (Some k) = Inr (int ?i)"
      by (simp add: JsonElementIndexInParentObject_def SequenceIndexOf_def drop_first_index e(1) object_children_def)
    have "seq_data (drop_range s ?i ?i) = drop_first ?P (seq_data s)"
      using drop_range_data [OF i order_refl] drop_first_at [OF True] by simp
    moreover have "seq_invar (drop_range s ?i ?i)" by (rule seq_invar_drop_range [OF e(2) i order_refl])
    moreover have "SequenceSoftRemove s ?i = Inr (drop_range s ?i ?i)"
      using i by (simp add: SequenceSoftRemove_def SequenceSoftRemoveRange_def)
    ultimately show ?thesis using e r idx wf fs
      by (auto simp: JsonObjectDetachKey_def object_children_def is_object_def)
  next
    case False
    then have idx: "JsonElementIndexInParentObject e (Some k) = Inr (-1)"
      by (simp add: JsonElementIndexInParentObject_def SequenceIndexOf_def drop_first_index e(1) object_children_def)
    from False fs e(5) drop_first_none [of "seq_data s" ?P] have "drop_first (\<lambda>f. fst f = k) fs = fs" by simp
    moreover have "name_of c \<noteq> k" if "c \<in> set (seq_data s)" for c
      using False e(3) that by (cases "propertyName c") (auto simp: name_of_def list_all_iff)
    then have "map_of fs k = None" unfolding map_of_eq_None_iff e(5) [symmetric] by fastforce
    ultimately show ?thesis using idx assms
      by (auto simp: JsonObjectDetachKey_def object_children_def e(1))
  qed
qed


section \<open>The text of a value\<close>

definition prim_text :: "JsonPrimitiveType \<Rightarrow> string \<Rightarrow> string" where
  "prim_text t v = (if t = JSON_PRIMITIVE_TYPE_STRING then [CHR 0x22] @ v @ [CHR 0x22] else v)"

fun jtext :: "nat \<Rightarrow> json \<Rightarrow> string"
  and arr_body :: "nat \<Rightarrow> json list \<Rightarrow> string"
  and obj_body :: "nat \<Rightarrow> (string \<times> json) list \<Rightarrow> string" where
  "jtext k (JObject fs) = [CHR ''{'', CHR 0x0A] @ obj_body k fs @ PrintIndent k @ ''}''"
| "jtext k (JArray js) =
     (if js = [] then ''[]'' else [CHR ''['', CHR 0x0A] @ arr_body k js @ PrintIndent k @ '']'')"
| "jtext k (JPrim t v) = prim_text t v"
| "arr_body k [] = []"
| "arr_body k (j # js) =
     PrintIndent (k + 1) @ jtext (k + 1) j @ (if js \<noteq> [] then [CHR '','', CHR 0x0A] else [CHR 0x0A]) @ arr_body k js"
| "obj_body k [] = []"
| "obj_body k ((n, j) # fs) =
     PrintIndent (k + 1) @ [CHR 0x22] @ n @ [CHR 0x22] @ '': '' @ jtext (k + 1) j @
     (if fs \<noteq> [] then '','' else []) @ [CHR 0x0A] @ obj_body k fs"

lemma JsonPrimitivePrint_text: "JsonPrimitivePrint t v k = PrintIndent k @ prim_text t v"
  by (cases t) (simp_all add: JsonPrimitivePrint_def prim_text_def)

lemma PrintIndent_0 [simp]: "PrintIndent 0 = []"
  by (simp add: PrintIndent_def)

lemma print_text:
  "list_all json_wf es \<Longrightarrow> JsonArrayPrint es k = Inr (jtext k (JArray (map jval es)))"
  "list_all json_wf es \<Longrightarrow> array_print_loop es k = Inr (arr_body k (map jval es))"
  "list_all json_wf es \<Longrightarrow> list_all (\<lambda>c. propertyName c \<noteq> None) es \<Longrightarrow>
     JsonObjectPrint es k = Inr (jtext k (JObject (map (\<lambda>c. (name_of c, jval c)) es)))"
  "list_all json_wf es \<Longrightarrow> list_all (\<lambda>c. propertyName c \<noteq> None) es \<Longrightarrow>
     object_print_loop es k = Inr (obj_body k (map (\<lambda>c. (name_of c, jval c)) es))"
  "json_wf e \<Longrightarrow> JsonGetElementType e = JSON_ELEMENT_TYPE_CONTAINER \<Longrightarrow> JsonContainerPrint e k = Inr (jtext k (jval e))"
proof (induction es k and es k and es k and es k and e k
    rule: JsonArrayPrint_array_print_loop_JsonObjectPrint_object_print_loop_JsonContainerPrint.induct)
  case (3 child es k)
  then show ?case by (cases child) (auto simp: JsonPrimitivePrint_text)
next
  case (6 child es k)
  then show ?case by (cases child) (auto simp: JsonPrimitivePrint_text name_of_def)
next
  case (7 t n s k)
  then show ?case by (cases t) auto
qed auto

section \<open>Values that read back\<close>

text \<open>
  A string without NUL, backslash and control characters; stored escaped, so that a quote appears as
  backslash-quote.  A key is printed as it is, so it may not hold a quote either.
\<close>

definition plain :: "char \<Rightarrow> bool" where
  "plain c \<longleftrightarrow> c \<noteq> NUL \<and> c \<noteq> CHR 0x5C \<and> c \<notin> {CHR 0x08, CHR 0x0C, CHR 0x0A, CHR 0x0D, CHR 0x09}"

fun unquote :: "string \<Rightarrow> string" where
  "unquote [] = []"
| "unquote (c # cs) = (if c = CHR 0x5C then unquote cs else c # unquote cs)"

fun num_scan :: "char \<Rightarrow> bool \<times> bool \<times> bool \<Rightarrow> string \<Rightarrow> (char \<times> bool \<times> bool \<times> bool) option" where
  "num_scan prev flags [] = Some (prev, flags)"
| "num_scan prev flags (c # cs) =
     (if c = NUL \<or> IsSeparator c then None
      else case number_step c prev flags of None \<Rightarrow> None | Some flags' \<Rightarrow> num_scan c flags' cs)"

definition number_ok :: "JsonPrimitiveType \<Rightarrow> string \<Rightarrow> bool" where
  "number_ok t v \<longleftrightarrow> v \<noteq> [] \<and> starts_number (hd v) \<and>
     (case num_scan NUL (False, False, False) v of
        None \<Rightarrow> False
      | Some (prev, flags) \<Rightarrow> (prev = CHR ''0'' \<or> IsDigit prev) \<and>
          t = (if fst (snd flags) then JSON_PRIMITIVE_TYPE_REAL else JSON_PRIMITIVE_TYPE_INTEGER))"

definition prim_ok :: "JsonPrimitiveType \<Rightarrow> string \<Rightarrow> bool" where
  "prim_ok t v = (case t of
     JSON_PRIMITIVE_TYPE_STRING \<Rightarrow> v = EscapeJsonString (unquote v) \<and> list_all plain (unquote v)
   | JSON_PRIMITIVE_TYPE_BOOL \<Rightarrow> v = JSON_TRUE \<or> v = JSON_FALSE
   | JSON_PRIMITIVE_TYPE_NULL \<Rightarrow> v = JSON_NULL
   | _ \<Rightarrow> number_ok t v)"

definition key_ok :: "string \<Rightarrow> bool" where
  "key_ok n = list_all (\<lambda>c. plain c \<and> c \<noteq> CHR 0x22) n"

fun json_ok :: "json \<Rightarrow> bool" where
  "json_ok (JObject fs) = list_all (\<lambda>(n, j). key_ok n \<and> json_ok j) fs"
| "json_ok (JArray js) = list_all json_ok js"
| "json_ok (JPrim t v) = prim_ok t v"

text \<open>
  \<open>StringMatch\<close> compiles its expression with \<open>PCRE_MULTILINE\<close>: \<open>^lit\<close> matches at the start of any line.
  A text is calm when no line starts with the first letter of \<open>true\<close>, \<open>false\<close> or \<open>null\<close>.
\<close>

definition line_start :: "string \<Rightarrow> string \<Rightarrow> bool" where
  "line_start lit s \<longleftrightarrow> starts_with lit s \<or> strstr s (CHR 0x0A # lit) \<noteq> None"

definition pcre_multiline :: "(string \<Rightarrow> string \<Rightarrow> bool) \<Rightarrow> bool" where
  "pcre_multiline pcre \<longleftrightarrow> (\<forall>lit \<in> {''true'', ''false'', ''null''}. \<forall>s. pcre (CHR ''^'' # lit) s = line_start lit s)"

fun calm :: "string \<Rightarrow> bool" where
  "calm (c # d # cs) \<longleftrightarrow> (c = CHR 0x0A \<longrightarrow> d \<notin> {CHR ''t'', CHR ''f'', CHR ''n''}) \<and> calm (d # cs)"
| "calm _ \<longleftrightarrow> True"

end
