(* ===== verification/CF_JsonParseBack.thy ===== *)
theory CF_JsonParseBack
  imports CF_JsonRoundtrip
begin

text \<open>
  The parser of \<open>src/json.c\<close> reads back what the printer writes: for the values of \<open>json_ok\<close> and a
  matcher with multi-line anchors, parsing the text of an element gives an element of the same value and
  stops on the closing bracket.
\<close>

section \<open>The cursor\<close>

lemma cursor:
  assumes "drop i s = c # r"
  shows "char_at s i = c" and "drop (Suc i) s = r" and "drop (i + 1) s = r"
proof -
  have i: "i < length s" using assms by (rule_tac ccontr) simp
  with assms show "char_at s i = c" by (metis char_at_less hd_drop_conv_nth list.sel(1))
  from assms show "drop (Suc i) s = r" by (metis drop_Suc list.sel(3) tl_drop)
  then show "drop (i + 1) s = r" by simp
qed

lemma cursor_append: "drop i s = xs @ r \<Longrightarrow> drop (i + length xs) s = r"
  by (metis add.commute append_eq_conv_conj drop_drop)

lemma char_at_drop: "drop i s = t \<Longrightarrow> char_at s (i + k) = char_at t k"
  by (auto simp: char_at_def)

section \<open>Strings\<close>

lemma plain_simps:
  "plain c \<Longrightarrow> c \<noteq> NUL" "plain c \<Longrightarrow> c \<noteq> CHR 0x5C" "plain c \<Longrightarrow> c \<noteq> CHR 0x0A"
  "plain c \<Longrightarrow> c \<noteq> CHR 0x22 \<Longrightarrow> escape_char c = [c]"
  "plain c \<Longrightarrow> c \<noteq> CHR 0x22 \<Longrightarrow> \<not> drops_backslash c"
  by (auto simp: plain_def escape_char_def drops_backslash_def)

lemma escape_quote [simp]: "escape_char (CHR 0x22) = [CHR 0x5C, CHR 0x22]"
  by (simp add: escape_char_def)

lemma string_loop_escaped:
  "list_all plain w \<Longrightarrow> drop i s = EscapeJsonString w @ CHR 0x22 # r \<Longrightarrow> char_at s (i - 1) \<noteq> CHR 0x5C \<Longrightarrow>
   string_loop s i acc = (Some (acc @ w), i + length (EscapeJsonString w))"
proof (induction w arbitrary: i acc)
  case Nil
  then have "char_at s i = CHR 0x22" using cursor(1) by fastforce
  with Nil show ?case by (subst string_loop.simps) simp
next
  case (Cons c w)
  show ?case
  proof (cases "c = CHR 0x22")
    case True
    with Cons.prems have d: "drop i s = CHR 0x5C # CHR 0x22 # EscapeJsonString w @ CHR 0x22 # r" by simp
    note d1 = cursor [OF d] and d2 = cursor [OF cursor(2) [OF d]]
    have "string_loop s i acc = string_loop s (Suc i) acc"
      using d1(1) d2(1) by (subst string_loop.simps) (simp add: drops_backslash_def)
    also have "\<dots> = string_loop s (Suc (Suc i)) (acc @ [c])"
      using d1(1) d2(1) True by (subst string_loop.simps) simp
    also have "\<dots> = (Some ((acc @ [c]) @ w), Suc (Suc i) + length (EscapeJsonString w))"
      using Cons.IH [of "Suc (Suc i)" "acc @ [c]"] Cons.prems d2 by simp
    finally show ?thesis using True by simp
  next
    case False
    with Cons.prems have p: "plain c" and esc: "escape_char c = [c]" and nd: "c \<noteq> NUL" "c \<noteq> CHR 0x5C"
      using plain_simps by auto
    from Cons.prems esc have d: "drop i s = c # EscapeJsonString w @ CHR 0x22 # r" by simp
    note d1 = cursor [OF d]
    have "string_loop s i acc = string_loop s (Suc i) (acc @ [c])"
      using d1(1) nd False by (subst string_loop.simps) simp
    also have "\<dots> = (Some ((acc @ [c]) @ w), Suc i + length (EscapeJsonString w))"
      using Cons.IH [of "Suc i" "acc @ [c]"] Cons.prems d1 nd by simp
    finally show ?thesis using esc by simp
  qed
qed

lemma JsonParseAsString_quoted:
  assumes "drop i s = CHR 0x22 # EscapeJsonString w @ CHR 0x22 # r" and "list_all plain w"
  shows "JsonParseAsString s i = (Some w, i + Suc (length (EscapeJsonString w)))"
  using string_loop_escaped [OF assms(2), of "Suc i" s r "[]"] cursor [OF assms(1)]
  by (simp add: JsonParseAsString_def)

lemma key_ok_escape: "key_ok n \<Longrightarrow> EscapeJsonString n = n \<and> list_all plain n"
  by (induction n) (auto simp: key_ok_def plain_simps)

section \<open>Numbers\<close>

lemma number_loop_scan:
  "drop i s = v @ r \<Longrightarrow> num_scan prev flags v = Some (prev', flags') \<Longrightarrow> (prev' = CHR ''0'' \<or> IsDigit prev') \<Longrightarrow>
   r \<noteq> [] \<Longrightarrow> IsSeparator (hd r) \<Longrightarrow>
   number_loop s i prev flags acc =
     (Some (JsonElementCreatePrimitive
        (if fst (snd flags') then JSON_PRIMITIVE_TYPE_REAL else JSON_PRIMITIVE_TYPE_INTEGER) (acc @ v)), i + length v - 1)"
proof (induction v arbitrary: i prev flags acc)
  case Nil
  then obtain c r' where "r = c # r'" by (cases r) auto
  with Nil have "char_at s i = c" using cursor(1) by fastforce
  with Nil \<open>r = c # r'\<close> show ?case by (subst number_loop.simps) auto
next
  case (Cons c v)
  then have d: "drop i s = c # v @ r" by simp
  note d1 = cursor [OF d]
  from Cons.prems obtain fl where fl: "number_step c prev flags = Some fl" "c \<noteq> NUL" "\<not> IsSeparator c"
    "num_scan c fl v = Some (prev', flags')" by (auto split: if_splits option.splits)
  with d1 have "number_loop s i prev flags acc = number_loop s (Suc i) c fl (acc @ [c])"
    by (subst number_loop.simps) simp
  also note Cons.IH [OF d1(2) fl(4) Cons.prems(3-5)]
  finally show ?case by simp
qed

lemma JsonParseAsNumber_ok:
  assumes "drop i s = v @ r" and "number_ok t v" and "r \<noteq> []" and "IsSeparator (hd r)"
  shows "JsonParseAsNumber s i = (Some (JsonElementCreatePrimitive t v), i + length v - 1)"
  using assms number_loop_scan [of i s v r NUL "(False, False, False)" _ _ "[]"]
  by (auto simp: number_ok_def JsonParseAsNumber_def split: option.splits)

section \<open>Literals\<close>

lemma calm_Cons: "calm (c # s) \<Longrightarrow> calm s"
  by (cases s) auto

lemma calm_drop: "calm s \<Longrightarrow> calm (drop i s)"
proof (induction s arbitrary: i)
  case (Cons c s)
  then show ?case using calm_Cons [of c s] by (cases i) auto
qed simp

lemma calm_strstr: "calm s \<Longrightarrow> c \<in> {CHR ''t'', CHR ''f'', CHR ''n''} \<Longrightarrow> strstr s (CHR 0x0A # c # lit) = None"
proof (induction s)
  case (Cons a s)
  then have "strstr s (CHR 0x0A # c # lit) = None" using calm_Cons by blast
  moreover have "\<not> starts_with (CHR 0x0A # c # lit) (a # s)"
    using Cons.prems by (cases s) auto
  ultimately show ?case by (simp del: starts_with.simps)
qed simp

lemma pcre_calm:
  assumes "pcre_multiline pcre" and "calm s"
  shows "pcre ''^true'' s = starts_with ''true'' s" "pcre ''^false'' s = starts_with ''false'' s"
    "pcre ''^null'' s = starts_with ''null'' s"
  using assms calm_strstr [OF assms(2)] by (auto simp: pcre_multiline_def line_start_def)

lemma StringMatch_calm:
  assumes "pcre_multiline pcre" and "calm s" and "hd (drop i s) \<noteq> CHR ''^''"
  shows "StringMatch pcre ''^true'' (drop i s) = starts_with ''true'' (drop i s)"
    "StringMatch pcre ''^false'' (drop i s) = starts_with ''false'' (drop i s)"
    "StringMatch pcre ''^null'' (drop i s) = starts_with ''null'' (drop i s)"
proof -
  have ne: "CHR ''^'' # x \<noteq> drop i s" for x using assms(3) by (metis list.sel(1))
  show "StringMatch pcre ''^true'' (drop i s) = starts_with ''true'' (drop i s)"
    "StringMatch pcre ''^false'' (drop i s) = starts_with ''false'' (drop i s)"
    "StringMatch pcre ''^null'' (drop i s) = starts_with ''null'' (drop i s)"
    using pcre_calm [OF assms(1) calm_drop [OF assms(2)], of i] ne by (simp_all add: StringMatch_def)
qed

lemma JsonParseAsBoolean_calm:
  assumes "pcre_multiline pcre" and "calm s" and "drop i s = v @ c # r" and "IsSeparator c" and "v = JSON_TRUE \<or> v = JSON_FALSE"
  shows "JsonParseAsBoolean pcre s i = (Some (JsonElementCreatePrimitive JSON_PRIMITIVE_TYPE_BOOL v), i + length v - 1)"
proof -
  have at: "char_at s (i + length v) = c" using cursor(1) [OF cursor_append [OF assms(3)]] .
  note m = StringMatch_calm [OF assms(1,2), of i, unfolded assms(3)]
  from assms(5) show ?thesis
  proof
    assume v: "v = JSON_TRUE"
    then have "length v = 4" by (simp add: JSON_TRUE_def)
    with at have "char_at s (i + 4) = c" by metis
    with m assms(4) v show ?thesis
      by (simp add: JsonParseAsBoolean_def assms(3) JSON_TRUE_def ends_literal_def JsonBoolCreate_def)
  next
    assume v: "v = JSON_FALSE"
    then have "length v = 5" by (simp add: JSON_FALSE_def)
    with at have "char_at s (i + 5) = c" by metis
    with m assms(4) v show ?thesis
      by (simp add: JsonParseAsBoolean_def assms(3) JSON_FALSE_def ends_literal_def JsonBoolCreate_def)
  qed
qed

lemma JsonParseAsNull_calm:
  assumes "pcre_multiline pcre" and "calm s" and "drop i s = JSON_NULL @ c # r" and "IsSeparator c"
  shows "JsonParseAsBoolean pcre s i = (None, i)"
    and "JsonParseAsNull pcre s i = (Some (JsonElementCreatePrimitive JSON_PRIMITIVE_TYPE_NULL JSON_NULL), i + 3)"
proof -
  have "length JSON_NULL = 4" by (simp add: JSON_NULL_def)
  then have at: "char_at s (i + 4) = c" using cursor(1) [OF cursor_append [OF assms(3)]] by metis
  note m = StringMatch_calm [OF assms(1,2), of i, unfolded assms(3)]
  show "JsonParseAsBoolean pcre s i = (None, i)"
    using m by (simp add: JsonParseAsBoolean_def assms(3) JSON_NULL_def)
  show "JsonParseAsNull pcre s i = (Some (JsonElementCreatePrimitive JSON_PRIMITIVE_TYPE_NULL JSON_NULL), i + 3)"
    using m at assms(4) by (simp add: JsonParseAsNull_def assms(3) JSON_NULL_def ends_literal_def JsonNullCreate_def)
qed

section \<open>Primitives in arrays and objects\<close>

lemma number_ok_hd: "number_ok t v \<Longrightarrow> \<exists>c cs. v = c # cs \<and> starts_number c"
  by (cases v) (auto simp: number_ok_def)

lemma number_ok_type: "number_ok t v \<Longrightarrow> t = JSON_PRIMITIVE_TYPE_REAL \<or> t = JSON_PRIMITIVE_TYPE_INTEGER"
  by (auto simp: number_ok_def split: option.splits if_splits)

lemma starts_number_not: "starts_number c \<Longrightarrow> c \<noteq> CHR 0x22 \<and> c \<noteq> CHR '':'' \<and> c \<noteq> CHR '','' \<and> c \<noteq> NUL \<and>
   c \<noteq> CHR ''['' \<and> c \<noteq> CHR '']'' \<and> c \<noteq> CHR ''{'' \<and> c \<noteq> CHR ''}'' \<and> \<not> IsWhitespace c"
  by (auto simp: starts_number_def IsDigit_def IsWhitespace_def)

lemma starts_number_simps [simp]:
  "\<not> starts_number (CHR ''t'')" "\<not> starts_number (CHR ''f'')" "\<not> starts_number (CHR ''n'')"
  by (simp_all add: starts_number_def IsDigit_def)

lemma literal_first:
  "v = JSON_TRUE \<or> v = JSON_FALSE \<Longrightarrow> \<exists>a as. v = a # as \<and> a \<noteq> CHR 0x22 \<and> \<not> starts_number a"
  by (erule disjE; simp add: JSON_TRUE_def JSON_FALSE_def)

lemma prim_ok_number:
  "prim_ok JSON_PRIMITIVE_TYPE_INTEGER v = number_ok JSON_PRIMITIVE_TYPE_INTEGER v"
  "prim_ok JSON_PRIMITIVE_TYPE_REAL v = number_ok JSON_PRIMITIVE_TYPE_REAL v"
  by (simp_all add: prim_ok_def)

lemma prim_first:
  assumes "prim_ok t v"
  shows "\<exists>c cs. prim_text t v = c # cs \<and> c \<noteq> NUL \<and> c \<notin> {CHR '':'', CHR '','', CHR ''['', CHR '']'', CHR ''{'', CHR ''}''} \<and>
    \<not> IsWhitespace c"
proof (cases t)
  case JSON_PRIMITIVE_TYPE_STRING
  then show ?thesis by (auto simp: prim_text_def IsWhitespace_def)
next
  case JSON_PRIMITIVE_TYPE_INTEGER
  with assms obtain c cs where "v = c # cs" "starts_number c" using number_ok_hd prim_ok_number by metis
  with JSON_PRIMITIVE_TYPE_INTEGER starts_number_not [of c] show ?thesis
    by (auto simp: prim_text_def)
next
  case JSON_PRIMITIVE_TYPE_REAL
  with assms obtain c cs where "v = c # cs" "starts_number c" using number_ok_hd prim_ok_number by metis
  with JSON_PRIMITIVE_TYPE_REAL starts_number_not [of c] show ?thesis
    by (auto simp: prim_text_def)
next
  case JSON_PRIMITIVE_TYPE_BOOL
  with assms show ?thesis by (auto simp: prim_text_def prim_ok_def JSON_TRUE_def JSON_FALSE_def IsWhitespace_def)
next
  case JSON_PRIMITIVE_TYPE_NULL
  with assms show ?thesis by (auto simp: prim_text_def prim_ok_def JSON_NULL_def IsWhitespace_def)
qed

text \<open>What the scalar parsers return at the text of a primitive.\<close>

definition reads_prim :: "(string \<Rightarrow> string \<Rightarrow> bool) \<Rightarrow> string \<Rightarrow> nat \<Rightarrow> JsonPrimitiveType \<Rightarrow> string \<Rightarrow> bool" where
  "reads_prim pcre s i t v \<longleftrightarrow>
     (if t = JSON_PRIMITIVE_TYPE_STRING then
        char_at s i = CHR 0x22 \<and> JsonParseAsString s i = (Some (unquote v), i + length (prim_text t v) - 1) \<and>
        EscapeJsonString (unquote v) = v
      else if t = JSON_PRIMITIVE_TYPE_BOOL then
        char_at s i \<noteq> CHR 0x22 \<and> \<not> starts_number (char_at s i) \<and>
        JsonParseAsBoolean pcre s i = (Some (JsonElementCreatePrimitive t v), i + length v - 1)
      else if t = JSON_PRIMITIVE_TYPE_NULL then
        char_at s i \<noteq> CHR 0x22 \<and> \<not> starts_number (char_at s i) \<and> JsonParseAsBoolean pcre s i = (None, i) \<and>
        JsonParseAsNull pcre s i = (Some (JsonElementCreatePrimitive t v), i + length v - 1)
      else char_at s i \<noteq> CHR 0x22 \<and> starts_number (char_at s i) \<and>
        JsonParseAsNumber s i = (Some (JsonElementCreatePrimitive t v), i + length v - 1))"

lemma reads_prim_ok:
  assumes "pcre_multiline pcre" "calm s" "drop i s = prim_text t v @ c # r" "IsSeparator c" "prim_ok t v"
  shows "reads_prim pcre s i t v"
proof (cases t)
  case JSON_PRIMITIVE_TYPE_STRING
  with assms have "drop i s = CHR 0x22 # EscapeJsonString (unquote v) @ CHR 0x22 # c # r" "list_all plain (unquote v)"
    and v: "v = EscapeJsonString (unquote v)"
    by (auto simp: prim_text_def prim_ok_def)
  from JsonParseAsString_quoted [OF this(1,2)] cursor(1) [OF this(1)] v [symmetric] JSON_PRIMITIVE_TYPE_STRING
  show ?thesis by (simp add: reads_prim_def prim_text_def)
next
  case JSON_PRIMITIVE_TYPE_BOOL
  with assms have d: "drop i s = v @ c # r" and v: "v = JSON_TRUE \<or> v = JSON_FALSE" by (auto simp: prim_text_def prim_ok_def)
  from v obtain a as where a: "v = a # as" "a \<noteq> CHR 0x22" "\<not> starts_number a"
    using literal_first by blast
  with d cursor(1) [of i s a "as @ c # r"] have "char_at s i = a" by simp
  with a JsonParseAsBoolean_calm [OF assms(1,2) d assms(4) v] JSON_PRIMITIVE_TYPE_BOOL show ?thesis
    by (simp add: reads_prim_def)
next
  case JSON_PRIMITIVE_TYPE_NULL
  with assms have d: "drop i s = JSON_NULL @ c # r" and v: "v = JSON_NULL" by (auto simp: prim_text_def prim_ok_def)
  from d have "char_at s i = CHR ''n''" using cursor(1) [of i s "CHR ''n''"] by (simp add: JSON_NULL_def)
  moreover from v have "i + 3 = i + length v - 1" by (simp add: JSON_NULL_def)
  ultimately show ?thesis
    using JsonParseAsNull_calm [OF assms(1,2) d assms(4)] JSON_PRIMITIVE_TYPE_NULL v
    by (simp add: reads_prim_def)
next
  case JSON_PRIMITIVE_TYPE_INTEGER
  with assms have d: "drop i s = v @ c # r" and v: "number_ok t v" by (auto simp: prim_text_def prim_ok_def)
  from number_ok_hd [OF v] obtain a as where a: "v = a # as" "starts_number a" by blast
  with d cursor(1) [of i s a "as @ c # r"] have "char_at s i = a" by simp
  with a starts_number_not [OF a(2)] JsonParseAsNumber_ok [OF d v] assms(4) JSON_PRIMITIVE_TYPE_INTEGER show ?thesis
    by (simp add: reads_prim_def)
next
  case JSON_PRIMITIVE_TYPE_REAL
  with assms have d: "drop i s = v @ c # r" and v: "number_ok t v" by (auto simp: prim_text_def prim_ok_def)
  from number_ok_hd [OF v] obtain a as where a: "v = a # as" "starts_number a" by blast
  with d cursor(1) [of i s a "as @ c # r"] have "char_at s i = a" by simp
  with a starts_number_not [OF a(2)] JsonParseAsNumber_ok [OF d v] assms(4) JSON_PRIMITIVE_TYPE_REAL show ?thesis
    by (simp add: reads_prim_def)
qed

lemma array_scalar_reads:
  assumes "reads_prim pcre s i t v" and "is_array a js"
  shows "\<exists>a'. array_scalar pcre s i a = Inr (Some a', i + length (prim_text t v) - 1) \<and> is_array a' (js @ [JPrim t v])"
proof -
  note s = array_appends(2) [OF assms(2), of "unquote v"]
  note p = array_appends(1) [OF assms(2), of "JsonElementCreatePrimitive t v"]
  show ?thesis
  proof (cases "t = JSON_PRIMITIVE_TYPE_STRING")
    case True
    with assms(1) s show ?thesis by (auto simp: reads_prim_def array_scalar_def)
  next
    case False
    from p obtain a' where "JsonArrayAppendPrimitive a (JsonElementCreatePrimitive t v) = Inr a'"
      "is_array a' (js @ [JPrim t v])" by (auto simp: JsonElementCreatePrimitive_def)
    with assms(1) False show ?thesis
      by (auto simp: reads_prim_def array_scalar_def prim_text_def split: if_splits)
  qed
qed

lemma object_scalar_reads:
  assumes "reads_prim pcre s i t v" and "is_object e fs" and "char_at s i \<notin> {CHR '':'', CHR '',''}"
  shows "\<exists>e'. object_scalar pcre s i e (Some n) = Inr (Some (e', None), i + length (prim_text t v) - 1) \<and>
    is_object e' (fs @ [(n, JPrim t v)])"
proof -
  note s = object_appends(2) [OF assms(2), of n "unquote v"]
  note p = object_appends(1) [OF assms(2), of "JsonElementCreatePrimitive t v" n]
  show ?thesis
  proof (cases "t = JSON_PRIMITIVE_TYPE_STRING")
    case True
    with assms(1) s show ?thesis by (auto simp: reads_prim_def object_scalar_def)
  next
    case False
    from p obtain e' where "JsonObjectAppendPrimitive e (Some n) (JsonElementCreatePrimitive t v) = Inr e'"
      "is_object e' (fs @ [(n, JPrim t v)])" by (auto simp: JsonElementCreatePrimitive_def)
    with assms(1,3) False show ?thesis
      by (auto simp: reads_prim_def object_scalar_def prim_text_def split: if_splits)
  qed
qed

section \<open>Containers\<close>

lemma array_skip:
  "list_all (\<lambda>c. IsWhitespace c \<or> c = CHR '','') ws \<Longrightarrow> drop i s = ws @ r \<Longrightarrow>
   array_loop pcre s i a = array_loop pcre s (i + length ws) a"
proof (induction ws arbitrary: i)
  case (Cons c ws)
  then have d: "drop i s = c # ws @ r" by simp
  from Cons.prems have c: "IsWhitespace c \<or> c = CHR '',''" "c \<noteq> NUL" by (auto simp: IsWhitespace_def)
  with cursor(1) [OF d] have "array_loop pcre s i a = array_loop pcre s (Suc i) a"
    by (subst array_loop.simps) auto
  with Cons.IH [OF _ cursor(2) [OF d]] Cons.prems show ?case by simp
qed simp

lemma object_skip:
  "list_all IsWhitespace ws \<Longrightarrow> drop i s = ws @ r \<Longrightarrow> object_loop pcre s i e p = object_loop pcre s (i + length ws) e p"
proof (induction ws arbitrary: i)
  case (Cons c ws)
  then have d: "drop i s = c # ws @ r" by simp
  from Cons.prems have c: "IsWhitespace c" "c \<noteq> NUL" by (auto simp: IsWhitespace_def)
  with cursor(1) [OF d] have "object_loop pcre s i e p = object_loop pcre s (Suc i) e p"
    by (subst object_loop.simps) auto
  with Cons.IH [OF _ cursor(2) [OF d]] Cons.prems show ?case by simp
qed simp

lemma PrintIndent_blank: "list_all IsWhitespace (PrintIndent k)" "list_all (\<lambda>c. IsWhitespace c \<or> c = CHR '','') (PrintIndent k)"
  by (auto simp: PrintIndent_def list_all_iff IsWhitespace_def)

text \<open>What the parsers of containers return at the text of a container.\<close>

definition reads_container :: "(string \<Rightarrow> string \<Rightarrow> bool) \<Rightarrow> string \<Rightarrow> nat \<Rightarrow> json \<Rightarrow> nat \<Rightarrow> bool" where
  "reads_container pcre s i j n = (case j of
     JArray js \<Rightarrow> char_at s i = CHR ''['' \<and> (\<exists>e. JsonParseAsArray pcre s i = Inr (Some e, i + n - 1) \<and> is_array e js)
   | JObject fs \<Rightarrow> char_at s i = CHR ''{'' \<and> (\<exists>e. JsonParseAsObject pcre s i = Inr (Some e, i + n - 1) \<and> is_object e fs)
   | JPrim t v \<Rightarrow> False)"

lemma jtext_nonempty: "json_ok j \<Longrightarrow> 0 < length (jtext k j)"
  by (cases j) (auto dest: prim_first)

lemma array_element_step:
  assumes "pcre_multiline pcre" "calm s" "drop i s = jtext k j @ c # r" "IsSeparator c" "json_ok j" "is_array a acc"
    and "\<forall>t v. j \<noteq> JPrim t v \<Longrightarrow> reads_container pcre s i j (length (jtext k j))"
  shows "\<exists>a'. array_loop pcre s i a = array_loop pcre s (i + length (jtext k j)) a' \<and> is_array a' (acc @ [j])"
proof (cases j)
  case (JPrim t v)
  with assms obtain c0 cs where t: "prim_text t v = c0 # cs" "c0 \<noteq> NUL"
    "c0 \<notin> {CHR '':'', CHR '','', CHR ''['', CHR '']'', CHR ''{'', CHR ''}''}" "\<not> IsWhitespace c0"
    using prim_first by force
  with JPrim assms(3) have at: "char_at s i = c0" using cursor(1) [of i s c0 "cs @ c # r"] by simp
  from JPrim assms have "drop i s = prim_text t v @ c # r" "prim_ok t v" by auto
  from array_scalar_reads [OF reads_prim_ok [OF assms(1,2) this(1) assms(4) this(2)] assms(6)]
  obtain a' where "array_scalar pcre s i a = Inr (Some a', i + length (prim_text t v) - 1)"
    "is_array a' (acc @ [JPrim t v])" by blast
  with at t JPrim show ?thesis by (subst array_loop.simps) auto
next
  case (JArray js)
  with assms(7) obtain e where e: "char_at s i = CHR ''[''"
    "JsonParseAsArray pcre s i = Inr (Some e, i + length (jtext k j) - 1)" "is_array e js"
    by (auto simp: reads_container_def)
  from array_appends(3) [OF assms(6) e(3)] obtain a' where "JsonArrayAppendArray a e = Inr a'"
    "is_array a' (acc @ [JArray js])" by blast
  with e JArray jtext_nonempty [OF assms(5), of k] show ?thesis
    by (subst array_loop.simps) (auto simp: IsWhitespace_def)
next
  case (JObject fs)
  with assms(7) obtain e where e: "char_at s i = CHR ''{''"
    "JsonParseAsObject pcre s i = Inr (Some e, i + length (jtext k j) - 1)" "is_object e fs"
    by (auto simp: reads_container_def)
  from array_appends(4) [OF assms(6) e(3)] obtain a' where "JsonArrayAppendObject a e = Inr a'"
    "is_array a' (acc @ [JObject fs])" by blast
  with e JObject jtext_nonempty [OF assms(5), of k] show ?thesis
    by (subst array_loop.simps) (auto simp: IsWhitespace_def)
qed

lemma object_value_step:
  assumes "pcre_multiline pcre" "calm s" "drop i s = jtext k j @ c # r" "IsSeparator c" "json_ok j" "is_object e0 acc"
    and "\<forall>t v. j \<noteq> JPrim t v \<Longrightarrow> reads_container pcre s i j (length (jtext k j))"
  shows "\<exists>e'. object_loop pcre s i e0 (Some n) = object_loop pcre s (i + length (jtext k j)) e' None \<and> is_object e' (acc @ [(n, j)])"
proof (cases j)
  case (JPrim t v)
  with assms obtain c0 cs where t: "prim_text t v = c0 # cs" "c0 \<noteq> NUL"
    "c0 \<notin> {CHR '':'', CHR '','', CHR ''['', CHR '']'', CHR ''{'', CHR ''}''}" "\<not> IsWhitespace c0"
    using prim_first by force
  with JPrim assms(3) have at: "char_at s i = c0" using cursor(1) [of i s c0 "cs @ c # r"] by simp
  from JPrim assms have "drop i s = prim_text t v @ c # r" "prim_ok t v" by auto
  from object_scalar_reads [OF reads_prim_ok [OF assms(1,2) this(1) assms(4) this(2)] assms(6)] at t
  obtain e' where "object_scalar pcre s i e0 (Some n) = Inr (Some (e', None), i + length (prim_text t v) - 1)"
    "is_object e' (acc @ [(n, JPrim t v)])" by blast
  with at t JPrim show ?thesis by (subst object_loop.simps) auto
next
  case (JArray js)
  with assms(7) obtain e where e: "char_at s i = CHR ''[''"
    "JsonParseAsArray pcre s i = Inr (Some e, i + length (jtext k j) - 1)" "is_array e js"
    by (auto simp: reads_container_def)
  from object_appends(3) [OF assms(6) e(3)] obtain e' where "JsonObjectAppendArray e0 (Some n) e = Inr e'"
    "is_object e' (acc @ [(n, JArray js)])" by blast
  with e JArray jtext_nonempty [OF assms(5), of k] show ?thesis
    by (subst object_loop.simps) (auto simp: IsWhitespace_def)
next
  case (JObject fs)
  with assms(7) obtain e where e: "char_at s i = CHR ''{''"
    "JsonParseAsObject pcre s i = Inr (Some e, i + length (jtext k j) - 1)" "is_object e fs"
    by (auto simp: reads_container_def)
  from object_appends(4) [OF assms(6) e(3)] obtain e' where "JsonObjectAppendObject e0 (Some n) e = Inr e'"
    "is_object e' (acc @ [(n, JObject fs)])" by blast
  with e JObject jtext_nonempty [OF assms(5), of k] show ?thesis
    by (subst object_loop.simps) (auto simp: IsWhitespace_def)
qed

text \<open>A property name, its colon and the blank after it.\<close>

lemma object_key_step:
  assumes "drop i s = [CHR 0x22] @ n @ [CHR 0x22] @ '': '' @ r" and "key_ok n"
  shows "object_loop pcre s i e None = object_loop pcre s (i + length n + 4) e (Some n)"
proof -
  from key_ok_escape [OF assms(2)] assms(1)
  have d: "drop i s = CHR 0x22 # EscapeJsonString n @ CHR 0x22 # CHR '':'' # CHR '' '' # r" "list_all plain n"
    "EscapeJsonString n = n" by auto
  from JsonParseAsString_quoted [OF d(1,2)] d(3) have p: "JsonParseAsString s i = (Some n, i + Suc (length n))" by simp
  from cursor_append [of i s "CHR 0x22 # n @ [CHR 0x22]" "CHR '':'' # CHR '' '' # r"] d
  have d2: "drop (i + Suc (Suc (length n))) s = CHR '':'' # CHR '' '' # r" by simp
  have "object_loop pcre s i e None = object_loop pcre s (i + Suc (Suc (length n))) e (Some n)"
    using cursor(1) [OF d(1)] p
    by (subst object_loop.simps) (simp add: object_scalar_def IsWhitespace_def)
  also have "\<dots> = object_loop pcre s (Suc (i + Suc (Suc (length n)))) e (Some n)"
    using cursor(1) [OF d2] by (subst object_loop.simps) (simp add: object_scalar_def IsWhitespace_def)
  also have "\<dots> = object_loop pcre s (Suc (i + Suc (Suc (length n))) + length '' '') e (Some n)"
    using cursor(2) [OF d2] by (intro object_skip [where r = r]) (simp_all add: IsWhitespace_def)
  finally show ?thesis by (simp add: eval_nat_numeral)
qed

lemma arr_sep_blank: "list_all (\<lambda>c. IsWhitespace c \<or> c = CHR '','') (if js \<noteq> [] then [CHR '','', CHR 0x0A] else [CHR 0x0A])"
  by (simp add: IsWhitespace_def)

lemma object_comma: "char_at s i = CHR '','' \<Longrightarrow> object_loop pcre s i e None = object_loop pcre s (Suc i) e None"
  by (subst object_loop.simps) (simp add: object_scalar_def IsWhitespace_def)

lemma object_sep_step:
  assumes "drop i s = (if fs \<noteq> [] then '','' else []) @ [CHR 0x0A] @ r"
  shows "object_loop pcre s i e None = object_loop pcre s (i + length (if fs \<noteq> [] then '','' else []) + 1) e None"
proof (cases "fs = []")
  case True
  with assms object_skip [of "[CHR 0x0A]" i s r] show ?thesis by (simp add: IsWhitespace_def)
next
  case False
  with assms have d: "drop i s = CHR '','' # CHR 0x0A # r" by simp
  from object_comma [OF cursor(1) [OF d]] object_skip [of "[CHR 0x0A]" "Suc i" s r] cursor(2) [OF d] False
  show ?thesis by (simp add: IsWhitespace_def)
qed

lemma parse_text:
  assumes "pcre_multiline pcre" "calm s"
  shows "drop i s = jtext k j @ r \<Longrightarrow> json_ok j \<Longrightarrow> \<forall>t v. j \<noteq> JPrim t v \<Longrightarrow> reads_container pcre s i j (length (jtext k j))"
    and "drop i s = arr_body k js @ PrintIndent k @ CHR '']'' # r \<Longrightarrow> list_all json_ok js \<Longrightarrow> is_array a acc \<Longrightarrow>
      \<exists>a'. array_loop pcre s i a = Inr (Some a', i + length (arr_body k js) + length (PrintIndent k)) \<and> is_array a' (acc @ js)"
    and "drop i s = obj_body k fs @ PrintIndent k @ CHR ''}'' # r \<Longrightarrow> list_all (\<lambda>(n, j). key_ok n \<and> json_ok j) fs \<Longrightarrow> is_object e fs0 \<Longrightarrow>
      \<exists>e'. object_loop pcre s i e None = Inr (Some e', i + length (obj_body k fs) + length (PrintIndent k)) \<and> is_object e' (fs0 @ fs)"
proof (induction k j and k js and k fs arbitrary: i r and i r a acc and i r e fs0 rule: jtext_arr_body_obj_body.induct)
  case (1 k fs)
  then have d: "drop i s = CHR ''{'' # CHR 0x0A # obj_body k fs @ PrintIndent k @ CHR ''}'' # r" by simp
  note c = cursor [OF d]
  from "1.IH" [OF cursor(2) [OF c(2)] _ is_object_create] "1.prems"
  obtain e' where "object_loop pcre s (Suc (Suc i)) (JsonObjectCreate DEFAULT_CONTAINER_CAPACITY) None =
      Inr (Some e', Suc (Suc i) + length (obj_body k fs) + length (PrintIndent k))" "is_object e' fs" by fastforce
  with c object_skip [of "[CHR 0x0A]" "Suc i" s] show ?case
    by (simp add: reads_container_def JsonParseAsObject.simps IsWhitespace_def)
next
  case (2 k js)
  show ?case
  proof (cases "js = []")
    case True
    with 2 have d: "drop i s = CHR ''['' # CHR '']'' # r" by simp
    from cursor [OF d] cursor(1) [OF cursor(2) [OF d]] True show ?thesis
      by (simp add: reads_container_def JsonParseAsArray.simps)
         (subst array_loop.simps, simp add: IsWhitespace_def is_array_create)
  next
    case False
    with "2.prems" have d: "drop i s = CHR ''['' # CHR 0x0A # arr_body k js @ PrintIndent k @ CHR '']'' # r" by simp
    note c = cursor [OF d]
    from "2.IH" [OF False cursor(2) [OF c(2)] _ is_array_create] "2.prems"
    obtain a' where "array_loop pcre s (Suc (Suc i)) (JsonArrayCreate DEFAULT_CONTAINER_CAPACITY) =
        Inr (Some a', Suc (Suc i) + length (arr_body k js) + length (PrintIndent k))" "is_array a' js" by fastforce
    with c array_skip [of "[CHR 0x0A]" "Suc i" s] False show ?thesis
      by (simp add: reads_container_def JsonParseAsArray.simps IsWhitespace_def)
  qed
next
  case (3 k t v)
  then show ?case by blast
next
  case (4 k)
  then have d: "drop i s = PrintIndent k @ CHR '']'' # r" by simp
  from array_skip [OF PrintIndent_blank(2) d] cursor(1) [OF cursor_append [OF d]] "4.prems" show ?case
    by simp (subst array_loop.simps, simp add: IsWhitespace_def)
next
  case (5 k j js)
  let ?sep = "if js \<noteq> [] then [CHR '','', CHR 0x0A] else [CHR 0x0A]"
  let ?rest = "arr_body k js @ PrintIndent k @ CHR '']'' # r"
  from "5.prems"(1) have d: "drop i s = PrintIndent (k + 1) @ jtext (k + 1) j @ ?sep @ ?rest" by simp
  note d1 = cursor_append [OF d] and s1 = array_skip [OF PrintIndent_blank(2) d, of pcre a]
  note d2 = cursor_append [OF d1] note d3 = cursor_append [OF d2]
  obtain c r' where sep: "?sep @ ?rest = c # r'" "IsSeparator c" by (cases "js = []") (auto simp: IsSeparator_def IsWhitespace_def)
  from "5.prems"(2) have ok: "json_ok j" "list_all json_ok js" by auto
  from array_element_step [OF assms d1 [unfolded sep(1)] sep(2) ok(1) "5.prems"(3) "5.IH"(1) [OF d1 ok(1)]]
  obtain a1 where a1: "array_loop pcre s (i + length (PrintIndent (k + 1))) a =
      array_loop pcre s (i + length (PrintIndent (k + 1)) + length (jtext (k + 1) j)) a1" "is_array a1 (acc @ [j])" by blast
  from "5.IH"(2) [OF d3 ok(2) a1(2)] s1 a1(1) array_skip [OF arr_sep_blank d2, of pcre a1]
  show ?case by (auto simp: add.assoc)
next
  case (6 k)
  then have d: "drop i s = PrintIndent k @ CHR ''}'' # r" by simp
  from object_skip [OF PrintIndent_blank(1) d] cursor(1) [OF cursor_append [OF d]] "6.prems" show ?case
    by simp (subst object_loop.simps, simp add: IsWhitespace_def)
next
  case (7 k n j fs)
  let ?sep = "if fs \<noteq> [] then '','' else []"
  let ?rest = "obj_body k fs @ PrintIndent k @ CHR ''}'' # r"
  from "7.prems"(1) have d: "drop i s = PrintIndent (k + 1) @ [CHR 0x22] @ n @ [CHR 0x22] @ '': '' @ jtext (k + 1) j @ ?sep @ [CHR 0x0A] @ ?rest" by simp
  note d1 = cursor_append [OF d] and s1 = object_skip [OF PrintIndent_blank(1) d, of pcre e None]
  let ?i1 = "i + length (PrintIndent (k + 1))"
  from "7.prems"(2) have ok: "key_ok n" "json_ok j" "list_all (\<lambda>(n, j). key_ok n \<and> json_ok j) fs" by auto
  note s2 = object_key_step [OF d1 ok(1), of pcre e]
  from cursor_append [of ?i1 s "[CHR 0x22] @ n @ [CHR 0x22] @ '': ''"] d1
  have d2: "drop (?i1 + length n + 4) s = jtext (k + 1) j @ ?sep @ [CHR 0x0A] @ ?rest" by (simp add: eval_nat_numeral)
  note d3 = cursor_append [OF d2] note d4 = cursor_append [OF d3]
  obtain c r' where sep: "?sep @ [CHR 0x0A] @ ?rest = c # r'" "IsSeparator c" by (cases "fs = []") (auto simp: IsSeparator_def IsWhitespace_def)
  from object_value_step [OF assms d2 [unfolded sep(1)] sep(2) ok(2) "7.prems"(3) "7.IH"(1) [OF d2 ok(2)]]
  obtain e1 where e1: "object_loop pcre s (?i1 + length n + 4) e (Some n) =
      object_loop pcre s (?i1 + length n + 4 + length (jtext (k + 1) j)) e1 None" "is_object e1 (fs0 @ [(n, j)])" by blast
  note s4 = object_sep_step [OF d3, of pcre e1]
  from d4 have "drop (?i1 + length n + 4 + length (jtext (k + 1) j) + length ?sep) s = CHR 0x0A # ?rest"
    by (simp only: append_Cons append_Nil)
  note d5 = cursor(2) [OF this]
  from "7.IH"(2) [OF d5 ok(3) e1(2)] s1 s2 e1(1) s4 show ?case by (auto simp: add.assoc add.commute add.left_commute)
qed

section \<open>Printed text is calm\<close>

definition no_newline :: "string \<Rightarrow> bool" where
  "no_newline s \<longleftrightarrow> CHR 0x0A \<notin> set s"

definition quiet :: "string \<Rightarrow> bool" where
  "quiet r \<longleftrightarrow> r = [] \<or> hd r \<notin> {CHR ''t'', CHR ''f'', CHR ''n''}"

lemma calm_newline: "calm (CHR 0x0A # r) \<longleftrightarrow> quiet r \<and> calm r"
  by (cases r) (auto simp: quiet_def)

lemma calm_skip: "c \<noteq> CHR 0x0A \<Longrightarrow> calm (c # r) = calm r"
  by (cases r) auto

lemma calm_append: "no_newline xs \<Longrightarrow> calm (xs @ r) = calm r"
  by (induction xs) (auto simp: no_newline_def calm_skip)

lemma no_newline_escape: "list_all plain w \<Longrightarrow> no_newline (EscapeJsonString w)"
proof (induction w)
  case (Cons c w)
  then have "c \<noteq> CHR 0x0A" "no_newline (EscapeJsonString w)" by (simp_all add: plain_simps(3))
  moreover from Cons.prems have "escape_char c = (if c = CHR 0x22 then [CHR 0x5C, c] else [c])" by (simp add: plain_simps(4))
  ultimately show ?case by (simp add: no_newline_def)
qed (simp add: no_newline_def)

lemma num_scan_no_newline: "num_scan prev flags v = Some x \<Longrightarrow> no_newline v"
  by (induction prev flags v rule: num_scan.induct)
     (auto simp: no_newline_def IsSeparator_def IsWhitespace_def split: if_splits option.splits)

lemma prim_no_newline: "prim_ok t v \<Longrightarrow> no_newline (prim_text t v)"
proof (cases "t = JSON_PRIMITIVE_TYPE_STRING")
  case True
  assume "prim_ok t v"
  with True have "list_all plain (unquote v)" "v = EscapeJsonString (unquote v)" by (auto simp: prim_ok_def)
  with no_newline_escape have "no_newline v" by metis
  with True show ?thesis by (simp add: prim_text_def no_newline_def)
next
  case False
  assume "prim_ok t v"
  with False show ?thesis
    by (cases t) (auto simp: prim_text_def prim_ok_def number_ok_def no_newline_def JSON_TRUE_def JSON_FALSE_def
        JSON_NULL_def split: option.splits dest: num_scan_no_newline [unfolded no_newline_def])
qed

lemma key_no_newline: "key_ok n \<Longrightarrow> no_newline n"
  by (auto simp: key_ok_def no_newline_def list_all_iff plain_def)

lemma indent_no_newline: "no_newline (PrintIndent k)"
  by (auto simp: PrintIndent_def no_newline_def)

lemma quiet_indent: "0 < k \<or> quiet r \<Longrightarrow> quiet (PrintIndent k @ r)"
  by (cases k) (auto simp: PrintIndent_def quiet_def SPACES_PER_INDENT_def)

lemma quiet_close: "quiet (PrintIndent k @ CHR ''}'' # r)" "quiet (PrintIndent k @ CHR '']'' # r)"
  by (rule quiet_indent, simp add: quiet_def)+

lemma text_calm:
  "json_ok j \<Longrightarrow> calm r \<Longrightarrow> calm (jtext k j @ r)"
  "list_all json_ok js \<Longrightarrow> calm r \<Longrightarrow> quiet r \<Longrightarrow> calm (arr_body k js @ r) \<and> quiet (arr_body k js @ r)"
  "list_all (\<lambda>(n, j). key_ok n \<and> json_ok j) fs \<Longrightarrow> calm r \<Longrightarrow> quiet r \<Longrightarrow> calm (obj_body k fs @ r) \<and> quiet (obj_body k fs @ r)"
proof (induction k j and k js and k fs arbitrary: r and r and r rule: jtext_arr_body_obj_body.induct)
  case (1 k fs)
  have "calm (PrintIndent k @ CHR ''}'' # r)" "quiet (PrintIndent k @ CHR ''}'' # r)"
    using "1.prems" by (auto simp: calm_append indent_no_newline calm_skip quiet_close)
  with "1.IH" [of "PrintIndent k @ CHR ''}'' # r"] "1.prems" show ?case by (simp add: calm_newline calm_skip)
next
  case (2 k js)
  have "calm (PrintIndent k @ CHR '']'' # r)" "quiet (PrintIndent k @ CHR '']'' # r)"
    using "2.prems" by (auto simp: calm_append indent_no_newline calm_skip quiet_close)
  with "2.IH" [of "PrintIndent k @ CHR '']'' # r"] "2.prems" show ?case by (simp add: calm_newline calm_skip)
next
  case (3 k t v)
  then show ?case by (simp add: calm_append prim_no_newline)
next
  case (5 k j js)
  from "5.prems" have "calm (arr_body k js @ r) \<and> quiet (arr_body k js @ r)" by (intro "5.IH"(2)) auto
  then have "calm ((if js \<noteq> [] then [CHR '','', CHR 0x0A] else [CHR 0x0A]) @ arr_body k js @ r)"
    by (cases "js = []") (simp_all add: calm_newline calm_skip)
  with "5.IH"(1) "5.prems"(1) show ?case
    by (simp add: calm_append indent_no_newline quiet_indent)
next
  case (7 k n j fs)
  from "7.prems" have "calm (obj_body k fs @ r) \<and> quiet (obj_body k fs @ r)" by (intro "7.IH"(2)) auto
  then have "calm ((if fs \<noteq> [] then '','' else []) @ CHR 0x0A # obj_body k fs @ r)"
    by (cases "fs = []") (simp_all add: calm_newline calm_skip)
  with "7.IH"(1) "7.prems"(1) have "calm (jtext (k + 1) j @ (if fs \<noteq> [] then '','' else []) @ CHR 0x0A # obj_body k fs @ r)"
    by simp
  moreover from "7.prems"(1) have "no_newline n" by (simp add: key_no_newline)
  ultimately show ?case
    by (simp add: calm_append indent_no_newline quiet_indent calm_skip)
qed simp_all

section \<open>Round trip\<close>

lemma JsonParse_print_container:
  assumes "pcre_multiline pcre" "json_wf e" "json_ok (jval e)" "JsonGetElementType e = JSON_ELEMENT_TYPE_CONTAINER"
  shows "\<exists>s e'. JsonElementPrint e 0 = Inr s \<and> JsonParse pcre s 0 = Inr (Some e', length s - 1) \<and>
    json_wf e' \<and> jval e' = jval e"
proof -
  let ?s = "jtext 0 (jval e)"
  from print_text(5) [OF assms(2,4), of 0] assms(4) have p: "JsonElementPrint e 0 = Inr ?s"
    by (cases e) (auto simp: JsonElementPrint_def)
  from text_calm(1) [OF assms(3), of "[]" 0] have c: "calm ?s" by simp
  from assms(4) have np: "\<forall>t v. jval e \<noteq> JPrim t v" by (cases e) (auto split: JsonContainerType.split)
  from parse_text(1) [OF assms(1) c, of 0 0 "jval e" "[]"] assms(3) np
  have "reads_container pcre ?s 0 (jval e) (length ?s)" by simp
  then have "\<exists>e'. JsonParse pcre ?s 0 = Inr (Some e', length ?s - 1) \<and> json_wf e' \<and> jval e' = jval e"
    by (subst JsonParse.simps) (auto simp: reads_container_def is_array_def is_object_def split: json.splits)
  with p show ?thesis by blast
qed

section \<open>Number texts\<close>

text \<open>
  Numbers as the printer of other programs and of this one write them: an optional minus, digits without a leading zero,
  and for a real a dot and more digits.
\<close>

definition all_digits :: "string \<Rightarrow> bool" where
  "all_digits ds \<longleftrightarrow> ds \<noteq> [] \<and> list_all c_isdigit ds"

definition integer_text :: "string \<Rightarrow> bool" where
  "integer_text v \<longleftrightarrow> (let ds = (if v \<noteq> [] \<and> hd v = CHR ''-'' then tl v else v)
     in all_digits ds \<and> (hd ds = CHR ''0'' \<longrightarrow> ds = ''0''))"

definition real_text :: "string \<Rightarrow> bool" where
  "real_text v \<longleftrightarrow> integer_text (takeWhile (\<lambda>c. c \<noteq> CHR ''.'') v) \<and> all_digits (tl (dropWhile (\<lambda>c. c \<noteq> CHR ''.'') v))"

definition number_text :: "JsonPrimitiveType \<Rightarrow> string \<Rightarrow> bool" where
  "number_text t v = (case t of
     JSON_PRIMITIVE_TYPE_INTEGER \<Rightarrow> integer_text v
   | JSON_PRIMITIVE_TYPE_REAL \<Rightarrow> real_text v
   | _ \<Rightarrow> False)"

lemma c_isdigit_nonzero: "c_isdigit c \<Longrightarrow> c = CHR ''0'' \<or> IsDigit c"
proof (cases "c = CHR ''0''")
  case False
  moreover assume "c_isdigit c"
  ultimately have "CHR ''0'' < c" "c \<le> CHR ''9''" by (auto simp: c_isdigit_def order.strict_iff_order)
  then show ?thesis by (simp add: IsDigit_def less_eq_char_def less_char_def)
qed simp

lemma c_isdigit_facts:
  assumes "c_isdigit c"
  shows "c \<noteq> NUL" "\<not> IsSeparator c" "c \<noteq> CHR ''-''" "c \<noteq> CHR ''+''" "c \<noteq> CHR ''.''" "c \<noteq> CHR ''e''" "c \<noteq> CHR ''E''"
    "c = CHR ''0'' \<or> IsDigit c" "starts_number c"
  using assms c_isdigit_nonzero [OF assms]
  by (auto simp: c_isdigit_def IsSeparator_def IsWhitespace_def starts_number_def less_eq_char_def)

lemma digit_step:
  assumes "c_isdigit c" "\<not> z \<or> d \<or> e" "prev \<noteq> NUL"
  shows "number_step c prev (z, d, e) = Some (z, d, e)"
  using c_isdigit_facts [OF assms(1)] assms(2,3) by (auto simp: number_step_def)

lemma digits_scan:
  "list_all c_isdigit ds \<Longrightarrow> \<not> z \<or> d \<or> e \<Longrightarrow> prev \<noteq> NUL \<Longrightarrow>
     num_scan prev (z, d, e) (ds @ rest) = num_scan (last (prev # ds)) (z, d, e) rest"
proof (induction ds arbitrary: prev)
  case (Cons c ds)
  then have c: "c_isdigit c" by simp
  from Cons.IH [of c] Cons.prems c_isdigit_facts [OF c] digit_step [OF c Cons.prems(2,3)] show ?case by simp
qed simp

lemma integer_scan:
  assumes "integer_text v"
  shows "\<exists>z. num_scan NUL (False, False, False) (v @ rest) = num_scan (last v) (z, False, False) rest \<and> c_isdigit (last v) \<and>
    v \<noteq> [] \<and> starts_number (hd v)"
proof -
  have unsigned: "\<exists>z. num_scan prev (False, False, False) (ds @ rest) = num_scan (last ds) (z, False, False) rest \<and> c_isdigit (last ds)"
    if ds: "all_digits ds" "hd ds = CHR ''0'' \<longrightarrow> ds = ''0''" for ds prev
  proof -
    from ds obtain c cs where c: "ds = c # cs" "c_isdigit c" "list_all c_isdigit cs" by (cases ds) (auto simp: all_digits_def)
    have l: "c_isdigit (last ds)" using c by (auto simp: list_all_iff)
    show ?thesis
    proof (cases "c = CHR ''0''")
      case True
      with ds c have "ds = ''0''" by simp
      then show ?thesis by (auto simp: number_step_def IsSeparator_def IsWhitespace_def c_isdigit_def)
    next
      case False
      with c_isdigit_facts [OF c(2)] have "number_step c prev (False, False, False) = Some (False, False, False)"
        by (auto simp: number_step_def)
      with digits_scan [OF c(3), of False False False c rest] c_isdigit_facts(1,2) [OF c(2)] c(1)
      have "num_scan prev (False, False, False) (ds @ rest) = num_scan (last ds) (False, False, False) rest" by simp
      with l show ?thesis by blast
    qed
  qed
  show ?thesis
  proof (cases "v \<noteq> [] \<and> hd v = CHR ''-''")
    case True
    then obtain ds where v: "v = CHR ''-'' # ds" by (cases v) auto
    with assms have ds: "all_digits ds" "hd ds = CHR ''0'' \<longrightarrow> ds = ''0''" by (simp_all add: integer_text_def)
    then have "ds \<noteq> []" by (simp add: all_digits_def)
    moreover have "number_step CHR ''-'' NUL (False, False, False) = Some (False, False, False)"
      by (simp add: number_step_def)
    ultimately show ?thesis using unsigned [OF ds, of "CHR ''-''"] v
      by (simp add: IsSeparator_def IsWhitespace_def starts_number_def)
  next
    case False
    with assms have ds: "all_digits v" "hd v = CHR ''0'' \<longrightarrow> v = ''0''" by (auto simp: integer_text_def Let_def)
    then have "v \<noteq> []" "starts_number (hd v)" by (auto simp: all_digits_def list_all_iff c_isdigit_facts)
    with unsigned [OF ds, of NUL] show ?thesis by blast
  qed
qed

lemma number_text_ok: "number_text t v \<Longrightarrow> number_ok t v"
proof (cases t)
  case JSON_PRIMITIVE_TYPE_INTEGER
  assume "number_text t v"
  with JSON_PRIMITIVE_TYPE_INTEGER have v: "integer_text v" by (simp add: number_text_def)
  with integer_scan [OF v, of "[]"] JSON_PRIMITIVE_TYPE_INTEGER c_isdigit_facts(8) [of "last v"] show ?thesis
    by (auto simp: number_ok_def)
next
  case JSON_PRIMITIVE_TYPE_REAL
  assume "number_text t v"
  with JSON_PRIMITIVE_TYPE_REAL have "real_text v" by (simp add: number_text_def)
  then obtain a ds where a: "integer_text a" "all_digits ds" and v: "v = a @ CHR ''.'' # ds"
  proof -
    assume r: "real_text v" and *: "\<And>a ds. integer_text a \<Longrightarrow> all_digits ds \<Longrightarrow> v = a @ CHR ''.'' # ds \<Longrightarrow> thesis"
    let ?b = "dropWhile (\<lambda>c. c \<noteq> CHR ''.'') v"
    from r have "tl ?b \<noteq> []" by (simp add: real_text_def all_digits_def)
    then have "?b \<noteq> []" by (metis list.sel(2))
    with hd_dropWhile [OF this] have "?b = CHR ''.'' # tl ?b" by (cases ?b) auto
    then have "v = takeWhile (\<lambda>c. c \<noteq> CHR ''.'') v @ CHR ''.'' # tl ?b" by (metis takeWhile_dropWhile_id)
    moreover from r have "integer_text (takeWhile (\<lambda>c. c \<noteq> CHR ''.'') v)" "all_digits (tl ?b)" by (simp_all add: real_text_def)
    ultimately show thesis using * by blast
  qed
  from integer_scan [OF a(1), of "CHR ''.'' # ds"] obtain z where
    z: "num_scan NUL (False, False, False) v = num_scan (last a) (z, False, False) (CHR ''.'' # ds)"
    "c_isdigit (last a)" "a \<noteq> []" "starts_number (hd a)" by (auto simp: v)
  from a(2) have d: "list_all c_isdigit ds" "ds \<noteq> []" by (simp_all add: all_digits_def)
  have "number_step CHR ''.'' (last a) (z, False, False) = Some (z, True, False)"
    using c_isdigit_facts(8) [OF z(2)] by (auto simp: number_step_def)
  with z(1) digits_scan [OF d(1), of z True False "CHR ''.''" "[]"] d(2)
  have "num_scan NUL (False, False, False) v = Some (last ds, z, True, False)"
    by (simp add: IsSeparator_def IsWhitespace_def)
  moreover have "last ds = CHR ''0'' \<or> IsDigit (last ds)" using d by (intro c_isdigit_facts(8)) (simp add: list_all_iff)
  ultimately show ?thesis using z(3,4) JSON_PRIMITIVE_TYPE_REAL by (simp add: number_ok_def v)
qed (simp_all add: number_text_def)

text \<open>A value all of whose strings are plain and whose numbers are such texts.\<close>

fun json_plain :: "json \<Rightarrow> bool" where
  "json_plain (JObject fs) = list_all (\<lambda>(n, j). key_ok n \<and> json_plain j) fs"
| "json_plain (JArray js) = list_all json_plain js"
| "json_plain (JPrim t v) =
     (if t = JSON_PRIMITIVE_TYPE_INTEGER \<or> t = JSON_PRIMITIVE_TYPE_REAL then number_text t v else prim_ok t v)"

lemma json_plain_ok: "json_plain j \<Longrightarrow> json_ok j"
proof (induction j rule: json_plain.induct)
  case (3 t v)
  then show ?case by (auto simp: prim_ok_def number_text_ok split: if_splits)
qed (auto simp: list_all_iff)


section \<open>Properties of the JSON component\<close>

definition sample_element :: JsonElement where
  "sample_element = JsonContainer JSON_CONTAINER_TYPE_OBJECT None (Sequence 64
     [JsonPrimitive JSON_PRIMITIVE_TYPE_STRING (Some ''k'') ''v'',
      JsonContainer JSON_CONTAINER_TYPE_ARRAY (Some ''a'') (Sequence 2
        [JsonPrimitive JSON_PRIMITIVE_TYPE_INTEGER None ''-12'', JsonPrimitive JSON_PRIMITIVE_TYPE_NULL None ''null''] True)] True)"

text \<open>C4: Printing a well-formed container whose strings and names hold no control character or backslash, its names no quote either, and
  whose numbers are plain decimals, and parsing the text, gives back a well-formed element with the same value, with the cursor on the last character.\<close>

lemma JsonElement_print_parse:
  assumes "pcre_multiline pcre" and "json_wf e" and "json_plain (jval e)"
    and "JsonGetElementType e = JSON_ELEMENT_TYPE_CONTAINER"
  shows "\<exists>s e'. JsonElementPrint e 0 = Inr s \<and> JsonParse pcre s 0 = Inr (Some e', length s - 1) \<and>
    json_wf e' \<and> jval e' = jval e"
  by (rule JsonParse_print_container [OF assms(1,2) json_plain_ok [OF assms(3)] assms(4)])

lemma JsonElement_print_parse_witness:
  "\<exists>s e'. JsonElementPrint sample_element 0 = Inr s \<and>
     JsonParse (\<lambda>re s. line_start (tl re) s) s 0 = Inr (Some e', length s - 1) \<and> json_wf e' \<and> jval e' = jval sample_element"
proof (rule JsonElement_print_parse)
  show "pcre_multiline (\<lambda>re s. line_start (tl re) s)" by (simp add: pcre_multiline_def)
  show "json_wf sample_element" by (simp add: sample_element_def seq_invar_def)
  show "json_plain (jval sample_element)"
    by (simp add: sample_element_def name_of_def key_ok_def prim_ok_def plain_def escape_char_def number_text_def
        integer_text_def all_digits_def c_isdigit_def JSON_NULL_def)
  show "JsonGetElementType sample_element = JSON_ELEMENT_TYPE_CONTAINER" by (simp add: sample_element_def)
qed

text \<open>An object is a list of fields: appending a string adds a field at the end (escaped), also when the key
  is there already, and a lookup finds the first field with the key; no assertion fails.\<close>

lemma JsonObject_append_get:
  assumes "is_object e fs"
  shows "\<exists>e' r. JsonObjectAppendString e (Some k) (Some v) = Inr e' \<and>
    is_object e' (fs @ [(k, JPrim JSON_PRIMITIVE_TYPE_STRING (EscapeJsonString v))]) \<and>
    JsonObjectGet e' (Some k') = Inr r \<and>
    map_option jval r = (case map_of fs k' of Some j \<Rightarrow> Some j
      | None \<Rightarrow> if k' = k then Some (JPrim JSON_PRIMITIVE_TYPE_STRING (EscapeJsonString v)) else None)"
proof -
  from object_appends(2) [OF assms, of k v] obtain e' where e': "JsonObjectAppendString e (Some k) (Some v) = Inr e'"
    "is_object e' (fs @ [(k, JPrim JSON_PRIMITIVE_TYPE_STRING (EscapeJsonString v))])" by blast
  with JsonObjectGet_spec [OF e'(2), of k'] show ?thesis by (fastforce simp: map_add_def split: option.split)
qed

lemma JsonObject_append_get_witness:
  "\<exists>e' r. JsonObjectAppendString (JsonObjectCreate 4) (Some ''k'') (Some ''v'') = Inr e' \<and>
    is_object e' ([] @ [(''k'', JPrim JSON_PRIMITIVE_TYPE_STRING (EscapeJsonString ''v''))]) \<and>
    JsonObjectGet e' (Some ''k'') = Inr r \<and>
    map_option jval r = (case map_of [] ''k'' of Some j \<Rightarrow> Some j
      | None \<Rightarrow> if ''k'' = ''k'' then Some (JPrim JSON_PRIMITIVE_TYPE_STRING (EscapeJsonString ''v'')) else None)"
  by (rule JsonObject_append_get [OF is_object_create])

text \<open>Detaching a key returns the first field with the key and takes exactly that field out of the object; with
  no such field it returns NULL and the object keeps its fields.\<close>

lemma JsonObjectDetachKey_first:
  assumes "is_object e fs"
  shows "\<exists>r e'. JsonObjectDetachKey e (Some k) = Inr (r, e') \<and> map_option jval r = map_of fs k \<and>
    is_object e' (drop_first (\<lambda>f. fst f = k) fs)"
  using detach_spec [OF assms] .

lemma JsonObjectDetachKey_first_witness:
  "\<exists>r e'. JsonObjectDetachKey sample_element (Some ''k'') = Inr (r, e') \<and>
    map_option jval r = map_of [(''k'', JPrim JSON_PRIMITIVE_TYPE_STRING ''v''),
      (''a'', JArray [JPrim JSON_PRIMITIVE_TYPE_INTEGER ''-12'', JPrim JSON_PRIMITIVE_TYPE_NULL ''null''])] ''k'' \<and>
    is_object e' (drop_first (\<lambda>f. fst f = ''k'') [(''k'', JPrim JSON_PRIMITIVE_TYPE_STRING ''v''),
      (''a'', JArray [JPrim JSON_PRIMITIVE_TYPE_INTEGER ''-12'', JPrim JSON_PRIMITIVE_TYPE_NULL ''null''])])"
  by (rule JsonObjectDetachKey_first) (simp add: is_object_def sample_element_def seq_invar_def name_of_def)

text \<open>An integer primitive reads back as the integer it was created from, over the whole range of \<open>long\<close>.\<close>

lemma JsonInteger_roundtrip:
  assumes "LONG_MIN \<le> i" and "i \<le> LONG_MAX"
  shows "JsonPrimitiveGetAsInteger (JsonIntegerCreate i) = Inr i"
  by (simp add: JsonIntegerCreate_def JsonElementCreatePrimitive_def StringToLong_def strtol10_show_int [OF assms])

lemma JsonInteger_roundtrip_witness: "JsonPrimitiveGetAsInteger (JsonIntegerCreate (-2147483648)) = Inr (-2147483648)"
  by (rule JsonInteger_roundtrip) (simp_all add: LONG_MIN_def LONG_MAX_def)

end
