(* ===== verification/CF_Maps.thy ===== *)
theory CF_Maps
  imports CF_Prelude "HOL-Library.Word"
begin

text \<open>
  \<open>src/array_map.c\<close>, \<open>src/hash_map.c\<close>, \<open>src/map.c\<close>, \<open>src/set.c\<close> and \<open>src/string_map.c\<close>: the associative
  array that starts as an array of at most 14 pairs and becomes a hash table of 8192 chained buckets.
  The C code updates in place and calls the destroy functions; the model returns the updated map and the
  list of the destroy calls, in order.  Keys and values are pointers: equality of keys is the map's
  \<open>equal_fn\<close>.
\<close>

section \<open>Pairs\<close>

datatype ('k, 'v) destroy_call = DestroyKey 'k | DestroyValue 'v

type_synonym ('k, 'v) MapKeyValue = "'k \<times> 'v"

text \<open>The search loops of both representations: find, replace the value, remove the pair.\<close>

fun find_pair :: "('k \<Rightarrow> 'k \<Rightarrow> bool) \<Rightarrow> ('k, 'v) MapKeyValue list \<Rightarrow> 'k \<Rightarrow> ('k, 'v) MapKeyValue option" where
  "find_pair eq [] key = None"
| "find_pair eq (kv # kvs) key = (if eq (fst kv) key then Some kv else find_pair eq kvs key)"

fun replace_value :: "('k \<Rightarrow> 'k \<Rightarrow> bool) \<Rightarrow> ('k, 'v) MapKeyValue list \<Rightarrow> 'k \<Rightarrow> 'v \<Rightarrow>
    (('k, 'v) MapKeyValue list \<times> ('k, 'v) destroy_call list) option" where
  "replace_value eq [] key v = None"
| "replace_value eq (kv # kvs) key v =
     (if eq (fst kv) key then Some ((fst kv, v) # kvs, [DestroyKey key, DestroyValue (snd kv)])
      else case replace_value eq kvs key v of None \<Rightarrow> None | Some (kvs', ds) \<Rightarrow> Some (kv # kvs', ds))"

fun remove_pair :: "('k \<Rightarrow> 'k \<Rightarrow> bool) \<Rightarrow> ('k, 'v) MapKeyValue list \<Rightarrow> 'k \<Rightarrow>
    (('k, 'v) MapKeyValue list \<times> ('k, 'v) destroy_call list) option" where
  "remove_pair eq [] key = None"
| "remove_pair eq (kv # kvs) key =
     (if eq (fst kv) key then Some (kvs, [DestroyKey (fst kv), DestroyValue (snd kv)])
      else case remove_pair eq kvs key of None \<Rightarrow> None | Some (kvs', ds) \<Rightarrow> Some (kv # kvs', ds))"

section \<open>array_map.c\<close>

definition TINY_LIMIT :: nat where
  "TINY_LIMIT = 14"

record ('k, 'v) ArrayMap =
  am_equal_fn :: "'k \<Rightarrow> 'k \<Rightarrow> bool"
  am_values :: "('k, 'v) MapKeyValue list"

definition ArrayMapNew :: "('k \<Rightarrow> 'k \<Rightarrow> bool) \<Rightarrow> ('k, 'v) ArrayMap" where
  "ArrayMapNew equal_fn = \<lparr>am_equal_fn = equal_fn, am_values = []\<rparr>"

definition ArrayMapInsert :: "('k, 'v) ArrayMap \<Rightarrow> 'k \<Rightarrow> 'v \<Rightarrow> bool \<times> ('k, 'v) ArrayMap \<times> ('k, 'v) destroy_call list" where
  "ArrayMapInsert m key v =
     (if length (am_values m) = TINY_LIMIT then (False, m, [])
      else case replace_value (am_equal_fn m) (am_values m) key v of
          Some (kvs, ds) \<Rightarrow> (True, m\<lparr>am_values := kvs\<rparr>, ds)
        | None \<Rightarrow> (True, m\<lparr>am_values := am_values m @ [(key, v)]\<rparr>, []))"

definition ArrayMapRemove :: "('k, 'v) ArrayMap \<Rightarrow> 'k \<Rightarrow> bool \<times> ('k, 'v) ArrayMap \<times> ('k, 'v) destroy_call list" where
  "ArrayMapRemove m key =
     (case remove_pair (am_equal_fn m) (am_values m) key of
        Some (kvs, ds) \<Rightarrow> (True, m\<lparr>am_values := kvs\<rparr>, ds)
      | None \<Rightarrow> (False, m, []))"

definition ArrayMapGet :: "('k, 'v) ArrayMap \<Rightarrow> 'k \<Rightarrow> ('k, 'v) MapKeyValue option" where
  "ArrayMapGet m key = find_pair (am_equal_fn m) (am_values m) key"

definition destroy_pair :: "('k, 'v) MapKeyValue \<Rightarrow> ('k, 'v) destroy_call list" where
  "destroy_pair kv = [DestroyKey (fst kv), DestroyValue (snd kv)]"

definition ArrayMapClear :: "('k, 'v) ArrayMap \<Rightarrow> ('k, 'v) ArrayMap \<times> ('k, 'v) destroy_call list" where
  "ArrayMapClear m = (m\<lparr>am_values := []\<rparr>, concat (map destroy_pair (am_values m)))"

text \<open>\<open>ArrayMapDestroy\<close> clears the map and frees its memory: no map remains.\<close>

definition ArrayMapDestroy :: "('k, 'v) ArrayMap \<Rightarrow> ('k, 'v) destroy_call list" where
  "ArrayMapDestroy m = snd (ArrayMapClear m)"

record ('k, 'v) ArrayMapIterator =
  ai_map :: "('k, 'v) ArrayMap"
  ai_pos :: nat

definition ArrayMapIteratorInit :: "('k, 'v) ArrayMap \<Rightarrow> ('k, 'v) ArrayMapIterator" where
  "ArrayMapIteratorInit m = \<lparr>ai_map = m, ai_pos = 0\<rparr>"

definition ArrayMapIteratorNext :: "('k, 'v) ArrayMapIterator \<Rightarrow> ('k, 'v) MapKeyValue option \<times> ('k, 'v) ArrayMapIterator" where
  "ArrayMapIteratorNext i =
     (if ai_pos i \<ge> length (am_values (ai_map i)) then (None, i)
      else (Some (am_values (ai_map i) ! ai_pos i), i\<lparr>ai_pos := ai_pos i + 1\<rparr>))"

section \<open>hash_map.c\<close>

definition HASHMAP_BUCKETS :: nat where
  "HASHMAP_BUCKETS = 8192"

text \<open>A hash value is an \<open>unsigned\<close> of 32 bits; the bucket array is a function on its indices.\<close>

record ('k, 'v) HashMap =
  hm_hash_fn :: "'k \<Rightarrow> 32 word"
  hm_equal_fn :: "'k \<Rightarrow> 'k \<Rightarrow> bool"
  hm_buckets :: "nat \<Rightarrow> ('k, 'v) MapKeyValue list"

definition HashMapNew :: "('k \<Rightarrow> 32 word) \<Rightarrow> ('k \<Rightarrow> 'k \<Rightarrow> bool) \<Rightarrow> ('k, 'v) HashMap" where
  "HashMapNew hash_fn equal_fn = \<lparr>hm_hash_fn = hash_fn, hm_equal_fn = equal_fn, hm_buckets = (\<lambda>_. [])\<rparr>"

definition HashMapGetBucket :: "('k, 'v) HashMap \<Rightarrow> 'k \<Rightarrow> nat" where
  "HashMapGetBucket m key = unat (hm_hash_fn m key) mod HASHMAP_BUCKETS"

definition HashMapInsert :: "('k, 'v) HashMap \<Rightarrow> 'k \<Rightarrow> 'v \<Rightarrow> bool \<times> ('k, 'v) HashMap \<times> ('k, 'v) destroy_call list" where
  "HashMapInsert m key v =
     (let bucket = HashMapGetBucket m key in
      case replace_value (hm_equal_fn m) (hm_buckets m bucket) key v of
        Some (kvs, ds) \<Rightarrow> (True, m\<lparr>hm_buckets := (hm_buckets m)(bucket := kvs)\<rparr>, ds)
      | None \<Rightarrow> (False, m\<lparr>hm_buckets := (hm_buckets m)(bucket := (key, v) # hm_buckets m bucket)\<rparr>, []))"

definition HashMapRemove :: "('k, 'v) HashMap \<Rightarrow> 'k \<Rightarrow> bool \<times> ('k, 'v) HashMap \<times> ('k, 'v) destroy_call list" where
  "HashMapRemove m key =
     (let bucket = HashMapGetBucket m key in
      case remove_pair (hm_equal_fn m) (hm_buckets m bucket) key of
        Some (kvs, ds) \<Rightarrow> (True, m\<lparr>hm_buckets := (hm_buckets m)(bucket := kvs)\<rparr>, ds)
      | None \<Rightarrow> (False, m, []))"

definition HashMapGet :: "('k, 'v) HashMap \<Rightarrow> 'k \<Rightarrow> ('k, 'v) MapKeyValue option" where
  "HashMapGet m key = find_pair (hm_equal_fn m) (hm_buckets m (HashMapGetBucket m key)) key"

text \<open>\<open>FreeBucketListItem\<close> frees the tail first.\<close>

fun FreeBucketListItem :: "('k, 'v) MapKeyValue list \<Rightarrow> ('k, 'v) destroy_call list" where
  "FreeBucketListItem [] = []"
| "FreeBucketListItem (kv # next_items) = FreeBucketListItem next_items @ destroy_pair kv"

definition HashMapClear :: "('k, 'v) HashMap \<Rightarrow> ('k, 'v) HashMap \<times> ('k, 'v) destroy_call list" where
  "HashMapClear m =
     (m\<lparr>hm_buckets := (\<lambda>i. if i < HASHMAP_BUCKETS then [] else hm_buckets m i)\<rparr>,
      concat (map (\<lambda>i. FreeBucketListItem (hm_buckets m i)) [0..<HASHMAP_BUCKETS]))"

definition HashMapDestroy :: "('k, 'v) HashMap \<Rightarrow> ('k, 'v) destroy_call list" where
  "HashMapDestroy m = snd (HashMapClear m)"

record ('k, 'v) HashMapIterator =
  hi_map :: "('k, 'v) HashMap"
  hi_cur :: "('k, 'v) MapKeyValue list"
  hi_bucket :: nat

definition HashMapIteratorInit :: "('k, 'v) HashMap \<Rightarrow> ('k, 'v) HashMapIterator" where
  "HashMapIteratorInit m = \<lparr>hi_map = m, hi_cur = hm_buckets m 0, hi_bucket = 0\<rparr>"

function HashMapIteratorNext :: "('k, 'v) HashMapIterator \<Rightarrow> ('k, 'v) MapKeyValue option \<times> ('k, 'v) HashMapIterator" where
  "HashMapIteratorNext i =
     (case hi_cur i of
        kv # rest \<Rightarrow> (Some kv, i\<lparr>hi_cur := rest\<rparr>)
      | [] \<Rightarrow>
          (let i' = i\<lparr>hi_bucket := hi_bucket i + 1\<rparr> in
           if hi_bucket i' \<ge> HASHMAP_BUCKETS then (None, i')
           else HashMapIteratorNext (i'\<lparr>hi_cur := hm_buckets (hi_map i') (hi_bucket i')\<rparr>)))"
  by pat_completeness auto
termination
  by (relation "measure (\<lambda>i. HASHMAP_BUCKETS - hi_bucket i)") auto

declare HashMapIteratorNext.simps [simp del]

section \<open>map.c\<close>

text \<open>
  \<open>struct Map_\<close>: a union of the two, with \<open>hash_fn\<close> kept aside while the map is an array (a NULL
  \<open>hash_fn\<close> marks the hash table).  \<open>NULL\<close> functions given to \<open>MapNew\<close> are replaced by identity on the
  pointer values: \<open>address\<close> is the pointer's value as an \<open>unsigned\<close>.
\<close>

datatype ('k, 'v) Map =
    ArrayBacked (map_hash_fn: "'k \<Rightarrow> 32 word") "('k, 'v) ArrayMap"
  | HashBacked "('k, 'v) HashMap"

definition IdentityHashFn :: "('k \<Rightarrow> 64 word) \<Rightarrow> 'k \<Rightarrow> 32 word" where
  "IdentityHashFn address p = ucast (address p)"

definition IdentityEqualFn :: "('k \<Rightarrow> 64 word) \<Rightarrow> 'k \<Rightarrow> 'k \<Rightarrow> bool" where
  "IdentityEqualFn address p1 p2 \<longleftrightarrow> address p1 = address p2"

definition MapNew :: "('k \<Rightarrow> 64 word) \<Rightarrow> ('k \<Rightarrow> 32 word) option \<Rightarrow> ('k \<Rightarrow> 'k \<Rightarrow> bool) option \<Rightarrow> ('k, 'v) Map" where
  "MapNew address hash_fn equal_fn =
     ArrayBacked (case hash_fn of None \<Rightarrow> IdentityHashFn address | Some h \<Rightarrow> h)
       (ArrayMapNew (case equal_fn of None \<Rightarrow> IdentityEqualFn address | Some e \<Rightarrow> e))"

fun convert_loop :: "('k, 'v) HashMap \<Rightarrow> ('k, 'v) MapKeyValue list \<Rightarrow> ('k, 'v) HashMap \<times> ('k, 'v) destroy_call list" where
  "convert_loop hashmap [] = (hashmap, [])"
| "convert_loop hashmap (kv # kvs) =
     (case HashMapInsert hashmap (fst kv) (snd kv) of
        (_, hashmap', ds) \<Rightarrow> (case convert_loop hashmap' kvs of (h, ds') \<Rightarrow> (h, ds @ ds')))"

definition ConvertToHashMap :: "('k \<Rightarrow> 32 word) \<Rightarrow> ('k, 'v) ArrayMap \<Rightarrow> ('k, 'v) HashMap \<times> ('k, 'v) destroy_call list" where
  "ConvertToHashMap hash_fn am = convert_loop (HashMapNew hash_fn (am_equal_fn am)) (am_values am)"

definition MapInsert :: "('k, 'v) Map \<Rightarrow> 'k \<Rightarrow> 'v \<Rightarrow> ('k, 'v) Map \<times> ('k, 'v) destroy_call list" where
  "MapInsert m key v =
     (case m of
        ArrayBacked h am \<Rightarrow>
          (case ArrayMapInsert am key v of
             (True, am', ds) \<Rightarrow> (ArrayBacked h am', ds)
           | (False, am', ds) \<Rightarrow>
               (case ConvertToHashMap h am' of
                  (hm, ds1) \<Rightarrow> (case HashMapInsert hm key v of (_, hm', ds2) \<Rightarrow> (HashBacked hm', ds @ ds1 @ ds2))))
      | HashBacked hm \<Rightarrow> (case HashMapInsert hm key v of (_, hm', ds) \<Rightarrow> (HashBacked hm', ds)))"

definition MapGetRaw :: "('k, 'v) Map \<Rightarrow> 'k \<Rightarrow> ('k, 'v) MapKeyValue option" where
  "MapGetRaw m key = (case m of ArrayBacked h am \<Rightarrow> ArrayMapGet am key | HashBacked hm \<Rightarrow> HashMapGet hm key)"

definition MapHasKey :: "('k, 'v) Map \<Rightarrow> 'k \<Rightarrow> bool" where
  "MapHasKey m key \<longleftrightarrow> MapGetRaw m key \<noteq> None"

text \<open>Values are pointers that may be NULL (\<open>None\<close>): \<open>MapGet\<close> does not tell a NULL value from an absent key.\<close>

definition MapGet :: "('k, 'v option) Map \<Rightarrow> 'k \<Rightarrow> 'v option" where
  "MapGet m key = (case MapGetRaw m key of Some kv \<Rightarrow> snd kv | None \<Rightarrow> None)"

definition MapRemove :: "('k, 'v) Map \<Rightarrow> 'k \<Rightarrow> bool \<times> ('k, 'v) Map \<times> ('k, 'v) destroy_call list" where
  "MapRemove m key =
     (case m of
        ArrayBacked h am \<Rightarrow> (case ArrayMapRemove am key of (b, am', ds) \<Rightarrow> (b, ArrayBacked h am', ds))
      | HashBacked hm \<Rightarrow> (case HashMapRemove hm key of (b, hm', ds) \<Rightarrow> (b, HashBacked hm', ds)))"

definition MapClear :: "('k, 'v) Map \<Rightarrow> ('k, 'v) Map \<times> ('k, 'v) destroy_call list" where
  "MapClear m =
     (case m of
        ArrayBacked h am \<Rightarrow> (case ArrayMapClear am of (am', ds) \<Rightarrow> (ArrayBacked h am', ds))
      | HashBacked hm \<Rightarrow> (case HashMapClear hm of (hm', ds) \<Rightarrow> (HashBacked hm', ds)))"

definition MapDestroy :: "('k, 'v) Map \<Rightarrow> ('k, 'v) destroy_call list" where
  "MapDestroy m = (case m of ArrayBacked h am \<Rightarrow> ArrayMapDestroy am | HashBacked hm \<Rightarrow> HashMapDestroy hm)"

datatype ('k, 'v) MapIterator =
    ArrayIter "('k, 'v) ArrayMapIterator"
  | HashIter "('k, 'v) HashMapIterator"

definition MapIteratorInit :: "('k, 'v) Map \<Rightarrow> ('k, 'v) MapIterator" where
  "MapIteratorInit m =
     (case m of ArrayBacked h am \<Rightarrow> ArrayIter (ArrayMapIteratorInit am) | HashBacked hm \<Rightarrow> HashIter (HashMapIteratorInit hm))"

definition MapIteratorNext :: "('k, 'v) MapIterator \<Rightarrow> ('k, 'v) MapKeyValue option \<times> ('k, 'v) MapIterator" where
  "MapIteratorNext i =
     (case i of
        ArrayIter ai \<Rightarrow> (case ArrayMapIteratorNext ai of (r, ai') \<Rightarrow> (r, ArrayIter ai'))
      | HashIter hi \<Rightarrow> (case HashMapIteratorNext hi of (r, hi') \<Rightarrow> (r, HashIter hi')))"

section \<open>set.c\<close>

text \<open>A set is a map whose values are its own elements, and whose value destructor does nothing.\<close>

type_synonym 'k Set = "('k, 'k) Map"

definition SetNew :: "('k \<Rightarrow> 64 word) \<Rightarrow> ('k \<Rightarrow> 32 word) option \<Rightarrow> ('k \<Rightarrow> 'k \<Rightarrow> bool) option \<Rightarrow> 'k Set" where
  "SetNew address element_hash_fn element_equal_fn = MapNew address element_hash_fn element_equal_fn"

definition SetAdd :: "'k Set \<Rightarrow> 'k \<Rightarrow> 'k Set \<times> ('k, 'k) destroy_call list" where
  "SetAdd s element = MapInsert s element element"

definition SetContains :: "'k Set \<Rightarrow> 'k \<Rightarrow> bool" where
  "SetContains s element = MapHasKey s element"

definition SetRemove :: "'k Set \<Rightarrow> 'k \<Rightarrow> bool \<times> 'k Set \<times> ('k, 'k) destroy_call list" where
  "SetRemove s element = MapRemove s element"

definition SetClear :: "'k Set \<Rightarrow> 'k Set \<times> ('k, 'k) destroy_call list" where
  "SetClear s = MapClear s"

definition SetDestroy :: "'k Set \<Rightarrow> ('k, 'k) destroy_call list" where
  "SetDestroy s = MapDestroy s"

definition SetIteratorInit :: "'k Set \<Rightarrow> ('k, 'k) MapIterator" where
  "SetIteratorInit s = MapIteratorInit s"

definition SetIteratorNext :: "('k, 'k) MapIterator \<Rightarrow> 'k option \<times> ('k, 'k) MapIterator" where
  "SetIteratorNext i = (case MapIteratorNext i of (kv, i') \<Rightarrow> (map_option fst kv, i'))"

section \<open>Invariants\<close>

text \<open>No two pairs have equal keys; a chain of bucket \<open>b\<close> holds keys that hash to \<open>b\<close>.\<close>

definition distinct_keys :: "('k \<Rightarrow> 'k \<Rightarrow> bool) \<Rightarrow> ('k, 'v) MapKeyValue list \<Rightarrow> bool" where
  "distinct_keys eq kvs \<longleftrightarrow> sorted_wrt (\<lambda>p q. \<not> eq (fst p) (fst q)) kvs"

definition array_map_wf :: "('k, 'v) ArrayMap \<Rightarrow> bool" where
  "array_map_wf m \<longleftrightarrow> equivp (am_equal_fn m) \<and> distinct_keys (am_equal_fn m) (am_values m) \<and>
     length (am_values m) \<le> TINY_LIMIT"

definition hash_respects :: "('k \<Rightarrow> 'k \<Rightarrow> bool) \<Rightarrow> ('k \<Rightarrow> 32 word) \<Rightarrow> bool" where
  "hash_respects eq h \<longleftrightarrow> (\<forall>k k'. eq k k' \<longrightarrow> h k = h k')"

definition hash_map_wf :: "('k, 'v) HashMap \<Rightarrow> bool" where
  "hash_map_wf m \<longleftrightarrow> equivp (hm_equal_fn m) \<and> hash_respects (hm_equal_fn m) (hm_hash_fn m) \<and>
     (\<forall>b. distinct_keys (hm_equal_fn m) (hm_buckets m b)) \<and>
     (\<forall>b. \<forall>kv \<in> set (hm_buckets m b). HashMapGetBucket m (fst kv) = b)"

definition map_wf :: "('k, 'v) Map \<Rightarrow> bool" where
  "map_wf m = (case m of
     ArrayBacked h am \<Rightarrow> array_map_wf am \<and> hash_respects (am_equal_fn am) h
   | HashBacked hm \<Rightarrow> hash_map_wf hm)"

definition map_equal_fn :: "('k, 'v) Map \<Rightarrow> 'k \<Rightarrow> 'k \<Rightarrow> bool" where
  "map_equal_fn m = (case m of ArrayBacked h am \<Rightarrow> am_equal_fn am | HashBacked hm \<Rightarrow> hm_equal_fn hm)"

section \<open>The search loops\<close>

lemma equivp_rules:
  assumes "equivp eq"
  shows "eq k k" and "eq k k' \<Longrightarrow> eq k' k" and "eq k k' \<Longrightarrow> eq k' k'' \<Longrightarrow> eq k k''"
  using assms by (auto intro: equivp_reflp equivp_symp equivp_transp)

lemma equivp_cong:
  assumes "equivp eq" and "eq k k'"
  shows "eq x k = eq x k'"
  using equivp_rules [OF assms(1)] assms(2) by blast

lemma find_pair_eq:
  assumes "equivp eq" and "eq k k'"
  shows "find_pair eq kvs k = find_pair eq kvs k'"
  by (induction kvs) (simp_all add: equivp_cong [OF assms])

lemma find_pair_None_iff: "find_pair eq kvs k = None \<longleftrightarrow> (\<forall>kv \<in> set kvs. \<not> eq (fst kv) k)"
  by (induction kvs) auto

lemma find_pair_SomeD: "find_pair eq kvs k = Some kv \<Longrightarrow> kv \<in> set kvs \<and> eq (fst kv) k"
  by (induction kvs) (auto split: if_splits)

lemma find_pair_append:
  "find_pair eq (kvs @ kvs') k = (case find_pair eq kvs k of None \<Rightarrow> find_pair eq kvs' k | Some kv \<Rightarrow> Some kv)"
  by (induction kvs) auto

lemma replace_value_None_iff: "replace_value eq kvs k v = None \<longleftrightarrow> find_pair eq kvs k = None"
  by (induction kvs) (auto split: option.splits)

lemma remove_pair_None_iff: "remove_pair eq kvs k = None \<longleftrightarrow> find_pair eq kvs k = None"
  by (induction kvs) (auto split: option.splits)

lemma replace_value_keys: "replace_value eq kvs k v = Some (kvs', ds) \<Longrightarrow> map fst kvs' = map fst kvs"
  by (induction kvs arbitrary: kvs') (auto split: if_splits option.splits)

lemma distinct_keys_fst: "distinct_keys eq kvs = sorted_wrt (\<lambda>x y. \<not> eq x y) (map fst kvs)"
  by (simp add: distinct_keys_def sorted_wrt_map)

lemma distinct_keys_map: "map fst kvs' = map fst kvs \<Longrightarrow> distinct_keys eq kvs' = distinct_keys eq kvs"
  by (simp add: distinct_keys_fst)

lemma find_pair_replace:
  assumes "equivp eq"
  shows "replace_value eq kvs k v = Some (kvs', ds) \<Longrightarrow>
    map_option snd (find_pair eq kvs' k') = (if eq k k' then Some v else map_option snd (find_pair eq kvs k'))"
proof (induction kvs arbitrary: kvs')
  case (Cons kv kvs)
  show ?case
  proof (cases "eq (fst kv) k")
    case True
    with assms have "eq (fst kv) k' = eq k k'" by (meson equivp_symp equivp_transp)
    with Cons.prems True show ?thesis by auto
  next
    case False
    with assms have "\<not> (eq (fst kv) k' \<and> eq k k')" by (meson equivp_symp equivp_transp)
    with Cons False show ?thesis by (cases kv) (auto split: option.splits)
  qed
qed simp

lemma remove_pair_subset: "remove_pair eq kvs k = Some (kvs', ds) \<Longrightarrow> set kvs' \<subseteq> set kvs"
  by (induction kvs arbitrary: kvs') (auto split: if_splits option.splits)

lemma remove_pair_distinct: "remove_pair eq kvs k = Some (kvs', ds) \<Longrightarrow> distinct_keys eq kvs \<Longrightarrow> distinct_keys eq kvs'"
proof (induction kvs arbitrary: kvs')
  case (Cons kv kvs)
  then show ?case
    using remove_pair_subset [of eq kvs k] by (fastforce simp: distinct_keys_def split: if_splits option.splits)
qed simp

lemma find_pair_remove:
  assumes "equivp eq"
  shows "remove_pair eq kvs k = Some (kvs', ds) \<Longrightarrow> distinct_keys eq kvs \<Longrightarrow>
    find_pair eq kvs' k' = (if eq k k' then None else find_pair eq kvs k')"
proof (induction kvs arbitrary: kvs')
  case (Cons kv kvs)
  show ?case
  proof (cases "eq (fst kv) k")
    case True
    with assms have e: "eq (fst kv) x = eq k x" for x by (meson equivp_symp equivp_transp)
    from Cons.prems(2) have "\<forall>q \<in> set kvs. \<not> eq (fst kv) (fst q)" by (simp add: distinct_keys_def)
    then have "eq k k' \<Longrightarrow> find_pair eq kvs k' = None"
      using assms e unfolding find_pair_None_iff by (meson equivp_symp equivp_transp)
    with Cons.prems(1) True e show ?thesis by auto
  next
    case False
    with assms have "\<not> (eq (fst kv) k' \<and> eq k k')" by (meson equivp_symp equivp_transp)
    with Cons False show ?thesis by (auto simp: distinct_keys_def split: option.splits)
  qed
qed simp

lemma distinct_keys_insert:
  assumes "equivp eq" and "distinct_keys eq kvs" and "find_pair eq kvs k = None"
  shows "distinct_keys eq (kvs @ [(k, v)])" and "distinct_keys eq ((k, v) # kvs)"
  using assms by (auto simp: distinct_keys_def sorted_wrt_append find_pair_None_iff dest: equivp_symp)

section \<open>Every operation keeps the invariant\<close>

lemma ArrayMapInsert_cases:
  assumes "array_map_wf m" and "ArrayMapInsert m k v = (True, m', ds)"
  obtains (replaced) kvs where "replace_value (am_equal_fn m) (am_values m) k v = Some (kvs, ds)" "m' = m\<lparr>am_values := kvs\<rparr>"
  | (appended) "find_pair (am_equal_fn m) (am_values m) k = None" "m' = m\<lparr>am_values := am_values m @ [(k, v)]\<rparr>"
      "ds = []" "length (am_values m) < TINY_LIMIT"
proof (cases "replace_value (am_equal_fn m) (am_values m) k v")
  case None
  with assms have "find_pair (am_equal_fn m) (am_values m) k = None" "m' = m\<lparr>am_values := am_values m @ [(k, v)]\<rparr>"
    "ds = []" "length (am_values m) < TINY_LIMIT"
    using replace_value_None_iff [of "am_equal_fn m" "am_values m" k v]
    by (auto simp: ArrayMapInsert_def array_map_wf_def split: if_splits)
  then show ?thesis by (rule appended)
next
  case (Some x)
  with assms show ?thesis by (cases x) (auto simp: ArrayMapInsert_def split: if_splits intro: replaced)
qed

lemma ArrayMapInsert_wf:
  assumes "array_map_wf m" and "ArrayMapInsert m k v = (True, m', ds)"
  shows "array_map_wf m' \<and> am_equal_fn m' = am_equal_fn m"
  using assms
proof (cases rule: ArrayMapInsert_cases)
  case (replaced kvs)
  from replace_value_keys [OF replaced(1)] have "length kvs = length (am_values m)"
    "distinct_keys (am_equal_fn m) kvs = distinct_keys (am_equal_fn m) (am_values m)"
    by (metis length_map, metis distinct_keys_map)
  with assms(1) replaced(2) show ?thesis by (simp add: array_map_wf_def)
next
  case appended
  with assms(1) distinct_keys_insert(1) [of "am_equal_fn m" "am_values m" k v] show ?thesis
    by (simp add: array_map_wf_def)
qed

lemma ArrayMapInsert_get:
  assumes "array_map_wf m" and "ArrayMapInsert m k v = (True, m', ds)"
  shows "map_option snd (ArrayMapGet m' k') = (if am_equal_fn m k k' then Some v else map_option snd (ArrayMapGet m k'))"
  using assms
proof (cases rule: ArrayMapInsert_cases)
  case (replaced kvs)
  from assms(1) have "equivp (am_equal_fn m)" by (simp add: array_map_wf_def)
  from find_pair_replace [OF this replaced(1), of k'] replaced(2) show ?thesis by (simp add: ArrayMapGet_def)
next
  case appended
  from assms(1) have "equivp (am_equal_fn m)" by (simp add: array_map_wf_def)
  from find_pair_eq [OF this, of k k' "am_values m"] appended show ?thesis
    by (auto simp: ArrayMapGet_def find_pair_append split: option.split)
qed

lemma ArrayMapInsert_False: "ArrayMapInsert m k v = (False, m', ds) \<Longrightarrow> m' = m \<and> ds = [] \<and> length (am_values m) = TINY_LIMIT"
  by (auto simp: ArrayMapInsert_def split: if_splits option.splits)

lemma remove_pair_length: "remove_pair eq kvs k = Some (kvs', ds) \<Longrightarrow> length kvs = Suc (length kvs')"
  by (induction kvs arbitrary: kvs') (auto split: if_splits option.splits)

lemma ArrayMapRemove_wf:
  assumes wf: "array_map_wf m" and r: "ArrayMapRemove m k = (r, m', ds)"
  shows "array_map_wf m' \<and> am_equal_fn m' = am_equal_fn m \<and> r = (ArrayMapGet m k \<noteq> None) \<and>
    ArrayMapGet m' k' = (if am_equal_fn m k k' then None else ArrayMapGet m k')"
proof (cases "remove_pair (am_equal_fn m) (am_values m) k")
  case None
  then have n: "find_pair (am_equal_fn m) (am_values m) k = None" by (simp add: remove_pair_None_iff)
  from wf have "equivp (am_equal_fn m)" by (simp add: array_map_wf_def)
  note e = find_pair_eq [OF this, of k k' "am_values m"]
  from None r have "m' = m" "r = False" by (simp_all add: ArrayMapRemove_def)
  with wf n e show ?thesis by (auto simp: ArrayMapGet_def)
next
  case (Some x)
  then obtain kvs ds' where x: "remove_pair (am_equal_fn m) (am_values m) k = Some (kvs, ds')" by (cases x) auto
  with r have m': "m' = m\<lparr>am_values := kvs\<rparr>" "r = True" by (simp_all add: ArrayMapRemove_def)
  from x have "find_pair (am_equal_fn m) (am_values m) k \<noteq> None" by (metis option.distinct(1) remove_pair_None_iff)
  with wf m' x show ?thesis
    by (simp add: array_map_wf_def ArrayMapGet_def find_pair_remove [OF _ x] remove_pair_distinct [OF x] remove_pair_length [OF x])
qed

lemma HashMapInsert_cases:
  assumes "HashMapInsert m k v = (r, m', ds)"
  obtains (replaced) kvs where "replace_value (hm_equal_fn m) (hm_buckets m (HashMapGetBucket m k)) k v = Some (kvs, ds)"
      "m' = m\<lparr>hm_buckets := (hm_buckets m)(HashMapGetBucket m k := kvs)\<rparr>" "r = True"
  | (added) "find_pair (hm_equal_fn m) (hm_buckets m (HashMapGetBucket m k)) k = None"
      "m' = m\<lparr>hm_buckets := (hm_buckets m)(HashMapGetBucket m k := (k, v) # hm_buckets m (HashMapGetBucket m k))\<rparr>" "ds = []" "r = False"
proof (cases "replace_value (hm_equal_fn m) (hm_buckets m (HashMapGetBucket m k)) k v")
  case None
  then have "find_pair (hm_equal_fn m) (hm_buckets m (HashMapGetBucket m k)) k = None" by (simp add: replace_value_None_iff)
  with None assms show ?thesis by (intro added) (simp_all add: HashMapInsert_def Let_def)
next
  case (Some x)
  with assms show ?thesis by (cases x) (auto simp: HashMapInsert_def Let_def intro: replaced)
qed

lemma HashMapGetBucket_update [simp]: "HashMapGetBucket (m\<lparr>hm_buckets := b\<rparr>) = HashMapGetBucket m"
  by (rule ext) (simp add: HashMapGetBucket_def)

lemma same_bucket: "hash_map_wf m \<Longrightarrow> hm_equal_fn m k k' \<Longrightarrow> HashMapGetBucket m k' = HashMapGetBucket m k"
  unfolding hash_map_wf_def hash_respects_def HashMapGetBucket_def by metis

lemma HashMapInsert_wf:
  assumes wf: "hash_map_wf m" and r: "HashMapInsert m k v = (r, m', ds)"
  shows "hash_map_wf m' \<and> hm_equal_fn m' = hm_equal_fn m \<and> hm_hash_fn m' = hm_hash_fn m"
  using r
proof (cases rule: HashMapInsert_cases)
  case (replaced kvs)
  note keys = replace_value_keys [OF replaced(1)]
  have "\<forall>kv \<in> set kvs. HashMapGetBucket m (fst kv) = HashMapGetBucket m k"
  proof
    fix kv assume "kv \<in> set kvs"
    then have "fst kv \<in> set (map fst kvs)" by simp
    then obtain kv' where "kv' \<in> set (hm_buckets m (HashMapGetBucket m k))" "fst kv' = fst kv" unfolding keys by auto
    with wf show "HashMapGetBucket m (fst kv) = HashMapGetBucket m k" unfolding hash_map_wf_def by metis
  qed
  with wf replaced(2) distinct_keys_map [OF keys] show ?thesis by (simp add: hash_map_wf_def)
next
  case added
  with wf distinct_keys_insert(2) [of "hm_equal_fn m" _ k v] show ?thesis by (auto simp: hash_map_wf_def)
qed

lemma HashMapInsert_get:
  assumes wf: "hash_map_wf m" and r: "HashMapInsert m k v = (r, m', ds)"
  shows "map_option snd (HashMapGet m' k') = (if hm_equal_fn m k k' then Some v else map_option snd (HashMapGet m k'))"
  using r
proof (cases rule: HashMapInsert_cases)
  case (replaced kvs)
  from wf have "equivp (hm_equal_fn m)" by (simp add: hash_map_wf_def)
  from find_pair_replace [OF this replaced(1), of k'] replaced(2) same_bucket [OF wf, of k k'] show ?thesis
    by (auto simp: HashMapGet_def)
next
  case added
  with same_bucket [OF wf, of k k'] show ?thesis by (auto simp: HashMapGet_def)
qed

lemma HashMapRemove_wf:
  assumes wf: "hash_map_wf m" and r: "HashMapRemove m k = (r, m', ds)"
  shows "hash_map_wf m' \<and> hm_equal_fn m' = hm_equal_fn m \<and> r = (HashMapGet m k \<noteq> None) \<and>
    HashMapGet m' k' = (if hm_equal_fn m k k' then None else HashMapGet m k')"
proof (cases "remove_pair (hm_equal_fn m) (hm_buckets m (HashMapGetBucket m k)) k")
  case None
  then have n: "find_pair (hm_equal_fn m) (hm_buckets m (HashMapGetBucket m k)) k = None" by (simp add: remove_pair_None_iff)
  from wf have "equivp (hm_equal_fn m)" by (simp add: hash_map_wf_def)
  note e = find_pair_eq [OF this, of k k' "hm_buckets m (HashMapGetBucket m k)"] same_bucket [OF wf, of k k']
  from None r have "m' = m" "r = False" by (simp_all add: HashMapRemove_def Let_def)
  with wf n e show ?thesis by (auto simp: HashMapGet_def)
next
  case (Some x)
  then obtain kvs ds' where x: "remove_pair (hm_equal_fn m) (hm_buckets m (HashMapGetBucket m k)) k = Some (kvs, ds')"
    by (cases x) auto
  with r have m': "m' = m\<lparr>hm_buckets := (hm_buckets m)(HashMapGetBucket m k := kvs)\<rparr>" "r = True"
    by (simp_all add: HashMapRemove_def Let_def)
  from x have "find_pair (hm_equal_fn m) (hm_buckets m (HashMapGetBucket m k)) k \<noteq> None"
    by (metis option.distinct(1) remove_pair_None_iff)
  moreover from wf have d: "equivp (hm_equal_fn m)" "\<And>b. distinct_keys (hm_equal_fn m) (hm_buckets m b)"
    by (simp_all add: hash_map_wf_def)
  moreover from wf m' x d remove_pair_subset [OF x] remove_pair_distinct [OF x] have "hash_map_wf m'"
    unfolding hash_map_wf_def by (auto split: if_splits)
  ultimately show ?thesis
    using m' same_bucket [OF wf, of k k'] find_pair_remove [OF d(1) x d(2), of k']
    by (auto simp: HashMapGet_def)
qed

section \<open>The contract of a map\<close>

text \<open>
  What the clients of a map rely on: a lookup sees the last insertion or removal of an equal key.  \<open>get\<close>
  returns the value stored for a key.
\<close>

datatype ('k, 'v) map_op = Put 'k 'v | Del 'k

locale finite_map =
  fixes equal_of :: "'m \<Rightarrow> 'k \<Rightarrow> 'k \<Rightarrow> bool"
    and wf :: "'m \<Rightarrow> bool"
    and get :: "'m \<Rightarrow> 'k \<Rightarrow> 'v option"
    and put :: "'m \<Rightarrow> 'k \<Rightarrow> 'v \<Rightarrow> 'm"
    and del :: "'m \<Rightarrow> 'k \<Rightarrow> 'm"
  assumes wf_put: "wf m \<Longrightarrow> wf (put m k v) \<and> equal_of (put m k v) = equal_of m"
    and wf_del: "wf m \<Longrightarrow> wf (del m k) \<and> equal_of (del m k) = equal_of m"
    and get_put: "wf m \<Longrightarrow> get (put m k v) k' = (if equal_of m k k' then Some v else get m k')"
    and get_del: "wf m \<Longrightarrow> get (del m k) k' = (if equal_of m k k' then None else get m k')"
begin

primrec apply_op :: "'m \<Rightarrow> ('k, 'v) map_op \<Rightarrow> 'm" where
  "apply_op m (Put k v) = put m k v"
| "apply_op m (Del k) = del m k"

primrec spec_op :: "('k \<Rightarrow> 'k \<Rightarrow> bool) \<Rightarrow> ('k \<Rightarrow> 'v option) \<Rightarrow> ('k, 'v) map_op \<Rightarrow> 'k \<Rightarrow> 'v option" where
  "spec_op eq f (Put k v) = (\<lambda>k'. if eq k k' then Some v else f k')"
| "spec_op eq f (Del k) = (\<lambda>k'. if eq k k' then None else f k')"

lemma apply_op_wf: "wf m \<Longrightarrow> wf (apply_op m x) \<and> equal_of (apply_op m x) = equal_of m"
  by (cases x) (simp_all add: wf_put wf_del)

lemma get_apply_op: "wf m \<Longrightarrow> get (apply_op m x) = spec_op (equal_of m) (get m) x"
  by (cases x) (auto simp: get_put get_del)

lemma run_wf: "wf m \<Longrightarrow> wf (foldl apply_op m xs) \<and> equal_of (foldl apply_op m xs) = equal_of m"
  by (induction xs arbitrary: m) (auto simp: apply_op_wf)

lemma get_run: "wf m \<Longrightarrow> get (foldl apply_op m xs) = foldl (spec_op (equal_of m)) (get m) xs"
  by (induction xs arbitrary: m) (auto simp: apply_op_wf get_apply_op)

lemma get_put_list:
  "wf m \<Longrightarrow> distinct_keys (equal_of m) kvs \<Longrightarrow> equivp (equal_of m) \<Longrightarrow>
   get (foldl (\<lambda>m kv. put m (fst kv) (snd kv)) m kvs) k =
     (case find_pair (equal_of m) kvs k of Some kv \<Rightarrow> Some (snd kv) | None \<Rightarrow> get m k)"
proof (induction kvs arbitrary: m)
  case (Cons kv kvs)
  let ?m = "put m (fst kv) (snd kv)"
  from Cons.prems wf_put have m: "wf ?m" "equal_of ?m = equal_of m" by auto
  from Cons.prems(2) have d: "distinct_keys (equal_of m) kvs" and n: "\<forall>q \<in> set kvs. \<not> equal_of m (fst kv) (fst q)"
    by (auto simp: distinct_keys_def)
  have none: "find_pair (equal_of m) kvs k = None" if "equal_of m (fst kv) k"
    unfolding find_pair_None_iff using n that equivp_rules [OF Cons.prems(3)] by blast
  from Cons.IH [of ?m] m d Cons.prems(1,3) none show ?case
    by (auto simp: get_put split: option.split)
qed simp

end

definition hash_get :: "('k, 'v) HashMap \<Rightarrow> 'k \<Rightarrow> 'v option" where
  "hash_get m k = map_option snd (HashMapGet m k)"

definition hash_put :: "('k, 'v) HashMap \<Rightarrow> 'k \<Rightarrow> 'v \<Rightarrow> ('k, 'v) HashMap" where
  "hash_put m k v = fst (snd (HashMapInsert m k v))"

definition hash_del :: "('k, 'v) HashMap \<Rightarrow> 'k \<Rightarrow> ('k, 'v) HashMap" where
  "hash_del m k = fst (snd (HashMapRemove m k))"

interpretation hash_map: finite_map hm_equal_fn hash_map_wf hash_get hash_put hash_del
proof
  fix m :: "('k, 'v) HashMap" and k k' :: 'k and v :: 'v
  assume wf: "hash_map_wf m"
  obtain r m1 ds r' m2 ds' where p: "HashMapInsert m k v = (r, m1, ds)" "HashMapRemove m k = (r', m2, ds')"
    by (meson prod_cases3)
  show "hash_map_wf (hash_put m k v) \<and> hm_equal_fn (hash_put m k v) = hm_equal_fn m"
    using HashMapInsert_wf [OF wf p(1)] p(1) by (simp add: hash_put_def)
  show "hash_map_wf (hash_del m k) \<and> hm_equal_fn (hash_del m k) = hm_equal_fn m"
    using HashMapRemove_wf [OF wf p(2)] p(2) by (simp add: hash_del_def)
  show "hash_get (hash_put m k v) k' = (if hm_equal_fn m k k' then Some v else hash_get m k')"
    using HashMapInsert_get [OF wf p(1)] p(1) by (simp add: hash_get_def hash_put_def)
  show "hash_get (hash_del m k) k' = (if hm_equal_fn m k k' then None else hash_get m k')"
    using HashMapRemove_wf [OF wf p(2), of k'] p(2) by (simp add: hash_get_def hash_del_def)
qed

section \<open>Conversion keeps the content\<close>

lemma convert_loop_fst: "fst (convert_loop hm kvs) = foldl (\<lambda>m kv. hash_put m (fst kv) (snd kv)) hm kvs"
proof (induction kvs arbitrary: hm)
  case (Cons kv kvs)
  obtain r m1 ds where "HashMapInsert hm (fst kv) (snd kv) = (r, m1, ds)" by (meson prod_cases3)
  with Cons [of m1] show ?case by (cases "convert_loop m1 kvs") (simp add: hash_put_def)
qed simp

lemma hash_map_wf_new: "equivp eq \<Longrightarrow> hash_respects eq h \<Longrightarrow> hash_map_wf (HashMapNew h eq)"
  by (simp add: hash_map_wf_def HashMapNew_def distinct_keys_def)

lemma convert_loop_wf: "hash_map_wf hm \<Longrightarrow> hash_map_wf (fst (convert_loop hm kvs)) \<and>
    hm_equal_fn (fst (convert_loop hm kvs)) = hm_equal_fn hm"
  unfolding convert_loop_fst
  by (induction kvs arbitrary: hm) (simp_all add: hash_map.wf_put)

lemma ConvertToHashMap_spec:
  assumes "array_map_wf am" and "hash_respects (am_equal_fn am) h"
  shows "hash_map_wf (fst (ConvertToHashMap h am))"
    and "hm_equal_fn (fst (ConvertToHashMap h am)) = am_equal_fn am"
    and "hash_get (fst (ConvertToHashMap h am)) k = map_option snd (ArrayMapGet am k)"
proof -
  from assms have eq: "equivp (am_equal_fn am)" "distinct_keys (am_equal_fn am) (am_values am)"
    by (auto simp: array_map_wf_def)
  let ?n = "HashMapNew h (am_equal_fn am) :: ('a, 'b) HashMap"
  have n: "hash_map_wf ?n" "hm_equal_fn ?n = am_equal_fn am"
    using hash_map_wf_new [OF eq(1) assms(2)] by (simp_all add: HashMapNew_def)
  from convert_loop_wf [OF n(1)] n(2)
  show "hash_map_wf (fst (ConvertToHashMap h am))" "hm_equal_fn (fst (ConvertToHashMap h am)) = am_equal_fn am"
    by (auto simp: ConvertToHashMap_def)
  have "hash_get ?n k = None" by (simp add: hash_get_def HashMapGet_def HashMapNew_def)
  with hash_map.get_put_list [of ?n "am_values am" k] n eq
  show "hash_get (fst (ConvertToHashMap h am)) k = map_option snd (ArrayMapGet am k)"
    by (simp add: ConvertToHashMap_def convert_loop_fst ArrayMapGet_def split: option.split)
qed

definition map_get :: "('k, 'v) Map \<Rightarrow> 'k \<Rightarrow> 'v option" where
  "map_get m k = map_option snd (MapGetRaw m k)"

definition map_put :: "('k, 'v) Map \<Rightarrow> 'k \<Rightarrow> 'v \<Rightarrow> ('k, 'v) Map" where
  "map_put m k v = fst (MapInsert m k v)"

definition map_del :: "('k, 'v) Map \<Rightarrow> 'k \<Rightarrow> ('k, 'v) Map" where
  "map_del m k = fst (snd (MapRemove m k))"

lemma map_put_spec:
  assumes wf: "map_wf m"
  shows "map_wf (map_put m k v) \<and> map_equal_fn (map_put m k v) = map_equal_fn m \<and>
    map_get (map_put m k v) k' = (if map_equal_fn m k k' then Some v else map_get m k')"
proof (cases m)
  case (HashBacked hm)
  with wf have h: "hash_map_wf hm" by (simp add: map_wf_def)
  obtain r hm' ds where p: "HashMapInsert hm k v = (r, hm', ds)" by (meson prod_cases3)
  from HashMapInsert_wf [OF h p] HashMapInsert_get [OF h p, of k'] HashBacked p show ?thesis
    by (simp add: map_put_def MapInsert_def map_wf_def map_equal_fn_def map_get_def MapGetRaw_def)
next
  case (ArrayBacked h am)
  with wf have a: "array_map_wf am" and hr: "hash_respects (am_equal_fn am) h" by (simp_all add: map_wf_def)
  obtain r am' ds where p: "ArrayMapInsert am k v = (r, am', ds)" by (meson prod_cases3)
  show ?thesis
  proof (cases r)
    case True
    with p have p': "ArrayMapInsert am k v = (True, am', ds)" by simp
    from ArrayMapInsert_wf [OF a p'] ArrayMapInsert_get [OF a p', of k'] ArrayBacked p' hr show ?thesis
      by (simp add: map_put_def MapInsert_def map_wf_def map_equal_fn_def map_get_def MapGetRaw_def)
  next
    case False
    with p ArrayMapInsert_False [of am k v am' ds] have e: "am' = am" "ds = []" by auto
    note c = ConvertToHashMap_spec [OF a hr]
    obtain hm0 ds0 where hm0: "ConvertToHashMap h am = (hm0, ds0)" by force
    obtain r1 hm1 ds1 where p1: "HashMapInsert hm0 k v = (r1, hm1, ds1)" by (meson prod_cases3)
    from c(1,2) hm0 have w: "hash_map_wf hm0" "hm_equal_fn hm0 = am_equal_fn am" by simp_all
    from HashMapInsert_wf [OF w(1) p1] HashMapInsert_get [OF w(1) p1, of k'] c(3) [of k'] w(2) hm0 p1 p e False ArrayBacked
    show ?thesis
      by (simp add: map_put_def MapInsert_def map_wf_def map_equal_fn_def map_get_def MapGetRaw_def hash_get_def)
  qed
qed

lemma map_del_spec:
  assumes wf: "map_wf m"
  shows "map_wf (map_del m k) \<and> map_equal_fn (map_del m k) = map_equal_fn m \<and>
    fst (MapRemove m k) = MapHasKey m k \<and>
    MapGetRaw (map_del m k) k' = (if map_equal_fn m k k' then None else MapGetRaw m k')"
proof (cases m)
  case (HashBacked hm)
  with wf have h: "hash_map_wf hm" by (simp add: map_wf_def)
  obtain r hm' ds where p: "HashMapRemove hm k = (r, hm', ds)" by (meson prod_cases3)
  from HashMapRemove_wf [OF h p, of k'] HashBacked p show ?thesis
    by (simp add: map_del_def MapRemove_def map_wf_def map_equal_fn_def MapHasKey_def MapGetRaw_def)
next
  case (ArrayBacked h am)
  with wf have a: "array_map_wf am" and hr: "hash_respects (am_equal_fn am) h" by (simp_all add: map_wf_def)
  obtain r am' ds where p: "ArrayMapRemove am k = (r, am', ds)" by (meson prod_cases3)
  from ArrayMapRemove_wf [OF a p, of k'] ArrayBacked p hr show ?thesis
    by (simp add: map_del_def MapRemove_def map_wf_def map_equal_fn_def MapHasKey_def MapGetRaw_def)
qed

interpretation cf_map: finite_map map_equal_fn map_wf map_get map_put map_del
proof
  fix m :: "('k, 'v) Map" and k k' :: 'k and v :: 'v
  assume wf: "map_wf m"
  show "map_wf (map_put m k v) \<and> map_equal_fn (map_put m k v) = map_equal_fn m"
    "map_get (map_put m k v) k' = (if map_equal_fn m k k' then Some v else map_get m k')"
    using map_put_spec [OF wf] by auto
  show "map_wf (map_del m k) \<and> map_equal_fn (map_del m k) = map_equal_fn m"
    "map_get (map_del m k) k' = (if map_equal_fn m k k' then None else map_get m k')"
    using map_del_spec [OF wf] by (auto simp: map_get_def)
qed

section \<open>Ownership\<close>

text \<open>The destroy calls a map still owes: one for each key and each value it holds.\<close>

definition owed_pairs :: "('k, 'v) MapKeyValue list \<Rightarrow> ('k, 'v) destroy_call multiset" where
  "owed_pairs kvs = mset (concat (map destroy_pair kvs))"

definition owed_hash :: "('k, 'v) HashMap \<Rightarrow> ('k, 'v) destroy_call multiset" where
  "owed_hash m = (\<Sum>b < HASHMAP_BUCKETS. owed_pairs (hm_buckets m b))"

definition owed :: "('k, 'v) Map \<Rightarrow> ('k, 'v) destroy_call multiset" where
  "owed m = (case m of ArrayBacked h am \<Rightarrow> owed_pairs (am_values am) | HashBacked hm \<Rightarrow> owed_hash hm)"

lemma owed_pairs_simps [simp]:
  "owed_pairs [] = {#}"
  "owed_pairs (kv # kvs) = {#DestroyKey (fst kv), DestroyValue (snd kv)#} + owed_pairs kvs"
  "owed_pairs (kvs @ kvs') = owed_pairs kvs + owed_pairs kvs'"
  by (simp_all add: owed_pairs_def destroy_pair_def)

lemma replace_value_owed:
  "replace_value eq kvs k v = Some (kvs', ds) \<Longrightarrow> owed_pairs kvs' + mset ds = owed_pairs kvs + {#DestroyKey k, DestroyValue v#}"
  by (induction kvs arbitrary: kvs') (auto split: if_splits option.splits)

lemma remove_pair_owed: "remove_pair eq kvs k = Some (kvs', ds) \<Longrightarrow> owed_pairs kvs' + mset ds = owed_pairs kvs"
  by (induction kvs arbitrary: kvs') (auto split: if_splits option.splits)

lemma FreeBucketListItem_owed: "mset (FreeBucketListItem kvs) = owed_pairs kvs"
  by (induction kvs) (simp_all add: destroy_pair_def)

lemma mset_concat_upt: "mset (concat (map f [0..<n])) = (\<Sum>i < n. mset (f i))"
  by (induction n) simp_all

lemma sum_fun_upd:
  fixes f :: "'a \<Rightarrow> 'b::comm_monoid_add"
  assumes "b < (n::nat)"
  shows "(\<Sum>i < n. f ((g(b := x)) i)) + f (g b) = (\<Sum>i < n. f (g i)) + f x"
proof -
  have e: "(\<Sum>i \<in> {..<n} - {b}. f ((g(b := x)) i)) = (\<Sum>i \<in> {..<n} - {b}. f (g i))"
    by (rule sum.cong) auto
  from assms show ?thesis
    by (simp add: sum.remove [of "{..<n}" b] e add.commute add.left_commute)
qed

lemma multiset_chain:
  assumes "a + b = c + (d :: 'a multiset)" and "d + e = b + f"
  shows "a + e = c + f"
proof -
  have "(a + e) + b = (a + b) + e" by (simp only: ac_simps)
  also have "\<dots> = c + (d + e)" by (simp only: assms(1) add.assoc)
  also have "\<dots> = (c + f) + b" by (simp only: assms(2) ac_simps)
  finally show ?thesis by simp
qed

lemma HashMapGetBucket_bound: "HashMapGetBucket m k < HASHMAP_BUCKETS"
  by (simp add: HashMapGetBucket_def HASHMAP_BUCKETS_def)

lemma owed_hash_update:
  assumes "b < HASHMAP_BUCKETS"
  shows "owed_hash (m\<lparr>hm_buckets := (hm_buckets m)(b := kvs)\<rparr>) + owed_pairs (hm_buckets m b) = owed_hash m + owed_pairs kvs"
  using sum_fun_upd [OF assms, of owed_pairs "hm_buckets m" kvs] by (simp add: owed_hash_def)

lemma HashMapInsert_owed:
  assumes "HashMapInsert m k v = (r, m', ds)"
  shows "owed_hash m' + mset ds = owed_hash m + {#DestroyKey k, DestroyValue v#}"
  using assms
proof (cases rule: HashMapInsert_cases)
  case (replaced kvs)
  from owed_hash_update [OF HashMapGetBucket_bound, of m m k kvs, folded replaced(2)] replace_value_owed [OF replaced(1)]
  show ?thesis by (rule multiset_chain)
next
  case added
  from owed_hash_update [OF HashMapGetBucket_bound, of m m k "(k, v) # hm_buckets m (HashMapGetBucket m k)"] added
  show ?thesis by simp
qed

lemma HashMapRemove_owed:
  assumes "HashMapRemove m k = (r, m', ds)"
  shows "owed_hash m' + mset ds = owed_hash m"
proof (cases "remove_pair (hm_equal_fn m) (hm_buckets m (HashMapGetBucket m k)) k")
  case None
  with assms show ?thesis by (simp add: HashMapRemove_def Let_def)
next
  case (Some x)
  with assms obtain kvs where x: "remove_pair (hm_equal_fn m) (hm_buckets m (HashMapGetBucket m k)) k = Some (kvs, ds)"
    "m' = m\<lparr>hm_buckets := (hm_buckets m)(HashMapGetBucket m k := kvs)\<rparr>"
    by (cases x) (auto simp: HashMapRemove_def Let_def)
  have "owed_hash m' + mset ds = owed_hash m + {#}"
    by (rule multiset_chain [OF owed_hash_update [OF HashMapGetBucket_bound, of m m k kvs, folded x(2)]])
       (simp add: remove_pair_owed [OF x(1)])
  then show ?thesis by simp
qed

lemma convert_loop_owed:
  "convert_loop hm kvs = (hm', ds) \<Longrightarrow> owed_hash hm' + mset ds = owed_hash hm + owed_pairs kvs"
proof (induction kvs arbitrary: hm hm' ds)
  case (Cons kv kvs)
  obtain r h1 d1 where p: "HashMapInsert hm (fst kv) (snd kv) = (r, h1, d1)" by (meson prod_cases3)
  obtain h2 d2 where q: "convert_loop h1 kvs = (h2, d2)" by force
  from Cons.prems p q have "hm' = h2" "ds = d1 @ d2" by auto
  have "owed_hash hm' + (mset d2 + mset d1) = owed_hash hm + ({#DestroyKey (fst kv), DestroyValue (snd kv)#} + owed_pairs kvs)"
    unfolding \<open>hm' = h2\<close> add.assoc [symmetric] Cons.IH [OF q] using HashMapInsert_owed [OF p]
    by (simp add: ac_simps)
  then show ?case using \<open>ds = d1 @ d2\<close> by (simp add: ac_simps)
qed simp

lemma ArrayMapInsert_owed:
  assumes "ArrayMapInsert am k v = (True, am', ds)"
  shows "owed_pairs (am_values am') + mset ds = owed_pairs (am_values am) + {#DestroyKey k, DestroyValue v#}"
  using assms replace_value_owed [of "am_equal_fn am" "am_values am" k v]
  by (auto simp: ArrayMapInsert_def split: if_splits option.splits)

lemma MapInsert_owed:
  assumes "MapInsert m k v = (m', ds)"
  shows "owed m' + mset ds = owed m + {#DestroyKey k, DestroyValue v#}"
proof (cases m)
  case (HashBacked hm)
  obtain r hm' d where p: "HashMapInsert hm k v = (r, hm', d)" by (meson prod_cases3)
  from HashMapInsert_owed [OF p] p HashBacked assms show ?thesis by (auto simp: MapInsert_def owed_def)
next
  case (ArrayBacked h am)
  obtain r am' d where p: "ArrayMapInsert am k v = (r, am', d)" by (meson prod_cases3)
  show ?thesis
  proof (cases r)
    case True
    with ArrayMapInsert_owed [of am k v am' d] p ArrayBacked assms show ?thesis by (auto simp: MapInsert_def owed_def)
  next
    case False
    with p ArrayMapInsert_False [of am k v am' d] have e: "am' = am" "d = []" by auto
    obtain h1 d1 where c: "ConvertToHashMap h am = (h1, d1)" by force
    obtain r2 h2 d2 where i: "HashMapInsert h1 k v = (r2, h2, d2)" by (meson prod_cases3)
    from convert_loop_owed [of _ "am_values am" h1 d1] c
    have o1: "owed_hash h1 + mset d1 = owed_pairs (am_values am)"
      by (simp add: ConvertToHashMap_def owed_hash_def HashMapNew_def)
    from assms ArrayBacked p False e c i have "m' = HashBacked h2" "ds = d1 @ d2" by (auto simp: MapInsert_def)
    moreover have "owed_hash h2 + mset d2 + mset d1 = owed_pairs (am_values am) + {#DestroyKey k, DestroyValue v#}"
      unfolding HashMapInsert_owed [OF i] o1 [symmetric] by (simp only: ac_simps)
    ultimately show ?thesis using ArrayBacked by (simp add: owed_def ac_simps)
  qed
qed

lemma MapRemove_owed:
  assumes "MapRemove m k = (r, m', ds)"
  shows "owed m' + mset ds = owed m"
proof (cases m)
  case (HashBacked hm)
  obtain r hm' d where p: "HashMapRemove hm k = (r, hm', d)" by (meson prod_cases3)
  from HashMapRemove_owed [OF p] p HashBacked assms show ?thesis by (auto simp: MapRemove_def owed_def)
next
  case (ArrayBacked h am)
  with assms remove_pair_owed [of "am_equal_fn am" "am_values am" k] show ?thesis
    by (auto simp: MapRemove_def owed_def ArrayMapRemove_def split: option.splits)
qed

lemma HashMapClear_owed: "mset (snd (HashMapClear m)) = owed_hash m \<and> owed_hash (fst (HashMapClear m)) = {#}"
  by (simp add: HashMapClear_def mset_concat_upt FreeBucketListItem_owed owed_hash_def)

lemma MapDestroy_owed: "mset (MapDestroy m) = owed m"
  by (cases m) (simp_all add: MapDestroy_def owed_def ArrayMapDestroy_def ArrayMapClear_def owed_pairs_def
      HashMapDestroy_def HashMapClear_owed)

text \<open>A life of a map: the operations of a client, then \<open>MapDestroy\<close>; the destroy calls of all of it.\<close>

fun map_life :: "('k, 'v) Map \<Rightarrow> ('k, 'v) map_op list \<Rightarrow> ('k, 'v) destroy_call list" where
  "map_life m [] = MapDestroy m"
| "map_life m (Put k v # ops) = (case MapInsert m k v of (m', ds) \<Rightarrow> ds @ map_life m' ops)"
| "map_life m (Del k # ops) = (case MapRemove m k of (_, m', ds) \<Rightarrow> ds @ map_life m' ops)"

fun handed_over :: "('k, 'v) map_op list \<Rightarrow> ('k, 'v) destroy_call multiset" where
  "handed_over [] = {#}"
| "handed_over (Put k v # ops) = {#DestroyKey k, DestroyValue v#} + handed_over ops"
| "handed_over (Del k # ops) = handed_over ops"

lemma map_life_owed: "mset (map_life m ops) = owed m + handed_over ops"
proof (induction m ops rule: map_life.induct)
  case (2 m k v ops)
  obtain m' ds where p: "MapInsert m k v = (m', ds)" by force
  with 2 have "mset (map_life m (Put k v # ops)) = (owed m' + mset ds) + handed_over ops" by (simp add: ac_simps)
  then show ?case unfolding MapInsert_owed [OF p] by (simp add: ac_simps)
next
  case (3 m k ops)
  obtain r m' ds where p: "MapRemove m k = (r, m', ds)" by (meson prod_cases3)
  with 3 have "mset (map_life m (Del k # ops)) = (owed m' + mset ds) + handed_over ops" by (simp add: ac_simps)
  then show ?case unfolding MapRemove_owed [OF p] by simp
qed (simp add: MapDestroy_owed)

section \<open>Iteration\<close>

definition hash_remaining :: "('k, 'v) HashMapIterator \<Rightarrow> ('k, 'v) MapKeyValue list" where
  "hash_remaining i = hi_cur i @ concat (map (hm_buckets (hi_map i)) [Suc (hi_bucket i)..<HASHMAP_BUCKETS])"

lemma HashMapIteratorNext_remaining:
  "case hash_remaining i of
     [] \<Rightarrow> fst (HashMapIteratorNext i) = None
   | kv # rest \<Rightarrow> fst (HashMapIteratorNext i) = Some kv \<and> hash_remaining (snd (HashMapIteratorNext i)) = rest"
proof (induction i rule: HashMapIteratorNext.induct)
  case (1 i)
  show ?case
  proof (cases "hi_cur i")
    case Nil
    show ?thesis
    proof (cases "hi_bucket i + 1 \<ge> HASHMAP_BUCKETS")
      case True
      with Nil have "hash_remaining i = []" by (simp add: hash_remaining_def)
      with True Nil show ?thesis by (subst HashMapIteratorNext.simps) (simp add: Let_def)
    next
      case False
      let ?i = "i\<lparr>hi_bucket := hi_bucket i + 1, hi_cur := hm_buckets (hi_map i) (hi_bucket i + 1)\<rparr>"
      from False have "hash_remaining i = hash_remaining ?i"
        using upt_conv_Cons [of "Suc (hi_bucket i)" HASHMAP_BUCKETS] Nil by (simp add: hash_remaining_def)
      moreover have "HashMapIteratorNext i = HashMapIteratorNext ?i"
        using False Nil by (subst HashMapIteratorNext.simps) (simp add: Let_def)
      ultimately show ?thesis using "1.IH" [OF Nil refl] False by (simp split: list.splits)
    qed
  next
    case (Cons kv rest)
    then have "HashMapIteratorNext i = (Some kv, i\<lparr>hi_cur := rest\<rparr>)" by (subst HashMapIteratorNext.simps) simp
    with Cons show ?thesis by (simp add: hash_remaining_def)
  qed
qed

fun iter_remaining :: "('k, 'v) MapIterator \<Rightarrow> ('k, 'v) MapKeyValue list" where
  "iter_remaining (ArrayIter ai) = drop (ai_pos ai) (am_values (ai_map ai))"
| "iter_remaining (HashIter hi) = hash_remaining hi"

lemma MapIteratorNext_remaining:
  "case iter_remaining i of
     [] \<Rightarrow> fst (MapIteratorNext i) = None
   | kv # rest \<Rightarrow> fst (MapIteratorNext i) = Some kv \<and> iter_remaining (snd (MapIteratorNext i)) = rest"
proof (cases i)
  case (ArrayIter ai)
  show ?thesis
  proof (cases "ai_pos ai < length (am_values (ai_map ai))")
    case True
    with ArrayIter Cons_nth_drop_Suc [OF True, symmetric] show ?thesis
      by (simp add: MapIteratorNext_def ArrayMapIteratorNext_def)
  next
    case False
    with ArrayIter show ?thesis by (simp add: MapIteratorNext_def ArrayMapIteratorNext_def)
  qed
next
  case (HashIter hi)
  with HashMapIteratorNext_remaining [of hi] show ?thesis
    by (auto simp: MapIteratorNext_def split: prod.split list.split)
qed

text \<open>A client's loop \<open>while ((item = MapIteratorNext(&i)))\<close>.\<close>

lemma MapIteratorNext_smaller:
  "MapIteratorNext i = (Some kv, i') \<Longrightarrow> length (iter_remaining i') < length (iter_remaining i)"
  using MapIteratorNext_remaining [of i] by (auto split: list.splits)

function visit :: "('k, 'v) MapIterator \<Rightarrow> ('k, 'v) MapKeyValue list" where
  "visit i = (case MapIteratorNext i of (None, _) \<Rightarrow> [] | (Some kv, i') \<Rightarrow> kv # visit i')"
  by pat_completeness auto
termination
  by (relation "measure (\<lambda>i. length (iter_remaining i))") (auto intro: MapIteratorNext_smaller dest: sym)

declare visit.simps [simp del]

lemma visit_remaining: "visit i = iter_remaining i"
proof (induction i rule: visit.induct)
  case (1 i)
  show ?case
  proof (cases "iter_remaining i")
    case Nil
    with MapIteratorNext_remaining [of i] show ?thesis by (subst visit.simps) (auto split: prod.split)
  next
    case (Cons kv rest)
    with MapIteratorNext_remaining [of i] obtain i' where n: "MapIteratorNext i = (Some kv, i')" "iter_remaining i' = rest"
      by (cases "MapIteratorNext i") auto
    from "1.IH" [OF n(1) [symmetric]] n Cons show ?thesis by (subst visit.simps) simp
  qed
qed

definition pairs_of :: "('k, 'v) Map \<Rightarrow> ('k, 'v) MapKeyValue list" where
  "pairs_of m = (case m of
     ArrayBacked h am \<Rightarrow> am_values am
   | HashBacked hm \<Rightarrow> concat (map (hm_buckets hm) [0..<HASHMAP_BUCKETS]))"

lemma visit_all: "visit (MapIteratorInit m) = pairs_of m"
proof (cases m)
  case (HashBacked hm)
  have "[0..<HASHMAP_BUCKETS] = 0 # [Suc 0..<HASHMAP_BUCKETS]"
    by (rule upt_conv_Cons) (simp add: HASHMAP_BUCKETS_def)
  with HashBacked show ?thesis
    by (simp add: visit_remaining MapIteratorInit_def HashMapIteratorInit_def pairs_of_def hash_remaining_def)
qed (simp add: visit_remaining MapIteratorInit_def ArrayMapIteratorInit_def pairs_of_def)

lemma sorted_wrt_buckets:
  assumes "\<And>i. i < n \<Longrightarrow> sorted_wrt R (f i)"
    and "\<And>i j x y. i < j \<Longrightarrow> j < n \<Longrightarrow> x \<in> set (f i) \<Longrightarrow> y \<in> set (f j) \<Longrightarrow> R x y"
  shows "sorted_wrt R (concat (map f [0..<n]))"
  using assms
proof (induction n)
  case (Suc n)
  then have "sorted_wrt R (concat (map f [0..<n]))" by simp
  with Suc.prems show ?case by (auto simp: sorted_wrt_append)
qed simp

lemma pairs_of_distinct:
  assumes "map_wf m"
  shows "distinct_keys (map_equal_fn m) (pairs_of m)"
proof (cases m)
  case (HashBacked hm)
  with assms have wf: "hash_map_wf hm" by (simp add: map_wf_def)
  show ?thesis unfolding distinct_keys_def HashBacked pairs_of_def Map.case
  proof (rule sorted_wrt_buckets)
    show "sorted_wrt (\<lambda>p q. \<not> map_equal_fn (HashBacked hm) (fst p) (fst q)) (hm_buckets hm i)" for i
      using wf by (simp add: hash_map_wf_def distinct_keys_def map_equal_fn_def)
    fix i j x y
    assume "i < j" "x \<in> set (hm_buckets hm i)" "y \<in> set (hm_buckets hm j)"
    with wf same_bucket [OF wf, of "fst x" "fst y"] show "\<not> map_equal_fn (HashBacked hm) (fst x) (fst y)"
      by (auto simp: hash_map_wf_def map_equal_fn_def)
  qed
next
  case (ArrayBacked h am)
  with assms show ?thesis by (simp add: map_wf_def array_map_wf_def pairs_of_def map_equal_fn_def)
qed

lemma find_pair_mem:
  assumes "equivp eq" and "distinct_keys eq kvs"
  shows "map_option snd (find_pair eq kvs k) = Some v \<longleftrightarrow> (\<exists>k'. eq k' k \<and> (k', v) \<in> set kvs)"
  using assms(2)
proof (induction kvs)
  case (Cons kv kvs)
  obtain q w where kv: "kv = (q, w)" by force
  show ?case
  proof (cases "eq q k")
    case True
    have "\<not> eq k' k" if "(k', u) \<in> set kvs" for k' u
    proof
      assume "eq k' k"
      with equivp_rules(2,3) [OF assms(1)] True have "eq q k'" by blast
      with Cons.prems that kv show False by (auto simp: distinct_keys_def)
    qed
    with True kv show ?thesis by auto
  next
    case False
    with Cons kv show ?thesis by (auto simp: distinct_keys_def)
  qed
qed simp

lemma pairs_of_get:
  assumes "map_wf m"
  shows "map_get m k = Some v \<longleftrightarrow> (\<exists>k'. map_equal_fn m k' k \<and> (k', v) \<in> set (pairs_of m))"
proof (cases m)
  case (HashBacked hm)
  with assms have wf: "hash_map_wf hm" by (simp add: map_wf_def)
  then have d: "equivp (hm_equal_fn hm)" "distinct_keys (hm_equal_fn hm) (hm_buckets hm (HashMapGetBucket hm k))"
    by (simp_all add: hash_map_wf_def)
  have "(k', v) \<in> set (pairs_of m) \<longleftrightarrow> (k', v) \<in> set (hm_buckets hm (HashMapGetBucket hm k))" if "hm_equal_fn hm k' k" for k'
    using wf same_bucket [OF wf that] HashMapGetBucket_bound [of hm k]
    by (fastforce simp: pairs_of_def HashBacked hash_map_wf_def)
  with find_pair_mem [OF d, of k v] show ?thesis
    by (auto simp: HashBacked map_get_def MapGetRaw_def HashMapGet_def map_equal_fn_def)
next
  case (ArrayBacked h am)
  with assms find_pair_mem [of "am_equal_fn am" "am_values am" k v] show ?thesis
    by (auto simp: map_wf_def array_map_wf_def pairs_of_def map_get_def MapGetRaw_def ArrayMapGet_def map_equal_fn_def)
qed

section \<open>Properties of the maps\<close>

text \<open>One operation of a client on a map, and on the function from keys to values it stands for.\<close>

definition map_step :: "('k, 'v) Map \<Rightarrow> ('k, 'v) map_op \<Rightarrow> ('k, 'v) Map" where
  "map_step m x = (case x of Put k v \<Rightarrow> map_put m k v | Del k \<Rightarrow> map_del m k)"

definition function_step :: "('k \<Rightarrow> 'k \<Rightarrow> bool) \<Rightarrow> ('k \<Rightarrow> 'v option) \<Rightarrow> ('k, 'v) map_op \<Rightarrow> 'k \<Rightarrow> 'v option" where
  "function_step eq f x = (case x of
     Put k v \<Rightarrow> (\<lambda>k'. if eq k k' then Some v else f k')
   | Del k \<Rightarrow> (\<lambda>k'. if eq k k' then None else f k'))"

lemma map_step_apply: "map_step = cf_map.apply_op"
  by (intro ext) (simp add: map_step_def split: map_op.split)

lemma function_step_spec: "function_step = cf_map.spec_op"
  by (intro ext) (simp add: function_step_def split: map_op.split)

definition sample_array :: "(nat, bool) ArrayMap" where
  "sample_array = \<lparr>am_equal_fn = (=), am_values = [(1, True), (2, False)]\<rparr>"

definition sample_map :: "(nat, bool) Map" where
  "sample_map = ArrayBacked of_nat sample_array"

lemma sample_map_wf: "map_wf sample_map"
  by (simp add: sample_map_def sample_array_def map_wf_def array_map_wf_def hash_respects_def distinct_keys_def
      TINY_LIMIT_def identity_equivp)

text \<open>C5: A map behaves as a function from keys to values under any sequence of insertions and removals, also across its
  switch from the array of up to 14 pairs to hash buckets.\<close>

lemma Map_refines_function:
  assumes "map_wf m"
  shows "map_get (foldl map_step m ops) = foldl (function_step (map_equal_fn m)) (map_get m) ops \<and>
    map_wf (foldl map_step m ops)"
  unfolding map_step_apply function_step_spec
  using cf_map.get_run [OF assms] cf_map.run_wf [OF assms] by simp

lemma Map_refines_function_witness:
  "map_get (foldl map_step sample_map [Put 1 True, Put 2 False, Del 1, Put 2 True]) =
     foldl (function_step (map_equal_fn sample_map)) (map_get sample_map) [Put 1 True, Put 2 False, Del 1, Put 2 True] \<and>
   map_wf (foldl map_step sample_map [Put 1 True, Put 2 False, Del 1, Put 2 True])"
  by (rule Map_refines_function [OF sample_map_wf])

text \<open>C6: Over the whole life of a map every key and every value handed to an insertion is destroyed exactly once,
  whether it was stored, replaced, rejected as a duplicate key, removed or still there when the map was destroyed.\<close>

lemma Map_destroys_exactly_once:
  "mset (map_life (MapNew address hash_fn equal_fn) ops) = handed_over ops"
proof -
  have "owed (MapNew address hash_fn equal_fn) = {#}"
    by (simp add: owed_def MapNew_def ArrayMapNew_def)
  then show ?thesis by (simp add: map_life_owed)
qed

text \<open>Iterating over a map until the iterator is exhausted visits exactly the pairs a lookup finds: a key has the
  value v if and only if a pair with an equal key and the value v is visited, and no two visited keys are equal.\<close>

lemma Map_iteration_complete:
  assumes "map_wf m"
  shows "(map_get m k = Some v \<longleftrightarrow> (\<exists>k'. map_equal_fn m k' k \<and> (k', v) \<in> set (visit (MapIteratorInit m)))) \<and>
    distinct_keys (map_equal_fn m) (visit (MapIteratorInit m))"
  using pairs_of_get [OF assms, of k v] pairs_of_distinct [OF assms] by (simp add: visit_all)

lemma Map_iteration_complete_witness:
  "(map_get sample_map 1 = Some True \<longleftrightarrow> (\<exists>k'. map_equal_fn sample_map k' 1 \<and> (k', True) \<in> set (visit (MapIteratorInit sample_map)))) \<and>
    distinct_keys (map_equal_fn sample_map) (visit (MapIteratorInit sample_map))"
  by (rule Map_iteration_complete [OF sample_map_wf])

text \<open>Converting the array to hash buckets loses nothing: the new map is well formed and looks up every key as the
  array did.\<close>

lemma ConvertToHashMap_preserves:
  assumes "array_map_wf am" and "hash_respects (am_equal_fn am) h"
  shows "hash_map_wf (fst (ConvertToHashMap h am)) \<and>
    hash_get (fst (ConvertToHashMap h am)) k = map_option snd (ArrayMapGet am k)"
  using ConvertToHashMap_spec [OF assms] by blast

lemma ConvertToHashMap_preserves_witness:
  "hash_map_wf (fst (ConvertToHashMap of_nat sample_array)) \<and>
    hash_get (fst (ConvertToHashMap of_nat sample_array)) 2 = map_option snd (ArrayMapGet sample_array 2)"
  by (rule ConvertToHashMap_preserves)
    (simp_all add: sample_array_def array_map_wf_def hash_respects_def distinct_keys_def TINY_LIMIT_def identity_equivp)

end
