(* ===== verification/CF_Hashes.thy ===== *)
theory CF_Hashes
  imports CF_Maps "HOL-Library.Signed_Division"
begin

text \<open>
  The string hashes of \<open>src/files_hashes.c\<close>, the string map of \<open>src/string_map.c\<close>, and
  \<open>src/hashes.c\<close>, the table of variables of a scope: an array of at most 14 associations, then an
  open-addressing table of 8192 slots with linear probing.  \<open>CopyRvalItem\<close> (\<open>src/rlist.c\<close>) is the
  parameter \<open>copy\<close>; the slots are a function on their indices.
\<close>

unbundle bit_operations_syntax

section \<open>String hashes\<close>

definition CF_HASHTABLESIZE :: nat where
  "CF_HASHTABLESIZE = 8192"

definition CF_MACROALPHABET :: int where
  "CF_MACROALPHABET = 61"

fun ref_hash_loop :: "int \<Rightarrow> string \<Rightarrow> int" where
  "ref_hash_loop slot [] = slot"
| "ref_hash_loop slot (c # cs) = ref_hash_loop ((CF_MACROALPHABET * slot + signed_char c) smod int CF_HASHTABLESIZE) cs"

definition RefHash :: "string \<Rightarrow> int" where
  "RefHash name = ref_hash_loop 0 name"

definition elf_step :: "32 word \<Rightarrow> char \<Rightarrow> 32 word" where
  "elf_step h c =
     (let h1 = push_bit 4 h + of_char c;
          g = h1 AND 0xf0000000;
          h2 = (if g \<noteq> 0 then h1 XOR drop_bit 24 g else h1)
      in h2 AND NOT g)"

definition ElfHash :: "string \<Rightarrow> 32 word" where
  "ElfHash key = foldl elf_step 0 key AND (of_nat CF_HASHTABLESIZE - 1)"

definition oat_step :: "32 word \<Rightarrow> char \<Rightarrow> 32 word" where
  "oat_step h c =
     (let h1 = h + of_char c;
          h2 = h1 + push_bit 10 h1
      in h2 XOR drop_bit 6 h2)"

definition OatHash :: "string \<Rightarrow> 32 word" where
  "OatHash key =
     (let h = foldl oat_step 0 key;
          h1 = h + push_bit 3 h;
          h2 = h1 XOR drop_bit 11 h1;
          h3 = h2 + push_bit 15 h2
      in h3 AND (of_nat CF_HASHTABLESIZE - 1))"

definition GetHash :: "string \<Rightarrow> nat" where
  "GetHash name = unat (OatHash name)"

lemma and_mask_bound: "unat ((x :: 32 word) AND (of_nat CF_HASHTABLESIZE - 1)) < CF_HASHTABLESIZE"
proof -
  have "(of_nat CF_HASHTABLESIZE - 1 :: 32 word) = mask 13" by (simp add: CF_HASHTABLESIZE_def mask_eq_exp_minus_1)
  then have "x AND (of_nat CF_HASHTABLESIZE - 1) = take_bit 13 x" by (simp add: take_bit_eq_mask)
  moreover have "unat (take_bit 13 x) < 2 ^ 13" 
    using take_bit_nat_less_exp [of 13 "unat x"] by (simp add: unsigned_take_bit_eq)
  ultimately show ?thesis by (simp add: CF_HASHTABLESIZE_def)
qed

lemma GetHash_bound: "GetHash k < CF_HASHTABLESIZE"
  by (simp add: GetHash_def OatHash_def Let_def and_mask_bound)

lemma ElfHash_bound: "unat (ElfHash k) < CF_HASHTABLESIZE"
  by (simp add: ElfHash_def and_mask_bound)

lemma ref_hash_loop_bound: "\<bar>slot\<bar> < 8192 \<Longrightarrow> \<bar>ref_hash_loop slot cs\<bar> < 8192"
proof (induction cs arbitrary: slot)
  case (Cons c cs)
  show ?case unfolding ref_hash_loop.simps
    by (rule Cons.IH) (use smod_int_range [of 8192 "CF_MACROALPHABET * slot + signed_char c"] in \<open>simp add: CF_HASHTABLESIZE_def abs_less_iff\<close>)
qed simp

section \<open>string_map.c\<close>

text \<open>\<open>StringSafeEqual\<close> (\<open>src/string_lib.c\<close>) on pointers: NULL equals only NULL.\<close>

definition StringSafeEqual :: "string option \<Rightarrow> string option \<Rightarrow> bool" where
  "StringSafeEqual a b =
     (case (a, b) of
        (None, None) \<Rightarrow> True
      | (Some s, Some t) \<Rightarrow> strcmp s t = 0
      | _ \<Rightarrow> False)"

lemma StringSafeEqual_eq [simp]: "StringSafeEqual (Some s) (Some t) \<longleftrightarrow> s = t"
  by (simp add: StringSafeEqual_def)

definition StringMapNew :: "(string \<Rightarrow> 64 word) \<Rightarrow> (string, 'v) Map" where
  "StringMapNew address = MapNew address (Some OatHash) (Some (\<lambda>s t. StringSafeEqual (Some s) (Some t)))"

lemma StringMapNew_wf: "map_wf (StringMapNew address) \<and> map_equal_fn (StringMapNew address) = (=)"
  by (simp add: StringMapNew_def MapNew_def map_wf_def ArrayMapNew_def array_map_wf_def hash_respects_def
      distinct_keys_def map_equal_fn_def identity_equivp fun_eq_iff)

section \<open>hashes.c\<close>

record ('v, 'd) CfAssoc =
  lval :: string
  rval :: 'v
  dtype :: 'd

definition NewAssoc :: "('v \<Rightarrow> 'v) \<Rightarrow> string \<Rightarrow> 'v \<Rightarrow> 'd \<Rightarrow> ('v, 'd) CfAssoc" where
  "NewAssoc copy lv rv dt = \<lparr>lval = lv, rval = copy rv, dtype = dt\<rparr>"

datatype ('v, 'd) slot = Free | HASH_ENTRY_DELETED | Used "('v, 'd) CfAssoc"

datatype ('v, 'd) AssocHashTable =
    TinyTable "('v, 'd) CfAssoc list"
  | HugeTable "nat \<Rightarrow> ('v, 'd) slot"

definition HashInit :: "('v, 'd) AssocHashTable" where
  "HashInit = TinyTable []"

text \<open>
  The \<open>do ... while (i != bucket)\<close> loops: the index of the first slot that stops the search, or \<open>None\<close> when
  the search comes back to where it started.  The last argument bounds the rounds; 8192 are enough.
\<close>

fun probe :: "(('v, 'd) slot \<Rightarrow> bool) \<Rightarrow> (nat \<Rightarrow> ('v, 'd) slot) \<Rightarrow> nat \<Rightarrow> nat \<Rightarrow> nat \<Rightarrow> nat option" where
  "probe stop buckets bucket i 0 = None"
| "probe stop buckets bucket i (Suc n) =
     (if stop (buckets i) then Some i
      else let i' = (i + 1) mod CF_HASHTABLESIZE in
           if i' = bucket then None else probe stop buckets bucket i' n)"

definition holds_key :: "string \<Rightarrow> ('v, 'd) slot \<Rightarrow> bool" where
  "holds_key element s = (case s of Used a \<Rightarrow> strcmp element (lval a) = 0 | _ \<Rightarrow> False)"

definition probe_key :: "(('v, 'd) slot \<Rightarrow> bool) \<Rightarrow> (nat \<Rightarrow> ('v, 'd) slot) \<Rightarrow> string \<Rightarrow> nat option" where
  "probe_key stop buckets element = probe stop buckets (GetHash element) (GetHash element) CF_HASHTABLESIZE"

definition HugeHashInsertElement :: "('v \<Rightarrow> 'v) \<Rightarrow> (nat \<Rightarrow> ('v, 'd) slot) \<Rightarrow> string \<Rightarrow> 'v \<Rightarrow> 'd \<Rightarrow>
    bool \<times> (nat \<Rightarrow> ('v, 'd) slot)" where
  "HugeHashInsertElement copy buckets element rv dt =
     (case probe_key (\<lambda>s. s = Free \<or> s = HASH_ENTRY_DELETED \<or> holds_key element s) buckets element of
        None \<Rightarrow> (False, buckets)
      | Some i \<Rightarrow>
          if buckets i = Free \<or> buckets i = HASH_ENTRY_DELETED
          then (True, buckets(i := Used (NewAssoc copy element rv dt)))
          else (False, buckets))"

text \<open>The conversion searches a free slot for each association; it would not end on a full table.\<close>

definition convert_put :: "(nat \<Rightarrow> ('v, 'd) slot) \<Rightarrow> ('v, 'd) CfAssoc \<Rightarrow> nat \<Rightarrow> ('v, 'd) slot" where
  "convert_put buckets a =
     (case probe_key (\<lambda>s. s = Free) buckets (lval a) of
        None \<Rightarrow> buckets
      | Some i \<Rightarrow> buckets(i := Used a))"

definition HashConvertToHuge :: "('v, 'd) CfAssoc list \<Rightarrow> nat \<Rightarrow> ('v, 'd) slot" where
  "HashConvertToHuge values = foldl convert_put (\<lambda>_. Free) values"

definition TinyHashInsertElement :: "('v \<Rightarrow> 'v) \<Rightarrow> ('v, 'd) CfAssoc list \<Rightarrow> string \<Rightarrow> 'v \<Rightarrow> 'd \<Rightarrow>
    bool \<times> ('v, 'd) AssocHashTable" where
  "TinyHashInsertElement copy values element rv dt =
     (if length values = TINY_LIMIT then
        (case HugeHashInsertElement copy (HashConvertToHuge values) element rv dt of (b, t) \<Rightarrow> (b, HugeTable t))
      else if \<exists>a \<in> set values. strcmp (lval a) element = 0 then (False, TinyTable values)
      else (True, TinyTable (values @ [NewAssoc copy element rv dt])))"

definition HashInsertElement :: "('v \<Rightarrow> 'v) \<Rightarrow> ('v, 'd) AssocHashTable \<Rightarrow> string \<Rightarrow> 'v \<Rightarrow> 'd \<Rightarrow>
    bool \<times> ('v, 'd) AssocHashTable" where
  "HashInsertElement copy t element rv dt =
     (case t of
        HugeTable b \<Rightarrow> (case HugeHashInsertElement copy b element rv dt of (r, b') \<Rightarrow> (r, HugeTable b'))
      | TinyTable vs \<Rightarrow> TinyHashInsertElement copy vs element rv dt)"

text \<open>The deleted slot becomes \<open>NULL\<close>, not \<open>HASH_ENTRY_DELETED\<close>.\<close>

definition HugeHashDeleteElement :: "(nat \<Rightarrow> ('v, 'd) slot) \<Rightarrow> string \<Rightarrow> bool \<times> (nat \<Rightarrow> ('v, 'd) slot)" where
  "HugeHashDeleteElement buckets element =
     (case probe_key (\<lambda>s. s = Free \<or> holds_key element s) buckets element of
        None \<Rightarrow> (False, buckets)
      | Some i \<Rightarrow> if buckets i = Free then (False, buckets) else (True, buckets(i := Free)))"

fun TinyHashDeleteElement :: "('v, 'd) CfAssoc list \<Rightarrow> string \<Rightarrow> bool \<times> ('v, 'd) CfAssoc list" where
  "TinyHashDeleteElement [] element = (False, [])"
| "TinyHashDeleteElement (a # vs) element =
     (if strcmp (lval a) element = 0 then (True, vs)
      else case TinyHashDeleteElement vs element of (r, vs') \<Rightarrow> (r, a # vs'))"

definition HashDeleteElement :: "('v, 'd) AssocHashTable \<Rightarrow> string \<Rightarrow> bool \<times> ('v, 'd) AssocHashTable" where
  "HashDeleteElement t element =
     (case t of
        HugeTable b \<Rightarrow> (case HugeHashDeleteElement b element of (r, b') \<Rightarrow> (r, HugeTable b'))
      | TinyTable vs \<Rightarrow> (case TinyHashDeleteElement vs element of (r, vs') \<Rightarrow> (r, TinyTable vs')))"

definition HugeHashLookupElement :: "(nat \<Rightarrow> ('v, 'd) slot) \<Rightarrow> string \<Rightarrow> ('v, 'd) CfAssoc option" where
  "HugeHashLookupElement buckets element =
     (case probe_key (\<lambda>s. s = Free \<or> holds_key element s) buckets element of
        None \<Rightarrow> None
      | Some i \<Rightarrow> (case buckets i of Used a \<Rightarrow> Some a | _ \<Rightarrow> None))"

definition TinyHashLookupElement :: "('v, 'd) CfAssoc list \<Rightarrow> string \<Rightarrow> ('v, 'd) CfAssoc option" where
  "TinyHashLookupElement values element = List.find (\<lambda>a. strcmp (lval a) element = 0) values"

definition HashLookupElement :: "('v, 'd) AssocHashTable \<Rightarrow> string \<Rightarrow> ('v, 'd) CfAssoc option" where
  "HashLookupElement t element =
     (case t of HugeTable b \<Rightarrow> HugeHashLookupElement b element | TinyTable vs \<Rightarrow> TinyHashLookupElement vs element)"

text \<open>
  \<open>HashClear\<close> empties an array.  It frees the slots of a huge table and leaves the table marked huge, so
  that no operation may follow but \<open>HashFree\<close>: \<open>None\<close>.
\<close>

definition HashClear :: "('v, 'd) AssocHashTable \<Rightarrow> ('v, 'd) AssocHashTable option" where
  "HashClear t = (case t of TinyTable vs \<Rightarrow> Some (TinyTable []) | HugeTable b \<Rightarrow> None)"

record ('v, 'd) HashIterator =
  it_table :: "('v, 'd) AssocHashTable"
  it_pos :: nat

definition HashIteratorInit :: "('v, 'd) AssocHashTable \<Rightarrow> ('v, 'd) HashIterator" where
  "HashIteratorInit t = \<lparr>it_table = t, it_pos = 0\<rparr>"

function huge_next_loop :: "(nat \<Rightarrow> ('v, 'd) slot) \<Rightarrow> nat \<Rightarrow> ('v, 'd) CfAssoc option \<times> nat" where
  "huge_next_loop buckets pos =
     (if pos < CF_HASHTABLESIZE then
        (case buckets pos of Used a \<Rightarrow> (Some a, pos + 1) | _ \<Rightarrow> huge_next_loop buckets (pos + 1))
      else (None, pos))"
  by pat_completeness auto
termination
  by (relation "measure (\<lambda>(b, pos). CF_HASHTABLESIZE - pos)") auto

declare huge_next_loop.simps [simp del]

definition HashIteratorNext :: "('v, 'd) HashIterator \<Rightarrow> ('v, 'd) CfAssoc option \<times> ('v, 'd) HashIterator" where
  "HashIteratorNext i =
     (case it_table i of
        HugeTable b \<Rightarrow> (case huge_next_loop b (it_pos i) of (r, p) \<Rightarrow> (r, i\<lparr>it_pos := p\<rparr>))
      | TinyTable vs \<Rightarrow>
          if it_pos i \<ge> length vs then (None, i) else (Some (vs ! it_pos i), i\<lparr>it_pos := it_pos i + 1\<rparr>))"

text \<open>\<open>HashCopy\<close> inserts what the iterator of the old table returns.\<close>

function copy_loop :: "('v \<Rightarrow> 'v) \<Rightarrow> ('v, 'd) AssocHashTable \<Rightarrow> ('v, 'd) HashIterator \<Rightarrow> ('v, 'd) AssocHashTable" where
  "copy_loop copy newhash i =
     (case HashIteratorNext i of
        (None, _) \<Rightarrow> newhash
      | (Some a, i') \<Rightarrow> copy_loop copy (snd (HashInsertElement copy newhash (lval a) (rval a) (dtype a))) i')"
  by pat_completeness auto

definition table_limit :: "('v, 'd) AssocHashTable \<Rightarrow> nat" where
  "table_limit t = (case t of HugeTable b \<Rightarrow> CF_HASHTABLESIZE | TinyTable vs \<Rightarrow> length vs)"

lemma huge_next_loop_progress: "huge_next_loop b p = (Some a, p') \<Longrightarrow> p < p' \<and> p' \<le> CF_HASHTABLESIZE"
proof (induction b p rule: huge_next_loop.induct)
  case (1 b p)
  then show ?case by (subst (asm) (2) huge_next_loop.simps) (fastforce split: if_splits slot.splits)
qed

lemma HashIteratorNext_progress:
  "HashIteratorNext i = (Some a, i') \<Longrightarrow> it_table i' = it_table i \<and> it_pos i < it_pos i' \<and> it_pos i' \<le> table_limit (it_table i)"
  by (auto simp: HashIteratorNext_def table_limit_def split: AssocHashTable.splits prod.splits if_splits
      dest!: huge_next_loop_progress)

termination copy_loop
  by (relation "measure (\<lambda>(c, n, i). table_limit (it_table i) - it_pos i)")
     (auto dest!: HashIteratorNext_progress [OF sym] simp: diff_less_mono2)

declare copy_loop.simps [simp del]

definition HashCopy :: "('v \<Rightarrow> 'v) \<Rightarrow> ('v, 'd) AssocHashTable \<Rightarrow> ('v, 'd) AssocHashTable \<Rightarrow> ('v, 'd) AssocHashTable" where
  "HashCopy copy newhash oldhash = copy_loop copy newhash (HashIteratorInit oldhash)"

section \<open>Probe sequences\<close>

definition path :: "string \<Rightarrow> nat \<Rightarrow> nat" where
  "path k j = (GetHash k + j) mod CF_HASHTABLESIZE"

lemma table_size_pos: "0 < CF_HASHTABLESIZE"
  by (simp add: CF_HASHTABLESIZE_def)

lemma path_bound: "path k j < CF_HASHTABLESIZE"
  by (simp add: path_def table_size_pos)

lemma path_eq:
  assumes "j < CF_HASHTABLESIZE"
  shows "path k j = (if GetHash k + j < CF_HASHTABLESIZE then GetHash k + j else GetHash k + j - CF_HASHTABLESIZE)"
  using assms GetHash_bound [of k] by (simp add: path_def mod_if)

lemma path_inj: "j < CF_HASHTABLESIZE \<Longrightarrow> l < CF_HASHTABLESIZE \<Longrightarrow> path k j = path k l \<Longrightarrow> j = l"
  using GetHash_bound [of k] by (auto simp: path_eq split: if_splits)

lemma path_surj:
  assumes "i < CF_HASHTABLESIZE"
  shows "\<exists>j < CF_HASHTABLESIZE. path k j = i"
proof (cases "GetHash k \<le> i")
  case True
  with assms show ?thesis by (intro exI [of _ "i - GetHash k"]) (simp add: path_eq)
next
  case False
  with assms GetHash_bound [of k] show ?thesis
    by (intro exI [of _ "i + CF_HASHTABLESIZE - GetHash k"]) (simp add: path_eq)
qed

lemma probe_find:
  assumes "b < CF_HASHTABLESIZE"
  shows "n = CF_HASHTABLESIZE - j \<Longrightarrow> j < CF_HASHTABLESIZE \<Longrightarrow>
    probe stop t b ((b + j) mod CF_HASHTABLESIZE) n =
      map_option (\<lambda>j. (b + j) mod CF_HASHTABLESIZE) (List.find (\<lambda>j. stop (t ((b + j) mod CF_HASHTABLESIZE))) [j..<CF_HASHTABLESIZE])"
proof (induction n arbitrary: j)
  case (Suc n)
  have upt: "[j..<CF_HASHTABLESIZE] = j # [Suc j..<CF_HASHTABLESIZE]" using Suc.prems by (simp add: upt_conv_Cons)
  have nxt: "((b + j) mod CF_HASHTABLESIZE + 1) mod CF_HASHTABLESIZE = (b + Suc j) mod CF_HASHTABLESIZE" by (simp add: mod_Suc_eq)
  have n: "n = CF_HASHTABLESIZE - Suc j" using Suc.prems by simp
  show ?case
  proof (cases "Suc j < CF_HASHTABLESIZE")
    case True
    from True assms have "(b + Suc j) mod CF_HASHTABLESIZE \<noteq> b" by (auto simp: mod_if)
    with Suc.IH [OF n True] nxt upt show ?thesis by simp
  next
    case False
    with Suc.prems have "Suc j = CF_HASHTABLESIZE" by simp
    with assms have "(b + Suc j) mod CF_HASHTABLESIZE = b" by simp
    with nxt upt \<open>Suc j = CF_HASHTABLESIZE\<close> show ?thesis by simp
  qed
qed simp

lemma probe_key_find: "probe_key stop t k = map_option (path k) (List.find (\<lambda>j. stop (t (path k j))) [0..<CF_HASHTABLESIZE])"
  using probe_find [OF GetHash_bound refl, of 0 stop t k] GetHash_bound [of k]
  by (simp add: probe_key_def path_def [abs_def] table_size_pos)

lemma find_upt_Some: "List.find P [0..<n] = Some j \<longleftrightarrow> j < n \<and> P j \<and> (\<forall>l < j. \<not> P l)"
  by (auto simp: find_Some_iff)

lemma find_upt_None: "List.find P [0..<n] = None \<longleftrightarrow> (\<forall>j < n. \<not> P j)"
  by (auto simp: find_None_iff)

lemma probe_key_cases:
  obtains (none) "probe_key stop t k = None" "\<forall>j < CF_HASHTABLESIZE. \<not> stop (t (path k j))"
  | (some) j where "probe_key stop t k = Some (path k j)" "j < CF_HASHTABLESIZE" "stop (t (path k j))"
      "\<forall>l < j. \<not> stop (t (path k l))"
proof (cases "List.find (\<lambda>j. stop (t (path k j))) [0..<CF_HASHTABLESIZE]")
  case None
  then show ?thesis using none probe_key_find [of stop t k] by (simp add: find_upt_None)
next
  case (Some j)
  note Some [unfolded find_upt_Some]
  moreover from Some have "probe_key stop t k = Some (path k j)" by (simp add: probe_key_find)
  ultimately show ?thesis by (intro some [of j]) auto
qed

section \<open>The huge table\<close>

text \<open>
  The invariant: no tombstones, and every slot on the probe sequence of a key before the slot that
  holds it is taken by another key.
\<close>

definition huge_wf :: "(nat \<Rightarrow> ('v, 'd) slot) \<Rightarrow> bool" where
  "huge_wf t \<longleftrightarrow> (\<forall>i < CF_HASHTABLESIZE. t i \<noteq> HASH_ENTRY_DELETED) \<and>
     (\<forall>k. \<forall>j < CF_HASHTABLESIZE. holds_key k (t (path k j)) \<longrightarrow>
        (\<forall>l < j. t (path k l) \<noteq> Free \<and> \<not> holds_key k (t (path k l))))"

definition huge_has :: "(nat \<Rightarrow> ('v, 'd) slot) \<Rightarrow> string \<Rightarrow> ('v, 'd) CfAssoc \<Rightarrow> bool" where
  "huge_has t k a \<longleftrightarrow> (\<exists>i < CF_HASHTABLESIZE. t i = Used a \<and> lval a = k)"

lemma holds_key_Used: "holds_key k s \<longleftrightarrow> (\<exists>a. s = Used a \<and> lval a = k)"
  by (auto simp: holds_key_def split: slot.splits)

lemma huge_has_path: "huge_has t k a \<longleftrightarrow> (\<exists>j < CF_HASHTABLESIZE. t (path k j) = Used a \<and> lval a = k)"
  unfolding huge_has_def using path_surj path_bound by metis

lemma HugeHashLookup_has:
  assumes "huge_wf t"
  shows "HugeHashLookupElement t k = Some a \<longleftrightarrow> huge_has t k a"
proof (cases rule: probe_key_cases [of "\<lambda>s. s = Free \<or> holds_key k s" t k])
  case none
  then show ?thesis by (auto simp: HugeHashLookupElement_def huge_has_path holds_key_Used)
next
  case (some j)
  from assms have wf: "\<And>j l. j < CF_HASHTABLESIZE \<Longrightarrow> holds_key k (t (path k j)) \<Longrightarrow> l < j \<Longrightarrow>
      t (path k l) \<noteq> Free \<and> \<not> holds_key k (t (path k l))" unfolding huge_wf_def by blast
  have uniq: "j' = j" if "j' < CF_HASHTABLESIZE" "holds_key k (t (path k j'))" for j'
    using that wf [of j' j] some by (metis linorder_neqE_nat)
  from some(3) show ?thesis
  proof
    assume "t (path k j) = Free"
    with some(1) uniq show ?thesis by (auto simp: HugeHashLookupElement_def huge_has_path holds_key_Used)
  next
    assume "holds_key k (t (path k j))"
    then obtain b where b: "t (path k j) = Used b" "lval b = k" by (auto simp: holds_key_Used)
    have "huge_has t k a \<longleftrightarrow> b = a"
    proof
      assume "huge_has t k a"
      then obtain j' where j': "j' < CF_HASHTABLESIZE" "t (path k j') = Used a" "lval a = k" by (auto simp: huge_has_path)
      then have "holds_key k (t (path k j'))" by (simp add: holds_key_Used)
      with uniq j' b show "b = a" by fastforce
    next
      assume "b = a"
      with b some(2) show "huge_has t k a" unfolding huge_has_path by blast
    qed
    with some(1) b show ?thesis by (simp add: HugeHashLookupElement_def)
  qed
qed

lemma huge_fresh_put:
  assumes wf: "huge_wf t" and j: "j < CF_HASHTABLESIZE" "t (path k j) = Free"
    and before: "\<forall>l < j. t (path k l) \<noteq> Free \<and> \<not> holds_key k (t (path k l))" and a: "lval a = k"
  shows "huge_wf (t(path k j := Used a))"
    and "huge_has (t(path k j := Used a)) k' b \<longleftrightarrow> (k' = k \<and> b = a) \<or> huge_has t k' b"
proof -
  let ?t = "t(path k j := Used a)"
  have rest: "?t (path k' l) \<noteq> Free \<and> \<not> holds_key k' (?t (path k' l))"
    if "j' < CF_HASHTABLESIZE" "holds_key k' (?t (path k' j'))" "l < j'" for k' j' l
  proof (cases "path k' j' = path k j")
    case True
    with that a have "k' = k" by (auto simp: holds_key_Used)
    with True j that path_inj have "j' = j" by blast
    with that j path_inj [of l j k] \<open>k' = k\<close> before show ?thesis by force
  next
    case False
    with that(2) have h: "holds_key k' (t (path k' j'))" by simp
    with wf that have "t (path k' l) \<noteq> Free \<and> \<not> holds_key k' (t (path k' l))" unfolding huge_wf_def by blast
    with j show ?thesis by auto
  qed
  from wf rest show "huge_wf ?t" unfolding huge_wf_def by (simp add: path_bound)
  show "huge_has ?t k' b \<longleftrightarrow> (k' = k \<and> b = a) \<or> huge_has t k' b"
  proof
    assume "huge_has ?t k' b"
    with a show "(k' = k \<and> b = a) \<or> huge_has t k' b" by (auto simp: huge_has_def split: if_splits)
  next
    assume "(k' = k \<and> b = a) \<or> huge_has t k' b"
    with j a path_bound [of k j] show "huge_has ?t k' b"
      unfolding huge_has_def by (metis fun_upd_other fun_upd_same slot.distinct(3))
  qed
qed

lemma huge_insert:
  assumes wf: "huge_wf t" and ins: "HugeHashInsertElement copy t k v d = (r, t')"
  shows "huge_wf t' \<and> (r \<longleftrightarrow> HugeHashLookupElement t k = None \<and> (\<exists>i < CF_HASHTABLESIZE. t i = Free)) \<and>
    HugeHashLookupElement t' k' = (if r \<and> k' = k then Some (NewAssoc copy k v d) else HugeHashLookupElement t k')"
proof (cases rule: probe_key_cases [of "\<lambda>s. s = Free \<or> s = HASH_ENTRY_DELETED \<or> holds_key k s" t k])
  case none
  then have "\<not> (\<exists>i < CF_HASHTABLESIZE. t i = Free)" using path_surj by metis
  with none ins wf show ?thesis by (simp add: HugeHashInsertElement_def)
next
  case (some j)
  from wf have nd: "t (path k l) \<noteq> HASH_ENTRY_DELETED" for l using path_bound unfolding huge_wf_def by blast
  show ?thesis
  proof (cases "t (path k j) = Free")
    case True
    let ?a = "NewAssoc copy k v d"
    have a: "lval ?a = k" by (simp add: NewAssoc_def)
    from some(4) have before: "\<forall>l < j. t (path k l) \<noteq> Free \<and> \<not> holds_key k (t (path k l))" by blast
    note f = huge_fresh_put [OF wf some(2) True before a]
    from ins some(1) True have t': "r" "t' = t(path k j := Used ?a)" by (auto simp: HugeHashInsertElement_def)
    have none: "HugeHashLookupElement t k = None"
    proof (rule ccontr)
      assume "HugeHashLookupElement t k \<noteq> None"
      then obtain b where "huge_has t k b" using HugeHashLookup_has [OF wf] by blast
      then obtain j' where j': "j' < CF_HASHTABLESIZE" "holds_key k (t (path k j'))"
        by (auto simp: huge_has_path holds_key_Used)
      with some(4) have "j \<le> j'" by (metis leI)
      with j' True have "j < j'" by (metis holds_key_Used le_neq_implies_less slot.distinct(3))
      with wf j' True show False unfolding huge_wf_def by blast
    qed
    have "HugeHashLookupElement t' k' = Some b \<longleftrightarrow> (if k' = k then Some ?a else HugeHashLookupElement t k') = Some b" for b
      unfolding t'(2) HugeHashLookup_has [OF f(1)] f(2)
      using none HugeHashLookup_has [OF wf, of k' b] HugeHashLookup_has [OF wf, of k b] by auto
    then have "HugeHashLookupElement t' k' = (if k' = k then Some ?a else HugeHashLookupElement t k')"
      by (metis not_None_eq)
    with t' f(1) none True path_bound show ?thesis by auto
  next
    case False
    with some(3) nd have h: "holds_key k (t (path k j))" by blast
    then obtain b where b: "t (path k j) = Used b" "lval b = k" by (auto simp: holds_key_Used)
    with some(2) have "HugeHashLookupElement t k = Some b"
      unfolding HugeHashLookup_has [OF wf] huge_has_path by blast
    moreover from ins some(1) b have "\<not> r" "t' = t" by (auto simp: HugeHashInsertElement_def)
    ultimately show ?thesis using wf by simp
  qed
qed

section \<open>Conversion\<close>

definition used_slots :: "(nat \<Rightarrow> ('v, 'd) slot) \<Rightarrow> nat set" where
  "used_slots t = {i. i < CF_HASHTABLESIZE \<and> t i \<noteq> Free}"

lemma used_slots_free: "card (used_slots t) < CF_HASHTABLESIZE \<Longrightarrow> \<exists>i < CF_HASHTABLESIZE. t i = Free"
proof (rule ccontr)
  assume c: "card (used_slots t) < CF_HASHTABLESIZE" and "\<not> (\<exists>i < CF_HASHTABLESIZE. t i = Free)"
  then have "used_slots t = {..<CF_HASHTABLESIZE}" by (auto simp: used_slots_def)
  with c show False by simp
qed

lemma used_slots_upd: "i < CF_HASHTABLESIZE \<Longrightarrow> card (used_slots (t(i := Used a))) \<le> Suc (card (used_slots t))"
proof -
  assume "i < CF_HASHTABLESIZE"
  then have "used_slots (t(i := Used a)) = insert i (used_slots t)" by (auto simp: used_slots_def)
  moreover have "finite (used_slots t)" by (simp add: used_slots_def)
  ultimately show ?thesis by (simp add: card_insert_if)
qed

lemma convert_put_spec:
  assumes wf: "huge_wf t" and room: "card (used_slots t) < CF_HASHTABLESIZE" and new: "\<forall>b. \<not> huge_has t (lval a) b"
  shows "huge_wf (convert_put t a) \<and> card (used_slots (convert_put t a)) \<le> Suc (card (used_slots t)) \<and>
    (\<forall>k b. huge_has (convert_put t a) k b \<longleftrightarrow> (k = lval a \<and> b = a) \<or> huge_has t k b)"
proof (cases rule: probe_key_cases [of "\<lambda>s. s = Free" t "lval a"])
  case none
  with used_slots_free [OF room] path_surj show ?thesis by metis
next
  case (some j)
  have "\<not> holds_key (lval a) (t (path (lval a) l))" for l
    using new path_bound [of "lval a" l] unfolding huge_has_def holds_key_Used by metis
  with some(4) have "\<forall>l < j. t (path (lval a) l) \<noteq> Free \<and> \<not> holds_key (lval a) (t (path (lval a) l))" by blast
  from huge_fresh_put [OF wf some(2,3) this refl] some(1) used_slots_upd [OF path_bound, of t "lval a" j a]
  show ?thesis by (simp add: convert_put_def)
qed

lemma convert_puts:
  "huge_wf t \<Longrightarrow> card (used_slots t) + length vs \<le> CF_HASHTABLESIZE \<Longrightarrow> distinct (map lval vs) \<Longrightarrow>
   \<forall>a \<in> set vs. \<forall>b. \<not> huge_has t (lval a) b \<Longrightarrow>
   huge_wf (foldl convert_put t vs) \<and>
   (\<forall>k b. huge_has (foldl convert_put t vs) k b \<longleftrightarrow> (b \<in> set vs \<and> lval b = k) \<or> huge_has t k b) \<and>
   card (used_slots (foldl convert_put t vs)) \<le> card (used_slots t) + length vs"
proof (induction vs arbitrary: t)
  case (Cons a vs)
  let ?t = "convert_put t a"
  from Cons.prems have p: "huge_wf ?t" "card (used_slots ?t) \<le> Suc (card (used_slots t))"
    "\<And>k b. huge_has ?t k b \<longleftrightarrow> (k = lval a \<and> b = a) \<or> huge_has t k b"
    using convert_put_spec [of t a] by auto
  have "\<forall>c \<in> set vs. \<forall>b. \<not> huge_has ?t (lval c) b"
  proof (intro ballI allI)
    fix c b assume c: "c \<in> set vs"
    with Cons.prems(3) have "lval c \<noteq> lval a" by (metis distinct.simps(2) image_eqI list.set_map list.simps(9))
    with c Cons.prems(4) show "\<not> huge_has ?t (lval c) b" by (simp add: p(3))
  qed
  moreover from p(2) Cons.prems(2) have "card (used_slots ?t) + length vs \<le> CF_HASHTABLESIZE" by simp
  moreover from Cons.prems(3) have "distinct (map lval vs)" by simp
  ultimately have ih: "huge_wf (foldl convert_put ?t vs)"
    "\<And>k b. huge_has (foldl convert_put ?t vs) k b \<longleftrightarrow> (b \<in> set vs \<and> lval b = k) \<or> huge_has ?t k b"
    "card (used_slots (foldl convert_put ?t vs)) \<le> card (used_slots ?t) + length vs"
    using Cons.IH [OF p(1)] by auto
  from ih(1,3) p(2) show ?case by (auto simp: ih(2) p(3))
qed simp

lemma empty_huge: "huge_wf (\<lambda>_. Free)" "\<not> huge_has (\<lambda>_. Free) k b" "used_slots (\<lambda>_. Free) = {}"
  by (simp_all add: huge_wf_def huge_has_def used_slots_def holds_key_def)

lemma find_tiny:
  "distinct (map lval vs) \<Longrightarrow> TinyHashLookupElement vs k = Some a \<longleftrightarrow> a \<in> set vs \<and> lval a = k"
  by (induction vs) (auto simp: TinyHashLookupElement_def)

lemma HashConvertToHuge_spec:
  assumes "distinct (map lval vs)" and "length vs \<le> TINY_LIMIT"
  shows "huge_wf (HashConvertToHuge vs)"
    and "HugeHashLookupElement (HashConvertToHuge vs) k = TinyHashLookupElement vs k"
    and "\<exists>i < CF_HASHTABLESIZE. HashConvertToHuge vs i = Free"
proof -
  from assms(2) have l: "length vs < CF_HASHTABLESIZE" by (simp add: TINY_LIMIT_def CF_HASHTABLESIZE_def)
  have "huge_wf (foldl convert_put (\<lambda>_. Free) vs) \<and>
   (\<forall>k b. huge_has (foldl convert_put (\<lambda>_. Free) vs) k b \<longleftrightarrow> (b \<in> set vs \<and> lval b = k) \<or> huge_has (\<lambda>_. Free) k b) \<and>
   card (used_slots (foldl convert_put (\<lambda>_. Free) vs)) \<le> card (used_slots (\<lambda>_. Free :: ('a, 'b) slot)) + length vs"
    using l assms(1) by (intro convert_puts) (simp_all add: empty_huge)
  then have c: "huge_wf (HashConvertToHuge vs)" "\<And>k b. huge_has (HashConvertToHuge vs) k b \<longleftrightarrow> b \<in> set vs \<and> lval b = k"
    "card (used_slots (HashConvertToHuge vs)) \<le> length vs"
    by (simp_all add: HashConvertToHuge_def empty_huge)
  then show "huge_wf (HashConvertToHuge vs)" by simp
  from c l used_slots_free show "\<exists>i < CF_HASHTABLESIZE. HashConvertToHuge vs i = Free" by (metis le_less_trans)
  have "HugeHashLookupElement (HashConvertToHuge vs) k = Some b \<longleftrightarrow> TinyHashLookupElement vs k = Some b" for b
    by (simp add: HugeHashLookup_has [OF c(1)] c(2) find_tiny [OF assms(1)])
  then show "HugeHashLookupElement (HashConvertToHuge vs) k = TinyHashLookupElement vs k"
    by (metis not_None_eq)
qed

section \<open>The table\<close>

definition table_wf :: "('v, 'd) AssocHashTable \<Rightarrow> bool" where
  "table_wf t = (case t of
     TinyTable vs \<Rightarrow> distinct (map lval vs) \<and> length vs \<le> TINY_LIMIT
   | HugeTable b \<Rightarrow> huge_wf b)"

definition table_full :: "('v, 'd) AssocHashTable \<Rightarrow> bool" where
  "table_full t = (case t of TinyTable vs \<Rightarrow> False | HugeTable b \<Rightarrow> \<forall>i < CF_HASHTABLESIZE. b i \<noteq> Free)"

lemma tiny_absent: "(\<exists>a \<in> set vs. lval a = k) \<longleftrightarrow> TinyHashLookupElement vs k \<noteq> None"
  by (auto simp: TinyHashLookupElement_def find_None_iff)

lemma table_insert:
  assumes wf: "table_wf t" and ins: "HashInsertElement copy t k v d = (r, t')"
  shows "table_wf t' \<and> (r \<longleftrightarrow> HashLookupElement t k = None \<and> \<not> table_full t) \<and>
    HashLookupElement t' k' = (if r \<and> k' = k then Some (NewAssoc copy k v d) else HashLookupElement t k')"
proof (cases t)
  case (HugeTable b)
  obtain b' where "HugeHashInsertElement copy b k v d = (r, b')" "t' = HugeTable b'"
    using ins HugeTable by (auto simp: HashInsertElement_def split: prod.splits)
  with huge_insert [of b copy k v d r b' k'] wf HugeTable show ?thesis
    by (auto simp: table_wf_def table_full_def HashLookupElement_def)
next
  case (TinyTable vs)
  with wf have vs: "distinct (map lval vs)" "length vs \<le> TINY_LIMIT" by (simp_all add: table_wf_def)
  show ?thesis
  proof (cases "length vs = TINY_LIMIT")
    case True
    note c = HashConvertToHuge_spec [OF vs]
    obtain b' where b': "HugeHashInsertElement copy (HashConvertToHuge vs) k v d = (r, b')" "t' = HugeTable b'"
      using ins TinyTable True by (auto simp: HashInsertElement_def TinyHashInsertElement_def split: prod.splits)
    from huge_insert [OF c(1) b'(1), of k'] c(2,3) b'(2) TinyTable show ?thesis
      by (auto simp: table_wf_def table_full_def HashLookupElement_def)
  next
    case False
    show ?thesis
    proof (cases "\<exists>a \<in> set vs. lval a = k")
      case True
      with ins False TinyTable have "r = False" "t' = t"
        by (auto simp: HashInsertElement_def TinyHashInsertElement_def)
      with True wf TinyTable show ?thesis by (simp add: HashLookupElement_def tiny_absent)
    next
      case absent: False
      with ins False TinyTable have r: "r = True" "t' = TinyTable (vs @ [NewAssoc copy k v d])"
        by (auto simp: HashInsertElement_def TinyHashInsertElement_def)
      have "lval (NewAssoc copy k v d) = k" by (simp add: NewAssoc_def)
      with absent vs have d: "distinct (map lval (vs @ [NewAssoc copy k v d]))" by auto
      have "TinyHashLookupElement (vs @ [NewAssoc copy k v d]) k' = Some b \<longleftrightarrow>
          (if k' = k then Some (NewAssoc copy k v d) else TinyHashLookupElement vs k') = Some b" for b
        unfolding find_tiny [OF d] using find_tiny [OF vs(1), of k' b] absent \<open>lval (NewAssoc copy k v d) = k\<close> by auto
      then have "TinyHashLookupElement (vs @ [NewAssoc copy k v d]) k' =
          (if k' = k then Some (NewAssoc copy k v d) else TinyHashLookupElement vs k')" by (metis not_None_eq)
      with r d vs False absent TinyTable show ?thesis
        by (auto simp: table_wf_def table_full_def HashLookupElement_def tiny_absent)
    qed
  qed
qed

section \<open>Deletion\<close>

lemma tiny_delete:
  "distinct (map lval vs) \<Longrightarrow> TinyHashDeleteElement vs k = (r, vs') \<Longrightarrow>
   distinct (map lval vs') \<and> set vs' \<subseteq> set vs \<and> length vs' \<le> length vs \<and> r = (TinyHashLookupElement vs k \<noteq> None) \<and>
   TinyHashLookupElement vs' k' = (if k' = k then None else TinyHashLookupElement vs k')"
proof (induction vs arbitrary: vs' r)
  case Nil
  then show ?case by (simp add: TinyHashLookupElement_def)
next
  case (Cons a vs)
  show ?case
  proof (cases "lval a = k")
    case True
    with Cons.prems(1) have "k \<notin> lval ` set vs" by simp
    then have "\<forall>b \<in> set vs. lval b \<noteq> k" by blast
    then have "TinyHashLookupElement vs k = None" by (simp add: TinyHashLookupElement_def find_None_iff)
    with True Cons.prems show ?thesis by (auto simp: TinyHashLookupElement_def)
  next
    case False
    obtain r1 vs1 where p: "TinyHashDeleteElement vs k = (r1, vs1)" by force
    from Cons.prems(1) have d: "distinct (map lval vs)" by simp
    note ih = Cons.IH [OF d p]
    then have "lval ` set vs1 \<subseteq> lval ` set vs" by blast
    with Cons.prems(1) have "lval a \<notin> lval ` set vs1" by auto
    with ih p Cons.prems(2) False show ?thesis by (auto simp: TinyHashLookupElement_def)
  qed
qed

text \<open>\<open>hides t k k'\<close>: the slot of \<open>k\<close> lies on the probe sequence of \<open>k'\<close>, before the slot of \<open>k'\<close>.\<close>

definition hides :: "(nat \<Rightarrow> ('v, 'd) slot) \<Rightarrow> string \<Rightarrow> string \<Rightarrow> bool" where
  "hides t k k' \<longleftrightarrow> (\<exists>j < CF_HASHTABLESIZE. \<exists>l < j. holds_key k' (t (path k' j)) \<and> holds_key k (t (path k' l)))"

lemma lookup_first:
  assumes "j < CF_HASHTABLESIZE" and "\<forall>l < j. t (path k l) \<noteq> Free \<and> \<not> holds_key k (t (path k l))"
    and "t (path k j) = Free \<or> holds_key k (t (path k j))"
  shows "HugeHashLookupElement t k = (case t (path k j) of Used a \<Rightarrow> Some a | _ \<Rightarrow> None)"
proof -
  have "probe_key (\<lambda>s. s = Free \<or> holds_key k s) t k = Some (path k j)"
    unfolding probe_key_find using find_upt_Some [of "\<lambda>j. t (path k j) = Free \<or> holds_key k (t (path k j))" CF_HASHTABLESIZE j]
      assms by simp
  then show ?thesis by (simp add: HugeHashLookupElement_def)
qed

lemma huge_delete_lookup:
  assumes wf: "huge_wf t" and del: "HugeHashDeleteElement t k = (r, t')"
  shows "r = (HugeHashLookupElement t k \<noteq> None) \<and>
    HugeHashLookupElement t' k' = (if k' = k \<or> hides t k k' then None else HugeHashLookupElement t k')"
proof (cases "HugeHashLookupElement t k")
  case None
  then have nh: "\<not> holds_key k (t (path k j))" if "j < CF_HASHTABLESIZE" for j
    using HugeHashLookup_has [OF wf, of k] that unfolding huge_has_path holds_key_Used by force
  have "\<not> holds_key k (t i)" if "i < CF_HASHTABLESIZE" for i
    using nh path_surj [OF that, of k] by blast
  then have "\<not> hides t k k'" using path_bound unfolding hides_def by blast
  moreover from nh del have "r = False \<and> t' = t"
    by (cases rule: probe_key_cases [of "\<lambda>s. s = Free \<or> holds_key k s" t k]) (auto simp: HugeHashDeleteElement_def)
  ultimately show ?thesis using None by simp
next
  case (Some a)
  with HugeHashLookup_has [OF wf] obtain j where j: "j < CF_HASHTABLESIZE" "t (path k j) = Used a" "lval a = k"
    unfolding huge_has_path by blast
  then have h: "holds_key k (t (path k j))" by (simp add: holds_key_Used)
  have before: "\<forall>l < j. t (path k l) \<noteq> Free \<and> \<not> holds_key k (t (path k l))"
    using wf j(1) h unfolding huge_wf_def by blast
  have "probe_key (\<lambda>s. s = Free \<or> holds_key k s) t k = Some (path k j)"
    unfolding probe_key_find using find_upt_Some [of "\<lambda>j. t (path k j) = Free \<or> holds_key k (t (path k j))" CF_HASHTABLESIZE j]
      j(1) h before by simp
  with del j have t': "r = True" "t' = t(path k j := Free)" by (simp_all add: HugeHashDeleteElement_def)
  have only: "i = path k j" if i: "i < CF_HASHTABLESIZE" and "holds_key k (t i)" for i
  proof -
    from path_surj [OF i] obtain j' where j': "j' < CF_HASHTABLESIZE" "path k j' = i" by blast
    with that wf j(1) h have "\<not> j < j'" "\<not> j' < j" unfolding huge_wf_def by blast+
    with j' show ?thesis by (metis linorder_neqE_nat)
  qed
  have same: "holds_key x (t' i) \<Longrightarrow> holds_key x (t i)" for x i by (auto simp: t' holds_key_Used split: if_splits)
  show ?thesis
  proof (cases "HugeHashLookupElement t k'")
    case none': None
    then have "\<not> holds_key k' (t (path k' l))" if "l < CF_HASHTABLESIZE" for l
      using HugeHashLookup_has [OF wf, of k'] that unfolding huge_has_path holds_key_Used by force
    with same have "\<not> holds_key k' (t' (path k' l))" if "l < CF_HASHTABLESIZE" for l using that by blast
    then have "HugeHashLookupElement t' k' = None"
      by (cases rule: probe_key_cases [of "\<lambda>s. s = Free \<or> holds_key k' s" t' k']) (auto simp: HugeHashLookupElement_def)
    with none' Some t' show ?thesis by simp
  next
    case (Some b)
    with HugeHashLookup_has [OF wf] obtain j' where j': "j' < CF_HASHTABLESIZE" "t (path k' j') = Used b" "lval b = k'"
      unfolding huge_has_path by blast
    then have h': "holds_key k' (t (path k' j'))" by (simp add: holds_key_Used)
    with wf j'(1) have before': "\<forall>l < j'. t (path k' l) \<noteq> Free \<and> \<not> holds_key k' (t (path k' l))" unfolding huge_wf_def by blast
    show ?thesis
    proof (cases "\<exists>l \<le> j'. path k' l = path k j")
      case True
      then obtain l where l: "l \<le> j'" "path k' l = path k j" by blast
      have "path k' m \<noteq> path k j" if "m < l" for m
        using path_inj [of m l k'] that l j'(1) by auto
      then have e: "t' (path k' m) = t (path k' m)" if "m < l" for m using that by (simp add: t')
      have "HugeHashLookupElement t' k' = None"
        by (subst lookup_first [of l]) (use l j'(1) before' e t' in auto)
      moreover have "k' = k \<or> hides t k k'"
        using l h h' j' j(2,3) unfolding hides_def by (metis holds_key_Used le_neq_implies_less slot.inject)
      ultimately show ?thesis using t' Some \<open>HugeHashLookupElement t k = Some a\<close> by simp
    next
      case False
      then have e: "t' (path k' l) = t (path k' l)" if "l \<le> j'" for l using that by (auto simp: t')
      have "HugeHashLookupElement t' k' = Some b"
        by (subst lookup_first [of j']) (use j' before' h' e in auto)
      moreover have "k' \<noteq> k" using False only [OF path_bound, of k' j'] h' by auto
      moreover have "\<not> hides t k k'"
      proof
        assume "hides t k k'"
        then obtain i l where il: "i < CF_HASHTABLESIZE" "l < i" "holds_key k' (t (path k' i))" "holds_key k (t (path k' l))"
          unfolding hides_def by blast
        from il(1,3) wf j'(1) h' have "\<not> j' < i" unfolding huge_wf_def by blast
        with il(2) False have "path k' l \<noteq> path k j" by simp
        with only [OF path_bound il(4)] show False by simp
      qed
      ultimately show ?thesis using t' Some \<open>HugeHashLookupElement t k = Some a\<close> by simp
    qed
  qed
qed

section \<open>Iteration\<close>

definition slot_assocs :: "('v, 'd) slot \<Rightarrow> ('v, 'd) CfAssoc list" where
  "slot_assocs s = (case s of Used a \<Rightarrow> [a] | _ \<Rightarrow> [])"

definition huge_rest :: "(nat \<Rightarrow> ('v, 'd) slot) \<Rightarrow> nat \<Rightarrow> ('v, 'd) CfAssoc list" where
  "huge_rest b p = concat (map (\<lambda>i. slot_assocs (b i)) [p..<CF_HASHTABLESIZE])"

lemma huge_rest_step:
  "p < CF_HASHTABLESIZE \<Longrightarrow> huge_rest b p = slot_assocs (b p) @ huge_rest b (Suc p)"
  "\<not> p < CF_HASHTABLESIZE \<Longrightarrow> huge_rest b p = []"
  by (simp_all add: huge_rest_def upt_conv_Cons)

definition assocs :: "('v, 'd) AssocHashTable \<Rightarrow> ('v, 'd) CfAssoc list" where
  "assocs t = (case t of
     TinyTable vs \<Rightarrow> vs
   | HugeTable b \<Rightarrow> huge_rest b 0)"

definition it_remaining :: "('v, 'd) HashIterator \<Rightarrow> ('v, 'd) CfAssoc list" where
  "it_remaining i = (case it_table i of
     TinyTable vs \<Rightarrow> drop (it_pos i) vs
   | HugeTable b \<Rightarrow> huge_rest b (it_pos i))"

lemma huge_next_remaining:
  "case huge_rest b p of
     [] \<Rightarrow> fst (huge_next_loop b p) = None
   | a # rest \<Rightarrow> fst (huge_next_loop b p) = Some a \<and> huge_rest b (snd (huge_next_loop b p)) = rest"
proof (induction b p rule: huge_next_loop.induct)
  case (1 b p)
  show ?case
  proof (cases "p < CF_HASHTABLESIZE")
    case True
    note u = huge_rest_step(1) [OF True, of b]
    show ?thesis
    proof (cases "\<exists>a. b p = Used a")
      case used: True
      then obtain a where a: "b p = Used a" by blast
      with True have "huge_next_loop b p = (Some a, p + 1)" by (subst huge_next_loop.simps) simp
      with u a show ?thesis by (simp add: slot_assocs_def)
    next
      case False
      then have n: "slot_assocs (b p) = []" by (cases "b p") (auto simp: slot_assocs_def)
      from True False have l: "huge_next_loop b p = huge_next_loop b (p + 1)"
        by (subst huge_next_loop.simps) (auto split: slot.split)
      from False have "b p = Free \<or> b p = HASH_ENTRY_DELETED" by (cases "b p") auto
      with 1 True have "case huge_rest b (p + 1) of
         [] \<Rightarrow> fst (huge_next_loop b (p + 1)) = None
       | a # rest \<Rightarrow> fst (huge_next_loop b (p + 1)) = Some a \<and> huge_rest b (snd (huge_next_loop b (p + 1))) = rest"
        by blast
      with u n l show ?thesis by (cases "huge_rest b (Suc p)") simp_all
    qed
  next
    case False
    then show ?thesis using huge_rest_step(2) [of p b] by (subst huge_next_loop.simps) simp
  qed
qed

lemma HashIteratorNext_remaining:
  "case it_remaining i of
     [] \<Rightarrow> fst (HashIteratorNext i) = None
   | a # rest \<Rightarrow> fst (HashIteratorNext i) = Some a \<and> it_remaining (snd (HashIteratorNext i)) = rest"
proof (cases "it_table i")
  case (TinyTable vs)
  show ?thesis
  proof (cases "it_pos i < length vs")
    case True
    with TinyTable Cons_nth_drop_Suc [OF True, symmetric] show ?thesis
      by (simp add: HashIteratorNext_def it_remaining_def)
  next
    case False
    with TinyTable show ?thesis by (simp add: HashIteratorNext_def it_remaining_def)
  qed
next
  case (HugeTable b)
  with huge_next_remaining [of b "it_pos i"] show ?thesis
    by (cases "huge_next_loop b (it_pos i)"; cases "huge_rest b (it_pos i)") (simp_all add: HashIteratorNext_def it_remaining_def)
qed

lemma copy_loop_inserts:
  "copy_loop copy n i = foldl (\<lambda>t a. snd (HashInsertElement copy t (lval a) (rval a) (dtype a))) n (it_remaining i)"
proof (induction copy n i rule: copy_loop.induct)
  case (1 copy n i)
  show ?case
  proof (cases "it_remaining i")
    case Nil
    with HashIteratorNext_remaining [of i] show ?thesis by (subst copy_loop.simps) (auto split: prod.split)
  next
    case (Cons a rest)
    with HashIteratorNext_remaining [of i] obtain i' where n: "HashIteratorNext i = (Some a, i')" "it_remaining i' = rest"
      by (cases "HashIteratorNext i") auto
    from "1.IH" [OF n(1) [symmetric]] n Cons show ?thesis by (subst copy_loop.simps) simp
  qed
qed

lemma HashCopy_inserts:
  "HashCopy copy newhash oldhash =
     foldl (\<lambda>t a. snd (HashInsertElement copy t (lval a) (rval a) (dtype a))) newhash (assocs oldhash)"
  by (cases oldhash) (simp_all add: HashCopy_def copy_loop_inserts HashIteratorInit_def it_remaining_def assocs_def)

section \<open>Properties of the hashes\<close>

definition sample_table :: "(int, unit) AssocHashTable" where
  "sample_table = TinyTable [NewAssoc (\<lambda>v. v) ''a'' 1 ()]"

text \<open>Two names with the same hash, and the table of 8192 slots that holds both.\<close>

definition colliding_slots :: "nat \<Rightarrow> (int, unit) slot" where
  "colliding_slots = snd (HugeHashInsertElement (\<lambda>v. v) (snd (HugeHashInsertElement (\<lambda>v. v) (\<lambda>_. Free) ''eq'' 1 ())) ''ez'' 2 ())"

lemma GetHash_eq_ez: "GetHash ''eq'' = 6030" "GetHash ''ez'' = 6030"
  by (simp_all add: GetHash_def OatHash_def oat_step_def CF_HASHTABLESIZE_def)

lemma probe_numeral: "probe stop b k i (numeral n) =
    (if stop (b i) then Some i
     else let i' = (i + 1) mod CF_HASHTABLESIZE in if i' = k then None else probe stop b k i' (pred_numeral n))"
  by (simp add: numeral_eq_Suc)

lemmas slot_evaluation = probe_key_def probe_numeral GetHash_eq_ez holds_key_def NewAssoc_def CF_HASHTABLESIZE_def

lemma insert_eq: "HugeHashInsertElement copy (\<lambda>_. Free) ''eq'' v d = (True, (\<lambda>_. Free)(6030 := Used (NewAssoc copy ''eq'' v d)))"
  by (simp add: HugeHashInsertElement_def probe_key_def probe_numeral CF_HASHTABLESIZE_def GetHash_eq_ez)

lemma insert_ez:
  "lval a = ''eq'' \<Longrightarrow> HugeHashInsertElement copy ((\<lambda>_. Free)(6030 := Used a)) ''ez'' v d =
     (True, ((\<lambda>_. Free)(6030 := Used a))(6031 := Used (NewAssoc copy ''ez'' v d)))"
  by (simp add: HugeHashInsertElement_def probe_key_def probe_numeral CF_HASHTABLESIZE_def GetHash_eq_ez holds_key_def)

lemma colliding_slots_eq:
  "colliding_slots = (\<lambda>_. Free)(6030 := Used (NewAssoc (\<lambda>v. v) ''eq'' 1 ()), 6031 := Used (NewAssoc (\<lambda>v. v) ''ez'' 2 ()))"
  by (simp add: colliding_slots_def insert_eq insert_ez NewAssoc_def)

lemma huge_insert_wf: "huge_wf t \<Longrightarrow> huge_wf (snd (HugeHashInsertElement copy t k v d))"
  using huge_insert [of t copy k v d "fst (HugeHashInsertElement copy t k v d)" "snd (HugeHashInsertElement copy t k v d)" k] by simp

text \<open>C34: Inserting into an association table stores the element exactly when its key was absent and the table was not
  full, says so, and changes the lookup of no other key; in particular the switch from 14 entries to 8192 slots loses
  nothing.\<close>

lemma HashInsertElement_lookup:
  assumes "table_wf t" and "HashInsertElement copy t k v d = (r, t')"
  shows "table_wf t' \<and> (r \<longleftrightarrow> HashLookupElement t k = None \<and> \<not> table_full t) \<and>
    HashLookupElement t' k' = (if r \<and> k' = k then Some (NewAssoc copy k v d) else HashLookupElement t k')"
  by (rule table_insert [OF assms])

lemma HashInsertElement_lookup_witness:
  "table_wf (snd (HashInsertElement (\<lambda>v. v) sample_table ''b'' 2 ())) \<and>
   (fst (HashInsertElement (\<lambda>v. v) sample_table ''b'' 2 ()) \<longleftrightarrow> HashLookupElement sample_table ''b'' = None \<and> \<not> table_full sample_table) \<and>
   HashLookupElement (snd (HashInsertElement (\<lambda>v. v) sample_table ''b'' 2 ())) ''b'' =
     (if fst (HashInsertElement (\<lambda>v. v) sample_table ''b'' 2 ()) \<and> ''b'' = ''b'' then Some (NewAssoc (\<lambda>v. v) ''b'' 2 ())
      else HashLookupElement sample_table ''b'')"
  by (rule HashInsertElement_lookup) (simp_all add: sample_table_def table_wf_def TINY_LIMIT_def)

text \<open>C35: Deleting from the table of 8192 slots removes the key, says whether it was there, and keeps the lookup of every
  key except those whose probe path runs over the freed slot: for those the lookup now fails, since the slot is set to
  NULL and not to the deleted mark.\<close>

lemma HugeHashDeleteElement_lookup:
  assumes "huge_wf t" and "HugeHashDeleteElement t k = (r, t')"
  shows "r = (HugeHashLookupElement t k \<noteq> None) \<and>
    HugeHashLookupElement t' k' = (if k' = k \<or> hides t k k' then None else HugeHashLookupElement t k')"
  by (rule huge_delete_lookup [OF assms])

lemma HugeHashDeleteElement_lookup_witness:
  "fst (HugeHashDeleteElement colliding_slots ''eq'') = (HugeHashLookupElement colliding_slots ''eq'' \<noteq> None) \<and>
   HugeHashLookupElement (snd (HugeHashDeleteElement colliding_slots ''eq'')) ''ez'' =
     (if ''ez'' = ''eq'' \<or> hides colliding_slots ''eq'' ''ez'' then None else HugeHashLookupElement colliding_slots ''ez'')"
  by (rule HugeHashDeleteElement_lookup [OF _ prod.collapse [symmetric]])
    (simp add: colliding_slots_def huge_insert_wf empty_huge)

text \<open>A concrete loss: with the colliding names eq and ez in the table, deleting eq makes the lookup of ez fail.\<close>

lemma HugeHashDeleteElement_loses_key:
  "HugeHashLookupElement colliding_slots ''ez'' = Some (NewAssoc (\<lambda>v. v) ''ez'' 2 ()) \<and>
   HugeHashLookupElement (snd (HugeHashDeleteElement colliding_slots ''eq'')) ''ez'' = None"
  by (simp add: colliding_slots_eq HugeHashDeleteElement_def HugeHashLookupElement_def slot_evaluation)

text \<open>Deleting from the small table removes exactly the association of the key and says whether there was one.\<close>

lemma TinyHashDeleteElement_lookup:
  assumes "table_wf (TinyTable vs)" and "TinyHashDeleteElement vs k = (r, vs')"
  shows "table_wf (TinyTable vs') \<and> r = (TinyHashLookupElement vs k \<noteq> None) \<and>
    TinyHashLookupElement vs' k' = (if k' = k then None else TinyHashLookupElement vs k')"
  using tiny_delete [OF _ assms(2), of k'] assms(1) by (auto simp: table_wf_def)

lemma TinyHashDeleteElement_lookup_witness:
  "table_wf (TinyTable ([] :: (int, unit) CfAssoc list)) \<and> True = (TinyHashLookupElement [NewAssoc (\<lambda>v. v) ''a'' (1 :: int) ()] ''a'' \<noteq> None) \<and>
    TinyHashLookupElement ([] :: (int, unit) CfAssoc list) ''b'' =
      (if ''b'' = ''a'' then None else TinyHashLookupElement [NewAssoc (\<lambda>v. v) ''a'' (1 :: int) ()] ''b'')"
  by (rule TinyHashDeleteElement_lookup) (simp_all add: table_wf_def NewAssoc_def TINY_LIMIT_def)

text \<open>The iterator of an association table returns its associations one after the other, each once, and then NULL;
  copying a table inserts exactly these into the other table, in this order.\<close>

lemma HashCopy_iterates:
  "HashCopy copy newhash oldhash =
     foldl (\<lambda>t a. snd (HashInsertElement copy t (lval a) (rval a) (dtype a))) newhash (assocs oldhash)"
  by (rule HashCopy_inserts)

text \<open>The two unsigned hash functions used for table slots always return a slot of the table; the signed one can go
  below zero but never reaches 8192 in magnitude.\<close>

lemma hash_slots_in_range:
  "GetHash k < CF_HASHTABLESIZE \<and> unat (ElfHash k) < CF_HASHTABLESIZE \<and> \<bar>RefHash k\<bar> < int CF_HASHTABLESIZE"
  using GetHash_bound ElfHash_bound ref_hash_loop_bound [of 0 k] by (simp add: RefHash_def CF_HASHTABLESIZE_def)

end
