(* ===== verification/CF_Names.thy ===== *)
theory CF_Names
  imports CF_Prelude
begin

text \<open>
  \<open>src/files_names.c\<close>: path names and other strings edited in place.  The C functions write to a buffer;
  the model returns the new text.  The build is the Unix one: the only file separator is the slash, the
  name of the system is not that of a Windows.
\<close>

section \<open>Blanks and canonical names\<close>

fun EmptyString :: "string \<Rightarrow> bool" where
  "EmptyString [] = True"
| "EmptyString (c # s) = (if \<not> c_isspace c then False else EmptyString s)"

text \<open>\<open>Chop\<close> removes trailing blanks, unless the string is too long to be one.\<close>

definition Chop :: "string \<Rightarrow> string" where
  "Chop str = (if length str > CF_EXPANDSIZE then str else rev (dropWhile c_isspace (rev str)))"

definition StripTrailingNewline :: "string \<Rightarrow> string" where
  "StripTrailingNewline str =
     (if length str > CF_EXPANDSIZE then str else rev (dropWhile (\<lambda>c. c = CHR 0x0A) (rev str)))"

definition CanonifyNameInPlace :: "string \<Rightarrow> string" where
  "CanonifyNameInPlace s = map (\<lambda>c. if \<not> c_isalnum c \<or> c = CHR ''.'' then CHR ''_'' else c) s"

definition TransformNameInPlace :: "string \<Rightarrow> char \<Rightarrow> char \<Rightarrow> string" where
  "TransformNameInPlace s from_char to_char = map (\<lambda>c. if c = from_char then to_char else c) s"

text \<open>The static buffer is not terminated when the name fills it: then the model has no result.\<close>

definition CanonifyName :: "string \<Rightarrow> string res" where
  "CanonifyName str = (if length str < CF_BUFSIZE then Inr (CanonifyNameInPlace str) else Inl OutOfBounds)"

definition CanonifyChar :: "string \<Rightarrow> char \<Rightarrow> string" where
  "CanonifyChar str ch = map (\<lambda>c. if c = ch then CHR ''_'' else c) (take (CF_BUFSIZE - 1) str)"

section \<open>Comparing and quoting\<close>

function CompareCSVName :: "string \<Rightarrow> string \<Rightarrow> int" where
  "CompareCSVName s1 s2 =
     (if s1 = [] \<and> s2 = [] then 0
      else let ch1 = (if char_at s1 0 = CHR '','' then CHR ''_'' else char_at s1 0);
               ch2 = (if char_at s2 0 = CHR '','' then CHR ''_'' else char_at s2 0)
           in if signed_char ch1 > signed_char ch2 then 1
              else if signed_char ch1 < signed_char ch2 then -1
              else CompareCSVName (tl s1) (tl s2))"
  by pat_completeness auto
termination
  by (relation "measure (\<lambda>(s1, s2). length s1 + length s2)") (auto simp: neq_Nil_conv)

declare CompareCSVName.simps [simp del]

text \<open>
  \<open>DeEscapeQuotedString\<close>: the unescaped text and the returned position.  A backslash before a newline
  skips both and copies the character after them; before a backslash or a quote it is dropped.
\<close>

function deescape_loop :: "string \<Rightarrow> nat \<Rightarrow> string \<Rightarrow> string \<times> nat" where
  "deescape_loop from sp to =
     (if sp < length from then
        if from ! sp = from ! 0 then
          (to, if char_at from (sp + 1) \<noteq> NUL then 2 + sp else 0)
        else
          let sp' = (if from ! sp = CHR 0x5C then
                       if char_at from (sp + 1) = CHR 0x0A then sp + 2
                       else if char_at from (sp + 1) \<in> {CHR 0x5C, CHR 0x22, CHR 0x27} then sp + 1
                       else sp
                     else sp)
          in deescape_loop from (sp' + 1) (to @ [char_at from sp'])
      else (to, 0))"
  by pat_completeness auto
termination
  by (relation "measure (\<lambda>(from, sp, to). length from - sp)") (auto simp: Let_def split: if_splits)

declare deescape_loop.simps [simp del]

definition DeEscapeQuotedString :: "string \<Rightarrow> (string \<times> nat) option" where
  "DeEscapeQuotedString from = (if from = [] then None else Some (deescape_loop from 1 []))"

definition StringInArray :: "string list \<Rightarrow> string \<Rightarrow> bool" where
  "StringInArray a s = (\<exists>t \<in> set a. strcmp s t = 0)"

fun ScanPastChars :: "string \<Rightarrow> string \<Rightarrow> string" where
  "ScanPastChars scanpast [] = []"
| "ScanPastChars scanpast (c # s) = (if c \<in> set scanpast then ScanPastChars scanpast s else c # s)"

section \<open>Joining with a margin\<close>

text \<open>Without a margin a text that fills the buffer is accepted, and its NUL is written behind it.\<close>

definition JoinMargin :: "string \<Rightarrow> string \<Rightarrow> int \<Rightarrow> int \<Rightarrow> (bool \<times> string) res" where
  "JoinMargin path leaf bufsize margin =
     (if margin < 0 then Inl FatalErrorExit
      else if int (length path + length leaf) > bufsize - margin then Inr (False, path)
      else if int (length path + length leaf) \<ge> bufsize then Inl OutOfBounds
      else Inr (True, path @ leaf))"

definition Join :: "string \<Rightarrow> string \<Rightarrow> int \<Rightarrow> (bool \<times> string) res" where
  "Join path leaf bufsize = JoinMargin path leaf bufsize (int CF_BUFFERMARGIN)"

definition StartJoin :: "string \<Rightarrow> int \<Rightarrow> (bool \<times> string) res" where
  "StartJoin leaf bufsize = JoinMargin [] leaf bufsize (int CF_BUFFERMARGIN)"

definition EndJoin :: "string \<Rightarrow> string \<Rightarrow> int \<Rightarrow> (bool \<times> string) res" where
  "EndJoin path leaf bufsize = JoinMargin path leaf bufsize 0"

text \<open>
  \<open>strncat\<close> is given the size of the buffer less the margin, not the room that is left.
\<close>

definition JoinSilent :: "string \<Rightarrow> string \<Rightarrow> int \<Rightarrow> (bool \<times> string) res" where
  "JoinSilent path leaf bufsize =
     (if int (length path + length leaf) > bufsize - int CF_BUFFERMARGIN then
        let room = bufsize - int CF_BUFFERMARGIN;
            p = path @ (if room < 0 then leaf else take (nat room) leaf)
        in if int (length p) \<ge> bufsize then Inl OutOfBounds
           else res_bind (EndJoin p ''...TRUNCATED'' bufsize) (\<lambda>(_, p'). Inr (False, p'))
      else Inr (True, path @ leaf))"

section \<open>Separators\<close>

definition IsFileSep :: "char \<Rightarrow> bool" where
  "IsFileSep c \<longleftrightarrow> c = CHR ''/''"

definition IsAbsPath :: "string \<Rightarrow> bool" where
  "IsAbsPath path = (if IsFileSep (char_at path 0) then True else False)"

definition AddSlash :: "string \<Rightarrow> string" where
  "AddSlash str =
     (if str = [] then ''/''
      else let f = CHR ''/'' \<in> set str; b = CHR 0x5C \<in> set str;
               sep = (if f \<and> \<not> b then ''/'' else if b \<and> \<not> f then [CHR 0x5C] else ''/'')
           in if \<not> IsFileSep (last str) then str @ sep else str)"

definition DeleteSlash :: "string \<Rightarrow> string" where
  "DeleteSlash str =
     (if str = [] then str
      else if strcmp str ''/'' = 0 then str
      else if IsFileSep (last str) then butlast str else str)"

text \<open>Positions of the first and the last separator.\<close>

fun first_backslash :: "string \<Rightarrow> nat \<Rightarrow> nat option" where
  "first_backslash [] pos = None"
| "first_backslash (c # s) pos = (if c = CHR 0x5C then Some pos else first_backslash s (pos + 1))"

definition FirstFileSeparator :: "string \<Rightarrow> nat option res" where
  "FirstFileSeparator str =
     c_assert (str \<noteq> [])
       (if hd str = CHR ''/'' then Inr (Some 0)
        else if starts_with [CHR 0x5C, CHR 0x5C] str then Inr (Some 1)
        else Inr (first_backslash str 0))"

fun last_sep_loop :: "string \<Rightarrow> nat \<Rightarrow> nat option" where
  "last_sep_loop str 0 = None"
| "last_sep_loop str (Suc sp) = (if IsFileSep (str ! sp) then Some sp else last_sep_loop str sp)"

definition LastFileSeparator :: "string \<Rightarrow> nat option" where
  "LastFileSeparator str = last_sep_loop str (length str)"

definition ChopLastNode :: "string \<Rightarrow> bool \<times> string" where
  "ChopLastNode str =
     (let (ret, s) = (case LastFileSeparator str of None \<Rightarrow> (False, str) | Some sp \<Rightarrow> (True, take sp str))
      in (ret, if s = [] then AddSlash s else s))"

definition ReadLastNode :: "string \<Rightarrow> string" where
  "ReadLastNode str = (case LastFileSeparator str of None \<Rightarrow> str | Some sp \<Rightarrow> drop (sp + 1) str)"

definition GetParentDirectoryCopy :: "string \<Rightarrow> string res" where
  "GetParentDirectoryCopy path =
     c_assert (path \<noteq> [])
       (if strcmp path ''/'' = 0 then Inr path
        else case LastFileSeparator path of
            None \<Rightarrow> Inl FatalErrorExit
          | Some sp \<Rightarrow> res_bind (FirstFileSeparator path) (\<lambda>first.
              Inr (if Some sp = first then take (sp + 1) path else take sp path)))"

section \<open>Joining and compressing paths\<close>

text \<open>The returned path, or \<open>None\<close> for NULL; the buffer keeps the slash that was added before the failure.\<close>

definition JoinPath :: "string \<Rightarrow> string \<Rightarrow> string option \<times> string" where
  "JoinPath path leaf =
     (let p = AddSlash (Chop path) in
      if length p + length leaf > CF_BUFSIZE - CF_BUFFERMARGIN then (None, p) else (Some (p @ leaf), p @ leaf))"

definition JoinSuffix :: "string \<Rightarrow> string \<Rightarrow> string option \<times> string" where
  "JoinSuffix path leaf =
     (let p = DeleteSlash (Chop path) in
      if length p + length leaf > CF_BUFSIZE - CF_BUFFERMARGIN then (None, p) else (Some (p @ leaf), p @ leaf))"

definition RootDirLength :: "string \<Rightarrow> nat" where
  "RootDirLength f = (if IsFileSep (char_at f 0) then 1 else 0)"

definition take_node :: "string \<Rightarrow> string" where
  "take_node s = takeWhile (\<lambda>c. \<not> IsFileSep c) s"

function compress_loop :: "string \<Rightarrow> string \<Rightarrow> string option" where
  "compress_loop dest s =
     (case s of
        [] \<Rightarrow> Some dest
      | c # cs \<Rightarrow>
          if IsFileSep c then compress_loop dest cs
          else let node = take_node s; rest = drop (length node) s in
            if length node > CF_MAXLINKSIZE + 1 then None
            else if strcmp node ''.'' = 0 then compress_loop dest rest
            else if strcmp node ''..'' = 0 then
              (case ChopLastNode dest of (ok, dest') \<Rightarrow> if \<not> ok then None else compress_loop dest' rest)
            else
              (case JoinPath (AddSlash dest) node of (None, _) \<Rightarrow> None | (Some dest', _) \<Rightarrow> compress_loop dest' rest))"
  by pat_completeness auto
termination
  by (relation "measure (\<lambda>(dest, s). length s)") (auto simp: take_node_def)

declare compress_loop.simps [simp del]

text \<open>\<open>None\<close> is the false return.\<close>

definition CompressPath :: "string \<Rightarrow> string option" where
  "CompressPath src = compress_loop (take (RootDirLength src) src) (drop (RootDirLength src) src)"

definition IsAbsoluteFileName :: "string \<Rightarrow> bool" where
  "IsAbsoluteFileName f = (char_at (dropWhile (\<lambda>c. c = CHR 0x22) f) 0 = CHR ''/'')"

definition IsFileOutsideDefaultRepository :: "string \<Rightarrow> bool" where
  "IsFileOutsideDefaultRepository f = (char_at f 0 = CHR ''.'' \<or> IsAbsoluteFileName f)"

section \<open>What CompressPath computes\<close>

text \<open>
  The nodes of a path, a stack machine for \<open>.\<close> and \<open>..\<close>, and the path of a stack of nodes.  At the top
  of the file system \<open>..\<close> stays there.
\<close>

function nodes_of :: "string \<Rightarrow> string list" where
  "nodes_of s =
     (case s of
        [] \<Rightarrow> []
      | c # cs \<Rightarrow> if IsFileSep c then nodes_of cs else take_node s # nodes_of (drop (length (take_node s)) s))"
  by pat_completeness auto
termination
  by (relation "measure length") (auto simp: take_node_def)

declare nodes_of.simps [simp del]

definition path_step :: "string list \<Rightarrow> string \<Rightarrow> string list" where
  "path_step st node = (if node = ''.'' then st else if node = ''..'' then butlast st else st @ [node])"

definition canonical :: "string list \<Rightarrow> string" where
  "canonical st = (if st = [] then ''/'' else concat (map (\<lambda>n. CHR ''/'' # n) st))"

text \<open>A node the normaliser keeps as it is: no separator, not too long, no trailing blank.\<close>

definition node_ok :: "string \<Rightarrow> bool" where
  "node_ok n \<longleftrightarrow> n \<noteq> [] \<and> CHR ''/'' \<notin> set n \<and> length n \<le> CF_MAXLINKSIZE + 1 \<and> \<not> c_isspace (last n)"

lemma canonical_snoc: "st \<noteq> [] \<Longrightarrow> canonical (st @ [n]) = canonical st @ CHR ''/'' # n"
  "canonical [n] = CHR ''/'' # n"
  by (simp_all add: canonical_def)

lemma last_sep_loop_node:
  "k \<le> length n \<Longrightarrow> CHR ''/'' \<notin> set n \<Longrightarrow>
   last_sep_loop (s @ CHR ''/'' # n) (length s + 1 + k) = Some (length s)"
proof (induction k)
  case (Suc k)
  then have "n ! k \<noteq> CHR ''/''" by (metis Suc_le_lessD nth_mem)
  with Suc show ?case by (simp add: nth_append IsFileSep_def)
qed (simp add: IsFileSep_def nth_append)

lemma LastFileSeparator_node: "CHR ''/'' \<notin> set n \<Longrightarrow> LastFileSeparator (s @ CHR ''/'' # n) = Some (length s)"
  using last_sep_loop_node [of "length n" n s] by (simp add: LastFileSeparator_def)

lemma ChopLastNode_canonical:
  assumes "list_all node_ok st"
  shows "ChopLastNode (canonical st) = (True, canonical (butlast st))"
proof (cases st rule: rev_cases)
  case Nil
  have "LastFileSeparator ''/'' = Some 0" using LastFileSeparator_node [of "[]" "[]"] by simp
  with Nil show ?thesis by (simp add: ChopLastNode_def canonical_def AddSlash_def)
next
  case (snoc st' n)
  with assms have n: "CHR ''/'' \<notin> set n" by (simp add: node_ok_def)
  show ?thesis
  proof (cases "st' = []")
    case True
    with snoc LastFileSeparator_node [OF n, of "[]"] show ?thesis
      by (simp add: ChopLastNode_def canonical_def AddSlash_def)
  next
    case False
    then have "canonical st' \<noteq> []" by (simp add: canonical_def neq_Nil_conv) auto
    with snoc False LastFileSeparator_node [OF n, of "canonical st'"] show ?thesis
      by (simp add: ChopLastNode_def canonical_snoc)
  qed
qed

lemma canonical_slash: "CHR ''/'' \<in> set (canonical st)" "canonical st \<noteq> []"
  by (auto simp: canonical_def neq_Nil_conv)

lemma canonical_last_char:
  assumes "list_all node_ok st"
  shows "\<not> c_isspace (last (canonical st))" "last (canonical st) = CHR ''/'' \<longleftrightarrow> st = []"
proof -
  have "last (canonical st) = (if st = [] then CHR ''/'' else last (last st))"
  proof (cases st rule: rev_cases)
    case (snoc st' n)
    with assms have "n \<noteq> []" by (simp add: node_ok_def)
    with snoc show ?thesis by (cases "st' = []") (simp_all add: canonical_snoc)
  qed (simp add: canonical_def)
  moreover have "st \<noteq> [] \<Longrightarrow> node_ok (last st)" using assms by (simp add: list_all_iff)
  ultimately show "\<not> c_isspace (last (canonical st))" "last (canonical st) = CHR ''/'' \<longleftrightarrow> st = []"
    by (auto simp: node_ok_def c_isspace_def) (metis last_in_set)+
qed

lemma AddSlash_canonical:
  "list_all node_ok st \<Longrightarrow> AddSlash (canonical st) = (if st = [] then ''/'' else canonical st @ ''/'')"
  using canonical_slash [of st] canonical_last_char [of st]
  by (auto simp: AddSlash_def IsFileSep_def Let_def) (simp_all add: canonical_def)

lemma Chop_no_blank: "s \<noteq> [] \<Longrightarrow> \<not> c_isspace (last s) \<Longrightarrow> Chop s = s"
  by (cases s rule: rev_cases) (simp_all add: Chop_def)

lemma JoinPath_canonical:
  assumes "list_all node_ok st" and "length (canonical (st @ [n])) \<le> CF_BUFSIZE - CF_BUFFERMARGIN"
  shows "JoinPath (AddSlash (canonical st)) n = (Some (canonical (st @ [n])), canonical (st @ [n]))"
proof -
  define p where "p = (if st = [] then ''/'' else canonical st @ ''/'')"
  have p: "Chop p = p" by (rule Chop_no_blank) (simp_all add: p_def c_isspace_def)
  have q: "AddSlash p = p" by (simp add: p_def AddSlash_def IsFileSep_def Let_def)
  have n: "p @ n = canonical (st @ [n])" by (simp add: p_def canonical_snoc)
  then have "length p + length n = length (canonical (st @ [n]))" by (metis length_append)
  with assms(2) show ?thesis
    by (simp add: JoinPath_def AddSlash_canonical [OF assms(1), folded p_def] p q n)
qed

text \<open>How long a canonical path is, with a separator in front of the next node.\<close>

definition text_size :: "string list \<Rightarrow> nat" where
  "text_size st = sum_list (map (\<lambda>n. length n + 1) st)"

lemma length_canonical: "length (canonical st) = max 1 (text_size st)"
  by (cases st) (simp_all add: canonical_def text_size_def length_concat comp_def)

lemma take_node_split: "s = take_node s @ drop (length (take_node s)) s"
  unfolding take_node_def by (metis append_eq_conv_conj takeWhile_dropWhile_id)

lemma text_size_step: "text_size (path_step st n) \<le> text_size st + length n + 1"
proof (cases "n = ''.'' \<or> n \<noteq> ''..''")
  case True
  then show ?thesis by (auto simp: path_step_def text_size_def)
next
  case False
  then show ?thesis by (cases st rule: rev_cases) (auto simp: path_step_def text_size_def)
qed

definition at_sep :: "string \<Rightarrow> bool" where
  "at_sep s \<longleftrightarrow> s = [] \<or> IsFileSep (hd s)"

lemma rest_at_sep: "at_sep (drop (length (take_node s)) s)"
proof -
  have "drop (length (take_node s)) s = dropWhile (\<lambda>c. \<not> IsFileSep c) s"
    unfolding take_node_def by (metis append_eq_conv_conj takeWhile_dropWhile_id)
  then show ?thesis using hd_dropWhile [of "\<lambda>c. \<not> IsFileSep c" s] by (auto simp: at_sep_def)
qed

lemma compress_loop_spec:
  "list_all node_ok st \<Longrightarrow> list_all node_ok (nodes_of s) \<Longrightarrow>
   text_size st + length s + (if at_sep s then 0 else 1) \<le> CF_BUFSIZE - CF_BUFFERMARGIN \<Longrightarrow>
   compress_loop (canonical st) s = Some (canonical (foldl path_step st (nodes_of s)))"
proof (induction "length s" arbitrary: st s rule: less_induct)
  case less
  show ?case
  proof (cases s)
    case Nil
    then show ?thesis by (subst compress_loop.simps, subst nodes_of.simps) simp
  next
    case (Cons c cs)
    show ?thesis
    proof (cases "IsFileSep c")
      case True
      from True Cons have n: "nodes_of s = nodes_of cs" by (subst nodes_of.simps) simp
      from True Cons have l: "compress_loop (canonical st) s = compress_loop (canonical st) cs"
        by (subst compress_loop.simps) simp
      from less.prems Cons True have "text_size st + length cs + (if at_sep cs then 0 else 1) \<le> CF_BUFSIZE - CF_BUFFERMARGIN"
        by (simp add: at_sep_def)
      with less.hyps [of cs st] less.prems(1,2) n l Cons show ?thesis by simp
    next
      case False
      define n where "n = take_node s"
      define r where "r = drop (length n) s"
      from False Cons have ns: "nodes_of s = n # nodes_of r" by (subst nodes_of.simps) (simp add: n_def r_def)
      with less.prems(2) have n: "node_ok n" and r: "list_all node_ok (nodes_of r)" by simp_all
      from take_node_split [of s] have s: "s = n @ r" by (simp add: n_def r_def)
      with n have shorter: "length r < length s" by (simp add: node_ok_def)
      have sep: "at_sep r" unfolding r_def n_def by (rule rest_at_sep)
      from Cons False have "\<not> at_sep s" by (simp add: at_sep_def)
      with less.prems(3) s have size: "text_size st + length n + 1 + length r \<le> CF_BUFSIZE - CF_BUFFERMARGIN" by simp
      let ?st = "path_step st n"
      have st: "list_all node_ok ?st" using less.prems(1) n
        by (cases st rule: rev_cases) (auto simp: path_step_def)
      have "text_size ?st + length r + (if at_sep r then 0 else 1) \<le> CF_BUFSIZE - CF_BUFFERMARGIN"
        using size sep text_size_step [of st n] by simp
      note ih = less.hyps [OF shorter st r this]
      have "length (canonical (st @ [n])) \<le> CF_BUFSIZE - CF_BUFFERMARGIN"
        using size by (simp add: length_canonical text_size_def)
      note join = JoinPath_canonical [OF less.prems(1) this]
      have "compress_loop (canonical st) s =
          (if length n > CF_MAXLINKSIZE + 1 then None
           else if n = ''.'' then compress_loop (canonical st) r
           else if n = ''..'' then
             (case ChopLastNode (canonical st) of (ok, dest') \<Rightarrow> if \<not> ok then None else compress_loop dest' r)
           else (case JoinPath (AddSlash (canonical st)) n of (None, _) \<Rightarrow> None | (Some dest', _) \<Rightarrow> compress_loop dest' r))"
        unfolding n_def r_def Cons using False by (subst compress_loop.simps) (simp add: Let_def)
      also have "\<dots> = compress_loop (canonical ?st) r"
        using n join ChopLastNode_canonical [OF less.prems(1)] by (simp add: node_ok_def path_step_def)
      finally have "compress_loop (canonical st) s = compress_loop (canonical ?st) r" .
      with ih ns show ?thesis by simp
    qed
  qed
qed

lemma CompressPath_canonical:
  assumes "IsFileSep (char_at src 0)" and "length src \<le> CF_BUFSIZE - CF_BUFFERMARGIN" and "list_all node_ok (nodes_of src)"
  shows "CompressPath src = Some (canonical (foldl path_step [] (nodes_of src)))"
proof -
  from assms(1) obtain s where src: "src = CHR ''/'' # s" by (cases src) (auto simp: IsFileSep_def)
  then have n: "nodes_of src = nodes_of s" by (subst nodes_of.simps) (simp add: IsFileSep_def)
  have "compress_loop (canonical []) s = Some (canonical (foldl path_step [] (nodes_of s)))"
    using assms(2,3) src n by (intro compress_loop_spec) (auto simp: text_size_def)
  with src n show ?thesis by (simp add: CompressPath_def RootDirLength_def IsFileSep_def canonical_def)
qed

text \<open>The nodes of a canonical path are its stack.\<close>

lemma nodes_of_node: "node_ok n \<Longrightarrow> at_sep r \<Longrightarrow> nodes_of (CHR ''/'' # n @ r) = n # nodes_of r"
proof -
  assume n: "node_ok n" and r: "at_sep r"
  have "\<forall>c \<in> set n. \<not> IsFileSep c" using n by (auto simp: node_ok_def IsFileSep_def)
  then have "take_node (n @ r) = n @ takeWhile (\<lambda>c. \<not> IsFileSep c) r"
    unfolding take_node_def by (simp add: takeWhile_append2)
  with r have "take_node (n @ r) = n" by (cases r) (auto simp: at_sep_def)
  moreover from n obtain c cs where "n = c # cs" "\<not> IsFileSep c" by (cases n) (auto simp: node_ok_def IsFileSep_def)
  ultimately show ?thesis
    by (subst nodes_of.simps, simp add: IsFileSep_def) (subst nodes_of.simps, simp add: IsFileSep_def)
qed

lemma nodes_of_canonical: "list_all node_ok st \<Longrightarrow> nodes_of (canonical st) = st"
proof (induction st)
  case Nil
  have "nodes_of [] = []" by (subst nodes_of.simps) simp
  then show ?case by (subst nodes_of.simps) (simp add: canonical_def IsFileSep_def)
next
  case (Cons n st)
  have "nodes_of [] = []" by (subst nodes_of.simps) simp
  with Cons have "nodes_of (concat (map (\<lambda>n. CHR ''/'' # n) st)) = st"
    by (cases "st = []") (simp_all add: canonical_def)
  moreover have "at_sep (concat (map (\<lambda>n. CHR ''/'' # n) st))" by (cases st) (simp_all add: at_sep_def IsFileSep_def)
  ultimately show ?case using Cons.prems nodes_of_node [of n "concat (map (\<lambda>n. CHR ''/'' # n) st)"]
    by (simp add: canonical_def)
qed

lemma path_steps_plain:
  "list_all (\<lambda>n. n \<noteq> ''.'' \<and> n \<noteq> ''..'') ns \<Longrightarrow> foldl path_step st ns = st @ ns"
  by (induction ns arbitrary: st) (auto simp: path_step_def)

lemma path_steps_result:
  "list_all (\<lambda>n. node_ok n \<and> n \<noteq> ''.'' \<and> n \<noteq> ''..'') st \<Longrightarrow> list_all node_ok ns \<Longrightarrow>
   list_all (\<lambda>n. node_ok n \<and> n \<noteq> ''.'' \<and> n \<noteq> ''..'') (foldl path_step st ns)"
proof (induction ns arbitrary: st)
  case (Cons n ns)
  have "list_all (\<lambda>n. node_ok n \<and> n \<noteq> ''.'' \<and> n \<noteq> ''..'') (path_step st n)"
    using Cons.prems by (cases st rule: rev_cases) (auto simp: path_step_def)
  with Cons show ?case by simp
qed simp

lemma canonical_size: "list_all node_ok (nodes_of s) \<Longrightarrow> text_size (foldl path_step st (nodes_of s)) \<le> text_size st + text_size (nodes_of s)"
proof (induction "nodes_of s" arbitrary: st s)
  case (Cons n ns)
  have "text_size (foldl path_step st (n # ns)) \<le> text_size st + text_size (n # ns)" for ns n
  proof (induction ns arbitrary: st n)
    case Nil
    show ?case using text_size_step [of st n] by (simp add: text_size_def)
  next
    case (Cons m ns)
    from Cons [of "path_step st n" m] text_size_step [of st n] show ?case by (simp add: text_size_def)
  qed
  with Cons.hyps show ?case by metis
qed simp

lemma nodes_size: "text_size (nodes_of s) \<le> length s + (if at_sep s then 0 else 1)"
proof (induction s rule: nodes_of.induct)
  case (1 s)
  show ?case
  proof (cases s)
    case (Cons c cs)
    show ?thesis
    proof (cases "IsFileSep c")
      case True
      have "nodes_of s = nodes_of cs" using True Cons by (subst nodes_of.simps) simp
      with 1(1) [OF Cons True] Cons True show ?thesis by (simp add: at_sep_def split: if_splits)
    next
      case False
      let ?r = "drop (length (take_node s)) s"
      have "length s = length (take_node s) + length ?r" using take_node_split [of s] by (metis length_append)
      moreover have "nodes_of s = take_node s # nodes_of ?r" using False Cons by (subst nodes_of.simps) simp
      ultimately show ?thesis using 1(2) [OF Cons False] rest_at_sep [of s] False Cons
        by (simp add: text_size_def at_sep_def)
    qed
  qed (subst nodes_of.simps, simp add: text_size_def)
qed

lemma compress_again:
  assumes "IsFileSep (char_at src 0)" and "length src \<le> CF_BUFSIZE - CF_BUFFERMARGIN" and "list_all node_ok (nodes_of src)"
  shows "CompressPath (canonical (foldl path_step [] (nodes_of src))) = Some (canonical (foldl path_step [] (nodes_of src)))"
proof -
  let ?st = "foldl path_step [] (nodes_of src)"
  have plain: "list_all node_ok ?st" "list_all (\<lambda>n. n \<noteq> ''.'' \<and> n \<noteq> ''..'') ?st"
    using path_steps_result [of "[]" "nodes_of src"] assms(3) by (auto simp: list_all_iff)
  note nodes = nodes_of_canonical [OF plain(1)]
  have "at_sep src" using assms(1) by (cases src) (auto simp: at_sep_def)
  then have "text_size ?st \<le> length src"
    using canonical_size [OF assms(3), of "[]"] nodes_size [of src] by (simp add: text_size_def)
  then have "length (canonical ?st) \<le> CF_BUFSIZE - CF_BUFFERMARGIN"
    using assms(2) by (simp add: length_canonical CF_BUFSIZE_def CF_BUFFERMARGIN_def)
  moreover have "IsFileSep (char_at (canonical ?st) 0)"
    by (cases ?st) (simp_all add: canonical_def IsFileSep_def)
  ultimately have "CompressPath (canonical ?st) = Some (canonical (foldl path_step [] ?st))"
    using CompressPath_canonical [of "canonical ?st"] nodes plain(1) by simp
  then show ?thesis using path_steps_plain [OF plain(2), of "[]"] by simp
qed

lemma sample_path_nodes: "nodes_of ''/usr//./lib/../bin'' = [''usr'', ''.'', ''lib'', ''..'', ''bin'']"
  by (simp add: nodes_of.simps take_node_def IsFileSep_def)

section \<open>Properties of the path functions\<close>

text \<open>C40: Compressing an absolute path gives the canonical text of the stack that its nodes leave when \<open>.\<close> is skipped and
  \<open>..\<close> removes the node before it; nothing is truncated when every node fits the link size.\<close>

lemma CompressPath_resolves:
  assumes "IsFileSep (char_at src 0)" and "length src \<le> CF_BUFSIZE - CF_BUFFERMARGIN" and "list_all node_ok (nodes_of src)"
  shows "CompressPath src = Some (canonical (foldl path_step [] (nodes_of src)))"
  by (rule CompressPath_canonical [OF assms])

lemma CompressPath_resolves_witness:
  "CompressPath ''/usr//./lib/../bin'' = Some (canonical (foldl path_step [] (nodes_of ''/usr//./lib/../bin'')))"
  by (rule CompressPath_resolves) (simp_all add: sample_path_nodes IsFileSep_def CF_BUFSIZE_def CF_BUFFERMARGIN_def node_ok_def
      CF_MAXLINKSIZE_def c_isspace_def)

text \<open>Compressing is idempotent: the compressed path has no node to resolve and compresses to itself.\<close>

lemma CompressPath_idempotent:
  assumes "IsFileSep (char_at src 0)" and "length src \<le> CF_BUFSIZE - CF_BUFFERMARGIN" and "list_all node_ok (nodes_of src)"
  shows "\<exists>dest. CompressPath src = Some dest \<and> CompressPath dest = Some dest"
  using CompressPath_canonical [OF assms] compress_again [OF assms] by blast

lemma CompressPath_idempotent_witness:
  "\<exists>dest. CompressPath ''/usr//./lib/../bin'' = Some dest \<and> CompressPath dest = Some dest"
  by (rule CompressPath_idempotent) (simp_all add: sample_path_nodes IsFileSep_def CF_BUFSIZE_def CF_BUFFERMARGIN_def node_ok_def
      CF_MAXLINKSIZE_def c_isspace_def)

end
