(* ===== verification/CF_Sort.thy ===== *)
theory CF_Sort
  imports CF_Prelude
begin

text \<open>
  \<open>src/sort.c\<close>: the bottom-up merge sort of linked lists, for the \<open>Item\<close> and \<open>Rlist\<close> lists.  A pointer
  into a list is the list of the elements from it on.  A pass reads an element's \<open>next\<close> before it
  relinks the element, so the pass is a function of the list.
\<close>

section \<open>Sort\<close>

text \<open>Step \<open>insize\<close> places along: the rest of the list and the number of places.\<close>

fun step_along :: "nat \<Rightarrow> 'a list \<Rightarrow> nat \<Rightarrow> 'a list \<times> nat" where
  "step_along 0 q psize = (q, psize)"
| "step_along (Suc i) q psize = (if tl q = [] then (tl q, psize + 1) else step_along i (tl q) (psize + 1))"

text \<open>
  The merge of \<open>psize\<close> elements of \<open>p\<close> and at most \<open>qsize\<close> of \<open>q\<close>: the elements appended to the result, in
  order, and the \<open>q\<close> that is left.
\<close>

function merge_loop :: "('a \<Rightarrow> 'a \<Rightarrow> bool) \<Rightarrow> 'a list \<Rightarrow> 'a list \<Rightarrow> nat \<Rightarrow> nat \<Rightarrow> 'a list \<times> 'a list" where
  "merge_loop lt p q psize qsize =
     (if psize > 0 \<or> (qsize > 0 \<and> q \<noteq> []) then
        if psize = 0 then
          (case merge_loop lt p (tl q) psize (qsize - 1) of (l, r) \<Rightarrow> (hd q # l, r))
        else if qsize = 0 \<or> q = [] then
          (case merge_loop lt (tl p) q (psize - 1) qsize of (l, r) \<Rightarrow> (hd p # l, r))
        else if lt (hd p) (hd q) then
          (case merge_loop lt (tl p) q (psize - 1) qsize of (l, r) \<Rightarrow> (hd p # l, r))
        else
          (case merge_loop lt p (tl q) psize (qsize - 1) of (l, r) \<Rightarrow> (hd q # l, r))
      else ([], q))"
  by pat_completeness auto
termination
  by (relation "measure (\<lambda>(lt, p, q, psize, qsize). psize + qsize)") auto

declare merge_loop.simps [simp del]

lemma step_along_eq: "0 < n \<Longrightarrow> q \<noteq> [] \<Longrightarrow> step_along n q m = (drop n q, m + min n (length q))"
proof (induction n arbitrary: q m)
  case (Suc n)
  then obtain c q' where q: "q = c # q'" by (cases q) auto
  show ?case
  proof (cases "q' = [] \<or> n = 0")
    case True
    with q show ?thesis by auto
  next
    case False
    with Suc.IH [of q' "m + 1"] q show ?thesis by simp
  qed
qed simp

text \<open>The merge of two lists the loop computes.\<close>

fun merge_runs :: "('a \<Rightarrow> 'a \<Rightarrow> bool) \<Rightarrow> 'a list \<Rightarrow> 'a list \<Rightarrow> 'a list" where
  "merge_runs lt [] ys = ys"
| "merge_runs lt xs [] = xs"
| "merge_runs lt (x # xs) (y # ys) =
     (if lt x y then x # merge_runs lt xs (y # ys) else y # merge_runs lt (x # xs) ys)"

lemma merge_runs_Nil2 [simp]: "merge_runs lt xs [] = xs"
  by (cases xs) simp_all

lemma merge_loop_eq:
  "psize \<le> length p \<Longrightarrow>
   merge_loop lt p q psize qsize = (merge_runs lt (take psize p) (take qsize q), drop qsize q)"
proof (induction lt p q psize qsize rule: merge_loop.induct)
  case (1 lt p q psize qsize)
  show ?case
  proof (cases "psize = 0")
    case True
    show ?thesis
    proof (cases "qsize = 0 \<or> q = []")
      case True
      with \<open>psize = 0\<close> show ?thesis by (subst merge_loop.simps) auto
    next
      case False
      then obtain y ys n where "q = y # ys" "qsize = Suc n" by (cases q; cases qsize) auto
      with 1 \<open>psize = 0\<close> show ?thesis by (subst merge_loop.simps) simp
    qed
  next
    case False
    with "1.prems" obtain x xs m where p: "p = x # xs" "psize = Suc m" "m \<le> length xs" by (cases p; cases psize) auto
    show ?thesis
    proof (cases "qsize = 0 \<or> q = []")
      case True
      then have "take qsize q = []" by auto
      with 1 p True show ?thesis by (subst merge_loop.simps) auto
    next
      case False
      then obtain y ys n where "q = y # ys" "qsize = Suc n" by (cases q; cases qsize) auto
      with 1 p show ?thesis by (subst merge_loop.simps) simp
    qed
  qed
qed

text \<open>One pass with \<open>insize = 2 ^ k\<close>: the merged list and \<open>nmerges\<close>.\<close>

lemma merge_loop_rest:
  assumes "p \<noteq> []" and "0 < n"
  shows "length (snd (merge_loop lt p (fst (step_along n p 0)) (snd (step_along n p 0)) n)) < length p"
  using assms by (simp add: step_along_eq merge_loop_eq)

function pass_loop :: "('a \<Rightarrow> 'a \<Rightarrow> bool) \<Rightarrow> nat \<Rightarrow> 'a list \<Rightarrow> 'a list \<times> nat" where
  "pass_loop lt k p =
     (if p = [] then ([], 0)
      else let insize = 2 ^ k;
               (q, psize) = step_along insize p 0;
               (l, r) = merge_loop lt p q psize insize;
               (ls, nmerges) = pass_loop lt k r
           in (l @ ls, nmerges + 1))"
  by pat_completeness auto
termination
proof (relation "measure (\<lambda>(lt, k, p). length p)")
  fix lt :: "'a \<Rightarrow> 'a \<Rightarrow> bool" and k p insize x q psize y l r
  assume "p \<noteq> []" "insize = (2 :: nat) ^ k" "x = step_along insize p 0" "(q, psize) = x"
    "y = merge_loop lt p q psize insize" "(l, r) = y"
  with merge_loop_rest [of p insize lt] show "((lt, k, r), lt, k, p) \<in> measure (\<lambda>(lt, k, p). length p)"
    by (metis (no_types, lifting) case_prod_conv fst_conv in_measure snd_conv zero_less_numeral zero_less_power)
qed simp

declare pass_loop.simps [simp del]

lemma pass_loop_eq:
  "pass_loop lt k p =
     (if p = [] then ([], 0)
      else let n = 2 ^ k; (ls, m) = pass_loop lt k (drop (2 * n) p) in
        (merge_runs lt (take n p) (take n (drop n p)) @ ls, m + 1))"
  by (subst pass_loop.simps)
     (auto simp: Let_def step_along_eq merge_loop_eq min_def drop_drop mult_2 split: prod.split)

lemma mset_merge_runs: "mset (merge_runs lt xs ys) = mset xs + mset ys"
  by (induction lt xs ys rule: merge_runs.induct) auto

lemma length_merge_runs: "length (merge_runs lt xs ys) = length xs + length ys"
  by (metis mset_merge_runs size_mset size_union)

lemma pass_loop_length: "length (fst (pass_loop lt k p)) = length p"
proof (induction lt k p rule: pass_loop.induct)
  case (1 lt k p)
  show ?case
  proof (cases "p = []")
    case False
    let ?n = "2 ^ k :: nat"
    have "length (fst (pass_loop lt k (drop (2 * ?n) p))) = length (drop (2 * ?n) p)"
      using "1.IH" [OF False refl refl _ refl, of _ _ _ "drop (2 * ?n) p"] False
      by (auto simp: step_along_eq merge_loop_eq mult_2 min_def drop_drop)
    with False show ?thesis
      by (subst pass_loop_eq) (auto simp: Let_def length_merge_runs split: prod.split)
  qed (simp add: pass_loop_eq)
qed

lemma pass_loop_one: "length p \<le> 2 * 2 ^ k \<Longrightarrow> snd (pass_loop lt k p) \<le> 1"
  by (subst pass_loop_eq, subst pass_loop_eq) (auto simp: Let_def split: prod.split)

lemma pass_loop_many: "2 * 2 ^ k < length p \<Longrightarrow> 2 \<le> snd (pass_loop lt k p)"
  by (subst pass_loop_eq, subst pass_loop_eq) (auto simp: Let_def split: prod.split)

lemma sort_loop_decreases:
  assumes p: "pass_loop lt k list = (list', nmerges)" and n: "\<not> nmerges \<le> Suc 0"
  shows "length list' - 2 * 2 ^ k < length list - 2 ^ k"
proof -
  from p pass_loop_one [of list k lt] n have "2 * 2 ^ k < length list" by (cases "length list \<le> 2 * 2 ^ k") auto
  with p pass_loop_length [of lt k list] show ?thesis by (simp add: diff_less_mono2)
qed

function sort_loop :: "('a \<Rightarrow> 'a \<Rightarrow> bool) \<Rightarrow> nat \<Rightarrow> 'a list \<Rightarrow> 'a list" where
  "sort_loop lt k list =
     (case pass_loop lt k list of (list', nmerges) \<Rightarrow>
        if nmerges \<le> 1 then list' else sort_loop lt (k + 1) list')"
  by pat_completeness auto
termination
  by (relation "measure (\<lambda>(lt, k, list). length list - 2 ^ k)") (auto dest!: sort_loop_decreases [OF sym])

declare sort_loop.simps [simp del]

text \<open>\<open>insize\<close> starts at 1 and doubles: it is \<open>2 ^ k\<close> in round \<open>k\<close>.\<close>

definition Sort :: "('a \<Rightarrow> 'a \<Rightarrow> bool) \<Rightarrow> 'a list \<Rightarrow> 'a list" where
  "Sort lt list = (if list = [] then [] else sort_loop lt 0 list)"

section \<open>Lists of items\<close>

record Item =
  name :: string
  classes :: "string option"
  counter :: int
  time :: int

definition ItemNameLess :: "Item \<Rightarrow> Item \<Rightarrow> bool" where
  "ItemNameLess lhs rhs \<longleftrightarrow> strcmp (name lhs) (name rhs) < 0"

definition ItemClassesLess :: "Item \<Rightarrow> Item \<Rightarrow> bool" where
  "ItemClassesLess lhs rhs \<longleftrightarrow> strcmp (the (classes lhs)) (the (classes rhs)) < 0"

definition ItemCounterMore :: "Item \<Rightarrow> Item \<Rightarrow> bool" where
  "ItemCounterMore lhs rhs \<longleftrightarrow> counter lhs > counter rhs"

definition ItemTimeMore :: "Item \<Rightarrow> Item \<Rightarrow> bool" where
  "ItemTimeMore lhs rhs \<longleftrightarrow> time lhs > time rhs"

definition SortItemListNames :: "Item list \<Rightarrow> Item list" where
  "SortItemListNames list = Sort ItemNameLess list"

definition SortItemListClasses :: "Item list \<Rightarrow> Item list" where
  "SortItemListClasses list = Sort ItemClassesLess list"

definition SortItemListCounters :: "Item list \<Rightarrow> Item list" where
  "SortItemListCounters list = Sort ItemCounterMore list"

definition SortItemListTimes :: "Item list \<Rightarrow> Item list" where
  "SortItemListTimes list = Sort ItemTimeMore list"

text \<open>Lists of scalars: \<open>SortRlist\<close> with the caller's comparison, \<open>AlphaSortRListNames\<close> with \<open>strcmp\<close>.\<close>

definition SortRlist :: "string list \<Rightarrow> (string \<Rightarrow> string \<Rightarrow> bool) \<Rightarrow> string list" where
  "SortRlist list CompareItems = Sort CompareItems list"

definition RlistItemLess :: "string \<Rightarrow> string \<Rightarrow> bool" where
  "RlistItemLess lhs rhs \<longleftrightarrow> strcmp lhs rhs < 0"

definition AlphaSortRListNames :: "string list \<Rightarrow> string list" where
  "AlphaSortRListNames list = Sort RlistItemLess list"

section \<open>Sorted, and equal elements reversed\<close>

text \<open>
  The contract of a comparison: a strict weak order.  \<open>Sort\<close> then returns the elements in order; two
  elements that compare equal come out in the opposite order.
\<close>

locale strict_weak_order =
  fixes lt :: "'a \<Rightarrow> 'a \<Rightarrow> bool"
  assumes asym: "lt x y \<Longrightarrow> \<not> lt y x"
    and neg_trans: "lt x z \<Longrightarrow> lt x y \<or> lt y z"
begin

definition equiv :: "'a \<Rightarrow> 'a \<Rightarrow> bool" where
  "equiv x y \<longleftrightarrow> \<not> lt x y \<and> \<not> lt y x"

definition in_order :: "'a list \<Rightarrow> bool" where
  "in_order xs \<longleftrightarrow> sorted_wrt (\<lambda>x y. \<not> lt y x) xs"

text \<open>\<open>out\<close> is \<open>seg\<close> sorted, each group of equal elements reversed.\<close>

definition reverse_sorted :: "'a list \<Rightarrow> 'a list \<Rightarrow> bool" where
  "reverse_sorted seg out \<longleftrightarrow> in_order out \<and> mset out = mset seg \<and> (\<forall>x. filter (equiv x) out = rev (filter (equiv x) seg))"

lemma merge_in_order': "lt' = lt \<Longrightarrow> in_order xs \<Longrightarrow> in_order ys \<Longrightarrow> in_order (merge_runs lt' xs ys)"
proof (induction lt' xs ys rule: merge_runs.induct)
  case (3 lt' x xs y ys)
  then have e: "lt' = lt" by simp
  show ?case
  proof (cases "lt x y")
    case True
    with 3 have ih: "in_order (merge_runs lt xs (y # ys))" by (simp add: in_order_def)
    have "\<not> lt z x" if "z \<in># mset (merge_runs lt xs (y # ys))" for z
    proof -
      from that have "z \<in> set xs \<or> z = y \<or> z \<in> set ys" by (auto simp: mset_merge_runs)
      with "3.prems" True show ?thesis using asym neg_trans unfolding in_order_def by (metis sorted_wrt.simps(2))
    qed
    with ih True show ?thesis by (simp add: in_order_def e)
  next
    case False
    with 3 have ih: "in_order (merge_runs lt (x # xs) ys)" by (simp add: in_order_def)
    have "\<not> lt z y" if "z \<in># mset (merge_runs lt (x # xs) ys)" for z
    proof -
      from that have "z \<in> set xs \<or> z = x \<or> z \<in> set ys" by (auto simp: mset_merge_runs)
      with "3.prems" False show ?thesis using neg_trans unfolding in_order_def by (metis sorted_wrt.simps(2))
    qed
    with ih False show ?thesis by (simp add: in_order_def e)
  qed
qed simp_all

lemmas merge_in_order = merge_in_order' [OF refl]

lemma merge_equal':
  "lt' = lt \<Longrightarrow> in_order xs \<Longrightarrow> in_order ys \<Longrightarrow> filter (equiv z) (merge_runs lt' xs ys) = filter (equiv z) ys @ filter (equiv z) xs"
proof (induction lt' xs ys rule: merge_runs.induct)
  case (3 lt' x xs y ys)
  then have e: "lt' = lt" by simp
  show ?case
  proof (cases "lt x y")
    case True
    with 3 have ih: "filter (equiv z) (merge_runs lt xs (y # ys)) = filter (equiv z) (y # ys) @ filter (equiv z) xs"
      by (simp add: in_order_def)
    have "filter (equiv z) (y # ys) = []" if "equiv z x"
    proof -
      have "\<not> equiv z u" if "u \<in> set (y # ys)" for u
      proof -
        from that "3.prems"(3) have "u = y \<or> \<not> lt u y" by (auto simp: in_order_def)
        with True \<open>equiv z x\<close> asym neg_trans show ?thesis unfolding equiv_def by metis
      qed
      then show ?thesis by (simp only: filter_empty_conv) blast
    qed
    with ih True show ?thesis by (auto simp: e)
  next
    case False
    with 3 have "filter (equiv z) (merge_runs lt (x # xs) ys) = filter (equiv z) ys @ filter (equiv z) (x # xs)"
      by (simp add: in_order_def)
    with False show ?thesis by (simp add: e)
  qed
qed simp_all

lemmas merge_equal = merge_equal' [OF refl]

lemma merge_reverse_sorted:
  "reverse_sorted s1 o1 \<Longrightarrow> reverse_sorted s2 o2 \<Longrightarrow> reverse_sorted (s1 @ s2) (merge_runs lt o1 o2)"
  by (simp add: reverse_sorted_def merge_in_order merge_equal mset_merge_runs)

text \<open>\<open>cur\<close> consists of runs of \<open>n\<close> elements (the last may be shorter), each a segment of \<open>orig\<close> sorted.\<close>

inductive runs :: "nat \<Rightarrow> 'a list \<Rightarrow> 'a list \<Rightarrow> bool" where
  runs_Nil: "runs n [] []"
| runs_last: "reverse_sorted seg out \<Longrightarrow> out \<noteq> [] \<Longrightarrow> length out \<le> n \<Longrightarrow> runs n seg out"
| runs_step: "reverse_sorted seg out \<Longrightarrow> length out = n \<Longrightarrow> runs n os cs \<Longrightarrow> runs n (seg @ os) (out @ cs)"

lemma reverse_sorted_Nil: "reverse_sorted [] []"
  by (simp add: reverse_sorted_def in_order_def)

lemma runs_split:
  assumes "runs n orig cur" and "0 < n"
  obtains s os where "orig = s @ os" "reverse_sorted s (take n cur)" "runs n os (drop n cur)"
  using assms(1)
proof cases
  case runs_Nil
  then show ?thesis using that [of "[]" "[]"] reverse_sorted_Nil by (simp add: runs.runs_Nil)
next
  case (runs_last)
  then show ?thesis using that [of orig "[]"] by (simp add: runs.runs_Nil)
next
  case (runs_step seg out os cs)
  then show ?thesis using that [of seg os] by simp
qed

lemma pass_runs: "runs (2 ^ k) orig cur \<Longrightarrow> runs (2 * 2 ^ k) orig (fst (pass_loop lt k cur))"
proof (induction "length cur" arbitrary: orig cur rule: less_induct)
  case less
  show ?case
  proof (cases "cur = []")
    case True
    with less.prems have "orig = []" by cases (auto simp: reverse_sorted_def)
    with True show ?thesis by (subst pass_loop_eq) (simp add: runs_Nil)
  next
    case False
    let ?n = "2 ^ k :: nat"
    have n: "0 < ?n" by simp
    from runs_split [OF less.prems n] obtain s1 os1 where 1: "orig = s1 @ os1" "reverse_sorted s1 (take ?n cur)"
      "runs ?n os1 (drop ?n cur)" .
    from runs_split [OF 1(3) n] obtain s2 os where 2: "os1 = s2 @ os" "reverse_sorted s2 (take ?n (drop ?n cur))"
      "runs ?n os (drop ?n (drop ?n cur))" .
    from 2(3) have r: "runs ?n os (drop (2 * ?n) cur)" by (simp add: drop_drop mult_2)
    let ?m = "merge_runs lt (take ?n cur) (take ?n (drop ?n cur))"
    let ?rest = "fst (pass_loop lt k (drop (2 * ?n) cur))"
    have m: "reverse_sorted (s1 @ s2) ?m" by (rule merge_reverse_sorted [OF 1(2) 2(2)])
    have out: "fst (pass_loop lt k cur) = ?m @ ?rest"
      using False by (subst pass_loop_eq) (simp add: Let_def split: prod.split)
    have ih: "runs (2 * ?n) os ?rest" using less.hyps [OF _ r] False by simp
    show ?thesis
    proof (cases "length cur \<le> 2 * ?n")
      case True
      then have "?rest = []" by (simp add: pass_loop_eq)
      moreover have "os = []" using r True by cases (auto simp: reverse_sorted_def)
      ultimately show ?thesis using out m 1(1) 2(1) True False
        by (auto intro!: runs_last simp: length_merge_runs min_def)
          (metis length_0_conv length_merge_runs length_take list.size(3) add_is_0 min_def n not_less_zero)
    next
      case False
      then have "length ?m = 2 * ?n" by (simp add: length_merge_runs)
      from runs_step [OF m this ih] out 1(1) 2(1) show ?thesis by simp
    qed
  qed
qed

lemma runs_single:
  assumes "runs n orig cur" and "length cur \<le> n" and "0 < n"
  shows "reverse_sorted orig cur"
  using assms(1)
proof cases
  case (runs_step seg out os cs)
  with assms(2) have "cs = []" by simp
  with runs_step have "runs n os []" by simp
  then have "os = []" using \<open>0 < n\<close> by cases (auto simp: reverse_sorted_def)
  with runs_step \<open>cs = []\<close> show ?thesis by simp
qed (auto simp: reverse_sorted_Nil)

lemma sort_loop_spec: "lt' = lt \<Longrightarrow> runs (2 ^ k) orig cur \<Longrightarrow> reverse_sorted orig (sort_loop lt' k cur)"
proof (induction lt' k cur rule: sort_loop.induct)
  case (1 lt' k cur)
  obtain out m where p: "pass_loop lt' k cur = (out, m)" by force
  from pass_runs [OF "1.prems"(2)] p "1.prems"(1) have r: "runs (2 ^ (k + 1)) orig out" by simp
  show ?case
  proof (cases "m \<le> 1")
    case True
    have "length cur \<le> 2 * 2 ^ k" using pass_loop_many [of k cur lt'] p True by (cases "2 * 2 ^ k < length cur") auto
    with pass_loop_length [of lt' k cur] p have "length out \<le> 2 ^ (k + 1)" by simp
    from runs_single [OF r this zero_less_power [OF zero_less_numeral]] p True show ?thesis by (subst sort_loop.simps) simp
  next
    case False
    from "1.IH" [OF p [symmetric] False "1.prems"(1) r] p False show ?thesis by (subst sort_loop.simps) simp
  qed
qed

lemma runs_start: "runs 1 xs xs"
proof (induction xs)
  case (Cons x xs)
  have "reverse_sorted [x] [x]" by (simp add: reverse_sorted_def in_order_def)
  from runs_step [OF this _ Cons] show ?case by simp
qed (rule runs_Nil)

theorem Sort_reverse_sorted: "reverse_sorted xs (Sort lt xs)"
  using sort_loop_spec [OF refl, of 0 xs xs] runs_start [of xs] by (simp add: Sort_def reverse_sorted_Nil)

end

lemma strcmp_neg_trans: "strcmp x z < 0 \<Longrightarrow> strcmp x y < 0 \<or> strcmp y z < 0"
  using strcmp_less_trans [of y x z] strcmp_antisym [of y x] strcmp_eq_0 [of x y] by (cases "x = y") (auto simp: not_less order_le_less)

lemma strcmp_less_order: "strict_weak_order (\<lambda>x y. strcmp (f x) (f y) < 0)"
proof
  show "\<not> strcmp (f y) (f x) < 0" if "strcmp (f x) (f y) < 0" for x y
    using that strcmp_antisym [of "f x" "f y"] by simp
qed (rule strcmp_neg_trans)

interpretation item_names: strict_weak_order ItemNameLess
  unfolding ItemNameLess_def [abs_def] by (rule strcmp_less_order)

interpretation item_classes: strict_weak_order ItemClassesLess
  unfolding ItemClassesLess_def [abs_def] by (rule strcmp_less_order [of "\<lambda>x. the (classes x)"])

interpretation item_counters: strict_weak_order ItemCounterMore
  by unfold_locales (auto simp: ItemCounterMore_def)

interpretation item_times: strict_weak_order ItemTimeMore
  by unfold_locales (auto simp: ItemTimeMore_def)

interpretation rlist_names: strict_weak_order RlistItemLess
  unfolding RlistItemLess_def [abs_def] by (rule strcmp_less_order [of "\<lambda>x. x"])

section \<open>Properties of the sort\<close>

text \<open>Sorting items by name returns a permutation of the list in ascending order of the names; items of the same name
  come out in the opposite order, so the sort is not stable.\<close>

lemma SortItemListNames_sorts:
  "sorted_wrt (\<lambda>x y. strcmp (name x) (name y) \<le> 0) (SortItemListNames list) \<and> mset (SortItemListNames list) = mset list \<and>
   filter (\<lambda>ip. name ip = n) (SortItemListNames list) = rev (filter (\<lambda>ip. name ip = n) list)"
proof -
  have e: "item_names.equiv \<lparr>name = n, classes = None, counter = 0, time = 0\<rparr> = (\<lambda>ip. name ip = n)"
  proof
    show "item_names.equiv \<lparr>name = n, classes = None, counter = 0, time = 0\<rparr> ip = (name ip = n)" for ip
      using strcmp_antisym [of n "name ip"] strcmp_antisym [of "name ip" n] strcmp_eq_0 [of n "name ip"]
      by (auto simp: item_names.equiv_def ItemNameLess_def)
  qed
  have o: "item_names.in_order xs \<longleftrightarrow> sorted_wrt (\<lambda>x y. strcmp (name x) (name y) \<le> 0) xs" for xs
    by (simp add: item_names.in_order_def ItemNameLess_def strcmp_antisym not_less)
  from item_names.Sort_reverse_sorted [of list] show ?thesis
    by (simp add: SortItemListNames_def item_names.reverse_sorted_def o flip: e)
qed

text \<open>Sorting a list of scalars with a comparison that is a strict weak order returns a permutation in which no element
  is less than one before it.\<close>

lemma SortRlist_sorts:
  assumes "strict_weak_order lt"
  shows "sorted_wrt (\<lambda>x y. \<not> lt y x) (SortRlist list lt) \<and> mset (SortRlist list lt) = mset list"
  using strict_weak_order.Sort_reverse_sorted [OF assms, of list]
  by (simp add: SortRlist_def strict_weak_order.reverse_sorted_def [OF assms] strict_weak_order.in_order_def [OF assms])

lemma SortRlist_sorts_witness:
  "sorted_wrt (\<lambda>x y. \<not> RlistItemLess y x) (SortRlist [''b'', ''c'', ''a''] RlistItemLess) \<and>
   mset (SortRlist [''b'', ''c'', ''a''] RlistItemLess) = mset [''b'', ''c'', ''a'']"
  by (rule SortRlist_sorts [OF rlist_names.strict_weak_order_axioms])

end
