(* ===== verification/CF_Items.thy ===== *)
theory CF_Items
  imports CF_Sort
begin

text \<open>
  \<open>src/item_lib.c\<close> and \<open>src/alphalist.c\<close>: linked lists of items and the index of such lists by first
  character.  A list is a value; a pointer into it is a position.  \<open>full_match\<close> stands for
  \<open>FullTextMatch\<close> (\<open>src/matching.c\<close>, over the PCRE library) and \<open>match_policy\<close> for \<open>MatchPolicy\<close>.
\<close>

section \<open>Looking up\<close>

text \<open>A name that is NULL or empty.\<close>

definition no_item :: "string option \<Rightarrow> bool" where
  "no_item item \<longleftrightarrow> item = None \<or> item = Some []"

fun ItemListSize :: "Item list \<Rightarrow> nat" where
  "ItemListSize [] = 0"
| "ItemListSize (ip # l) = length (name ip) + ItemListSize l"

fun ByteSizeList :: "Item list \<Rightarrow> nat" where
  "ByteSizeList [] = 0"
| "ByteSizeList (ip # l) = length (name ip) + ByteSizeList l"

text \<open>The search loops: the position of the first item that satisfies a test.\<close>

fun position :: "('a \<Rightarrow> bool) \<Rightarrow> 'a list \<Rightarrow> nat option" where
  "position P [] = None"
| "position P (x # xs) = (if P x then Some 0 else map_option Suc (position P xs))"

definition ReturnItemIn :: "Item list \<Rightarrow> string option \<Rightarrow> nat option" where
  "ReturnItemIn list item =
     (if no_item item then None else position (\<lambda>ptr. strcmp (name ptr) (the item) = 0) list)"

definition ReturnItemInClass :: "Item list \<Rightarrow> string option \<Rightarrow> string \<Rightarrow> nat option" where
  "ReturnItemInClass list item cls =
     (if no_item item then None
      else position (\<lambda>ptr. strcmp (name ptr) (the item) = 0 \<and> strcmp (the (classes ptr)) cls = 0) list)"

fun return_at_loop :: "Item list \<Rightarrow> int \<Rightarrow> int \<Rightarrow> Item option" where
  "return_at_loop [] i idx = None"
| "return_at_loop (ptr # l) i idx = (if i = idx then Some ptr else return_at_loop l (i + 1) idx)"

definition ReturnItemAtIndex :: "Item list \<Rightarrow> int \<Rightarrow> Item option" where
  "ReturnItemAtIndex list idx = return_at_loop list 0 idx"

fun item_index_loop :: "Item list \<Rightarrow> string \<Rightarrow> int \<Rightarrow> int" where
  "item_index_loop [] item i = -1"
| "item_index_loop (ptr # l) item i = (if strcmp (name ptr) item = 0 then i else item_index_loop l item (i + 1))"

definition GetItemIndex :: "Item list \<Rightarrow> string option \<Rightarrow> int" where
  "GetItemIndex list item = (if no_item item then -1 else item_index_loop list (the item) 0)"

fun in_loop :: "Item list \<Rightarrow> string \<Rightarrow> bool" where
  "in_loop [] item = False"
| "in_loop (ptr # l) item = (if strcmp (name ptr) item = 0 then True else in_loop l item)"

definition IsItemIn :: "Item list \<Rightarrow> string option \<Rightarrow> bool" where
  "IsItemIn list item = (if no_item item then True else in_loop list (the item))"

definition EndOfList :: "Item list \<Rightarrow> nat option" where
  "EndOfList start = (if start = [] then None else Some (length start - 1))"

fun ListLen :: "Item list \<Rightarrow> nat" where
  "ListLen [] = 0"
| "ListLen (ip # l) = ListLen l + 1"

text \<open>
  The items from \<open>begin_ptr\<close> on, up to \<open>end_ptr\<close> if it is met: a NULL \<open>end_ptr\<close>, or one before
  \<open>begin_ptr\<close>, leaves all of them.
\<close>

definition region :: "'a list \<Rightarrow> nat \<Rightarrow> nat option \<Rightarrow> 'a list" where
  "region list begin_ptr end_ptr =
     (case end_ptr of
        None \<Rightarrow> drop begin_ptr list
      | Some e \<Rightarrow> if begin_ptr \<le> e then drop begin_ptr (take e list) else drop begin_ptr list)"

definition IsItemInRegion :: "(string \<Rightarrow> string \<Rightarrow> bool) \<Rightarrow> string \<Rightarrow> Item list \<Rightarrow> nat \<Rightarrow> nat option \<Rightarrow> bool" where
  "IsItemInRegion match_policy item list begin_ptr end_ptr =
     (\<exists>ip \<in> set (region list begin_ptr end_ptr). match_policy item (name ip))"

section \<open>Adding\<close>

definition new_item :: "string \<Rightarrow> string option \<Rightarrow> Item" where
  "new_item itemstring cls = \<lparr>name = itemstring, classes = cls, counter = 0, time = 0\<rparr>"

definition PrependItem :: "Item list \<Rightarrow> string \<Rightarrow> string option \<Rightarrow> Item list" where
  "PrependItem liststart itemstring cls = new_item itemstring cls # liststart"

definition PrependFullItem :: "Item list \<Rightarrow> string \<Rightarrow> string option \<Rightarrow> int \<Rightarrow> int \<Rightarrow> Item list" where
  "PrependFullItem liststart itemstring cls cnt t =
     \<lparr>name = itemstring, classes = cls, counter = cnt, time = t\<rparr> # liststart"

definition AppendItem :: "Item list \<Rightarrow> string \<Rightarrow> string option \<Rightarrow> Item list" where
  "AppendItem liststart itemstring cls = liststart @ [new_item itemstring cls]"

definition PrependItemList :: "Item list \<Rightarrow> string \<Rightarrow> Item list" where
  "PrependItemList liststart itemstring = new_item itemstring None # liststart"

text \<open>The list and the position of the item.\<close>

definition IdempPrependItem :: "Item list \<Rightarrow> string \<Rightarrow> string option \<Rightarrow> Item list \<times> nat" where
  "IdempPrependItem liststart itemstring cls =
     (case ReturnItemIn liststart (Some itemstring) of
        Some i \<Rightarrow> (liststart, i)
      | None \<Rightarrow> (PrependItem liststart itemstring cls, 0))"

definition IdempPrependItemClass :: "Item list \<Rightarrow> string \<Rightarrow> string \<Rightarrow> Item list \<times> nat" where
  "IdempPrependItemClass liststart itemstring cls =
     (case ReturnItemInClass liststart (Some itemstring) cls of
        Some i \<Rightarrow> (liststart, i)
      | None \<Rightarrow> (PrependItem liststart itemstring (Some cls), 0))"

definition IdempItemCount :: "Item list \<Rightarrow> string \<Rightarrow> string option \<Rightarrow> Item list" where
  "IdempItemCount liststart itemstring cls =
     (case ReturnItemIn liststart (Some itemstring) of
        Some i \<Rightarrow> liststart[i := (liststart ! i)\<lparr>counter := counter (liststart ! i) + 1\<rparr>]
      | None \<Rightarrow> PrependItem liststart itemstring cls)"

fun copy_list_loop :: "Item list \<Rightarrow> Item list \<Rightarrow> Item list" where
  "copy_list_loop dest [] = dest"
| "copy_list_loop dest (ip # l) = copy_list_loop (AppendItem dest (name ip) (classes ip)) l"

definition CopyList :: "Item list \<Rightarrow> Item list \<Rightarrow> Item list res" where
  "CopyList dest source = (if dest \<noteq> [] then Inl FatalErrorExit else Inr (copy_list_loop dest source))"

definition ConcatLists :: "Item list \<Rightarrow> Item list \<Rightarrow> Item list res" where
  "ConcatLists list1 list2 = (if list1 = [] then Inl FatalErrorExit else Inr (list1 @ list2))"

definition InsertAfter :: "Item list \<Rightarrow> nat option \<Rightarrow> string \<Rightarrow> Item list" where
  "InsertAfter filestart ptr s =
     (if filestart = [] then AppendItem filestart s None
      else case ptr of
          None \<Rightarrow> AppendItem filestart s None
        | Some i \<Rightarrow> take (i + 1) filestart @ [new_item s None] @ drop (i + 1) filestart)"

section \<open>Searching with regular expressions\<close>

text \<open>The match and the position before it; the previous position is undefined at the first item of the range.\<close>

fun next_match_loop :: "(string \<Rightarrow> string \<Rightarrow> bool) \<Rightarrow> string \<Rightarrow> Item list \<Rightarrow> nat \<Rightarrow> nat option \<Rightarrow> (nat \<times> nat option) option" where
  "next_match_loop full_match regexp [] i prev = None"
| "next_match_loop full_match regexp (ip # l) i prev =
     (if full_match regexp (name ip) then Some (i, prev) else next_match_loop full_match regexp l (i + 1) (Some i))"

definition SelectNextItemMatching :: "(string \<Rightarrow> string \<Rightarrow> bool) \<Rightarrow> string \<Rightarrow> Item list \<Rightarrow> nat \<Rightarrow> nat option \<Rightarrow> (nat \<times> nat option) option" where
  "SelectNextItemMatching full_match regexp list begin_ptr end_ptr =
     next_match_loop full_match regexp (region list begin_ptr end_ptr) begin_ptr None"

fun last_match_loop :: "(string \<Rightarrow> string \<Rightarrow> bool) \<Rightarrow> string \<Rightarrow> Item list \<Rightarrow> nat \<Rightarrow> nat option \<Rightarrow>
    (nat \<times> nat option) option \<Rightarrow> (nat \<times> nat option) option" where
  "last_match_loop full_match regexp [] i prev found = found"
| "last_match_loop full_match regexp (ip # l) i prev found =
     last_match_loop full_match regexp l (i + 1) (Some i)
       (if full_match regexp (name ip) then Some (i, prev) else found)"

definition SelectLastItemMatching :: "(string \<Rightarrow> string \<Rightarrow> bool) \<Rightarrow> string \<Rightarrow> Item list \<Rightarrow> nat \<Rightarrow> nat option \<Rightarrow> (nat \<times> nat option) option" where
  "SelectLastItemMatching full_match regexp list begin_ptr end_ptr =
     last_match_loop full_match regexp (region list begin_ptr end_ptr) begin_ptr None None"

text \<open>
  \<open>SelectItemMatching\<close>: when the match is the first item of the range, the previous item is looked up from
  the start of the list, and stays undefined only at position 0.
\<close>

definition SelectItemMatching :: "(string \<Rightarrow> string \<Rightarrow> bool) \<Rightarrow> Item list \<Rightarrow> string option \<Rightarrow> nat \<Rightarrow> nat option \<Rightarrow>
    string option \<Rightarrow> (nat \<times> nat option) option" where
  "SelectItemMatching full_match start regex begin_ptr end_ptr fl =
     (case regex of
        None \<Rightarrow> None
      | Some re \<Rightarrow>
          (case (if fl = Some ''first'' then SelectNextItemMatching full_match re start begin_ptr end_ptr
                 else SelectLastItemMatching full_match re start begin_ptr end_ptr) of
             None \<Rightarrow> None
           | Some (m, Some p) \<Rightarrow> Some (m, Some p)
           | Some (m, None) \<Rightarrow> Some (m, if m = 0 then None else Some (m - 1))))"

datatype cfeditorder = cfe_before | cfe_after

text \<open>The first item that is next to the location decides.\<close>

fun neighbour_loop :: "(string \<Rightarrow> string \<Rightarrow> bool) \<Rightarrow> Item list \<Rightarrow> nat \<Rightarrow> nat \<Rightarrow> string \<Rightarrow> cfeditorder \<Rightarrow> bool" where
  "neighbour_loop match_policy [] i location s pos = False"
| "neighbour_loop match_policy (ip # l) i location s pos =
     (if pos = cfe_before \<and> l \<noteq> [] \<and> i + 1 = location then match_policy s (name ip)
      else if pos = cfe_after \<and> i = location then l \<noteq> [] \<and> match_policy s (name (hd l))
      else neighbour_loop match_policy l (i + 1) location s pos)"

definition NeighbourItemMatches :: "(string \<Rightarrow> string \<Rightarrow> bool) \<Rightarrow> Item list \<Rightarrow> nat \<Rightarrow> string \<Rightarrow> cfeditorder \<Rightarrow> bool" where
  "NeighbourItemMatches match_policy file_start location s pos = neighbour_loop match_policy file_start 0 location s pos"

section \<open>Counters\<close>

definition IncrementItemListCounter :: "Item list \<Rightarrow> string option \<Rightarrow> Item list" where
  "IncrementItemListCounter list item =
     (case ReturnItemIn list item of
        None \<Rightarrow> list
      | Some i \<Rightarrow> list[i := (list ! i)\<lparr>counter := counter (list ! i) + 1\<rparr>])"

definition SetItemListCounter :: "Item list \<Rightarrow> string option \<Rightarrow> int \<Rightarrow> Item list" where
  "SetItemListCounter list item v =
     (case ReturnItemIn list item of None \<Rightarrow> list | Some i \<Rightarrow> list[i := (list ! i)\<lparr>counter := v\<rparr>])"

section \<open>Splitting and joining\<close>

text \<open>
  \<open>before\<close> is the buffer of \<open>CF_BUFSIZE\<close> bytes filled so far, \<open>prev\<close> the character before the current one.
  A write outside the buffer is \<open>OutOfBounds\<close>.
\<close>

fun split_loop :: "char \<Rightarrow> string \<Rightarrow> char option \<Rightarrow> string \<Rightarrow> Item list \<Rightarrow> Item list res" where
  "split_loop sep [] prev before l =
     (if length before < CF_BUFSIZE then Inr (AppendItem l before (Some [])) else Inl OutOfBounds)"
| "split_loop sep (c # cs) prev before l =
     (if length before < CF_BUFSIZE then
        if c = sep then
          if prev = Some CHR 0x5C then
            if before = [] then Inl OutOfBounds
            else split_loop sep cs (Some c) (butlast before @ [sep]) l
          else split_loop sep cs (Some c) [] (AppendItem l before None)
        else split_loop sep cs (Some c) (before @ [c]) l
      else Inl OutOfBounds)"

definition SplitString :: "string \<Rightarrow> char \<Rightarrow> Item list res" where
  "SplitString s sep = split_loop sep s None [] []"

text \<open>\<open>sscanf\<close> with \<open>%255[^sep]\<close>: at most 255 characters up to the separator.\<close>

definition scan_node :: "char \<Rightarrow> string \<Rightarrow> string" where
  "scan_node sep s = take 255 (takeWhile (\<lambda>c. c \<noteq> sep) s)"

function split_items_loop :: "char \<Rightarrow> string \<Rightarrow> Item list \<Rightarrow> Item list" where
  "split_items_loop sep s l =
     (case s of
        [] \<Rightarrow> l
      | c # cs \<Rightarrow>
          if scan_node sep s = [] then split_items_loop sep cs l
          else split_items_loop sep (drop (length (scan_node sep s)) s) (AppendItem l (scan_node sep s) None))"
  by pat_completeness auto
termination
  by (relation "measure (\<lambda>(sep, s, l). length s)") (auto simp: scan_node_def)

definition SplitStringAsItemList :: "string \<Rightarrow> char \<Rightarrow> Item list" where
  "SplitStringAsItemList s sep = split_items_loop sep s []"

fun ItemList2CSV :: "Item list \<Rightarrow> string" where
  "ItemList2CSV [] = []"
| "ItemList2CSV (ip # l) = name ip @ (if l \<noteq> [] then '','' else []) @ ItemList2CSV l"

section \<open>Deleting\<close>

datatype matchtypes =
    literalStart | literalComplete | literalSomewhere | regexComplete
  | NOTliteralStart | NOTliteralComplete | NOTliteralSomewhere | NOTregexComplete

definition item_matches :: "(string \<Rightarrow> string \<Rightarrow> bool) \<Rightarrow> string \<Rightarrow> matchtypes \<Rightarrow> Item \<Rightarrow> bool" where
  "item_matches full_match s type ip =
     (case type of
        NOTliteralStart \<Rightarrow> \<not> starts_with s (name ip)
      | literalStart \<Rightarrow> starts_with s (name ip)
      | NOTliteralComplete \<Rightarrow> strcmp (name ip) s \<noteq> 0
      | literalComplete \<Rightarrow> strcmp (name ip) s = 0
      | NOTliteralSomewhere \<Rightarrow> strstr (name ip) s = None
      | literalSomewhere \<Rightarrow> strstr (name ip) s \<noteq> None
      | regexComplete \<Rightarrow> full_match s (name ip)
      | NOTregexComplete \<Rightarrow> \<not> full_match s (name ip))"

fun delete_loop :: "(Item \<Rightarrow> bool) \<Rightarrow> Item list \<Rightarrow> bool \<times> Item list" where
  "delete_loop P [] = (False, [])"
| "delete_loop P (ip # l) = (if P ip then (True, l) else case delete_loop P l of (r, l') \<Rightarrow> (r, ip # l'))"

definition DeleteItemGeneral :: "(string \<Rightarrow> string \<Rightarrow> bool) \<Rightarrow> Item list \<Rightarrow> string \<Rightarrow> matchtypes \<Rightarrow> bool \<times> Item list" where
  "DeleteItemGeneral full_match list s type = delete_loop (item_matches full_match s type) list"

definition DeleteItemStarting :: "Item list \<Rightarrow> string \<Rightarrow> bool \<times> Item list" where
  "DeleteItemStarting list s = DeleteItemGeneral (\<lambda>_ _. False) list s literalStart"

definition DeleteItemNotStarting :: "Item list \<Rightarrow> string \<Rightarrow> bool \<times> Item list" where
  "DeleteItemNotStarting list s = DeleteItemGeneral (\<lambda>_ _. False) list s NOTliteralStart"

definition DeleteItemLiteral :: "Item list \<Rightarrow> string \<Rightarrow> bool \<times> Item list" where
  "DeleteItemLiteral list s = DeleteItemGeneral (\<lambda>_ _. False) list s literalComplete"

definition DeleteItemMatching :: "(string \<Rightarrow> string \<Rightarrow> bool) \<Rightarrow> Item list \<Rightarrow> string \<Rightarrow> bool \<times> Item list" where
  "DeleteItemMatching full_match list s = DeleteItemGeneral full_match list s regexComplete"

definition DeleteItemNotMatching :: "(string \<Rightarrow> string \<Rightarrow> bool) \<Rightarrow> Item list \<Rightarrow> string \<Rightarrow> bool \<times> Item list" where
  "DeleteItemNotMatching full_match list s = DeleteItemGeneral full_match list s NOTregexComplete"

definition DeleteItemContaining :: "Item list \<Rightarrow> string \<Rightarrow> bool \<times> Item list" where
  "DeleteItemContaining list s = DeleteItemGeneral (\<lambda>_ _. False) list s literalSomewhere"

definition DeleteItemNotContaining :: "Item list \<Rightarrow> string \<Rightarrow> bool \<times> Item list" where
  "DeleteItemNotContaining list s = DeleteItemGeneral (\<lambda>_ _. False) list s NOTliteralSomewhere"

text \<open>\<open>DeleteItem\<close> unlinks the item at a position.\<close>

definition DeleteItem :: "Item list \<Rightarrow> nat option \<Rightarrow> Item list" where
  "DeleteItem liststart item =
     (case item of None \<Rightarrow> liststart | Some i \<Rightarrow> take i liststart @ drop (i + 1) liststart)"

section \<open>alphalist.c\<close>

text \<open>
  An \<open>AlphaList\<close>: 256 lists, indexed by the first character of their items.  The index is
  \<open>(int) *string\<close>, negative for a character of 128 and above: an access outside the array.
\<close>

definition CF_ALPHABETSIZE :: nat where
  "CF_ALPHABETSIZE = 256"

type_synonym AlphaList = "nat \<Rightarrow> Item list"

definition InitAlphaList :: AlphaList where
  "InitAlphaList = (\<lambda>_. [])"

definition DeleteAlphaList :: "AlphaList \<Rightarrow> AlphaList" where
  "DeleteAlphaList al = InitAlphaList"

definition CopyAlphaListPointers :: "AlphaList \<Rightarrow> AlphaList" where
  "CopyAlphaListPointers al = al"

text \<open>\<open>DupAlphaListPointers\<close>: \<open>ap\<close> takes the lists of \<open>al\<close>, and \<open>al\<close> keeps copies of them.\<close>

definition DupAlphaListPointers :: "AlphaList \<Rightarrow> AlphaList \<times> AlphaList" where
  "DupAlphaListPointers al =
     (al, \<lambda>i. if i < CF_ALPHABETSIZE \<and> al i \<noteq> [] then copy_list_loop [] (al i) else al i)"

definition alpha_index :: "string \<Rightarrow> nat res" where
  "alpha_index s =
     (let i = signed_char (char_at s 0) in if i < 0 then Inl OutOfBounds else Inr (nat i))"

definition InAlphaList :: "AlphaList \<Rightarrow> string \<Rightarrow> bool res" where
  "InAlphaList al s = res_bind (alpha_index s) (\<lambda>i. Inr (IsItemIn (al i) (Some s)))"

definition MatchInAlphaList :: "(string \<Rightarrow> string \<Rightarrow> bool) \<Rightarrow> AlphaList \<Rightarrow> string \<Rightarrow> bool" where
  "MatchInAlphaList full_match al s =
     (if c_isalnum (char_at s 0) \<or> char_at s 0 = CHR ''_''
      then \<exists>ip \<in> set (al (of_char (char_at s 0))). full_match s (name ip)
      else \<exists>i \<in> set [0..<CF_ALPHABETSIZE]. \<exists>ip \<in> set (al i). full_match s (name ip))"

definition PrependAlphaList :: "AlphaList \<Rightarrow> string \<Rightarrow> AlphaList res" where
  "PrependAlphaList al s = res_bind (alpha_index s) (\<lambda>i. Inr (al(i := PrependItem (al i) s None)))"

definition IdempPrependAlphaList :: "AlphaList \<Rightarrow> string \<Rightarrow> AlphaList res" where
  "IdempPrependAlphaList al s =
     res_bind (InAlphaList al s) (\<lambda>b. if \<not> b then PrependAlphaList al s else Inr al)"

definition DeleteFromAlphaList :: "AlphaList \<Rightarrow> string \<Rightarrow> AlphaList res" where
  "DeleteFromAlphaList al s =
     res_bind (alpha_index s) (\<lambda>i. Inr (al(i := snd (DeleteItemLiteral (al i) s))))"

record AlphaListIterator =
  ali_list :: AlphaList
  ali_pos :: int
  ali_curitem :: "Item list"

definition AlphaListIteratorInit :: "AlphaList \<Rightarrow> AlphaListIterator" where
  "AlphaListIteratorInit al = \<lparr>ali_list = al, ali_pos = -1, ali_curitem = []\<rparr>"

text \<open>The end test is \<open>++pos == 256\<close>: a call after the one that returned NULL reads outside the array.\<close>

function AlphaListIteratorNext :: "AlphaListIterator \<Rightarrow> (Item option \<times> AlphaListIterator) res" where
  "AlphaListIteratorNext it =
     (case ali_curitem it of
        ip # rest \<Rightarrow> Inr (Some ip, it\<lparr>ali_curitem := rest\<rparr>)
      | [] \<Rightarrow>
          (let p = ali_pos it + 1 in
           if p = int CF_ALPHABETSIZE then Inr (None, it\<lparr>ali_pos := p\<rparr>)
           else if p < 0 \<or> p > int CF_ALPHABETSIZE then Inl OutOfBounds
           else AlphaListIteratorNext (it\<lparr>ali_pos := p, ali_curitem := ali_list it (nat p)\<rparr>)))"
  by pat_completeness auto
termination
  by (relation "measure (\<lambda>it. nat (int CF_ALPHABETSIZE - ali_pos it))") auto

declare AlphaListIteratorNext.simps [simp del]

section \<open>What the searches and deletions return\<close>

lemma position_Some: "position P xs = Some i \<longleftrightarrow> i < length xs \<and> P (xs ! i) \<and> (\<forall>j < i. \<not> P (xs ! j))"
proof (induction xs arbitrary: i)
  case (Cons x xs)
  show ?case
  proof (cases i)
    case 0
    then show ?thesis by auto
  next
    case (Suc i')
    with Cons.IH [of i'] show ?thesis by (auto simp: less_Suc_eq_0_disj)
  qed
qed simp

lemma position_None: "position P xs = None \<longleftrightarrow> (\<forall>x \<in> set xs. \<not> P x)"
  by (induction xs) auto

lemma in_loop_set: "in_loop l s \<longleftrightarrow> s \<in> name ` set l"
  by (induction l) auto

lemma IsItemIn_set: "IsItemIn l (Some s) \<longleftrightarrow> s = [] \<or> s \<in> name ` set l"
  by (simp add: IsItemIn_def no_item_def in_loop_set)

lemma copy_list_names: "map name (copy_list_loop d l) = map name d @ map name l"
  by (induction l arbitrary: d) (auto simp: AppendItem_def new_item_def)

lemma delete_loop_spec:
  "delete_loop P l = (case position P l of None \<Rightarrow> (False, l) | Some i \<Rightarrow> (True, take i l @ drop (i + 1) l))"
  by (induction l) (auto split: option.splits)

lemma DeleteItemLiteral_names: "map name (snd (DeleteItemLiteral l s)) = remove1 s (map name l)"
  unfolding DeleteItemLiteral_def DeleteItemGeneral_def
  by (induction l) (auto simp: item_matches_def split: prod.splits)

section \<open>A split list joined again\<close>

lemma split_loop_field:
  "sep \<notin> set f \<Longrightarrow> length before + length f < CF_BUFSIZE \<Longrightarrow>
   split_loop sep (f @ cs) prev before l =
     split_loop sep cs (if f = [] then prev else Some (last f)) (before @ f) l"
  by (induction f arbitrary: before prev) auto

definition field_ok :: "char \<Rightarrow> string \<Rightarrow> bool" where
  "field_ok sep f \<longleftrightarrow> sep \<notin> set f \<and> length f < CF_BUFSIZE \<and> (f \<noteq> [] \<longrightarrow> last f \<noteq> CHR 0x5C)"

lemma split_joined:
  "list_all (field_ok CHR '','') (map name l) \<Longrightarrow> l \<noteq> [] \<Longrightarrow> prev \<noteq> Some CHR 0x5C \<Longrightarrow>
   \<exists>out. split_loop CHR '','' (ItemList2CSV l) prev [] acc = Inr out \<and> map name out = map name acc @ map name l"
proof (induction l arbitrary: prev acc)
  case (Cons ip l)
  let ?f = "name ip"
  from Cons.prems have f: "CHR '','' \<notin> set ?f" "length ?f < CF_BUFSIZE" "?f \<noteq> [] \<Longrightarrow> last ?f \<noteq> CHR 0x5C"
    by (auto simp: field_ok_def)
  let ?p = "if ?f = [] then prev else Some (last ?f)"
  have p: "?p \<noteq> Some CHR 0x5C" using f(3) Cons.prems(3) by auto
  show ?case
  proof (cases "l = []")
    case True
    with split_loop_field [OF f(1), of "[]" "[]" prev acc] f(2) show ?thesis
      by (simp add: AppendItem_def new_item_def)
  next
    case False
    have "split_loop CHR '','' (ItemList2CSV (ip # l)) prev [] acc =
        split_loop CHR '','' (CHR '','' # ItemList2CSV l) ?p ?f acc"
      using split_loop_field [OF f(1), of "[]" "CHR '','' # ItemList2CSV l" prev acc] f(2) False by simp
    also have "\<dots> = split_loop CHR '','' (ItemList2CSV l) (Some CHR '','') [] (AppendItem acc ?f None)"
      using f(2) p by simp
    finally show ?thesis
      using Cons.IH [of "Some CHR '',''" "AppendItem acc ?f None"] Cons.prems False
      by (auto simp: AppendItem_def new_item_def)
  qed
qed simp

section \<open>The set of strings an AlphaList holds\<close>

text \<open>
  The contract the class heaps of the agent rely on: membership, insertion and removal of non-empty names
  of 7-bit characters.
\<close>

definition alpha_key :: "string \<Rightarrow> nat" where
  "alpha_key s = of_char (hd s)"

definition alpha_ok :: "string \<Rightarrow> bool" where
  "alpha_ok s \<longleftrightarrow> s \<noteq> [] \<and> alpha_key s < 128"

definition alpha_wf :: "AlphaList \<Rightarrow> bool" where
  "alpha_wf al \<longleftrightarrow> (\<forall>i. distinct (map name (al i)) \<and> (\<forall>ip \<in> set (al i). alpha_ok (name ip) \<and> alpha_key (name ip) = i))"

definition alpha_mem :: "AlphaList \<Rightarrow> string \<Rightarrow> bool" where
  "alpha_mem al s \<longleftrightarrow> s \<in> name ` set (al (alpha_key s))"

lemma alpha_index_ok: "alpha_ok s \<Longrightarrow> alpha_index s = Inr (alpha_key s)"
proof -
  assume a: "alpha_ok s"
  then obtain c r where s: "s = c # r" by (cases s) (auto simp: alpha_ok_def)
  have i: "(of_char c :: int) = int (of_char c)" by (simp only: of_nat_of_char)
  from a s have "signed_char c = int (alpha_key s)"
    by (simp add: alpha_ok_def alpha_key_def signed_char_def Let_def i del: of_nat_of_char)
  with s show ?thesis by (simp add: alpha_index_def)
qed

lemma InAlphaList_mem: "alpha_ok s \<Longrightarrow> InAlphaList al s = Inr (alpha_mem al s)"
  by (auto simp: InAlphaList_def alpha_index_ok IsItemIn_set alpha_mem_def alpha_ok_def)

lemma IdempPrepend_spec:
  assumes "alpha_wf al" and "alpha_ok s"
  shows "\<exists>al'. IdempPrependAlphaList al s = Inr al' \<and> alpha_wf al' \<and>
    (\<forall>t. alpha_ok t \<longrightarrow> alpha_mem al' t = (t = s \<or> alpha_mem al t))"
proof (cases "alpha_mem al s")
  case True
  with assms show ?thesis by (auto simp: IdempPrependAlphaList_def InAlphaList_mem)
next
  case False
  let ?al = "al(alpha_key s := PrependItem (al (alpha_key s)) s None)"
  have "IdempPrependAlphaList al s = Inr ?al"
    using False assms(2) by (simp add: IdempPrependAlphaList_def InAlphaList_mem PrependAlphaList_def alpha_index_ok)
  moreover have "alpha_wf ?al"
    using assms False by (auto simp: alpha_wf_def PrependItem_def new_item_def alpha_mem_def)
  moreover have "alpha_mem ?al t = (t = s \<or> alpha_mem al t)" for t
    by (auto simp: alpha_mem_def PrependItem_def new_item_def)
  ultimately show ?thesis by blast
qed

lemma DeleteItemLiteral_subset: "set (snd (DeleteItemLiteral l s)) \<subseteq> set l"
  unfolding DeleteItemLiteral_def DeleteItemGeneral_def
  by (induction l) (auto split: prod.splits)

lemma DeleteFrom_spec:
  assumes "alpha_wf al" and "alpha_ok s"
  shows "\<exists>al'. DeleteFromAlphaList al s = Inr al' \<and> alpha_wf al' \<and>
    (\<forall>t. alpha_ok t \<longrightarrow> alpha_mem al' t = (t \<noteq> s \<and> alpha_mem al t))"
proof -
  let ?i = "alpha_key s"
  let ?l = "snd (DeleteItemLiteral (al ?i) s)"
  let ?al = "al(?i := ?l)"
  have n: "map name ?l = remove1 s (map name (al ?i))" by (rule DeleteItemLiteral_names)
  have d: "distinct (map name (al ?i))" using assms(1) unfolding alpha_wf_def by blast
  then have names: "name ` set ?l = name ` set (al ?i) - {s}"
    using n by (metis list.set_map set_remove1_eq)
  have "distinct (map name ?l)" unfolding n using d by (rule distinct_remove1)
  then have "alpha_wf ?al" using assms(1) DeleteItemLiteral_subset [of "al ?i" s] unfolding alpha_wf_def by auto
  moreover have "alpha_mem ?al t = (t \<noteq> s \<and> alpha_mem al t)" for t
    by (auto simp: alpha_mem_def names)
  moreover have "DeleteFromAlphaList al s = Inr ?al" by (simp add: DeleteFromAlphaList_def alpha_index_ok assms(2))
  ultimately show ?thesis by blast
qed

locale name_set =
  fixes ok :: "string \<Rightarrow> bool"
    and wf :: "'h \<Rightarrow> bool"
    and mem :: "'h \<Rightarrow> string \<Rightarrow> bool"
    and add :: "'h \<Rightarrow> string \<Rightarrow> 'h res"
    and del :: "'h \<Rightarrow> string \<Rightarrow> 'h res"
  assumes add_law: "wf h \<Longrightarrow> ok s \<Longrightarrow> \<exists>h'. add h s = Inr h' \<and> wf h' \<and> (\<forall>t. ok t \<longrightarrow> mem h' t = (t = s \<or> mem h t))"
    and del_law: "wf h \<Longrightarrow> ok s \<Longrightarrow> \<exists>h'. del h s = Inr h' \<and> wf h' \<and> (\<forall>t. ok t \<longrightarrow> mem h' t = (t \<noteq> s \<and> mem h t))"
begin

fun add_all :: "'h \<Rightarrow> string list \<Rightarrow> 'h res" where
  "add_all h [] = Inr h"
| "add_all h (s # ss) = res_bind (add h s) (\<lambda>h'. add_all h' ss)"

lemma add_all_law:
  "wf h \<Longrightarrow> list_all ok ss \<Longrightarrow> \<exists>h'. add_all h ss = Inr h' \<and> wf h' \<and> (\<forall>t. ok t \<longrightarrow> mem h' t = (t \<in> set ss \<or> mem h t))"
proof (induction ss arbitrary: h)
  case (Cons s ss)
  with add_law [of h s] obtain h1 where h1: "add h s = Inr h1" "wf h1" "\<forall>t. ok t \<longrightarrow> mem h1 t = (t = s \<or> mem h t)" by auto
  with Cons.IH [of h1] Cons.prems obtain h2 where "add_all h1 ss = Inr h2" "wf h2"
    "\<forall>t. ok t \<longrightarrow> mem h2 t = (t \<in> set ss \<or> mem h1 t)" by auto
  with h1 show ?case by auto
qed simp

lemma add_del:
  assumes "wf h" "ok s" "\<not> mem h s"
  shows "\<exists>h1 h2. add h s = Inr h1 \<and> del h1 s = Inr h2 \<and> wf h2 \<and> (\<forall>t. ok t \<longrightarrow> mem h2 t = mem h t)"
proof -
  from add_law [OF assms(1,2)] obtain h1 where h1: "add h s = Inr h1" "wf h1" "\<forall>t. ok t \<longrightarrow> mem h1 t = (t = s \<or> mem h t)" by blast
  from del_law [OF h1(2) assms(2)] obtain h2 where "del h1 s = Inr h2" "wf h2" "\<forall>t. ok t \<longrightarrow> mem h2 t = (t \<noteq> s \<and> mem h1 t)" by blast
  with h1 assms(3) show ?thesis by auto
qed

end

interpretation alpha: name_set alpha_ok alpha_wf alpha_mem IdempPrependAlphaList DeleteFromAlphaList
  by unfold_locales (rule IdempPrepend_spec DeleteFrom_spec; assumption)+

section \<open>Iterating over an AlphaList\<close>

definition alpha_items :: "AlphaList \<Rightarrow> Item list" where
  "alpha_items al = concat (map al [0..<CF_ALPHABETSIZE])"

definition alpha_remaining :: "AlphaListIterator \<Rightarrow> Item list" where
  "alpha_remaining it = ali_curitem it @ concat (map (ali_list it) [nat (ali_pos it + 1)..<CF_ALPHABETSIZE])"

lemma AlphaListIteratorNext_remaining:
  "-1 \<le> ali_pos it \<Longrightarrow> ali_pos it < int CF_ALPHABETSIZE \<Longrightarrow>
   \<exists>r it'. AlphaListIteratorNext it = Inr (r, it') \<and> ali_list it' = ali_list it \<and>
     (case alpha_remaining it of
        [] \<Rightarrow> r = None
      | ip # rest \<Rightarrow> r = Some ip \<and> alpha_remaining it' = rest \<and> -1 \<le> ali_pos it' \<and> ali_pos it' < int CF_ALPHABETSIZE)"
proof (induction it rule: AlphaListIteratorNext.induct)
  case (1 it)
  show ?case
  proof (cases "ali_curitem it")
    case (Cons ip rest)
    then have "AlphaListIteratorNext it = Inr (Some ip, it\<lparr>ali_curitem := rest\<rparr>)"
      by (subst AlphaListIteratorNext.simps) simp
    with Cons "1.prems" show ?thesis by (simp add: alpha_remaining_def)
  next
    case Nil
    let ?p = "ali_pos it + 1"
    show ?thesis
    proof (cases "?p = int CF_ALPHABETSIZE")
      case True
      with Nil have "AlphaListIteratorNext it = Inr (None, it\<lparr>ali_pos := ?p\<rparr>)"
        by (subst AlphaListIteratorNext.simps) (simp add: Let_def)
      moreover from True Nil have "alpha_remaining it = []" by (simp add: alpha_remaining_def)
      ultimately show ?thesis by simp
    next
      case False
      let ?it = "it\<lparr>ali_pos := ?p, ali_curitem := ali_list it (nat ?p)\<rparr>"
      from False "1.prems" have range: "\<not> (?p < 0 \<or> ?p > int CF_ALPHABETSIZE)" "-1 \<le> ali_pos ?it" "ali_pos ?it < int CF_ALPHABETSIZE"
        by auto
      have step: "AlphaListIteratorNext it = AlphaListIteratorNext ?it"
        using False range Nil by (subst AlphaListIteratorNext.simps) (simp add: Let_def)
      have "nat ?p < CF_ALPHABETSIZE" using range False "1.prems" by linarith
      then have "[nat ?p..<CF_ALPHABETSIZE] = nat ?p # [nat (?p + 1)..<CF_ALPHABETSIZE]"
        using upt_conv_Cons [of "nat ?p" CF_ALPHABETSIZE] range(2) "1.prems"(1)
        by (simp add: Suc_nat_eq_nat_zadd1)
      with Nil have rem: "alpha_remaining it = alpha_remaining ?it" by (simp add: alpha_remaining_def)
      show ?thesis unfolding step rem
        using "1.IH" [OF Nil refl False range(1)] range(2,3) by simp
    qed
  qed
qed

text \<open>\<open>n\<close> calls of the iterator that must each return an item.\<close>

fun al_visit :: "nat \<Rightarrow> AlphaListIterator \<Rightarrow> (Item list \<times> AlphaListIterator) res" where
  "al_visit 0 it = Inr ([], it)"
| "al_visit (Suc n) it =
     res_bind (AlphaListIteratorNext it) (\<lambda>(r, it').
       case r of
         None \<Rightarrow> Inl NullDereference
       | Some ip \<Rightarrow> res_bind (al_visit n it') (\<lambda>(ips, fin). Inr (ip # ips, fin)))"

lemma al_visit_all:
  "n = length (alpha_remaining it) \<Longrightarrow> -1 \<le> ali_pos it \<Longrightarrow> ali_pos it < int CF_ALPHABETSIZE \<Longrightarrow>
   \<exists>fin. al_visit n it = Inr (alpha_remaining it, fin) \<and> (\<exists>it'. AlphaListIteratorNext fin = Inr (None, it'))"
proof (induction n arbitrary: it)
  case 0
  with AlphaListIteratorNext_remaining [of it] show ?case by auto
next
  case (Suc n)
  from Suc.prems(1) obtain ip rest where rem: "alpha_remaining it = ip # rest" by (cases "alpha_remaining it") auto
  with AlphaListIteratorNext_remaining [OF Suc.prems(2,3)] obtain it' where
    n: "AlphaListIteratorNext it = Inr (Some ip, it')" "alpha_remaining it' = rest" "-1 \<le> ali_pos it'" "ali_pos it' < int CF_ALPHABETSIZE"
    by auto
  with Suc.IH [of it'] Suc.prems(1) rem show ?case by auto
qed

section \<open>Properties of the item lists\<close>

text \<open>Splitting the comma separated text of an item list gives the names of the list back, for names without a comma,
  shorter than the buffer and not ending in a backslash.\<close>

lemma SplitString_ItemList2CSV:
  assumes "list_all (field_ok CHR '','') (map name l)" and "l \<noteq> []"
  shows "\<exists>out. SplitString (ItemList2CSV l) CHR '','' = Inr out \<and> map name out = map name l"
  using split_joined [OF assms, of None "[]"] by (simp add: SplitString_def)

lemma SplitString_ItemList2CSV_witness:
  "\<exists>out. SplitString (ItemList2CSV [new_item ''a'' None, new_item ''bc'' None]) CHR '','' = Inr out \<and>
     map name out = map name [new_item ''a'' None, new_item ''bc'' None]"
  by (rule SplitString_ItemList2CSV) (simp_all add: new_item_def field_ok_def CF_BUFSIZE_def)

text \<open>A heap of class names behaves as a set of names: adding a name twice is adding it once, deleting it takes it out,
  and no other name is affected, for non-empty names that start with a 7-bit character.\<close>

lemma AlphaList_set_laws:
  assumes "alpha_wf al" and "alpha_ok s"
  shows "\<exists>al1 al2. IdempPrependAlphaList al s = Inr al1 \<and> DeleteFromAlphaList al s = Inr al2 \<and> alpha_wf al1 \<and> alpha_wf al2 \<and>
    (\<forall>t. alpha_ok t \<longrightarrow> InAlphaList al1 t = Inr (t = s \<or> alpha_mem al t) \<and> InAlphaList al2 t = Inr (t \<noteq> s \<and> alpha_mem al t))"
  using alpha.add_law [OF assms] alpha.del_law [OF assms] by (auto simp: InAlphaList_mem)

lemma AlphaList_set_laws_witness:
  "\<exists>al1 al2. IdempPrependAlphaList InitAlphaList ''linux'' = Inr al1 \<and> DeleteFromAlphaList InitAlphaList ''linux'' = Inr al2 \<and>
     alpha_wf al1 \<and> alpha_wf al2 \<and>
     (\<forall>t. alpha_ok t \<longrightarrow> InAlphaList al1 t = Inr (t = ''linux'' \<or> alpha_mem InitAlphaList t) \<and>
        InAlphaList al2 t = Inr (t \<noteq> ''linux'' \<and> alpha_mem InitAlphaList t))"
  by (rule AlphaList_set_laws) (simp_all add: alpha_wf_def InitAlphaList_def alpha_ok_def alpha_key_def)

text \<open>Iterating over a heap returns each of its items once, class names with the smallest first byte first, and then
  NULL, without reading outside the 256 lists.\<close>

lemma AlphaListIterator_complete:
  "\<exists>fin. al_visit (length (alpha_items al)) (AlphaListIteratorInit al) = Inr (alpha_items al, fin) \<and>
     (\<exists>it. AlphaListIteratorNext fin = Inr (None, it))"
  using al_visit_all [of "length (alpha_items al)" "AlphaListIteratorInit al"]
  by (simp add: AlphaListIteratorInit_def alpha_remaining_def alpha_items_def)

text \<open>Deleting a literal item removes its first occurrence and nothing else, and reports whether there was one.\<close>

lemma DeleteItemLiteral_removes:
  "map name (snd (DeleteItemLiteral l s)) = remove1 s (map name l) \<and> fst (DeleteItemLiteral l s) = (s \<in> name ` set l)"
proof -
  have "fst (DeleteItemLiteral l s) = (\<exists>ip \<in> set l. name ip = s)"
    by (auto simp: DeleteItemLiteral_def DeleteItemGeneral_def delete_loop_spec item_matches_def position_None
        split: option.splits dest!: position_Some [THEN iffD1] intro: nth_mem)
  then show ?thesis by (auto simp: DeleteItemLiteral_names)
qed

end
