(* ===== verification/CF_Databases.thy ===== *)
theory CF_Databases
  imports CF_Prelude
begin

text \<open>
  \<open>src/dbm_api.c\<close>, \<open>src/dbm_quick.c\<close>: the key-value stores under the persistent state.  A store is the list of its
  entries in the order a cursor returns them; the records of QDBM itself are not under \<open>src/\<close>, so this is its
  documented behaviour: \<open>dpput\<close> with \<open>DP_DOVER\<close> overwrites, \<open>dpout\<close> deletes, \<open>dpget\<close> reads.  The table of database handles
  is modelled with the life of the pointer it holds to the open store.
\<close>

section \<open>Entries\<close>

type_synonym 'v db = "(string \<times> 'v) list"

definition ReadDB :: "'v db \<Rightarrow> string \<Rightarrow> 'v option" where
  "ReadDB db key = map_of db key"

fun WriteDB :: "'v db \<Rightarrow> string \<Rightarrow> 'v \<Rightarrow> 'v db" where
  "WriteDB [] key v = [(key, v)]"
| "WriteDB ((k, w) # db) key v = (if k = key then (k, v) # db else (k, w) # WriteDB db key v)"

definition DeleteDB :: "'v db \<Rightarrow> string \<Rightarrow> 'v db" where
  "DeleteDB db key = filter (\<lambda>e. fst e \<noteq> key) db"

definition HasKeyDB :: "'v db \<Rightarrow> string \<Rightarrow> bool" where
  "HasKeyDB db key \<longleftrightarrow> ReadDB db key \<noteq> None"

lemma ReadDB_WriteDB [simp]: "ReadDB (WriteDB db key v) k = (if k = key then Some v else ReadDB db k)"
  by (induction db key v rule: WriteDB.induct) (auto simp: ReadDB_def)

lemma ReadDB_DeleteDB [simp]: "ReadDB (DeleteDB db key) k = (if k = key then None else ReadDB db k)"
  by (induction db) (auto simp: ReadDB_def DeleteDB_def)

lemma ReadDB_Nil [simp]: "ReadDB [] k = None"
  by (simp add: ReadDB_def)

text \<open>No key has two entries.\<close>

definition db_wf :: "'v db \<Rightarrow> bool" where
  "db_wf db \<longleftrightarrow> distinct (map fst db)"

lemma WriteDB_keys: "fst ` set (WriteDB db key v) = insert key (fst ` set db)"
  by (induction db key v rule: WriteDB.induct) auto

lemma WriteDB_wf [simp]: "db_wf db \<Longrightarrow> db_wf (WriteDB db key v)"
proof (induction db key v rule: WriteDB.induct)
  case (2 k w db key v)
  then show ?case using WriteDB_keys [of db key v] by (auto simp: db_wf_def)
qed (simp add: db_wf_def)

lemma DeleteDB_wf [simp]: "db_wf db \<Longrightarrow> db_wf (DeleteDB db key)"
  by (simp add: db_wf_def DeleteDB_def distinct_map_filter)

lemma db_entry: "db_wf db \<Longrightarrow> (k, v) \<in> set db \<longleftrightarrow> ReadDB db k = Some v"
  by (simp add: db_wf_def ReadDB_def)

section \<open>Handles\<close>

text \<open>
  The pointer of a handle to its open store.  \<open>CloseDB\<close> frees the store and keeps the pointer, so it can also be the
  address of a store that is no longer there.
\<close>

datatype db_priv = NullPriv | LivePriv | FreedPriv

record DBHandle =
  filename :: "string option"
  priv :: db_priv
  refcount :: int

definition dbid_max :: nat where
  "dbid_max = 21"

definition db_handles :: "DBHandle list" where
  "db_handles = replicate dbid_max \<lparr>filename = None, priv = NullPriv, refcount = 0\<rparr>"

definition DB_PATHS :: "string list" where
  "DB_PATHS = [''cf_classes'', ''state/cf_variables'', ''performance'', ''checksum_digests'', ''stats'', ''state/cf_observations'',
     ''state/cf_state'', ''cf_lastseen'', ''cf_audit'', ''state/cf_lock'', ''state/history'', ''state/nova_measures'',
     ''state/nova_static'', ''state/nova_pscalar'', ''state/promise_compliance'', ''mswin'', ''nova_cache'', ''nova_track'',
     ''nova_value'', ''nova_agent_execution'', ''bundles'']"

definition DBPrivGetFileExtension :: string where
  "DBPrivGetFileExtension = ''qdbm''"

definition DBIdToPath :: "string \<Rightarrow> nat \<Rightarrow> string" where
  "DBIdToPath workdir dbid = workdir @ ''/'' @ (DB_PATHS ! dbid) @ ''.'' @ DBPrivGetFileExtension"

definition DBHandleGet :: "string \<Rightarrow> DBHandle list \<Rightarrow> nat \<Rightarrow> DBHandle list res" where
  "DBHandleGet workdir handles dbid =
     c_assert (dbid < dbid_max)
       (if filename (handles ! dbid) = None
        then Inr (handles[dbid := (handles ! dbid)\<lparr>filename := Some (DBIdToPath workdir dbid)\<rparr>])
        else Inr handles)"

text \<open>\<open>DBPrivCloseDB\<close> on a pointer.\<close>

definition DBPrivCloseDB :: "db_priv \<Rightarrow> unit res" where
  "DBPrivCloseDB p = (case p of NullPriv \<Rightarrow> Inl NullDereference | LivePriv \<Rightarrow> Inr () | FreedPriv \<Rightarrow> Inl UseAfterFree)"

text \<open>
  What happens outside: whether the lock file could be locked, whether the store could be opened, and what the
  migration of the store returns.  A database without a migration plan is not read by \<open>DBMigrate\<close>.
\<close>

record open_outcome =
  lock_ok :: bool
  open_ok :: bool
  has_plan :: bool
  migrate_ok :: bool

definition open_handle :: "open_outcome \<Rightarrow> DBHandle \<Rightarrow> (bool \<times> DBHandle) res" where
  "open_handle out handle =
     res_bind
       (if refcount handle = 0 then
          let h1 = (if lock_ok out then handle\<lparr>priv := (if open_ok out then LivePriv else NullPriv)\<rparr> else handle)
          in if priv h1 \<noteq> NullPriv then
               if has_plan out \<and> priv h1 = FreedPriv then Inl UseAfterFree
               else if has_plan out \<and> \<not> migrate_ok out
               then res_bind (DBPrivCloseDB (priv h1)) (\<lambda>_. Inr (h1\<lparr>priv := NullPriv\<rparr>))
               else Inr h1
             else Inr h1
        else Inr handle)
       (\<lambda>h. if priv h \<noteq> NullPriv then Inr (True, h\<lparr>refcount := refcount h + 1\<rparr>) else Inr (False, h))"

definition OpenDB :: "string \<Rightarrow> open_outcome \<Rightarrow> DBHandle list \<Rightarrow> nat \<Rightarrow> (bool \<times> DBHandle list) res" where
  "OpenDB workdir out handles dbid =
     res_bind (DBHandleGet workdir handles dbid) (\<lambda>handles.
       res_bind (open_handle out (handles ! dbid)) (\<lambda>(ok, h). Inr (ok, handles[dbid := h])))"

definition close_handle :: "DBHandle \<Rightarrow> DBHandle res" where
  "close_handle handle =
     (if refcount handle < 1 then Inr handle
      else if refcount handle - 1 = 0
      then res_bind (DBPrivCloseDB (priv handle)) (\<lambda>_. Inr (handle\<lparr>refcount := 0, priv := FreedPriv\<rparr>))
      else Inr (handle\<lparr>refcount := refcount handle - 1\<rparr>))"

definition CloseDB :: "DBHandle list \<Rightarrow> nat \<Rightarrow> DBHandle list res" where
  "CloseDB handles dbid = res_bind (close_handle (handles ! dbid)) (\<lambda>h. Inr (handles[dbid := h]))"

fun CloseAllDB :: "DBHandle list \<Rightarrow> DBHandle list res" where
  "CloseAllDB [] = Inr []"
| "CloseAllDB (h # handles) =
     res_bind (if refcount h \<noteq> 0 then res_bind (DBPrivCloseDB (priv h)) (\<lambda>_. Inr FreedPriv) else Inr (priv h)) (\<lambda>p.
       res_bind (CloseAllDB handles) (\<lambda>rest. Inr (\<lparr>filename = None, priv = p, refcount = 0\<rparr> # rest)))"

section \<open>Runs of opens and closes\<close>

text \<open>Every opener of a database closes it once, as \<open>n\<close> openers did not yet.\<close>

datatype handle_op = OpenOp nat open_outcome | CloseOp nat

text \<open>A run in which nobody closes a database more often than it opened it; \<open>owners\<close> counts the open ones.\<close>

fun handle_run :: "string \<Rightarrow> handle_op list \<Rightarrow> (nat \<Rightarrow> nat) \<Rightarrow> DBHandle list \<Rightarrow> ((nat \<Rightarrow> nat) \<times> DBHandle list) res" where
  "handle_run workdir [] owners handles = Inr (owners, handles)"
| "handle_run workdir (x # ops) owners handles =
     (case x of
        OpenOp dbid out \<Rightarrow>
          res_bind (OpenDB workdir out handles dbid) (\<lambda>(ok, h).
            handle_run workdir ops (if ok then owners(dbid := owners dbid + 1) else owners) h)
      | CloseOp dbid \<Rightarrow>
          if owners dbid = 0 then handle_run workdir ops owners handles
          else res_bind (CloseDB handles dbid) (\<lambda>h. handle_run workdir ops (owners(dbid := owners dbid - 1)) h))"

definition handle_ok :: "nat \<Rightarrow> DBHandle \<Rightarrow> bool" where
  "handle_ok n h \<longleftrightarrow> refcount h = int n \<and> (0 < n \<longrightarrow> priv h = LivePriv)"

definition handles_ok :: "(nat \<Rightarrow> nat) \<Rightarrow> DBHandle list \<Rightarrow> bool" where
  "handles_ok owners handles \<longleftrightarrow> length handles = dbid_max \<and> (\<forall>dbid < dbid_max. handle_ok (owners dbid) (handles ! dbid))"

fun op_locks :: "handle_op \<Rightarrow> bool" where
  "op_locks (OpenOp dbid out) \<longleftrightarrow> dbid < dbid_max \<and> lock_ok out"
| "op_locks (CloseOp dbid) \<longleftrightarrow> dbid < dbid_max"

lemma open_handle_ok:
  assumes "handle_ok n h" and "lock_ok out"
  shows "\<exists>ok h'. open_handle out h = Inr (ok, h') \<and> handle_ok (if ok then n + 1 else n) h'"
  using assms by (auto simp: open_handle_def handle_ok_def Let_def DBPrivCloseDB_def)

lemma close_handle_ok:
  assumes "handle_ok n h" and "0 < n"
  shows "\<exists>h'. close_handle h = Inr h' \<and> handle_ok (n - 1) h'"
  using assms by (auto simp: close_handle_def handle_ok_def DBPrivCloseDB_def)

lemma handles_ok_update:
  "handles_ok owners handles \<Longrightarrow> dbid < dbid_max \<Longrightarrow> handle_ok n h \<Longrightarrow> handles_ok (owners(dbid := n)) (handles[dbid := h])"
  by (auto simp: handles_ok_def nth_list_update)

lemma DBHandleGet_ok:
  assumes "handles_ok owners handles" and "dbid < dbid_max"
  shows "\<exists>handles'. DBHandleGet workdir handles dbid = Inr handles' \<and> handles_ok owners handles'"
proof -
  have "handles_ok (owners(dbid := owners dbid)) (handles[dbid := (handles ! dbid)\<lparr>filename := f\<rparr>])" for f
    using assms by (intro handles_ok_update) (auto simp: handles_ok_def handle_ok_def)
  then show ?thesis using assms by (auto simp: DBHandleGet_def)
qed

lemma OpenDB_ok:
  assumes "handles_ok owners handles" and "dbid < dbid_max" and "lock_ok out"
  shows "\<exists>ok handles'. OpenDB workdir out handles dbid = Inr (ok, handles') \<and>
    handles_ok (if ok then owners(dbid := owners dbid + 1) else owners) handles'"
proof -
  obtain h1 where h1: "DBHandleGet workdir handles dbid = Inr h1" "handles_ok owners h1"
    using DBHandleGet_ok [OF assms(1,2)] by blast
  then have "handle_ok (owners dbid) (h1 ! dbid)" using assms(2) by (simp add: handles_ok_def)
  from open_handle_ok [OF this assms(3)] obtain ok h' where
    o: "open_handle out (h1 ! dbid) = Inr (ok, h')" "handle_ok (if ok then owners dbid + 1 else owners dbid) h'" by blast
  have "handles_ok (owners(dbid := if ok then owners dbid + 1 else owners dbid)) (h1[dbid := h'])"
    by (rule handles_ok_update [OF h1(2) assms(2) o(2)])
  then have "handles_ok (if ok then owners(dbid := owners dbid + 1) else owners) (h1[dbid := h'])" by (cases ok) auto
  then show ?thesis using h1 o by (auto simp: OpenDB_def)
qed

lemma CloseDB_ok:
  assumes "handles_ok owners handles" and "dbid < dbid_max" and "0 < owners dbid"
  shows "\<exists>handles'. CloseDB handles dbid = Inr handles' \<and> handles_ok (owners(dbid := owners dbid - 1)) handles'"
proof -
  from assms have "handle_ok (owners dbid) (handles ! dbid)" by (simp add: handles_ok_def)
  from close_handle_ok [OF this assms(3)] obtain h' where
    c: "close_handle (handles ! dbid) = Inr h'" "handle_ok (owners dbid - 1) h'" by blast
  then show ?thesis using handles_ok_update [OF assms(1,2) c(2)] by (auto simp: CloseDB_def)
qed

lemma handle_run_ok:
  assumes "handles_ok owners handles" and "list_all op_locks ops"
  shows "\<exists>owners' handles'. handle_run workdir ops owners handles = Inr (owners', handles') \<and> handles_ok owners' handles'"
  using assms
proof (induction ops arbitrary: owners handles)
  case (Cons x ops)
  show ?case
  proof (cases x)
    case (OpenOp dbid out)
    with Cons.prems obtain ok h where "OpenDB workdir out handles dbid = Inr (ok, h)"
      "handles_ok (if ok then owners(dbid := owners dbid + 1) else owners) h"
      using OpenDB_ok [of owners handles dbid out workdir] by auto
    with Cons.IH [of "if ok then owners(dbid := owners dbid + 1) else owners" h] Cons.prems(2) OpenOp show ?thesis by auto
  next
    case (CloseOp dbid)
    show ?thesis
    proof (cases "owners dbid = 0")
      case True
      with Cons.IH [OF Cons.prems(1)] Cons.prems(2) CloseOp show ?thesis by auto
    next
      case False
      with Cons.prems CloseOp obtain h where h: "CloseDB handles dbid = Inr h" "handles_ok (owners(dbid := owners dbid - 1)) h"
        using CloseDB_ok [of owners handles dbid] by auto
      from Cons.prems(2) have "list_all op_locks ops" by simp
      obtain ow where ow: "owners(dbid := owners dbid - 1) = ow" by blast
      have "handle_run workdir (x # ops) owners handles = handle_run workdir ops (owners(dbid := owners dbid - 1)) h"
        using h(1) CloseOp False by simp
      with Cons.IH [OF h(2) \<open>list_all op_locks ops\<close>] show ?thesis unfolding ow by metis
    qed
  qed
qed simp

lemma db_handles_ok: "handles_ok (\<lambda>_. 0) db_handles"
  by (simp add: handles_ok_def db_handles_def handle_ok_def)

section \<open>Properties\<close>

text \<open>C27: From the start of the program, any run of opens and closes in which the lock file can be locked never touches a freed store,
  the reference count of every database is its number of owners, and a database with owners is open.\<close>

lemma handles_never_freed:
  assumes "list_all op_locks ops"
  shows "\<exists>owners handles. handle_run workdir ops (\<lambda>_. 0) db_handles = Inr (owners, handles) \<and>
    (\<forall>dbid < dbid_max. refcount (handles ! dbid) = int (owners dbid) \<and> (0 < owners dbid \<longrightarrow> priv (handles ! dbid) = LivePriv))"
  using handle_run_ok [OF db_handles_ok assms] by (fastforce simp: handles_ok_def handle_ok_def)

definition good_open :: open_outcome where
  "good_open = \<lparr>lock_ok = True, open_ok = True, has_plan = True, migrate_ok = True\<rparr>"

definition unlocked_open :: open_outcome where
  "unlocked_open = good_open\<lparr>lock_ok := False\<rparr>"

lemma handles_never_freed_witness:
  "\<exists>owners handles. handle_run ''/var'' [OpenOp 7 good_open, CloseOp 7] (\<lambda>_. 0) db_handles = Inr (owners, handles) \<and>
    refcount (handles ! 7) = int (owners 7)"
proof -
  have "list_all op_locks [OpenOp 7 good_open, CloseOp 7]" "7 < dbid_max" by (simp_all add: good_open_def dbid_max_def)
  with handles_never_freed [OF this(1), of "''/var''"] show ?thesis by blast
qed

text \<open>When a database was closed and the lock file cannot be locked at the next open, \<open>OpenDB\<close> uses the pointer to the store that was
  freed: it reads it in the migration, or, for a database without migration, hands it out as an open one.\<close>

lemma OpenDB_reuses_freed_store:
  "handle_run ''/var'' [OpenOp 7 good_open, CloseOp 7, OpenOp 7 unlocked_open] (\<lambda>_. 0) db_handles = Inl UseAfterFree \<and>
   (\<exists>owners handles. handle_run ''/var'' [OpenOp 6 (good_open\<lparr>has_plan := False\<rparr>), CloseOp 6,
      OpenOp 6 (unlocked_open\<lparr>has_plan := False\<rparr>)] (\<lambda>_. 0) db_handles = Inr (owners, handles) \<and>
      owners 6 = 1 \<and> priv (handles ! 6) = FreedPriv)"
  by (simp add: db_handles_def dbid_max_def good_open_def unlocked_open_def OpenDB_def DBHandleGet_def open_handle_def CloseDB_def
      close_handle_def DBPrivCloseDB_def Let_def)

end
