(* ===== verification/CF_Classes.thy ===== *)
theory CF_Classes
  imports CF_LogicExpressions CF_Items CF_Names CF_Databases "HOL-Library.Word"
begin

text \<open>
  \<open>src/env_context.c\<close>: the classes of a host.  A class is a name in one of three heaps (hard classes found by the
  agent, global soft classes, classes private to the running bundle), unless it is negated or cancelled.  Promises
  are guarded by expressions over classes.  The static variables of the file are one record; every function takes the
  record and returns the new one.  \<open>exit\<close> and \<open>FatalError\<close> are \<open>Inl FatalErrorExit\<close>.  \<open>full_match re s\<close> stands for
  compiling \<open>re\<close> with PCRE and matching the whole of \<open>s\<close>.
\<close>

section \<open>State\<close>

datatype statepolicy = cfreset | cfpreserve

record CfState =
  expires :: "32 word"
  policy :: statepolicy

record context_state =
  VHANDLES :: AlphaList
  VHEAP :: AlphaList
  VHARDHEAP :: AlphaList
  VADDCLASSES :: AlphaList
  VNEGHEAP :: "Item list"
  ABORTBUNDLEHEAP :: "Item list"
  ABORTHEAP :: "Item list"
  VDELCLASSES :: "Item list"
  PRIVCLASSHEAP :: "AlphaList list"
  ABORTBUNDLE :: bool

definition initial_context :: context_state where
  "initial_context = \<lparr>VHANDLES = InitAlphaList, VHEAP = InitAlphaList, VHARDHEAP = InitAlphaList, VADDCLASSES = InitAlphaList,
     VNEGHEAP = [], ABORTBUNDLEHEAP = [], ABORTHEAP = [], VDELCLASSES = [], PRIVCLASSHEAP = [], ABORTBUNDLE = False\<rparr>"

text \<open>\<open>snprintf\<close> and \<open>strncpy\<close> into a buffer of \<open>CF_MAXVARSIZE\<close> keep one byte less.\<close>

definition clip :: "string \<Rightarrow> string" where
  "clip s = take (CF_MAXVARSIZE - 1) s"

definition own_namespace :: "string option \<Rightarrow> string option" where
  "own_namespace namespace = (case namespace of
     None \<Rightarrow> None
   | Some ns \<Rightarrow> if strcmp ns ''default'' \<noteq> 0 then Some ns else None)"

section \<open>Evaluating class expressions\<close>

text \<open>The name under which a token of a class expression is looked up in the soft heaps.\<close>

definition qualified_class :: "string \<Rightarrow> string option \<Rightarrow> string" where
  "qualified_class classname namespace =
     (if CHR '':'' \<in> set classname then
        if starts_with ''default:'' classname then clip (drop (length ''default:'') classname) else clip classname
      else case own_namespace namespace of
          Some ns \<Rightarrow> clip (ns @ '':'' @ classname)
        | None \<Rightarrow> clip classname)"

text \<open>
  Reading a heap.  \<open>InAlphaList\<close> reads in front of the array for a name whose first byte is 128 or more; the tokens of
  the parser never start so, and a namespace that does is outside the model: such a name is in no heap here.
\<close>

definition in_heap :: "AlphaList \<Rightarrow> string \<Rightarrow> bool" where
  "in_heap al s = (case InAlphaList al s of Inr b \<Rightarrow> b | Inl _ \<Rightarrow> False)"

definition EvalTokenAsClass :: "context_state \<Rightarrow> string option \<Rightarrow> string \<Rightarrow> ExpressionValue" where
  "EvalTokenAsClass ctx namespace classname =
     (if strcmp classname ''any'' = 0 then EXP_TRUE
      else let q = qualified_class classname namespace in
        if IsItemIn (VNEGHEAP ctx) (Some q) then EXP_FALSE
        else if IsItemIn (VDELCLASSES ctx) (Some q) then EXP_FALSE
        else if in_heap (VHARDHEAP ctx) classname then EXP_TRUE
        else if in_heap (VHEAP ctx) q then EXP_TRUE
        else if in_heap (VADDCLASSES ctx) q then EXP_TRUE
        else EXP_FALSE)"

definition EvalVarRef :: "string \<Rightarrow> string option" where
  "EvalVarRef varname = None"

text \<open>A text behind the expression that the parser read is ignored.\<close>

definition IsDefinedClass :: "context_state \<Rightarrow> string option \<Rightarrow> string option \<Rightarrow> bool" where
  "IsDefinedClass ctx cls namespace =
     (case cls of
        None \<Rightarrow> True
      | Some c \<Rightarrow>
          (case ParseExpression c 0 (length c) of
             (None, _) \<Rightarrow> False
           | (Some e, _) \<Rightarrow> EvalExpression e (EvalTokenAsClass ctx namespace) EvalVarRef = EXP_TRUE))"

definition IsExcluded :: "context_state \<Rightarrow> string option \<Rightarrow> string option \<Rightarrow> bool" where
  "IsExcluded ctx cls namespace \<longleftrightarrow> \<not> IsDefinedClass ctx cls namespace"

definition EvalTokenFromList :: "AlphaList \<Rightarrow> string \<Rightarrow> ExpressionValue" where
  "EvalTokenFromList al token = (if in_heap al token then EXP_TRUE else EXP_FALSE)"

definition EvalWithTokenFromList :: "string \<Rightarrow> AlphaList \<Rightarrow> bool" where
  "EvalWithTokenFromList expr token_list =
     (case ParseExpression expr 0 (length expr) of
        (None, _) \<Rightarrow> False
      | (Some e, _) \<Rightarrow> EvalExpression e (EvalTokenFromList token_list) EvalVarRef = EXP_TRUE)"

definition EvalProcessResult :: "string \<Rightarrow> AlphaList \<Rightarrow> bool" where
  "EvalProcessResult process_result proc_attr = EvalWithTokenFromList process_result proc_attr"

definition EvalFileResult :: "string \<Rightarrow> AlphaList \<Rightarrow> bool" where
  "EvalFileResult file_result leaf_attr = EvalWithTokenFromList file_result leaf_attr"

definition ValidClassName :: "string \<Rightarrow> bool" where
  "ValidClassName str = (case ParseExpression str 0 (length str) of (r, pos) \<Rightarrow> r \<noteq> None \<and> pos = length str)"

definition HighlightExpressionError :: "string \<Rightarrow> nat \<Rightarrow> string" where
  "HighlightExpressionError str pos = take pos str @ ''->'' @ drop pos str"

text \<open>\<open>src/matching.c\<close>: a regular expression matches when it is the text itself, or PCRE says so.\<close>

definition FullTextMatch :: "(string \<Rightarrow> string \<Rightarrow> bool) \<Rightarrow> string \<Rightarrow> string \<Rightarrow> bool" where
  "FullTextMatch full_match regexp teststring =
     (if strcmp regexp teststring = 0 then True else full_match regexp teststring)"

fun IsRegexItemIn :: "(string \<Rightarrow> string \<Rightarrow> bool) \<Rightarrow> context_state \<Rightarrow> Item list \<Rightarrow> string \<Rightarrow> bool" where
  "IsRegexItemIn full_match ctx [] regex = False"
| "IsRegexItemIn full_match ctx (ptr # list) regex =
     (if classes ptr \<noteq> None \<and> IsExcluded ctx (classes ptr) None then IsRegexItemIn full_match ctx list regex
      else if strcmp regex (name ptr) = 0 then True
      else if FullTextMatch full_match regex (name ptr) \<or> FullTextMatch full_match (name ptr) regex then True
      else IsRegexItemIn full_match ctx list regex)"

section \<open>Defining classes\<close>

text \<open>
  The abort lists.  Before a class is added, its name is matched against them; afterwards every entry is evaluated as
  a class expression, since the new class may have made one true.
\<close>

definition screen_class :: "(string \<Rightarrow> string \<Rightarrow> bool) \<Rightarrow> context_state \<Rightarrow> string \<Rightarrow> context_state res" where
  "screen_class full_match ctx c =
     (let ctx1 = (if IsRegexItemIn full_match ctx (ABORTBUNDLEHEAP ctx) c then ctx\<lparr>ABORTBUNDLE := True\<rparr> else ctx)
      in if IsRegexItemIn full_match ctx1 (ABORTHEAP ctx1) c then Inl FatalErrorExit else Inr ctx1)"

definition check_aborts :: "context_state \<Rightarrow> string option \<Rightarrow> context_state res" where
  "check_aborts ctx namespace =
     (if list_ex (\<lambda>ip. IsDefinedClass ctx (Some (name ip)) namespace) (ABORTHEAP ctx) then Inl FatalErrorExit
      else if \<not> ABORTBUNDLE ctx \<and> list_ex (\<lambda>ip. IsDefinedClass ctx (Some (name ip)) namespace) (ABORTBUNDLEHEAP ctx)
      then Inr (ctx\<lparr>ABORTBUNDLE := True\<rparr>)
      else Inr ctx)"

definition NewClass :: "(string \<Rightarrow> string \<Rightarrow> bool) \<Rightarrow> context_state \<Rightarrow> string \<Rightarrow> string option \<Rightarrow> context_state res" where
  "NewClass full_match ctx oclass namespace =
     (if length oclass \<ge> CF_MAXVARSIZE then Inl OutOfBounds
      else
        let canonclass = CanonifyNameInPlace (Chop oclass);
            c = (case own_namespace namespace of Some ns \<Rightarrow> clip (ns @ '':'' @ canonclass) | None \<Rightarrow> canonclass)
        in if length c = 0 then Inr ctx
           else res_bind (screen_class full_match ctx c) (\<lambda>ctx.
             res_bind (InAlphaList (VHEAP ctx) c) (\<lambda>present.
               if present then Inr ctx
               else res_bind (PrependAlphaList (VHEAP ctx) c) (\<lambda>heap.
                 check_aborts (ctx\<lparr>VHEAP := heap\<rparr>) namespace))))"

definition DeleteClass :: "context_state \<Rightarrow> string \<Rightarrow> string option \<Rightarrow> context_state res" where
  "DeleteClass ctx oclass namespace =
     (let c = (if CHR '':'' \<in> set oclass then oclass
               else case own_namespace namespace of Some ns \<Rightarrow> clip (ns @ '':'' @ oclass) | None \<Rightarrow> oclass)
      in if length c \<ge> CF_MAXVARSIZE then Inl OutOfBounds
         else res_bind (DeleteFromAlphaList (VHEAP ctx) c) (\<lambda>heap.
           res_bind (DeleteFromAlphaList (VADDCLASSES ctx) c) (\<lambda>add.
             Inr (ctx\<lparr>VHEAP := heap, VADDCLASSES := add\<rparr>))))"

definition HardClass :: "(string \<Rightarrow> string \<Rightarrow> bool) \<Rightarrow> context_state \<Rightarrow> string \<Rightarrow> context_state res" where
  "HardClass full_match ctx oclass =
     (if length oclass \<ge> CF_MAXVARSIZE then Inl OutOfBounds
      else
        let c = CanonifyNameInPlace (Chop oclass)
        in if length c = 0 then Inr ctx
           else res_bind (screen_class full_match ctx c) (\<lambda>ctx.
             res_bind (InAlphaList (VHARDHEAP ctx) c) (\<lambda>present.
               if present then Inr ctx
               else res_bind (PrependAlphaList (VHARDHEAP ctx) c) (\<lambda>heap.
                 check_aborts (ctx\<lparr>VHARDHEAP := heap\<rparr>) None))))"

definition DeleteHardClass :: "context_state \<Rightarrow> string \<Rightarrow> context_state res" where
  "DeleteHardClass ctx oclass =
     res_bind (DeleteFromAlphaList (VHARDHEAP ctx) oclass) (\<lambda>heap. Inr (ctx\<lparr>VHARDHEAP := heap\<rparr>))"

text \<open>The name is not made canonical here.  A name that fills the limit of \<open>strncpy\<close> is left without its NUL.\<close>

definition NewBundleClass :: "(string \<Rightarrow> string \<Rightarrow> bool) \<Rightarrow> context_state \<Rightarrow> string \<Rightarrow> string option \<Rightarrow> context_state res" where
  "NewBundleClass full_match ctx cls namespace =
     (if own_namespace namespace = None \<and> length cls \<ge> CF_MAXVARSIZE then Inl OutOfBounds
      else
        let copy = Chop (case own_namespace namespace of Some ns \<Rightarrow> clip (ns @ '':'' @ cls) | None \<Rightarrow> cls)
        in if length copy = 0 then Inr ctx
           else res_bind (screen_class full_match ctx copy) (\<lambda>ctx.
             res_bind (InAlphaList (VHEAP ctx) copy) (\<lambda>shadows.
               res_bind (InAlphaList (VADDCLASSES ctx) copy) (\<lambda>present.
                 if present then Inr ctx
                 else res_bind (PrependAlphaList (VADDCLASSES ctx) copy) (\<lambda>heap.
                   check_aborts (ctx\<lparr>VADDCLASSES := heap\<rparr>) namespace)))))"

section \<open>Private contexts of bundles\<close>

definition DeleteEntireHeap :: "context_state \<Rightarrow> context_state" where
  "DeleteEntireHeap ctx = ctx\<lparr>VHEAP := InitAlphaList\<rparr>"

definition DeletePrivateClassContext :: "context_state \<Rightarrow> context_state" where
  "DeletePrivateClassContext ctx = ctx\<lparr>VADDCLASSES := InitAlphaList, VDELCLASSES := []\<rparr>"

text \<open>
  The stack holds a pointer to a copy of the heap; when the callee inherits, the lists on the stack are replaced by
  copies and the callee gets the old ones.
\<close>

definition PushPrivateClassContext :: "context_state \<Rightarrow> bool \<Rightarrow> context_state" where
  "PushPrivateClassContext ctx inherit =
     (let ap = CopyAlphaListPointers (VADDCLASSES ctx) in
      if inherit
      then (case DupAlphaListPointers ap of (al, ap') \<Rightarrow> ctx\<lparr>PRIVCLASSHEAP := ap' # PRIVCLASSHEAP ctx, VADDCLASSES := al\<rparr>)
      else ctx\<lparr>PRIVCLASSHEAP := ap # PRIVCLASSHEAP ctx, VADDCLASSES := InitAlphaList\<rparr>)"

definition PopPrivateClassContext :: "context_state \<Rightarrow> context_state res" where
  "PopPrivateClassContext ctx =
     (case PRIVCLASSHEAP ctx of
        [] \<Rightarrow> Inl FatalErrorExit
      | ap # rest \<Rightarrow> Inr (ctx\<lparr>PRIVCLASSHEAP := rest, VADDCLASSES := CopyAlphaListPointers ap\<rparr>))"

section \<open>Persistent classes\<close>

text \<open>
  The state database: its entries in the order its cursor returns them, or \<open>None\<close> when it cannot be opened.  \<open>now\<close> is
  the time of the call.  The expiry time is computed and stored in 32 bits.
\<close>

type_synonym state_db = "CfState db option"

definition context_key :: "string \<Rightarrow> string \<Rightarrow> string" where
  "context_key namespace unqualifiedname = take (CF_BUFSIZE - 1) (namespace @ '':'' @ unqualifiedname)"

definition NewPersistentContext ::
  "state_db \<Rightarrow> string \<Rightarrow> string \<Rightarrow> 32 word \<Rightarrow> statepolicy \<Rightarrow> int \<Rightarrow> state_db" where
  "NewPersistentContext dbp unqualifiedname namespace ttl_minutes pol now =
     (case dbp of
        None \<Rightarrow> None
      | Some db \<Rightarrow>
          let key = context_key namespace unqualifiedname;
              preserved = (case ReadDB db key of
                 None \<Rightarrow> False
               | Some state \<Rightarrow> policy state = cfpreserve \<and> now < int (unat (expires state)))
          in if preserved then Some db
             else Some (WriteDB db key \<lparr>expires = word_of_int now + ttl_minutes * 60, policy = pol\<rparr>))"

definition DeletePersistentContext :: "state_db \<Rightarrow> string \<Rightarrow> state_db" where
  "DeletePersistentContext dbp key = map_option (\<lambda>db. DeleteDB db key) dbp"

text \<open>\<open>sscanf(key, "%[^:]:%[^\n]", ...)\<close>: an empty first part stops the scan.\<close>

definition scan_key :: "string \<Rightarrow> string \<times> string" where
  "scan_key key =
     (let ns = takeWhile (\<lambda>c. c \<noteq> CHR '':'') key in
      if ns = [] then ([], []) else (ns, takeWhile (\<lambda>c. c \<noteq> CHR 0x0A) (drop (length ns + 1) key)))"

definition load_class :: "(string \<Rightarrow> string \<Rightarrow> bool) \<Rightarrow> context_state \<Rightarrow> string \<Rightarrow> context_state res" where
  "load_class full_match ctx key =
     (if CHR '':'' \<in> set key then
        (case scan_key key of (ns, n) \<Rightarrow>
           if length ns \<ge> CF_MAXVARSIZE \<or> length n \<ge> CF_MAXVARSIZE then Inl OutOfBounds
           else NewClass full_match ctx n (Some ns))
      else NewClass full_match ctx key None)"

fun load_loop :: "(string \<Rightarrow> string \<Rightarrow> bool) \<Rightarrow> int \<Rightarrow> context_state \<Rightarrow> CfState db \<Rightarrow>
    (context_state \<times> CfState db) res" where
  "load_loop full_match now ctx [] = Inr (ctx, [])"
| "load_loop full_match now ctx ((key, q) # db) =
     (if now > int (unat (expires q)) then load_loop full_match now ctx db
      else res_bind (load_class full_match ctx key) (\<lambda>ctx'.
        res_bind (load_loop full_match now ctx' db) (\<lambda>(ctx'', db'). Inr (ctx'', (key, q) # db'))))"

definition LoadPersistentContext :: "(string \<Rightarrow> string \<Rightarrow> bool) \<Rightarrow> bool \<Rightarrow> int \<Rightarrow> context_state \<Rightarrow> state_db \<Rightarrow>
    (context_state \<times> state_db) res" where
  "LoadPersistentContext full_match lookup now ctx dbp =
     (if lookup then Inr (ctx, dbp)
      else case dbp of
          None \<Rightarrow> Inr (ctx, None)
        | Some db \<Rightarrow> res_bind (load_loop full_match now ctx db) (\<lambda>(ctx', db'). Inr (ctx', Some db')))"

section \<open>Lists of classes\<close>

definition IsHardClass :: "context_state \<Rightarrow> string \<Rightarrow> bool res" where
  "IsHardClass ctx sp = InAlphaList (VHARDHEAP ctx) sp"

definition IsSoftClass :: "context_state \<Rightarrow> string \<Rightarrow> bool res" where
  "IsSoftClass ctx sp = res_bind (IsHardClass ctx sp) (\<lambda>b. Inr (\<not> b))"

fun AddEphemeralClasses :: "(string \<Rightarrow> string \<Rightarrow> bool) \<Rightarrow> context_state \<Rightarrow> string list \<Rightarrow> string option \<Rightarrow> context_state res" where
  "AddEphemeralClasses full_match ctx [] namespace = Inr ctx"
| "AddEphemeralClasses full_match ctx (item # rp) namespace =
     res_bind (InAlphaList (VHEAP ctx) item) (\<lambda>present.
       res_bind (if \<not> present then NewClass full_match ctx item namespace else Inr ctx) (\<lambda>ctx'.
         AddEphemeralClasses full_match ctx' rp namespace))"

text \<open>
  The loop over a comma separated command line option.  \<open>sscanf\<close> takes at most 250 characters; the character behind
  the item is skipped without a look, and an item that ends a full buffer lets the loop run past it.
\<close>

function from_string_loop :: "(context_state \<Rightarrow> string \<Rightarrow> context_state res) \<Rightarrow> nat \<Rightarrow> context_state \<Rightarrow> string \<Rightarrow> context_state res" where
  "from_string_loop f room ctx s =
     (if s = [] then Inr ctx
      else let currentitem = take 250 (takeWhile (\<lambda>c. c \<noteq> CHR '','') s); rest = drop (length currentitem) s in
        res_bind (IsHardClass ctx currentitem) (\<lambda>hard.
          if hard then Inl FatalErrorExit
          else res_bind (f ctx currentitem) (\<lambda>ctx'.
            if rest = [] then if room = 0 then Inl OutOfBounds else Inr ctx'
            else from_string_loop f room ctx' (tl rest))))"
  by pat_completeness auto
termination
  by (relation "measure (\<lambda>(f, room, ctx, s). length s)") (auto simp: less_diff_conv split: list.split intro!: Nat.gr0I)

declare from_string_loop.simps [simp del]

definition NewClassesFromString :: "(string \<Rightarrow> string \<Rightarrow> bool) \<Rightarrow> context_state \<Rightarrow> string option \<Rightarrow> context_state res" where
  "NewClassesFromString full_match ctx classlist =
     (case classlist of
        None \<Rightarrow> Inr ctx
      | Some s \<Rightarrow> if length s = 0 then Inr ctx
          else from_string_loop (\<lambda>ctx item. NewClass full_match ctx item None)
            (CF_MAXVARSIZE - 1 - length (clip s)) ctx (clip s))"

definition NegateClassesFromString :: "context_state \<Rightarrow> string option \<Rightarrow> context_state res" where
  "NegateClassesFromString ctx classlist =
     (case classlist of
        None \<Rightarrow> Inr ctx
      | Some s \<Rightarrow> if length s = 0 then Inr ctx
          else from_string_loop (\<lambda>ctx item. Inr (ctx\<lparr>VNEGHEAP := AppendItem (VNEGHEAP ctx) item None\<rparr>))
            (CF_MAXVARSIZE - 1 - length (clip s)) ctx (clip s))"

definition CF_IDRANGE :: string where
  "CF_IDRANGE = ''[a-zA-Z0-9_$(){}'' @ [CHR 0x5C] @ ''['' @ [CHR 0x5C] @ ''].:]+''"

definition CheckParseClass :: "(string \<Rightarrow> string \<Rightarrow> bool) \<Rightarrow> string option \<Rightarrow> string \<Rightarrow> bool" where
  "CheckParseClass full_match s rng =
     (case s of None \<Rightarrow> False | Some t \<Rightarrow> if length rng = 0 then True else FullTextMatch full_match rng t)"

text \<open>The names are not qualified by the namespace of the promise, and a hard class is reported but cancelled all the same.\<close>

fun DeleteAllClasses :: "(string \<Rightarrow> string \<Rightarrow> bool) \<Rightarrow> context_state \<Rightarrow> state_db \<Rightarrow> string list \<Rightarrow> (context_state \<times> state_db) res" where
  "DeleteAllClasses full_match ctx dbp [] = Inr (ctx, dbp)"
| "DeleteAllClasses full_match ctx dbp (item # rp) =
     (if \<not> CheckParseClass full_match (Some item) CF_IDRANGE then Inr (ctx, dbp)
      else res_bind (IsHardClass ctx item) (\<lambda>hard.
        res_bind (CanonifyName item) (\<lambda>c.
          res_bind (DeleteFromAlphaList (VHEAP ctx) c) (\<lambda>heap.
            res_bind (DeleteFromAlphaList (VADDCLASSES ctx) c) (\<lambda>add.
              DeleteAllClasses full_match
                (ctx\<lparr>VHEAP := heap, VADDCLASSES := add, VDELCLASSES := AppendItem (VDELCLASSES ctx) c None\<rparr>)
                (DeletePersistentContext dbp item) rp)))))"

fun AddAllClasses :: "(string \<Rightarrow> string \<Rightarrow> bool) \<Rightarrow> int \<Rightarrow> context_state \<Rightarrow> state_db \<Rightarrow> string \<Rightarrow> string list \<Rightarrow> int \<Rightarrow> statepolicy \<Rightarrow>
    (context_state \<times> state_db) res" where
  "AddAllClasses full_match now ctx dbp namespace [] persist pol = Inr (ctx, dbp)"
| "AddAllClasses full_match now ctx dbp namespace (item # rp) persist pol =
     (let classname = CanonifyNameInPlace item in
      res_bind (IsHardClass ctx classname) (\<lambda>hard.
        res_bind (if persist > 0
                  then res_bind (CanonifyName item) (\<lambda>c. Inr (NewPersistentContext dbp c namespace (word_of_int persist) pol now))
                  else Inr dbp) (\<lambda>dbp'.
          res_bind (NewClass full_match ctx classname (Some namespace)) (\<lambda>ctx'.
            AddAllClasses full_match now ctx' dbp' namespace rp persist pol))))"

section \<open>Time classes, abort, reports, handles\<close>

definition DAY_TEXT :: "string list" where
  "DAY_TEXT = [''Monday'', ''Tuesday'', ''Wednesday'', ''Thursday'', ''Friday'', ''Saturday'', ''Sunday'']"

definition MONTH_TEXT :: "string list" where
  "MONTH_TEXT = [''January'', ''February'', ''March'', ''April'', ''May'', ''June'', ''July'', ''August'', ''September'',
     ''October'', ''November'', ''December'']"

definition SHIFT_TEXT :: "string list" where
  "SHIFT_TEXT = [''Night'', ''Morning'', ''Afternoon'', ''Evening'']"

definition IsStrIn :: "string \<Rightarrow> string list \<Rightarrow> bool" where
  "IsStrIn str strs \<longleftrightarrow> list_ex (\<lambda>t. strcmp str t = 0) strs"

definition IsTimeClass :: "string \<Rightarrow> bool" where
  "IsTimeClass sp \<longleftrightarrow>
     IsStrIn sp DAY_TEXT \<or> IsStrIn sp MONTH_TEXT \<or> IsStrIn sp SHIFT_TEXT \<or>
     starts_with ''Min'' sp \<and> c_isdigit (char_at sp 3) \<or>
     starts_with ''Hr'' sp \<and> c_isdigit (char_at sp 2) \<or>
     starts_with ''Yr'' sp \<and> c_isdigit (char_at sp 2) \<or>
     starts_with ''Day'' sp \<and> c_isdigit (char_at sp 3) \<or>
     starts_with ''GMT'' sp \<and> char_at sp 3 = CHR ''_'' \<or>
     starts_with ''Lcycle'' sp \<or>
     IsStrIn sp [''Q1'', ''Q2'', ''Q3'', ''Q4'']"

definition Abort :: "context_state \<Rightarrow> bool \<times> context_state" where
  "Abort ctx = (if ABORTBUNDLE ctx then (True, ctx\<lparr>ABORTBUNDLE := False\<rparr>) else (False, ctx))"

definition AddAbortClass :: "context_state \<Rightarrow> string \<Rightarrow> string option \<Rightarrow> context_state" where
  "AddAbortClass ctx n cls =
     (if \<not> IsItemIn (ABORTHEAP ctx) (Some n) then ctx\<lparr>ABORTHEAP := AppendItem (ABORTHEAP ctx) n cls\<rparr> else ctx)"

text \<open>The value of \<open>ifvarclass\<close>: \<open>None\<close> without the constraint, \<open>Some None\<close> when its value is not a scalar.\<close>

definition VarClassExcluded :: "context_state \<Rightarrow> string option option \<Rightarrow> string option \<Rightarrow> bool" where
  "VarClassExcluded ctx ifvarclass namespace =
     (case ifvarclass of
        None \<Rightarrow> False
      | Some None \<Rightarrow> True
      | Some (Some cls) \<Rightarrow>
          if CHR ''$'' \<in> set cls \<or> CHR ''@'' \<in> set cls then True
          else \<not> IsDefinedClass ctx (Some cls) namespace)"

text \<open>The iterator returns the items of \<open>alpha_items\<close> one after the other.\<close>

definition ListAlphaList :: "context_state \<Rightarrow> AlphaList \<Rightarrow> char \<Rightarrow> string" where
  "ListAlphaList ctx al sep =
     concat (map (\<lambda>ip. if IsItemIn (VNEGHEAP ctx) (Some (name ip)) then [] else name ip @ [sep]) (alpha_items al))"

definition MarkPromiseHandleDone :: "context_state \<Rightarrow> string \<Rightarrow> string option \<Rightarrow> context_state res" where
  "MarkPromiseHandleDone ctx namespace handle =
     (case handle of
        None \<Rightarrow> Inr ctx
      | Some h \<Rightarrow> res_bind (IdempPrependAlphaList (VHANDLES ctx) (take (CF_BUFSIZE - 1) (namespace @ '':'' @ h)))
          (\<lambda>al. Inr (ctx\<lparr>VHANDLES := al\<rparr>)))"

definition dependency_name :: "string \<Rightarrow> string \<Rightarrow> string" where
  "dependency_name namespace item =
     (if CHR '':'' \<in> set item then item else take (CF_BUFSIZE - 1) (namespace @ '':'' @ item))"

fun MissingDependencies :: "context_state \<Rightarrow> string \<Rightarrow> string list \<Rightarrow> bool res" where
  "MissingDependencies ctx namespace [] = Inr False"
| "MissingDependencies ctx namespace (item # deps) =
     res_bind (InAlphaList (VHANDLES ctx) (dependency_name namespace item)) (\<lambda>kept.
       if \<not> kept then Inr True else MissingDependencies ctx namespace deps)"

end
