(* ===== verification/CF_ClassProofs.thy ===== *)
theory CF_ClassProofs
  imports CF_Classes
begin

text \<open>
  The class contexts of \<open>src/env_context.c\<close>: what a class expression means in a context, what defining a class does to
  each heap (one locale for the three heaps), and the invariant of every run of class operations.
\<close>

section \<open>What a class expression means\<close>

definition namespace_ok :: "string option \<Rightarrow> bool" where
  "namespace_ok namespace \<longleftrightarrow> (\<forall>ns. namespace = Some ns \<longrightarrow> ns = [] \<or> alpha_ok ns)"

definition names :: "Item list \<Rightarrow> string set" where
  "names l = name ` set l"

text \<open>The classes in force, as sets of names.\<close>

definition class_holds :: "context_state \<Rightarrow> string option \<Rightarrow> string \<Rightarrow> bool" where
  "class_holds ctx namespace c \<longleftrightarrow> c = ''any'' \<or>
     (let q = qualified_class c namespace in
        q \<noteq> [] \<and> q \<notin> names (VNEGHEAP ctx) \<and> q \<notin> names (VDELCLASSES ctx) \<and>
        (alpha_mem (VHARDHEAP ctx) c \<or> alpha_mem (VHEAP ctx) q \<or> alpha_mem (VADDCLASSES ctx) q))"

lemma token_char_small: "ValidTokenCharacter c \<Longrightarrow> (of_char c :: nat) < 128"
  by (auto simp: ValidTokenCharacter_def less_eq_char_def split: if_splits)

lemma clip_Cons [simp]: "clip (c # s) = c # take (CF_MAXVARSIZE - 2) s"
  by (simp add: clip_def CF_MAXVARSIZE_def take_Cons')

lemma clip_Nil [simp]: "clip [] = []"
  by (simp add: clip_def)

lemma alpha_ok_Cons [simp]: "alpha_ok (c # s) \<longleftrightarrow> (of_char c :: nat) < 128"
  by (simp add: alpha_ok_def alpha_key_def)

lemma clip_token: "list_all ValidTokenCharacter w \<Longrightarrow> clip w = [] \<or> alpha_ok (clip w)"
  by (cases w) (simp_all add: token_char_small)

lemma qualified_class_ok:
  assumes "namespace_ok namespace" and "list_all ValidTokenCharacter c"
  shows "qualified_class c namespace = [] \<or> alpha_ok (qualified_class c namespace)"
proof -
  have d: "list_all ValidTokenCharacter (drop n c)" for n
    using assms(2) by (auto simp: list_all_iff dest: in_set_dropD)
  have "alpha_ok (clip (ns @ '':'' @ c))" if "namespace = Some ns" for ns
    using assms(1) that by (cases ns) (auto simp: namespace_ok_def)
  then show ?thesis using clip_token [OF assms(2)] clip_token [OF d]
    by (auto simp: qualified_class_def own_namespace_def split: option.split)
qed

lemma in_heap_mem: "alpha_ok s \<Longrightarrow> in_heap al s = alpha_mem al s"
  by (simp add: in_heap_def InAlphaList_mem)

lemma token_ok: "list_all ValidTokenCharacter c \<Longrightarrow> c \<noteq> [] \<Longrightarrow> alpha_ok c"
  by (cases c) (simp_all add: token_char_small)

lemma EvalTokenAsClass_holds:
  assumes "namespace_ok namespace" and "list_all ValidTokenCharacter c" and "c \<noteq> []"
  shows "EvalTokenAsClass ctx namespace c = (if class_holds ctx namespace c then EXP_TRUE else EXP_FALSE)"
  using qualified_class_ok [OF assms(1,2)] token_ok [OF assms(2,3)]
  by (auto simp: EvalTokenAsClass_def class_holds_def Let_def IsItemIn_set names_def in_heap_mem)

lemma EvalString_literal:
  "EvalStringExpression n EvalVarRef = Some w \<Longrightarrow> wf_name n \<Longrightarrow> n = LITERAL w"
proof (induction n arbitrary: w)
  case (CONCAT a b)
  then show ?case by (auto simp: EvalVarRef_def split: option.splits StringExpression.splits)
qed (auto simp: EvalVarRef_def split: option.splits)

definition is_token :: "StringExpression \<Rightarrow> bool" where
  "is_token n \<longleftrightarrow> (case n of LITERAL l \<Rightarrow> True | _ \<Rightarrow> False)"

lemma EvalString_varref: "wf_name n \<Longrightarrow> (EvalStringExpression n EvalVarRef = None) = (\<not> is_token n)"
proof (cases n)
  case (CONCAT a b)
  assume "wf_name n"
  then have "EvalStringExpression n EvalVarRef \<noteq> Some w" for w using EvalString_literal CONCAT by blast
  then show ?thesis using CONCAT by (cases "EvalStringExpression n EvalVarRef") (auto simp: is_token_def)
qed (auto simp: EvalVarRef_def is_token_def split: option.splits)

definition literal_of :: "StringExpression \<Rightarrow> string" where
  "literal_of n = (case n of LITERAL l \<Rightarrow> l | _ \<Rightarrow> [])"

lemma names_wf: "wf_expr e \<Longrightarrow> n \<in> set (names_of e) \<Longrightarrow> wf_name n"
  by (induction e) auto

lemma holds_cong: "(\<And>n. n \<in> set (names_of e) \<Longrightarrow> I n = J n) \<Longrightarrow> holds e I = holds e J"
  by (induction e) auto

lemma IsDefinedClass_show:
  assumes wf: "wf_expr e" and ns: "namespace_ok namespace"
  shows "IsDefinedClass ctx (Some (show_expr 0 e)) namespace \<longleftrightarrow>
    list_all is_token (names_of e) \<and> holds e (\<lambda>n. class_holds ctx namespace (literal_of n))"
proof -
  let ?f = "EvalTokenAsClass ctx namespace"
  have "follows 0 []" by (simp add: follows_def)
  with parse_show [OF wf, of "[]" "[]"]
  have p: "ParseExpression (show_expr 0 e) 0 (length (show_expr 0 e)) = (Some e, length (show_expr 0 e))"
    by (simp add: reads_def)
  have lit: "name_value ?f EvalVarRef n = (if class_holds ctx namespace (literal_of n) then EXP_TRUE else EXP_FALSE)"
    if "n \<in> set (names_of e)" "is_token n" for n
  proof -
    from that(2) obtain l where l: "n = LITERAL l" by (cases n) (auto simp: is_token_def)
    with names_wf [OF wf that(1)] show ?thesis
      by (simp add: name_value_def literal_of_def EvalTokenAsClass_holds [OF ns])
  qed
  have err: "name_value ?f EvalVarRef n = EXP_ERROR \<longleftrightarrow> \<not> is_token n" if "n \<in> set (names_of e)" for n
    using lit [OF that] EvalString_varref [OF names_wf [OF wf that]]
    by (cases "is_token n") (auto simp: name_value_def)
  have e1: "list_ex (\<lambda>n. name_value ?f EvalVarRef n = EXP_ERROR) (names_of e) \<longleftrightarrow> \<not> list_all is_token (names_of e)"
    using err by (auto simp: list_ex_iff list_all_iff)
  have e2: "holds e (\<lambda>n. name_value ?f EvalVarRef n = EXP_TRUE) = holds e (\<lambda>n. class_holds ctx namespace (literal_of n))"
    if "list_all is_token (names_of e)"
    using that lit by (intro holds_cong) (auto simp: list_all_iff)
  show ?thesis
    by (auto simp: IsDefinedClass_def p EvalExpression_reference e1 e2 split: if_splits)
qed

section \<open>Adding a class to a heap\<close>

definition context_wf :: "context_state \<Rightarrow> bool" where
  "context_wf ctx \<longleftrightarrow> alpha_wf (VHEAP ctx) \<and> alpha_wf (VHARDHEAP ctx) \<and> alpha_wf (VADDCLASSES ctx) \<and> alpha_wf (VHANDLES ctx) \<and>
     list_all alpha_wf (PRIVCLASSHEAP ctx)"

lemma IsDefinedClass_abort [simp]: "IsDefinedClass (ctx\<lparr>ABORTBUNDLE := b\<rparr>) cls namespace = IsDefinedClass ctx cls namespace"
proof -
  have "EvalTokenAsClass (ctx\<lparr>ABORTBUNDLE := b\<rparr>) namespace = EvalTokenAsClass ctx namespace"
    by (intro ext) (simp add: EvalTokenAsClass_def Let_def)
  then show ?thesis by (simp only: IsDefinedClass_def)
qed

text \<open>No entry of the abort list is a class in force, and one of the bundle abort list is only if the bundle is aborted.\<close>

definition abort_checked :: "context_state \<Rightarrow> string option \<Rightarrow> bool" where
  "abort_checked ctx namespace \<longleftrightarrow>
     (\<forall>ip \<in> set (ABORTHEAP ctx). \<not> IsDefinedClass ctx (Some (name ip)) namespace) \<and>
     (\<forall>ip \<in> set (ABORTBUNDLEHEAP ctx). IsDefinedClass ctx (Some (name ip)) namespace \<longrightarrow> ABORTBUNDLE ctx)"

lemma check_aborts_Inr:
  "check_aborts ctx namespace = Inr ctx' \<Longrightarrow>
     \<exists>b. ctx' = ctx\<lparr>ABORTBUNDLE := b\<rparr> \<and> (ABORTBUNDLE ctx \<longrightarrow> b) \<and> abort_checked ctx' namespace"
  by (force simp: check_aborts_def abort_checked_def list_ex_iff split: if_splits intro: exI [of _ "ABORTBUNDLE ctx"])

lemma screen_class_Inr:
  "screen_class full_match ctx c = Inr ctx' \<Longrightarrow> \<exists>b. ctx' = ctx\<lparr>ABORTBUNDLE := b\<rparr> \<and> (ABORTBUNDLE ctx \<longrightarrow> b)"
  by (force simp: screen_class_def Let_def split: if_splits intro: exI [of _ "ABORTBUNDLE ctx"])

lemma heap_add:
  assumes "alpha_wf al" "alpha_ok c" "\<not> alpha_mem al c"
  shows "\<exists>al'. PrependAlphaList al c = Inr al' \<and> alpha_wf al' \<and> (\<forall>t. alpha_ok t \<longrightarrow> alpha_mem al' t = (t = c \<or> alpha_mem al t))"
  using IdempPrepend_spec [OF assms(1,2)] assms(2,3) by (auto simp: IdempPrependAlphaList_def InAlphaList_mem)

lemma alpha_index_high: "\<not> alpha_ok (a # r) \<Longrightarrow> alpha_index (a # r) = Inl OutOfBounds"
proof -
  assume "\<not> alpha_ok (a # r)"
  then have "(128 :: nat) \<le> of_char a" by simp
  moreover have "(of_char a :: int) = int (of_char a)" by (simp only: of_nat_of_char)
  moreover have "(of_char a :: nat) < 256" by (rule nat_of_char_less_256)
  ultimately have "signed_char a < 0" by (simp add: signed_char_def Let_def del: of_nat_of_char)
  then show ?thesis by (simp add: alpha_index_def Let_def)
qed

lemma InAlphaList_Inr: "InAlphaList al c = Inr b \<Longrightarrow> c \<noteq> [] \<Longrightarrow> alpha_ok c"
  by (cases c) (auto simp: InAlphaList_def alpha_index_high simp del: alpha_ok_Cons intro: ccontr)

text \<open>
  The interface of the three heaps a class can be put into: reading and writing the heap of a context.  Adding a class
  has the same effect in each.
\<close>

locale class_heap =
  fixes get :: "context_state \<Rightarrow> AlphaList"
    and put :: "context_state \<Rightarrow> AlphaList \<Rightarrow> context_state"
  assumes get_put [simp]: "get (put ctx h) = h"
    and put_get [simp]: "put ctx (get ctx) = ctx"
    and get_abort [simp]: "get (ctx\<lparr>ABORTBUNDLE := b\<rparr>) = get ctx"
    and put_abort [simp]: "put (ctx\<lparr>ABORTBUNDLE := b\<rparr>) h = (put ctx h)\<lparr>ABORTBUNDLE := b\<rparr>"
    and abort_put [simp]: "ABORTBUNDLE (put ctx h) = ABORTBUNDLE ctx"
begin

definition add_class :: "context_state \<Rightarrow> string \<Rightarrow> string option \<Rightarrow> context_state res" where
  "add_class ctx c namespace =
     res_bind (InAlphaList (get ctx) c) (\<lambda>present.
       if present then Inr ctx
       else res_bind (PrependAlphaList (get ctx) c) (\<lambda>heap. check_aborts (put ctx heap) namespace))"

lemma add_class_effect:
  assumes add: "add_class ctx c namespace = Inr ctx'" and wf: "alpha_wf (get ctx)" and c: "c \<noteq> []"
  shows "\<exists>h b. ctx' = (put ctx h)\<lparr>ABORTBUNDLE := b\<rparr> \<and> (ABORTBUNDLE ctx \<longrightarrow> b) \<and> alpha_ok c \<and> alpha_wf h \<and>
    (\<forall>t. alpha_ok t \<longrightarrow> alpha_mem h t = (t = c \<or> alpha_mem (get ctx) t)) \<and>
    (\<not> alpha_mem (get ctx) c \<longrightarrow> abort_checked ctx' namespace)"
proof -
  from add have ok: "alpha_ok c" using c by (auto simp: add_class_def res_bind_eq_Inr dest: InAlphaList_Inr)
  show ?thesis
  proof (cases "alpha_mem (get ctx) c")
    case True
    with add ok have "ctx' = ctx" by (simp add: add_class_def InAlphaList_mem)
    with True ok wf show ?thesis by (intro exI [of _ "get ctx"] exI [of _ "ABORTBUNDLE ctx"]) auto
  next
    case False
    from heap_add [OF wf ok False] obtain h where h: "PrependAlphaList (get ctx) c = Inr h" "alpha_wf h"
      "\<forall>t. alpha_ok t \<longrightarrow> alpha_mem h t = (t = c \<or> alpha_mem (get ctx) t)" by blast
    with add ok False have "check_aborts (put ctx h) namespace = Inr ctx'" by (simp add: add_class_def InAlphaList_mem)
    from check_aborts_Inr [OF this] h ok show ?thesis by auto
  qed
qed

lemma screened_add_effect:
  assumes "res_bind (screen_class full_match ctx c) (\<lambda>ctx. add_class ctx c namespace) = Inr ctx'"
    and "alpha_wf (get ctx)" and "c \<noteq> []"
  shows "\<exists>h b. ctx' = (put ctx h)\<lparr>ABORTBUNDLE := b\<rparr> \<and> (ABORTBUNDLE ctx \<longrightarrow> b) \<and> alpha_ok c \<and> alpha_wf h \<and>
    (\<forall>t. alpha_ok t \<longrightarrow> alpha_mem h t = (t = c \<or> alpha_mem (get ctx) t)) \<and>
    (\<not> alpha_mem (get ctx) c \<longrightarrow> abort_checked ctx' namespace)"
proof -
  from assms(1) obtain ctx1 where s: "screen_class full_match ctx c = Inr ctx1" "add_class ctx1 c namespace = Inr ctx'"
    by (auto simp: res_bind_eq_Inr)
  from screen_class_Inr [OF s(1)] obtain b1 where b1: "ctx1 = ctx\<lparr>ABORTBUNDLE := b1\<rparr>" "ABORTBUNDLE ctx \<longrightarrow> b1" by blast
  with add_class_effect [OF s(2) _ assms(3)] assms(2) show ?thesis by fastforce
qed

end

interpretation soft_heap: class_heap VHEAP "\<lambda>ctx h. ctx\<lparr>VHEAP := h\<rparr>"
  by unfold_locales simp_all

interpretation hard_heap: class_heap VHARDHEAP "\<lambda>ctx h. ctx\<lparr>VHARDHEAP := h\<rparr>"
  by unfold_locales simp_all

interpretation private_heap: class_heap VADDCLASSES "\<lambda>ctx h. ctx\<lparr>VADDCLASSES := h\<rparr>"
  by unfold_locales simp_all

definition class_name :: "string \<Rightarrow> string option \<Rightarrow> string" where
  "class_name oclass namespace =
     (let c = CanonifyNameInPlace (Chop oclass) in
      case own_namespace namespace of Some ns \<Rightarrow> clip (ns @ '':'' @ c) | None \<Rightarrow> c)"

lemma NewClass_effect:
  assumes new: "NewClass full_match ctx oclass namespace = Inr ctx'" and wf: "context_wf ctx"
  shows "\<exists>h b. ctx' = ctx\<lparr>VHEAP := h, ABORTBUNDLE := b\<rparr> \<and> (ABORTBUNDLE ctx \<longrightarrow> b) \<and> context_wf ctx' \<and>
    (class_name oclass namespace \<noteq> [] \<longrightarrow> alpha_ok (class_name oclass namespace)) \<and>
    (\<forall>t. alpha_ok t \<longrightarrow> alpha_mem h t = (t = class_name oclass namespace \<or> alpha_mem (VHEAP ctx) t)) \<and>
    (class_name oclass namespace \<noteq> [] \<and> \<not> alpha_mem (VHEAP ctx) (class_name oclass namespace) \<longrightarrow> abort_checked ctx' namespace)"
proof (cases "class_name oclass namespace = []")
  case True
  with new have "ctx' = ctx" by (simp add: NewClass_def class_name_def Let_def split: if_splits)
  with True wf show ?thesis
    by (intro exI [of _ "VHEAP ctx"] exI [of _ "ABORTBUNDLE ctx"]) (auto simp: alpha_ok_def)
next
  case False
  from new False have "res_bind (screen_class full_match ctx (class_name oclass namespace))
      (\<lambda>ctx. soft_heap.add_class ctx (class_name oclass namespace) namespace) = Inr ctx'"
    by (simp add: NewClass_def class_name_def Let_def soft_heap.add_class_def split: if_splits)
  from soft_heap.screened_add_effect [OF this _ False] wf obtain h b where
    "ctx' = ctx\<lparr>VHEAP := h, ABORTBUNDLE := b\<rparr>" "ABORTBUNDLE ctx \<longrightarrow> b" "alpha_ok (class_name oclass namespace)" "alpha_wf h"
    "\<forall>t. alpha_ok t \<longrightarrow> alpha_mem h t = (t = class_name oclass namespace \<or> alpha_mem (VHEAP ctx) t)"
    "\<not> alpha_mem (VHEAP ctx) (class_name oclass namespace) \<longrightarrow> abort_checked ctx' namespace"
    by (auto simp: context_wf_def)
  with wf show ?thesis by (intro exI [of _ h] exI [of _ b]) (simp add: context_wf_def)
qed

lemma HardClass_effect:
  assumes new: "HardClass full_match ctx oclass = Inr ctx'" and wf: "context_wf ctx"
  shows "\<exists>h b. ctx' = ctx\<lparr>VHARDHEAP := h, ABORTBUNDLE := b\<rparr> \<and> (ABORTBUNDLE ctx \<longrightarrow> b) \<and> context_wf ctx' \<and>
    (\<forall>t. alpha_ok t \<longrightarrow> alpha_mem h t = (t = class_name oclass None \<or> alpha_mem (VHARDHEAP ctx) t)) \<and>
    (class_name oclass None \<noteq> [] \<and> \<not> alpha_mem (VHARDHEAP ctx) (class_name oclass None) \<longrightarrow> abort_checked ctx' None)"
proof (cases "class_name oclass None = []")
  case True
  with new have "ctx' = ctx" by (simp add: HardClass_def class_name_def own_namespace_def Let_def split: if_splits)
  with True wf show ?thesis
    by (intro exI [of _ "VHARDHEAP ctx"] exI [of _ "ABORTBUNDLE ctx"]) (auto simp: alpha_ok_def)
next
  case False
  from new False have "res_bind (screen_class full_match ctx (class_name oclass None))
      (\<lambda>ctx. hard_heap.add_class ctx (class_name oclass None) None) = Inr ctx'"
    by (simp add: HardClass_def class_name_def own_namespace_def Let_def hard_heap.add_class_def split: if_splits)
  from hard_heap.screened_add_effect [OF this _ False] wf obtain h b where
    "ctx' = ctx\<lparr>VHARDHEAP := h, ABORTBUNDLE := b\<rparr>" "ABORTBUNDLE ctx \<longrightarrow> b" "alpha_ok (class_name oclass None)" "alpha_wf h"
    "\<forall>t. alpha_ok t \<longrightarrow> alpha_mem h t = (t = class_name oclass None \<or> alpha_mem (VHARDHEAP ctx) t)"
    "\<not> alpha_mem (VHARDHEAP ctx) (class_name oclass None) \<longrightarrow> abort_checked ctx' None"
    by (auto simp: context_wf_def)
  with wf show ?thesis by (intro exI [of _ h] exI [of _ b]) (simp add: context_wf_def)
qed

definition bundle_class_name :: "string \<Rightarrow> string option \<Rightarrow> string" where
  "bundle_class_name cls namespace =
     Chop (case own_namespace namespace of Some ns \<Rightarrow> clip (ns @ '':'' @ cls) | None \<Rightarrow> cls)"

lemma NewBundleClass_effect:
  assumes new: "NewBundleClass full_match ctx cls namespace = Inr ctx'" and wf: "context_wf ctx"
  shows "\<exists>h b. ctx' = ctx\<lparr>VADDCLASSES := h, ABORTBUNDLE := b\<rparr> \<and> (ABORTBUNDLE ctx \<longrightarrow> b) \<and> context_wf ctx' \<and>
    (\<forall>t. alpha_ok t \<longrightarrow> alpha_mem h t = (t = bundle_class_name cls namespace \<or> alpha_mem (VADDCLASSES ctx) t)) \<and>
    (bundle_class_name cls namespace \<noteq> [] \<and> \<not> alpha_mem (VADDCLASSES ctx) (bundle_class_name cls namespace) \<longrightarrow>
      abort_checked ctx' namespace)"
proof (cases "bundle_class_name cls namespace = []")
  case True
  with new have "ctx' = ctx" by (simp add: NewBundleClass_def bundle_class_name_def Let_def split: if_splits)
  with True wf show ?thesis
    by (intro exI [of _ "VADDCLASSES ctx"] exI [of _ "ABORTBUNDLE ctx"]) (auto simp: alpha_ok_def)
next
  case False
  from new False have "res_bind (screen_class full_match ctx (bundle_class_name cls namespace))
      (\<lambda>ctx. res_bind (InAlphaList (VHEAP ctx) (bundle_class_name cls namespace)) (\<lambda>_.
        private_heap.add_class ctx (bundle_class_name cls namespace) namespace)) = Inr ctx'"
    by (simp add: NewBundleClass_def bundle_class_name_def Let_def private_heap.add_class_def split: if_splits)
  then have "res_bind (screen_class full_match ctx (bundle_class_name cls namespace))
      (\<lambda>ctx. private_heap.add_class ctx (bundle_class_name cls namespace) namespace) = Inr ctx'"
    by (auto simp: res_bind_eq_Inr)
  from private_heap.screened_add_effect [OF this _ False] wf obtain h b where
    "ctx' = ctx\<lparr>VADDCLASSES := h, ABORTBUNDLE := b\<rparr>" "ABORTBUNDLE ctx \<longrightarrow> b" "alpha_ok (bundle_class_name cls namespace)" "alpha_wf h"
    "\<forall>t. alpha_ok t \<longrightarrow> alpha_mem h t = (t = bundle_class_name cls namespace \<or> alpha_mem (VADDCLASSES ctx) t)"
    "\<not> alpha_mem (VADDCLASSES ctx) (bundle_class_name cls namespace) \<longrightarrow> abort_checked ctx' namespace"
    by (auto simp: context_wf_def)
  with wf show ?thesis by (intro exI [of _ h] exI [of _ b]) (simp add: context_wf_def)
qed

section \<open>Runs of class operations\<close>

lemma DeleteFromAlphaList_wf: "DeleteFromAlphaList al s = Inr al' \<Longrightarrow> alpha_wf al \<Longrightarrow> alpha_wf al'"
proof -
  assume d: "DeleteFromAlphaList al s = Inr al'" and wf: "alpha_wf al"
  from d obtain i where al': "al' = al(i := snd (DeleteItemLiteral (al i) s))"
    by (auto simp: DeleteFromAlphaList_def res_bind_eq_Inr)
  with wf DeleteItemLiteral_subset [of "al i" s] show ?thesis
    by (auto simp: alpha_wf_def DeleteItemLiteral_names)
qed

lemma DeleteClass_wf: "DeleteClass ctx c namespace = Inr ctx' \<Longrightarrow> context_wf ctx \<Longrightarrow> context_wf ctx'"
  by (auto simp: DeleteClass_def Let_def res_bind_eq_Inr context_wf_def DeleteFromAlphaList_wf split: if_splits)

lemma DeleteHardClass_wf: "DeleteHardClass ctx c = Inr ctx' \<Longrightarrow> context_wf ctx \<Longrightarrow> context_wf ctx'"
  by (auto simp: DeleteHardClass_def res_bind_eq_Inr context_wf_def DeleteFromAlphaList_wf)

lemma Delete_frame:
  "DeleteClass ctx c namespace = Inr ctx' \<Longrightarrow> PRIVCLASSHEAP ctx' = PRIVCLASSHEAP ctx"
  "DeleteHardClass ctx c = Inr ctx' \<Longrightarrow> PRIVCLASSHEAP ctx' = PRIVCLASSHEAP ctx \<and> VADDCLASSES ctx' = VADDCLASSES ctx"
  by (auto simp: DeleteClass_def DeleteHardClass_def Let_def res_bind_eq_Inr split: if_splits)

text \<open>Heaps with the same names in every list.\<close>

definition same_names :: "AlphaList \<Rightarrow> AlphaList \<Rightarrow> bool" where
  "same_names al al' \<longleftrightarrow> (\<forall>i. map name (al i) = map name (al' i))"

lemma same_names_refl [simp]: "same_names al al"
  by (simp add: same_names_def)

lemma same_names_trans: "same_names a b \<Longrightarrow> same_names b c \<Longrightarrow> same_names a c"
  by (simp add: same_names_def)

lemma same_names_wf: "same_names al al' \<Longrightarrow> alpha_wf al \<Longrightarrow> alpha_wf al'"
proof -
  assume s: "same_names al al'" and wf: "alpha_wf al"
  from s have img: "name ` set (al' i) = name ` set (al i)" for i
    unfolding same_names_def by (metis list.set_map)
  have "alpha_ok (name ip) \<and> alpha_key (name ip) = i" if "ip \<in> set (al' i)" for ip i
  proof -
    from that img have "name ip \<in> name ` set (al i)" by blast
    with wf show ?thesis by (auto simp: alpha_wf_def)
  qed
  with wf s show ?thesis by (auto simp: alpha_wf_def same_names_def)
qed

lemma same_names_mem: "same_names al al' \<Longrightarrow> alpha_mem al' s = alpha_mem al s"
  unfolding same_names_def alpha_mem_def by (metis list.set_map)

lemma Dup_same_names: "DupAlphaListPointers al = (al1, al2) \<Longrightarrow> al1 = al \<and> same_names al al2"
  by (auto simp: DupAlphaListPointers_def same_names_def copy_list_names)

lemma Push_effect:
  "\<exists>top h. PushPrivateClassContext ctx inherit = ctx\<lparr>PRIVCLASSHEAP := top # PRIVCLASSHEAP ctx, VADDCLASSES := h\<rparr> \<and>
     same_names (VADDCLASSES ctx) top \<and> h = (if inherit then VADDCLASSES ctx else InitAlphaList)"
proof (cases inherit)
  case True
  obtain a b where "DupAlphaListPointers (VADDCLASSES ctx) = (a, b)" by force
  with Dup_same_names [OF this] True show ?thesis
    by (auto simp: PushPrivateClassContext_def CopyAlphaListPointers_def)
qed (auto simp: PushPrivateClassContext_def CopyAlphaListPointers_def)

lemma Init_wf: "alpha_wf InitAlphaList"
  by (simp add: alpha_wf_def InitAlphaList_def)

lemma Push_wf: "context_wf ctx \<Longrightarrow> context_wf (PushPrivateClassContext ctx inherit)"
  using Push_effect [of ctx inherit] by (auto simp: context_wf_def Init_wf dest: same_names_wf)

lemma Pop_wf: "PopPrivateClassContext ctx = Inr ctx' \<Longrightarrow> context_wf ctx \<Longrightarrow> context_wf ctx'"
  by (auto simp: PopPrivateClassContext_def CopyAlphaListPointers_def context_wf_def split: list.splits)

text \<open>
  What an agent does to the contexts while it runs a bundle: define and cancel classes, and run other bundles between
  a push and a pop.
\<close>

datatype class_op =
    DefineGlobal string "string option"
  | DefineBundle string "string option"
  | DefineHard string
  | Undefine string "string option"
  | UndefineHard string
  | CallBundle bool "class_op list"

fun run_op :: "(string \<Rightarrow> string \<Rightarrow> bool) \<Rightarrow> class_op \<Rightarrow> context_state \<Rightarrow> context_state res"
  and run_ops :: "(string \<Rightarrow> string \<Rightarrow> bool) \<Rightarrow> class_op list \<Rightarrow> context_state \<Rightarrow> context_state res" where
  "run_op full_match (DefineGlobal c ns) ctx = NewClass full_match ctx c ns"
| "run_op full_match (DefineBundle c ns) ctx = NewBundleClass full_match ctx c ns"
| "run_op full_match (DefineHard c) ctx = HardClass full_match ctx c"
| "run_op full_match (Undefine c ns) ctx = DeleteClass ctx c ns"
| "run_op full_match (UndefineHard c) ctx = DeleteHardClass ctx c"
| "run_op full_match (CallBundle inherit ops) ctx =
     res_bind (run_ops full_match ops (PushPrivateClassContext ctx inherit)) PopPrivateClassContext"
| "run_ops full_match [] ctx = Inr ctx"
| "run_ops full_match (x # ops) ctx = res_bind (run_op full_match x ctx) (run_ops full_match ops)"

lemma class_run_wf:
  "run_op full_match x ctx = Inr ctx' \<Longrightarrow> context_wf ctx \<Longrightarrow> context_wf ctx'"
  "run_ops full_match ops ctx = Inr ctx' \<Longrightarrow> context_wf ctx \<Longrightarrow> context_wf ctx'"
proof (induction full_match x ctx and full_match ops ctx arbitrary: ctx' and ctx' rule: run_op_run_ops.induct)
  case (1 fm c ns ctx)
  then show ?case using NewClass_effect [of fm ctx c ns ctx'] by auto
next
  case (2 fm c ns ctx)
  then show ?case using NewBundleClass_effect [of fm ctx c ns ctx'] by auto
next
  case (3 fm c ctx)
  then show ?case using HardClass_effect [of fm ctx c ctx'] by auto
next
  case (6 fm inherit ops ctx)
  then show ?case by (auto simp: res_bind_eq_Inr Push_wf intro: Pop_wf)
next
  case (8 fm x ops ctx)
  then show ?case by (auto simp: res_bind_eq_Inr)
qed (auto simp: DeleteClass_wf DeleteHardClass_wf)

text \<open>No operation changes the stack of saved contexts, and a bundle call leaves the private classes of the caller.\<close>

lemma run_stack:
  "run_op full_match x ctx = Inr ctx' \<Longrightarrow> context_wf ctx \<Longrightarrow> PRIVCLASSHEAP ctx' = PRIVCLASSHEAP ctx"
  "run_ops full_match ops ctx = Inr ctx' \<Longrightarrow> context_wf ctx \<Longrightarrow> PRIVCLASSHEAP ctx' = PRIVCLASSHEAP ctx"
proof (induction full_match x ctx and full_match ops ctx arbitrary: ctx' and ctx' rule: run_op_run_ops.induct)
  case (1 fm c ns ctx)
  then show ?case using NewClass_effect [of fm ctx c ns ctx'] by auto
next
  case (2 fm c ns ctx)
  then show ?case using NewBundleClass_effect [of fm ctx c ns ctx'] by auto
next
  case (3 fm c ctx)
  then show ?case using HardClass_effect [of fm ctx c ctx'] by auto
next
  case (6 fm inherit ops ctx)
  from "6.prems"(1) obtain ctx1 where r: "run_ops fm ops (PushPrivateClassContext ctx inherit) = Inr ctx1"
    and p: "PopPrivateClassContext ctx1 = Inr ctx'" by (auto simp: res_bind_eq_Inr)
  from "6.IH" [OF r Push_wf [OF "6.prems"(2)]] Push_effect [of ctx inherit] p show ?case
    by (auto simp: PopPrivateClassContext_def)
next
  case (8 fm x ops ctx)
  from "8.prems"(1) obtain ctx1 where x: "run_op fm x ctx = Inr ctx1" "run_ops fm ops ctx1 = Inr ctx'"
    by (auto simp: res_bind_eq_Inr)
  from "8.IH"(2) [OF x(1) x(2) class_run_wf(1) [OF x(1) "8.prems"(2)]] "8.IH"(1) [OF x(1) "8.prems"(2)] show ?case by simp
qed (auto dest: Delete_frame)

lemma call_restores:
  assumes "run_op full_match (CallBundle inherit ops) ctx = Inr ctx'" and "context_wf ctx"
  shows "same_names (VADDCLASSES ctx) (VADDCLASSES ctx')"
proof -
  from assms(1) obtain ctx1 where r: "run_ops full_match ops (PushPrivateClassContext ctx inherit) = Inr ctx1"
    and p: "PopPrivateClassContext ctx1 = Inr ctx'" by (auto simp: res_bind_eq_Inr)
  from run_stack(2) [OF r Push_wf [OF assms(2)]] Push_effect [of ctx inherit] p show ?thesis
    by (auto simp: PopPrivateClassContext_def CopyAlphaListPointers_def)
qed

section \<open>Properties of the class contexts\<close>

definition plain_identifier :: "string \<Rightarrow> bool" where
  "plain_identifier c \<longleftrightarrow> c \<noteq> [] \<and> list_all (\<lambda>x. c_isalnum x \<or> x = CHR ''_'') c"

definition fits :: "string \<Rightarrow> string option \<Rightarrow> bool" where
  "fits c namespace \<longleftrightarrow> length c + (case namespace of None \<Rightarrow> 0 | Some ns \<Rightarrow> length ns + 1) < CF_MAXVARSIZE"

lemma identifier_char:
  assumes "c_isalnum x \<or> x = CHR ''_''"
  shows "ValidTokenCharacter x" "x \<noteq> CHR '':''" "x \<noteq> CHR ''.''" "\<not> c_isspace x"
  using assms
  by (auto simp: c_isalnum_def c_isupper_def c_islower_def c_isdigit_def ValidTokenCharacter_def c_isspace_def less_eq_char_def
      of_char_eq_iff)

lemma identifier_facts:
  assumes "plain_identifier c"
  shows "list_all ValidTokenCharacter c" "CHR '':'' \<notin> set c" "CanonifyNameInPlace c = c" "Chop c = c" "wf_expr (EVAL_op (LITERAL c))"
proof -
  from assms have all: "c_isalnum x \<or> x = CHR ''_''" if "x \<in> set c" for x using that by (auto simp: plain_identifier_def list_all_iff)
  show v: "list_all ValidTokenCharacter c" using identifier_char(1) [OF all] by (simp add: list_all_iff)
  show "CHR '':'' \<notin> set c" using identifier_char(2) [OF all] by blast
  have "(if \<not> c_isalnum x \<or> x = CHR ''.'' then CHR ''_'' else x) = x" if "x \<in> set c" for x
    using all [OF that] identifier_char(3) [OF all [OF that]] by auto
  then show "CanonifyNameInPlace c = c" by (simp add: CanonifyNameInPlace_def map_idI)
  from assms have "c \<noteq> []" by (simp add: plain_identifier_def)
  then show "Chop c = c" using identifier_char(4) [OF all [OF last_in_set]] by (intro Chop_no_blank) auto
  from v \<open>c \<noteq> []\<close> show "wf_expr (EVAL_op (LITERAL c))" by simp
qed

lemma identifier_names:
  assumes "plain_identifier c" and "fits c namespace"
  shows "class_name c namespace = qualified_class c namespace" "class_name c namespace \<noteq> []" "length c < CF_MAXVARSIZE"
proof -
  from assms have len: "length c < CF_MAXVARSIZE" by (auto simp: fits_def split: option.splits)
  then show "length c < CF_MAXVARSIZE" .
  from assms(1) have "c \<noteq> []" by (simp add: plain_identifier_def)
  then show "class_name c namespace \<noteq> []"
    using identifier_facts [OF assms(1)]
    by (auto simp: class_name_def Let_def clip_def CF_MAXVARSIZE_def split: option.split)
  from len have "clip c = c" by (simp add: clip_def)
  then show "class_name c namespace = qualified_class c namespace"
    using identifier_facts [OF assms(1)] by (auto simp: class_name_def qualified_class_def Let_def split: option.split)
qed

text \<open>C7: A class expression holds in a context exactly when it has no variable reference left and is true in classical
  logic, a name being true when it is \<open>any\<close>, or when it is neither negated nor cancelled and is a hard class, or its
  qualified name is a global class or a private class of the bundle.\<close>

lemma IsDefinedClass_meaning:
  assumes "wf_expr e" and "namespace_ok namespace"
  shows "IsDefinedClass ctx (Some (show_expr 0 e)) namespace \<longleftrightarrow>
    list_all is_token (names_of e) \<and> holds e (\<lambda>n. class_holds ctx namespace (literal_of n))"
  by (rule IsDefinedClass_show [OF assms])

lemma IsDefinedClass_meaning_witness:
  "IsDefinedClass initial_context (Some (show_expr 0 sample_expr)) (Some ''ns'') \<longleftrightarrow>
    list_all is_token (names_of sample_expr) \<and> holds sample_expr (\<lambda>n. class_holds initial_context (Some ''ns'') (literal_of n))"
  by (rule IsDefinedClass_meaning [OF sample_expr_wf]) (simp add: namespace_ok_def)

text \<open>C8: When \<open>NewClass\<close> returns for a plain identifier that fits the buffer with its namespace and is neither negated nor cancelled
  there, the new class holds in its namespace, every other class holds exactly if it did before, and the context stays well formed.\<close>

lemma NewClass_defines:
  assumes "NewClass full_match ctx c namespace = Inr ctx'" and "context_wf ctx" and "namespace_ok namespace"
    and "plain_identifier c" and "fits c namespace"
    and "class_name c namespace \<notin> names (VNEGHEAP ctx) \<union> names (VDELCLASSES ctx)"
  shows "IsDefinedClass ctx' (Some c) namespace \<and> context_wf ctx' \<and>
    (\<forall>d ns. namespace_ok ns \<and> list_all ValidTokenCharacter d \<and> d \<noteq> [] \<and> qualified_class d ns \<noteq> class_name c namespace \<longrightarrow>
      class_holds ctx' ns d = class_holds ctx ns d)"
proof -
  note n = identifier_names [OF assms(4,5)]
  from NewClass_effect [OF assms(1,2)] obtain h b where
    e: "ctx' = ctx\<lparr>VHEAP := h, ABORTBUNDLE := b\<rparr>" "context_wf ctx'" "alpha_ok (class_name c namespace)"
    "\<forall>t. alpha_ok t \<longrightarrow> alpha_mem h t = (t = class_name c namespace \<or> alpha_mem (VHEAP ctx) t)"
    using n(2) by blast
  have "class_holds ctx' namespace c"
    using assms(6) n(1,2) e(3,4) by (auto simp: class_holds_def e(1) Let_def)
  then have "IsDefinedClass ctx' (Some c) namespace"
    using IsDefinedClass_show [OF identifier_facts(5) [OF assms(4)] assms(3), of ctx']
    by (simp add: is_token_def literal_of_def)
  moreover have "class_holds ctx' ns d = class_holds ctx ns d"
    if "namespace_ok ns" "list_all ValidTokenCharacter d" "qualified_class d ns \<noteq> class_name c namespace" for d ns
    using qualified_class_ok [OF that(1,2)] that(3) e(4) by (auto simp: class_holds_def e(1) Let_def)
  ultimately show ?thesis using e(2) by blast
qed

lemma initial_wf: "context_wf initial_context"
  by (simp add: context_wf_def initial_context_def Init_wf)

definition no_match :: "string \<Rightarrow> string \<Rightarrow> bool" where
  "no_match re s = False"

definition web_context :: context_state where
  "web_context = initial_context\<lparr>VHEAP := (InitAlphaList)(119 := [new_item ''web'' None])\<rparr>"

lemma NewClass_web_stack:
  "own_namespace namespace = None \<Longrightarrow>
     NewClass no_match (initial_context\<lparr>PRIVCLASSHEAP := st\<rparr>) ''web'' namespace = Inr (web_context\<lparr>PRIVCLASSHEAP := st\<rparr>)"
  by (simp add: NewClass_def web_context_def CF_MAXVARSIZE_def Chop_def CF_EXPANDSIZE_def CF_BUFSIZE_def c_isspace_def
      CanonifyNameInPlace_def c_isalnum_def c_isupper_def c_islower_def c_isdigit_def screen_class_def initial_context_def
      InAlphaList_def PrependAlphaList_def alpha_index_def signed_char_def check_aborts_def InitAlphaList_def IsItemIn_def
      no_item_def PrependItem_def Let_def)

lemma NewClass_web: "NewClass no_match initial_context ''web'' None = Inr web_context"
  using NewClass_web_stack [of None "[]"] by (simp add: initial_context_def web_context_def own_namespace_def)

lemma NewClass_defines_witness:
  "IsDefinedClass web_context (Some ''web'') None \<and> context_wf web_context \<and>
     class_holds web_context None ''db'' = class_holds initial_context None ''db''"
proof -
  have "plain_identifier ''web''" "fits ''web'' None" "namespace_ok None" "list_all ValidTokenCharacter ''db''"
    "class_name ''web'' None \<notin> names (VNEGHEAP initial_context) \<union> names (VDELCLASSES initial_context)"
    by (simp_all add: plain_identifier_def c_isalnum_def c_isupper_def c_islower_def c_isdigit_def fits_def CF_MAXVARSIZE_def
        namespace_ok_def ValidTokenCharacter_def names_def initial_context_def)
  moreover have "qualified_class ''db'' None \<noteq> class_name ''web'' None"
    using identifier_names(1) [of "''web''" None] calculation(1,2)
    by (simp add: qualified_class_def own_namespace_def)
  ultimately show ?thesis using NewClass_defines [OF NewClass_web initial_wf, of] by simp
qed

definition guarded :: "context_state \<Rightarrow> context_state" where
  "guarded ctx = ctx\<lparr>ABORTHEAP := [new_item ''db'' None]\<rparr>"

lemma not_db: "\<not> IsDefinedClass (guarded web_context) (Some ''db'') None"
proof -
  have "plain_identifier ''db''" by (simp add: plain_identifier_def c_isalnum_def c_isupper_def c_islower_def c_isdigit_def)
  from IsDefinedClass_show [OF identifier_facts(5) [OF this], of None "guarded web_context"] show ?thesis
    by (simp add: namespace_ok_def is_token_def literal_of_def class_holds_def qualified_class_def own_namespace_def clip_def CF_MAXVARSIZE_def
        guarded_def web_context_def initial_context_def InitAlphaList_def alpha_mem_def alpha_key_def new_item_def)
qed

lemma NewClass_guarded: "NewClass no_match (guarded initial_context) ''web'' None = Inr (guarded web_context)"
proof -
  have ctx: "guarded initial_context\<lparr>VHEAP := InitAlphaList(119 := [new_item ''web'' None])\<rparr> = guarded web_context"
    by (simp add: guarded_def web_context_def)
  have "check_aborts (guarded web_context) None = Inr (guarded web_context)"
    using not_db by (simp add: check_aborts_def guarded_def web_context_def initial_context_def new_item_def)
  then show ?thesis
    using ctx
    by (simp add: NewClass_def own_namespace_def CF_MAXVARSIZE_def Chop_def CF_EXPANDSIZE_def CF_BUFSIZE_def c_isspace_def
      CanonifyNameInPlace_def c_isalnum_def c_isupper_def c_islower_def c_isdigit_def screen_class_def guarded_def initial_context_def
      InAlphaList_def PrependAlphaList_def alpha_index_def signed_char_def InitAlphaList_def IsItemIn_def FullTextMatch_def no_match_def
      no_item_def PrependItem_def new_item_def Let_def)
qed

text \<open>C9: The abort lists are a safety property: when defining a class that was not there before returns, no expression of
  the abort list holds, and if one of the bundle abort list holds the bundle is marked to be aborted.\<close>

lemma NewClass_abort_safe:
  assumes "NewClass full_match ctx c namespace = Inr ctx'" and "context_wf ctx"
    and "class_name c namespace \<noteq> []" and "\<not> alpha_mem (VHEAP ctx) (class_name c namespace)"
  shows "(\<forall>ip \<in> set (ABORTHEAP ctx'). \<not> IsDefinedClass ctx' (Some (name ip)) namespace) \<and>
    (\<forall>ip \<in> set (ABORTBUNDLEHEAP ctx'). IsDefinedClass ctx' (Some (name ip)) namespace \<longrightarrow> ABORTBUNDLE ctx')"
  using NewClass_effect [OF assms(1,2)] assms(3,4) by (auto simp: abort_checked_def)

lemma NewClass_abort_safe_witness:
  "\<not> IsDefinedClass (guarded web_context) (Some ''db'') None \<and>
     (\<exists>b. NewClass no_match (guarded initial_context) ''web'' None = Inr b \<and> ABORTHEAP b = [new_item ''db'' None])"
proof -
  have n: "class_name ''web'' None = ''web''"
    using identifier_names(1) [of "''web''" None]
    by (simp add: plain_identifier_def fits_def c_isalnum_def c_isupper_def c_islower_def c_isdigit_def CF_MAXVARSIZE_def
        qualified_class_def own_namespace_def clip_def)
  have "context_wf (guarded initial_context)" using initial_wf by (simp add: context_wf_def guarded_def)
  moreover have "\<not> alpha_mem (VHEAP (guarded initial_context)) (class_name ''web'' None)"
    by (simp add: n guarded_def alpha_mem_def initial_context_def InitAlphaList_def)
  ultimately show ?thesis
    using NewClass_abort_safe [OF NewClass_guarded] n NewClass_guarded by (simp add: guarded_def new_item_def)
qed

text \<open>C10: Every run of class operations, bundle calls nested to any depth included, keeps the heaps well formed (each class is
  filed under its first character) and leaves the stack of saved private contexts as it found it.\<close>

lemma class_run_invariant:
  assumes "run_ops full_match ops ctx = Inr ctx'" and "context_wf ctx"
  shows "context_wf ctx' \<and> PRIVCLASSHEAP ctx' = PRIVCLASSHEAP ctx"
  using class_run_wf(2) [OF assms] run_stack(2) [OF assms] by blast

lemma class_run_invariant_witness:
  "context_wf web_context \<and> PRIVCLASSHEAP web_context = PRIVCLASSHEAP initial_context"
  by (rule class_run_invariant [OF _ initial_wf, of no_match "[DefineGlobal ''web'' None]"]) (simp add: NewClass_web)

text \<open>A bundle call, whatever the callee does and whether or not it inherits, gives the caller back the same private classes
  in the same order.\<close>

lemma bundle_call_restores:
  assumes "run_op full_match (CallBundle inherit ops) ctx = Inr ctx'" and "context_wf ctx"
  shows "(\<forall>c. alpha_mem (VADDCLASSES ctx') c = alpha_mem (VADDCLASSES ctx) c) \<and>
    (\<forall>i. map name (VADDCLASSES ctx' i) = map name (VADDCLASSES ctx i))"
proof -
  note s = call_restores [OF assms]
  have "\<forall>c. alpha_mem (VADDCLASSES ctx') c = alpha_mem (VADDCLASSES ctx) c" using same_names_mem [OF s] by blast
  moreover have "\<forall>i. map name (VADDCLASSES ctx' i) = map name (VADDCLASSES ctx i)" using s by (simp add: same_names_def del: map_eq_conv)
  ultimately show ?thesis by blast
qed

lemma bundle_call_restores_witness:
  "(\<forall>c. alpha_mem (VADDCLASSES web_context) c = alpha_mem (VADDCLASSES initial_context) c) \<and>
    (\<forall>i. map name (VADDCLASSES web_context i) = map name (VADDCLASSES initial_context i))"
proof (rule bundle_call_restores [OF _ initial_wf])
  have "PushPrivateClassContext initial_context False = initial_context\<lparr>PRIVCLASSHEAP := [InitAlphaList]\<rparr>"
    by (simp add: PushPrivateClassContext_def CopyAlphaListPointers_def initial_context_def)
  then show "run_op no_match (CallBundle False [DefineGlobal ''web'' None]) initial_context = Inr web_context"
    using NewClass_web_stack [of None "[InitAlphaList]"]
    by (simp add: own_namespace_def PopPrivateClassContext_def CopyAlphaListPointers_def web_context_def initial_context_def)
qed

section \<open>Persistent classes\<close>

text \<open>The class an entry of the state database stands for, as it is kept in the heap.\<close>

definition key_class :: "string \<Rightarrow> string" where
  "key_class key = (if CHR '':'' \<in> set key then class_name (snd (scan_key key)) (Some (fst (scan_key key))) else class_name key None)"

lemma load_loop_effect:
  "load_loop full_match now ctx db = Inr (ctx', db') \<Longrightarrow> context_wf ctx \<Longrightarrow>
     context_wf ctx' \<and> db' = filter (\<lambda>(key, q). now \<le> int (unat (expires q))) db \<and>
     (\<forall>t. alpha_ok t \<longrightarrow> alpha_mem (VHEAP ctx') t = (alpha_mem (VHEAP ctx) t \<or> (\<exists>(key, q) \<in> set db'. key_class key = t))) \<and>
     (\<forall>(key, q) \<in> set db'. key_class key \<noteq> [] \<longrightarrow> alpha_ok (key_class key))"
proof (induction full_match now ctx db arbitrary: ctx' db' rule: load_loop.induct)
  case (1 full_match now ctx)
  then show ?case by simp
next
  case (2 full_match now ctx key q db)
  show ?case
  proof (cases "now > int (unat (expires q))")
    case True
    with 2 show ?thesis by simp
  next
    case False
    with "2.prems"(1) obtain ctx1 db1 where a: "load_class full_match ctx key = Inr ctx1"
      and b: "load_loop full_match now ctx1 db = Inr (ctx', db1)" and db': "db' = (key, q) # db1"
      by (auto simp: res_bind_eq_Inr)
    obtain c ns where n: "NewClass full_match ctx c ns = Inr ctx1" and cn: "class_name c ns = key_class key"
      using a by (auto simp: load_class_def key_class_def split: if_splits prod.splits)
    note e = NewClass_effect [OF n "2.prems"(2)]
    then have wf1: "context_wf ctx1" by blast
    note ih = "2.IH"(2) [OF False a b wf1]
    from e obtain h bb where h: "ctx1 = ctx\<lparr>VHEAP := h, ABORTBUNDLE := bb\<rparr>"
      "class_name c ns \<noteq> [] \<longrightarrow> alpha_ok (class_name c ns)"
      "\<forall>t. alpha_ok t \<longrightarrow> alpha_mem h t = (t = class_name c ns \<or> alpha_mem (VHEAP ctx) t)" by blast
    from ih h False db' show ?thesis unfolding cn by auto
  qed
qed

text \<open>C15: Loading the persistent classes deletes exactly the expired entries of the state database.  Of the names a heap can hold, the
  global classes afterwards are those before and the classes of the entries that are left, whose keys may name a namespace or not; and every
  class of an entry that is not blank is such a name.\<close>

lemma LoadPersistentContext_loads:
  assumes "LoadPersistentContext full_match False now ctx (Some db) = Inr (ctx', dbp')" and "context_wf ctx"
  defines "left \<equiv> filter (\<lambda>(key, q). now \<le> int (unat (expires q))) db"
  shows "dbp' = Some left \<and> context_wf ctx' \<and>
    (\<forall>t. alpha_ok t \<longrightarrow> alpha_mem (VHEAP ctx') t = (alpha_mem (VHEAP ctx) t \<or> (\<exists>(key, q) \<in> set left. key_class key = t))) \<and>
    (\<forall>(key, q) \<in> set left. key_class key \<noteq> [] \<longrightarrow> alpha_ok (key_class key))"
proof -
  from assms(1) obtain db' where l: "load_loop full_match now ctx db = Inr (ctx', db')" "dbp' = Some db'"
    by (auto simp: LoadPersistentContext_def res_bind_eq_Inr)
  from load_loop_effect [OF l(1) assms(2)] l(2) show ?thesis by (simp add: left_def)
qed

definition sample_db :: "(string \<times> CfState) list" where
  "sample_db = [(''default:old'', \<lparr>expires = 5, policy = cfreset\<rparr>), (''default:web'', \<lparr>expires = 20, policy = cfpreserve\<rparr>)]"

lemma load_sample:
  "LoadPersistentContext no_match False 10 initial_context (Some sample_db) =
     Inr (web_context, Some [(''default:web'', \<lparr>expires = 20, policy = cfpreserve\<rparr>)])"
proof -
  have "NewClass no_match initial_context ''web'' (Some ''default'') = Inr web_context"
    using NewClass_web_stack [of "Some ''default''" "[]"] by (simp add: initial_context_def web_context_def own_namespace_def)
  then show ?thesis
    by (simp add: LoadPersistentContext_def sample_db_def load_class_def scan_key_def CF_MAXVARSIZE_def)
qed

lemma LoadPersistentContext_loads_witness:
  "Some [(''default:web'', \<lparr>expires = 20, policy = cfpreserve\<rparr>)] =
      Some (filter (\<lambda>(key, q). (10 :: int) \<le> int (unat (expires q))) sample_db) \<and> context_wf web_context \<and>
    alpha_mem (VHEAP web_context) (class_name ''web'' (Some ''default''))"
proof -
  note l = LoadPersistentContext_loads [OF load_sample initial_wf]
  have key: "key_class ''default:web'' = class_name ''web'' (Some ''default'')" by (simp add: key_class_def scan_key_def)
  have "class_name ''web'' (Some ''default'') \<noteq> []"
    by (simp add: class_name_def own_namespace_def Chop_def CF_EXPANDSIZE_def CF_BUFSIZE_def c_isspace_def CanonifyNameInPlace_def)
  moreover have left: "filter (\<lambda>(key, q). (10 :: int) \<le> int (unat (expires q))) sample_db = [(''default:web'', \<lparr>expires = 20, policy = cfpreserve\<rparr>)]"
    by (simp add: sample_db_def)
  ultimately have "alpha_mem (VHEAP web_context) (class_name ''web'' (Some ''default''))"
    using l unfolding left by (simp add: key)
  with l show ?thesis by blast
qed

section \<open>Cancelling classes\<close>

lemma AppendItem_names: "names (AppendItem l n c) = insert n (names l)"
  by (auto simp: AppendItem_def names_def new_item_def)

text \<open>The \<open>cancel_kept\<close>, \<open>cancel_repaired\<close> and \<open>cancel_notkept\<close> lists remove a class of the default namespace; in any other
  namespace they have no effect, because the name is not qualified before it is looked up.\<close>

lemma DeleteAllClasses_namespace:
  assumes "DeleteAllClasses full_match ctx dbp [c] = Inr (ctx', dbp')" and "CheckParseClass full_match (Some c) CF_IDRANGE"
    and "context_wf ctx" and "plain_identifier c" and "fits c (Some ns)" and "namespace_ok (Some ns)"
    and "ns \<noteq> []" and "ns \<noteq> ''default''" and "c \<noteq> ''any''"
  shows "\<not> class_holds ctx' None c \<and> class_holds ctx' (Some ns) c = class_holds ctx (Some ns) c"
proof -
  note i = identifier_facts [OF assms(4)]
  have ok: "alpha_ok c" using token_ok [OF i(1)] assms(4) by (simp add: plain_identifier_def)
  from assms(1,2) i obtain heap add where h: "DeleteFromAlphaList (VHEAP ctx) c = Inr heap"
      "DeleteFromAlphaList (VADDCLASSES ctx) c = Inr add"
      "ctx' = ctx\<lparr>VHEAP := heap, VADDCLASSES := add, VDELCLASSES := AppendItem (VDELCLASSES ctx) c None\<rparr>"
    by (auto simp: res_bind_eq_Inr CanonifyName_def split: if_splits)
  from assms(5) have len: "length (ns @ '':'' @ c) < CF_MAXVARSIZE" by (simp add: fits_def)
  have q1: "qualified_class c None = c" using i(2) len by (simp add: qualified_class_def own_namespace_def clip_def)
  have q2: "qualified_class c (Some ns) = ns @ '':'' @ c" using i(2) len assms(8)
    by (simp add: qualified_class_def own_namespace_def clip_def)
  have okq: "alpha_ok (ns @ '':'' @ c)" using assms(6,7) by (cases ns) (auto simp: namespace_ok_def)
  have ne: "ns @ '':'' @ c \<noteq> c" by (metis append_self_conv2 append.assoc assms(7) append_is_Nil_conv)
  have keep: "alpha_mem al' (ns @ '':'' @ c) = alpha_mem al (ns @ '':'' @ c)"
    if "DeleteFromAlphaList al c = Inr al'" "alpha_wf al" for al al'
    using DeleteFrom_spec [OF that(2) ok] that(1) okq ne by auto
  from assms(3) have wf: "alpha_wf (VHEAP ctx)" "alpha_wf (VADDCLASSES ctx)" by (auto simp: context_wf_def)
  have "\<not> class_holds ctx' None c" using assms(9) by (simp add: class_holds_def q1 h(3) AppendItem_names)
  moreover have "class_holds ctx' (Some ns) c = class_holds ctx (Some ns) c"
    using keep [OF h(1) wf(1)] keep [OF h(2) wf(2)] ne by (simp add: class_holds_def q2 h(3) AppendItem_names)
  ultimately show ?thesis by blast
qed

definition in_range :: "string \<Rightarrow> string \<Rightarrow> bool" where
  "in_range re s \<longleftrightarrow> re = CF_IDRANGE \<and> plain_identifier s"

definition cancelled_context :: context_state where
  "cancelled_context = initial_context\<lparr>VDELCLASSES := [new_item ''web'' None]\<rparr>"

lemma DeleteAllClasses_namespace_witness:
  "\<not> class_holds cancelled_context None ''web'' \<and>
     class_holds cancelled_context (Some ''ops'') ''web'' = class_holds web_context (Some ''ops'') ''web''"
proof (rule DeleteAllClasses_namespace [of in_range])
  have id: "plain_identifier ''web''"
    by (simp add: plain_identifier_def c_isalnum_def c_isupper_def c_islower_def c_isdigit_def)
  then show "plain_identifier ''web''" .
  from id show c: "CheckParseClass in_range (Some ''web'') CF_IDRANGE"
    by (simp add: CheckParseClass_def FullTextMatch_def in_range_def CF_IDRANGE_def)
  have heaps: "VHEAP web_context = InitAlphaList(119 := [new_item ''web'' None])" "VADDCLASSES web_context = InitAlphaList"
    "VHARDHEAP web_context = InitAlphaList" "VDELCLASSES web_context = []"
    by (simp_all add: web_context_def initial_context_def)
  have d: "DeleteFromAlphaList (InitAlphaList(119 := [new_item ''web'' None])) ''web'' = Inr InitAlphaList"
    by (auto simp: DeleteFromAlphaList_def alpha_index_def signed_char_def InitAlphaList_def DeleteItemLiteral_def DeleteItemGeneral_def
        item_matches_def new_item_def)
  have d2: "DeleteFromAlphaList InitAlphaList ''web'' = Inr InitAlphaList"
    by (auto simp: DeleteFromAlphaList_def alpha_index_def signed_char_def InitAlphaList_def DeleteItemLiteral_def DeleteItemGeneral_def)
  have "IsHardClass web_context ''web'' = Inr False"
    by (simp add: IsHardClass_def heaps InAlphaList_def alpha_index_def signed_char_def InitAlphaList_def IsItemIn_def no_item_def)
  with c show "DeleteAllClasses in_range web_context None [''web''] = Inr (cancelled_context, None)"
    using identifier_facts(3) [OF id] d d2
    by (simp add: CanonifyName_def CF_BUFSIZE_def heaps DeletePersistentContext_def cancelled_context_def AppendItem_def)
      (simp add: web_context_def initial_context_def)
  show "context_wf web_context"
    using NewClass_effect [OF NewClass_web initial_wf] by blast
qed (simp_all add: fits_def CF_MAXVARSIZE_def namespace_ok_def)

end
