(* ===== verification/CF_LastSeen.thy ===== *)
theory CF_LastSeen
  imports CF_Databases CF_Json
begin

text \<open>
  \<open>src/lastseen.c\<close>, \<open>src/statistics.c\<close>, \<open>src/dbm_migration.c\<close>, \<open>src/dbm_migration_lastseen.c\<close>: the registry of the hosts this
  host has talked to.  One store holds three maps at once, told apart by the first letters of the key: \<open>k\<close> from a host
  key to its address, \<open>a\<close> back from an address to a host key, and \<open>qi\<close>, \<open>qo\<close> to the quality of the connections.

  A \<open>double\<close> is a value of a type \<open>'d\<close> with the operations the code uses, given by the record \<open>'d double_ops\<close>.
\<close>

section \<open>Statistics\<close>

record 'd double_ops =
  d_const :: "int \<Rightarrow> int \<Rightarrow> 'd"  \<comment> \<open>\<open>d_const n m\<close> is the constant n / m\<close>
  d_add :: "'d \<Rightarrow> 'd \<Rightarrow> 'd"
  d_sub :: "'d \<Rightarrow> 'd \<Rightarrow> 'd"
  d_mul :: "'d \<Rightarrow> 'd \<Rightarrow> 'd"
  d_less :: "'d \<Rightarrow> 'd \<Rightarrow> bool"
  d_isfinite :: "'d \<Rightarrow> bool"
  d_trunc :: "'d \<Rightarrow> int"

record 'd QPoint =
  q :: 'd
  expect :: 'd
  var :: 'd
  dq :: 'd

definition GAverage :: "'d double_ops \<Rightarrow> 'd \<Rightarrow> 'd \<Rightarrow> 'd \<Rightarrow> 'd" where
  "GAverage d anew aold p = d_add d (d_mul d p anew) (d_mul d (d_sub d (d_const d 1 1) p) aold)"

definition QAverage :: "'d double_ops \<Rightarrow> 'd QPoint \<Rightarrow> 'd \<Rightarrow> 'd \<Rightarrow> 'd QPoint" where
  "QAverage d old new_q p =
     (let devsquare = d_mul d (d_sub d new_q (expect old)) (d_sub d new_q (expect old))
      in \<lparr>q = new_q, expect = GAverage d new_q (expect old) p, var = GAverage d devsquare (var old) p, dq = d_sub d new_q (q old)\<rparr>)"

definition QDefinite :: "'d double_ops \<Rightarrow> 'd \<Rightarrow> 'd QPoint" where
  "QDefinite d x = \<lparr>q = x, expect = x, var = d_const d 0 1, dq = d_const d 0 1\<rparr>"

section \<open>Entries of the store\<close>

record 'd KeyHostSeen =
  lastseen :: int
  Q :: "'d QPoint"

text \<open>The values the current schema stores, the entries of version 0 (an address and three doubles), and values of any other size.\<close>

datatype 'd seen_value =
    Seen "'d KeyHostSeen"
  | Text string
  | Version0 string 'd 'd 'd
  | OtherValue nat

type_synonym 'd seen_db = "'d seen_value db"

text \<open>\<open>snprintf\<close> of a prefix and a name into \<open>char [CF_BUFSIZE]\<close>.\<close>

definition seen_key :: "string \<Rightarrow> string \<Rightarrow> string" where
  "seen_key prefix s = take (CF_BUFSIZE - 1) (prefix @ s)"

text \<open>
  Reading a value into a buffer of the expected kind.  A value of the other kind, or a text that fills the buffer
  without its NUL, gives no defined content.
\<close>

definition read_text :: "'d seen_db \<Rightarrow> string \<Rightarrow> string option res" where
  "read_text db key = (case ReadDB db key of
     None \<Rightarrow> Inr None
   | Some (Text s) \<Rightarrow> if length s < CF_BUFSIZE then Inr (Some s) else Inl OutOfBounds
   | Some _ \<Rightarrow> Inl OutOfBounds)"

definition read_seen :: "'d seen_db \<Rightarrow> string \<Rightarrow> 'd KeyHostSeen option res" where
  "read_seen db key = (case ReadDB db key of
     None \<Rightarrow> Inr None
   | Some (Seen v) \<Rightarrow> Inr (Some v)
   | Some _ \<Rightarrow> Inl OutOfBounds)"

section \<open>Operations\<close>

definition MapAddress :: "string \<Rightarrow> string" where
  "MapAddress unspec_address =
     (if starts_with ''::ffff:'' unspec_address then drop 7 unspec_address else unspec_address)"

definition UpdateLastSawHost ::
  "'d double_ops \<Rightarrow> 'd seen_db option \<Rightarrow> string \<Rightarrow> string \<Rightarrow> bool \<Rightarrow> int \<Rightarrow> 'd seen_db option res" where
  "UpdateLastSawHost d dbp hostkey address incoming timestamp =
     (case dbp of
        None \<Rightarrow> Inr None
      | Some db \<Rightarrow>
          let quality_key = seen_key [CHR ''q'', if incoming then CHR ''i'' else CHR ''o''] hostkey
          in res_bind (read_seen db quality_key) (\<lambda>old.
               let newq = \<lparr>lastseen = timestamp,
                     Q = (case old of
                        Some v \<Rightarrow> QAverage d (Q v) (d_const d (timestamp - lastseen v) 1) (d_const d 4 10)
                      | None \<Rightarrow> QDefinite d (d_const d 0 1))\<rparr>;
                   db = WriteDB db quality_key (Seen newq);
                   db = WriteDB db (seen_key ''k'' hostkey) (Text address)
               in Inr (Some (WriteDB db (seen_key ''a'' address) (Text hostkey)))))"

text \<open>\<open>hostkey\<close> is the printed digest of the peer.\<close>

definition LastSaw ::
  "'d double_ops \<Rightarrow> 'd seen_db option \<Rightarrow> string \<Rightarrow> string \<Rightarrow> bool \<Rightarrow> int \<Rightarrow> 'd seen_db option res" where
  "LastSaw d dbp ipaddress hostkey accepts now =
     (if length ipaddress = 0 then Inr dbp
      else UpdateLastSawHost d dbp (take (CF_BUFSIZE - 1) hostkey) (MapAddress ipaddress) accepts now)"

definition RemoveHostFromLastSeen :: "'d seen_db option \<Rightarrow> string \<Rightarrow> (bool \<times> 'd seen_db option) res" where
  "RemoveHostFromLastSeen dbp hostkey =
     (case dbp of
        None \<Rightarrow> Inr (False, None)
      | Some db \<Rightarrow>
          res_bind (read_text db (seen_key ''k'' hostkey)) (\<lambda>address.
            let db = (case address of Some a \<Rightarrow> DeleteDB db (seen_key ''a'' a) | None \<Rightarrow> db);
                db = DeleteDB db (seen_key ''qi'' hostkey);
                db = DeleteDB db (seen_key ''qo'' hostkey)
            in Inr (True, Some (DeleteDB db (seen_key ''k'' hostkey)))))"

definition Address2HostkeyInDB :: "'d seen_db \<Rightarrow> string \<Rightarrow> (string option \<times> 'd seen_db) res" where
  "Address2HostkeyInDB db address =
     (let address_key = seen_key ''a'' address in
      res_bind (read_text db address_key) (\<lambda>hostkey.
        case hostkey of
          None \<Rightarrow> Inr (None, db)
        | Some h \<Rightarrow>
            res_bind (read_text db (seen_key ''k'' h)) (\<lambda>back_address.
              case back_address of
                None \<Rightarrow> Inr (None, DeleteDB db address_key)
              | Some b \<Rightarrow>
                  if strcmp address b \<noteq> 0 then Inr (None, DeleteDB db address_key)
                  else Inr (Some (take (CF_BUFSIZE - 1) h), db))))"

text \<open>\<open>own_key\<close> is the printed digest of \<open>PUBKEY\<close>, if there is one.\<close>

definition Address2Hostkey ::
  "string \<Rightarrow> string option \<Rightarrow> 'd seen_db option \<Rightarrow> string \<Rightarrow> (string option \<times> 'd seen_db option) res" where
  "Address2Hostkey VIPADDRESS own_key dbp address =
     (if strcmp address ''127.0.0.1'' = 0 \<or> strcmp address ''::1'' = 0 \<or> strcmp address VIPADDRESS = 0
      then Inr (map_option (take (CF_MAXVARSIZE - 1)) own_key, dbp)
      else case dbp of
          None \<Rightarrow> Inr (None, None)
        | Some db \<Rightarrow> res_bind (Address2HostkeyInDB db address) (\<lambda>(r, db'). Inr (r, Some db')))"

text \<open>The callback gets its context and returns whether to go on.\<close>

fun scan_loop :: "(string \<Rightarrow> string \<Rightarrow> bool \<Rightarrow> 'd KeyHostSeen \<Rightarrow> 'c \<Rightarrow> bool \<times> 'c) \<Rightarrow> 'd seen_db \<Rightarrow> 'd seen_db \<Rightarrow> 'c \<Rightarrow> 'c res" where
  "scan_loop callback db [] ctx = Inr ctx"
| "scan_loop callback db ((key, v) # rest) ctx =
     (if char_at key 0 \<noteq> CHR ''k'' then scan_loop callback db rest ctx
      else case v of
          Text address \<Rightarrow>
            let hostkey = drop 1 key in
            res_bind (read_seen db (seen_key ''qi'' hostkey)) (\<lambda>incoming.
              case (case incoming of Some i \<Rightarrow> callback hostkey address True i ctx | None \<Rightarrow> (True, ctx)) of
                (False, ctx1) \<Rightarrow> Inr ctx1
              | (True, ctx1) \<Rightarrow>
                  res_bind (read_seen db (seen_key ''qo'' hostkey)) (\<lambda>outgoing.
                    case (case outgoing of Some i \<Rightarrow> callback hostkey address False i ctx1 | None \<Rightarrow> (True, ctx1)) of
                      (False, ctx2) \<Rightarrow> Inr ctx2
                    | (True, ctx2) \<Rightarrow> scan_loop callback db rest ctx2))
        | _ \<Rightarrow> Inl OutOfBounds)"

definition ScanLastSeenQuality ::
  "(string \<Rightarrow> string \<Rightarrow> bool \<Rightarrow> 'd KeyHostSeen \<Rightarrow> 'c \<Rightarrow> bool \<times> 'c) \<Rightarrow> 'd seen_db option \<Rightarrow> 'c \<Rightarrow> (bool \<times> 'c) res" where
  "ScanLastSeenQuality callback dbp ctx =
     (case dbp of
        None \<Rightarrow> Inr (False, ctx)
      | Some db \<Rightarrow> res_bind (scan_loop callback db db ctx) (\<lambda>ctx'. Inr (True, ctx')))"

definition LastSeenHostKeyCount :: "'d seen_db option \<Rightarrow> nat" where
  "LastSeenHostKeyCount dbp =
     (case dbp of None \<Rightarrow> 0 | Some db \<Rightarrow> length (filter (\<lambda>(key, v). char_at key 0 = CHR ''k'') db))"

section \<open>Migration from schema version 0\<close>

text \<open>The sizes of values in bytes, with a \<open>time_t\<close> and a \<open>double\<close> of eight.\<close>

definition QPOINT0_OFFSET :: nat where
  "QPOINT0_OFFSET = 128"

definition QPoint0_size :: nat where
  "QPoint0_size = 24"

fun value_size :: "'d seen_value \<Rightarrow> nat" where
  "value_size (Seen s) = 40"
| "value_size (Text t) = length t + 1"
| "value_size (Version0 address oq oexpect ovar) = QPOINT0_OFFSET + QPoint0_size"
| "value_size (OtherValue n) = n"

text \<open>
  The store while it is migrated, with the number of calls made to the database and whether one of them was found to fail.
  \<open>fails\<close> says which calls fail.
\<close>

record 'd migration =
  mg_db :: "'d seen_db"
  mg_calls :: nat
  mg_errors :: bool

definition try_db :: "(nat \<Rightarrow> bool) \<Rightarrow> ('d seen_db \<Rightarrow> 'd seen_db) \<Rightarrow> 'd migration \<Rightarrow> bool \<times> 'd migration" where
  "try_db fails f s =
     (if fails (mg_calls s) then (False, s\<lparr>mg_calls := mg_calls s + 1\<rparr>)
      else (True, s\<lparr>mg_db := f (mg_db s), mg_calls := mg_calls s + 1\<rparr>))"

text \<open>The quality entry of an old entry, unless its numbers are malformed.\<close>

definition quality_of :: "'d double_ops \<Rightarrow> 'd \<Rightarrow> 'd \<Rightarrow> 'd \<Rightarrow> 'd seen_value option" where
  "quality_of d oq oexpect ovar =
     (if \<not> d_isfinite d oq \<or> d_less d oq (d_const d 0 1) \<or> \<not> d_isfinite d oexpect \<or> \<not> d_isfinite d ovar then None
      else Some (Seen \<lparr>lastseen = d_trunc d oq, Q = \<lparr>q = oexpect, expect = oexpect, var = ovar, dq = d_const d 0 1\<rparr>\<rparr>))"

text \<open>
  An entry of the right size.  A write that fails leaves the entry for the next migration; the outcome of the deletion of a malformed
  entry is not looked at.
\<close>

definition migrate_sound :: "'d double_ops \<Rightarrow> (nat \<Rightarrow> bool) \<Rightarrow> 'd migration \<Rightarrow> string \<Rightarrow> string \<Rightarrow> 'd seen_value option \<Rightarrow> 'd migration" where
  "migrate_sound d fails s key address quality =
     (let hostkey = drop 1 key; incoming = (char_at key 0 = CHR ''-'')
      in case try_db fails (\<lambda>db. WriteDB db (seen_key ''k'' hostkey) (Text address)) s of
           (False, s1) \<Rightarrow> s1\<lparr>mg_errors := True\<rparr>
         | (True, s1) \<Rightarrow> (case try_db fails (\<lambda>db. WriteDB db (seen_key ''a'' address) (Text hostkey)) s1 of
             (False, s2) \<Rightarrow> s2\<lparr>mg_errors := True\<rparr>
           | (True, s2) \<Rightarrow> (case quality of
               None \<Rightarrow> snd (try_db fails (\<lambda>db. DeleteDB db key) s2)
             | Some v \<Rightarrow> (case try_db fails (\<lambda>db. WriteDB db (seen_key [CHR ''q'', if incoming then CHR ''i'' else CHR ''o''] hostkey) v) s2 of
                 (False, s3) \<Rightarrow> s3\<lparr>mg_errors := True\<rparr>
               | (True, s3) \<Rightarrow> (case try_db fails (\<lambda>db. DeleteDB db key) s3 of
                   (False, s4) \<Rightarrow> s4\<lparr>mg_errors := True\<rparr>
                 | (True, s4) \<Rightarrow> s4)))))"

text \<open>
  One entry the cursor returns.  A key that is no longer there stands for a NULL value.  The three doubles are copied before the size of the
  value is looked at, so a smaller value is read behind its end.  A value of another kind that has the size of an old entry would be read as
  one: its content is undefined here.  The address of an old entry has its NUL, so it has at most 127 characters.
\<close>

definition migrate_entry :: "'d double_ops \<Rightarrow> (nat \<Rightarrow> bool) \<Rightarrow> 'd migration \<Rightarrow> string \<Rightarrow> 'd migration res" where
  "migrate_entry d fails s key =
     (if char_at key 0 \<noteq> CHR ''+'' \<and> char_at key 0 \<noteq> CHR ''-'' then Inr s
      else case ReadDB (mg_db s) key of
          None \<Rightarrow> Inl NullDereference
        | Some v \<Rightarrow>
            if value_size v < QPOINT0_OFFSET + QPoint0_size then Inl OutOfBounds
            else if value_size v \<noteq> QPOINT0_OFFSET + QPoint0_size then Inr (snd (try_db fails (\<lambda>db. DeleteDB db key) s))
            else (case v of
                Version0 address oq oexpect ovar \<Rightarrow> Inr (migrate_sound d fails s key address (quality_of d oq oexpect ovar))
              | _ \<Rightarrow> Inl Uninitialised))"

text \<open>The cursor may or may not return the entries written while it moves, so the keys it visits are an argument.\<close>

fun migrate_loop :: "'d double_ops \<Rightarrow> (nat \<Rightarrow> bool) \<Rightarrow> 'd migration \<Rightarrow> string list \<Rightarrow> 'd migration res" where
  "migrate_loop d fails s [] = Inr s"
| "migrate_loop d fails s (key # visited) = res_bind (migrate_entry d fails s key) (\<lambda>s. migrate_loop d fails s visited)"

definition LastseenMigrationVersion0 :: "'d double_ops \<Rightarrow> (nat \<Rightarrow> bool) \<Rightarrow> 'd seen_db \<Rightarrow> string list \<Rightarrow> (bool \<times> 'd seen_db) res" where
  "LastseenMigrationVersion0 d fails db visited =
     (case try_db fails id \<lparr>mg_db = db, mg_calls = 0, mg_errors = False\<rparr> of
        (False, s) \<Rightarrow> Inr (False, mg_db s)
      | (True, s) \<Rightarrow> res_bind (migrate_loop d fails s visited) (\<lambda>s.
          case try_db fails id s of (closed, s) \<Rightarrow>
            if mg_errors s \<or> \<not> closed then Inr (False, mg_db s)
            else (case try_db fails (\<lambda>db. WriteDB db ''version'' (Text ''1'')) s of (written, s) \<Rightarrow> Inr (written, mg_db s))))"

definition DBVersion :: "'d seen_db \<Rightarrow> int res" where
  "DBVersion db = res_bind (read_text db ''version'') (\<lambda>v. case v of None \<Rightarrow> Inr 0 | Some s \<Rightarrow> StringToLong s)"

text \<open>The plan of this database has one step.\<close>

definition DBMigrate :: "'d double_ops \<Rightarrow> (nat \<Rightarrow> bool) \<Rightarrow> 'd seen_db \<Rightarrow> string list \<Rightarrow> (bool \<times> 'd seen_db) res" where
  "DBMigrate d fails db visited =
     res_bind (DBVersion db) (\<lambda>version. if version = 0 then LastseenMigrationVersion0 d fails db visited else Inr (True, db))"

section \<open>The registry against a map from hosts to addresses\<close>

definition seen_fits :: "string \<Rightarrow> bool" where
  "seen_fits s \<longleftrightarrow> length s + 2 < CF_BUFSIZE"

lemma seen_key_fits [simp]:
  "seen_fits s \<Longrightarrow> seen_key [c] s = c # s"
  "seen_fits s \<Longrightarrow> seen_key [c, d] s = c # d # s"
  by (simp_all add: seen_fits_def seen_key_def CF_BUFSIZE_def)

definition seen_inv :: "'d seen_db \<Rightarrow> (string \<rightharpoonup> string) \<Rightarrow> bool" where
  "seen_inv db m \<longleftrightarrow>
     (\<forall>h. seen_fits h \<longrightarrow> ReadDB db (CHR ''k'' # h) = map_option Text (m h)) \<and>
     (\<forall>h a. m h = Some a \<longrightarrow> seen_fits h \<and> seen_fits a \<and> ReadDB db (CHR ''a'' # a) = Some (Text h)) \<and>
     (\<forall>a v. ReadDB db (CHR ''a'' # a) = Some v \<longrightarrow> (\<exists>h. v = Text h \<and> seen_fits h)) \<and>
     (\<forall>c h v. ReadDB db (CHR ''q'' # c # h) = Some v \<longrightarrow> (\<exists>x. v = Seen x) \<and> (c = CHR ''i'' \<or> c = CHR ''o'') \<and> (seen_fits h \<longrightarrow> m h \<noteq> None))"

text \<open>What can happen to the registry, and what it means for the map.\<close>

datatype seen_op =
    UpdateSeen string string bool int
  | RemoveSeen string
  | LookupSeen string

fun seen_step :: "'d double_ops \<Rightarrow> seen_op \<Rightarrow> 'd seen_db \<Rightarrow> 'd seen_db res" where
  "seen_step d (UpdateSeen h a incoming t) db = res_bind (UpdateLastSawHost d (Some db) h a incoming t) (\<lambda>dbp. Inr (the dbp))"
| "seen_step d (RemoveSeen h) db = res_bind (RemoveHostFromLastSeen (Some db) h) (\<lambda>(ok, dbp). Inr (the dbp))"
| "seen_step d (LookupSeen a) db = res_bind (Address2HostkeyInDB db a) (\<lambda>(r, db'). Inr db')"

fun seen_run :: "'d double_ops \<Rightarrow> seen_op list \<Rightarrow> 'd seen_db \<Rightarrow> 'd seen_db res" where
  "seen_run d [] db = Inr db"
| "seen_run d (x # ops) db = res_bind (seen_step d x db) (seen_run d ops)"

fun map_seen :: "seen_op \<Rightarrow> (string \<rightharpoonup> string) \<Rightarrow> (string \<rightharpoonup> string)" where
  "map_seen (UpdateSeen h a incoming t) m = m(h \<mapsto> a)"
| "map_seen (RemoveSeen h) m = m(h := None)"
| "map_seen (LookupSeen a) m = m"

text \<open>Names fit the buffers, and no host comes in under the address of another.\<close>

fun exclusive :: "seen_op \<Rightarrow> (string \<rightharpoonup> string) \<Rightarrow> bool" where
  "exclusive (UpdateSeen h a incoming t) m \<longleftrightarrow> seen_fits h \<and> seen_fits a \<and> (\<forall>h'. m h' = Some a \<longrightarrow> h' = h)"
| "exclusive (RemoveSeen h) m \<longleftrightarrow> seen_fits h"
| "exclusive (LookupSeen a) m \<longleftrightarrow> seen_fits a"

fun exclusive_run :: "seen_op list \<Rightarrow> (string \<rightharpoonup> string) \<Rightarrow> bool" where
  "exclusive_run [] m \<longleftrightarrow> True"
| "exclusive_run (x # ops) m \<longleftrightarrow> exclusive x m \<and> exclusive_run ops (map_seen x m)"

lemma seen_fits_length: "seen_fits s \<Longrightarrow> length s < CF_BUFSIZE"
  by (simp add: seen_fits_def)

lemma seen_invD:
  assumes "seen_inv db m"
  shows "seen_fits h \<Longrightarrow> ReadDB db (CHR ''k'' # h) = map_option Text (m h)"
    and "m h = Some a \<Longrightarrow> seen_fits h" and "m h = Some a \<Longrightarrow> seen_fits a"
    and "m h = Some a \<Longrightarrow> ReadDB db (CHR ''a'' # a) = Some (Text h)"
    and "ReadDB db (CHR ''a'' # a) = Some v \<Longrightarrow> \<exists>h. v = Text h \<and> seen_fits h"
    and "ReadDB db (CHR ''q'' # c # h) = Some v \<Longrightarrow> (\<exists>x. v = Seen x) \<and> (c = CHR ''i'' \<or> c = CHR ''o'')"
    and "ReadDB db (CHR ''q'' # c # h) = Some v \<Longrightarrow> seen_fits h \<Longrightarrow> m h \<noteq> None"
  using assms unfolding seen_inv_def by blast+

lemma read_text_k: "seen_inv db m \<Longrightarrow> seen_fits h \<Longrightarrow> read_text db (CHR ''k'' # h) = Inr (m h)"
  using seen_invD(1) [of db m h] seen_invD(3) [of db m h]
  by (cases "m h") (simp_all add: read_text_def seen_fits_length)

lemma read_text_a:
  assumes "seen_inv db m"
  shows "\<exists>r. read_text db (CHR ''a'' # a) = Inr r \<and> ReadDB db (CHR ''a'' # a) = map_option Text r \<and>
     (\<forall>h. r = Some h \<longrightarrow> seen_fits h)"
proof (cases "ReadDB db (CHR ''a'' # a)")
  case (Some v)
  from seen_invD(5) [OF assms this] obtain h where "v = Text h" "seen_fits h" by blast
  with Some show ?thesis by (auto simp: read_text_def seen_fits_length)
qed (simp add: read_text_def)

lemma read_seen_q:
  assumes "seen_inv db m"
  shows "\<exists>r. read_seen db (CHR ''q'' # c # h) = Inr r"
proof (cases "ReadDB db (CHR ''q'' # c # h)")
  case (Some v)
  from seen_invD(6) [OF assms this] obtain x where "v = Seen x" by blast
  with Some show ?thesis by (simp add: read_seen_def)
qed (simp add: read_seen_def)

lemma seen_invI:
  assumes "\<And>h. seen_fits h \<Longrightarrow> ReadDB db (CHR ''k'' # h) = map_option Text (m h)"
    and "\<And>h a. m h = Some a \<Longrightarrow> seen_fits h \<and> seen_fits a \<and> ReadDB db (CHR ''a'' # a) = Some (Text h)"
    and "\<And>a v. ReadDB db (CHR ''a'' # a) = Some v \<Longrightarrow> \<exists>h. v = Text h \<and> seen_fits h"
    and "\<And>c h v. ReadDB db (CHR ''q'' # c # h) = Some v \<Longrightarrow>
      (\<exists>x. v = Seen x) \<and> (c = CHR ''i'' \<or> c = CHR ''o'') \<and> (seen_fits h \<longrightarrow> m h \<noteq> None)"
  shows "seen_inv db m"
  using assms unfolding seen_inv_def by blast

lemma address_unique: "seen_inv db m \<Longrightarrow> m h1 = Some a \<Longrightarrow> m h2 = Some a \<Longrightarrow> h1 = h2"
  using seen_invD(4) [of db m h1 a] seen_invD(4) [of db m h2 a] by simp

lemma seen_inv_stale:
  assumes "seen_inv db m" and "\<forall>h. m h \<noteq> Some a"
  shows "seen_inv (DeleteDB db (CHR ''a'' # a)) m"
  using assms by (intro seen_invI) (auto dest: seen_invD split: if_splits)

text \<open>A lookup succeeds exactly for the last address of a host.\<close>

lemma lookup_spec:
  assumes inv: "seen_inv db m" and a: "seen_fits a"
  shows "\<exists>r db'. Address2HostkeyInDB db a = Inr (r, db') \<and> seen_inv db' m \<and> (\<forall>h. r = Some h \<longleftrightarrow> m h = Some a)"
proof -
  from read_text_a [OF inv] obtain r where r: "read_text db (CHR ''a'' # a) = Inr r"
    "ReadDB db (CHR ''a'' # a) = map_option Text r" "\<forall>h. r = Some h \<longrightarrow> seen_fits h" by blast
  have only: "r = Some h" if "m h = Some a" for h
    using seen_invD(4) [OF inv that] r(2) by (cases r) simp_all
  show ?thesis
  proof (cases "\<exists>h. m h = Some a")
    case True
    then obtain h where h: "m h = Some a" by blast
    with only have "r = Some h" by blast
    moreover have "take (CF_BUFSIZE - 1) h = h" using seen_invD(2) [OF inv h] by (simp add: seen_fits_def)
    ultimately have "Address2HostkeyInDB db a = Inr (Some h, db)"
      using r(1) a h read_text_k [OF inv seen_invD(2) [OF inv h]] seen_invD(2) [OF inv h]
      by (simp add: Address2HostkeyInDB_def Let_def)
    moreover have "\<forall>h'. m h' = Some a \<longleftrightarrow> h' = h" using address_unique [OF inv h] h by blast
    ultimately show ?thesis using inv by auto
  next
    case False
    then have no: "\<forall>h. m h \<noteq> Some a" by blast
    have "Address2HostkeyInDB db a = Inr (None, case r of None \<Rightarrow> db | Some h \<Rightarrow> DeleteDB db (CHR ''a'' # a))"
    proof (cases r)
      case (Some h)
      with r(3) have "seen_fits h" by simp
      with read_text_k [OF inv this] Some r(1) a no show ?thesis
        by (cases "m h") (simp_all add: Address2HostkeyInDB_def Let_def, metis)
    qed (use r(1) a in \<open>simp add: Address2HostkeyInDB_def Let_def\<close>)
    moreover have "seen_inv (case r of None \<Rightarrow> db | Some h \<Rightarrow> DeleteDB db (CHR ''a'' # a)) m"
      using inv seen_inv_stale [OF inv no] by (cases r) simp_all
    ultimately show ?thesis using no by auto
  qed
qed

lemma update_spec:
  assumes inv: "seen_inv db m" and fits: "seen_fits h" "seen_fits a" and alone: "\<forall>h'. m h' = Some a \<longrightarrow> h' = h"
  shows "\<exists>db'. UpdateLastSawHost d (Some db) h a incoming t = Inr (Some db') \<and> seen_inv db' (m(h \<mapsto> a))"
proof -
  obtain c where c: "(if incoming then CHR ''i'' else CHR ''o'') = c" and io: "c = CHR ''i'' \<or> c = CHR ''o''" by simp
  from read_seen_q [OF inv] obtain r where r: "read_seen db (CHR ''q'' # c # h) = Inr r" by blast
  have new: "seen_inv (WriteDB (WriteDB (WriteDB db (CHR ''q'' # c # h) (Seen x)) (CHR ''k'' # h) (Text a)) (CHR ''a'' # a) (Text h))
      (m(h \<mapsto> a))" for x
    using fits alone io
    by (intro seen_invI) (auto dest: seen_invD [OF inv] split: if_splits)
  from r fits show ?thesis by (auto simp: UpdateLastSawHost_def c Let_def intro: new)
qed

lemma remove_spec:
  assumes inv: "seen_inv db m" and fits: "seen_fits h"
  shows "\<exists>db'. RemoveHostFromLastSeen (Some db) h = Inr (True, Some db') \<and> seen_inv db' (m(h := None))"
proof -
  let ?db1 = "case m h of Some a \<Rightarrow> DeleteDB db (CHR ''a'' # a) | None \<Rightarrow> db"
  have key: "(case m h of Some a \<Rightarrow> DeleteDB db (seen_key ''a'' a) | None \<Rightarrow> db) = ?db1"
    using seen_invD(3) [OF inv] by (auto split: option.split)
  have read: "ReadDB ?db1 k = (if \<exists>a. m h = Some a \<and> k = CHR ''a'' # a then None else ReadDB db k)" for k
    by (auto split: option.split)
  have "seen_inv (DeleteDB (DeleteDB (DeleteDB ?db1 (CHR ''q'' # CHR ''i'' # h)) (CHR ''q'' # CHR ''o'' # h)) (CHR ''k'' # h)) (m(h := None))"
    by (intro seen_invI) (auto simp: read dest: seen_invD [OF inv] address_unique [OF inv] split: if_splits)
  then show ?thesis using fits inv
    by (simp add: RemoveHostFromLastSeen_def read_text_k key Let_def)
qed

lemma seen_run_spec:
  assumes "seen_inv db m" and "exclusive_run ops m"
  shows "\<exists>db'. seen_run d ops db = Inr db' \<and> seen_inv db' (fold map_seen ops m)"
  using assms
proof (induction ops arbitrary: db m)
  case (Cons x ops)
  have "\<exists>db1. seen_step d x db = Inr db1 \<and> seen_inv db1 (map_seen x m)"
  proof (cases x)
    case (UpdateSeen h a incoming t)
    then show ?thesis using Cons.prems update_spec [of db m h a d incoming t] by auto
  next
    case (RemoveSeen h)
    then show ?thesis using Cons.prems remove_spec [of db m h] by auto
  next
    case (LookupSeen a)
    then show ?thesis using Cons.prems lookup_spec [of db m a] by auto
  qed
  then obtain db1 where "seen_step d x db = Inr db1" "seen_inv db1 (map_seen x m)" by blast
  with Cons.IH [of db1 "map_seen x m"] Cons.prems(2) show ?case by auto
qed simp

lemma seen_run_append: "seen_run d (xs @ ys) db = res_bind (seen_run d xs db) (seen_run d ys)"
  by (induction xs arbitrary: db) (auto simp: res_bind_def split: sum.split)

lemma seen_inv_empty: "seen_inv [] (\<lambda>_. None)"
  by (simp add: seen_inv_def)

section \<open>Migration\<close>

definition old_key :: "string \<Rightarrow> bool" where
  "old_key key \<longleftrightarrow> char_at key 0 = CHR ''+'' \<or> char_at key 0 = CHR ''-''"

definition quality_key :: "string \<Rightarrow> string" where
  "quality_key key = (if char_at key 0 = CHR ''-'' then ''qi'' else ''qo'') @ drop 1 key"

text \<open>What the old entries say of hosts, in the order of the cursor, and of the quality of their connections.\<close>

definition host_of :: "'d seen_db \<Rightarrow> string \<Rightarrow> (string \<times> string) list" where
  "host_of db key = (case ReadDB db key of Some (Version0 address _ _ _) \<Rightarrow> if old_key key then [(drop 1 key, address)] else [] | _ \<Rightarrow> [])"

definition old_hosts :: "'d seen_db \<Rightarrow> string list \<Rightarrow> (string \<times> string) list" where
  "old_hosts db visited = concat (map (host_of db) visited)"

definition old_quality :: "'d double_ops \<Rightarrow> 'd seen_db \<Rightarrow> string \<Rightarrow> 'd seen_value option" where
  "old_quality d db key = (case ReadDB db key of Some (Version0 address oq oe ov) \<Rightarrow> quality_of d oq oe ov | _ \<Rightarrow> None)"

text \<open>An old entry is present, is not smaller than it has to be, and its names fit.\<close>

fun sound_value :: "'d seen_value \<Rightarrow> bool" where
  "sound_value (Version0 address oq oe ov) = seen_fits address"
| "sound_value v = (value_size v > QPOINT0_OFFSET + QPoint0_size)"

definition sound_old :: "'d seen_db \<Rightarrow> string \<Rightarrow> bool" where
  "sound_old db key \<longleftrightarrow> (old_key key \<longrightarrow> seen_fits (drop 1 key) \<and> (\<exists>v. ReadDB db key = Some v \<and> sound_value v))"

definition last_value :: "(string \<times> string) list \<Rightarrow> string \<Rightarrow> 'd seen_value option \<Rightarrow> 'd seen_value option" where
  "last_value l h v = (case map_of (rev l) h of Some a \<Rightarrow> Some (Text a) | None \<Rightarrow> v)"

lemma last_value_Nil [simp]: "last_value [] h v = v"
  by (simp add: last_value_def)

lemma last_value_append: "last_value (l @ l') h v = last_value l' h (last_value l h v)"
  by (simp add: last_value_def map_add_def split: option.split)

lemma last_value_single: "last_value [(k, a)] h v = (if h = k then Some (Text a) else v)"
  by (simp add: last_value_def)

lemma old_key_new [simp]: "\<not> old_key (CHR ''k'' # s)" "\<not> old_key (CHR ''a'' # s)" "\<not> old_key (CHR ''q'' # s)" "\<not> old_key (CHR ''v'' # s)"
  by (simp_all add: old_key_def)

lemma old_key_cases:
  assumes "old_key key"
  obtains h where "key = CHR ''+'' # h" | h where "key = CHR ''-'' # h"
  using assms by (cases key) (auto simp: old_key_def)

text \<open>The effect on the store of what is visited, when nothing fails.\<close>

definition migrated :: "'d double_ops \<Rightarrow> 'd seen_db \<Rightarrow> string list \<Rightarrow> 'd seen_db \<Rightarrow> bool" where
  "migrated d db visited db' \<longleftrightarrow>
     (\<forall>k. old_key k \<longrightarrow> ReadDB db' k = (if k \<in> set visited then None else ReadDB db k)) \<and>
     (\<forall>h. ReadDB db' (CHR ''k'' # h) = last_value (old_hosts db visited) h (ReadDB db (CHR ''k'' # h))) \<and>
     (\<forall>a. ReadDB db' (CHR ''a'' # a) = last_value (map prod.swap (old_hosts db visited)) a (ReadDB db (CHR ''a'' # a))) \<and>
     (\<forall>k. old_key k \<longrightarrow> ReadDB db' (quality_key k) =
        (case if k \<in> set visited then old_quality d db k else None of Some v \<Rightarrow> Some v | None \<Rightarrow> ReadDB db (quality_key k))) \<and>
     ReadDB db' ''version'' = ReadDB db ''version''"

lemma quality_key_inj: "old_key k \<Longrightarrow> old_key k' \<Longrightarrow> quality_key k = quality_key k' \<longleftrightarrow> k = k'"
  by (cases k; cases k') (auto simp: old_key_def quality_key_def)

lemma quality_key_new:
  "quality_key k \<noteq> CHR ''k'' # s" "quality_key k \<noteq> CHR ''a'' # s" "quality_key k \<noteq> ''version''" "\<not> old_key (quality_key k)"
  by (simp_all add: quality_key_def old_key_def)

lemma migrate_sound_db:
  assumes "\<forall>i. \<not> fails i" "old_key key" "seen_fits (drop 1 key)" "seen_fits address"
  shows "mg_errors (migrate_sound d fails s key address quality) = mg_errors s \<and>
    mg_db (migrate_sound d fails s key address quality) =
      (let db = WriteDB (WriteDB (mg_db s) (CHR ''k'' # drop 1 key) (Text address)) (CHR ''a'' # address) (Text (drop 1 key))
       in DeleteDB (case quality of None \<Rightarrow> db | Some v \<Rightarrow> WriteDB db (quality_key key) v) key)"
  using assms by (auto simp: migrate_sound_def try_db_def quality_key_def Let_def split: option.split)

lemma migrate_entry_effect:
  assumes ok: "\<forall>i. \<not> fails i" and sound: "sound_old (mg_db s) key"
  shows "\<exists>s'. migrate_entry d fails s key = Inr s' \<and> mg_errors s' = mg_errors s \<and> migrated d (mg_db s) [key] (mg_db s')"
proof (cases "old_key key")
  case False
  then have "migrate_entry d fails s key = Inr s" by (simp add: migrate_entry_def old_key_def)
  moreover have "host_of (mg_db s) key = []" using False by (simp add: host_of_def split: option.split seen_value.split)
  ultimately show ?thesis using False by (auto simp: migrated_def old_hosts_def)
next
  case True
  then have start: "(char_at key 0 \<noteq> CHR ''+'' \<and> char_at key 0 \<noteq> CHR ''-'') = False" by (auto simp: old_key_def)
  from True sound obtain v where v: "ReadDB (mg_db s) key = Some v" "sound_value v" "seen_fits (drop 1 key)" by (auto simp: sound_old_def)
  have new: "\<not> old_key k \<Longrightarrow> k \<noteq> key" for k using True by blast
  show ?thesis
  proof (cases "\<exists>address oq oe ov. v = Version0 address oq oe ov")
    case False
    then have "migrate_entry d fails s key = Inr (s\<lparr>mg_db := DeleteDB (mg_db s) key, mg_calls := mg_calls s + 1\<rparr>)"
      using v ok by (cases v) (auto simp: migrate_entry_def start try_db_def)
    moreover have "host_of (mg_db s) key = []" "old_quality d (mg_db s) key = None"
      using False v by (cases v; simp add: host_of_def old_quality_def)+
    ultimately show ?thesis
      using new [OF quality_key_new(4)] new [OF old_key_new(1)] new [OF old_key_new(2)] new [OF old_key_new(4)]
      by (auto simp: migrated_def old_hosts_def)
  next
    case True
    then obtain address oq oe ov where v0: "v = Version0 address oq oe ov" by blast
    let ?s = "migrate_sound d fails s key address (quality_of d oq oe ov)"
    have "migrate_entry d fails s key = Inr ?s" using v v0 by (simp add: migrate_entry_def start)
    moreover note db = migrate_sound_db [OF ok \<open>old_key key\<close> v(3), of address d s "quality_of d oq oe ov"]
    moreover have "host_of (mg_db s) key = [(drop 1 key, address)]" "old_quality d (mg_db s) key = quality_of d oq oe ov"
      using v v0 \<open>old_key key\<close> by (simp_all add: host_of_def old_quality_def)
    moreover have "migrated d (mg_db s) [key] (mg_db ?s)"
      using db v v0 calculation(3,4) \<open>old_key key\<close> new [OF quality_key_new(4)] new [OF old_key_new(1)] new [OF old_key_new(2)] new [OF old_key_new(4)]
        quality_key_new quality_key_new(1-3) [symmetric] quality_key_inj [of _ key]
      by (auto simp: migrated_def old_hosts_def last_value_single Let_def split: option.split)
    ultimately show ?thesis using v(2) v0 by auto
  qed
qed

lemma migrated_trans:
  assumes one: "migrated d db [key] db1" and rest: "migrated d db1 visited db'" and "key \<notin> set visited"
  shows "migrated d db (key # visited) db'"
proof -
  have same: "old_key k \<Longrightarrow> k \<in> set visited \<Longrightarrow> ReadDB db1 k = ReadDB db k" for k
    using one assms(3) by (auto simp: migrated_def)
  then have "host_of db1 k = host_of db k" if "k \<in> set visited" for k
    using that by (cases "old_key k") (auto simp: host_of_def split: option.split seen_value.split)
  then have hosts: "old_hosts db1 visited = old_hosts db visited"
    unfolding old_hosts_def by (metis map_cong)
  have "old_hosts db (key # visited) = old_hosts db [key] @ old_hosts db1 visited"
    unfolding hosts by (simp add: old_hosts_def)
  moreover have "old_quality d db1 k = old_quality d db k" if "old_key k" "k \<in> set visited" for k
    using same [OF that] by (simp add: old_quality_def)
  ultimately show ?thesis
    using one rest assms(3) unfolding migrated_def by (auto simp: last_value_append split: option.splits)
qed

lemma migrate_loop_effect:
  assumes "\<forall>i. \<not> fails i"
  shows "distinct visited \<Longrightarrow> \<forall>key \<in> set visited. sound_old (mg_db s) key \<Longrightarrow>
    \<exists>s'. migrate_loop d fails s visited = Inr s' \<and> mg_errors s' = mg_errors s \<and> migrated d (mg_db s) visited (mg_db s')"
proof (induction visited arbitrary: s)
  case Nil
  then show ?case by (simp add: migrated_def old_hosts_def)
next
  case (Cons key visited)
  from migrate_entry_effect [OF assms, of s key d] Cons.prems(2) obtain s1 where
    one: "migrate_entry d fails s key = Inr s1" "mg_errors s1 = mg_errors s" "migrated d (mg_db s) [key] (mg_db s1)" by auto
  have "\<forall>k \<in> set visited. sound_old (mg_db s1) k"
    using Cons.prems one(3) by (auto simp: sound_old_def migrated_def)
  with Cons.IH [of s1] Cons.prems(1) obtain s' where
    rest: "migrate_loop d fails s1 visited = Inr s'" "mg_errors s' = mg_errors s1" "migrated d (mg_db s1) visited (mg_db s')" by auto
  with one Cons.prems(1) migrated_trans [OF one(3) rest(3)] show ?case by auto
qed

text \<open>A migration in which a call fails leaves the version as it was.\<close>

lemma try_db_version:
  "(\<And>db. ReadDB (f db) ''version'' = ReadDB db ''version'') \<Longrightarrow> ReadDB (mg_db (snd (try_db fails f s))) ''version'' = ReadDB (mg_db s) ''version''"
  by (simp add: try_db_def)

lemma migrate_entry_version:
  assumes "migrate_entry d fails s key = Inr s'"
  shows "ReadDB (mg_db s') ''version'' = ReadDB (mg_db s) ''version''"
proof -
  have "seen_key (CHR ''k'' # p) h \<noteq> ''version''" "seen_key (CHR ''a'' # p) h \<noteq> ''version''" "seen_key (CHR ''q'' # p) h \<noteq> ''version''" for p h
    by (simp_all add: seen_key_def CF_BUFSIZE_def take_Cons')
  note other = this this [symmetric]
  have "char_at key 0 = CHR ''+'' \<or> char_at key 0 = CHR ''-'' \<Longrightarrow> key \<noteq> ''version''" by auto
  with assms show ?thesis
    by (auto simp: migrate_entry_def migrate_sound_def try_db_def Let_def other split: if_splits option.splits seen_value.splits)
qed

lemma migrate_loop_version:
  "migrate_loop d fails s visited = Inr s' \<Longrightarrow> ReadDB (mg_db s') ''version'' = ReadDB (mg_db s) ''version''"
proof (induction visited arbitrary: s)
  case (Cons key visited)
  then show ?case by (auto simp: res_bind_eq_Inr dest!: migrate_entry_version)
qed simp

section \<open>Properties\<close>

text \<open>C25: As long as no host comes in under the address of another host, any run of updates, removals and lookups never reads a value
  of the wrong kind, and afterwards an address resolves to a host exactly if it is the last address of a host that was
  not removed since.\<close>

lemma lastseen_refines_map:
  assumes "exclusive_run ops (\<lambda>_. None)"
  shows "\<exists>db. seen_run d ops [] = Inr db \<and> (\<forall>a. seen_fits a \<longrightarrow>
    (\<exists>r db'. Address2HostkeyInDB db a = Inr (r, db') \<and> (\<forall>h. r = Some h \<longleftrightarrow> fold map_seen ops (\<lambda>_. None) h = Some a)))"
proof -
  from seen_run_spec [OF seen_inv_empty assms] obtain db where
    db: "seen_run d ops [] = Inr db" "seen_inv db (fold map_seen ops (\<lambda>_. None))" by blast
  with lookup_spec [OF db(2)] show ?thesis by blast
qed

definition int_ops :: "int double_ops" where
  "int_ops = \<lparr>d_const = (\<lambda>n m. n div m), d_add = (+), d_sub = (-), d_mul = (*), d_less = (<), d_isfinite = (\<lambda>_. True), d_trunc = (\<lambda>x. x)\<rparr>"

definition sample_run :: "seen_op list" where
  "sample_run = [UpdateSeen ''SHA-1'' ''10.0.0.1'' True 5, UpdateSeen ''SHA-1'' ''10.0.0.2'' False 9,
     UpdateSeen ''SHA-2'' ''10.0.0.1'' True 12, LookupSeen ''10.0.0.1'', RemoveSeen ''SHA-1'']"

lemma lastseen_refines_map_witness:
  "\<exists>db db'. seen_run int_ops sample_run [] = Inr db \<and> Address2HostkeyInDB db ''10.0.0.1'' = Inr (Some ''SHA-2'', db')"
proof -
  have "exclusive_run sample_run (\<lambda>_. None)" by (simp add: sample_run_def seen_fits_def CF_BUFSIZE_def)
  from lastseen_refines_map [OF this, of int_ops] obtain db where db: "seen_run int_ops sample_run [] = Inr db"
    "\<forall>a. seen_fits a \<longrightarrow> (\<exists>r db'. Address2HostkeyInDB db a = Inr (r, db') \<and>
      (\<forall>h. r = Some h \<longleftrightarrow> fold map_seen sample_run (\<lambda>_. None) h = Some a))" by blast
  moreover have "seen_fits ''10.0.0.1''" by (simp add: seen_fits_def CF_BUFSIZE_def)
  ultimately obtain r db' where r: "Address2HostkeyInDB db ''10.0.0.1'' = Inr (r, db')"
    "\<forall>h. r = Some h \<longleftrightarrow> fold map_seen sample_run (\<lambda>_. None) h = Some ''10.0.0.1''" by blast
  have "fold map_seen sample_run (\<lambda>_. None) ''SHA-2'' = Some ''10.0.0.1''" by (simp add: sample_run_def)
  with r db(1) show ?thesis by auto
qed

text \<open>In a run of updates, removals and lookups in which no host comes in under the address of another one, every entry of the
  registry holds a value of the kind its key announces, the two entries of a host and its address point at each other, and quality entries
  belong to hosts that have an address.\<close>

lemma lastseen_entries_typed:
  assumes "exclusive_run ops (\<lambda>_. None)" and "seen_run d ops [] = Inr db"
  shows "(\<forall>c h v. ReadDB db (CHR ''q'' # c # h) = Some v \<longrightarrow>
      (\<exists>x. v = Seen x) \<and> (seen_fits h \<longrightarrow> (\<exists>a. ReadDB db (CHR ''k'' # h) = Some (Text a)))) \<and>
    (\<forall>h v. seen_fits h \<and> ReadDB db (CHR ''k'' # h) = Some v \<longrightarrow> (\<exists>a. v = Text a \<and> ReadDB db (CHR ''a'' # a) = Some (Text h))) \<and>
    (\<forall>a v. ReadDB db (CHR ''a'' # a) = Some v \<longrightarrow> (\<exists>h. v = Text h))"
proof -
  from seen_run_spec [OF seen_inv_empty assms(1), of d] assms(2)
  have inv: "seen_inv db (fold map_seen ops (\<lambda>_. None))" by simp
  show ?thesis using seen_invD [OF inv] by fastforce
qed

lemma lastseen_entries_typed_witness:
  "\<exists>db. seen_run int_ops sample_run [] = Inr db \<and>
     (ReadDB db ''a10.0.0.1'' = None \<or> (\<exists>h. ReadDB db ''a10.0.0.1'' = Some (Text h)))"
proof -
  have ex: "exclusive_run sample_run (\<lambda>_. None)" by (simp add: sample_run_def seen_fits_def CF_BUFSIZE_def)
  from seen_run_spec [OF seen_inv_empty ex, of int_ops] obtain db where r: "seen_run int_ops sample_run [] = Inr db" by blast
  from lastseen_entries_typed [OF ex r] have "\<forall>v. ReadDB db ''a10.0.0.1'' = Some v \<longrightarrow> (\<exists>h. v = Text h)" by blast
  with r show ?thesis by (cases "ReadDB db ''a10.0.0.1''") auto
qed

text \<open>In every registry that such a run leaves, when a second host comes in under the address of a first one and the first is then
  removed, the second is still registered but its address can no longer be resolved: the entry of the address goes with the first host.\<close>

lemma RemoveHost_loses_neighbour:
  assumes "exclusive_run ops (\<lambda>_. None)" and "fold map_seen ops (\<lambda>_. None) h = Some a" and "seen_fits h'" and "h' \<noteq> h"
  shows "\<exists>db. seen_run d (ops @ [UpdateSeen h' a incoming t, RemoveSeen h]) [] = Inr db \<and>
    ReadDB db (CHR ''k'' # h') = Some (Text a) \<and> Address2HostkeyInDB db a = Inr (None, db)"
proof -
  from seen_run_spec [OF seen_inv_empty assms(1), of d] obtain db where
    run: "seen_run d ops [] = Inr db" and inv: "seen_inv db (fold map_seen ops (\<lambda>_. None))" by blast
  note fits = seen_invD(2) [OF inv assms(2)] seen_invD(3) [OF inv assms(2)]
  have k: "ReadDB db (CHR ''k'' # h) = Some (Text a)" using seen_invD(1) [OF inv fits(1)] assms(2) by simp
  obtain c where c: "(if incoming then CHR ''i'' else CHR ''o'') = c" by simp
  from read_seen_q [OF inv] obtain r where r: "read_seen db (CHR ''q'' # c # h') = Inr r" by blast
  obtain x where "UpdateLastSawHost d (Some db) h' a incoming t =
      Inr (Some (WriteDB (WriteDB (WriteDB db (CHR ''q'' # c # h') (Seen x)) (CHR ''k'' # h') (Text a)) (CHR ''a'' # a) (Text h')))"
    using r fits assms(3) by (simp add: UpdateLastSawHost_def c Let_def)
  with run k fits assms(3,4) show ?thesis
    by (simp add: seen_run_append RemoveHostFromLastSeen_def Address2HostkeyInDB_def read_text_def seen_fits_length Let_def)
qed

lemma RemoveHost_loses_neighbour_witness:
  "\<exists>db. seen_run int_ops [UpdateSeen ''SHA-1'' ''10.0.0.1'' True 5, UpdateSeen ''SHA-2'' ''10.0.0.1'' True 9, RemoveSeen ''SHA-1''] [] =
      Inr db \<and> ReadDB db ''kSHA-2'' = Some (Text ''10.0.0.1'') \<and> Address2HostkeyInDB db ''10.0.0.1'' = Inr (None, db)"
  using RemoveHost_loses_neighbour [of "[UpdateSeen ''SHA-1'' ''10.0.0.1'' True 5]" "''SHA-1''" "''10.0.0.1''" "''SHA-2''" int_ops True 9]
  by (simp add: seen_fits_def CF_BUFSIZE_def del: seen_run.simps)

text \<open>C26: When the calls to the database succeed, migrating a store of schema version 0 whose old entries are sound succeeds: no old entry
  is left, a host has the address of its last old entry and an address the host of its last one, every old entry with well-formed numbers has
  its quality entry, the version is 1 and a second migration changes nothing.  When a call fails the version is only written at the very end,
  so a migration that reports failure is tried again.\<close>

lemma migration_completes:
  assumes "distinct visited" and "\<forall>key. old_key key \<longrightarrow> (key \<in> set visited \<longleftrightarrow> ReadDB db key \<noteq> None)"
    and "\<forall>key \<in> set visited. sound_old db key" and "ReadDB db ''version'' = None"
  shows "(\<exists>db'. DBMigrate d (\<lambda>_. False) db visited = Inr (True, db') \<and>
      (\<forall>key. old_key key \<longrightarrow> ReadDB db' key = None \<and>
        ReadDB db' (quality_key key) = (case old_quality d db key of Some v \<Rightarrow> Some v | None \<Rightarrow> ReadDB db (quality_key key))) \<and>
      (\<forall>h. ReadDB db' (CHR ''k'' # h) = last_value (old_hosts db visited) h (ReadDB db (CHR ''k'' # h))) \<and>
      (\<forall>a. ReadDB db' (CHR ''a'' # a) = last_value (map prod.swap (old_hosts db visited)) a (ReadDB db (CHR ''a'' # a))) \<and>
      DBVersion db' = Inr 1 \<and> DBMigrate d fails db' visited' = Inr (True, db')) \<and>
    (\<forall>db'. DBMigrate d fails db visited = Inr (False, db') \<longrightarrow> DBVersion db' = Inr 0)"
proof -
  have version: "DBVersion db = Inr 0" using assms(4) by (simp add: DBVersion_def read_text_def)
  from migrate_loop_effect [OF _ assms(1), of "\<lambda>_. False" "\<lparr>mg_db = db, mg_calls = 1, mg_errors = False\<rparr>" d] assms(3)
  obtain s where l: "migrate_loop d (\<lambda>_. False) \<lparr>mg_db = db, mg_calls = 1, mg_errors = False\<rparr> visited = Inr s"
    "\<not> mg_errors s" "migrated d db visited (mg_db s)" by auto
  let ?db' = "WriteDB (mg_db s) ''version'' (Text ''1'')"
  have m: "DBMigrate d (\<lambda>_. False) db visited = Inr (True, ?db')"
    using version l(1,2) by (simp add: DBMigrate_def LastseenMigrationVersion0_def try_db_def)
  have "strtol10 ''1'' = (1, [])"
    by (simp add: strtol10_def c_isspace_def c_isdigit_def read_nat_def digit_value_def LONG_MAX_def LONG_MIN_def Let_def)
  then have v: "DBVersion ?db' = Inr 1" by (simp add: DBVersion_def read_text_def CF_BUFSIZE_def StringToLong_def)
  have none: "old_quality d db key = None" if "old_key key" "key \<notin> set visited" for key
    using that assms(2) by (simp add: old_quality_def)
  have "ReadDB ?db' key = None \<and>
      ReadDB ?db' (quality_key key) = (case old_quality d db key of Some v \<Rightarrow> Some v | None \<Rightarrow> ReadDB db (quality_key key))"
    if "old_key key" for key
    using that l(3) assms(2) none [OF that] quality_key_new(3) [of key] quality_key_new(3) [of key, symmetric]
    by (auto simp: migrated_def split: if_splits)
  moreover have "DBMigrate d fails ?db' visited' = Inr (True, ?db')" using v by (simp add: DBMigrate_def)
  moreover have "\<forall>h. ReadDB ?db' (CHR ''k'' # h) = last_value (old_hosts db visited) h (ReadDB db (CHR ''k'' # h))"
    "\<forall>a. ReadDB ?db' (CHR ''a'' # a) = last_value (map prod.swap (old_hosts db visited)) a (ReadDB db (CHR ''a'' # a))"
    using l(3) by (simp_all add: migrated_def)
  moreover have "DBVersion db' = Inr 0" if "DBMigrate d fails db visited = Inr (False, db')" for db'
  proof -
    have "ReadDB db' ''version'' = ReadDB db ''version''"
      using that version migrate_loop_version [of d fails _ visited]
      by (auto simp: DBMigrate_def LastseenMigrationVersion0_def try_db_def res_bind_eq_Inr split: if_splits)
    with assms(4) show ?thesis by (simp add: DBVersion_def read_text_def)
  qed
  ultimately show ?thesis using m v by blast
qed

definition old_store :: "int seen_db" where
  "old_store = [(''+SHA-1'', Version0 ''10.0.0.1'' 7 3 1), (''-SHA-1'', OtherValue 200)]"

lemma migration_completes_witness:
  "\<exists>db'. DBMigrate int_ops (\<lambda>_. False) old_store [''+SHA-1'', ''-SHA-1''] = Inr (True, db') \<and> ReadDB db' ''-SHA-1'' = None \<and>
     ReadDB db' ''kSHA-1'' = Some (Text ''10.0.0.1'') \<and> ReadDB db' ''a10.0.0.1'' = Some (Text ''SHA-1'') \<and>
     ReadDB db' ''qoSHA-1'' = Some (Seen \<lparr>lastseen = 7, Q = \<lparr>q = 3, expect = 3, var = 1, dq = 0\<rparr>\<rparr>) \<and> DBVersion db' = Inr 1"
proof -
  have pre: "distinct [''+SHA-1'', ''-SHA-1'']" "\<forall>key. old_key key \<longrightarrow> (key \<in> set [''+SHA-1'', ''-SHA-1''] \<longleftrightarrow> ReadDB old_store key \<noteq> None)"
    "\<forall>key \<in> set [''+SHA-1'', ''-SHA-1'']. sound_old old_store key" "ReadDB old_store ''version'' = None"
    by (auto simp: old_store_def ReadDB_def sound_old_def seen_fits_def CF_BUFSIZE_def QPOINT0_OFFSET_def QPoint0_size_def)
  from migration_completes [OF this, of int_ops "\<lambda>_. False" "[]"] obtain db' where
    m: "DBMigrate int_ops (\<lambda>_. False) old_store [''+SHA-1'', ''-SHA-1''] = Inr (True, db')"
    "\<forall>key. old_key key \<longrightarrow> ReadDB db' key = None \<and>
        ReadDB db' (quality_key key) = (case old_quality int_ops old_store key of Some v \<Rightarrow> Some v | None \<Rightarrow> ReadDB old_store (quality_key key))"
    "\<forall>h. ReadDB db' (CHR ''k'' # h) = last_value (old_hosts old_store [''+SHA-1'', ''-SHA-1'']) h (ReadDB old_store (CHR ''k'' # h))"
    "\<forall>a. ReadDB db' (CHR ''a'' # a) = last_value (map prod.swap (old_hosts old_store [''+SHA-1'', ''-SHA-1''])) a (ReadDB old_store (CHR ''a'' # a))"
    "DBVersion db' = Inr 1" by blast
  have old: "old_key ''-SHA-1''" "old_key ''+SHA-1''" "quality_key ''+SHA-1'' = ''qoSHA-1''" by (simp_all add: old_key_def quality_key_def)
  have hosts: "old_hosts old_store [''+SHA-1'', ''-SHA-1''] = [(''SHA-1'', ''10.0.0.1'')]"
    by (simp add: old_hosts_def host_of_def old_store_def ReadDB_def old_key_def)
  have "old_quality int_ops old_store ''+SHA-1'' = Some (Seen \<lparr>lastseen = 7, Q = \<lparr>q = 3, expect = 3, var = 1, dq = 0\<rparr>\<rparr>)"
    by (simp add: old_quality_def old_store_def ReadDB_def quality_of_def int_ops_def)
  with m(2) old have "ReadDB db' ''qoSHA-1'' = Some (Seen \<lparr>lastseen = 7, Q = \<lparr>q = 3, expect = 3, var = 1, dq = 0\<rparr>\<rparr>)"
    by (metis option.simps(5))
  moreover have "ReadDB db' ''-SHA-1'' = None" using m(2) old(1) by blast
  ultimately show ?thesis using m(1,3,4,5) by (simp add: hosts last_value_single)
qed

end
