(* ===== verification/CF_Locks.thy ===== *)
theory CF_Locks
  imports CF_Databases CF_Hashes CF_Items CF_Names
begin

text \<open>
  \<open>src/transaction.c\<close>: promise locks.  A promise that is about to be kept takes a lock named after it, unless it was kept less
  than \<open>ifelapsed\<close> minutes ago, or another process holds the lock and has not exceeded \<open>expireafter\<close>.  The locks are
  entries of a store shared by all processes; an entry \<open>CF_CRITICAL_SECTION\<close> guards the changes.  The digest of a
  promise, the process identity, the clock and the outcome of killing a process are arguments.  The run log is left out.
\<close>

section \<open>State\<close>

record LockData =
  pid :: int
  time :: int

type_synonym lock_db = "LockData db"

text \<open>A pointer of \<open>CfLock\<close> is NULL, the mark \<open>CF_UNDEFINED\<close>, or a name.\<close>

datatype lock_name = LockNull | LockUndefined | LockName string

record CfLock =
  last_name :: lock_name
  lock_name :: lock_name
  log_name :: lock_name

record lock_state =
  lock_store :: "lock_db option"
  DONELIST :: "Item list"
  donep :: bool
  CFLOCK :: string
  CFLAST :: string
  CFLOG :: string

record Transaction =
  ifelapsed :: int
  expireafter :: int

definition SECONDS_PER_MINUTE :: int where
  "SECONDS_PER_MINUTE = 60"

definition SECONDS_PER_WEEK :: int where
  "SECONDS_PER_WEEK = 7 * (24 * (60 * SECONDS_PER_MINUTE))"

definition CF_LOCKHORIZON :: int where
  "CF_LOCKHORIZON = SECONDS_PER_WEEK * 4"

section \<open>Entries\<close>

definition WriteLockData :: "lock_db \<Rightarrow> string \<Rightarrow> LockData \<Rightarrow> lock_db" where
  "WriteLockData db lock_id d = WriteDB db lock_id d"

definition WriteLockDataCurrent :: "int \<Rightarrow> int \<Rightarrow> lock_db \<Rightarrow> string \<Rightarrow> lock_db" where
  "WriteLockDataCurrent self t db lock_id = WriteLockData db lock_id \<lparr>pid = self, time = t\<rparr>"

definition WriteLock :: "int \<Rightarrow> int \<Rightarrow> lock_db option \<Rightarrow> string \<Rightarrow> int \<times> lock_db option" where
  "WriteLock self t dbp key = (case dbp of None \<Rightarrow> (-1, None) | Some db \<Rightarrow> (0, Some (WriteLockDataCurrent self t db key)))"

definition RemoveLock :: "lock_db option \<Rightarrow> string \<Rightarrow> int \<times> lock_db option" where
  "RemoveLock dbp key = (case dbp of None \<Rightarrow> (-1, None) | Some db \<Rightarrow> (0, Some (DeleteDB db key)))"

definition FindLockTime :: "lock_db option \<Rightarrow> string \<Rightarrow> int" where
  "FindLockTime dbp key = (case dbp of
     None \<Rightarrow> -1
   | Some db \<Rightarrow> (case ReadDB db key of Some entry \<Rightarrow> time entry | None \<Rightarrow> -1))"

definition FindLockPid :: "lock_db option \<Rightarrow> string \<Rightarrow> int" where
  "FindLockPid dbp key = (case dbp of
     None \<Rightarrow> -1
   | Some db \<Rightarrow> (case ReadDB db key of Some entry \<Rightarrow> pid entry | None \<Rightarrow> -1))"

definition FindLock :: "int \<Rightarrow> int \<Rightarrow> lock_db option \<Rightarrow> string \<Rightarrow> int \<times> lock_db option" where
  "FindLock self t dbp last_key =
     (let mtime = FindLockTime dbp last_key in
      if mtime = -1 then (0, snd (WriteLock self t dbp last_key)) else (mtime, dbp))"

definition InvalidateLockTime :: "lock_db option \<Rightarrow> string \<Rightarrow> bool \<times> lock_db option" where
  "InvalidateLockTime dbp lock_id = (case dbp of
     None \<Rightarrow> (False, None)
   | Some db \<Rightarrow> (case ReadDB db lock_id of
        None \<Rightarrow> (True, dbp)
      | Some lock_data \<Rightarrow> (True, Some (WriteLockData db lock_id (lock_data\<lparr>time := 0\<rparr>)))))"

definition AcquireLockByID :: "int \<Rightarrow> int \<Rightarrow> lock_db option \<Rightarrow> string \<Rightarrow> int \<Rightarrow> bool \<times> lock_db option" where
  "AcquireLockByID self t dbp lock_id acquire_after_minutes = (case dbp of
     None \<Rightarrow> (False, None)
   | Some db \<Rightarrow> (case ReadDB db lock_id of
        Some lock_data \<Rightarrow>
          if time lock_data + acquire_after_minutes * SECONDS_PER_MINUTE < t
          then (True, Some (WriteLockDataCurrent self t db lock_id))
          else (False, dbp)
      | None \<Rightarrow> (True, Some (WriteLockDataCurrent self t db lock_id))))"

section \<open>The critical section\<close>

definition critical_section :: string where
  "critical_section = ''CF_CRITICAL_SECTION''"

text \<open>
  The wait looks at the store again after every second of sleep; \<open>mark\<close> is the time in the entry of the section as it is read at a time, -1
  when there is none.  The result is the time at which the section was entered, and \<open>None\<close> when the wait never ends.
\<close>

partial_function (option) wait_loop :: "(int \<Rightarrow> int) \<Rightarrow> int \<Rightarrow> int option" where
  "wait_loop mark now = (if mark now \<noteq> -1 \<and> now - mark now < 60 then wait_loop mark (now + 1) else Some now)"

text \<open>\<open>view\<close> is the store at each second of the wait, as the other processes leave it.\<close>

definition WaitForCriticalSection :: "int \<Rightarrow> int \<Rightarrow> (int \<Rightarrow> lock_db option) \<Rightarrow> (int \<times> lock_db option) option" where
  "WaitForCriticalSection self now view =
     map_option (\<lambda>t. (t, snd (WriteLock self t (view t) critical_section))) (wait_loop (\<lambda>t. FindLockTime (view t) critical_section) now)"

definition ReleaseCriticalSection :: "lock_db option \<Rightarrow> lock_db option" where
  "ReleaseCriticalSection dbp = snd (RemoveLock dbp critical_section)"

section \<open>Names of locks\<close>

text \<open>\<open>sscanf(s, "%d %d:%d:%d", ...)\<close> into variables that are 0; the numbers are taken to fit.\<close>

definition scan_colon_int :: "string \<Rightarrow> (int \<times> string) option" where
  "scan_colon_int s = (if s \<noteq> [] \<and> hd s = CHR '':'' then scan_int (tl s) else None)"

definition scan_date :: "string \<Rightarrow> int \<times> int \<times> int \<times> int" where
  "scan_date s =
     (case scan_int s of
        None \<Rightarrow> (0, 0, 0, 0)
      | Some (a, s1) \<Rightarrow> (case scan_int s1 of
          None \<Rightarrow> (a, 0, 0, 0)
        | Some (b, s2) \<Rightarrow> (case scan_colon_int s2 of
            None \<Rightarrow> (a, b, 0, 0)
          | Some (c, s3) \<Rightarrow> (case scan_colon_int s3 of
              None \<Rightarrow> (a, b, c, 0)
            | Some (d, s4) \<Rightarrow> (a, b, c, d)))))"

definition overwrite3 :: "string \<Rightarrow> nat \<Rightarrow> string \<Rightarrow> string" where
  "overwrite3 s i t = take i s @ t @ drop (i + 3) s"

text \<open>The first key of the list that occurs, with its position.\<close>

fun first_name :: "string \<Rightarrow> string list \<Rightarrow> nat option" where
  "first_name s [] = None"
| "first_name s (n # names) = (case strstr s n of Some i \<Rightarrow> Some i | None \<Rightarrow> first_name s names)"

definition day_names :: "string list" where
  "day_names = [''Mon'', ''Tue'', ''Wed'', ''Thu'', ''Fri'', ''Sat'', ''Sun'']"

definition month_names :: "string list" where
  "month_names = [''Jan'', ''Feb'', ''Mar'', ''Apr'', ''May'', ''Jun'', ''Jul'', ''Aug'', ''Sep'', ''Oct'', ''Nov'', ''Dec'']"

definition RemoveDates :: "string \<Rightarrow> string" where
  "RemoveDates s =
     (if length s < length ''Fri Oct 1 15:15:23 EST 2010'' then s
      else
        let dayp = first_name s day_names;
            s1 = (case dayp of Some i \<Rightarrow> overwrite3 s i ''DAY'' | None \<Rightarrow> s);
            monthp = first_name s1 month_names;
            s2 = (case monthp of Some i \<Rightarrow> overwrite3 s1 i ''MON'' | None \<Rightarrow> s1)
        in case (dayp, monthp) of
             (Some _, Some i) \<Rightarrow>
               (case scan_date (drop (i + 4) s2) of (a, b, c, d) \<Rightarrow>
                  if a * b * c * d = 0 then s2
                  else take (i + 4) s2 @
                    map (\<lambda>x. if c_isdigit x then CHR ''t'' else x) (take 12 (drop (i + 4) s2)) @ drop (i + 16) s2)
           | _ \<Rightarrow> s2)"

text \<open>\<open>src/promises.c\<close>: a template of the body, from the promise type and the first constraints.\<close>

fun body_name_loop :: "nat \<Rightarrow> nat \<Rightarrow> string list \<Rightarrow> string" where
  "body_name_loop i used [] = []"
| "body_name_loop i used (lv # conlist) =
     (if \<not> i < 5 then []
      else if strcmp lv ''args'' = 0 then body_name_loop (i + 1) used conlist
      else if used + length lv < CF_MAXVARSIZE - CF_BUFFERMARGIN
      then lv @ ''.'' @ body_name_loop (i + 1) (used + length lv) conlist
      else body_name_loop (i + 1) used conlist)"

text \<open>Without room for the promise type the buffer has no start for \<open>strcat\<close>.\<close>

definition BodyName :: "string \<Rightarrow> string list \<Rightarrow> string res" where
  "BodyName agentsubtype lvals =
     (if length agentsubtype < CF_MAXVARSIZE - CF_BUFFERMARGIN
      then Inr (agentsubtype @ ''.'' @ body_name_loop 0 (length agentsubtype) lvals)
      else Inl OutOfBounds)"

definition lock_text :: "string \<Rightarrow> string \<Rightarrow> string \<Rightarrow> string \<Rightarrow> string \<Rightarrow> string" where
  "lock_text kind bundle_name cc_operator cc_operand str_digest =
     take (CF_BUFSIZE - 1)
       (kind @ ''.'' @ take 100 bundle_name @ ''.'' @ cc_operator @ ''.'' @ take 100 cc_operand @ ''_'' @
        show_int (ref_hash_loop (ref_hash_loop 0 cc_operator) cc_operand) @ ''_'' @ str_digest)"

text \<open>\<open>GetLockName\<close> for other locks; \<open>strncpy\<close> does not terminate a type that fills its share.\<close>

definition GetLockName :: "string \<Rightarrow> string \<Rightarrow> string list \<Rightarrow> string res" where
  "GetLockName locktype base params =
     (let max_sample = (if params = [] then 0 else CF_BUFSIZE div (2 * length params)) in
      if length locktype \<ge> CF_BUFSIZE div 10 then Inl OutOfBounds
      else Inr (locktype @ ''_'' @ take (CF_BUFSIZE div 10) base @ ''_'' @ concat (map (take max_sample) params)))"

section \<open>Taking and giving back\<close>

text \<open>What a lock belongs to: the fields of the promise and the settings of the agent that the code reads.\<close>

record lock_request =
  operand :: string
  host :: string
  bundle_name :: string
  agentsubtype :: string
  lvals :: "string list"
  str_digest :: string
  transaction :: Transaction
  pp_done :: bool

record lock_agent =
  self :: int
  CF_STCKFRAME :: int
  is_cf_agent :: bool
  IGNORELOCK :: bool
  CFWORKDIR :: string
  terminates :: "int \<Rightarrow> bool"

definition lock_names :: "lock_agent \<Rightarrow> lock_request \<Rightarrow> (string \<times> string \<times> string) res" where
  "lock_names agent r =
     res_bind (BodyName (agentsubtype r) (lvals r)) (\<lambda>promise.
       if length (operand r) \<ge> CF_BUFSIZE - 1 then Inl OutOfBounds
       else
         let cc_operator = take (CF_MAXVARSIZE - 2) (promise @ ''-'' @ host r);
             cc_operand = RemoveDates (CanonifyNameInPlace (operand r))
         in Inr (lock_text ''lock'' (bundle_name r) cc_operator cc_operand (str_digest r),
                 lock_text ''last'' (bundle_name r) cc_operator cc_operand (str_digest r),
                 take (CF_BUFSIZE - 1) (CFWORKDIR agent @ ''/cf3.'' @ take 40 (host r) @ ''.runlog'')))"

definition no_lock :: CfLock where
  "no_lock = \<lparr>last_name = LockNull, lock_name = LockNull, log_name = LockNull\<rparr>"

text \<open>
  The part of \<open>AcquireLock\<close> under the critical section, entered at time \<open>t\<close>.  The value tells whether the lock was
  taken; killing an expired holder can fail, which is a fatal error.
\<close>

definition lock_section :: "lock_agent \<Rightarrow> bool \<Rightarrow> Transaction \<Rightarrow> int \<Rightarrow> int \<Rightarrow> string \<Rightarrow> string \<Rightarrow> lock_db option \<Rightarrow>
    (bool \<times> lock_db option) res" where
  "lock_section agent ignoreProcesses attr now t cflock cflast dbp =
     (case FindLock (self agent) t dbp cflast of (lastcompleted, dbp1) \<Rightarrow>
        let elapsedtime = (now - lastcompleted) sdiv 60 in
        if elapsedtime < 0 then Inr (False, dbp1)
        else if elapsedtime < ifelapsed attr then Inr (False, dbp1)
        else if ignoreProcesses then Inr (True, dbp1)
        else
          (case FindLock (self agent) t dbp1 cflock of (started, dbp2) \<Rightarrow>
             let elapsedtime = (now - started) sdiv 60 in
             if started \<noteq> 0 \<and> elapsedtime < expireafter attr then Inr (False, dbp2)
             else if started \<noteq> 0 \<and> FindLockPid dbp2 cflock \<noteq> -1 \<and> \<not> terminates agent (FindLockPid dbp2 cflock)
             then Inl FatalErrorExit
             else Inr (True, snd (WriteLock (self agent) t dbp2 cflock))))"

text \<open>
  The section is entered at a time found by the wait, on the store as it is then, and nobody else is taken to change the store until it is
  left.  \<open>None\<close> is a wait without end.
\<close>

definition AcquireLock :: "lock_agent \<Rightarrow> lock_request \<Rightarrow> bool \<Rightarrow> int \<Rightarrow> int \<Rightarrow> (int \<Rightarrow> lock_db option) \<Rightarrow> lock_state \<Rightarrow> (CfLock \<times> lock_state) run" where
  "AcquireLock agent r ignoreProcesses now t0 view st =
     (if now = 0 then ret (\<lparr>last_name = LockUndefined, lock_name = LockUndefined, log_name = LockUndefined\<rparr>, st)
      else if pp_done r then ret (no_lock, st)
      else
        let st = (if CF_STCKFRAME agent = 1 then st\<lparr>donep := True\<rparr> else st) in
        if is_cf_agent agent \<and> IsItemIn (DONELIST st) (Some (str_digest r)) then ret (no_lock, st)
        else
          let st = (if is_cf_agent agent then st\<lparr>DONELIST := PrependItem (DONELIST st) (str_digest r) None\<rparr> else st) in
          if IGNORELOCK agent then ret (no_lock\<lparr>lock_name := LockName ''dummy''\<rparr>, st)
          else case lock_names agent r of
              Inl e \<Rightarrow> Some (Inl e)
            | Inr (cflock, cflast, cflog) \<Rightarrow>
                (case WaitForCriticalSection (self agent) t0 view of
                   None \<Rightarrow> None
                 | Some (t, dbp) \<Rightarrow>
                     Some (res_bind (lock_section agent ignoreProcesses (transaction r) now t cflock cflast dbp) (\<lambda>(taken, dbp).
                       let st = st\<lparr>lock_store := ReleaseCriticalSection dbp\<rparr> in
                       if taken
                       then Inr (\<lparr>last_name = LockName cflast, lock_name = LockName cflock, log_name = LockName cflog\<rparr>,
                              st\<lparr>CFLOCK := cflock, CFLAST := cflast, CFLOG := cflog\<rparr>)
                       else Inr (no_lock, st)))))"

text \<open>A lock that was refused is NULL here, which \<open>DeleteDB\<close> would dereference.\<close>

definition YieldCurrentLock :: "lock_agent \<Rightarrow> CfLock \<Rightarrow> int \<Rightarrow> lock_state \<Rightarrow> lock_state res" where
  "YieldCurrentLock agent this t st =
     (if IGNORELOCK agent then Inr st
      else case lock_name this of
          LockUndefined \<Rightarrow> Inr st
        | LockNull \<Rightarrow> Inl NullDereference
        | LockName lock \<Rightarrow>
            (case RemoveLock (lock_store st) lock of (rc, dbp) \<Rightarrow>
               if rc = -1 then Inr (st\<lparr>lock_store := dbp\<rparr>)
               else case last_name this of
                   LockName last_key \<Rightarrow> Inr (st\<lparr>lock_store := snd (WriteLock (self agent) t dbp last_key)\<rparr>)
                 | _ \<Rightarrow> Inl NullDereference))"

section \<open>Processes that share the store\<close>

text \<open>
  What processes do with locks, one after the other, each with its own state.  The wait for the section is over when an operation has its
  turn, or the mark it finds has been left behind.
\<close>

datatype lock_op =
    TryLock lock_agent lock_request bool int int lock_state
  | GiveBack lock_agent CfLock int lock_state

fun lock_step :: "lock_op \<Rightarrow> lock_db option \<Rightarrow> lock_db option run" where
  "lock_step (TryLock agent r ignoreProcesses now t st) dbp =
     run_bind (AcquireLock agent r ignoreProcesses now t (\<lambda>_. dbp) (st\<lparr>lock_store := dbp\<rparr>)) (\<lambda>(lk, st'). ret (lock_store st'))"
| "lock_step (GiveBack agent lk t st) dbp =
     run_bind (Some (YieldCurrentLock agent lk t (st\<lparr>lock_store := dbp\<rparr>))) (\<lambda>st'. ret (lock_store st'))"

fun lock_run :: "lock_op list \<Rightarrow> lock_db option \<Rightarrow> lock_db option run" where
  "lock_run [] dbp = ret dbp"
| "lock_run (x # ops) dbp = run_bind (lock_step x dbp) (lock_run ops)"

section \<open>Purging\<close>

text \<open>
  \<open>NextDB\<close> is given the address of \<open>entry\<close> where it expects the address of a pointer: it stores the pointer to the value
  over the first eight bytes of \<open>entry\<close>, which hold the process identity and padding.  So \<open>entry.time\<close> is not the time of
  the visited lock; it keeps what it had before the loop.  \<open>visited\<close> are the keys the cursor returns.
\<close>

fun purge_loop :: "int \<Rightarrow> int \<Rightarrow> lock_db \<Rightarrow> string list \<Rightarrow> lock_db" where
  "purge_loop now entry_time db [] = db"
| "purge_loop now entry_time db (key # visited) =
     (if starts_with ''last.internal_bundle.track_license.handle'' key then purge_loop now entry_time db visited
      else if now - entry_time > CF_LOCKHORIZON then purge_loop now entry_time (DeleteDB db key) visited
      else purge_loop now entry_time db visited)"

definition PurgeLocks :: "string list \<Rightarrow> int \<Rightarrow> int \<Rightarrow> lock_db option \<Rightarrow> lock_db option" where
  "PurgeLocks visited pointer now dbp =
     (case dbp of
        None \<Rightarrow> None
      | Some db \<Rightarrow>
          let entry = (case ReadDB db ''lock_horizon'' of Some e \<Rightarrow> e | None \<Rightarrow> \<lparr>pid = 0, time = 0\<rparr>) in
          if ReadDB db ''lock_horizon'' \<noteq> None \<and> now - time entry < SECONDS_PER_WEEK * 4 then Some db
          else Some (WriteDB (purge_loop now (time entry) db visited) ''lock_horizon''
                 \<lparr>pid = (if visited = [] then pid entry else pointer), time = now\<rparr>))"

definition EnforcePromise :: "bool \<Rightarrow> bool \<Rightarrow> bool" where
  "EnforcePromise DONTDO warn_only \<longleftrightarrow> \<not> DONTDO \<and> \<not> warn_only"

end
