(* ===== verification/CF_LockProofs.thy ===== *)
theory CF_LockProofs
  imports CF_Locks
begin

text \<open>
  Promise locks: a lock is exclusive until it expires, a kept promise is left alone for \<open>ifelapsed\<close> minutes, the wait for the
  critical section ends within a minute; and two places where the code does not do what it means to, the purging of
  stale locks and the blanking of dates in lock names.
\<close>

section \<open>Facts about the store\<close>

lemma find_time [simp]:
  "FindLockTime (Some (WriteDB db key d)) k = (if k = key then time d else FindLockTime (Some db) k)"
  "FindLockTime (Some (DeleteDB db key)) k = (if k = key then -1 else FindLockTime (Some db) k)"
  "FindLockTime None k = -1"
  by (simp_all add: FindLockTime_def)

lemma WriteLock_Some [simp]: "WriteLock me t (Some db) key = (0, Some (WriteDB db key \<lparr>pid = me, time = t\<rparr>))"
  by (simp add: WriteLock_def WriteLockDataCurrent_def WriteLockData_def)

lemma RemoveLock_Some [simp]: "RemoveLock (Some db) key = (0, Some (DeleteDB db key))"
  by (simp add: RemoveLock_def)

lemma FindLock_Some:
  "FindLock me t (Some db) key =
     (if FindLockTime (Some db) key = -1 then (0, Some (WriteDB db key \<lparr>pid = me, time = t\<rparr>)) else (FindLockTime (Some db) key, Some db))"
  by (simp add: FindLock_def Let_def)

lemma FindLock_None [simp]: "FindLock me t None key = (0, None)"
  by (simp add: FindLock_def WriteLock_def)

lemma WriteLock_None [simp]: "snd (WriteLock me t None key) = None"
  by (simp add: WriteLock_def)

lemma ret_same: "ret x = ret y \<longleftrightarrow> x = y" "Some r = ret y \<longleftrightarrow> r = Inr y"
  by (simp_all add: ret_def)

lemma Release_time: "k \<noteq> critical_section \<Longrightarrow> FindLockTime (ReleaseCriticalSection dbp) k = FindLockTime dbp k"
  by (cases dbp) (simp_all add: ReleaseCriticalSection_def RemoveLock_def)

lemma WriteLock_time: "k \<noteq> key \<Longrightarrow> FindLockTime (snd (WriteLock me t dbp key)) k = FindLockTime dbp k"
  by (cases dbp) simp_all

lemma FindLock_store: "\<exists>db1. snd (FindLock me t (Some db) key) = Some db1 \<and>
    (\<forall>k. k \<noteq> key \<longrightarrow> FindLockTime (Some db1) k = FindLockTime (Some db) k)"
  by (simp add: FindLock_Some)

lemma Release_Some [simp]: "ReleaseCriticalSection (Some db) = Some (DeleteDB db critical_section)"
  by (simp add: ReleaseCriticalSection_def)

section \<open>The names of a lock\<close>

lemma lock_names_distinct:
  assumes "lock_names agent r = Inr (cflock, cflast, cflog)"
  shows "cflock \<noteq> cflast" "cflock \<noteq> critical_section" "cflast \<noteq> critical_section"
    and "starts_with ''lock'' cflock" "starts_with ''last'' cflast"
proof -
  from assms obtain u v where "cflock = take (CF_BUFSIZE - 1) (''lock'' @ u)" "cflast = take (CF_BUFSIZE - 1) (''last'' @ v)"
    by (auto simp: lock_names_def res_bind_eq_Inr lock_text_def Let_def split: if_splits)
  then show "starts_with ''lock'' cflock" "starts_with ''last'' cflast" by (simp_all add: CF_BUFSIZE_def)
  from assms obtain u v where "cflock = take (CF_BUFSIZE - 1) (CHR ''l'' # CHR ''o'' # u)"
    "cflast = take (CF_BUFSIZE - 1) (CHR ''l'' # CHR ''a'' # v)"
    by (auto simp: lock_names_def res_bind_eq_Inr lock_text_def Let_def split: if_splits)
  then show "cflock \<noteq> cflast" "cflock \<noteq> critical_section" "cflast \<noteq> critical_section"
    by (auto simp: CF_BUFSIZE_def take_Cons' critical_section_def)
qed

text \<open>The names in the store do not depend on the agent.\<close>

lemma lock_names_agent:
  assumes "lock_names agent r = Inr (cflock, cflast, cflog)"
  shows "\<exists>cflog'. lock_names agent' r = Inr (cflock, cflast, cflog')"
  using assms by (auto simp: lock_names_def res_bind_eq_Inr Let_def split: if_splits)

section \<open>Outcome of the section\<close>

lemma section_taken:
  assumes "lock_section agent False attr now t cflock cflast (Some db) = Inr (True, dbp)"
  shows "\<exists>db'. dbp = Some db' \<and> FindLockTime (Some db') cflock = t"
  using assms by (auto simp: lock_section_def FindLock_Some Let_def split: if_splits)

lemma section_busy:
  assumes "cflock \<noteq> cflast" and "FindLockTime (Some db) cflock \<noteq> -1" and "FindLockTime (Some db) cflock \<noteq> 0"
    and "(now - FindLockTime (Some db) cflock) sdiv 60 < expireafter attr"
  shows "\<exists>dbp. lock_section agent False attr now t cflock cflast (Some db) = Inr (False, dbp)"
  using assms by (auto simp: lock_section_def FindLock_Some Let_def)

lemma section_recent:
  assumes "FindLockTime (Some db) cflast \<noteq> -1" and "(now - FindLockTime (Some db) cflast) sdiv 60 < ifelapsed attr"
  shows "\<exists>dbp. lock_section agent ignoreProcesses attr now t cflock cflast (Some db) = Inr (False, dbp)"
  using assms by (auto simp: lock_section_def FindLock_Some Let_def)

lemma section_free:
  assumes "cflock \<noteq> cflast" and "FindLockTime (Some db) cflock = -1" and "FindLockTime (Some db) cflast \<noteq> -1"
    and "ifelapsed attr \<le> (now - FindLockTime (Some db) cflast) sdiv 60" and "0 \<le> (now - FindLockTime (Some db) cflast) sdiv 60"
  shows "\<exists>dbp. lock_section agent False attr now t cflock cflast (Some db) = Inr (True, dbp)"
  using assms by (auto simp: lock_section_def FindLock_Some Let_def)

lemma minutes_mono: "a \<le> b \<Longrightarrow> a sdiv 60 \<le> b sdiv (60 :: int)"
proof -
  assume "a \<le> b"
  then have "0 \<le> a \<Longrightarrow> a div 60 \<le> b div 60" "b \<le> 0 \<Longrightarrow> - b div 60 \<le> - a div 60" by (simp_all add: zdiv_mono1)
  moreover have "a < 0 \<Longrightarrow> 0 \<le> - a div 60" "0 \<le> b \<Longrightarrow> 0 \<le> b div 60" by simp_all
  ultimately show ?thesis using \<open>a \<le> b\<close> by (auto simp: signed_divide_int_def sgn_if)
qed

text \<open>What the section leaves alone: all other entries, the time the promise was kept last, and a lock that is held.\<close>

lemma section_other:
  assumes "lock_section agent ign attr now t cflock cflast dbp = Inr (taken, dbp')" and "k \<noteq> cflock" "k \<noteq> cflast"
  shows "FindLockTime dbp' k = FindLockTime dbp k"
  using assms by (cases dbp) (auto simp: lock_section_def FindLock_Some Let_def split: if_splits)

lemma section_last:
  assumes "lock_section agent ign attr now t cflock cflast dbp = Inr (taken, dbp')" and "FindLockTime dbp cflast \<noteq> -1" "cflock \<noteq> cflast"
  shows "FindLockTime dbp' cflast = FindLockTime dbp cflast"
  using assms by (cases dbp) (auto simp: lock_section_def FindLock_Some Let_def split: if_splits)

lemma section_held:
  assumes "lock_section agent ign attr now t cflock cflast dbp = Inr (taken, dbp')" and "0 < FindLockTime dbp cflock" "cflock \<noteq> cflast"
    and "ign \<or> (now - FindLockTime dbp cflock) sdiv 60 < expireafter attr"
  shows "FindLockTime dbp' cflock = FindLockTime dbp cflock"
  using assms by (cases dbp) (auto simp: lock_section_def FindLock_Some Let_def split: if_splits)

text \<open>An attempt either changes nothing, or goes through the section.\<close>

lemma AcquireLock_section:
  assumes "AcquireLock agent r ign now t0 view st = ret (lk, st')" and "\<not> IGNORELOCK agent" and "lock_name lk = LockName cflock"
  shows "\<exists>cflast cflog t dbp. lock_names agent r = Inr (cflock, cflast, cflog) \<and> last_name lk = LockName cflast \<and>
    wait_loop (\<lambda>t. FindLockTime (view t) critical_section) t0 = Some t \<and>
    lock_section agent ign (transaction r) now t cflock cflast (snd (WriteLock (self agent) t (view t) critical_section)) = Inr (True, dbp) \<and>
    lock_store st' = ReleaseCriticalSection dbp"
  using assms
  by (auto simp: AcquireLock_def no_lock_def ret_def Let_def res_bind_eq_Inr WaitForCriticalSection_def
      split: if_splits prod.splits sum.splits option.splits)

lemma AcquireLock_store:
  assumes "AcquireLock agent r ign now t0 view st = ret (lk, st')"
  shows "lock_store st' = lock_store st \<or> (\<exists>cflock cflast cflog t taken dbp. lock_names agent r = Inr (cflock, cflast, cflog) \<and>
    lock_section agent ign (transaction r) now t cflock cflast (snd (WriteLock (self agent) t (view t) critical_section)) = Inr (taken, dbp) \<and>
    lock_store st' = ReleaseCriticalSection dbp)"
proof (cases "\<exists>cflock cflast cflog t dbp. lock_names agent r = Inr (cflock, cflast, cflog) \<and> WaitForCriticalSection (self agent) t0 view = Some (t, dbp)")
  case True
  then obtain cflock cflast cflog t where n: "lock_names agent r = Inr (cflock, cflast, cflog)"
    "WaitForCriticalSection (self agent) t0 view = Some (t, snd (WriteLock (self agent) t (view t) critical_section))"
    by (auto simp: WaitForCriticalSection_def)
  with assms have "lock_store st' = lock_store st \<or> (\<exists>taken dbp.
    lock_section agent ign (transaction r) now t cflock cflast (snd (WriteLock (self agent) t (view t) critical_section)) = Inr (taken, dbp) \<and>
    lock_store st' = ReleaseCriticalSection dbp)"
    by (simp add: AcquireLock_def ret_def Let_def res_bind_eq_Inr split: if_splits) auto
  with n(1) show ?thesis by blast
next
  case False
  with assms show ?thesis
    by (auto simp: AcquireLock_def ret_def Let_def split: if_splits sum.splits option.splits)
qed

section \<open>Other processes\<close>

text \<open>
  A step leaves a lock taken at a time alone: nobody gives that lock back, and nobody who minds other processes comes for it after it has
  expired for him.
\<close>

fun leaves_lock :: "string \<Rightarrow> int \<Rightarrow> lock_op \<Rightarrow> bool" where
  "leaves_lock cflock taken (TryLock agent r ignoreProcesses now t st) =
     (ignoreProcesses \<or> (case lock_names agent r of
        Inr (key, _, _) \<Rightarrow> key \<noteq> cflock \<or> (now - taken) sdiv 60 < expireafter (transaction r)
      | Inl _ \<Rightarrow> True))"
| "leaves_lock cflock taken (GiveBack agent lk t st) = (lock_name lk \<noteq> LockName cflock \<and> last_name lk \<noteq> LockName cflock)"

text \<open>A step after a time: a lock that is given back belongs to a promise, and if it is for the same promise the clock has not gone back.\<close>

fun keeps_last :: "string \<Rightarrow> int \<Rightarrow> lock_op \<Rightarrow> bool" where
  "keeps_last cflast kept (TryLock agent r ignoreProcesses now t st) = True"
| "keeps_last cflast kept (GiveBack agent lk t st) = (lock_name lk \<noteq> LockName cflast \<and> (last_name lk = LockName cflast \<longrightarrow> kept \<le> t))"

lemma run_bind_step: "run_bind x f = ret y \<longleftrightarrow> (\<exists>z. x = ret z \<and> f z = ret y)"
  by (auto simp: run_bind_def ret_def split: option.splits sum.splits)

lemma yield_time:
  assumes "YieldCurrentLock agent lk t st = Inr st'"
  shows "FindLockTime (lock_store st') k = FindLockTime (lock_store st) k \<or> (\<exists>l la. lock_name lk = LockName l \<and> last_name lk = LockName la \<and>
    FindLockTime (lock_store st') k = (if k = la then t else if k = l then -1 else FindLockTime (lock_store st) k))"
  using assms by (cases "lock_store st"; cases "lock_name lk"; cases "last_name lk") (auto simp: YieldCurrentLock_def RemoveLock_def split: if_splits)

lemma lock_step_leaves:
  assumes "lock_step x dbp = ret dbp'" and "leaves_lock cflock taken x" and "FindLockTime dbp cflock = taken" "0 < taken"
    and "starts_with ''lock'' cflock" "cflock \<noteq> critical_section"
  shows "FindLockTime dbp' cflock = taken"
proof (cases x)
  case (TryLock agent r ign now t st)
  with assms(1) obtain lk st' where a: "AcquireLock agent r ign now t (\<lambda>_. dbp) (st\<lparr>lock_store := dbp\<rparr>) = ret (lk, st')" "lock_store st' = dbp'"
    by (auto simp: run_bind_step ret_same)
  from AcquireLock_store [OF a(1)] show ?thesis
  proof (elim disjE exE conjE)
    fix key cflast cflog te tk dbp1
    let ?dbp = "snd (WriteLock (self agent) te dbp critical_section)"
    assume n: "lock_names agent r = Inr (key, cflast, cflog)"
      and s: "lock_section agent ign (transaction r) now te key cflast ?dbp = Inr (tk, dbp1)"
      and st: "lock_store st' = ReleaseCriticalSection dbp1"
    have time: "FindLockTime ?dbp cflock = taken" using WriteLock_time [OF assms(6)] assms(3) by simp
    from lock_names_distinct(5) [OF n] assms(5) have last: "cflock \<noteq> cflast" by (auto simp: starts_with_iff)
    have "FindLockTime dbp1 cflock = taken"
    proof (cases "key = cflock")
      case True
      with section_held [OF s] time assms(2,4) lock_names_distinct(1) [OF n] n show ?thesis by (auto simp: TryLock)
    next
      case False
      with section_other [OF s _ last] time show ?thesis by simp
    qed
    with Release_time [OF assms(6)] st a(2) show ?thesis by simp
  qed (use a(2) assms(3) in simp)
next
  case (GiveBack agent lk t st)
  with assms(1) obtain st' where st': "YieldCurrentLock agent lk t (st\<lparr>lock_store := dbp\<rparr>) = Inr st'" "lock_store st' = dbp'"
    by (auto simp: run_bind_step ret_same)
  from yield_time [OF st'(1), of cflock] st'(2) assms(2,3) GiveBack show ?thesis
    by (elim disjE exE conjE) (auto split: if_splits)
qed

lemma lock_step_last:
  assumes "lock_step x dbp = ret dbp'" and "keeps_last cflast kept x" and "kept \<le> FindLockTime dbp cflast" "0 \<le> kept"
    and "starts_with ''last'' cflast" "cflast \<noteq> critical_section"
  shows "kept \<le> FindLockTime dbp' cflast"
proof (cases x)
  case (TryLock agent r ign now t st)
  with assms(1) obtain lk st' where a: "AcquireLock agent r ign now t (\<lambda>_. dbp) (st\<lparr>lock_store := dbp\<rparr>) = ret (lk, st')" "lock_store st' = dbp'"
    by (auto simp: run_bind_step ret_same)
  from AcquireLock_store [OF a(1)] show ?thesis
  proof (elim disjE exE conjE)
    fix key la cflog te tk dbp1
    let ?dbp = "snd (WriteLock (self agent) te dbp critical_section)"
    assume n: "lock_names agent r = Inr (key, la, cflog)"
      and s: "lock_section agent ign (transaction r) now te key la ?dbp = Inr (tk, dbp1)"
      and st: "lock_store st' = ReleaseCriticalSection dbp1"
    have time: "kept \<le> FindLockTime ?dbp cflast" using WriteLock_time [OF assms(6)] assms(3) by simp
    from lock_names_distinct(4) [OF n] assms(5) have key: "cflast \<noteq> key" by (auto simp: starts_with_iff)
    have "kept \<le> FindLockTime dbp1 cflast"
    proof (cases "la = cflast")
      case True
      with section_last [OF s] time assms(4) key show ?thesis by auto
    next
      case False
      with section_other [OF s key] time show ?thesis by simp
    qed
    with Release_time [OF assms(6)] st a(2) show ?thesis by simp
  qed (use a(2) assms(3) in simp)
next
  case (GiveBack agent lk t st)
  with assms(1) obtain st' where st': "YieldCurrentLock agent lk t (st\<lparr>lock_store := dbp\<rparr>) = Inr st'" "lock_store st' = dbp'"
    by (auto simp: run_bind_step ret_same)
  from yield_time [OF st'(1), of cflast] st'(2) assms(2,3) GiveBack show ?thesis
    by (elim disjE exE conjE) (simp_all split: if_splits)
qed

lemma lock_run_leaves:
  "lock_run ops dbp = ret dbp' \<Longrightarrow> list_all (leaves_lock cflock taken) ops \<Longrightarrow> FindLockTime dbp cflock = taken \<Longrightarrow> 0 < taken \<Longrightarrow>
   starts_with ''lock'' cflock \<Longrightarrow> cflock \<noteq> critical_section \<Longrightarrow> FindLockTime dbp' cflock = taken"
proof (induction ops arbitrary: dbp)
  case (Cons x ops)
  from Cons.prems(1) obtain dbp1 where "lock_step x dbp = ret dbp1" "lock_run ops dbp1 = ret dbp'" by (auto simp: run_bind_step)
  with Cons.IH [of dbp1] lock_step_leaves [of x dbp dbp1 cflock taken] Cons.prems(2-) show ?case by simp
qed (simp add: ret_def)

lemma lock_run_last:
  "lock_run ops dbp = ret dbp' \<Longrightarrow> list_all (keeps_last cflast kept) ops \<Longrightarrow> kept \<le> FindLockTime dbp cflast \<Longrightarrow> 0 \<le> kept \<Longrightarrow>
   starts_with ''last'' cflast \<Longrightarrow> cflast \<noteq> critical_section \<Longrightarrow> kept \<le> FindLockTime dbp' cflast"
proof (induction ops arbitrary: dbp)
  case (Cons x ops)
  from Cons.prems(1) obtain dbp1 where "lock_step x dbp = ret dbp1" "lock_run ops dbp1 = ret dbp'" by (auto simp: run_bind_step)
  with Cons.IH [of dbp1] lock_step_last [of x dbp dbp1 cflast kept] Cons.prems(2-) show ?case by simp
qed (simp add: ret_def)

section \<open>The wait\<close>

lemma wait_at_end: "mark now = -1 \<or> 60 \<le> now - mark now \<Longrightarrow> wait_loop mark now = Some now"
  by (subst wait_loop.simps) auto

lemma wait_bound:
  assumes "\<forall>t \<ge> now. mark t \<le> m"
  shows "\<exists>t. wait_loop mark now = Some t \<and> now \<le> t \<and> t \<le> max now (m + 60)"
  using assms
proof (induction "nat (m + 60 - now)" arbitrary: now rule: less_induct)
  case less
  show ?case
  proof (cases "mark now = -1 \<or> 60 \<le> now - mark now")
    case True
    then show ?thesis using wait_at_end [of mark now] by auto
  next
    case False
    then have step: "wait_loop mark now = wait_loop mark (now + 1)" by (subst wait_loop.simps) auto
    from less.prems have "mark now \<le> m" by simp
    with False have "nat (m + 60 - (now + 1)) < nat (m + 60 - now)" "now + 1 \<le> m + 60" by auto
    with less.hyps [of "now + 1"] less.prems obtain t where "wait_loop mark (now + 1) = Some t" "now + 1 \<le> t" "t \<le> max (now + 1) (m + 60)" by auto
    with step \<open>now + 1 \<le> m + 60\<close> show ?thesis by auto
  qed
qed

section \<open>Dates\<close>

lemma scan_int_subset: "scan_int s = Some (v, r) \<Longrightarrow> set r \<subseteq> set s"
proof -
  assume a: "scan_int s = Some (v, r)"
  have sub: "set (dropWhile P (tl u)) \<subseteq> set u" "set (dropWhile P u) \<subseteq> set u" for P and u :: string
    by (cases u) (auto dest: set_dropWhileD)
  have "set (dropWhile c_isdigit s2) \<subseteq> set s" if "s2 = dropWhile c_isspace s \<or> s2 = tl (dropWhile c_isspace s)" for s2
    using that sub(2) [of c_isspace s] sub [of c_isdigit "dropWhile c_isspace s"] by auto
  with a show ?thesis by (auto simp: scan_int_def strtol10_def Let_def split: if_splits)
qed

lemma scan_date_no_colon: "CHR '':'' \<notin> set s \<Longrightarrow> scan_date s = (a, b, c, d) \<Longrightarrow> c = 0 \<and> d = 0"
proof -
  assume s: "CHR '':'' \<notin> set s" and d: "scan_date s = (a, b, c, d)"
  have "scan_colon_int r = None" if "set r \<subseteq> set s" for r
    using that s by (cases r) (auto simp: scan_colon_int_def)
  then show ?thesis using d scan_int_subset
    by (auto simp: scan_date_def split: option.splits prod.splits) (metis option.distinct(1) subset_trans)+
qed

definition three_letters :: "string list \<Rightarrow> bool" where
  "three_letters names \<longleftrightarrow> (\<forall>n \<in> set names. length n = 3 \<and> list_all (\<lambda>c. \<not> c_isdigit c \<and> c \<noteq> CHR '':'') n)"

lemma name_tables: "three_letters day_names" "three_letters month_names"
  by (simp_all add: three_letters_def day_names_def month_names_def c_isdigit_def)

lemma first_name_overwrite:
  assumes "three_letters names" and "first_name s names = Some i" and "list_all (\<lambda>c. \<not> c_isdigit c \<and> c \<noteq> CHR '':'') t"
  shows "filter c_isdigit (overwrite3 s i t) = filter c_isdigit s" "CHR '':'' \<notin> set s \<Longrightarrow> CHR '':'' \<notin> set (overwrite3 s i t)"
proof -
  have "\<exists>n \<in> set names. i \<le> length s \<and> starts_with n (drop i s)"
    using assms(2) by (induction names) (auto split: option.splits dest: strstr_SomeD)
  then obtain n u where n: "n \<in> set names" "drop i s = n @ u" by (auto simp: starts_with_iff)
  with assms(1) have "length n = 3" "filter c_isdigit n = []" by (auto simp: three_letters_def list_all_iff filter_empty_conv)
  moreover from n(2) have "s = take i s @ n @ u" by (metis append_take_drop_id)
  moreover have "drop (i + 3) s = u" using n(2) \<open>length n = 3\<close> by (metis add.commute append_eq_conv_conj drop_drop)
  moreover have "filter c_isdigit t = []" using assms(3) by (auto simp: list_all_iff filter_empty_conv)
  ultimately show "filter c_isdigit (overwrite3 s i t) = filter c_isdigit s"
    unfolding overwrite3_def by (metis append_Nil filter_append)
  show "CHR '':'' \<notin> set s \<Longrightarrow> CHR '':'' \<notin> set (overwrite3 s i t)"
    using assms(3) by (auto simp: overwrite3_def list_all_iff dest: in_set_takeD in_set_dropD)
qed

lemma RemoveDates_digits:
  assumes "CHR '':'' \<notin> set s"
  shows "filter c_isdigit (RemoveDates s) = filter c_isdigit s"
proof -
  let ?s1 = "case first_name s day_names of Some i \<Rightarrow> overwrite3 s i ''DAY'' | None \<Rightarrow> s"
  let ?s2 = "case first_name ?s1 month_names of Some i \<Rightarrow> overwrite3 ?s1 i ''MON'' | None \<Rightarrow> ?s1"
  have plain: "list_all (\<lambda>c. \<not> c_isdigit c \<and> c \<noteq> CHR '':'') ''DAY''" "list_all (\<lambda>c. \<not> c_isdigit c \<and> c \<noteq> CHR '':'') ''MON''"
    by (simp_all add: c_isdigit_def)
  have s1: "filter c_isdigit ?s1 = filter c_isdigit s" "CHR '':'' \<notin> set ?s1"
    using first_name_overwrite [OF name_tables(1) _ plain(1)] assms by (auto split: option.split)
  have s2: "filter c_isdigit ?s2 = filter c_isdigit s" "CHR '':'' \<notin> set ?s2"
    using first_name_overwrite [OF name_tables(2) _ plain(2)] s1 by (auto split: option.split)
  have "CHR '':'' \<notin> set (drop n ?s2)" for n using s2(2) by (meson in_set_dropD)
  then have zero: "scan_date (drop n ?s2) = (a, b, c, d) \<Longrightarrow> d = 0" for n a b c d using scan_date_no_colon by blast
  have "RemoveDates s = s \<or> RemoveDates s = ?s2"
  proof (cases "first_name s day_names")
    case day: (Some i)
    show ?thesis
    proof (cases "first_name ?s1 month_names")
      case month: (Some k)
      obtain a b c d where sd: "scan_date (drop (k + 4) ?s2) = (a, b, c, d)" by (rule prod_cases4)
      from zero [OF this] sd day month show ?thesis by (simp add: RemoveDates_def Let_def)
    qed (simp add: RemoveDates_def Let_def day)
  next
    case None
    then show ?thesis by (simp add: RemoveDates_def Let_def split: option.split)
  qed
  with s2(1) show ?thesis by (elim disjE) simp_all
qed

lemma purge_loop_spec:
  "now - t > CF_LOCKHORIZON \<Longrightarrow> ReadDB (purge_loop now t db visited) key =
     (if key \<in> set visited \<and> \<not> starts_with ''last.internal_bundle.track_license.handle'' key then None else ReadDB db key)"
  by (induction visited arbitrary: db) auto

section \<open>A sample run\<close>

definition web_promise :: lock_request where
  "web_promise = \<lparr>operand = ''web'', host = ''h1'', bundle_name = ''main'', agentsubtype = ''files'', lvals = [''create''], str_digest = ''MD5-a'',
     transaction = \<lparr>ifelapsed = 1, expireafter = 120\<rparr>, pp_done = False\<rparr>"

definition process :: "int \<Rightarrow> lock_agent" where
  "process n = \<lparr>self = n, CF_STCKFRAME = 1, is_cf_agent = False, IGNORELOCK = False, CFWORKDIR = ''/var/cfengine'', terminates = (\<lambda>_. True)\<rparr>"

definition fresh_state :: "lock_db option \<Rightarrow> lock_state" where
  "fresh_state dbp = \<lparr>lock_store = dbp, DONELIST = [], donep = False, CFLOCK = [], CFLAST = [], CFLOG = []\<rparr>"

lemma web_names: "\<exists>cflock cflast cflog. \<forall>n. lock_names (process n) web_promise = Inr (cflock, cflast, cflog)"
  by (simp add: lock_names_def BodyName_def web_promise_def process_def CF_MAXVARSIZE_def CF_BUFFERMARGIN_def CF_BUFSIZE_def Let_def)

lemma find_empty: "FindLockTime (Some []) key = -1"
  by (simp add: FindLockTime_def)

lemma acquire_section:
  assumes "lock_names (process n) web_promise = Inr (cflock, cflast, cflog)" and "now \<noteq> 0" and "FindLockTime (Some db) critical_section = -1"
    and "lock_section (process n) ign (transaction web_promise) now t cflock cflast
      (Some (WriteDB db critical_section \<lparr>pid = n, time = t\<rparr>)) = Inr (taken, dbp)"
  shows "\<exists>st'. AcquireLock (process n) web_promise ign now t (\<lambda>_. Some db) (fresh_state (Some db)) =
    ret (if taken then \<lparr>last_name = LockName cflast, lock_name = LockName cflock, log_name = LockName cflog\<rparr> else no_lock, st') \<and>
    lock_store st' = ReleaseCriticalSection dbp"
proof -
  have "self (process n) = n" "\<not> pp_done web_promise" "\<not> is_cf_agent (process n)" "\<not> IGNORELOCK (process n)"
    "CF_STCKFRAME (process n) = 1" "lock_store (fresh_state (Some db)) = Some db"
    by (simp_all add: process_def web_promise_def fresh_state_def)
  moreover have "wait_loop (\<lambda>t. FindLockTime (Some db) critical_section) t = Some t" by (rule wait_at_end) (simp add: assms(3))
  then have "WaitForCriticalSection n t (\<lambda>_. Some db) = Some (t, Some (WriteDB db critical_section \<lparr>pid = n, time = t\<rparr>))"
    by (simp add: WaitForCriticalSection_def)
  ultimately show ?thesis using assms(1,2,4) by (simp add: AcquireLock_def ret_def Let_def)
qed

text \<open>One process takes the lock of the promise at second 6000.\<close>

lemma web_taken:
  assumes "\<forall>n. lock_names (process n) web_promise = Inr (cflock, cflast, cflog)"
  shows "\<exists>lk st'. AcquireLock (process 1) web_promise False 6000 6000 (\<lambda>_. Some []) (fresh_state (Some [])) = ret (lk, st') \<and>
    lock_name lk = LockName cflock \<and> last_name lk = LockName cflast \<and> (\<exists>db'. lock_store st' = Some db' \<and>
    FindLockTime (Some db') critical_section = -1 \<and> FindLockTime (Some db') cflock = 6000 \<and> FindLockTime (Some db') cflast = 6000)"
proof -
  from assms have n: "lock_names (process 1) web_promise = Inr (cflock, cflast, cflog)" by blast
  note d = lock_names_distinct [OF n]
  have "\<exists>db'. lock_section (process 1) False (transaction web_promise) 6000 6000 cflock cflast
      (Some (WriteDB [] critical_section \<lparr>pid = 1, time = 6000\<rparr>)) = Inr (True, Some db') \<and>
      FindLockTime (Some db') cflock = 6000 \<and> FindLockTime (Some db') cflast = 6000"
    using d by (simp add: lock_section_def FindLock_Some find_empty web_promise_def process_def Let_def del: WriteDB.simps)
  then obtain db' where s: "lock_section (process 1) False (transaction web_promise) 6000 6000 cflock cflast
      (Some (WriteDB [] critical_section \<lparr>pid = 1, time = 6000\<rparr>)) = Inr (True, Some db')"
      "FindLockTime (Some db') cflock = 6000" "FindLockTime (Some db') cflast = 6000" by blast
  from acquire_section [OF n _ find_empty s(1)] obtain st' where
    "AcquireLock (process 1) web_promise False 6000 6000 (\<lambda>_. Some []) (fresh_state (Some [])) =
      ret (\<lparr>last_name = LockName cflast, lock_name = LockName cflock, log_name = LockName cflog\<rparr>, st')"
    "lock_store st' = Some (DeleteDB db' critical_section)" by auto
  with s d show ?thesis by (simp add: ret_same)
qed

section \<open>Properties\<close>

text \<open>C29: A promise lock is exclusive: once a process has taken it, no process that minds other processes gets it before \<open>expireafter\<close>
  minutes have passed, whatever processes have done with the locks of the store in between, as long as nobody gave this lock back, took it
  after its expiry by his own settings or purged the locks, and while one is in the critical section the others stay out.\<close>

lemma lock_exclusive:
  assumes "AcquireLock p r False now1 t1 view st1 = ret (lk1, st1')" and "lock_name lk1 = LockName cflock" and "\<not> IGNORELOCK p"
    and "wait_loop (\<lambda>t. FindLockTime (view t) critical_section) t1 = Some taken" and "view taken = Some db" and "0 < taken"
    and "lock_run ops (lock_store st1') = ret dbp" and "list_all (leaves_lock cflock taken) ops"
    and "AcquireLock p' r False now2 t2 (\<lambda>_. dbp) st2 = ret (lk2, st2')" and "\<not> IGNORELOCK p'"
    and "(now2 - taken) sdiv 60 < expireafter (transaction r)"
  shows "\<forall>key. lock_name lk2 \<noteq> LockName key"
proof (rule ccontr)
  assume "\<not> ?thesis"
  then obtain key where key: "lock_name lk2 = LockName key" by blast
  from AcquireLock_section [OF assms(1,3,2)] assms(4,5) obtain cflast cflog dbp1 where
    a: "lock_names p r = Inr (cflock, cflast, cflog)" "lock_store st1' = ReleaseCriticalSection dbp1"
      "lock_section p False (transaction r) now1 taken cflock cflast (Some (WriteDB db critical_section \<lparr>pid = self p, time = taken\<rparr>)) =
         Inr (True, dbp1)" by auto
  from section_taken [OF a(3)] obtain db1 where db1: "dbp1 = Some db1" "FindLockTime (Some db1) cflock = taken" by blast
  note d = lock_names_distinct [OF a(1)]
  have "FindLockTime (lock_store st1') cflock = taken" using a(2) db1 d(2) by simp
  with lock_run_leaves [OF assms(7,8) _ assms(6) d(4,2)] have held: "FindLockTime dbp cflock = taken" by simp
  then obtain db2 where db2: "dbp = Some db2" using assms(6) by (cases dbp) auto
  from AcquireLock_section [OF assms(9,10) key] obtain cflast' cflog' t dbp2 where
    b: "lock_names p' r = Inr (key, cflast', cflog')"
      "lock_section p' False (transaction r) now2 t key cflast' (snd (WriteLock (self p') t dbp critical_section)) = Inr (True, dbp2)"
    by blast
  from lock_names_agent [OF a(1), of p'] b(1) have "key = cflock" by simp
  with section_busy [OF lock_names_distinct(1) [OF b(1)], of "WriteDB db2 critical_section \<lparr>pid = self p', time = t\<rparr>" now2 "transaction r" p' t]
    held db2 assms(6,11) d(2) b(2)
  show False by auto
qed

lemma lock_exclusive_witness:
  "\<exists>lk1 st1 dbp lk2 st2. AcquireLock (process 1) web_promise False 6000 6000 (\<lambda>_. Some []) (fresh_state (Some [])) = ret (lk1, st1) \<and>
     lock_run [TryLock (process 3) web_promise False 9000 9000 (fresh_state None)] (lock_store st1) = ret dbp \<and>
     AcquireLock (process 2) web_promise False 12000 12000 (\<lambda>_. dbp) (fresh_state dbp) = ret (lk2, st2) \<and>
     (\<forall>key. lock_name lk2 \<noteq> LockName key)"
proof -
  obtain cflock cflast cflog where n: "\<forall>n. lock_names (process n) web_promise = Inr (cflock, cflast, cflog)" using web_names by blast
  from web_taken [OF n] obtain lk1 st1 db' where a: "AcquireLock (process 1) web_promise False 6000 6000 (\<lambda>_. Some []) (fresh_state (Some [])) = ret (lk1, st1)"
    "lock_name lk1 = LockName cflock" "lock_store st1 = Some db'" "FindLockTime (Some db') critical_section = -1"
    "FindLockTime (Some db') cflock = 6000" by blast
  from n have n2: "lock_names (process m) web_promise = Inr (cflock, cflast, cflog)" for m by blast
  note d = lock_names_distinct [OF n2 [of 1]]
  have refused: "\<exists>lk2 st2 db2. AcquireLock (process m) web_promise False t t (\<lambda>_. Some db) (fresh_state (Some db)) = ret (lk2, st2) \<and>
      lock_store st2 = Some db2 \<and> FindLockTime (Some db2) critical_section = -1 \<and> FindLockTime (Some db2) cflock = 6000"
    if "FindLockTime (Some db) cflock = 6000" "FindLockTime (Some db) critical_section = -1" "t \<noteq> 0" "(t - 6000) sdiv 60 < 120" for m t db
  proof -
    from section_busy [OF d(1), of "WriteDB db critical_section \<lparr>pid = m, time = t\<rparr>" t "transaction web_promise" "process m" t] that d(2)
    obtain dbp where s: "lock_section (process m) False (transaction web_promise) t t cflock cflast
        (Some (WriteDB db critical_section \<lparr>pid = m, time = t\<rparr>)) = Inr (False, dbp)"
      by (auto simp: web_promise_def)
    have held: "FindLockTime dbp cflock = 6000"
      using section_held [OF s] that d(1,2) by (simp add: web_promise_def)
    then obtain db2 where db2: "dbp = Some db2" by (cases dbp) auto
    from acquire_section [OF n2 that(3,2) s] db2 held d(2) show ?thesis by (auto simp: ret_same)
  qed
  from refused [OF a(5,4), of 9000 3] obtain lk3 st3 db3 where
    c: "AcquireLock (process 3) web_promise False 9000 9000 (\<lambda>_. Some db') (fresh_state (Some db')) = ret (lk3, st3)" "lock_store st3 = Some db3"
      "FindLockTime (Some db3) critical_section = -1" "FindLockTime (Some db3) cflock = 6000" by auto
  have fresh: "fresh_state None\<lparr>lock_store := dbp\<rparr> = fresh_state dbp" for dbp by (simp add: fresh_state_def)
  have run: "lock_run [TryLock (process 3) web_promise False 9000 9000 (fresh_state None)] (lock_store st1) = ret (Some db3)"
    using c(1,2) a(3) by (simp add: fresh)
  from refused [OF c(4,3), of 12000 2] obtain lk2 st2 where
    b: "AcquireLock (process 2) web_promise False 12000 12000 (\<lambda>_. Some db3) (fresh_state (Some db3)) = ret (lk2, st2)" by auto
  have "\<not> IGNORELOCK (process 1)" "\<not> IGNORELOCK (process 2)" "expireafter (transaction web_promise) = 120"
    by (simp_all add: process_def web_promise_def)
  moreover have "wait_loop (\<lambda>t. FindLockTime (Some []) critical_section) 6000 = Some 6000" by (rule wait_at_end) (simp add: find_empty)
  ultimately have "\<forall>key. lock_name lk2 \<noteq> LockName key"
    using lock_exclusive [OF a(1,2) _ _ _ _ run _ b, of 6000 "[]"] n2 by auto
  with a(1) run b show ?thesis by blast
qed

text \<open>C30: A promise that was kept is not looked at again for \<open>ifelapsed\<close> minutes: after a process has given its lock back at a time, no
  process gets a lock for the same promise until that many minutes have passed, whatever processes have done with the locks of the store in
  between short of purging them, while the clock does not go back and one process at a time is in the critical section.\<close>

lemma lock_ifelapsed:
  assumes "AcquireLock p r ignoreProcesses1 now1 t1 view st1 = ret (lk1, st1')" and "lock_name lk1 = LockName cflock" and "\<not> IGNORELOCK p"
    and "YieldCurrentLock p lk1 t st1' = Inr st1''" and "lock_store st1' \<noteq> None" and "0 \<le> t"
    and "lock_run ops (lock_store st1'') = ret dbp" and "\<forall>cflast. last_name lk1 = LockName cflast \<longrightarrow> list_all (keeps_last cflast t) ops"
    and "AcquireLock p' r ignoreProcesses now2 t2 (\<lambda>_. dbp) st2 = ret (lk2, st2')" and "\<not> IGNORELOCK p'"
    and "(now2 - t) sdiv 60 < ifelapsed (transaction r)"
  shows "\<forall>key. lock_name lk2 \<noteq> LockName key"
proof (rule ccontr)
  assume "\<not> ?thesis"
  then obtain key where key: "lock_name lk2 = LockName key" by blast
  from AcquireLock_section [OF assms(1,3,2)] obtain cflast cflog where
    a: "lock_names p r = Inr (cflock, cflast, cflog)" "last_name lk1 = LockName cflast" by blast
  note d = lock_names_distinct [OF a(1)]
  have "FindLockTime (lock_store st1'') cflast = t"
    using assms(2-5) a by (auto simp: YieldCurrentLock_def)
  with lock_run_last [OF assms(7) _ _ assms(6) d(5,3)] assms(8) a(2) have kept: "t \<le> FindLockTime dbp cflast" by simp
  then obtain db2 where db2: "dbp = Some db2" using assms(6) by (cases dbp) auto
  from AcquireLock_section [OF assms(9,10) key] obtain cflast' cflog' te dbp2 where
    b: "lock_names p' r = Inr (key, cflast', cflog')"
      "lock_section p' ignoreProcesses (transaction r) now2 te key cflast' (snd (WriteLock (self p') te dbp critical_section)) = Inr (True, dbp2)"
    by blast
  from lock_names_agent [OF a(1), of p'] b(1) have "cflast' = cflast" by simp
  moreover have "(now2 - FindLockTime dbp cflast) sdiv 60 < ifelapsed (transaction r)"
    using assms(11) minutes_mono [of "now2 - FindLockTime dbp cflast" "now2 - t"] kept by simp
  ultimately show False
    using section_recent [of "WriteDB db2 critical_section \<lparr>pid = self p', time = te\<rparr>" cflast' now2 "transaction r" p' ignoreProcesses te key]
      kept assms(6) db2 d(3) b(2) by auto
qed

lemma lock_ifelapsed_witness:
  "\<exists>lk1 st1 st1' lk2 st2. AcquireLock (process 1) web_promise False 6000 6000 (\<lambda>_. Some []) (fresh_state (Some [])) = ret (lk1, st1) \<and>
     YieldCurrentLock (process 1) lk1 6100 st1 = Inr st1' \<and>
     AcquireLock (process 2) web_promise True 6150 6150 (\<lambda>_. lock_store st1') (fresh_state (lock_store st1')) = ret (lk2, st2) \<and>
     (\<forall>key. lock_name lk2 \<noteq> LockName key)"
proof -
  obtain cflock cflast cflog where n: "\<forall>n. lock_names (process n) web_promise = Inr (cflock, cflast, cflog)" using web_names by blast
  from web_taken [OF n] obtain lk1 st1 db' where a: "AcquireLock (process 1) web_promise False 6000 6000 (\<lambda>_. Some []) (fresh_state (Some [])) = ret (lk1, st1)"
    "lock_name lk1 = LockName cflock" "last_name lk1 = LockName cflast" "lock_store st1 = Some db'"
    "FindLockTime (Some db') critical_section = -1" by blast
  from n have n2: "lock_names (process 2) web_promise = Inr (cflock, cflast, cflog)" by blast
  note d = lock_names_distinct [OF n2]
  let ?db2 = "WriteDB (DeleteDB db' cflock) cflast \<lparr>pid = 1, time = 6100\<rparr>"
  have "self (process 1) = 1" "\<not> IGNORELOCK (process 1)" by (simp_all add: process_def)
  then obtain st1' where y: "YieldCurrentLock (process 1) lk1 6100 st1 = Inr st1'" "lock_store st1' = Some ?db2"
    using a by (simp add: YieldCurrentLock_def)
  from section_recent [of "WriteDB ?db2 critical_section \<lparr>pid = 2, time = 6150\<rparr>" cflast 6150 "transaction web_promise" "process 2" True 6150 cflock] d
  obtain dbp where s: "lock_section (process 2) True (transaction web_promise) 6150 6150 cflock cflast
      (Some (WriteDB ?db2 critical_section \<lparr>pid = 2, time = 6150\<rparr>)) = Inr (False, dbp)"
    by (auto simp: web_promise_def)
  have "FindLockTime (Some ?db2) critical_section = -1" using a(5) d by simp
  from acquire_section [OF n2 _ this s] y(2) obtain lk2 st2 where
    b: "AcquireLock (process 2) web_promise True 6150 6150 (\<lambda>_. lock_store st1') (fresh_state (lock_store st1')) = ret (lk2, st2)" by auto
  have "\<not> IGNORELOCK (process 1)" "\<not> IGNORELOCK (process 2)" "ifelapsed (transaction web_promise) = 1"
    by (simp_all add: process_def web_promise_def)
  moreover have "lock_run [] (lock_store st1') = ret (lock_store st1')" by simp
  ultimately have "\<forall>key. lock_name lk2 \<noteq> LockName key"
    using lock_ifelapsed [OF a(1,2) _ y(1) _ _ _ _ b, of "[]"] a(4) by simp
  with a(1) y(1) b show ?thesis by blast
qed

text \<open>C31: The wait for the critical section ends at most a minute after the section was marked last, and at once when there is no mark or
  only older ones.\<close>

lemma critical_section_entered:
  assumes "\<forall>t \<ge> now. FindLockTime (view t) critical_section \<le> marked"
  shows "\<exists>t. WaitForCriticalSection me now view = Some (t, snd (WriteLock me t (view t) critical_section)) \<and> now \<le> t \<and> t \<le> max now (marked + 60)"
  using wait_bound [OF assms] by (auto simp: WaitForCriticalSection_def)

text \<open>One process marks the section at second 100, and marks it again at second 130 before it leaves.\<close>

definition marking_view :: "int \<Rightarrow> lock_db option" where
  "marking_view t = Some [(critical_section, \<lparr>pid = 2, time = (if t < 130 then 100 else 130)\<rparr>)]"

lemma critical_section_entered_witness:
  "\<exists>t. WaitForCriticalSection 1 105 marking_view = Some (t, snd (WriteLock 1 t (marking_view t) critical_section)) \<and> 105 \<le> t \<and> t \<le> 190"
  using critical_section_entered [of 105 marking_view 130 1] by (simp add: marking_view_def FindLockTime_def ReadDB_def)

text \<open>When the section is marked again every second the wait does not end.\<close>

lemma wait_marked: "wait_loop mark now = Some t \<Longrightarrow> (\<forall>u. mark u = u) \<longrightarrow> 0 \<le> now \<longrightarrow> False"
  by (rule wait_loop.raw_induct [of "\<lambda>mark now t. (\<forall>u. mark u = u) \<longrightarrow> 0 \<le> now \<longrightarrow> False"]) (fastforce split: if_splits)

lemma critical_section_starves: "0 \<le> now \<Longrightarrow> wait_loop (\<lambda>t. t) now = None"
  using wait_marked [of "\<lambda>t. t" now] by (cases "wait_loop (\<lambda>t. t) now") auto

text \<open>Purging stale locks removes every lock, however fresh, because the time it compares is not that of the lock: of a store
  whose horizon is more than four weeks old, or that never had one, nothing is left but the licence lock and the horizon.\<close>

lemma PurgeLocks_purges_all:
  assumes "\<forall>key. ReadDB db key \<noteq> None \<longrightarrow> key \<in> set visited"
    and "CF_LOCKHORIZON < now - (case ReadDB db ''lock_horizon'' of Some e \<Rightarrow> time e | None \<Rightarrow> 0)"
  shows "\<exists>db'. PurgeLocks visited pointer now (Some db) = Some db' \<and>
    (\<forall>key. ReadDB db' key \<noteq> None \<longrightarrow> key = ''lock_horizon'' \<or> starts_with ''last.internal_bundle.track_license.handle'' key)"
proof -
  have "\<not> now - time e < SECONDS_PER_WEEK * 4" if "ReadDB db ''lock_horizon'' = Some e" for e
    using assms(2) that by (simp add: CF_LOCKHORIZON_def)
  with assms show ?thesis
    by (auto simp: PurgeLocks_def Let_def purge_loop_spec split: option.splits)
qed

definition busy_store :: lock_db where
  "busy_store = [(''lock.main.files'', \<lparr>pid = 7, time = 1300000000\<rparr>), (''last.main.files'', \<lparr>pid = 7, time = 1300000000\<rparr>)]"

lemma PurgeLocks_purges_all_witness:
  "\<exists>db'. PurgeLocks [''lock.main.files'', ''last.main.files''] 5 1300000001 (Some busy_store) = Some db' \<and> ReadDB db' ''lock.main.files'' = None"
proof -
  have "\<forall>key. ReadDB busy_store key \<noteq> None \<longrightarrow> key \<in> set [''lock.main.files'', ''last.main.files'']"
    "CF_LOCKHORIZON < 1300000001 - (case ReadDB busy_store ''lock_horizon'' of Some e \<Rightarrow> time e | None \<Rightarrow> 0)"
    by (simp_all add: busy_store_def ReadDB_def CF_LOCKHORIZON_def SECONDS_PER_WEEK_def SECONDS_PER_MINUTE_def split: if_splits)
  from PurgeLocks_purges_all [OF this, of 5] obtain db' where
    p: "PurgeLocks [''lock.main.files'', ''last.main.files''] 5 1300000001 (Some busy_store) = Some db'"
    "\<forall>key. ReadDB db' key \<noteq> None \<longrightarrow> key = ''lock_horizon'' \<or> starts_with ''last.internal_bundle.track_license.handle'' key" by blast
  have "\<not> (''lock.main.files'' = ''lock_horizon'' \<or> starts_with ''last.internal_bundle.track_license.handle'' ''lock.main.files'')" by simp
  with p(2) have "ReadDB db' ''lock.main.files'' = None" by blast
  with p(1) show ?thesis by blast
qed

text \<open>The dates in the names of locks are never blanked: the name is made canonical first, which replaces the colons the scan of a
  date looks for, so every digit stays and each second makes a new lock.\<close>

lemma RemoveDates_keeps_dates:
  "filter c_isdigit (RemoveDates (CanonifyNameInPlace s)) = filter c_isdigit (CanonifyNameInPlace s)"
proof (rule RemoveDates_digits)
  show "CHR '':'' \<notin> set (CanonifyNameInPlace s)"
    by (auto simp: CanonifyNameInPlace_def c_isalnum_def c_isupper_def c_islower_def c_isdigit_def split: if_splits)
qed

end
