(* ===== verification/CF_Strings.thy ===== *)
theory CF_Strings
  imports CF_Prelude
begin

text \<open>
  \<open>src/string_lib.c\<close>: the string helpers.  A result written to a static or allocated buffer is the text in it; a write
  behind a buffer, or a buffer left without its NUL, is \<open>Inl OutOfBounds\<close>.  Regular expressions and base 64 belong to
  PCRE and OpenSSL.
\<close>

section \<open>Case\<close>

definition char_shift :: "int \<Rightarrow> char \<Rightarrow> char" where
  "char_shift d c = char_of ((of_char c + d) mod 256)"

definition ToLower :: "char \<Rightarrow> char" where
  "ToLower ch = (if c_isupper ch then char_shift 32 ch else ch)"

text \<open>Everything that is neither a digit, nor punctuation, nor upper case is shifted, blanks too.\<close>

definition ToUpper :: "char \<Rightarrow> char" where
  "ToUpper ch = (if c_isdigit ch \<or> c_ispunct ch then ch else if c_isupper ch then ch else char_shift (-32) ch)"

text \<open>A string ends at a NUL, which shifting can make.\<close>

definition until_nul :: "string \<Rightarrow> string" where
  "until_nul s = takeWhile (\<lambda>c. c \<noteq> NUL) s"

definition ToUpperStrInplace :: "string \<Rightarrow> string" where
  "ToUpperStrInplace str = until_nul (map ToUpper str)"

definition ToUpperStr :: "string \<Rightarrow> string res" where
  "ToUpperStr str = (if length str \<ge> CF_BUFSIZE then Inl FatalErrorExit else Inr (ToUpperStrInplace str))"

definition ToLowerStrInplace :: "string \<Rightarrow> string" where
  "ToLowerStrInplace str = map ToLower str"

definition ToLowerStr :: "string \<Rightarrow> string res" where
  "ToLowerStr str = (if length str \<ge> CF_BUFSIZE - 1 then Inl FatalErrorExit else Inr (ToLowerStrInplace str))"

text \<open>The buffer is static: behind an empty text it holds what the call before left there.\<close>

definition Titleize :: "string \<Rightarrow> string option \<Rightarrow> string option res" where
  "Titleize old str = (case str of
     None \<Rightarrow> Inr None
   | Some s \<Rightarrow>
       if length s \<ge> CF_BUFSIZE then Inl OutOfBounds
       else (case s of
          [] \<Rightarrow> Inr (Some (ToUpper NUL # drop 1 old))
        | c # r \<Rightarrow> Inr (Some (until_nul (ToUpper c # map ToLower r)))))"

section \<open>Strings that may be NULL\<close>

definition SafeStringDuplicate :: "string option \<Rightarrow> string option" where
  "SafeStringDuplicate str = (case str of None \<Rightarrow> None | Some s \<Rightarrow> Some s)"

definition SafeStringLength :: "string option \<Rightarrow> nat" where
  "SafeStringLength str = (case str of None \<Rightarrow> 0 | Some s \<Rightarrow> length s)"

text \<open>Two equal pointers compare equal, so a NULL is equal to a NULL.\<close>

definition StringSafeCompare :: "string option \<Rightarrow> string option \<Rightarrow> int" where
  "StringSafeCompare a b = (case (a, b) of
     (None, None) \<Rightarrow> 0
   | (Some s, Some t) \<Rightarrow> strcmp s t
   | _ \<Rightarrow> -1)"

definition NULLStringToEmpty :: "string option \<Rightarrow> string" where
  "NULLStringToEmpty str = (case str of None \<Rightarrow> [] | Some s \<Rightarrow> s)"

section \<open>Printed lists\<close>

text \<open>An empty output is looked at in front of its first byte.\<close>

definition StripListSep :: "string option \<Rightarrow> nat \<Rightarrow> (bool \<times> string) res" where
  "StripListSep strList outBufSz = (case strList of
     None \<Rightarrow> Inr (False, [])
   | Some s \<Rightarrow>
       if s = [] \<or> hd s \<noteq> CHR ''{'' then Inr (False, [])
       else let out = take (outBufSz - 1) (tl s) in
            if out = [] then Inl OutOfBounds
            else Inr (True, if last out = CHR ''}'' then butlast out else out))"

text \<open>
  \<open>start\<close> is the index \<open>elStart\<close>, \<open>sp\<close> the index of the next character; the length of an element whose quote is both its
  opening and its closing one is -1, and \<open>strncpy\<close> takes that as a huge number.
\<close>

fun list_element_loop :: "string \<Rightarrow> nat \<Rightarrow> nat \<Rightarrow> nat \<Rightarrow> nat \<Rightarrow> nat \<Rightarrow> string \<Rightarrow> string res" where
  "list_element_loop strList start elNum index outBufSz sp [] = Inr []"
| "list_element_loop strList start elNum index outBufSz sp (c # s) =
     (if (c = CHR ''{'' \<or> c = CHR '','') \<and> char_at s 0 = CHR 0x27
      then list_element_loop strList (sp + 2) elNum index outBufSz (sp + 1) s
      else if c = CHR 0x27 \<and> (char_at s 0 = CHR '','' \<or> char_at s 0 = CHR ''}'') then
        if elNum = index
        then (if sp < start then Inl OutOfBounds
              else Inr (take (if sp - start < outBufSz then sp - start else outBufSz - 1) (drop start strList)))
        else list_element_loop strList start (elNum + 1) index outBufSz (sp + 1) s
      else list_element_loop strList start elNum index outBufSz (sp + 1) s)"

definition GetStringListElement :: "string option \<Rightarrow> nat \<Rightarrow> nat \<Rightarrow> (bool \<times> string) res" where
  "GetStringListElement strList index outBufSz = (case strList of
     None \<Rightarrow> Inr (False, [])
   | Some s \<Rightarrow>
       if s = [] \<or> hd s \<noteq> CHR ''{'' then Inr (False, [])
       else res_bind (list_element_loop s 0 0 index outBufSz 0 s) (\<lambda>out. Inr (True, out)))"

section \<open>Searching, joining and cutting\<close>

function replace_all :: "string \<Rightarrow> string \<Rightarrow> string \<Rightarrow> string" where
  "replace_all source search rep =
     (if search = [] then source
      else case strstr source search of
          None \<Rightarrow> source
        | Some i \<Rightarrow> take i source @ rep @ replace_all (drop (i + length search) source) search rep)"
  by pat_completeness auto
termination
proof (relation "measure (\<lambda>(source, search, rep). length source)")
  fix source search rep :: string and i :: nat
  assume "search \<noteq> []" "strstr source search = Some i"
  then show "((drop (i + length search) source, search, rep), (source, search, rep)) \<in> measure (\<lambda>(source, search, rep). length source)"
    using strstr_bound [of source search i] by (cases search) auto
qed simp

declare replace_all.simps [simp del]

definition SearchAndReplace :: "string option \<Rightarrow> string option \<Rightarrow> string option \<Rightarrow> string res" where
  "SearchAndReplace source search rep = (case (source, search, rep) of
     (Some s, Some f, Some r) \<Rightarrow> if strcmp f [] = 0 then Inr s else Inr (replace_all s f r)
   | _ \<Rightarrow> Inl FatalErrorExit)"

definition StringConcatenate :: "string option list \<Rightarrow> string option" where
  "StringConcatenate args = (if length args < 1 then None else Some (concat (map NULLStringToEmpty args)))"

text \<open>
  \<open>start\<close> and \<open>len\<close> are an \<open>int\<close>, the length and the end a \<open>size_t\<close>; the comparison of \<open>start\<close> with the end turns a negative
  start into a large number.
\<close>

definition size_of_int :: "int \<Rightarrow> int" where
  "size_of_int i = i mod 2 ^ 64"

definition StringSubstring :: "string \<Rightarrow> int \<Rightarrow> int \<Rightarrow> string option res" where
  "StringSubstring source start len =
     (let source_len = int (length source) in
      if len = 0 then Inr (Some [])
      else
        let end1 = size_of_int (if len < 0 then source_len + len - 1 else start + len - 1);
            end2 = min end1 (size_of_int (source_len - 1));
            from = (if start < 0 then source_len + start else start)
        in if size_of_int from \<ge> end2 then Inr None
           else if from < 0 \<or> end2 + 2 \<ge> 2 ^ 63 then Inl OutOfBounds
           else Inr (Some (take (nat (end2 - from + 1)) (drop (nat from) source))))"

definition IsNumber :: "string \<Rightarrow> bool" where
  "IsNumber s \<longleftrightarrow> list_all c_isdigit s"

text \<open>\<open>strcasecmp\<close> is 0 for texts that are equal up to case.\<close>

definition IsStrCaseIn :: "string \<Rightarrow> string list \<Rightarrow> bool" where
  "IsStrCaseIn str strs \<longleftrightarrow> list_ex (\<lambda>t. map ToLower str = map ToLower t) strs"

text \<open>
  Copy up to a separator; a backslash in front of the separator protects it.  The result is the copy and the number of
  characters copied, which is not the number of characters read.  A copy that fills the buffer has no NUL.
\<close>

fun sub_copy_loop :: "nat \<Rightarrow> nat \<Rightarrow> char \<Rightarrow> string \<Rightarrow> string" where
  "sub_copy_loop copied len sep [] = []"
| "sub_copy_loop copied len sep [c] = (if copied \<ge> len \<or> c = sep then [] else [c])"
| "sub_copy_loop copied len sep (c # d # s) =
     (if copied \<ge> len then []
      else if c = CHR 0x5C \<and> d = sep then d # sub_copy_loop (copied + 1) len sep s
      else if c = sep then []
      else c # sub_copy_loop (copied + 1) len sep (d # s))"

definition SubStrnCopyChr :: "string option \<Rightarrow> nat \<Rightarrow> char \<Rightarrow> (string \<times> nat) res" where
  "SubStrnCopyChr from len sep = (case from of
     None \<Rightarrow> Inr ([], 0)
   | Some s \<Rightarrow>
       let to = sub_copy_loop 0 len sep s in
       if length to \<ge> len then Inl OutOfBounds else Inr (to, length to))"

fun count_char_loop :: "char \<Rightarrow> string \<Rightarrow> nat" where
  "count_char_loop sep [] = 0"
| "count_char_loop sep [c] = (if c = sep then 1 else 0)"
| "count_char_loop sep (c # d # s) =
     (if c = CHR 0x5C \<and> d = sep then count_char_loop sep s
      else if c = sep then Suc (count_char_loop sep (d # s))
      else count_char_loop sep (d # s))"

definition CountChar :: "string option \<Rightarrow> char \<Rightarrow> nat" where
  "CountChar str sep = (case str of None \<Rightarrow> 0 | Some s \<Rightarrow> count_char_loop sep s)"

definition ReplaceChar :: "string \<Rightarrow> nat \<Rightarrow> char \<Rightarrow> char \<Rightarrow> string" where
  "ReplaceChar s outSz from to = until_nul (map (\<lambda>c. if c = from then to else c) (take (outSz - 1) s))"

text \<open>An empty \<open>from\<close> is found everywhere and nothing is consumed, until the output is full or for ever.\<close>

fun replace_str_loop :: "nat \<Rightarrow> string \<Rightarrow> nat \<Rightarrow> string \<Rightarrow> string \<Rightarrow> string \<Rightarrow> (bool \<times> string) option" where
  "replace_str_loop 0 out outSz from to s = None"
| "replace_str_loop (Suc fuel) out outSz from to s =
     (if s = [] \<or> \<not> length out < outSz then Some (True, out)
      else if starts_with from s then
        if length out + length to \<ge> outSz then Some (False, out)
        else replace_str_loop fuel (out @ to) outSz from to (drop (length from) s)
      else replace_str_loop fuel (out @ [hd s]) outSz from to (tl s))"

text \<open>\<open>length s + 1\<close> turns are enough for a \<open>from\<close> with a character; an output that is full has no NUL.\<close>

definition ReplaceStr :: "string \<Rightarrow> nat \<Rightarrow> string \<Rightarrow> string \<Rightarrow> (bool \<times> string) option" where
  "ReplaceStr s outSz from to = replace_str_loop (length s + 1 + outSz) [] outSz from to s"

definition ReplaceTrailingChar :: "string option \<Rightarrow> char \<Rightarrow> char \<Rightarrow> string option" where
  "ReplaceTrailingChar str from to = (case str of
     None \<Rightarrow> None
   | Some s \<Rightarrow> if s = [] then Some s else if last s = from then Some (butlast s @ [to]) else Some s)"

text \<open>The comparison starts in front of a text that is shorter than \<open>from\<close>.\<close>

definition ReplaceTrailingStr :: "string \<Rightarrow> string \<Rightarrow> char \<Rightarrow> string res" where
  "ReplaceTrailingStr str from to =
     (if str = [] then Inr str
      else if length str < length from then Inl OutOfBounds
      else if drop (length str - length from) str = from
      then Inr (take (length str - length from) str @ replicate (length from) to)
      else Inr str)"

function split_at :: "char \<Rightarrow> string \<Rightarrow> string list" where
  "split_at sep s =
     (let len = length (takeWhile (\<lambda>c. c \<noteq> sep) s) in
      if len < length s then take len s # split_at sep (drop (len + 1) s) else [s])"
  by pat_completeness auto
termination by (relation "measure (\<lambda>(sep, s). length s)") auto

declare split_at.simps [simp del]

definition String2StringArray :: "string option \<Rightarrow> char \<Rightarrow> string list option" where
  "String2StringArray str separator = (case str of None \<Rightarrow> None | Some s \<Rightarrow> Some (split_at separator s))"

text \<open>The size is computed with \<open>CountChar\<close>, which does not count a protected character; the copy escapes it all the same.\<close>

definition EscapeCharCopy :: "string \<Rightarrow> char \<Rightarrow> char \<Rightarrow> string res" where
  "EscapeCharCopy str to_escape escape_with =
     (let out_size = length str + CountChar (Some str) to_escape + 1;
          out = concat (map (\<lambda>c. if c = to_escape then [escape_with, c] else [c]) str)
      in if length out < out_size then Inr out else Inl OutOfBounds)"

section \<open>Cutting and joining\<close>

fun join_with :: "string \<Rightarrow> string list \<Rightarrow> string" where
  "join_with sep [] = []"
| "join_with sep [p] = p"
| "join_with sep (p # q # ps) = p @ sep @ join_with sep (q # ps)"

lemma join_with_Cons: "ps \<noteq> [] \<Longrightarrow> join_with sep (p # ps) = p @ sep @ join_with sep ps"
  by (cases ps) auto

lemma split_at_nonempty [simp]: "split_at sep s \<noteq> []"
  by (subst split_at.simps) (simp add: Let_def)

lemma takeWhile_ne_bound: "length (takeWhile (\<lambda>c. c \<noteq> sep) s) < length s \<Longrightarrow> s ! length (takeWhile (\<lambda>c. c \<noteq> sep) s) = sep"
  using nth_length_takeWhile by blast

lemma split_at_join: "join_with [sep] (split_at sep s) = s"
proof (induction sep s rule: split_at.induct)
  case (1 sep s)
  let ?len = "length (takeWhile (\<lambda>c. c \<noteq> sep) s)"
  show ?case
  proof (cases "?len < length s")
    case True
    then have "drop ?len s = sep # drop (?len + 1) s"
      using Cons_nth_drop_Suc [OF True] takeWhile_ne_bound [OF True] by simp
    with 1 [OF refl] True show ?thesis
      by (subst split_at.simps) (simp add: Let_def join_with_Cons, metis append_take_drop_id)
  next
    case False
    then show ?thesis by (subst split_at.simps) (simp add: Let_def)
  qed
qed

lemma split_at_parts: "p \<in> set (split_at sep s) \<Longrightarrow> sep \<notin> set p"
proof (induction sep s rule: split_at.induct)
  case (1 sep s)
  let ?len = "length (takeWhile (\<lambda>c. c \<noteq> sep) s)"
  have take: "sep \<notin> set (take ?len s)"
    by (metis takeWhile_eq_take set_takeWhileD)
  have all: "\<not> ?len < length s \<Longrightarrow> sep \<notin> set s"
    by (metis length_takeWhile_le nat_less_le takeWhile_eq_take take_all_iff set_takeWhileD not_less)
  show ?case
    using 1(2) 1(1) [OF refl] take all
    by (subst (asm) split_at.simps) (auto simp: Let_def split: if_splits)
qed

lemma split_at_length: "length (split_at sep s) = Suc (length (filter (\<lambda>c. c = sep) s))"
proof (induction sep s rule: split_at.induct)
  case (1 sep s)
  let ?len = "length (takeWhile (\<lambda>c. c \<noteq> sep) s)"
  have take: "filter (\<lambda>c. c = sep) (take ?len s) = []"
    by (metis (mono_tags, lifting) filter_False takeWhile_eq_take set_takeWhileD)
  show ?case
  proof (cases "?len < length s")
    case True
    have "s = take ?len s @ sep # drop (?len + 1) s"
      using id_take_nth_drop [OF True] takeWhile_ne_bound [OF True] by simp
    then have "filter (\<lambda>c. c = sep) s = sep # filter (\<lambda>c. c = sep) (drop (?len + 1) s)"
      using take by (metis (mono_tags, lifting) append_Nil filter.simps(2) filter_append)
    with 1 [OF refl] True show ?thesis by (subst split_at.simps) (simp add: Let_def)
  next
    case False
    then have "take ?len s = s" by simp
    with False take show ?thesis by (subst split_at.simps) (simp add: Let_def)
  qed
qed

lemma split_at_unique:
  assumes "ps \<noteq> []" "list_all (\<lambda>p. sep \<notin> set p) ps"
  shows "split_at sep (join_with [sep] ps) = ps"
  using assms
proof (induction ps rule: list_nonempty_induct)
  case (single p)
  then have "takeWhile (\<lambda>c. c \<noteq> sep) p = p" by (auto simp: takeWhile_eq_all_conv)
  then have "\<not> length (takeWhile (\<lambda>c. c \<noteq> sep) p) < length p" by (metis less_irrefl)
  then show ?case by (subst split_at.simps) (simp only: Let_def join_with.simps if_False)
next
  case (cons p ps)
  then have "takeWhile (\<lambda>c. c \<noteq> sep) (p @ sep # join_with [sep] ps) = p"
    by (subst takeWhile_append2) auto
  with cons show ?case by (subst split_at.simps) (simp add: Let_def join_with_Cons)
qed

text \<open>the array of \<open>String2StringArray\<close> holds the parts between the separators and joins back to the text.\<close>

lemma String2StringArray_join:
  "\<exists>ps. String2StringArray (Some s) sep = Some ps \<and> join_with [sep] ps = s \<and> list_all (\<lambda>p. sep \<notin> set p) ps \<and>
     length ps = Suc (length (filter (\<lambda>c. c = sep) s))"
  by (auto simp: String2StringArray_def split_at_join split_at_length list_all_iff dest: split_at_parts)

section \<open>Replacing\<close>

text \<open>The two replacement routines are the same function where the output fits.\<close>

lemma replace_all_none: "search \<noteq> [] \<Longrightarrow> replace_all [] search rep = []"
  by (subst replace_all.simps) simp

lemma replace_all_found:
  "search \<noteq> [] \<Longrightarrow> starts_with search s \<Longrightarrow> replace_all s search rep = rep @ replace_all (drop (length search) s) search rep"
proof -
  assume found: "search \<noteq> []" "starts_with search s"
  then have "strstr s search = Some 0" by (cases s; cases search) simp_all
  with found show ?thesis by (simp add: replace_all.simps [of s])
qed

lemma replace_all_step:
  assumes "search \<noteq> []" "\<not> starts_with search (c # s)"
  shows "replace_all (c # s) search rep = c # replace_all s search rep"
proof (cases "strstr s search")
  case None
  with assms show ?thesis by (simp add: replace_all.simps [of "c # s"] replace_all.simps [of s])
next
  case (Some i)
  with assms show ?thesis by (simp add: replace_all.simps [of "c # s"] replace_all.simps [of s])
qed

lemma replace_str_loop_replaces:
  assumes "from \<noteq> []" "length s < fuel" "length out + length (replace_all s from to) < outSz"
  shows "replace_str_loop fuel out outSz from to s = Some (True, out @ replace_all s from to)"
  using assms
proof (induction fuel arbitrary: out s)
  case (Suc fuel)
  show ?case
  proof (cases s)
    case Nil
    with Suc.prems show ?thesis by (simp add: replace_all_none)
  next
    case (Cons c t)
    show ?thesis
    proof (cases "starts_with from s")
      case True
      have "length (drop (length from) s) < fuel" using Suc.prems(1,2) Cons by (cases "from") auto
      then show ?thesis
        using Suc.IH [of "drop (length from) s" "out @ to"] Suc.prems Cons True
        by (simp add: replace_all_found)
    next
      case False
      then show ?thesis
        using Suc.IH [of t "out @ [c]"] Suc.prems Cons by (simp add: replace_all_step)
    qed
  qed
qed simp

text \<open>\<open>ReplaceStr\<close> and \<open>SearchAndReplace\<close> replace alike when the result fits the buffer.\<close>

lemma ReplaceStr_SearchAndReplace:
  assumes "SearchAndReplace (Some s) (Some from) (Some to) = Inr t" "from \<noteq> []" "length t < outSz"
  shows "ReplaceStr s outSz from to = Some (True, t)"
proof -
  have "t = replace_all s from to" using assms(1,2) by (simp add: SearchAndReplace_def)
  with replace_str_loop_replaces [of "from" s "length s + 1 + outSz" "[]" to outSz] assms(2,3)
  show ?thesis by (simp add: ReplaceStr_def)
qed

lemma ReplaceStr_SearchAndReplace_witness: "ReplaceStr ''a-b--c'' 8 ''-'' ''+'' = Some (True, ''a+b++c'')"
proof (rule ReplaceStr_SearchAndReplace)
  show "SearchAndReplace (Some ''a-b--c'') (Some ''-'') (Some ''+'') = Inr ''a+b++c''"
    by (simp add: SearchAndReplace_def replace_all.simps)
qed simp_all

section \<open>Escaping\<close>

fun protected_in :: "char \<Rightarrow> string \<Rightarrow> bool" where
  "protected_in sep (c # d # s) \<longleftrightarrow> (c = CHR 0x5C \<and> d = sep) \<or> protected_in sep (d # s)"
| "protected_in sep s \<longleftrightarrow> False"

lemma count_char_le: "count_char_loop sep s \<le> length (filter (\<lambda>c. c = sep) s)"
  by (induction sep s rule: count_char_loop.induct) auto

lemma count_char_exact:
  "sep \<noteq> CHR 0x5C \<Longrightarrow> (count_char_loop sep s = length (filter (\<lambda>c. c = sep) s)) \<longleftrightarrow> \<not> protected_in sep s"
proof (induction sep s rule: count_char_loop.induct)
  case (3 sep c d s)
  then show ?case using count_char_le [of sep s] by auto
qed auto

lemma escaped_length: "length (concat (map (\<lambda>c. if c = e then [w, c] else [c]) s)) = length s + length (filter (\<lambda>c. c = e) s)"
  by (induction s) auto

lemma EscapeCharCopy_bounded:
  assumes "e \<noteq> CHR 0x5C"
  shows "EscapeCharCopy s e w = (if protected_in e s then Inl OutOfBounds
           else Inr (concat (map (\<lambda>c. if c = e then [w, c] else [c]) s)))"
proof -
  have "count_char_loop e s \<le> length (filter (\<lambda>c. c = e) s)" by (rule count_char_le)
  moreover have "count_char_loop e s = length (filter (\<lambda>c. c = e) s) \<longleftrightarrow> \<not> protected_in e s"
    using assms by (rule count_char_exact)
  ultimately show ?thesis
    by (auto simp: EscapeCharCopy_def CountChar_def escaped_length Let_def)
qed

end
