(* ===== verification/CF_VarText.thy ===== *)
theory CF_VarText
  imports CF_Strings
begin

text \<open>
  References to variables in texts: the scanners of \<open>src/vars.c\<close> and \<open>src/expand.c\<close>.  A reference is \<open>$(name)\<close> or
  \<open>${name}\<close> of a scalar, the same with \<open>@\<close> of a list.  Reports of \<open>yyerror\<close> are left out.
\<close>

section \<open>Counting references\<close>

text \<open>The local variables of the three scanning loops; \<open>bs_dollar\<close> is set between the start of a reference and its end.\<close>

record brace_scan =
  bs_left :: char
  bs_right :: char
  bs_dollar :: bool
  bs_bracks :: int
  bs_vars :: nat

definition brace_start :: brace_scan where
  "brace_start = \<lparr>bs_left = CHR ''x'', bs_right = CHR ''x'', bs_dollar = False, bs_bracks = 0, bs_vars = 0\<rparr>"

definition is_open :: "char \<Rightarrow> bool" where
  "is_open c \<longleftrightarrow> c = CHR ''('' \<or> c = CHR ''{''"

definition is_close :: "char \<Rightarrow> bool" where
  "is_close c \<longleftrightarrow> c = CHR '')'' \<or> c = CHR ''}''"

text \<open>The \<open>switch\<close> on a character; \<open>next\<close> is the one behind it.\<close>

definition brace_switch :: "string \<Rightarrow> char \<Rightarrow> char \<Rightarrow> brace_scan \<Rightarrow> brace_scan" where
  "brace_switch sigils c follow st =
     (if c \<in> set sigils then (if is_open follow then st\<lparr>bs_dollar := True\<rparr> else st)
      else if is_open c then
        (if bs_dollar st then st\<lparr>bs_left := c, bs_bracks := bs_bracks st + 1\<rparr> else st)
      else if is_close c then
        (if bs_dollar st then st\<lparr>bs_bracks := bs_bracks st - 1, bs_right := c\<rparr> else st)
      else st)"

definition brace_close :: "char \<Rightarrow> char \<Rightarrow> brace_scan \<Rightarrow> brace_scan" where
  "brace_close l r st =
     (if bs_left st = l \<and> bs_right st = r \<and> bs_dollar st \<and> bs_bracks st = 0
      then st\<lparr>bs_vars := bs_vars st + 1, bs_dollar := False\<rparr> else st)"

text \<open>With \<open>slash\<close>, a slash inside brackets ends the scan: \<open>None\<close>.\<close>

fun brace_loop :: "string \<Rightarrow> bool \<Rightarrow> brace_scan \<Rightarrow> string \<Rightarrow> brace_scan option" where
  "brace_loop sigils slash st [] = Some st"
| "brace_loop sigils slash st (c # s) =
     (let st1 = brace_switch sigils c (char_at s 0) st in
      if slash \<and> bs_bracks st1 > 0 \<and> c = CHR ''/'' then None
      else brace_loop sigils slash
        (brace_close CHR ''{'' CHR ''}'' (brace_close CHR ''('' CHR '')'' st1)) s)"

text \<open>The result of the code is the number of references found, 0 for a text that is rejected.\<close>

definition IsCf3VarString :: "string option \<Rightarrow> nat" where
  "IsCf3VarString str = (case str of
     None \<Rightarrow> 0
   | Some s \<Rightarrow> (case brace_loop ''$@'' True brace_start s of
        None \<Rightarrow> 0
      | Some st \<Rightarrow> if bs_dollar st \<and> bs_bracks st \<noteq> 0 then 0 else bs_vars st))"

definition IsCf3Scalar :: "string option \<Rightarrow> nat" where
  "IsCf3Scalar str = (case str of
     None \<Rightarrow> 0
   | Some s \<Rightarrow> (case brace_loop ''$'' True brace_start s of
        None \<Rightarrow> 0
      | Some st \<Rightarrow> if bs_dollar st \<and> bs_bracks st \<noteq> 0 then 0 else bs_vars st))"

definition IsExpandable :: "string \<Rightarrow> nat" where
  "IsExpandable str = (case brace_loop ''$'' False brace_start str of
     None \<Rightarrow> 0
   | Some st \<Rightarrow> if bs_bracks st \<noteq> 0 then 0 else bs_vars st)"

section \<open>One reference\<close>

text \<open>Look for a reference to the variable \<open>v\<close>.  A failing test goes on behind the sigil.\<close>

fun contains_loop :: "string \<Rightarrow> string \<Rightarrow> bool" where
  "contains_loop v [] = False"
| "contains_loop v (c # s) =
     (if c = CHR ''$'' \<or> c = CHR ''@'' then
        (if s = [] then False
         else if hd s \<noteq> CHR ''('' \<and> hd s \<noteq> CHR ''{'' then contains_loop v s
         else if \<not> starts_with v (tl s) then contains_loop v s
         else if (hd s = CHR ''('' \<and> char_at s (length v + 1) = CHR '')'') \<or>
                 (hd s = CHR ''{'' \<and> char_at s (length v + 1) = CHR ''}'') then True
         else contains_loop v s)
      else contains_loop v s)"

definition StringContainsVar :: "string option \<Rightarrow> string \<Rightarrow> bool" where
  "StringContainsVar s v = (case s of None \<Rightarrow> False | Some s \<Rightarrow> contains_loop v s)"

text \<open>
  The text between the brackets of the reference a text starts with: whether the result is not NULL, and what is in
  \<open>substr\<close>, which the callers clear before.  \<open>n\<close> is the distance from the start of the name.
\<close>

fun inner_loop :: "string \<Rightarrow> int \<Rightarrow> nat \<Rightarrow> string \<Rightarrow> (bool \<times> string) res" where
  "inner_loop str bracks n [] = Inr (False, [])"
| "inner_loop str bracks n (c # s) =
     (let b = (if is_open c then bracks + 1 else if is_close c then bracks - 1 else bracks) in
      if b = 0 then
        (if n \<ge> CF_BUFSIZE then Inl OutOfBounds
         else if n = 0 then Inr (False, [])
         else Inr (True, take n (drop 2 str)))
      else inner_loop str b (n + 1) s)"

definition ExtractInnerCf3VarString :: "string option \<Rightarrow> (bool \<times> string) res" where
  "ExtractInnerCf3VarString str = (case str of
     None \<Rightarrow> Inr (False, [])
   | Some s \<Rightarrow>
       if s = [] then Inr (False, [])
       else if char_at s 1 \<noteq> CHR ''('' \<and> char_at s 1 \<noteq> CHR ''{'' then Inr (False, [])
       else inner_loop s 1 0 (drop 2 s))"

text \<open>The whole reference with its sigil and brackets.\<close>

fun outer_loop :: "string \<Rightarrow> bool \<Rightarrow> int \<Rightarrow> bool \<Rightarrow> nat \<Rightarrow> string \<Rightarrow> (bool \<times> string) res" where
  "outer_loop str dollar bracks onebrack n [] =
     (if \<not> dollar then Inr (True, []) else if bracks \<noteq> 0 then Inr (False, []) else Inr (True, []))"
| "outer_loop str dollar bracks onebrack n (c # s) =
     (if c = CHR ''$'' \<and> \<not> is_open (char_at s 0) then Inr (False, [])
      else
        let d = (dollar \<or> c = CHR ''$'');
            b = (if is_open c then bracks + 1 else if is_close c then bracks - 1 else bracks);
            o1 = (onebrack \<or> is_open c)
        in if d \<and> b = 0 \<and> o1
           then (if n + 1 \<ge> CF_BUFSIZE then Inl OutOfBounds else Inr (True, take (n + 1) str))
           else outer_loop str d b o1 (n + 1) s)"

definition ExtractOuterCf3VarString :: "string \<Rightarrow> (bool \<times> string) res" where
  "ExtractOuterCf3VarString str = outer_loop str False 0 False 0 str"

fun IsQualifiedVariable :: "string \<Rightarrow> bool" where
  "IsQualifiedVariable [] = False"
| "IsQualifiedVariable (c # s) = (if c = CHR ''['' then False else if c = CHR ''.'' then True else IsQualifiedVariable s)"

definition IsCfList :: "string \<Rightarrow> bool" where
  "IsCfList type \<longleftrightarrow> list_ex (\<lambda>t. strcmp type t = 0) [''sl'', ''il'', ''rl'', ''ml'']"

text \<open>A text that is one reference as a whole.\<close>

fun naked_loop :: "int \<Rightarrow> string \<Rightarrow> bool" where
  "naked_loop n [] = (n = 0)"
| "naked_loop n (c # s) =
     (if c \<in> set ''({['' then naked_loop (n + 1) s
      else if c \<in> set '')}]'' then (if n - 1 = 0 \<and> s \<noteq> [] then False else naked_loop (n - 1) s)
      else naked_loop n s)"

definition IsNakedVar :: "string option \<Rightarrow> char \<Rightarrow> bool" where
  "IsNakedVar str vtype = (case str of
     None \<Rightarrow> False
   | Some s \<Rightarrow>
       if length s < 3 then False
       else if hd s \<noteq> vtype then False
       else if s ! 1 = CHR ''('' then (if last s \<noteq> CHR '')'' then False else naked_loop 0 s)
       else if s ! 1 = CHR ''{'' then (if last s \<noteq> CHR ''}'' then False else naked_loop 0 s)
       else False)"

text \<open>\<open>size\<close> is the size of the buffer of the caller.\<close>

definition GetNaked :: "nat \<Rightarrow> string \<Rightarrow> string res" where
  "GetNaked bufsize s1 =
     (if length s1 < 4 then Inr s1
      else if length s1 - 3 \<ge> bufsize then Inl OutOfBounds
      else Inr (take (length s1 - 3) (drop 2 s1)))"

definition CF_MAPPEDLIST :: char where
  "CF_MAPPEDLIST = CHR ''#''"

text \<open>The first dot of a name becomes the mark of a copied list.\<close>

fun RewriteInnerVarStringAsLocalCopyName :: "string \<Rightarrow> string" where
  "RewriteInnerVarStringAsLocalCopyName [] = []"
| "RewriteInnerVarStringAsLocalCopyName (c # s) =
     (if c = CHR ''.'' then CF_MAPPEDLIST # s else c # RewriteInnerVarStringAsLocalCopyName s)"

text \<open>The namespace and the bundle of a scope name.\<close>

definition JoinScopeName :: "string option \<Rightarrow> string \<Rightarrow> string" where
  "JoinScopeName ns scope = take (CF_MAXVARSIZE - 1) (case ns of None \<Rightarrow> scope | Some n \<Rightarrow> n @ '':'' @ scope)"

text \<open>\<open>None\<close>: the namespace is left as it is.  A part that fills its buffer or the limit of 100 has no NUL of its own.\<close>

definition SplitScopeName :: "string \<Rightarrow> (string option \<times> string) res" where
  "SplitScopeName scope =
     (let ns = takeWhile (\<lambda>c. c \<noteq> CHR '':'') scope in
      if length ns < length scope
      then (if length ns \<ge> CF_MAXVARSIZE then Inl OutOfBounds
            else Inr (Some ns, take 100 (drop (length ns + 1) scope)))
      else Inr (None, take 100 scope))"

section \<open>References in texts\<close>

definition reference_texts :: "string \<Rightarrow> string list" where
  "reference_texts v = [''$('' @ v @ '')'', ''${'' @ v @ ''}'', ''@('' @ v @ '')'', ''@'' @ ''{'' @ v @ ''}'']"

lemma starts_with_snoc: "starts_with (v @ [c]) s \<longleftrightarrow> starts_with v s \<and> length v < length s \<and> s ! length v = c"
proof (induction v s rule: starts_with.induct)
  case (1 s)
  then show ?case by (cases s) auto
qed auto

lemma strstr_Cons: "strstr (c # s) t \<noteq> None \<longleftrightarrow> starts_with t (c # s) \<or> strstr s t \<noteq> None"
  by auto

lemma char_at_eq_iff: "k \<noteq> NUL \<Longrightarrow> char_at s i = k \<longleftrightarrow> i < length s \<and> s ! i = k"
  by (auto simp: char_at_def)

lemma contains_loop_Cons:
  "contains_loop v (c # s) \<longleftrightarrow> list_ex (\<lambda>t. starts_with t (c # s)) (reference_texts v) \<or> contains_loop v s"
proof (cases s)
  case Nil
  then show ?thesis by (auto simp: reference_texts_def starts_with_snoc)
next
  case (Cons d s')
  then show ?thesis
    by (auto simp: reference_texts_def starts_with_snoc char_at_eq_iff)
qed

lemma contains_loop_iff: "contains_loop v s \<longleftrightarrow> list_ex (\<lambda>t. strstr s t \<noteq> None) (reference_texts v)"
proof (induction s)
  case Nil
  then show ?case by (simp add: reference_texts_def)
next
  case (Cons c s)
  then show ?case unfolding contains_loop_Cons by (auto simp: reference_texts_def)
qed

text \<open>\<open>StringContainsVar\<close> finds a reference to a variable exactly when one of its four spellings occurs in the text.\<close>

lemma StringContainsVar_iff:
  "StringContainsVar (Some s) v = list_ex (\<lambda>t. strstr s t \<noteq> None) (reference_texts v)"
  by (simp add: StringContainsVar_def contains_loop_iff)

section \<open>Plain names\<close>

definition plain_name :: "string \<Rightarrow> bool" where
  "plain_name v \<longleftrightarrow> list_all (\<lambda>c. c \<notin> set ''$@(){}[]'') v"

lemma plain_name_simps [simp]:
  "plain_name []"
  "plain_name (c # v) \<longleftrightarrow> c \<notin> set ''$@(){}[]'' \<and> plain_name v"
  by (auto simp: plain_name_def)

lemma naked_loop_plain: "plain_name v \<Longrightarrow> naked_loop n (v @ s) = naked_loop n s"
  by (induction v) auto

lemma naked_reference:
  assumes "plain_name v" "v \<noteq> []" "length v < bufsize"
  shows "IsNakedVar (Some (''@('' @ v @ '')'')) CHR ''@'' \<and> GetNaked bufsize (''@('' @ v @ '')'') = Inr v"
    and "IsNakedVar (Some (''@'' @ ''{'' @ v @ ''}'')) CHR ''@'' \<and> GetNaked bufsize (''@'' @ ''{'' @ v @ ''}'') = Inr v"
  using assms by (auto simp: IsNakedVar_def GetNaked_def naked_loop_plain neq_Nil_conv)

text \<open>A text without sigils has no reference.\<close>

lemma brace_loop_quiet:
  assumes "list_all (\<lambda>c. c \<notin> set sigils) s" "\<not> bs_dollar st" "bs_bracks st = 0"
  shows "brace_loop sigils slash st s = Some st"
  using assms
proof (induction s arbitrary: st)
  case (Cons c s)
  then have "brace_switch sigils c (char_at s 0) st = st" by (simp add: brace_switch_def)
  with Cons show ?case by (simp add: Let_def brace_close_def)
qed simp

lemma IsCf3VarString_quiet: "list_all (\<lambda>c. c \<notin> set ''$@'') s \<Longrightarrow> IsCf3VarString (Some s) = 0"
  using brace_loop_quiet [of "''$@''" s brace_start True]
  by (simp add: IsCf3VarString_def brace_start_def)

lemma IsExpandable_quiet: "list_all (\<lambda>c. c \<noteq> CHR ''$'') s \<Longrightarrow> IsExpandable s = 0"
  using brace_loop_quiet [of "''$''" s brace_start False]
  by (simp add: IsExpandable_def brace_start_def)

lemma plain_name_quiet:
  assumes "plain_name v"
  shows "IsCf3VarString (Some v) = 0" "IsExpandable v = 0"
proof -
  from assms have v: "list_all (\<lambda>c. c \<notin> set ''$@'') v" "list_all (\<lambda>c. c \<noteq> CHR ''$'') v"
    unfolding plain_name_def by (auto elim: list.pred_mono_strong)
  show "IsCf3VarString (Some v) = 0" by (rule IsCf3VarString_quiet [OF v(1)])
  show "IsExpandable v = 0" by (rule IsExpandable_quiet [OF v(2)])
qed

lemma outer_loop_plain:
  assumes "plain_name v" "b \<noteq> 0"
  shows "outer_loop str True b True n (v @ s) = outer_loop str True b True (n + length v) s"
  using assms by (induction v arbitrary: n) (auto simp: is_open_def is_close_def)

lemma inner_loop_plain:
  assumes "plain_name v" "b \<noteq> 0"
  shows "inner_loop str b n (v @ s) = inner_loop str b (n + length v) s"
  using assms by (induction v arbitrary: n) (auto simp: is_open_def is_close_def)

definition ref_text :: "char \<Rightarrow> string \<Rightarrow> string" where
  "ref_text br v = CHR ''$'' # br # v @ (if br = CHR ''('' then '')'' else ''}'')"

lemma ExtractOuter_ref:
  assumes "plain_name v" "length v + 3 < CF_BUFSIZE" "is_open br"
  shows "ExtractOuterCf3VarString (ref_text br v @ s) = Inr (True, ref_text br v)"
  using assms outer_loop_plain [OF assms(1), of 1]
  by (auto simp: ExtractOuterCf3VarString_def ref_text_def is_open_def is_close_def)

lemma ExtractInner_ref:
  assumes "plain_name v" "length v < CF_BUFSIZE" "is_open br" "v \<noteq> []"
  shows "ExtractInnerCf3VarString (Some (ref_text br v @ s)) = Inr (True, v)"
  using assms inner_loop_plain [OF assms(1), of 1]
  by (auto simp: ExtractInnerCf3VarString_def ref_text_def is_open_def is_close_def)

end
