(* ===== verification/CF_Options.thy ===== *)
theory CF_Options
  imports CF_Prelude
begin

text \<open>
  \<open>src/conversion.c\<close>, first part: the names of options become constructors of the enumerations of \<open>cf3.defs.h\<close>.
\<close>

section \<open>Names of options\<close>

text \<open>The functions search a table for a name and cast the index to an enumeration.  A NULL name is in no table.\<close>

fun name_index :: "string list \<Rightarrow> string \<Rightarrow> nat" where
  "name_index [] s = 0"
| "name_index (n # names) s = (if strcmp s n = 0 then 0 else Suc (name_index names s))"

definition option_value :: "string list \<Rightarrow> 'a list \<Rightarrow> 'a \<Rightarrow> string option \<Rightarrow> 'a" where
  "option_value names enum deflt s =
     (case s of None \<Rightarrow> deflt | Some t \<Rightarrow> if name_index names t < length names then enum ! name_index names t else deflt)"

datatype cfmeasurepolicy = cfm_average | cfm_sum | cfm_first | cfm_last | cfm_nomeasure

definition MeasurePolicy2Value :: "string option \<Rightarrow> cfmeasurepolicy" where
  "MeasurePolicy2Value s = (if s = None then cfm_nomeasure else option_value [''average'', ''sum'', ''first'', ''last'']
     [cfm_average, cfm_sum, cfm_first, cfm_last, cfm_nomeasure] cfm_average s)"

datatype cfhypervisors = cfv_virt_xen | cfv_virt_kvm | cfv_virt_esx | cfv_virt_vbox | cfv_virt_test | cfv_virt_xen_net |
  cfv_virt_kvm_net | cfv_virt_esx_net | cfv_virt_test_net | cfv_zone | cfv_ec2 | cfv_eucalyptus | cfv_none

definition Str2Hypervisors :: "string option \<Rightarrow> cfhypervisors" where
  "Str2Hypervisors s = (if s = None then cfv_virt_test else option_value [''xen'', ''kvm'', ''esx'', ''vbox'', ''test'', ''xen_net'', ''kvm_net'',
     ''esx_net'', ''test_net'', ''zone'', ''ec2'', ''eucalyptus'']
     [cfv_virt_xen, cfv_virt_kvm, cfv_virt_esx, cfv_virt_vbox, cfv_virt_test, cfv_virt_xen_net, cfv_virt_kvm_net,
      cfv_virt_esx_net, cfv_virt_test_net, cfv_zone, cfv_ec2, cfv_eucalyptus, cfv_none] cfv_none s)"

datatype cfenvironment_state = cfvs_create | cfvs_delete | cfvs_running | cfvs_suspended | cfvs_down | cfvs_none

definition Str2EnvState :: "string option \<Rightarrow> cfenvironment_state" where
  "Str2EnvState s = (if s = None then cfvs_create else option_value [''create'', ''delete'', ''running'', ''suspended'', ''down'']
     [cfvs_create, cfvs_delete, cfvs_running, cfvs_suspended, cfvs_down, cfvs_none] cfvs_none s)"

datatype insert_match = cf_ignore_leading | cf_ignore_trailing | cf_ignore_embedded | cf_exact_match

definition String2InsertMatch :: "string option \<Rightarrow> insert_match" where
  "String2InsertMatch s = option_value [''ignore_leading'', ''ignore_trailing'', ''ignore_embedded'', ''exact_match'']
     [cf_ignore_leading, cf_ignore_trailing, cf_ignore_embedded, cf_exact_match] cf_exact_match s"

datatype cfdbtype = cfd_mysql | cfd_postgres | cfd_notype

definition Str2dbType :: "string option \<Rightarrow> cfdbtype" where
  "Str2dbType s = option_value [''mysql'', ''postgres'']
     [cfd_mysql, cfd_postgres, cfd_notype] cfd_notype s"

datatype package_actions = cfa_addpack | cfa_deletepack | cfa_reinstall | cfa_update | cfa_addupdate | cfa_patch |
  cfa_verifypack | cfa_pa_none

definition Str2PackageAction :: "string option \<Rightarrow> package_actions" where
  "Str2PackageAction s = option_value [''add'', ''delete'', ''reinstall'', ''update'', ''addupdate'', ''patch'',
     ''verify'']
     [cfa_addpack, cfa_deletepack, cfa_reinstall, cfa_update, cfa_addupdate, cfa_patch, cfa_verifypack, cfa_pa_none] cfa_pa_none s"

datatype version_cmp = cfa_eq | cfa_neq | cfa_gt | cfa_lt | cfa_ge | cfa_le | cfa_cmp_none

definition Str2PackageSelect :: "string option \<Rightarrow> version_cmp" where
  "Str2PackageSelect s = option_value [''=='', ''!='', ''>'', ''<'', ''>='', ''<='']
     [cfa_eq, cfa_neq, cfa_gt, cfa_lt, cfa_ge, cfa_le, cfa_cmp_none] cfa_cmp_none s"

datatype action_policy = cfa_individual | cfa_bulk | cfa_no_ppolicy

definition Str2ActionPolicy :: "string option \<Rightarrow> action_policy" where
  "Str2ActionPolicy s = option_value [''individual'', ''bulk'']
     [cfa_individual, cfa_bulk, cfa_no_ppolicy] cfa_no_ppolicy s"

datatype cfreport = cf_inform | cf_verbose | cf_error | cf_log | cf_reporting | cf_cmdout | cf_noreport

definition String2ReportLevel :: "string option \<Rightarrow> cfreport" where
  "String2ReportLevel s = option_value [''inform'', ''verbose'', ''error'', ''log'']
     [cf_inform, cf_verbose, cf_error, cf_log, cf_reporting, cf_cmdout, cf_noreport] cf_noreport s"

datatype cfhashes = cf_md5 | cf_sha224 | cf_sha256 | cf_sha384 | cf_sha512 | cf_sha1 | cf_sha | cf_besthash | cf_crypt |
  cf_nohash

definition String2HashType :: "string option \<Rightarrow> cfhashes" where
  "String2HashType s = option_value [''md5'', ''sha224'', ''sha256'', ''sha384'', ''sha512'', ''sha1'', ''sha'',
     ''best'', ''crypt'']
     [cf_md5, cf_sha224, cf_sha256, cf_sha384, cf_sha512, cf_sha1, cf_sha, cf_besthash, cf_crypt, cf_nohash] cf_nohash s"

datatype cflinktype = cfa_symlink | cfa_hardlink | cfa_relative | cfa_absolute | cfa_notlinked

definition String2LinkType :: "string option \<Rightarrow> cflinktype" where
  "String2LinkType s = option_value [''symlink'', ''hardlink'', ''relative'', ''absolute'']
     [cfa_symlink, cfa_hardlink, cfa_relative, cfa_absolute, cfa_notlinked] cfa_symlink s"

datatype cfcomparison = cfa_atime | cfa_mtime | cfa_ctime | cfa_checksum | cfa_hash | cfa_binary | cfa_exists |
  cfa_nocomparison

definition String2Comparison :: "string option \<Rightarrow> cfcomparison" where
  "String2Comparison s = option_value [''atime'', ''mtime'', ''ctime'', ''digest'', ''hash'', ''binary'', ''exists'']
     [cfa_atime, cfa_mtime, cfa_ctime, cfa_checksum, cfa_hash, cfa_binary, cfa_exists, cfa_nocomparison] cfa_nocomparison s"

datatype representations = cfk_url | cfk_web | cfk_file | cfk_db | cfk_literal | cfk_image | cfk_portal | cfk_none

definition String2Representation :: "string option \<Rightarrow> representations" where
  "String2Representation s = option_value [''url'', ''web'', ''file'', ''db'', ''literal'', ''image'', ''portal'']
     [cfk_url, cfk_web, cfk_file, cfk_db, cfk_literal, cfk_image, cfk_portal, cfk_none] cfk_none s"

datatype cfsbundle = cfs_access | cfs_nobtype

definition Type2Cfs :: "string option \<Rightarrow> cfsbundle" where
  "Type2Cfs s = option_value [''access'']
     [cfs_access, cfs_nobtype] cfs_nobtype s"

datatype cfdatatype = cf_str | cf_int | cf_real | cf_slist | cf_ilist | cf_rlist | cf_opts | cf_olist | cf_body |
  cf_bundle | cf_class | cf_clist | cf_irange | cf_rrange | cf_counter | cf_notype

definition Typename2Datatype :: "string option \<Rightarrow> cfdatatype" where
  "Typename2Datatype s = option_value [''string'', ''int'', ''real'', ''slist'', ''ilist'', ''rlist'', ''(menu option)'',
     ''(option list)'', ''(ext body)'', ''(ext bundle)'', ''class'', ''clist'', ''irange [int,int]'',
     ''rrange [real,real]'', ''counter'']
     [cf_str, cf_int, cf_real, cf_slist, cf_ilist, cf_rlist, cf_opts, cf_olist, cf_body, cf_bundle, cf_class, cf_clist,
      cf_irange, cf_rrange, cf_counter, cf_notype] cf_notype s"

datatype cfagenttype = cf_common | cf_agent | cf_server | cf_monitor | cf_executor | cf_runagent | cf_know | cf_report |
  cf_keygen | cf_hub | cf_gendoc | cf_noagent

definition Agent2Type :: "string option \<Rightarrow> cfagenttype" where
  "Agent2Type s = option_value [''common'', ''agent'', ''server'', ''monitor'', ''executor'', ''runagent'',
     ''knowledge'', ''reporter'', ''keygenerator'', ''hub'', ''gendoc'']
     [cf_common, cf_agent, cf_server, cf_monitor, cf_executor, cf_runagent, cf_know, cf_report, cf_keygen, cf_hub,
      cf_gendoc, cf_noagent] cf_noagent s"

datatype cfinterval = cfa_hourly | cfa_daily | cfa_nointerval

definition Str2Interval :: "string option \<Rightarrow> cfinterval" where
  "Str2Interval s = option_value [''hourly'', ''daily'']
     [cfa_hourly, cfa_daily, cfa_nointerval] cfa_nointerval s"

datatype cf_acl_method = cfacl_append | cfacl_overwrite | cfacl_nomethod

definition Str2AclMethod :: "string option \<Rightarrow> cf_acl_method" where
  "Str2AclMethod s = option_value [''append'', ''overwrite'']
     [cfacl_append, cfacl_overwrite, cfacl_nomethod] cfacl_nomethod s"

datatype cf_acl_type = cfacl_generic | cfacl_posix | cfacl_ntfs | cfacl_notype

definition Str2AclType :: "string option \<Rightarrow> cf_acl_type" where
  "Str2AclType s = option_value [''generic'', ''posix'', ''ntfs'']
     [cfacl_generic, cfacl_posix, cfacl_ntfs, cfacl_notype] cfacl_notype s"

datatype cf_acl_inherit = cfacl_nochange | cfacl_specify | cfacl_parent | cfacl_clear | cfacl_noinherit

definition Str2AclInherit :: "string option \<Rightarrow> cf_acl_inherit" where
  "Str2AclInherit s = option_value [''nochange'', ''specify'', ''parent'', ''clear'']
     [cfacl_nochange, cfacl_specify, cfacl_parent, cfacl_clear, cfacl_noinherit] cfacl_noinherit s"

datatype cf_srv_policy = cfsrv_start | cfsrv_stop | cfsrv_disable | cfsrv_restart | cfsrv_reload | cfsrv_nostatus

definition Str2ServicePolicy :: "string option \<Rightarrow> cf_srv_policy" where
  "Str2ServicePolicy s = option_value [''start'', ''stop'', ''disable'', ''restart'']
     [cfsrv_start, cfsrv_stop, cfsrv_disable, cfsrv_restart, cfsrv_reload, cfsrv_nostatus] cfsrv_start s"

text \<open>The table of \<open>String2Menu\<close> has a name, \<open>relay\<close>, that the enumeration lacks.\<close>

datatype cfd_menu = cfd_menu_delta | cfd_menu_full | cfd_collect_call | cfd_menu_error

definition String2Menu :: "string \<Rightarrow> cfd_menu" where
  "String2Menu s = option_value [''delta'', ''full'', ''relay'', ''collect_call'']
     [cfd_menu_delta, cfd_menu_full, cfd_collect_call, cfd_menu_error] cfd_menu_error (Some s)"

text \<open>Priorities are the numbers of \<open>syslog.h\<close>; an unknown one is an error.\<close>

definition SyslogPriority2Int :: "string option \<Rightarrow> int" where
  "SyslogPriority2Int s = option_value [''emergency'', ''alert'', ''critical'', ''error'', ''warning'', ''notice'', ''info'', ''debug'']
     [0, 1, 2, 3, 4, 5, 6, 7] 3 s"

datatype signal = SIGHUP | SIGINT | SIGTRAP | SIGKILL | SIGPIPE | SIGCONT | SIGABRT | SIGSTOP | SIGQUIT | SIGTERM | SIGCHLD |
  SIGUSR1 | SIGUSR2 | SIGBUS | SIGSEGV

text \<open>\<open>None\<close> is -1.\<close>

definition Signal2Int :: "string \<Rightarrow> signal option" where
  "Signal2Int s = option_value [''hup'', ''int'', ''trap'', ''kill'', ''pipe'', ''cont'', ''abrt'', ''stop'', ''quit'', ''term'', ''child'',
     ''usr1'', ''usr2'', ''bus'', ''segv'']
     [Some SIGHUP, Some SIGINT, Some SIGTRAP, Some SIGKILL, Some SIGPIPE, Some SIGCONT, Some SIGABRT, Some SIGSTOP, Some SIGQUIT,
      Some SIGTERM, Some SIGCHLD, Some SIGUSR1, Some SIGUSR2, Some SIGBUS, Some SIGSEGV] None (Some s)"

text \<open>The parity of the position in \<open>CF_BOOL\<close>; a text that is not in the list has an even position, behind its end.\<close>

definition GetBoolean :: "string \<Rightarrow> bool" where
  "GetBoolean s \<longleftrightarrow> even (name_index [''true'', ''false'', ''yes'', ''no'', ''on'', ''off''] s)"

definition Dtype2Str :: "cfdatatype \<Rightarrow> string" where
  "Dtype2Str dtype = (case dtype of
     cf_str \<Rightarrow> ''s'' | cf_slist \<Rightarrow> ''sl'' | cf_int \<Rightarrow> ''i'' | cf_ilist \<Rightarrow> ''il'' | cf_real \<Rightarrow> ''r'' | cf_rlist \<Rightarrow> ''rl''
   | cf_opts \<Rightarrow> ''m'' | cf_olist \<Rightarrow> ''ml'' | _ \<Rightarrow> ''D?'')"

definition DataTypeShortToType :: "string \<Rightarrow> string" where
  "DataTypeShortToType short_type =
     (if strcmp short_type ''s'' = 0 then ''string''
      else if strcmp short_type ''i'' = 0 then ''int''
      else if strcmp short_type ''r'' = 0 then ''real''
      else if strcmp short_type ''m'' = 0 then ''menu''
      else if strcmp short_type ''sl'' = 0 then ''string list''
      else if strcmp short_type ''il'' = 0 then ''int list''
      else if strcmp short_type ''rl'' = 0 then ''real list''
      else if strcmp short_type ''ml'' = 0 then ''menu list''
      else ''unknown type'')"

text \<open>A table of attributes: names with their types.\<close>

definition GetControlDatatype :: "string option \<Rightarrow> (string \<times> cfdatatype) list \<Rightarrow> cfdatatype" where
  "GetControlDatatype varname bp = (case varname of
     None \<Rightarrow> cf_notype
   | Some v \<Rightarrow> (case map_of bp v of Some t \<Rightarrow> t | None \<Rightarrow> cf_notype))"

section \<open>Properties\<close>

lemma name_index_nth: "distinct names \<Longrightarrow> i < length names \<Longrightarrow> name_index names (names ! i) = i"
  by (induction names arbitrary: i) (auto simp: nth_Cons split: nat.split)

lemma name_index_notin: "s \<notin> set names \<Longrightarrow> name_index names s = length names"
  by (induction names) auto

end
