(* ===== verification/CF_Conversion.thy ===== *)
theory CF_Conversion
  imports CF_Options CF_Classes "HOL-Library.Signed_Division"
begin

text \<open>
  \<open>src/conversion.c\<close>, second part: numbers with units, times, months and modes are read with \<open>sscanf\<close>, and texts are
  escaped for quotes, JSON and regular expressions.  The current date is in the arguments \<open>VYEAR\<close>, \<open>VMONTH\<close>, \<open>VDAY\<close>,
  the users and groups of the system in \<open>getpwnam\<close> and \<open>getgrnam\<close>.
\<close>

section \<open>Escaping\<close>

text \<open>
  One loop for the three functions: \<open>esc\<close> gives the replacement of a character that is escaped, \<open>step\<close> what the counter
  \<open>i\<close> grows by then; a plain character counts two.
\<close>

fun escape_loop :: "(char \<Rightarrow> string option) \<Rightarrow> int \<Rightarrow> int \<Rightarrow> int \<Rightarrow> string \<Rightarrow> string" where
  "escape_loop esc step i outSz [] = []"
| "escape_loop esc step i outSz (c # s) =
     (if \<not> i < outSz - 2 then []
      else case esc c of
          Some t \<Rightarrow> t @ escape_loop esc step (i + step) outSz s
        | None \<Rightarrow> c # escape_loop esc step (i + 2) outSz s)"

definition quote_escape :: "char \<Rightarrow> string option" where
  "quote_escape c = (if c = CHR 0x27 \<or> c = CHR 0x22 then Some [CHR 0x5C, c] else None)"

definition json_escape :: "char \<Rightarrow> string option" where
  "json_escape c =
     (if c = CHR 0x22 \<or> c = CHR 0x5C \<or> c = CHR ''/'' then Some [CHR 0x5C, c]
      else if c = CHR 0x0A then Some [CHR 0x5C, CHR ''n'']
      else if c = CHR 0x09 then Some [CHR 0x5C, CHR ''t'']
      else if c = CHR 0x0D then Some [CHR 0x5C, CHR ''r'']
      else if c = CHR 0x08 then Some [CHR 0x5C, CHR ''b'']
      else if c = CHR 0x0C then Some [CHR 0x5C, CHR ''f'']
      else None)"

definition regex_escape :: "char \<Rightarrow> string option" where
  "regex_escape c = (if c = CHR 0x5C \<or> c \<in> set ''.|*?+(){}[]^$'' then Some [CHR 0x5C, c] else None)"

definition EscapeQuotes :: "string \<Rightarrow> int \<Rightarrow> string" where
  "EscapeQuotes s outSz = escape_loop quote_escape 4 0 outSz s"

definition EscapeJson :: "string \<Rightarrow> int \<Rightarrow> string" where
  "EscapeJson s outSz = escape_loop json_escape 3 0 outSz s"

definition EscapeRegex :: "string \<Rightarrow> int \<Rightarrow> string" where
  "EscapeRegex s outSz = escape_loop regex_escape 3 0 outSz s"

section \<open>Numbers\<close>

definition CF_NOINT :: int where
  "CF_NOINT = -678"

definition CF_INFINITY :: int where
  "CF_INFINITY = 999999999"

text \<open>Signed overflow of a \<open>long\<close> is undefined.\<close>

definition long_res :: "int \<Rightarrow> int res" where
  "long_res x = (if LONG_MIN \<le> x \<and> x \<le> LONG_MAX then Inr x else Inl Overflow)"

definition IsSpace :: "string \<Rightarrow> bool" where
  "IsSpace remainder \<longleftrightarrow> list_all c_isspace remainder"

text \<open>\<open>sscanf(s, "%ld%c%s", &a, &c, remainder)\<close>: \<open>%s\<close> skips blanks and stops at the next one.\<close>

definition scan_unit :: "string \<Rightarrow> int \<times> char \<times> string" where
  "scan_unit s =
     (case scan_int s of
        None \<Rightarrow> (CF_NOINT, CHR ''X'', [])
      | Some (a, []) \<Rightarrow> (a, CHR ''X'', [])
      | Some (a, c # rest) \<Rightarrow> (a, c, takeWhile (\<lambda>x. \<not> c_isspace x) (dropWhile c_isspace rest)))"

definition unit_factor :: "char \<Rightarrow> int" where
  "unit_factor c =
     (if c = CHR ''k'' then 1000
      else if c = CHR ''K'' then 1024
      else if c = CHR ''m'' then 1000 * 1000
      else if c = CHR ''M'' then 1024 * 1024
      else if c = CHR ''g'' then 1000 * 1000 * 1000
      else if c = CHR ''G'' then 1024 * 1024 * 1024
      else 1)"

text \<open>A percentage is kept as a negative number.  A remainder behind the unit leaves the number without its unit.\<close>

definition Str2Int :: "int \<Rightarrow> string option \<Rightarrow> int res" where
  "Str2Int CFSTARTTIME s = (case s of
     None \<Rightarrow> Inr CF_NOINT
   | Some s \<Rightarrow>
       if strcmp s ''inf'' = 0 then Inr CF_INFINITY
       else if strcmp s ''now'' = 0 then Inr CFSTARTTIME
       else (case scan_unit s of (a, c, remainder) \<Rightarrow>
         if length remainder \<ge> CF_BUFSIZE then Inl OutOfBounds
         else if a = CF_NOINT \<or> \<not> IsSpace remainder then Inr a
         else if c = CHR ''%'' then if a < 0 \<or> a > 100 then Inr CF_NOINT else Inr (- a)
         else long_res (unit_factor c * a)))"

definition CF_HIGHINIT :: int where
  "CF_HIGHINIT = 99999"

definition CF_LOWINIT :: int where
  "CF_LOWINIT = -999999"

definition scan_or :: "int \<Rightarrow> string \<Rightarrow> int" where
  "scan_or d s = (case scan_int s of Some (v, rest) \<Rightarrow> v | None \<Rightarrow> d)"

definition IntRange2Int :: "string option \<Rightarrow> (int \<times> int) res" where
  "IntRange2Int intrange = (case intrange of
     None \<Rightarrow> Inr (CF_NOINT, CF_NOINT)
   | Some r \<Rightarrow> res_bind (SplitString r (CHR '','')) (\<lambda>split. case split of
       (a # b # rest) \<Rightarrow>
         let lmin = scan_or CF_HIGHINIT (name a);
             lmax = (if strcmp (name b) ''inf'' = 0 then CF_INFINITY else scan_or CF_LOWINIT (name b))
         in if lmin = CF_HIGHINIT \<or> lmax = CF_LOWINIT then Inl FatalErrorExit else Inr (lmin, lmax)
     | _ \<Rightarrow> Inl NullDereference))"

text \<open>\<open>"%o"\<close>.\<close>

definition is_octal :: "char \<Rightarrow> bool" where
  "is_octal c \<longleftrightarrow> c_isdigit c \<and> digit_value c < 8"

definition scan_octal :: "string \<Rightarrow> int option" where
  "scan_octal s =
     (let s1 = dropWhile c_isspace s;
          neg = (s1 \<noteq> [] \<and> hd s1 = CHR ''-'');
          s2 = (if s1 \<noteq> [] \<and> (hd s1 = CHR ''-'' \<or> hd s1 = CHR ''+'') then tl s1 else s1);
          ds = takeWhile is_octal s2;
          v = foldl (\<lambda>a c. 8 * a + int (digit_value c)) 0 ds
      in if ds = [] then None else Some (if neg then - v else v))"

text \<open>
  What cannot be read is reported with \<open>ReportError\<close>, which ends the agent unless the policy is being parsed; this function and the next
  are only used behind the parser.
\<close>

definition Str2Mode :: "string option \<Rightarrow> 32 word res" where
  "Str2Mode s = (case s of
     None \<Rightarrow> Inr 0
   | Some t \<Rightarrow> (case scan_octal t of
       None \<Rightarrow> Inl FatalErrorExit
     | Some a \<Rightarrow> let m = word_of_int a in if m = -1 then Inl FatalErrorExit else Inr m))"

section \<open>Times\<close>

text \<open>Every intermediate value of an expression on \<open>long\<close> has to fit.\<close>

definition TimeCounter2Int :: "string option \<Rightarrow> int res" where
  "TimeCounter2Int s = (case s of
     None \<Rightarrow> Inr CF_NOINT
   | Some s \<Rightarrow>
       (case
          (if CHR ''-'' \<in> set s then
             Option.bind (scan_int s) (\<lambda>(d, s1). Option.bind (Option.bind (scan_char (CHR ''-'') s1) scan_int) (\<lambda>(h, s2).
               Option.bind (Option.bind (scan_char (CHR '':'') s2) scan_int) (\<lambda>(m, s3). Some (d, h, m))))
           else
             Option.bind (scan_int s) (\<lambda>(h, s2). Option.bind (Option.bind (scan_char (CHR '':'') s2) scan_int) (\<lambda>(m, s3). Some (0, h, m)))) of
          None \<Rightarrow> Inl FatalErrorExit
        | Some (d, h, m) \<Rightarrow>
            res_bind (long_res (24 * d)) (\<lambda>x. res_bind (long_res (h + x)) (\<lambda>x. res_bind (long_res (60 * x)) (\<lambda>x.
              res_bind (long_res (m + x)) (\<lambda>x. long_res (60 * x)))))))"

text \<open>\<open>strncmp(MONTH_TEXT[i], string, strlen(string))\<close>: a prefix of the name is enough, the length argument is not used.\<close>

fun month_index :: "string list \<Rightarrow> int \<Rightarrow> string \<Rightarrow> int" where
  "month_index [] i s = -1"
| "month_index (m # months) i s = (if starts_with s m then i + 1 else month_index months (i + 1) s)"

definition MonthLen2Int :: "string option \<Rightarrow> nat \<Rightarrow> int" where
  "MonthLen2Int s len = (case s of None \<Rightarrow> -1 | Some t \<Rightarrow> month_index MONTH_TEXT 0 t)"

definition Month2Int :: "string option \<Rightarrow> int" where
  "Month2Int s = MonthLen2Int s 9"

text \<open>The table of days is static: a leap year changes it for all later calls, so the days of February are state.\<close>

definition month_days :: "int \<Rightarrow> int list" where
  "month_days february = [31, february, 31, 30, 31, 30, 31, 31, 30, 31, 30, 31]"

definition days_before :: "int list \<Rightarrow> int \<Rightarrow> int" where
  "days_before days month = sum_list (take (nat (month - 1)) days)"

definition date_seconds :: "int \<Rightarrow> int \<Rightarrow> int \<Rightarrow> int \<Rightarrow> int \<Rightarrow> int \<Rightarrow> int" where
  "date_seconds february year month day hour minute =
     minute * 60 + hour * 3600 + (day - 1) * 24 * 3600 + 24 * 3600 * ((year - 1970) sdiv 4) +
     days_before (month_days february) month * 24 * 3600 + (year - 1970) * 365 * 24 * 3600"

text \<open>\<open>%2[^:]:%2[^:]:\<close> and \<open>%3[a-zA-Z] %ld\<close>.  A part that is not there leaves its variable without a value.\<close>

definition scan_clock :: "string \<Rightarrow> (string \<times> string) res" where
  "scan_clock s =
     (let h = take 2 (takeWhile (\<lambda>c. c \<noteq> CHR '':'') s);
          rest = drop (length h) s;
          m = take 2 (takeWhile (\<lambda>c. c \<noteq> CHR '':'') (tl rest))
      in if h = [] \<or> rest = [] \<or> hd rest \<noteq> CHR '':'' \<or> m = [] then Inl OutOfBounds else Inr (h, m))"

definition scan_month_day :: "string \<Rightarrow> (string \<times> int) res" where
  "scan_month_day s =
     (let mon = take 3 (takeWhile (\<lambda>c. c_isupper c \<or> c_islower c) s)
      in if mon = [] then Inl OutOfBounds else Inr (mon, scan_or 0 (drop (length mon) s)))"

definition TimeAbs2Int :: "int \<Rightarrow> string \<Rightarrow> string \<Rightarrow> string \<Rightarrow> int \<Rightarrow> string option \<Rightarrow> (int \<times> int) res" where
  "TimeAbs2Int CFSTARTTIME VYEAR VMONTH VDAY february s = (case s of
     None \<Rightarrow> Inr (CF_NOINT, february)
   | Some s \<Rightarrow> res_bind (Str2Int CFSTARTTIME (Some VYEAR)) (\<lambda>year.
       let february = (if year smod 4 = 0 then 29 else february) in
       if CHR '':'' \<in> set s then
         res_bind (scan_clock s) (\<lambda>(h, m). res_bind (Str2Int CFSTARTTIME (Some VDAY)) (\<lambda>day.
           res_bind (Str2Int CFSTARTTIME (Some h)) (\<lambda>hour. res_bind (Str2Int CFSTARTTIME (Some m)) (\<lambda>minute.
             Inr (date_seconds february year (Month2Int (Some VMONTH)) day hour minute, february)))))
       else res_bind (scan_month_day s) (\<lambda>(mon, day).
         let month = Month2Int (Some mon);
             year = (if Month2Int (Some VMONTH) < month then year - 1 else year)
         in Inr (date_seconds february year month day 0 0, february))))"

text \<open>The loop of \<open>Months2Seconds\<close>; the remainder of C keeps the sign, so one turn of the inner loop is enough.\<close>

fun months_loop :: "nat \<Rightarrow> int \<Rightarrow> int \<Rightarrow> int \<Rightarrow> int \<Rightarrow> int" where
  "months_loop 0 this_month i year tot_days = tot_days"
| "months_loop (Suc n) this_month i year tot_days =
     (case (let month = (this_month - i) smod 12 in if month < 0 then (month + 12, year - 1) else (month, year)) of (month, year) \<Rightarrow>
        months_loop n this_month (i + 1) year
          (tot_days + (if year smod 4 \<noteq> 0 \<and> month = 1 then 29 else month_days 28 ! nat month)))"

definition Months2Seconds :: "int \<Rightarrow> string \<Rightarrow> string \<Rightarrow> int \<Rightarrow> int res" where
  "Months2Seconds CFSTARTTIME VYEAR VMONTH m =
     (if m = 0 then Inr 0
      else res_bind (Str2Int CFSTARTTIME (Some VYEAR)) (\<lambda>year.
        Inr (months_loop (nat m) (Month2Int (Some VMONTH)) 0 year 0 * 3600 * 24)))"

fun day_index :: "string list \<Rightarrow> int \<Rightarrow> string \<Rightarrow> int" where
  "day_index [] i s = -1"
| "day_index (d # days) i s = (if take 3 s = take 3 d then i else day_index days (i + 1) s)"

definition Day2Number :: "string \<Rightarrow> int" where
  "Day2Number datestring = day_index DAY_TEXT 0 datestring"

text \<open>\<open>stamp\<close> is the UTC time stamp; the hour stands at its twelfth character.\<close>

definition UtcShiftInterval :: "string \<Rightarrow> nat \<Rightarrow> string" where
  "UtcShiftInterval stamp outSz =
     (let hr = scan_or 0 (drop 11 stamp);
          shift = (if hr < 6 then ''00-06'' else if hr < 12 then ''06-12'' else if hr < 18 then ''12-18'' else ''18-24'')
      in take (outSz - 1) (take 11 stamp @ '' '' @ shift))"

section \<open>Texts\<close>

fun join_items :: "string \<Rightarrow> string list \<Rightarrow> string" where
  "join_items sep [] = []"
| "join_items sep [x] = x"
| "join_items sep (x # xs) = x @ sep @ join_items sep xs"

text \<open>The line has \<open>CF_BUFSIZE\<close> bytes and \<open>strcat\<close> does not look.\<close>

definition Rlist2String :: "string list \<Rightarrow> string \<Rightarrow> string res" where
  "Rlist2String list sep = (if length (join_items sep list) < CF_BUFSIZE then Inr (join_items sep list) else Inl OutOfBounds)"

text \<open>The buffer of an empty list has no bytes at all.\<close>

definition Item2String :: "Item list \<Rightarrow> string res" where
  "Item2String ip = (if ip = [] then Inl OutOfBounds else Inr (join_items [CHR 0x0A] (map name ip)))"

definition GetArg0 :: "string \<Rightarrow> string" where
  "GetArg0 execstr =
     (if char_at execstr 0 = CHR 0x22
      then takeWhile (\<lambda>c. c \<noteq> CHR 0x22) (take (CF_BUFSIZE - 1) (drop 1 execstr))
      else takeWhile (\<lambda>c. c \<noteq> CHR '' '') (take (CF_BUFSIZE - 1) execstr))"

definition CommPrefix :: "string \<Rightarrow> string" where
  "CommPrefix execstr =
     (let n = length (takeWhile (\<lambda>c. c \<noteq> CHR '' '') execstr) in take 15 (drop (if n \<ge> 10 then n - 10 else 0) execstr))"

definition NonEmptyLine :: "string \<Rightarrow> bool" where
  "NonEmptyLine line \<longleftrightarrow> list_ex (\<lambda>c. \<not> c_isspace c) line"

section \<open>Users and groups\<close>

definition CF_SAME_OWNER :: "32 word" where
  "CF_SAME_OWNER = -1"

definition CF_UNKNOWN_OWNER :: "32 word" where
  "CF_UNKNOWN_OWNER = -2"

text \<open>
  The name is read from \<open>getpwnam\<close>, the members of a netgroup from \<open>netgroup\<close>; the result is the identity and what the
  function writes to \<open>usercopy\<close>.
\<close>

fun netgroup_loop :: "(string \<Rightarrow> 32 word option) \<Rightarrow> string list \<Rightarrow> 32 word \<times> string option \<Rightarrow> 32 word \<times> string option" where
  "netgroup_loop getpwnam [] r = r"
| "netgroup_loop getpwnam (u # users) (uid, copy) =
     netgroup_loop getpwnam users
       (case getpwnam u of None \<Rightarrow> (CF_UNKNOWN_OWNER, copy) | Some pw_uid \<Rightarrow> (pw_uid, Some u))"

definition Str2Uid :: "(string \<Rightarrow> string list) \<Rightarrow> (string \<Rightarrow> 32 word option) \<Rightarrow> string \<Rightarrow> 32 word \<times> string option" where
  "Str2Uid netgroup getpwnam uidbuff =
     (if char_at uidbuff 0 = CHR ''+''
      then netgroup_loop getpwnam (netgroup (drop (if char_at uidbuff 1 = CHR ''@'' then 2 else 1) uidbuff)) (-2, None)
      else if c_isdigit (char_at uidbuff 0) then (word_of_int (scan_or (-2) uidbuff), None)
      else if strcmp uidbuff ''*'' = 0 then (CF_SAME_OWNER, None)
      else case getpwnam uidbuff of
          None \<Rightarrow> (CF_UNKNOWN_OWNER, Some uidbuff)
        | Some pw_uid \<Rightarrow> (pw_uid, None))"

definition Str2Gid :: "(string \<Rightarrow> 32 word option) \<Rightarrow> string \<Rightarrow> 32 word \<times> string option" where
  "Str2Gid getgrnam gidbuff =
     (if c_isdigit (char_at gidbuff 0) then (word_of_int (scan_or (-2) gidbuff), None)
      else if strcmp gidbuff ''*'' = 0 then (CF_SAME_OWNER, None)
      else case getgrnam gidbuff of
          None \<Rightarrow> (CF_UNKNOWN_OWNER, None)
        | Some gr_gid \<Rightarrow> (gr_gid, Some gidbuff))"

section \<open>The calendar\<close>

text \<open>The Gregorian calendar, as the number of seconds from the start of 1970 to a moment, without time zone.\<close>

definition leap_year :: "int \<Rightarrow> bool" where
  "leap_year y \<longleftrightarrow> y mod 4 = 0 \<and> (y mod 100 \<noteq> 0 \<or> y mod 400 = 0)"

definition year_days :: "int \<Rightarrow> int" where
  "year_days y = (if leap_year y then 366 else 365)"

definition calendar_seconds :: "int \<Rightarrow> int \<Rightarrow> int \<Rightarrow> int \<Rightarrow> int \<Rightarrow> int" where
  "calendar_seconds year month day hour minute =
     86400 * (sum_list (map year_days [1970..year - 1]) + days_before (month_days (if leap_year year then 29 else 28)) month + (day - 1)) +
     3600 * hour + 60 * minute"

lemma leap_early: "1970 \<le> y \<Longrightarrow> y < 2100 \<Longrightarrow> leap_year y \<longleftrightarrow> y mod 4 = 0"
proof -
  assume "1970 \<le> y" "y < 2100"
  then have "y mod 100 = 0 \<longrightarrow> y = 2000" by presburger
  then show ?thesis by (auto simp: leap_year_def)
qed

lemma days_since_1970:
  "n \<le> 130 \<Longrightarrow> sum_list (map year_days [1970..1970 + int n - 1]) = 365 * int n + (int n + 1) div 4"
proof (induction n)
  case (Suc n)
  have "[1970..1970 + int (Suc n) - 1] = [1970..1970 + int n - 1] @ [1970 + int n]"
    using upto_rec2 [of 1970 "1970 + int n"] by simp
  moreover have "leap_year (1970 + int n) \<longleftrightarrow> (1970 + int n) mod 4 = 0" using Suc.prems by (intro leap_early) auto
  ultimately show ?case using Suc by (auto simp: year_days_def) presburger+
qed simp

lemma days_to_year:
  assumes "1970 \<le> year" and "year \<le> 2100"
  shows "sum_list (map year_days [1970..year - 1]) = 365 * (year - 1970) + (year - 1969) div 4"
proof -
  obtain n where "year = 1970 + int n" using assms(1) by (metis zle_iff_zadd)
  with days_since_1970 [of n] assms(2) show ?thesis by simp
qed

text \<open>The days of the months before a month depend on those of February.\<close>

lemma days_before_february: "days_before (month_days f) month = days_before (month_days g) month + (if month > 2 then f - g else 0)"
proof (cases "month > 2")
  case True
  then obtain n where "nat (month - 1) = Suc (Suc n)" by (metis Suc_nat_eq_nat_zadd1 add.commute diff_add_cancel diff_gt_0_iff_gt
    less_diff_eq one_add_one order_less_imp_le zless_imp_add1_zle le_diff_eq)
  with True show ?thesis by (simp add: days_before_def month_days_def)
next
  case False
  then have "nat (month - 1) = 0 \<or> nat (month - 1) = 1" by auto
  with False show ?thesis by (auto simp: days_before_def month_days_def)
qed

text \<open>By how many days the code is off: the leap days before the year are a quarter of the years since 1970, and February may be another year's.\<close>

definition days_off :: "int \<Rightarrow> int \<Rightarrow> int \<Rightarrow> int" where
  "days_off february year month =
     (if month > 2 then february - (if leap_year year then 29 else 28) else 0) - (if year mod 4 = 1 then 1 else 0)"

lemma date_seconds_calendar:
  assumes "1970 \<le> year" and "year < 2100"
  shows "date_seconds february year month day hour minute = calendar_seconds year month day hour minute + 86400 * days_off february year month"
proof -
  have rem: "(year - 1970) sdiv 4 = (year - 1970) div 4"
    using assms by (simp add: signed_divide_int_def sgn_if)
  have "(year - 1969) div 4 = (year - 1970) div 4 + (if year mod 4 = 1 then 1 else 0)" by presburger
  with days_to_year [of year] assms days_before_february [of february month "if leap_year year then 29 else 28"] show ?thesis
    by (simp add: date_seconds_def calendar_seconds_def days_off_def rem)
qed

text \<open>C32: for a year from 1971 to 2099 \<open>TimeAbs2Int\<close> gives the seconds of the calendar for a time of day of today, and for a day of a month,
  which is taken to be in the year before when the month is yet to come; but it is off by \<open>days_off\<close>: a day short in a year after a leap year,
  and off by one behind February when the table of days has the February of another year, because it is kept from the calls before and is
  set before the year is.\<close>

lemma TimeAbs2Int_calendar:
  fixes february :: int
  assumes "Str2Int T (Some VYEAR) = Inr year" and "1970 < year" "year < 2100"
  defines "days \<equiv> if year mod 4 = 0 then 29 else february"
  shows "(CHR '':'' \<in> set s \<and> scan_clock s = Inr (h, m) \<and> Str2Int T (Some VDAY) = Inr day \<and> Str2Int T (Some h) = Inr hour \<and>
      Str2Int T (Some m) = Inr minute \<longrightarrow>
      TimeAbs2Int T VYEAR VMONTH VDAY february (Some s) =
        (let month = Month2Int (Some VMONTH)
         in Inr (calendar_seconds year month day hour minute + 86400 * days_off days year month, days))) \<and>
    (CHR '':'' \<notin> set s \<and> scan_month_day s = Inr (mon, day) \<longrightarrow>
      TimeAbs2Int T VYEAR VMONTH VDAY february (Some s) =
        (let month = Month2Int (Some mon); year' = (if Month2Int (Some VMONTH) < month then year - 1 else year)
         in Inr (calendar_seconds year' month day 0 0 + 86400 * days_off days year' month, days)))"
proof -
  have "year smod 4 = year mod 4" using assms(2) by (simp add: signed_modulo_int_def signed_divide_int_def sgn_if)
  then show ?thesis
    using assms(1-3) by (auto simp: TimeAbs2Int_def days_def Let_def date_seconds_calendar)
qed

text \<open>In January 2013 the first of March is that of 2012, which had a leap day: the code is a day short.\<close>

lemma TimeAbs2Int_calendar_witness:
  "TimeAbs2Int 0 ''2013'' ''Jan'' ''10'' 28 (Some ''Mar 1'') = Inr (calendar_seconds 2012 3 1 0 0 - 86400, 28)"
proof -
  have year: "Str2Int 0 (Some ''2013'') = Inr 2013" and date: "scan_month_day ''Mar 1'' = Inr (''Mar'', 1)" by code_simp+
  have "Month2Int (Some ''Mar'') = 3" "Month2Int (Some ''Jan'') = 1" "\<not> CHR '':'' \<in> set ''Mar 1''" by code_simp+
  with TimeAbs2Int_calendar [OF year, where february = 28 and s = "''Mar 1''" and mon = "''Mar''" and day = 1 and VMONTH = "''Jan''" and
      VDAY = "''10''"] date show ?thesis
    by (simp add: days_off_def leap_year_def)
qed

section \<open>Escaping\<close>

definition escape_all :: "(char \<Rightarrow> string option) \<Rightarrow> string \<Rightarrow> string" where
  "escape_all esc s = concat (map (\<lambda>c. case esc c of Some t \<Rightarrow> t | None \<Rightarrow> [c]) s)"

definition short_escape :: "(char \<Rightarrow> string option) \<Rightarrow> bool" where
  "short_escape esc \<longleftrightarrow> (\<forall>c t. esc c = Some t \<longrightarrow> length t = 2)"

lemma short_escapes: "short_escape quote_escape" "short_escape json_escape" "short_escape regex_escape"
  by (auto simp: short_escape_def quote_escape_def json_escape_def regex_escape_def split: if_splits)

lemma escape_loop_prefix: "\<exists>n. escape_loop esc step i outSz s = escape_all esc (take n s)"
proof (induction esc step i outSz s rule: escape_loop.induct)
  case (2 esc step i outSz c s)
  show ?case
  proof (cases "i < outSz - 2")
    case False
    then have "escape_loop esc step i outSz (c # s) = escape_all esc (take 0 (c # s))" by (simp add: escape_all_def)
    then show ?thesis by blast
  next
    case True
    obtain n where "(case esc c of Some t \<Rightarrow> escape_loop esc step (i + step) outSz s | None \<Rightarrow> escape_loop esc step (i + 2) outSz s) =
        escape_all esc (take n s)"
      using "2.IH" [OF _] True by (cases "esc c") auto
    then have "escape_loop esc step i outSz (c # s) = escape_all esc (take (Suc n) (c # s))"
      using True by (auto simp: escape_all_def split: option.splits)
    then show ?thesis by blast
  qed
qed (simp add: escape_all_def)

lemma escape_loop_bound:
  "short_escape esc \<Longrightarrow> 2 \<le> step \<Longrightarrow> int (length (escape_loop esc step i outSz s)) \<le> max 0 (outSz - 1 - i)"
proof (induction esc step i outSz s rule: escape_loop.induct)
  case (2 esc step i outSz c s)
  then show ?case
    by (cases "esc c") (auto simp: short_escape_def)
qed simp

lemma escape_loop_complete:
  "2 \<le> step \<Longrightarrow> i + step * int (length s) \<le> outSz - 2 \<Longrightarrow> escape_loop esc step i outSz s = escape_all esc s"
proof (induction esc step i outSz s rule: escape_loop.induct)
  case (2 esc step i outSz c s)
  obtain k where k: "step * int (length s) = k" and "0 \<le> k" using 2(3) by simp
  then have room: "i < outSz - 2" and rest: "i + step + step * int (length s) \<le> outSz - 2" "i + 2 + step * int (length s) \<le> outSz - 2"
    using 2(3,4) by (simp_all add: distrib_left k)
  with 2(1,2) 2(3) show ?case
    by (cases "esc c") (simp_all add: escape_all_def)
qed (simp add: escape_all_def)

text \<open>C33: The escaping functions stay inside their buffer with room for the NUL, their result is the escaped form of a prefix of the
  text, and of the whole text when the buffer is three times (for quotes four times) as long and two more.\<close>

lemma Escape_bounded:
  assumes "0 < outSz"
  shows "int (length (EscapeRegex s outSz)) < outSz \<and> int (length (EscapeJson s outSz)) < outSz \<and> int (length (EscapeQuotes s outSz)) < outSz \<and>
    (\<exists>n. EscapeRegex s outSz = escape_all regex_escape (take n s)) \<and> (\<exists>n. EscapeJson s outSz = escape_all json_escape (take n s)) \<and>
    (\<exists>n. EscapeQuotes s outSz = escape_all quote_escape (take n s)) \<and>
    (3 * int (length s) + 2 \<le> outSz \<longrightarrow> EscapeRegex s outSz = escape_all regex_escape s \<and> EscapeJson s outSz = escape_all json_escape s) \<and>
    (4 * int (length s) + 2 \<le> outSz \<longrightarrow> EscapeQuotes s outSz = escape_all quote_escape s)"
  using assms escape_loop_bound [OF short_escapes(1), of 4 0 outSz s] escape_loop_bound [OF short_escapes(2), of 3 0 outSz s]
    escape_loop_bound [OF short_escapes(3), of 3 0 outSz s]
  by (auto simp: EscapeRegex_def EscapeJson_def EscapeQuotes_def escape_loop_prefix escape_loop_complete)

lemma Escape_bounded_witness:
  "int (length (EscapeRegex ''a.b'' 11)) < 11 \<and> EscapeRegex ''a.b'' 11 = escape_all regex_escape ''a.b''"
  using Escape_bounded [of 11 "''a.b''"] by (simp add: escape_all_def regex_escape_def)

section \<open>Numbers with units\<close>

text \<open>The text of a number followed by a unit reads as the number times the unit, or is reported as an overflow of \<open>long\<close>, but the
  number that marks no value is kept as it is.\<close>

lemma Str2Int_unit:
  assumes "LONG_MIN \<le> i" and "i \<le> LONG_MAX" and "u \<in> set ''kKmMgG''"
  shows "Str2Int now (Some (show_int i @ [u])) = (if i = CF_NOINT then Inr CF_NOINT else long_res (unit_factor u * i))"
proof -
  have u: "\<not> c_isdigit u" "u \<noteq> CHR ''%''" "u \<noteq> CHR ''f''" "u \<noteq> CHR ''w''" using assms(3) by (auto simp: c_isdigit_def)
  then have "scan_unit (show_int i @ [u]) = (i, u, [])"
    using strtol10_show_int_append [OF assms(1,2), of "[u]"] by (simp add: scan_unit_def scan_int_def)
  moreover have "show_int i @ [u] \<noteq> ''inf''" "show_int i @ [u] \<noteq> ''now''" using u(3,4) by (auto dest: arg_cong [of _ _ last])
  ultimately show ?thesis using u(2) by (auto simp: Str2Int_def IsSpace_def CF_BUFSIZE_def)
qed

lemma Str2Int_unit_witness:
  "Str2Int 0 (Some (show_int 5 @ ''k'')) = (if (5 :: int) = CF_NOINT then Inr CF_NOINT else long_res (unit_factor (CHR ''k'') * 5))"
  by (rule Str2Int_unit) (simp_all add: LONG_MIN_def LONG_MAX_def)

section \<open>Menus\<close>

text \<open>The request of a collect call is never understood: its name stands at the position of the error value, and the name
  \<open>relay\<close> gives the collect call.\<close>

lemma String2Menu_collect_call:
  "String2Menu ''collect_call'' = cfd_menu_error \<and> String2Menu ''relay'' = cfd_collect_call"
  by (simp add: String2Menu_def option_value_def)

end
