(* ===== verification/CF_Rlist.thy ===== *)
theory CF_Rlist
  imports CF_VarText CF_Names CF_Conversion CF_Json
begin

text \<open>
  \<open>src/rlist.c\<close> and the structure of \<open>src/fncall.c\<close>: right-hand side values.  A value is a text, a list of values or a
  function call with its arguments; a pointer to an item is NULL for an absent text and for the promisee of no one.  A
  linked list of items is a list, the NULL list the empty one.  Associations are never put in a list but by the iteration
  contexts, which have their own record.
\<close>

section \<open>Values\<close>

datatype rval =
    Scalar string
  | ListVal "rval list"
  | Call string "rval list"
  | NoScalar
  | NoPromisee

definition rtype :: "rval \<Rightarrow> char" where
  "rtype v = (case v of Scalar _ \<Rightarrow> CHR ''s'' | NoScalar \<Rightarrow> CHR ''s'' | ListVal _ \<Rightarrow> CHR ''l'' | Call _ _ \<Rightarrow> CHR ''f''
     | NoPromisee \<Rightarrow> CHR ''X'')"

definition ScalarValue :: "rval \<Rightarrow> string option res" where
  "ScalarValue rlist = (case rlist of Scalar s \<Rightarrow> Inr (Some s) | NoScalar \<Rightarrow> Inr None | _ \<Rightarrow> Inl FatalErrorExit)"

definition FnCallValue :: "rval \<Rightarrow> (string \<times> rval list) res" where
  "FnCallValue rlist = (case rlist of Call f args \<Rightarrow> Inr (f, args) | _ \<Rightarrow> Inl FatalErrorExit)"

definition ListValue :: "rval \<Rightarrow> rval list res" where
  "ListValue rlist = (case rlist of ListVal l \<Rightarrow> Inr l | _ \<Rightarrow> Inl FatalErrorExit)"

definition ScalarRvalValue :: "rval \<Rightarrow> string option res" where
  "ScalarRvalValue rval = (if rtype rval \<noteq> CHR ''s'' then Inl FatalErrorExit
     else Inr (case rval of Scalar s \<Rightarrow> Some s | _ \<Rightarrow> None))"

definition FnCallRvalValue :: "rval \<Rightarrow> (string \<times> rval list) res" where
  "FnCallRvalValue rval = (case rval of Call f args \<Rightarrow> Inr (f, args) | _ \<Rightarrow> Inl FatalErrorExit)"

definition ListRvalValue :: "rval \<Rightarrow> rval list res" where
  "ListRvalValue rval = (case rval of ListVal l \<Rightarrow> Inr l | _ \<Rightarrow> Inl FatalErrorExit)"

section \<open>Membership\<close>

text \<open>The position of the first item that is the text.\<close>

fun KeyInRlist :: "rval list \<Rightarrow> string \<Rightarrow> nat option" where
  "KeyInRlist [] key = None"
| "KeyInRlist (Scalar s # list) key = (if strcmp s key = 0 then Some 0 else map_option Suc (KeyInRlist list key))"
| "KeyInRlist (_ # list) key = map_option Suc (KeyInRlist list key)"

definition scalar_items :: "rval list \<Rightarrow> string list" where
  "scalar_items list = concat (map (\<lambda>v. case v of Scalar s \<Rightarrow> [s] | _ \<Rightarrow> []) list)"

definition IsStringIn :: "rval list \<Rightarrow> string option \<Rightarrow> bool" where
  "IsStringIn list s = (case s of
     None \<Rightarrow> False
   | Some s \<Rightarrow> if list = [] then False else list_ex (\<lambda>t. strcmp s t = 0) (scalar_items list))"

definition IsIntIn :: "rval list \<Rightarrow> int \<Rightarrow> bool" where
  "IsIntIn list i = (if list = [] then False else list_ex (\<lambda>t. strcmp (show_int i) t = 0) (scalar_items list))"

definition IsInListOfRegex :: "(string \<Rightarrow> string \<Rightarrow> bool) \<Rightarrow> rval list \<Rightarrow> string option \<Rightarrow> bool" where
  "IsInListOfRegex full_match list str = (case str of
     None \<Rightarrow> False
   | Some s \<Rightarrow> if list = [] then False else list_ex (\<lambda>t. FullTextMatch full_match t s) (scalar_items list))"

section \<open>Building lists\<close>

text \<open>
  What \<open>AppendRlist\<close> adds to a list: a copy of the item, for a list the copies of its items, all the way down.  The
  arguments of a call are copied with \<open>CopyRlist\<close>.
\<close>

fun appended :: "rval \<Rightarrow> rval list" where
  "appended (Scalar s) = [Scalar s]"
| "appended (ListVal l) = concat (map appended l)"
| "appended (Call f args) = [Call f (concat (map appended args))]"
| "appended NoScalar = [Scalar []]"
| "appended NoPromisee = []"

definition AppendRlist :: "rval list \<Rightarrow> rval \<Rightarrow> rval list" where
  "AppendRlist start item = start @ appended item"

definition CopyRlist :: "rval list \<Rightarrow> rval list" where
  "CopyRlist list = foldl AppendRlist [] list"

definition NewFnCall :: "string \<Rightarrow> rval list \<Rightarrow> rval" where
  "NewFnCall fname args = Call fname args"

definition CopyFnCall :: "string \<Rightarrow> rval list \<Rightarrow> rval" where
  "CopyFnCall fname args = NewFnCall fname (CopyRlist args)"

text \<open>
  \<open>CopyRvalItem\<close> replaces a list variable \<open>@(x)\<close> in a list by its items; \<open>lookup\<close> is \<open>GetVariable\<close> in the current context,
  \<open>None\<close> for a variable that is not found.  An item that is not a text is copied without a look at its first bytes.
\<close>

definition copied_item :: "(string \<Rightarrow> rval option run) \<Rightarrow> rval \<Rightarrow> rval list run" where
  "copied_item lookup item = (case item of
     Scalar s \<Rightarrow>
       if IsNakedVar (Some s) CHR ''@''
       then run_bind (Some (GetNaked CF_BUFSIZE s)) (\<lambda>naked. run_bind (lookup naked) (\<lambda>found. case found of
          Some (ListVal l) \<Rightarrow> ret (concat (map appended l))
        | _ \<Rightarrow> ret (appended item)))
       else ret (appended item)
   | _ \<Rightarrow> ret (appended item))"

definition CopyRvalItem :: "(string \<Rightarrow> rval option run) \<Rightarrow> rval \<Rightarrow> rval run" where
  "CopyRvalItem lookup rval = (case rval of
     NoScalar \<Rightarrow> ret (Scalar [])
   | Scalar s \<Rightarrow> ret (Scalar s)
   | Call f args \<Rightarrow> ret (CopyFnCall f args)
   | ListVal l \<Rightarrow> run_bind (run_map (copied_item lookup) l) (\<lambda>ls. ret (ListVal (concat ls)))
   | NoPromisee \<Rightarrow> ret NoPromisee)"

definition is_scalar :: "rval \<Rightarrow> bool" where
  "is_scalar v \<longleftrightarrow> rtype v = CHR ''s''"

definition scalar_text :: "rval \<Rightarrow> string" where
  "scalar_text v = (case v of Scalar s \<Rightarrow> s | _ \<Rightarrow> [])"

definition AppendRScalar :: "rval list \<Rightarrow> rval \<Rightarrow> rval list res" where
  "AppendRScalar start item = (if \<not> is_scalar item then Inl FatalErrorExit else Inr (AppendRlist start item))"

text \<open>The items of a list end up in reverse.\<close>

fun PrependRlist :: "rval list \<Rightarrow> rval \<Rightarrow> rval list" where
  "PrependRlist start (ListVal l) = foldl PrependRlist start l"
| "PrependRlist start NoPromisee = start"
| "PrependRlist start item = appended item @ start"

definition PrependRScalar :: "rval list \<Rightarrow> rval \<Rightarrow> rval list res" where
  "PrependRScalar start item = (if \<not> is_scalar item then Inl FatalErrorExit else Inr (PrependRlist start item))"

definition IdempAppendRScalar :: "rval list \<Rightarrow> rval \<Rightarrow> rval list res" where
  "IdempAppendRScalar start item =
     (if \<not> is_scalar item then Inl FatalErrorExit
      else if KeyInRlist start (scalar_text item) = None then Inr (AppendRlist start item) else Inr start)"

definition IdempPrependRScalar :: "rval list \<Rightarrow> rval \<Rightarrow> rval list res" where
  "IdempPrependRScalar start item =
     (if \<not> is_scalar item then Inl FatalErrorExit
      else if KeyInRlist start (scalar_text item) = None then Inr (PrependRlist start item) else Inr start)"

text \<open>A function call is taken for the text to look for.\<close>

fun IdempAppendRlist :: "rval list \<Rightarrow> rval \<Rightarrow> rval list res" where
  "IdempAppendRlist start (ListVal l) = foldl (\<lambda>r v. res_bind r (\<lambda>st. IdempAppendRlist st v)) (Inr start) l"
| "IdempAppendRlist start (Scalar s) = (if KeyInRlist start s = None then Inr (AppendRlist start (Scalar s)) else Inr start)"
| "IdempAppendRlist start (Call f args) = Inl OutOfBounds"
| "IdempAppendRlist start NoScalar = (if start = [] then Inr (AppendRlist start NoScalar) else Inl NullDereference)"
| "IdempAppendRlist start NoPromisee = (if start = [] then Inr (AppendRlist start NoPromisee) else Inl NullDereference)"

definition RlistLen :: "rval list \<Rightarrow> nat" where
  "RlistLen start = length start"

definition RlistAt :: "rval list \<Rightarrow> nat \<Rightarrow> rval option" where
  "RlistAt start n = (if n < length start then Some (start ! n) else None)"

definition RlistLast :: "rval list \<Rightarrow> rval option" where
  "RlistLast start = (if start = [] then None else Some (last start))"

text \<open>\<open>entry\<close> is the position of the node.\<close>

definition DeleteRlistEntry :: "rval list \<Rightarrow> nat option \<Rightarrow> rval list" where
  "DeleteRlistEntry liststart entry = (case entry of None \<Rightarrow> liststart | Some i \<Rightarrow> take i liststart @ drop (i + 1) liststart)"

text \<open>The items that are kept, and those that were destroyed.\<close>

fun RlistFilter :: "rval list \<Rightarrow> (rval \<Rightarrow> bool) \<Rightarrow> rval list \<times> rval list" where
  "RlistFilter [] keep = ([], [])"
| "RlistFilter (v # l) keep =
     (case RlistFilter l keep of (ks, ds) \<Rightarrow> if keep v then (v # ks, ds) else (ks, v # ds))"

text \<open>Lists of pointers without a type.\<close>

definition AppendRlistAlien :: "'a list \<Rightarrow> 'a \<Rightarrow> 'a list" where
  "AppendRlistAlien start item = start @ [item]"

definition PrependRlistAlien :: "'a list \<Rightarrow> 'a \<Rightarrow> 'a list" where
  "PrependRlistAlien start item = item # start"

definition RlistAppendReference :: "'a list \<Rightarrow> 'a \<Rightarrow> 'a list" where
  "RlistAppendReference start item = start @ [item]"

definition PushStack :: "'a list \<Rightarrow> 'a \<Rightarrow> 'a list" where
  "PushStack liststart item = item # liststart"

definition PopStack :: "'a list \<Rightarrow> ('a \<times> 'a list) res" where
  "PopStack liststart = (case liststart of [] \<Rightarrow> Inl FatalErrorExit | x # l \<Rightarrow> Inr (x, l))"

section \<open>Splitting\<close>

text \<open>
  The position grows by the number of characters of the node and one for the separator.  Behind the last node the loop
  reads the byte after the NUL and stops, whatever it is.
\<close>

function split_rlist_loop :: "string \<Rightarrow> char \<Rightarrow> nat \<Rightarrow> rval list res" where
  "split_rlist_loop s sep sp =
     (if sp \<ge> length s then Inr []
      else case SubStrnCopyChr (Some (drop sp s)) CF_MAXVARSIZE sep of
          Inl e \<Rightarrow> Inl e
        | Inr (node, copied) \<Rightarrow>
            res_bind (split_rlist_loop s sep (sp + copied + 1)) (\<lambda>rest. Inr (Scalar node # rest)))"
  by pat_completeness auto
termination by (relation "measure (\<lambda>(s, sep, sp). length s - sp)") auto

declare split_rlist_loop.simps [simp del]

definition SplitStringAsRList :: "string option \<Rightarrow> char \<Rightarrow> rval list res" where
  "SplitStringAsRList str sep = (case str of None \<Rightarrow> Inr [] | Some s \<Rightarrow> split_rlist_loop s sep 0)"

text \<open>\<open>BlockTextMatch\<close> is a parameter: the start and the end of the first match.\<close>

function split_regex_loop :: "(string \<Rightarrow> (nat \<times> nat) option) \<Rightarrow> nat \<Rightarrow> bool \<Rightarrow> bool \<Rightarrow> nat \<Rightarrow> string \<Rightarrow> rval list res" where
  "split_regex_loop match_re limit blanks moved copied sp =
     (let rest =
        (if copied < limit
         then (let node = take (CF_MAXVARSIZE - 1) sp in
               if (blanks \<and> moved) \<or> node \<noteq> [] then [Scalar node] else [])
         else [])
      in case (if copied < limit then match_re sp else None) of
           None \<Rightarrow> Inr rest
         | Some (start, end1) \<Rightarrow>
             if end1 = 0 then Inr rest
             else if end1 > length sp \<or> start \<ge> CF_MAXVARSIZE then Inl OutOfBounds
             else let node = take start sp in
               if blanks \<or> node \<noteq> []
               then res_bind (split_regex_loop match_re limit blanks True (copied + 1) (drop end1 sp)) (\<lambda>l. Inr (Scalar node # l))
               else split_regex_loop match_re limit blanks True copied (drop end1 sp))"
  by pat_completeness auto
termination by (relation "measure (\<lambda>(m, mx, b, mv, n, sp). length sp)") (auto split: if_splits)

declare split_regex_loop.simps [simp del]

definition SplitRegexAsRList :: "(string \<Rightarrow> string \<Rightarrow> (nat \<times> nat) option) \<Rightarrow> string option \<Rightarrow> string \<Rightarrow> nat \<Rightarrow> bool \<Rightarrow> rval list res" where
  "SplitRegexAsRList block_match str regex limit blanks = (case str of
     None \<Rightarrow> Inr []
   | Some s \<Rightarrow> split_regex_loop (block_match regex) limit blanks False 0 s)"

text \<open>
  The format \<open>%*[{ '"]%255[^'"]\<close>: an item that does not have the form leaves \<open>value\<close> as it was; at first it is not
  initialised.
\<close>

definition scan_shown :: "string option \<Rightarrow> string \<Rightarrow> string option" where
  "scan_shown value item =
     (let rest = dropWhile (\<lambda>c. c \<in> set [CHR ''{'', CHR '' '', CHR 0x27, CHR 0x22]) item;
          v = take 255 (takeWhile (\<lambda>c. c \<noteq> CHR 0x27 \<and> c \<noteq> CHR 0x22) rest)
      in if rest = item \<or> v = [] then value else Some v)"

fun parse_shown_loop :: "string option \<Rightarrow> rval list \<Rightarrow> rval list res" where
  "parse_shown_loop value [] = Inr []"
| "parse_shown_loop value (rp # l) =
     (case scan_shown value (scalar_text rp) of
        None \<Rightarrow> Inl Uninitialised
      | Some v \<Rightarrow> res_bind (parse_shown_loop (Some v) l) (\<lambda>l'. Inr (Scalar v # l')))"

definition ParseShownRlist :: "string \<Rightarrow> rval list res" where
  "ParseShownRlist str = res_bind (SplitStringAsRList (Some str) CHR '','') (parse_shown_loop None)"

section \<open>Printing\<close>

text \<open>\<open>ShowRval\<close>, \<open>ShowRlist\<close> and \<open>ShowFnCall\<close> print to a stream.\<close>

fun ShowRval :: "rval \<Rightarrow> string"
  and ShowFnCall :: "string \<Rightarrow> rval list \<Rightarrow> string"
  and show_arg :: "rval \<Rightarrow> string" where
  "ShowRval (Scalar s) = EscapeQuotes s (int CF_BUFSIZE)"
| "ShowRval (ListVal l) = '' {'' @ join_with '','' (map (\<lambda>v. [CHR 0x27] @ ShowRval v @ [CHR 0x27]) l) @ ''}''"
| "ShowRval (Call f args) = ShowFnCall f args"
| "ShowRval NoScalar = []"
| "ShowRval NoPromisee = []"
| "ShowFnCall fname args = fname @ ''('' @ concat (map show_arg args) @ '')''"
| "show_arg (Scalar s) = s @ '',''"
| "show_arg (Call f args) = ShowFnCall f args"
| "show_arg (ListVal l) = ''(** Unknown argument **)'' @ [CHR 0x0A]"
| "show_arg NoScalar = ''(** Unknown argument **)'' @ [CHR 0x0A]"
| "show_arg NoPromisee = ''(** Unknown argument **)'' @ [CHR 0x0A]"

definition ShowRlist :: "rval list \<Rightarrow> string" where
  "ShowRlist list = '' {'' @ join_with '','' (map (\<lambda>v. [CHR 0x27] @ ShowRval v @ [CHR 0x27]) list) @ ''}''"

text \<open>
  \<open>RvalPrint\<close> escapes into a buffer of twice the length; \<open>EscapeQuotes\<close> counts two for a character.  \<open>FnCallPrint\<close> leaves
  out the name of the function.
\<close>

fun RvalPrint :: "rval \<Rightarrow> string"
  and FnCallPrint :: "rval list \<Rightarrow> string"
  and print_arg :: "rval \<Rightarrow> string" where
  "RvalPrint (Scalar s) = EscapeQuotes s (2 * int (length s) + 1)"
| "RvalPrint (ListVal l) = '' {'' @ join_with '','' (map (\<lambda>v. [CHR 0x27] @ RvalPrint v @ [CHR 0x27]) l) @ ''}''"
| "RvalPrint (Call f args) = FnCallPrint args"
| "RvalPrint NoScalar = []"
| "RvalPrint NoPromisee = []"
| "FnCallPrint args = concat (map print_arg args)"
| "print_arg (Scalar s) = s @ '',''"
| "print_arg (Call f args) = FnCallPrint args"
| "print_arg (ListVal l) = ''(** Unknown argument **)'' @ [CHR 0x0A]"
| "print_arg NoScalar = ''(** Unknown argument **)'' @ [CHR 0x0A]"
| "print_arg NoPromisee = ''(** Unknown argument **)'' @ [CHR 0x0A]"

definition RlistPrint :: "rval list \<Rightarrow> string" where
  "RlistPrint list = '' {'' @ join_with '','' (map (\<lambda>v. [CHR 0x27] @ RvalPrint v @ [CHR 0x27]) list) @ ''}''"

text \<open>
  Printing into a buffer.  \<open>PrintFnCall\<close> and the \<open>StartJoin\<close> of an inner list write from the start of the buffer, over what an
  outer list has put there.
\<close>

definition join_or :: "string \<Rightarrow> int \<Rightarrow> (bool \<times> string) res \<Rightarrow> (string \<Rightarrow> (bool \<times> string) res) \<Rightarrow> (bool \<times> string) res" where
  "join_or tail bufsize r k = res_bind r (\<lambda>(ok, b).
     if ok then k b else res_bind (EndJoin b tail bufsize) (\<lambda>(_, b'). Inr (False, b')))"

definition strcat_bounded :: "string \<Rightarrow> string \<Rightarrow> int \<Rightarrow> string res" where
  "strcat_bounded b t bufsize = (if int (length b + length t) \<ge> bufsize then Inl OutOfBounds else Inr (b @ t))"

lemma join_or_cong [fundef_cong]:
  "r = r' \<Longrightarrow> (\<And>b. r' = Inr (True, b) \<Longrightarrow> k b = k' b) \<Longrightarrow> join_or tail bufsize r k = join_or tail bufsize r' k'"
  by (cases r') (auto simp: join_or_def)

fun PrintRval :: "int \<Rightarrow> string \<Rightarrow> rval \<Rightarrow> (bool \<times> string) res"
  and print_rlist_loop :: "int \<Rightarrow> string \<Rightarrow> rval list \<Rightarrow> (bool \<times> string) res"
  and print_fncall_loop :: "int \<Rightarrow> string \<Rightarrow> rval list \<Rightarrow> string res" where
  "PrintRval bufsize buffer (Scalar s) = JoinSilent buffer s bufsize"
| "PrintRval bufsize buffer (ListVal l) =
     (if l = [] then Inr (False, buffer)
      else res_bind (StartJoin ''{'' bufsize) (\<lambda>(_, b). print_rlist_loop bufsize b l))"
| "PrintRval bufsize buffer (Call f args) =
     res_bind (print_fncall_loop bufsize (take (nat (bufsize - 1)) (f @ ''('')) args) (\<lambda>b. Inr (True, b))"
| "PrintRval bufsize buffer NoScalar = Inr (False, buffer)"
| "PrintRval bufsize buffer NoPromisee = Inr (False, buffer)"
| "print_rlist_loop bufsize buffer [] = res_bind (EndJoin buffer ''}'' bufsize) (\<lambda>(_, b). Inr (True, b))"
| "print_rlist_loop bufsize buffer (v # l) =
     (let q = [CHR 0x27]; qb = q @ ''}'' in
      join_or qb bufsize (JoinSilent buffer q bufsize) (\<lambda>b1.
      join_or qb bufsize (PrintRval bufsize b1 v) (\<lambda>b2.
      join_or qb bufsize (JoinSilent b2 q bufsize) (\<lambda>b3.
        if l \<noteq> []
        then join_or ''}'' bufsize (JoinSilent b3 '','' bufsize) (\<lambda>b4. print_rlist_loop bufsize b4 l)
        else print_rlist_loop bufsize b3 l))))"
| "print_fncall_loop bufsize buffer [] = strcat_bounded buffer '')'' bufsize"
| "print_fncall_loop bufsize buffer (v # l) =
     res_bind (case v of
        Scalar s \<Rightarrow> res_bind (Join buffer s bufsize) (\<lambda>(_, b). Inr b)
      | Call f args \<Rightarrow>
          res_bind (print_fncall_loop (int CF_MAXVARSIZE) (take (CF_MAXVARSIZE - 1) (f @ ''('')) args) (\<lambda>work.
            res_bind (Join buffer work bufsize) (\<lambda>(_, b). Inr b))
      | _ \<Rightarrow> Inr buffer) (\<lambda>b.
     res_bind (if l \<noteq> [] then strcat_bounded b '','' bufsize else Inr b) (\<lambda>b'.
       print_fncall_loop bufsize b' l))"

definition PrintRlist :: "int \<Rightarrow> rval list \<Rightarrow> (bool \<times> string) res" where
  "PrintRlist bufsize list = res_bind (StartJoin ''{'' bufsize) (\<lambda>(_, b). print_rlist_loop bufsize b list)"

definition PrintFnCall :: "int \<Rightarrow> string \<Rightarrow> rval list \<Rightarrow> string res" where
  "PrintFnCall bufsize fname args = print_fncall_loop bufsize (take (nat (bufsize - 1)) (fname @ ''('')) args"

section \<open>JSON\<close>

fun RvalToJson :: "rval \<Rightarrow> JsonElement res"
  and rlist_json_loop :: "JsonElement \<Rightarrow> rval list \<Rightarrow> JsonElement res"
  and fncall_json_loop :: "JsonElement \<Rightarrow> rval list \<Rightarrow> JsonElement res" where
  "RvalToJson (Scalar s) = JsonStringCreate (Some s)"
| "RvalToJson (ListVal l) = (if l = [] then Inl AssertionFailed else rlist_json_loop (JsonArrayCreate (length l)) l)"
| "RvalToJson (Call f args) =
     res_bind (JsonObjectAppendString (JsonObjectCreate 3) (Some ''name'') (Some f)) (\<lambda>o1.
     res_bind (JsonObjectAppendString o1 (Some ''type'') (Some ''function-call'')) (\<lambda>o2.
     res_bind (fncall_json_loop (JsonArrayCreate 5) args) (\<lambda>a.
       JsonObjectAppendArray o2 (Some ''arguments'') a)))"
| "RvalToJson NoScalar = Inl AssertionFailed"
| "RvalToJson NoPromisee = Inl AssertionFailed"
| "rlist_json_loop a [] = Inr a"
| "rlist_json_loop a (v # l) =
     res_bind (case v of
        Scalar s \<Rightarrow> JsonArrayAppendString a (Some s)
      | ListVal l' \<Rightarrow> res_bind (rlist_json_loop (JsonArrayCreate (length l')) l') (\<lambda>e. JsonArrayAppendArray a e)
      | Call f args \<Rightarrow> res_bind (RvalToJson v) (\<lambda>e. JsonArrayAppendObject a e)
      | _ \<Rightarrow> Inl AssertionFailed) (\<lambda>a'. rlist_json_loop a' l)"
| "fncall_json_loop a [] = Inr a"
| "fncall_json_loop a (v # l) =
     res_bind (case v of
        Scalar s \<Rightarrow> JsonArrayAppendString a (Some s)
      | Call f args \<Rightarrow> res_bind (RvalToJson v) (\<lambda>e. JsonArrayAppendObject a e)
      | _ \<Rightarrow> Inl AssertionFailed) (\<lambda>a'. fncall_json_loop a' l)"

definition RlistToJson :: "rval list \<Rightarrow> JsonElement res" where
  "RlistToJson list = rlist_json_loop (JsonArrayCreate (RlistLen list)) list"

definition FnCallToJson :: "string \<Rightarrow> rval list \<Rightarrow> JsonElement res" where
  "FnCallToJson f args = RvalToJson (Call f args)"

section \<open>Copies\<close>

text \<open>A flat value has no list inside a list or inside the arguments of a call.\<close>

fun flat_item :: "rval \<Rightarrow> bool" where
  "flat_item (Scalar s) = True"
| "flat_item (ListVal l) = False"
| "flat_item (Call f args) = list_all flat_item args"
| "flat_item NoScalar = False"
| "flat_item NoPromisee = False"

lemma appended_flat: "list_all flat_item (appended v)"
proof (induction v rule: appended.induct)
  case (2 l)
  then show ?case by (auto simp: list_all_iff)
next
  case (3 f args)
  then show ?case by (auto simp: list_all_iff)
qed auto

lemma concat_singletons: "(\<And>x. x \<in> set l \<Longrightarrow> f x = [x]) \<Longrightarrow> concat (map f l) = l"
  by (induction l) auto

lemma appended_of_flat: "flat_item v \<Longrightarrow> appended v = [v]"
proof (induction v rule: appended.induct)
  case (3 f args)
  then show ?case by (auto simp: list_all_iff intro!: concat_singletons)
qed auto

lemma foldl_AppendRlist: "foldl AppendRlist start l = start @ concat (map appended l)"
  by (induction l arbitrary: start) (auto simp: AppendRlist_def)

lemma CopyRlist_concat: "CopyRlist l = concat (map appended l)"
  by (simp add: CopyRlist_def foldl_AppendRlist)

lemma CopyRlist_of_flat: "list_all flat_item l \<Longrightarrow> CopyRlist l = l"
  by (auto simp: CopyRlist_concat list_all_iff intro!: concat_singletons appended_of_flat)

text \<open>every list that \<open>CopyRlist\<close> or \<open>AppendRlist\<close> builds is flat, and a flat list is copied as it is.\<close>

lemma CopyRlist_flat: "list_all flat_item (CopyRlist l) \<and> CopyRlist (CopyRlist l) = CopyRlist l \<and>
    CopyRlist (AppendRlist (CopyRlist l) v) = AppendRlist (CopyRlist l) v"
proof -
  have flat: "list_all flat_item (CopyRlist l)"
    using appended_flat by (auto simp: CopyRlist_concat list_all_iff)
  moreover have "list_all flat_item (AppendRlist (CopyRlist l) v)"
    using flat appended_flat by (simp add: AppendRlist_def)
  ultimately show ?thesis by (simp add: CopyRlist_of_flat)
qed

section \<open>Lists as sets\<close>

lemma scalar_items_append [simp]: "scalar_items (a @ b) = scalar_items a @ scalar_items b"
  by (simp add: scalar_items_def)

lemma scalar_items_simps [simp]:
  "scalar_items [] = []"
  "scalar_items (Scalar s # l) = s # scalar_items l"
  "scalar_items (Call f a # l) = scalar_items l"
  by (simp_all add: scalar_items_def)

lemma KeyInRlist_None: "KeyInRlist l key = None \<longleftrightarrow> key \<notin> set (scalar_items l)"
  by (induction l key rule: KeyInRlist.induct) (auto simp: scalar_items_def)

fun scalars_only :: "rval \<Rightarrow> bool" where
  "scalars_only (Scalar s) = True"
| "scalars_only (ListVal l) = list_all scalars_only l"
| "scalars_only v = False"

lemma scalars_only_appended: "scalars_only v \<Longrightarrow> list_all is_scalar (appended v)"
  by (induction v rule: appended.induct) (auto simp: is_scalar_def rtype_def list_all_iff)

lemma idemp_fold:
  assumes "\<And>st v. v \<in> set l \<Longrightarrow> distinct (scalar_items st) \<Longrightarrow>
     \<exists>r. IdempAppendRlist st v = Inr r \<and> distinct (scalar_items r) \<and>
        set (scalar_items r) = set (scalar_items st) \<union> set (scalar_items (appended v)) \<and> take (length st) r = st"
    and "distinct (scalar_items st)"
  shows "\<exists>r. foldl (\<lambda>r v. res_bind r (\<lambda>st. IdempAppendRlist st v)) (Inr st) l = Inr r \<and> distinct (scalar_items r) \<and>
        set (scalar_items r) = set (scalar_items st) \<union> set (scalar_items (concat (map appended l))) \<and> take (length st) r = st"
  using assms
proof (induction l arbitrary: st)
  case (Cons v l)
  from Cons.prems obtain r1 where r1: "IdempAppendRlist st v = Inr r1" "distinct (scalar_items r1)"
    "set (scalar_items r1) = set (scalar_items st) \<union> set (scalar_items (appended v))" "take (length st) r1 = st"
    by (metis list.set_intros(1))
  have "\<exists>r. foldl (\<lambda>r v. res_bind r (\<lambda>st. IdempAppendRlist st v)) (Inr r1) l = Inr r \<and> distinct (scalar_items r) \<and>
        set (scalar_items r) = set (scalar_items r1) \<union> set (scalar_items (concat (map appended l))) \<and> take (length r1) r = r1"
    using Cons.prems(1) r1(2) by (intro Cons.IH) auto
  then obtain r where r: "foldl (\<lambda>r v. res_bind r (\<lambda>st. IdempAppendRlist st v)) (Inr r1) l = Inr r" "distinct (scalar_items r)"
    "set (scalar_items r) = set (scalar_items r1) \<union> set (scalar_items (concat (map appended l)))" "take (length r1) r = r1" by blast
  from r1(4) have "length st \<le> length r1" by (metis length_take min.absorb_iff2 min.commute)
  with r(4) r1(4) have "take (length st) r = st" by (metis min.absorb2 min.commute take_take)
  with r r1 show ?case by (intro exI [of _ r]) auto
qed simp

text \<open>appending without repetition keeps the texts of a list distinct, keeps what was there, and adds the texts of the value.\<close>

lemma IdempAppendRlist_set:
  assumes "scalars_only v" "distinct (scalar_items start)"
  shows "\<exists>r. IdempAppendRlist start v = Inr r \<and> distinct (scalar_items r) \<and>
     set (scalar_items r) = set (scalar_items start) \<union> set (scalar_items (appended v)) \<and> take (length start) r = start"
  using assms
proof (induction v arbitrary: start)
  case (ListVal l)
  then show ?case using idemp_fold [of l start] by (simp add: list_all_iff)
qed (auto simp: KeyInRlist_None AppendRlist_def)

lemma IdempAppendRlist_set_witness:
  "IdempAppendRlist [Scalar ''a''] (ListVal [Scalar ''b'', Scalar ''a'', Scalar ''b'']) = Inr [Scalar ''a'', Scalar ''b''] \<and>
   distinct (scalar_items [Scalar ''a'', Scalar ''b''])"
  using IdempAppendRlist_set [of "ListVal [Scalar ''b'', Scalar ''a'', Scalar ''b'']" "[Scalar ''a'']"]
  by (simp add: AppendRlist_def)

section \<open>Splitting\<close>

lemma sub_copy_loop_plain:
  assumes "CHR 0x5C \<notin> set s"
  shows "sub_copy_loop n len sep s = take (len - n) (takeWhile (\<lambda>c. c \<noteq> sep) s)"
  using assms
proof (induction n len sep s rule: sub_copy_loop.induct)
  case (2 n len sep c)
  then show ?case by (cases "len - n") auto
next
  case (3 n len sep c d s)
  show ?case
  proof (cases "n < len")
    case True
    then have "len - n = Suc (len - (n + 1))" by simp
    with True 3 show ?thesis by (auto split: if_splits)
  next
    case False
    then show ?thesis by simp
  qed
qed auto

lemma SubStrnCopyChr_plain:
  assumes "CHR 0x5C \<notin> set s" "length (takeWhile (\<lambda>c. c \<noteq> sep) s) < len"
  shows "SubStrnCopyChr (Some s) len sep = Inr (takeWhile (\<lambda>c. c \<noteq> sep) s, length (takeWhile (\<lambda>c. c \<noteq> sep) s))"
  using assms by (simp add: SubStrnCopyChr_def sub_copy_loop_plain Let_def)

text \<open>The list drops an empty part at the end.\<close>

definition without_empty_end :: "string list \<Rightarrow> string list" where
  "without_empty_end ps = (if ps \<noteq> [] \<and> last ps = [] then butlast ps else ps)"

lemma split_rlist_loop_parts:
  assumes "CHR 0x5C \<notin> set (drop sp s)" "\<And>p. p \<in> set (split_at sep (drop sp s)) \<Longrightarrow> length p < CF_MAXVARSIZE"
  shows "split_rlist_loop s sep sp = Inr (map Scalar (without_empty_end (split_at sep (drop sp s))))"
  using assms
proof (induction s sep sp rule: split_rlist_loop.induct)
  case (1 s sep sp)
  show ?case
  proof (cases "sp \<ge> length s")
    case True
    then show ?thesis
      by (simp add: split_rlist_loop.simps [of s] split_at.simps [of sep "[]"] without_empty_end_def)
  next
    case False
    let ?r = "drop sp s"
    let ?node = "takeWhile (\<lambda>c. c \<noteq> sep) ?r"
    note bs = 1(2)
    show ?thesis
    proof (cases "length ?node < length ?r")
      case True
      have split: "split_at sep ?r = take (length ?node) ?r # split_at sep (drop (length ?node + 1) ?r)"
        using True by (simp add: split_at.simps [of sep ?r] Let_def)
      then have len: "length ?node < CF_MAXVARSIZE" using 1(3) True by (metis length_take list.set_intros(1) min.absorb4 takeWhile_eq_take)
      note sub = SubStrnCopyChr_plain [OF bs len]
      have "split_rlist_loop s sep (sp + length ?node + 1) =
          Inr (map Scalar (without_empty_end (split_at sep (drop (sp + length ?node + 1) s))))"
      proof (rule 1(1) [OF False sub refl])
        show "CHR 0x5C \<notin> set (drop (sp + length ?node + 1) s)"
          using bs by (metis (no_types, lifting) add.assoc add.commute drop_drop in_set_dropD)
        show "length p < CF_MAXVARSIZE" if "p \<in> set (split_at sep (drop (sp + length ?node + 1) s))" for p
          using that 1(3) split by (simp add: add.commute)
      qed
      moreover have "take (length ?node) ?r = ?node" by (metis takeWhile_eq_take)
      ultimately show ?thesis using False sub split
        by (simp add: split_rlist_loop.simps [of s sep sp] without_empty_end_def add.commute)
    next
      case nofind: False
      then have all: "?node = ?r" by (metis length_takeWhile_le nat_less_le takeWhile_eq_take take_all_iff not_less)
      have split: "split_at sep ?r = [?r]" using nofind by (simp add: split_at.simps [of sep ?r] Let_def)
      then have len: "length ?node < CF_MAXVARSIZE" using 1(3) [of ?r] unfolding all by simp
      note sub = SubStrnCopyChr_plain [OF bs len]
      have "sp + length ?node + 1 \<ge> length s" unfolding all by simp
      then have "split_rlist_loop s sep (sp + length ?node + 1) = Inr []"
        by (simp only: split_rlist_loop.simps [of s sep "sp + length ?node + 1"] if_True)
      then show ?thesis using False sub split all
        by (simp add: split_rlist_loop.simps [of s sep sp] without_empty_end_def)
    qed
  qed
qed

text \<open>without a backslash a text is split into the parts between the separators, but for an empty part at the end.\<close>

lemma SplitStringAsRList_parts:
  assumes "CHR 0x5C \<notin> set s" "list_all (\<lambda>p. length p < CF_MAXVARSIZE) (split_at sep s)"
  shows "SplitStringAsRList (Some s) sep = Inr (map Scalar (without_empty_end (split_at sep s)))"
  using split_rlist_loop_parts [where s = s and sp = 0] assms by (simp add: SplitStringAsRList_def list_all_iff)

lemma SplitStringAsRList_parts_witness:
  "SplitStringAsRList (Some ''a,,b,'') CHR '','' = Inr [Scalar ''a'', Scalar [], Scalar ''b'']"
proof -
  have parts: "split_at CHR '','' ''a,,b,'' = [''a'', [], ''b'', []]" by (simp add: split_at.simps Let_def)
  show ?thesis
    using SplitStringAsRList_parts [of "''a,,b,''" "CHR '',''"] unfolding parts
    by (simp add: without_empty_end_def CF_MAXVARSIZE_def)
qed

text \<open>A separator that a backslash protects is kept, but the position then lags behind, and an empty element follows.\<close>

lemma sub_copy_loop_step:
  "c \<noteq> sep \<Longrightarrow> c \<noteq> CHR 0x5C \<Longrightarrow> n < len \<Longrightarrow> sub_copy_loop n len sep (c # s) = c # sub_copy_loop (n + 1) len sep s"
  by (cases s) auto

lemma sub_copy_loop_append:
  assumes "CHR 0x5C \<notin> set a" "sep \<notin> set a" "n + length a \<le> len"
  shows "sub_copy_loop n len sep (a @ s) = a @ sub_copy_loop (n + length a) len sep s"
  using assms by (induction a arbitrary: n) (auto simp: sub_copy_loop_step)

lemma SplitStringAsRList_escaped:
  assumes plain: "CHR 0x5C \<notin> set (a @ b @ c)" "sep \<notin> set (a @ b @ c)" and sep: "sep \<noteq> CHR 0x5C" and c: "c \<noteq> []"
    and len: "length a + length b + 1 < CF_MAXVARSIZE" "length c < CF_MAXVARSIZE"
  shows "SplitStringAsRList (Some (a @ [CHR 0x5C, sep] @ b @ [sep] @ c)) sep =
    Inr [Scalar (a @ [sep] @ b), Scalar [], Scalar c]"
proof -
  let ?s = "a @ [CHR 0x5C, sep] @ b @ [sep] @ c"
  have b: "sub_copy_loop n CF_MAXVARSIZE sep (b @ sep # c) = b" if "n + length b < CF_MAXVARSIZE" for n
    using plain sep that by (subst sub_copy_loop_append) (cases c; simp)+
  have first: "SubStrnCopyChr (Some ?s) CF_MAXVARSIZE sep = Inr (a @ [sep] @ b, length a + length b + 1)"
    using plain len sep b [of "length a + 1"]
    by (simp add: SubStrnCopyChr_def sub_copy_loop_append [of a])
  have d: "drop (length a + length b + 2) ?s = sep # c" by simp
  have parts: "split_at sep (sep # c) = [[], c]"
    using split_at_unique [of "[[], c]" sep] plain by simp
  have "split_rlist_loop ?s sep (length a + length b + 2) = Inr (map Scalar (without_empty_end (split_at sep (sep # c))))"
    unfolding d [symmetric] using plain sep len parts d
    by (intro split_rlist_loop_parts) (auto simp: CF_MAXVARSIZE_def)
  then have "split_rlist_loop ?s sep (length a + length b + 1 + 1) = Inr [Scalar [], Scalar c]"
    using parts c by (simp add: without_empty_end_def)
  with first show ?thesis
    unfolding SplitStringAsRList_def by (subst split_rlist_loop.simps) simp
qed

lemma SplitStringAsRList_escaped_witness:
  "SplitStringAsRList (Some [CHR ''a'', CHR 0x5C, CHR '','', CHR ''b'', CHR '','', CHR ''c'']) CHR '','' =
    Inr [Scalar ''a,b'', Scalar [], Scalar ''c'']"
  using SplitStringAsRList_escaped [of "''a''" "''b''" "''c''" "CHR '',''"] by (simp add: CF_MAXVARSIZE_def)


section \<open>Printing and reading\<close>

text \<open>The texts that survive printing: no quote, comma or backslash, and no blank or brace at the start.\<close>

definition shown_plain :: "string \<Rightarrow> bool" where
  "shown_plain t \<longleftrightarrow> t \<noteq> [] \<and> length t \<le> 255 \<and> hd t \<noteq> CHR '' '' \<and> hd t \<noteq> CHR ''{'' \<and>
     list_all (\<lambda>c. c \<notin> set [CHR 0x27, CHR 0x22, CHR 0x5C, CHR '','']) t"

lemma escape_loop_none:
  assumes "list_all (\<lambda>c. esc c = None) s" "i + 2 * int (length s) < outSz"
  shows "escape_loop esc step i outSz s = s"
  using assms by (induction s arbitrary: i) auto

lemma EscapeQuotes_plain: "shown_plain t \<Longrightarrow> EscapeQuotes t (2 * int (length t) + 1) = t"
  unfolding EscapeQuotes_def
  by (rule escape_loop_none) (auto simp: shown_plain_def quote_escape_def list_all_iff)

lemma takeWhile_to: "list_all P t \<Longrightarrow> \<not> P c \<Longrightarrow> takeWhile P (t @ c # s) = t"
  by (induction t) auto

lemma dropWhile_to: "list_all P q \<Longrightarrow> t \<noteq> [] \<Longrightarrow> \<not> P (hd t) \<Longrightarrow> dropWhile P (q @ t @ r) = t @ r"
  by (induction q) (auto simp: neq_Nil_conv)

lemma scan_shown_item:
  assumes "shown_plain t" "pre \<in> set [[], '' {'']" "post \<in> set [[], ''}'']"
  shows "scan_shown v (pre @ [CHR 0x27] @ t @ [CHR 0x27] @ post) = Some t"
proof -
  let ?S = "\<lambda>c. c \<in> set [CHR ''{'', CHR '' '', CHR 0x27, CHR 0x22]"
  let ?item = "pre @ [CHR 0x27] @ t @ [CHR 0x27] @ post"
  have t: "t \<noteq> []" "length t \<le> 255" "\<not> ?S (hd t)"
    using assms(1) by (cases t; auto simp: shown_plain_def)+
  have "list_all ?S (pre @ [CHR 0x27])" using assms(2) by auto
  from dropWhile_to [OF this t(1) t(3), of "CHR 0x27 # post"]
  have rest: "dropWhile ?S ?item = t @ CHR 0x27 # post" by simp
  have "takeWhile (\<lambda>c. c \<noteq> CHR 0x27 \<and> c \<noteq> CHR 0x22) (t @ CHR 0x27 # post) = t"
    using assms(1) by (intro takeWhile_to) (auto simp: shown_plain_def elim: list.pred_mono_strong)
  moreover have "t @ CHR 0x27 # post \<noteq> ?item"
  proof
    assume "t @ CHR 0x27 # post = ?item"
    then have "length (t @ CHR 0x27 # post) = length ?item" by (rule arg_cong)
    then show False by simp
  qed
  ultimately show ?thesis unfolding scan_shown_def rest Let_def using t by simp
qed

fun shown_items :: "string \<Rightarrow> string list \<Rightarrow> string list" where
  "shown_items pre [] = []"
| "shown_items pre [t] = [pre @ [CHR 0x27] @ t @ [CHR 0x27] @ ''}'']"
| "shown_items pre (t # u # ts) = (pre @ [CHR 0x27] @ t @ [CHR 0x27]) # shown_items [] (u # ts)"

lemma shown_items_join:
  "ts \<noteq> [] \<Longrightarrow> join_with '','' (shown_items pre ts) = pre @ join_with '','' (map (\<lambda>t. [CHR 0x27] @ t @ [CHR 0x27]) ts) @ ''}''"
proof (induction pre ts rule: shown_items.induct)
  case (3 pre t u ts)
  have "shown_items [] (u # ts) \<noteq> []" by (cases ts) auto
  with 3 show ?case by (simp add: join_with_Cons)
qed auto

definition plain_part :: "string \<Rightarrow> bool" where
  "plain_part p \<longleftrightarrow> CHR '','' \<notin> set p \<and> CHR 0x5C \<notin> set p \<and> length p < CF_MAXVARSIZE \<and> p \<noteq> []"

lemma plain_part_item:
  assumes "shown_plain t" "pre = [] \<or> pre = '' {''" "post = [] \<or> post = ''}''"
  shows "plain_part (pre @ CHR 0x27 # t @ CHR 0x27 # post)"
proof -
  have "CHR '','' \<notin> set t" "CHR 0x5C \<notin> set t" "length t \<le> 255"
    using assms(1) by (auto simp: shown_plain_def list_all_iff)
  moreover have "CHR '','' \<notin> set pre \<and> CHR 0x5C \<notin> set pre \<and> length pre \<le> 2" using assms(2) by (elim disjE) simp_all
  moreover have "CHR '','' \<notin> set post \<and> CHR 0x5C \<notin> set post \<and> length post \<le> 2" using assms(3) by (elim disjE) simp_all
  ultimately show ?thesis by (simp add: plain_part_def CF_MAXVARSIZE_def)
qed

lemma shown_items_parts:
  assumes "list_all shown_plain ts" "pre = [] \<or> pre = '' {''"
  shows "list_all plain_part (shown_items pre ts)"
  using assms
proof (induction pre ts rule: shown_items.induct)
  case (2 pre t)
  then show ?case using plain_part_item [of t pre "''}''"] by simp
next
  case (3 pre t u ts)
  then show ?case using plain_part_item [of t pre "[]"] by simp
qed simp

lemma shown_items_part:
  assumes "p \<in> set (shown_items pre ts)" "list_all shown_plain ts" "pre = [] \<or> pre = '' {''"
  shows "CHR '','' \<notin> set p \<and> CHR 0x5C \<notin> set p \<and> length p < CF_MAXVARSIZE \<and> p \<noteq> []"
  using shown_items_parts [OF assms(2,3)] assms(1) by (auto simp: list_all_iff plain_part_def)

lemma parse_shown_loop_items:
  assumes "list_all shown_plain ts" "pre \<in> set [[], '' {'']"
  shows "parse_shown_loop v (map Scalar (shown_items pre ts)) = Inr (map Scalar ts)"
  using assms
proof (induction pre ts arbitrary: v rule: shown_items.induct)
  case (2 pre t)
  then show ?case using scan_shown_item [of t pre "''}''" v] by (simp add: scalar_text_def)
next
  case (3 pre t u ts)
  then show ?case using scan_shown_item [of t pre "[]" v] by (simp add: scalar_text_def)
qed simp

lemma join_with_set: "set (join_with sep ps) \<subseteq> set sep \<union> \<Union> (set ` set ps)"
  by (induction sep ps rule: join_with.induct) auto

text \<open>C39: the printed form of a list of plain texts reads back as the list.\<close>

lemma ParseShownRlist_RlistPrint:
  assumes "list_all shown_plain ts" "ts \<noteq> []"
  shows "ParseShownRlist (RlistPrint (map Scalar ts)) = Inr (map Scalar ts)"
proof -
  let ?items = "shown_items '' {'' ts"
  have pre: "'' {'' \<in> set [[], '' {'']" by simp
  have items: "?items \<noteq> []" using assms(2) by (cases "('' {'', ts)" rule: shown_items.cases) auto
  have part: "CHR '','' \<notin> set p \<and> CHR 0x5C \<notin> set p \<and> length p < CF_MAXVARSIZE \<and> p \<noteq> []" if "p \<in> set ?items" for p
    by (rule shown_items_part [OF that assms(1)]) simp
  have quoted: "map (\<lambda>v. [CHR 0x27] @ RvalPrint v @ [CHR 0x27]) (map Scalar ts) = map (\<lambda>t. [CHR 0x27] @ t @ [CHR 0x27]) ts"
    using assms(1) by (simp add: list_all_iff EscapeQuotes_plain)
  have shown: "RlistPrint (map Scalar ts) = join_with '','' ?items"
    unfolding RlistPrint_def quoted shown_items_join [OF assms(2)] by simp
  have split: "split_at CHR '','' (join_with '','' ?items) = ?items"
    using part by (intro split_at_unique [OF items]) (auto simp: list_all_iff)
  have bs: "CHR 0x5C \<notin> set (join_with '','' ?items)"
    using join_with_set [of "'',''" ?items] part by fastforce
  have short: "list_all (\<lambda>p. length p < CF_MAXVARSIZE) (split_at CHR '','' (join_with '','' ?items))"
    unfolding split list_all_iff using part by blast
  have "last ?items \<noteq> []" using part items by (meson last_in_set)
  with SplitStringAsRList_parts [OF bs short] have "SplitStringAsRList (Some (RlistPrint (map Scalar ts))) CHR '','' = Inr (map Scalar ?items)"
    by (simp add: shown split without_empty_end_def)
  then show ?thesis using parse_shown_loop_items [OF assms(1) pre, of None]
    by (simp add: ParseShownRlist_def)
qed

lemma ParseShownRlist_RlistPrint_witness:
  "ParseShownRlist (RlistPrint [Scalar ''b c'', Scalar ''d'']) = Inr [Scalar ''b c'', Scalar ''d'']"
  using ParseShownRlist_RlistPrint [of "[''b c'', ''d'']"] by (simp add: shown_plain_def)

text \<open>The empty list does not: it reads back as one brace.\<close>

lemma ParseShownRlist_empty: "ParseShownRlist (RlistPrint []) = Inr [Scalar ''}'']"
  using SplitStringAsRList_parts [of "'' {}''" "CHR '',''"]
  by (simp add: RlistPrint_def ParseShownRlist_def split_at.simps without_empty_end_def CF_MAXVARSIZE_def scan_shown_def scalar_text_def)

text \<open>Escaping a quote takes the room of two characters of the buffer, so that a text with a quote before its end is cut.\<close>

definition quotes_in :: "string \<Rightarrow> nat" where
  "quotes_in s = length (filter (\<lambda>c. c = CHR 0x27 \<or> c = CHR 0x22) s)"

lemma escape_all_length: "length (escape_all quote_escape s) = length s + quotes_in s"
  by (induction s) (auto simp: escape_all_def quote_escape_def quotes_in_def)

lemma escape_loop_room:
  "i + 2 * int (length s) + 2 * int (quotes_in s) < outSz \<Longrightarrow> escape_loop quote_escape 4 i outSz s = escape_all quote_escape s"
  by (induction s arbitrary: i) (auto simp: escape_all_def quote_escape_def quotes_in_def)


text \<open>\<open>RvalPrint\<close> escapes the whole of a text only when no quote stands before its last character; else the text is cut.\<close>

lemma escape_loop_cut:
  assumes "outSz - 2 \<le> i + 2 * int (length s) + 2 * int (quotes_in s)"
  shows "length (escape_loop quote_escape 4 i outSz (s @ c # t)) \<le> length s + quotes_in s"
  using assms
proof (induction s arbitrary: i)
  case (Cons d s)
  then show ?case by (auto simp: quote_escape_def quotes_in_def)
qed (simp add: quotes_in_def)

lemma RvalPrint_escapes:
  "(RvalPrint (Scalar s) = escape_all quote_escape s) = (quotes_in (butlast s) = 0)"
proof (cases s rule: rev_cases)
  case (snoc t c)
  have len: "length (escape_all quote_escape s) = length t + quotes_in t + 1 + quotes_in [c]"
    using snoc by (simp add: escape_all_length) (simp add: quotes_in_def)
  show ?thesis
  proof (cases "quotes_in t = 0")
    case True
    have "escape_loop quote_escape 4 i outSz (t @ [c]) = escape_all quote_escape (t @ [c])"
      if "i + 2 * int (length t) < outSz - 2" for i outSz
      using that True by (induction t arbitrary: i) (auto simp: escape_all_def quote_escape_def quotes_in_def split: if_splits)
    from this [of 0 "2 * int (length s) + 1"] True snoc show ?thesis by (simp add: EscapeQuotes_def)
  next
    case False
    then have "length (RvalPrint (Scalar s)) \<le> length t + quotes_in t"
      using escape_loop_cut [of "2 * int (length s) + 1" 0 t c "[]"] snoc by (simp add: EscapeQuotes_def)
    with len False snoc show ?thesis by auto
  qed
qed (simp add: EscapeQuotes_def escape_all_def quotes_in_def)

text \<open>printing a list with two long texts writes behind the buffer: \<open>JoinSilent\<close> adds a whole buffer's worth to what is there.\<close>

lemma PrintRlist_overflows:
  assumes "int (length s) + 2 \<le> bufsize - int CF_BUFFERMARGIN - 3" "int (length t) \<le> bufsize - int CF_BUFFERMARGIN"
    "bufsize \<le> int (length s) + int (length t) + 5"
  shows "PrintRlist bufsize [Scalar s, Scalar t] = Inl OutOfBounds"
proof -
  have "bufsize - int CF_BUFFERMARGIN \<ge> 0" using assms(2) by simp
  with assms show ?thesis
    by (simp add: PrintRlist_def StartJoin_def JoinMargin_def JoinSilent_def join_or_def CF_BUFFERMARGIN_def)
qed

lemma PrintRlist_overflows_witness:
  "PrintRlist 4096 [Scalar (replicate 3000 CHR ''a''), Scalar (replicate 3000 CHR ''b'')] = Inl OutOfBounds"
  by (rule PrintRlist_overflows) (simp_all add: CF_BUFFERMARGIN_def)

end
