(* ===== verification/CF_Variables.thy ===== *)
theory CF_Variables
  imports CF_Rlist CF_Hashes
begin

text \<open>
  \<open>src/scope.c\<close>, \<open>src/vars.c\<close> and the expansion part of \<open>src/expand.c\<close>: scopes of variables, and texts in which the
  references \<open>$(name)\<close> are replaced by values.  The list of scopes is the global \<open>VSCOPE\<close>, each with an association table;
  a pointer to a scope is the number \<open>scope_ptr\<close> that \<open>NewScope\<close> gives it.  The code is that of the agent: the check of
  \<open>cf-promises\<close> for embedded lists (\<open>THIS_AGENT_TYPE\<close> is \<open>cf_common\<close>) is left out.

  Looking up a variable and expanding a text call each other, and may do so for ever; they take the depth of calls as
  fuel.
\<close>

section \<open>Scopes\<close>

record Scope =
  scope_ptr :: nat
  scope_name :: string
  hashtable :: "(rval, cfdatatype) AssocHashTable"

record var_state =
  VSCOPE :: "Scope list"
  CONTEXTID :: string
  CF_STCK :: "nat list"
  CF_STCKFRAME :: nat
  next_ptr :: nat

definition GetScope :: "var_state \<Rightarrow> string \<Rightarrow> Scope option" where
  "GetScope st scope =
     (let nm = (if starts_with ''default:'' scope then drop (length ''default:'') scope else scope) in
      List.find (\<lambda>cp. strcmp (scope_name cp) nm = 0) (VSCOPE st))"

definition SetScope :: "var_state \<Rightarrow> string \<Rightarrow> var_state" where
  "SetScope st id' = st\<lparr>CONTEXTID := take (CF_MAXVARSIZE - 1) id'\<rparr>"

definition NewScope :: "var_state \<Rightarrow> string \<Rightarrow> var_state" where
  "NewScope st nm =
     (if list_ex (\<lambda>cp. strcmp (scope_name cp) nm = 0) (VSCOPE st) then st
      else st\<lparr>VSCOPE := \<lparr>scope_ptr = next_ptr st, scope_name = nm, hashtable = HashInit\<rparr> # VSCOPE st,
              next_ptr := next_ptr st + 1\<rparr>)"

definition SetNewScope :: "var_state \<Rightarrow> string \<Rightarrow> var_state" where
  "SetNewScope st id' = SetScope (NewScope st id') id'"

fun remove_scope :: "string \<Rightarrow> Scope list \<Rightarrow> Scope list" where
  "remove_scope nm [] = []"
| "remove_scope nm (cp # cs) = (if strcmp (scope_name cp) nm = 0 then cs else cp # remove_scope nm cs)"

definition DeleteScope :: "var_state \<Rightarrow> string \<Rightarrow> var_state" where
  "DeleteScope st nm = st\<lparr>VSCOPE := remove_scope nm (VSCOPE st)\<rparr>"

definition DeleteAllScope :: "var_state \<Rightarrow> var_state" where
  "DeleteAllScope st = st\<lparr>VSCOPE := []\<rparr>"

text \<open>A write through a pointer to a scope.\<close>

definition at_scope :: "nat \<Rightarrow> (Scope \<Rightarrow> Scope) \<Rightarrow> var_state \<Rightarrow> var_state" where
  "at_scope ptr f st = st\<lparr>VSCOPE := map (\<lambda>cp. if scope_ptr cp = ptr then f cp else cp) (VSCOPE st)\<rparr>"

definition set_table :: "nat \<Rightarrow> (rval, cfdatatype) AssocHashTable \<Rightarrow> var_state \<Rightarrow> var_state" where
  "set_table ptr t st = at_scope ptr (\<lambda>cp. cp\<lparr>hashtable := t\<rparr>) st"

text \<open>The scope of the iteration is put aside under another name, and found again by its pointer.\<close>

definition PushThisScope :: "var_state \<Rightarrow> var_state" where
  "PushThisScope st = (case GetScope st ''this'' of
     None \<Rightarrow> st
   | Some op1 \<Rightarrow>
       let frame = CF_STCKFRAME st + 1;
           nm = take (CF_MAXVARSIZE - 1) (''this_'' @ show_nat frame)
       in at_scope (scope_ptr op1) (\<lambda>cp. cp\<lparr>scope_name := nm\<rparr>)
            (st\<lparr>CF_STCKFRAME := frame, CF_STCK := PushStack (CF_STCK st) (scope_ptr op1)\<rparr>))"

definition PopThisScope :: "var_state \<Rightarrow> var_state res" where
  "PopThisScope st =
     (if CF_STCKFRAME st > 0 then
        let st1 = DeleteScope st ''this'' in
        res_bind (PopStack (CF_STCK st1)) (\<lambda>(ptr, stck).
          if list_ex (\<lambda>cp. scope_ptr cp = ptr) (VSCOPE st1)
          then Inr (at_scope ptr (\<lambda>cp. cp\<lparr>scope_name := ''this''\<rparr>) (st1\<lparr>CF_STCK := stck, CF_STCKFRAME := CF_STCKFRAME st1 - 1\<rparr>))
          else Inl UseAfterFree)
      else Inr st)"

section \<open>Lookup and expansion\<close>

text \<open>
  One turn of the loop of \<open>ExpandPrivateScalar\<close> adds the text up to a dollar, and then the value of the reference there, or
  the reference as it is.  \<open>expand\<close> and \<open>lookup\<close> are the recursive calls.
\<close>

definition ExpandOverflow :: "string \<Rightarrow> string \<Rightarrow> bool" where
  "ExpandOverflow str1 str2 \<longleftrightarrow> length str1 + length str2 > CF_EXPANDSIZE - CF_BUFFERMARGIN"

definition strlcat :: "string \<Rightarrow> string \<Rightarrow> nat \<Rightarrow> string" where
  "strlcat dst src bufsize = dst @ take (bufsize - 1 - length dst) src"

text \<open>The values a reference adds to the buffer; \<open>Inr None\<close> stands for the early return of an unknown type.\<close>

definition add_value :: "string \<Rightarrow> char \<Rightarrow> string \<Rightarrow> cfdatatype \<times> rval \<Rightarrow> (string \<times> bool) option res" where
  "add_value buffer varstring currentitem v = (case v of (dt, item) \<Rightarrow>
     if dt \<in> set [cf_str, cf_int, cf_real] then
       (case item of
          Scalar s \<Rightarrow> if ExpandOverflow buffer s then Inl FatalErrorExit else Inr (Some (strlcat buffer s CF_EXPANDSIZE, True))
        | NoScalar \<Rightarrow> Inl NullDereference
        | _ \<Rightarrow> Inl OutOfBounds)
     else if dt \<in> set [cf_slist, cf_ilist, cf_rlist, cf_notype] then
       let nm = take (CF_MAXVARSIZE - 1)
                  (if varstring = CHR ''}'' then ''${'' @ currentitem @ ''}'' else ''$('' @ currentitem @ '')'')
       in Inr (Some (strlcat buffer nm CF_EXPANDSIZE, False))
     else Inr None)"

function expand_loop :: "(string \<Rightarrow> (bool \<times> string) run) \<Rightarrow> (string \<Rightarrow> (cfdatatype \<times> rval) run) \<Rightarrow> string \<Rightarrow> bool \<Rightarrow> string \<Rightarrow>
    (bool \<times> string) run" where
  "expand_loop expand lookup buffer complete sp =
     (if sp = [] then ret (complete, buffer)
      else
        let plain = takeWhile (\<lambda>c. c \<noteq> CHR ''$'') sp;
            sp1 = dropWhile (\<lambda>c. c \<noteq> CHR ''$'') sp
        in if length plain \<ge> CF_EXPANDSIZE then Some (Inl OutOfBounds)
           else if ExpandOverflow buffer plain then Some (Inl FatalErrorExit)
           else
             let buffer1 = strlcat buffer plain CF_EXPANDSIZE in
             if sp1 = [] then ret (complete, buffer1)
             else if \<not> is_open (char_at sp1 1)
             then expand_loop expand lookup (strlcat buffer1 ''$'' CF_EXPANDSIZE) complete (tl sp1)
             else run_bind (Some (ExtractOuterCf3VarString sp1)) (\<lambda>(_, var).
               if var = []
               then expand_loop expand lookup (strlcat buffer1 ''$'' CF_EXPANDSIZE) complete (tl sp1)
               else
                 let varstring = (if char_at sp1 1 = CHR ''('' then CHR '')'' else CHR ''}'') in
                 run_bind (Some (ExtractInnerCf3VarString (Some sp1))) (\<lambda>(_, temp).
                 run_bind (if IsCf3VarString (Some temp) > 0
                           then run_bind (expand temp) (\<lambda>(_, item). ret item)
                           else ret (take (CF_BUFSIZE - 1) temp)) (\<lambda>currentitem.
                 run_bind (lookup currentitem) (\<lambda>v.
                 run_bind (Some (add_value buffer1 varstring currentitem v)) (\<lambda>added.
                   case added of
                     None \<Rightarrow> ret (False, buffer1)
                   | Some (buffer2, ok) \<Rightarrow>
                       expand_loop expand lookup buffer2 (complete \<and> ok) (drop (length var) sp1)))))))"
  by pat_completeness auto
termination
proof (relation "measure (\<lambda>(e, l, b, c, sp). length sp)", goal_cases)
  case (2 e l b c sp)
  then show ?case by (metis (no_types, lifting) case_prod_conv diff_less in_measure length_dropWhile_le length_greater_0_conv
      length_tl less_numeral_extra(1) order_less_le_trans)
next
  case (3 e l b c sp)
  then show ?case by (metis (no_types, lifting) case_prod_conv diff_less in_measure length_dropWhile_le length_greater_0_conv
      length_tl less_numeral_extra(1) order_less_le_trans)
next
  case (4 e l b c sp)
  then have "length (dropWhile (\<lambda>c. c \<noteq> CHR ''$'') sp) > 0" by auto
  with 4 show ?case
    by (metis (no_types, lifting) case_prod_conv diff_less in_measure length_drop length_dropWhile_le length_greater_0_conv
      order_less_le_trans)
qed simp

declare expand_loop.simps [simp del]

text \<open>
  \<open>GetVariable\<close>: a name with references is expanded first, in the current context.  The name after the expansion is used
  only for a name with a scope in front: else \<open>strcpy(vlval, lval)\<close> takes the name as it was given.
\<close>

definition scan_scope :: "string \<Rightarrow> string \<times> string option" where
  "scan_scope sval =
     (let scope = takeWhile (\<lambda>c. c \<noteq> CHR ''.'') sval;
          rest = dropWhile c_isspace (drop (length scope + 1) sval);
          v = takeWhile (\<lambda>c. \<not> c_isspace c) rest
      in if scope = [] \<or> v = [] then (scope, None) else (scope, Some v))"

definition lookup_in :: "var_state \<Rightarrow> string \<Rightarrow> string \<Rightarrow> string \<Rightarrow> (cfdatatype \<times> rval) res" where
  "lookup_in st scope lv sval =
     (let (scopeid, vlval) = (if IsQualifiedVariable sval then scan_scope sval else (take (CF_MAXVARSIZE - 1) scope, Some sval));
          ptr = (if IsQualifiedVariable sval then GetScope st scopeid else None)
      in case ptr of
           Some p \<Rightarrow> (case vlval of
              None \<Rightarrow> Inl Uninitialised
            | Some v \<Rightarrow> (case HashLookupElement (hashtable p) v of
                 None \<Rightarrow> Inr (cf_notype, Scalar lv)
               | Some a \<Rightarrow> Inr (dtype a, CfAssoc.rval a)))
         | None \<Rightarrow>
             if length lv \<ge> CF_MAXVARSIZE then Inl OutOfBounds
             else (case GetScope st scopeid of
                None \<Rightarrow> Inr (cf_notype, Scalar lv)
              | Some p \<Rightarrow> (case HashLookupElement (hashtable p) lv of
                   None \<Rightarrow> Inr (cf_notype, Scalar lv)
                 | Some a \<Rightarrow> Inr (dtype a, CfAssoc.rval a))))"

fun GetVariable :: "nat \<Rightarrow> var_state \<Rightarrow> string \<Rightarrow> string \<Rightarrow> (cfdatatype \<times> rval) run"
  and ExpandPrivateScalar :: "nat \<Rightarrow> var_state \<Rightarrow> string \<Rightarrow> string \<Rightarrow> (bool \<times> string) run" where
  "GetVariable 0 st scope lv = None"
| "GetVariable (Suc n) st scope lv =
     (if IsExpandable lv = 0
      then (if length lv \<ge> CF_MAXVARSIZE - 1 then Some (Inl Uninitialised) else Some (lookup_in st scope lv lv))
      else run_bind (ExpandPrivateScalar n st (CONTEXTID st) lv) (\<lambda>(complete, expbuf).
        if complete
        then (if length expbuf \<ge> CF_MAXVARSIZE - 1 then Some (Inl Uninitialised) else Some (lookup_in st scope lv expbuf))
        else ret (cf_notype, Scalar lv)))"
| "ExpandPrivateScalar 0 st scopeid str = None"
| "ExpandPrivateScalar (Suc n) st scopeid str =
     (if str = [] then ret (False, [])
      else expand_loop (ExpandPrivateScalar n st scopeid) (GetVariable n st scopeid) [] True str)"

definition ExpandScalar :: "nat \<Rightarrow> var_state \<Rightarrow> string \<Rightarrow> (bool \<times> string) run" where
  "ExpandScalar n st str = ExpandPrivateScalar n st (CONTEXTID st) str"

section \<open>Changing variables\<close>

text \<open>\<open>CopyRvalItem\<close> looks list variables up in the current context.\<close>

definition copy_value :: "nat \<Rightarrow> var_state \<Rightarrow> rval \<Rightarrow> rval run" where
  "copy_value n st v = CopyRvalItem (\<lambda>naked. run_bind (GetVariable n st (CONTEXTID st) naked)
     (\<lambda>(dt, item). ret (if dt = cf_notype then None else Some item))) v"

text \<open>The comparison of a value with a stored one.  A stored list that is compared with a text is read as a text.\<close>

fun CompareVariableValue :: "rval \<Rightarrow> rval \<Rightarrow> int res" where
  "CompareVariableValue NoScalar ap = Inr 1"
| "CompareVariableValue NoPromisee ap = Inr 1"
| "CompareVariableValue (Scalar s) ap = (case ap of Scalar t \<Rightarrow> Inr (strcmp t s) | _ \<Rightarrow> Inl OutOfBounds)"
| "CompareVariableValue (ListVal l) ap =
     (if l = [] then Inr 1
      else foldr (\<lambda>v r. res_bind (CompareVariableValue v ap) (\<lambda>c. if c = 0 then Inr (-1) else r)) l (Inr 0))"
| "CompareVariableValue (Call f args) ap = Inr 0"

text \<open>A write to the association a lookup has found.\<close>

fun set_first :: "string \<Rightarrow> rval \<Rightarrow> cfdatatype \<Rightarrow> (rval, cfdatatype) CfAssoc list \<Rightarrow> (rval, cfdatatype) CfAssoc list" where
  "set_first element v dt [] = []"
| "set_first element v dt (a # vs) =
     (if strcmp (lval a) element = 0 then a\<lparr>CfAssoc.rval := v, dtype := dt\<rparr> # vs else a # set_first element v dt vs)"

definition set_assoc :: "(rval, cfdatatype) AssocHashTable \<Rightarrow> string \<Rightarrow> rval \<Rightarrow> cfdatatype \<Rightarrow> (rval, cfdatatype) AssocHashTable" where
  "set_assoc t element v dt = (case t of
     TinyTable vs \<Rightarrow> TinyTable (set_first element v dt vs)
   | HugeTable b \<Rightarrow> HugeTable (case probe_key (\<lambda>s. s = Free \<or> holds_key element s) b element of
        None \<Rightarrow> b
      | Some i \<Rightarrow> (case b i of Used a \<Rightarrow> b(i := Used (a\<lparr>CfAssoc.rval := v, dtype := dt\<rparr>)) | _ \<Rightarrow> b)))"

definition item_text :: "rval \<Rightarrow> string option" where
  "item_text v = (case v of Scalar s \<Rightarrow> Some s | _ \<Rightarrow> None)"

text \<open>A value that mentions its own variable is refused; the items of a list that are calls are not looked at.\<close>

definition contains_itself :: "string \<Rightarrow> rval \<Rightarrow> bool" where
  "contains_itself lv v = (case v of
     Scalar s \<Rightarrow> StringContainsVar (Some s) lv
   | ListVal l \<Rightarrow> list_ex (\<lambda>i. StringContainsVar (item_text i) lv) l
   | _ \<Rightarrow> False)"

definition no_value :: "rval \<Rightarrow> bool" where
  "no_value v \<longleftrightarrow> v = NoScalar \<or> v = NoPromisee \<or> v = ListVal []"

definition store_variable :: "nat \<Rightarrow> var_state \<Rightarrow> Scope \<Rightarrow> string \<Rightarrow> rval \<Rightarrow> cfdatatype \<Rightarrow> (bool \<times> var_state) run" where
  "store_variable n st ptr lv v dt = (case HashLookupElement (hashtable ptr) lv of
     Some a \<Rightarrow>
       run_bind (Some (CompareVariableValue v (CfAssoc.rval a))) (\<lambda>c.
         if c = 0 then ret (True, st)
         else run_bind (copy_value n st v) (\<lambda>v'.
           ret (True, set_table (scope_ptr ptr) (set_assoc (hashtable ptr) lv v' dt) st)))
   | None \<Rightarrow>
       run_bind (copy_value n st v) (\<lambda>v'.
         case HashInsertElement (\<lambda>_. v') (hashtable ptr) lv v dt of
           (True, t) \<Rightarrow> ret (True, set_table (scope_ptr ptr) t st)
         | (False, t) \<Rightarrow> Some (Inl FatalErrorExit)))"

text \<open>A name that is too long is reported, which ends the agent once the policy is parsed (\<open>ReportError\<close>).\<close>

definition AddVariableHash :: "nat \<Rightarrow> var_state \<Rightarrow> string \<Rightarrow> string \<Rightarrow> rval \<Rightarrow> cfdatatype \<Rightarrow> (bool \<times> var_state) run" where
  "AddVariableHash n st scope lv v dt =
     (if no_value v then ret (False, st)
      else if length lv > CF_MAXVARSIZE then Some (Inl FatalErrorExit)
      else if strcmp scope ''body'' \<noteq> 0 \<and> contains_itself lv v then ret (False, st)
      else case GetScope st scope of
          None \<Rightarrow> ret (False, st)
        | Some ptr \<Rightarrow> store_variable n st ptr lv v dt)"

definition DeleteScalar :: "var_state \<Rightarrow> string \<Rightarrow> string \<Rightarrow> var_state" where
  "DeleteScalar st scope lv = (case GetScope st scope of
     None \<Rightarrow> st
   | Some ptr \<Rightarrow> set_table (scope_ptr ptr) (snd (HashDeleteElement (hashtable ptr) lv)) st)"

definition DeleteVariable :: "var_state \<Rightarrow> string \<Rightarrow> string \<Rightarrow> var_state" where
  "DeleteVariable st scope id' = (case GetScope st scope of
     None \<Rightarrow> st
   | Some ptr \<Rightarrow> set_table (scope_ptr ptr) (snd (HashDeleteElement (hashtable ptr) id')) st)"

definition NewScalar :: "nat \<Rightarrow> var_state \<Rightarrow> string \<Rightarrow> string \<Rightarrow> string \<Rightarrow> cfdatatype \<Rightarrow> var_state run" where
  "NewScalar n st scope lv v dt = (case GetScope st scope of
     None \<Rightarrow> ret st
   | Some _ \<Rightarrow>
       run_bind (GetVariable n st scope lv) (\<lambda>(found, _).
         let st1 = (if found \<noteq> cf_notype then DeleteScalar st scope lv else st) in
         run_bind (AddVariableHash n st1 scope lv (Scalar v) dt) (\<lambda>(_, st2). ret st2)))"

definition NewList :: "nat \<Rightarrow> var_state \<Rightarrow> string \<Rightarrow> string \<Rightarrow> rval list \<Rightarrow> cfdatatype \<Rightarrow> var_state run" where
  "NewList n st scope lv l dt =
     run_bind (GetVariable n st scope lv) (\<lambda>(found, _).
       let st1 = (if found \<noteq> cf_notype then DeleteVariable st scope lv else st) in
       run_bind (AddVariableHash n st1 scope lv (ListVal l) dt) (\<lambda>(_, st2). ret st2))"

fun DeleteFromScope :: "var_state \<Rightarrow> string \<Rightarrow> rval list \<Rightarrow> var_state" where
  "DeleteFromScope st scope [] = st"
| "DeleteFromScope st scope (rp # args) = DeleteFromScope (DeleteScalar st scope (scalar_text rp)) scope args"

definition LoadSystemConstants :: "nat \<Rightarrow> var_state \<Rightarrow> var_state run" where
  "LoadSystemConstants n st =
     run_bind (NewScalar n st ''const'' ''dollar'' ''$'' cf_str) (\<lambda>st1.
     run_bind (NewScalar n st1 ''const'' ''n'' [CHR 0x0A] cf_str) (\<lambda>st2.
     run_bind (NewScalar n st2 ''const'' ''r'' [CHR 0x0D] cf_str) (\<lambda>st3.
     run_bind (NewScalar n st3 ''const'' ''t'' [CHR 0x09] cf_str) (\<lambda>st4.
       NewScalar n st4 ''const'' ''endl'' [CHR 0x0A] cf_str))))"

text \<open>\<open>HashCopy\<close> copies the values that the iterator returns; the copies may look up list variables.\<close>

function copy_table_loop :: "(rval \<Rightarrow> rval run) \<Rightarrow> (rval, cfdatatype) AssocHashTable \<Rightarrow> (rval, cfdatatype) HashIterator \<Rightarrow>
    (rval, cfdatatype) AssocHashTable run" where
  "copy_table_loop copy newhash i =
     (case HashIteratorNext i of
        (None, _) \<Rightarrow> ret newhash
      | (Some a, i') \<Rightarrow> run_bind (copy (CfAssoc.rval a)) (\<lambda>v.
          copy_table_loop copy (snd (HashInsertElement (\<lambda>_. v) newhash (lval a) (CfAssoc.rval a) (dtype a))) i'))"
  by pat_completeness auto
termination
  by (relation "measure (\<lambda>(c, n, i). table_limit (it_table i) - it_pos i)")
     (auto dest!: HashIteratorNext_progress [OF sym] simp: diff_less_mono2)

declare copy_table_loop.simps [simp del]

text \<open>The scope \<open>this\<close> becomes a copy of the scope of the bundle.\<close>

definition CopyScope :: "nat \<Rightarrow> var_state \<Rightarrow> string \<Rightarrow> string \<Rightarrow> var_state run" where
  "CopyScope n st new_scopename old_scopename =
     (let st1 = NewScope st new_scopename in
      case GetScope st1 old_scopename of
        None \<Rightarrow> ret st1
      | Some op1 \<Rightarrow> (case GetScope st1 new_scopename of
           None \<Rightarrow> Some (Inl NullDereference)
         | Some np \<Rightarrow>
             run_bind (copy_table_loop (copy_value n st1) (hashtable np) (HashIteratorInit (hashtable op1))) (\<lambda>t.
               ret (set_table (scope_ptr np) t st1))))"

definition UnresolvedVariables :: "rval option \<Rightarrow> char \<Rightarrow> bool" where
  "UnresolvedVariables ap rt = (case ap of
     None \<Rightarrow> False
   | Some v \<Rightarrow>
       if rt = CHR ''s'' then IsCf3VarString (item_text v) > 0
       else if rt = CHR ''l'' then (case v of ListVal l \<Rightarrow> list_ex (\<lambda>i. IsCf3VarString (item_text i) > 0) l | _ \<Rightarrow> False)
       else False)"

definition UnresolvedArgs :: "rval list \<Rightarrow> bool" where
  "UnresolvedArgs args = list_ex (\<lambda>v.
     if \<not> is_scalar v then True
     else IsCf3Scalar (item_text v) > 0 \<and>
       \<not> (strstr (scalar_text v) ''$(this)'' \<noteq> None \<or> strstr (scalar_text v) ''${this}'' \<noteq> None)) args"

definition DefinedVariable :: "nat \<Rightarrow> var_state \<Rightarrow> string option \<Rightarrow> bool run" where
  "DefinedVariable n st nm = (case nm of
     None \<Rightarrow> ret False
   | Some v \<Rightarrow> run_bind (GetVariable n st ''this'' v) (\<lambda>(dt, _). ret (dt \<noteq> cf_notype)))"

text \<open>\<open>ForceScalar\<close> works for the agents that may set the variables of a match.\<close>

definition ForceScalar :: "nat \<Rightarrow> cfagenttype \<Rightarrow> var_state \<Rightarrow> string \<Rightarrow> string \<Rightarrow> var_state run" where
  "ForceScalar n agent st lv v =
     (if agent \<noteq> cf_agent \<and> agent \<noteq> cf_know then ret st
      else run_bind (GetVariable n st ''match'' lv) (\<lambda>(found, _).
        NewScalar n (if found \<noteq> cf_notype then DeleteVariable st ''match'' lv else st) ''match'' lv v cf_str))"

section \<open>Expanding values\<close>

text \<open>A list variable in a list is replaced by its items, except among the arguments of a call.\<close>

fun ExpandPrivateRval :: "nat \<Rightarrow> var_state \<Rightarrow> string \<Rightarrow> rval \<Rightarrow> rval run"
  and ExpandList :: "nat \<Rightarrow> var_state \<Rightarrow> string \<Rightarrow> rval list \<Rightarrow> bool \<Rightarrow> rval list run" where
  "ExpandPrivateRval 0 st scopeid v = None"
| "ExpandPrivateRval (Suc n) st scopeid v = (case v of
     Scalar s \<Rightarrow> run_bind (ExpandPrivateScalar n st scopeid s) (\<lambda>(_, buffer). ret (Scalar buffer))
   | NoScalar \<Rightarrow> ret (Scalar [])
   | ListVal l \<Rightarrow> run_bind (ExpandList n st scopeid l True) (\<lambda>l'. ret (ListVal l'))
   | Call f args \<Rightarrow> run_bind (ExpandList n st scopeid args False) (\<lambda>args'. ret (Call f args'))
   | NoPromisee \<Rightarrow> ret NoPromisee)"
| "ExpandList 0 st scopeid list expandnaked = None"
| "ExpandList (Suc n) st scopeid list expandnaked =
     run_bind (run_map (\<lambda>v.
        if \<not> expandnaked \<and> IsNakedVar (item_text v) CHR ''@'' then ret (appended v)
        else if IsNakedVar (item_text v) CHR ''@''
        then run_bind (Some (GetNaked CF_MAXVARSIZE (scalar_text v))) (\<lambda>naked.
             run_bind (GetVariable n st scopeid naked) (\<lambda>(dt, item).
             run_bind (ExpandPrivateRval n st scopeid (if dt \<noteq> cf_notype then item else v)) (\<lambda>v'. ret (appended v'))))
        else run_bind (ExpandPrivateRval n st scopeid v) (\<lambda>v'. ret (appended v'))) list)
       (\<lambda>ls. ret (concat ls))"

definition ExpandFnCall :: "nat \<Rightarrow> var_state \<Rightarrow> string \<Rightarrow> string \<times> rval list \<Rightarrow> rval run" where
  "ExpandFnCall n st contextid f =
     run_bind (ExpandList n st contextid (snd f) False) (\<lambda>args. ret (NewFnCall (fst f) args))"

definition ExpandBundleReference :: "nat \<Rightarrow> var_state \<Rightarrow> string \<Rightarrow> rval \<Rightarrow> rval run" where
  "ExpandBundleReference n st scopeid v = (case v of
     Scalar s \<Rightarrow> run_bind (ExpandPrivateScalar n st scopeid s) (\<lambda>(_, buffer). ret (Scalar buffer))
   | NoScalar \<Rightarrow> ret (Scalar [])
   | Call f args \<Rightarrow> ExpandFnCall n st scopeid (f, args)
   | _ \<Rightarrow> ret NoPromisee)"

text \<open>Whether a value mentions a variable, directly or after up to four expansions.\<close>

function Epimenides :: "nat \<Rightarrow> var_state \<Rightarrow> string \<Rightarrow> rval \<Rightarrow> nat \<Rightarrow> bool run" where
  "Epimenides n st var (Scalar s) level =
     (if StringContainsVar (Some s) var then ret True
      else if IsCf3VarString (Some s) > 0 then
        run_bind (ExpandPrivateScalar n st (CONTEXTID st) s) (\<lambda>(_, expanded).
          if level > 3 then ret False else Epimenides n st var (Scalar expanded) (level + 1))
      else ret False)"
| "Epimenides n st var (ListVal []) level = ret False"
| "Epimenides n st var (ListVal (v # l)) level =
     run_bind (Epimenides n st var v level) (\<lambda>b. if b then ret True else Epimenides n st var (ListVal l) level)"
| "Epimenides n st var (Call f args) level = ret False"
| "Epimenides n st var NoScalar level = ret False"
| "Epimenides n st var NoPromisee level = ret False"
  by pat_completeness auto
termination
  by (relation "inv_image (less_than <*lex*> less_than) (\<lambda>(n, st, var, v, level).
        (case v of ListVal l \<Rightarrow> Suc (size v) | Call f a \<Rightarrow> Suc (size v) | _ \<Rightarrow> 0, 5 - level))")
     (auto split: rval.splits)

text \<open>Values with references in them cannot be compared: -1.\<close>

fun compare_rlist :: "rval list \<Rightarrow> rval list \<Rightarrow> int res" where
  "compare_rlist (v # l) (w # m) =
     (if v \<in> set [NoScalar, NoPromisee, ListVal []] \<or> w \<in> set [NoScalar, NoPromisee, ListVal []] then Inr 0
      else if rtype v = CHR ''f'' \<or> rtype w = CHR ''f'' then Inr (-1)
      else
        let first = (\<lambda>x. case x of ListVal (y # _) \<Rightarrow> y | _ \<Rightarrow> x) in
        (case (first v, first w, w) of
           (Scalar s, Scalar t, Scalar _) \<Rightarrow>
             if IsCf3VarString (Some s) > 0 \<or> IsCf3VarString (Some t) > 0 then Inr (-1)
             else if strcmp s t \<noteq> 0 then Inr 0
             else compare_rlist l m
         | _ \<Rightarrow> Inl OutOfBounds))"
| "compare_rlist _ _ = Inr 1"

definition CompareRval :: "rval \<Rightarrow> rval \<Rightarrow> int res" where
  "CompareRval v1 v2 =
     (if rtype v1 \<noteq> rtype v2 then Inr (-1)
      else case v1 of
          Scalar s \<Rightarrow> (case v2 of
            Scalar t \<Rightarrow>
              if IsCf3VarString (Some s) > 0 \<or> IsCf3VarString (Some t) > 0 then Inr (-1)
              else if strcmp s t \<noteq> 0 then Inr 0 else Inr 1
          | _ \<Rightarrow> Inl NullDereference)
        | ListVal l \<Rightarrow> (case v2 of ListVal m \<Rightarrow> compare_rlist l m | _ \<Rightarrow> Inr 1)
        | Call _ _ \<Rightarrow> Inr (-1)
        | NoScalar \<Rightarrow> Inl NullDereference
        | NoPromisee \<Rightarrow> Inr 1)"

section \<open>Fuel\<close>

text \<open>More fuel does not change a result: the result with less fuel is \<open>None\<close> or the same.\<close>

definition run_le :: "'a run \<Rightarrow> 'a run \<Rightarrow> bool" where
  "run_le r r' \<longleftrightarrow> r = None \<or> r = r'"

lemma run_le_refl: "run_le r r"
  by (simp add: run_le_def)

lemma run_le_bind:
  "run_le r r' \<Longrightarrow> (\<And>x. r = Some (Inr x) \<Longrightarrow> run_le (f x) (f' x)) \<Longrightarrow> run_le (run_bind r f) (run_bind r' f')"
  by (auto simp: run_le_def run_bind_def split: option.splits sum.splits)

lemma run_le_if: "(c \<Longrightarrow> run_le a a') \<Longrightarrow> (\<not> c \<Longrightarrow> run_le b b') \<Longrightarrow> run_le (if c then a else b) (if c then a' else b')"
  by simp

lemma run_le_prod: "(\<And>x y. p = (x, y) \<Longrightarrow> run_le (f x y) (g x y)) \<Longrightarrow> run_le (case p of (x, y) \<Rightarrow> f x y) (case p of (x, y) \<Rightarrow> g x y)"
  by (cases p) simp

lemma run_le_option:
  "(p = None \<Longrightarrow> run_le a a') \<Longrightarrow> (\<And>x. p = Some x \<Longrightarrow> run_le (f x) (g x)) \<Longrightarrow>
   run_le (case p of None \<Rightarrow> a | Some x \<Rightarrow> f x) (case p of None \<Rightarrow> a' | Some x \<Rightarrow> g x)"
  by (cases p) simp_all

lemma run_le_map: "(\<And>x. x \<in> set l \<Longrightarrow> run_le (f x) (g x)) \<Longrightarrow> run_le (run_map f l) (run_map g l)"
  by (induction l) (auto intro!: run_le_bind run_le_refl)

lemmas run_le_rules = run_le_bind run_le_if run_le_prod run_le_option

lemma expand_loop_mono:
  assumes e: "\<And>x. run_le (e x) (e' x)" and l: "\<And>x. run_le (l x) (l' x)"
  shows "run_le (expand_loop e l b c sp) (expand_loop e' l' b c sp)"
proof (induction "length sp" arbitrary: b c sp rule: less_induct)
  case less
  let ?sp1 = "dropWhile (\<lambda>c. c \<noteq> CHR ''$'') sp"
  have shorter: "length ?sp1 \<le> length sp" by (rule length_dropWhile_le)
  have IHt: "run_le (expand_loop e l b' c' (tl ?sp1)) (expand_loop e' l' b' c' (tl ?sp1))" if "?sp1 \<noteq> []" for b' c'
    by (rule less) (use that shorter in \<open>cases ?sp1; simp\<close>)
  have IHd: "run_le (expand_loop e l b' c' (drop (length var) ?sp1)) (expand_loop e' l' b' c' (drop (length var) ?sp1))"
    if "?sp1 \<noteq> []" "var \<noteq> []" for b' c' and var :: string
    by (rule less) (use that shorter in \<open>cases ?sp1; cases var; simp\<close>)
  show ?case
    unfolding expand_loop.simps [of e l b c sp] expand_loop.simps [of e' l' b c sp] Let_def
    by (intro run_le_rules run_le_refl e l IHt IHd; assumption)
qed

lemma lookup_mono: "run_le (GetVariable n st scope lv) (GetVariable (Suc n) st scope lv)"
  and expand_mono: "run_le (ExpandPrivateScalar n st scope' str) (ExpandPrivateScalar (Suc n) st scope' str)"
proof (induction n arbitrary: scope lv scope' str)
  case 0
  { case 1 show ?case by (simp add: run_le_def) next case 2 show ?case by (simp add: run_le_def) }
next
  case (Suc n)
  { case (1 sc x)
    show ?case
      unfolding GetVariable.simps(2) [of "Suc n" st sc x] GetVariable.simps(2) [of n st sc x]
      by (intro run_le_rules run_le_refl Suc.IH)
  next
    case (2 sc x)
    show ?case
      unfolding ExpandPrivateScalar.simps(2) [of "Suc n" st sc x] ExpandPrivateScalar.simps(2) [of n st sc x]
      by (intro run_le_rules run_le_refl expand_loop_mono Suc.IH)
  }
qed

lemma run_le_chain:
  assumes "\<And>n. run_le (f n) (f (Suc n))" "f n = Some r" "n \<le> m"
  shows "f m = Some r"
  using assms(3)
proof (induction rule: dec_induct)
  case base
  show ?case by (rule assms(2))
next
  case (step k)
  with assms(1) [of k] show ?case by (simp add: run_le_def)
qed

lemma lookup_fuel: "GetVariable n st scope lv = Some r \<Longrightarrow> n \<le> m \<Longrightarrow> GetVariable m st scope lv = Some r"
  by (rule run_le_chain [of "\<lambda>n. GetVariable n st scope lv"]) (rule lookup_mono)

lemma expand_fuel: "ExpandPrivateScalar n st scope str = Some r \<Longrightarrow> n \<le> m \<Longrightarrow> ExpandPrivateScalar m st scope str = Some r"
  by (rule run_le_chain [of "\<lambda>n. ExpandPrivateScalar n st scope str"]) (rule expand_mono)

section \<open>Texts made of literals and references\<close>

datatype template_part = Lit string | Ref char string

definition part_text :: "template_part \<Rightarrow> string" where
  "part_text p = (case p of Lit s \<Rightarrow> s | Ref br v \<Rightarrow> ref_text br v)"

definition part_ok :: "template_part \<Rightarrow> bool" where
  "part_ok p \<longleftrightarrow> (case p of
     Lit s \<Rightarrow> CHR ''$'' \<notin> set s
   | Ref br v \<Rightarrow> is_open br \<and> plain_name v \<and> v \<noteq> [] \<and> length v < CF_MAXVARSIZE - 4)"

text \<open>What a reference stands for, and whether it could be replaced; \<open>None\<close> for a value that is not a text or a list.\<close>

definition part_value :: "var_state \<Rightarrow> string \<Rightarrow> template_part \<Rightarrow> (string \<times> bool) option" where
  "part_value st scope p = (case p of
     Lit s \<Rightarrow> Some (s, True)
   | Ref br v \<Rightarrow> (case lookup_in st scope v v of
        Inr (dt, item) \<Rightarrow>
          if dt \<in> set [cf_str, cf_int, cf_real] then (case item of Scalar s \<Rightarrow> Some (s, True) | _ \<Rightarrow> None)
          else if dt \<in> set [cf_slist, cf_ilist, cf_rlist, cf_notype] then Some (ref_text br v, False)
          else None
      | Inl _ \<Rightarrow> None))"

definition part_string :: "var_state \<Rightarrow> string \<Rightarrow> template_part \<Rightarrow> string" where
  "part_string st scope p = (case part_value st scope p of Some (s, _) \<Rightarrow> s | None \<Rightarrow> [])"

definition part_found :: "var_state \<Rightarrow> string \<Rightarrow> template_part \<Rightarrow> bool" where
  "part_found st scope p = (case part_value st scope p of Some (_, b) \<Rightarrow> b | None \<Rightarrow> False)"

lemma strlcat_fits: "length a + length b < bufsize \<Longrightarrow> strlcat a b bufsize = a @ b"
  by (simp add: strlcat_def)

lemma ExpandOverflow_fits: "length a + length b \<le> CF_EXPANDSIZE - CF_BUFFERMARGIN \<Longrightarrow> \<not> ExpandOverflow a b"
  by (simp add: ExpandOverflow_def)

lemma expand_size: "CF_EXPANDSIZE - CF_BUFFERMARGIN < CF_EXPANDSIZE"
  by (simp add: CF_EXPANDSIZE_def CF_BUFSIZE_def CF_BUFFERMARGIN_def)

lemma expand_loop_lit:
  assumes "CHR ''$'' \<notin> set p"
    and "length b + length p + length (takeWhile (\<lambda>c. c \<noteq> CHR ''$'') s) \<le> CF_EXPANDSIZE - CF_BUFFERMARGIN"
  shows "expand_loop e l b c (p @ s) = expand_loop e l (b @ p) c s"
proof -
  let ?q = "takeWhile (\<lambda>c. c \<noteq> CHR ''$'') s"
  have tw: "takeWhile (\<lambda>c. c \<noteq> CHR ''$'') (p @ s) = p @ ?q" "dropWhile (\<lambda>c. c \<noteq> CHR ''$'') (p @ s) = dropWhile (\<lambda>c. c \<noteq> CHR ''$'') s"
    using assms(1) by (subst takeWhile_append2 dropWhile_append2; force)+
  note size = expand_size
  have fit: "strlcat b (p @ ?q) CF_EXPANDSIZE = b @ p @ ?q" "strlcat (b @ p) ?q CF_EXPANDSIZE = b @ p @ ?q"
    using assms(2) size by (simp_all add: strlcat_fits)
  have ov: "\<not> ExpandOverflow b (p @ ?q)" "\<not> ExpandOverflow (b @ p) ?q"
    using assms(2) by (simp_all add: ExpandOverflow_def)
  have len: "\<not> CF_EXPANDSIZE \<le> length (p @ ?q)" "\<not> CF_EXPANDSIZE \<le> length ?q"
    using assms(2) size by simp_all
  show ?thesis
  proof (cases "s = []")
    case True
    then have "expand_loop e l (b @ p) c s = ret (c, b @ p)" by (simp add: expand_loop.simps)
    moreover have "expand_loop e l b c (p @ s) = ret (c, b @ p)"
      unfolding expand_loop.simps [of e l b c "p @ s"] tw Let_def
      using True len ov fit by auto
    ultimately show ?thesis by simp
  next
    case False
    then have ne: "p @ s \<noteq> []" by simp
    show ?thesis
      unfolding expand_loop.simps [of e l b c "p @ s"] expand_loop.simps [of e l "b @ p" c s] tw Let_def
      by (simp only: False ne len ov fit if_False)
  qed
qed

lemma ref_text_head: "ref_text br v @ s = CHR ''$'' # br # v @ (if br = CHR ''('' then '')'' else ''}'') @ s"
  by (simp add: ref_text_def)

lemma expand_loop_ref:
  assumes ok: "part_ok (Ref br v)" and val: "part_value st scope (Ref br v) = Some (t, found)"
    and fit: "length b + length t \<le> CF_EXPANDSIZE - CF_BUFFERMARGIN"
  shows "expand_loop e (GetVariable (Suc k) st scope) b c (ref_text br v @ s) =
    expand_loop e (GetVariable (Suc k) st scope) (b @ t) (c \<and> found) s"
proof -
  let ?sp = "ref_text br v @ s"
  have v: "is_open br" "plain_name v" "v \<noteq> []" "length v < CF_MAXVARSIZE - 4" using ok by (auto simp: part_ok_def)
  have sizes: "length v + 3 < CF_BUFSIZE" "length v < CF_BUFSIZE" "length v < CF_MAXVARSIZE - 1" "take (CF_BUFSIZE - 1) v = v"
    using v(4) by (auto simp: CF_MAXVARSIZE_def CF_BUFSIZE_def)
  have look: "GetVariable (Suc k) st scope v = Some (lookup_in st scope v v)"
    using plain_name_quiet [OF v(2)] sizes by simp
  have short: "take (CF_MAXVARSIZE - 1) (ref_text br v) = ref_text br v"
    using v(4) by (simp add: ref_text_def CF_MAXVARSIZE_def)
  have br: "br = CHR ''('' \<or> br = CHR ''{''" using v(1) by (simp add: is_open_def)
  have ref: "(if (if br = CHR ''('' then CHR '')'' else CHR ''}'') = CHR ''}'' then ''${'' @ v @ ''}'' else ''$('' @ v @ '')'') = ref_text br v"
    using br by (auto simp: ref_text_def)
  obtain dt item where d: "lookup_in st scope v v = Inr (dt, item)"
    using val by (auto simp: part_value_def split: sum.splits)
  have size: "length b + length t < CF_EXPANDSIZE" using fit expand_size by linarith
  have add: "add_value b (if br = CHR ''('' then CHR '')'' else CHR ''}'') v (dt, item) = Inr (Some (b @ t, found))"
  proof (cases "dt \<in> set [cf_str, cf_int, cf_real]")
    case True
    with val d obtain "item = Scalar t" "found" by (auto simp: part_value_def split: rval.splits)
    with True fit size show ?thesis by (simp add: add_value_def ExpandOverflow_fits strlcat_fits)
  next
    case False
    with val d have t: "t = ref_text br v" "\<not> found" and dt: "dt \<in> set [cf_slist, cf_ilist, cf_rlist, cf_notype]"
      by (auto simp: part_value_def split: if_splits)
    show ?thesis
      unfolding add_value_def prod.case if_not_P [OF False] if_P [OF dt] Let_def ref short
      using t size by (simp add: strlcat_fits)
  qed
  have tw: "takeWhile (\<lambda>c. c \<noteq> CHR ''$'') ?sp = []" "dropWhile (\<lambda>c. c \<noteq> CHR ''$'') ?sp = ?sp"
    by (simp_all add: ref_text_head)
  have at1: "char_at ?sp 1 = br" by (simp add: ref_text_head)
  have ov: "\<not> ExpandOverflow b []" using fit by (simp add: ExpandOverflow_def)
  have cat: "strlcat b [] CF_EXPANDSIZE = b" by (simp add: strlcat_def)
  have lens: "drop (length (ref_text br v)) ?sp = s" "ref_text br v \<noteq> []" "?sp \<noteq> []" by (simp_all add: ref_text_def)
  show ?thesis
    unfolding expand_loop.simps [of e _ b c ?sp] tw at1 Let_def cat
    using lens ov v ExtractOuter_ref [OF v(2) sizes(1) v(1), of s] ExtractInner_ref [OF v(2) sizes(2) v(1,3), of s]
      plain_name_quiet(1) [OF v(2)] sizes(4) look d add
    by (simp add: CF_EXPANDSIZE_def CF_BUFSIZE_def ret_def)
qed

lemma template_head:
  assumes "list_all part_ok ps"
  shows "length (takeWhile (\<lambda>c. c \<noteq> CHR ''$'') (concat (map part_text ps))) \<le> length (concat (map (part_string st scope) ps))"
  using assms
proof (induction ps)
  case (Cons p ps)
  show ?case
  proof (cases p)
    case (Lit s)
    with Cons have "takeWhile (\<lambda>c. c \<noteq> CHR ''$'') (s @ concat (map part_text ps)) = s @ takeWhile (\<lambda>c. c \<noteq> CHR ''$'') (concat (map part_text ps))"
      by (subst takeWhile_append2) (auto simp: part_ok_def)
    moreover have "part_string st scope p = s" "part_text p = s"
      using Lit by (simp_all add: part_string_def part_value_def part_text_def)
    ultimately show ?thesis using Cons by simp
  next
    case (Ref br v)
    then show ?thesis by (simp add: part_text_def ref_text_def)
  qed
qed simp

lemma expand_loop_template:
  assumes "list_all part_ok ps" "list_all (\<lambda>p. part_value st scope p \<noteq> None) ps"
    and "length b + length (concat (map (part_string st scope) ps)) \<le> CF_EXPANDSIZE - CF_BUFFERMARGIN"
  shows "expand_loop e (GetVariable (Suc k) st scope) b c (concat (map part_text ps)) =
    ret (c \<and> list_all (part_found st scope) ps, b @ concat (map (part_string st scope) ps))"
  using assms
proof (induction ps arbitrary: b c)
  case Nil
  then show ?case by (simp add: expand_loop.simps)
next
  case (Cons p ps)
  show ?case
  proof (cases p)
    case (Lit s)
    have "part_string st scope p = s" "part_found st scope p" "part_text p = s"
      using Lit by (simp_all add: part_string_def part_found_def part_value_def part_text_def)
    moreover have "CHR ''$'' \<notin> set s" using Lit Cons.prems(1) by (simp add: part_ok_def)
    ultimately show ?thesis
      using Cons.prems template_head [of ps st scope] Cons.IH [of "b @ s" c] by (simp add: expand_loop_lit)
  next
    case (Ref br v)
    then obtain t found where val: "part_value st scope p = Some (t, found)" using Cons.prems(2) by auto
    then have "part_string st scope p = t" "part_found st scope p = found" "part_text p = ref_text br v"
      using Ref by (simp_all add: part_string_def part_found_def part_text_def)
    with Cons.prems Cons.IH [of "b @ t" "c \<and> found"] expand_loop_ref [of br v st scope t found b e k c] val Ref
    show ?thesis by (simp add: ret_def conj_assoc del: GetVariable.simps)
  qed
qed

text \<open>C19: a text of literals and simple references expands to the texts of its parts, one after the other, where a reference to a
  variable that is not set, or to a list, stands for itself; the result says whether there was one.\<close>

lemma ExpandPrivateScalar_template:
  assumes "list_all part_ok ps" "list_all (\<lambda>p. part_value st scope p \<noteq> None) ps"
    and "length (concat (map (part_string st scope) ps)) \<le> CF_EXPANDSIZE - CF_BUFFERMARGIN"
    and "concat (map part_text ps) \<noteq> []"
  shows "ExpandPrivateScalar (Suc (Suc n)) st scope (concat (map part_text ps)) =
    ret (list_all (part_found st scope) ps, concat (map (part_string st scope) ps))"
  unfolding ExpandPrivateScalar.simps(2) if_not_P [OF assms(4)]
  using expand_loop_template [of ps st scope "[]" _ n True] assms(1-3) by (simp del: GetVariable.simps)

section \<open>Expansion without end\<close>

text \<open>What the scanners say of \<open>$($(a))\<close>.\<close>

definition nested_name :: "string \<Rightarrow> bool" where
  "nested_name a \<longleftrightarrow> ExtractOuterCf3VarString (''$($('' @ a @ ''))'') = Inr (True, ''$($('' @ a @ ''))'') \<and>
     ExtractInnerCf3VarString (Some (''$($('' @ a @ ''))'')) = Inr (True, ''$('' @ a @ '')'') \<and>
     IsCf3VarString (Some (''$('' @ a @ '')'')) = 1 \<and> IsExpandable (''$($('' @ a @ ''))'') = 1 \<and>
     plain_name a \<and> a \<noteq> [] \<and> length a < 10"

lemma nested_name_x: "nested_name ''x''"
  by code_simp

lemma nested_name_y: "nested_name ''y''"
  by code_simp

lemma single_reference:
  assumes "lookup_in st scope v v = Inr (cf_str, Scalar t)" "plain_name v" "v \<noteq> []" "length v < CF_MAXVARSIZE - 4"
    and "length t \<le> CF_EXPANDSIZE - CF_BUFFERMARGIN"
  shows "ExpandPrivateScalar (Suc (Suc n)) st scope (ref_text CHR ''('' v) = ret (True, t)"
proof -
  have val: "part_value st scope (Ref CHR ''('' v) = Some (t, True)" using assms(1) by (simp add: part_value_def)
  then have "part_string st scope (Ref CHR ''('' v) = t" "part_found st scope (Ref CHR ''('' v)"
    by (simp_all add: part_string_def part_found_def)
  moreover have "part_ok (Ref CHR ''('' v)" "part_text (Ref CHR ''('' v) = ref_text CHR ''('' v" "ref_text CHR ''('' v \<noteq> []"
    using assms by (simp_all add: part_ok_def is_open_def part_text_def ref_text_def)
  ultimately show ?thesis
    using ExpandPrivateScalar_template [of "[Ref CHR ''('' v]" st scope n] assms(5) val
    by (simp del: ExpandPrivateScalar.simps not_None_eq)
qed

lemma short_run:
  assumes "\<And>m. r (Suc (Suc m)) = ret x" "run_le (r 0) (r (Suc 0))" "run_le (r (Suc 0)) (r (Suc (Suc 0)))"
  shows "r n = None \<or> r n = ret x"
proof (cases n)
  case 0
  with assms(1) [of 0] assms(2,3) show ?thesis by (auto simp: run_le_def)
next
  case (Suc k)
  with assms(1) [of 0] assms(1) [of "k - 1"] assms(3) show ?thesis by (cases k) (auto simp: run_le_def)
qed

lemma reference_run:
  assumes "lookup_in st scope v v = Inr (cf_str, Scalar t)" "plain_name v" "v \<noteq> []" "length v < CF_MAXVARSIZE - 4"
    and "length t \<le> CF_EXPANDSIZE - CF_BUFFERMARGIN"
  shows "ExpandPrivateScalar n st scope (ref_text CHR ''('' v) = None \<or> ExpandPrivateScalar n st scope (ref_text CHR ''('' v) = ret (True, t)"
  using short_run [of "\<lambda>n. ExpandPrivateScalar n st scope (ref_text CHR ''('' v)"] single_reference [OF assms] expand_mono by blast

lemma nested_step:
  assumes look: "lookup_in st (CONTEXTID st) a a = Inr (cf_str, Scalar (''$($('' @ b @ ''))''))"
    and names: "nested_name a" "nested_name b"
    and IH: "\<And>m. m < n \<Longrightarrow> ExpandPrivateScalar m st (CONTEXTID st) (''$($('' @ b @ ''))'') = None"
  shows "ExpandPrivateScalar n st (CONTEXTID st) (''$($('' @ a @ ''))'') = None"
proof (cases n)
  case (Suc k)
  let ?e = "ExpandPrivateScalar k st (CONTEXTID st)" and ?l = "GetVariable k st (CONTEXTID st)"
  let ?a = "''$($('' @ a @ ''))''" and ?b = "''$($('' @ b @ ''))''"
  have x: "?e (''$('' @ a @ '')'') = None \<or> ?e (''$('' @ a @ '')'') = ret (True, ?b)"
    using reference_run [OF look, of k] names
    by (simp add: nested_name_def ref_text_def CF_MAXVARSIZE_def CF_EXPANDSIZE_def CF_BUFSIZE_def CF_BUFFERMARGIN_def
        del: ExpandPrivateScalar.simps)
  have l: "?l ?b = None"
  proof (cases k)
    case (Suc j)
    then have "ExpandPrivateScalar j st (CONTEXTID st) ?b = None" using IH \<open>n = Suc k\<close> by simp
    moreover have "IsExpandable ?b = 1" using names by (simp add: nested_name_def)
    ultimately show ?thesis unfolding Suc GetVariable.simps by simp
  qed simp
  have tw: "takeWhile (\<lambda>c. c \<noteq> CHR ''$'') ?a = []" "dropWhile (\<lambda>c. c \<noteq> CHR ''$'') ?a = ?a" "char_at ?a 1 = CHR ''(''" by simp_all
  have n: "ExtractOuterCf3VarString ?a = Inr (True, ?a)" "ExtractInnerCf3VarString (Some ?a) = Inr (True, ''$('' @ a @ '')'')"
    "0 < IsCf3VarString (Some (''$('' @ a @ '')''))" "?a \<noteq> []"
    using names by (simp_all add: nested_name_def)
  have bounds: "\<not> CF_EXPANDSIZE \<le> 0" "\<not> ExpandOverflow [] []"
    by (simp_all add: CF_EXPANDSIZE_def CF_BUFSIZE_def CF_BUFFERMARGIN_def ExpandOverflow_def)
  have "expand_loop ?e ?l [] True ?a = None"
    unfolding expand_loop.simps [of ?e ?l "[]" True ?a] tw Let_def n
    using x l n(3,4) bounds by (auto simp: is_open_def)
  with Suc show ?thesis by simp
qed simp

text \<open>C20: two variables whose values name each other through a nested reference are expanded without end: no depth of calls is enough.\<close>

lemma expansion_diverges:
  assumes "lookup_in st (CONTEXTID st) ''x'' ''x'' = Inr (cf_str, Scalar ''$($(y))'')"
    and "lookup_in st (CONTEXTID st) ''y'' ''y'' = Inr (cf_str, Scalar ''$($(x))'')"
  shows "ExpandPrivateScalar n st (CONTEXTID st) ''$($(x))'' = None"
proof -
  have "ExpandPrivateScalar n st (CONTEXTID st) ''$($(x))'' = None \<and> ExpandPrivateScalar n st (CONTEXTID st) ''$($(y))'' = None"
  proof (induction n rule: less_induct)
    case (less n)
    then show ?case
      using nested_step [of st "''x''" "''y''" n] nested_step [of st "''y''" "''x''" n] assms nested_name_x nested_name_y
      by (simp del: ExpandPrivateScalar.simps)
  qed
  then show ?thesis ..
qed

definition looping_scope :: Scope where
  "looping_scope = \<lparr>scope_ptr = 0, scope_name = ''b'',
     hashtable = TinyTable [\<lparr>lval = ''x'', rval = Scalar ''$($(y))'', dtype = cf_str\<rparr>, \<lparr>lval = ''y'', rval = Scalar ''$($(x))'', dtype = cf_str\<rparr>]\<rparr>"

definition looping_state :: var_state where
  "looping_state = \<lparr>VSCOPE = [looping_scope], CONTEXTID = ''b'', CF_STCK = [], CF_STCKFRAME = 0, next_ptr = 1\<rparr>"

lemma expansion_diverges_witness: "ExpandPrivateScalar 1000 looping_state ''b'' ''$($(x))'' = None"
proof -
  have "lookup_in looping_state (CONTEXTID looping_state) ''x'' ''x'' = Inr (cf_str, Scalar ''$($(y))'')"
    "lookup_in looping_state (CONTEXTID looping_state) ''y'' ''y'' = Inr (cf_str, Scalar ''$($(x))'')"
    by (simp_all add: looping_state_def looping_scope_def lookup_in_def GetScope_def HashLookupElement_def TinyHashLookupElement_def CF_MAXVARSIZE_def)
  from expansion_diverges [OF this, of 1000] show ?thesis by (simp add: looping_state_def del: ExpandPrivateScalar.simps)
qed

text \<open>The same scope gives the first text of the template a value.\<close>

lemma ExpandPrivateScalar_template_witness:
  "ExpandPrivateScalar 2 looping_state ''b'' ''<$(x)|${z}>'' = ret (False, ''<$($(y))|${z}>'')"
proof -
  let ?ps = "[Lit ''<'', Ref CHR ''('' ''x'', Lit ''|'', Ref CHR ''{'' ''z'', Lit ''>'']"
  have look: "lookup_in looping_state ''b'' ''x'' ''x'' = Inr (cf_str, Scalar ''$($(y))'')"
    "lookup_in looping_state ''b'' ''z'' ''z'' = Inr (cf_notype, Scalar ''z'')"
    by (simp_all add: looping_state_def looping_scope_def lookup_in_def GetScope_def HashLookupElement_def TinyHashLookupElement_def CF_MAXVARSIZE_def)
  have ok: "list_all part_ok ?ps" by (simp add: part_ok_def is_open_def CF_MAXVARSIZE_def)
  have vals: "map (part_value looping_state ''b'') ?ps = [Some (''<'', True), Some (''$($(y))'', True), Some (''|'', True), Some (''${z}'', False), Some (''>'', True)]"
    by (simp add: part_value_def look ref_text_def)
  then have strs: "map (part_string looping_state ''b'') ?ps = [''<'', ''$($(y))'', ''|'', ''${z}'', ''>'']"
    and found: "map (part_found looping_state ''b'') ?ps = [True, True, True, False, True]"
    by (simp_all add: part_string_def part_found_def)
  have "list_all (\<lambda>p. part_value looping_state ''b'' p \<noteq> None) ?ps" using vals by (simp del: not_None_eq)
  moreover have "concat (map part_text ?ps) = ''<$(x)|${z}>''" by (simp add: part_text_def ref_text_def)
  ultimately show ?thesis
    using ExpandPrivateScalar_template [OF ok, of looping_state "''b''" 0] strs found
    by (simp add: numeral_2_eq_2 CF_EXPANDSIZE_def CF_BUFSIZE_def CF_BUFFERMARGIN_def del: ExpandPrivateScalar.simps)
qed

end
