(* ===== verification/CF_VariableProofs.thy ===== *)
theory CF_VariableProofs
  imports CF_Variables
begin

text \<open>
  The invariant of the scopes of \<open>src/scope.c\<close> and \<open>src/vars.c\<close>, what \<open>NewScalar\<close> does to the variables, and the frames
  that \<open>PushThisScope\<close> and \<open>PopThisScope\<close> make around an iteration.
\<close>

section \<open>The variables of a scope\<close>

definition find_var :: "var_state \<Rightarrow> string \<Rightarrow> string \<Rightarrow> (rval, cfdatatype) CfAssoc option" where
  "find_var st scope lv = (case GetScope st scope of None \<Rightarrow> None | Some p \<Rightarrow> HashLookupElement (hashtable p) lv)"

text \<open>
  The invariant of the scopes: pointers and names are different, every table is well formed, and every variable has a type.
\<close>

definition typed_table :: "(rval, cfdatatype) AssocHashTable \<Rightarrow> bool" where
  "typed_table t \<longleftrightarrow> table_wf t \<and> (\<forall>k a. HashLookupElement t k = Some a \<longrightarrow> dtype a \<noteq> cf_notype)"

definition vars_wf :: "var_state \<Rightarrow> bool" where
  "vars_wf st \<longleftrightarrow> distinct (map scope_ptr (VSCOPE st)) \<and> distinct (map scope_name (VSCOPE st)) \<and>
     list_all (\<lambda>p. scope_ptr p < next_ptr st \<and> typed_table (hashtable p)) (VSCOPE st)"

lemma find_map: "List.find P (map f xs) = map_option f (List.find (P \<circ> f) xs)"
  by (induction xs) auto

lemma GetScope_at_scope:
  assumes "\<And>p. scope_name (f p) = scope_name p"
  shows "GetScope (at_scope ptr f st) s = map_option (\<lambda>p. if scope_ptr p = ptr then f p else p) (GetScope st s)"
proof -
  have "(\<lambda>cp. scope_name cp = nm) \<circ> (\<lambda>cp. if scope_ptr cp = ptr then f cp else cp) = (\<lambda>cp. scope_name cp = nm)" for nm
    by (auto simp: assms fun_eq_iff)
  then show ?thesis by (simp add: GetScope_def at_scope_def find_map Let_def)
qed

lemma GetScope_set_table:
  "GetScope (set_table ptr t st) s = map_option (\<lambda>p. if scope_ptr p = ptr then p\<lparr>hashtable := t\<rparr> else p) (GetScope st s)"
  by (simp add: set_table_def GetScope_at_scope)

lemma GetScope_mem: "GetScope st s = Some p \<Longrightarrow> p \<in> set (VSCOPE st)"
  by (auto simp: GetScope_def Let_def find_Some_iff)

lemma vars_wf_table: "vars_wf st \<Longrightarrow> GetScope st s = Some p \<Longrightarrow> typed_table (hashtable p) \<and> scope_ptr p < next_ptr st"
  using GetScope_mem [of st s p] by (auto simp: vars_wf_def list_all_iff)

lemma vars_wf_ptr:
  assumes "vars_wf st" "GetScope st s = Some p" "GetScope st s' = Some p'" "scope_ptr p = scope_ptr p'"
  shows "p = p'"
proof -
  from assms(1) have "inj_on scope_ptr (set (VSCOPE st))" by (simp add: vars_wf_def distinct_map)
  from inj_onD [OF this assms(4) GetScope_mem [OF assms(2)] GetScope_mem [OF assms(3)]] show ?thesis .
qed

lemma vars_wf_set_table:
  assumes "vars_wf st" "typed_table t"
  shows "vars_wf (set_table ptr t st)"
proof -
  have names: "map scope_ptr (VSCOPE (set_table ptr t st)) = map scope_ptr (VSCOPE st)"
    "map scope_name (VSCOPE (set_table ptr t st)) = map scope_name (VSCOPE st)"
    by (auto simp: set_table_def at_scope_def)
  have "next_ptr (set_table ptr t st) = next_ptr st" by (simp add: set_table_def at_scope_def)
  moreover have "list_all (\<lambda>p. scope_ptr p < next_ptr st \<and> typed_table (hashtable p)) (VSCOPE (set_table ptr t st))"
    using assms by (auto simp: vars_wf_def set_table_def at_scope_def list_all_iff)
  ultimately show ?thesis using assms(1) unfolding vars_wf_def names by simp
qed

lemma find_var_set_table:
  assumes "vars_wf st" "GetScope st scope = Some p"
  shows "find_var (set_table (scope_ptr p) t st) s k =
    (if GetScope st s = Some p then HashLookupElement t k else find_var st s k)"
  using vars_wf_ptr [OF assms(1) _ assms(2), of s]
  by (auto simp: find_var_def GetScope_set_table split: option.splits)

lemma IsQualified_plain: "CHR ''.'' \<notin> set v \<Longrightarrow> \<not> IsQualifiedVariable v"
  by (induction v) auto

definition simple_var :: "string \<Rightarrow> bool" where
  "simple_var v \<longleftrightarrow> CHR ''$'' \<notin> set v \<and> CHR ''.'' \<notin> set v \<and> length v < CF_MAXVARSIZE - 1"

lemma list_all_ne: "x \<notin> set v \<Longrightarrow> list_all (\<lambda>c. c \<noteq> x) v"
  by (induction v) auto

lemma GetVariable_simple:
  assumes "simple_var v" "length scope < CF_MAXVARSIZE"
  shows "GetVariable (Suc n) st scope v =
    ret (case find_var st scope v of None \<Rightarrow> (cf_notype, Scalar v) | Some a \<Rightarrow> (dtype a, CfAssoc.rval a))"
proof -
  have v: "CHR ''$'' \<notin> set v" "CHR ''.'' \<notin> set v" "\<not> CF_MAXVARSIZE - 1 \<le> length v" "\<not> CF_MAXVARSIZE \<le> length v"
    using assms(1) by (auto simp: simple_var_def)
  note e = IsExpandable_quiet [OF list_all_ne [OF v(1)]]
  note q = IsQualified_plain [OF v(2)]
  have "take (CF_MAXVARSIZE - 1) scope = scope" using assms(2) by simp
  with q v have "lookup_in st scope v v = Inr (case find_var st scope v of None \<Rightarrow> (cf_notype, Scalar v) | Some a \<Rightarrow> (dtype a, CfAssoc.rval a))"
    by (simp add: lookup_in_def find_var_def split: option.splits)
  with e v(3) show ?thesis by (simp add: ret_def)
qed

lemma typed_delete:
  assumes "typed_table (TinyTable vs)"
  shows "typed_table (snd (HashDeleteElement (TinyTable vs) k)) \<and>
    HashLookupElement (snd (HashDeleteElement (TinyTable vs) k)) k' = (if k' = k then None else HashLookupElement (TinyTable vs) k')"
proof -
  obtain r vs' where del: "TinyHashDeleteElement vs k = (r, vs')" by fastforce
  from assms have d: "distinct (map lval vs)" "length vs \<le> TINY_LIMIT" by (simp_all add: typed_table_def table_wf_def)
  note t = tiny_delete [OF d(1) del]
  then have "distinct (map lval vs') \<and> length vs' \<le> TINY_LIMIT" using d by (meson le_trans)
  with assms t del show ?thesis
    by (auto simp: typed_table_def table_wf_def HashDeleteElement_def HashLookupElement_def split: if_splits)
qed

lemma typed_insert:
  assumes "typed_table t" "HashInsertElement copy t k v dt = (r, t')" "dt \<noteq> cf_notype"
  shows "typed_table t' \<and> r = (HashLookupElement t k = None \<and> \<not> table_full t) \<and>
    HashLookupElement t' k' = (if r \<and> k' = k then Some (NewAssoc copy k v dt) else HashLookupElement t k')"
  using assms table_insert [OF _ assms(2)]
  by (auto simp: typed_table_def NewAssoc_def split: if_splits)

lemma AddVariableHash_new:
  assumes wf: "vars_wf st" and scope: "GetScope st scope = Some p"
    and new: "HashLookupElement (hashtable p) lv = None" and room: "\<not> table_full (hashtable p)"
    and len: "length lv \<le> CF_MAXVARSIZE" and self: "\<not> StringContainsVar (Some v) lv" and dt: "dt \<noteq> cf_notype"
  shows "\<exists>st'. AddVariableHash n st scope lv (Scalar v) dt = ret (True, st') \<and> vars_wf st' \<and>
    (\<forall>s k. find_var st' s k = (if GetScope st s = Some p \<and> k = lv then Some \<lparr>lval = lv, rval = Scalar v, dtype = dt\<rparr> else find_var st s k))"
proof -
  obtain r t where ins: "HashInsertElement (\<lambda>_. Scalar v) (hashtable p) lv (Scalar v) dt = (r, t)" by fastforce
  note t = typed_insert [OF conjunct1 [OF vars_wf_table [OF wf scope]] ins dt]
  have r: "r" using t [of lv] new room by simp
  have copy: "copy_value n st (Scalar v) = ret (Scalar v)" by (simp add: copy_value_def CopyRvalItem_def)
  have add: "AddVariableHash n st scope lv (Scalar v) dt = ret (True, set_table (scope_ptr p) t st)"
    using len self scope new ins r by (simp add: AddVariableHash_def no_value_def store_variable_def contains_itself_def copy)
  have "find_var (set_table (scope_ptr p) t st) s k =
      (if GetScope st s = Some p \<and> k = lv then Some \<lparr>lval = lv, rval = Scalar v, dtype = dt\<rparr> else find_var st s k)" for s k
  proof (cases "GetScope st s = Some p")
    case True
    then have "find_var st s k = HashLookupElement (hashtable p) k" by (simp add: find_var_def)
    with True t [of k] r show ?thesis by (simp add: find_var_set_table [OF wf scope] NewAssoc_def)
  qed (simp add: find_var_set_table [OF wf scope])
  with add vars_wf_set_table [OF wf conjunct1 [OF t]] show ?thesis by blast
qed

text \<open>C21: in a scope with a name that fits the buffers and with at most fourteen variables, so that its table is the small one, \<open>NewScalar\<close>
  of a name without a dollar sign or a dot gives the variable its value and type, when the value does not contain the variable itself, and leaves
  every other variable of every scope as it was; the scopes stay well formed.  In a larger scope other variables can get lost, as
  \<open>HugeHashDeleteElement_lookup\<close> says.\<close>

lemma NewScalar_stores:
  assumes wf: "vars_wf st" and scope: "GetScope st scope = Some p" "length scope < CF_MAXVARSIZE"
    and small: "hashtable p = TinyTable vs" and lv: "simple_var lv"
    and self: "\<not> StringContainsVar (Some v) lv" and dt: "dt \<noteq> cf_notype"
  shows "\<exists>st'. NewScalar (Suc n) st scope lv v dt = ret st' \<and> vars_wf st' \<and>
    GetVariable (Suc n) st' scope lv = ret (dt, Scalar v) \<and>
    (\<forall>s k. find_var st' s k = (if GetScope st s = Some p \<and> k = lv then Some \<lparr>lval = lv, rval = Scalar v, dtype = dt\<rparr> else find_var st s k))"
proof -
  have len: "length lv \<le> CF_MAXVARSIZE" using lv unfolding simple_var_def by linarith
  have typed: "typed_table (TinyTable vs)" using vars_wf_table [OF wf scope(1)] small by simp
  note del = typed_delete [OF typed, of lv]
  have get: "GetVariable (Suc n) st scope lv =
      ret (case find_var st scope lv of None \<Rightarrow> (cf_notype, Scalar lv) | Some a \<Rightarrow> (dtype a, CfAssoc.rval a))"
    by (rule GetVariable_simple [OF lv scope(2)])
  let ?st1 = "if find_var st scope lv = None then st else DeleteScalar st scope lv"
  have new: "NewScalar (Suc n) st scope lv v dt =
      run_bind (AddVariableHash (Suc n) ?st1 scope lv (Scalar v) dt) (\<lambda>(_, st2). ret st2)"
  proof (cases "find_var st scope lv")
    case None
    then show ?thesis unfolding NewScalar_def get using scope by (simp add: Let_def)
  next
    case (Some a)
    then have "dtype a \<noteq> cf_notype" using typed scope small by (simp add: find_var_def typed_table_def)
    with Some show ?thesis unfolding NewScalar_def get using scope by (simp add: Let_def)
  qed
  have "\<exists>p1. GetScope ?st1 scope = Some p1 \<and> vars_wf ?st1 \<and> HashLookupElement (hashtable p1) lv = None \<and> \<not> table_full (hashtable p1) \<and>
      (\<forall>s. GetScope ?st1 s = Some p1 \<longleftrightarrow> GetScope st s = Some p) \<and>
      (\<forall>s k. find_var ?st1 s k = (if GetScope st s = Some p \<and> k = lv then None else find_var st s k))"
  proof (cases "find_var st scope lv")
    case None
    then show ?thesis using wf scope small by (auto simp: find_var_def table_full_def)
  next
    case (Some a)
    let ?t = "snd (HashDeleteElement (TinyTable vs) lv)"
    have st1: "?st1 = set_table (scope_ptr p) ?t st" using Some scope small by (simp add: DeleteScalar_def)
    have ptr: "GetScope ?st1 s = Some (p\<lparr>hashtable := ?t\<rparr>) \<longleftrightarrow> GetScope st s = Some p" for s
    proof
      assume "GetScope ?st1 s = Some (p\<lparr>hashtable := ?t\<rparr>)"
      then obtain q where q: "GetScope st s = Some q" "(if scope_ptr q = scope_ptr p then q\<lparr>hashtable := ?t\<rparr> else q) = p\<lparr>hashtable := ?t\<rparr>"
        unfolding st1 GetScope_set_table by auto
      then have "scope_ptr q = scope_ptr p" by (auto split: if_splits dest: arg_cong [of _ _ scope_ptr])
      with q vars_wf_ptr [OF wf q(1) scope(1)] show "GetScope st s = Some p" by simp
    qed (simp add: st1 GetScope_set_table)
    have tiny: "\<not> table_full ?t" by (simp add: HashDeleteElement_def table_full_def split: prod.splits)
    have "find_var ?st1 s k = (if GetScope st s = Some p \<and> k = lv then None else find_var st s k)" for s k
      unfolding st1 find_var_set_table [OF wf scope(1)] using typed_delete [OF typed, of lv k] small by (auto simp: find_var_def)
    moreover have "GetScope ?st1 scope = Some (p\<lparr>hashtable := ?t\<rparr>)" using ptr scope by blast
    moreover have "HashLookupElement ?t lv = None" using typed_delete [OF typed, of lv lv] by simp
    moreover have "vars_wf ?st1" unfolding st1 using vars_wf_set_table [OF wf] del by blast
    ultimately show ?thesis using ptr tiny by (intro exI [of _ "p\<lparr>hashtable := ?t\<rparr>"]) simp
  qed
  then obtain p1 where p1: "GetScope ?st1 scope = Some p1" "vars_wf ?st1" "HashLookupElement (hashtable p1) lv = None"
    "\<not> table_full (hashtable p1)" "\<And>s. GetScope ?st1 s = Some p1 \<longleftrightarrow> GetScope st s = Some p"
    "\<And>s k. find_var ?st1 s k = (if GetScope st s = Some p \<and> k = lv then None else find_var st s k)" by blast
  from AddVariableHash_new [OF p1(2,1,3,4) len self dt, of "Suc n"] obtain st' where st':
    "AddVariableHash (Suc n) ?st1 scope lv (Scalar v) dt = ret (True, st')" "vars_wf st'"
    "\<And>s k. find_var st' s k = (if GetScope ?st1 s = Some p1 \<and> k = lv then Some \<lparr>lval = lv, rval = Scalar v, dtype = dt\<rparr> else find_var ?st1 s k)"
    by blast
  have all: "find_var st' s k = (if GetScope st s = Some p \<and> k = lv then Some \<lparr>lval = lv, rval = Scalar v, dtype = dt\<rparr> else find_var st s k)" for s k
    using st'(3) [of s k] p1(5) [of s] p1(6) [of s k] by auto
  have "GetVariable (Suc n) st' scope lv = ret (dt, Scalar v)"
    unfolding GetVariable_simple [OF lv scope(2)] all using scope(1) by simp
  moreover have "NewScalar (Suc n) st scope lv v dt = ret st'" unfolding new st'(1) by simp
  ultimately show ?thesis using st'(2) all by blast
qed

lemma looping_wf: "vars_wf looping_state"
  by (auto simp: vars_wf_def looping_state_def looping_scope_def typed_table_def table_wf_def TINY_LIMIT_def
      HashLookupElement_def TinyHashLookupElement_def split: if_splits)

lemma NewScalar_stores_witness:
  "\<exists>st'. NewScalar 1 looping_state ''b'' ''x'' ''1'' cf_int = ret st' \<and> GetVariable 1 st' ''b'' ''x'' = ret (cf_int, Scalar ''1'') \<and>
    find_var st' ''b'' ''y'' = Some \<lparr>lval = ''y'', rval = Scalar ''$($(x))'', dtype = cf_str\<rparr>"
proof -
  have p: "GetScope looping_state ''b'' = Some looping_scope" by (simp add: GetScope_def looping_state_def looping_scope_def)
  have t: "hashtable looping_scope = TinyTable [\<lparr>lval = ''x'', rval = Scalar ''$($(y))'', dtype = cf_str\<rparr>, \<lparr>lval = ''y'', rval = Scalar ''$($(x))'', dtype = cf_str\<rparr>]"
    by (simp add: looping_scope_def)
  have old: "find_var looping_state ''b'' ''y'' = Some \<lparr>lval = ''y'', rval = Scalar ''$($(x))'', dtype = cf_str\<rparr>"
    using p t by (simp add: find_var_def HashLookupElement_def TinyHashLookupElement_def)
  have "\<not> StringContainsVar (Some ''1'') ''x''" by (simp add: StringContainsVar_def)
  from NewScalar_stores [OF looping_wf p _ t _ this, of cf_int 0]
  obtain st' where "NewScalar (Suc 0) looping_state ''b'' ''x'' ''1'' cf_int = ret st'"
    "GetVariable (Suc 0) st' ''b'' ''x'' = ret (cf_int, Scalar ''1'')" "find_var st' ''b'' ''y'' = find_var looping_state ''b'' ''y''"
    by (auto simp: simple_var_def CF_MAXVARSIZE_def simp del: GetVariable.simps)
  with old show ?thesis by (intro exI [of _ st']) (simp del: GetVariable.simps)
qed

section \<open>Nested iterations\<close>

text \<open>What happens between \<open>PushThisScope\<close> and \<open>PopThisScope\<close>: changes of scopes and variables, and further frames.\<close>

datatype var_op =
    DoNewScope string
  | DoDeleteScope string
  | DoCopyScope string string
  | DoScalar string string string cfdatatype
  | DoList string string "rval list" cfdatatype
  | DoDelete string string
  | DoFrame "var_op list"

fun run_var_op :: "nat \<Rightarrow> var_op \<Rightarrow> var_state \<Rightarrow> var_state run"
  and run_var_ops :: "nat \<Rightarrow> var_op list \<Rightarrow> var_state \<Rightarrow> var_state run" where
  "run_var_op n (DoNewScope s) st = ret (NewScope st s)"
| "run_var_op n (DoDeleteScope s) st = ret (DeleteScope st s)"
| "run_var_op n (DoCopyScope s t) st = CopyScope n st s t"
| "run_var_op n (DoScalar s lv v dt) st = NewScalar n st s lv v dt"
| "run_var_op n (DoList s lv l dt) st = NewList n st s lv l dt"
| "run_var_op n (DoDelete s lv) st = ret (DeleteScalar st s lv)"
| "run_var_op n (DoFrame ops) st =
     run_bind (run_var_ops n ops (PushThisScope st)) (\<lambda>st1. Some (PopThisScope st1))"
| "run_var_ops n [] st = ret st"
| "run_var_ops n (op1 # ops) st = run_bind (run_var_op n op1 st) (run_var_ops n ops)"

text \<open>
  \<open>PushThisScope\<close> does nothing when there is no scope \<open>this\<close>, but \<open>PopThisScope\<close> takes a frame off all the same.  So the frames of a run
  match when each one begins with a scope \<open>this\<close>.
\<close>

fun frames_match :: "nat \<Rightarrow> var_op \<Rightarrow> var_state \<Rightarrow> bool"
  and frames_match_all :: "nat \<Rightarrow> var_op list \<Rightarrow> var_state \<Rightarrow> bool" where
  "frames_match n (DoNewScope s) st = True"
| "frames_match n (DoDeleteScope s) st = True"
| "frames_match n (DoCopyScope s t) st = True"
| "frames_match n (DoScalar s lv v dt) st = True"
| "frames_match n (DoList s lv l dt) st = True"
| "frames_match n (DoDelete s lv) st = True"
| "frames_match n (DoFrame ops) st = (GetScope st ''this'' \<noteq> None \<and> frames_match_all n ops (PushThisScope st))"
| "frames_match_all n [] st = True"
| "frames_match_all n (op1 # ops) st =
     (frames_match n op1 st \<and> (case run_var_op n op1 st of Some (Inr st1) \<Rightarrow> frames_match_all n ops st1 | _ \<Rightarrow> True))"

text \<open>The names \<open>this_1\<close>, \<open>this_2\<close>, \<dots> belong to the frames.\<close>

definition free_name :: "string \<Rightarrow> bool" where
  "free_name s \<longleftrightarrow> \<not> starts_with ''this_'' s \<and> \<not> starts_with ''default:this_'' s"

fun op_free :: "var_op \<Rightarrow> bool" where
  "op_free (DoNewScope s) = free_name s"
| "op_free (DoDeleteScope s) = free_name s"
| "op_free (DoCopyScope s t) = free_name s"
| "op_free (DoScalar s lv v dt) = free_name s"
| "op_free (DoList s lv l dt) = free_name s"
| "op_free (DoDelete s lv) = free_name s"
| "op_free (DoFrame ops) = list_all op_free ops"

definition ptrs_wf :: "var_state \<Rightarrow> bool" where
  "ptrs_wf st \<longleftrightarrow> distinct (map scope_ptr (VSCOPE st)) \<and> (\<forall>p \<in> set (VSCOPE st). scope_ptr p < next_ptr st) \<and>
     (\<forall>p \<in> set (VSCOPE st). \<forall>q \<in> set (VSCOPE st). scope_name p = ''this'' \<longrightarrow> scope_name q = ''this'' \<longrightarrow> p = q)"

lemma ptrs_wf_inj: "ptrs_wf st \<Longrightarrow> p \<in> set (VSCOPE st) \<Longrightarrow> q \<in> set (VSCOPE st) \<Longrightarrow> scope_ptr p = scope_ptr q \<Longrightarrow> p = q"
  by (auto simp: ptrs_wf_def distinct_map dest: inj_onD)

text \<open>The frames are kept: the stack is as before, and so are the scopes that were put aside.\<close>

definition frames_kept :: "var_state \<Rightarrow> var_state \<Rightarrow> bool" where
  "frames_kept st st' \<longleftrightarrow> CF_STCK st' = CF_STCK st \<and> CF_STCKFRAME st' = CF_STCKFRAME st \<and>
     (\<forall>p \<in> set (VSCOPE st). starts_with ''this_'' (scope_name p) \<longrightarrow> p \<in> set (VSCOPE st'))"

lemma frames_kept_refl: "frames_kept st st"
  by (simp add: frames_kept_def)

lemma frames_kept_trans: "frames_kept a b \<Longrightarrow> frames_kept b c \<Longrightarrow> frames_kept a c"
  by (auto simp: frames_kept_def)

lemma GetScope_name:
  assumes "GetScope st s = Some p" "free_name s"
  shows "\<not> starts_with ''this_'' (scope_name p)"
proof -
  let ?nm = "if starts_with ''default:'' s then drop (length ''default:'') s else s"
  have nm: "scope_name p = ?nm" using assms(1) by (auto simp: GetScope_def Let_def find_Some_iff)
  show ?thesis
  proof (cases "starts_with ''default:'' s")
    case True
    then obtain u where u: "s = ''default:'' @ u" by (auto simp: starts_with_iff)
    with assms(2) have "\<not> starts_with ''this_'' u" by (auto simp: free_name_def)
    with nm u show ?thesis by simp
  next
    case False
    with nm assms(2) show ?thesis by (simp add: free_name_def)
  qed
qed

lemma keeps_set_table:
  assumes "ptrs_wf st" "GetScope st s = Some p" "free_name s"
  shows "ptrs_wf (set_table (scope_ptr p) t st) \<and> frames_kept st (set_table (scope_ptr p) t st)"
proof -
  have ptrs: "map scope_ptr (VSCOPE (set_table (scope_ptr p) t st)) = map scope_ptr (VSCOPE st)"
    by (auto simp: set_table_def at_scope_def)
  have "scope_ptr q \<noteq> scope_ptr p" if "q \<in> set (VSCOPE st)" "starts_with ''this_'' (scope_name q)" for q
  proof
    assume "scope_ptr q = scope_ptr p"
    moreover have "inj_on scope_ptr (set (VSCOPE st))" using assms(1) by (simp add: ptrs_wf_def distinct_map)
    ultimately have "q = p" using that(1) GetScope_mem [OF assms(2)] by (auto dest: inj_onD)
    with that(2) GetScope_name [OF assms(2,3)] show False by simp
  qed
  then have "frames_kept st (set_table (scope_ptr p) t st)"
    by (auto simp: frames_kept_def set_table_def at_scope_def image_iff)
  moreover have "ptrs_wf (set_table (scope_ptr p) t st)"
  proof -
    have "a = b" if "a \<in> set (VSCOPE st)" "b \<in> set (VSCOPE st)" "scope_name a = ''this''" "scope_name b = ''this''" for a b
      using assms(1) that by (auto simp: ptrs_wf_def)
    then show ?thesis
      using assms(1) unfolding ptrs_wf_def ptrs by (auto simp: set_table_def at_scope_def)
  qed
  ultimately show ?thesis by simp
qed

lemma keeps_NewScope: "ptrs_wf st \<Longrightarrow> ptrs_wf (NewScope st s) \<and> frames_kept st (NewScope st s)"
  by (auto simp: NewScope_def ptrs_wf_def frames_kept_def list_ex_iff dest: less_SucI)

lemma remove_scope_set: "set (remove_scope s cs) \<subseteq> set cs"
  by (induction cs) auto

lemma remove_scope_keeps: "p \<in> set cs \<Longrightarrow> scope_name p \<noteq> s \<Longrightarrow> p \<in> set (remove_scope s cs)"
  by (induction cs) auto

lemma remove_scope_distinct: "distinct (map scope_ptr cs) \<Longrightarrow> distinct (map scope_ptr (remove_scope s cs))"
proof (induction cs)
  case (Cons c cs)
  then show ?case using remove_scope_set [of s cs] by auto
qed simp

lemma keeps_DeleteScope:
  assumes "ptrs_wf st" "\<not> starts_with ''this_'' s"
  shows "ptrs_wf (DeleteScope st s) \<and> frames_kept st (DeleteScope st s)"
proof -
  have "scope_name p \<noteq> s" if "starts_with ''this_'' (scope_name p)" for p using that assms(2) by auto
  then have "frames_kept st (DeleteScope st s)" by (auto simp: DeleteScope_def frames_kept_def intro: remove_scope_keeps)
  moreover have "ptrs_wf (DeleteScope st s)"
    using assms(1) unfolding ptrs_wf_def DeleteScope_def
    by (auto simp: remove_scope_distinct dest: subsetD [OF remove_scope_set])
  ultimately show ?thesis by simp
qed

lemma keeps_DeleteScalar: "ptrs_wf st \<Longrightarrow> free_name s \<Longrightarrow> ptrs_wf (DeleteScalar st s lv) \<and> frames_kept st (DeleteScalar st s lv)"
  by (auto simp: DeleteScalar_def frames_kept_refl split: option.splits dest: keeps_set_table)

lemma DeleteVariable_eq: "DeleteVariable st s lv = DeleteScalar st s lv"
  by (simp add: DeleteVariable_def DeleteScalar_def)

lemma store_variable_state:
  assumes "store_variable n st p lv v dt = ret (b, st')"
  shows "st' = st \<or> (\<exists>t. st' = set_table (scope_ptr p) t st)"
proof (cases "HashLookupElement (hashtable p) lv")
  case None
  with assms obtain v' where "(case HashInsertElement (\<lambda>_. v') (hashtable p) lv v dt of
      (True, t) \<Rightarrow> ret (True, set_table (scope_ptr p) t st) | (False, t) \<Rightarrow> Some (Inl FatalErrorExit)) = ret (b, st')"
    by (auto simp: store_variable_def ret_def run_bind_eq_ret)
  then show ?thesis by (auto simp: ret_def split: prod.splits bool.splits)
next
  case (Some a)
  with assms show ?thesis by (auto simp: store_variable_def ret_def run_bind_eq_ret split: if_splits)
qed

lemma AddVariableHash_state:
  assumes "AddVariableHash n st s lv v dt = ret (b, st')"
  shows "st' = st \<or> (\<exists>p t. GetScope st s = Some p \<and> st' = set_table (scope_ptr p) t st)"
  using assms store_variable_state [of n st _ lv v dt b st']
  by (auto simp: AddVariableHash_def ret_def split: if_splits option.splits)

lemma keeps_AddVariableHash:
  assumes "ptrs_wf st" "free_name s" "AddVariableHash n st s lv v dt = ret (b, st')"
  shows "ptrs_wf st' \<and> frames_kept st st'"
  using AddVariableHash_state [OF assms(3)] assms(1,2) keeps_set_table frames_kept_refl by blast

lemma keeps_after_delete:
  assumes "ptrs_wf st" "free_name s" "AddVariableHash n (if d then DeleteScalar st s lv else st) s lv v dt = ret (b, st')"
  shows "ptrs_wf st' \<and> frames_kept st st'"
proof -
  have "ptrs_wf (if d then DeleteScalar st s lv else st) \<and> frames_kept st (if d then DeleteScalar st s lv else st)"
    using keeps_DeleteScalar [OF assms(1,2)] assms(1) frames_kept_refl by simp
  with keeps_AddVariableHash [OF _ assms(2,3)] frames_kept_trans show ?thesis by blast
qed

lemma keeps_NewScalar:
  assumes "ptrs_wf st" "free_name s" "NewScalar n st s lv v dt = ret st'"
  shows "ptrs_wf st' \<and> frames_kept st st'"
proof (cases "GetScope st s")
  case None
  with assms show ?thesis by (simp add: NewScalar_def ret_def frames_kept_refl)
next
  case (Some p)
  with assms(3) obtain found b where
    "AddVariableHash n (if found \<noteq> cf_notype then DeleteScalar st s lv else st) s lv (Scalar v) dt = ret (b, st')"
    by (auto simp: NewScalar_def Let_def ret_def run_bind_eq_ret)
  then show ?thesis by (rule keeps_after_delete [OF assms(1,2)])
qed

lemma keeps_NewList:
  assumes "ptrs_wf st" "free_name s" "NewList n st s lv l dt = ret st'"
  shows "ptrs_wf st' \<and> frames_kept st st'"
proof -
  from assms(3) obtain found b where
    "AddVariableHash n (if found \<noteq> cf_notype then DeleteScalar st s lv else st) s lv (ListVal l) dt = ret (b, st')"
    unfolding NewList_def DeleteVariable_eq by (auto simp: Let_def ret_def run_bind_eq_ret)
  then show ?thesis by (rule keeps_after_delete [OF assms(1,2)])
qed

lemma keeps_CopyScope:
  assumes "ptrs_wf st" "free_name s" "CopyScope n st s t = ret st'"
  shows "ptrs_wf st' \<and> frames_kept st st'"
proof -
  note new = keeps_NewScope [OF assms(1), of s]
  from assms(3) have "st' = NewScope st s \<or> (\<exists>p u. GetScope (NewScope st s) s = Some p \<and> st' = set_table (scope_ptr p) u (NewScope st s))"
    by (auto simp: CopyScope_def Let_def ret_def run_bind_eq_ret split: option.splits)
  then show ?thesis
  proof
    assume "\<exists>p u. GetScope (NewScope st s) s = Some p \<and> st' = set_table (scope_ptr p) u (NewScope st s)"
    then obtain p u where "GetScope (NewScope st s) s = Some p" "st' = set_table (scope_ptr p) u (NewScope st s)" by blast
    with keeps_set_table [OF conjunct1 [OF new] _ assms(2)] new frames_kept_trans show ?thesis by blast
  qed (use new in simp)
qed

text \<open>A frame: what \<open>PushThisScope\<close> puts aside comes back.\<close>

definition framed :: "var_state \<Rightarrow> Scope \<Rightarrow> Scope" where
  "framed st p = p\<lparr>scope_name := take (CF_MAXVARSIZE - 1) (''this_'' @ show_nat (CF_STCKFRAME st + 1))\<rparr>"

lemma framed_name: "starts_with ''this_'' (scope_name (framed st p))"
  by (simp add: framed_def CF_MAXVARSIZE_def)

lemma Push_state:
  assumes "ptrs_wf st" "GetScope st ''this'' = Some p"
  shows "ptrs_wf (PushThisScope st)" "CF_STCK (PushThisScope st) = scope_ptr p # CF_STCK st"
    "CF_STCKFRAME (PushThisScope st) = CF_STCKFRAME st + 1" "framed st p \<in> set (VSCOPE (PushThisScope st))"
    "\<And>q. q \<in> set (VSCOPE st) \<Longrightarrow> starts_with ''this_'' (scope_name q) \<Longrightarrow> q \<in> set (VSCOPE (PushThisScope st))"
    "next_ptr (PushThisScope st) = next_ptr st"
proof -
  have p: "p \<in> set (VSCOPE st)" "scope_name p = ''this''"
    using assms(2) GetScope_mem by (auto simp: GetScope_def Let_def find_Some_iff)
  have push: "PushThisScope st = at_scope (scope_ptr p) (\<lambda>cp. cp\<lparr>scope_name := scope_name (framed st p)\<rparr>)
      (st\<lparr>CF_STCKFRAME := CF_STCKFRAME st + 1, CF_STCK := scope_ptr p # CF_STCK st\<rparr>)"
    using assms(2) by (simp add: PushThisScope_def Let_def PushStack_def framed_def)
  have ptrs: "map scope_ptr (VSCOPE (PushThisScope st)) = map scope_ptr (VSCOPE st)"
    by (auto simp: push at_scope_def)
  show nxt: "next_ptr (PushThisScope st) = next_ptr st" by (simp add: push at_scope_def)
  have name: "scope_name (framed st p) \<noteq> ''this''" using framed_name [of st p] by auto
  have no_this: "scope_name q \<noteq> ''this''" if "q \<in> set (VSCOPE (PushThisScope st))" for q
  proof
    assume q: "scope_name q = ''this''"
    with that name obtain r where r: "r \<in> set (VSCOPE st)" "scope_ptr r \<noteq> scope_ptr p" "q = r"
      by (auto simp: push at_scope_def split: if_splits)
    with q p assms(1) show False by (auto simp: ptrs_wf_def)
  qed
  have "\<forall>x \<in> set (map scope_ptr (VSCOPE st)). x < next_ptr st" using assms(1) by (simp add: ptrs_wf_def)
  then show "ptrs_wf (PushThisScope st)"
    using assms(1) no_this unfolding ptrs_wf_def nxt ptrs [symmetric] by simp
  show "CF_STCK (PushThisScope st) = scope_ptr p # CF_STCK st" "CF_STCKFRAME (PushThisScope st) = CF_STCKFRAME st + 1"
    by (simp_all add: push at_scope_def)
  show "framed st p \<in> set (VSCOPE (PushThisScope st))"
    unfolding push at_scope_def using p(1) by (auto simp: framed_def image_iff intro!: bexI [of _ p])
  fix q
  assume q: "q \<in> set (VSCOPE st)" "starts_with ''this_'' (scope_name q)"
  have "scope_ptr q \<noteq> scope_ptr p"
  proof
    assume "scope_ptr q = scope_ptr p"
    moreover have "inj_on scope_ptr (set (VSCOPE st))" using assms(1) by (simp add: ptrs_wf_def distinct_map)
    ultimately have "q = p" using q(1) p(1) by (auto dest: inj_onD)
    with q(2) p(2) show False by simp
  qed
  with q(1) show "q \<in> set (VSCOPE (PushThisScope st))" unfolding push at_scope_def by (auto intro!: image_eqI [of _ _ q])
qed

lemma find_unique:
  assumes "p \<in> set xs" "P p" "\<And>q. q \<in> set xs \<Longrightarrow> P q \<Longrightarrow> q = p"
  shows "List.find P xs = Some p"
proof (cases "List.find P xs")
  case None
  with assms(1,2) show ?thesis by (auto simp: find_None_iff)
next
  case (Some q)
  then have "q \<in> set xs" "P q" by (auto simp: find_Some_iff)
  with assms(3) Some show ?thesis by simp
qed

lemma remove_scope_gone:
  assumes "distinct (map scope_ptr cs)" "\<And>p q. p \<in> set cs \<Longrightarrow> q \<in> set cs \<Longrightarrow> scope_name p = s \<Longrightarrow> scope_name q = s \<Longrightarrow> p = q"
    and "p \<in> set (remove_scope s cs)"
  shows "scope_name p \<noteq> s"
  using assms
proof (induction cs)
  case (Cons c cs)
  show ?case
  proof (cases "scope_name c = s")
    case True
    with Cons.prems(3) have p: "p \<in> set cs" by simp
    show ?thesis
    proof
      assume "scope_name p = s"
      with True p Cons.prems(2) [of c p] have "c = p" by simp
      with p Cons.prems(1) show False by auto
    qed
  next
    case False
    have "\<And>p q. p \<in> set cs \<Longrightarrow> q \<in> set cs \<Longrightarrow> scope_name p = s \<Longrightarrow> scope_name q = s \<Longrightarrow> p = q"
      using Cons.prems(2) by auto
    with False Cons show ?thesis by auto
  qed
qed simp

lemma Pop_state:
  assumes wf: "ptrs_wf st" and stck: "CF_STCK st = scope_ptr p # stck" and frame: "CF_STCKFRAME st = Suc f"
    and q: "q \<in> set (VSCOPE st)" "scope_ptr q = scope_ptr p" "starts_with ''this_'' (scope_name q)"
    and p: "q\<lparr>scope_name := ''this''\<rparr> = p"
  shows "\<exists>st'. PopThisScope st = Inr st' \<and> ptrs_wf st' \<and> CF_STCK st' = stck \<and> CF_STCKFRAME st' = f \<and>
    GetScope st' ''this'' = Some p \<and>
    (\<forall>r \<in> set (VSCOPE st). starts_with ''this_'' (scope_name r) \<longrightarrow> r \<noteq> q \<longrightarrow> r \<in> set (VSCOPE st'))"
proof -
  let ?st1 = "DeleteScope st ''this''"
  let ?st' = "at_scope (scope_ptr p) (\<lambda>cp. cp\<lparr>scope_name := ''this''\<rparr>) (?st1\<lparr>CF_STCK := stck, CF_STCKFRAME := f\<rparr>)"
  have wf1: "ptrs_wf ?st1" and kept: "frames_kept st ?st1"
    using keeps_DeleteScope [OF wf, of "''this''"] by simp_all
  have q1: "q \<in> set (VSCOPE ?st1)" using kept q by (simp add: frames_kept_def)
  have fields: "CF_STCK ?st1 = CF_STCK st" "CF_STCKFRAME ?st1 = CF_STCKFRAME st" by (simp_all add: DeleteScope_def)
  have pop: "PopThisScope st = Inr ?st'"
    using q1 q(2) by (auto simp: PopThisScope_def frame stck fields PopStack_def list_ex_iff Let_def)
  have gone: "scope_name r \<noteq> ''this''" if "r \<in> set (VSCOPE ?st1)" for r
    using that wf unfolding DeleteScope_def ptrs_wf_def
    by (intro remove_scope_gone [of "VSCOPE st"]) auto
  have only: "r = q" if "r \<in> set (VSCOPE ?st1)" "scope_ptr r = scope_ptr p" for r
    using ptrs_wf_inj [OF wf1 that(1) q1] that(2) q(2) by simp
  have mem: "r \<in> set (VSCOPE ?st') \<longleftrightarrow> r = p \<or> (r \<in> set (VSCOPE ?st1) \<and> r \<noteq> q)" for r
  proof -
    have "r \<in> set (VSCOPE ?st') \<longleftrightarrow> (\<exists>x \<in> set (VSCOPE ?st1). r = (if scope_ptr x = scope_ptr p then x\<lparr>scope_name := ''this''\<rparr> else x))"
      by (auto simp: at_scope_def)
    also have "\<dots> \<longleftrightarrow> r = p \<or> (r \<in> set (VSCOPE ?st1) \<and> r \<noteq> q)"
      using only q1 q(2) p by (metis (no_types, lifting))
    finally show ?thesis .
  qed
  have the_this: "r = p" if "r \<in> set (VSCOPE ?st')" "scope_name r = ''this''" for r
    using that mem gone by blast
  have pname: "scope_name p = ''this''" using p by (metis Scope.select_convs(2) Scope.surjective Scope.update_convs(2))
  have "GetScope ?st' ''this'' = Some p"
    unfolding GetScope_def using the_this pname mem by (simp add: Let_def) (intro find_unique; auto)
  moreover have "ptrs_wf ?st'"
  proof -
    have ptrs: "map scope_ptr (VSCOPE ?st') = map scope_ptr (VSCOPE ?st1)" by (auto simp: at_scope_def)
    have nxt: "next_ptr ?st' = next_ptr ?st1" by (simp add: at_scope_def)
    have "\<forall>x \<in> set (map scope_ptr (VSCOPE ?st1)). x < next_ptr ?st1" using wf1 by (simp add: ptrs_wf_def)
    then have "\<forall>r \<in> set (VSCOPE ?st'). scope_ptr r < next_ptr ?st'" unfolding nxt ptrs [symmetric] by simp
    moreover have "distinct (map scope_ptr (VSCOPE ?st'))" unfolding ptrs using wf1 by (simp add: ptrs_wf_def)
    ultimately show ?thesis unfolding ptrs_wf_def using the_this by blast
  qed
  moreover have "CF_STCK ?st' = stck" "CF_STCKFRAME ?st' = f" by (simp_all add: at_scope_def)
  moreover have "\<forall>r \<in> set (VSCOPE st). starts_with ''this_'' (scope_name r) \<longrightarrow> r \<noteq> q \<longrightarrow> r \<in> set (VSCOPE ?st')"
    using kept mem by (simp add: frames_kept_def)
  ultimately show ?thesis using pop by blast
qed

lemma frame_step:
  assumes wf: "ptrs_wf st" and has: "GetScope st ''this'' = Some p"
    and inner: "ptrs_wf st1" "frames_kept (PushThisScope st) st1"
  shows "\<exists>st'. PopThisScope st1 = Inr st' \<and> ptrs_wf st' \<and> frames_kept st st' \<and> GetScope st' ''this'' = Some p"
proof -
  note push = Push_state [OF wf has]
  have p: "p \<in> set (VSCOPE st)" "scope_name p = ''this''"
    using has GetScope_mem by (auto simp: GetScope_def Let_def find_Some_iff)
  have q: "framed st p \<in> set (VSCOPE st1)" "scope_ptr (framed st p) = scope_ptr p"
    using inner(2) push(4) framed_name by (auto simp: frames_kept_def framed_def)
  have named: "framed st p\<lparr>scope_name := ''this''\<rparr> = p" using p(2) by (cases p) (simp add: framed_def)
  have stck: "CF_STCK st1 = scope_ptr p # CF_STCK st" "CF_STCKFRAME st1 = Suc (CF_STCKFRAME st)"
    using inner(2) push(2,3) by (simp_all add: frames_kept_def)
  from Pop_state [OF inner(1) stck q framed_name named] obtain st' where st':
    "PopThisScope st1 = Inr st'" "ptrs_wf st'" "CF_STCK st' = CF_STCK st" "CF_STCKFRAME st' = CF_STCKFRAME st"
    "GetScope st' ''this'' = Some p"
    "\<forall>r \<in> set (VSCOPE st1). starts_with ''this_'' (scope_name r) \<longrightarrow> r \<noteq> framed st p \<longrightarrow> r \<in> set (VSCOPE st')" by blast
  have "r \<in> set (VSCOPE st')" if "r \<in> set (VSCOPE st)" "starts_with ''this_'' (scope_name r)" for r
  proof -
    have "r \<in> set (VSCOPE st1)" using push(5) [OF that] that(2) inner(2) by (simp add: frames_kept_def)
    moreover have "r \<noteq> framed st p"
    proof
      assume "r = framed st p"
      then have "scope_ptr r = scope_ptr p" using q(2) by simp
      with ptrs_wf_inj [OF wf that(1) p(1)] that(2) p(2) show False by simp
    qed
    ultimately show ?thesis using st'(6) that(2) by blast
  qed
  with st' show ?thesis by (auto simp: frames_kept_def)
qed

lemma run_var_keeps:
  "op_free op1 \<Longrightarrow> frames_match n op1 st \<Longrightarrow> ptrs_wf st \<Longrightarrow> run_var_op n op1 st = ret st' \<Longrightarrow> ptrs_wf st' \<and> frames_kept st st'"
  "list_all op_free ops \<Longrightarrow> frames_match_all n ops st \<Longrightarrow> ptrs_wf st \<Longrightarrow> run_var_ops n ops st = ret st' \<Longrightarrow> ptrs_wf st' \<and> frames_kept st st'"
proof (induction n op1 st and n ops st arbitrary: st' and st' rule: run_var_op_run_var_ops.induct)
  case (1 n s st)
  then show ?case by (auto simp: ret_def keeps_NewScope)
next
  case (2 n s st)
  then show ?case using keeps_DeleteScope by (auto simp: ret_def free_name_def)
next
  case (3 n s t st)
  then show ?case using keeps_CopyScope by simp
next
  case (4 n s lv v dt st)
  then show ?case using keeps_NewScalar by simp
next
  case (5 n s lv l dt st)
  then show ?case using keeps_NewList by simp
next
  case (6 n s lv st)
  then show ?case by (auto simp: ret_def keeps_DeleteScalar)
next
  case (7 n ops st)
  from "7.prems"(2) obtain p where p: "GetScope st ''this'' = Some p" by auto
  from "7.prems"(4) obtain st1 where st1: "run_var_ops n ops (PushThisScope st) = ret st1" "PopThisScope st1 = Inr st'"
    by (auto simp: ret_def run_bind_eq_ret)
  have "ptrs_wf st1 \<and> frames_kept (PushThisScope st) st1"
    using "7.IH" [OF _ _ Push_state(1) [OF "7.prems"(3) p] st1(1)] "7.prems"(1,2) by simp
  with frame_step [OF "7.prems"(3) p] obtain st2 where "PopThisScope st1 = Inr st2" "ptrs_wf st2" "frames_kept st st2" by blast
  with st1(2) show ?case by simp
next
  case (8 n st)
  then show ?case by (simp add: ret_def frames_kept_refl)
next
  case (9 n op1 ops st)
  from "9.prems"(4) obtain st1 where st1: "run_var_op n op1 st = ret st1" "run_var_ops n ops st1 = ret st'"
    by (auto simp: ret_def run_bind_eq_ret)
  have free: "op_free op1" "list_all op_free ops" and fits: "frames_match n op1 st" "frames_match_all n ops st1"
    using "9.prems"(1,2) st1(1) by (simp_all add: ret_def)
  have one: "ptrs_wf st1 \<and> frames_kept st st1" using "9.IH"(1) [OF free(1) fits(1) "9.prems"(3) st1(1)] .
  then have "ptrs_wf st' \<and> frames_kept st1 st'" using "9.IH"(2) [OF _ free(2) fits(2) _ st1(2)] st1(1) by (simp add: ret_def)
  with one frames_kept_trans show ?case by blast
qed

text \<open>C22: whatever a run inside a frame does, if it ends, its own frames match and it leaves the scopes \<open>this_1\<close>, \<open>this_2\<close>, \<dots> alone, the
  scope \<open>this\<close> comes back with its variables, the stack is as before, and no freed scope is touched.\<close>

lemma PopThisScope_restores:
  assumes "ptrs_wf st" "GetScope st ''this'' = Some p" "list_all op_free ops" "frames_match_all n ops (PushThisScope st)"
    and "run_var_ops n ops (PushThisScope st) = ret st1"
  shows "\<exists>st'. run_var_op n (DoFrame ops) st = ret st' \<and> GetScope st' ''this'' = Some p \<and> CF_STCK st' = CF_STCK st \<and>
    CF_STCKFRAME st' = CF_STCKFRAME st \<and> ptrs_wf st'"
proof -
  have "ptrs_wf st1 \<and> frames_kept (PushThisScope st) st1"
    using run_var_keeps(2) [OF assms(3,4) Push_state(1) [OF assms(1,2)] assms(5)] .
  with frame_step [OF assms(1,2)] obtain st' where
    "PopThisScope st1 = Inr st'" "ptrs_wf st'" "frames_kept st st'" "GetScope st' ''this'' = Some p" by blast
  with assms(2,5) show ?thesis by (auto simp: ret_def frames_kept_def)
qed

text \<open>A frame with an inner frame, around a scope \<open>this\<close> with a variable of its own.\<close>

lemma PopThisScope_restores_witness:
  "\<exists>st'. run_var_op 5 (DoFrame [DoCopyScope ''this'' ''b'', DoScalar ''this'' ''i'' ''1'' cf_str, DoFrame [DoNewScope ''this'']])
     \<lparr>VSCOPE = [\<lparr>scope_ptr = 1, scope_name = ''this'', hashtable = TinyTable []\<rparr>], CONTEXTID = ''b'', CF_STCK = [], CF_STCKFRAME = 0, next_ptr = 2\<rparr>
   = ret st' \<and> GetScope st' ''this'' = Some \<lparr>scope_ptr = 1, scope_name = ''this'', hashtable = TinyTable []\<rparr>"
proof -
  let ?p = "\<lparr>scope_ptr = 1, scope_name = ''this'', hashtable = TinyTable []\<rparr> :: Scope"
  let ?st = "\<lparr>VSCOPE = [?p], CONTEXTID = ''b'', CF_STCK = [], CF_STCKFRAME = 0, next_ptr = 2\<rparr> :: var_state"
  let ?ops = "[DoCopyScope ''this'' ''b'', DoScalar ''this'' ''i'' ''1'' cf_str, DoFrame [DoNewScope ''this'']]"
  have "ptrs_wf ?st" "GetScope ?st ''this'' = Some ?p" "list_all op_free ?ops"
    by (simp_all add: ptrs_wf_def GetScope_def free_name_def)
  moreover have "frames_match_all 5 ?ops (PushThisScope ?st)" by code_simp
  moreover have "\<exists>st1. run_var_ops 5 ?ops (PushThisScope ?st) = ret st1"
  proof -
    have "case run_var_ops 5 ?ops (PushThisScope ?st) of Some (Inr _) \<Rightarrow> True | _ \<Rightarrow> False" by code_simp
    then show ?thesis by (auto simp: ret_def split: option.splits sum.splits)
  qed
  ultimately show ?thesis using PopThisScope_restores [of ?st ?p ?ops 5] by blast
qed

text \<open>An inner frame without a scope \<open>this\<close> takes the outer one off the stack.\<close>

lemma inner_frame_pops_outer:
  "(case run_var_op 5 (DoFrame [DoFrame []])
     \<lparr>VSCOPE = [\<lparr>scope_ptr = 1, scope_name = ''this'', hashtable = TinyTable []\<rparr>], CONTEXTID = ''b'', CF_STCK = [7], CF_STCKFRAME = 1, next_ptr = 2\<rparr> of
     Some (Inl UseAfterFree) \<Rightarrow> True | _ \<Rightarrow> False)"
  by code_simp

end
