(* ===== verification/CF_Iteration.thy ===== *)
theory CF_Iteration
  imports CF_VariableProofs
begin

text \<open>
  \<open>src/iteration.c\<close>, \<open>DeRefListsInHashtable\<close> of \<open>src/vars.c\<close> and the search for list variables of \<open>src/expand.c\<close>.  A promise
  that mentions list variables is applied once for each combination of their items.  Every such variable is a wheel: its
  items with a blank \<open>cf_null\<close> at both ends, and a pointer to the current one, as in an odometer.
\<close>

section \<open>Wheels\<close>

definition CF_NULL_VALUE :: string where
  "CF_NULL_VALUE = ''cf_null''"

text \<open>\<open>state_ptr\<close> is an index of \<open>wheel_items\<close>, \<open>None\<close> when the pointer is NULL.\<close>

record wheel =
  wheel_name :: string
  wheel_type :: cfdatatype
  wheel_items :: "rval list"
  state_ptr :: "nat option"

definition link_from :: "rval list \<Rightarrow> nat \<Rightarrow> nat option" where
  "link_from l i = (if i < length l then Some i else None)"

definition wheel_current :: "wheel \<Rightarrow> rval option" where
  "wheel_current w = map_option ((!) (wheel_items w)) (state_ptr w)"

definition reset_wheel :: "wheel \<Rightarrow> wheel" where
  "reset_wheel w = w\<lparr>state_ptr := link_from (wheel_items w) 1\<rparr>"

text \<open>The association of a variable becomes a wheel: blanks in front and at the end, the pointer behind the first blank.\<close>

definition OrthogAppendRlist :: "wheel list \<Rightarrow> string \<Rightarrow> rval \<Rightarrow> cfdatatype \<Rightarrow> wheel list res" where
  "OrthogAppendRlist start lv v dt = (case v of
     ListVal l \<Rightarrow>
       let items = AppendRlist (PrependRlist l (Scalar CF_NULL_VALUE)) (Scalar CF_NULL_VALUE)
       in Inr (start @ [\<lparr>wheel_name = lv, wheel_type = dt, wheel_items = items, state_ptr = link_from items 1\<rparr>])
   | _ \<Rightarrow> Inl OutOfBounds)"

definition NullIterators :: "wheel list \<Rightarrow> bool" where
  "NullIterators iterator = list_ex (\<lambda>w. wheel_current w = Some (Scalar CF_NULL_VALUE)) iterator"

definition EndOfIteration :: "wheel list \<Rightarrow> bool" where
  "EndOfIteration iterator = list_all (\<lambda>w. case state_ptr w of None \<Rightarrow> True | Some i \<Rightarrow> Suc i \<ge> length (wheel_items w)) iterator"

text \<open>\<open>IncrementIterationContextInternal\<close>; the body of its loop over blanks is run at most once.\<close>

fun IncrementIterationContext :: "wheel list \<Rightarrow> bool \<times> wheel list" where
  "IncrementIterationContext [] = (False, [])"
| "IncrementIterationContext (w # ws) = (case state_ptr w of
     None \<Rightarrow> (False, w # ws)
   | Some i \<Rightarrow>
       if Suc i \<ge> length (wheel_items w) then
         if ws = [] then (False, [w])
         else (case IncrementIterationContext ws of
             (True, ws') \<Rightarrow> (True, reset_wheel w # ws')
           | (False, ws') \<Rightarrow> (False, w # ws'))
       else
         let w1 = w\<lparr>state_ptr := Some (Suc i)\<rparr> in
         if NullIterators (w1 # ws) then
           (case IncrementIterationContext ws of
             (True, ws') \<Rightarrow> (True, reset_wheel w1 # ws')
           | (False, ws') \<Rightarrow>
               let w2 = w1\<lparr>state_ptr := link_from (wheel_items w) (Suc (Suc i))\<rparr>
               in (\<not> EndOfIteration (w2 # ws'), w2 # ws'))
         else (\<not> EndOfIteration (w1 # ws), w1 # ws))"

section \<open>The iteration context\<close>

text \<open>Where \<open>GetVariable\<close> finds a variable: the scope and the name in its table.\<close>

definition place_in :: "var_state \<Rightarrow> string \<Rightarrow> string \<Rightarrow> string \<Rightarrow> (Scope \<times> string) option" where
  "place_in st scope lv sval =
     (let (scopeid, vlval) = (if IsQualifiedVariable sval then scan_scope sval else (take (CF_MAXVARSIZE - 1) scope, Some sval));
          ptr = (if IsQualifiedVariable sval then GetScope st scopeid else None)
      in case ptr of
           Some p \<Rightarrow> (case vlval of None \<Rightarrow> None | Some v \<Rightarrow> if HashLookupElement (hashtable p) v = None then None else Some (p, v))
         | None \<Rightarrow> (case GetScope st scopeid of None \<Rightarrow> None
             | Some p \<Rightarrow> if HashLookupElement (hashtable p) lv = None then None else Some (p, lv)))"

definition variable_place :: "nat \<Rightarrow> var_state \<Rightarrow> string \<Rightarrow> string \<Rightarrow> (Scope \<times> string) option run" where
  "variable_place n st scope lv =
     (if IsExpandable lv = 0 then ret (place_in st scope lv lv)
      else run_bind (ExpandPrivateScalar n st (CONTEXTID st) lv) (\<lambda>(complete, expbuf).
        ret (if complete then place_in st scope lv expbuf else None)))"

text \<open>The calls in a list are replaced by their values, in the table itself; \<open>eval\<close> is \<open>EvaluateFunctionCall\<close>.\<close>

fun evaluate_items :: "(string \<Rightarrow> rval list \<Rightarrow> var_state \<Rightarrow> (rval \<times> var_state) run) \<Rightarrow> rval list \<Rightarrow> var_state \<Rightarrow>
    (rval list \<times> var_state) run" where
  "evaluate_items eval [] st = ret ([], st)"
| "evaluate_items eval (Call f args # l) st =
     run_bind (eval f args st) (\<lambda>(v, st1). run_bind (evaluate_items eval l st1) (\<lambda>(l', st2). ret (v # l', st2)))"
| "evaluate_items eval (v # l) st = run_bind (evaluate_items eval l st) (\<lambda>(l', st1). ret (v # l', st1))"

definition store_items :: "(Scope \<times> string) option \<Rightarrow> rval list \<Rightarrow> cfdatatype \<Rightarrow> var_state \<Rightarrow> var_state" where
  "store_items place l dt st = (case place of
     None \<Rightarrow> st
   | Some (p, v) \<Rightarrow> at_scope (scope_ptr p) (\<lambda>cp. cp\<lparr>hashtable := set_assoc (hashtable cp) v (ListVal l) dt\<rparr>) st)"

text \<open>
  One turn of the loop of \<open>NewIterationContext\<close>.  A name that is not found is passed over, so there are fewer wheels than
  names.  The pointer that the code also keeps in the list of names is never read.
\<close>

definition add_wheel :: "nat \<Rightarrow> (string \<Rightarrow> rval list \<Rightarrow> var_state \<Rightarrow> (rval \<times> var_state) run) \<Rightarrow> string \<Rightarrow> string \<Rightarrow>
    wheel list \<times> var_state \<Rightarrow> (wheel list \<times> var_state) run" where
  "add_wheel n eval scopeid nm s = (case s of (ws, st) \<Rightarrow>
     run_bind (GetVariable n st scopeid nm) (\<lambda>(dt, v).
       if dt = cf_notype then ret (ws, st)
       else run_bind (case v of
              ListVal l \<Rightarrow> run_bind (variable_place n st scopeid nm) (\<lambda>place.
                run_bind (evaluate_items eval l st) (\<lambda>(l', st1). ret (ListVal l', store_items place l' dt st1)))
            | _ \<Rightarrow> ret (v, st)) (\<lambda>(v1, st1).
         run_bind (copy_value n st1 v1) (\<lambda>v2. run_bind (Some (OrthogAppendRlist ws nm v2 dt)) (\<lambda>ws'. ret (ws', st1))))))"

fun add_wheels :: "nat \<Rightarrow> (string \<Rightarrow> rval list \<Rightarrow> var_state \<Rightarrow> (rval \<times> var_state) run) \<Rightarrow> string \<Rightarrow> rval list \<Rightarrow>
    wheel list \<times> var_state \<Rightarrow> (wheel list \<times> var_state) run" where
  "add_wheels n eval scopeid [] s = ret s"
| "add_wheels n eval scopeid (rp # namelist) s =
     run_bind (add_wheel n eval scopeid (scalar_text rp) s) (add_wheels n eval scopeid namelist)"

definition NewIterationContext :: "nat \<Rightarrow> (string \<Rightarrow> rval list \<Rightarrow> var_state \<Rightarrow> (rval \<times> var_state) run) \<Rightarrow> var_state \<Rightarrow> string \<Rightarrow>
    rval list \<Rightarrow> (wheel list \<times> var_state) run" where
  "NewIterationContext n eval st scopeid namelist =
     run_bind (CopyScope n st ''this'' scopeid) (\<lambda>st1. add_wheels n eval scopeid namelist ([], st1))"

definition DeleteIterationContext :: "var_state \<Rightarrow> var_state" where
  "DeleteIterationContext st = DeleteScope st ''this''"

text \<open>
  The variables of the scope that have a wheel get its current item, and the type of an item.  At a wheel whose pointer is
  NULL, or on a call, the code returns from the whole function.
\<close>

fun deref_assoc :: "wheel list \<Rightarrow> (rval, cfdatatype) CfAssoc \<Rightarrow> (bool \<times> (rval, cfdatatype) CfAssoc) res" where
  "deref_assoc [] a = Inr (True, a)"
| "deref_assoc (w # ws) a =
     (if strcmp (wheel_name w) (lval a) = 0 then
        (case wheel_current w of
           None \<Rightarrow> Inr (False, a)
         | Some (Call _ _) \<Rightarrow> Inr (False, a)
         | Some (Scalar s) \<Rightarrow>
             let dt = (case dtype a of cf_slist \<Rightarrow> cf_str | cf_ilist \<Rightarrow> cf_int | cf_rlist \<Rightarrow> cf_real | d \<Rightarrow> d)
             in if dt \<noteq> dtype a \<or> is_scalar (CfAssoc.rval a)
                then deref_assoc ws (a\<lparr>CfAssoc.rval := Scalar s, dtype := dt\<rparr>)
                else Inl OutOfBounds
         | Some (ListVal _) \<Rightarrow> Inl OutOfBounds
         | Some _ \<Rightarrow> Inl NullDereference)
      else deref_assoc ws a)"

definition put_slot :: "(rval, cfdatatype) AssocHashTable \<Rightarrow> nat \<Rightarrow> (rval, cfdatatype) CfAssoc \<Rightarrow> (rval, cfdatatype) AssocHashTable" where
  "put_slot t i a = (case t of TinyTable vs \<Rightarrow> TinyTable (vs[i := a]) | HugeTable b \<Rightarrow> HugeTable (b(i := Used a)))"

lemma put_slot_limit: "table_limit (put_slot t i a) = table_limit t"
  by (simp add: put_slot_def table_limit_def split: AssocHashTable.split)

function deref_table :: "wheel list \<Rightarrow> (rval, cfdatatype) HashIterator \<Rightarrow> (rval, cfdatatype) AssocHashTable res" where
  "deref_table ws i =
     (case HashIteratorNext i of
        (None, _) \<Rightarrow> Inr (it_table i)
      | (Some a, i') \<Rightarrow> res_bind (deref_assoc ws a) (\<lambda>(more, a').
          let t = put_slot (it_table i') (it_pos i' - 1) a' in
          if more then deref_table ws (i'\<lparr>it_table := t\<rparr>) else Inr t))"
  by pat_completeness auto
termination
  by (relation "measure (\<lambda>(ws, i). table_limit (it_table i) - it_pos i)")
     (auto dest!: HashIteratorNext_progress [OF sym] simp: put_slot_limit diff_less_mono2)

declare deref_table.simps [simp del]

definition DeRefListsInHashtable :: "var_state \<Rightarrow> string \<Rightarrow> rval list \<Rightarrow> wheel list \<Rightarrow> var_state res" where
  "DeRefListsInHashtable st scope namelist dereflist =
     (if length namelist \<noteq> length dereflist then Inl FatalErrorExit
      else if namelist = [] then Inr st
      else (case GetScope st scope of
          None \<Rightarrow> Inl NullDereference
        | Some p \<Rightarrow> res_bind (deref_table dereflist (HashIteratorInit (hashtable p))) (\<lambda>t. Inr (set_table (scope_ptr p) t st))))"

section \<open>The loop of a promise\<close>

text \<open>
  The frame of \<open>ExpandPromiseAndDo\<close>: nothing is done when a list is empty, blanks in front are passed over (at most seven
  times), and then \<open>body\<close> is run for each state of the wheels.
\<close>

fun skip_nulls :: "nat \<Rightarrow> wheel list \<Rightarrow> wheel list" where
  "skip_nulls 0 lol = lol"
| "skip_nulls (Suc k) lol = (if NullIterators lol then skip_nulls k (snd (IncrementIterationContext lol)) else lol)"

fun promise_loop :: "nat \<Rightarrow> (wheel list \<Rightarrow> 's \<Rightarrow> 's run) \<Rightarrow> wheel list \<Rightarrow> 's \<Rightarrow> 's run" where
  "promise_loop 0 body lol st = None"
| "promise_loop (Suc n) body lol st = run_bind (body lol st) (\<lambda>st1.
     case IncrementIterationContext lol of
       (True, lol') \<Rightarrow> promise_loop n body lol' st1
     | (False, _) \<Rightarrow> ret st1)"

definition iterate_promise :: "nat \<Rightarrow> (wheel list \<Rightarrow> 's \<Rightarrow> 's run) \<Rightarrow> wheel list \<Rightarrow> 's \<Rightarrow> 's run" where
  "iterate_promise n body lol st =
     (if lol \<noteq> [] \<and> EndOfIteration lol then ret st
      else let lol1 = skip_nulls 7 lol
           in if lol1 \<noteq> [] \<and> EndOfIteration lol1 then ret st else promise_loop n body lol1 st)"

section \<open>The order of the iterations\<close>

text \<open>A wheel over a list, with its item \<open>c\<close> in view.\<close>

definition wheel_at :: "string \<times> cfdatatype \<times> rval list \<Rightarrow> nat \<Rightarrow> wheel" where
  "wheel_at d c = (case d of (nm, dt, r) \<Rightarrow> \<lparr>wheel_name = nm, wheel_type = dt,
     wheel_items = Scalar CF_NULL_VALUE # r @ [Scalar CF_NULL_VALUE], state_ptr = Some (Suc c)\<rparr>)"

definition list_of :: "string \<times> cfdatatype \<times> rval list \<Rightarrow> rval list" where
  "list_of d = snd (snd d)"

definition real_list :: "string \<times> cfdatatype \<times> rval list \<Rightarrow> bool" where
  "real_list d \<longleftrightarrow> list_of d \<noteq> [] \<and> Scalar CF_NULL_VALUE \<notin> set (list_of d)"

text \<open>All combinations, the first list fastest.\<close>

fun combos :: "'a list list \<Rightarrow> 'a list list" where
  "combos [] = [[]]"
| "combos (xs # xss) = concat (map (\<lambda>t. map (\<lambda>x. x # t) xs) (combos xss))"

fun visit :: "(wheel list \<Rightarrow> 's \<Rightarrow> 's run) \<Rightarrow> wheel list list \<Rightarrow> 's \<Rightarrow> 's run" where
  "visit body [] st = ret st"
| "visit body (w # ws) st = run_bind (body w st) (visit body ws)"

lemma run_bind_ret [simp]: "run_bind r ret = r"
  by (auto simp: run_bind_def ret_def split: option.splits sum.splits)

lemma visit_Nil [simp]: "visit body [] = ret"
  by (rule ext) simp

fun next_odometer :: "nat list \<Rightarrow> nat list \<Rightarrow> nat list option" where
  "next_odometer (n # ns) (c # cs) = (if Suc c < n then Some (Suc c # cs) else map_option ((#) 0) (next_odometer ns cs))"
| "next_odometer _ _ = None"

text \<open>What an odometer still shows, from now on.\<close>

fun remaining :: "nat list \<Rightarrow> nat list \<Rightarrow> nat list list" where
  "remaining (n # ns) (c # cs) = map (\<lambda>i. i # cs) [c..<n] @ concat (map (\<lambda>t. map (\<lambda>i. i # t) [0..<n]) (tl (remaining ns cs)))"
| "remaining _ _ = [[]]"

definition in_range :: "nat list \<Rightarrow> nat list \<Rightarrow> bool" where
  "in_range ns cs = list_all2 (\<lambda>n c. c < n) ns cs"

lemma next_in_range: "next_odometer ns cs = Some cs' \<Longrightarrow> in_range ns cs \<Longrightarrow> in_range ns cs'"
  by (induction ns cs arbitrary: cs' rule: next_odometer.induct) (auto simp: in_range_def split: if_splits)

lemma remaining_hd: "in_range ns cs \<Longrightarrow> remaining ns cs = cs # tl (remaining ns cs)"
  by (induction ns cs rule: remaining.induct) (auto simp: in_range_def upt_rec)

lemma remaining_step:
  assumes "in_range ns cs"
  shows "remaining ns cs = cs # (case next_odometer ns cs of None \<Rightarrow> [] | Some cs' \<Rightarrow> remaining ns cs')"
  using assms
proof (induction ns cs rule: next_odometer.induct)
  case (1 n ns c cs)
  then have c: "c < n" and cs: "in_range ns cs" by (simp_all add: in_range_def)
  show ?case
  proof (cases "Suc c < n")
    case True
    then have "[c..<n] = c # [Suc c..<n]" by (simp add: upt_rec)
    with True show ?thesis by simp
  next
    case False
    with c have "[c..<n] = [c]" by (simp add: upt_rec)
    moreover have IH: "remaining ns cs = cs # (case next_odometer ns cs of None \<Rightarrow> [] | Some cs' \<Rightarrow> remaining ns cs')"
      using 1 False cs by simp
    ultimately show ?thesis
    proof (cases "next_odometer ns cs")
      case None
      with False IH \<open>[c..<n] = [c]\<close> show ?thesis by simp
    next
      case (Some cs')
      obtain R where "remaining ns cs' = cs' # R" using remaining_hd next_in_range [OF Some cs] by blast
      with False IH Some \<open>[c..<n] = [c]\<close> show ?thesis by simp
    qed
  qed
qed (auto simp: in_range_def)

lemma remaining_start: "list_all ((<) 0) ns \<Longrightarrow> remaining ns (replicate (length ns) 0) = combos (map (\<lambda>n. [0..<n]) ns)"
proof (induction ns)
  case (Cons n ns)
  let ?cs = "replicate (length ns) 0"
  have "in_range ns ?cs" using Cons.prems by (auto simp: in_range_def list_all2_conv_all_nth list_all_length)
  then obtain R where R: "remaining ns ?cs = ?cs # R" using remaining_hd by blast
  with Cons have "combos (map (\<lambda>n. [0..<n]) ns) = ?cs # R" by simp
  with R show ?case by simp
qed simp

lemma combos_map: "combos (map (map f) xss) = map (map f) (combos xss)"
  by (induction xss) (auto simp: map_concat comp_def)

lemma wheel_simps:
  "wheel_name (wheel_at d c) = fst d" "wheel_items (wheel_at d c) = Scalar CF_NULL_VALUE # list_of d @ [Scalar CF_NULL_VALUE]"
  "state_ptr (wheel_at d c) = Some (Suc c)"
  by (simp_all add: wheel_at_def list_of_def split: prod.splits)

lemma wheel_current_at: "c < length (list_of d) \<Longrightarrow> wheel_current (wheel_at d c) = Some (list_of d ! c)"
  by (simp add: wheel_current_def wheel_simps nth_append)

abbreviation sizes :: "(string \<times> cfdatatype \<times> rval list) list \<Rightarrow> nat list" where
  "sizes ds \<equiv> map (\<lambda>d. length (list_of d)) ds"

definition wheels_at :: "(string \<times> cfdatatype \<times> rval list) list \<Rightarrow> nat list \<Rightarrow> wheel list" where
  "wheels_at ds cs = map2 wheel_at ds cs"

lemma no_nulls:
  assumes "list_all real_list ds" "in_range (sizes ds) cs"
  shows "\<not> NullIterators (wheels_at ds cs)"
  using assms
proof (induction ds arbitrary: cs)
  case (Cons d ds)
  then obtain c cs' where cs: "cs = c # cs'" "c < length (list_of d)" "in_range (sizes ds) cs'"
    by (cases cs) (auto simp: in_range_def)
  with Cons.prems(1) have "list_of d ! c \<noteq> Scalar CF_NULL_VALUE" by (auto simp: real_list_def dest: nth_mem)
  with cs Cons show ?case by (simp add: NullIterators_def wheels_at_def wheel_current_at)
qed (simp add: NullIterators_def wheels_at_def)

lemma not_ended:
  assumes "ds \<noteq> []" "in_range (sizes ds) cs"
  shows "\<not> EndOfIteration (wheels_at ds cs @ ws)"
  using assms by (cases ds; cases cs) (auto simp: EndOfIteration_def wheels_at_def in_range_def wheel_simps)

lemma Increment_step:
  assumes "list_all real_list ds" "in_range (sizes ds) cs"
  shows "case next_odometer (sizes ds) cs of
     None \<Rightarrow> \<exists>ws. IncrementIterationContext (wheels_at ds cs) = (False, ws) \<and> EndOfIteration ws
   | Some cs' \<Rightarrow> IncrementIterationContext (wheels_at ds cs) = (True, wheels_at ds cs')"
  using assms
proof (induction ds arbitrary: cs)
  case Nil
  then show ?case by (simp add: wheels_at_def EndOfIteration_def)
next
  case (Cons d ds)
  then obtain c cs1 where cs: "cs = c # cs1" "c < length (list_of d)" "in_range (sizes ds) cs1"
    by (cases cs) (auto simp: in_range_def)
  have w: "wheels_at (d # ds) (k # cs1) = wheel_at d k # wheels_at ds cs1" for k by (simp add: wheels_at_def)
  have turn: "(wheel_at d c)\<lparr>state_ptr := Some (Suc (Suc c))\<rparr> = wheel_at d (Suc c)" by (simp add: wheel_at_def split: prod.splits)
  have real: "list_all real_list ds" "real_list d" using Cons.prems(1) by simp_all
  note quiet = no_nulls [OF real(1) cs(3)]
  show ?case
  proof (cases "Suc c < length (list_of d)")
    case True
    have "\<not> NullIterators (wheels_at (d # ds) (Suc c # cs1))"
      by (rule no_nulls [OF Cons.prems(1)]) (use True cs in \<open>simp add: in_range_def\<close>)
    moreover have "\<not> EndOfIteration (wheels_at (d # ds) (Suc c # cs1))"
      using not_ended [of "d # ds" "Suc c # cs1" "[]"] True cs by (simp add: in_range_def)
    ultimately show ?thesis using True cs(1) turn by (simp add: w wheel_simps)
  next
    case False
    then have c: "Suc c = length (list_of d)" using cs(2) by simp
    have null: "NullIterators (wheel_at d (Suc c) # wheels_at ds cs1)"
      by (simp add: NullIterators_def wheel_current_def wheel_simps c)
    have reset: "reset_wheel (wheel_at d k) = wheel_at d 0" for k
      by (simp add: reset_wheel_def link_from_def wheel_at_def split: prod.splits)
    show ?thesis
    proof (cases "next_odometer (sizes ds) cs1")
      case None
      with Cons.IH [OF real(1) cs(3)] obtain ws where ws: "IncrementIterationContext (wheels_at ds cs1) = (False, ws)" "EndOfIteration ws" by auto
      have "link_from (wheel_items (wheel_at d c)) (Suc (Suc (Suc c))) = None" by (simp add: wheel_simps link_from_def c)
      with None c cs(1) null ws turn show ?thesis by (simp add: w wheel_simps EndOfIteration_def link_from_def)
    next
      case (Some cs')
      with Cons.IH [OF real(1) cs(3)] have "IncrementIterationContext (wheels_at ds cs1) = (True, wheels_at ds cs')" by simp
      with Some c cs(1) null turn reset show ?thesis by (simp add: w wheel_simps wheels_at_def)
    qed
  qed
qed

lemma promise_loop_visits:
  assumes "list_all real_list ds" "in_range (sizes ds) cs" "length (remaining (sizes ds) cs) \<le> n"
  shows "promise_loop n body (wheels_at ds cs) st = visit body (map (wheels_at ds) (remaining (sizes ds) cs)) st"
  using assms(2,3)
proof (induction n arbitrary: cs st)
  case 0
  with remaining_hd [of "sizes ds" cs] show ?case by (metis le_zero_eq length_0_conv list.distinct(1))
next
  case (Suc n)
  note step = remaining_step [OF Suc.prems(1)] and inc = Increment_step [OF assms(1) Suc.prems(1)]
  show ?case
  proof (cases "next_odometer (sizes ds) cs")
    case None
    with inc obtain ws where "IncrementIterationContext (wheels_at ds cs) = (False, ws)" by auto
    with None step show ?thesis by simp
  next
    case (Some cs')
    with step Suc.prems(2) have "length (remaining (sizes ds) cs') \<le> n" by simp
    from Suc.IH [OF next_in_range [OF Some Suc.prems(1)] this] Some step inc show ?thesis by simp
  qed
qed

lemma combos_currents:
  assumes "list_all real_list ds"
  shows "map (\<lambda>cs. map wheel_current (wheels_at ds cs)) (combos (map (\<lambda>n. [0..<n]) (sizes ds))) =
    combos (map (\<lambda>d. map Some (list_of d)) ds)"
proof (induction ds)
  case (Cons d ds)
  have "map (\<lambda>x. map wheel_current (wheels_at (d # ds) (x # t))) [0..<length (list_of d)] =
      map (\<lambda>x. x # map wheel_current (wheels_at ds t)) (map Some (list_of d))" for t
    by (rule nth_equalityI) (simp_all add: wheels_at_def wheel_current_at)
  then have "map (\<lambda>cs. map wheel_current (wheels_at (d # ds) cs)) (combos (map (\<lambda>n. [0..<n]) (sizes (d # ds)))) =
      concat (map (\<lambda>t. map (\<lambda>x. x # t) (map Some (list_of d))) (map (\<lambda>cs. map wheel_current (wheels_at ds cs)) (combos (map (\<lambda>n. [0..<n]) (sizes ds)))))"
    by (simp add: map_concat comp_def)
  then show ?case unfolding Cons.IH by simp
qed (simp add: wheels_at_def)

lemma length_combos: "length (combos xss) = prod_list (map length xss)"
proof (induction xss)
  case (Cons xs xss)
  have "length (concat (map (\<lambda>t. map (\<lambda>x. x # t) xs) ts)) = length xs * length ts" for ts :: "'a list list"
    by (induction ts) simp_all
  with Cons show ?case by simp
qed simp

definition first_wheels :: "(string \<times> cfdatatype \<times> rval list) list \<Rightarrow> wheel list" where
  "first_wheels ds = map (\<lambda>d. wheel_at d 0) ds"

lemma first_wheels_at: "first_wheels ds = wheels_at ds (replicate (length (sizes ds)) 0)"
  unfolding first_wheels_def wheels_at_def by (rule nth_equalityI) simp_all

text \<open>C17: a promise over lists without blanks is done once for each combination of their items, the first list fastest, and
  for nothing else; the number of combinations is enough fuel.\<close>

lemma iterate_promise_covers:
  assumes "list_all real_list ds" "prod_list (sizes ds) \<le> n"
  shows "\<exists>states. map (map wheel_current) states = combos (map (\<lambda>d. map Some (list_of d)) ds) \<and>
    list_all (\<lambda>ws. map wheel_name ws = map fst ds) states \<and>
    iterate_promise n body (first_wheels ds) st = visit body states st"
proof -
  let ?cs = "replicate (length (sizes ds)) 0" and ?states = "map (wheels_at ds) (combos (map (\<lambda>n. [0..<n]) (sizes ds)))"
  have pos: "list_all ((<) 0) (sizes ds)" using assms(1) by (auto simp: list_all_iff real_list_def)
  have range: "in_range (sizes ds) ?cs" using pos by (auto simp: in_range_def list_all2_conv_all_nth list_all_length)
  have rem: "remaining (sizes ds) ?cs = combos (map (\<lambda>n. [0..<n]) (sizes ds))" by (rule remaining_start [OF pos])
  have len: "length (remaining (sizes ds) ?cs) \<le> n" unfolding rem length_combos using assms(2) by (simp add: comp_def)
  have "\<not> NullIterators (first_wheels ds)" unfolding first_wheels_at by (rule no_nulls [OF assms(1) range])
  then have skip: "skip_nulls 7 (first_wheels ds) = first_wheels ds" by (simp add: eval_nat_numeral)
  have "\<not> (first_wheels ds \<noteq> [] \<and> EndOfIteration (first_wheels ds))"
    using not_ended [OF _ range, of "[]"] unfolding first_wheels_at by (cases ds) (auto simp: wheels_at_def)
  with skip have "iterate_promise n body (first_wheels ds) st = promise_loop n body (first_wheels ds) st"
    by (auto simp: iterate_promise_def Let_def)
  also have "\<dots> = visit body ?states st"
    using promise_loop_visits [OF assms(1) range len, of body st] unfolding rem first_wheels_at by simp
  finally have "iterate_promise n body (first_wheels ds) st = visit body ?states st" .
  moreover have "map (map wheel_current) ?states = combos (map (\<lambda>d. map Some (list_of d)) ds)"
    using combos_currents [OF assms(1)] by (simp add: comp_def)
  moreover have "map wheel_name (wheels_at ds cs) = map fst ds" if "length cs = length ds" for cs
    using that unfolding wheels_at_def by (induction ds cs rule: list_induct2') (auto simp: wheel_simps)
  moreover have "length cs = length xss" if "cs \<in> set (combos xss)" for cs and xss :: "nat list list"
    using that by (induction xss arbitrary: cs) auto
  ultimately show ?thesis by (intro exI [of _ ?states]) (auto simp: list_all_iff)
qed

lemma visit_log:
  "visit (\<lambda>ws st. ret (st @ [map wheel_current ws])) states st = ret (st @ map (map wheel_current) states)"
  by (induction states arbitrary: st) simp_all

lemma iterate_promise_covers_witness:
  "iterate_promise 4 (\<lambda>ws st. ret (st @ [map wheel_current ws])) (first_wheels
       [(''x'', cf_slist, [Scalar ''a'', Scalar ''b'']), (''y'', cf_slist, [Scalar ''1'', Scalar ''2''])]) [] =
   ret [[Some (Scalar ''a''), Some (Scalar ''1'')], [Some (Scalar ''b''), Some (Scalar ''1'')],
        [Some (Scalar ''a''), Some (Scalar ''2'')], [Some (Scalar ''b''), Some (Scalar ''2'')]]"
proof -
  let ?ds = "[(''x'', cf_slist, [Scalar ''a'', Scalar ''b'']), (''y'', cf_slist, [Scalar ''1'', Scalar ''2''])]"
  have "list_all real_list ?ds" "prod_list (sizes ?ds) \<le> 4" by (simp_all add: real_list_def list_of_def CF_NULL_VALUE_def)
  from iterate_promise_covers [OF this, of "\<lambda>ws st. ret (st @ [map wheel_current ws])" "[]"] show ?thesis
    by (auto simp: list_of_def visit_log simp del: list.map) simp
qed

section \<open>The iteration ends\<close>

text \<open>The states of any wheels, with blanks or without, read as numbers; NULL is the highest digit.\<close>

definition digit :: "wheel \<Rightarrow> nat" where
  "digit w = (case state_ptr w of None \<Rightarrow> length (wheel_items w) | Some i \<Rightarrow> i)"

fun odometer :: "wheel list \<Rightarrow> nat" where
  "odometer [] = 0"
| "odometer (w # ws) = digit w + Suc (length (wheel_items w)) * odometer ws"

definition on_wheel :: "wheel \<Rightarrow> bool" where
  "on_wheel w \<longleftrightarrow> (case state_ptr w of None \<Rightarrow> True | Some i \<Rightarrow> i < length (wheel_items w))"

definition capacity :: "wheel list \<Rightarrow> nat" where
  "capacity ws = prod_list (map (\<lambda>w. Suc (length (wheel_items w))) ws)"

lemma digit_bound: "on_wheel w \<Longrightarrow> digit w \<le> length (wheel_items w)"
  by (auto simp: digit_def on_wheel_def split: option.splits)

lemma odometer_bound: "list_all on_wheel ws \<Longrightarrow> odometer ws < capacity ws"
proof (induction ws)
  case (Cons w ws)
  then have "digit w \<le> length (wheel_items w)" "Suc (odometer ws) \<le> capacity ws" by (auto simp: digit_bound Suc_le_eq)
  then have "digit w + Suc (length (wheel_items w)) * odometer ws < Suc (length (wheel_items w)) * Suc (odometer ws)"
    "Suc (length (wheel_items w)) * Suc (odometer ws) \<le> Suc (length (wheel_items w)) * capacity ws"
    by (simp, blast intro: mult_le_mono2)
  then show ?case by (simp add: capacity_def)
qed (simp add: capacity_def)

lemma Increment_advances:
  assumes "list_all on_wheel ws" "IncrementIterationContext ws = (b, ws')"
  shows "list_all on_wheel ws' \<and> map wheel_items ws' = map wheel_items ws \<and> odometer ws \<le> odometer ws' \<and>
    (b \<longrightarrow> odometer ws < odometer ws')"
  using assms
proof (induction ws arbitrary: b ws')
  case (Cons w ws)
  obtain b1 ws1 where inner: "IncrementIterationContext ws = (b1, ws1)" by fastforce
  have ws: "list_all on_wheel ws" "on_wheel w" using Cons.prems(1) by simp_all
  note IH = Cons.IH [OF ws(1) inner]
  have carry: "digit w + Suc (length (wheel_items w)) * odometer ws < digit w' + Suc (length (wheel_items w)) * odometer ws1" if b1 for w'
  proof -
    have "Suc (odometer ws) \<le> odometer ws1" using IH that by simp
    then have "Suc (length (wheel_items w)) * Suc (odometer ws) \<le> Suc (length (wheel_items w)) * odometer ws1" by (rule mult_le_mono2)
    with digit_bound [OF ws(2)] show ?thesis by simp
  qed
  have reset: "on_wheel (reset_wheel w')" "wheel_items (reset_wheel w') = wheel_items w'" for w'
    by (simp_all add: reset_wheel_def on_wheel_def link_from_def)
  have mono: "Suc (length (wheel_items w)) * odometer ws \<le> Suc (length (wheel_items w)) * odometer ws1" using IH by (intro mult_le_mono2) simp
  show ?case
  proof (cases "state_ptr w")
    case None
    with Cons.prems show ?thesis by auto
  next
    case (Some i)
    have i: "i < length (wheel_items w)" using ws(2) Some by (simp add: on_wheel_def)
    let ?w1 = "w\<lparr>state_ptr := Some (Suc i)\<rparr>" and ?w2 = "w\<lparr>state_ptr := link_from (wheel_items w) (Suc (Suc i))\<rparr>"
    show ?thesis
    proof (cases "Suc i \<ge> length (wheel_items w)")
      case True
      with Some Cons.prems(2) inner consider "ws = []" "\<not> b" "ws' = [w]" | b b1 "ws' = reset_wheel w # ws1" | "\<not> b" "ws' = w # ws1"
        by (auto split: if_splits bool.splits)
      then show ?thesis
      proof cases
        case 1
        with ws show ?thesis by simp
      next
        case 2
        then show ?thesis using IH reset carry [OF 2(2), of "reset_wheel w"] by simp
      next
        case 3
        then show ?thesis using IH ws mono by simp
      qed
    next
      case False
      then have digits: "digit ?w1 = Suc i" "on_wheel ?w1" "digit w = i" "digit ?w2 \<ge> Suc i" "on_wheel ?w2"
        using Some i by (auto simp: digit_def on_wheel_def link_from_def)
      from False Some Cons.prems(2) inner consider "ws' = ?w1 # ws" | b b1 "ws' = reset_wheel ?w1 # ws1" | "ws' = ?w2 # ws1"
        by (auto simp: Let_def split: if_splits bool.splits)
      then show ?thesis
      proof cases
        case 1
        then show ?thesis using ws digits by simp
      next
        case 2
        then show ?thesis using IH reset carry [OF 2(2), of "reset_wheel ?w1"] by simp
      next
        case 3
        then show ?thesis using IH digits mono by simp
      qed
    qed
  qed
qed simp

lemma promise_loop_ends:
  assumes body: "\<And>ws st. body ws st \<noteq> None" and "list_all on_wheel ws" "capacity ws - odometer ws \<le> n"
  shows "promise_loop n body ws st \<noteq> None"
  using assms(2,3)
proof (induction n arbitrary: ws st)
  case 0
  with odometer_bound show ?case by fastforce
next
  case (Suc n)
  obtain b ws' where inc: "IncrementIterationContext ws = (b, ws')" by fastforce
  note adv = Increment_advances [OF Suc.prems(1) inc]
  then have cap: "capacity ws' = capacity ws" unfolding capacity_def
    by (metis (no_types, lifting) list.map_comp comp_apply map_eq_conv [of "Suc \<circ> length \<circ> wheel_items"] map_map)
  have next_ok: "promise_loop n body ws' st1 \<noteq> None" if b for st1
    using Suc.IH [of ws'] adv that Suc.prems(2) cap odometer_bound [of ws'] by fastforce
  show ?case
  proof (cases "body ws st")
    case None
    with body show ?thesis by blast
  next
    case (Some r)
    then show ?thesis using inc next_ok by (cases r; cases b) (auto simp: run_bind_def ret_def)
  qed
qed

lemma skip_nulls_on_wheel:
  "list_all on_wheel ws \<Longrightarrow> list_all on_wheel (skip_nulls k ws) \<and> map wheel_items (skip_nulls k ws) = map wheel_items ws"
proof (induction k arbitrary: ws)
  case (Suc k)
  obtain b ws' where inc: "IncrementIterationContext ws = (b, ws')" by fastforce
  from Increment_advances [OF Suc.prems inc] Suc inc show ?case by auto
qed simp

lemma capacity_items: "capacity ws = prod_list (map (Suc \<circ> length) (map wheel_items ws))"
  by (simp add: capacity_def comp_def)

text \<open>C18: the iteration ends for any lists, also with blanks in them, when every application of the promise does.\<close>

lemma iterate_promise_ends:
  assumes "\<And>ws st. body ws st \<noteq> None" "list_all on_wheel lol" "capacity lol \<le> n"
  shows "iterate_promise n body lol st \<noteq> None"
proof -
  note skip = skip_nulls_on_wheel [OF assms(2), of 7]
  then have "capacity (skip_nulls 7 lol) \<le> n" using assms(3) by (simp add: capacity_items)
  then have "promise_loop n body (skip_nulls 7 lol) st \<noteq> None"
    using promise_loop_ends [OF assms(1)] skip by fastforce
  then show ?thesis unfolding iterate_promise_def Let_def ret_def by (auto split: if_splits)
qed

text \<open>Two lists, the first with a blank in its middle.\<close>

definition blank_lists :: "(string \<times> cfdatatype \<times> rval list) list" where
  "blank_lists = [(''x'', cf_slist, [Scalar ''a'', Scalar CF_NULL_VALUE, Scalar ''b'']), (''y'', cf_slist, [Scalar ''1'', Scalar ''2''])]"

lemma iterate_promise_ends_witness:
  "iterate_promise 30 (\<lambda>ws st. ret (st @ [map wheel_current ws])) (first_wheels blank_lists) [] \<noteq> None"
proof -
  have "list_all on_wheel (first_wheels blank_lists)" "capacity (first_wheels blank_lists) \<le> 30"
    by (simp_all add: blank_lists_def first_wheels_def wheel_at_def on_wheel_def capacity_def)
  from iterate_promise_ends [OF _ this(1), of "\<lambda>ws st. ret (st @ [map wheel_current ws])" 30 "[]"] this(2) show ?thesis
    by (simp add: ret_def)
qed

text \<open>what follows a blank in a list is not combined with the items of the other lists: the promise is done with it once, while the
  other variable has no value.\<close>

lemma blank_item_loses:
  "iterate_promise 30 (\<lambda>ws st. ret (st @ [map wheel_current ws])) (first_wheels blank_lists) [] =
   ret [[Some (Scalar ''a''), Some (Scalar ''1'')], [Some (Scalar ''a''), Some (Scalar ''2'')], [Some (Scalar ''b''), None]]"
  by code_simp

end
