(* ===== verification/CF_Modes.thy ===== *)
theory CF_Modes
  imports CF_Rlist "HOL-Library.Word"
begin

text \<open>
  \<open>src/modes.c\<close>, \<open>src/chflags.c\<close> and their users: texts such as \<open>u=rwx,g-w\<close> or \<open>0644\<close> become two masks of permission
  bits, those to set and those to clear.
\<close>

unbundle bit_operations_syntax

section \<open>The parser of mode texts\<close>

datatype modestate = wild | who | which

datatype modesort = unknown | numeric | symbolic

type_synonym mode_t = "32 word"

text \<open>The local variables of \<open>ParseModeString\<close>; the octal constants of the code are written in hexadecimal.\<close>

record mode_scan =
  affected :: mode_t
  mode_value :: mode_t
  gotaction :: bool
  no_error :: bool
  mode_action :: char
  mode_state :: modestate
  found_sort :: modesort
  mode_sort :: modesort
  plusmask :: mode_t
  minusmask :: mode_t

definition CheckModeState :: "modestate \<Rightarrow> modestate \<Rightarrow> modesort \<Rightarrow> modesort \<Rightarrow> bool" where
  "CheckModeState stateA stateB sortA sortB =
     (if stateA \<noteq> wild \<and> stateB \<noteq> wild \<and> stateA \<noteq> stateB then False
      else if sortA \<noteq> unknown \<and> sortB \<noteq> unknown \<and> sortA \<noteq> sortB then False
      else True)"

definition SetModeMask :: "mode_scan \<Rightarrow> bool \<times> mode_scan" where
  "SetModeMask s =
     (if mode_action s = CHR ''+'' then (True, s\<lparr>plusmask := plusmask s OR mode_value s\<rparr>)
      else if mode_action s = CHR ''-'' then (True, s\<lparr>minusmask := minusmask s OR mode_value s\<rparr>)
      else if mode_action s = CHR ''='' then
        (True, s\<lparr>plusmask := plusmask s OR mode_value s,
                minusmask := minusmask s OR (NOT (mode_value s) AND 0xFFF AND affected s)\<rparr>)
      else (False, s))"

definition who_char :: "mode_t \<Rightarrow> mode_scan \<Rightarrow> mode_scan" where
  "who_char bits s = s\<lparr>no_error := CheckModeState who (mode_state s) symbolic (mode_sort s),
     affected := affected s OR bits, mode_sort := symbolic\<rparr>"

definition which_char :: "mode_t \<Rightarrow> mode_scan \<Rightarrow> mode_scan" where
  "which_char bits s = s\<lparr>no_error := CheckModeState which (mode_state s) symbolic (mode_sort s),
     mode_value := mode_value s OR bits, mode_sort := symbolic\<rparr>"

text \<open>\<open>sscanf\<close> with \<open>%o\<close> into an \<open>int\<close>: a number beyond \<open>unsigned long\<close> reads as its maximum, and the low 32 bits are stored.\<close>

definition read_octal :: "string \<Rightarrow> mode_t" where
  "read_octal s = of_nat (min (foldl (\<lambda>a c. 8 * a + digit_value c) 0 (takeWhile is_octal s)) (2 ^ 64 - 1))"

text \<open>The result with the masks, which are also set when the text is refused.\<close>

definition mode_result :: "bool \<Rightarrow> mode_scan \<Rightarrow> bool \<times> mode_t \<times> mode_t" where
  "mode_result b s = (b, plusmask s, minusmask s)"

function mode_loop :: "string \<Rightarrow> mode_scan \<Rightarrow> string \<Rightarrow> bool \<times> mode_t \<times> mode_t" where
  "mode_loop modestring s [] =
     (if (mode_state s = who \<or> mode_value s = 0) \<and> strcmp modestring ''0000'' \<noteq> 0 \<and> strcmp modestring ''000'' \<noteq> 0
      then mode_result False s
      else (case SetModeMask s of (b, s') \<Rightarrow> mode_result b s'))"
| "mode_loop modestring s (c # sp) =
     (if c = CHR ''a'' then mode_loop modestring (who_char 0xFFF s) sp
      else if c = CHR ''u'' then mode_loop modestring (who_char 0x9C0 s) sp
      else if c = CHR ''g'' then mode_loop modestring (who_char 0x438 s) sp
      else if c = CHR ''o'' then mode_loop modestring (who_char 0x007 s) sp
      else if c = CHR ''+'' \<or> c = CHR ''-'' \<or> c = CHR ''='' then
        (if gotaction s then mode_result False s
         else mode_loop modestring (s\<lparr>no_error := CheckModeState who (mode_state s) symbolic (mode_sort s),
           mode_action := c, mode_state := which, gotaction := True, mode_sort := unknown\<rparr>) sp)
      else if c = CHR ''r'' then mode_loop modestring (which_char (0x124 AND affected s) s) sp
      else if c = CHR ''w'' then mode_loop modestring (which_char (0x092 AND affected s) s) sp
      else if c = CHR ''x'' then mode_loop modestring (which_char (0x049 AND affected s) s) sp
      else if c = CHR ''s'' then mode_loop modestring (which_char (0xC00 AND affected s) s) sp
      else if c = CHR ''t'' then mode_loop modestring (which_char 0x200 s) sp
      else if is_octal c then
        (let s1 = s\<lparr>no_error := CheckModeState which (mode_state s) numeric (mode_sort s), mode_sort := numeric,
                   gotaction := True, mode_state := which, affected := 0xFFF, mode_value := read_octal (c # sp)\<rparr>
         in if sint (mode_value s1) > 0xFFF then mode_result False s1
            else mode_loop modestring s1 (dropWhile c_isdigit (c # sp)))
      else if c = CHR '','' then
        (case SetModeMask s of
           (False, s1) \<Rightarrow> mode_result False s1
         | (True, s1) \<Rightarrow> mode_loop modestring (s1\<lparr>found_sort := mode_sort s1, mode_sort := unknown, mode_action := CHR ''='',
             affected := 0, mode_value := 0, gotaction := False, mode_state := who\<rparr>) sp)
      else mode_result False s)"
  by pat_completeness auto
termination
  by (relation "measure (\<lambda>(m, s, sp). length sp)") (auto simp: is_octal_def less_Suc_eq_le length_dropWhile_le)

definition start_scan :: mode_scan where
  "start_scan = \<lparr>affected = 0, mode_value = 0, gotaction = False, no_error = True, mode_action = CHR ''='', mode_state = wild,
     found_sort = unknown, mode_sort = unknown, plusmask = 0, minusmask = 0\<rparr>"

definition ParseModeString :: "string option \<Rightarrow> bool \<times> mode_t \<times> mode_t" where
  "ParseModeString modestring = (case modestring of None \<Rightarrow> (True, 0, 0) | Some m \<Rightarrow> mode_loop m start_scan m)"

section \<open>File flags\<close>

text \<open>The bits of the flags are those of the system, 0 where it has none.\<close>

record bsd_bits =
  UF_NODUMP :: "64 word"
  UF_IMMUTABLE :: "64 word"
  UF_APPEND :: "64 word"
  UF_OPAQUE :: "64 word"
  UF_NOUNLINK :: "64 word"
  SF_ARCHIVED :: "64 word"
  SF_IMMUTABLE :: "64 word"
  SF_APPEND :: "64 word"
  SF_NOUNLINK :: "64 word"

definition CF_BSDFLAGS :: "bsd_bits \<Rightarrow> (string \<times> 64 word) list" where
  "CF_BSDFLAGS b = [(''arch'', SF_ARCHIVED b), (''archived'', SF_ARCHIVED b), (''nodump'', UF_NODUMP b), (''opaque'', UF_OPAQUE b),
     (''sappnd'', SF_APPEND b), (''sappend'', SF_APPEND b), (''schg'', SF_IMMUTABLE b), (''schange'', SF_IMMUTABLE b),
     (''simmutable'', SF_IMMUTABLE b), (''sunlnk'', SF_NOUNLINK b), (''sunlink'', SF_NOUNLINK b), (''uappnd'', UF_APPEND b),
     (''uappend'', UF_APPEND b), (''uchg'', UF_IMMUTABLE b), (''uchange'', UF_IMMUTABLE b), (''uimmutable'', UF_IMMUTABLE b),
     (''uunlnk'', UF_NOUNLINK b), (''uunlink'', UF_NOUNLINK b)]"

definition CHFLAGS_MASK :: "bsd_bits \<Rightarrow> 64 word" where
  "CHFLAGS_MASK b = UF_NODUMP b OR UF_IMMUTABLE b OR UF_APPEND b OR UF_OPAQUE b OR UF_NOUNLINK b OR SF_ARCHIVED b OR
     SF_IMMUTABLE b OR SF_APPEND b OR SF_NOUNLINK b"

definition ConvertBSDBits :: "bsd_bits \<Rightarrow> string \<Rightarrow> 64 word" where
  "ConvertBSDBits b s = (case List.find (\<lambda>(nm, _). strcmp s nm = 0) (CF_BSDFLAGS b) of Some (_, bits) \<Rightarrow> bits | None \<Rightarrow> 0)"

fun flag_loop :: "bsd_bits \<Rightarrow> string list \<Rightarrow> 64 word \<Rightarrow> 64 word \<Rightarrow> 64 word \<times> 64 word" where
  "flag_loop b [] plusm minusm = (plusm, minusm)"
| "flag_loop b (flag # rp) plusm minusm =
     (if char_at flag 0 = CHR ''-'' then flag_loop b rp plusm (minusm OR ConvertBSDBits b (tl flag))
      else if char_at flag 0 = CHR ''+'' then flag_loop b rp (plusm OR ConvertBSDBits b (tl flag)) minusm
      else flag_loop b rp (plusm OR ConvertBSDBits b flag) minusm)"

text \<open>For an empty list the masks of the caller are left as they are.\<close>

definition ParseFlagString :: "bsd_bits \<Rightarrow> rval list \<Rightarrow> 64 word \<times> 64 word \<Rightarrow> 64 word \<times> 64 word" where
  "ParseFlagString b bitlist masks =
     (if bitlist = [] then masks else flag_loop b (map scalar_text bitlist) 0 0)"

section \<open>Where the masks are used\<close>

fun SelectModeMatch :: "mode_t \<Rightarrow> rval list \<Rightarrow> bool" where
  "SelectModeMatch st_mode [] = False"
| "SelectModeMatch st_mode (rp # list) =
     (case ParseModeString (Some (scalar_text rp)) of (b, plusm, minusm) \<Rightarrow>
        if \<not> b then SelectModeMatch st_mode list
        else
          let newperm = (st_mode AND 0xFFF OR plusm) AND NOT minusm
          in if newperm AND 0xFFF = st_mode AND 0xFFF then True else SelectModeMatch st_mode list)"

text \<open>When the list is empty the masks are those that are on the stack.\<close>

definition SelectBSDMatch :: "bsd_bits \<Rightarrow> 64 word \<times> 64 word \<Rightarrow> 64 word \<Rightarrow> rval list \<Rightarrow> bool" where
  "SelectBSDMatch b stack st_flags bsdflags =
     (case ParseFlagString b bsdflags stack of (plusm, minusm) \<Rightarrow>
        ((st_flags AND CHFLAGS_MASK b OR plusm) AND NOT minusm) AND CHFLAGS_MASK b = st_flags AND CHFLAGS_MASK b)"

text \<open>The permissions that \<open>VerifyFileAttributes\<close> wants; \<open>CF_SAMEMODE\<close> is decimal 7777.\<close>

definition CF_SAMEMODE :: mode_t where
  "CF_SAMEMODE = 7777"

definition wanted_mode :: "mode_t \<Rightarrow> bool \<Rightarrow> bool \<Rightarrow> mode_t \<Rightarrow> mode_t \<Rightarrow> mode_t" where
  "wanted_mode st_mode isdir rxdirs plusm minusm =
     (let newperm = st_mode AND 0xFFF in
      if plusm \<noteq> CF_SAMEMODE \<and> minusm \<noteq> CF_SAMEMODE then
        let p1 = (newperm OR plusm) AND NOT minusm in
        if isdir \<and> rxdirs then
          let p2 = (if p1 AND 0x100 \<noteq> 0 then p1 OR 0x040 else p1);
              p3 = (if p2 AND 0x020 \<noteq> 0 then p2 OR 0x008 else p2)
          in if p3 AND 0x004 \<noteq> 0 then p3 OR 0x001 else p3
        else p1
      else newperm)"

section \<open>Clauses\<close>

text \<open>The grammar of mode texts: clauses with commas between them, each symbolic or a number.\<close>

datatype clause =
    Symbolic string char string
  | Octal string

definition who_bits :: "string \<Rightarrow> mode_t" where
  "who_bits w = foldr (\<lambda>c b. b OR (if c = CHR ''a'' then 0xFFF else if c = CHR ''u'' then 0x9C0 else if c = CHR ''g'' then 0x438 else 0x007)) w 0"

definition which_bits :: "mode_t \<Rightarrow> string \<Rightarrow> mode_t" where
  "which_bits aff p = foldr (\<lambda>c b. b OR (if c = CHR ''r'' then 0x124 AND aff else if c = CHR ''w'' then 0x092 AND aff
     else if c = CHR ''x'' then 0x049 AND aff else if c = CHR ''s'' then 0xC00 AND aff else 0x200)) p 0"

fun clause_text :: "clause \<Rightarrow> string" where
  "clause_text (Symbolic w act p) = w @ act # p"
| "clause_text (Octal ds) = ds"

fun clause_action :: "clause \<Rightarrow> char" where
  "clause_action (Symbolic w act p) = act"
| "clause_action (Octal ds) = CHR ''=''"

fun clause_affected :: "clause \<Rightarrow> mode_t" where
  "clause_affected (Symbolic w act p) = who_bits w"
| "clause_affected (Octal ds) = 0xFFF"

fun clause_value :: "clause \<Rightarrow> mode_t" where
  "clause_value (Symbolic w act p) = which_bits (who_bits w) p"
| "clause_value (Octal ds) = read_octal ds"

fun clause_ok :: "clause \<Rightarrow> bool" where
  "clause_ok (Symbolic w act p) \<longleftrightarrow> list_all (\<lambda>c. c \<in> set ''augo'') w \<and> act \<in> set ''+-='' \<and> list_all (\<lambda>c. c \<in> set ''rwxst'') p"
| "clause_ok (Octal ds) \<longleftrightarrow> ds \<noteq> [] \<and> list_all is_octal ds \<and> foldl (\<lambda>a c. 8 * a + digit_value c) 0 ds \<le> 0xFFF"

fun modes_text :: "clause list \<Rightarrow> string" where
  "modes_text [] = []"
| "modes_text [c] = clause_text c"
| "modes_text (c # cs) = clause_text c @ '','' @ modes_text cs"

text \<open>The masks of a clause.\<close>

definition clause_plus :: "clause \<Rightarrow> mode_t" where
  "clause_plus c = (if clause_action c = CHR ''-'' then 0 else clause_value c)"

definition clause_minus :: "clause \<Rightarrow> mode_t" where
  "clause_minus c = (if clause_action c = CHR ''+'' then 0 else if clause_action c = CHR ''-'' then clause_value c
     else NOT (clause_value c) AND 0xFFF AND clause_affected c)"

definition all_plus :: "clause list \<Rightarrow> mode_t" where
  "all_plus cs = foldr (\<lambda>c b. clause_plus c OR b) cs 0"

definition all_minus :: "clause list \<Rightarrow> mode_t" where
  "all_minus cs = foldr (\<lambda>c b. clause_minus c OR b) cs 0"

text \<open>What the parser looks at.\<close>

definition scan_core :: "mode_scan \<Rightarrow> mode_t \<times> mode_t \<times> bool \<times> char \<times> modestate \<times> mode_t \<times> mode_t" where
  "scan_core s = (affected s, mode_value s, gotaction s, mode_action s, mode_state s, plusmask s, minusmask s)"

lemma core_steps:
  assumes "scan_core s = scan_core t"
  shows "scan_core (who_char b s) = scan_core (who_char b t)" "scan_core (which_char b s) = scan_core (which_char b t)"
    "affected s = affected t" "gotaction s = gotaction t" "mode_state s = mode_state t" "mode_value s = mode_value t"
    "mode_result x s = mode_result x t" "fst (SetModeMask s) = fst (SetModeMask t)"
    "scan_core (snd (SetModeMask s)) = scan_core (snd (SetModeMask t))"
    "scan_core (s\<lparr>no_error := e, mode_action := c, mode_state := which, gotaction := True, mode_sort := unknown\<rparr>) =
     scan_core (t\<lparr>no_error := e', mode_action := c, mode_state := which, gotaction := True, mode_sort := unknown\<rparr>)"
    "scan_core (s\<lparr>no_error := e, mode_sort := numeric, gotaction := True, mode_state := which, affected := a, mode_value := v\<rparr>) =
     scan_core (t\<lparr>no_error := e', mode_sort := numeric, gotaction := True, mode_state := which, affected := a, mode_value := v\<rparr>)"
    "scan_core (s\<lparr>found_sort := f, mode_sort := unknown, mode_action := CHR ''='', affected := 0, mode_value := 0, gotaction := False, mode_state := who\<rparr>) =
     scan_core (t\<lparr>found_sort := f', mode_sort := unknown, mode_action := CHR ''='', affected := 0, mode_value := 0, gotaction := False, mode_state := who\<rparr>)"
  using assms by (auto simp: scan_core_def who_char_def which_char_def mode_result_def SetModeMask_def)

lemma mode_loop_core: "scan_core s = scan_core t \<Longrightarrow> mode_loop m s sp = mode_loop m t sp"
proof (induction m s sp arbitrary: t rule: mode_loop.induct)
  case (1 m s)
  then show ?case by (simp add: scan_core_def SetModeMask_def mode_result_def)
next
  case (2 m s c sp)
  note core = core_steps [OF 2(13)]
  obtain b s' b' t' where set: "SetModeMask s = (b, s')" "SetModeMask t = (b', t')" by fastforce
  with core have st: "b' = b" "scan_core s' = scan_core t'" by simp_all
  note core' = core_steps [OF st(2)]
  have num: "mode_result False (s\<lparr>no_error := e, mode_sort := numeric, gotaction := True, mode_state := which, affected := a, mode_value := v\<rparr>) =
      mode_result False (t\<lparr>no_error := e', mode_sort := numeric, gotaction := True, mode_state := which, affected := a, mode_value := v\<rparr>)" for e e' a v
    using core_steps(7) [OF core(11)] .
  have last_case: "(case b of True \<Rightarrow> mode_loop m (s'\<lparr>found_sort := mode_sort s', mode_sort := unknown, mode_action := CHR ''='', affected := 0,
        mode_value := 0, gotaction := False, mode_state := who\<rparr>) sp | False \<Rightarrow> mode_result False s') =
      (case b of True \<Rightarrow> mode_loop m (t'\<lparr>found_sort := mode_sort t', mode_sort := unknown, mode_action := CHR ''='', affected := 0,
        mode_value := 0, gotaction := False, mode_state := who\<rparr>) sp | False \<Rightarrow> mode_result False t')"
    if "c \<noteq> CHR ''a''" "c \<noteq> CHR ''u''" "c \<noteq> CHR ''g''" "c \<noteq> CHR ''o''" "\<not> (c = CHR ''+'' \<or> c = CHR ''-'' \<or> c = CHR ''='')"
      "c \<noteq> CHR ''r''" "c \<noteq> CHR ''w''" "c \<noteq> CHR ''x''" "c \<noteq> CHR ''s''" "c \<noteq> CHR ''t''" "\<not> is_octal c" "c = CHR '','' "
  proof (cases b)
    case True
    show ?thesis unfolding eqTrueI [OF True] bool.case by (rule 2(12) [OF that, of True s']) (simp_all add: set True core'(12))
  next
    case False
    then show ?thesis using core'(7) by simp
  qed
  have val: "mode_value (u\<lparr>no_error := e, mode_sort := numeric, gotaction := True, mode_state := which, affected := a, mode_value := v\<rparr>) = v"
    for u :: mode_scan and e a v by simp
  show ?case
    unfolding mode_loop.simps Let_def core(3,4) set prod.case st(1) val
    apply (intro if_cong refl)
    apply (rule 2(1) [OF _ core(1)], assumption)
    apply (rule 2(2) [OF _ _ core(1)], assumption+)
    apply (rule 2(3) [OF _ _ _ core(1)], assumption+)
    apply (rule 2(4) [OF _ _ _ _ core(1)], assumption+)
    apply (rule core(7))
    apply (rule 2(5) [unfolded core(3,4), OF _ _ _ _ _ _ core(10)], assumption+)
    apply (rule 2(6) [unfolded core(3,4), OF _ _ _ _ _ _ core(2)], assumption+)
    apply (rule 2(7) [unfolded core(3,4), OF _ _ _ _ _ _ _ core(2)], assumption+)
    apply (rule 2(8) [unfolded core(3,4), OF _ _ _ _ _ _ _ _ core(2)], assumption+)
    apply (rule 2(9) [unfolded core(3,4), OF _ _ _ _ _ _ _ _ _ core(2)], assumption+)
    apply (rule 2(10) [unfolded core(3,4), OF _ _ _ _ _ _ _ _ _ _ core(2)], assumption+)
    apply (rule num)
    apply (rule 2(11) [OF _ _ _ _ _ _ _ _ _ _ _ refl, unfolded val, OF _ _ _ _ _ _ _ _ _ _ _ _ core(11)], assumption+)
    apply (rule last_case, assumption+)
    apply (rule core(7))
    done
qed

lemma read_who:
  assumes "list_all (\<lambda>c. c \<in> set ''augo'') w"
  shows "mode_loop m s (w @ rest) = mode_loop m (s\<lparr>affected := affected s OR who_bits w\<rparr>) rest"
  using assms
proof (induction w arbitrary: s)
  case Nil
  then show ?case by (simp add: who_bits_def)
next
  case (Cons c w)
  have "mode_loop m s (c # w @ rest) = mode_loop m (who_char (who_bits [c]) s) (w @ rest)"
    using Cons.prems by (auto simp: who_bits_def)
  also have "\<dots> = mode_loop m ((who_char (who_bits [c]) s)\<lparr>affected := affected s OR who_bits [c] OR who_bits w\<rparr>) rest"
    using Cons.IH [of "who_char (who_bits [c]) s"] Cons.prems by (simp add: who_char_def or.assoc)
  also have "\<dots> = mode_loop m (s\<lparr>affected := affected s OR who_bits (c # w)\<rparr>) rest"
    by (rule mode_loop_core) (simp add: scan_core_def who_char_def who_bits_def or.assoc or.commute)
  finally show ?case by simp
qed

lemma read_which:
  assumes "list_all (\<lambda>c. c \<in> set ''rwxst'') p"
  shows "mode_loop m s (p @ rest) = mode_loop m (s\<lparr>mode_value := mode_value s OR which_bits (affected s) p\<rparr>) rest"
  using assms
proof (induction p arbitrary: s)
  case Nil
  then show ?case by (simp add: which_bits_def)
next
  case (Cons c w)
  let ?b = "which_bits (affected s) [c]"
  have "mode_loop m s (c # w @ rest) = mode_loop m (which_char ?b s) (w @ rest)"
    using Cons.prems by (auto simp: which_bits_def)
  also have "\<dots> = mode_loop m ((which_char ?b s)\<lparr>mode_value := mode_value s OR ?b OR which_bits (affected s) w\<rparr>) rest"
    using Cons.IH [of "which_char ?b s"] Cons.prems by (simp add: which_char_def or.assoc)
  also have "\<dots> = mode_loop m (s\<lparr>mode_value := mode_value s OR which_bits (affected s) (c # w)\<rparr>) rest"
    by (rule mode_loop_core) (simp add: scan_core_def which_char_def which_bits_def or.assoc or.commute)
  finally show ?case by simp
qed

text \<open>Between clauses.\<close>

definition fresh_scan :: "mode_t \<Rightarrow> mode_t \<Rightarrow> mode_scan \<Rightarrow> bool" where
  "fresh_scan p m s \<longleftrightarrow> affected s = 0 \<and> mode_value s = 0 \<and> \<not> gotaction s \<and> mode_action s = CHR ''='' \<and> plusmask s = p \<and> minusmask s = m"

definition after_clause :: "clause \<Rightarrow> mode_t \<Rightarrow> mode_t \<Rightarrow> mode_scan" where
  "after_clause c p m = \<lparr>affected = clause_affected c, mode_value = clause_value c, gotaction = True, no_error = True,
     mode_action = clause_action c, mode_state = which, found_sort = unknown, mode_sort = unknown, plusmask = p, minusmask = m\<rparr>"

lemma octal_digits: "list_all is_octal ds \<Longrightarrow> (rest = [] \<or> \<not> c_isdigit (hd rest)) \<Longrightarrow>
  takeWhile is_octal (ds @ rest) = ds \<and> dropWhile c_isdigit (ds @ rest) = rest"
  by (induction ds; cases rest) (auto simp: is_octal_def)

lemma octal_all: "list_all is_octal ds \<Longrightarrow> takeWhile is_octal ds = ds"
  by (induction ds) auto

lemma read_octal_append:
  assumes "list_all is_octal ds" "rest = [] \<or> \<not> c_isdigit (hd rest)"
  shows "read_octal (ds @ rest) = read_octal ds"
  unfolding read_octal_def octal_all [OF assms(1)] conjunct1 [OF octal_digits [OF assms]] ..

lemma octal_small:
  assumes "clause_ok (Octal ds)"
  shows "\<not> 0xFFF < sint (read_octal ds)"
proof -
  let ?n = "foldl (\<lambda>a c. 8 * a + digit_value c) 0 ds"
  have n: "takeWhile is_octal ds = ds" "?n \<le> 0xFFF" using assms octal_all by auto
  then have "read_octal ds = word_of_nat ?n" unfolding read_octal_def n(1) by (simp add: min_def)
  moreover have "sint (word_of_nat ?n :: mode_t) = int ?n"
    using n(2) by (simp add: signed_of_nat signed_take_bit_int_eq_self)
  ultimately show ?thesis using n(2) by simp
qed

lemma read_clause:
  assumes "clause_ok c" "fresh_scan p m s" "rest = [] \<or> \<not> c_isdigit (hd rest)"
  shows "mode_loop str s (clause_text c @ rest) = mode_loop str (after_clause c p m) rest"
proof (cases c)
  case (Symbolic w act perms)
  let ?s1 = "s\<lparr>affected := affected s OR who_bits w\<rparr>"
  let ?s2 = "?s1\<lparr>no_error := CheckModeState who (mode_state ?s1) symbolic (mode_sort ?s1), mode_action := act, mode_state := which,
    gotaction := True, mode_sort := unknown\<rparr>"
  have ok: "list_all (\<lambda>c. c \<in> set ''augo'') w" "act \<in> set ''+-=''" "list_all (\<lambda>c. c \<in> set ''rwxst'') perms"
    using assms(1) Symbolic by simp_all
  have "mode_loop str s (clause_text c @ rest) = mode_loop str ?s1 (act # perms @ rest)"
    using read_who [OF ok(1), of str s "act # perms @ rest"] Symbolic by simp
  also have "\<dots> = mode_loop str ?s2 (perms @ rest)"
    using ok(2) assms(2) by (auto simp: fresh_scan_def)
  also have "\<dots> = mode_loop str (?s2\<lparr>mode_value := mode_value ?s2 OR which_bits (affected ?s2) perms\<rparr>) rest"
    by (rule read_which [OF ok(3)])
  also have "\<dots> = mode_loop str (after_clause c p m) rest"
    using assms(2) Symbolic by (intro mode_loop_core) (simp add: scan_core_def after_clause_def fresh_scan_def)
  finally show ?thesis .
next
  case (Octal ds)
  then obtain d ds' where ds: "ds = d # ds'" "is_octal d" using assms(1) by (cases ds) auto
  let ?s1 = "s\<lparr>no_error := CheckModeState which (mode_state s) numeric (mode_sort s), mode_sort := numeric,
                   gotaction := True, mode_state := which, affected := 0xFFF, mode_value := read_octal (ds @ rest)\<rparr>"
  have all: "list_all is_octal ds" using assms(1) Octal by simp
  have d: "d \<noteq> CHR ''a'' \<and> d \<noteq> CHR ''u'' \<and> d \<noteq> CHR ''g'' \<and> d \<noteq> CHR ''o'' \<and> d \<noteq> CHR ''+'' \<and> d \<noteq> CHR ''-'' \<and> d \<noteq> CHR ''='' \<and>
      d \<noteq> CHR ''r'' \<and> d \<noteq> CHR ''w'' \<and> d \<noteq> CHR ''x'' \<and> d \<noteq> CHR ''s'' \<and> d \<noteq> CHR ''t''"
    using ds(2) by (auto simp: is_octal_def c_isdigit_def)
  have "mode_loop str s (clause_text c @ rest) = mode_loop str ?s1 (dropWhile c_isdigit (ds @ rest))"
    using octal_small [of ds] assms(1) Octal d ds read_octal_append [OF all assms(3)] by simp
  also have "\<dots> = mode_loop str (after_clause c p m) rest"
    using octal_digits [OF all assms(3)] read_octal_append [OF all assms(3)] Octal assms(2)
    by (auto intro!: mode_loop_core simp: scan_core_def after_clause_def fresh_scan_def)
  finally show ?thesis .
qed

lemma SetModeMask_clause:
  assumes "clause_ok c"
  shows "\<exists>s'. SetModeMask (after_clause c p m) = (True, s') \<and> plusmask s' = p OR clause_plus c \<and> minusmask s' = m OR clause_minus c"
  using assms by (cases c) (auto simp: SetModeMask_def after_clause_def clause_plus_def clause_minus_def)

lemma mode_loop_clauses:
  assumes "list_all clause_ok cs" "cs \<noteq> []" "clause_value (last cs) \<noteq> 0 \<or> str = ''0000'' \<or> str = ''000''" "fresh_scan p m s"
  shows "mode_loop str s (modes_text cs) = (True, p OR all_plus cs, m OR all_minus cs)"
  using assms
proof (induction cs arbitrary: p m s rule: modes_text.induct)
  case (2 c)
  then obtain s' where "SetModeMask (after_clause c p m) = (True, s')" "plusmask s' = p OR clause_plus c" "minusmask s' = m OR clause_minus c"
    using SetModeMask_clause [of c p m] by auto
  then show ?case
    using 2 read_clause [of c p m s "[]" str]
    by (auto simp: mode_result_def after_clause_def all_plus_def all_minus_def)
next
  case (3 c c' cs)
  obtain s' where set: "SetModeMask (after_clause c p m) = (True, s')" "plusmask s' = p OR clause_plus c" "minusmask s' = m OR clause_minus c"
    using SetModeMask_clause [of c p m] 3(2) by auto
  let ?s1 = "s'\<lparr>found_sort := mode_sort s', mode_sort := unknown, mode_action := CHR ''='',
             affected := 0, mode_value := 0, gotaction := False, mode_state := who\<rparr>"
  have fresh: "fresh_scan (p OR clause_plus c) (m OR clause_minus c) ?s1" using set by (simp add: fresh_scan_def)
  have "mode_loop str s (modes_text (c # c' # cs)) = mode_loop str (after_clause c p m) ('','' @ modes_text (c' # cs))"
    using read_clause [of c p m s "'','' @ modes_text (c' # cs)" str] 3(2,5) by (simp add: c_isdigit_def)
  also have "\<dots> = mode_loop str ?s1 (modes_text (c' # cs))" using set by (simp add: is_octal_def c_isdigit_def)
  also have "\<dots> = (True, (p OR clause_plus c) OR all_plus (c' # cs), (m OR clause_minus c) OR all_minus (c' # cs))"
    by (rule 3(1)) (use 3 fresh in auto)
  finally show ?case by (simp add: all_plus_def all_minus_def or.assoc)
qed simp

section \<open>What the masks do\<close>

text \<open>The masks of the clauses, one after the other.\<close>

definition mask_step :: "mode_t \<Rightarrow> clause \<Rightarrow> mode_t" where
  "mask_step perm c = (perm OR clause_plus c) AND NOT (clause_minus c)"

lemma masks_step:
  fixes x p m p' m' :: mode_t
  assumes "(p OR p') AND (m OR m') = 0"
  shows "(x OR p OR p') AND NOT (m OR m') = (((x OR p) AND NOT m) OR p') AND NOT m'"
proof (rule bit_word_eqI)
  fix n
  assume "n < LENGTH(32)"
  have "\<not> bit ((p OR p') AND (m OR m')) n" using assms by simp
  then show "bit ((x OR p OR p') AND NOT (m OR m')) n = bit ((((x OR p) AND NOT m) OR p') AND NOT m') n"
    by (auto simp: bit_and_iff bit_or_iff bit_not_iff)
qed

lemma masks_are_sequential:
  "all_plus cs AND all_minus cs = 0 \<Longrightarrow> (perm OR all_plus cs) AND NOT (all_minus cs) = foldl mask_step perm cs"
proof (induction cs arbitrary: perm)
  case (Cons c cs)
  have zero: "(clause_plus c OR all_plus cs) AND (clause_minus c OR all_minus cs) = 0"
    using Cons.prems by (simp add: all_plus_def all_minus_def)
  then have "all_plus cs AND all_minus cs = 0"
    by (metis and_zero_eq bit.conj_disj_distrib bit.conj_disj_distrib2 or_eq_0_iff)
  with Cons.IH [of "mask_step perm c"] masks_step [OF zero, of perm] show ?case
    by (simp add: all_plus_def all_minus_def mask_step_def or.assoc)
qed (simp add: all_plus_def all_minus_def)

text \<open>
  What the utility \<open>chmod\<close> does to the twelve permission bits of a file that is not a directory.  A bit belongs to the user, the group or the
  others, and has a letter; a clause changes the bits of those it names, \<open>a\<close> all of them, and a number sets all bits.
\<close>

fun owner_letter :: "nat \<Rightarrow> char option" where
  "owner_letter n = (if n < 3 then Some CHR ''o'' else if n < 6 \<or> n = 10 then Some CHR ''g'' else if n < 9 \<or> n = 11 then Some CHR ''u'' else None)"

fun perm_letter :: "nat \<Rightarrow> char" where
  "perm_letter n = (if n > 9 then CHR ''s'' else if n = 9 then CHR ''t'' else ''xwr'' ! (n mod 3))"

definition governed :: "string \<Rightarrow> nat \<Rightarrow> bool" where
  "governed w n \<longleftrightarrow> CHR ''a'' \<in> set w \<or> owner_letter n \<in> Some ` set w"

definition octal_number :: "string \<Rightarrow> nat" where
  "octal_number ds = foldl (\<lambda>a c. 8 * a + digit_value c) 0 ds"

fun chmod_bits :: "(nat \<Rightarrow> bool) \<Rightarrow> clause \<Rightarrow> nat \<Rightarrow> bool" where
  "chmod_bits perm (Symbolic w act p) n =
     (if \<not> governed w n then perm n
      else if act = CHR ''+'' then perm n \<or> perm_letter n \<in> set p
      else if act = CHR ''-'' then perm n \<and> perm_letter n \<notin> set p
      else perm_letter n \<in> set p)"
| "chmod_bits perm (Octal ds) n = odd (octal_number ds div 2 ^ n)"

text \<open>
  Clauses in which the two agree: \<open>chmod\<close> minds the umask when nobody is named, where the code takes no bits at all, and leaves the sticky bit
  alone unless all are named, where the code always takes it.
\<close>

fun chmod_clause :: "clause \<Rightarrow> bool" where
  "chmod_clause (Symbolic w act p) \<longleftrightarrow> clause_ok (Symbolic w act p) \<and> w \<noteq> [] \<and> (CHR ''t'' \<in> set p \<longrightarrow> CHR ''a'' \<in> set w)"
| "chmod_clause (Octal ds) \<longleftrightarrow> clause_ok (Octal ds)"

lemma who_table: "\<forall>n \<in> set [0..<12]. \<forall>c \<in> set ''augo''. bit (who_bits [c]) n \<longleftrightarrow> governed [c] n"
  by code_simp

lemma which_table:
  "\<forall>n \<in> set [0..<12]. (bit (0x124 :: mode_t) n \<longleftrightarrow> perm_letter n = CHR ''r'') \<and> (bit (0x092 :: mode_t) n \<longleftrightarrow> perm_letter n = CHR ''w'') \<and>
     (bit (0x049 :: mode_t) n \<longleftrightarrow> perm_letter n = CHR ''x'') \<and> (bit (0xC00 :: mode_t) n \<longleftrightarrow> perm_letter n = CHR ''s'') \<and>
     (bit (0x200 :: mode_t) n \<longleftrightarrow> perm_letter n = CHR ''t'') \<and> (perm_letter n = CHR ''t'' \<longrightarrow> n = 9)"
  by code_simp

lemma low_bits: "n < 12 \<Longrightarrow> bit (0xFFF :: mode_t) n"
proof -
  have "\<forall>n \<in> set [0..<12]. bit (0xFFF :: mode_t) n" by code_simp
  then show "n < 12 \<Longrightarrow> ?thesis" by simp
qed

lemma bit_who:
  assumes "n < 12" "list_all (\<lambda>c. c \<in> set ''augo'') w"
  shows "bit (who_bits w) n \<longleftrightarrow> governed w n"
  using assms(2)
proof (induction w)
  case Nil
  then show ?case by (simp add: who_bits_def governed_def)
next
  case (Cons c w)
  have "bit (who_bits (c # w)) n \<longleftrightarrow> bit (who_bits w) n \<or> bit (who_bits [c]) n"
    by (simp add: who_bits_def bit_or_iff)
  moreover have "bit (who_bits [c]) n \<longleftrightarrow> governed [c] n"
    using who_table assms(1) Cons.prems by auto
  ultimately show ?case using Cons by (auto simp: governed_def)
qed

lemma bit_which:
  assumes "n < 12" "list_all (\<lambda>c. c \<in> set ''rwxst'') p" "CHR ''t'' \<in> set p \<longrightarrow> bit aff 9"
  shows "bit (which_bits aff p) n \<longleftrightarrow> bit aff n \<and> perm_letter n \<in> set p"
  using assms(2,3)
proof (induction p)
  case Nil
  then show ?case by (simp add: which_bits_def)
next
  case (Cons c p)
  have "bit (which_bits aff (c # p)) n \<longleftrightarrow> bit (which_bits aff p) n \<or> bit (which_bits aff [c]) n"
    by (simp add: which_bits_def bit_or_iff)
  moreover have "bit (which_bits aff [c]) n \<longleftrightarrow> bit aff n \<and> perm_letter n = c"
    using which_table [THEN bspec, of n] assms(1) Cons.prems by (auto simp: which_bits_def bit_and_iff simp del: perm_letter.simps)
  ultimately show ?case using Cons by (auto simp del: perm_letter.simps)
qed

lemma bit_octal:
  assumes "clause_ok (Octal ds)" "n < 12"
  shows "bit (read_octal ds) n \<longleftrightarrow> odd (octal_number ds div 2 ^ n)"
proof -
  have all: "takeWhile is_octal ds = ds" and le: "octal_number ds \<le> 0xFFF"
    using assms(1) octal_all [of ds] by (simp_all only: clause_ok.simps octal_number_def simp_thms)
  then have "read_octal ds = word_of_nat (octal_number ds)"
    using le unfolding read_octal_def all octal_number_def by (simp add: min_def)
  then show ?thesis using assms(2) by (simp add: bit_of_nat_iff bit_iff_odd [of "octal_number ds"])
qed

lemma mask_step_chmod:
  assumes "chmod_clause c" "n < 12"
  shows "bit (mask_step perm c) n \<longleftrightarrow> chmod_bits (bit perm) c n"
proof (cases c)
  case (Symbolic w act p)
  note n = low_bits [OF assms(2)]
  have who: "bit (who_bits w) m \<longleftrightarrow> governed w m" if "m < 12" for m using bit_who [OF that, of w] assms(1) Symbolic by simp
  have which: "bit (which_bits (who_bits w) p) n \<longleftrightarrow> governed w n \<and> perm_letter n \<in> set p"
    using bit_which [OF assms(2), of p "who_bits w"] assms(1) Symbolic who [of 9] who [OF assms(2)] by (auto simp: governed_def)
  show ?thesis
    using assms Symbolic n
    by (auto simp: mask_step_def clause_plus_def clause_minus_def bit_or_iff bit_and_iff bit_not_iff who which)
next
  case (Octal ds)
  have "bit ((p OR v) AND NOT (NOT v AND k AND k)) n \<longleftrightarrow> bit v n" if "bit k n" for p v k :: mode_t
    using that assms(2) by (auto simp: bit_or_iff bit_and_iff bit_not_iff)
  from this [OF low_bits [OF assms(2)]] have "bit (mask_step perm (Octal ds)) n \<longleftrightarrow> bit (read_octal ds) n"
    unfolding mask_step_def clause_plus_def clause_minus_def by simp
  then show ?thesis
    using Octal assms bit_octal [of ds n] by simp
qed

lemma chmod_bits_cong: "(n < 12 \<Longrightarrow> f n = g n) \<Longrightarrow> n < 12 \<Longrightarrow> chmod_bits f c n = chmod_bits g c n"
  by (cases c) auto

lemma mask_steps_chmod:
  "list_all chmod_clause cs \<Longrightarrow> n < 12 \<Longrightarrow> (\<And>m. m < 12 \<Longrightarrow> bit perm m = f m) \<Longrightarrow> bit (foldl mask_step perm cs) n = foldl chmod_bits f cs n"
proof (induction cs arbitrary: perm f)
  case (Cons c cs)
  have "bit (mask_step perm c) m = chmod_bits f c m" if "m < 12" for m
    using mask_step_chmod [OF _ that, of c perm] chmod_bits_cong [of m "bit perm" f c] Cons.prems that by simp
  with Cons show ?case by simp
qed simp

lemma clause_ok_chmod: "list_all chmod_clause cs \<Longrightarrow> list_all clause_ok cs"
proof -
  have "clause_ok c" if "chmod_clause c" for c using that by (cases c) auto
  then show "list_all chmod_clause cs \<Longrightarrow> ?thesis" by (simp add: list_all_iff)
qed



text \<open>a clause that sets what an earlier \<open>=\<close> has cleared is lost: \<open>a=r,u+w\<close> makes a file read-only for its owner.\<close>

lemma later_clause_lost:
  "\<exists>p m. ParseModeString (Some ''a=r,u+w'') = (True, p, m) \<and> wanted_mode st_mode False rxdirs p m = 0x124 \<and>
     foldl chmod_bits (bit st_mode) [Symbolic ''a'' CHR ''='' ''r'', Symbolic ''u'' CHR ''+'' ''w''] 7"
proof -
  let ?cs = "[Symbolic ''a'' CHR ''='' ''r'', Symbolic ''u'' CHR ''+'' ''w'']"
  have "list_all clause_ok ?cs" "?cs \<noteq> []" "clause_value (last ?cs) \<noteq> 0" "fresh_scan 0 0 start_scan"
    by (simp_all add: who_bits_def which_bits_def fresh_scan_def start_scan_def)
  from mode_loop_clauses [OF this(1,2) _ this(4), of "modes_text ?cs"] this(3)
  have parse: "ParseModeString (Some ''a=r,u+w'') = (True, 0x1A4, 0xEDB)"
    by (simp add: ParseModeString_def all_plus_def all_minus_def clause_plus_def clause_minus_def who_bits_def which_bits_def)
  have absorb: "(x AND y) OR y = y" for x y :: mode_t by (rule bit_word_eqI) (auto simp: bit_and_iff bit_or_iff)
  have "wanted_mode st_mode False rxdirs 0x1A4 0xEDB = ((st_mode AND 0x124) OR 0x124)"
    by (simp add: wanted_mode_def CF_SAMEMODE_def Let_def bit.conj_disj_distrib2 and.assoc)
  moreover have "foldl chmod_bits (bit st_mode) ?cs 7" by (simp add: governed_def)
  ultimately show ?thesis using parse absorb [of st_mode "0x124"] by simp
qed

end
