(* ===== verification/CF_Policy.thy ===== *)
theory CF_Policy
  imports CF_Modes CF_Hashes
begin

text \<open>
  The tree of a policy (\<open>src/cf3.defs.h\<close>, \<open>src/constraints.h\<close>, \<open>src/policy.h\<close>), its checks (\<open>src/policy.c\<close>), the lookup of
  bundles and bodies (\<open>src/generic_agent.c\<close>, \<open>src/promises.c\<close>) and of the constraints of a promise (\<open>src/constraints.c\<close>).
  A list of nodes that are linked by \<open>next\<close> is a list.  The pointers to parents are left out; a function that follows them
  gets the policy as an argument.
\<close>

section \<open>The tree\<close>

record SourceOffset =
  off_start :: nat
  off_end :: nat
  off_line :: nat
  off_context :: nat

record Constraint =
  con_lval :: string
  con_rval :: rval
  con_classes :: "string option"
  references_body :: bool
  con_offset :: SourceOffset

record Promise =
  pr_classes :: "string option"
  pr_ref :: "string option"
  promiser :: string
  promisee :: rval
  pr_bundle :: string
  pr_audit :: "string option"
  conlist :: "Constraint list"
  agentsubtype :: string
  bundletype :: string
  pr_namespace :: string
  pr_done :: bool
  has_subbundles :: bool
  pr_offset :: SourceOffset

record SubType =
  st_name :: "string option"
  promiselist :: "Promise list"
  st_offset :: SourceOffset

record Bundle =
  bu_type :: string
  bu_name :: string
  bu_namespace :: "string option"
  bu_args :: "rval list"
  subtypes :: "SubType list"
  bu_source_path :: string
  bu_offset :: SourceOffset

record Body =
  bo_type :: string
  bo_name :: string
  bo_namespace :: "string option"
  bo_args :: "rval list"
  bo_conlist :: "Constraint list"
  bo_source_path :: string
  bo_offset :: SourceOffset

record Policy =
  bundles :: "Bundle list"
  bodies :: "Body list"
  current_namespace :: string

definition PolicyNew :: Policy where
  "PolicyNew = \<lparr>bundles = [], bodies = [], current_namespace = ''default''\<rparr>"

definition PolicySetNameSpace :: "Policy \<Rightarrow> string \<Rightarrow> Policy" where
  "PolicySetNameSpace pol ns = pol\<lparr>current_namespace := ns\<rparr>"

definition CurrentNameSpace :: "Policy \<Rightarrow> string" where
  "CurrentNameSpace pol = current_namespace pol"

definition BundleQualifiedName :: "Bundle \<Rightarrow> string" where
  "BundleQualifiedName bundle =
     (case bu_namespace bundle of Some ns \<Rightarrow> ns | None \<Rightarrow> ''default'') @ '':'' @ bu_name bundle"

definition NO_OFFSET :: SourceOffset where
  "NO_OFFSET = \<lparr>off_start = 0, off_end = 0, off_line = 0, off_context = 0\<rparr>"

definition ConstraintNew :: "string \<Rightarrow> rval \<Rightarrow> string option \<Rightarrow> bool \<Rightarrow> Constraint" where
  "ConstraintNew lv rv cls rb =
     \<lparr>con_lval = lv, con_rval = rv, con_classes = cls, references_body = rb, con_offset = NO_OFFSET\<rparr>"

definition ConstraintAppendToPromise :: "Promise \<Rightarrow> string \<Rightarrow> rval \<Rightarrow> string option \<Rightarrow> bool \<Rightarrow> Promise" where
  "ConstraintAppendToPromise promise lv rv cls rb = promise\<lparr>conlist := conlist promise @ [ConstraintNew lv rv cls rb]\<rparr>"

definition ConstraintAppendToBody :: "Body \<Rightarrow> string \<Rightarrow> rval \<Rightarrow> string option \<Rightarrow> bool \<Rightarrow> Body" where
  "ConstraintAppendToBody body lv rv cls rb = body\<lparr>bo_conlist := bo_conlist body @ [ConstraintNew lv rv cls rb]\<rparr>"

fun EditScalarConstraint :: "Constraint list \<Rightarrow> string \<Rightarrow> string \<Rightarrow> Constraint list" where
  "EditScalarConstraint [] lv rv = []"
| "EditScalarConstraint (cp # cs) lv rv =
     (if strcmp lv (con_lval cp) = 0 then cp\<lparr>con_rval := Scalar rv\<rparr> # cs else cp # EditScalarConstraint cs lv rv)"

section \<open>Lookup of bundles and bodies\<close>

text \<open>A bundle of type common is found for every agent.\<close>

fun find_bundle :: "Bundle list \<Rightarrow> string \<Rightarrow> string option \<Rightarrow> Bundle option" where
  "find_bundle [] nm agent = None"
| "find_bundle (bp # bs) nm agent =
     (if strcmp (bu_name bp) nm = 0 then
        (case agent of
           Some a \<Rightarrow> if strcmp (bu_type bp) a = 0 \<or> strcmp (bu_type bp) ''common'' = 0 then Some bp else find_bundle bs nm agent
         | None \<Rightarrow> Some bp)
      else find_bundle bs nm agent)"

definition GetBundle :: "Policy \<Rightarrow> string \<Rightarrow> string option \<Rightarrow> Bundle option" where
  "GetBundle pol nm agent = find_bundle (bundles pol) nm agent"

definition GetSubTypeForBundle :: "string \<Rightarrow> Bundle option \<Rightarrow> SubType option" where
  "GetSubTypeForBundle type bp = (case bp of None \<Rightarrow> None | Some b \<Rightarrow> List.find (\<lambda>sp. st_name sp = Some type) (subtypes b))"

text \<open>The name under which a body is searched, seen from a namespace; the key fits into the buffer of \<open>CF_BUFSIZE\<close> bytes.\<close>

definition body_key :: "string \<Rightarrow> string \<Rightarrow> string" where
  "body_key namespace key =
     (if CHR '':'' \<in> set key \<or> strcmp namespace ''default'' = 0
      then if starts_with ''default:'' key then drop (length ''default:'') key else key
      else take (CF_BUFSIZE - 2) (namespace @ '':'' @ key))"

definition IsBody :: "Body list \<Rightarrow> string \<Rightarrow> string \<Rightarrow> Body option" where
  "IsBody list namespace key = List.find (\<lambda>bp. strcmp (bo_name bp) (body_key namespace key) = 0) list"

text \<open>A bundle is searched with its own namespace in front of the key, unless the key starts with the text of the namespace.\<close>

definition bundle_key :: "string \<Rightarrow> string \<Rightarrow> string" where
  "bundle_key namespace key =
     (if strcmp namespace ''default'' = 0
      then if starts_with ''default:'' key then drop (length ''default:'') key else key
      else if starts_with namespace key then key
      else take (CF_BUFSIZE - 2) (namespace @ '':'' @ key))"

fun IsBundle :: "Bundle list \<Rightarrow> string \<Rightarrow> Bundle option res" where
  "IsBundle [] key = Inr None"
| "IsBundle (bp # list) key = (case bu_namespace bp of
     None \<Rightarrow> Inl NullDereference
   | Some ns \<Rightarrow> if strcmp (bu_name bp) (bundle_key ns key) = 0 then Inr (Some bp) else IsBundle list key)"

section \<open>Checks of a policy\<close>

datatype element =
    BundleElement Bundle
  | BodyElement Body
  | SubTypeElement Bundle SubType
  | ConstraintElement Bundle Constraint

record PolicyError =
  subject :: element
  message :: string

text \<open>The functions append their errors to the sequence and say whether there were none.\<close>

definition IsDataType :: "string \<Rightarrow> bool" where
  "IsDataType s \<longleftrightarrow> s \<in> set [''string'', ''slist'', ''int'', ''ilist'', ''real'', ''rlist'']"

fun check_data_types :: "Bundle \<Rightarrow> string option \<Rightarrow> Constraint list \<Rightarrow> PolicyError list" where
  "check_data_types b data_type [] = []"
| "check_data_types b data_type (cp # cs) =
     (if IsDataType (con_lval cp) then
        (case data_type of
           None \<Rightarrow> []
         | Some t \<Rightarrow> [\<lparr>subject = ConstraintElement b cp,
             message = ''Variable contains existing data type contstraint '' @ t @ '', tried to redefine with '' @ con_lval cp\<rparr>])
        @ check_data_types b (Some (con_lval cp)) cs
      else check_data_types b data_type cs)"

definition PolicyCheckPromiseVars :: "Bundle \<Rightarrow> Promise \<Rightarrow> bool \<times> PolicyError list" where
  "PolicyCheckPromiseVars b pp = (let errs = check_data_types b None (conlist pp) in (errs = [], errs))"

definition check_arity :: "Policy \<Rightarrow> Bundle \<Rightarrow> Constraint \<Rightarrow> PolicyError list" where
  "check_arity pol b cp =
     (if StringSafeEqual (Some (con_lval cp)) (Some ''usebundle'') then
        (case con_rval cp of
           Call f args \<Rightarrow> (case GetBundle pol f (Some ''agent'') of
              Some callee \<Rightarrow>
                if length args \<noteq> length (bu_args callee)
                then [\<lparr>subject = ConstraintElement b cp,
                       message = ''Conflicting arity in calling bundle '' @ f @ '', expected '' @ show_nat (length (bu_args callee)) @
                         '' arguments, '' @ show_nat (length args) @ '' given''\<rparr>]
                else []
            | None \<Rightarrow> [])
         | _ \<Rightarrow> [])
      else [])"

definition PolicyCheckPromiseMethods :: "Policy \<Rightarrow> Bundle \<Rightarrow> Promise \<Rightarrow> bool \<times> PolicyError list" where
  "PolicyCheckPromiseMethods pol b pp = (let errs = concat (map (check_arity pol b) (conlist pp)) in (errs = [], errs))"

definition PolicyCheckPromise :: "Policy \<Rightarrow> Bundle \<Rightarrow> Promise \<Rightarrow> bool \<times> PolicyError list" where
  "PolicyCheckPromise pol b pp =
     (if agentsubtype pp = ''vars'' then PolicyCheckPromiseVars b pp
      else if agentsubtype pp = ''methods'' then PolicyCheckPromiseMethods pol b pp
      else (True, []))"

definition both :: "bool \<times> PolicyError list \<Rightarrow> bool \<times> PolicyError list \<Rightarrow> bool \<times> PolicyError list" where
  "both a b = (fst a \<and> fst b, snd a @ snd b)"

definition check_all :: "('a \<Rightarrow> bool \<times> PolicyError list) \<Rightarrow> 'a list \<Rightarrow> bool \<times> PolicyError list" where
  "check_all check xs = foldr (\<lambda>x r. both (check x) r) xs (True, [])"

text \<open>
  \<open>known\<close> is \<open>SubTypeSyntaxLookup\<close>, whether the type of bundle has promises of that name.  The message for a missing name
  prints the bundle as a text, which reads its structure as characters.
\<close>

definition PolicyCheckSubType :: "(string \<Rightarrow> string option \<Rightarrow> bool) \<Rightarrow> Policy \<Rightarrow> Bundle \<Rightarrow> SubType \<Rightarrow>
    (bool \<times> PolicyError list) res" where
  "PolicyCheckSubType known pol b subtype = (case st_name subtype of
     None \<Rightarrow> Inl OutOfBounds
   | Some nm \<Rightarrow>
       Inr (both (if known (bu_type b) (Some nm) then (True, [])
                  else (False, [\<lparr>subject = SubTypeElement b subtype, message = nm @ '' is not a valid type category for bundle '' @ bu_name b\<rparr>]))
              (check_all (PolicyCheckPromise pol b) (promiselist subtype))))"

fun check_subtypes :: "(string \<Rightarrow> string option \<Rightarrow> bool) \<Rightarrow> Policy \<Rightarrow> Bundle \<Rightarrow> SubType list \<Rightarrow> (bool \<times> PolicyError list) res" where
  "check_subtypes known pol b [] = Inr (True, [])"
| "check_subtypes known pol b (st # sts) =
     res_bind (PolicyCheckSubType known pol b st) (\<lambda>r. res_bind (check_subtypes known pol b sts) (\<lambda>rs. Inr (both r rs)))"

definition reserved_names :: "string list" where
  "reserved_names = [''sys'', ''const'', ''mon'', ''edit'', ''match'', ''mon'', ''this'']"

definition PolicyCheckBundle :: "(string \<Rightarrow> string option \<Rightarrow> bool) \<Rightarrow> Policy \<Rightarrow> Bundle \<Rightarrow> (bool \<times> PolicyError list) res" where
  "PolicyCheckBundle known pol b =
     (let name_errs = (if IsStrIn (bu_name b) reserved_names
        then (False, [\<lparr>subject = BundleElement b, message = ''Use of a reserved container name as a bundle name \"'' @ bu_name b @ ''\"''\<rparr>])
        else (True, []))
      in res_bind (check_subtypes known pol b (subtypes b)) (\<lambda>r. Inr (both name_errs r)))"

text \<open>The nodes are compared as pointers, so two nodes with the same content are different.\<close>

definition others :: "'a list \<Rightarrow> ('a \<times> 'a) list" where
  "others xs = concat (map (\<lambda>i. map (\<lambda>j. (xs ! i, xs ! j)) (filter (\<lambda>j. j \<noteq> i) [0..<length xs])) [0..<length xs])"

definition duplicate_bundles :: "Bundle list \<Rightarrow> PolicyError list" where
  "duplicate_bundles bs = concat (map (\<lambda>(b, b2).
     if bu_name b = bu_name b2 \<and> bu_type b = bu_type b2
     then [\<lparr>subject = BundleElement b, message = ''Duplicate definition of bundle '' @ bu_name b @ '' with type '' @ bu_type b\<rparr>] else []) (others bs))"

definition duplicate_bodies :: "Body list \<Rightarrow> PolicyError list" where
  "duplicate_bodies bs = concat (map (\<lambda>(b, b2).
     if bo_name b = bo_name b2 \<and> bo_type b = bo_type b2 \<and> strcmp (bo_type b) ''file'' \<noteq> 0
     then [\<lparr>subject = BodyElement b, message = ''Duplicate definition of body '' @ bo_name b @ '' with type '' @ bo_type b\<rparr>] else []) (others bs))"

fun check_bundles :: "(string \<Rightarrow> string option \<Rightarrow> bool) \<Rightarrow> Policy \<Rightarrow> Bundle list \<Rightarrow> (bool \<times> PolicyError list) res" where
  "check_bundles known pol [] = Inr (True, [])"
| "check_bundles known pol (b # bs) =
     res_bind (PolicyCheckBundle known pol b) (\<lambda>r. res_bind (check_bundles known pol bs) (\<lambda>rs. Inr (both r rs)))"

definition PolicyCheck :: "(string \<Rightarrow> string option \<Rightarrow> bool) \<Rightarrow> Policy \<Rightarrow> (bool \<times> PolicyError list) res" where
  "PolicyCheck known pol =
     (let dup = duplicate_bundles (bundles pol); dup2 = duplicate_bodies (bodies pol) in
      res_bind (check_bundles known pol (bundles pol)) (\<lambda>r.
        Inr (both (dup = [], dup) (both r (dup2 = [], dup2)))))"

definition PolicyElementSourceOffset :: "element \<Rightarrow> SourceOffset" where
  "PolicyElementSourceOffset e = (case e of
     BundleElement b \<Rightarrow> bu_offset b | BodyElement b \<Rightarrow> bo_offset b | SubTypeElement b s \<Rightarrow> st_offset s | ConstraintElement b c \<Rightarrow> con_offset c)"

definition PolicyElementSourceFile :: "element \<Rightarrow> string" where
  "PolicyElementSourceFile e = (case e of
     BundleElement b \<Rightarrow> bu_source_path b | BodyElement b \<Rightarrow> bo_source_path b | SubTypeElement b s \<Rightarrow> bu_source_path b
   | ConstraintElement b c \<Rightarrow> bu_source_path b)"

definition PolicyErrorWrite :: "PolicyError \<Rightarrow> string" where
  "PolicyErrorWrite err = PolicyElementSourceFile (subject err) @ '':'' @ show_nat (off_line (PolicyElementSourceOffset (subject err))) @
     '':0: error: '' @ message err @ [CHR 0x0A]"

section \<open>Constraints of a promise\<close>

text \<open>
  Every reader passes over the constraints whose classes are not in force.  A second constraint that counts is reported
  and still read, except where the search stops at the first.
\<close>

definition selected :: "context_state \<Rightarrow> string option \<Rightarrow> string \<Rightarrow> Constraint list \<Rightarrow> Constraint list" where
  "selected ctx namespace lv cs = filter (\<lambda>cp. strcmp (con_lval cp) lv = 0 \<and> IsDefinedClass ctx (con_classes cp) namespace) cs"

definition CF_UNDEFINED :: int where
  "CF_UNDEFINED = -1"

fun boolean_loop :: "context_state \<Rightarrow> string option \<Rightarrow> string \<Rightarrow> int \<Rightarrow> Constraint list \<Rightarrow> int res" where
  "boolean_loop ctx namespace lv retval [] = Inr (if retval = CF_UNDEFINED then 0 else retval)"
| "boolean_loop ctx namespace lv retval (cp # cs) =
     (if strcmp (con_lval cp) lv = 0 then
        if \<not> IsDefinedClass ctx (con_classes cp) namespace then boolean_loop ctx namespace lv retval cs
        else (case con_rval cp of
            Scalar s \<Rightarrow>
              if strcmp s ''true'' = 0 \<or> strcmp s ''yes'' = 0 then boolean_loop ctx namespace lv 1 cs
              else if strcmp s ''false'' = 0 \<or> strcmp s ''no'' = 0 then boolean_loop ctx namespace lv 0 cs
              else boolean_loop ctx namespace lv retval cs
          | NoScalar \<Rightarrow> Inl NullDereference
          | _ \<Rightarrow> Inl FatalErrorExit)
      else boolean_loop ctx namespace lv retval cs)"

definition GetBooleanConstraint :: "context_state \<Rightarrow> string \<Rightarrow> Promise \<Rightarrow> bool res" where
  "GetBooleanConstraint ctx lv pp = map_sum id (\<lambda>i. i \<noteq> 0) (boolean_loop ctx (Some (pr_namespace pp)) lv CF_UNDEFINED (conlist pp))"

definition GetRawBooleanConstraint :: "context_state \<Rightarrow> string \<Rightarrow> Constraint list \<Rightarrow> bool res" where
  "GetRawBooleanConstraint ctx lv list = map_sum id (\<lambda>i. i \<noteq> 0) (boolean_loop ctx None lv CF_UNDEFINED list)"

fun GetBundleConstraint_loop :: "context_state \<Rightarrow> string option \<Rightarrow> string \<Rightarrow> Constraint list \<Rightarrow> bool res" where
  "GetBundleConstraint_loop ctx namespace lv [] = Inr False"
| "GetBundleConstraint_loop ctx namespace lv (cp # cs) =
     (if strcmp (con_lval cp) lv = 0 \<and> IsDefinedClass ctx (con_classes cp) namespace
      then if rtype (con_rval cp) = CHR ''f'' \<or> rtype (con_rval cp) = CHR ''s'' then Inr True else Inl FatalErrorExit
      else GetBundleConstraint_loop ctx namespace lv cs)"

definition GetBundleConstraint :: "context_state \<Rightarrow> string \<Rightarrow> Promise \<Rightarrow> bool res" where
  "GetBundleConstraint ctx lv pp = GetBundleConstraint_loop ctx (Some (pr_namespace pp)) lv (conlist pp)"

text \<open>The last constraint that counts wins; \<open>conv\<close> reads its text.\<close>

fun last_scalar :: "context_state \<Rightarrow> string option \<Rightarrow> string \<Rightarrow> (string option \<Rightarrow> 'a res) \<Rightarrow> 'a \<Rightarrow> Constraint list \<Rightarrow> 'a res" where
  "last_scalar ctx namespace lv conv retval [] = Inr retval"
| "last_scalar ctx namespace lv conv retval (cp # cs) =
     (if strcmp (con_lval cp) lv = 0 \<and> IsDefinedClass ctx (con_classes cp) namespace
      then (case con_rval cp of
          Scalar s \<Rightarrow> res_bind (conv (Some s)) (\<lambda>r. last_scalar ctx namespace lv conv r cs)
        | NoScalar \<Rightarrow> res_bind (conv None) (\<lambda>r. last_scalar ctx namespace lv conv r cs)
        | _ \<Rightarrow> Inl FatalErrorExit)
      else last_scalar ctx namespace lv conv retval cs)"

text \<open>\<open>Str2Int\<close> gives a \<open>long\<close>, of which an \<open>int\<close> is kept.\<close>

definition GetIntConstraint :: "int \<Rightarrow> context_state \<Rightarrow> string \<Rightarrow> Promise \<Rightarrow> int res" where
  "GetIntConstraint CFSTARTTIME ctx lv pp = last_scalar ctx (Some (pr_namespace pp)) lv
     (\<lambda>s. res_bind (Str2Int CFSTARTTIME s) (\<lambda>i. Inr (sint (word_of_int i :: 32 word)))) CF_NOINT (conlist pp)"

definition GetOctalConstraint :: "context_state \<Rightarrow> string \<Rightarrow> Promise \<Rightarrow> mode_t res" where
  "GetOctalConstraint ctx lv pp = last_scalar ctx (Some (pr_namespace pp)) lv Str2Mode 0x3F (conlist pp)"

definition GetUidConstraint :: "(string \<Rightarrow> string list) \<Rightarrow> (string \<Rightarrow> 32 word option) \<Rightarrow> context_state \<Rightarrow> string \<Rightarrow> Promise \<Rightarrow> 32 word res" where
  "GetUidConstraint netgroup getpwnam ctx lv pp = last_scalar ctx (Some (pr_namespace pp)) lv
     (\<lambda>s. case s of None \<Rightarrow> Inl NullDereference | Some t \<Rightarrow> Inr (fst (Str2Uid netgroup getpwnam t))) CF_SAME_OWNER (conlist pp)"

definition GetGidConstraint :: "(string \<Rightarrow> 32 word option) \<Rightarrow> context_state \<Rightarrow> string \<Rightarrow> Promise \<Rightarrow> 32 word res" where
  "GetGidConstraint getgrnam ctx lv pp = last_scalar ctx (Some (pr_namespace pp)) lv
     (\<lambda>s. case s of None \<Rightarrow> Inl NullDereference | Some t \<Rightarrow> Inr (fst (Str2Gid getgrnam t))) CF_SAME_OWNER (conlist pp)"

fun list_constraint_loop :: "context_state \<Rightarrow> string option \<Rightarrow> string \<Rightarrow> Constraint list \<Rightarrow> rval list res" where
  "list_constraint_loop ctx namespace lv [] = Inr []"
| "list_constraint_loop ctx namespace lv (cp # cs) =
     (if strcmp (con_lval cp) lv = 0 \<and> IsDefinedClass ctx (con_classes cp) namespace
      then (case con_rval cp of ListVal l \<Rightarrow> Inr l | _ \<Rightarrow> Inl FatalErrorExit)
      else list_constraint_loop ctx namespace lv cs)"

definition GetListConstraint :: "context_state \<Rightarrow> string \<Rightarrow> Promise \<Rightarrow> rval list res" where
  "GetListConstraint ctx lv pp = list_constraint_loop ctx (Some (pr_namespace pp)) lv (conlist pp)"

definition GetConstraint :: "context_state \<Rightarrow> Promise option \<Rightarrow> string \<Rightarrow> Constraint option" where
  "GetConstraint ctx pp lv = (case pp of
     None \<Rightarrow> None
   | Some p \<Rightarrow> List.find (\<lambda>cp. strcmp (con_lval cp) lv = 0 \<and> IsDefinedClass ctx (con_classes cp) (Some (pr_namespace p))) (conlist p))"

definition GetConstraintValue :: "context_state \<Rightarrow> string \<Rightarrow> Promise option \<Rightarrow> char \<Rightarrow> rval option" where
  "GetConstraintValue ctx lv pp rt = (case GetConstraint ctx pp lv of
     Some c \<Rightarrow> if rtype (con_rval c) = rt \<and> con_rval c \<noteq> NoScalar then Some (con_rval c) else None
   | None \<Rightarrow> None)"

section \<open>Promise handles\<close>

record PromiseIdent =
  id_handle :: string
  id_filename :: string
  id_line :: nat

definition promise_id_name :: "string \<Rightarrow> string \<Rightarrow> string" where
  "promise_id_name namespace handle = take (CF_BUFSIZE - 1) (namespace @ '':'' @ handle)"

definition NewPromiseId :: "PromiseIdent list \<Rightarrow> string \<Rightarrow> Promise \<Rightarrow> PromiseIdent list res" where
  "NewPromiseId ids handle pp = (case pr_audit pp of
     None \<Rightarrow> Inl NullDereference
   | Some f \<Rightarrow> Inr (\<lparr>id_handle = promise_id_name (pr_namespace pp) handle, id_filename = f, id_line = off_line (pr_offset pp)\<rparr> # ids))"

definition DeleteAllPromiseIds :: "PromiseIdent list \<Rightarrow> PromiseIdent list" where
  "DeleteAllPromiseIds ids = []"

definition PromiseIdExists :: "PromiseIdent list \<Rightarrow> string \<Rightarrow> string \<Rightarrow> PromiseIdent option" where
  "PromiseIdExists ids namespace handle =
     List.find (\<lambda>key. strcmp (promise_id_name namespace handle) (id_handle key) = 0) ids"

section \<open>What the checks of a policy establish\<close>

definition promise_ok :: "Policy \<Rightarrow> Promise \<Rightarrow> bool" where
  "promise_ok pol pp \<longleftrightarrow>
     (agentsubtype pp = ''vars'' \<longrightarrow> length (filter (\<lambda>cp. IsDataType (con_lval cp)) (conlist pp)) \<le> 1) \<and>
     (agentsubtype pp = ''methods'' \<longrightarrow> (\<forall>cp \<in> set (conlist pp). \<forall>f args callee.
        con_lval cp = ''usebundle'' \<longrightarrow> con_rval cp = Call f args \<longrightarrow> GetBundle pol f (Some ''agent'') = Some callee \<longrightarrow>
        length args = length (bu_args callee)))"

definition bundle_ok :: "(string \<Rightarrow> string option \<Rightarrow> bool) \<Rightarrow> Policy \<Rightarrow> Bundle \<Rightarrow> bool" where
  "bundle_ok known pol b \<longleftrightarrow> bu_name b \<notin> set reserved_names \<and>
     (\<forall>st \<in> set (subtypes b). known (bu_type b) (st_name st) \<and> (\<forall>pp \<in> set (promiselist st). promise_ok pol pp))"

definition policy_ok :: "(string \<Rightarrow> string option \<Rightarrow> bool) \<Rightarrow> Policy \<Rightarrow> bool" where
  "policy_ok known pol \<longleftrightarrow> distinct (map (\<lambda>b. (bu_name b, bu_type b)) (bundles pol)) \<and>
     distinct (map (\<lambda>b. (bo_name b, bo_type b)) (filter (\<lambda>b. bo_type b \<noteq> ''file'') (bodies pol))) \<and>
     (\<forall>b \<in> set (bundles pol). bundle_ok known pol b)"

definition sound_result :: "bool \<times> PolicyError list \<Rightarrow> bool \<Rightarrow> bool" where
  "sound_result r ok \<longleftrightarrow> fst r = ok \<and> (snd r = []) = ok"

lemma sound_both: "sound_result a p \<Longrightarrow> sound_result b q \<Longrightarrow> sound_result (both a b) (p \<and> q)"
  by (auto simp: sound_result_def both_def)

lemma sound_list: "sound_result (errs = [], errs) (errs = [])"
  by (simp add: sound_result_def)

lemma check_data_types_ok:
  "check_data_types b t cs = [] \<longleftrightarrow> length (filter (\<lambda>cp. IsDataType (con_lval cp)) cs) \<le> (if t = None then 1 else 0)"
  by (induction b t cs rule: check_data_types.induct) (auto split: option.splits)

lemma check_arity_ok:
  "check_arity pol b cp = [] \<longleftrightarrow> (\<forall>f args callee. con_lval cp = ''usebundle'' \<longrightarrow> con_rval cp = Call f args \<longrightarrow>
     GetBundle pol f (Some ''agent'') = Some callee \<longrightarrow> length args = length (bu_args callee))"
  by (auto simp: check_arity_def split: rval.splits option.splits)

lemma PolicyCheckPromise_sound: "sound_result (PolicyCheckPromise pol b pp) (promise_ok pol pp)"
proof -
  have "sound_result (PolicyCheckPromiseVars b pp) (length (filter (\<lambda>cp. IsDataType (con_lval cp)) (conlist pp)) \<le> 1)"
    using sound_list [of "check_data_types b None (conlist pp)"] check_data_types_ok [of b None "conlist pp"]
    by (simp add: PolicyCheckPromiseVars_def Let_def)
  moreover have "sound_result (PolicyCheckPromiseMethods pol b pp) (\<forall>cp \<in> set (conlist pp). check_arity pol b cp = [])"
    using sound_list [of "concat (map (check_arity pol b) (conlist pp))"] by (simp add: PolicyCheckPromiseMethods_def Let_def)
  moreover have "sound_result (True, []) True" by (simp add: sound_result_def)
  ultimately show ?thesis unfolding PolicyCheckPromise_def promise_ok_def check_arity_ok by auto
qed

lemma check_all_sound:
  "(\<And>x. x \<in> set xs \<Longrightarrow> sound_result (check x) (P x)) \<Longrightarrow> sound_result (check_all check xs) (\<forall>x \<in> set xs. P x)"
proof (induction xs)
  case (Cons x xs)
  then have "sound_result (both (check x) (check_all check xs)) (P x \<and> (\<forall>x \<in> set xs. P x))" by (intro sound_both) auto
  then show ?case by (simp add: check_all_def)
qed (simp add: check_all_def sound_result_def)

lemma check_subtypes_sound:
  "check_subtypes known pol b sts = Inr r \<Longrightarrow>
   sound_result r (\<forall>st \<in> set sts. known (bu_type b) (st_name st) \<and> (\<forall>pp \<in> set (promiselist st). promise_ok pol pp))"
proof (induction sts arbitrary: r)
  case (Cons st sts)
  then obtain r1 rs where r: "PolicyCheckSubType known pol b st = Inr r1" "check_subtypes known pol b sts = Inr rs" "r = both r1 rs"
    by (auto simp: res_bind_eq_Inr)
  then obtain nm where nm: "st_name st = Some nm" by (auto simp: PolicyCheckSubType_def split: option.splits)
  have "sound_result (if known (bu_type b) (Some nm) then (True, []) else (False, [e])) (known (bu_type b) (Some nm))" for e
    by (simp add: sound_result_def)
  from sound_both [OF this check_all_sound [of "promiselist st" "PolicyCheckPromise pol b" "promise_ok pol"]] PolicyCheckPromise_sound r(1) nm
  have "sound_result r1 (known (bu_type b) (st_name st) \<and> (\<forall>pp \<in> set (promiselist st). promise_ok pol pp))"
    by (auto simp: PolicyCheckSubType_def)
  from sound_both [OF this Cons.IH [OF r(2)]] show ?case by (simp add: r(3))
qed (simp add: sound_result_def)

lemma check_bundles_sound: "check_bundles known pol bs = Inr r \<Longrightarrow> sound_result r (\<forall>b \<in> set bs. bundle_ok known pol b)"
proof (induction bs arbitrary: r)
  case (Cons b bs)
  then obtain r1 rs where r: "PolicyCheckBundle known pol b = Inr r1" "check_bundles known pol bs = Inr rs" "r = both r1 rs"
    by (auto simp: res_bind_eq_Inr)
  then obtain r2 where r2: "check_subtypes known pol b (subtypes b) = Inr r2"
    "r1 = both (if IsStrIn (bu_name b) reserved_names
        then (False, [\<lparr>subject = BundleElement b, message = ''Use of a reserved container name as a bundle name \"'' @ bu_name b @ ''\"''\<rparr>])
        else (True, [])) r2"
    by (auto simp: PolicyCheckBundle_def Let_def res_bind_eq_Inr)
  have "sound_result (if IsStrIn (bu_name b) reserved_names then (False, [e]) else (True, [])) (bu_name b \<notin> set reserved_names)" for e
    by (auto simp: sound_result_def IsStrIn_def list_ex_iff)
  from sound_both [OF this check_subtypes_sound [OF r2(1)]] have "sound_result r1 (bundle_ok known pol b)"
    unfolding bundle_ok_def r2(2) .
  from sound_both [OF this Cons.IH [OF r(2)]] show ?case by (simp add: r(3))
qed (simp add: sound_result_def)

lemma others_iff: "(a, b) \<in> set (others xs) \<longleftrightarrow> (\<exists>i j. i < length xs \<and> j < length xs \<and> i \<noteq> j \<and> a = xs ! i \<and> b = xs ! j)"
  by (auto simp: others_def)

lemma others_distinct: "(\<forall>(a, b) \<in> set (others xs). f a \<noteq> f b) \<longleftrightarrow> distinct (map f xs)"
  by (fastforce simp: others_iff distinct_conv_nth)

lemma duplicate_bundles_sound: "duplicate_bundles bs = [] \<longleftrightarrow> distinct (map (\<lambda>b. (bu_name b, bu_type b)) bs)"
  unfolding others_distinct [symmetric] duplicate_bundles_def by auto

lemma filter_pairs: "(\<forall>i < length xs. \<forall>j < length xs. i \<noteq> j \<longrightarrow> P (xs ! i) \<longrightarrow> P (xs ! j) \<longrightarrow> f (xs ! i) \<noteq> f (xs ! j)) \<longleftrightarrow> distinct (map f (filter P xs))"
proof (induction xs)
  case (Cons x xs)
  have "(\<forall>i < length (x # xs). \<forall>j < length (x # xs). i \<noteq> j \<longrightarrow> P ((x # xs) ! i) \<longrightarrow> P ((x # xs) ! j) \<longrightarrow> f ((x # xs) ! i) \<noteq> f ((x # xs) ! j)) \<longleftrightarrow>
      (\<forall>j < length xs. P x \<longrightarrow> P (xs ! j) \<longrightarrow> f x \<noteq> f (xs ! j)) \<and>
      (\<forall>i < length xs. \<forall>j < length xs. i \<noteq> j \<longrightarrow> P (xs ! i) \<longrightarrow> P (xs ! j) \<longrightarrow> f (xs ! i) \<noteq> f (xs ! j))"
    (is "?all \<longleftrightarrow> ?h \<and> ?t")
  proof
    assume all: ?all
    have ?h using all [THEN spec, of 0] by auto
    moreover have ?t
    proof (intro allI impI)
      fix i j
      assume "i < length xs" "j < length xs" "i \<noteq> j" "P (xs ! i)" "P (xs ! j)"
      with all [THEN spec, of "Suc i", THEN mp, THEN spec, of "Suc j"] show "f (xs ! i) \<noteq> f (xs ! j)" by auto
    qed
    ultimately show "?h \<and> ?t" ..
  next
    assume "?h \<and> ?t"
    then show ?all by (auto simp: nth_Cons split: nat.split)
  qed
  then show ?case unfolding Cons.IH by (auto simp: in_set_conv_nth)
qed simp

lemma duplicate_bodies_sound:
  "duplicate_bodies bs = [] \<longleftrightarrow> distinct (map (\<lambda>b. (bo_name b, bo_type b)) (filter (\<lambda>b. bo_type b \<noteq> ''file'') bs))"
proof -
  have "duplicate_bodies bs = [] \<longleftrightarrow> (\<forall>(a, b) \<in> set (others bs). \<not> (bo_name a = bo_name b \<and> bo_type a = bo_type b \<and> bo_type a \<noteq> ''file''))"
    unfolding duplicate_bodies_def by (fastforce split: if_splits prod.splits)
  also have "\<dots> \<longleftrightarrow> (\<forall>i < length bs. \<forall>j < length bs. i \<noteq> j \<longrightarrow> bo_type (bs ! i) \<noteq> ''file'' \<longrightarrow> bo_type (bs ! j) \<noteq> ''file'' \<longrightarrow>
      (bo_name (bs ! i), bo_type (bs ! i)) \<noteq> (bo_name (bs ! j), bo_type (bs ! j)))"
    by (fastforce simp: others_iff)
  also have "\<dots> \<longleftrightarrow> distinct (map (\<lambda>b. (bo_name b, bo_type b)) (filter (\<lambda>b. bo_type b \<noteq> ''file'') bs))"
    by (rule filter_pairs)
  finally show ?thesis .
qed

text \<open>C23: the check of a policy succeeds, and reports nothing, exactly when no bundle and no body but those of type file is defined twice, no
  bundle has a reserved name, all types of promises are known, variables have one type, and calls have the arity of their bundle.\<close>

lemma PolicyCheck_iff:
  assumes "PolicyCheck known pol = Inr (success, errors)"
  shows "success = policy_ok known pol \<and> (errors = []) = policy_ok known pol"
proof -
  obtain r where r: "check_bundles known pol (bundles pol) = Inr r"
    "(success, errors) = both (duplicate_bundles (bundles pol) = [], duplicate_bundles (bundles pol))
      (both r (duplicate_bodies (bodies pol) = [], duplicate_bodies (bodies pol)))"
    using assms by (auto simp: PolicyCheck_def Let_def res_bind_eq_Inr)
  from sound_both [OF sound_list sound_both [OF check_bundles_sound [OF r(1)] sound_list],
      of "duplicate_bundles (bundles pol)" "duplicate_bodies (bodies pol)"]
  have "sound_result (success, errors) (policy_ok known pol)"
    unfolding r(2) policy_ok_def duplicate_bundles_sound duplicate_bodies_sound by (simp add: conj_ac)
  then show ?thesis by (simp add: sound_result_def)
qed

definition twice_defined :: Policy where
  "twice_defined = PolicyNew\<lparr>bundles := replicate 2 \<lparr>bu_type = ''agent'', bu_name = ''main'', bu_namespace = Some ''default'', bu_args = [],
     subtypes = [], bu_source_path = ''a.cf'', bu_offset = NO_OFFSET\<rparr>\<rparr>"

lemma PolicyCheck_iff_witness:
  "\<exists>errors. PolicyCheck (\<lambda>_ _. True) twice_defined = Inr (False, errors) \<and> errors \<noteq> []"
proof -
  obtain success errors where r: "PolicyCheck (\<lambda>_ _. True) twice_defined = Inr (success, errors)"
    by (auto simp: PolicyCheck_def twice_defined_def PolicyNew_def PolicyCheckBundle_def Let_def numeral_2_eq_2 both_def)
  moreover have "\<not> policy_ok (\<lambda>_ _. True) twice_defined"
    by (simp add: policy_ok_def twice_defined_def PolicyNew_def numeral_2_eq_2)
  ultimately show ?thesis using PolicyCheck_iff [OF r] by auto
qed

section \<open>Lookup across namespaces\<close>

text \<open>a bundle of a namespace is not found under a name that starts with the letters of the namespace: the test leaves out the colon.\<close>

lemma IsBundle_prefix:
  fixes b :: Bundle
  assumes "bu_namespace b = Some ns" "ns \<noteq> ''default''" "bu_name b = ns @ '':'' @ ns @ nm"
  shows "IsBundle [b] (ns @ nm) = Inr None \<and> IsBundle [b] (ns @ '':'' @ ns @ nm) = Inr (Some b)"
  using assms by (simp add: bundle_key_def)

lemma IsBundle_prefix_witness:
  "IsBundle [\<lparr>bu_type = ''agent'', bu_name = ''web:webserver'', bu_namespace = Some ''web'', bu_args = [],
     subtypes = [], bu_source_path = ''a.cf'', bu_offset = NO_OFFSET\<rparr>] ''webserver'' = Inr None"
  using IsBundle_prefix [of "\<lparr>bu_type = ''agent'', bu_name = ''web:webserver'', bu_namespace = Some ''web'', bu_args = [],
     subtypes = [], bu_source_path = ''a.cf'', bu_offset = NO_OFFSET\<rparr>" "''web''" "''server''"] by simp

section \<open>The value of a constraint\<close>

lemma last_scalar_selected: "last_scalar ctx ns lv conv d cs = last_scalar ctx ns lv conv d (selected ctx ns lv cs)"
  by (induction ctx ns lv conv d cs rule: last_scalar.induct)
     (auto simp: selected_def res_bind_def split: rval.splits sum.splits)

definition readable :: "context_state \<Rightarrow> string option \<Rightarrow> string \<Rightarrow> (string option \<Rightarrow> 'a res) \<Rightarrow> Constraint \<Rightarrow> bool" where
  "readable ctx ns lv conv cp \<longleftrightarrow> con_lval cp = lv \<and> IsDefinedClass ctx (con_classes cp) ns \<and>
     (\<exists>s r. con_rval cp = Scalar s \<and> conv (Some s) = Inr r)"

lemma last_scalar_last:
  "list_all (readable ctx ns lv conv) (ss @ [cp]) \<Longrightarrow> last_scalar ctx ns lv conv d (ss @ [cp]) = conv (Some (scalar_text (con_rval cp)))"
proof (induction ss arbitrary: d)
  case Nil
  then show ?case by (auto simp: readable_def scalar_text_def)
next
  case (Cons c ss)
  then obtain s r where "con_lval c = lv" "IsDefinedClass ctx (con_classes c) ns" "con_rval c = Scalar s" "conv (Some s) = Inr r"
    by (auto simp: readable_def)
  with Cons show ?case by simp
qed

text \<open>\<open>GetIntConstraint\<close> reads the last of the constraints whose classes are in force, and \<open>CF_NOINT\<close> when there is none.\<close>

lemma GetIntConstraint_last:
  assumes "list_all (\<lambda>cp. \<exists>s i. con_rval cp = Scalar s \<and> Str2Int now (Some s) = Inr i) (selected ctx (Some (pr_namespace pp)) lv (conlist pp))"
  shows "GetIntConstraint now ctx lv pp = (case rev (selected ctx (Some (pr_namespace pp)) lv (conlist pp)) of
     [] \<Rightarrow> Inr CF_NOINT
   | cp # _ \<Rightarrow> res_bind (Str2Int now (Some (scalar_text (con_rval cp)))) (\<lambda>i. Inr (sint (word_of_int i :: 32 word))))"
proof (cases "rev (selected ctx (Some (pr_namespace pp)) lv (conlist pp))")
  case Nil
  then show ?thesis unfolding GetIntConstraint_def by (subst last_scalar_selected) simp
next
  case (Cons cp cps)
  let ?conv = "\<lambda>s. res_bind (Str2Int now s) (\<lambda>i. Inr (sint (word_of_int i :: 32 word)))"
  have sel: "selected ctx (Some (pr_namespace pp)) lv (conlist pp) = rev cps @ [cp]" using Cons by (metis rev.simps(2) rev_rev_ident)
  have "c \<in> set (rev cps @ [cp]) \<Longrightarrow> con_lval c = lv \<and> IsDefinedClass ctx (con_classes c) (Some (pr_namespace pp))" for c
    unfolding sel [symmetric] by (simp add: selected_def)
  moreover have "c \<in> set (rev cps @ [cp]) \<Longrightarrow> \<exists>s r. con_rval c = Scalar s \<and> ?conv (Some s) = Inr r" for c
    using assms unfolding sel list_all_iff by fastforce
  ultimately have "list_all (readable ctx (Some (pr_namespace pp)) lv ?conv) (rev cps @ [cp])"
    unfolding list_all_iff readable_def by blast
  from last_scalar_last [OF this] show ?thesis
    unfolding GetIntConstraint_def Cons last_scalar_selected [of ctx _ lv ?conv _ "conlist pp"] sel by simp
qed

definition two_ttls :: Promise where
  "two_ttls = \<lparr>pr_classes = Some ''any'', pr_ref = None, promiser = ''x'', promisee = NoPromisee, pr_bundle = ''b'', pr_audit = None,
     conlist = [ConstraintNew ''ttl'' (Scalar ''5'') None False, ConstraintNew ''ttl'' (Scalar ''7'') None False], agentsubtype = ''files'',
     bundletype = ''agent'', pr_namespace = ''default'', pr_done = False, has_subbundles = False, pr_offset = NO_OFFSET\<rparr>"

lemma GetIntConstraint_last_witness: "GetIntConstraint 0 initial_context ''ttl'' two_ttls = Inr 7"
proof -
  have ints: "Str2Int 0 (Some ''5'') = Inr 5" "Str2Int 0 (Some ''7'') = Inr 7" by code_simp+
  have sel: "selected initial_context (Some (pr_namespace two_ttls)) ''ttl'' (conlist two_ttls) = conlist two_ttls"
    by (simp add: selected_def two_ttls_def ConstraintNew_def IsDefinedClass_def)
  have "list_all (\<lambda>cp. \<exists>s i. con_rval cp = Scalar s \<and> Str2Int 0 (Some s) = Inr i) (conlist two_ttls)"
    by (simp add: two_ttls_def ConstraintNew_def ints)
  then show ?thesis
    using GetIntConstraint_last [of 0 initial_context two_ttls "''ttl''"] unfolding sel
    by (simp add: two_ttls_def ConstraintNew_def scalar_text_def ints)
qed

end
