(* ===== verification/CF_SyntaxTables.thy ===== *)
theory CF_SyntaxTables
  imports CF_Policy
begin

text \<open>
  The tables that say which attributes a promise or a body may have and of which type their values are (\<open>src/mod_*.c\<close>), and
  the table of built-in functions (\<open>src/evalfunction.c\<close>).  An attribute of type \<open>cf_body\<close> points to the table of its body; a value
  of another type has a range, a pattern, a menu, or a pair of bounds in a text.  The descriptions and default values, which
  only the manual prints, and the NULL entries at the ends of the tables are left out.  The pattern of an absolute path is
  that of Unix.
\<close>

datatype BodySyntax = Attr (attr_lval: string) (attr_dtype: cfdatatype) (attr_range: attr_range)
  and attr_range = Pattern string | Table "BodySyntax list" | BundleRange

record SubTypeSyntax =
  bundle_type :: string
  subtype :: string
  ss_bs :: "BodySyntax list"

type_synonym FnCallArg = "string \<times> cfdatatype"

record FnCallType =
  fn_name :: string
  fn_dtype :: cfdatatype
  fn_args :: "FnCallArg list"
  fn_impl :: string
  varargs :: bool

section \<open>Ranges\<close>

definition CF_ABSPATHRANGE :: string where
  "CF_ABSPATHRANGE = [CHR 0x22] @ ''?(/.*)''"

definition CF_AGENTC :: string where
  "CF_AGENTC = ''agent''"

definition CF_ANYSTRING :: string where
  "CF_ANYSTRING = ''.*''"

definition CF_BOOL :: string where
  "CF_BOOL = ''true,false,yes,no,on,off''"

definition CF_BSDFLAGRANGE :: string where
  "CF_BSDFLAGRANGE = ''[+-]*[(arch|archived|nodump|opaque|sappnd|sappend|schg|schange|simmutable|sunlnk|sunlink|uappnd|uappend|uchg|uchange|uimmutable|uunlnk|uunlink)]+''"

definition CF_CHARRANGE :: string where
  "CF_CHARRANGE = ''^.$''"

definition CF_CLASSRANGE :: string where
  "CF_CLASSRANGE = ''[a-zA-Z0-9_!&@@$|.()'' @ [CHR 0x5C] @ ''['' @ [CHR 0x5C] @ '']{}:]+''"

definition CF_COMMONC :: string where
  "CF_COMMONC = ''common''"

definition CF_DEFINECLASSES :: string where
  "CF_DEFINECLASSES = ''classes''"

definition CF_EXECC :: string where
  "CF_EXECC = ''executor''"

definition CF_FACILITY :: string where
  "CF_FACILITY = ''LOG_USER,LOG_DAEMON,LOG_LOCAL0,LOG_LOCAL1,LOG_LOCAL2,LOG_LOCAL3,LOG_LOCAL4,LOG_LOCAL5,LOG_LOCAL6,LOG_LOCAL7''"

definition CF_HUBC :: string where
  "CF_HUBC = ''hub''"

definition CF_INTLISTRANGE :: string where
  "CF_INTLISTRANGE = ''[-0-9_$(){}'' @ [CHR 0x5C] @ ''['' @ [CHR 0x5C] @ ''].]+''"

definition CF_INTRANGE :: string where
  "CF_INTRANGE = ''-99999999999,9999999999''"

definition CF_IPRANGE :: string where
  "CF_IPRANGE = ''[a-zA-Z0-9_$(){}.:-]+''"

definition CF_KNOWC :: string where
  "CF_KNOWC = ''knowledge''"

definition CF_LINKRANGE :: string where
  "CF_LINKRANGE = ''symlink,hardlink,relative,absolute''"

definition CF_LOGRANGE :: string where
  "CF_LOGRANGE = ''stdout|udp_syslog|('' @ [CHR 0x22] @ ''?[a-zA-Z]:'' @ [CHR 0x5C] @ [CHR 0x5C] @ ''.*)|(/.*)''"

definition CF_MODERANGE :: string where
  "CF_MODERANGE = ''[0-7augorwxst,+-]+''"

definition CF_MONITORC :: string where
  "CF_MONITORC = ''monitor''"

definition CF_NAKEDLRANGE :: string where
  "CF_NAKEDLRANGE = ''@[(][a-zA-Z0-9]+[)]''"

definition CF_PATHRANGE :: string where
  "CF_PATHRANGE = ''.+''"

definition CF_REALRANGE :: string where
  "CF_REALRANGE = ''-9.99999E100,9.99999E100''"

definition CF_REPORTC :: string where
  "CF_REPORTC = ''reporter''"

definition CF_RUNC :: string where
  "CF_RUNC = ''runagent''"

definition CF_SERVERC :: string where
  "CF_SERVERC = ''server''"

definition CF_SIGNALRANGE :: string where
  "CF_SIGNALRANGE = ''hup,int,trap,kill,pipe,cont,abrt,stop,quit,term,child,usr1,usr2,bus,segv''"

definition CF_TIMERANGE :: string where
  "CF_TIMERANGE = ''0,2147483647''"

definition CF_TRANSACTION :: string where
  "CF_TRANSACTION = ''action''"

definition CF_USERRANGE :: string where
  "CF_USERRANGE = ''[a-zA-Z0-9_$.-]+''"

definition CF_VALRANGE :: string where
  "CF_VALRANGE = ''0,99999999999''"

section \<open>\<open>mod_report.c\<close>\<close>

definition CF_PRINTFILE_BODY :: "BodySyntax list" where
  "CF_PRINTFILE_BODY =
    [Attr ''file_to_print'' cf_str (Pattern CF_ABSPATHRANGE),
     Attr ''number_of_lines'' cf_int (Pattern CF_VALRANGE)]"

definition CF_REPORT_BODIES :: "BodySyntax list" where
  "CF_REPORT_BODIES =
    [Attr ''friend_pattern'' cf_str (Pattern []),
     Attr ''intermittency'' cf_real (Pattern ''0,1''),
     Attr ''lastseen'' cf_int (Pattern CF_VALRANGE),
     Attr ''printfile'' cf_body (Table CF_PRINTFILE_BODY),
     Attr ''report_to_file'' cf_str (Pattern CF_ABSPATHRANGE),
     Attr ''bundle_return_value_index'' cf_str (Pattern CF_IDRANGE),
     Attr ''showstate'' cf_slist (Pattern [])]"

definition CF_REPORT_SUBTYPES :: "SubTypeSyntax list" where
  "CF_REPORT_SUBTYPES =
    [\<lparr>bundle_type = ''agent'', subtype = ''reports'', ss_bs = CF_REPORT_BODIES\<rparr>]"

section \<open>\<open>mod_common.c\<close>\<close>

definition CF_TRANSACTION_BODY :: "BodySyntax list" where
  "CF_TRANSACTION_BODY =
    [Attr ''action_policy'' cf_opts (Pattern ''fix,warn,nop''),
     Attr ''ifelapsed'' cf_int (Pattern CF_VALRANGE),
     Attr ''expireafter'' cf_int (Pattern CF_VALRANGE),
     Attr ''log_string'' cf_str (Pattern []),
     Attr ''log_level'' cf_opts (Pattern ''inform,verbose,error,log''),
     Attr ''log_kept'' cf_str (Pattern CF_LOGRANGE),
     Attr ''log_priority'' cf_opts (Pattern ''emergency,alert,critical,error,warning,notice,info,debug''),
     Attr ''log_repaired'' cf_str (Pattern CF_LOGRANGE),
     Attr ''log_failed'' cf_str (Pattern CF_LOGRANGE),
     Attr ''value_kept'' cf_real (Pattern CF_REALRANGE),
     Attr ''value_repaired'' cf_real (Pattern CF_REALRANGE),
     Attr ''value_notkept'' cf_real (Pattern CF_REALRANGE),
     Attr ''audit'' cf_opts (Pattern CF_BOOL),
     Attr ''background'' cf_opts (Pattern CF_BOOL),
     Attr ''report_level'' cf_opts (Pattern ''inform,verbose,error,log''),
     Attr ''measurement_class'' cf_str (Pattern [])]"

definition CF_DEFINECLASS_BODY :: "BodySyntax list" where
  "CF_DEFINECLASS_BODY =
    [Attr ''promise_repaired'' cf_slist (Pattern CF_IDRANGE),
     Attr ''repair_failed'' cf_slist (Pattern CF_IDRANGE),
     Attr ''repair_denied'' cf_slist (Pattern CF_IDRANGE),
     Attr ''repair_timeout'' cf_slist (Pattern CF_IDRANGE),
     Attr ''promise_kept'' cf_slist (Pattern CF_IDRANGE),
     Attr ''cancel_kept'' cf_slist (Pattern CF_IDRANGE),
     Attr ''cancel_repaired'' cf_slist (Pattern CF_IDRANGE),
     Attr ''cancel_notkept'' cf_slist (Pattern CF_IDRANGE),
     Attr ''kept_returncodes'' cf_slist (Pattern CF_INTLISTRANGE),
     Attr ''repaired_returncodes'' cf_slist (Pattern CF_INTLISTRANGE),
     Attr ''failed_returncodes'' cf_slist (Pattern CF_INTLISTRANGE),
     Attr ''persist_time'' cf_int (Pattern CF_VALRANGE),
     Attr ''timer_policy'' cf_opts (Pattern ''absolute,reset'')]"

definition CF_VARBODY :: "BodySyntax list" where
  "CF_VARBODY =
    [Attr ''string'' cf_str (Pattern []),
     Attr ''int'' cf_int (Pattern CF_INTRANGE),
     Attr ''real'' cf_real (Pattern CF_REALRANGE),
     Attr ''slist'' cf_slist (Pattern []),
     Attr ''ilist'' cf_ilist (Pattern CF_INTRANGE),
     Attr ''rlist'' cf_rlist (Pattern CF_REALRANGE),
     Attr ''policy'' cf_opts (Pattern ''free,overridable,constant,ifdefined'')]"

definition CF_METABODY :: "BodySyntax list" where
  "CF_METABODY =
    [Attr ''string'' cf_str (Pattern []),
     Attr ''slist'' cf_slist (Pattern [])]"

definition CF_DEFAULTSBODY :: "BodySyntax list" where
  "CF_DEFAULTSBODY =
    [Attr ''if_match_regex'' cf_str (Pattern []),
     Attr ''string'' cf_str (Pattern []),
     Attr ''slist'' cf_slist (Pattern [])]"

definition CF_CLASSBODY :: "BodySyntax list" where
  "CF_CLASSBODY =
    [Attr ''and'' cf_clist (Pattern CF_CLASSRANGE),
     Attr ''dist'' cf_rlist (Pattern CF_REALRANGE),
     Attr ''expression'' cf_class (Pattern CF_CLASSRANGE),
     Attr ''or'' cf_clist (Pattern CF_CLASSRANGE),
     Attr ''persistence'' cf_int (Pattern CF_VALRANGE),
     Attr ''not'' cf_class (Pattern CF_CLASSRANGE),
     Attr ''select_class'' cf_clist (Pattern CF_CLASSRANGE),
     Attr ''xor'' cf_clist (Pattern CF_CLASSRANGE)]"

definition CFG_CONTROLBODY :: "BodySyntax list" where
  "CFG_CONTROLBODY =
    [Attr ''bundlesequence'' cf_slist (Pattern ''.*''),
     Attr ''goal_patterns'' cf_slist (Pattern []),
     Attr ''ignore_missing_bundles'' cf_opts (Pattern CF_BOOL),
     Attr ''ignore_missing_inputs'' cf_opts (Pattern CF_BOOL),
     Attr ''inputs'' cf_slist (Pattern ''.*''),
     Attr ''version'' cf_str (Pattern []),
     Attr ''lastseenexpireafter'' cf_int (Pattern CF_VALRANGE),
     Attr ''output_prefix'' cf_str (Pattern []),
     Attr ''domain'' cf_str (Pattern ''.*''),
     Attr ''require_comments'' cf_opts (Pattern CF_BOOL),
     Attr ''host_licenses_paid'' cf_int (Pattern CF_VALRANGE),
     Attr ''site_classes'' cf_clist (Pattern CF_CLASSRANGE),
     Attr ''syslog_host'' cf_str (Pattern CF_IPRANGE),
     Attr ''syslog_port'' cf_int (Pattern CF_VALRANGE),
     Attr ''fips_mode'' cf_opts (Pattern CF_BOOL)]"

definition CFA_CONTROLBODY :: "BodySyntax list" where
  "CFA_CONTROLBODY =
    [Attr ''abortclasses'' cf_slist (Pattern ''.*''),
     Attr ''abortbundleclasses'' cf_slist (Pattern ''.*''),
     Attr ''addclasses'' cf_slist (Pattern ''.*''),
     Attr ''agentaccess'' cf_slist (Pattern ''.*''),
     Attr ''agentfacility'' cf_opts (Pattern CF_FACILITY),
     Attr ''allclassesreport'' cf_opts (Pattern CF_BOOL),
     Attr ''alwaysvalidate'' cf_opts (Pattern CF_BOOL),
     Attr ''auditing'' cf_opts (Pattern CF_BOOL),
     Attr ''binarypaddingchar'' cf_str (Pattern []),
     Attr ''bindtointerface'' cf_str (Pattern ''.*''),
     Attr ''hashupdates'' cf_opts (Pattern CF_BOOL),
     Attr ''childlibpath'' cf_str (Pattern ''.*''),
     Attr ''checksum_alert_time'' cf_int (Pattern ''0,60''),
     Attr ''defaultcopytype'' cf_opts (Pattern ''mtime,atime,ctime,digest,hash,binary''),
     Attr ''dryrun'' cf_opts (Pattern CF_BOOL),
     Attr ''editbinaryfilesize'' cf_int (Pattern CF_VALRANGE),
     Attr ''editfilesize'' cf_int (Pattern CF_VALRANGE),
     Attr ''environment'' cf_slist (Pattern ''[A-Za-z0-9_]+=.*''),
     Attr ''exclamation'' cf_opts (Pattern CF_BOOL),
     Attr ''expireafter'' cf_int (Pattern CF_VALRANGE),
     Attr ''files_single_copy'' cf_slist (Pattern []),
     Attr ''files_auto_define'' cf_slist (Pattern []),
     Attr ''hostnamekeys'' cf_opts (Pattern CF_BOOL),
     Attr ''ifelapsed'' cf_int (Pattern CF_VALRANGE),
     Attr ''inform'' cf_opts (Pattern CF_BOOL),
     Attr ''intermittency'' cf_opts (Pattern CF_BOOL),
     Attr ''max_children'' cf_int (Pattern CF_VALRANGE),
     Attr ''maxconnections'' cf_int (Pattern CF_VALRANGE),
     Attr ''mountfilesystems'' cf_opts (Pattern CF_BOOL),
     Attr ''nonalphanumfiles'' cf_opts (Pattern CF_BOOL),
     Attr ''repchar'' cf_str (Pattern ''.''),
     Attr ''refresh_processes'' cf_slist (Pattern CF_IDRANGE),
     Attr ''default_repository'' cf_str (Pattern CF_ABSPATHRANGE),
     Attr ''secureinput'' cf_opts (Pattern CF_BOOL),
     Attr ''sensiblecount'' cf_int (Pattern CF_VALRANGE),
     Attr ''sensiblesize'' cf_int (Pattern CF_VALRANGE),
     Attr ''skipidentify'' cf_opts (Pattern CF_BOOL),
     Attr ''suspiciousnames'' cf_slist (Pattern []),
     Attr ''syslog'' cf_opts (Pattern CF_BOOL),
     Attr ''track_value'' cf_opts (Pattern CF_BOOL),
     Attr ''timezone'' cf_slist (Pattern []),
     Attr ''default_timeout'' cf_int (Pattern CF_VALRANGE),
     Attr ''verbose'' cf_opts (Pattern CF_BOOL)]"

definition CFS_CONTROLBODY :: "BodySyntax list" where
  "CFS_CONTROLBODY =
    [Attr ''allowallconnects'' cf_slist (Pattern []),
     Attr ''allowconnects'' cf_slist (Pattern []),
     Attr ''allowusers'' cf_slist (Pattern []),
     Attr ''auditing'' cf_opts (Pattern CF_BOOL),
     Attr ''bindtointerface'' cf_str (Pattern []),
     Attr ''cfruncommand'' cf_str (Pattern CF_PATHRANGE),
     Attr ''call_collect_interval'' cf_int (Pattern CF_VALRANGE),
     Attr ''collect_window'' cf_int (Pattern CF_VALRANGE),
     Attr ''denybadclocks'' cf_opts (Pattern CF_BOOL),
     Attr ''denyconnects'' cf_slist (Pattern []),
     Attr ''dynamicaddresses'' cf_slist (Pattern []),
     Attr ''hostnamekeys'' cf_opts (Pattern CF_BOOL),
     Attr ''keycacheTTL'' cf_int (Pattern CF_VALRANGE),
     Attr ''logallconnections'' cf_opts (Pattern CF_BOOL),
     Attr ''logencryptedtransfers'' cf_opts (Pattern CF_BOOL),
     Attr ''maxconnections'' cf_int (Pattern CF_VALRANGE),
     Attr ''port'' cf_int (Pattern ''1024,99999''),
     Attr ''serverfacility'' cf_opts (Pattern CF_FACILITY),
     Attr ''skipverify'' cf_slist (Pattern []),
     Attr ''trustkeysfrom'' cf_slist (Pattern []),
     Attr ''listen'' cf_opts (Pattern CF_BOOL)]"

definition CFM_CONTROLBODY :: "BodySyntax list" where
  "CFM_CONTROLBODY =
    [Attr ''forgetrate'' cf_real (Pattern ''0,1''),
     Attr ''monitorfacility'' cf_opts (Pattern CF_FACILITY),
     Attr ''histograms'' cf_opts (Pattern CF_BOOL),
     Attr ''tcpdump'' cf_opts (Pattern CF_BOOL),
     Attr ''tcpdumpcommand'' cf_str (Pattern CF_ABSPATHRANGE)]"

definition CFR_CONTROLBODY :: "BodySyntax list" where
  "CFR_CONTROLBODY =
    [Attr ''hosts'' cf_slist (Pattern []),
     Attr ''port'' cf_int (Pattern ''1024,99999''),
     Attr ''force_ipv4'' cf_opts (Pattern CF_BOOL),
     Attr ''trustkey'' cf_opts (Pattern CF_BOOL),
     Attr ''encrypt'' cf_opts (Pattern CF_BOOL),
     Attr ''background_children'' cf_opts (Pattern CF_BOOL),
     Attr ''max_children'' cf_int (Pattern CF_VALRANGE),
     Attr ''output_to_file'' cf_opts (Pattern CF_BOOL),
     Attr ''output_directory'' cf_str (Pattern CF_ABSPATHRANGE),
     Attr ''timeout'' cf_int (Pattern ''1,9999'')]"

definition CFEX_CONTROLBODY :: "BodySyntax list" where
  "CFEX_CONTROLBODY =
    [Attr ''splaytime'' cf_int (Pattern CF_VALRANGE),
     Attr ''mailfrom'' cf_str (Pattern ''.*@.*''),
     Attr ''mailto'' cf_str (Pattern ''.*@.*''),
     Attr ''smtpserver'' cf_str (Pattern ''.*''),
     Attr ''mailmaxlines'' cf_int (Pattern ''0,1000''),
     Attr ''schedule'' cf_slist (Pattern []),
     Attr ''executorfacility'' cf_opts (Pattern CF_FACILITY),
     Attr ''exec_command'' cf_str (Pattern CF_ABSPATHRANGE),
     Attr ''agent_expireafter'' cf_int (Pattern ''0,10080'')]"

definition CFK_CONTROLBODY :: "BodySyntax list" where
  "CFK_CONTROLBODY =
    [Attr ''build_directory'' cf_str (Pattern ''.*''),
     Attr ''document_root'' cf_str (Pattern ''.*''),
     Attr ''generate_manual'' cf_opts (Pattern CF_BOOL),
     Attr ''graph_directory'' cf_str (Pattern CF_ABSPATHRANGE),
     Attr ''graph_output'' cf_opts (Pattern CF_BOOL),
     Attr ''html_banner'' cf_str (Pattern []),
     Attr ''html_footer'' cf_str (Pattern []),
     Attr ''id_prefix'' cf_str (Pattern ''.*''),
     Attr ''manual_source_directory'' cf_str (Pattern CF_ABSPATHRANGE),
     Attr ''query_engine'' cf_str (Pattern []),
     Attr ''query_output'' cf_opts (Pattern ''html,text''),
     Attr ''sql_type'' cf_opts (Pattern ''mysql,postgres''),
     Attr ''sql_database'' cf_str (Pattern []),
     Attr ''sql_owner'' cf_str (Pattern []),
     Attr ''sql_passwd'' cf_str (Pattern []),
     Attr ''sql_server'' cf_str (Pattern []),
     Attr ''sql_connection_db'' cf_str (Pattern []),
     Attr ''style_sheet'' cf_str (Pattern []),
     Attr ''view_projections'' cf_opts (Pattern CF_BOOL)]"

definition CFRE_CONTROLBODY :: "BodySyntax list" where
  "CFRE_CONTROLBODY =
    [Attr ''aggregation_point'' cf_str (Pattern CF_ABSPATHRANGE),
     Attr ''auto_scaling'' cf_opts (Pattern CF_BOOL),
     Attr ''build_directory'' cf_str (Pattern ''.*''),
     Attr ''csv2xml'' cf_slist (Pattern []),
     Attr ''error_bars'' cf_opts (Pattern CF_BOOL),
     Attr ''html_banner'' cf_str (Pattern []),
     Attr ''html_embed'' cf_opts (Pattern CF_BOOL),
     Attr ''html_footer'' cf_str (Pattern []),
     Attr ''query_engine'' cf_str (Pattern []),
     Attr ''reports'' cf_olist (Pattern ''all,audit,performance,all_locks,active_locks,hashes,classes,last_seen,monitor_now,monitor_history,monitor_summary,compliance,setuid,file_changes,installed_software,software_patches,value,variables''),
     Attr ''report_output'' cf_opts (Pattern ''csv,html,text,xml''),
     Attr ''style_sheet'' cf_str (Pattern []),
     Attr ''time_stamps'' cf_opts (Pattern CF_BOOL)]"

definition CFH_CONTROLBODY :: "BodySyntax list" where
  "CFH_CONTROLBODY =
    [Attr ''export_zenoss'' cf_str (Pattern CF_PATHRANGE),
     Attr ''exclude_hosts'' cf_slist (Pattern []),
     Attr ''hub_schedule'' cf_slist (Pattern []),
     Attr ''port'' cf_int (Pattern ''1024,99999'')]"

definition CFFILE_CONTROLBODY :: "BodySyntax list" where
  "CFFILE_CONTROLBODY =
    [Attr ''namespace'' cf_str (Pattern CF_IDRANGE)]"

definition CF_COMMON_BODIES :: "BodySyntax list" where
  "CF_COMMON_BODIES =
    [Attr CF_TRANSACTION cf_body (Table CF_TRANSACTION_BODY),
     Attr CF_DEFINECLASSES cf_body (Table CF_DEFINECLASS_BODY),
     Attr ''comment'' cf_str (Pattern []),
     Attr ''depends_on'' cf_slist (Pattern []),
     Attr ''handle'' cf_str (Pattern []),
     Attr ''ifvarclass'' cf_str (Pattern []),
     Attr ''meta'' cf_slist (Pattern [])]"

definition CF_ALL_BODIES :: "SubTypeSyntax list" where
  "CF_ALL_BODIES =
    [\<lparr>bundle_type = CF_COMMONC, subtype = ''control'', ss_bs = CFG_CONTROLBODY\<rparr>,
     \<lparr>bundle_type = CF_AGENTC, subtype = ''control'', ss_bs = CFA_CONTROLBODY\<rparr>,
     \<lparr>bundle_type = CF_SERVERC, subtype = ''control'', ss_bs = CFS_CONTROLBODY\<rparr>,
     \<lparr>bundle_type = CF_MONITORC, subtype = ''control'', ss_bs = CFM_CONTROLBODY\<rparr>,
     \<lparr>bundle_type = CF_RUNC, subtype = ''control'', ss_bs = CFR_CONTROLBODY\<rparr>,
     \<lparr>bundle_type = CF_EXECC, subtype = ''control'', ss_bs = CFEX_CONTROLBODY\<rparr>,
     \<lparr>bundle_type = CF_KNOWC, subtype = ''control'', ss_bs = CFK_CONTROLBODY\<rparr>,
     \<lparr>bundle_type = CF_REPORTC, subtype = ''control'', ss_bs = CFRE_CONTROLBODY\<rparr>,
     \<lparr>bundle_type = CF_HUBC, subtype = ''control'', ss_bs = CFH_CONTROLBODY\<rparr>,
     \<lparr>bundle_type = ''file'', subtype = ''control'', ss_bs = CFFILE_CONTROLBODY\<rparr>]"

definition CF_COMMON_SUBTYPES :: "SubTypeSyntax list" where
  "CF_COMMON_SUBTYPES =
    [\<lparr>bundle_type = ''*'', subtype = ''classes'', ss_bs = CF_CLASSBODY\<rparr>,
     \<lparr>bundle_type = ''*'', subtype = ''defaults'', ss_bs = CF_DEFAULTSBODY\<rparr>,
     \<lparr>bundle_type = ''*'', subtype = ''meta'', ss_bs = CF_METABODY\<rparr>,
     \<lparr>bundle_type = ''*'', subtype = ''reports'', ss_bs = CF_REPORT_BODIES\<rparr>,
     \<lparr>bundle_type = ''*'', subtype = ''vars'', ss_bs = CF_VARBODY\<rparr>,
     \<lparr>bundle_type = ''*'', subtype = ''*'', ss_bs = CF_COMMON_BODIES\<rparr>]"

section \<open>\<open>mod_exec.c\<close>\<close>

definition CF_EXECCONTAIN_BODY :: "BodySyntax list" where
  "CF_EXECCONTAIN_BODY =
    [Attr ''useshell'' cf_opts (Pattern CF_BOOL),
     Attr ''umask'' cf_opts (Pattern ''0,77,22,27,72,077,002,022,027,072''),
     Attr ''exec_owner'' cf_str (Pattern []),
     Attr ''exec_group'' cf_str (Pattern []),
     Attr ''exec_timeout'' cf_int (Pattern ''1,3600''),
     Attr ''chdir'' cf_str (Pattern CF_ABSPATHRANGE),
     Attr ''chroot'' cf_str (Pattern CF_ABSPATHRANGE),
     Attr ''preview'' cf_opts (Pattern CF_BOOL),
     Attr ''no_output'' cf_opts (Pattern CF_BOOL)]"

definition CF_EXEC_BODIES :: "BodySyntax list" where
  "CF_EXEC_BODIES =
    [Attr ''args'' cf_str (Pattern []),
     Attr ''contain'' cf_body (Table CF_EXECCONTAIN_BODY),
     Attr ''module'' cf_opts (Pattern CF_BOOL)]"

definition CF_EXEC_SUBTYPES :: "SubTypeSyntax list" where
  "CF_EXEC_SUBTYPES =
    [\<lparr>bundle_type = ''agent'', subtype = ''commands'', ss_bs = CF_EXEC_BODIES\<rparr>]"

section \<open>\<open>mod_databases.c\<close>\<close>

definition CF_SQLSERVER_BODY :: "BodySyntax list" where
  "CF_SQLSERVER_BODY =
    [Attr ''db_server_owner'' cf_str (Pattern []),
     Attr ''db_server_password'' cf_str (Pattern []),
     Attr ''db_server_host'' cf_str (Pattern []),
     Attr ''db_server_type'' cf_opts (Pattern ''postgres,mysql''),
     Attr ''db_server_connection_db'' cf_str (Pattern [])]"

definition CF_DATABASES_BODIES :: "BodySyntax list" where
  "CF_DATABASES_BODIES =
    [Attr ''database_server'' cf_body (Table CF_SQLSERVER_BODY),
     Attr ''database_type'' cf_opts (Pattern ''sql,ms_registry''),
     Attr ''database_operation'' cf_opts (Pattern ''create,delete,drop,cache,verify,restore''),
     Attr ''database_columns'' cf_slist (Pattern ''.*''),
     Attr ''database_rows'' cf_slist (Pattern ''.*,.*''),
     Attr ''registry_exclude'' cf_slist (Pattern [])]"

definition CF_DATABASES_SUBTYPES :: "SubTypeSyntax list" where
  "CF_DATABASES_SUBTYPES =
    [\<lparr>bundle_type = ''agent'', subtype = ''databases'', ss_bs = CF_DATABASES_BODIES\<rparr>]"

section \<open>\<open>mod_environ.c\<close>\<close>

definition CF_RESOURCE_BODY :: "BodySyntax list" where
  "CF_RESOURCE_BODY =
    [Attr ''env_cpus'' cf_int (Pattern CF_VALRANGE),
     Attr ''env_memory'' cf_int (Pattern CF_VALRANGE),
     Attr ''env_disk'' cf_int (Pattern CF_VALRANGE),
     Attr ''env_baseline'' cf_str (Pattern CF_ABSPATHRANGE),
     Attr ''env_spec'' cf_str (Pattern CF_ANYSTRING)]"

definition CF_DESIGNATION_BODY :: "BodySyntax list" where
  "CF_DESIGNATION_BODY =
    [Attr ''env_addresses'' cf_slist (Pattern []),
     Attr ''env_name'' cf_str (Pattern []),
     Attr ''env_network'' cf_str (Pattern [])]"

definition CF_ENVIRON_BODIES :: "BodySyntax list" where
  "CF_ENVIRON_BODIES =
    [Attr ''environment_host'' cf_str (Pattern ''[a-zA-Z0-9_]+''),
     Attr ''environment_interface'' cf_body (Table CF_DESIGNATION_BODY),
     Attr ''environment_resources'' cf_body (Table CF_RESOURCE_BODY),
     Attr ''environment_state'' cf_opts (Pattern ''create,delete,running,suspended,down''),
     Attr ''environment_type'' cf_opts (Pattern ''xen,kvm,esx,vbox,test,xen_net,kvm_net,esx_net,test_net,zone,ec2,eucalyptus'')]"

definition CF_ENVIRONMENT_SUBTYPES :: "SubTypeSyntax list" where
  "CF_ENVIRONMENT_SUBTYPES =
    [\<lparr>bundle_type = ''agent'', subtype = ''guest_environments'', ss_bs = CF_ENVIRON_BODIES\<rparr>]"

section \<open>\<open>mod_files.c\<close>\<close>

definition CF_LOCATION_BODY :: "BodySyntax list" where
  "CF_LOCATION_BODY =
    [Attr ''before_after'' cf_opts (Pattern ''before,after''),
     Attr ''first_last'' cf_opts (Pattern ''first,last''),
     Attr ''select_line_matching'' cf_str (Pattern CF_ANYSTRING)]"

definition CF_EDITCOL_BODY :: "BodySyntax list" where
  "CF_EDITCOL_BODY =
    [Attr ''allow_blank_fields'' cf_opts (Pattern CF_BOOL),
     Attr ''extend_fields'' cf_opts (Pattern CF_BOOL),
     Attr ''field_operation'' cf_opts (Pattern ''prepend,append,alphanum,delete,set''),
     Attr ''field_separator'' cf_str (Pattern CF_ANYSTRING),
     Attr ''field_value'' cf_str (Pattern CF_ANYSTRING),
     Attr ''select_field'' cf_int (Pattern ''0,99999999''),
     Attr ''start_fields_from_zero'' cf_opts (Pattern CF_BOOL),
     Attr ''value_separator'' cf_str (Pattern CF_CHARRANGE)]"

definition CF_REPLACEWITH_BODY :: "BodySyntax list" where
  "CF_REPLACEWITH_BODY =
    [Attr ''occurrences'' cf_opts (Pattern ''all,first''),
     Attr ''replace_value'' cf_str (Pattern CF_ANYSTRING)]"

definition CF_EDSCOPE_BODY :: "BodySyntax list" where
  "CF_EDSCOPE_BODY =
    [Attr ''include_start_delimiter'' cf_opts (Pattern CF_BOOL),
     Attr ''include_end_delimiter'' cf_opts (Pattern CF_BOOL),
     Attr ''select_start'' cf_str (Pattern CF_ANYSTRING),
     Attr ''select_end'' cf_str (Pattern CF_ANYSTRING)]"

definition CF_DELETESELECT_BODY :: "BodySyntax list" where
  "CF_DELETESELECT_BODY =
    [Attr ''delete_if_startwith_from_list'' cf_slist (Pattern CF_ANYSTRING),
     Attr ''delete_if_not_startwith_from_list'' cf_slist (Pattern CF_ANYSTRING),
     Attr ''delete_if_match_from_list'' cf_slist (Pattern CF_ANYSTRING),
     Attr ''delete_if_not_match_from_list'' cf_slist (Pattern CF_ANYSTRING),
     Attr ''delete_if_contains_from_list'' cf_slist (Pattern CF_ANYSTRING),
     Attr ''delete_if_not_contains_from_list'' cf_slist (Pattern CF_ANYSTRING)]"

definition CF_INSERTSELECT_BODY :: "BodySyntax list" where
  "CF_INSERTSELECT_BODY =
    [Attr ''insert_if_startwith_from_list'' cf_slist (Pattern CF_ANYSTRING),
     Attr ''insert_if_not_startwith_from_list'' cf_slist (Pattern CF_ANYSTRING),
     Attr ''insert_if_match_from_list'' cf_slist (Pattern CF_ANYSTRING),
     Attr ''insert_if_not_match_from_list'' cf_slist (Pattern CF_ANYSTRING),
     Attr ''insert_if_contains_from_list'' cf_slist (Pattern CF_ANYSTRING),
     Attr ''insert_if_not_contains_from_list'' cf_slist (Pattern CF_ANYSTRING)]"

definition CF_INSERTLINES_BODIES :: "BodySyntax list" where
  "CF_INSERTLINES_BODIES =
    [Attr ''expand_scalars'' cf_opts (Pattern CF_BOOL),
     Attr ''insert_type'' cf_opts (Pattern ''literal,string,file,file_preserve_block,preserve_block''),
     Attr ''insert_select'' cf_body (Table CF_INSERTSELECT_BODY),
     Attr ''location'' cf_body (Table CF_LOCATION_BODY),
     Attr ''whitespace_policy'' cf_olist (Pattern ''ignore_leading,ignore_trailing,ignore_embedded,exact_match'')]"

definition CF_DELETELINES_BODIES :: "BodySyntax list" where
  "CF_DELETELINES_BODIES =
    [Attr ''delete_select'' cf_body (Table CF_DELETESELECT_BODY),
     Attr ''not_matching'' cf_opts (Pattern CF_BOOL)]"

definition CF_COLUMN_BODIES :: "BodySyntax list" where
  "CF_COLUMN_BODIES =
    [Attr ''edit_field'' cf_body (Table CF_EDITCOL_BODY)]"

definition CF_REPLACE_BODIES :: "BodySyntax list" where
  "CF_REPLACE_BODIES =
    [Attr ''replace_with'' cf_body (Table CF_REPLACEWITH_BODY)]"

definition CF_COMMON_EDITBODIES :: "BodySyntax list" where
  "CF_COMMON_EDITBODIES =
    [Attr ''select_region'' cf_body (Table CF_EDSCOPE_BODY)]"

definition CF_ACL_BODY :: "BodySyntax list" where
  "CF_ACL_BODY =
    [Attr ''aces'' cf_slist (Pattern ''((user|group):[^:]+:[-=+,rwx()dtTabBpcoD]*(:(allow|deny))?)|((all|mask):[-=+,rwx()]*(:(allow|deny))?)''),
     Attr ''acl_directory_inherit'' cf_opts (Pattern ''nochange,parent,specify,clear''),
     Attr ''acl_method'' cf_opts (Pattern ''append,overwrite''),
     Attr ''acl_type'' cf_opts (Pattern ''generic,posix,ntfs''),
     Attr ''specify_inherit_aces'' cf_slist (Pattern ''((user|group):[^:]+:[-=+,rwx()dtTabBpcoD]*(:(allow|deny))?)|((all|mask):[-=+,rwx()]*(:(allow|deny))?)'')]"

definition CF_CHANGEMGT_BODY :: "BodySyntax list" where
  "CF_CHANGEMGT_BODY =
    [Attr ''hash'' cf_opts (Pattern ''md5,sha1,sha224,sha256,sha384,sha512,best''),
     Attr ''report_changes'' cf_opts (Pattern ''all,stats,content,none''),
     Attr ''update_hashes'' cf_opts (Pattern CF_BOOL),
     Attr ''report_diffs'' cf_opts (Pattern CF_BOOL)]"

definition CF_RECURSION_BODY :: "BodySyntax list" where
  "CF_RECURSION_BODY =
    [Attr ''depth'' cf_int (Pattern CF_VALRANGE),
     Attr ''exclude_dirs'' cf_slist (Pattern ''.*''),
     Attr ''include_basedir'' cf_opts (Pattern CF_BOOL),
     Attr ''include_dirs'' cf_slist (Pattern ''.*''),
     Attr ''rmdeadlinks'' cf_opts (Pattern CF_BOOL),
     Attr ''traverse_links'' cf_opts (Pattern CF_BOOL),
     Attr ''xdev'' cf_opts (Pattern CF_BOOL)]"

definition CF_EDITS_BODY :: "BodySyntax list" where
  "CF_EDITS_BODY =
    [Attr ''edit_backup'' cf_opts (Pattern ''true,false,timestamp,rotate''),
     Attr ''empty_file_before_editing'' cf_opts (Pattern CF_BOOL),
     Attr ''inherit'' cf_opts (Pattern CF_BOOL),
     Attr ''max_file_size'' cf_int (Pattern CF_VALRANGE),
     Attr ''recognize_join'' cf_opts (Pattern CF_BOOL),
     Attr ''rotate'' cf_int (Pattern ''0,99'')]"

definition CF_TIDY_BODY :: "BodySyntax list" where
  "CF_TIDY_BODY =
    [Attr ''dirlinks'' cf_opts (Pattern ''delete,tidy,keep''),
     Attr ''rmdirs'' cf_opts (Pattern CF_BOOL)]"

definition CF_RENAME_BODY :: "BodySyntax list" where
  "CF_RENAME_BODY =
    [Attr ''disable'' cf_opts (Pattern CF_BOOL),
     Attr ''disable_mode'' cf_str (Pattern CF_MODERANGE),
     Attr ''disable_suffix'' cf_str (Pattern []),
     Attr ''newname'' cf_str (Pattern []),
     Attr ''rotate'' cf_int (Pattern ''0,99'')]"

definition CF_ACCESS_BODIES :: "BodySyntax list" where
  "CF_ACCESS_BODIES =
    [Attr ''bsdflags'' cf_slist (Pattern CF_BSDFLAGRANGE),
     Attr ''groups'' cf_slist (Pattern CF_USERRANGE),
     Attr ''mode'' cf_str (Pattern CF_MODERANGE),
     Attr ''owners'' cf_slist (Pattern CF_USERRANGE),
     Attr ''rxdirs'' cf_opts (Pattern CF_BOOL)]"

definition CF_FILEFILTER_BODY :: "BodySyntax list" where
  "CF_FILEFILTER_BODY =
    [Attr ''leaf_name'' cf_slist (Pattern []),
     Attr ''path_name'' cf_slist (Pattern CF_ABSPATHRANGE),
     Attr ''search_mode'' cf_slist (Pattern CF_MODERANGE),
     Attr ''search_size'' cf_irange (Pattern ''0,inf''),
     Attr ''search_owners'' cf_slist (Pattern []),
     Attr ''search_groups'' cf_slist (Pattern []),
     Attr ''search_bsdflags'' cf_slist (Pattern CF_BSDFLAGRANGE),
     Attr ''ctime'' cf_irange (Pattern CF_TIMERANGE),
     Attr ''mtime'' cf_irange (Pattern CF_TIMERANGE),
     Attr ''atime'' cf_irange (Pattern CF_TIMERANGE),
     Attr ''exec_regex'' cf_str (Pattern CF_ANYSTRING),
     Attr ''exec_program'' cf_str (Pattern CF_ABSPATHRANGE),
     Attr ''file_types'' cf_olist (Pattern ''plain,reg,symlink,dir,socket,fifo,door,char,block''),
     Attr ''issymlinkto'' cf_slist (Pattern []),
     Attr ''file_result'' cf_str (Pattern ''[!*(leaf_name|path_name|file_types|mode|size|owner|group|atime|ctime|mtime|issymlinkto|exec_regex|exec_program|bsdflags)[|&.]*]*'')]"

definition CF_LINKTO_BODY :: "BodySyntax list" where
  "CF_LINKTO_BODY =
    [Attr ''copy_patterns'' cf_slist (Pattern []),
     Attr ''link_children'' cf_opts (Pattern CF_BOOL),
     Attr ''link_type'' cf_opts (Pattern CF_LINKRANGE),
     Attr ''source'' cf_str (Pattern CF_PATHRANGE),
     Attr ''when_linking_children'' cf_opts (Pattern ''override_file,if_no_such_file''),
     Attr ''when_no_source'' cf_opts (Pattern ''force,delete,nop'')]"

definition CF_COPYFROM_BODY :: "BodySyntax list" where
  "CF_COPYFROM_BODY =
    [Attr ''source'' cf_str (Pattern CF_PATHRANGE),
     Attr ''servers'' cf_slist (Pattern ''[A-Za-z0-9_.:-]+''),
     Attr ''collapse_destination_dir'' cf_opts (Pattern CF_BOOL),
     Attr ''compare'' cf_opts (Pattern ''atime,mtime,ctime,digest,hash,exists,binary''),
     Attr ''copy_backup'' cf_opts (Pattern ''true,false,timestamp''),
     Attr ''encrypt'' cf_opts (Pattern CF_BOOL),
     Attr ''check_root'' cf_opts (Pattern CF_BOOL),
     Attr ''copylink_patterns'' cf_slist (Pattern []),
     Attr ''copy_size'' cf_irange (Pattern ''0,inf''),
     Attr ''findertype'' cf_opts (Pattern ''MacOSX''),
     Attr ''linkcopy_patterns'' cf_slist (Pattern []),
     Attr ''link_type'' cf_opts (Pattern CF_LINKRANGE),
     Attr ''force_update'' cf_opts (Pattern CF_BOOL),
     Attr ''force_ipv4'' cf_opts (Pattern CF_BOOL),
     Attr ''portnumber'' cf_int (Pattern ''1024,99999''),
     Attr ''preserve'' cf_opts (Pattern CF_BOOL),
     Attr ''purge'' cf_opts (Pattern CF_BOOL),
     Attr ''stealth'' cf_opts (Pattern CF_BOOL),
     Attr ''timeout'' cf_int (Pattern ''1,3600''),
     Attr ''trustkey'' cf_opts (Pattern CF_BOOL),
     Attr ''type_check'' cf_opts (Pattern CF_BOOL),
     Attr ''verify'' cf_opts (Pattern CF_BOOL)]"

definition CF_FILES_BODIES :: "BodySyntax list" where
  "CF_FILES_BODIES =
    [Attr ''acl'' cf_body (Table CF_ACL_BODY),
     Attr ''changes'' cf_body (Table CF_CHANGEMGT_BODY),
     Attr ''copy_from'' cf_body (Table CF_COPYFROM_BODY),
     Attr ''create'' cf_opts (Pattern CF_BOOL),
     Attr ''delete'' cf_body (Table CF_TIDY_BODY),
     Attr ''depth_search'' cf_body (Table CF_RECURSION_BODY),
     Attr ''edit_defaults'' cf_body (Table CF_EDITS_BODY),
     Attr ''edit_line'' cf_bundle (BundleRange),
     Attr ''edit_template'' cf_str (Pattern CF_ABSPATHRANGE),
     Attr ''edit_xml'' cf_bundle (BundleRange),
     Attr ''file_select'' cf_body (Table CF_FILEFILTER_BODY),
     Attr ''link_from'' cf_body (Table CF_LINKTO_BODY),
     Attr ''move_obstructions'' cf_opts (Pattern CF_BOOL),
     Attr ''pathtype'' cf_opts (Pattern ''literal,regex,guess''),
     Attr ''perms'' cf_body (Table CF_ACCESS_BODIES),
     Attr ''rename'' cf_body (Table CF_RENAME_BODY),
     Attr ''repository'' cf_str (Pattern CF_ABSPATHRANGE),
     Attr ''touch'' cf_opts (Pattern CF_BOOL),
     Attr ''transformer'' cf_str (Pattern CF_ABSPATHRANGE)]"

definition CF_COMMON_XMLBODIES :: "BodySyntax list" where
  "CF_COMMON_XMLBODIES =
    [Attr ''select_xpath'' cf_str (Pattern [])]"

definition CF_INSERTTAGS_BODIES :: "BodySyntax list" where
  "CF_INSERTTAGS_BODIES = []"

definition CF_DELETETAGS_BODIES :: "BodySyntax list" where
  "CF_DELETETAGS_BODIES = []"

definition CF_INSERTATTRIBUTES_BODIES :: "BodySyntax list" where
  "CF_INSERTATTRIBUTES_BODIES =
    [Attr ''attribute_value'' cf_str (Pattern [])]"

definition CF_DELETEATTRIBUTES_BODIES :: "BodySyntax list" where
  "CF_DELETEATTRIBUTES_BODIES = []"

definition CF_FILES_SUBTYPES :: "SubTypeSyntax list" where
  "CF_FILES_SUBTYPES =
    [\<lparr>bundle_type = ''agent'', subtype = ''files'', ss_bs = CF_FILES_BODIES\<rparr>,
     \<lparr>bundle_type = ''edit_line'', subtype = ''*'', ss_bs = CF_COMMON_EDITBODIES\<rparr>,
     \<lparr>bundle_type = ''edit_line'', subtype = ''delete_lines'', ss_bs = CF_DELETELINES_BODIES\<rparr>,
     \<lparr>bundle_type = ''edit_line'', subtype = ''insert_lines'', ss_bs = CF_INSERTLINES_BODIES\<rparr>,
     \<lparr>bundle_type = ''edit_line'', subtype = ''field_edits'', ss_bs = CF_COLUMN_BODIES\<rparr>,
     \<lparr>bundle_type = ''edit_line'', subtype = ''replace_patterns'', ss_bs = CF_REPLACE_BODIES\<rparr>,
     \<lparr>bundle_type = ''edit_xml'', subtype = ''*'', ss_bs = CF_COMMON_XMLBODIES\<rparr>,
     \<lparr>bundle_type = ''edit_xml'', subtype = ''delete_tree'', ss_bs = CF_DELETETAGS_BODIES\<rparr>,
     \<lparr>bundle_type = ''edit_xml'', subtype = ''insert_tree'', ss_bs = CF_INSERTTAGS_BODIES\<rparr>,
     \<lparr>bundle_type = ''edit_xml'', subtype = ''delete_attribute'', ss_bs = CF_DELETEATTRIBUTES_BODIES\<rparr>,
     \<lparr>bundle_type = ''edit_xml'', subtype = ''set_attribute'', ss_bs = CF_INSERTATTRIBUTES_BODIES\<rparr>,
     \<lparr>bundle_type = ''edit_xml'', subtype = ''delete_text'', ss_bs = CF_DELETETAGS_BODIES\<rparr>,
     \<lparr>bundle_type = ''edit_xml'', subtype = ''set_text'', ss_bs = CF_INSERTTAGS_BODIES\<rparr>,
     \<lparr>bundle_type = ''edit_xml'', subtype = ''insert_text'', ss_bs = CF_INSERTTAGS_BODIES\<rparr>]"

section \<open>\<open>mod_interfaces.c\<close>\<close>

definition CF_TCPIP_BODY :: "BodySyntax list" where
  "CF_TCPIP_BODY =
    [Attr ''ipv4_address'' cf_str (Pattern ''[0-9.]+/[0-4]+''),
     Attr ''ipv4_netmask'' cf_str (Pattern ''[0-9.]+/[0-4]+''),
     Attr ''ipv6_address'' cf_str (Pattern ''[0-9a-fA-F:]+/[0-9]+'')]"

definition CF_INTERFACES_BODIES :: "BodySyntax list" where
  "CF_INTERFACES_BODIES =
    [Attr ''tcp_ip'' cf_body (Table CF_TCPIP_BODY)]"

definition CF_INTERFACES_SUBTYPES :: "SubTypeSyntax list" where
  "CF_INTERFACES_SUBTYPES =
    [\<lparr>bundle_type = ''agent'', subtype = ''interfaces'', ss_bs = CF_INTERFACES_BODIES\<rparr>]"

section \<open>\<open>mod_methods.c\<close>\<close>

definition CF_METHOD_BODIES :: "BodySyntax list" where
  "CF_METHOD_BODIES =
    [Attr ''inherit'' cf_opts (Pattern CF_BOOL),
     Attr ''usebundle'' cf_bundle (BundleRange),
     Attr ''useresult'' cf_str (Pattern CF_IDRANGE)]"

definition CF_METHOD_SUBTYPES :: "SubTypeSyntax list" where
  "CF_METHOD_SUBTYPES =
    [\<lparr>bundle_type = ''agent'', subtype = ''methods'', ss_bs = CF_METHOD_BODIES\<rparr>]"

section \<open>\<open>mod_outputs.c\<close>\<close>

definition CF_OUTPUTS_BODIES :: "BodySyntax list" where
  "CF_OUTPUTS_BODIES =
    [Attr ''output_level'' cf_opts (Pattern ''verbose,debug,inform''),
     Attr ''promiser_type'' cf_opts (Pattern ''promise,bundle'')]"

definition CF_OUTPUTS_SUBTYPES :: "SubTypeSyntax list" where
  "CF_OUTPUTS_SUBTYPES =
    [\<lparr>bundle_type = ''agent'', subtype = ''outputs'', ss_bs = CF_OUTPUTS_BODIES\<rparr>]"

section \<open>\<open>mod_packages.c\<close>\<close>

definition CF_PKGMETHOD_BODY :: "BodySyntax list" where
  "CF_PKGMETHOD_BODY =
    [Attr ''package_add_command'' cf_str (Pattern CF_PATHRANGE),
     Attr ''package_arch_regex'' cf_str (Pattern []),
     Attr ''package_changes'' cf_opts (Pattern ''individual,bulk''),
     Attr ''package_delete_command'' cf_str (Pattern CF_PATHRANGE),
     Attr ''package_delete_convention'' cf_str (Pattern []),
     Attr ''package_file_repositories'' cf_slist (Pattern []),
     Attr ''package_installed_regex'' cf_str (Pattern []),
     Attr ''package_default_arch_command'' cf_str (Pattern CF_ABSPATHRANGE),
     Attr ''package_list_arch_regex'' cf_str (Pattern []),
     Attr ''package_list_command'' cf_str (Pattern CF_PATHRANGE),
     Attr ''package_list_name_regex'' cf_str (Pattern []),
     Attr ''package_list_update_command'' cf_str (Pattern []),
     Attr ''package_list_update_ifelapsed'' cf_int (Pattern CF_INTRANGE),
     Attr ''package_list_version_regex'' cf_str (Pattern []),
     Attr ''package_new_versions_command'' cf_str (Pattern []),
     Attr ''package_name_convention'' cf_str (Pattern []),
     Attr ''package_name_regex'' cf_str (Pattern []),
     Attr ''package_noverify_regex'' cf_str (Pattern []),
     Attr ''package_noverify_returncode'' cf_int (Pattern CF_INTRANGE),
     Attr ''package_patch_arch_regex'' cf_str (Pattern []),
     Attr ''package_patch_command'' cf_str (Pattern CF_PATHRANGE),
     Attr ''package_patch_installed_regex'' cf_str (Pattern []),
     Attr ''package_patch_list_command'' cf_str (Pattern CF_PATHRANGE),
     Attr ''package_patch_name_regex'' cf_str (Pattern []),
     Attr ''package_patch_version_regex'' cf_str (Pattern []),
     Attr ''package_update_command'' cf_str (Pattern CF_PATHRANGE),
     Attr ''package_verify_command'' cf_str (Pattern CF_PATHRANGE),
     Attr ''package_version_regex'' cf_str (Pattern []),
     Attr ''package_multiline_start'' cf_str (Pattern []),
     Attr ''package_commands_useshell'' cf_opts (Pattern CF_BOOL),
     Attr ''package_version_less_command'' cf_str (Pattern CF_PATHRANGE),
     Attr ''package_version_equal_command'' cf_str (Pattern CF_PATHRANGE)]"

definition CF_PACKAGES_BODIES :: "BodySyntax list" where
  "CF_PACKAGES_BODIES =
    [Attr ''package_architectures'' cf_slist (Pattern []),
     Attr ''package_method'' cf_body (Table CF_PKGMETHOD_BODY),
     Attr ''package_policy'' cf_opts (Pattern ''add,delete,reinstall,update,addupdate,patch,verify''),
     Attr ''package_select'' cf_opts (Pattern ''>,<,==,!=,>=,<=''),
     Attr ''package_version'' cf_str (Pattern [])]"

definition CF_PACKAGES_SUBTYPES :: "SubTypeSyntax list" where
  "CF_PACKAGES_SUBTYPES =
    [\<lparr>bundle_type = ''agent'', subtype = ''packages'', ss_bs = CF_PACKAGES_BODIES\<rparr>]"

section \<open>\<open>mod_process.c\<close>\<close>

definition CF_MATCHCLASS_BODY :: "BodySyntax list" where
  "CF_MATCHCLASS_BODY =
    [Attr ''in_range_define'' cf_slist (Pattern []),
     Attr ''match_range'' cf_irange (Pattern CF_VALRANGE),
     Attr ''out_of_range_define'' cf_slist (Pattern [])]"

definition CF_PROCFILTER_BODY :: "BodySyntax list" where
  "CF_PROCFILTER_BODY =
    [Attr ''command'' cf_str (Pattern []),
     Attr ''pid'' cf_irange (Pattern CF_VALRANGE),
     Attr ''pgid'' cf_irange (Pattern CF_VALRANGE),
     Attr ''ppid'' cf_irange (Pattern CF_VALRANGE),
     Attr ''priority'' cf_irange (Pattern ''-20,+20''),
     Attr ''process_owner'' cf_slist (Pattern []),
     Attr ''process_result'' cf_str (Pattern ''[(process_owner|pid|ppid||pgid|rsize|vsize|status|command|ttime|stime|tty|priority|threads)[|&!.]*]*''),
     Attr ''rsize'' cf_irange (Pattern CF_VALRANGE),
     Attr ''status'' cf_str (Pattern []),
     Attr ''stime_range'' cf_irange (Pattern CF_TIMERANGE),
     Attr ''ttime_range'' cf_irange (Pattern CF_TIMERANGE),
     Attr ''tty'' cf_str (Pattern []),
     Attr ''threads'' cf_irange (Pattern CF_VALRANGE),
     Attr ''vsize'' cf_irange (Pattern CF_VALRANGE)]"

definition CF_PROCESS_BODIES :: "BodySyntax list" where
  "CF_PROCESS_BODIES =
    [Attr ''process_count'' cf_body (Table CF_MATCHCLASS_BODY),
     Attr ''process_select'' cf_body (Table CF_PROCFILTER_BODY),
     Attr ''process_stop'' cf_str (Pattern CF_ABSPATHRANGE),
     Attr ''restart_class'' cf_str (Pattern CF_IDRANGE),
     Attr ''signals'' cf_olist (Pattern CF_SIGNALRANGE)]"

definition CF_PROCESS_SUBTYPES :: "SubTypeSyntax list" where
  "CF_PROCESS_SUBTYPES =
    [\<lparr>bundle_type = ''agent'', subtype = ''processes'', ss_bs = CF_PROCESS_BODIES\<rparr>]"

section \<open>\<open>mod_services.c\<close>\<close>

definition CF_SERVMETHOD_BODY :: "BodySyntax list" where
  "CF_SERVMETHOD_BODY =
    [Attr ''service_args'' cf_str (Pattern []),
     Attr ''service_autostart_policy'' cf_opts (Pattern ''none,boot_time,on_demand''),
     Attr ''service_bundle'' cf_bundle (BundleRange),
     Attr ''service_dependence_chain'' cf_opts (Pattern ''ignore,start_parent_services,stop_child_services,all_related''),
     Attr ''service_type'' cf_opts (Pattern ''windows,generic'')]"

definition CF_SERVICES_BODIES :: "BodySyntax list" where
  "CF_SERVICES_BODIES =
    [Attr ''service_policy'' cf_opts (Pattern ''start,stop,disable,restart,reload''),
     Attr ''service_dependencies'' cf_slist (Pattern CF_IDRANGE),
     Attr ''service_method'' cf_body (Table CF_SERVMETHOD_BODY)]"

definition CF_SERVICES_SUBTYPES :: "SubTypeSyntax list" where
  "CF_SERVICES_SUBTYPES =
    [\<lparr>bundle_type = ''agent'', subtype = ''services'', ss_bs = CF_SERVICES_BODIES\<rparr>]"

section \<open>\<open>mod_storage.c\<close>\<close>

definition CF_CHECKVOL_BODY :: "BodySyntax list" where
  "CF_CHECKVOL_BODY =
    [Attr ''check_foreign'' cf_opts (Pattern CF_BOOL),
     Attr ''freespace'' cf_str (Pattern ''[0-9]+[MBkKgGmb%]''),
     Attr ''sensible_size'' cf_int (Pattern CF_VALRANGE),
     Attr ''sensible_count'' cf_int (Pattern CF_VALRANGE),
     Attr ''scan_arrivals'' cf_opts (Pattern CF_BOOL)]"

definition CF_MOUNT_BODY :: "BodySyntax list" where
  "CF_MOUNT_BODY =
    [Attr ''edit_fstab'' cf_opts (Pattern CF_BOOL),
     Attr ''mount_type'' cf_opts (Pattern ''nfs,nfs2,nfs3,nfs4''),
     Attr ''mount_source'' cf_str (Pattern CF_ABSPATHRANGE),
     Attr ''mount_server'' cf_str (Pattern []),
     Attr ''mount_options'' cf_slist (Pattern []),
     Attr ''unmount'' cf_opts (Pattern CF_BOOL)]"

definition CF_STORAGE_BODIES :: "BodySyntax list" where
  "CF_STORAGE_BODIES =
    [Attr ''mount'' cf_body (Table CF_MOUNT_BODY),
     Attr ''volume'' cf_body (Table CF_CHECKVOL_BODY)]"

definition CF_STORAGE_SUBTYPES :: "SubTypeSyntax list" where
  "CF_STORAGE_SUBTYPES =
    [\<lparr>bundle_type = ''agent'', subtype = ''storage'', ss_bs = CF_STORAGE_BODIES\<rparr>]"

section \<open>\<open>mod_access.c\<close>\<close>

definition CF_REMACCESS_BODIES :: "BodySyntax list" where
  "CF_REMACCESS_BODIES =
    [Attr ''admit'' cf_slist (Pattern []),
     Attr ''deny'' cf_slist (Pattern []),
     Attr ''maproot'' cf_slist (Pattern []),
     Attr ''ifencrypted'' cf_opts (Pattern CF_BOOL),
     Attr ''resource_type'' cf_opts (Pattern ''path,literal,context,query,variable''),
     Attr ''permit_read'' cf_opts (Pattern CF_BOOL),
     Attr ''permit_write'' cf_opts (Pattern CF_BOOL),
     Attr ''permit_execute'' cf_opts (Pattern CF_BOOL)]"

definition CF_REMROLE_BODIES :: "BodySyntax list" where
  "CF_REMROLE_BODIES =
    [Attr ''authorize'' cf_slist (Pattern [])]"

definition CF_REMACCESS_SUBTYPES :: "SubTypeSyntax list" where
  "CF_REMACCESS_SUBTYPES =
    [\<lparr>bundle_type = ''server'', subtype = ''access'', ss_bs = CF_REMACCESS_BODIES\<rparr>,
     \<lparr>bundle_type = ''server'', subtype = ''roles'', ss_bs = CF_REMROLE_BODIES\<rparr>]"

section \<open>\<open>mod_knowledge.c\<close>\<close>

definition CF_RELATE_BODY :: "BodySyntax list" where
  "CF_RELATE_BODY =
    [Attr ''forward_relationship'' cf_str (Pattern []),
     Attr ''backward_relationship'' cf_str (Pattern []),
     Attr ''associates'' cf_slist (Pattern [])]"

definition CF_OCCUR_BODIES :: "BodySyntax list" where
  "CF_OCCUR_BODIES =
    [Attr ''about_topics'' cf_slist (Pattern []),
     Attr ''represents'' cf_slist (Pattern []),
     Attr ''representation'' cf_opts (Pattern ''literal,url,db,file,web,image,portal'')]"

definition CF_TOPICS_BODIES :: "BodySyntax list" where
  "CF_TOPICS_BODIES =
    [Attr ''association'' cf_body (Table CF_RELATE_BODY),
     Attr ''synonyms'' cf_slist (Pattern []),
     Attr ''generalizations'' cf_slist (Pattern [])]"

definition CF_THING_BODIES :: "BodySyntax list" where
  "CF_THING_BODIES =
    [Attr ''synonyms'' cf_slist (Pattern []),
     Attr ''affects'' cf_slist (Pattern []),
     Attr ''belongs_to'' cf_slist (Pattern []),
     Attr ''causes'' cf_slist (Pattern []),
     Attr ''certainty'' cf_opts (Pattern ''certain,uncertain,possible''),
     Attr ''determines'' cf_slist (Pattern []),
     Attr ''generalizations'' cf_slist (Pattern []),
     Attr ''implements'' cf_slist (Pattern []),
     Attr ''involves'' cf_slist (Pattern []),
     Attr ''is_caused_by'' cf_slist (Pattern []),
     Attr ''is_connected_to'' cf_slist (Pattern []),
     Attr ''is_determined_by'' cf_slist (Pattern []),
     Attr ''is_followed_by'' cf_slist (Pattern []),
     Attr ''is_implemented_by'' cf_slist (Pattern []),
     Attr ''is_located_in'' cf_slist (Pattern []),
     Attr ''is_measured_by'' cf_slist (Pattern []),
     Attr ''is_part_of'' cf_slist (Pattern []),
     Attr ''is_preceded_by'' cf_slist (Pattern []),
     Attr ''measures'' cf_slist (Pattern []),
     Attr ''needs'' cf_slist (Pattern []),
     Attr ''provides'' cf_slist (Pattern []),
     Attr ''uses'' cf_slist (Pattern [])]"

definition CF_INFER_BODIES :: "BodySyntax list" where
  "CF_INFER_BODIES =
    [Attr ''precedents'' cf_slist (Pattern []),
     Attr ''qualifiers'' cf_slist (Pattern [])]"

definition CF_KNOWLEDGE_SUBTYPES :: "SubTypeSyntax list" where
  "CF_KNOWLEDGE_SUBTYPES =
    [\<lparr>bundle_type = ''knowledge'', subtype = ''inferences'', ss_bs = CF_INFER_BODIES\<rparr>,
     \<lparr>bundle_type = ''knowledge'', subtype = ''things'', ss_bs = CF_THING_BODIES\<rparr>,
     \<lparr>bundle_type = ''knowledge'', subtype = ''topics'', ss_bs = CF_TOPICS_BODIES\<rparr>,
     \<lparr>bundle_type = ''knowledge'', subtype = ''occurrences'', ss_bs = CF_OCCUR_BODIES\<rparr>]"

section \<open>\<open>mod_measurement.c\<close>\<close>

definition CF_MATCHVALUE_BODY :: "BodySyntax list" where
  "CF_MATCHVALUE_BODY =
    [Attr ''select_line_matching'' cf_str (Pattern CF_ANYSTRING),
     Attr ''select_line_number'' cf_int (Pattern CF_VALRANGE),
     Attr ''extraction_regex'' cf_str (Pattern []),
     Attr ''track_growing_file'' cf_opts (Pattern CF_BOOL),
     Attr ''select_multiline_policy'' cf_opts (Pattern ''average,sum,first,last'')]"

definition CF_MEASURE_BODIES :: "BodySyntax list" where
  "CF_MEASURE_BODIES =
    [Attr ''stream_type'' cf_opts (Pattern ''pipe,file''),
     Attr ''data_type'' cf_opts (Pattern ''counter,int,real,string,slist''),
     Attr ''history_type'' cf_opts (Pattern ''weekly,scalar,static,log''),
     Attr ''units'' cf_str (Pattern []),
     Attr ''match_value'' cf_body (Table CF_MATCHVALUE_BODY)]"

definition CF_MEASUREMENT_SUBTYPES :: "SubTypeSyntax list" where
  "CF_MEASUREMENT_SUBTYPES =
    [\<lparr>bundle_type = ''monitor'', subtype = ''measurements'', ss_bs = CF_MEASURE_BODIES\<rparr>]"

section \<open>\<open>evalfunction.c\<close>\<close>

definition ACCESSEDBEFORE_ARGS :: "FnCallArg list" where
  "ACCESSEDBEFORE_ARGS = [(CF_ABSPATHRANGE, cf_str), (CF_ABSPATHRANGE, cf_str)]"

definition ACCUM_ARGS :: "FnCallArg list" where
  "ACCUM_ARGS = [(''0,1000'', cf_int), (''0,1000'', cf_int), (''0,1000'', cf_int), (''0,1000'', cf_int), (''0,1000'', cf_int), (''0,40000'', cf_int)]"

definition AND_ARGS :: "FnCallArg list" where
  "AND_ARGS = []"

definition AGO_ARGS :: "FnCallArg list" where
  "AGO_ARGS = [(''0,1000'', cf_int), (''0,1000'', cf_int), (''0,1000'', cf_int), (''0,1000'', cf_int), (''0,1000'', cf_int), (''0,40000'', cf_int)]"

definition LATERTHAN_ARGS :: "FnCallArg list" where
  "LATERTHAN_ARGS = [(''0,1000'', cf_int), (''0,1000'', cf_int), (''0,1000'', cf_int), (''0,1000'', cf_int), (''0,1000'', cf_int), (''0,40000'', cf_int)]"

definition CANONIFY_ARGS :: "FnCallArg list" where
  "CANONIFY_ARGS = [(CF_ANYSTRING, cf_str)]"

definition CHANGEDBEFORE_ARGS :: "FnCallArg list" where
  "CHANGEDBEFORE_ARGS = [(CF_ABSPATHRANGE, cf_str), (CF_ABSPATHRANGE, cf_str)]"

definition CLASSIFY_ARGS :: "FnCallArg list" where
  "CLASSIFY_ARGS = [(CF_ANYSTRING, cf_str)]"

definition CLASSMATCH_ARGS :: "FnCallArg list" where
  "CLASSMATCH_ARGS = [(CF_ANYSTRING, cf_str)]"

definition CONCAT_ARGS :: "FnCallArg list" where
  "CONCAT_ARGS = []"

definition COUNTCLASSESMATCHING_ARGS :: "FnCallArg list" where
  "COUNTCLASSESMATCHING_ARGS = [(CF_ANYSTRING, cf_str)]"

definition COUNTLINESMATCHING_ARGS :: "FnCallArg list" where
  "COUNTLINESMATCHING_ARGS = [(CF_ANYSTRING, cf_str), (CF_ABSPATHRANGE, cf_str)]"

definition DIRNAME_ARGS :: "FnCallArg list" where
  "DIRNAME_ARGS = [(CF_ANYSTRING, cf_str)]"

definition DISKFREE_ARGS :: "FnCallArg list" where
  "DISKFREE_ARGS = [(CF_ABSPATHRANGE, cf_str)]"

definition ESCAPE_ARGS :: "FnCallArg list" where
  "ESCAPE_ARGS = [(CF_ANYSTRING, cf_str)]"

definition EXECRESULT_ARGS :: "FnCallArg list" where
  "EXECRESULT_ARGS = [(CF_ABSPATHRANGE, cf_str), (''useshell,noshell'', cf_opts)]"

definition FILESTAT_ARGS :: "FnCallArg list" where
  "FILESTAT_ARGS = [(CF_ABSPATHRANGE, cf_str)]"

definition FILESEXIST_ARGS :: "FnCallArg list" where
  "FILESEXIST_ARGS = [(CF_NAKEDLRANGE, cf_str)]"

definition GETFIELDS_ARGS :: "FnCallArg list" where
  "GETFIELDS_ARGS = [(CF_ANYSTRING, cf_str), (CF_ABSPATHRANGE, cf_str), (CF_ANYSTRING, cf_str), (CF_ANYSTRING, cf_str)]"

definition GETINDICES_ARGS :: "FnCallArg list" where
  "GETINDICES_ARGS = [(CF_IDRANGE, cf_str)]"

definition GETUSERS_ARGS :: "FnCallArg list" where
  "GETUSERS_ARGS = [(CF_ANYSTRING, cf_str), (CF_ANYSTRING, cf_str)]"

definition GETENV_ARGS :: "FnCallArg list" where
  "GETENV_ARGS = [(CF_IDRANGE, cf_str), (CF_VALRANGE, cf_int)]"

definition GETGID_ARGS :: "FnCallArg list" where
  "GETGID_ARGS = [(CF_ANYSTRING, cf_str)]"

definition GETUID_ARGS :: "FnCallArg list" where
  "GETUID_ARGS = [(CF_ANYSTRING, cf_str)]"

definition GREP_ARGS :: "FnCallArg list" where
  "GREP_ARGS = [(CF_ANYSTRING, cf_str), (CF_IDRANGE, cf_str)]"

definition GROUPEXISTS_ARGS :: "FnCallArg list" where
  "GROUPEXISTS_ARGS = [(CF_ANYSTRING, cf_str)]"

definition HASH_ARGS :: "FnCallArg list" where
  "HASH_ARGS = [(CF_ANYSTRING, cf_str), (''md5,sha1,sha256,sha512,sha384,crypt'', cf_opts)]"

definition HASHMATCH_ARGS :: "FnCallArg list" where
  "HASHMATCH_ARGS = [(CF_ABSPATHRANGE, cf_str), (''md5,sha1,crypt,cf_sha224,cf_sha256,cf_sha384,cf_sha512'', cf_opts), (CF_IDRANGE, cf_str)]"

definition HOST2IP_ARGS :: "FnCallArg list" where
  "HOST2IP_ARGS = [(CF_ANYSTRING, cf_str)]"

definition IP2HOST_ARGS :: "FnCallArg list" where
  "IP2HOST_ARGS = [(CF_ANYSTRING, cf_str)]"

definition HOSTINNETGROUP_ARGS :: "FnCallArg list" where
  "HOSTINNETGROUP_ARGS = [(CF_ANYSTRING, cf_str)]"

definition HOSTRANGE_ARGS :: "FnCallArg list" where
  "HOSTRANGE_ARGS = [(CF_ANYSTRING, cf_str), (CF_ANYSTRING, cf_str)]"

definition HOSTSSEEN_ARGS :: "FnCallArg list" where
  "HOSTSSEEN_ARGS = [(CF_VALRANGE, cf_int), (''lastseen,notseen'', cf_opts), (''name,address'', cf_opts)]"

definition HOSTSWITHCLASS_ARGS :: "FnCallArg list" where
  "HOSTSWITHCLASS_ARGS = [(''[a-zA-Z0-9_]+'', cf_str), (''name,address'', cf_opts)]"

definition IPRANGE_ARGS :: "FnCallArg list" where
  "IPRANGE_ARGS = [(CF_ANYSTRING, cf_str)]"

definition IRANGE_ARGS :: "FnCallArg list" where
  "IRANGE_ARGS = [(CF_INTRANGE, cf_int), (CF_INTRANGE, cf_int)]"

definition ISGREATERTHAN_ARGS :: "FnCallArg list" where
  "ISGREATERTHAN_ARGS = [(CF_ANYSTRING, cf_str), (CF_ANYSTRING, cf_str)]"

definition ISLESSTHAN_ARGS :: "FnCallArg list" where
  "ISLESSTHAN_ARGS = [(CF_ANYSTRING, cf_str), (CF_ANYSTRING, cf_str)]"

definition ISNEWERTHAN_ARGS :: "FnCallArg list" where
  "ISNEWERTHAN_ARGS = [(CF_ABSPATHRANGE, cf_str), (CF_ABSPATHRANGE, cf_str)]"

definition ISVARIABLE_ARGS :: "FnCallArg list" where
  "ISVARIABLE_ARGS = [(CF_IDRANGE, cf_str)]"

definition JOIN_ARGS :: "FnCallArg list" where
  "JOIN_ARGS = [(CF_ANYSTRING, cf_str), (CF_IDRANGE, cf_str)]"

definition LASTNODE_ARGS :: "FnCallArg list" where
  "LASTNODE_ARGS = [(CF_ANYSTRING, cf_str), (CF_ANYSTRING, cf_str)]"

definition LDAPARRAY_ARGS :: "FnCallArg list" where
  "LDAPARRAY_ARGS = [(CF_ANYSTRING, cf_str), (CF_ANYSTRING, cf_str), (CF_ANYSTRING, cf_str), (CF_ANYSTRING, cf_str), (''subtree,onelevel,base'', cf_opts), (''none,ssl,sasl'', cf_opts)]"

definition LDAPLIST_ARGS :: "FnCallArg list" where
  "LDAPLIST_ARGS = [(CF_ANYSTRING, cf_str), (CF_ANYSTRING, cf_str), (CF_ANYSTRING, cf_str), (CF_ANYSTRING, cf_str), (''subtree,onelevel,base'', cf_opts), (''none,ssl,sasl'', cf_opts)]"

definition LDAPVALUE_ARGS :: "FnCallArg list" where
  "LDAPVALUE_ARGS = [(CF_ANYSTRING, cf_str), (CF_ANYSTRING, cf_str), (CF_ANYSTRING, cf_str), (CF_ANYSTRING, cf_str), (''subtree,onelevel,base'', cf_opts), (''none,ssl,sasl'', cf_opts)]"

definition LSDIRLIST_ARGS :: "FnCallArg list" where
  "LSDIRLIST_ARGS = [(CF_PATHRANGE, cf_str), (CF_ANYSTRING, cf_str), (CF_BOOL, cf_opts)]"

definition MAPLIST_ARGS :: "FnCallArg list" where
  "MAPLIST_ARGS = [(CF_ANYSTRING, cf_str), (CF_IDRANGE, cf_str)]"

definition NOT_ARGS :: "FnCallArg list" where
  "NOT_ARGS = [(CF_ANYSTRING, cf_str)]"

definition NOW_ARGS :: "FnCallArg list" where
  "NOW_ARGS = []"

definition OR_ARGS :: "FnCallArg list" where
  "OR_ARGS = []"

definition SUM_ARGS :: "FnCallArg list" where
  "SUM_ARGS = [(CF_IDRANGE, cf_str)]"

definition PRODUCT_ARGS :: "FnCallArg list" where
  "PRODUCT_ARGS = [(CF_IDRANGE, cf_str)]"

definition DATE_ARGS :: "FnCallArg list" where
  "DATE_ARGS = [(''1970,3000'', cf_int), (''1,12'', cf_int), (''1,31'', cf_int), (''0,23'', cf_int), (''0,59'', cf_int), (''0,59'', cf_int)]"

definition PEERS_ARGS :: "FnCallArg list" where
  "PEERS_ARGS = [(CF_ABSPATHRANGE, cf_str), (CF_ANYSTRING, cf_str), (CF_VALRANGE, cf_int)]"

definition PEERLEADER_ARGS :: "FnCallArg list" where
  "PEERLEADER_ARGS = [(CF_ABSPATHRANGE, cf_str), (CF_ANYSTRING, cf_str), (CF_VALRANGE, cf_int)]"

definition PEERLEADERS_ARGS :: "FnCallArg list" where
  "PEERLEADERS_ARGS = [(CF_ABSPATHRANGE, cf_str), (CF_ANYSTRING, cf_str), (CF_VALRANGE, cf_int)]"

definition RANDOMINT_ARGS :: "FnCallArg list" where
  "RANDOMINT_ARGS = [(CF_INTRANGE, cf_int), (CF_INTRANGE, cf_int)]"

definition READFILE_ARGS :: "FnCallArg list" where
  "READFILE_ARGS = [(CF_ABSPATHRANGE, cf_str), (CF_VALRANGE, cf_int)]"

definition READSTRINGARRAY_ARGS :: "FnCallArg list" where
  "READSTRINGARRAY_ARGS = [(CF_IDRANGE, cf_str), (CF_ABSPATHRANGE, cf_str), (CF_ANYSTRING, cf_str), (CF_ANYSTRING, cf_str), (CF_VALRANGE, cf_int), (CF_VALRANGE, cf_int)]"

definition PARSESTRINGARRAY_ARGS :: "FnCallArg list" where
  "PARSESTRINGARRAY_ARGS = [(CF_IDRANGE, cf_str), (CF_ABSPATHRANGE, cf_str), (CF_ANYSTRING, cf_str), (CF_ANYSTRING, cf_str), (CF_VALRANGE, cf_int), (CF_VALRANGE, cf_int)]"

definition READSTRINGARRAYIDX_ARGS :: "FnCallArg list" where
  "READSTRINGARRAYIDX_ARGS = [(CF_IDRANGE, cf_str), (CF_ABSPATHRANGE, cf_str), (CF_ANYSTRING, cf_str), (CF_ANYSTRING, cf_str), (CF_VALRANGE, cf_int), (CF_VALRANGE, cf_int)]"

definition PARSESTRINGARRAYIDX_ARGS :: "FnCallArg list" where
  "PARSESTRINGARRAYIDX_ARGS = [(CF_IDRANGE, cf_str), (CF_ABSPATHRANGE, cf_str), (CF_ANYSTRING, cf_str), (CF_ANYSTRING, cf_str), (CF_VALRANGE, cf_int), (CF_VALRANGE, cf_int)]"

definition READSTRINGLIST_ARGS :: "FnCallArg list" where
  "READSTRINGLIST_ARGS = [(CF_ABSPATHRANGE, cf_str), (CF_ANYSTRING, cf_str), (CF_ANYSTRING, cf_str), (CF_VALRANGE, cf_int), (CF_VALRANGE, cf_int)]"

definition READTCP_ARGS :: "FnCallArg list" where
  "READTCP_ARGS = [(CF_ANYSTRING, cf_str), (CF_VALRANGE, cf_int), (CF_ANYSTRING, cf_str), (CF_VALRANGE, cf_int)]"

definition REGARRAY_ARGS :: "FnCallArg list" where
  "REGARRAY_ARGS = [(CF_IDRANGE, cf_str), (CF_ANYSTRING, cf_str)]"

definition REGCMP_ARGS :: "FnCallArg list" where
  "REGCMP_ARGS = [(CF_ANYSTRING, cf_str), (CF_ANYSTRING, cf_str)]"

definition REGEXTRACT_ARGS :: "FnCallArg list" where
  "REGEXTRACT_ARGS = [(CF_ANYSTRING, cf_str), (CF_ANYSTRING, cf_str), (CF_IDRANGE, cf_str)]"

definition REGISTRYVALUE_ARGS :: "FnCallArg list" where
  "REGISTRYVALUE_ARGS = [(CF_ANYSTRING, cf_str), (CF_ANYSTRING, cf_str)]"

definition REGLINE_ARGS :: "FnCallArg list" where
  "REGLINE_ARGS = [(CF_ANYSTRING, cf_str), (CF_ANYSTRING, cf_str)]"

definition REGLIST_ARGS :: "FnCallArg list" where
  "REGLIST_ARGS = [(CF_NAKEDLRANGE, cf_str), (CF_ANYSTRING, cf_str)]"

definition REGLDAP_ARGS :: "FnCallArg list" where
  "REGLDAP_ARGS = [(CF_ANYSTRING, cf_str), (CF_ANYSTRING, cf_str), (CF_ANYSTRING, cf_str), (CF_ANYSTRING, cf_str), (''subtree,onelevel,base'', cf_opts), (CF_ANYSTRING, cf_str), (''none,ssl,sasl'', cf_opts)]"

definition REMOTESCALAR_ARGS :: "FnCallArg list" where
  "REMOTESCALAR_ARGS = [(CF_IDRANGE, cf_str), (CF_ANYSTRING, cf_str), (CF_BOOL, cf_opts)]"

definition HUB_KNOWLEDGE_ARGS :: "FnCallArg list" where
  "HUB_KNOWLEDGE_ARGS = [(CF_IDRANGE, cf_str)]"

definition REMOTECLASSESMATCHING_ARGS :: "FnCallArg list" where
  "REMOTECLASSESMATCHING_ARGS = [(CF_ANYSTRING, cf_str), (CF_ANYSTRING, cf_str), (CF_BOOL, cf_opts), (CF_IDRANGE, cf_str)]"

definition RETURNSZERO_ARGS :: "FnCallArg list" where
  "RETURNSZERO_ARGS = [(CF_ABSPATHRANGE, cf_str), (''useshell,noshell'', cf_opts)]"

definition RRANGE_ARGS :: "FnCallArg list" where
  "RRANGE_ARGS = [(CF_REALRANGE, cf_real), (CF_REALRANGE, cf_real)]"

definition SELECTSERVERS_ARGS :: "FnCallArg list" where
  "SELECTSERVERS_ARGS = [(CF_NAKEDLRANGE, cf_str), (CF_VALRANGE, cf_int), (CF_ANYSTRING, cf_str), (CF_ANYSTRING, cf_str), (CF_VALRANGE, cf_int), (CF_IDRANGE, cf_str)]"

definition SPLAYCLASS_ARGS :: "FnCallArg list" where
  "SPLAYCLASS_ARGS = [(CF_ANYSTRING, cf_str), (''daily,hourly'', cf_opts)]"

definition SPLITSTRING_ARGS :: "FnCallArg list" where
  "SPLITSTRING_ARGS = [(CF_ANYSTRING, cf_str), (CF_ANYSTRING, cf_str), (CF_VALRANGE, cf_int)]"

definition STRCMP_ARGS :: "FnCallArg list" where
  "STRCMP_ARGS = [(CF_ANYSTRING, cf_str), (CF_ANYSTRING, cf_str)]"

definition TRANSLATEPATH_ARGS :: "FnCallArg list" where
  "TRANSLATEPATH_ARGS = [(CF_ABSPATHRANGE, cf_str)]"

definition USEMODULE_ARGS :: "FnCallArg list" where
  "USEMODULE_ARGS = [(CF_ANYSTRING, cf_str), (CF_ANYSTRING, cf_str)]"

definition USEREXISTS_ARGS :: "FnCallArg list" where
  "USEREXISTS_ARGS = [(CF_ANYSTRING, cf_str)]"

definition CF_FNCALL_TYPES :: "FnCallType list" where
  "CF_FNCALL_TYPES =
    [\<lparr>fn_name = ''accessedbefore'', fn_dtype = cf_class, fn_args = ACCESSEDBEFORE_ARGS, fn_impl = ''FnCallIsAccessedBefore'', varargs = False\<rparr>,
     \<lparr>fn_name = ''accumulated'', fn_dtype = cf_int, fn_args = ACCUM_ARGS, fn_impl = ''FnCallAccumulatedDate'', varargs = False\<rparr>,
     \<lparr>fn_name = ''ago'', fn_dtype = cf_int, fn_args = AGO_ARGS, fn_impl = ''FnCallAgoDate'', varargs = False\<rparr>,
     \<lparr>fn_name = ''and'', fn_dtype = cf_str, fn_args = AND_ARGS, fn_impl = ''FnCallAnd'', varargs = True\<rparr>,
     \<lparr>fn_name = ''canonify'', fn_dtype = cf_str, fn_args = CANONIFY_ARGS, fn_impl = ''FnCallCanonify'', varargs = False\<rparr>,
     \<lparr>fn_name = ''concat'', fn_dtype = cf_str, fn_args = CONCAT_ARGS, fn_impl = ''FnCallConcat'', varargs = True\<rparr>,
     \<lparr>fn_name = ''changedbefore'', fn_dtype = cf_class, fn_args = CHANGEDBEFORE_ARGS, fn_impl = ''FnCallIsChangedBefore'', varargs = False\<rparr>,
     \<lparr>fn_name = ''classify'', fn_dtype = cf_class, fn_args = CLASSIFY_ARGS, fn_impl = ''FnCallClassify'', varargs = False\<rparr>,
     \<lparr>fn_name = ''classmatch'', fn_dtype = cf_class, fn_args = CLASSMATCH_ARGS, fn_impl = ''FnCallClassMatch'', varargs = False\<rparr>,
     \<lparr>fn_name = ''countclassesmatching'', fn_dtype = cf_int, fn_args = COUNTCLASSESMATCHING_ARGS, fn_impl = ''FnCallCountClassesMatching'', varargs = False\<rparr>,
     \<lparr>fn_name = ''countlinesmatching'', fn_dtype = cf_int, fn_args = COUNTLINESMATCHING_ARGS, fn_impl = ''FnCallCountLinesMatching'', varargs = False\<rparr>,
     \<lparr>fn_name = ''dirname'', fn_dtype = cf_str, fn_args = DIRNAME_ARGS, fn_impl = ''FnCallDirname'', varargs = False\<rparr>,
     \<lparr>fn_name = ''diskfree'', fn_dtype = cf_int, fn_args = DISKFREE_ARGS, fn_impl = ''FnCallDiskFree'', varargs = False\<rparr>,
     \<lparr>fn_name = ''escape'', fn_dtype = cf_str, fn_args = ESCAPE_ARGS, fn_impl = ''FnCallEscape'', varargs = False\<rparr>,
     \<lparr>fn_name = ''execresult'', fn_dtype = cf_str, fn_args = EXECRESULT_ARGS, fn_impl = ''FnCallExecResult'', varargs = False\<rparr>,
     \<lparr>fn_name = ''fileexists'', fn_dtype = cf_class, fn_args = FILESTAT_ARGS, fn_impl = ''FnCallFileStat'', varargs = False\<rparr>,
     \<lparr>fn_name = ''filesexist'', fn_dtype = cf_class, fn_args = FILESEXIST_ARGS, fn_impl = ''FnCallFileSexist'', varargs = False\<rparr>,
     \<lparr>fn_name = ''filesize'', fn_dtype = cf_int, fn_args = FILESTAT_ARGS, fn_impl = ''FnCallFileStat'', varargs = False\<rparr>,
     \<lparr>fn_name = ''getenv'', fn_dtype = cf_str, fn_args = GETENV_ARGS, fn_impl = ''FnCallGetEnv'', varargs = False\<rparr>,
     \<lparr>fn_name = ''getfields'', fn_dtype = cf_int, fn_args = GETFIELDS_ARGS, fn_impl = ''FnCallGetFields'', varargs = False\<rparr>,
     \<lparr>fn_name = ''getgid'', fn_dtype = cf_int, fn_args = GETGID_ARGS, fn_impl = ''FnCallGetGid'', varargs = False\<rparr>,
     \<lparr>fn_name = ''getindices'', fn_dtype = cf_slist, fn_args = GETINDICES_ARGS, fn_impl = ''FnCallGetIndices'', varargs = False\<rparr>,
     \<lparr>fn_name = ''getuid'', fn_dtype = cf_int, fn_args = GETUID_ARGS, fn_impl = ''FnCallGetUid'', varargs = False\<rparr>,
     \<lparr>fn_name = ''getusers'', fn_dtype = cf_slist, fn_args = GETUSERS_ARGS, fn_impl = ''FnCallGetUsers'', varargs = False\<rparr>,
     \<lparr>fn_name = ''getvalues'', fn_dtype = cf_slist, fn_args = GETINDICES_ARGS, fn_impl = ''FnCallGetValues'', varargs = False\<rparr>,
     \<lparr>fn_name = ''grep'', fn_dtype = cf_slist, fn_args = GREP_ARGS, fn_impl = ''FnCallGrep'', varargs = False\<rparr>,
     \<lparr>fn_name = ''groupexists'', fn_dtype = cf_class, fn_args = GROUPEXISTS_ARGS, fn_impl = ''FnCallGroupExists'', varargs = False\<rparr>,
     \<lparr>fn_name = ''hash'', fn_dtype = cf_str, fn_args = HASH_ARGS, fn_impl = ''FnCallHash'', varargs = False\<rparr>,
     \<lparr>fn_name = ''hashmatch'', fn_dtype = cf_class, fn_args = HASHMATCH_ARGS, fn_impl = ''FnCallHashMatch'', varargs = False\<rparr>,
     \<lparr>fn_name = ''host2ip'', fn_dtype = cf_str, fn_args = HOST2IP_ARGS, fn_impl = ''FnCallHost2IP'', varargs = False\<rparr>,
     \<lparr>fn_name = ''ip2host'', fn_dtype = cf_str, fn_args = IP2HOST_ARGS, fn_impl = ''FnCallIP2Host'', varargs = False\<rparr>,
     \<lparr>fn_name = ''hostinnetgroup'', fn_dtype = cf_class, fn_args = HOSTINNETGROUP_ARGS, fn_impl = ''FnCallHostInNetgroup'', varargs = False\<rparr>,
     \<lparr>fn_name = ''hostrange'', fn_dtype = cf_class, fn_args = HOSTRANGE_ARGS, fn_impl = ''FnCallHostRange'', varargs = False\<rparr>,
     \<lparr>fn_name = ''hostsseen'', fn_dtype = cf_slist, fn_args = HOSTSSEEN_ARGS, fn_impl = ''FnCallHostsSeen'', varargs = False\<rparr>,
     \<lparr>fn_name = ''hostswithclass'', fn_dtype = cf_slist, fn_args = HOSTSWITHCLASS_ARGS, fn_impl = ''FnCallHostsWithClass'', varargs = False\<rparr>,
     \<lparr>fn_name = ''hubknowledge'', fn_dtype = cf_str, fn_args = HUB_KNOWLEDGE_ARGS, fn_impl = ''FnCallHubKnowledge'', varargs = False\<rparr>,
     \<lparr>fn_name = ''iprange'', fn_dtype = cf_class, fn_args = IPRANGE_ARGS, fn_impl = ''FnCallIPRange'', varargs = False\<rparr>,
     \<lparr>fn_name = ''irange'', fn_dtype = cf_irange, fn_args = IRANGE_ARGS, fn_impl = ''FnCallIRange'', varargs = False\<rparr>,
     \<lparr>fn_name = ''isdir'', fn_dtype = cf_class, fn_args = FILESTAT_ARGS, fn_impl = ''FnCallFileStat'', varargs = False\<rparr>,
     \<lparr>fn_name = ''isexecutable'', fn_dtype = cf_class, fn_args = FILESTAT_ARGS, fn_impl = ''FnCallFileStat'', varargs = False\<rparr>,
     \<lparr>fn_name = ''isgreaterthan'', fn_dtype = cf_class, fn_args = ISGREATERTHAN_ARGS, fn_impl = ''FnCallIsLessGreaterThan'', varargs = False\<rparr>,
     \<lparr>fn_name = ''islessthan'', fn_dtype = cf_class, fn_args = ISLESSTHAN_ARGS, fn_impl = ''FnCallIsLessGreaterThan'', varargs = False\<rparr>,
     \<lparr>fn_name = ''islink'', fn_dtype = cf_class, fn_args = FILESTAT_ARGS, fn_impl = ''FnCallFileStat'', varargs = False\<rparr>,
     \<lparr>fn_name = ''isnewerthan'', fn_dtype = cf_class, fn_args = ISNEWERTHAN_ARGS, fn_impl = ''FnCallIsNewerThan'', varargs = False\<rparr>,
     \<lparr>fn_name = ''isplain'', fn_dtype = cf_class, fn_args = FILESTAT_ARGS, fn_impl = ''FnCallFileStat'', varargs = False\<rparr>,
     \<lparr>fn_name = ''isvariable'', fn_dtype = cf_class, fn_args = ISVARIABLE_ARGS, fn_impl = ''FnCallIsVariable'', varargs = False\<rparr>,
     \<lparr>fn_name = ''join'', fn_dtype = cf_str, fn_args = JOIN_ARGS, fn_impl = ''FnCallJoin'', varargs = False\<rparr>,
     \<lparr>fn_name = ''lastnode'', fn_dtype = cf_str, fn_args = LASTNODE_ARGS, fn_impl = ''FnCallLastNode'', varargs = False\<rparr>,
     \<lparr>fn_name = ''laterthan'', fn_dtype = cf_class, fn_args = LATERTHAN_ARGS, fn_impl = ''FnCallLaterThan'', varargs = False\<rparr>,
     \<lparr>fn_name = ''ldaparray'', fn_dtype = cf_class, fn_args = LDAPARRAY_ARGS, fn_impl = ''FnCallLDAPArray'', varargs = False\<rparr>,
     \<lparr>fn_name = ''ldaplist'', fn_dtype = cf_slist, fn_args = LDAPLIST_ARGS, fn_impl = ''FnCallLDAPList'', varargs = False\<rparr>,
     \<lparr>fn_name = ''ldapvalue'', fn_dtype = cf_str, fn_args = LDAPVALUE_ARGS, fn_impl = ''FnCallLDAPValue'', varargs = False\<rparr>,
     \<lparr>fn_name = ''lsdir'', fn_dtype = cf_slist, fn_args = LSDIRLIST_ARGS, fn_impl = ''FnCallLsDir'', varargs = False\<rparr>,
     \<lparr>fn_name = ''maplist'', fn_dtype = cf_slist, fn_args = MAPLIST_ARGS, fn_impl = ''FnCallMapList'', varargs = False\<rparr>,
     \<lparr>fn_name = ''not'', fn_dtype = cf_str, fn_args = NOT_ARGS, fn_impl = ''FnCallNot'', varargs = False\<rparr>,
     \<lparr>fn_name = ''now'', fn_dtype = cf_int, fn_args = NOW_ARGS, fn_impl = ''FnCallNow'', varargs = False\<rparr>,
     \<lparr>fn_name = ''on'', fn_dtype = cf_int, fn_args = DATE_ARGS, fn_impl = ''FnCallOn'', varargs = False\<rparr>,
     \<lparr>fn_name = ''or'', fn_dtype = cf_str, fn_args = OR_ARGS, fn_impl = ''FnCallOr'', varargs = True\<rparr>,
     \<lparr>fn_name = ''parseintarray'', fn_dtype = cf_int, fn_args = PARSESTRINGARRAY_ARGS, fn_impl = ''FnCallParseIntArray'', varargs = False\<rparr>,
     \<lparr>fn_name = ''parserealarray'', fn_dtype = cf_int, fn_args = PARSESTRINGARRAY_ARGS, fn_impl = ''FnCallParseRealArray'', varargs = False\<rparr>,
     \<lparr>fn_name = ''parsestringarray'', fn_dtype = cf_int, fn_args = PARSESTRINGARRAY_ARGS, fn_impl = ''FnCallParseStringArray'', varargs = False\<rparr>,
     \<lparr>fn_name = ''parsestringarrayidx'', fn_dtype = cf_int, fn_args = PARSESTRINGARRAYIDX_ARGS, fn_impl = ''FnCallParseStringArrayIndex'', varargs = False\<rparr>,
     \<lparr>fn_name = ''peers'', fn_dtype = cf_slist, fn_args = PEERS_ARGS, fn_impl = ''FnCallPeers'', varargs = False\<rparr>,
     \<lparr>fn_name = ''peerleader'', fn_dtype = cf_str, fn_args = PEERLEADER_ARGS, fn_impl = ''FnCallPeerLeader'', varargs = False\<rparr>,
     \<lparr>fn_name = ''peerleaders'', fn_dtype = cf_slist, fn_args = PEERLEADERS_ARGS, fn_impl = ''FnCallPeerLeaders'', varargs = False\<rparr>,
     \<lparr>fn_name = ''product'', fn_dtype = cf_real, fn_args = PRODUCT_ARGS, fn_impl = ''FnCallProduct'', varargs = False\<rparr>,
     \<lparr>fn_name = ''randomint'', fn_dtype = cf_int, fn_args = RANDOMINT_ARGS, fn_impl = ''FnCallRandomInt'', varargs = False\<rparr>,
     \<lparr>fn_name = ''readfile'', fn_dtype = cf_str, fn_args = READFILE_ARGS, fn_impl = ''FnCallReadFile'', varargs = False\<rparr>,
     \<lparr>fn_name = ''readintarray'', fn_dtype = cf_int, fn_args = READSTRINGARRAY_ARGS, fn_impl = ''FnCallReadIntArray'', varargs = False\<rparr>,
     \<lparr>fn_name = ''readintlist'', fn_dtype = cf_ilist, fn_args = READSTRINGLIST_ARGS, fn_impl = ''FnCallReadIntList'', varargs = False\<rparr>,
     \<lparr>fn_name = ''readrealarray'', fn_dtype = cf_int, fn_args = READSTRINGARRAY_ARGS, fn_impl = ''FnCallReadRealArray'', varargs = False\<rparr>,
     \<lparr>fn_name = ''readreallist'', fn_dtype = cf_rlist, fn_args = READSTRINGLIST_ARGS, fn_impl = ''FnCallReadRealList'', varargs = False\<rparr>,
     \<lparr>fn_name = ''readstringarray'', fn_dtype = cf_int, fn_args = READSTRINGARRAY_ARGS, fn_impl = ''FnCallReadStringArray'', varargs = False\<rparr>,
     \<lparr>fn_name = ''readstringarrayidx'', fn_dtype = cf_int, fn_args = READSTRINGARRAYIDX_ARGS, fn_impl = ''FnCallReadStringArrayIndex'', varargs = False\<rparr>,
     \<lparr>fn_name = ''readstringlist'', fn_dtype = cf_slist, fn_args = READSTRINGLIST_ARGS, fn_impl = ''FnCallReadStringList'', varargs = False\<rparr>,
     \<lparr>fn_name = ''readtcp'', fn_dtype = cf_str, fn_args = READTCP_ARGS, fn_impl = ''FnCallReadTcp'', varargs = False\<rparr>,
     \<lparr>fn_name = ''regarray'', fn_dtype = cf_class, fn_args = REGARRAY_ARGS, fn_impl = ''FnCallRegArray'', varargs = False\<rparr>,
     \<lparr>fn_name = ''regcmp'', fn_dtype = cf_class, fn_args = REGCMP_ARGS, fn_impl = ''FnCallRegCmp'', varargs = False\<rparr>,
     \<lparr>fn_name = ''regextract'', fn_dtype = cf_class, fn_args = REGEXTRACT_ARGS, fn_impl = ''FnCallRegExtract'', varargs = False\<rparr>,
     \<lparr>fn_name = ''registryvalue'', fn_dtype = cf_str, fn_args = REGISTRYVALUE_ARGS, fn_impl = ''FnCallRegistryValue'', varargs = False\<rparr>,
     \<lparr>fn_name = ''regline'', fn_dtype = cf_class, fn_args = REGLINE_ARGS, fn_impl = ''FnCallRegLine'', varargs = False\<rparr>,
     \<lparr>fn_name = ''reglist'', fn_dtype = cf_class, fn_args = REGLIST_ARGS, fn_impl = ''FnCallRegList'', varargs = False\<rparr>,
     \<lparr>fn_name = ''regldap'', fn_dtype = cf_class, fn_args = REGLDAP_ARGS, fn_impl = ''FnCallRegLDAP'', varargs = False\<rparr>,
     \<lparr>fn_name = ''remotescalar'', fn_dtype = cf_str, fn_args = REMOTESCALAR_ARGS, fn_impl = ''FnCallRemoteScalar'', varargs = False\<rparr>,
     \<lparr>fn_name = ''remoteclassesmatching'', fn_dtype = cf_class, fn_args = REMOTECLASSESMATCHING_ARGS, fn_impl = ''FnCallRemoteClassesMatching'', varargs = False\<rparr>,
     \<lparr>fn_name = ''returnszero'', fn_dtype = cf_class, fn_args = RETURNSZERO_ARGS, fn_impl = ''FnCallReturnsZero'', varargs = False\<rparr>,
     \<lparr>fn_name = ''rrange'', fn_dtype = cf_rrange, fn_args = RRANGE_ARGS, fn_impl = ''FnCallRRange'', varargs = False\<rparr>,
     \<lparr>fn_name = ''selectservers'', fn_dtype = cf_int, fn_args = SELECTSERVERS_ARGS, fn_impl = ''FnCallSelectServers'', varargs = False\<rparr>,
     \<lparr>fn_name = ''splayclass'', fn_dtype = cf_class, fn_args = SPLAYCLASS_ARGS, fn_impl = ''FnCallSplayClass'', varargs = False\<rparr>,
     \<lparr>fn_name = ''splitstring'', fn_dtype = cf_slist, fn_args = SPLITSTRING_ARGS, fn_impl = ''FnCallSplitString'', varargs = False\<rparr>,
     \<lparr>fn_name = ''strcmp'', fn_dtype = cf_class, fn_args = STRCMP_ARGS, fn_impl = ''FnCallStrCmp'', varargs = False\<rparr>,
     \<lparr>fn_name = ''sum'', fn_dtype = cf_real, fn_args = SUM_ARGS, fn_impl = ''FnCallSum'', varargs = False\<rparr>,
     \<lparr>fn_name = ''translatepath'', fn_dtype = cf_str, fn_args = TRANSLATEPATH_ARGS, fn_impl = ''FnCallTranslatePath'', varargs = False\<rparr>,
     \<lparr>fn_name = ''usemodule'', fn_dtype = cf_class, fn_args = USEMODULE_ARGS, fn_impl = ''FnCallUseModule'', varargs = False\<rparr>,
     \<lparr>fn_name = ''userexists'', fn_dtype = cf_class, fn_args = USEREXISTS_ARGS, fn_impl = ''FnCallUserExists'', varargs = False\<rparr>]"

section \<open>All modules\<close>

definition CF_ALL_SUBTYPES :: "SubTypeSyntax list list" where
  "CF_ALL_SUBTYPES =
    [CF_COMMON_SUBTYPES, CF_EXEC_SUBTYPES, CF_DATABASES_SUBTYPES, CF_ENVIRONMENT_SUBTYPES, CF_FILES_SUBTYPES, CF_INTERFACES_SUBTYPES, CF_METHOD_SUBTYPES, CF_OUTPUTS_SUBTYPES, CF_PACKAGES_SUBTYPES, CF_PROCESS_SUBTYPES, CF_SERVICES_SUBTYPES, CF_STORAGE_SUBTYPES, CF_REMACCESS_SUBTYPES, CF_KNOWLEDGE_SUBTYPES, CF_MEASUREMENT_SUBTYPES]"

end
