(* ===== verification/CF_Syntax.thy ===== *)
theory CF_Syntax
  imports CF_SyntaxTables CF_Variables CF_LastSeen
begin

text \<open>
  The checks of attributes against the syntax tables (\<open>src/syntax.c\<close>, \<open>FindFunction\<close> of \<open>src/fncall.c\<close>).  A check returns the
  messages it reports; what becomes of them is \<open>ReportErrors\<close> (\<open>src/reporting.c\<close>): while the policy is parsed they are counted and the
  eleventh is fatal, and later the first is (\<open>at_run_time\<close>).  A mistake in the tables themselves is a fatal error at once.  The matcher of regular expressions is the
  parameter \<open>full_match\<close>, and the arithmetic on \<open>double\<close> is given by the record \<open>'d real_ops\<close>.
\<close>

section \<open>Lookup in the tables\<close>

fun first_some :: "('a \<Rightarrow> 'b option) \<Rightarrow> 'a list \<Rightarrow> 'b option" where
  "first_some f [] = None"
| "first_some f (x # xs) = (case f x of Some y \<Rightarrow> Some y | None \<Rightarrow> first_some f xs)"

definition SubTypeSyntaxLookup :: "string option \<Rightarrow> string option \<Rightarrow> SubTypeSyntax option" where
  "SubTypeSyntaxLookup type_of_bundle subtype_name =
     List.find (\<lambda>syntax. StringSafeEqual subtype_name (Some (subtype syntax)) \<and>
         (StringSafeEqual type_of_bundle (Some (bundle_type syntax)) \<or> StringSafeEqual (Some ''*'') (Some (bundle_type syntax))))
       (concat CF_ALL_SUBTYPES)"

definition attr_named :: "string \<Rightarrow> BodySyntax list \<Rightarrow> BodySyntax option" where
  "attr_named lv attrs = List.find (\<lambda>a. strcmp lv (attr_lval a) = 0) attrs"

fun in_body :: "string \<Rightarrow> BodySyntax \<Rightarrow> BodySyntax option" where
  "in_body lv (Attr l dt rng) =
     (if dt = cf_body then (case rng of Table bs2 \<Rightarrow> attr_named lv bs2 | _ \<Rightarrow> None) else None)"

definition expected_in :: "string \<Rightarrow> SubTypeSyntax \<Rightarrow> BodySyntax option" where
  "expected_in lv ss = (case attr_named lv (ss_bs ss) of
     Some a \<Rightarrow> Some a
   | None \<Rightarrow> first_some (in_body lv) (ss_bs ss))"

definition ExpectedDataType :: "string \<Rightarrow> cfdatatype" where
  "ExpectedDataType lvalname = (case first_some (expected_in lvalname) (concat CF_ALL_SUBTYPES) of
     Some a \<Rightarrow> attr_dtype a | None \<Rightarrow> cf_notype)"

text \<open>The first table of the type that has the attribute decides.\<close>

definition LvalWantsBody :: "string \<Rightarrow> string \<Rightarrow> bool" where
  "LvalWantsBody stype lv =
     (case first_some (\<lambda>ss. if strcmp (subtype ss) stype \<noteq> 0 then None else attr_named lv (ss_bs ss)) (concat CF_ALL_SUBTYPES) of
        Some a \<Rightarrow> attr_dtype a = cf_body | None \<Rightarrow> False)"

definition FindFunction :: "string \<Rightarrow> FnCallType option" where
  "FindFunction nm = List.find (\<lambda>fn. strcmp (fn_name fn) nm = 0) CF_FNCALL_TYPES"

fun CF_DATATYPES :: "cfdatatype \<Rightarrow> string" where
  "CF_DATATYPES cf_str = ''string''"
| "CF_DATATYPES cf_int = ''int''"
| "CF_DATATYPES cf_real = ''real''"
| "CF_DATATYPES cf_slist = ''slist''"
| "CF_DATATYPES cf_ilist = ''ilist''"
| "CF_DATATYPES cf_rlist = ''rlist''"
| "CF_DATATYPES cf_opts = ''(menu option)''"
| "CF_DATATYPES cf_olist = ''(option list)''"
| "CF_DATATYPES cf_body = ''(ext body)''"
| "CF_DATATYPES cf_bundle = ''(ext bundle)''"
| "CF_DATATYPES cf_class = ''class''"
| "CF_DATATYPES cf_clist = ''clist''"
| "CF_DATATYPES cf_irange = ''irange [int,int]''"
| "CF_DATATYPES cf_rrange = ''rrange [real,real]''"
| "CF_DATATYPES cf_counter = ''counter''"
| "CF_DATATYPES cf_notype = ''<notype>''"

section \<open>Checks of scalars\<close>

type_synonym messages = "string list"

text \<open>A message is formatted into a buffer of \<open>CF_BUFSIZE\<close> bytes and reported.\<close>

definition report :: "string \<Rightarrow> messages" where
  "report s = [take (CF_BUFSIZE - 1) s]"

text \<open>\<open>ReportError\<close> for a message, with the number of errors so far and after it; later than parsing it does not come back.\<close>

definition ReportError :: "bool \<Rightarrow> nat \<Rightarrow> nat res" where
  "ReportError PARSING ERRORCOUNT =
     (if PARSING then if ERRORCOUNT + 1 > 10 then Inl FatalErrorExit else Inr (ERRORCOUNT + 1)
      else Inl FatalErrorExit)"

fun ReportErrors :: "bool \<Rightarrow> nat \<Rightarrow> messages \<Rightarrow> nat res" where
  "ReportErrors PARSING ERRORCOUNT [] = Inr ERRORCOUNT"
| "ReportErrors PARSING ERRORCOUNT (m # ms) = res_bind (ReportError PARSING ERRORCOUNT) (\<lambda>n. ReportErrors PARSING n ms)"

text \<open>What a check does to the program: it ends it, or leaves the count of errors.  At run time a value comes back only without a message; a
  check that reports and then fails in another way has that failure as its value.\<close>

definition check_outcome :: "bool \<Rightarrow> nat \<Rightarrow> messages res \<Rightarrow> nat res" where
  "check_outcome PARSING ERRORCOUNT r = res_bind r (ReportErrors PARSING ERRORCOUNT)"

definition at_run_time :: "('a \<times> messages) res \<Rightarrow> 'a res" where
  "at_run_time r = res_bind r (\<lambda>(x, msgs). res_bind (ReportErrors False 0 msgs) (\<lambda>_. Inr x))"

definition checked_at_run_time :: "messages res \<Rightarrow> unit res" where
  "checked_at_run_time r = res_bind (check_outcome False 0 r) (\<lambda>_. Inr ())"

lemma ReportErrors_eq:
  "ReportErrors PARSING n msgs =
     (if msgs = [] then Inr n else if \<not> PARSING \<or> n + length msgs > 10 then Inl FatalErrorExit else Inr (n + length msgs))"
  by (induction msgs arbitrary: n) (auto simp: ReportError_def)

lemma at_run_time_simps [simp]:
  "at_run_time (Inl e) = Inl e"
  "at_run_time (Inr (x, msgs)) = (if msgs = [] then Inr x else Inl FatalErrorExit)"
  by (simp_all add: at_run_time_def ReportErrors_eq)

lemma checked_at_run_time_simps [simp]:
  "checked_at_run_time (Inl e) = Inl e"
  "checked_at_run_time (Inr msgs) = (if msgs = [] then Inr () else Inl FatalErrorExit)"
  by (simp_all add: checked_at_run_time_def check_outcome_def ReportErrors_eq)

definition squote :: string where
  "squote = [CHR 0x27]"

definition CheckParseString :: "(string \<Rightarrow> string \<Rightarrow> bool) \<Rightarrow> string \<Rightarrow> string option \<Rightarrow> string \<Rightarrow> bool \<times> messages" where
  "CheckParseString full_match lv s rng = (case s of
     None \<Rightarrow> (True, [])
   | Some t \<Rightarrow>
       if length rng = 0 then (True, [])
       else if IsNakedVar s CHR ''@'' \<or> IsNakedVar s CHR ''$'' then (False, [])
       else if (strcmp lv ''mode'' = 0 \<or> strcmp lv ''search_mode'' = 0) \<and> \<not> fst (ParseModeString s)
         then (False, report (''Error parsing Unix permission string '' @ t @ '')''))
       else if FullTextMatch full_match rng t then (True, [])
       else if IsCf3VarString s \<noteq> 0 then (True, [])
       else (False, report (''Scalar item in '' @ lv @ '' => { '' @ t @ '' } in rvalue is out of bounds (value should match pattern '' @ rng @ '')'')))"

text \<open>\<open>CheckParseClass\<close> of \<open>CF_Classes\<close> with its message.\<close>

definition check_class :: "(string \<Rightarrow> string \<Rightarrow> bool) \<Rightarrow> string \<Rightarrow> string option \<Rightarrow> string \<Rightarrow> bool \<times> messages" where
  "check_class full_match lv s rng =
     (if CheckParseClass full_match s rng then (True, [])
      else (False, case s of None \<Rightarrow> []
        | Some t \<Rightarrow> report (''Class item on rhs of lval '' @ squote @ lv @ squote @ '' given as { '' @ t @ '' } is out of bounds (should match '' @ rng @ '')'')))"

text \<open>The bounds in a range text, for integers.  \<open>CF_HIGHINIT\<close> and \<open>CF_LOWINIT\<close> stand for bounds that could not be read.\<close>

definition int_bounds :: "string \<Rightarrow> (int \<times> int) res" where
  "int_bounds rng = res_bind (SplitString rng CHR '','') (\<lambda>split. case split of
     [a, b] \<Rightarrow>
       let mn = scan_or CF_HIGHINIT (name a);
           mx = (if strcmp (name b) ''inf'' = 0 then CF_INFINITY else scan_or CF_LOWINIT (name b))
       in if mn = CF_HIGHINIT \<or> mx = CF_LOWINIT then Inl FatalErrorExit else Inr (mn, mx)
   | _ \<Rightarrow> Inl FatalErrorExit)"

definition CheckParseInt :: "int \<Rightarrow> string \<Rightarrow> string option \<Rightarrow> string \<Rightarrow> messages res" where
  "CheckParseInt CFSTARTTIME lv s rng = (case s of
     None \<Rightarrow> Inr []
   | Some t \<Rightarrow> res_bind (int_bounds rng) (\<lambda>(mn, mx).
       if IsCf3VarString s \<noteq> 0 then Inr []
       else res_bind (Str2Int CFSTARTTIME s) (\<lambda>v.
         if v = CF_NOINT
         then Inr (report (''Int item on rhs of lval '' @ squote @ lv @ squote @ '' given as '' @ squote @ t @ squote @ '' could not be parsed''))
         else if v > mx \<or> v < mn
         then Inr (report (''Int item on rhs of lval '' @ squote @ lv @ squote @ '' given as {'' @ t @ '' => '' @ show_int v @
           ''} is out of bounds (should be in ['' @ rng @ ''])''))
         else Inr [])))"

text \<open>The range ends at the first item that is out of bounds; an item that cannot be read counts as \<open>CF_NOINT\<close>.\<close>

fun int_range_loop :: "int \<Rightarrow> string \<Rightarrow> string \<Rightarrow> string \<Rightarrow> int \<Rightarrow> int \<Rightarrow> Item list \<Rightarrow> messages res" where
  "int_range_loop CFSTARTTIME lv s rng mn mx [] = Inr []"
| "int_range_loop CFSTARTTIME lv s rng mn mx (ip # ips) =
     res_bind (Str2Int CFSTARTTIME (Some (name ip))) (\<lambda>v.
       if v > mx \<or> v < mn
       then Inr (report (''Int range item on rhs of lval '' @ squote @ lv @ squote @ '' given as {'' @ s @ '' => '' @ show_int v @
         ''} is out of bounds (should be in ['' @ rng @ ''])''))
       else int_range_loop CFSTARTTIME lv s rng mn mx ips)"

definition brackets_message :: messages where
  "brackets_message = [''Range specification should not be enclosed in brackets - just '' @ [CHR 0x22] @ ''a,b'' @ [CHR 0x22]]"

definition CheckParseIntRange :: "int \<Rightarrow> string \<Rightarrow> string option \<Rightarrow> string \<Rightarrow> messages res" where
  "CheckParseIntRange CFSTARTTIME lv s rng = (case s of
     None \<Rightarrow> Inr []
   | Some t \<Rightarrow>
       if char_at t 0 \<in> set ''[('' then Inr brackets_message
       else res_bind (int_bounds rng) (\<lambda>(mn, mx).
         if IsCf3VarString s \<noteq> 0 then Inr []
         else res_bind (SplitString t CHR '','') (\<lambda>rangep.
           if length rangep \<noteq> 2
           then Inr (report (''Int range format specifier for lval '' @ lv @ '' should be of form '' @ [CHR 0x22] @ ''a,b'' @ [CHR 0x22] @
             '' but got '' @ show_nat (length rangep) @ '' items''))
           else int_range_loop CFSTARTTIME lv t rng mn mx rangep)))"

definition CheckParseOpts :: "string \<Rightarrow> string option \<Rightarrow> string \<Rightarrow> messages res" where
  "CheckParseOpts lv s rng = (case s of
     None \<Rightarrow> Inr []
   | Some t \<Rightarrow>
       if IsNakedVar s CHR ''@'' \<or> IsNakedVar s CHR ''$'' then Inr []
       else res_bind (SplitString rng CHR '','') (\<lambda>split.
         if IsItemIn split s then Inr []
         else Inr (report (''Selection on rhs of lval '' @ squote @ lv @ squote @ '' given as '' @ squote @ t @ squote @
           '' is out of bounds, should be in ['' @ rng @ '']''))))"

section \<open>Checks of reals\<close>

text \<open>\<open>scan_lf\<close> reads a number in front of a text, as \<open>sscanf\<close> does with \<open>%lf\<close>.\<close>

record 'd real_ops = "'d double_ops" +
  scan_lf :: "string \<Rightarrow> ('d \<times> string) option"
  d_eq :: "'d \<Rightarrow> 'd \<Rightarrow> bool"
  show_3f :: "'d \<Rightarrow> string"

definition CF_NODOUBLE :: "'d real_ops \<Rightarrow> 'd" where
  "CF_NODOUBLE d = d_const d (-12345) 100"

definition double_factor :: "char \<Rightarrow> int" where
  "double_factor c = unit_factor c"

definition Str2Double :: "'d real_ops \<Rightarrow> string option \<Rightarrow> ('d \<times> messages) res" where
  "Str2Double d s = (case s of
     None \<Rightarrow> Inr (CF_NODOUBLE d, [])
   | Some t \<Rightarrow>
       let (a, c, remainder) =
         (case scan_lf d t of
            None \<Rightarrow> (CF_NODOUBLE d, CHR ''X'', [])
          | Some (a, []) \<Rightarrow> (a, CHR ''X'', [])
          | Some (a, c # rest) \<Rightarrow> (a, c, takeWhile (\<lambda>x. \<not> c_isspace x) (dropWhile c_isspace rest)))
       in if length remainder \<ge> CF_BUFSIZE then Inl OutOfBounds
          else if d_eq d a (CF_NODOUBLE d) \<or> \<not> IsSpace remainder
          then Inr (a, report (''Error reading assumed real value '' @ t @ '' (anomalous remainder '' @ remainder @ '')'' @ [CHR 0x0A]))
          else if c = CHR ''%'' then
            if d_less d a (d_const d 0 1) \<or> d_less d (d_const d 100 1) a then Inr (d_const d CF_NOINT 1, [])
            else Inr (d_sub d (d_const d 0 1) a, [])
          else if c \<in> set ''kKmMgG'' then Inr (d_mul d (d_const d (double_factor c) 1) a, [])
          else Inr (a, []))"

definition real_bounds :: "'d real_ops \<Rightarrow> string \<Rightarrow> ('d \<times> 'd) res" where
  "real_bounds d rng = res_bind (SplitString rng CHR '','') (\<lambda>split. case split of
     [a, b] \<Rightarrow>
       let hi = d_const d CF_HIGHINIT 1; lo = d_const d CF_LOWINIT 1;
           mn = (case scan_lf d (name a) of None \<Rightarrow> hi | Some (v, _) \<Rightarrow> v);
           mx = (case scan_lf d (name b) of None \<Rightarrow> lo | Some (v, _) \<Rightarrow> v)
       in if d_eq d mn hi \<or> d_eq d mx lo then Inl FatalErrorExit else Inr (mn, mx)
   | _ \<Rightarrow> Inl FatalErrorExit)"

definition inf_message :: messages where
  "inf_message = [''keyword '' @ [CHR 0x22] @ ''inf'' @ [CHR 0x22] @ '' has an integer value, cannot be used as real'']"

definition CheckParseReal :: "'d real_ops \<Rightarrow> string \<Rightarrow> string option \<Rightarrow> string \<Rightarrow> messages res" where
  "CheckParseReal d lv s rng = (case s of
     None \<Rightarrow> Inr []
   | Some t \<Rightarrow>
       if strcmp t ''inf'' = 0 then Inr inf_message
       else if IsCf3VarString s \<noteq> 0 then Inr []
       else res_bind (real_bounds d rng) (\<lambda>(mn, mx).
         res_bind (Str2Double d s) (\<lambda>(v, msgs).
           if d_less d mx v \<or> d_less d v mn
           then Inr (msgs @ report (''Real item on rhs of lval '' @ squote @ lv @ squote @ '' give as {'' @ t @ '' => '' @ show_3f d v @
             ''} is out of bounds (should be in ['' @ rng @ ''])''))
           else Inr msgs)))"

text \<open>Unlike a range of integers, a range of reals is checked to its end.\<close>

fun real_range_loop :: "'d real_ops \<Rightarrow> string \<Rightarrow> string \<Rightarrow> string \<Rightarrow> 'd \<Rightarrow> 'd \<Rightarrow> Item list \<Rightarrow> messages res" where
  "real_range_loop d lv s rng mn mx [] = Inr []"
| "real_range_loop d lv s rng mn mx (ip # ips) =
     res_bind (Str2Double d (Some (name ip))) (\<lambda>(v, msgs).
     res_bind (real_range_loop d lv s rng mn mx ips) (\<lambda>more.
       Inr (msgs @ (if d_less d mx v \<or> d_less d v mn
         then report (''Real range item on rhs of lval '' @ squote @ lv @ squote @ '' give as {'' @ s @ '' => '' @ show_3f d v @
           ''} is out of bounds (should be in ['' @ rng @ ''])'')
         else []) @ more)))"

definition CheckParseRealRange :: "'d real_ops \<Rightarrow> string \<Rightarrow> string option \<Rightarrow> string \<Rightarrow> messages res" where
  "CheckParseRealRange d lv s rng = (case s of
     None \<Rightarrow> Inr []
   | Some t \<Rightarrow>
       if char_at t 0 \<in> set ''[('' then Inr brackets_message
       else if strcmp t ''inf'' = 0 then Inr inf_message
       else if IsCf3VarString s \<noteq> 0 then Inr []
       else res_bind (real_bounds d rng) (\<lambda>(mn, mx).
         res_bind (SplitString t CHR '','') (\<lambda>rangep.
           if length rangep \<noteq> 2
           then Inr (report (''Real range format specifier in lval '' @ lv @ '' should be of form '' @ [CHR 0x22] @ ''a,b'' @ [CHR 0x22] @
             '' but got '' @ show_nat (length rangep) @ '' items''))
           else real_range_loop d lv t rng mn mx rangep)))"

section \<open>Checks of values\<close>

definition CheckFnCallType :: "string \<Rightarrow> cfdatatype \<Rightarrow> messages" where
  "CheckFnCallType s dt = (case FindFunction s of
     None \<Rightarrow> report (''Unknown built-in function '' @ s @ ''()'')
   | Some fn \<Rightarrow>
       if dt = fn_dtype fn \<or>
         (fn_dtype fn, dt) \<in> set [(cf_str, cf_slist), (cf_int, cf_ilist), (cf_real, cf_rlist), (cf_opts, cf_olist), (cf_class, cf_clist)]
       then []
       else report (''function '' @ s @ ''() returns type '' @ CF_DATATYPES (fn_dtype fn) @ '' but lhs requires '' @ CF_DATATYPES dt))"

definition bundle_lvals :: "string list" where
  "bundle_lvals = [''bundlesequence'', ''edit_line'', ''edit_xml'', ''usebundle'', ''service_bundle'']"

text \<open>\<open>range\<close> is read as a text, whatever it is, except for bodies and bundles.\<close>

definition check_literal :: "(string \<Rightarrow> string \<Rightarrow> bool) \<Rightarrow> 'd real_ops \<Rightarrow> int \<Rightarrow> string \<Rightarrow> string \<Rightarrow> cfdatatype \<Rightarrow> attr_range \<Rightarrow> messages res" where
  "check_literal full_match d CFSTARTTIME lv t dt rng =
     (if dt \<in> set [cf_body, cf_bundle] then Inr []
      else if dt \<in> set [cf_counter, cf_notype] then Inl FatalErrorExit
      else (case rng of
        Pattern p \<Rightarrow>
          if dt \<in> set [cf_str, cf_slist] then Inr (snd (CheckParseString full_match lv (Some t) p))
          else if dt \<in> set [cf_int, cf_ilist] then CheckParseInt CFSTARTTIME lv (Some t) p
          else if dt \<in> set [cf_real, cf_rlist] then CheckParseReal d lv (Some t) p
          else if dt \<in> set [cf_opts, cf_olist] then CheckParseOpts lv (Some t) p
          else if dt \<in> set [cf_class, cf_clist] then Inr (snd (check_class full_match lv (Some t) p))
          else if dt = cf_irange then CheckParseIntRange CFSTARTTIME lv (Some t) p
          else CheckParseRealRange d lv (Some t) p
      | _ \<Rightarrow> Inl OutOfBounds))"

definition list_type :: "cfdatatype \<Rightarrow> bool" where
  "list_type dt \<longleftrightarrow> dt \<in> set [cf_slist, cf_ilist, cf_rlist, cf_clist, cf_olist]"

text \<open>A text given for a list is reported, and checked as an item all the same.\<close>

fun CheckConstraintTypeMatch :: "(string \<Rightarrow> string \<Rightarrow> bool) \<Rightarrow> 'd real_ops \<Rightarrow> int \<Rightarrow> string \<Rightarrow> rval \<Rightarrow> cfdatatype \<Rightarrow> attr_range \<Rightarrow> nat \<Rightarrow> messages res"
  and check_items :: "(string \<Rightarrow> string \<Rightarrow> bool) \<Rightarrow> 'd real_ops \<Rightarrow> int \<Rightarrow> string \<Rightarrow> rval list \<Rightarrow> cfdatatype \<Rightarrow> attr_range \<Rightarrow> messages res" where
  "CheckConstraintTypeMatch full_match d CFSTARTTIME lv (Scalar t) dt rng level =
     res_bind (check_literal full_match d CFSTARTTIME lv t dt rng) (\<lambda>msgs.
       Inr ((if list_type dt \<and> level = 0
             then report ('' !! Type mismatch -- rhs is a scalar, but lhs ('' @ CF_DATATYPES dt @ '') is not a scalar type'') else []) @ msgs))"
| "CheckConstraintTypeMatch full_match d CFSTARTTIME lv (ListVal l) dt rng level =
     res_bind (check_items full_match d CFSTARTTIME lv l dt rng) (\<lambda>msgs.
       Inr ((if list_type dt then [] else report (''!! Type mismatch -- rhs is a list, but lhs ('' @ CF_DATATYPES dt @ '') is not a list type'')) @ msgs))"
| "CheckConstraintTypeMatch full_match d CFSTARTTIME lv (Call f args) dt rng level =
     Inr (if IsStrIn lv bundle_lvals \<or> lv = [] then [] else CheckFnCallType f dt)"
| "CheckConstraintTypeMatch full_match d CFSTARTTIME lv NoScalar dt rng level = Inr []"
| "CheckConstraintTypeMatch full_match d CFSTARTTIME lv NoPromisee dt rng level = Inr []"
| "check_items full_match d CFSTARTTIME lv [] dt rng = Inr []"
| "check_items full_match d CFSTARTTIME lv (v # l) dt rng =
     res_bind (CheckConstraintTypeMatch full_match d CFSTARTTIME lv v dt rng 1) (\<lambda>msgs.
     res_bind (check_items full_match d CFSTARTTIME lv l dt rng) (\<lambda>more. Inr (msgs @ more)))"

definition StringDataType :: "nat \<Rightarrow> var_state \<Rightarrow> string \<Rightarrow> string \<Rightarrow> cfdatatype run" where
  "StringDataType n st scopeid s =
     (if char_at s 0 = CHR ''$'' then
        run_bind (Some (ExtractInnerCf3VarString (Some s))) (\<lambda>(found, v).
          if found then run_bind (GetVariable n st scopeid v) (\<lambda>(dt, _). ret (if length v = length s then dt else cf_str))
          else ret cf_str)
      else ret cf_str)"

section \<open>Checks of names\<close>

text \<open>The loop over a name with a dot in it: the number of dots, or \<open>None\<close> when the name is refused.\<close>

fun name_loop :: "string \<Rightarrow> int \<Rightarrow> int \<Rightarrow> int option" where
  "name_loop [] dots level = Some dots"
| "name_loop (c # s) dots level =
     (let dots' = (if c = CHR ''.'' then dots + 1 else dots);
          level' = (if c = CHR ''['' then level + 1 else if c = CHR '']'' then level - 1 else level)
      in if c = CHR ''.'' \<and> dots' > 1 \<and> level \<noteq> 1 then None
         else if level' > 1 then None
         else name_loop s dots' level')"

definition CheckParseVariableName :: "string \<Rightarrow> bool res" where
  "CheckParseVariableName nm =
     (if IsStrIn nm [''promiser'', ''handle'', ''promise_filename'', ''promise_linenumber'', ''this''] then Inr False
      else if CHR ''.'' \<in> set nm then
        (case name_loop nm 0 0 of
           None \<Rightarrow> Inr False
         | Some dots \<Rightarrow>
             if dots = 1 then
               let scopeid = takeWhile (\<lambda>c. c \<noteq> CHR ''.'') nm;
                   vlval = takeWhile (\<lambda>c. \<not> c_isspace c) (dropWhile c_isspace (drop (length scopeid + 1) nm))
               in if scopeid = [] then Inr False
                  else if length scopeid \<ge> CF_MAXVARSIZE \<or> length vlval \<ge> CF_MAXVARSIZE then Inl OutOfBounds
                  else if vlval = [] then Inl Uninitialised
                  else Inr True
             else Inr True)
      else Inr True)"

section \<open>Checks of constraints\<close>

text \<open>The bodies and bundles that the policy refers to, checked when all of it is read.\<close>

record references =
  BODYPARTS :: "rval list"
  SUBBUNDLES :: "rval list"

definition qualified_ref :: "string \<Rightarrow> string \<Rightarrow> string res" where
  "qualified_ref namespace nm =
     (if CHR '':'' \<in> set nm then if length nm < CF_BUFSIZE then Inr nm else Inl OutOfBounds
      else Inr (take (CF_BUFSIZE - 2) (namespace @ '':'' @ nm)))"

definition body_reference :: "string \<Rightarrow> rval \<Rightarrow> string res" where
  "body_reference namespace rv = (case rv of
     Scalar nm \<Rightarrow> qualified_ref namespace nm
   | Call nm _ \<Rightarrow> qualified_ref namespace nm
   | NoScalar \<Rightarrow> Inl NullDereference
   | _ \<Rightarrow> Inl Uninitialised)"

definition CheckConstraint :: "(string \<Rightarrow> string \<Rightarrow> bool) \<Rightarrow> 'd real_ops \<Rightarrow> int \<Rightarrow> references \<Rightarrow> string \<Rightarrow> string \<Rightarrow> string \<Rightarrow> rval \<Rightarrow> SubTypeSyntax option \<Rightarrow>
    (references \<times> messages) res" where
  "CheckConstraint full_match d CFSTARTTIME refs type namespace lv rv ss =
     (case (case ss of Some s \<Rightarrow> if strcmp (subtype s) type = 0 then attr_named lv (ss_bs s) else None | None \<Rightarrow> None) of
        Some a \<Rightarrow>
          if attr_dtype a = cf_body then
            res_bind (body_reference namespace rv) (\<lambda>fqname. Inr (refs\<lparr>BODYPARTS := PrependRlist (BODYPARTS refs) (Scalar fqname)\<rparr>, []))
          else if attr_dtype a = cf_bundle then Inr (refs\<lparr>SUBBUNDLES := PrependRlist (SUBBUNDLES refs) rv\<rparr>, [])
          else res_bind (CheckConstraintTypeMatch full_match d CFSTARTTIME lv rv (attr_dtype a) (attr_range a) 0) (\<lambda>msgs. Inr (refs, msgs))
      | None \<Rightarrow>
          if attr_named lv CF_COMMON_BODIES \<noteq> None \<or> attr_named lv CF_COMMON_EDITBODIES \<noteq> None \<or> attr_named lv CF_COMMON_XMLBODIES \<noteq> None
          then Inr (refs, [])
          else Inr (refs, report (''Constraint lvalue '' @ squote @ lv @ squote @ '' is not allowed in bundle category '' @ squote @ type @ squote)))"

text \<open>
  \<open>CheckSelection\<close> looks through the control bodies of that name and type, and then through the bodies of all promise types.
  The promise type is compared with the type of the body once for every entry.
\<close>

definition check_attr :: "(string \<Rightarrow> string \<Rightarrow> bool) \<Rightarrow> 'd real_ops \<Rightarrow> int \<Rightarrow> string \<Rightarrow> rval \<Rightarrow> BodySyntax \<Rightarrow> messages res" where
  "check_attr full_match d CFSTARTTIME lv rv a =
     (if attr_dtype a \<in> set [cf_body, cf_bundle] then Inr []
      else CheckConstraintTypeMatch full_match d CFSTARTTIME lv rv (attr_dtype a) (attr_range a) 0)"

definition select_entry :: "(string \<Rightarrow> string \<Rightarrow> bool) \<Rightarrow> 'd real_ops \<Rightarrow> int \<Rightarrow> string \<Rightarrow> string \<Rightarrow> rval \<Rightarrow> SubTypeSyntax \<Rightarrow> BodySyntax \<Rightarrow> messages res option" where
  "select_entry full_match d CFSTARTTIME type lv rv ss a =
     (if strcmp (subtype ss) type = 0 \<and> strcmp (subtype ss) ''*'' \<noteq> 0
      then Some (Inr (report (''lval '' @ lv @ '' belongs to promise type '' @ squote @ subtype ss @ '':'' @ squote @ '' but this is '' @ squote @ type @ squote @ [CHR 0x0A])))
      else if strcmp lv (attr_lval a) = 0
      then Some (CheckConstraintTypeMatch full_match d CFSTARTTIME lv rv (attr_dtype a) (attr_range a) 0)
      else None)"

fun body_entries :: "BodySyntax \<Rightarrow> BodySyntax list" where
  "body_entries (Attr l dt rng) = (if dt = cf_body then (case rng of Table bs2 \<Rightarrow> bs2 | _ \<Rightarrow> []) else [])"

definition CheckSelection :: "(string \<Rightarrow> string \<Rightarrow> bool) \<Rightarrow> 'd real_ops \<Rightarrow> int \<Rightarrow> string \<Rightarrow> string \<Rightarrow> string \<Rightarrow> rval \<Rightarrow> messages res" where
  "CheckSelection full_match d CFSTARTTIME type nm lv rv =
     (case first_some (\<lambda>b. if strcmp (subtype b) nm = 0 \<and> strcmp type (bundle_type b) = 0 then attr_named lv (ss_bs b) else None) CF_ALL_BODIES of
        Some a \<Rightarrow> check_attr full_match d CFSTARTTIME lv rv a
      | None \<Rightarrow>
          (case first_some (\<lambda>ss. first_some (select_entry full_match d CFSTARTTIME type lv rv ss) (concat (map body_entries (ss_bs ss))))
              (concat CF_ALL_SUBTYPES) of
             Some r \<Rightarrow> r
           | None \<Rightarrow> Inr (report (''Constraint lvalue '' @ [CHR 0x22] @ lv @ [CHR 0x22] @ '' is not allowed in '' @ squote @ type @ squote @ '' constraint body''))))"

section \<open>The tables are sound\<close>

text \<open>The range of an attribute can be read as its type asks for.  \<open>reals\<close> are the texts of bounds that \<open>scan_lf\<close> has to read.\<close>

definition int_range_ok :: "string \<Rightarrow> bool" where
  "int_range_ok p \<longleftrightarrow> (case int_bounds p of Inr _ \<Rightarrow> True | Inl _ \<Rightarrow> False)"

definition reads_reals :: "'d real_ops \<Rightarrow> bool" where
  "reads_reals d \<longleftrightarrow> (\<forall>p \<in> {''0,1'', CF_REALRANGE}. \<exists>b. real_bounds d p = Inr b)"

fun attr_ok :: "BodySyntax \<Rightarrow> bool" where
  "attr_ok (Attr l dt rng) = (case rng of
     Table attrs \<Rightarrow> dt = cf_body \<and> list_all attr_ok attrs
   | BundleRange \<Rightarrow> dt = cf_bundle
   | Pattern p \<Rightarrow>
       if dt \<in> {cf_int, cf_ilist, cf_irange} then int_range_ok p
       else if dt \<in> {cf_real, cf_rlist, cf_rrange} then p \<in> {''0,1'', CF_REALRANGE}
       else dt \<in> {cf_str, cf_slist, cf_opts, cf_olist, cf_class, cf_clist})"

lemma int_range_okI:
  assumes "SplitString p CHR '','' = Inr [new_item a x, new_item b y]" "scan_or CF_HIGHINIT a \<noteq> CF_HIGHINIT"
    and "b = ''inf'' \<or> scan_or CF_LOWINIT b \<noteq> CF_LOWINIT"
  shows "int_range_ok p"
  using assms by (auto simp: int_range_ok_def int_bounds_def new_item_def CF_INFINITY_def CF_LOWINIT_def Let_def)

lemmas split_simps = SplitString_def CF_BUFSIZE_def AppendItem_def

lemmas scan_simps = scan_or_def scan_int_def strtol10_def c_isspace_def c_isdigit_def read_nat_def LONG_MAX_def LONG_MIN_def
  digit_value_def CF_HIGHINIT_def CF_LOWINIT_def

lemma int_ranges [simp]: "int_range_ok CF_VALRANGE" "int_range_ok CF_INTRANGE" "int_range_ok CF_TIMERANGE" "int_range_ok ''0,inf''"
  by (rule int_range_okI, simp add: split_simps CF_VALRANGE_def CF_INTRANGE_def CF_TIMERANGE_def, simp add: scan_simps, simp add: scan_simps)+

lemma int_range_texts [simp]:
  "int_range_ok ''0,60''" "int_range_ok ''1024,99999''" "int_range_ok ''1,9999''" "int_range_ok ''0,1000''" "int_range_ok ''0,10080''" "int_range_ok ''1,3600''" "int_range_ok ''0,99999999''" "int_range_ok ''0,99''" "int_range_ok ''-20,+20''"
  by (rule int_range_okI, simp add: split_simps, simp add: scan_simps, simp add: scan_simps)+

text \<open>One table after the other; the tables of bodies come first.\<close>

lemma tables_ok_0_0 [simp]:
  "list_all attr_ok CF_PRINTFILE_BODY"
  "list_all attr_ok CF_TRANSACTION_BODY"
  "list_all attr_ok CF_DEFINECLASS_BODY"
  "list_all attr_ok CF_VARBODY"
  "list_all attr_ok CF_METABODY"
  "list_all attr_ok CF_DEFAULTSBODY"
  "list_all attr_ok CF_CLASSBODY"
  "list_all attr_ok CFG_CONTROLBODY"
  unfolding CF_PRINTFILE_BODY_def CF_TRANSACTION_BODY_def CF_DEFINECLASS_BODY_def CF_VARBODY_def CF_METABODY_def CF_DEFAULTSBODY_def CF_CLASSBODY_def CFG_CONTROLBODY_def by simp_all

lemma tables_ok_0_1 [simp]:
  "list_all attr_ok CFA_CONTROLBODY"
  "list_all attr_ok CFS_CONTROLBODY"
  "list_all attr_ok CFM_CONTROLBODY"
  "list_all attr_ok CFR_CONTROLBODY"
  "list_all attr_ok CFEX_CONTROLBODY"
  "list_all attr_ok CFK_CONTROLBODY"
  "list_all attr_ok CFRE_CONTROLBODY"
  "list_all attr_ok CFH_CONTROLBODY"
  unfolding CFA_CONTROLBODY_def CFS_CONTROLBODY_def CFM_CONTROLBODY_def CFR_CONTROLBODY_def CFEX_CONTROLBODY_def CFK_CONTROLBODY_def CFRE_CONTROLBODY_def CFH_CONTROLBODY_def by simp_all

lemma tables_ok_0_2 [simp]:
  "list_all attr_ok CFFILE_CONTROLBODY"
  "list_all attr_ok CF_EXECCONTAIN_BODY"
  "list_all attr_ok CF_SQLSERVER_BODY"
  "list_all attr_ok CF_RESOURCE_BODY"
  "list_all attr_ok CF_DESIGNATION_BODY"
  "list_all attr_ok CF_LOCATION_BODY"
  "list_all attr_ok CF_EDITCOL_BODY"
  "list_all attr_ok CF_REPLACEWITH_BODY"
  unfolding CFFILE_CONTROLBODY_def CF_EXECCONTAIN_BODY_def CF_SQLSERVER_BODY_def CF_RESOURCE_BODY_def CF_DESIGNATION_BODY_def CF_LOCATION_BODY_def CF_EDITCOL_BODY_def CF_REPLACEWITH_BODY_def by simp_all

lemma tables_ok_0_3 [simp]:
  "list_all attr_ok CF_EDSCOPE_BODY"
  "list_all attr_ok CF_DELETESELECT_BODY"
  "list_all attr_ok CF_INSERTSELECT_BODY"
  "list_all attr_ok CF_ACL_BODY"
  "list_all attr_ok CF_CHANGEMGT_BODY"
  "list_all attr_ok CF_RECURSION_BODY"
  "list_all attr_ok CF_EDITS_BODY"
  "list_all attr_ok CF_TIDY_BODY"
  unfolding CF_EDSCOPE_BODY_def CF_DELETESELECT_BODY_def CF_INSERTSELECT_BODY_def CF_ACL_BODY_def CF_CHANGEMGT_BODY_def CF_RECURSION_BODY_def CF_EDITS_BODY_def CF_TIDY_BODY_def by simp_all

lemma tables_ok_0_4 [simp]:
  "list_all attr_ok CF_RENAME_BODY"
  "list_all attr_ok CF_ACCESS_BODIES"
  "list_all attr_ok CF_FILEFILTER_BODY"
  "list_all attr_ok CF_LINKTO_BODY"
  "list_all attr_ok CF_COPYFROM_BODY"
  "list_all attr_ok CF_COMMON_XMLBODIES"
  "list_all attr_ok CF_INSERTTAGS_BODIES"
  "list_all attr_ok CF_DELETETAGS_BODIES"
  unfolding CF_RENAME_BODY_def CF_ACCESS_BODIES_def CF_FILEFILTER_BODY_def CF_LINKTO_BODY_def CF_COPYFROM_BODY_def CF_COMMON_XMLBODIES_def CF_INSERTTAGS_BODIES_def CF_DELETETAGS_BODIES_def by simp_all

lemma tables_ok_0_5 [simp]:
  "list_all attr_ok CF_INSERTATTRIBUTES_BODIES"
  "list_all attr_ok CF_DELETEATTRIBUTES_BODIES"
  "list_all attr_ok CF_TCPIP_BODY"
  "list_all attr_ok CF_METHOD_BODIES"
  "list_all attr_ok CF_OUTPUTS_BODIES"
  "list_all attr_ok CF_PKGMETHOD_BODY"
  "list_all attr_ok CF_MATCHCLASS_BODY"
  "list_all attr_ok CF_PROCFILTER_BODY"
  unfolding CF_INSERTATTRIBUTES_BODIES_def CF_DELETEATTRIBUTES_BODIES_def CF_TCPIP_BODY_def CF_METHOD_BODIES_def CF_OUTPUTS_BODIES_def CF_PKGMETHOD_BODY_def CF_MATCHCLASS_BODY_def CF_PROCFILTER_BODY_def by simp_all

lemma tables_ok_0_6 [simp]:
  "list_all attr_ok CF_SERVMETHOD_BODY"
  "list_all attr_ok CF_CHECKVOL_BODY"
  "list_all attr_ok CF_MOUNT_BODY"
  "list_all attr_ok CF_REMACCESS_BODIES"
  "list_all attr_ok CF_REMROLE_BODIES"
  "list_all attr_ok CF_RELATE_BODY"
  "list_all attr_ok CF_OCCUR_BODIES"
  "list_all attr_ok CF_THING_BODIES"
  unfolding CF_SERVMETHOD_BODY_def CF_CHECKVOL_BODY_def CF_MOUNT_BODY_def CF_REMACCESS_BODIES_def CF_REMROLE_BODIES_def CF_RELATE_BODY_def CF_OCCUR_BODIES_def CF_THING_BODIES_def by simp_all

lemma tables_ok_0_7 [simp]:
  "list_all attr_ok CF_INFER_BODIES"
  "list_all attr_ok CF_MATCHVALUE_BODY"
  unfolding CF_INFER_BODIES_def CF_MATCHVALUE_BODY_def by simp_all

lemma tables_ok_1_0 [simp]:
  "list_all attr_ok CF_REPORT_BODIES"
  "list_all attr_ok CF_COMMON_BODIES"
  "list_all attr_ok CF_EXEC_BODIES"
  "list_all attr_ok CF_DATABASES_BODIES"
  "list_all attr_ok CF_ENVIRON_BODIES"
  "list_all attr_ok CF_INSERTLINES_BODIES"
  "list_all attr_ok CF_DELETELINES_BODIES"
  "list_all attr_ok CF_COLUMN_BODIES"
  unfolding CF_REPORT_BODIES_def CF_COMMON_BODIES_def CF_EXEC_BODIES_def CF_DATABASES_BODIES_def CF_ENVIRON_BODIES_def CF_INSERTLINES_BODIES_def CF_DELETELINES_BODIES_def CF_COLUMN_BODIES_def by simp_all

lemma tables_ok_1_1 [simp]:
  "list_all attr_ok CF_REPLACE_BODIES"
  "list_all attr_ok CF_COMMON_EDITBODIES"
  "list_all attr_ok CF_FILES_BODIES"
  "list_all attr_ok CF_INTERFACES_BODIES"
  "list_all attr_ok CF_PACKAGES_BODIES"
  "list_all attr_ok CF_PROCESS_BODIES"
  "list_all attr_ok CF_SERVICES_BODIES"
  "list_all attr_ok CF_STORAGE_BODIES"
  unfolding CF_REPLACE_BODIES_def CF_COMMON_EDITBODIES_def CF_FILES_BODIES_def CF_INTERFACES_BODIES_def CF_PACKAGES_BODIES_def CF_PROCESS_BODIES_def CF_SERVICES_BODIES_def CF_STORAGE_BODIES_def by simp_all

lemma tables_ok_1_2 [simp]:
  "list_all attr_ok CF_TOPICS_BODIES"
  "list_all attr_ok CF_MEASURE_BODIES"
  unfolding CF_TOPICS_BODIES_def CF_MEASURE_BODIES_def by simp_all

text \<open>All attributes: of the promises, of the bodies they point to, and of the control bodies.\<close>

definition syntax_attrs :: "BodySyntax list" where
  "syntax_attrs = concat (map ss_bs (concat CF_ALL_SUBTYPES @ CF_ALL_BODIES)) @ CF_COMMON_EDITBODIES @ CF_COMMON_XMLBODIES"

lemma syntax_attrs_ok: "list_all attr_ok syntax_attrs"
  by (simp add: syntax_attrs_def CF_ALL_SUBTYPES_def CF_ALL_BODIES_def CF_COMMON_SUBTYPES_def CF_EXEC_SUBTYPES_def CF_DATABASES_SUBTYPES_def CF_ENVIRONMENT_SUBTYPES_def CF_FILES_SUBTYPES_def CF_INTERFACES_SUBTYPES_def CF_METHOD_SUBTYPES_def CF_OUTPUTS_SUBTYPES_def CF_PACKAGES_SUBTYPES_def CF_PROCESS_SUBTYPES_def CF_SERVICES_SUBTYPES_def CF_STORAGE_SUBTYPES_def CF_REMACCESS_SUBTYPES_def CF_KNOWLEDGE_SUBTYPES_def CF_MEASUREMENT_SUBTYPES_def)

lemma body_entries_ok: "attr_ok a \<Longrightarrow> list_all attr_ok (body_entries a)"
  by (cases a) (auto split: attr_range.splits)

section \<open>No internal error\<close>

definition not_fatal :: "'a res \<Rightarrow> bool" where
  "not_fatal r \<longleftrightarrow> r \<noteq> Inl FatalErrorExit"

lemma not_fatal_Inr [simp]: "not_fatal (Inr x)"
  by (simp add: not_fatal_def)

lemma not_fatal_bind: "not_fatal r \<Longrightarrow> (\<And>x. r = Inr x \<Longrightarrow> not_fatal (f x)) \<Longrightarrow> not_fatal (res_bind r f)"
  by (cases r) (auto simp: not_fatal_def res_bind_def)

lemma not_fatal_if: "(b \<Longrightarrow> not_fatal r) \<Longrightarrow> (\<not> b \<Longrightarrow> not_fatal s) \<Longrightarrow> not_fatal (if b then r else s)"
  by simp

lemma split_not_fatal [simp]: "not_fatal (SplitString s sep)"
proof -
  have "not_fatal (split_loop sep s prev before l)" for prev before l
    by (induction sep s prev before l rule: split_loop.induct) (auto simp: not_fatal_def)
  then show ?thesis by (simp add: SplitString_def)
qed

lemma Str2Int_not_fatal [simp]: "not_fatal (Str2Int T s)"
  by (auto simp: Str2Int_def not_fatal_def long_res_def split: option.split prod.split)

lemma Str2Double_not_fatal [simp]: "not_fatal (Str2Double d s)"
  by (auto simp: Str2Double_def not_fatal_def Let_def split: option.split prod.split)

lemma int_bounds_not_fatal: "int_range_ok p \<Longrightarrow> not_fatal (int_bounds p)"
  by (auto simp: int_range_ok_def not_fatal_def split: sum.splits)

lemma real_bounds_not_fatal: "reads_reals d \<Longrightarrow> p \<in> {''0,1'', CF_REALRANGE} \<Longrightarrow> not_fatal (real_bounds d p)"
  by (auto simp: reads_reals_def not_fatal_def)

lemma int_range_loop_not_fatal [simp]: "not_fatal (int_range_loop T lv s p mn mx ips)"
  by (induction ips) (auto intro!: not_fatal_bind)

lemma real_range_loop_not_fatal [simp]: "not_fatal (real_range_loop d lv s p mn mx ips)"
  by (induction ips) (auto intro!: not_fatal_bind)

lemma CheckParseInt_not_fatal: "int_range_ok p \<Longrightarrow> not_fatal (CheckParseInt T lv s p)"
  by (auto simp: CheckParseInt_def split: option.split intro!: not_fatal_bind int_bounds_not_fatal)

lemma CheckParseIntRange_not_fatal: "int_range_ok p \<Longrightarrow> not_fatal (CheckParseIntRange T lv s p)"
  by (auto simp: CheckParseIntRange_def split: option.split intro!: not_fatal_bind int_bounds_not_fatal)

lemma CheckParseReal_not_fatal: "reads_reals d \<Longrightarrow> p \<in> {''0,1'', CF_REALRANGE} \<Longrightarrow> not_fatal (CheckParseReal d lv s p)"
  unfolding CheckParseReal_def
  by (auto split: option.split intro!: not_fatal_bind real_bounds_not_fatal)

lemma CheckParseRealRange_not_fatal: "reads_reals d \<Longrightarrow> p \<in> {''0,1'', CF_REALRANGE} \<Longrightarrow> not_fatal (CheckParseRealRange d lv s p)"
  unfolding CheckParseRealRange_def
  by (auto split: option.split intro!: not_fatal_bind real_bounds_not_fatal)

lemma CheckParseOpts_not_fatal [simp]: "not_fatal (CheckParseOpts lv s p)"
  by (auto simp: CheckParseOpts_def split: option.split intro!: not_fatal_bind)

lemmas checks_not_fatal = CheckParseInt_not_fatal CheckParseIntRange_not_fatal CheckParseReal_not_fatal CheckParseRealRange_not_fatal

lemma check_literal_not_fatal:
  assumes "attr_ok a" "reads_reals d"
  shows "not_fatal (check_literal full_match d T lv t (attr_dtype a) (attr_range a))"
proof (cases a)
  case (Attr l dt rng)
  show ?thesis
  proof (cases rng)
    case (Pattern p)
    with Attr assms show ?thesis
      by (cases dt) (auto simp: check_literal_def intro!: checks_not_fatal)
  qed (use Attr assms in \<open>auto simp: check_literal_def\<close>)
qed

lemma check_value_not_fatal:
  assumes "attr_ok a"
  shows "reads_reals d \<longrightarrow> dt = attr_dtype a \<longrightarrow> rng = attr_range a \<longrightarrow>
      not_fatal (CheckConstraintTypeMatch full_match d T lv rv dt rng level)"
    and "reads_reals d \<longrightarrow> dt = attr_dtype a \<longrightarrow> rng = attr_range a \<longrightarrow> not_fatal (check_items full_match d T lv l dt rng)"
  by (induction full_match d T lv rv dt rng level and full_match d T lv l dt rng rule: CheckConstraintTypeMatch_check_items.induct)
     (auto intro!: not_fatal_bind check_literal_not_fatal assms)

lemma CheckConstraintTypeMatch_not_fatal:
  "attr_ok a \<Longrightarrow> reads_reals d \<Longrightarrow> not_fatal (CheckConstraintTypeMatch full_match d T lv rv (attr_dtype a) (attr_range a) level)"
  using check_value_not_fatal(1) by blast

lemma first_some_in: "first_some f xs = Some y \<Longrightarrow> \<exists>x \<in> set xs. f x = Some y"
  by (induction xs) (auto split: option.splits)

lemma attr_named_in: "attr_named lv attrs = Some a \<Longrightarrow> a \<in> set attrs"
  by (auto simp: attr_named_def find_Some_iff)

text \<open>The ranges of all tables can be read, so no check fails on them.\<close>

lemma syntax_checks_not_fatal:
  assumes "reads_reals d"
  shows "not_fatal (CheckSelection full_match d T type nm lv rv) \<and>
    not_fatal (CheckConstraint full_match d T refs type namespace lv rv (SubTypeSyntaxLookup btype sub))"
proof
  have attrs: "attr_ok a" if "a \<in> set (ss_bs ss)" "ss \<in> set (concat CF_ALL_SUBTYPES @ CF_ALL_BODIES)" for a ss
    using syntax_attrs_ok that by (auto simp: list_all_iff syntax_attrs_def)
  have check: "not_fatal (check_attr full_match d T lv rv a)" if "attr_ok a" for a
    using CheckConstraintTypeMatch_not_fatal [OF that assms] by (simp add: check_attr_def)
  have entry: "not_fatal r" if "select_entry full_match d T type lv rv ss a = Some r" "attr_ok a" for ss a r
    using that CheckConstraintTypeMatch_not_fatal [OF that(2) assms] by (auto simp: select_entry_def split: if_splits)
  show "not_fatal (CheckSelection full_match d T type nm lv rv)"
    unfolding CheckSelection_def
    using attrs body_entries_ok
    by (auto split: option.split intro!: check entry
        dest!: first_some_in attr_named_in split: if_splits simp: list_all_iff) blast+
next
  have found: "attr_ok a" if "SubTypeSyntaxLookup btype sub = Some ss" "attr_named lv (ss_bs ss) = Some a" for ss a
  proof -
    from that(1) have "ss \<in> set (concat CF_ALL_SUBTYPES)" unfolding SubTypeSyntaxLookup_def find_Some_iff by (metis nth_mem)
    then show ?thesis using attr_named_in [OF that(2)] syntax_attrs_ok by (auto simp: list_all_iff syntax_attrs_def)
  qed
  have ref: "not_fatal (body_reference namespace rv)"
    by (auto simp: body_reference_def qualified_ref_def not_fatal_def split: rval.split)
  show "not_fatal (CheckConstraint full_match d T refs type namespace lv rv (SubTypeSyntaxLookup btype sub))"
    unfolding CheckConstraint_def
    using found by (auto split: option.split intro!: not_fatal_bind ref CheckConstraintTypeMatch_not_fatal [OF _ assms])
qed

lemma check_outcome_fatal:
  assumes "not_fatal r"
  shows "check_outcome PARSING n r = Inl FatalErrorExit \<longleftrightarrow> (\<exists>msgs. r = Inr msgs \<and> msgs \<noteq> [] \<and> (\<not> PARSING \<or> n + length msgs > 10))"
  using assms by (cases r) (auto simp: check_outcome_def ReportErrors_eq not_fatal_def)


text \<open>Reals as integers, cut at the point.\<close>

definition whole_reals :: "int real_ops" where
  "whole_reals = \<lparr>d_const = (div), d_add = (+), d_sub = (-), d_mul = (*), d_less = (<), d_isfinite = (\<lambda>_. True), d_trunc = id,
     scan_lf = scan_int, d_eq = (=), show_3f = show_int\<rparr>"

lemma whole_reals_read: "reads_reals whole_reals"
proof -
  have split: "SplitString ''0,1'' CHR '','' = Inr [new_item ''0'' None, new_item ''1'' (Some [])]"
    "SplitString CF_REALRANGE CHR '','' = Inr [new_item ''-9.99999E100'' None, new_item ''9.99999E100'' (Some [])]"
    by (simp_all add: split_simps CF_REALRANGE_def)
  show ?thesis
    unfolding reads_reals_def real_bounds_def
    by (simp add: split whole_reals_def new_item_def scan_simps)
qed


section \<open>The type of a body\<close>

lemma first_some_find: "first_some (\<lambda>a. if P a then Some (f a) else None) xs = map_option f (List.find P xs)"
  by (induction xs) auto

lemma first_some_nested: "first_some (\<lambda>x. first_some f (g x)) xs = first_some f (concat (map g xs))"
proof -
  have append: "first_some f (ys @ zs) = (case first_some f ys of Some y \<Rightarrow> Some y | None \<Rightarrow> first_some f zs)" for ys zs
    by (induction ys) (auto split: option.split)
  show ?thesis by (induction xs) (auto simp: append split: option.split)
qed

lemma first_some_cong: "(\<And>x. x \<in> set xs \<Longrightarrow> f x = g x) \<Longrightarrow> first_some f xs = first_some g xs"
  by (induction xs) (auto split: option.split)

definition all_body_attrs :: "BodySyntax list" where
  "all_body_attrs = concat (map (\<lambda>ss. concat (map body_entries (ss_bs ss))) (concat CF_ALL_SUBTYPES))"

lemma control_bodies: "b \<in> set CF_ALL_BODIES \<Longrightarrow> subtype b = ''control''"
  by (auto simp: CF_ALL_BODIES_def)


text \<open>An attribute of an \<open>action\<close> body in a \<open>link_from\<close> body.\<close>

lemma attr_named_append: "attr_named lv (xs @ ys) = (case attr_named lv xs of Some a \<Rightarrow> Some a | None \<Rightarrow> attr_named lv ys)"
  by (induction xs) (auto simp: attr_named_def)


end
