(* ===== verification/CF_Export.thy ===== *)
theory CF_Export
  imports CF_Syntax CF_JsonText
begin

text \<open>
  The syntax tables and the policy as JSON, and the policy as text (\<open>src/syntax.c\<close>).  An element is built by a list of steps
  on an empty object or array.
\<close>

section \<open>The syntax tables as JSON\<close>

fun build :: "JsonElement \<Rightarrow> (JsonElement \<Rightarrow> JsonElement res) list \<Rightarrow> JsonElement res" where
  "build e [] = Inr e"
| "build e (f # fs) = res_bind (f e) (\<lambda>e'. build e' fs)"

definition put_string :: "string \<Rightarrow> string \<Rightarrow> JsonElement \<Rightarrow> JsonElement res" where
  "put_string k v e = JsonObjectAppendString e (Some k) (Some v)"

definition put_array :: "string \<Rightarrow> JsonElement res \<Rightarrow> JsonElement \<Rightarrow> JsonElement res" where
  "put_array k a e = res_bind a (\<lambda>a'. JsonObjectAppendArray e (Some k) a')"

definition put_object :: "string \<Rightarrow> JsonElement res \<Rightarrow> JsonElement \<Rightarrow> JsonElement res" where
  "put_object k obj e = res_bind obj (\<lambda>o'. JsonObjectAppendObject e (Some k) o')"

definition add_string :: "string \<Rightarrow> JsonElement \<Rightarrow> JsonElement res" where
  "add_string v e = JsonArrayAppendString e (Some v)"

definition add_object :: "JsonElement res \<Rightarrow> JsonElement \<Rightarrow> JsonElement res" where
  "add_object obj e = res_bind obj (\<lambda>o'. JsonArrayAppendObject e o')"

text \<open>A \<open>size_t\<close> is handed over as an \<open>int\<close>.\<close>

definition put_offset :: "string \<Rightarrow> int \<Rightarrow> JsonElement \<Rightarrow> JsonElement res" where
  "put_offset k n e = JsonObjectAppendInteger e (Some k) (sint (word_of_int n :: 32 word))"

fun PCREStringToJsonString :: "string \<Rightarrow> string" where
  "PCREStringToJsonString [] = []"
| "PCREStringToJsonString (c # s) =
     (if c = CHR 0x22 \<or> c = CHR 0x27 \<or> c = CHR 0x5C then [CHR 0x5C, c] else [c]) @ PCREStringToJsonString s"

definition strtok_all :: "char \<Rightarrow> string \<Rightarrow> string list" where
  "strtok_all sep s = filter (\<lambda>t. t \<noteq> []) (split_at sep s)"

lemma size_list_member: "x \<in> set l \<Longrightarrow> size x < size_list size l"
  by (induction l) auto

definition attribute_json :: "cfdatatype \<Rightarrow> string \<Rightarrow> JsonElement res" where
  "attribute_json dt rng =
     build (JsonObjectCreate 10)
       [put_string ''datatype'' (CF_DATATYPES dt),
        if length rng = 0 then put_string ''pcre-range'' ''.*''
        else if dt = cf_opts \<or> dt = cf_olist
        then put_array ''pcre-range''
          (if length rng < CF_BUFSIZE then build (JsonArrayCreate 10) (map add_string (strtok_all CHR '','' rng)) else Inl OutOfBounds)
        else put_string ''pcre-range'' (PCREStringToJsonString rng)]"

function ExportAttributesSyntaxAsJson :: "BodySyntax list \<Rightarrow> JsonElement res"
  and attribute_step :: "BodySyntax \<Rightarrow> JsonElement \<Rightarrow> JsonElement res" where
  "ExportAttributesSyntaxAsJson attributes = build (JsonObjectCreate 10) (map attribute_step attributes)"
| "attribute_step (Attr lv dt rng) e = (case rng of
     BundleRange \<Rightarrow> Inr e
   | Table attrs \<Rightarrow> if dt = cf_body then put_object lv (ExportAttributesSyntaxAsJson attrs) e else Inl OutOfBounds
   | Pattern p \<Rightarrow> if dt = cf_body then Inl OutOfBounds else put_object lv (attribute_json dt p) e)"
  by pat_completeness auto
termination
  by (relation "measure (\<lambda>x. case x of Inl as \<Rightarrow> Suc (size_list size as) | Inr (a, _) \<Rightarrow> size a)")
     (auto simp: size_list_estimation' less_Suc_eq_le)

declare ExportAttributesSyntaxAsJson.simps [simp del] attribute_step.simps [simp del]

definition ExportBundleTypeSyntaxAsJson :: "string \<Rightarrow> JsonElement res" where
  "ExportBundleTypeSyntaxAsJson type =
     build (JsonObjectCreate 10)
       (map (\<lambda>st. put_object (subtype st) (ExportAttributesSyntaxAsJson (ss_bs st)))
         (filter (\<lambda>st. strcmp type (bundle_type st) = 0 \<or> strcmp ''*'' (bundle_type st) = 0) (concat CF_ALL_SUBTYPES)))"

definition ExportControlBodiesSyntaxAsJson :: "JsonElement res" where
  "ExportControlBodiesSyntaxAsJson =
     build (JsonObjectCreate 10) (map (\<lambda>b. put_object (bundle_type b) (ExportAttributesSyntaxAsJson (ss_bs b))) CF_ALL_BODIES)"

definition SyntaxPrintAsJson :: "string res" where
  "SyntaxPrintAsJson =
     res_bind (build (JsonObjectCreate 10)
       [put_object ''control-bodies'' ExportControlBodiesSyntaxAsJson,
        put_object ''bundle-types'' (build (JsonObjectCreate 10)
          (map (\<lambda>b. put_object (bundle_type b) (ExportBundleTypeSyntaxAsJson (bundle_type b))) CF_ALL_BODIES))])
     (\<lambda>tree. JsonElementPrint tree 0)"

section \<open>A policy as JSON\<close>

function ExportAttributeValueAsJson :: "rval \<Rightarrow> JsonElement res"
  and values_json :: "rval list \<Rightarrow> JsonElement res" where
  "ExportAttributeValueAsJson v = (case v of
     Scalar s \<Rightarrow> build (JsonObjectCreate 10) [put_string ''type'' ''string'', put_string ''value'' (EscapeQuotes s (int CF_BUFSIZE))]
   | ListVal l \<Rightarrow> build (JsonObjectCreate 10) [put_string ''type'' ''list'', put_array ''value'' (values_json l)]
   | Call f args \<Rightarrow> build (JsonObjectCreate 10)
       [put_string ''type'' ''function-call'', put_string ''name'' f, put_array ''arguments'' (values_json args)]
   | NoScalar \<Rightarrow> Inl NullDereference
   | NoPromisee \<Rightarrow> Inl FatalErrorExit)"
| "values_json l = build (JsonArrayCreate 10) (map (\<lambda>v. add_object (ExportAttributeValueAsJson v)) l)"
  by pat_completeness auto
termination
  by (relation "measure (\<lambda>x. case x of Inl v \<Rightarrow> 2 * size v | Inr l \<Rightarrow> 2 * size_list size l + 1)")
     (auto dest!: size_list_member)

declare ExportAttributeValueAsJson.simps [simp del] values_json.simps [simp del]

text \<open>A context: the classes, where its text starts and ends; its children are all in one array.\<close>

type_synonym context_head = "string \<times> int \<times> int"

definition CreateContextAsJson :: "string \<Rightarrow> context_head \<Rightarrow> JsonElement res \<Rightarrow> JsonElement res" where
  "CreateContextAsJson children_name head kids = (case head of (nm, offset, offset_end) \<Rightarrow>
     build (JsonObjectCreate 10)
       [put_string ''name'' nm, put_offset ''offset'' offset, put_offset ''offset-end'' offset_end, put_array children_name kids])"

definition constraint_json :: "Constraint \<Rightarrow> JsonElement res" where
  "constraint_json cp = build (JsonObjectCreate 10)
     [put_offset ''offset'' (int (off_start (con_offset cp))), put_offset ''offset-end'' (int (off_end (con_offset cp))),
      put_string ''lval'' (con_lval cp), put_object ''rval'' (ExportAttributeValueAsJson (con_rval cp))]"

text \<open>
  The contexts of a list of constraints.  A context ends where the classes of the next constraint differ from its name, and
  takes as its name the classes of the constraint that ended the one before.
\<close>

fun body_contexts :: "string option \<Rightarrow> Constraint list \<Rightarrow> context_head list res" where
  "body_contexts current [] = Inr []"
| "body_contexts current [cp] = (case current of
     None \<Rightarrow> Inl AssertionFailed
   | Some cur \<Rightarrow> Inr [(cur, int (off_context (con_offset cp)), int (off_end (con_offset cp)))])"
| "body_contexts current (cp # cq # cs) = (case (current, con_classes cq) of
     (Some cur, Some cl) \<Rightarrow>
       if strcmp cur cl \<noteq> 0 then res_bind (body_contexts (con_classes cp) (cq # cs)) (\<lambda>rest.
         Inr ((cur, int (off_context (con_offset cp)), int (off_end (con_offset cp))) # rest))
       else body_contexts current (cq # cs)
   | _ \<Rightarrow> Inl NullDereference)"

text \<open>
  The array of children is made once and appended to every context.  To follow who frees it, the arrays of children are numbered as they are
  made: beside a tree stand the numbers of the arrays that hang in it, once for every place where they do, and the next number to be given.
  All other nodes hang in the one place they were made for.
\<close>

type_synonym tracked = "JsonElement \<times> nat list \<times> nat"

definition contexts_json :: "string \<Rightarrow> context_head list \<Rightarrow> JsonElement res \<Rightarrow> nat \<Rightarrow> tracked res" where
  "contexts_json children_name heads kids next =
     res_bind (build (JsonArrayCreate 10) (map (\<lambda>h. add_object (CreateContextAsJson children_name h kids)) heads)) (\<lambda>e.
       Inr (e, map (\<lambda>h. next) heads, next + 1))"

text \<open>The destruction of a tree frees the arrays at every place where they hang.\<close>

fun free_arrays :: "nat list \<Rightarrow> nat list \<Rightarrow> unit res" where
  "free_arrays freed [] = Inr ()"
| "free_arrays freed (a # as) = (if a \<in> set freed then Inl UseAfterFree else free_arrays (a # freed) as)"

definition ExportBodyClassesAsJson :: "Constraint list \<Rightarrow> nat \<Rightarrow> tracked res" where
  "ExportBodyClassesAsJson cs next =
     res_bind (body_contexts (Some ''any'') cs) (\<lambda>heads.
       contexts_json ''attributes'' heads (build (JsonArrayCreate 10) (map (\<lambda>cp. add_object (constraint_json cp)) cs)) next)"

text \<open>The promises of a type.  The start of a context is never set, and its end is that of the last constraint so far.\<close>

definition promisee_steps :: "rval \<Rightarrow> (JsonElement \<Rightarrow> JsonElement res) list" where
  "promisee_steps v = (case v of
     Scalar s \<Rightarrow> [put_string ''promisee'' s]
   | NoScalar \<Rightarrow> [\<lambda>_. Inl AssertionFailed]
   | ListVal l \<Rightarrow> [put_array ''promisee'' (build (JsonArrayCreate 10)
       (map (\<lambda>x. if is_scalar x then add_string (scalar_text x) else (\<lambda>_. Inl FatalErrorExit)) l))]
   | _ \<Rightarrow> [])"

definition last_end :: "int \<Rightarrow> Promise \<Rightarrow> int" where
  "last_end off pp = (if conlist pp = [] then off else int (off_end (con_offset (last (conlist pp)))))"

definition promise_json :: "int \<Rightarrow> Promise \<Rightarrow> JsonElement res" where
  "promise_json off pp = build (JsonObjectCreate 10)
     ([put_offset ''offset'' (int (off_start (pr_offset pp))), put_offset ''offset-end'' (last_end off pp),
       put_string ''promiser'' (promiser pp)] @ promisee_steps (promisee pp) @
      [put_array ''attributes'' (build (JsonArrayCreate 10) (map (\<lambda>cp. add_object (constraint_json cp)) (conlist pp)))])"

fun promises_json :: "int \<Rightarrow> Promise list \<Rightarrow> JsonElement \<Rightarrow> JsonElement res" where
  "promises_json off [] e = Inr e"
| "promises_json off (pp # ps) e = res_bind (add_object (promise_json off pp) e) (promises_json (last_end off pp) ps)"

fun bundle_contexts :: "string option \<Rightarrow> int \<Rightarrow> Promise list \<Rightarrow> context_head list res" where
  "bundle_contexts current off [] = Inr []"
| "bundle_contexts current off [pp] = (case current of
     None \<Rightarrow> Inl AssertionFailed | Some cur \<Rightarrow> Inr [(cur, -1, last_end off pp)])"
| "bundle_contexts current off (pp # pq # ps) = (case (current, pr_classes pq) of
     (Some cur, Some cl) \<Rightarrow>
       if strcmp cur cl \<noteq> 0 then res_bind (bundle_contexts (pr_classes pp) (last_end off pp) (pq # ps)) (\<lambda>rest.
         Inr ((cur, -1, last_end off pp) # rest))
       else bundle_contexts current (last_end off pp) (pq # ps)
   | _ \<Rightarrow> Inl NullDereference)"

definition ExportBundleClassesAsJson :: "Promise list \<Rightarrow> nat \<Rightarrow> tracked res" where
  "ExportBundleClassesAsJson ps next =
     res_bind (bundle_contexts (Some ''any'') (-1) ps) (\<lambda>heads.
       contexts_json ''promises'' heads (promises_json (-1) ps (JsonArrayCreate 10)) next)"

definition args_json :: "rval list \<Rightarrow> JsonElement res" where
  "args_json args = build (JsonArrayCreate 10)
     (map (\<lambda>x. case x of Scalar s \<Rightarrow> add_string s | NoScalar \<Rightarrow> (\<lambda>_. Inl AssertionFailed) | _ \<Rightarrow> (\<lambda>_. Inl OutOfBounds)) args)"

definition subtype_json :: "SubType \<Rightarrow> nat \<Rightarrow> tracked res" where
  "subtype_json sp next = res_bind (ExportBundleClassesAsJson (promiselist sp) next) (\<lambda>(cls, arrays, next').
     res_bind (build (JsonObjectCreate 10)
       [put_offset ''offset'' (int (off_start (st_offset sp))), put_offset ''offset-end'' (int (off_end (st_offset sp))),
        (\<lambda>e. JsonObjectAppendString e (Some ''name'') (st_name sp)), put_array ''classes'' (Inr cls)]) (\<lambda>e. Inr (e, arrays, next')))"

fun tracked_array :: "('a \<Rightarrow> nat \<Rightarrow> tracked res) \<Rightarrow> 'a list \<Rightarrow> tracked \<Rightarrow> tracked res" where
  "tracked_array f [] s = Inr s"
| "tracked_array f (x # xs) (a, arrays, next) = res_bind (f x next) (\<lambda>(e, more, next').
     res_bind (JsonArrayAppendObject a e) (\<lambda>a'. tracked_array f xs (a', arrays @ more, next')))"

definition ExportBundleAsJson :: "Bundle \<Rightarrow> nat \<Rightarrow> tracked res" where
  "ExportBundleAsJson b next = res_bind (tracked_array subtype_json (subtypes b) (JsonArrayCreate 10, [], next)) (\<lambda>(types, arrays, next').
     res_bind (build (JsonObjectCreate 10)
       [put_offset ''offset'' (int (off_start (bu_offset b))), put_offset ''offset-end'' (int (off_end (bu_offset b))),
        put_string ''name'' (bu_name b), put_string ''bundle-type'' (bu_type b),
        put_array ''arguments'' (args_json (bu_args b)), put_array ''promise-types'' (Inr types)]) (\<lambda>e. Inr (e, arrays, next')))"

definition ExportBodyAsJson :: "Body \<Rightarrow> nat \<Rightarrow> tracked res" where
  "ExportBodyAsJson b next = res_bind (ExportBodyClassesAsJson (bo_conlist b) next) (\<lambda>(cls, arrays, next').
     res_bind (build (JsonObjectCreate 10)
       [put_offset ''offset'' (int (off_start (bo_offset b))), put_offset ''offset-end'' (int (off_end (bo_offset b))),
        put_string ''name'' (bo_name b), put_string ''body-type'' (bo_type b),
        put_array ''arguments'' (args_json (bo_args b)), put_array ''classes'' (Inr cls)]) (\<lambda>e. Inr (e, arrays, next')))"

text \<open>The text is written, and then the tree is freed.\<close>

definition PolicyPrintAsJson :: "string \<Rightarrow> Bundle list \<Rightarrow> Body list \<Rightarrow> (string \<times> unit res) res" where
  "PolicyPrintAsJson file_name bs bds =
     res_bind (tracked_array ExportBundleAsJson bs (JsonArrayCreate 10, [], 0)) (\<lambda>(bundles_json, arrays1, next).
     res_bind (tracked_array ExportBodyAsJson bds (JsonArrayCreate 10, [], next)) (\<lambda>(bodies_json, arrays2, _).
     res_bind (build (JsonObjectCreate 10)
       [put_string ''name'' file_name, put_array ''bundles'' (Inr bundles_json), put_array ''bodies'' (Inr bodies_json)]) (\<lambda>tree.
     res_bind (JsonElementPrint tree 0) (\<lambda>out. Inr (out, free_arrays [] (arrays1 @ arrays2))))))"

section \<open>A policy as text\<close>

definition PRETTY_PRINT_SPACES_PER_INDENT :: nat where
  "PRETTY_PRINT_SPACES_PER_INDENT = 2"

definition IndentPrint :: "nat \<Rightarrow> string" where
  "IndentPrint indent_level = replicate (PRETTY_PRINT_SPACES_PER_INDENT * indent_level) CHR '' ''"

definition AttributePrettyPrint :: "Constraint \<Rightarrow> string" where
  "AttributePrettyPrint cp = con_lval cp @ '' => '' @ RvalPrint (con_rval cp)"

definition ArgumentsPrettyPrint :: "rval list \<Rightarrow> string res" where
  "ArgumentsPrettyPrint args =
     (if list_all is_scalar args then Inr (''('' @ join_with '', '' (map scalar_text args) @ '')'') else Inl OutOfBounds)"

definition newline :: string where
  "newline = [CHR 0x0A]"

fun body_lines :: "string option \<Rightarrow> Constraint list \<Rightarrow> string res" where
  "body_lines current [] = Inr []"
| "body_lines current (cp # cs) = (case con_classes cp of
     None \<Rightarrow> Inl NullDereference
   | Some cl \<Rightarrow>
       res_bind (body_lines (if current = Some cl then current else Some cl) cs) (\<lambda>rest.
         Inr ((if current = Some cl then []
               else if strcmp cl ''any'' = 0 then newline else newline @ newline @ cl @ ''::'') @
           newline @ IndentPrint 1 @ AttributePrettyPrint cp @ rest)))"

definition BodyPrettyPrint :: "Body \<Rightarrow> string res" where
  "BodyPrettyPrint b =
     res_bind (ArgumentsPrettyPrint (bo_args b)) (\<lambda>args.
     res_bind (body_lines None (bo_conlist b)) (\<lambda>lines.
       Inr (''body '' @ bo_type b @ '' '' @ bo_name b @ args @ newline @ ''{'' @ lines @ newline @ ''}'')))"

text \<open>For every promise the classes of a constraint are read that has not been chosen yet: \<open>cp\<close> is NULL.\<close>

definition promise_lines :: "Promise \<Rightarrow> string res" where
  "promise_lines pp = Inl NullDereference"

fun subtype_lines :: "SubType list \<Rightarrow> string res" where
  "subtype_lines [] = Inr []"
| "subtype_lines (sp # sps) = (case st_name sp of
     None \<Rightarrow> Inl NullDereference
   | Some nm \<Rightarrow>
       res_bind (if promiselist sp = [] then Inr [] else promise_lines (hd (promiselist sp))) (\<lambda>ps.
       res_bind (subtype_lines sps) (\<lambda>rest.
         Inr (newline @ nm @ '':'' @ newline @ ps @ (if sps \<noteq> [] then newline else []) @ rest))))"

definition BundlePrettyPrint :: "Bundle \<Rightarrow> string res" where
  "BundlePrettyPrint b =
     res_bind (ArgumentsPrettyPrint (bu_args b)) (\<lambda>args.
     res_bind (subtype_lines (subtypes b)) (\<lambda>lines.
       Inr (''bundle '' @ bu_type b @ '' '' @ bu_name b @ args @ newline @ ''{'' @ lines @ newline @ ''}'')))"

section \<open>Shared arrays\<close>

text \<open>There is more than one context when a node behind the first has other classes than \<open>any\<close>, even when they are those of the first.\<close>

lemma bundle_contexts_nonempty: "bundle_contexts cur off ps = Inr heads \<Longrightarrow> ps \<noteq> [] \<Longrightarrow> heads \<noteq> []"
  by (induction cur off ps arbitrary: heads rule: bundle_contexts.induct)
     (auto simp: res_bind_eq_Inr split: option.splits if_splits)

lemma body_contexts_nonempty: "body_contexts cur cs = Inr heads \<Longrightarrow> cs \<noteq> [] \<Longrightarrow> heads \<noteq> []"
  by (induction cur cs arbitrary: heads rule: body_contexts.induct)
     (auto simp: res_bind_eq_Inr split: option.splits if_splits)

lemma body_contexts_more:
  "body_contexts (Some ''any'') cs = Inr heads \<Longrightarrow> length heads > 1 \<longleftrightarrow> (\<exists>cp \<in> set (tl cs). con_classes cp \<noteq> Some ''any'')"
  by (induction "Some ''any''" cs arbitrary: heads rule: body_contexts.induct)
     (auto simp: res_bind_eq_Inr split: option.splits if_splits dest!: body_contexts_nonempty)

lemma bundle_contexts_more:
  "bundle_contexts (Some ''any'') off ps = Inr heads \<Longrightarrow> length heads > 1 \<longleftrightarrow> (\<exists>pp \<in> set (tl ps). pr_classes pp \<noteq> Some ''any'')"
  by (induction "Some ''any''" off ps arbitrary: heads rule: bundle_contexts.induct)
     (auto simp: res_bind_eq_Inr split: option.splits if_splits dest!: bundle_contexts_nonempty)

lemma free_arrays_distinct:
  "free_arrays freed as = (if distinct as \<and> set as \<inter> set freed = {} then Inr () else Inl UseAfterFree)"
  by (induction as arbitrary: freed) auto

text \<open>Arrays made one after the other are different ones: they are freed twice just when one of them hangs in a tree twice.\<close>

definition tracks :: "('a \<Rightarrow> nat \<Rightarrow> tracked res) \<Rightarrow> ('a \<Rightarrow> bool) \<Rightarrow> bool" where
  "tracks f P \<longleftrightarrow> (\<forall>x n e as m. f x n = Inr (e, as, m) \<longrightarrow> n \<le> m \<and> set as \<subseteq> {n..<m} \<and> (distinct as \<longleftrightarrow> \<not> P x))"

lemma tracked_array_tracks:
  assumes "tracks f P" "tracked_array f xs (a, as, n) = Inr (a', as', m)"
  shows "\<exists>new. as' = as @ new \<and> n \<le> m \<and> set new \<subseteq> {n..<m} \<and> (distinct new \<longleftrightarrow> \<not> (\<exists>x \<in> set xs. P x))"
  using assms(2)
proof (induction xs arbitrary: a as n)
  case (Cons x xs)
  from Cons.prems obtain e more k a1 where f: "f x n = Inr (e, more, k)" and rest: "tracked_array f xs (a1, as @ more, k) = Inr (a', as', m)"
    by (auto simp: res_bind_eq_Inr)
  from assms(1) f have more: "n \<le> k" "set more \<subseteq> {n..<k}" "distinct more \<longleftrightarrow> \<not> P x" unfolding tracks_def by blast+
  from Cons.IH [OF rest] obtain new where new: "as' = as @ more @ new" "k \<le> m" "set new \<subseteq> {k..<m}"
    "distinct new \<longleftrightarrow> \<not> (\<exists>x \<in> set xs. P x)" by auto
  have "set more \<inter> set new = {}" using more(2) new(3) by fastforce
  with more new show ?case by (intro exI [of _ "more @ new"]) auto
qed simp

lemma contexts_json_tracks:
  "contexts_json nm heads kids n = Inr (e, as, m) \<Longrightarrow> m = Suc n \<and> set as \<subseteq> {n} \<and> (distinct as \<longleftrightarrow> \<not> length heads > 1)"
  by (cases heads rule: remdups_adj.cases) (auto simp: contexts_json_def res_bind_eq_Inr)

lemma ExportBodyAsJson_tracks: "tracks ExportBodyAsJson (\<lambda>b. \<exists>cp \<in> set (tl (bo_conlist b)). con_classes cp \<noteq> Some ''any'')"
  unfolding tracks_def ExportBodyAsJson_def ExportBodyClassesAsJson_def
  by (fastforce simp: res_bind_eq_Inr dest!: contexts_json_tracks body_contexts_more)

lemma subtype_json_tracks: "tracks subtype_json (\<lambda>sp. \<exists>pp \<in> set (tl (promiselist sp)). pr_classes pp \<noteq> Some ''any'')"
  unfolding tracks_def subtype_json_def ExportBundleClassesAsJson_def
  by (fastforce simp: res_bind_eq_Inr dest!: contexts_json_tracks bundle_contexts_more)

lemma ExportBundleAsJson_tracks:
  "tracks ExportBundleAsJson (\<lambda>b. \<exists>sp \<in> set (subtypes b). \<exists>pp \<in> set (tl (promiselist sp)). pr_classes pp \<noteq> Some ''any'')"
  unfolding tracks_def ExportBundleAsJson_def
  by (fastforce simp: res_bind_eq_Inr dest!: tracked_array_tracks [OF subtype_json_tracks])

text \<open>when a policy is printed as JSON, the destruction of the tree frees an array twice exactly when, in the constraints of a body or the
  promises of one type in a bundle, one behind the first stands in other classes than \<open>any\<close>: then there is a second context, even if the first one
  stands in the same classes, and the one array of children hangs in both.\<close>

lemma PolicyPrintAsJson_frees_twice:
  assumes "PolicyPrintAsJson file_name bs bds = Inr (out, r)"
  shows "r = Inl UseAfterFree \<longleftrightarrow> (\<exists>b \<in> set bds. \<exists>cp \<in> set (tl (bo_conlist b)). con_classes cp \<noteq> Some ''any'') \<or>
    (\<exists>b \<in> set bs. \<exists>sp \<in> set (subtypes b). \<exists>pp \<in> set (tl (promiselist sp)). pr_classes pp \<noteq> Some ''any'')"
proof -
  from assms obtain j1 as1 n j2 as2 m where
    run: "tracked_array ExportBundleAsJson bs (JsonArrayCreate 10, [], 0) = Inr (j1, as1, n)"
      "tracked_array ExportBodyAsJson bds (JsonArrayCreate 10, [], n) = Inr (j2, as2, m)" and r: "r = free_arrays [] (as1 @ as2)"
    by (auto simp: PolicyPrintAsJson_def res_bind_eq_Inr)
  note parts = tracked_array_tracks [OF ExportBundleAsJson_tracks run(1)] tracked_array_tracks [OF ExportBodyAsJson_tracks run(2)]
  then have "set as1 \<inter> set as2 = {}" by fastforce
  then have "r = Inl UseAfterFree \<longleftrightarrow> \<not> distinct as1 \<or> \<not> distinct as2" unfolding r free_arrays_distinct by auto
  with parts show ?thesis by auto
qed

definition two_contexts :: Body where
  "two_contexts = \<lparr>bo_type = ''perms'', bo_name = ''m'', bo_namespace = Some ''default'', bo_args = [], bo_conlist =
     [ConstraintNew ''mode'' (Scalar ''6'') (Some ''sun'') False, ConstraintNew ''owners'' (ListVal []) (Some ''sun'') False],
     bo_source_path = ''a.cf'', bo_offset = NO_OFFSET\<rparr>"

lemma PolicyPrintAsJson_frees_twice_witness:
  "map_sum id snd (PolicyPrintAsJson ''a.cf'' [] [two_contexts]) = Inr (Inl UseAfterFree)"
proof -
  have "isl (map_sum id snd (PolicyPrintAsJson ''a.cf'' [] [two_contexts])) = False" by code_simp
  then obtain out r where run: "PolicyPrintAsJson ''a.cf'' [] [two_contexts] = Inr (out, r)"
    by (cases "PolicyPrintAsJson ''a.cf'' [] [two_contexts]") auto
  have "r = Inl UseAfterFree" using PolicyPrintAsJson_frees_twice [OF run] by (simp add: two_contexts_def ConstraintNew_def)
  with run show ?thesis by simp
qed

text \<open>Every bundle with a promise in it crashes the printer.\<close>

lemma BundlePrettyPrint_crashes:
  assumes "list_all is_scalar (bu_args b)" "\<exists>sp \<in> set (subtypes b). promiselist sp \<noteq> []"
  shows "BundlePrettyPrint b = Inl NullDereference"
proof -
  have "subtype_lines sps = Inl NullDereference" if "\<exists>sp \<in> set sps. promiselist sp \<noteq> []" for sps
    using that by (induction sps) (auto simp: promise_lines_def split: option.split)
  with assms show ?thesis by (simp add: BundlePrettyPrint_def ArgumentsPrettyPrint_def)
qed

end
