(* ===== verification/CF_Recheck.thy ===== *)
theory CF_Recheck
  imports CF_Syntax
begin

text \<open>
  The checks of a promise after its variables are expanded (\<open>ReCheckAllConstraints\<close> of \<open>src/constraints.c\<close>): attributes
  against the tables again, unique handles, comments, and the anchors of line insertions.
\<close>

section \<open>Attributes again\<close>

definition PostCheckAttr :: "string \<Rightarrow> BodySyntax \<Rightarrow> BodySyntax option" where
  "PostCheckAttr lv a = (case attr_named lv (body_entries a) of
     Some b \<Rightarrow> Some b
   | None \<Rightarrow> if strcmp lv (attr_lval a) = 0 then Some a else None)"

definition post_check_target :: "string \<Rightarrow> string \<Rightarrow> BodySyntax option" where
  "post_check_target type lv =
     (case first_some (PostCheckAttr lv) (concat (map ss_bs (filter (\<lambda>ss. strcmp (subtype ss) type = 0) (concat CF_ALL_SUBTYPES)))) of
        Some a \<Rightarrow> Some a
      | None \<Rightarrow> attr_named lv (filter (\<lambda>a. attr_dtype a \<noteq> cf_body) CF_COMMON_BODIES))"

text \<open>The attributes of classes promises are checked for every type of promise, and then the first attribute found.  The policy is no longer being
  parsed, so a report is fatal.\<close>

definition PostCheckConstraint :: "(string \<Rightarrow> string \<Rightarrow> bool) \<Rightarrow> 'd real_ops \<Rightarrow> int \<Rightarrow> string \<Rightarrow> string \<Rightarrow> rval \<Rightarrow> unit res" where
  "PostCheckConstraint full_match d T type lv rv =
     res_bind (case attr_named lv CF_CLASSBODY of
         None \<Rightarrow> Inr ()
       | Some a \<Rightarrow> checked_at_run_time (CheckConstraintTypeMatch full_match d T lv rv (attr_dtype a) (attr_range a) 0)) (\<lambda>_.
     case post_check_target type lv of
         None \<Rightarrow> Inr ()
       | Some a \<Rightarrow> checked_at_run_time (CheckConstraintTypeMatch full_match d T lv rv (attr_dtype a) (attr_range a) 0))"

definition VerifyConstraintName :: "string \<Rightarrow> bool" where
  "VerifyConstraintName lv \<longleftrightarrow>
     first_some (PostCheckAttr lv) (concat (map ss_bs (concat CF_ALL_SUBTYPES))) \<noteq> None \<or> attr_named lv CF_COMMON_BODIES \<noteq> None"

section \<open>A promise\<close>

record recheck_state =
  PROMISE_ID_LIST :: "PromiseIdent list"
  EDIT_ANCHORS :: "Item list"
  ERRORCOUNT :: nat

definition scalar_constraint :: "context_state \<Rightarrow> Promise \<Rightarrow> string \<Rightarrow> string option" where
  "scalar_constraint ctx pp lv = map_option scalar_text (GetConstraintValue ctx lv (Some pp) CHR ''s'')"

definition report_any :: "context_state \<Rightarrow> Promise \<Rightarrow> bool" where
  "report_any ctx pp \<longleftrightarrow> agentsubtype pp = ''reports'' \<and> pr_classes pp = Some ''any'' \<and>
     (scalar_constraint ctx pp ''ifvarclass'' = None \<or> scalar_constraint ctx pp ''ifvarclass'' = Some ''any'')"

text \<open>A handle is registered once; a second use from another place is reported.\<close>

definition check_handle :: "recheck_state \<Rightarrow> Promise \<Rightarrow> string \<Rightarrow> (recheck_state \<times> messages) res" where
  "check_handle s pp handle = (case PromiseIdExists (PROMISE_ID_LIST s) (pr_namespace pp) handle of
     Some prid \<Rightarrow> (case pr_audit pp of
         None \<Rightarrow> Inl NullDereference
       | Some f \<Rightarrow> Inr (s, if strcmp (id_filename prid) f \<noteq> 0 \<or> id_line prid \<noteq> off_line (pr_offset pp)
           then ['' !! Duplicate promise handle -- previously used in file '' @ id_filename prid @ '' near line '' @ show_nat (id_line prid)] else []))
   | None \<Rightarrow> res_bind (NewPromiseId (PROMISE_ID_LIST s) handle pp) (\<lambda>ids. Inr (s\<lparr>PROMISE_ID_LIST := ids\<rparr>, [])))"

fun post_check_all :: "(string \<Rightarrow> string \<Rightarrow> bool) \<Rightarrow> 'd real_ops \<Rightarrow> int \<Rightarrow> string \<Rightarrow> Constraint list \<Rightarrow> unit res" where
  "post_check_all full_match d T type [] = Inr ()"
| "post_check_all full_match d T type (cp # cs) =
     res_bind (PostCheckConstraint full_match d T type (con_lval cp) (con_rval cp)) (\<lambda>_. post_check_all full_match d T type cs)"

text \<open>Two insertions in one bundle with one anchor are reported; an anchor of another bundle is taken over without a mark.\<close>

definition check_anchor :: "context_state \<Rightarrow> recheck_state \<Rightarrow> Promise \<Rightarrow> recheck_state \<times> messages" where
  "check_anchor ctx s pp =
     (if agentsubtype pp \<noteq> ''insert_lines'' then (s, [])
      else (case scalar_constraint ctx pp ''select_line_matching'' of
          None \<Rightarrow> (s, [])
        | Some sp \<Rightarrow> (case ReturnItemIn (EDIT_ANCHORS s) (Some sp) of
            Some i \<Rightarrow> (s, if classes (EDIT_ANCHORS s ! i) = Some (pr_bundle pp)
              then ['' !! insert_lines promise uses the same select_line_matching anchor ('' @ [CHR 0x22] @ sp @ [CHR 0x22] @ '') as another promise.''] else [])
          | None \<Rightarrow> (s\<lparr>EDIT_ANCHORS := PrependItem (EDIT_ANCHORS s) sp (Some (pr_bundle pp))\<rparr>, []))))"

definition varclass_excluded :: "context_state \<Rightarrow> Promise \<Rightarrow> bool" where
  "varclass_excluded ctx pp = VarClassExcluded ctx
     (map_option (\<lambda>_. scalar_constraint ctx pp ''ifvarclass'') (GetConstraint ctx (Some pp) ''ifvarclass'')) (Some (pr_namespace pp))"

definition ReCheckAllConstraints :: "(string \<Rightarrow> string \<Rightarrow> bool) \<Rightarrow> 'd real_ops \<Rightarrow> int \<Rightarrow> bool \<Rightarrow> context_state \<Rightarrow> recheck_state \<Rightarrow> Promise \<Rightarrow>
    (recheck_state \<times> messages) res" where
  "ReCheckAllConstraints full_match d T REQUIRE_COMMENTS ctx s pp =
     (let (s1, msgs1) = (if report_any ctx pp
        then (s\<lparr>ERRORCOUNT := ERRORCOUNT s + 1\<rparr>, [''reports promises may not be in class '' @ squote @ ''any'' @ squote @ '' - risk of a notification explosion''])
        else (s, []))
      in if \<not> IsDefinedClass ctx (pr_classes pp) (Some (pr_namespace pp)) \<or> varclass_excluded ctx pp then Inr (s1, msgs1)
         else res_bind (case scalar_constraint ctx pp ''handle'' of None \<Rightarrow> Inr (s1, []) | Some h \<Rightarrow> check_handle s1 pp h) (\<lambda>(s2, msgs2).
           let msgs3 = (if REQUIRE_COMMENTS \<and> pr_ref pp = None \<and> agentsubtype pp \<noteq> ''vars''
             then ['' !! Un-commented promise found, but comments have been required by policy'' @ [CHR 0x0A]] else [])
           in res_bind (post_check_all full_match d T (agentsubtype pp) (conlist pp)) (\<lambda>_.
             let (s3, msgs4) = check_anchor ctx s2 pp in Inr (s3, msgs1 @ msgs2 @ msgs3 @ msgs4))))"

fun recheck_all :: "(string \<Rightarrow> string \<Rightarrow> bool) \<Rightarrow> 'd real_ops \<Rightarrow> int \<Rightarrow> bool \<Rightarrow> context_state \<Rightarrow> recheck_state \<Rightarrow> Promise list \<Rightarrow> (recheck_state \<times> messages) res" where
  "recheck_all full_match d T rc ctx s [] = Inr (s, [])"
| "recheck_all full_match d T rc ctx s (pp # ps) =
     res_bind (ReCheckAllConstraints full_match d T rc ctx s pp) (\<lambda>(s1, msgs).
     res_bind (recheck_all full_match d T rc ctx s1 ps) (\<lambda>(s2, more). Inr (s2, msgs @ more)))"

section \<open>Handles are unique\<close>

lemma check_handle_ids:
  assumes "check_handle s pp h = Inr (s', msgs)" "distinct (map id_handle (PROMISE_ID_LIST s))"
  shows "distinct (map id_handle (PROMISE_ID_LIST s')) \<and> promise_id_name (pr_namespace pp) h \<in> set (map id_handle (PROMISE_ID_LIST s')) \<and>
    set (map id_handle (PROMISE_ID_LIST s)) \<subseteq> set (map id_handle (PROMISE_ID_LIST s'))"
proof (cases "PromiseIdExists (PROMISE_ID_LIST s) (pr_namespace pp) h")
  case None
  then have "promise_id_name (pr_namespace pp) h \<notin> set (map id_handle (PROMISE_ID_LIST s))"
    by (auto simp: PromiseIdExists_def find_None_iff)
  with None assms show ?thesis
    by (auto simp: check_handle_def NewPromiseId_def res_bind_eq_Inr split: option.splits)
next
  case (Some prid)
  then have "prid \<in> set (PROMISE_ID_LIST s)" "promise_id_name (pr_namespace pp) h = id_handle prid"
    by (auto simp: PromiseIdExists_def find_Some_iff)
  moreover from Some assms(1) have "s' = s" by (auto simp: check_handle_def split: option.splits)
  ultimately show ?thesis using assms(2) by auto
qed

lemma check_anchor_ids [simp]: "PROMISE_ID_LIST (fst (check_anchor ctx s pp)) = PROMISE_ID_LIST s"
  by (simp add: check_anchor_def split: option.split)

lemma recheck_ids:
  assumes "ReCheckAllConstraints full_match d T rc ctx s pp = Inr (s', msgs)" "distinct (map id_handle (PROMISE_ID_LIST s))"
  shows "distinct (map id_handle (PROMISE_ID_LIST s')) \<and> set (map id_handle (PROMISE_ID_LIST s)) \<subseteq> set (map id_handle (PROMISE_ID_LIST s'))"
proof -
  let ?s1 = "if report_any ctx pp then s\<lparr>ERRORCOUNT := ERRORCOUNT s + 1\<rparr> else s"
  have "PROMISE_ID_LIST s' = PROMISE_ID_LIST s \<or>
      (\<exists>s2 h m. PROMISE_ID_LIST s' = PROMISE_ID_LIST s2 \<and> check_handle ?s1 pp h = Inr (s2, m))"
    using assms(1) unfolding ReCheckAllConstraints_def Let_def split_beta
    by (auto simp: res_bind_eq_Inr split: if_splits option.splits)
  then show ?thesis
  proof (elim disjE exE conjE)
    fix s2 h m
    assume a: "PROMISE_ID_LIST s' = PROMISE_ID_LIST s2" "check_handle ?s1 pp h = Inr (s2, m)"
    have ids: "PROMISE_ID_LIST ?s1 = PROMISE_ID_LIST s" by simp
    from check_handle_ids [OF a(2), unfolded ids] assms(2) show ?thesis unfolding a(1) by blast
  qed (use assms(2) in simp)
qed

text \<open>C11: checking the promises of a policy one after the other keeps every handle registered at most once, and keeps what is registered.\<close>

lemma recheck_all_handles:
  assumes "recheck_all full_match d T rc ctx s ps = Inr (s', msgs)" "distinct (map id_handle (PROMISE_ID_LIST s))"
  shows "distinct (map id_handle (PROMISE_ID_LIST s')) \<and> set (map id_handle (PROMISE_ID_LIST s)) \<subseteq> set (map id_handle (PROMISE_ID_LIST s'))"
  using assms
proof (induction ps arbitrary: s msgs)
  case (Cons pp ps)
  then obtain s1 m1 m2 where "ReCheckAllConstraints full_match d T rc ctx s pp = Inr (s1, m1)" "recheck_all full_match d T rc ctx s1 ps = Inr (s', m2)"
    by (auto simp: res_bind_eq_Inr)
  with Cons.IH [OF this(2)] recheck_ids [OF this(1) Cons.prems(2)] show ?case by blast
qed simp

definition web_handle :: Promise where
  "web_handle = \<lparr>pr_classes = Some ''any'', pr_ref = None, promiser = ''/etc/x'', promisee = NoPromisee, pr_bundle = ''main'', pr_audit = Some ''a.cf'',
     conlist = [ConstraintNew ''handle'' (Scalar ''h'') (Some ''any'') False], agentsubtype = ''files'', bundletype = ''agent'', pr_namespace = ''default'',
     pr_done = False, has_subbundles = False, pr_offset = NO_OFFSET\<rparr>"

lemma recheck_all_handles_witness:
  "distinct (map id_handle (PROMISE_ID_LIST (fst (projr (recheck_all (\<lambda>_ _. True) whole_reals 0 False initial_context
     \<lparr>PROMISE_ID_LIST = [], EDIT_ANCHORS = [], ERRORCOUNT = 0\<rparr> [web_handle])))))"
proof -
  let ?run = "recheck_all (\<lambda>_ _. True) whole_reals 0 False initial_context \<lparr>PROMISE_ID_LIST = [], EDIT_ANCHORS = [], ERRORCOUNT = 0\<rparr> [web_handle]"
  have "isl ?run = False" by code_simp
  then obtain s' msgs where run: "?run = Inr (s', msgs)" by (cases ?run) auto
  from recheck_all_handles [OF run] show ?thesis unfolding run by simp
qed

end
