(* ===== verification/CF_Matching.thy ===== *)
theory CF_Matching
  imports CF_VariableProofs CF_ClassProofs CF_Options
begin

text \<open>
  The matching of texts (\<open>src/matching.c\<close>).  The library PCRE is a parameter: \<open>pcre re\<close> is \<open>None\<close> for an expression that does not
  compile, and otherwise gives for a text the groups of its first match, each with its start and its end or unset; the first
  group is the whole match.  A match stores its groups as the variables of the scope \<open>match\<close>.
\<close>

section \<open>Matches\<close>

type_synonym groups = "(nat \<times> nat) option list"
type_synonym pcre = "string \<Rightarrow> (string \<Rightarrow> groups option) option"

text \<open>The vector of offsets has room for ten groups; for more the library returns 0, and their variables are not set.\<close>

definition OVECCOUNT :: nat where
  "OVECCOUNT = 30"

definition group_count :: "groups \<Rightarrow> nat" where
  "group_count g = (if 3 * length g > OVECCOUNT then 0 else length g)"

definition ValidateRegEx :: "pcre \<Rightarrow> string \<Rightarrow> bool" where
  "ValidateRegEx pcre regex \<longleftrightarrow> pcre regex \<noteq> None"

definition group_text :: "string \<Rightarrow> (nat \<times> nat) option \<Rightarrow> string" where
  "group_text s g = (case g of None \<Rightarrow> [] | Some (a, b) \<Rightarrow> substr s a b)"

definition group_length :: "(nat \<times> nat) option \<Rightarrow> int" where
  "group_length g = (case g of None \<Rightarrow> 0 | Some (a, b) \<Rightarrow> int b - int a)"

text \<open>The offset of a group that took no part is -1, and \<open>strlcpy\<close> reads the text from the byte in front of it to its end.\<close>

fun set_groups :: "nat \<Rightarrow> cfagenttype \<Rightarrow> var_state \<Rightarrow> string \<Rightarrow> nat \<Rightarrow> groups \<Rightarrow> var_state run" where
  "set_groups n agent st s i [] = ret st"
| "set_groups n agent st s i (None # gs) = Some (Inl OutOfBounds)"
| "set_groups n agent st s i (Some g # gs) =
     run_bind (if group_length (Some g) < int CF_MAXVARSIZE then ForceScalar n agent st (take 2 (show_nat i)) (group_text s (Some g)) else ret st)
       (\<lambda>st1. set_groups n agent st1 s (i + 1) gs)"

definition RegExMatchSubString :: "nat \<Rightarrow> cfagenttype \<Rightarrow> var_state \<Rightarrow> (string \<Rightarrow> groups option) \<Rightarrow> string \<Rightarrow> (var_state \<times> (nat \<times> nat) option) run" where
  "RegExMatchSubString n agent st rx s = (case rx s of
     None \<Rightarrow> ret (st, None)
   | Some g \<Rightarrow> (case g of
       Some (a, b) # _ \<Rightarrow>
         run_bind (set_groups n agent (NewScope (DeleteScope st ''match'') ''match'') s 0 (take (group_count g) g)) (\<lambda>st1. ret (st1, Some (a, b)))
     | _ \<Rightarrow> Some (Inl OutOfBounds)))"

definition RegExMatchFullString :: "nat \<Rightarrow> cfagenttype \<Rightarrow> var_state \<Rightarrow> (string \<Rightarrow> groups option) \<Rightarrow> string \<Rightarrow> (var_state \<times> bool) run" where
  "RegExMatchFullString n agent st rx s = run_bind (RegExMatchSubString n agent st rx s) (\<lambda>(st1, m).
     ret (st1, case m of None \<Rightarrow> False | Some (a, b) \<Rightarrow> a = 0 \<and> b = length s))"

text \<open>\<open>FullTextMatch\<close> with its effect on variables; the function of \<open>CF_Classes\<close> is its result.\<close>

definition match_text :: "pcre \<Rightarrow> nat \<Rightarrow> cfagenttype \<Rightarrow> var_state \<Rightarrow> string \<Rightarrow> string \<Rightarrow> (var_state \<times> bool) run" where
  "match_text pcre n agent st regexp s =
     (if strcmp regexp s = 0 then ret (st, True)
      else case pcre regexp of None \<Rightarrow> ret (st, False) | Some rx \<Rightarrow> RegExMatchFullString n agent st rx s)"

definition BlockTextMatch :: "pcre \<Rightarrow> nat \<Rightarrow> cfagenttype \<Rightarrow> var_state \<Rightarrow> string \<Rightarrow> string \<Rightarrow> (var_state \<times> (nat \<times> nat) option) run" where
  "BlockTextMatch pcre n agent st regexp s = (case pcre regexp of None \<Rightarrow> ret (st, None) | Some rx \<Rightarrow> RegExMatchSubString n agent st rx s)"

definition FirstBackReference :: "(string \<Rightarrow> groups option) \<Rightarrow> string \<Rightarrow> string" where
  "FirstBackReference rx s = (case rx s of
     None \<Rightarrow> []
   | Some g \<Rightarrow> if group_count g > 1 \<and> group_length (g ! 1) < int CF_MAXVARSIZE then group_text s (g ! 1) else [])"

definition ExtractFirstReference :: "pcre \<Rightarrow> string option \<Rightarrow> string option \<Rightarrow> string" where
  "ExtractFirstReference pcre regexp s = (case (regexp, s) of
     (Some re, Some t) \<Rightarrow> (case pcre re of
         None \<Rightarrow> []
       | Some rx \<Rightarrow> let b = FirstBackReference rx t in if length b = 0 then ''CF_NOMATCH'' else b)
   | _ \<Rightarrow> [])"

fun MatchRlistItem :: "(string \<Rightarrow> string \<Rightarrow> bool) \<Rightarrow> rval list \<Rightarrow> string \<Rightarrow> bool res" where
  "MatchRlistItem full_match [] s = Inr False"
| "MatchRlistItem full_match (rp # l) s = (case rp of
     Scalar re \<Rightarrow> if strcmp s re = 0 \<or> FullTextMatch full_match re s then Inr True else MatchRlistItem full_match l s
   | NoScalar \<Rightarrow> Inl NullDereference
   | _ \<Rightarrow> Inl OutOfBounds)"

section \<open>What looks like an expression\<close>

datatype regex_state = r_norm | r_norepeat | r_literal

text \<open>\<open>first\<close> marks the first character.  The switch over a character gives the new state, or \<open>None\<close> when the text is refused.\<close>

fun is_regex_loop :: "string \<Rightarrow> bool \<Rightarrow> regex_state \<Rightarrow> nat \<Rightarrow> int \<Rightarrow> bool \<Rightarrow> bool" where
  "is_regex_loop [] first special bracket paren r = (if bracket \<noteq> 0 \<or> paren \<noteq> 0 \<or> special = r_literal then False else r)"
| "is_regex_loop (c # s) first special bracket paren r =
     (if special = r_literal then is_regex_loop s False r_norm bracket paren r
      else if c = CHR 0x5C then is_regex_loop s False r_literal bracket paren r
      else if bracket \<noteq> 0 \<and> c \<noteq> CHR '']'' then (if c = CHR ''['' then False else is_regex_loop s False special bracket paren r)
      else if c = CHR ''^'' then is_regex_loop s False (if first then r_norepeat else r_norm) bracket paren r
      else if c = CHR ''*'' \<or> c = CHR ''+'' then
        (if special = r_norepeat then False else is_regex_loop s False r_norepeat bracket paren True)
      else if c = CHR ''['' then is_regex_loop s False r_norm (bracket + 1) paren True
      else if c = CHR '']'' then (if bracket = 0 then False else is_regex_loop s False r_norm 0 paren r)
      else if c = CHR ''('' then is_regex_loop s False r_norepeat bracket (paren + 1) r
      else if c = CHR '')'' then (if paren - 1 < 0 then False else is_regex_loop s False r_norm bracket (paren - 1) r)
      else if c = CHR ''|'' then is_regex_loop s False r_norepeat bracket paren (paren > 0 \<or> r)
      else is_regex_loop s False r_norm bracket paren r)"

definition IsRegex :: "string \<Rightarrow> bool" where
  "IsRegex str = is_regex_loop str True r_norepeat 0 0 False"

text \<open>The result is used as a truth value; it counts the brackets that are closed in pairs.\<close>

fun path_regex_loop :: "string \<Rightarrow> int \<Rightarrow> int \<Rightarrow> int \<Rightarrow> int" where
  "path_regex_loop [] r s p = r"
| "path_regex_loop (c # cs) r s p =
     (if c = CHR ''['' then path_regex_loop cs r (s + 1) p
      else if c = CHR '']'' then path_regex_loop cs (if (s - 1) smod 2 = 0 then r + 1 else r) (s - 1) p
      else if c = CHR ''('' then path_regex_loop cs r s (p + 1)
      else if c = CHR '')'' then path_regex_loop cs (if (p - 1) smod 2 = 0 then r + 1 else r) s (p - 1)
      else if c = CHR ''/'' \<and> (p \<noteq> 0 \<or> s \<noteq> 0) then 0
      else path_regex_loop cs r s p)"

definition IsPathRegex :: "string \<Rightarrow> int" where
  "IsPathRegex str = (if IsRegex str then path_regex_loop str 1 0 0 else 0)"

section \<open>Escaping\<close>

text \<open>
  The buffer has \<open>sz\<close> bytes, all zero at the start.  Behind a copy of \<open>noEscSeq\<close> at the end of the text the NUL is copied like a
  character, and the loop goes on behind it.
\<close>

function escape_special :: "string \<Rightarrow> string \<Rightarrow> nat \<Rightarrow> string \<Rightarrow> nat \<Rightarrow> string res" where
  "escape_special noEscSeq noEscList sz sp pos =
     (if sp = [] \<or> \<not> int pos < int sz - 2 then Inr []
      else let is_seq = starts_with noEscSeq sp;
               seq = (if is_seq then noEscSeq else []);
               pos1 = pos + length seq
        in if is_seq \<and> sz \<le> pos1 then Inr []
           else case drop (length seq) sp of
               [] \<Rightarrow> Inl OutOfBounds
             | c # rest \<Rightarrow>
                 let out = (if c \<in> set noEscList \<or> c_isalnum c then [c] else [CHR 0x5C, c])
                 in if pos1 + length out > sz then Inl OutOfBounds
                    else res_bind (escape_special noEscSeq noEscList sz rest (pos1 + length out)) (\<lambda>more. Inr (seq @ out @ more)))"
  by pat_completeness auto
termination
proof (relation "measure (\<lambda>(q, l, sz, sp, pos). length sp)", goal_cases)
  case (2 noEscSeq noEscList sz sp pos x xa xb c rest)
  then have "Suc (length rest) = length (drop (length xa) sp)" by simp
  then show ?case by simp
qed simp

declare escape_special.simps [simp del]

definition EscapeSpecialChars :: "string \<Rightarrow> nat \<Rightarrow> string option \<Rightarrow> string option \<Rightarrow> string res" where
  "EscapeSpecialChars str sz noEscSeq noEscList =
     escape_special (case noEscSeq of None \<Rightarrow> [] | Some q \<Rightarrow> q) (case noEscList of None \<Rightarrow> [] | Some l \<Rightarrow> l) sz str 0"

fun escape_regex_loop :: "int \<Rightarrow> string \<Rightarrow> int \<Rightarrow> string" where
  "escape_regex_loop sz [] pos = []"
| "escape_regex_loop sz (c # s) pos =
     (if \<not> pos < sz - 2 then []
      else if c = CHR ''.'' \<or> c = CHR ''*'' then CHR 0x5C # c # escape_regex_loop sz s (pos + 2)
      else c # escape_regex_loop sz s (pos + 1))"

definition EscapeRegexChars :: "string \<Rightarrow> int \<Rightarrow> string" where
  "EscapeRegexChars str sz = escape_regex_loop sz str 0"

fun escape_char_loop :: "int \<Rightarrow> char \<Rightarrow> string \<Rightarrow> int \<Rightarrow> string" where
  "escape_char_loop sz esc [] pos = []"
| "escape_char_loop sz esc (c # s) pos =
     (if \<not> pos < sz - 2 then []
      else if c = esc then CHR 0x5C # c # escape_char_loop sz esc s (pos + 2)
      else c # escape_char_loop sz esc s (pos + 1))"

definition EscapeChar :: "string \<Rightarrow> nat \<Rightarrow> char \<Rightarrow> string res" where
  "EscapeChar str strSz esc =
     (if CF_BUFSIZE < strSz then Inl FatalErrorExit else Inr (escape_char_loop (int strSz) esc (take (CF_BUFSIZE - 1) str) 0))"

definition AnchorRegex :: "string option \<Rightarrow> nat \<Rightarrow> string" where
  "AnchorRegex regex outSz = (case regex of
     None \<Rightarrow> [] | Some re \<Rightarrow> if re = [] then [] else take (outSz - 1) (''^('' @ re @ '')$''))"

section \<open>Lines to insert\<close>

text \<open>Blanks inside a line become an expression; \<open>i\<close> is the place in the line.\<close>

definition blank_regex :: string where
  "blank_regex = [CHR 0x5C, CHR ''s'', CHR ''+'']"

definition blanks_regex :: string where
  "blanks_regex = [CHR 0x5C, CHR ''s'', CHR ''*'']"

function embedded_loop :: "int \<Rightarrow> int \<Rightarrow> int \<Rightarrow> string \<Rightarrow> string" where
  "embedded_loop firstchar lastchar i [] = []"
| "embedded_loop firstchar lastchar i (c # s) =
     (if i > firstchar \<and> i < lastchar \<and> c_isspace c
      then blank_regex @ embedded_loop firstchar lastchar (i + 1 + int (length (takeWhile c_isspace s))) (dropWhile c_isspace s)
      else c # embedded_loop firstchar lastchar (i + 1) s)"
  by pat_completeness auto
termination
  by (relation "measure (\<lambda>(f, l, i, s). length s)") (auto simp: less_Suc_eq_le length_dropWhile_le)

definition ignore_embedded :: "string \<Rightarrow> string res" where
  "ignore_embedded final =
     (let firstchar = int (length (takeWhile c_isspace final));
          lastchar = int (length final) - 1 - int (length (takeWhile c_isspace (rev (drop (nat firstchar + 1) final))));
          work = embedded_loop firstchar lastchar 0 final
      in if length work < CF_BUFSIZE then Inr work else Inl OutOfBounds)"

definition ignore_leading :: "string \<Rightarrow> string" where
  "ignore_leading final =
     (if starts_with blanks_regex final then final
      else take (CF_BUFSIZE - 1) (blanks_regex @ dropWhile c_isspace final))"

text \<open>The test for the end of the expression looks at four characters, one more than it has.\<close>

definition ignore_trailing :: "string \<Rightarrow> string res" where
  "ignore_trailing final =
     (if length final < 4 then Inl OutOfBounds
      else if starts_with blanks_regex (drop (length final - 4) final) then Inr final
      else Inr (take (CF_BUFSIZE - 1) (final @ blanks_regex)))"

definition apply_policy :: "insert_match \<Rightarrow> string \<Rightarrow> string res" where
  "apply_policy opt final = (case opt of
     cf_ignore_embedded \<Rightarrow> ignore_embedded final
   | cf_ignore_leading \<Rightarrow> Inr (ignore_leading final)
   | cf_ignore_trailing \<Rightarrow> ignore_trailing final
   | cf_exact_match \<Rightarrow> Inr final)"

text \<open>The policies for one line: its outcome and whether the escaping is done.  The escaping is done once for all lines.\<close>

fun policy_loop :: "(string \<Rightarrow> string \<Rightarrow> bool) \<Rightarrow> bool \<Rightarrow> string \<Rightarrow> string \<Rightarrow> rval list \<Rightarrow> string \<Rightarrow> bool \<Rightarrow> bool \<Rightarrow> (bool \<times> bool) res" where
  "policy_loop full_match direct_cmp line haystack [] final escaped ok = Inr (ok, escaped)"
| "policy_loop full_match direct_cmp line haystack (rp # rps) final escaped ok =
     (let opt = String2InsertMatch (case rp of Scalar s \<Rightarrow> Some s | _ \<Rightarrow> None)
      in if \<not> is_scalar rp \<and> rp \<noteq> NoScalar then Inl OutOfBounds
         else if opt = cf_exact_match then Inr (ok \<or> direct_cmp, escaped)
         else res_bind (apply_policy opt (if escaped then final else EscapeRegexChars line (int CF_BUFSIZE - 1))) (\<lambda>final1.
           policy_loop full_match direct_cmp line haystack rps final1 True (ok \<or> FullTextMatch full_match final1 haystack)))"

fun line_loop :: "(string \<Rightarrow> string \<Rightarrow> bool) \<Rightarrow> string \<Rightarrow> string \<Rightarrow> rval list \<Rightarrow> Item list \<Rightarrow> bool \<Rightarrow> bool \<Rightarrow> bool res" where
  "line_loop full_match camel haystack policies [] escaped ok = Inr ok"
| "line_loop full_match camel haystack policies (ip # ips) escaped ok =
     (let direct_cmp = (strcmp camel haystack = 0)
      in if policies = [] then Inr direct_cmp
         else res_bind (policy_loop full_match direct_cmp (name ip) haystack policies (take (CF_BUFSIZE - 1) (name ip)) escaped False) (\<lambda>(ok', escaped').
           if \<not> ok' then Inr False else line_loop full_match camel haystack policies ips escaped' ok'))"

definition MatchPolicy :: "(string \<Rightarrow> string \<Rightarrow> bool) \<Rightarrow> string \<Rightarrow> string \<Rightarrow> rval list \<Rightarrow> bool res" where
  "MatchPolicy full_match camel haystack policies =
     res_bind (SplitString camel (CHR 0x0A)) (\<lambda>list. line_loop full_match camel haystack policies list False False)"

section \<open>The variables of a match\<close>

fun group_vars :: "string \<Rightarrow> nat \<Rightarrow> groups \<Rightarrow> (rval, cfdatatype) CfAssoc list" where
  "group_vars s i [] = []"
| "group_vars s i (g # gs) = \<lparr>lval = show_nat i, rval = Scalar (group_text s g), dtype = cf_str\<rparr> # group_vars s (i + 1) gs"

lemma show_nat_digit: "i < 10 \<Longrightarrow> show_nat i = [digit_char i]"
  by (subst show_nat.simps) simp

lemma digit_var:
  assumes "i < 10"
  shows "simple_var (show_nat i)" "take 2 (show_nat i) = show_nat i"
proof -
  have "CHR ''$'' \<notin> set (show_nat i)" "CHR ''.'' \<notin> set (show_nat i)"
    using show_nat_digits [of i] by (auto simp: list_all_iff c_isdigit_def)
  then show "simple_var (show_nat i)" using assms by (simp add: simple_var_def show_nat_digit CF_MAXVARSIZE_def)
qed (use assms in \<open>simp add: show_nat_digit\<close>)

lemma find_var_tiny: "GetScope st scope = Some p \<Longrightarrow> hashtable p = TinyTable vs \<Longrightarrow> find_var st scope lv = TinyHashLookupElement vs lv"
  by (simp add: find_var_def HashLookupElement_def)

lemma ForceScalar_new:
  assumes "GetScope st ''match'' = Some p" "hashtable p = TinyTable vs" "length vs < TINY_LIMIT" "TinyHashLookupElement vs lv = None"
    "simple_var lv" "\<not> StringContainsVar (Some v) lv"
  shows "ForceScalar (Suc n) cf_agent st lv v =
    ret (set_table (scope_ptr p) (TinyTable (vs @ [\<lparr>lval = lv, rval = Scalar v, dtype = cf_str\<rparr>])) st)"
proof -
  have get: "GetVariable (Suc n) st ''match'' lv = ret (cf_notype, Scalar lv)"
    using GetVariable_simple [OF assms(5), of "''match''" n st] find_var_tiny [OF assms(1,2), of lv] assms(4) by (simp add: CF_MAXVARSIZE_def)
  have len: "length lv \<le> CF_MAXVARSIZE" using assms(5) unfolding simple_var_def by linarith
  have new: "\<not> (\<exists>a \<in> set vs. strcmp (lval a) lv = 0)" using assms(4) by (simp add: tiny_absent)
  have ins: "HashInsertElement (\<lambda>_. Scalar v) (TinyTable vs) lv (Scalar v) cf_str =
      (True, TinyTable (vs @ [\<lparr>lval = lv, rval = Scalar v, dtype = cf_str\<rparr>]))"
    using assms(3) new by (simp add: HashInsertElement_def TinyHashInsertElement_def NewAssoc_def)
  have copy: "copy_value (Suc n) st (Scalar v) = ret (Scalar v)" by (simp add: copy_value_def CopyRvalItem_def)
  have add: "AddVariableHash (Suc n) st ''match'' lv (Scalar v) cf_str =
      ret (True, set_table (scope_ptr p) (TinyTable (vs @ [\<lparr>lval = lv, rval = Scalar v, dtype = cf_str\<rparr>])) st)"
    using assms(1,2,4,6) len by (simp add: AddVariableHash_def no_value_def store_variable_def contains_itself_def copy ins HashLookupElement_def)
  show ?thesis unfolding ForceScalar_def NewScalar_def by (simp add: get add assms(1) del: GetVariable.simps)
qed


lemma no_reference: "CHR ''$'' \<notin> set s \<Longrightarrow> CHR ''@'' \<notin> set s \<Longrightarrow> \<not> StringContainsVar (Some s) v"
  unfolding StringContainsVar_def by simp (induction s; auto)

lemma set_table_twice:
  "set_table q t' (set_table q t st) = set_table q t' st"
  by (simp add: set_table_def at_scope_def)

lemma group_vars_append: "group_vars s i (gs @ hs) = group_vars s i gs @ group_vars s (i + length gs) hs"
  by (induction gs arbitrary: i) simp_all

lemma group_vars_length [simp]: "length (group_vars s i gs) = length gs"
  by (induction gs arbitrary: i) simp_all

lemma group_vars_absent: "j \<ge> i + length gs \<Longrightarrow> j < 10 \<Longrightarrow> TinyHashLookupElement (group_vars s i gs) (show_nat j) = None"
  by (induction gs arbitrary: i) (auto simp: TinyHashLookupElement_def show_nat_digit digit_char_def)

lemma group_text_plain: "set (group_text s g) \<subseteq> set s"
  by (auto simp: group_text_def substr_def split: option.split dest: in_set_takeD in_set_dropD)

lemma set_groups_run:
  assumes "CHR ''$'' \<notin> set s" "CHR ''@'' \<notin> set s"
  shows "GetScope st ''match'' = Some p \<Longrightarrow> hashtable p = TinyTable (group_vars s 0 gs) \<Longrightarrow> length gs + length hs \<le> 10 \<Longrightarrow>
    \<forall>g \<in> set hs. g \<noteq> None \<and> group_length g < int CF_MAXVARSIZE \<Longrightarrow>
    set_groups (Suc n) cf_agent st s (length gs) hs =
      ret (if hs = [] then st else set_table (scope_ptr p) (TinyTable (group_vars s 0 (gs @ hs))) st)"
proof (induction hs arbitrary: gs st p)
  case (Cons h hs)
  have d: "length gs < 10" using Cons.prems(3) by simp
  from Cons.prems(4) obtain h' where h': "h = Some h'" by auto
  let ?t = "TinyTable (group_vars s 0 (gs @ [h]))"
  let ?st = "set_table (scope_ptr p) ?t st"
  have v: "\<not> StringContainsVar (Some (group_text s h)) (show_nat (length gs))"
    by (rule no_reference) (use assms group_text_plain [of s h] in auto)
  have "ForceScalar (Suc n) cf_agent st (take 2 (show_nat (length gs))) (group_text s h) = ret ?st"
    using ForceScalar_new [OF Cons.prems(1,2) _ group_vars_absent [of 0 gs "length gs" s] digit_var(1) [OF d] v, of n] d
    by (simp add: digit_var(2) group_vars_append TINY_LIMIT_def)
  moreover have "GetScope ?st ''match'' = Some (p\<lparr>hashtable := ?t\<rparr>)" using Cons.prems(1) by (simp add: GetScope_set_table)
  ultimately show ?case
    using Cons.IH [of ?st "p\<lparr>hashtable := ?t\<rparr>" "gs @ [h]"] Cons.prems(3,4) h' by (simp add: set_table_twice)
qed simp

text \<open>The matcher that the other parts take as a parameter.\<close>

definition full_match_of :: "pcre \<Rightarrow> string \<Rightarrow> string \<Rightarrow> bool" where
  "full_match_of pcre re s = (case pcre re of
     None \<Rightarrow> False
   | Some rx \<Rightarrow> (case rx s of Some (Some (a, b) # _) \<Rightarrow> a = 0 \<and> b = length s | _ \<Rightarrow> False))"

lemma remove_scope_absent: "distinct (map scope_name cs) \<Longrightarrow> nm \<notin> set (map scope_name (remove_scope nm cs))"
  by (induction cs) auto

definition match_scope :: "var_state \<Rightarrow> string \<Rightarrow> groups \<Rightarrow> var_state" where
  "match_scope st s g = st\<lparr>VSCOPE := \<lparr>scope_ptr = next_ptr st, scope_name = ''match'', hashtable = TinyTable (group_vars s 0 g)\<rparr> #
     remove_scope ''match'' (VSCOPE st), next_ptr := next_ptr st + 1\<rparr>"

lemma RegExMatchSubString_run:
  assumes wf: "vars_wf st" and rx: "rx s = Some (Some (a, b) # g)" "length g < 10"
    and fits: "\<forall>h \<in> set (Some (a, b) # g). h \<noteq> None \<and> group_length h < int CF_MAXVARSIZE" and plain: "CHR ''$'' \<notin> set s" "CHR ''@'' \<notin> set s"
  shows "RegExMatchSubString (Suc n) cf_agent st rx s = ret (match_scope st s (Some (a, b) # g), Some (a, b))"
proof -
  let ?st = "NewScope (DeleteScope st ''match'') ''match''"
  let ?p = "\<lparr>scope_ptr = next_ptr st, scope_name = ''match'', hashtable = HashInit\<rparr> :: Scope"
  have "''match'' \<notin> set (map scope_name (remove_scope ''match'' (VSCOPE st)))"
    using wf by (intro remove_scope_absent) (simp add: vars_wf_def)
  then have "\<forall>cp \<in> set (remove_scope ''match'' (VSCOPE st)). scope_name cp \<noteq> ''match''" by force
  then have st: "?st = st\<lparr>VSCOPE := ?p # remove_scope ''match'' (VSCOPE st), next_ptr := next_ptr st + 1\<rparr>"
    by (simp add: NewScope_def DeleteScope_def list_ex_iff)
  have get: "GetScope ?st ''match'' = Some ?p" by (simp add: st GetScope_def)
  have fresh: "\<forall>p \<in> set (remove_scope ''match'' (VSCOPE st)). scope_ptr p \<noteq> next_ptr st"
  proof
    fix p assume "p \<in> set (remove_scope ''match'' (VSCOPE st))"
    then have "p \<in> set (VSCOPE st)" using remove_scope_set by (rule rev_subsetD)
    with wf have "scope_ptr p < next_ptr st" by (simp add: vars_wf_def list_all_iff)
    then show "scope_ptr p \<noteq> next_ptr st" by simp
  qed
  then have other: "map (\<lambda>cp. if scope_ptr cp = next_ptr st then f cp else cp) (remove_scope ''match'' (VSCOPE st)) = remove_scope ''match'' (VSCOPE st)" for f
    by (intro map_idI) simp
  have gc: "group_count (Some (a, b) # g) = length (Some (a, b) # g)" using rx(2) by (simp add: group_count_def OVECCOUNT_def)
  have table: "set_table (scope_ptr ?p) (TinyTable (group_vars s 0 ([] @ Some (a, b) # g))) ?st = match_scope st s (Some (a, b) # g)"
    by (rule var_state.equality) (simp_all add: st match_scope_def set_table_def at_scope_def other)
  have "set_groups (Suc n) cf_agent ?st s (length ([] :: groups)) (Some (a, b) # g) = ret (match_scope st s (Some (a, b) # g))"
    unfolding table [symmetric]
    by (subst set_groups_run [OF plain get]) (use rx(2) fits in \<open>auto simp: HashInit_def\<close>)
  with rx(1) gc show ?thesis by (simp add: RegExMatchSubString_def)
qed


text \<open>C36: in the agent, matching a text without dollar and at signs against an expression of up to nine groups, all of which take part and
  are short enough for a variable, ends and gives the answer of the plain matcher; a match replaces the scope \<open>match\<close> by one that holds
  exactly the texts of the groups under their numbers, except that an expression equal to the text matches without touching the scope.\<close>

lemma match_text_groups:
  assumes "vars_wf st" and "pcre re = Some rx"
    and "\<forall>g. rx s = Some g \<longrightarrow> g \<noteq> [] \<and> length g \<le> 10 \<and> (\<forall>h \<in> set g. h \<noteq> None \<and> group_length h < int CF_MAXVARSIZE)"
    and "CHR ''$'' \<notin> set s" "CHR ''@'' \<notin> set s"
  shows "match_text pcre (Suc n) cf_agent st re s =
    ret (if re = s then st else case rx s of None \<Rightarrow> st | Some g \<Rightarrow> match_scope st s g, FullTextMatch (full_match_of pcre) re s)"
proof (cases "re = s")
  case True
  then show ?thesis by (simp add: match_text_def FullTextMatch_def)
next
  case differ: False
  show ?thesis
  proof (cases "rx s")
    case None
    with differ assms(2) show ?thesis
      by (simp add: match_text_def RegExMatchFullString_def RegExMatchSubString_def FullTextMatch_def full_match_of_def)
  next
    case (Some g)
    with assms(3) obtain a b g' where g: "g = Some (a, b) # g'" "length g' < 10"
      "\<forall>h \<in> set (Some (a, b) # g'). h \<noteq> None \<and> group_length h < int CF_MAXVARSIZE"
      by (cases g) auto
    from RegExMatchSubString_run [where rx = rx and s = s and n = n, OF assms(1) Some [unfolded g(1)] g(2,3) assms(4,5)] Some assms(2) differ
    show ?thesis
      by (simp add: match_text_def RegExMatchFullString_def FullTextMatch_def full_match_of_def g(1))
  qed
qed

definition sample_pcre :: pcre where
  "sample_pcre re = (if re = ''(.)b'' then Some (\<lambda>s. if s = ''ab'' then Some [Some (0, 2), Some (0, 1)] else None) else None)"

lemma match_text_groups_witness:
  "\<exists>st. match_text sample_pcre 1 cf_agent looping_state ''(.)b'' ''ab'' = ret (st, True) \<and> find_var st ''match'' ''1'' = Some \<lparr>lval = ''1'', rval = Scalar ''a'', dtype = cf_str\<rparr>"
proof -
  have "match_text sample_pcre (Suc 0) cf_agent looping_state ''(.)b'' ''ab'' =
      ret (match_scope looping_state ''ab'' [Some (0, 2), Some (0, 1)], FullTextMatch (full_match_of sample_pcre) ''(.)b'' ''ab'')"
    by (subst match_text_groups [OF looping_wf]) (auto simp: sample_pcre_def group_length_def CF_MAXVARSIZE_def)
  moreover have "FullTextMatch (full_match_of sample_pcre) ''(.)b'' ''ab''"
    by (simp add: FullTextMatch_def full_match_of_def sample_pcre_def)
  moreover have "find_var (match_scope looping_state ''ab'' [Some (0, 2), Some (0, 1)]) ''match'' ''1'' =
      Some \<lparr>lval = ''1'', rval = Scalar ''a'', dtype = cf_str\<rparr>"
    by (simp add: find_var_def match_scope_def GetScope_def HashLookupElement_def TinyHashLookupElement_def show_nat.simps digit_char_def group_text_def substr_def) code_simp
  ultimately show ?thesis by (auto simp: ret_def)
qed

section \<open>Quoting\<close>

definition quoted :: "char \<Rightarrow> string" where
  "quoted c = (if c_isalnum c then [c] else [CHR 0x5C, c])"

fun unquoted :: "string \<Rightarrow> string" where
  "unquoted (c # d # s) = (if c = CHR 0x5C then d # unquoted s else c # unquoted (d # s))"
| "unquoted s = s"

lemma unquoted_quoted: "unquoted (concat (map quoted s)) = s"
proof (induction s)
  case (Cons c s)
  have "c_isalnum c \<Longrightarrow> c \<noteq> CHR 0x5C" by (auto simp: c_isalnum_def c_isdigit_def c_isupper_def c_islower_def)
  with Cons show ?case by (cases s) (auto simp: quoted_def)
qed simp

lemma escape_special_quotes: "int pos + 2 * int (length s) + 2 \<le> int sz \<Longrightarrow> escape_special [] [] sz s pos = Inr (concat (map quoted s))"
proof (induction s arbitrary: pos)
  case (Cons c s)
  let ?l = "length (quoted c)"
  have l: "?l \<le> 2" by (simp add: quoted_def)
  then have "int (pos + ?l) + 2 * int (length s) + 2 \<le> int sz" using Cons.prems by simp
  from Cons.IH [OF this] l Cons.prems show ?case
    by (subst escape_special.simps) (auto simp: Let_def quoted_def [of c] split: if_splits)
qed (simp add: escape_special.simps)

text \<open>without exceptions \<open>EscapeSpecialChars\<close> puts a backslash before exactly the characters that are neither letters nor digits,
  and taking the backslashes away gives the text back.\<close>

lemma EscapeSpecialChars_quotes:
  assumes "2 * length s + 2 \<le> sz"
  shows "EscapeSpecialChars s sz None None = Inr (concat (map quoted s)) \<and> unquoted (concat (map quoted s)) = s"
  using assms escape_special_quotes [of 0 s sz] by (simp add: EscapeSpecialChars_def unquoted_quoted)

lemma EscapeSpecialChars_quotes_witness:
  "EscapeSpecialChars ''a.b'' 8 None None = Inr (''a'' @ [CHR 0x5C] @ ''.b'')"
  using EscapeSpecialChars_quotes [of "''a.b''" 8] by (simp add: quoted_def c_isalnum_def c_isdigit_def c_isupper_def c_islower_def)

lemma starts_with_first: "q \<noteq> [] \<Longrightarrow> c \<noteq> hd q \<Longrightarrow> \<not> starts_with q (c # s)"
  by (cases q) auto

lemma starts_with_self [simp]: "starts_with q q"
  by (induction q) auto

text \<open>a text that ends with the sequence that is not to be escaped makes \<open>EscapeSpecialChars\<close> read behind its end.\<close>

lemma EscapeSpecialChars_overrun:
  assumes "q \<noteq> []" "hd q \<notin> set p" "2 * length p + length q + 2 \<le> sz"
  shows "EscapeSpecialChars (p @ q) sz (Some q) l = Inl OutOfBounds"
proof -
  have "int pos + 2 * int (length p) + int (length q) + 2 \<le> int sz \<Longrightarrow> escape_special q l' sz (p @ q) pos = Inl OutOfBounds" for pos l'
    using assms(2)
  proof (induction p arbitrary: pos)
    case Nil
    moreover obtain c0 q' where "q = c0 # q'" using assms(1) by (cases q) auto
    ultimately show ?case by (subst escape_special.simps) (auto simp: Let_def)
  next
    case (Cons c p)
    let ?out = "if c \<in> set l' \<or> c_isalnum c then [c] else [CHR 0x5C, c]"
    have l: "length ?out \<le> 2" by simp
    have n: "\<not> starts_with q (c # p @ q)" using Cons.prems assms(1) by (intro starts_with_first) auto
    have "int (pos + length ?out) + 2 * int (length p) + int (length q) + 2 \<le> int sz" using Cons.prems(1) by auto
    then have "escape_special q l' sz (p @ q) (pos + length ?out) = Inl OutOfBounds" using Cons.IH Cons.prems(2) by simp
    then show ?case using Cons.prems(1) n by (subst escape_special.simps) (auto simp: Let_def)
  qed
  from this [of 0] assms(3) show ?thesis by (simp add: EscapeSpecialChars_def)
qed

lemma EscapeSpecialChars_overrun_witness:
  "EscapeSpecialChars ''foo-(.*)'' 4096 (Some ''(.*)'') None = Inl OutOfBounds"
  using EscapeSpecialChars_overrun [of "''(.*)''" "''foo-''" 4096 None] by simp

section \<open>Lines\<close>

lemma IsRegex_operator: "IsRegex s \<Longrightarrow> \<exists>c \<in> set s. c \<in> set ''*+[|''"
proof (rule ccontr)
  have none: "set s \<inter> set ''*+[|'' = {} \<Longrightarrow> \<not> is_regex_loop s first special bracket paren False" for first special bracket paren
  proof (induction s arbitrary: first special bracket paren)
    case (Cons c s)
    then have IH: "\<not> is_regex_loop s first special bracket paren False" for first special bracket paren by simp
    have ne: "c \<noteq> CHR ''*''" "c \<noteq> CHR ''+''" "c \<noteq> CHR ''[''" "c \<noteq> CHR ''|''" using Cons.prems by auto
    show ?case by (simp add: IH ne)
  qed simp
  assume "IsRegex s" "\<not> (\<exists>c \<in> set s. c \<in> set ''*+[|'')"
  then show False using none unfolding IsRegex_def by blast
qed

text \<open>With the policy of exact matches the lines are compared as they are.\<close>

lemma MatchPolicy_exact:
  assumes "SplitString camel (CHR 0x0A) = Inr ips" "ips \<noteq> []" "policies = [] \<or> policies = [Scalar ''exact_match'']"
  shows "MatchPolicy full_match camel haystack policies = Inr (camel = haystack)"
proof -
  have "String2InsertMatch (Some ''exact_match'') = cf_exact_match" by (simp add: String2InsertMatch_def option_value_def)
  then have "line_loop full_match camel haystack policies ips escaped ok = (if ips = [] then Inr ok else Inr (camel = haystack))" for escaped ok
    using assms(3) by (induction ips arbitrary: escaped ok) (auto simp: Let_def is_scalar_def rtype_def)
  with assms(1,2) show ?thesis by (simp add: MatchPolicy_def)
qed

text \<open>with a policy that ignores leading blanks, the first line of a text to insert is escaped before it is taken as an
  expression, and the second line is not.\<close>

lemma MatchPolicy_second_line:
  assumes "SplitString camel (CHR 0x0A) = Inr [a, b]" "length (name a) < 2000" "length (name b) < 4000"
  shows "MatchPolicy full_match camel haystack [Scalar ''ignore_leading''] =
    Inr (FullTextMatch full_match (ignore_leading (EscapeRegexChars (name a) (int CF_BUFSIZE - 1))) haystack \<and>
         FullTextMatch full_match (ignore_leading (name b)) haystack)"
proof -
  have "String2InsertMatch (Some ''ignore_leading'') = cf_ignore_leading" by (simp add: String2InsertMatch_def option_value_def)
  with assms show ?thesis
    by (simp add: MatchPolicy_def Let_def is_scalar_def rtype_def apply_policy_def CF_BUFSIZE_def)
qed

end
