(* ===== verification/CF_Functions.thy ===== *)
theory CF_Functions
  imports CF_Matching CF_Syntax CF_Names CF_Iteration
begin

text \<open>
  The built-in functions of the policy language (\<open>src/evalfunction.c\<close>) that work on texts, classes, lists and arrays, and the
  calls of functions (\<open>src/fncall.c\<close>, \<open>src/args.c\<close>).  What a function asks of the host is in the record \<open>fn_env\<close>: the regular
  expressions, the files it reads, the names of the host, the environment.  The texts of a match are stored by the functions
  whose caller may read them; the traces that splitting a text leaves in the scope \<open>match\<close> are left out.
\<close>

section \<open>Arguments and results\<close>

datatype fncall_result = FNCALL_SUCCESS (result_value: rval) | FNCALL_FAILURE

text \<open>The record of \<open>stat\<close>, the fields that are read.\<close>

datatype file_kind = regular_file | directory | symbolic_link | other_file

record stat_buf =
  st_mtime :: int
  st_atime :: int
  st_ctime :: int
  st_kind :: file_kind
  st_executable :: bool
  st_size :: int

record 'd fn_env =
  e_pcre :: pcre
  e_real :: "'d real_ops"
  e_lf :: "'d \<Rightarrow> string"                              \<comment> \<open>printing with \<open>%lf\<close>\<close>
  CFSTARTTIME :: int
  e_now :: int
  VYEAR :: string
  VMONTH :: string
  VFQNAME :: string
  VUQNAME :: string
  THIS_BUNDLE :: string
  THIS_AGENT_TYPE :: cfagenttype
  fopen :: "string \<Rightarrow> string option"                   \<comment> \<open>the contents of a file that can be opened\<close>
  cfstat :: "string \<Rightarrow> stat_buf option"
  lstat :: "string \<Rightarrow> stat_buf option"
  opendir :: "string \<Rightarrow> string list option"
  getenv :: "string \<Rightarrow> string option"
  getpwent :: "(string \<times> int) list"
  getnetgrent :: "string \<Rightarrow> string option list"
  drand48 :: "int \<Rightarrow> int"                              \<comment> \<open>\<open>(int) (drand48() * range)\<close>\<close>
  IPString2Hostname :: "string \<Rightarrow> string"

definition full_match :: "'d fn_env \<Rightarrow> string \<Rightarrow> string \<Rightarrow> bool" where
  "full_match e = full_match_of (e_pcre e)"

definition block_match :: "'d fn_env \<Rightarrow> string \<Rightarrow> string \<Rightarrow> (nat \<times> nat) option" where
  "block_match e re s = (case e_pcre e re of
     None \<Rightarrow> None
   | Some rx \<Rightarrow> (case rx s of Some (Some m # _) \<Rightarrow> Some m | _ \<Rightarrow> None))"

definition CF_SMALLBUF :: nat where
  "CF_SMALLBUF = 128"

definition class_result :: "bool \<Rightarrow> fncall_result" where
  "class_result b = FNCALL_SUCCESS (Scalar (if b then ''any'' else ''!any''))"

text \<open>\<open>ScalarValue\<close> of the argument number \<open>i\<close>.\<close>

definition scalar_arg :: "rval list \<Rightarrow> nat \<Rightarrow> string res" where
  "scalar_arg args i =
     (if i < length args
      then res_bind (ScalarValue (args ! i)) (\<lambda>v. case v of None \<Rightarrow> Inl NullDereference | Some s \<Rightarrow> Inr s)
      else Inl NullDereference)"

definition with_arg :: "rval list \<Rightarrow> (string \<Rightarrow> 'a res) \<Rightarrow> 'a res" where
  "with_arg args f = res_bind (scalar_arg args 0) f"

definition with_args :: "rval list \<Rightarrow> (string \<Rightarrow> string \<Rightarrow> 'a res) \<Rightarrow> 'a res" where
  "with_args args f = res_bind (scalar_arg args 0) (\<lambda>a. res_bind (scalar_arg args 1) (f a))"

text \<open>A \<open>long\<close> stored in an \<open>int\<close>.\<close>

definition as_int :: "int \<Rightarrow> int" where
  "as_int i = sint (word_of_int i :: 32 word)"

definition int_arg :: "'d fn_env \<Rightarrow> rval list \<Rightarrow> nat \<Rightarrow> int res" where
  "int_arg e args i = res_bind (scalar_arg args i) (\<lambda>s. res_bind (Str2Int (CFSTARTTIME e) (Some s)) (\<lambda>v. Inr (as_int v)))"

text \<open>The item of a list, used as a text.\<close>

definition item_str :: "rval \<Rightarrow> string res" where
  "item_str v = (case v of Scalar s \<Rightarrow> Inr s | NoScalar \<Rightarrow> Inl NullDereference | _ \<Rightarrow> Inl OutOfBounds)"

fun item_strs :: "rval list \<Rightarrow> string list res" where
  "item_strs [] = Inr []"
| "item_strs (v # l) = res_bind (item_str v) (\<lambda>s. res_bind (item_strs l) (\<lambda>ss. Inr (s # ss)))"

section \<open>Classes\<close>

fun and_loop :: "context_state \<Rightarrow> string \<Rightarrow> rval list \<Rightarrow> fncall_result res" where
  "and_loop ctx namespace [] = Inr (class_result True)"
| "and_loop ctx namespace (arg # args) = res_bind (ScalarValue arg) (\<lambda>v.
     if \<not> IsDefinedClass ctx v (Some namespace) then Inr (class_result False) else and_loop ctx namespace args)"

fun or_loop :: "context_state \<Rightarrow> string \<Rightarrow> rval list \<Rightarrow> fncall_result res" where
  "or_loop ctx namespace [] = Inr (class_result False)"
| "or_loop ctx namespace (arg # args) = res_bind (ScalarValue arg) (\<lambda>v.
     if IsDefinedClass ctx v (Some namespace) then Inr (class_result True) else or_loop ctx namespace args)"

text \<open>The arguments of a function with any number of them are checked as texts without a range; what is reported then is fatal.\<close>

definition check_varargs :: "'d fn_env \<Rightarrow> string \<Rightarrow> rval list \<Rightarrow> unit res" where
  "check_varargs e id' args = checked_at_run_time (check_items (full_match e) (e_real e) (CFSTARTTIME e) id' args cf_str (Pattern []))"

definition FnCallAnd :: "'d fn_env \<Rightarrow> context_state \<Rightarrow> string \<Rightarrow> rval list \<Rightarrow> fncall_result res" where
  "FnCallAnd e ctx namespace args = res_bind (check_varargs e ''built-in FnCall and-arg'' args) (\<lambda>_. and_loop ctx namespace args)"

definition FnCallOr :: "'d fn_env \<Rightarrow> context_state \<Rightarrow> string \<Rightarrow> rval list \<Rightarrow> fncall_result res" where
  "FnCallOr e ctx namespace args = res_bind (check_varargs e ''built-in FnCall or-arg'' args) (\<lambda>_. or_loop ctx namespace args)"

definition FnCallNot :: "context_state \<Rightarrow> string \<Rightarrow> rval list \<Rightarrow> fncall_result res" where
  "FnCallNot ctx namespace args = with_arg args (\<lambda>c. Inr (class_result (\<not> IsDefinedClass ctx (Some c) (Some namespace))))"

definition FnCallClassify :: "context_state \<Rightarrow> string \<Rightarrow> rval list \<Rightarrow> fncall_result res" where
  "FnCallClassify ctx namespace args = with_arg args (\<lambda>s. res_bind (CanonifyName s) (\<lambda>c.
     Inr (class_result (IsDefinedClass ctx (Some c) (Some namespace)))))"

definition FnCallClassMatch :: "'d fn_env \<Rightarrow> context_state \<Rightarrow> rval list \<Rightarrow> fncall_result res" where
  "FnCallClassMatch e ctx args = with_arg args (\<lambda>re. Inr (class_result
     (MatchInAlphaList (full_match e) (VHARDHEAP ctx) re \<or> MatchInAlphaList (full_match e) (VHEAP ctx) re \<or>
      MatchInAlphaList (full_match e) (VADDCLASSES ctx) re)))"

text \<open>An expression that starts like a class name is only compared with the classes of the same first character.\<close>

definition heap_matches :: "'d fn_env \<Rightarrow> string \<Rightarrow> AlphaList \<Rightarrow> nat \<Rightarrow> nat" where
  "heap_matches e re heap i = length (filter (\<lambda>ip. FullTextMatch (full_match e) re (name ip)) (heap i))"

definition class_heaps :: "context_state \<Rightarrow> AlphaList list" where
  "class_heaps ctx = [VHEAP ctx, VHARDHEAP ctx, VADDCLASSES ctx]"

definition FnCallCountClassesMatching :: "'d fn_env \<Rightarrow> context_state \<Rightarrow> rval list \<Rightarrow> fncall_result res" where
  "FnCallCountClassesMatching e ctx args = with_arg args (\<lambda>re.
     let i = of_char (char_at re 0) :: nat;
         n = (if c_isalnum (char_at re 0) \<or> char_at re 0 = CHR ''_''
              then sum_list (map (\<lambda>h. heap_matches e re h i) (class_heaps ctx))
              else sum_list (map (\<lambda>i. sum_list (map (\<lambda>h. heap_matches e re h i) (class_heaps ctx))) [0..<CF_ALPHABETSIZE]))
     in Inr (FNCALL_SUCCESS (Scalar (show_nat n))))"

definition two_digits :: "nat \<Rightarrow> string" where
  "two_digits n = (if n < 10 then ''0'' @ show_nat n else show_nat n)"

definition slot_class :: "nat \<Rightarrow> string" where
  "slot_class slot = ''Min'' @ two_digits (slot * 5) @ ''_'' @ two_digits (((slot + 1) * 5) mod 60)"

definition FnCallSplayClass :: "context_state \<Rightarrow> string \<Rightarrow> rval list \<Rightarrow> fncall_result res" where
  "FnCallSplayClass ctx namespace args = with_args args (\<lambda>s policy.
     let c = (if Str2Interval (Some policy) = cfa_hourly then slot_class (GetHash s * 12 div CF_HASHTABLESIZE)
              else let dayslot = GetHash s * 12 * 24 div CF_HASHTABLESIZE
                   in slot_class (dayslot mod 12) @ ''.Hr'' @ two_digits (dayslot div 12))
     in Inr (class_result (IsDefinedClass ctx (Some c) (Some namespace))))"

section \<open>Texts\<close>

fun concat_loop :: "string \<Rightarrow> rval list \<Rightarrow> fncall_result res" where
  "concat_loop result [] = Inr (FNCALL_SUCCESS (Scalar result))"
| "concat_loop result (arg # args) = res_bind (ScalarValue arg) (\<lambda>v. case v of
     None \<Rightarrow> Inl NullDereference
   | Some s \<Rightarrow>
       if length result + length s \<ge> CF_BUFSIZE then Inr FNCALL_FAILURE else concat_loop (strlcat result s CF_BUFSIZE) args)"

definition FnCallConcat :: "'d fn_env \<Rightarrow> rval list \<Rightarrow> fncall_result res" where
  "FnCallConcat e args = res_bind (check_varargs e ''built-in FnCall concat-arg'' args) (\<lambda>_. concat_loop [] args)"

definition FnCallCanonify :: "rval list \<Rightarrow> fncall_result res" where
  "FnCallCanonify args = with_arg args (\<lambda>s. res_bind (CanonifyName s) (\<lambda>c. Inr (FNCALL_SUCCESS (Scalar c))))"

definition FnCallEscape :: "rval list \<Rightarrow> fncall_result res" where
  "FnCallEscape args = with_arg args (\<lambda>s.
     res_bind (EscapeSpecialChars s (CF_BUFSIZE - 1) (Some []) (Some [])) (\<lambda>t. Inr (FNCALL_SUCCESS (Scalar t))))"

definition FnCallDirname :: "rval list \<Rightarrow> fncall_result res" where
  "FnCallDirname args = with_arg args (\<lambda>s. Inr (FNCALL_SUCCESS (Scalar (snd (ChopLastNode (DeleteSlash s))))))"

definition FnCallLastNode :: "'d fn_env \<Rightarrow> rval list \<Rightarrow> fncall_result res" where
  "FnCallLastNode e args = with_args args (\<lambda>s split. res_bind (SplitRegexAsRList (block_match e) (Some s) split 100 True) (\<lambda>l.
     case RlistLast l of None \<Rightarrow> Inr FNCALL_FAILURE | Some v \<Rightarrow> res_bind (item_str v) (\<lambda>t. Inr (FNCALL_SUCCESS (Scalar t)))))"

definition FnCallStrCmp :: "rval list \<Rightarrow> fncall_result res" where
  "FnCallStrCmp args = with_args args (\<lambda>a b. Inr (class_result (strcmp a b = 0)))"

definition MAX_FILENAME :: nat where
  "MAX_FILENAME = 254"

definition FnCallTranslatePath :: "rval list \<Rightarrow> fncall_result res" where
  "FnCallTranslatePath args = with_arg args (\<lambda>s. Inr (FNCALL_SUCCESS (Scalar (take (MAX_FILENAME - 1) s))))"

definition FnCallSplitString :: "'d fn_env \<Rightarrow> rval list \<Rightarrow> fncall_result res" where
  "FnCallSplitString e args = with_args args (\<lambda>s split. res_bind (int_arg e args 2) (\<lambda>mx.
     res_bind (SplitRegexAsRList (block_match e) (Some s) split (nat mx) True) (\<lambda>l.
       Inr (FNCALL_SUCCESS (ListVal (if l = [] then [Scalar ''cf_null''] else l))))))"

text \<open>An expression and a text; the groups of a match are stored.\<close>

definition FnCallRegCmp :: "'d fn_env \<Rightarrow> nat \<Rightarrow> var_state \<Rightarrow> rval list \<Rightarrow> (var_state \<times> fncall_result) run" where
  "FnCallRegCmp e n st args = run_bind (Some (with_args args (\<lambda>a b. Inr (a, b)))) (\<lambda>(re, s).
     run_bind (match_text (e_pcre e) n (THIS_AGENT_TYPE e) st re s) (\<lambda>(st1, b). ret (st1, class_result b)))"

text \<open>The scope of an earlier match is copied as well when there is none this time.\<close>

fun extract_loop :: "nat \<Rightarrow> var_state \<Rightarrow> string \<Rightarrow> string \<Rightarrow> (rval, cfdatatype) CfAssoc list \<Rightarrow> bool \<Rightarrow> (var_state \<times> fncall_result) run" where
  "extract_loop n st bundle arrayname [] b = ret (st, class_result b)"
| "extract_loop n st bundle arrayname (a # as) b = (case CfAssoc.rval a of
     Scalar v \<Rightarrow> run_bind (NewScalar n st bundle (take (CF_MAXVARSIZE - 2) (arrayname @ ''['' @ lval a @ '']'')) v cf_str) (\<lambda>st1.
       extract_loop n st1 bundle arrayname as b)
   | NoScalar \<Rightarrow> Some (Inl NullDereference)
   | _ \<Rightarrow> ret (st, FNCALL_FAILURE))"

definition FnCallRegExtract :: "'d fn_env \<Rightarrow> nat \<Rightarrow> var_state \<Rightarrow> rval list \<Rightarrow> (var_state \<times> fncall_result) run" where
  "FnCallRegExtract e n st args = run_bind (Some (with_args args (\<lambda>a b. res_bind (scalar_arg args 2) (\<lambda>c. Inr (a, b, c))))) (\<lambda>(re, s, arrayname).
     run_bind (match_text (e_pcre e) n (THIS_AGENT_TYPE e) st re s) (\<lambda>(st1, b).
       case GetScope st1 ''match'' of
         None \<Rightarrow> ret (st1, class_result False)
       | Some p \<Rightarrow> extract_loop n st1 (THIS_BUNDLE e) arrayname (assocs (hashtable p)) b))"

section \<open>Numbers and dates\<close>

text \<open>A text is a number when it starts with one.\<close>

definition IsRealNumber :: "'d real_ops \<Rightarrow> string \<Rightarrow> bool" where
  "IsRealNumber d s \<longleftrightarrow> \<not> d_eq d (case scan_lf d s of None \<Rightarrow> CF_NODOUBLE d | Some (a, _) \<Rightarrow> a) (CF_NODOUBLE d)"

definition FnCallIsLessGreaterThan :: "'d fn_env \<Rightarrow> string \<Rightarrow> rval list \<Rightarrow> fncall_result res" where
  "FnCallIsLessGreaterThan e fn args = with_args args (\<lambda>s t.
     let d = e_real e; greater = (strcmp fn ''isgreaterthan'' = 0)
     in if IsRealNumber d s \<and> IsRealNumber d t then
          res_bind (at_run_time (Str2Double d (Some s))) (\<lambda>a. res_bind (at_run_time (Str2Double d (Some t))) (\<lambda>b.
            if d_eq d a (CF_NODOUBLE d) \<or> d_eq d b (CF_NODOUBLE d) then Inr FNCALL_FAILURE
            else Inr (class_result (if greater then d_less d b a else d_less d a b))))
        else if strcmp s t > 0 then Inr (class_result greater)
        else Inr (class_result (\<not> greater)))"

definition FnCallIRange :: "'d fn_env \<Rightarrow> rval list \<Rightarrow> fncall_result res" where
  "FnCallIRange e args = with_args args (\<lambda>s t.
     res_bind (Str2Int (CFSTARTTIME e) (Some s)) (\<lambda>from. res_bind (Str2Int (CFSTARTTIME e) (Some t)) (\<lambda>to.
       if from = CF_NOINT \<or> to = CF_NOINT then Inr FNCALL_FAILURE
       else Inr (FNCALL_SUCCESS (Scalar (show_int (min from to) @ '','' @ show_int (max from to)))))))"

text \<open>Swapping the bounds goes through an \<open>int\<close>.\<close>

definition FnCallRRange :: "'d fn_env \<Rightarrow> rval list \<Rightarrow> fncall_result res" where
  "FnCallRRange e args = with_args args (\<lambda>s t. let d = e_real e in
     res_bind (at_run_time (Str2Double d (Some s))) (\<lambda>from. res_bind (at_run_time (Str2Double d (Some t))) (\<lambda>to.
       if d_eq d from (CF_NODOUBLE d) \<or> d_eq d to (CF_NODOUBLE d) then Inl FatalErrorExit
       else let (lo, hi) = (if d_less d to from then (d_const d (d_trunc d to) 1, from) else (from, to))
       in Inr (FNCALL_SUCCESS (Scalar (take (CF_BUFSIZE - 2) (e_lf e lo @ '','' @ e_lf e hi)))))))"

definition FnCallRandomInt :: "'d fn_env \<Rightarrow> rval list \<Rightarrow> fncall_result res" where
  "FnCallRandomInt e args = res_bind (int_arg e args 0) (\<lambda>from. res_bind (int_arg e args 1) (\<lambda>to.
     if from = CF_NOINT \<or> to = CF_NOINT then Inr FNCALL_FAILURE
     else let (lo, hi) = (if from > to then (to, from) else (from, to))
          in if hi - lo > 2147483647 then Inl Overflow
             else Inr (FNCALL_SUCCESS (Scalar (show_int (lo + drand48 e (hi - lo)))))))"

text \<open>The six numbers of a date, as \<open>long\<close>; a missing argument leaves its number without a value.\<close>

definition date_args :: "'d fn_env \<Rightarrow> rval list \<Rightarrow> int list res" where
  "date_args e args =
     foldr (\<lambda>i r. res_bind (if i < length args then scalar_arg args i else Inl Uninitialised) (\<lambda>s.
       res_bind (Str2Int (CFSTARTTIME e) (Some s)) (\<lambda>v. res_bind r (\<lambda>vs. Inr (v # vs))))) [0..<6] (Inr [])"

definition FnCallAgoDate :: "'d fn_env \<Rightarrow> rval list \<Rightarrow> fncall_result res" where
  "FnCallAgoDate e args = res_bind (date_args e args) (\<lambda>d.
     res_bind (Months2Seconds (CFSTARTTIME e) (VYEAR e) (VMONTH e) (as_int (d ! 1))) (\<lambda>months.
     res_bind (long_res (CFSTARTTIME e - d ! 5 - d ! 4 * 60 - d ! 3 * 3600 - d ! 2 * 24 * 3600 - months - d ! 0 * 365 * 24 * 3600)) (\<lambda>cftime.
       Inr (FNCALL_SUCCESS (Scalar (if cftime < 0 then ''0'' else show_int cftime))))))"

definition FnCallAccumulatedDate :: "'d fn_env \<Rightarrow> rval list \<Rightarrow> fncall_result res" where
  "FnCallAccumulatedDate e args = res_bind (date_args e args) (\<lambda>d.
     res_bind (long_res (d ! 5 + d ! 4 * 60 + d ! 3 * 3600 + d ! 2 * 24 * 3600 + d ! 1 * 30 * 24 * 3600 + d ! 0 * 365 * 24 * 3600)) (\<lambda>cftime.
       Inr (FNCALL_SUCCESS (Scalar (show_int cftime)))))"

definition FnCallNow :: "'d fn_env \<Rightarrow> fncall_result res" where
  "FnCallNow e = Inr (FNCALL_SUCCESS (Scalar (show_int (CFSTARTTIME e))))"

section \<open>Lists and arrays\<close>

text \<open>
  The scope and the name of a list variable: what \<open>sscanf\<close> reads in front of the dot and behind it, at most \<open>limit\<close> characters
  of each, or the current scope.  The name is \<open>None\<close> when \<open>sscanf\<close> does not get to it.
\<close>

definition scan_word :: "nat \<Rightarrow> string \<Rightarrow> string option" where
  "scan_word limit s = (case take limit (takeWhile (\<lambda>c. \<not> c_isspace c) (dropWhile c_isspace s)) of [] \<Rightarrow> None | w \<Rightarrow> Some w)"

definition locate :: "nat \<Rightarrow> nat \<Rightarrow> string \<Rightarrow> string \<Rightarrow> (string \<times> string option) res" where
  "locate scope_limit limit current nm =
     (if CHR ''.'' \<in> set nm then
        let scopeid = takeWhile (\<lambda>c. c \<noteq> CHR ''.'') nm;
            v = scan_word limit (drop (length scopeid + 1) nm)
        in if scope_limit < length scopeid then Inr (take scope_limit scopeid, None)
           else if length scopeid \<ge> CF_MAXVARSIZE \<or> (case v of None \<Rightarrow> False | Some w \<Rightarrow> length w \<ge> CF_MAXVARSIZE) then Inl OutOfBounds
           else if scopeid = [] then Inr ([], None)
           else Inr (scopeid, v)
      else if length nm < CF_MAXVARSIZE then Inr (current, Some nm) else Inl OutOfBounds)"

text \<open>A list in a scope that exists: \<open>None\<close> when the function fails.\<close>

definition list_value :: "nat \<Rightarrow> var_state \<Rightarrow> string \<Rightarrow> string option \<Rightarrow> rval list option run" where
  "list_value n st scopeid lv = (case GetScope st scopeid of
     None \<Rightarrow> ret None
   | Some _ \<Rightarrow> (case lv of
       None \<Rightarrow> Some (Inl Uninitialised)
     | Some v \<Rightarrow> run_bind (GetVariable n st scopeid v) (\<lambda>(dt, rv).
         if dt = cf_notype then ret None
         else case rv of ListVal l \<Rightarrow> ret (Some l) | _ \<Rightarrow> ret None)))"

definition on_list :: "'a option run \<Rightarrow> ('a \<Rightarrow> fncall_result run) \<Rightarrow> fncall_result run" where
  "on_list r f = run_bind r (\<lambda>x. case x of None \<Rightarrow> ret FNCALL_FAILURE | Some l \<Rightarrow> f l)"

definition located_list :: "nat \<Rightarrow> var_state \<Rightarrow> nat \<Rightarrow> string \<Rightarrow> string \<Rightarrow> (rval list \<Rightarrow> fncall_result run) \<Rightarrow> fncall_result run" where
  "located_list n st scope_limit current nm f =
     run_bind (Some (locate scope_limit 127 current nm)) (\<lambda>(scopeid, lv). on_list (list_value n st scopeid lv) f)"

definition FnCallGrep :: "'d fn_env \<Rightarrow> nat \<Rightarrow> var_state \<Rightarrow> rval list \<Rightarrow> fncall_result run" where
  "FnCallGrep e n st args = run_bind (Some (with_args args (\<lambda>a b. Inr (a, b)))) (\<lambda>(re, nm).
     located_list n st 127 (CONTEXTID st) nm (\<lambda>l.
       run_bind (Some (item_strs l)) (\<lambda>ss.
         ret (FNCALL_SUCCESS (ListVal (Scalar CF_NULL_VALUE # map Scalar (filter (FullTextMatch (full_match e) re) ss)))))))"

text \<open>A sum, or a product, of the numbers of a list.\<close>

fun number_loop :: "'d real_ops \<Rightarrow> ('d \<Rightarrow> 'd \<Rightarrow> 'd) \<Rightarrow> 'd \<Rightarrow> rval list \<Rightarrow> 'd option res" where
  "number_loop d f acc [] = Inr (Some acc)"
| "number_loop d f acc (v # l) = res_bind (item_str v) (\<lambda>s. res_bind (at_run_time (Str2Double d (Some s))) (\<lambda>x.
     if d_eq d x (CF_NODOUBLE d) then Inr None else number_loop d f (f acc x) l))"

definition fold_numbers :: "'d fn_env \<Rightarrow> ('d \<Rightarrow> 'd \<Rightarrow> 'd) \<Rightarrow> 'd \<Rightarrow> nat \<Rightarrow> var_state \<Rightarrow> rval list \<Rightarrow> fncall_result run" where
  "fold_numbers e f start n st args = run_bind (Some (scalar_arg args 0)) (\<lambda>nm.
     located_list n st 127 (CONTEXTID st) nm (\<lambda>l.
       run_bind (Some (number_loop (e_real e) f start l)) (\<lambda>r.
         ret (case r of None \<Rightarrow> FNCALL_FAILURE | Some x \<Rightarrow> FNCALL_SUCCESS (Scalar (clip (e_lf e x)))))))"

definition FnCallSum :: "'d fn_env \<Rightarrow> nat \<Rightarrow> var_state \<Rightarrow> rval list \<Rightarrow> fncall_result run" where
  "FnCallSum e = fold_numbers e (d_add (e_real e)) (d_const (e_real e) 0 1)"

definition FnCallProduct :: "'d fn_env \<Rightarrow> nat \<Rightarrow> var_state \<Rightarrow> rval list \<Rightarrow> fncall_result run" where
  "FnCallProduct e = fold_numbers e (d_mul (e_real e)) (d_const (e_real e) 1 1)"

text \<open>The glue is left out behind the last item of the list only.\<close>

fun join_items :: "string \<Rightarrow> string list \<Rightarrow> string" where
  "join_items glue [] = []"
| "join_items glue (s # ss) =
     (if strcmp s CF_NULL_VALUE = 0 then join_items glue ss
      else s @ (if ss = [] then [] else glue @ join_items glue ss))"

definition FnCallJoin :: "nat \<Rightarrow> var_state \<Rightarrow> rval list \<Rightarrow> fncall_result run" where
  "FnCallJoin n st args = run_bind (Some (with_args args (\<lambda>a b. Inr (a, b)))) (\<lambda>(glue, nm).
     run_bind (Some (locate CF_BUFSIZE 127 ''this'' nm)) (\<lambda>(scopeid, lv). on_list (list_value n st scopeid lv) (\<lambda>l.
       run_bind (Some (item_strs l)) (\<lambda>ss. ret (FNCALL_SUCCESS (Scalar (join_items glue ss)))))))"

fun reg_list_loop :: "'d fn_env \<Rightarrow> string \<Rightarrow> rval list \<Rightarrow> bool res" where
  "reg_list_loop e re [] = Inr False"
| "reg_list_loop e re (v # l) = res_bind (item_str v) (\<lambda>s.
     if strcmp s CF_NULL_VALUE = 0 then reg_list_loop e re l
     else if FullTextMatch (full_match e) re s then Inr True else reg_list_loop e re l)"

definition FnCallRegList :: "'d fn_env \<Rightarrow> nat \<Rightarrow> var_state \<Rightarrow> rval list \<Rightarrow> fncall_result run" where
  "FnCallRegList e n st args = run_bind (Some (with_args args (\<lambda>a b. Inr (a, b)))) (\<lambda>(listvar, re).
     if char_at listvar 0 \<noteq> CHR ''@'' then ret FNCALL_FAILURE
     else run_bind (Some (GetNaked CF_MAXVARSIZE listvar)) (\<lambda>naked.
       run_bind (GetVariable n st (CONTEXTID st) naked) (\<lambda>(dt, rv).
         if dt = cf_notype then ret FNCALL_FAILURE
         else case rv of
             ListVal l \<Rightarrow> run_bind (Some (reg_list_loop e re l)) (\<lambda>b. ret (class_result b))
           | _ \<Rightarrow> ret FNCALL_FAILURE)))"

definition FnCallFileSexist :: "'d fn_env \<Rightarrow> nat \<Rightarrow> var_state \<Rightarrow> rval list \<Rightarrow> fncall_result run" where
  "FnCallFileSexist e n st args = run_bind (Some (scalar_arg args 0)) (\<lambda>listvar.
     if char_at listvar 0 \<noteq> CHR ''@'' then ret FNCALL_FAILURE
     else run_bind (Some (GetNaked CF_MAXVARSIZE listvar)) (\<lambda>naked.
       run_bind (GetVariable n st (CONTEXTID st) naked) (\<lambda>(dt, rv).
         if dt = cf_notype then ret FNCALL_FAILURE
         else case rv of
             ListVal l \<Rightarrow> run_bind (Some (item_strs l)) (\<lambda>ss. ret (class_result (list_all (\<lambda>f. cfstat e f \<noteq> None) ss)))
           | _ \<Rightarrow> ret FNCALL_FAILURE)))"

text \<open>The elements of an array are the variables whose name starts with its name and a bracket.\<close>

definition array_elements :: "string \<Rightarrow> Scope \<Rightarrow> (rval, cfdatatype) CfAssoc list" where
  "array_elements match p = filter (\<lambda>a. starts_with match (lval a)) (assocs (hashtable p))"

fun reg_array_loop :: "'d fn_env \<Rightarrow> string \<Rightarrow> (rval, cfdatatype) CfAssoc list \<Rightarrow> bool res" where
  "reg_array_loop e re [] = Inr False"
| "reg_array_loop e re (a # as) = res_bind (item_str (CfAssoc.rval a)) (\<lambda>s.
     if FullTextMatch (full_match e) re s then Inr True else reg_array_loop e re as)"

definition FnCallRegArray :: "'d fn_env \<Rightarrow> var_state \<Rightarrow> rval list \<Rightarrow> fncall_result res" where
  "FnCallRegArray e st args = with_args args (\<lambda>arrayname re.
     res_bind (locate CF_BUFSIZE CF_BUFSIZE (CONTEXTID st) arrayname) (\<lambda>(scopeid, lv). case GetScope st scopeid of
       None \<Rightarrow> Inr FNCALL_FAILURE
     | Some p \<Rightarrow> (case lv of
         None \<Rightarrow> Inl Uninitialised
       | Some v \<Rightarrow> res_bind (reg_array_loop e re (array_elements (clip (v @ ''['')) p)) (\<lambda>b. Inr (class_result b)))))"

definition array_match :: "string \<Rightarrow> string" where
  "array_match v = take (CF_MAXVARSIZE - 2) (take 127 v @ ''['')"

text \<open>The index of an element; without a closing bracket its last character is cut off, even when it has none.\<close>

definition index_of :: "string \<Rightarrow> string \<Rightarrow> string res" where
  "index_of match lv =
     (let index = take 127 (takeWhile (\<lambda>c. c \<noteq> CHR 0x0A) (drop (length match) lv))
      in if CHR '']'' \<in> set index then Inr (takeWhile (\<lambda>c. c \<noteq> CHR '']'') index)
         else if index = [] then Inl OutOfBounds else Inr (butlast index))"

fun index_loop :: "string \<Rightarrow> (rval, cfdatatype) CfAssoc list \<Rightarrow> rval list \<Rightarrow> rval list res" where
  "index_loop match [] l = Inr l"
| "index_loop match (a # as) l = res_bind (index_of match (lval a)) (\<lambda>index.
     res_bind (if length index > 0 then IdempAppendRScalar l (Scalar index) else Inr l) (index_loop match as))"

definition or_null :: "rval list \<Rightarrow> fncall_result" where
  "or_null l = FNCALL_SUCCESS (ListVal (if l = [] then [Scalar CF_NULL_VALUE] else l))"

definition FnCallGetIndices :: "var_state \<Rightarrow> rval list \<Rightarrow> fncall_result res" where
  "FnCallGetIndices st args = with_arg args (\<lambda>arrayname.
     res_bind (locate 127 127 (CONTEXTID st) arrayname) (\<lambda>(scopeid, lv). case GetScope st scopeid of
       None \<Rightarrow> Inr (or_null [])
     | Some p \<Rightarrow> (case lv of
         None \<Rightarrow> Inl Uninitialised
       | Some v \<Rightarrow> res_bind (index_loop (array_match v) (array_elements (array_match v) p) []) (\<lambda>l. Inr (or_null l)))))"

fun append_scalars :: "rval list \<Rightarrow> rval list \<Rightarrow> rval list res" where
  "append_scalars [] l = Inr l"
| "append_scalars (v # vs) l = res_bind (item_str v) (\<lambda>s. res_bind (IdempAppendRScalar l (Scalar s)) (append_scalars vs))"

fun value_loop :: "(rval, cfdatatype) CfAssoc list \<Rightarrow> rval list \<Rightarrow> rval list res" where
  "value_loop [] l = Inr l"
| "value_loop (a # as) l = res_bind (case CfAssoc.rval a of
       Scalar s \<Rightarrow> IdempAppendRScalar l (Scalar s)
     | NoScalar \<Rightarrow> Inl NullDereference
     | ListVal vs \<Rightarrow> append_scalars vs l
     | _ \<Rightarrow> Inr l) (value_loop as)"

definition FnCallGetValues :: "var_state \<Rightarrow> rval list \<Rightarrow> fncall_result res" where
  "FnCallGetValues st args = with_arg args (\<lambda>arrayname.
     res_bind (locate 127 127 (CONTEXTID st) arrayname) (\<lambda>(scopeid, lv). case GetScope st scopeid of
       None \<Rightarrow> Inr (or_null [])
     | Some p \<Rightarrow> (case lv of
         None \<Rightarrow> Inl Uninitialised
       | Some v \<Rightarrow> res_bind (value_loop (array_elements (array_match v) p) []) (\<lambda>l. Inr (or_null l)))))"

text \<open>Every item is set as the variable \<open>this\<close> and the text is expanded with it.\<close>

fun map_loop :: "nat \<Rightarrow> string \<Rightarrow> var_state \<Rightarrow> rval list \<Rightarrow> rval list \<Rightarrow> (var_state \<times> fncall_result) run" where
  "map_loop n text_map st [] newlist = ret (st, FNCALL_SUCCESS (ListVal newlist))"
| "map_loop n text_map st (v # l) newlist = run_bind (Some (item_str v)) (\<lambda>s.
     run_bind (NewScalar n st ''this'' ''this'' s cf_str) (\<lambda>st1.
     run_bind (ExpandScalar n st1 text_map) (\<lambda>(_, expbuf).
       if strstr expbuf ''$(this)'' \<noteq> None then ret (st1, FNCALL_FAILURE)
       else map_loop n text_map (DeleteScalar st1 ''this'' ''this'') l (AppendRlist newlist (Scalar expbuf)))))"

definition map_locate :: "string \<Rightarrow> string \<Rightarrow> (string \<times> string option) res" where
  "map_locate current listvar =
     (let nm = (if char_at listvar 0 = CHR ''@'' then drop 2 listvar else listvar)
      in if char_at listvar 0 = CHR ''@'' \<and> length listvar < 2 then Inl OutOfBounds
         else if CHR ''.'' \<in> set nm then
           let scopeid = takeWhile (\<lambda>c. c \<noteq> CHR ''.'') nm;
               v = take 127 (takeWhile (\<lambda>c. c \<notin> set '')}'') (drop (length scopeid + 1) nm))
           in if 127 < length scopeid then Inr (take 127 scopeid, None)
              else Inr (scopeid, if scopeid = [] \<or> v = [] then None else Some v)
         else if length nm \<ge> CF_MAXVARSIZE \<or> nm = [] then Inl OutOfBounds
         else Inr (current, Some (if last nm \<in> set '')}'' then butlast nm else nm)))"

definition FnCallMapList :: "nat \<Rightarrow> var_state \<Rightarrow> rval list \<Rightarrow> (var_state \<times> fncall_result) run" where
  "FnCallMapList n st args = run_bind (Some (with_args args (\<lambda>a b. Inr (a, b)))) (\<lambda>(text_map, listvar).
     run_bind (Some (map_locate (CONTEXTID st) listvar)) (\<lambda>(scopeid, lv). case GetScope st scopeid of
       None \<Rightarrow> ret (st, FNCALL_FAILURE)
     | Some _ \<Rightarrow> (case lv of
         None \<Rightarrow> Some (Inl Uninitialised)
       | Some v \<Rightarrow> run_bind (GetVariable n st scopeid v) (\<lambda>(dt, rv).
           if dt \<notin> {cf_slist, cf_ilist, cf_rlist} then ret (st, FNCALL_FAILURE)
           else case rv of ListVal l \<Rightarrow> map_loop n text_map st l [] | _ \<Rightarrow> Some (Inl OutOfBounds)))))"

definition FnCallIsVariable :: "nat \<Rightarrow> var_state \<Rightarrow> rval list \<Rightarrow> fncall_result run" where
  "FnCallIsVariable n st args = run_bind (Some (scalar_arg args 0)) (\<lambda>v. run_bind (DefinedVariable n st (Some v)) (\<lambda>b. ret (class_result b)))"

section \<open>Files\<close>

text \<open>\<open>CfReadFile\<close>: a file without a newline inside loses one at its end.\<close>

definition CfReadFile :: "'d fn_env \<Rightarrow> string \<Rightarrow> int \<Rightarrow> string option" where
  "CfReadFile e fname maxsize = (case (cfstat e fname, fopen e fname) of
     (Some sb, Some contents) \<Rightarrow>
       let size = nat (if st_size sb > maxsize then maxsize else st_size sb)
       in if size = 0 then Some []
          else if length contents < size then None
          else let r = take size contents; eol = (\<lambda>c. c = CHR 0x0A \<or> c = CHR 0x0D)
               in Some (if \<not> list_ex eol (butlast r) \<and> eol (last r) then butlast r else r)
   | _ \<Rightarrow> None)"

definition FnCallReadFile :: "'d fn_env \<Rightarrow> rval list \<Rightarrow> fncall_result res" where
  "FnCallReadFile e args = with_arg args (\<lambda>fname. res_bind (int_arg e args 1) (\<lambda>maxsize.
     Inr (case CfReadFile e fname maxsize of None \<Rightarrow> FNCALL_FAILURE | Some s \<Rightarrow> FNCALL_SUCCESS (Scalar s))))"

text \<open>The lines \<open>fgets\<close> gives: a line ends with a newline or where the buffer is full; the second part is what is left at the end of
  the file, which is read together with the end.\<close>

function file_lines :: "string \<Rightarrow> string list \<times> string" where
  "file_lines s =
     (let l = take (CF_BUFSIZE - 2) (takeWhile (\<lambda>c. c \<noteq> CHR 0x0A) s)
      in if length l = CF_BUFSIZE - 2 then (case file_lines (drop (length l) s) of (ls, r) \<Rightarrow> (l # ls, r))
         else if length l = length s then ([], l)
         else (case file_lines (drop (length l + 1) s) of (ls, r) \<Rightarrow> ((l @ [CHR 0x0A]) # ls, r)))"
  by pat_completeness auto
termination
proof (relation "measure length", goal_cases)
  case (2 s l)
  have "0 < CF_BUFSIZE - 2" by (simp add: CF_BUFSIZE_def)
  with 2 have "0 < length l" by simp
  moreover have "length l \<le> length s" unfolding 2(1) by (simp add: min.coboundedI1 length_takeWhile_le)
  ultimately show ?case unfolding in_measure length_drop by linarith
next
  case (3 s l)
  have "length l \<le> length s" unfolding 3(1) by (simp add: min.coboundedI1 length_takeWhile_le)
  with 3 show ?case by simp
qed simp

declare file_lines.simps [simp del]

definition chopped_lines :: "string \<Rightarrow> string list" where
  "chopped_lines s = map Chop (fst (file_lines s))"

text \<open>Text behind the last newline is not looked at.\<close>

definition FnCallCountLinesMatching :: "'d fn_env \<Rightarrow> rval list \<Rightarrow> fncall_result res" where
  "FnCallCountLinesMatching e args = with_args args (\<lambda>re fname. Inr (FNCALL_SUCCESS (Scalar (case fopen e fname of
     None \<Rightarrow> ''0''
   | Some s \<Rightarrow> show_nat (length (filter (FullTextMatch (full_match e) re) (chopped_lines s)))))))"

text \<open>Here it is, and an empty line is read behind a last newline.\<close>

definition FnCallRegLine :: "'d fn_env \<Rightarrow> rval list \<Rightarrow> fncall_result res" where
  "FnCallRegLine e args = with_args args (\<lambda>re fname. Inr (case fopen e fname of
     None \<Rightarrow> class_result False
   | Some s \<Rightarrow> class_result (list_ex (FullTextMatch (full_match e) re) (chopped_lines s @ [Chop (snd (file_lines s))]))))"

text \<open>The fields of the first line that matches are stored.\<close>

fun fields_loop :: "nat \<Rightarrow> var_state \<Rightarrow> string \<Rightarrow> string \<Rightarrow> nat \<Rightarrow> rval list \<Rightarrow> var_state run" where
  "fields_loop n st bundle array_lval vcount [] = ret st"
| "fields_loop n st bundle array_lval vcount (v # l) = run_bind (Some (scalar_arg [v] 0)) (\<lambda>s.
     run_bind (NewScalar n st bundle (take (CF_MAXVARSIZE - 2) (array_lval @ ''['' @ show_nat vcount @ '']'')) s cf_str) (\<lambda>st1.
       fields_loop n st1 bundle array_lval (vcount + 1) l))"

definition FnCallGetFields :: "'d fn_env \<Rightarrow> nat \<Rightarrow> var_state \<Rightarrow> rval list \<Rightarrow> (var_state \<times> fncall_result) run" where
  "FnCallGetFields e n st args =
     run_bind (Some (with_args args (\<lambda>a b. res_bind (scalar_arg args 2) (\<lambda>c. res_bind (scalar_arg args 3) (\<lambda>d. Inr (a, b, c, d))))))
       (\<lambda>(re, fname, split, array_lval). case fopen e fname of
          None \<Rightarrow> ret (st, FNCALL_FAILURE)
        | Some s \<Rightarrow>
            let ls = filter (FullTextMatch (full_match e) re) (chopped_lines s)
            in run_bind (case ls of [] \<Rightarrow> ret st | line # _ \<Rightarrow>
                 run_bind (Some (SplitRegexAsRList (block_match e) (Some line) split 31 True)) (fields_loop n st (THIS_BUNDLE e) array_lval 1))
               (\<lambda>st1. ret (st1, FNCALL_SUCCESS (Scalar (show_nat (length ls))))))"

definition FnCallLsDir :: "'d fn_env \<Rightarrow> rval list \<Rightarrow> fncall_result res" where
  "FnCallLsDir e args = with_args args (\<lambda>dirname re. res_bind (scalar_arg args 2) (\<lambda>incl. Inr (case opendir e dirname of
     None \<Rightarrow> or_null []
   | Some files \<Rightarrow>
       let chosen = filter (\<lambda>nm. length re = 0 \<or> FullTextMatch (full_match e) re nm) files
       in or_null (rev (map (\<lambda>nm. Scalar (if GetBoolean incl then take (CF_BUFSIZE - 1) (dirname @ ''/'' @ nm) else nm)) chosen)))))"

text \<open>Cutting the matches of a pattern out of a text, until there is none or the rounds are used up.\<close>

definition CloseStringHole :: "string \<Rightarrow> nat \<Rightarrow> nat \<Rightarrow> string res" where
  "CloseStringHole s start end' =
     (if end' \<le> start then Inr s else if end' > length s then Inl OutOfBounds else Inr (take start s @ drop end' s))"

function strip_loop :: "'d fn_env \<Rightarrow> string \<Rightarrow> nat \<Rightarrow> string \<Rightarrow> string res" where
  "strip_loop e pattern cnt s = (case block_match e pattern s of
     None \<Rightarrow> Inr s
   | Some (start, end') \<Rightarrow> (case CloseStringHole s start end' of
       Inl err \<Rightarrow> Inl err
     | Inr s' \<Rightarrow> if cnt > length s' then Inr s' else strip_loop e pattern (cnt + 1) s'))"
  by pat_completeness auto
termination
proof (relation "measure (\<lambda>(e, p, n, s). Suc (length s) - n)", goal_cases)
  case (2 e pattern cnt s x start end' s')
  then have "length s' \<le> length s" by (auto simp: CloseStringHole_def split: if_splits)
  with 2 show ?case by simp
qed simp

declare strip_loop.simps [simp del]

definition StripPatterns :: "'d fn_env \<Rightarrow> string \<Rightarrow> string \<Rightarrow> string res" where
  "StripPatterns e file_buffer pattern = (if pattern = [] then Inr file_buffer else strip_loop e pattern 0 file_buffer)"

definition numbers_readable :: "'d fn_env \<Rightarrow> cfdatatype \<Rightarrow> rval list \<Rightarrow> bool res" where
  "numbers_readable e type l = foldr (\<lambda>v r. res_bind (scalar_arg [v] 0) (\<lambda>s. res_bind
       (if type = cf_int then res_bind (Str2Int (CFSTARTTIME e) (Some s)) (\<lambda>i. Inr (i \<noteq> CF_NOINT))
        else if type = cf_real then res_bind (at_run_time (Str2Double (e_real e) (Some s))) (\<lambda>x. Inr (\<not> d_eq (e_real e) x (CF_NODOUBLE (e_real e))))
        else Inr True) (\<lambda>b. res_bind r (\<lambda>bs. Inr (b \<and> bs))))) l (Inr True)"

definition ReadList :: "'d fn_env \<Rightarrow> rval list \<Rightarrow> cfdatatype \<Rightarrow> fncall_result res" where
  "ReadList e args type = with_args args (\<lambda>fname comment. res_bind (scalar_arg args 2) (\<lambda>split.
     res_bind (int_arg e args 3) (\<lambda>maxent. res_bind (int_arg e args 4) (\<lambda>maxsize.
       case CfReadFile e fname maxsize of
         None \<Rightarrow> Inr FNCALL_FAILURE
       | Some s \<Rightarrow>
           res_bind (StripPatterns e s comment) (\<lambda>buffer.
           res_bind (SplitRegexAsRList (block_match e) (Some buffer) split (nat maxent) False) (\<lambda>newlist.
           if type \<notin> {cf_str, cf_int, cf_real} then Inl FatalErrorExit
           else res_bind (numbers_readable e type newlist) (\<lambda>ok.
             Inr (if newlist \<noteq> [] \<and> ok then FNCALL_SUCCESS (ListVal newlist) else FNCALL_FAILURE))))))))"

text \<open>
  The lines of a text become an array.  A line of more than 1023 characters is cut into pieces, and the character behind each
  piece is skipped like a newline.
\<close>

definition array_item :: "'d fn_env \<Rightarrow> cfdatatype \<Rightarrow> rval \<Rightarrow> string res" where
  "array_item e type v = res_bind (item_str v) (\<lambda>s.
     if type = cf_str then if length s < CF_MAXVARSIZE - 1 then Inr s else Inl Uninitialised
     else if type = cf_int then res_bind (Str2Int (CFSTARTTIME e) (Some s)) (\<lambda>i. Inr (show_int (as_int i)))
     else if type = cf_real then res_bind (at_run_time (Str2Double (e_real e) (Some s))) (\<lambda>_.
       case scan_word 255 s of None \<Rightarrow> Inl Uninitialised | Some w \<Rightarrow> Inr w)
     else Inl FatalErrorExit)"

fun array_line :: "'d fn_env \<Rightarrow> nat \<Rightarrow> var_state \<Rightarrow> string \<Rightarrow> cfdatatype \<Rightarrow> bool \<Rightarrow> nat \<Rightarrow> nat \<Rightarrow> string \<Rightarrow> rval list \<Rightarrow> var_state run" where
  "array_line e n st array_lval type int_index hcount vcount first_one [] = ret st"
| "array_line e n st array_lval type int_index hcount vcount first_one (v # l) = run_bind (Some (array_item e type v)) (\<lambda>this_rval.
     let first' = (if first_one = [] then this_rval else first_one);
         nm = clip (array_lval @ ''['' @ (if int_index then show_nat hcount else first') @ '']['' @ show_nat vcount @ '']'')
     in run_bind (NewScalar n st (THIS_BUNDLE e) nm this_rval type) (\<lambda>st1.
       array_line e n st1 array_lval type int_index hcount (vcount + 1) first' l))"

function line_array_loop :: "'d fn_env \<Rightarrow> nat \<Rightarrow> var_state \<Rightarrow> string \<Rightarrow> string \<Rightarrow> nat \<Rightarrow> cfdatatype \<Rightarrow> bool \<Rightarrow> nat \<Rightarrow> nat \<Rightarrow> string \<Rightarrow> (var_state \<times> nat) run" where
  "line_array_loop e n st array_lval split maxent type int_index hcount lcount sp =
     (let linebuf = take 1023 (takeWhile (\<lambda>c. c \<noteq> CHR 0x0A) sp);
          rest = drop (length linebuf) sp;
          line = (if linebuf \<noteq> [] \<and> last linebuf = CHR 0x0D then butlast linebuf else linebuf)
      in if hcount \<ge> maxent \<or> sp = [] then ret (st, hcount)
         else if linebuf = [] \<or> linebuf = [CHR 0x0D] then line_array_loop e n st array_lval split maxent type int_index hcount lcount (tl sp)
         else if lcount > CF_HASHTABLESIZE then ret (st, hcount)
         else run_bind (Some (SplitRegexAsRList (block_match e) (Some line) split maxent True)) (\<lambda>newlist.
           run_bind (array_line e n st array_lval type int_index hcount 0 [] newlist) (\<lambda>st1.
             if rest = [] then ret (st1, hcount + 1)
             else line_array_loop e n st1 array_lval split maxent type int_index (hcount + 1) (lcount + 1) (tl rest))))"
  by pat_completeness auto
termination
  by (relation "measure (\<lambda>(e, n, st, a, sp, m, ty, ii, h, l, s). length s)") (auto simp: Let_def less_imp_diff_less)

declare line_array_loop.simps [simp del]

definition BuildLineArray :: "'d fn_env \<Rightarrow> nat \<Rightarrow> var_state \<Rightarrow> string \<Rightarrow> string \<Rightarrow> string \<Rightarrow> int \<Rightarrow> cfdatatype \<Rightarrow> bool \<Rightarrow> (var_state \<times> nat) run" where
  "BuildLineArray e n st array_lval file_buffer split maxent type int_index =
     line_array_loop e n st array_lval split (nat maxent) type int_index 0 0 file_buffer"

text \<open>\<open>ReadArray\<close> and \<open>ParseArray\<close> differ in where the text comes from.\<close>

definition array_from :: "'d fn_env \<Rightarrow> nat \<Rightarrow> var_state \<Rightarrow> rval list \<Rightarrow> cfdatatype \<Rightarrow> bool \<Rightarrow> (string \<Rightarrow> int \<Rightarrow> string option) \<Rightarrow> (var_state \<times> fncall_result) run" where
  "array_from e n st args type int_index source =
     run_bind (Some (with_args args (\<lambda>a b. res_bind (scalar_arg args 2) (\<lambda>c. res_bind (scalar_arg args 3) (\<lambda>d.
       res_bind (int_arg e args 4) (\<lambda>maxent. res_bind (int_arg e args 5) (\<lambda>maxsize. Inr (a, b, c, d, maxent, maxsize))))))))
       (\<lambda>(array_lval, arg, comment, split, maxent, maxsize).
          run_bind (case source arg maxsize of
              None \<Rightarrow> ret (st, 0)
            | Some s \<Rightarrow> run_bind (Some (StripPatterns e s comment)) (\<lambda>buffer. BuildLineArray e n st array_lval buffer split maxent type int_index))
            (\<lambda>(st1, entries). if type \<in> {cf_str, cf_int, cf_real} then ret (st1, FNCALL_SUCCESS (Scalar (show_nat entries))) else Some (Inl FatalErrorExit)))"

definition ReadArray :: "'d fn_env \<Rightarrow> nat \<Rightarrow> var_state \<Rightarrow> rval list \<Rightarrow> cfdatatype \<Rightarrow> bool \<Rightarrow> (var_state \<times> fncall_result) run" where
  "ReadArray e n st args type int_index = array_from e n st args type int_index (CfReadFile e)"

definition ParseArray :: "'d fn_env \<Rightarrow> nat \<Rightarrow> var_state \<Rightarrow> rval list \<Rightarrow> cfdatatype \<Rightarrow> bool \<Rightarrow> (var_state \<times> fncall_result) run" where
  "ParseArray e n st args type int_index = array_from e n st args type int_index (\<lambda>s _. Some s)"

section \<open>Peers\<close>

text \<open>
  The hosts of a file, one in a line, in groups of \<open>groupsize\<close>.  The first word of a line is its host.  \<open>C\<close> divides by
  \<open>groupsize\<close>, so zero is an error, and the remainder has the sign of the count.
\<close>

definition host_lines :: "rval list \<Rightarrow> string list res" where
  "host_lines l = res_bind (item_strs l) (\<lambda>ss. let ws = map (\<lambda>s. case scan_word (length s) s of None \<Rightarrow> [] | Some w \<Rightarrow> w) (filter (\<lambda>s. \<not> EmptyString s) ss)
     in if list_all (\<lambda>w. length w < CF_MAXVARSIZE) ws then Inr ws else Inl OutOfBounds)"

definition peer_file :: "'d fn_env \<Rightarrow> rval list \<Rightarrow> (string list \<Rightarrow> int \<Rightarrow> fncall_result res) \<Rightarrow> fncall_result res" where
  "peer_file e args f = with_args args (\<lambda>fname comment. res_bind (int_arg e args 2) (\<lambda>groupsize.
     case CfReadFile e fname 100000 of
       None \<Rightarrow> Inr FNCALL_FAILURE
     | Some s \<Rightarrow> res_bind (StripPatterns e s comment) (\<lambda>buffer.
         res_bind (SplitRegexAsRList (block_match e) (Some buffer) [CHR 0x0A] 100000 True) (\<lambda>newlist.
         res_bind (host_lines newlist) (\<lambda>hosts. if groupsize = 0 \<and> hosts \<noteq> [] then Inl FatalErrorExit else f hosts groupsize)))))"

definition own_name :: "'d fn_env \<Rightarrow> string \<Rightarrow> bool" where
  "own_name e s \<longleftrightarrow> strcmp s (VFQNAME e) = 0 \<or> strcmp s (VUQNAME e) = 0"

fun peers_loop :: "'d fn_env \<Rightarrow> int \<Rightarrow> int \<Rightarrow> bool \<Rightarrow> string list \<Rightarrow> string list \<Rightarrow> string list" where
  "peers_loop e groupsize i found pruned [] = pruned"
| "peers_loop e groupsize i found pruned (s # ss) =
     (let found' = (found \<or> own_name e s);
          pruned' = (if own_name e s then pruned else s # pruned)
      in if i smod groupsize = groupsize - 1
         then if found' then pruned' else peers_loop e groupsize (i + 1) found' [] ss
         else peers_loop e groupsize (i + 1) found' pruned' ss)"

definition FnCallPeers :: "'d fn_env \<Rightarrow> rval list \<Rightarrow> fncall_result res" where
  "FnCallPeers e args = peer_file e args (\<lambda>hosts groupsize.
     let pruned = peers_loop e groupsize 0 False [] hosts
     in Inr (if pruned \<noteq> [] then FNCALL_SUCCESS (ListVal (map Scalar pruned)) else FNCALL_FAILURE))"

fun leader_loop :: "'d fn_env \<Rightarrow> int \<Rightarrow> int \<Rightarrow> bool \<Rightarrow> string list \<Rightarrow> string" where
  "leader_loop e groupsize i found [] = []"
| "leader_loop e groupsize i found (s # ss) =
     (let found' = (found \<or> own_name e s)
      in if i smod groupsize = 0 \<and> found' then (if own_name e s then ''localhost'' else s)
         else leader_loop e groupsize (i + 1) found' ss)"

definition FnCallPeerLeader :: "'d fn_env \<Rightarrow> rval list \<Rightarrow> fncall_result res" where
  "FnCallPeerLeader e args = peer_file e args (\<lambda>hosts groupsize.
     let buffer = leader_loop e groupsize 0 False hosts
     in Inr (if length buffer > 0 then FNCALL_SUCCESS (Scalar buffer) else FNCALL_FAILURE))"

fun leaders_loop :: "'d fn_env \<Rightarrow> int \<Rightarrow> int \<Rightarrow> string list \<Rightarrow> string list \<Rightarrow> string list" where
  "leaders_loop e groupsize i pruned [] = pruned"
| "leaders_loop e groupsize i pruned (s # ss) =
     leaders_loop e groupsize (i + 1) (if i smod groupsize = 0 then (if own_name e s then ''localhost'' else s) # pruned else pruned) ss"

text \<open>Without leaders the buffer of the file is freed a second time.\<close>

definition FnCallPeerLeaders :: "'d fn_env \<Rightarrow> rval list \<Rightarrow> fncall_result res" where
  "FnCallPeerLeaders e args = peer_file e args (\<lambda>hosts groupsize.
     let pruned = leaders_loop e groupsize 0 [] hosts
     in if pruned \<noteq> [] then Inr (FNCALL_SUCCESS (ListVal (map Scalar pruned))) else Inl UseAfterFree)"

section \<open>Hosts seen\<close>

text \<open>The key of the host is compared with the text for an unknown address.\<close>

definition HostKeyAddressUnknown :: "string \<Rightarrow> bool" where
  "HostKeyAddressUnknown v \<longleftrightarrow> strcmp v ''location unknown'' = 0"

definition CallHostsSeenCallback :: "string \<Rightarrow> string \<Rightarrow> bool \<Rightarrow> 'd KeyHostSeen \<Rightarrow> Item list \<Rightarrow> bool \<times> Item list" where
  "CallHostsSeenCallback hostkey address incoming quality addresses =
     (if HostKeyAddressUnknown hostkey then (True, addresses)
      else (True, PrependItem addresses address (Some (show_nat (nat (lastseen quality mod 2 ^ 64))))))"

fun seen_loop :: "'d fn_env \<Rightarrow> int \<Rightarrow> bool \<Rightarrow> rval list \<Rightarrow> rval list \<Rightarrow> Item list \<Rightarrow> (rval list \<times> rval list) res" where
  "seen_loop e horizon return_address recent aged [] = Inr (recent, aged)"
| "seen_loop e horizon return_address recent aged (ip # ips) = (case classes ip of
     None \<Rightarrow> Inl NullDereference
   | Some c \<Rightarrow> (case scan_lf (e_real e) c of
       None \<Rightarrow> seen_loop e horizon return_address recent aged ips
     | Some (entrytime, _) \<Rightarrow>
         let address = clip (if return_address then name ip else IPString2Hostname e (name ip))
         in if d_less (e_real e) entrytime (d_const (e_real e) (e_now e - horizon) 1) then
              if KeyInRlist recent address \<noteq> None then seen_loop e horizon return_address recent aged ips
              else res_bind (IdempPrependRScalar aged (Scalar address)) (\<lambda>aged'. seen_loop e horizon return_address recent aged' ips)
            else
              res_bind (IdempPrependRScalar recent (Scalar address)) (\<lambda>recent'.
                seen_loop e horizon return_address recent' (DeleteRlistEntry aged (KeyInRlist aged address)) ips)))"

definition GetHostsFromLastseenDB :: "'d fn_env \<Rightarrow> Item list \<Rightarrow> int \<Rightarrow> bool \<Rightarrow> bool \<Rightarrow> rval list res" where
  "GetHostsFromLastseenDB e addresses horizon return_address return_recent =
     res_bind (seen_loop e horizon return_address [] [] addresses) (\<lambda>(recent, aged).
       let l = (if return_recent then recent else aged)
       in if l = [] then IdempAppendRScalar l (Scalar CF_NULL_VALUE) else Inr l)"

definition FnCallHostsSeen :: "'d fn_env \<Rightarrow> 'd seen_db option \<Rightarrow> rval list \<Rightarrow> fncall_result res" where
  "FnCallHostsSeen e dbp args = res_bind (int_arg e args 0) (\<lambda>hours. res_bind (scalar_arg args 1) (\<lambda>policy. res_bind (scalar_arg args 2) (\<lambda>format.
     let horizon = as_int (hours * 3600)
     in res_bind (ScanLastSeenQuality CallHostsSeenCallback dbp []) (\<lambda>(ok, addresses).
          if \<not> ok then Inr FNCALL_FAILURE
          else res_bind (GetHostsFromLastseenDB e addresses horizon (strcmp format ''address'' = 0) (strcmp policy ''lastseen'' = 0)) (\<lambda>l.
            Inr (FNCALL_SUCCESS (ListVal l)))))))"

section \<open>The host\<close>

text \<open>The limit becomes the precision in a format, which must not be negative.\<close>

definition FnCallGetEnv :: "'d fn_env \<Rightarrow> rval list \<Rightarrow> fncall_result res" where
  "FnCallGetEnv e args = with_arg args (\<lambda>nm. res_bind (int_arg e args 1) (\<lambda>limit. case getenv e nm of
     None \<Rightarrow> Inr (FNCALL_SUCCESS (Scalar []))
   | Some v \<Rightarrow> if limit < 0 then Inl OutOfBounds else Inr (FNCALL_SUCCESS (Scalar (take (CF_BUFSIZE - 2) (take (nat limit) v))))))"

definition FnCallGetUsers :: "'d fn_env \<Rightarrow> rval list \<Rightarrow> fncall_result res" where
  "FnCallGetUsers e args = with_args args (\<lambda>names uids.
     res_bind (SplitStringAsRList (Some names) CHR '','') (\<lambda>except_names. res_bind (SplitStringAsRList (Some uids) CHR '','') (\<lambda>except_uids.
       res_bind (foldl (\<lambda>r (nm, uid). res_bind r (\<lambda>l.
           if \<not> IsStringIn except_names (Some nm) \<and> \<not> IsIntIn except_uids uid then IdempPrependRScalar l (Scalar nm) else Inr l))
         (Inr []) (getpwent e)) (\<lambda>newlist. Inr (FNCALL_SUCCESS (ListVal newlist))))))"

definition compare_files :: "'d fn_env \<Rightarrow> (stat_buf \<Rightarrow> stat_buf \<Rightarrow> bool) \<Rightarrow> rval list \<Rightarrow> fncall_result res" where
  "compare_files e f args = res_bind (scalar_arg args 0) (\<lambda>a. case cfstat e a of
     None \<Rightarrow> Inr FNCALL_FAILURE
   | Some frombuf \<Rightarrow> res_bind (scalar_arg args 1) (\<lambda>b. case cfstat e b of
       None \<Rightarrow> Inr FNCALL_FAILURE
     | Some tobuf \<Rightarrow> Inr (class_result (f frombuf tobuf))))"

definition FnCallIsNewerThan :: "'d fn_env \<Rightarrow> rval list \<Rightarrow> fncall_result res" where
  "FnCallIsNewerThan e = compare_files e (\<lambda>a b. st_mtime a > st_mtime b)"

definition FnCallIsAccessedBefore :: "'d fn_env \<Rightarrow> rval list \<Rightarrow> fncall_result res" where
  "FnCallIsAccessedBefore e = compare_files e (\<lambda>a b. st_atime a < st_atime b)"

definition FnCallIsChangedBefore :: "'d fn_env \<Rightarrow> rval list \<Rightarrow> fncall_result res" where
  "FnCallIsChangedBefore e = compare_files e (\<lambda>a b. st_ctime a > st_ctime b)"

definition FnCallFileStat :: "'d fn_env \<Rightarrow> string \<Rightarrow> rval list \<Rightarrow> fncall_result res" where
  "FnCallFileStat e fn args = with_arg args (\<lambda>path. Inr (case lstat e path of
     None \<Rightarrow> if strcmp fn ''filesize'' = 0 then FNCALL_FAILURE else class_result False
   | Some sb \<Rightarrow>
       if strcmp fn ''isexecutable'' = 0 then class_result (st_executable sb)
       else if strcmp fn ''isdir'' = 0 then class_result (st_kind sb = directory)
       else if strcmp fn ''islink'' = 0 then class_result (st_kind sb = symbolic_link)
       else if strcmp fn ''isplain'' = 0 then class_result (st_kind sb = regular_file)
       else if strcmp fn ''fileexists'' = 0 then class_result True
       else if strcmp fn ''filesize'' = 0 then FNCALL_SUCCESS (Scalar (show_int (st_size sb)))
       else class_result False))"

definition FnCallHostInNetgroup :: "'d fn_env \<Rightarrow> rval list \<Rightarrow> fncall_result res" where
  "FnCallHostInNetgroup e args = with_arg args (\<lambda>g. Inr (class_result (list_ex (\<lambda>host. case host of
     None \<Rightarrow> True | Some h \<Rightarrow> strcmp h (VFQNAME e) = 0 \<or> strcmp h (VUQNAME e) = 0) (getnetgrent e g))))"

end
