(* ===== verification/CF_Calls.thy ===== *)
theory CF_Calls
  imports CF_Functions
begin

text \<open>
  Calls of built-in functions: the arguments are expanded, calls among them evaluated first, and checked against the table
  (\<open>src/fncall.c\<close>, \<open>src/args.c\<close>, \<open>CallFunction\<close> of \<open>src/evalfunction.c\<close>); and the protocol of modules.  The functions that
  run programs, talk to other hosts or ask OpenSSL, LDAP or the calendar of the C library are the parameter \<open>outside\<close>.
  A call inside the arguments of a call takes one unit of the fuel.
\<close>

section \<open>The functions by name\<close>

record agent_state =
  a_vars :: var_state
  a_ctx :: context_state

type_synonym outside = "string \<Rightarrow> agent_state \<Rightarrow> string \<Rightarrow> rval list \<Rightarrow> (agent_state \<times> fncall_result) run"

definition value_of :: "agent_state \<Rightarrow> fncall_result res \<Rightarrow> (agent_state \<times> fncall_result) run" where
  "value_of s r = run_bind (Some r) (\<lambda>v. ret (s, v))"

definition value_run :: "agent_state \<Rightarrow> fncall_result run \<Rightarrow> (agent_state \<times> fncall_result) run" where
  "value_run s r = run_bind r (\<lambda>v. ret (s, v))"

definition with_vars :: "agent_state \<Rightarrow> (var_state \<times> fncall_result) run \<Rightarrow> (agent_state \<times> fncall_result) run" where
  "with_vars s r = run_bind r (\<lambda>(st, v). ret (s\<lparr>a_vars := st\<rparr>, v))"

text \<open>The function that a name of the table stands for.\<close>

definition class_impl :: "'d fn_env \<Rightarrow> context_state \<Rightarrow> string \<Rightarrow> string \<Rightarrow> rval list \<Rightarrow> fncall_result res option" where
  "class_impl e ctx namespace impl args =
     (if impl = ''FnCallAnd'' then Some (FnCallAnd e ctx namespace args)
      else if impl = ''FnCallOr'' then Some (FnCallOr e ctx namespace args)
      else if impl = ''FnCallNot'' then Some (FnCallNot ctx namespace args)
      else if impl = ''FnCallClassify'' then Some (FnCallClassify ctx namespace args)
      else if impl = ''FnCallClassMatch'' then Some (FnCallClassMatch e ctx args)
      else if impl = ''FnCallCountClassesMatching'' then Some (FnCallCountClassesMatching e ctx args)
      else if impl = ''FnCallSplayClass'' then Some (FnCallSplayClass ctx namespace args)
      else None)"

definition text_impl :: "'d fn_env \<Rightarrow> string \<Rightarrow> string \<Rightarrow> rval list \<Rightarrow> fncall_result res option" where
  "text_impl e fn impl args =
     (if impl = ''FnCallConcat'' then Some (FnCallConcat e args)
      else if impl = ''FnCallCanonify'' then Some (FnCallCanonify args)
      else if impl = ''FnCallEscape'' then Some (FnCallEscape args)
      else if impl = ''FnCallDirname'' then Some (FnCallDirname args)
      else if impl = ''FnCallLastNode'' then Some (FnCallLastNode e args)
      else if impl = ''FnCallStrCmp'' then Some (FnCallStrCmp args)
      else if impl = ''FnCallTranslatePath'' then Some (FnCallTranslatePath args)
      else if impl = ''FnCallSplitString'' then Some (FnCallSplitString e args)
      else if impl = ''FnCallIsLessGreaterThan'' then Some (FnCallIsLessGreaterThan e fn args)
      else if impl = ''FnCallIRange'' then Some (FnCallIRange e args)
      else if impl = ''FnCallRRange'' then Some (FnCallRRange e args)
      else if impl = ''FnCallRandomInt'' then Some (FnCallRandomInt e args)
      else if impl = ''FnCallAgoDate'' then Some (FnCallAgoDate e args)
      else if impl = ''FnCallAccumulatedDate'' then Some (FnCallAccumulatedDate e args)
      else if impl = ''FnCallNow'' then Some (FnCallNow e)
      else None)"

definition host_impl :: "'d fn_env \<Rightarrow> 'd seen_db option \<Rightarrow> string \<Rightarrow> string \<Rightarrow> rval list \<Rightarrow> fncall_result res option" where
  "host_impl e dbp fn impl args =
     (if impl = ''FnCallReadFile'' then Some (FnCallReadFile e args)
      else if impl = ''FnCallCountLinesMatching'' then Some (FnCallCountLinesMatching e args)
      else if impl = ''FnCallRegLine'' then Some (FnCallRegLine e args)
      else if impl = ''FnCallLsDir'' then Some (FnCallLsDir e args)
      else if impl = ''FnCallReadStringList'' then Some (ReadList e args cf_str)
      else if impl = ''FnCallReadIntList'' then Some (ReadList e args cf_int)
      else if impl = ''FnCallReadRealList'' then Some (ReadList e args cf_real)
      else if impl = ''FnCallPeers'' then Some (FnCallPeers e args)
      else if impl = ''FnCallPeerLeader'' then Some (FnCallPeerLeader e args)
      else if impl = ''FnCallPeerLeaders'' then Some (FnCallPeerLeaders e args)
      else if impl = ''FnCallHostsSeen'' then Some (FnCallHostsSeen e dbp args)
      else if impl = ''FnCallGetEnv'' then Some (FnCallGetEnv e args)
      else if impl = ''FnCallGetUsers'' then Some (FnCallGetUsers e args)
      else if impl = ''FnCallIsNewerThan'' then Some (FnCallIsNewerThan e args)
      else if impl = ''FnCallIsAccessedBefore'' then Some (FnCallIsAccessedBefore e args)
      else if impl = ''FnCallIsChangedBefore'' then Some (FnCallIsChangedBefore e args)
      else if impl = ''FnCallFileStat'' then Some (FnCallFileStat e fn args)
      else if impl = ''FnCallHostInNetgroup'' then Some (FnCallHostInNetgroup e args)
      else None)"

definition list_impl :: "'d fn_env \<Rightarrow> nat \<Rightarrow> var_state \<Rightarrow> string \<Rightarrow> rval list \<Rightarrow> fncall_result run option" where
  "list_impl e n st impl args =
     (if impl = ''FnCallGrep'' then Some (FnCallGrep e n st args)
      else if impl = ''FnCallSum'' then Some (FnCallSum e n st args)
      else if impl = ''FnCallProduct'' then Some (FnCallProduct e n st args)
      else if impl = ''FnCallJoin'' then Some (FnCallJoin n st args)
      else if impl = ''FnCallRegList'' then Some (FnCallRegList e n st args)
      else if impl = ''FnCallFileSexist'' then Some (FnCallFileSexist e n st args)
      else if impl = ''FnCallRegArray'' then Some (Some (FnCallRegArray e st args))
      else if impl = ''FnCallGetIndices'' then Some (Some (FnCallGetIndices st args))
      else if impl = ''FnCallGetValues'' then Some (Some (FnCallGetValues st args))
      else if impl = ''FnCallIsVariable'' then Some (FnCallIsVariable n st args)
      else None)"

definition var_impl :: "'d fn_env \<Rightarrow> nat \<Rightarrow> var_state \<Rightarrow> string \<Rightarrow> rval list \<Rightarrow> (var_state \<times> fncall_result) run option" where
  "var_impl e n st impl args =
     (if impl = ''FnCallRegCmp'' then Some (FnCallRegCmp e n st args)
      else if impl = ''FnCallRegExtract'' then Some (FnCallRegExtract e n st args)
      else if impl = ''FnCallMapList'' then Some (FnCallMapList n st args)
      else if impl = ''FnCallGetFields'' then Some (FnCallGetFields e n st args)
      else if impl = ''FnCallReadStringArray'' then Some (ReadArray e n st args cf_str False)
      else if impl = ''FnCallReadStringArrayIndex'' then Some (ReadArray e n st args cf_str True)
      else if impl = ''FnCallReadIntArray'' then Some (ReadArray e n st args cf_int False)
      else if impl = ''FnCallReadRealArray'' then Some (ReadArray e n st args cf_real False)
      else if impl = ''FnCallParseStringArray'' then Some (ParseArray e n st args cf_str False)
      else if impl = ''FnCallParseStringArrayIndex'' then Some (ParseArray e n st args cf_str True)
      else if impl = ''FnCallParseIntArray'' then Some (ParseArray e n st args cf_int False)
      else if impl = ''FnCallParseRealArray'' then Some (ParseArray e n st args cf_real False)
      else None)"

definition call_impl :: "'d fn_env \<Rightarrow> 'd seen_db option \<Rightarrow> outside \<Rightarrow> nat \<Rightarrow> agent_state \<Rightarrow> string \<Rightarrow> string \<Rightarrow> string \<Rightarrow> rval list \<Rightarrow> (agent_state \<times> fncall_result) run" where
  "call_impl e dbp outside n s namespace fn impl args =
     (case class_impl e (a_ctx s) namespace impl args of Some r \<Rightarrow> value_of s r | None \<Rightarrow>
     (case text_impl e fn impl args of Some r \<Rightarrow> value_of s r | None \<Rightarrow>
     (case host_impl e dbp fn impl args of Some r \<Rightarrow> value_of s r | None \<Rightarrow>
     (case list_impl e n (a_vars s) impl args of Some r \<Rightarrow> value_run s r | None \<Rightarrow>
     (case var_impl e n (a_vars s) impl args of Some r \<Rightarrow> with_vars s r | None \<Rightarrow> outside impl s namespace args)))))"

section \<open>Calls\<close>

definition FunctionReturnType :: "string \<Rightarrow> cfdatatype" where
  "FunctionReturnType nm = (case FindFunction nm of Some fn \<Rightarrow> fn_dtype fn | None \<Rightarrow> cf_notype)"

definition FnNumArgs :: "FnCallType \<Rightarrow> nat" where
  "FnNumArgs fn = length (fn_args fn)"

text \<open>The arguments as they are written are checked, and a report is fatal; their number is compared with that of the expanded ones.\<close>

fun template_loop :: "'d fn_env \<Rightarrow> string \<Rightarrow> FnCallArg list \<Rightarrow> rval list \<Rightarrow> unit res" where
  "template_loop e id' ((pattern, dt) # ts) (v # vs) =
     res_bind (case v of Call _ _ \<Rightarrow> Inr ()
       | _ \<Rightarrow> checked_at_run_time (CheckConstraintTypeMatch (full_match e) (e_real e) (CFSTARTTIME e) id' v dt (Pattern pattern) 1)) (\<lambda>_.
     template_loop e id' ts vs)"
| "template_loop e id' ts vs = Inr ()"

definition ArgTemplate :: "'d fn_env \<Rightarrow> FnCallType \<Rightarrow> rval list \<Rightarrow> rval list \<Rightarrow> unit res" where
  "ArgTemplate e fn args realargs =
     res_bind (template_loop e (clip (''built-in FnCall '' @ fn_name fn @ ''-arg'')) (fn_args fn) args) (\<lambda>_.
       if min (length args) (length (fn_args fn)) \<noteq> RlistLen realargs \<and> \<not> varargs fn then Inl FatalErrorExit else Inr ())"

definition CallFunction :: "'d fn_env \<Rightarrow> 'd seen_db option \<Rightarrow> outside \<Rightarrow> nat \<Rightarrow> agent_state \<Rightarrow> string \<Rightarrow> FnCallType \<Rightarrow> rval list \<Rightarrow> rval list \<Rightarrow>
    (agent_state \<times> fncall_result) run" where
  "CallFunction e dbp outside n s namespace fn args expargs =
     run_bind (Some (ArgTemplate e fn args expargs)) (\<lambda>_. call_impl e dbp outside n s namespace (fn_name fn) (fn_impl fn) expargs)"

text \<open>A list that a call returns becomes several arguments.\<close>

fun exp_args :: "(agent_state \<Rightarrow> string \<Rightarrow> rval list \<Rightarrow> (agent_state \<times> bool \<times> rval) run) \<Rightarrow> nat \<Rightarrow> agent_state \<Rightarrow> rval list \<Rightarrow> rval list \<Rightarrow> (agent_state \<times> rval list) run" where
  "exp_args eval n s [] newargs = ret (s, newargs)"
| "exp_args eval n s (v # vs) newargs =
     run_bind (case v of
         Call f args \<Rightarrow> run_bind (eval s f args) (\<lambda>(s1, _, rv). ret (s1, rv))
       | _ \<Rightarrow> run_bind (ExpandPrivateRval n (a_vars s) (CONTEXTID (a_vars s)) v) (\<lambda>rv. ret (s, rv))) (\<lambda>(s1, rv).
     exp_args eval n s1 vs (AppendRlist newargs rv))"

definition NewExpArgs :: "(agent_state \<Rightarrow> string \<Rightarrow> rval list \<Rightarrow> (agent_state \<times> bool \<times> rval) run) \<Rightarrow> nat \<Rightarrow> agent_state \<Rightarrow> FnCallType \<Rightarrow> rval list \<Rightarrow> (agent_state \<times> rval list) run" where
  "NewExpArgs eval n s fn args =
     (if \<not> varargs fn \<and> RlistLen args \<noteq> FnNumArgs fn then Some (Inl FatalErrorExit) else exp_args eval n s args [])"

text \<open>The classes and the namespace of the promise, when there is one.  A call that fails is its own value.\<close>

fun EvaluateFunctionCall :: "nat \<Rightarrow> 'd fn_env \<Rightarrow> 'd seen_db option \<Rightarrow> outside \<Rightarrow> (string option \<times> string) option \<Rightarrow> agent_state \<Rightarrow> string \<Rightarrow> rval list \<Rightarrow>
    (agent_state \<times> bool \<times> rval) run" where
  "EvaluateFunctionCall 0 e dbp outside pp s f args = None"
| "EvaluateFunctionCall (Suc n) e dbp outside pp s f args = (case FindFunction f of
     None \<Rightarrow> ret (s, False, CopyFnCall f args)
   | Some fn \<Rightarrow>
       if (case pp of None \<Rightarrow> False | Some (cls, ns) \<Rightarrow> \<not> IsDefinedClass (a_ctx s) cls (Some ns))
       then ret (s, False, CopyFnCall f args)
       else run_bind (NewExpArgs (EvaluateFunctionCall n e dbp outside pp) n s fn args) (\<lambda>(s1, expargs).
         if UnresolvedArgs expargs then ret (s1, False, CopyFnCall f args)
         else run_bind (CallFunction e dbp outside n s1 (case pp of None \<Rightarrow> ''default'' | Some (_, ns) \<Rightarrow> ns) fn args expargs) (\<lambda>(s2, r).
           case r of FNCALL_FAILURE \<Rightarrow> ret (s2, False, CopyFnCall f args) | FNCALL_SUCCESS v \<Rightarrow> ret (s2, True, v))))"

section \<open>Arguments of bodies and bundles\<close>

text \<open>
  The formal parameters of a body become variables with the values given.  The type of a value that is not a text is read from
  its object as if it were one; it is taken for a text without a variable.  What a call returns is stored as a text.
\<close>

fun map_args_loop :: "(agent_state \<Rightarrow> string \<Rightarrow> rval list \<Rightarrow> (agent_state \<times> bool \<times> rval) run) \<Rightarrow> nat \<Rightarrow> cfagenttype \<Rightarrow> string \<Rightarrow> agent_state \<Rightarrow> rval list \<Rightarrow> rval list \<Rightarrow> agent_state run" where
  "map_args_loop eval n agent scopeid s (rpg # give) (rpt # formal) =
     run_bind (case item_text rpg of None \<Rightarrow> ret cf_str | Some t \<Rightarrow> StringDataType n (a_vars s) scopeid t) (\<lambda>dtg.
     run_bind (case rpg of
         Scalar v \<Rightarrow> run_bind (AddVariableHash n (a_vars s) scopeid (scalar_text rpt) rpg dtg) (\<lambda>(_, st). ret (s\<lparr>a_vars := st\<rparr>))
       | ListVal l \<Rightarrow> run_bind (AddVariableHash n (a_vars s) scopeid (scalar_text rpt) rpg dtg) (\<lambda>(_, st). ret (s\<lparr>a_vars := st\<rparr>))
       | Call f args \<Rightarrow> run_bind (eval s f args) (\<lambda>(s1, ok, v).
           if \<not> ok \<and> agent \<noteq> cf_common then ret s1
           else (case v of
               Scalar t \<Rightarrow> run_bind (AddVariableHash n (a_vars s1) scopeid (scalar_text rpt) v (FunctionReturnType f)) (\<lambda>(_, st). ret (s1\<lparr>a_vars := st\<rparr>))
             | ListVal [] \<Rightarrow> run_bind (AddVariableHash n (a_vars s1) scopeid (scalar_text rpt) NoScalar (FunctionReturnType f)) (\<lambda>(_, st). ret (s1\<lparr>a_vars := st\<rparr>))
             | _ \<Rightarrow> Some (Inl OutOfBounds)))
       | _ \<Rightarrow> Some (Inl FatalErrorExit)) (\<lambda>s1. map_args_loop eval n agent scopeid s1 give formal))"
| "map_args_loop eval n agent scopeid s give formal = ret s"

definition MapBodyArgs :: "(agent_state \<Rightarrow> string \<Rightarrow> rval list \<Rightarrow> (agent_state \<times> bool \<times> rval) run) \<Rightarrow> nat \<Rightarrow> cfagenttype \<Rightarrow> string \<Rightarrow> agent_state \<Rightarrow> rval list \<Rightarrow> rval list \<Rightarrow> (agent_state \<times> bool) run" where
  "MapBodyArgs eval n agent scopeid s give formal =
     (if RlistLen give \<noteq> RlistLen formal then ret (s, False)
      else run_bind (map_args_loop eval n agent scopeid s give formal) (\<lambda>s1. ret (s1, True)))"

section \<open>Modules\<close>

definition CheckID :: "string \<Rightarrow> bool" where
  "CheckID id' \<longleftrightarrow> list_all (\<lambda>c. c_isalnum c \<or> c = CHR ''_'' \<or> c = CHR ''['' \<or> c = CHR '']'') id'"

text \<open>\<open>basename\<close> of the C library.\<close>

definition base_name :: "string \<Rightarrow> string" where
  "base_name f =
     (if f = [] then ''.''
      else let p = rev (dropWhile (\<lambda>c. c = CHR ''/'') (rev f))
           in if p = [] then ''/'' else rev (takeWhile (\<lambda>c. c \<noteq> CHR ''/'') (rev p)))"

text \<open>\<open>name=content\<close>, as \<open>sscanf\<close> reads it.\<close>

definition assignment :: "string \<Rightarrow> string \<times> string" where
  "assignment s =
     (let nm = takeWhile (\<lambda>c. c \<noteq> CHR ''='') s
      in if nm = [] then ([], []) else (nm, takeWhile (\<lambda>c. c \<noteq> CHR 0x0A) (drop (length nm + 1) s)))"

definition module_context :: "string \<Rightarrow> string" where
  "module_context command = CanonifyNameInPlace (base_name (take (CF_BUFSIZE - 1) (GetArg0 command)))"

definition ModuleProtocol :: "'d fn_env \<Rightarrow> nat \<Rightarrow> string \<Rightarrow> string \<Rightarrow> agent_state \<Rightarrow> string \<Rightarrow> agent_state run" where
  "ModuleProtocol e n command namespace s line =
     (let context = module_context command;
          st = NewScope (a_vars s) context; s0 = s\<lparr>a_vars := st\<rparr>; rest = drop 1 line; (nm, content) = assignment rest
      in if char_at line 0 = CHR ''+'' then
           (if CheckID rest then run_bind (Some (NewClass (full_match e) (a_ctx s) rest (Some namespace))) (\<lambda>ctx. ret (s0\<lparr>a_ctx := ctx\<rparr>)) else ret s0)
         else if char_at line 0 = CHR ''-'' then
           (if CheckID rest then run_bind (Some (NegateClassesFromString (a_ctx s) (Some rest))) (\<lambda>ctx. ret (s0\<lparr>a_ctx := ctx\<rparr>)) else ret s0)
         else if char_at line 0 = CHR ''='' then
           (if CheckID nm then run_bind (NewScalar n st context nm content cf_str) (\<lambda>st1. ret (s0\<lparr>a_vars := st1\<rparr>)) else ret s0)
         else if char_at line 0 = CHR ''@'' then
           (if CheckID nm then run_bind (Some (ParseShownRlist content)) (\<lambda>l.
              run_bind (NewList n st context nm l cf_slist) (\<lambda>st1. ret (s0\<lparr>a_vars := st1\<rparr>))) else ret s0)
         else ret s0)"

text \<open>The lines that a module writes, up to one that is too long.\<close>

fun ExecModule :: "'d fn_env \<Rightarrow> nat \<Rightarrow> string \<Rightarrow> string \<Rightarrow> agent_state \<Rightarrow> string list \<Rightarrow> agent_state run" where
  "ExecModule e n command namespace s [] = ret s"
| "ExecModule e n command namespace s (line # ls) =
     (if length line > CF_BUFSIZE - 80 then ret s
      else run_bind (ModuleProtocol e n command namespace s line) (\<lambda>s1. ExecModule e n command namespace s1 ls))"

section \<open>Groups of peers\<close>

lemma smod_nat: "int j smod int n = int (j mod n)"
  by (simp add: signed_modulo_int_def sgn_if zmod_int)

lemma last_of_group: "0 < n \<Longrightarrow> int j smod int n = int n - 1 \<longleftrightarrow> n - j mod n = 1"
  using mod_less_divisor [of n j] by (auto simp: smod_nat of_nat_diff intro: nat_less_le)

lemma next_in_group: "0 < (n :: nat) \<Longrightarrow> n - j mod n \<noteq> 1 \<Longrightarrow> Suc j mod n = Suc (j mod n)"
  using mod_less_divisor [of n j] by (simp add: mod_Suc)

lemma peers_loop_group:
  assumes "0 < n"
  shows "peers_loop e (int n) (int j) found pr ss =
    (let m = n - j mod n; grp = take m ss
     in if length ss < m \<or> found \<or> (\<exists>s \<in> set grp. own_name e s) then rev (filter (\<lambda>s. \<not> own_name e s) grp) @ pr
        else peers_loop e (int n) (int (j + m)) False [] (drop m ss))"
proof (induction ss arbitrary: j found pr)
  case Nil
  have "0 < n - j mod n" using assms by simp
  then show ?case by (simp add: Let_def)
next
  case (Cons s ss)
  let ?m = "n - j mod n"
  show ?case
  proof (cases "?m = 1")
    case True
    then show ?thesis using last_of_group [OF assms, of j] by (simp add: Let_def add.commute)
  next
    case False
    have m: "?m = Suc (n - Suc j mod n)" by (simp add: next_in_group [OF assms False] Suc_diff_Suc [OF mod_less_divisor [OF assms]])
    have "peers_loop e (int n) (int j) found pr (s # ss) =
        peers_loop e (int n) (int (Suc j)) (found \<or> own_name e s) (if own_name e s then pr else s # pr) ss"
      using last_of_group [OF assms, of j] False by (simp add: Let_def add.commute)
    then show ?thesis unfolding m Cons.IH by (simp add: Let_def)
  qed
qed

lemma peers_loop_own:
  assumes "0 < n"
  shows "k < length xs \<Longrightarrow> own_name e (xs ! k) \<Longrightarrow> \<forall>i < k. \<not> own_name e (xs ! i) \<Longrightarrow> j mod n = 0 \<Longrightarrow>
    peers_loop e (int n) (int j) False [] xs = rev (filter (\<lambda>s. \<not> own_name e s) (take n (drop (k div n * n) xs)))"
proof (induction k arbitrary: xs j rule: less_induct)
  case (less k)
  show ?case
  proof (cases "k < n")
    case True
    with less.prems have "\<exists>s \<in> set (take n xs). own_name e s" by (auto simp: in_set_conv_nth intro!: bexI [of _ "xs ! k"] exI [of _ k])
    with True less.prems(4) show ?thesis by (subst peers_loop_group [OF assms]) (simp add: Let_def)
  next
    case False
    then have k: "n \<le> k" "k - n < k" using assms by simp_all
    have no: "\<not> (\<exists>s \<in> set (take n xs). own_name e s)" using less.prems(3) k by (auto simp: in_set_conv_nth)
    have "peers_loop e (int n) (int j) False [] xs = peers_loop e (int n) (int (j + n)) False [] (drop n xs)"
      using less.prems(1,4) k no by (subst peers_loop_group [OF assms]) (simp add: Let_def)
    also have "\<dots> = rev (filter (\<lambda>s. \<not> own_name e s) (take n (drop ((k - n) div n * n) (drop n xs))))"
    proof (rule less.IH [OF k(2)])
      show "\<forall>i < k - n. \<not> own_name e (drop n xs ! i)" using less.prems(1,3) k by auto
    qed (use less.prems k in auto)
    finally have "peers_loop e (int n) (int j) False [] xs = rev (filter (\<lambda>s. \<not> own_name e s) (take n (drop ((k - n) div n * n + n) xs)))"
      by (simp add: add.commute)
    moreover have "(k - n) div n * n + n = k div n * n" using assms k(1) by (metis add.commute div_add_self2 le_add_diff_inverse2 mult_Suc not_gr_zero plus_1_eq_Suc)
    ultimately show ?thesis by simp
  qed
qed

text \<open>The leader that is returned stands at the next start of a group.\<close>

lemma leader_loop_found:
  assumes "0 < n"
  shows "\<forall>s \<in> set xs. \<not> own_name e s \<Longrightarrow> leader_loop e (int n) (int j) True xs =
    (let m = (if j mod n = 0 then 0 else n - j mod n) in if m < length xs then xs ! m else [])"
proof (induction xs arbitrary: j)
  case (Cons s ss)
  show ?case
  proof (cases "j mod n = 0")
    case True
    with Cons.prems show ?thesis by (simp add: smod_nat Let_def)
  next
    case False
    define m where "m = n - j mod n"
    have 1: "leader_loop e (int n) (int j) True (s # ss) = leader_loop e (int n) (int (Suc j)) True ss"
      using False by (simp add: smod_nat Let_def add.commute) 
    have 2: "m = Suc (if Suc j mod n = 0 then 0 else n - Suc j mod n)"
      using mod_less_divisor [OF assms, of j] False by (auto simp: mod_Suc m_def)
    show ?thesis using Cons.prems False unfolding 1 by (subst Cons.IH) (simp_all add: Let_def 2 flip: m_def)
  qed
qed (simp add: Let_def)

lemma leader_loop_own:
  assumes "0 < n" and k: "k < length xs" "own_name e (xs ! k)" "\<forall>i < length xs. i \<noteq> k \<longrightarrow> \<not> own_name e (xs ! i)"
  shows "leader_loop e (int n) 0 False xs =
    (if k mod n = 0 then ''localhost'' else if (k div n + 1) * n < length xs then xs ! ((k div n + 1) * n) else [])"
proof -
  have skip: "\<forall>s \<in> set us. \<not> own_name e s \<Longrightarrow> leader_loop e (int n) (int j) False (us @ vs) = leader_loop e (int n) (int (j + length us)) False vs" for us vs j
  proof (induction us arbitrary: j)
    case (Cons u us)
    from Cons.IH [of "Suc j"] Cons.prems show ?case by (simp add: add.commute)
  qed simp
  have split: "xs = take k xs @ xs ! k # drop (Suc k) xs" using k(1) by (rule id_take_nth_drop)
  have before: "\<forall>s \<in> set (take k xs). \<not> own_name e s" using k by (auto simp: in_set_conv_nth)
  have after: "\<forall>s \<in> set (drop (Suc k) xs). \<not> own_name e s" using k by (auto simp: in_set_conv_nth)
  have at_k: "leader_loop e (int n) 0 False xs = leader_loop e (int n) (int k) False (xs ! k # drop (Suc k) xs)"
    using skip [OF before, of 0 "xs ! k # drop (Suc k) xs"] split k(1) by simp
  show ?thesis
  proof (cases "k mod n = 0")
    case True
    with k(2) show ?thesis unfolding at_k by (simp add: smod_nat)
  next
    case False
    let ?m = "if Suc k mod n = 0 then 0 else n - Suc k mod n"
    have "leader_loop e (int n) 0 False xs = leader_loop e (int n) (int (Suc k)) True (drop (Suc k) xs)"
      unfolding at_k using False k(2) by (simp add: smod_nat add.commute)
    also have "\<dots> = (if ?m < length (drop (Suc k) xs) then drop (Suc k) xs ! ?m else [])"
      by (subst leader_loop_found [OF assms(1) after]) (simp add: Let_def)
    finally have r: "leader_loop e (int n) 0 False xs = (if ?m < length (drop (Suc k) xs) then drop (Suc k) xs ! ?m else [])" .
    have "Suc ?m = n - k mod n" using mod_less_divisor [OF assms(1), of k] False by (auto simp: mod_Suc)
    moreover have "(k div n + 1) * n = k + (n - k mod n)"
      using mod_less_divisor [OF assms(1), of k] div_mult_mod_eq [of k n] unfolding distrib_right by linarith
    ultimately have pos: "Suc k + ?m = (k div n + 1) * n" by simp
    then show ?thesis using False unfolding r using nth_drop [of "Suc k" xs ?m] k(1) by auto
  qed
qed


text \<open>C28: on a list of hosts in groups of \<open>n\<close>, \<open>peers\<close> gives the other members of the group this host is in.  The manual and the description of
  the function promise that \<open>peerleader\<close> gives the first host of that group; the code does so only when this host is the first itself, and
  otherwise gives the first host of the group behind, or fails when there is none.\<close>

lemma peers_and_leader:
  assumes args: "scalar_arg args 0 = Inr fname" "scalar_arg args 1 = Inr comment" "int_arg e args 2 = Inr (int n)" "0 < n"
    and contents: "CfReadFile e fname 100000 = Some s" "StripPatterns e s comment = Inr buffer"
      "SplitRegexAsRList (block_match e) (Some buffer) [CHR 0x0A] 100000 True = Inr l" "host_lines l = Inr hosts"
    and own: "k < length hosts" "own_name e (hosts ! k)" "\<forall>i < length hosts. i \<noteq> k \<longrightarrow> \<not> own_name e (hosts ! i)"
  shows "let others = filter (\<lambda>h. \<not> own_name e h) (take n (drop (k div n * n) hosts));
      behind = (k div n + 1) * n;
      leader = (if k mod n = 0 then ''localhost'' else if behind < length hosts then hosts ! behind else [])
    in FnCallPeers e args = Inr (if others = [] then FNCALL_FAILURE else FNCALL_SUCCESS (ListVal (map Scalar (rev others)))) \<and>
      FnCallPeerLeader e args = Inr (if leader = [] then FNCALL_FAILURE else FNCALL_SUCCESS (Scalar leader)) \<and>
      (k mod n \<noteq> 0 \<and> distinct hosts \<longrightarrow> FnCallPeerLeader e args \<noteq> Inr (FNCALL_SUCCESS (Scalar (hosts ! (k div n * n)))))"
proof -
  have input: "peer_file e args f = f hosts (int n)" for f
    using args contents by (simp add: peer_file_def with_args_def)
  have "peers_loop e (int n) 0 False [] hosts = rev (filter (\<lambda>h. \<not> own_name e h) (take n (drop (k div n * n) hosts)))"
    using peers_loop_own [OF args(4) own(1,2), of 0] own by simp
  moreover have "hosts ! ((k div n + 1) * n) \<noteq> hosts ! (k div n * n)" if "distinct hosts" "(k div n + 1) * n < length hosts"
    using that args(4) by (simp add: nth_eq_iff_index_eq)
  ultimately show ?thesis
    using leader_loop_own [OF args(4) own] by (auto simp: FnCallPeers_def FnCallPeerLeader_def input Let_def)
qed

definition line_pcre :: pcre where
  "line_pcre re = (if re = [CHR 0x0A]
     then Some (\<lambda>s. let i = length (takeWhile (\<lambda>c. c \<noteq> CHR 0x0A) s) in if i < length s then Some [Some (i, i + 1)] else None) else None)"

definition four_hosts :: string where
  "four_hosts = ''a'' @ [CHR 0x0A] @ ''b'' @ [CHR 0x0A] @ ''c'' @ [CHR 0x0A] @ ''d''"

definition peer_env :: "int fn_env" where
  "peer_env = \<lparr>e_pcre = line_pcre, e_real = whole_reals, e_lf = show_int, CFSTARTTIME = 0, e_now = 0, VYEAR = ''2013'', VMONTH = ''March'',
     VFQNAME = ''b.example.com'', VUQNAME = ''b'', THIS_BUNDLE = ''main'', THIS_AGENT_TYPE = cf_agent,
     fopen = (\<lambda>f. Some four_hosts),
     cfstat = (\<lambda>f. Some \<lparr>st_mtime = 0, st_atime = 0, st_ctime = 0, st_kind = regular_file, st_executable = False, st_size = 7\<rparr>),
     lstat = (\<lambda>f. None), opendir = (\<lambda>f. None), getenv = (\<lambda>v. None), getpwent = [], getnetgrent = (\<lambda>g. []), drand48 = (\<lambda>r. 0),
     IPString2Hostname = (\<lambda>a. a)\<rparr>"

lemma peer_env_contents: "CfReadFile peer_env ''/h'' 100000 = Some four_hosts"
  by (simp add: CfReadFile_def peer_env_def four_hosts_def)

lemma peer_env_lines:
  "SplitRegexAsRList (block_match peer_env) (Some four_hosts) [CHR 0x0A] 100000 True = Inr [Scalar ''a'', Scalar ''b'', Scalar ''c'', Scalar ''d'']"
  by (simp add: SplitRegexAsRList_def split_regex_loop.simps block_match_def peer_env_def line_pcre_def four_hosts_def CF_MAXVARSIZE_def)

lemma peer_env_hosts: "host_lines [Scalar ''a'', Scalar ''b'', Scalar ''c'', Scalar ''d''] = Inr [''a'', ''b'', ''c'', ''d'']"
  by code_simp

lemmas peer_env_file = peer_env_contents peer_env_lines peer_env_hosts

lemma Str2Int_show_int:
  assumes "LONG_MIN \<le> i" "i \<le> LONG_MAX"
  shows "Str2Int now (Some (show_int i)) = Inr i"
proof -
  have at: "strtol10 (show_int i) = (i, [])" by (rule strtol10_show_int [OF assms])
  have "show_int i \<noteq> []" "[] \<noteq> show_int i" by (simp_all add: show_int_def eq_commute [of "[]"])
  moreover have "strtol10 ''inf'' = (0, ''inf'')" "strtol10 ''now'' = (0, ''now'')" by (simp_all add: strtol10_def c_isspace_def c_isdigit_def)
  with at have "show_int i \<noteq> ''inf''" "show_int i \<noteq> ''now''" by (metis list.distinct(1) prod.inject)+
  ultimately show ?thesis
    using at assms by (auto split: list.splits simp: Str2Int_def scan_unit_def scan_int_def IsSpace_def CF_BUFSIZE_def unit_factor_def long_res_def)
qed

lemma peers_and_leader_witness:
  "FnCallPeers peer_env [Scalar ''/h'', Scalar '''', Scalar ''2''] = Inr (FNCALL_SUCCESS (ListVal [Scalar ''a''])) \<and>
   FnCallPeerLeader peer_env [Scalar ''/h'', Scalar '''', Scalar ''2''] = Inr (FNCALL_SUCCESS (Scalar ''c'')) \<and>
   FnCallPeerLeader peer_env [Scalar ''/h'', Scalar '''', Scalar ''2''] \<noteq> Inr (FNCALL_SUCCESS (Scalar ''a''))"
proof -
  have "show_int 2 = ''2''" by code_simp
  with Str2Int_show_int [of 2 0] have "Str2Int 0 (Some ''2'') = Inr 2" by (simp add: LONG_MIN_def LONG_MAX_def)
  then have "int_arg peer_env [Scalar ''/h'', Scalar '''', Scalar ''2''] 2 = Inr (int 2)"
    by (simp add: int_arg_def scalar_arg_def peer_env_def as_int_def ScalarValue_def)
  moreover have "scalar_arg [Scalar ''/h'', Scalar '''', Scalar ''2''] 0 = Inr ''/h''" "scalar_arg [Scalar ''/h'', Scalar '''', Scalar ''2''] 1 = Inr ''''"
    by (simp_all add: scalar_arg_def ScalarValue_def)
  moreover have "StripPatterns peer_env four_hosts '''' = Inr four_hosts" by (simp add: StripPatterns_def)
  moreover have "own_name peer_env ''b''" "\<not> own_name peer_env ''a''" "\<not> own_name peer_env ''c''" "\<not> own_name peer_env ''d''"
    by (simp_all add: own_name_def peer_env_def)
  moreover from this have "own_name peer_env ([''a'', ''b'', ''c'', ''d''] ! 1)"
    "\<forall>i < length [''a'', ''b'', ''c'', ''d'']. i \<noteq> 1 \<longrightarrow> \<not> own_name peer_env ([''a'', ''b'', ''c'', ''d''] ! i)"
    by (auto simp: nth_Cons split: nat.splits)
  ultimately show ?thesis
    using peers_and_leader [of "[Scalar ''/h'', Scalar '''', Scalar ''2'']" "''/h''" "''''" peer_env 2 four_hosts four_hosts "[Scalar ''a'', Scalar ''b'', Scalar ''c'', Scalar ''d'']" "[''a'', ''b'', ''c'', ''d'']" 1] peer_env_file
    by (simp add: Let_def)
qed

end
