(* ===== verification/CF_Attributes.thy ===== *)
theory CF_Attributes
  imports CF_Syntax
begin

text \<open>
  \<open>src/attributes.c\<close>: the attributes of a promise as records, read from its constraints with the readers of \<open>CF_Policy\<close>.  A record
  holds what the code assigns; what it leaves zero is left out.  Integers of the files are kept at the width of their field.
\<close>

section \<open>Readers\<close>

text \<open>What the readers ask: the classes, the start of the agent, the users and groups, the defaults of the agent.\<close>

record 'd attr_env =
  a_ctx :: context_state
  a_starttime :: int
  a_real :: "'d real_ops"
  a_netgroup :: "string \<Rightarrow> string list"
  a_getpwnam :: "string \<Rightarrow> 32 word option"
  a_getgrnam :: "string \<Rightarrow> 32 word option"
  a_bits :: bsd_bits
  VIFELAPSED :: int
  VEXPIREAFTER :: int
  EDITFILESIZE :: int
  CHECKSUMUPDATES :: bool
  CF_DEFAULT_DIGEST :: cfhashes
  DEFAULT_COPYTYPE :: "string option"

definition GetRealConstraint :: "'d real_ops \<Rightarrow> context_state \<Rightarrow> string \<Rightarrow> Promise \<Rightarrow> 'd res" where
  "GetRealConstraint d ctx lv pp = last_scalar ctx (Some (pr_namespace pp)) lv
     (\<lambda>s. at_run_time (Str2Double d s)) (CF_NODOUBLE d) (conlist pp)"

definition scalar :: "'d attr_env \<Rightarrow> string \<Rightarrow> Promise \<Rightarrow> string option" where
  "scalar e lv pp = (case GetConstraintValue (a_ctx e) lv (Some pp) (CHR ''s'') of Some (Scalar s) \<Rightarrow> Some s | _ \<Rightarrow> None)"

definition listed :: "'d attr_env \<Rightarrow> string \<Rightarrow> Promise \<Rightarrow> rval list" where
  "listed e lv pp = (case GetConstraintValue (a_ctx e) lv (Some pp) (CHR ''l'') of Some (ListVal l) \<Rightarrow> l | _ \<Rightarrow> [])"

definition flag :: "'d attr_env \<Rightarrow> string \<Rightarrow> Promise \<Rightarrow> bool res" where
  "flag e lv pp = GetBooleanConstraint (a_ctx e) lv pp"

definition bundle_flag :: "'d attr_env \<Rightarrow> string \<Rightarrow> Promise \<Rightarrow> bool res" where
  "bundle_flag e lv pp = GetBundleConstraint (a_ctx e) lv pp"

definition number :: "'d attr_env \<Rightarrow> string \<Rightarrow> Promise \<Rightarrow> int res" where
  "number e lv pp = GetIntConstraint (a_starttime e) (a_ctx e) lv pp"

definition real_number :: "'d attr_env \<Rightarrow> string \<Rightarrow> Promise \<Rightarrow> 'd res" where
  "real_number e lv pp = GetRealConstraint (a_real e) (a_ctx e) lv pp"

definition items :: "'d attr_env \<Rightarrow> string \<Rightarrow> Promise \<Rightarrow> rval list res" where
  "items e lv pp = GetListConstraint (a_ctx e) lv pp"

definition int_range :: "'d attr_env \<Rightarrow> string \<Rightarrow> Promise \<Rightarrow> (int \<times> int) res" where
  "int_range e lv pp = IntRange2Int (scalar e lv pp)"

definition int_of_text :: "'d attr_env \<Rightarrow> string \<Rightarrow> Promise \<Rightarrow> int res" where
  "int_of_text e lv pp = res_bind (Str2Int (a_starttime e) (scalar e lv pp)) (\<lambda>i. Inr (sint (word_of_int i :: 32 word)))"

definition or_else :: "int \<Rightarrow> int \<Rightarrow> int" where
  "or_else deflt i = (if i = CF_NOINT then deflt else i)"

text \<open>The first name of a table that a value has.\<close>

definition chosen :: "'a \<Rightarrow> (string \<times> 'a) list \<Rightarrow> string option \<Rightarrow> 'a" where
  "chosen deflt table value = (case value of
     None \<Rightarrow> deflt
   | Some v \<Rightarrow> (case List.find (\<lambda>(nm, _). strcmp v nm = 0) table of Some (_, x) \<Rightarrow> x | None \<Rightarrow> deflt))"

definition or_real :: "'d attr_env \<Rightarrow> int \<Rightarrow> int \<Rightarrow> 'd \<Rightarrow> 'd" where
  "or_real e a b x = (if d_eq (a_real e) x (CF_NODOUBLE (a_real e)) then d_const (a_real e) a b else x)"

section \<open>Attributes common to all promises\<close>

datatype cfopaction = cfa_fix | cfa_warn

record 'd TransactionContext =
  t_action :: "cfopaction"
  t_background :: "bool"
  t_ifelapsed :: "int"
  t_expireafter :: "int"
  t_audit :: "bool"
  t_log_string :: "string option"
  t_log_priority :: "int"
  t_log_kept :: "string option"
  t_log_repaired :: "string option"
  t_log_failed :: "string option"
  t_value_kept :: "'d"
  t_value_repaired :: "'d"
  t_value_notkept :: "'d"
  t_log_level :: "cfreport"
  t_report_level :: "cfreport"
  t_measure_id :: "string option"

definition GetTransactionConstraints :: "'d attr_env \<Rightarrow> Promise \<Rightarrow> 'd TransactionContext res" where
  "GetTransactionConstraints e pp =
     res_bind (flag e ''background'' pp) (\<lambda>vbackground.
     res_bind (number e ''ifelapsed'' pp) (\<lambda>vifelapsed.
     res_bind (number e ''expireafter'' pp) (\<lambda>vexpireafter.
     res_bind (flag e ''audit'' pp) (\<lambda>vaudit.
     res_bind (real_number e ''value_kept'' pp) (\<lambda>vvalue_kept.
     res_bind (real_number e ''value_repaired'' pp) (\<lambda>vvalue_repaired.
     res_bind (real_number e ''value_notkept'' pp) (\<lambda>vvalue_notkept.
     Inr \<lparr>t_action = chosen cfa_fix [(''warn'', cfa_warn), (''nop'', cfa_warn)] (scalar e ''action_policy'' pp), t_background = vbackground,
       t_ifelapsed = or_else (VIFELAPSED e) vifelapsed, t_expireafter = or_else (VEXPIREAFTER e) vexpireafter, t_audit = vaudit,
       t_log_string = scalar e ''log_string'' pp, t_log_priority = SyslogPriority2Int (scalar e ''log_priority'' pp),
       t_log_kept = scalar e ''log_kept'' pp, t_log_repaired = scalar e ''log_repaired'' pp, t_log_failed = scalar e ''log_failed'' pp,
       t_value_kept = or_real e 1 1 vvalue_kept, t_value_repaired = or_real e 1 2 vvalue_repaired, t_value_notkept = or_real e (-1) 1 vvalue_notkept,
       t_log_level = String2ReportLevel (scalar e ''log_level'' pp), t_report_level = String2ReportLevel (scalar e ''report_level'' pp),
       t_measure_id = scalar e ''measurement_class'' pp\<rparr>)))))))"

record DefineClasses =
  c_change :: "rval list"
  c_failure :: "rval list"
  c_denied :: "rval list"
  c_timeout :: "rval list"
  c_kept :: "rval list"
  c_interrupt :: "rval list"
  c_del_change :: "rval list"
  c_del_kept :: "rval list"
  c_del_notkept :: "rval list"
  c_retcode_kept :: "rval list"
  c_retcode_repaired :: "rval list"
  c_retcode_failed :: "rval list"
  c_persist :: "int"
  c_timer :: "statepolicy"

definition GetClassDefinitionConstraints :: "'d attr_env \<Rightarrow> Promise \<Rightarrow> DefineClasses res" where
  "GetClassDefinitionConstraints e pp =
     res_bind (items e ''promise_repaired'' pp) (\<lambda>vchange.
     res_bind (items e ''repair_failed'' pp) (\<lambda>vfailure.
     res_bind (items e ''repair_denied'' pp) (\<lambda>vdenied.
     res_bind (items e ''repair_timeout'' pp) (\<lambda>vtimeout.
     res_bind (items e ''promise_kept'' pp) (\<lambda>vkept.
     res_bind (items e ''on_interrupt'' pp) (\<lambda>vinterrupt.
     res_bind (items e ''cancel_repaired'' pp) (\<lambda>vdel_change.
     res_bind (items e ''cancel_kept'' pp) (\<lambda>vdel_kept.
     res_bind (items e ''cancel_notkept'' pp) (\<lambda>vdel_notkept.
     res_bind (items e ''kept_returncodes'' pp) (\<lambda>vretcode_kept.
     res_bind (items e ''repaired_returncodes'' pp) (\<lambda>vretcode_repaired.
     res_bind (items e ''failed_returncodes'' pp) (\<lambda>vretcode_failed.
     res_bind (number e ''persist_time'' pp) (\<lambda>vpersist.
     Inr \<lparr>c_change = vchange, c_failure = vfailure, c_denied = vdenied, c_timeout = vtimeout, c_kept = vkept, c_interrupt = vinterrupt,
       c_del_change = vdel_change, c_del_kept = vdel_kept, c_del_notkept = vdel_notkept, c_retcode_kept = vretcode_kept,
       c_retcode_repaired = vretcode_repaired, c_retcode_failed = vretcode_failed, c_persist = or_else 0 vpersist,
       c_timer = (case (scalar e ''timer_policy'' pp) of Some pt \<Rightarrow> if take 3 pt = ''abs'' then cfpreserve else cfreset | None \<Rightarrow> cfreset)\<rparr>)))))))))))))"

section \<open>Files\<close>

record Recursion =
  r_travlinks :: "bool"
  r_rmdeadlinks :: "bool"
  r_depth :: "int"
  r_xdev :: "bool"
  r_include_dirs :: "rval list"
  r_exclude_dirs :: "rval list"
  r_include_basedir :: "bool"

definition GetRecursionConstraints :: "'d attr_env \<Rightarrow> Promise \<Rightarrow> Recursion res" where
  "GetRecursionConstraints e pp =
     res_bind (flag e ''traverse_links'' pp) (\<lambda>vtravlinks.
     res_bind (flag e ''rmdeadlinks'' pp) (\<lambda>vrmdeadlinks.
     res_bind (number e ''depth'' pp) (\<lambda>vdepth.
     res_bind (flag e ''xdev'' pp) (\<lambda>vxdev.
     res_bind (items e ''include_dirs'' pp) (\<lambda>vinclude_dirs.
     res_bind (items e ''exclude_dirs'' pp) (\<lambda>vexclude_dirs.
     res_bind (flag e ''include_basedir'' pp) (\<lambda>vinclude_basedir.
     Inr \<lparr>r_travlinks = vtravlinks, r_rmdeadlinks = vrmdeadlinks, r_depth = or_else 0 vdepth, r_xdev = vxdev, r_include_dirs = vinclude_dirs,
       r_exclude_dirs = vexclude_dirs, r_include_basedir = vinclude_basedir\<rparr>)))))))"

record Acl =
  acl_method :: "cf_acl_method"
  acl_type :: "cf_acl_type"
  acl_directory_inherit :: "cf_acl_inherit"
  acl_entries :: "rval list"
  acl_inherit_entries :: "rval list"

definition GetAclConstraints :: "'d attr_env \<Rightarrow> Promise \<Rightarrow> Acl res" where
  "GetAclConstraints e pp =
     res_bind (items e ''aces'' pp) (\<lambda>ventries.
     res_bind (items e ''specify_inherit_aces'' pp) (\<lambda>vinherit_entries.
     Inr \<lparr>acl_method = Str2AclMethod (scalar e ''acl_method'' pp), acl_type = Str2AclType (scalar e ''acl_type'' pp),
       acl_directory_inherit = Str2AclInherit (scalar e ''acl_directory_inherit'' pp), acl_entries = ventries,
       acl_inherit_entries = vinherit_entries\<rparr>))"

text \<open>The name is only kept for a user who is not known.\<close>

record UidList =
  u_uid :: "32 word"
  u_uidname :: "string option"

definition AddSimpleUidItem :: "UidList list \<Rightarrow> 32 word \<Rightarrow> string option \<Rightarrow> UidList list" where
  "AddSimpleUidItem uidlist uid uidname = uidlist @ [\<lparr>u_uid = uid, u_uidname = (if uid = CF_UNKNOWN_OWNER then uidname else None)\<rparr>]"

definition AddSimpleGidItem :: "UidList list \<Rightarrow> 32 word \<Rightarrow> string option \<Rightarrow> UidList list" where
  "AddSimpleGidItem gidlist gid gidname = gidlist @ [\<lparr>u_uid = gid, u_uidname = (if gid = CF_UNKNOWN_OWNER then gidname else None)\<rparr>]"

text \<open>An item that is not a text would be read as one.\<close>

fun uid_loop :: "(string \<Rightarrow> 32 word \<times> string option) \<Rightarrow> UidList list \<Rightarrow> rval list \<Rightarrow> UidList list res" where
  "uid_loop conv uidlist [] = Inr uidlist"
| "uid_loop conv uidlist (v # l) = (case v of
     Scalar s \<Rightarrow> (case conv s of (uid, username) \<Rightarrow>
       uid_loop conv (AddSimpleUidItem uidlist uid (Some (case username of None \<Rightarrow> [] | Some u \<Rightarrow> u))) l)
   | NoScalar \<Rightarrow> Inl NullDereference
   | _ \<Rightarrow> Inl OutOfBounds)"

definition Rlist2UidList :: "(string \<Rightarrow> string list) \<Rightarrow> (string \<Rightarrow> 32 word option) \<Rightarrow> rval list \<Rightarrow> UidList list res" where
  "Rlist2UidList netgroup getpwnam uidnames = res_bind (uid_loop (Str2Uid netgroup getpwnam) [] uidnames) (\<lambda>l.
     Inr (if l = [] then AddSimpleUidItem [] CF_SAME_OWNER None else l))"

definition Rlist2GidList :: "(string \<Rightarrow> 32 word option) \<Rightarrow> rval list \<Rightarrow> UidList list res" where
  "Rlist2GidList getgrnam gidnames = res_bind (uid_loop (Str2Gid getgrnam) [] gidnames) (\<lambda>l.
     Inr (if l = [] then AddSimpleGidItem [] CF_SAME_OWNER None else l))"

text \<open>\<open>rxdirs\<close> is true when it is not given.\<close>

record FilePerms =
  p_plus :: mode_t
  p_minus :: mode_t
  p_owners :: "UidList list"
  p_groups :: "UidList list"
  p_findertype :: "string option"
  p_plus_flags :: "64 word"
  p_minus_flags :: "64 word"
  p_rxdirs :: bool

definition GetPermissionConstraints :: "'d attr_env \<Rightarrow> Promise \<Rightarrow> FilePerms res" where
  "GetPermissionConstraints e pp =
     (case ParseModeString (scalar e ''mode'' pp) of (_, plusm, minusm) \<Rightarrow>
      res_bind (items e ''bsdflags'' pp) (\<lambda>flags.
      case (if flags \<noteq> [] then ParseFlagString (a_bits e) flags (0, 0) else (0, 0)) of (plus_flags, minus_flags) \<Rightarrow>
      res_bind (Rlist2UidList (a_netgroup e) (a_getpwnam e) (listed e ''owners'' pp)) (\<lambda>owners.
      res_bind (Rlist2GidList (a_getgrnam e) (listed e ''groups'' pp)) (\<lambda>groups.
      res_bind (flag e ''rxdirs'' pp) (\<lambda>rxdirs.
      Inr \<lparr>p_plus = plusm, p_minus = minusm, p_owners = owners, p_groups = groups, p_findertype = scalar e ''findertype'' pp,
        p_plus_flags = plus_flags, p_minus_flags = minus_flags, p_rxdirs = (if scalar e ''rxdirs'' pp = None then True else rxdirs)\<rparr>)))))"

record FileSelect =
  fs_name :: "rval list"
  fs_path :: "rval list"
  fs_filetypes :: "rval list"
  fs_issymlinkto :: "rval list"
  fs_perms :: "rval list"
  fs_bsdflags :: "rval list"
  fs_owners :: "rval list"
  fs_groups :: "rval list"
  fs_min_size :: "int"
  fs_max_size :: "int"
  fs_min_ctime :: "int"
  fs_max_ctime :: "int"
  fs_min_atime :: "int"
  fs_max_atime :: "int"
  fs_min_mtime :: "int"
  fs_max_mtime :: "int"
  fs_exec_regex :: "string option"
  fs_exec_program :: "string option"
  fs_result :: "string option"

definition GetSelectConstraints :: "'d attr_env \<Rightarrow> Promise \<Rightarrow> FileSelect res" where
  "GetSelectConstraints e pp =
     res_bind (items e ''search_mode'' pp) (\<lambda>vperms.
     res_bind (items e ''search_bsdflags'' pp) (\<lambda>vbsdflags.
     res_bind (int_range e ''search_size'' pp) (\<lambda>(vmin_size, vmax_size).
     res_bind (int_range e ''ctime'' pp) (\<lambda>(vmin_ctime, vmax_ctime).
     res_bind (int_range e ''atime'' pp) (\<lambda>(vmin_atime, vmax_atime).
     res_bind (int_range e ''mtime'' pp) (\<lambda>(vmin_mtime, vmax_mtime).
     Inr \<lparr>fs_name = listed e ''leaf_name'' pp, fs_path = listed e ''path_name'' pp, fs_filetypes = listed e ''file_types'' pp,
       fs_issymlinkto = listed e ''issymlinkto'' pp, fs_perms = vperms, fs_bsdflags = vbsdflags, fs_owners = listed e ''search_owners'' pp,
       fs_groups = listed e ''search_groups'' pp, fs_min_size = vmin_size, fs_max_size = vmax_size, fs_min_ctime = vmin_ctime,
       fs_max_ctime = vmax_ctime, fs_min_atime = vmin_atime, fs_max_atime = vmax_atime, fs_min_mtime = vmin_mtime, fs_max_mtime = vmax_mtime,
       fs_exec_regex = scalar e ''exec_regex'' pp, fs_exec_program = scalar e ''exec_program'' pp,
       fs_result = scalar e ''file_result'' pp\<rparr>))))))"

datatype cftidylinks = cfa_linkdelete | cfa_linkkeep

record FileDelete =
  fd_dirlinks :: "cftidylinks"
  fd_rmdirs :: "bool"

definition GetDeleteConstraints :: "'d attr_env \<Rightarrow> Promise \<Rightarrow> FileDelete res" where
  "GetDeleteConstraints e pp =
     res_bind (flag e ''rmdirs'' pp) (\<lambda>vrmdirs.
     Inr \<lparr>fd_dirlinks = chosen cfa_linkdelete [(''keep'', cfa_linkkeep)] (scalar e ''dirlinks'' pp), fd_rmdirs = vrmdirs\<rparr>)"

record FileRename =
  fr_newname :: "string option"
  fr_disable_suffix :: "string option"
  fr_disable :: bool
  fr_rotate :: int
  fr_plus :: mode_t
  fr_minus :: mode_t

definition GetRenameConstraints :: "'d attr_env \<Rightarrow> Promise \<Rightarrow> FileRename res" where
  "GetRenameConstraints e pp =
     (case ParseModeString (scalar e ''disable_mode'' pp) of (_, plusm, minusm) \<Rightarrow>
      res_bind (flag e ''disable'' pp) (\<lambda>disable.
      res_bind (number e ''rotate'' pp) (\<lambda>rotate.
      Inr \<lparr>fr_newname = scalar e ''newname'' pp, fr_disable_suffix = scalar e ''disable_suffix'' pp, fr_disable = disable,
        fr_rotate = rotate, fr_plus = plusm, fr_minus = minusm\<rparr>)))"

datatype cfchanges = cfa_noreport | cfa_contentchange | cfa_statschange | cfa_allchanges

record FileChange =
  ch_hash :: "cfhashes"
  ch_report_changes :: "cfchanges"
  ch_update :: "bool"
  ch_report_diffs :: "bool"

definition GetChangeMgtConstraints :: "'d attr_env \<Rightarrow> Promise \<Rightarrow> FileChange res" where
  "GetChangeMgtConstraints e pp =
     res_bind (if scalar e ''update_hashes'' pp \<noteq> None then flag e ''update_hashes'' pp else Inr (CHECKSUMUPDATES e)) (\<lambda>vupdate.
     res_bind (flag e ''report_diffs'' pp) (\<lambda>vreport_diffs.
     Inr \<lparr>
       ch_hash = chosen (CF_DEFAULT_DIGEST e) [(''best'', cf_besthash), (''md5'', cf_md5), (''sha1'', cf_sha1), (''sha256'', cf_sha256), (''sha384'', cf_sha384), (''sha512'', cf_sha512)] (scalar e ''hash'' pp),
       ch_report_changes = chosen cfa_noreport [(''content'', cfa_contentchange), (''stats'', cfa_statschange), (''all'', cfa_allchanges)] (scalar e ''report_changes'' pp),
       ch_update = vupdate, ch_report_diffs = vreport_diffs\<rparr>))"

datatype cfbackupoptions = cfa_backup | cfa_nobackup | cfa_timestamp | cfa_rotate | cfa_repos_store

record FileCopy =
  fc_source :: "string option"
  fc_compare :: "cfcomparison"
  fc_link_type :: "cflinktype"
  fc_servers :: "rval list"
  fc_portnumber :: "int"
  fc_timeout :: "int"
  fc_link_instead :: "rval list"
  fc_copy_links :: "rval list"
  fc_backup :: "cfbackupoptions"
  fc_stealth :: "bool"
  fc_collapse :: "bool"
  fc_preserve :: "bool"
  fc_type_check :: "bool"
  fc_force_update :: "bool"
  fc_force_ipv4 :: "bool"
  fc_check_root :: "bool"
  fc_min_size :: "int"
  fc_max_size :: "int"
  fc_trustkey :: "bool"
  fc_encrypt :: "bool"
  fc_verify :: "bool"
  fc_purge :: "bool"

definition GetCopyConstraints :: "'d attr_env \<Rightarrow> Promise \<Rightarrow> FileCopy res" where
  "GetCopyConstraints e pp =
     res_bind (items e ''servers'' pp) (\<lambda>vservers.
     res_bind (number e ''portnumber'' pp) (\<lambda>vportnumber.
     res_bind (number e ''timeout'' pp) (\<lambda>vtimeout.
     res_bind (items e ''linkcopy_patterns'' pp) (\<lambda>vlink_instead.
     res_bind (items e ''copylink_patterns'' pp) (\<lambda>vcopy_links.
     res_bind (flag e ''stealth'' pp) (\<lambda>vstealth.
     res_bind (flag e ''collapse_destination_dir'' pp) (\<lambda>vcollapse.
     res_bind (flag e ''preserve'' pp) (\<lambda>vpreserve.
     res_bind (flag e ''type_check'' pp) (\<lambda>vtype_check.
     res_bind (flag e ''force_update'' pp) (\<lambda>vforce_update.
     res_bind (flag e ''force_ipv4'' pp) (\<lambda>vforce_ipv4.
     res_bind (flag e ''check_root'' pp) (\<lambda>vcheck_root.
     res_bind (int_range e ''copy_size'' pp) (\<lambda>(vmin_size, vmax_size).
     res_bind (flag e ''trustkey'' pp) (\<lambda>vtrustkey.
     res_bind (flag e ''encrypt'' pp) (\<lambda>vencrypt.
     res_bind (flag e ''verify'' pp) (\<lambda>vverify.
     res_bind (flag e ''purge'' pp) (\<lambda>vpurge.
     Inr \<lparr>fc_source = scalar e ''source'' pp,
       fc_compare = String2Comparison (case (scalar e ''compare'' pp) of None \<Rightarrow> DEFAULT_COPYTYPE e | Some v \<Rightarrow> Some v),
       fc_link_type = String2LinkType (scalar e ''link_type'' pp), fc_servers = vservers, fc_portnumber = sint (word_of_int vportnumber :: 16 word),
       fc_timeout = sint (word_of_int vtimeout :: 16 word), fc_link_instead = vlink_instead, fc_copy_links = vcopy_links,
       fc_backup = chosen cfa_backup [(''false'', cfa_nobackup), (''timestamp'', cfa_timestamp)] (scalar e ''copy_backup'' pp),
       fc_stealth = vstealth, fc_collapse = vcollapse, fc_preserve = vpreserve, fc_type_check = vtype_check, fc_force_update = vforce_update,
       fc_force_ipv4 = vforce_ipv4, fc_check_root = vcheck_root, fc_min_size = uint (word_of_int vmin_size :: 64 word),
       fc_max_size = uint (word_of_int vmax_size :: 64 word), fc_trustkey = vtrustkey, fc_encrypt = vencrypt, fc_verify = vverify,
       fc_purge = vpurge\<rparr>)))))))))))))))))"

datatype cfnofile = cfa_force | cfa_delete | cfa_skip

datatype cflinkchildren = cfa_override | cfa_onlynonexisting

record FileLink =
  fl_source :: "string option"
  fl_link_type :: "cflinktype"
  fl_copy_patterns :: "rval list"
  fl_when_no_file :: "cfnofile"
  fl_when_linking_children :: "cflinkchildren"
  fl_link_children :: "bool"

definition GetLinkConstraints :: "'d attr_env \<Rightarrow> Promise \<Rightarrow> FileLink res" where
  "GetLinkConstraints e pp =
     res_bind (items e ''copy_patterns'' pp) (\<lambda>vcopy_patterns.
     res_bind (flag e ''link_children'' pp) (\<lambda>vlink_children.
     Inr \<lparr>fl_source = scalar e ''source'' pp, fl_link_type = String2LinkType (scalar e ''link_type'' pp), fl_copy_patterns = vcopy_patterns,
       fl_when_no_file = chosen cfa_skip [(''force'', cfa_force), (''delete'', cfa_delete)] (scalar e ''when_no_source'' pp),
       fl_when_linking_children = chosen cfa_onlynonexisting [(''override_file'', cfa_override)] (scalar e ''when_linking_children'' pp),
       fl_link_children = vlink_children\<rparr>))"

record EditDefaults =
  ed_backup :: cfbackupoptions
  ed_empty_before_use :: bool
  ed_maxfilesize :: int
  ed_joinlines :: bool
  ed_rotate :: int
  ed_inherit :: bool

definition GetEditDefaults :: "'d attr_env \<Rightarrow> Promise \<Rightarrow> EditDefaults res" where
  "GetEditDefaults e pp =
     res_bind (number e ''max_file_size'' pp) (\<lambda>maxfilesize.
     let backup = chosen cfa_backup [(''false'', cfa_nobackup), (''timestamp'', cfa_timestamp), (''rotate'', cfa_rotate)] (scalar e ''edit_backup'' pp) in
     res_bind (if backup = cfa_rotate then number e ''rotate'' pp else Inr 0) (\<lambda>rotate.
     res_bind (flag e ''empty_file_before_editing'' pp) (\<lambda>empty_before_use.
     res_bind (flag e ''recognize_join'' pp) (\<lambda>joinlines.
     res_bind (flag e ''inherit'' pp) (\<lambda>inherit.
     Inr \<lparr>ed_backup = backup, ed_empty_before_use = empty_before_use,
       ed_maxfilesize = (if maxfilesize = CF_NOINT \<or> maxfilesize = 0 then EDITFILESIZE e else maxfilesize),
       ed_joinlines = joinlines, ed_rotate = rotate, ed_inherit = inherit\<rparr>)))))"

section \<open>Line edits\<close>

record EditLocation =
  l_line_matching :: "string option"
  l_before_after :: "cfeditorder"
  l_first_last :: "string option"

definition GetLocationAttributes :: "'d attr_env \<Rightarrow> Promise \<Rightarrow> EditLocation res" where
  "GetLocationAttributes e pp =
     Inr \<lparr>l_line_matching = scalar e ''select_line_matching'' pp,
       l_before_after = chosen cfe_after [(''before'', cfe_before)] (scalar e ''before_after'' pp), l_first_last = scalar e ''first_last'' pp\<rparr>"

record EditXml =
  x_select_xpath :: "string option"
  x_haveselectxpath :: "bool"
  x_attribute_value :: "string option"
  x_haveattributevalue :: "bool"

definition GetXmlConstraints :: "'d attr_env \<Rightarrow> Promise \<Rightarrow> EditXml res" where
  "GetXmlConstraints e pp =
     Inr \<lparr>x_select_xpath = scalar e ''select_xpath'' pp, x_haveselectxpath = ((scalar e ''select_xpath'' pp) \<noteq> None),
       x_attribute_value = scalar e ''attribute_value'' pp, x_haveattributevalue = ((scalar e ''attribute_value'' pp) \<noteq> None)\<rparr>"

record EditRegion =
  rg_select_start :: "string option"
  rg_select_end :: "string option"
  rg_include_start :: "bool"
  rg_include_end :: "bool"

definition GetRegionConstraints :: "'d attr_env \<Rightarrow> Promise \<Rightarrow> EditRegion res" where
  "GetRegionConstraints e pp =
     res_bind (flag e ''include_start_delimiter'' pp) (\<lambda>vinclude_start.
     res_bind (flag e ''include_end_delimiter'' pp) (\<lambda>vinclude_end.
     Inr \<lparr>rg_select_start = scalar e ''select_start'' pp, rg_select_end = scalar e ''select_end'' pp, rg_include_start = vinclude_start,
       rg_include_end = vinclude_end\<rparr>))"

record EditReplace =
  rp_replace_value :: "string option"
  rp_occurrences :: "string option"

definition GetReplaceConstraints :: "'d attr_env \<Rightarrow> Promise \<Rightarrow> EditReplace res" where
  "GetReplaceConstraints e pp =
     Inr \<lparr>rp_replace_value = scalar e ''replace_value'' pp, rp_occurrences = scalar e ''occurrences'' pp\<rparr>"

record EditColumn =
  co_column_separator :: "string option"
  co_select_column :: int
  co_value_separator :: "char option"
  co_column_value :: "string option"
  co_column_operation :: "string option"
  co_extend_columns :: bool
  co_blanks_ok :: bool

text \<open>The NUL of an empty \<open>value_separator\<close> is \<open>None\<close>, and the field is only counted from zero when it is given.\<close>

definition GetColumnConstraints :: "'d attr_env \<Rightarrow> Promise \<Rightarrow> EditColumn res" where
  "GetColumnConstraints e pp =
     res_bind (number e ''select_field'' pp) (\<lambda>select_field.
     res_bind (if select_field \<noteq> CF_NOINT then flag e ''start_fields_from_zero'' pp else Inr False) (\<lambda>from_zero.
     res_bind (if from_zero \<and> select_field = 2147483647 then Inl Overflow else Inr (if from_zero then select_field + 1 else select_field)) (\<lambda>column.
     res_bind (flag e ''extend_fields'' pp) (\<lambda>extend.
     res_bind (flag e ''allow_blank_fields'' pp) (\<lambda>blanks.
     Inr \<lparr>co_column_separator = scalar e ''field_separator'' pp, co_select_column = column,
       co_value_separator = (case scalar e ''value_separator'' pp of Some (c # _) \<Rightarrow> Some c | _ \<Rightarrow> None),
       co_column_value = scalar e ''field_value'' pp, co_column_operation = scalar e ''field_operation'' pp,
       co_extend_columns = extend, co_blanks_ok = blanks\<rparr>)))))"

record LineSelect =
  ls_startwith_from_list :: "rval list"
  ls_not_startwith_from_list :: "rval list"
  ls_match_from_list :: "rval list"
  ls_not_match_from_list :: "rval list"
  ls_contains_from_list :: "rval list"
  ls_not_contains_from_list :: "rval list"

definition GetInsertSelectConstraints :: "'d attr_env \<Rightarrow> Promise \<Rightarrow> LineSelect res" where
  "GetInsertSelectConstraints e pp =
     res_bind (items e ''insert_if_startwith_from_list'' pp) (\<lambda>vstartwith_from_list.
     res_bind (items e ''insert_if_not_startwith_from_list'' pp) (\<lambda>vnot_startwith_from_list.
     res_bind (items e ''insert_if_match_from_list'' pp) (\<lambda>vmatch_from_list.
     res_bind (items e ''insert_if_not_match_from_list'' pp) (\<lambda>vnot_match_from_list.
     res_bind (items e ''insert_if_contains_from_list'' pp) (\<lambda>vcontains_from_list.
     res_bind (items e ''insert_if_not_contains_from_list'' pp) (\<lambda>vnot_contains_from_list.
     Inr \<lparr>ls_startwith_from_list = vstartwith_from_list, ls_not_startwith_from_list = vnot_startwith_from_list,
       ls_match_from_list = vmatch_from_list, ls_not_match_from_list = vnot_match_from_list, ls_contains_from_list = vcontains_from_list,
       ls_not_contains_from_list = vnot_contains_from_list\<rparr>))))))"

definition GetDeleteSelectConstraints :: "'d attr_env \<Rightarrow> Promise \<Rightarrow> LineSelect res" where
  "GetDeleteSelectConstraints e pp =
     res_bind (items e ''delete_if_startwith_from_list'' pp) (\<lambda>vstartwith_from_list.
     res_bind (items e ''delete_if_not_startwith_from_list'' pp) (\<lambda>vnot_startwith_from_list.
     res_bind (items e ''delete_if_match_from_list'' pp) (\<lambda>vmatch_from_list.
     res_bind (items e ''delete_if_not_match_from_list'' pp) (\<lambda>vnot_match_from_list.
     res_bind (items e ''delete_if_contains_from_list'' pp) (\<lambda>vcontains_from_list.
     res_bind (items e ''delete_if_not_contains_from_list'' pp) (\<lambda>vnot_contains_from_list.
     Inr \<lparr>ls_startwith_from_list = vstartwith_from_list, ls_not_startwith_from_list = vnot_startwith_from_list,
       ls_match_from_list = vmatch_from_list, ls_not_match_from_list = vnot_match_from_list, ls_contains_from_list = vcontains_from_list,
       ls_not_contains_from_list = vnot_contains_from_list\<rparr>))))))"

section \<open>Other promises\<close>

record Services =
  sv_type :: "string option"
  sv_policy :: "cf_srv_policy"
  sv_autostart_policy :: "string option"
  sv_args :: "string option"
  sv_depend :: "rval list"
  sv_depend_chain :: "string option"

definition GetServicesConstraints :: "'d attr_env \<Rightarrow> Promise \<Rightarrow> Services res" where
  "GetServicesConstraints e pp =
     res_bind (items e ''service_dependencies'' pp) (\<lambda>vdepend.
     Inr \<lparr>sv_type = scalar e ''service_type'' pp, sv_policy = Str2ServicePolicy (scalar e ''service_policy'' pp),
       sv_autostart_policy = scalar e ''service_autostart_policy'' pp, sv_args = scalar e ''service_args'' pp, sv_depend = vdepend,
       sv_depend_chain = scalar e ''service_dependence_chain'' pp\<rparr>)"

record Environments =
  en_cpus :: "int"
  en_memory :: "int"
  en_disk :: "int"
  en_baseline :: "string option"
  en_spec :: "string option"
  en_host :: "string option"
  en_addresses :: "rval list"
  en_name :: "string option"
  en_type :: "string option"
  en_state :: "cfenvironment_state"

definition GetEnvironmentsConstraints :: "'d attr_env \<Rightarrow> Promise \<Rightarrow> Environments res" where
  "GetEnvironmentsConstraints e pp =
     res_bind (number e ''env_cpus'' pp) (\<lambda>vcpus.
     res_bind (number e ''env_memory'' pp) (\<lambda>vmemory.
     res_bind (number e ''env_disk'' pp) (\<lambda>vdisk.
     res_bind (items e ''env_addresses'' pp) (\<lambda>vaddresses.
     Inr \<lparr>en_cpus = vcpus, en_memory = vmemory, en_disk = vdisk, en_baseline = scalar e ''env_baseline'' pp,
       en_spec = scalar e ''env_spec'' pp, en_host = scalar e ''environment_host'' pp, en_addresses = vaddresses, en_name = scalar e ''env_name'' pp,
       en_type = scalar e ''environment_type'' pp, en_state = Str2EnvState (scalar e ''environment_state'' pp)\<rparr>))))"

record ExecContain =
  ex_useshell :: "bool"
  ex_umask :: "mode_t"
  ex_owner :: "32 word"
  ex_group :: "32 word"
  ex_preview :: "bool"
  ex_nooutput :: "bool"
  ex_timeout :: "int"
  ex_chroot :: "string option"
  ex_chdir :: "string option"

definition GetExecContainConstraints :: "'d attr_env \<Rightarrow> Promise \<Rightarrow> ExecContain res" where
  "GetExecContainConstraints e pp =
     res_bind (flag e ''useshell'' pp) (\<lambda>vuseshell.
     res_bind (GetOctalConstraint (a_ctx e) ''umask'' pp) (\<lambda>vumask.
     res_bind (GetUidConstraint (a_netgroup e) (a_getpwnam e) (a_ctx e) ''exec_owner'' pp) (\<lambda>vowner.
     res_bind (GetGidConstraint (a_getgrnam e) (a_ctx e) ''exec_group'' pp) (\<lambda>vgroup.
     res_bind (flag e ''preview'' pp) (\<lambda>vpreview.
     res_bind (flag e ''no_output'' pp) (\<lambda>vnooutput.
     res_bind (number e ''exec_timeout'' pp) (\<lambda>vtimeout.
     Inr \<lparr>ex_useshell = vuseshell, ex_umask = vumask, ex_owner = vowner, ex_group = vgroup, ex_preview = vpreview, ex_nooutput = vnooutput,
       ex_timeout = vtimeout, ex_chroot = scalar e ''chroot'' pp, ex_chdir = scalar e ''chdir'' pp\<rparr>)))))))"

text \<open>The expression is the last constraint that combines classes.\<close>

record ContextConstraint =
  cc_expression :: "Constraint option"
  cc_nconstraints :: nat
  cc_persistent :: int

definition class_constraints :: "Constraint list \<Rightarrow> Constraint list" where
  "class_constraints cs = filter (\<lambda>cp. strcmp (con_lval cp) ''persistence'' \<noteq> 0 \<and> attr_named (con_lval cp) CF_CLASSBODY \<noteq> None) cs"

definition GetContextConstraints :: "'d attr_env \<Rightarrow> Promise \<Rightarrow> ContextConstraint res" where
  "GetContextConstraints e pp = res_bind (number e ''persistence'' pp) (\<lambda>persistent.
     let cs = class_constraints (conlist pp)
     in Inr \<lparr>cc_expression = (if cs = [] then None else Some (last cs)), cc_nconstraints = length cs, cc_persistent = persistent\<rparr>)"

record Packages =
  pk_have_methods :: "bool"
  pk_version :: "string option"
  pk_architectures :: "rval list"
  pk_policy :: "package_actions"
  pk_select :: "version_cmp"
  pk_changes :: "action_policy"
  pk_file_repositories :: "rval list"
  pk_default_arch_command :: "string option"
  pk_patch_list_command :: "string option"
  pk_patch_name_regex :: "string option"
  pk_patch_arch_regex :: "string option"
  pk_patch_version_regex :: "string option"
  pk_patch_installed_regex :: "string option"
  pk_list_update_command :: "string option"
  pk_list_update_ifelapsed :: "int"
  pk_list_command :: "string option"
  pk_list_version_regex :: "string option"
  pk_list_name_regex :: "string option"
  pk_list_arch_regex :: "string option"
  pk_new_versions_command :: "string option"
  pk_installed_regex :: "string option"
  pk_version_regex :: "string option"
  pk_name_regex :: "string option"
  pk_arch_regex :: "string option"
  pk_add_command :: "string option"
  pk_delete_command :: "string option"
  pk_update_command :: "string option"
  pk_patch_command :: "string option"
  pk_verify_command :: "string option"
  pk_noverify_regex :: "string option"
  pk_noverify_returncode :: "int"
  pk_commands_useshell :: "bool"
  pk_name_convention :: "string option"
  pk_delete_convention :: "string option"
  pk_multiline_start :: "string option"
  pk_version_equal_command :: "string option"
  pk_version_less_command :: "string option"

definition GetPackageConstraints :: "'d attr_env \<Rightarrow> Promise \<Rightarrow> Packages res" where
  "GetPackageConstraints e pp =
     res_bind (flag e ''havepackage_method'' pp) (\<lambda>vhave_methods.
     res_bind (items e ''package_architectures'' pp) (\<lambda>varchitectures.
     res_bind (items e ''package_file_repositories'' pp) (\<lambda>vfile_repositories.
     res_bind (number e ''package_list_update_ifelapsed'' pp) (\<lambda>vlist_update_ifelapsed.
     res_bind (number e ''package_noverify_returncode'' pp) (\<lambda>vnoverify_returncode.
     res_bind (if GetConstraint (a_ctx e) (Some pp) ''package_commands_useshell'' = None then Inr True else flag e ''package_commands_useshell'' pp) (\<lambda>vcommands_useshell.
     Inr \<lparr>pk_have_methods = vhave_methods, pk_version = scalar e ''package_version'' pp, pk_architectures = varchitectures,
       pk_policy = (let action = Str2PackageAction (scalar e ''package_policy'' pp) in if action = cfa_pa_none then cfa_addpack else action),
       pk_select = Str2PackageSelect (scalar e ''package_select'' pp), pk_changes = Str2ActionPolicy (scalar e ''package_changes'' pp),
       pk_file_repositories = vfile_repositories, pk_default_arch_command = scalar e ''package_default_arch_command'' pp,
       pk_patch_list_command = scalar e ''package_patch_list_command'' pp, pk_patch_name_regex = scalar e ''package_patch_name_regex'' pp,
       pk_patch_arch_regex = scalar e ''package_patch_arch_regex'' pp, pk_patch_version_regex = scalar e ''package_patch_version_regex'' pp,
       pk_patch_installed_regex = scalar e ''package_patch_installed_regex'' pp,
       pk_list_update_command = scalar e ''package_list_update_command'' pp, pk_list_update_ifelapsed = vlist_update_ifelapsed,
       pk_list_command = scalar e ''package_list_command'' pp, pk_list_version_regex = scalar e ''package_list_version_regex'' pp,
       pk_list_name_regex = scalar e ''package_list_name_regex'' pp, pk_list_arch_regex = scalar e ''package_list_arch_regex'' pp,
       pk_new_versions_command = scalar e ''package_new_versions_command'' pp, pk_installed_regex = scalar e ''package_installed_regex'' pp,
       pk_version_regex = scalar e ''package_version_regex'' pp, pk_name_regex = scalar e ''package_name_regex'' pp,
       pk_arch_regex = scalar e ''package_arch_regex'' pp, pk_add_command = scalar e ''package_add_command'' pp,
       pk_delete_command = scalar e ''package_delete_command'' pp, pk_update_command = scalar e ''package_update_command'' pp,
       pk_patch_command = scalar e ''package_patch_command'' pp, pk_verify_command = scalar e ''package_verify_command'' pp,
       pk_noverify_regex = scalar e ''package_noverify_regex'' pp, pk_noverify_returncode = vnoverify_returncode,
       pk_commands_useshell = vcommands_useshell, pk_name_convention = scalar e ''package_name_convention'' pp,
       pk_delete_convention = scalar e ''package_delete_convention'' pp, pk_multiline_start = scalar e ''package_multiline_start'' pp,
       pk_version_equal_command = scalar e ''package_version_equal_command'' pp,
       pk_version_less_command = scalar e ''package_version_less_command'' pp\<rparr>))))))"

record ProcessSelect =
  ps_owner :: "rval list"
  ps_min_pid :: "int"
  ps_max_pid :: "int"
  ps_min_ppid :: "int"
  ps_max_ppid :: "int"
  ps_min_pgid :: "int"
  ps_max_pgid :: "int"
  ps_min_rsize :: "int"
  ps_max_rsize :: "int"
  ps_min_vsize :: "int"
  ps_max_vsize :: "int"
  ps_min_ttime :: "int"
  ps_max_ttime :: "int"
  ps_min_stime :: "int"
  ps_max_stime :: "int"
  ps_status :: "string option"
  ps_command :: "string option"
  ps_tty :: "string option"
  ps_min_pri :: "int"
  ps_max_pri :: "int"
  ps_min_thread :: "int"
  ps_max_thread :: "int"
  ps_process_result :: "string option"

definition GetProcessFilterConstraints :: "'d attr_env \<Rightarrow> Promise \<Rightarrow> ProcessSelect res" where
  "GetProcessFilterConstraints e pp =
     res_bind (items e ''process_owner'' pp) (\<lambda>vowner.
     res_bind (int_range e ''pid'' pp) (\<lambda>(vmin_pid, vmax_pid).
     res_bind (int_range e ''ppid'' pp) (\<lambda>(vmin_ppid, vmax_ppid).
     res_bind (int_range e ''pgid'' pp) (\<lambda>(vmin_pgid, vmax_pgid).
     res_bind (int_range e ''rsize'' pp) (\<lambda>(vmin_rsize, vmax_rsize).
     res_bind (int_range e ''vsize'' pp) (\<lambda>(vmin_vsize, vmax_vsize).
     res_bind (int_range e ''ttime_range'' pp) (\<lambda>(vmin_ttime, vmax_ttime).
     res_bind (int_range e ''stime_range'' pp) (\<lambda>(vmin_stime, vmax_stime).
     res_bind (int_range e ''priority'' pp) (\<lambda>(vmin_pri, vmax_pri).
     res_bind (int_range e ''threads'' pp) (\<lambda>(vmin_thread, vmax_thread).
     Inr \<lparr>ps_owner = vowner, ps_min_pid = vmin_pid, ps_max_pid = vmax_pid, ps_min_ppid = vmin_ppid, ps_max_ppid = vmax_ppid,
       ps_min_pgid = vmin_pgid, ps_max_pgid = vmax_pgid, ps_min_rsize = vmin_rsize, ps_max_rsize = vmax_rsize, ps_min_vsize = vmin_vsize,
       ps_max_vsize = vmax_vsize, ps_min_ttime = vmin_ttime, ps_max_ttime = vmax_ttime, ps_min_stime = vmin_stime, ps_max_stime = vmax_stime,
       ps_status = scalar e ''status'' pp, ps_command = scalar e ''command'' pp, ps_tty = scalar e ''tty'' pp, ps_min_pri = vmin_pri,
       ps_max_pri = vmax_pri, ps_min_thread = vmin_thread, ps_max_thread = vmax_thread,
       ps_process_result = scalar e ''process_result'' pp\<rparr>))))))))))"

record ProcessCount =
  pc_min_range :: "int"
  pc_max_range :: "int"
  pc_in_range_define :: "rval list"
  pc_out_of_range_define :: "rval list"

definition GetMatchesConstraints :: "'d attr_env \<Rightarrow> Promise \<Rightarrow> ProcessCount res" where
  "GetMatchesConstraints e pp =
     res_bind (int_range e ''match_range'' pp) (\<lambda>(vmin_range, vmax_range).
     res_bind (items e ''in_range_define'' pp) (\<lambda>vin_range_define.
     res_bind (items e ''out_of_range_define'' pp) (\<lambda>vout_of_range_define.
     Inr \<lparr>pc_min_range = vmin_range, pc_max_range = vmax_range, pc_in_range_define = vin_range_define,
       pc_out_of_range_define = vout_of_range_define\<rparr>)))"

record StorageMount =
  mo_type :: "string option"
  mo_source :: "string option"
  mo_server :: "string option"
  mo_options :: "rval list"
  mo_editfstab :: "bool"
  mo_unmount :: "bool"

definition GetMountConstraints :: "'d attr_env \<Rightarrow> Promise \<Rightarrow> StorageMount res" where
  "GetMountConstraints e pp =
     res_bind (items e ''mount_options'' pp) (\<lambda>voptions.
     res_bind (flag e ''edit_fstab'' pp) (\<lambda>veditfstab.
     res_bind (flag e ''unmount'' pp) (\<lambda>vunmount.
     Inr \<lparr>mo_type = scalar e ''mount_type'' pp, mo_source = scalar e ''mount_source'' pp, mo_server = scalar e ''mount_server'' pp,
       mo_options = voptions, mo_editfstab = veditfstab, mo_unmount = vunmount\<rparr>)))"

record StorageVolume =
  vo_check_foreign :: "bool"
  vo_freespace :: "int"
  vo_sensible_size :: "int"
  vo_sensible_count :: "int"
  vo_scan_arrivals :: "bool"

definition GetVolumeConstraints :: "'d attr_env \<Rightarrow> Promise \<Rightarrow> StorageVolume res" where
  "GetVolumeConstraints e pp =
     res_bind (flag e ''check_foreign'' pp) (\<lambda>vcheck_foreign.
     res_bind (Str2Int (a_starttime e) (scalar e ''freespace'' pp)) (\<lambda>vfreespace.
     res_bind (int_of_text e ''sensible_size'' pp) (\<lambda>vsensible_size.
     res_bind (int_of_text e ''sensible_count'' pp) (\<lambda>vsensible_count.
     res_bind (flag e ''scan_arrivals'' pp) (\<lambda>vscan_arrivals.
     Inr \<lparr>vo_check_foreign = vcheck_foreign, vo_freespace = vfreespace, vo_sensible_size = or_else 1000 vsensible_size,
       vo_sensible_count = or_else 2 vsensible_count, vo_scan_arrivals = vscan_arrivals\<rparr>)))))"

record TcpIp =
  ip_ipv4_address :: "string option"
  ip_ipv4_netmask :: "string option"

definition GetTCPIPAttributes :: "'d attr_env \<Rightarrow> Promise \<Rightarrow> TcpIp res" where
  "GetTCPIPAttributes e pp =
     Inr \<lparr>ip_ipv4_address = scalar e ''ipv4_address'' pp, ip_ipv4_netmask = scalar e ''ipv4_netmask'' pp\<rparr>"

record 'd Report =
  re_result :: "string option"
  re_havelastseen :: "bool"
  re_lastseen :: "int"
  re_intermittency :: "'d"
  re_haveprintfile :: "bool"
  re_filename :: "string option"
  re_numlines :: "int"
  re_showstate :: "rval list"
  re_friend_pattern :: "string option"
  re_to_file :: "string option"

definition GetReportConstraints :: "'d attr_env \<Rightarrow> Promise \<Rightarrow> 'd Report res" where
  "GetReportConstraints e pp =
     res_bind (if scalar e ''lastseen'' pp \<noteq> None then number e ''lastseen'' pp else Inr 0) (\<lambda>vlastseen.
     res_bind (real_number e ''intermittency'' pp) (\<lambda>vintermittency.
     res_bind (flag e ''printfile'' pp) (\<lambda>vhaveprintfile.
     res_bind (number e ''number_of_lines'' pp) (\<lambda>vnumlines.
     res_bind (items e ''showstate'' pp) (\<lambda>vshowstate.
     Inr \<lparr>re_result = scalar e ''bundle_return_value_index'' pp, re_havelastseen = ((scalar e ''lastseen'' pp) \<noteq> None),
       re_lastseen = or_else 0 vlastseen, re_intermittency = or_real e 0 1 vintermittency, re_haveprintfile = vhaveprintfile,
       re_filename = scalar e ''file_to_print'' pp, re_numlines = or_else 5 vnumlines, re_showstate = vshowstate,
       re_friend_pattern = scalar e ''friend_pattern'' pp, re_to_file = scalar e ''report_to_file'' pp\<rparr>)))))"

record Measurement =
  me_stream_type :: "string option"
  me_data_type :: "cfdatatype"
  me_history_type :: "string option"
  me_select_line_matching :: "string option"
  me_select_line_number :: "int"
  me_policy :: "cfmeasurepolicy"
  me_extraction_regex :: "string option"
  me_units :: "string option"
  me_growing :: "bool"

definition GetMeasurementConstraint :: "'d attr_env \<Rightarrow> Promise \<Rightarrow> Measurement res" where
  "GetMeasurementConstraint e pp =
     res_bind (number e ''select_line_number'' pp) (\<lambda>vselect_line_number.
     res_bind (flag e ''track_growing_file'' pp) (\<lambda>vgrowing.
     Inr \<lparr>me_stream_type = scalar e ''stream_type'' pp,
       me_data_type = (let t = Typename2Datatype (scalar e ''data_type'' pp) in if t = cf_notype then cf_str else t),
       me_history_type = scalar e ''history_type'' pp, me_select_line_matching = scalar e ''select_line_matching'' pp,
       me_select_line_number = vselect_line_number, me_policy = MeasurePolicy2Value (scalar e ''select_multiline_policy'' pp),
       me_extraction_regex = scalar e ''extraction_regex'' pp, me_units = scalar e ''units'' pp, me_growing = vgrowing\<rparr>))"

record Database =
  da_db_server_owner :: "string option"
  da_db_server_password :: "string option"
  da_db_server_host :: "string option"
  da_db_connect_db :: "string option"
  da_type :: "string option"
  da_server :: "string option"
  da_columns :: "rval list"
  da_rows :: "rval list"
  da_operation :: "string option"
  da_exclude :: "rval list"
  da_db_server_type :: "cfdbtype"

definition GetDatabaseConstraints :: "'d attr_env \<Rightarrow> Promise \<Rightarrow> Database res" where
  "GetDatabaseConstraints e pp =
     res_bind (items e ''database_columns'' pp) (\<lambda>vcolumns.
     res_bind (items e ''database_rows'' pp) (\<lambda>vrows.
     res_bind (items e ''registry_exclude'' pp) (\<lambda>vexclude.
     Inr \<lparr>da_db_server_owner = scalar e ''db_server_owner'' pp, da_db_server_password = scalar e ''db_server_password'' pp,
       da_db_server_host = scalar e ''db_server_host'' pp, da_db_connect_db = scalar e ''db_server_connection_db'' pp,
       da_type = scalar e ''database_type'' pp, da_server = scalar e ''database_server'' pp, da_columns = vcolumns, da_rows = vrows,
       da_operation = scalar e ''database_operation'' pp, da_exclude = vexclude,
       da_db_server_type = Str2dbType (scalar e ''db_server_type'' pp)\<rparr>)))"

section \<open>The attributes of a promise\<close>

record 'd Attributes =
  havetrans :: bool
  transaction :: "'d TransactionContext"
  haveclasses :: bool
  a_classes :: DefineClasses

definition common_attributes :: "'d attr_env \<Rightarrow> Promise \<Rightarrow> 'd Attributes res" where
  "common_attributes e pp =
     res_bind (flag e ''action'' pp) (\<lambda>vhavetrans.
     res_bind (GetTransactionConstraints e pp) (\<lambda>vtransaction.
     res_bind (flag e ''classes'' pp) (\<lambda>vhaveclasses.
     res_bind (GetClassDefinitionConstraints e pp) (\<lambda>vclasses.
     Inr \<lparr>havetrans = vhavetrans, transaction = vtransaction, haveclasses = vhaveclasses, a_classes = vclasses\<rparr>))))"

text \<open>Some promises leave the two flags zero.\<close>

definition plain_attributes :: "'d attr_env \<Rightarrow> Promise \<Rightarrow> 'd Attributes res" where
  "plain_attributes e pp =
     res_bind (GetTransactionConstraints e pp) (\<lambda>vtransaction.
     res_bind (GetClassDefinitionConstraints e pp) (\<lambda>vclasses.
     Inr \<lparr>havetrans = False, transaction = vtransaction, haveclasses = False, a_classes = vclasses\<rparr>))"

record 'd FilesAttributes =
  fa_havedepthsearch :: bool
  fa_haveselect :: bool
  fa_haverename :: bool
  fa_havedelete :: bool
  fa_haveperms :: bool
  fa_havechange :: bool
  fa_havecopy :: bool
  fa_havelink :: bool
  fa_template :: "string option"
  fa_haveeditline :: bool
  fa_haveeditxml :: bool
  fa_haveedit :: bool
  fa_repository :: "string option"
  fa_create :: bool
  fa_touch :: bool
  fa_transformer :: "string option"
  fa_move_obstructions :: bool
  fa_pathtype :: "string option"
  fa_acl :: Acl
  fa_perms :: FilePerms
  fa_select :: FileSelect
  fa_delete :: FileDelete
  fa_rename :: FileRename
  fa_change :: FileChange
  fa_copy :: FileCopy
  fa_link :: FileLink
  fa_edits :: EditDefaults
  fa_recursion :: Recursion
  fa_common :: "'d Attributes"

text \<open>A template edits the file from scratch and inherits.\<close>

definition template_edits :: "string option \<Rightarrow> EditDefaults \<Rightarrow> EditDefaults" where
  "template_edits template edits = (if template \<noteq> None then edits\<lparr>ed_empty_before_use := True, ed_inherit := True\<rparr> else edits)"

definition GetFilesAttributes :: "'d attr_env \<Rightarrow> Promise \<Rightarrow> 'd FilesAttributes res" where
  "GetFilesAttributes e pp =
     res_bind (flag e ''depth_search'' pp) (\<lambda>vdepthsearch.
     res_bind (flag e ''file_select'' pp) (\<lambda>vselect.
     res_bind (flag e ''rename'' pp) (\<lambda>vrename.
     res_bind (flag e ''delete'' pp) (\<lambda>vdelete.
     res_bind (flag e ''perms'' pp) (\<lambda>vperms.
     res_bind (flag e ''changes'' pp) (\<lambda>vchange.
     res_bind (flag e ''copy_from'' pp) (\<lambda>vcopy.
     res_bind (flag e ''link_from'' pp) (\<lambda>vlink.
     res_bind (bundle_flag e ''edit_line'' pp) (\<lambda>veditline.
     res_bind (bundle_flag e ''edit_xml'' pp) (\<lambda>veditxml.
     res_bind (flag e ''create'' pp) (\<lambda>vcreate.
     res_bind (flag e ''touch'' pp) (\<lambda>vtouch.
     res_bind (flag e ''move_obstructions'' pp) (\<lambda>vmove.
     res_bind (GetAclConstraints e pp) (\<lambda>acl.
     res_bind (GetPermissionConstraints e pp) (\<lambda>perms.
     res_bind (GetSelectConstraints e pp) (\<lambda>sel.
     res_bind (GetDeleteConstraints e pp) (\<lambda>del.
     res_bind (GetRenameConstraints e pp) (\<lambda>ren.
     res_bind (GetChangeMgtConstraints e pp) (\<lambda>chg.
     res_bind (GetCopyConstraints e pp) (\<lambda>cpy.
     res_bind (GetLinkConstraints e pp) (\<lambda>lnk.
     res_bind (GetEditDefaults e pp) (\<lambda>edits.
     res_bind (GetRecursionConstraints e pp) (\<lambda>rec.
     res_bind (common_attributes e pp) (\<lambda>com.
     let template = scalar e ''edit_template'' pp
     in Inr \<lparr>fa_havedepthsearch = vdepthsearch, fa_haveselect = vselect, fa_haverename = vrename, fa_havedelete = vdelete, fa_haveperms = vperms,
       fa_havechange = vchange, fa_havecopy = vcopy, fa_havelink = vlink, fa_template = template, fa_haveeditline = veditline,
       fa_haveeditxml = veditxml, fa_haveedit = (veditline \<or> veditxml \<or> template \<noteq> None), fa_repository = scalar e ''repository'' pp,
       fa_create = vcreate, fa_touch = vtouch, fa_transformer = scalar e ''transformer'' pp, fa_move_obstructions = vmove,
       fa_pathtype = scalar e ''pathtype'' pp, fa_acl = acl, fa_perms = perms, fa_select = sel, fa_delete = del, fa_rename = ren,
       fa_change = chg, fa_copy = cpy, fa_link = lnk, fa_edits = template_edits template edits, fa_recursion = rec, fa_common = com\<rparr>))))))))))))))))))))))))"

record 'd OutputsAttributes =
  ou_common :: "'d Attributes"
  ou_promiser_type :: "string option"
  ou_level :: "string option"

definition GetOutputsAttributes :: "'d attr_env \<Rightarrow> Promise \<Rightarrow> 'd OutputsAttributes res" where
  "GetOutputsAttributes e pp =
     res_bind (plain_attributes e pp) (\<lambda>vcommon.
     Inr \<lparr>ou_common = vcommon, ou_promiser_type = scalar e ''promiser_type'' pp, ou_level = scalar e ''output_level'' pp\<rparr>)"

record 'd ReportsAttributes =
  ra_common :: "'d Attributes"
  ra_report :: "'d Report"

definition GetReportsAttributes :: "'d attr_env \<Rightarrow> Promise \<Rightarrow> 'd ReportsAttributes res" where
  "GetReportsAttributes e pp =
     res_bind (plain_attributes e pp) (\<lambda>vcommon.
     res_bind (GetReportConstraints e pp) (\<lambda>vreport.
     Inr \<lparr>ra_common = vcommon, ra_report = vreport\<rparr>))"

record 'd EnvironmentsAttributes =
  ea_common :: "'d Attributes"
  ea_env :: "Environments"

definition GetEnvironmentsAttributes :: "'d attr_env \<Rightarrow> Promise \<Rightarrow> 'd EnvironmentsAttributes res" where
  "GetEnvironmentsAttributes e pp =
     res_bind (plain_attributes e pp) (\<lambda>vcommon.
     res_bind (GetEnvironmentsConstraints e pp) (\<lambda>venv.
     Inr \<lparr>ea_common = vcommon, ea_env = venv\<rparr>))"

record 'd ServicesAttributes =
  sa_common :: "'d Attributes"
  sa_service :: "Services"
  sa_havebundle :: "bool"

definition GetServicesAttributes :: "'d attr_env \<Rightarrow> Promise \<Rightarrow> 'd ServicesAttributes res" where
  "GetServicesAttributes e pp =
     res_bind (plain_attributes e pp) (\<lambda>vcommon.
     res_bind (GetServicesConstraints e pp) (\<lambda>vservice.
     res_bind (bundle_flag e ''service_bundle'' pp) (\<lambda>vhavebundle.
     Inr \<lparr>sa_common = vcommon, sa_service = vservice, sa_havebundle = vhavebundle\<rparr>)))"

record 'd PackageAttributes =
  pa_common :: "'d Attributes"
  pa_packages :: "Packages"

definition GetPackageAttributes :: "'d attr_env \<Rightarrow> Promise \<Rightarrow> 'd PackageAttributes res" where
  "GetPackageAttributes e pp =
     res_bind (plain_attributes e pp) (\<lambda>vcommon.
     res_bind (GetPackageConstraints e pp) (\<lambda>vpackages.
     Inr \<lparr>pa_common = vcommon, pa_packages = vpackages\<rparr>))"

record 'd DatabaseAttributes =
  dba_common :: "'d Attributes"
  dba_database :: "Database"

definition GetDatabaseAttributes :: "'d attr_env \<Rightarrow> Promise \<Rightarrow> 'd DatabaseAttributes res" where
  "GetDatabaseAttributes e pp =
     res_bind (plain_attributes e pp) (\<lambda>vcommon.
     res_bind (GetDatabaseConstraints e pp) (\<lambda>vdatabase.
     Inr \<lparr>dba_common = vcommon, dba_database = vdatabase\<rparr>))"

record 'd ClassContextAttributes =
  ca_common :: "'d Attributes"
  ca_context :: "ContextConstraint"

definition GetClassContextAttributes :: "'d attr_env \<Rightarrow> Promise \<Rightarrow> 'd ClassContextAttributes res" where
  "GetClassContextAttributes e pp =
     res_bind (plain_attributes e pp) (\<lambda>vcommon.
     res_bind (GetContextConstraints e pp) (\<lambda>vcontext.
     Inr \<lparr>ca_common = vcommon, ca_context = vcontext\<rparr>))"

record 'd ExecAttributes =
  xa_contain :: "ExecContain"
  xa_havecontain :: "bool"
  xa_args :: "string option"
  xa_module :: "bool"
  xa_common :: "'d Attributes"

definition GetExecAttributes :: "'d attr_env \<Rightarrow> Promise \<Rightarrow> 'd ExecAttributes res" where
  "GetExecAttributes e pp =
     res_bind (GetExecContainConstraints e pp) (\<lambda>vcontain.
     res_bind (flag e ''contain'' pp) (\<lambda>vhavecontain.
     res_bind (flag e ''module'' pp) (\<lambda>vmodule.
     res_bind (common_attributes e pp) (\<lambda>vcommon.
     Inr \<lparr>xa_contain = vcontain, xa_havecontain = vhavecontain, xa_args = scalar e ''args'' pp, xa_module = vmodule,
       xa_common = vcommon\<rparr>))))"

record 'd ProcessAttributes =
  pr_signals :: "rval list"
  pr_process_stop :: "string option"
  pr_haveprocess_count :: "bool"
  pr_haveselect :: "bool"
  pr_restart_class :: "string option"
  pr_process_count :: "ProcessCount"
  pr_process_select :: "ProcessSelect"
  pr_common :: "'d Attributes"

definition GetProcessAttributes :: "'d attr_env \<Rightarrow> Promise \<Rightarrow> 'd ProcessAttributes res" where
  "GetProcessAttributes e pp =
     res_bind (items e ''signals'' pp) (\<lambda>vsignals.
     res_bind (flag e ''process_count'' pp) (\<lambda>vhaveprocess_count.
     res_bind (flag e ''process_select'' pp) (\<lambda>vhaveselect.
     res_bind (GetMatchesConstraints e pp) (\<lambda>vprocess_count.
     res_bind (GetProcessFilterConstraints e pp) (\<lambda>vprocess_select.
     res_bind (common_attributes e pp) (\<lambda>vcommon.
     Inr \<lparr>pr_signals = vsignals, pr_process_stop = scalar e ''process_stop'' pp, pr_haveprocess_count = vhaveprocess_count,
       pr_haveselect = vhaveselect, pr_restart_class = scalar e ''restart_class'' pp, pr_process_count = vprocess_count,
       pr_process_select = vprocess_select, pr_common = vcommon\<rparr>))))))"

record 'd StorageAttributes =
  st_mount :: "StorageMount"
  st_volume :: "StorageVolume"
  st_havevolume :: "bool"
  st_havemount :: "bool"
  st_maxfilesize :: "int"
  st_common :: "'d Attributes"

definition GetStorageAttributes :: "'d attr_env \<Rightarrow> Promise \<Rightarrow> 'd StorageAttributes res" where
  "GetStorageAttributes e pp =
     res_bind (GetMountConstraints e pp) (\<lambda>vmount.
     res_bind (GetVolumeConstraints e pp) (\<lambda>vvolume.
     res_bind (flag e ''volume'' pp) (\<lambda>vhavevolume.
     res_bind (flag e ''mount'' pp) (\<lambda>vhavemount.
     res_bind (Inr (EDITFILESIZE e)) (\<lambda>vmaxfilesize.
     res_bind (common_attributes e pp) (\<lambda>vcommon.
     Inr \<lparr>st_mount = vmount, st_volume = vvolume, st_havevolume = vhavevolume, st_havemount = vhavemount, st_maxfilesize = vmaxfilesize,
       st_common = vcommon\<rparr>))))))"

record 'd MethodAttributes =
  ma_havebundle :: "bool"
  ma_inherit :: "bool"
  ma_common :: "'d Attributes"

definition GetMethodAttributes :: "'d attr_env \<Rightarrow> Promise \<Rightarrow> 'd MethodAttributes res" where
  "GetMethodAttributes e pp =
     res_bind (bundle_flag e ''usebundle'' pp) (\<lambda>vhavebundle.
     res_bind (flag e ''inherit'' pp) (\<lambda>vinherit.
     res_bind (common_attributes e pp) (\<lambda>vcommon.
     Inr \<lparr>ma_havebundle = vhavebundle, ma_inherit = vinherit, ma_common = vcommon\<rparr>)))"

record 'd InterfacesAttributes =
  ia_havetcpip :: "bool"
  ia_tcpip :: "TcpIp"
  ia_common :: "'d Attributes"

definition GetInterfacesAttributes :: "'d attr_env \<Rightarrow> Promise \<Rightarrow> 'd InterfacesAttributes res" where
  "GetInterfacesAttributes e pp =
     res_bind (bundle_flag e ''usebundle'' pp) (\<lambda>vhavetcpip.
     res_bind (GetTCPIPAttributes e pp) (\<lambda>vtcpip.
     res_bind (common_attributes e pp) (\<lambda>vcommon.
     Inr \<lparr>ia_havetcpip = vhavetcpip, ia_tcpip = vtcpip, ia_common = vcommon\<rparr>)))"

record 'd MeasurementAttributes =
  mea_measure :: "Measurement"
  mea_common :: "'d Attributes"

definition GetMeasurementAttributes :: "'d attr_env \<Rightarrow> Promise \<Rightarrow> 'd MeasurementAttributes res" where
  "GetMeasurementAttributes e pp =
     res_bind (GetMeasurementConstraint e pp) (\<lambda>vmeasure.
     res_bind (common_attributes e pp) (\<lambda>vcommon.
     Inr \<lparr>mea_measure = vmeasure, mea_common = vcommon\<rparr>))"

record TopicsAttributes =
  ta_fwd_name :: "string option"
  ta_bwd_name :: "string option"
  ta_associates :: "rval list"
  ta_synonyms :: "rval list"
  ta_general :: "rval list"

definition GetTopicsAttributes :: "'d attr_env \<Rightarrow> Promise \<Rightarrow> TopicsAttributes res" where
  "GetTopicsAttributes e pp =
     res_bind (items e ''associates'' pp) (\<lambda>vassociates.
     res_bind (items e ''synonyms'' pp) (\<lambda>vsynonyms.
     res_bind (items e ''generalizations'' pp) (\<lambda>vgeneral.
     Inr \<lparr>ta_fwd_name = scalar e ''forward_relationship'' pp, ta_bwd_name = scalar e ''backward_relationship'' pp,
       ta_associates = vassociates, ta_synonyms = vsynonyms, ta_general = vgeneral\<rparr>)))"

text \<open>The name of the qualifiers is written as the code has it.\<close>

record InferencesAttributes =
  inf_precedents :: "rval list"
  inf_qualifiers :: "rval list"

definition GetInferencesAttributes :: "'d attr_env \<Rightarrow> Promise \<Rightarrow> InferencesAttributes res" where
  "GetInferencesAttributes e pp =
     res_bind (items e ''precedents'' pp) (\<lambda>vprecedents.
     res_bind (items e ''qualifers'' pp) (\<lambda>vqualifiers.
     Inr \<lparr>inf_precedents = vprecedents, inf_qualifiers = vqualifiers\<rparr>))"

record OccurrenceAttributes =
  oc_represents :: "rval list"
  oc_rep_type :: "string option"
  oc_about_topics :: "rval list"

definition GetOccurrenceAttributes :: "'d attr_env \<Rightarrow> Promise \<Rightarrow> OccurrenceAttributes res" where
  "GetOccurrenceAttributes e pp =
     res_bind (items e ''represents'' pp) (\<lambda>vrepresents.
     res_bind (items e ''about_topics'' pp) (\<lambda>vabout_topics.
     Inr \<lparr>oc_represents = vrepresents, oc_rep_type = scalar e ''representation'' pp, oc_about_topics = vabout_topics\<rparr>))"

section \<open>The attributes of line edits\<close>

record 'd InsertionAttributes =
  ins_havelocation :: "bool"
  ins_location :: "EditLocation"
  ins_sourcetype :: "string option"
  ins_expandvars :: "bool"
  ins_haveinsertselect :: "bool"
  ins_line_select :: "LineSelect"
  ins_insert_match :: "rval list"
  ins_haveregion :: "bool"
  ins_region :: "EditRegion"
  ins_xml :: "EditXml"
  ins_common :: "'d Attributes"

definition GetInsertionAttributes :: "'d attr_env \<Rightarrow> Promise \<Rightarrow> 'd InsertionAttributes res" where
  "GetInsertionAttributes e pp =
     res_bind (flag e ''location'' pp) (\<lambda>vhavelocation.
     res_bind (GetLocationAttributes e pp) (\<lambda>vlocation.
     res_bind (flag e ''expand_scalars'' pp) (\<lambda>vexpandvars.
     res_bind (flag e ''insert_select'' pp) (\<lambda>vhaveinsertselect.
     res_bind (GetInsertSelectConstraints e pp) (\<lambda>vline_select.
     res_bind (items e ''whitespace_policy'' pp) (\<lambda>vinsert_match.
     res_bind (flag e ''select_region'' pp) (\<lambda>vhaveregion.
     res_bind (GetRegionConstraints e pp) (\<lambda>vregion.
     res_bind (GetXmlConstraints e pp) (\<lambda>vxml.
     res_bind (common_attributes e pp) (\<lambda>vcommon.
     Inr \<lparr>ins_havelocation = vhavelocation, ins_location = vlocation, ins_sourcetype = scalar e ''insert_type'' pp,
       ins_expandvars = vexpandvars, ins_haveinsertselect = vhaveinsertselect, ins_line_select = vline_select, ins_insert_match = vinsert_match,
       ins_haveregion = vhaveregion, ins_region = vregion, ins_xml = vxml, ins_common = vcommon\<rparr>))))))))))"

record 'd DeletionAttributes =
  dl_not_matching :: "bool"
  dl_havedeleteselect :: "bool"
  dl_line_select :: "LineSelect"
  dl_haveregion :: "bool"
  dl_region :: "EditRegion"
  dl_xml :: "EditXml"
  dl_common :: "'d Attributes"

definition GetDeletionAttributes :: "'d attr_env \<Rightarrow> Promise \<Rightarrow> 'd DeletionAttributes res" where
  "GetDeletionAttributes e pp =
     res_bind (flag e ''not_matching'' pp) (\<lambda>vnot_matching.
     res_bind (flag e ''delete_select'' pp) (\<lambda>vhavedeleteselect.
     res_bind (GetDeleteSelectConstraints e pp) (\<lambda>vline_select.
     res_bind (flag e ''select_region'' pp) (\<lambda>vhaveregion.
     res_bind (GetRegionConstraints e pp) (\<lambda>vregion.
     res_bind (GetXmlConstraints e pp) (\<lambda>vxml.
     res_bind (common_attributes e pp) (\<lambda>vcommon.
     Inr \<lparr>dl_not_matching = vnot_matching, dl_havedeleteselect = vhavedeleteselect, dl_line_select = vline_select,
       dl_haveregion = vhaveregion, dl_region = vregion, dl_xml = vxml, dl_common = vcommon\<rparr>)))))))"

record 'd ColumnAttributes =
  cl_havecolumn :: "bool"
  cl_column :: "EditColumn"
  cl_haveregion :: "bool"
  cl_region :: "EditRegion"
  cl_common :: "'d Attributes"

definition GetColumnAttributes :: "'d attr_env \<Rightarrow> Promise \<Rightarrow> 'd ColumnAttributes res" where
  "GetColumnAttributes e pp =
     res_bind (flag e ''edit_field'' pp) (\<lambda>vhavecolumn.
     res_bind (GetColumnConstraints e pp) (\<lambda>vcolumn.
     res_bind (flag e ''select_region'' pp) (\<lambda>vhaveregion.
     res_bind (GetRegionConstraints e pp) (\<lambda>vregion.
     res_bind (common_attributes e pp) (\<lambda>vcommon.
     Inr \<lparr>cl_havecolumn = vhavecolumn, cl_column = vcolumn, cl_haveregion = vhaveregion, cl_region = vregion, cl_common = vcommon\<rparr>)))))"

record 'd ReplaceAttributes =
  rl_havereplace :: "bool"
  rl_replace :: "EditReplace"
  rl_havecolumn :: "bool"
  rl_haveregion :: "bool"
  rl_region :: "EditRegion"
  rl_xml :: "EditXml"
  rl_common :: "'d Attributes"

definition GetReplaceAttributes :: "'d attr_env \<Rightarrow> Promise \<Rightarrow> 'd ReplaceAttributes res" where
  "GetReplaceAttributes e pp =
     res_bind (flag e ''replace_patterns'' pp) (\<lambda>vhavereplace.
     res_bind (GetReplaceConstraints e pp) (\<lambda>vreplace.
     res_bind (flag e ''replace_with'' pp) (\<lambda>vhavecolumn.
     res_bind (flag e ''select_region'' pp) (\<lambda>vhaveregion.
     res_bind (GetRegionConstraints e pp) (\<lambda>vregion.
     res_bind (GetXmlConstraints e pp) (\<lambda>vxml.
     res_bind (common_attributes e pp) (\<lambda>vcommon.
     Inr \<lparr>rl_havereplace = vhavereplace, rl_replace = vreplace, rl_havecolumn = vhavecolumn, rl_haveregion = vhaveregion, rl_region = vregion,
       rl_xml = vxml, rl_common = vcommon\<rparr>)))))))"

end
