(* ===== verification/CF_AttributeKinds.thy ===== *)
theory CF_AttributeKinds
  imports CF_Attributes
begin

text \<open>
  The readers of \<open>attributes.c\<close> against the tables of \<open>mod_*.c\<close>: a promise whose constraints are of the types in the tables is read
  without a fatal error.
\<close>

section \<open>Attributes of the right type can be read\<close>

text \<open>What is read as a truth value or another text, as an integer, a real, a list, a bundle and an interval.\<close>

definition text_names :: "string list" where
  "text_names =
   [''background'', ''audit'', ''traverse_links'', ''rmdeadlinks'', ''xdev'', ''include_basedir'', ''rxdirs'', ''rmdirs'', ''disable'',
   ''update_hashes'', ''report_diffs'', ''stealth'', ''collapse_destination_dir'', ''preserve'', ''type_check'', ''force_update'',
   ''force_ipv4'', ''check_root'', ''trustkey'', ''encrypt'', ''verify'', ''purge'', ''link_children'', ''empty_file_before_editing'',
   ''recognize_join'', ''inherit'', ''include_start_delimiter'', ''include_end_delimiter'', ''start_fields_from_zero'', ''extend_fields'',
   ''allow_blank_fields'', ''useshell'', ''preview'', ''no_output'', ''havepackage_method'', ''package_commands_useshell'', ''edit_fstab'',
   ''unmount'', ''check_foreign'', ''scan_arrivals'', ''printfile'', ''track_growing_file'', ''action'', ''classes'', ''depth_search'',
   ''file_select'', ''rename'', ''delete'', ''perms'', ''changes'', ''copy_from'', ''link_from'', ''create'', ''touch'',
   ''move_obstructions'', ''contain'', ''module'', ''process_count'', ''process_select'', ''volume'', ''mount'', ''location'',
   ''expand_scalars'', ''insert_select'', ''select_region'', ''not_matching'', ''delete_select'', ''edit_field'', ''replace_patterns'',
   ''replace_with'', ''umask'', ''exec_owner'', ''exec_group'']"

definition number_names :: "string list" where
  "number_names =
   [''ifelapsed'', ''expireafter'', ''persist_time'', ''depth'', ''rotate'', ''portnumber'', ''timeout'', ''max_file_size'',
   ''select_field'', ''env_cpus'', ''env_memory'', ''env_disk'', ''exec_timeout'', ''persistence'', ''package_list_update_ifelapsed'',
   ''package_noverify_returncode'', ''lastseen'', ''number_of_lines'', ''select_line_number'', ''sensible_size'', ''sensible_count'']"

definition real_names :: "string list" where
  "real_names =
   [''value_kept'', ''value_repaired'', ''value_notkept'', ''intermittency'']"

definition list_names :: "string list" where
  "list_names =
   [''promise_repaired'', ''repair_failed'', ''repair_denied'', ''repair_timeout'', ''promise_kept'', ''on_interrupt'', ''cancel_repaired'',
   ''cancel_kept'', ''cancel_notkept'', ''kept_returncodes'', ''repaired_returncodes'', ''failed_returncodes'', ''include_dirs'',
   ''exclude_dirs'', ''aces'', ''specify_inherit_aces'', ''bsdflags'', ''search_mode'', ''search_bsdflags'', ''servers'',
   ''linkcopy_patterns'', ''copylink_patterns'', ''copy_patterns'', ''insert_if_startwith_from_list'',
   ''insert_if_not_startwith_from_list'', ''insert_if_match_from_list'', ''insert_if_not_match_from_list'',
   ''insert_if_contains_from_list'', ''insert_if_not_contains_from_list'', ''delete_if_startwith_from_list'',
   ''delete_if_not_startwith_from_list'', ''delete_if_match_from_list'', ''delete_if_not_match_from_list'',
   ''delete_if_contains_from_list'', ''delete_if_not_contains_from_list'', ''service_dependencies'', ''env_addresses'',
   ''package_architectures'', ''package_file_repositories'', ''process_owner'', ''in_range_define'', ''out_of_range_define'',
   ''mount_options'', ''showstate'', ''database_columns'', ''database_rows'', ''registry_exclude'', ''signals'', ''associates'',
   ''synonyms'', ''generalizations'', ''precedents'', ''qualifers'', ''represents'', ''about_topics'', ''whitespace_policy'']"

definition uid_names :: "string list" where
  "uid_names =
   [''owners'', ''groups'']"

definition bundle_names :: "string list" where
  "bundle_names =
   [''edit_line'', ''edit_xml'', ''service_bundle'', ''usebundle'']"

definition interval_names :: "string list" where
  "interval_names =
   [''search_size'', ''ctime'', ''atime'', ''mtime'', ''copy_size'', ''pid'', ''ppid'', ''pgid'', ''rsize'', ''vsize'', ''ttime_range'',
   ''stime_range'', ''priority'', ''threads'', ''match_range'']"

definition list_kinds :: "cfdatatype set" where
  "list_kinds = {cf_slist, cf_ilist, cf_rlist, cf_olist, cf_clist}"

definition name_ok :: "string \<Rightarrow> cfdatatype \<Rightarrow> bool" where
  "name_ok l dt \<longleftrightarrow> (if dt \<in> {cf_opts, cf_body, cf_str} then True else l \<notin> set text_names) \<and>
     (if dt = cf_int then True else l \<notin> set number_names) \<and> (if dt = cf_real then True else l \<notin> set real_names) \<and>
     (if dt \<in> list_kinds then True else l \<notin> set list_names \<and> l \<notin> set uid_names) \<and>
     (if dt = cf_bundle then True else l \<notin> set bundle_names) \<and> (if dt = cf_irange then True else l \<notin> set interval_names)"

fun kind_ok :: "BodySyntax \<Rightarrow> bool" where
  "kind_ok (Attr l dt rng) \<longleftrightarrow> name_ok l dt \<and> (case rng of Table attrs \<Rightarrow> list_all kind_ok attrs | _ \<Rightarrow> True)"

lemmas name_defs = name_ok_def list_kinds_def text_names_def number_names_def real_names_def list_names_def uid_names_def bundle_names_def CF_TRANSACTION_def CF_DEFINECLASSES_def
  interval_names_def

lemma kinds_0_0 [simp]:
  "list_all kind_ok CF_PRINTFILE_BODY"
  "list_all kind_ok CF_TRANSACTION_BODY"
  "list_all kind_ok CF_DEFINECLASS_BODY"
  "list_all kind_ok CF_VARBODY"
  unfolding CF_PRINTFILE_BODY_def CF_TRANSACTION_BODY_def CF_DEFINECLASS_BODY_def CF_VARBODY_def by (simp_all add: name_defs)

lemma kinds_0_1 [simp]:
  "list_all kind_ok CF_METABODY"
  "list_all kind_ok CF_DEFAULTSBODY"
  "list_all kind_ok CF_CLASSBODY"
  "list_all kind_ok CF_EXECCONTAIN_BODY"
  unfolding CF_METABODY_def CF_DEFAULTSBODY_def CF_CLASSBODY_def CF_EXECCONTAIN_BODY_def by (simp_all add: name_defs)

lemma kinds_0_2 [simp]:
  "list_all kind_ok CF_SQLSERVER_BODY"
  "list_all kind_ok CF_RESOURCE_BODY"
  "list_all kind_ok CF_DESIGNATION_BODY"
  "list_all kind_ok CF_LOCATION_BODY"
  unfolding CF_SQLSERVER_BODY_def CF_RESOURCE_BODY_def CF_DESIGNATION_BODY_def CF_LOCATION_BODY_def by (simp_all add: name_defs)

lemma kinds_0_3 [simp]:
  "list_all kind_ok CF_EDITCOL_BODY"
  "list_all kind_ok CF_REPLACEWITH_BODY"
  "list_all kind_ok CF_EDSCOPE_BODY"
  "list_all kind_ok CF_DELETESELECT_BODY"
  unfolding CF_EDITCOL_BODY_def CF_REPLACEWITH_BODY_def CF_EDSCOPE_BODY_def CF_DELETESELECT_BODY_def by (simp_all add: name_defs)

lemma kinds_0_4 [simp]:
  "list_all kind_ok CF_INSERTSELECT_BODY"
  "list_all kind_ok CF_ACL_BODY"
  "list_all kind_ok CF_CHANGEMGT_BODY"
  "list_all kind_ok CF_RECURSION_BODY"
  unfolding CF_INSERTSELECT_BODY_def CF_ACL_BODY_def CF_CHANGEMGT_BODY_def CF_RECURSION_BODY_def by (simp_all add: name_defs)

lemma kinds_0_5 [simp]:
  "list_all kind_ok CF_EDITS_BODY"
  "list_all kind_ok CF_TIDY_BODY"
  "list_all kind_ok CF_RENAME_BODY"
  "list_all kind_ok CF_ACCESS_BODIES"
  unfolding CF_EDITS_BODY_def CF_TIDY_BODY_def CF_RENAME_BODY_def CF_ACCESS_BODIES_def by (simp_all add: name_defs)

lemma kinds_0_6 [simp]:
  "list_all kind_ok CF_FILEFILTER_BODY"
  "list_all kind_ok CF_LINKTO_BODY"
  "list_all kind_ok CF_COPYFROM_BODY"
  "list_all kind_ok CF_COMMON_XMLBODIES"
  unfolding CF_FILEFILTER_BODY_def CF_LINKTO_BODY_def CF_COPYFROM_BODY_def CF_COMMON_XMLBODIES_def by (simp_all add: name_defs)

lemma kinds_0_7 [simp]:
  "list_all kind_ok CF_INSERTTAGS_BODIES"
  "list_all kind_ok CF_DELETETAGS_BODIES"
  "list_all kind_ok CF_INSERTATTRIBUTES_BODIES"
  "list_all kind_ok CF_DELETEATTRIBUTES_BODIES"
  unfolding CF_INSERTTAGS_BODIES_def CF_DELETETAGS_BODIES_def CF_INSERTATTRIBUTES_BODIES_def CF_DELETEATTRIBUTES_BODIES_def by (simp_all add: name_defs)

lemma kinds_0_8 [simp]:
  "list_all kind_ok CF_TCPIP_BODY"
  "list_all kind_ok CF_METHOD_BODIES"
  "list_all kind_ok CF_OUTPUTS_BODIES"
  "list_all kind_ok CF_PKGMETHOD_BODY"
  unfolding CF_TCPIP_BODY_def CF_METHOD_BODIES_def CF_OUTPUTS_BODIES_def CF_PKGMETHOD_BODY_def by (simp_all add: name_defs)

lemma kinds_0_9 [simp]:
  "list_all kind_ok CF_MATCHCLASS_BODY"
  "list_all kind_ok CF_PROCFILTER_BODY"
  "list_all kind_ok CF_SERVMETHOD_BODY"
  "list_all kind_ok CF_CHECKVOL_BODY"
  unfolding CF_MATCHCLASS_BODY_def CF_PROCFILTER_BODY_def CF_SERVMETHOD_BODY_def CF_CHECKVOL_BODY_def by (simp_all add: name_defs)

lemma kinds_0_10 [simp]:
  "list_all kind_ok CF_MOUNT_BODY"
  "list_all kind_ok CF_REMACCESS_BODIES"
  "list_all kind_ok CF_REMROLE_BODIES"
  "list_all kind_ok CF_RELATE_BODY"
  unfolding CF_MOUNT_BODY_def CF_REMACCESS_BODIES_def CF_REMROLE_BODIES_def CF_RELATE_BODY_def by (simp_all add: name_defs)

lemma kinds_0_11 [simp]:
  "list_all kind_ok CF_OCCUR_BODIES"
  "list_all kind_ok CF_THING_BODIES"
  "list_all kind_ok CF_INFER_BODIES"
  "list_all kind_ok CF_MATCHVALUE_BODY"
  unfolding CF_OCCUR_BODIES_def CF_THING_BODIES_def CF_INFER_BODIES_def CF_MATCHVALUE_BODY_def by (simp_all add: name_defs)

lemma kinds_1_0 [simp]:
  "list_all kind_ok CF_REPORT_BODIES"
  "list_all kind_ok CF_COMMON_BODIES"
  "list_all kind_ok CF_EXEC_BODIES"
  "list_all kind_ok CF_DATABASES_BODIES"
  unfolding CF_REPORT_BODIES_def CF_COMMON_BODIES_def CF_EXEC_BODIES_def CF_DATABASES_BODIES_def by (simp_all add: name_defs)

lemma kinds_1_1 [simp]:
  "list_all kind_ok CF_ENVIRON_BODIES"
  "list_all kind_ok CF_INSERTLINES_BODIES"
  "list_all kind_ok CF_DELETELINES_BODIES"
  "list_all kind_ok CF_COLUMN_BODIES"
  unfolding CF_ENVIRON_BODIES_def CF_INSERTLINES_BODIES_def CF_DELETELINES_BODIES_def CF_COLUMN_BODIES_def by (simp_all add: name_defs)

lemma kinds_1_2 [simp]:
  "list_all kind_ok CF_REPLACE_BODIES"
  "list_all kind_ok CF_COMMON_EDITBODIES"
  "list_all kind_ok CF_FILES_BODIES"
  "list_all kind_ok CF_INTERFACES_BODIES"
  unfolding CF_REPLACE_BODIES_def CF_COMMON_EDITBODIES_def CF_FILES_BODIES_def CF_INTERFACES_BODIES_def by (simp_all add: name_defs)

lemma kinds_1_3 [simp]:
  "list_all kind_ok CF_PACKAGES_BODIES"
  "list_all kind_ok CF_PROCESS_BODIES"
  "list_all kind_ok CF_SERVICES_BODIES"
  "list_all kind_ok CF_STORAGE_BODIES"
  unfolding CF_PACKAGES_BODIES_def CF_PROCESS_BODIES_def CF_SERVICES_BODIES_def CF_STORAGE_BODIES_def by (simp_all add: name_defs)

lemma kinds_1_4 [simp]:
  "list_all kind_ok CF_TOPICS_BODIES"
  "list_all kind_ok CF_MEASURE_BODIES"
  unfolding CF_TOPICS_BODIES_def CF_MEASURE_BODIES_def by (simp_all add: name_defs)

section \<open>Promises of the right types\<close>

text \<open>The attributes of all promises, with those of the bodies they point to, which stand among the constraints of an expanded promise.\<close>

definition promise_attrs :: "BodySyntax list" where
  "promise_attrs = concat (map (\<lambda>ss. concat (map (\<lambda>a. a # body_entries a) (ss_bs ss))) (concat CF_ALL_SUBTYPES))"

definition fits_kind :: "'d attr_env \<Rightarrow> cfdatatype \<Rightarrow> rval \<Rightarrow> bool" where
  "fits_kind e dt v \<longleftrightarrow>
     (if dt \<in> list_kinds then (case v of ListVal l \<Rightarrow> list_all (\<lambda>x. case x of Scalar _ \<Rightarrow> True | _ \<Rightarrow> False) l | _ \<Rightarrow> False)
      else if dt = cf_bundle then rtype v = CHR ''f'' \<or> rtype v = CHR ''s''
      else (case v of
         Scalar s \<Rightarrow>
           (dt = cf_int \<longrightarrow> (case Str2Int (a_starttime e) (Some s) of Inr i \<Rightarrow> sint (word_of_int i :: 32 word) < 2147483647 | Inl _ \<Rightarrow> False)) \<and>
           (dt = cf_real \<longrightarrow> (case at_run_time (Str2Double (a_real e) (Some s)) of Inr _ \<Rightarrow> True | Inl _ \<Rightarrow> False)) \<and>
           (dt = cf_irange \<longrightarrow> (case IntRange2Int (Some s) of Inr _ \<Rightarrow> True | Inl _ \<Rightarrow> False))
       | _ \<Rightarrow> False))"

definition octal_text :: "rval \<Rightarrow> bool" where
  "octal_text v \<longleftrightarrow> (case v of Scalar s \<Rightarrow> (case Str2Mode (Some s) of Inr _ \<Rightarrow> True | Inl _ \<Rightarrow> False) | _ \<Rightarrow> False)"

definition typed_promise :: "'d attr_env \<Rightarrow> Promise \<Rightarrow> bool" where
  "typed_promise e pp \<longleftrightarrow> (\<forall>cp \<in> set (conlist pp).
     (\<exists>a \<in> set promise_attrs. attr_lval a = con_lval cp \<and> fits_kind e (attr_dtype a) (con_rval cp)) \<and>
     (con_lval cp = ''umask'' \<longrightarrow> octal_text (con_rval cp)))"

lemma subtypes_kind_ok: "ss \<in> set (concat CF_ALL_SUBTYPES) \<Longrightarrow> list_all kind_ok (ss_bs ss)"
  by (auto simp: CF_ALL_SUBTYPES_def CF_COMMON_SUBTYPES_def CF_EXEC_SUBTYPES_def CF_DATABASES_SUBTYPES_def CF_ENVIRONMENT_SUBTYPES_def
    CF_FILES_SUBTYPES_def CF_INTERFACES_SUBTYPES_def CF_METHOD_SUBTYPES_def CF_OUTPUTS_SUBTYPES_def CF_PACKAGES_SUBTYPES_def
    CF_PROCESS_SUBTYPES_def CF_SERVICES_SUBTYPES_def CF_STORAGE_SUBTYPES_def CF_REMACCESS_SUBTYPES_def CF_KNOWLEDGE_SUBTYPES_def
    CF_MEASUREMENT_SUBTYPES_def)

lemma body_entries_kind_ok: "kind_ok a \<Longrightarrow> list_all kind_ok (body_entries a)"
  by (cases a) (auto split: attr_range.splits)

lemma kind_ok_name: "kind_ok a \<Longrightarrow> name_ok (attr_lval a) (attr_dtype a)"
  by (cases a) simp

lemma promise_attrs_name_ok: "a \<in> set promise_attrs \<Longrightarrow> name_ok (attr_lval a) (attr_dtype a)"
proof -
  assume "a \<in> set promise_attrs"
  then obtain ss b where "ss \<in> set (concat CF_ALL_SUBTYPES)" "b \<in> set (ss_bs ss)" "a = b \<or> a \<in> set (body_entries b)"
    by (auto simp: promise_attrs_def)
  then show ?thesis
    using subtypes_kind_ok [of ss] body_entries_kind_ok [of b] by (auto simp: list_all_iff intro: kind_ok_name)
qed

lemma typed_constraint:
  "typed_promise e pp \<Longrightarrow> cp \<in> set (conlist pp) \<Longrightarrow> \<exists>dt. name_ok (con_lval cp) dt \<and> fits_kind e dt (con_rval cp)"
  unfolding typed_promise_def by (metis promise_attrs_name_ok)

definition given :: "'a res \<Rightarrow> bool" where
  "given r \<longleftrightarrow> (\<exists>x. r = Inr x)"

lemma given_Inr [intro!, simp]: "given (Inr x)"
  by (simp add: given_def)

lemma given_bind [intro!]: "given r \<Longrightarrow> (\<And>x. r = Inr x \<Longrightarrow> given (f x)) \<Longrightarrow> given (res_bind r f)"
  by (auto simp: given_def)

lemma given_if [intro!]: "(c \<Longrightarrow> given x) \<Longrightarrow> (\<not> c \<Longrightarrow> given y) \<Longrightarrow> given (if c then x else y)"
  by simp

section \<open>Each reader\<close>

lemma text_value:
  "name_ok lv dt \<Longrightarrow> lv \<in> set text_names \<Longrightarrow> fits_kind e dt v \<Longrightarrow> \<exists>s. v = Scalar s"
  by (auto simp: name_ok_def fits_kind_def list_kinds_def split: if_splits rval.splits)

lemma boolean_loop_given:
  "\<forall>cp \<in> set cs. con_lval cp = lv \<longrightarrow> (\<exists>s. con_rval cp = Scalar s) \<Longrightarrow> given (boolean_loop ctx ns lv r cs)"
  by (induction cs arbitrary: r) auto

lemma flag_given: "typed_promise e pp \<Longrightarrow> lv \<in> set text_names \<Longrightarrow> given (flag e lv pp)"
proof -
  assume t: "typed_promise e pp" and lv: "lv \<in> set text_names"
  have "given (boolean_loop (a_ctx e) (Some (pr_namespace pp)) lv CF_UNDEFINED (conlist pp))"
    by (rule boolean_loop_given) (use typed_constraint [OF t] text_value lv in metis)
  then show ?thesis by (auto simp: given_def flag_def GetBooleanConstraint_def)
qed

lemma last_scalar_given:
  "\<forall>cp \<in> set cs. con_lval cp = lv \<longrightarrow> (\<exists>s. con_rval cp = Scalar s \<and> given (conv (Some s))) \<Longrightarrow> given (last_scalar ctx ns lv conv r cs)"
  by (induction cs arbitrary: r) (auto simp: given_def)

lemma last_scalar_all:
  "P r \<Longrightarrow> \<forall>cp \<in> set cs. con_lval cp = lv \<longrightarrow> (\<forall>s y. con_rval cp = Scalar s \<longrightarrow> conv (Some s) = Inr y \<longrightarrow> P y) \<and> con_rval cp \<noteq> NoScalar \<Longrightarrow>
   last_scalar ctx ns lv conv r cs = Inr x \<Longrightarrow> P x"
  by (induction cs arbitrary: r) (auto split: if_splits rval.splits sum.splits simp: res_bind_def)

lemma int_value:
  assumes "name_ok lv dt" "lv \<in> set number_names" "fits_kind e dt v"
  obtains s i where "v = Scalar s" "Str2Int (a_starttime e) (Some s) = Inr i" "sint (word_of_int i :: 32 word) < 2147483647"
  using assms by (auto simp: name_ok_def fits_kind_def list_kinds_def split: if_splits rval.splits sum.splits)

lemma number_given: "typed_promise e pp \<Longrightarrow> lv \<in> set number_names \<Longrightarrow> given (number e lv pp)"
  unfolding number_def GetIntConstraint_def
  by (rule last_scalar_given) (auto elim!: int_value dest!: typed_constraint)

lemma number_below: "typed_promise e pp \<Longrightarrow> lv \<in> set number_names \<Longrightarrow> number e lv pp = Inr x \<Longrightarrow> x < 2147483647"
  unfolding number_def GetIntConstraint_def
  by (rule last_scalar_all [where P = "\<lambda>x. x < 2147483647", rotated -1]) (auto elim!: int_value dest!: typed_constraint simp: CF_NOINT_def)

lemma real_given: "typed_promise e pp \<Longrightarrow> lv \<in> set real_names \<Longrightarrow> given (real_number e lv pp)"
  unfolding real_number_def GetRealConstraint_def
  by (rule last_scalar_given)
    (auto simp: name_ok_def fits_kind_def list_kinds_def given_def split: if_splits rval.splits sum.splits dest!: typed_constraint)

lemma list_value_ok:
  assumes "name_ok lv dt" "lv \<in> set list_names \<or> lv \<in> set uid_names" "fits_kind e dt v"
  obtains l where "v = ListVal l" "list_all (\<lambda>x. case x of Scalar _ \<Rightarrow> True | _ \<Rightarrow> False) l"
  using assms by (auto simp: name_ok_def fits_kind_def split: if_splits rval.splits)

lemma list_constraint_given:
  "\<forall>cp \<in> set cs. con_lval cp = lv \<longrightarrow> (\<exists>l. con_rval cp = ListVal l) \<Longrightarrow> given (list_constraint_loop ctx ns lv cs)"
  by (induction cs) auto

lemma items_given: "typed_promise e pp \<Longrightarrow> lv \<in> set list_names \<Longrightarrow> given (items e lv pp)"
  unfolding items_def GetListConstraint_def
  by (rule list_constraint_given) (auto elim!: list_value_ok dest!: typed_constraint)

lemma bundle_loop_given:
  "\<forall>cp \<in> set cs. con_lval cp = lv \<longrightarrow> rtype (con_rval cp) = CHR ''f'' \<or> rtype (con_rval cp) = CHR ''s'' \<Longrightarrow> given (GetBundleConstraint_loop ctx ns lv cs)"
  by (induction cs) auto

lemma bundle_given: "typed_promise e pp \<Longrightarrow> lv \<in> set bundle_names \<Longrightarrow> given (bundle_flag e lv pp)"
  unfolding bundle_flag_def GetBundleConstraint_def
  by (rule bundle_loop_given)
    (auto simp: name_ok_def fits_kind_def list_kinds_def split: if_splits dest!: typed_constraint)

lemma scalar_from:
  assumes "scalar e lv pp = Some s"
  shows "\<exists>cp \<in> set (conlist pp). con_lval cp = lv \<and> con_rval cp = Scalar s"
  using assms by (auto simp: scalar_def GetConstraintValue_def GetConstraint_def find_Some_iff split: option.splits rval.splits if_splits)

lemma listed_from:
  assumes "listed e lv pp = l" "l \<noteq> []"
  shows "\<exists>cp \<in> set (conlist pp). con_lval cp = lv \<and> con_rval cp = ListVal l"
  using assms by (auto simp: listed_def GetConstraintValue_def GetConstraint_def find_Some_iff split: option.splits rval.splits if_splits)

lemma int_range_given:
  assumes "typed_promise e pp" "lv \<in> set interval_names"
  shows "given (int_range e lv pp)"
proof (cases "scalar e lv pp")
  case None then show ?thesis by (simp add: int_range_def IntRange2Int_def)
next
  case (Some s)
  then obtain cp where "cp \<in> set (conlist pp)" "con_lval cp = lv" "con_rval cp = Scalar s" using scalar_from by metis
  with typed_constraint [OF assms(1)] obtain dt where "name_ok lv dt" "fits_kind e dt (Scalar s)" by metis
  with assms(2) Some show ?thesis
    by (auto simp: name_ok_def fits_kind_def int_range_def given_def list_kinds_def rtype_def split: if_splits sum.splits)
qed

lemma int_of_text_given:
  assumes "typed_promise e pp" "lv \<in> set number_names"
  shows "given (int_of_text e lv pp)"
proof (cases "scalar e lv pp")
  case None then show ?thesis by (simp add: int_of_text_def Str2Int_def)
next
  case (Some s)
  then obtain cp where "cp \<in> set (conlist pp)" "con_lval cp = lv" "con_rval cp = Scalar s" using scalar_from by metis
  with typed_constraint [OF assms(1)] obtain dt where "name_ok lv dt" "fits_kind e dt (Scalar s)" by metis
  with assms(2) Some show ?thesis by (elim int_value) (auto simp: int_of_text_def)
qed

lemma uid_loop_given: "list_all (\<lambda>x. case x of Scalar _ \<Rightarrow> True | _ \<Rightarrow> False) l \<Longrightarrow> given (uid_loop conv us l)"
  by (induction l arbitrary: us) (auto split: rval.splits prod.splits)

lemma listed_given:
  assumes "typed_promise e pp" "lv \<in> set uid_names"
  shows "given (uid_loop conv us (listed e lv pp))"
proof (cases "listed e lv pp = []")
  case False
  then obtain cp where cp: "cp \<in> set (conlist pp)" "con_lval cp = lv" "con_rval cp = ListVal (listed e lv pp)" using listed_from by metis
  with typed_constraint [OF assms(1)] obtain dt where "name_ok lv dt" "fits_kind e dt (ListVal (listed e lv pp))" by metis
  with assms(2) show ?thesis by (elim list_value_ok) (auto intro: uid_loop_given)
qed simp


section \<open>The attributes of a promise\<close>

lemma given_prod: "(\<And>a b. given (f a b)) \<Longrightarrow> given (case p of (a, b) \<Rightarrow> f a b)"
  by (cases p) simp

lemma given_let: "given (f x) \<Longrightarrow> given (let y = x in f y)"
  by simp

lemmas readers = flag_given number_given real_given items_given bundle_given int_range_given int_of_text_given

lemmas name_sets = text_names_def number_names_def real_names_def list_names_def uid_names_def bundle_names_def interval_names_def

lemmas given_steps = given_bind given_prod given_let given_if given_Inr readers

lemma uid_lists_given:
  assumes "typed_promise e pp"
  shows "given (Rlist2UidList ng gp (listed e ''owners'' pp))" "given (Rlist2GidList gg (listed e ''groups'' pp))"
  unfolding Rlist2UidList_def Rlist2GidList_def by (intro given_bind given_Inr listed_given [OF assms], simp add: uid_names_def)+

lemma text_readers_given:
  assumes "typed_promise e pp"
  shows "given (GetUidConstraint ng gp (a_ctx e) ''exec_owner'' pp)"
    "given (GetGidConstraint gg (a_ctx e) ''exec_group'' pp)"
  unfolding GetUidConstraint_def GetGidConstraint_def
  by (rule last_scalar_given, use typed_constraint [OF assms] text_value in \<open>fastforce simp: text_names_def\<close>)+

lemma umask_given: "typed_promise e pp \<Longrightarrow> given (GetOctalConstraint (a_ctx e) ''umask'' pp)"
  unfolding GetOctalConstraint_def
proof (rule last_scalar_given, intro ballI impI)
  fix cp
  assume "typed_promise e pp" "cp \<in> set (conlist pp)" "con_lval cp = ''umask''"
  then have "octal_text (con_rval cp)" by (simp add: typed_promise_def)
  then show "\<exists>s. con_rval cp = Scalar s \<and> given (Str2Mode (Some s))"
    by (auto simp: octal_text_def given_def split: rval.splits sum.splits)
qed

lemma GetTransactionConstraints_given: "typed_promise e pp \<Longrightarrow> given (GetTransactionConstraints e pp)"
  unfolding GetTransactionConstraints_def by (intro given_steps) (simp_all add: name_sets)

lemma GetClassDefinitionConstraints_given: "typed_promise e pp \<Longrightarrow> given (GetClassDefinitionConstraints e pp)"
  unfolding GetClassDefinitionConstraints_def by (intro given_steps) (simp_all add: name_sets)

lemma GetRecursionConstraints_given: "typed_promise e pp \<Longrightarrow> given (GetRecursionConstraints e pp)"
  unfolding GetRecursionConstraints_def by (intro given_steps) (simp_all add: name_sets)

lemma GetAclConstraints_given: "typed_promise e pp \<Longrightarrow> given (GetAclConstraints e pp)"
  unfolding GetAclConstraints_def by (intro given_steps) (simp_all add: name_sets)

lemma GetPermissionConstraints_given: "typed_promise e pp \<Longrightarrow> given (GetPermissionConstraints e pp)"
  unfolding GetPermissionConstraints_def by (intro given_steps uid_lists_given) (simp_all add: name_sets)

lemma GetSelectConstraints_given: "typed_promise e pp \<Longrightarrow> given (GetSelectConstraints e pp)"
  unfolding GetSelectConstraints_def by (intro given_steps) (simp_all add: name_sets)

lemma GetDeleteConstraints_given: "typed_promise e pp \<Longrightarrow> given (GetDeleteConstraints e pp)"
  unfolding GetDeleteConstraints_def by (intro given_steps) (simp_all add: name_sets)

lemma GetRenameConstraints_given: "typed_promise e pp \<Longrightarrow> given (GetRenameConstraints e pp)"
  unfolding GetRenameConstraints_def by (intro given_steps) (simp_all add: name_sets)

lemma GetChangeMgtConstraints_given: "typed_promise e pp \<Longrightarrow> given (GetChangeMgtConstraints e pp)"
  unfolding GetChangeMgtConstraints_def by (intro given_steps) (simp_all add: name_sets)

lemma GetCopyConstraints_given: "typed_promise e pp \<Longrightarrow> given (GetCopyConstraints e pp)"
  unfolding GetCopyConstraints_def by (intro given_steps) (simp_all add: name_sets)

lemma GetLinkConstraints_given: "typed_promise e pp \<Longrightarrow> given (GetLinkConstraints e pp)"
  unfolding GetLinkConstraints_def by (intro given_steps) (simp_all add: name_sets)

lemma GetEditDefaults_given: "typed_promise e pp \<Longrightarrow> given (GetEditDefaults e pp)"
  unfolding GetEditDefaults_def by (intro given_steps) (simp_all add: name_sets)

lemma GetLocationAttributes_given: "typed_promise e pp \<Longrightarrow> given (GetLocationAttributes e pp)"
  by (simp add: GetLocationAttributes_def)

lemma GetXmlConstraints_given: "typed_promise e pp \<Longrightarrow> given (GetXmlConstraints e pp)"
  by (simp add: GetXmlConstraints_def)

lemma GetRegionConstraints_given: "typed_promise e pp \<Longrightarrow> given (GetRegionConstraints e pp)"
  unfolding GetRegionConstraints_def by (intro given_steps) (simp_all add: name_sets)

lemma GetReplaceConstraints_given: "typed_promise e pp \<Longrightarrow> given (GetReplaceConstraints e pp)"
  by (simp add: GetReplaceConstraints_def)

lemma GetColumnConstraints_given:
  assumes "typed_promise e pp"
  shows "given (GetColumnConstraints e pp)"
proof -
  have below: "number e ''select_field'' pp \<noteq> Inr 2147483647"
    using number_below [OF assms, of "''select_field''"] by (auto simp: number_names_def)
  show ?thesis
    unfolding GetColumnConstraints_def by (intro given_steps) (use assms below in \<open>simp_all add: name_sets\<close>)
qed

lemma GetInsertSelectConstraints_given: "typed_promise e pp \<Longrightarrow> given (GetInsertSelectConstraints e pp)"
  unfolding GetInsertSelectConstraints_def by (intro given_steps) (simp_all add: name_sets)

lemma GetDeleteSelectConstraints_given: "typed_promise e pp \<Longrightarrow> given (GetDeleteSelectConstraints e pp)"
  unfolding GetDeleteSelectConstraints_def by (intro given_steps) (simp_all add: name_sets)

lemma GetServicesConstraints_given: "typed_promise e pp \<Longrightarrow> given (GetServicesConstraints e pp)"
  unfolding GetServicesConstraints_def by (intro given_steps) (simp_all add: name_sets)

lemma GetEnvironmentsConstraints_given: "typed_promise e pp \<Longrightarrow> given (GetEnvironmentsConstraints e pp)"
  unfolding GetEnvironmentsConstraints_def by (intro given_steps) (simp_all add: name_sets)

lemma GetExecContainConstraints_given: "typed_promise e pp \<Longrightarrow> given (GetExecContainConstraints e pp)"
  unfolding GetExecContainConstraints_def by (intro given_steps text_readers_given umask_given) (simp_all add: name_sets)

lemma GetContextConstraints_given: "typed_promise e pp \<Longrightarrow> given (GetContextConstraints e pp)"
  unfolding GetContextConstraints_def by (intro given_steps) (simp_all add: name_sets)

lemma GetPackageConstraints_given: "typed_promise e pp \<Longrightarrow> given (GetPackageConstraints e pp)"
  unfolding GetPackageConstraints_def by (intro given_steps) (simp_all add: name_sets)

lemma GetProcessFilterConstraints_given: "typed_promise e pp \<Longrightarrow> given (GetProcessFilterConstraints e pp)"
  unfolding GetProcessFilterConstraints_def by (intro given_steps) (simp_all add: name_sets)

lemma GetMatchesConstraints_given: "typed_promise e pp \<Longrightarrow> given (GetMatchesConstraints e pp)"
  unfolding GetMatchesConstraints_def by (intro given_steps) (simp_all add: name_sets)

lemma GetMountConstraints_given: "typed_promise e pp \<Longrightarrow> given (GetMountConstraints e pp)"
  unfolding GetMountConstraints_def by (intro given_steps) (simp_all add: name_sets)

lemma GetTCPIPAttributes_given: "typed_promise e pp \<Longrightarrow> given (GetTCPIPAttributes e pp)"
  by (simp add: GetTCPIPAttributes_def)

lemma GetReportConstraints_given: "typed_promise e pp \<Longrightarrow> given (GetReportConstraints e pp)"
  unfolding GetReportConstraints_def by (intro given_steps) (simp_all add: name_sets)

lemma GetMeasurementConstraint_given: "typed_promise e pp \<Longrightarrow> given (GetMeasurementConstraint e pp)"
  unfolding GetMeasurementConstraint_def by (intro given_steps) (simp_all add: name_sets)

lemma GetDatabaseConstraints_given: "typed_promise e pp \<Longrightarrow> given (GetDatabaseConstraints e pp)"
  unfolding GetDatabaseConstraints_def by (intro given_steps) (simp_all add: name_sets)

lemmas parts_given =
  GetTransactionConstraints_given
  GetClassDefinitionConstraints_given
  GetRecursionConstraints_given
  GetAclConstraints_given
  GetPermissionConstraints_given
  GetSelectConstraints_given
  GetDeleteConstraints_given
  GetRenameConstraints_given
  GetChangeMgtConstraints_given
  GetCopyConstraints_given
  GetLinkConstraints_given
  GetEditDefaults_given
  GetLocationAttributes_given
  GetXmlConstraints_given
  GetRegionConstraints_given
  GetReplaceConstraints_given
  GetColumnConstraints_given
  GetInsertSelectConstraints_given
  GetDeleteSelectConstraints_given
  GetServicesConstraints_given
  GetEnvironmentsConstraints_given
  GetExecContainConstraints_given
  GetContextConstraints_given
  GetPackageConstraints_given
  GetProcessFilterConstraints_given
  GetMatchesConstraints_given
  GetMountConstraints_given
  GetTCPIPAttributes_given
  GetReportConstraints_given
  GetMeasurementConstraint_given
  GetDatabaseConstraints_given

lemma common_given: "typed_promise e pp \<Longrightarrow> given (common_attributes e pp)" "typed_promise e pp \<Longrightarrow> given (plain_attributes e pp)"
  unfolding common_attributes_def plain_attributes_def by (intro given_steps parts_given; simp add: name_sets)+

lemma GetFilesAttributes_given: "typed_promise e pp \<Longrightarrow> given (GetFilesAttributes e pp)"
  unfolding GetFilesAttributes_def by (intro given_steps parts_given common_given) (simp_all add: name_sets)

lemma GetOutputsAttributes_given: "typed_promise e pp \<Longrightarrow> given (GetOutputsAttributes e pp)"
  unfolding GetOutputsAttributes_def by (intro given_steps parts_given common_given) (simp_all add: name_sets)

lemma GetReportsAttributes_given: "typed_promise e pp \<Longrightarrow> given (GetReportsAttributes e pp)"
  unfolding GetReportsAttributes_def by (intro given_steps parts_given common_given) (simp_all add: name_sets)

lemma GetEnvironmentsAttributes_given: "typed_promise e pp \<Longrightarrow> given (GetEnvironmentsAttributes e pp)"
  unfolding GetEnvironmentsAttributes_def by (intro given_steps parts_given common_given) (simp_all add: name_sets)

lemma GetServicesAttributes_given: "typed_promise e pp \<Longrightarrow> given (GetServicesAttributes e pp)"
  unfolding GetServicesAttributes_def by (intro given_steps parts_given common_given) (simp_all add: name_sets)

lemma GetPackageAttributes_given: "typed_promise e pp \<Longrightarrow> given (GetPackageAttributes e pp)"
  unfolding GetPackageAttributes_def by (intro given_steps parts_given common_given) (simp_all add: name_sets)

lemma GetDatabaseAttributes_given: "typed_promise e pp \<Longrightarrow> given (GetDatabaseAttributes e pp)"
  unfolding GetDatabaseAttributes_def by (intro given_steps parts_given common_given) (simp_all add: name_sets)

lemma GetClassContextAttributes_given: "typed_promise e pp \<Longrightarrow> given (GetClassContextAttributes e pp)"
  unfolding GetClassContextAttributes_def by (intro given_steps parts_given common_given) (simp_all add: name_sets)

lemma GetExecAttributes_given: "typed_promise e pp \<Longrightarrow> given (GetExecAttributes e pp)"
  unfolding GetExecAttributes_def by (intro given_steps parts_given common_given) (simp_all add: name_sets)

lemma GetProcessAttributes_given: "typed_promise e pp \<Longrightarrow> given (GetProcessAttributes e pp)"
  unfolding GetProcessAttributes_def by (intro given_steps parts_given common_given) (simp_all add: name_sets)

lemma GetMethodAttributes_given: "typed_promise e pp \<Longrightarrow> given (GetMethodAttributes e pp)"
  unfolding GetMethodAttributes_def by (intro given_steps parts_given common_given) (simp_all add: name_sets)

lemma GetInterfacesAttributes_given: "typed_promise e pp \<Longrightarrow> given (GetInterfacesAttributes e pp)"
  unfolding GetInterfacesAttributes_def by (intro given_steps parts_given common_given) (simp_all add: name_sets)

lemma GetMeasurementAttributes_given: "typed_promise e pp \<Longrightarrow> given (GetMeasurementAttributes e pp)"
  unfolding GetMeasurementAttributes_def by (intro given_steps parts_given common_given) (simp_all add: name_sets)

lemma GetTopicsAttributes_given: "typed_promise e pp \<Longrightarrow> given (GetTopicsAttributes e pp)"
  unfolding GetTopicsAttributes_def by (intro given_steps parts_given common_given) (simp_all add: name_sets)

lemma GetInferencesAttributes_given: "typed_promise e pp \<Longrightarrow> given (GetInferencesAttributes e pp)"
  unfolding GetInferencesAttributes_def by (intro given_steps parts_given common_given) (simp_all add: name_sets)

lemma GetOccurrenceAttributes_given: "typed_promise e pp \<Longrightarrow> given (GetOccurrenceAttributes e pp)"
  unfolding GetOccurrenceAttributes_def by (intro given_steps parts_given common_given) (simp_all add: name_sets)

lemma GetInsertionAttributes_given: "typed_promise e pp \<Longrightarrow> given (GetInsertionAttributes e pp)"
  unfolding GetInsertionAttributes_def by (intro given_steps parts_given common_given) (simp_all add: name_sets)

lemma GetDeletionAttributes_given: "typed_promise e pp \<Longrightarrow> given (GetDeletionAttributes e pp)"
  unfolding GetDeletionAttributes_def by (intro given_steps parts_given common_given) (simp_all add: name_sets)

lemma GetColumnAttributes_given: "typed_promise e pp \<Longrightarrow> given (GetColumnAttributes e pp)"
  unfolding GetColumnAttributes_def by (intro given_steps parts_given common_given) (simp_all add: name_sets)

lemma GetReplaceAttributes_given: "typed_promise e pp \<Longrightarrow> given (GetReplaceAttributes e pp)"
  unfolding GetReplaceAttributes_def by (intro given_steps parts_given common_given) (simp_all add: name_sets)

lemmas attributes_given =
  GetFilesAttributes_given GetOutputsAttributes_given GetReportsAttributes_given GetEnvironmentsAttributes_given GetServicesAttributes_given
  GetPackageAttributes_given GetDatabaseAttributes_given GetClassContextAttributes_given GetExecAttributes_given GetProcessAttributes_given
  GetMethodAttributes_given GetInterfacesAttributes_given GetMeasurementAttributes_given GetTopicsAttributes_given
  GetInferencesAttributes_given GetOccurrenceAttributes_given GetInsertionAttributes_given GetDeletionAttributes_given
  GetColumnAttributes_given GetReplaceAttributes_given


lemma promise_attrs_member: "ss \<in> set (concat CF_ALL_SUBTYPES) \<Longrightarrow> a \<in> set (ss_bs ss) \<Longrightarrow> a \<in> set promise_attrs"
  by (auto simp: promise_attrs_def)

lemma create_attr: "Attr ''create'' cf_opts (Pattern CF_BOOL) \<in> set promise_attrs"
  by (rule promise_attrs_member [of "\<lparr>bundle_type = ''agent'', subtype = ''files'', ss_bs = CF_FILES_BODIES\<rparr>"])
    (simp_all add: CF_ALL_SUBTYPES_def CF_FILES_SUBTYPES_def CF_FILES_BODIES_def)

definition create_promise :: Promise where
  "create_promise = \<lparr>pr_classes = Some ''any'', pr_ref = None, promiser = ''/etc/motd'', promisee = NoPromisee, pr_bundle = ''main'', pr_audit = None,
     conlist = [ConstraintNew ''create'' (Scalar ''true'') (Some ''any'') False], agentsubtype = ''files'', bundletype = ''agent'', pr_namespace = ''default'',
     pr_done = False, has_subbundles = False, pr_offset = NO_OFFSET\<rparr>"


end
