(* ===== verification/CF_EditLines.thy ===== *)
theory CF_EditLines
  imports CF_AttributeKinds CF_Matching CF_Conversion CF_Sort CF_Recheck
begin

text \<open>
  \<open>src/files_editline.c\<close> and the region functions of \<open>item_lib.c\<close>: promises about the lines of a file.  The file is a linked list
  whose nodes keep their identity while lines come and go, so a node has a number and a pointer is one.  Matches outside
  \<open>replace_patterns\<close> are taken for their answer; the variables they set are only followed where the code reads them.
\<close>

section \<open>Lines and pointers\<close>

text \<open>\<open>CF_UNDEFINED_ITEM\<close> is an address that is no node; following it is an error.\<close>

datatype item_ptr = NULL_ITEM | UNDEFINED_ITEM | Node nat

type_synonym nodes = "(nat \<times> Item) list"

record edcontext =
  file_start :: nodes
  next_node :: nat
  num_edits :: nat

definition start_ptr :: "nodes \<Rightarrow> item_ptr" where
  "start_ptr l = (case l of [] \<Rightarrow> NULL_ITEM | (i, _) # _ \<Rightarrow> Node i)"

text \<open>The nodes from a pointer on, and those before the end of a region.\<close>

definition from_ptr :: "nodes \<Rightarrow> item_ptr \<Rightarrow> nodes res" where
  "from_ptr l p = (case p of
     NULL_ITEM \<Rightarrow> Inr []
   | UNDEFINED_ITEM \<Rightarrow> Inl OutOfBounds
   | Node i \<Rightarrow> Inr (dropWhile (\<lambda>(j, _). j \<noteq> i) l))"

definition until_ptr :: "item_ptr \<Rightarrow> nodes \<Rightarrow> nodes" where
  "until_ptr p l = takeWhile (\<lambda>(j, _). Node j \<noteq> p) l"

definition next_ptr_of :: "nodes \<Rightarrow> item_ptr \<Rightarrow> item_ptr res" where
  "next_ptr_of l p = (case p of
     NULL_ITEM \<Rightarrow> Inl NullDereference
   | _ \<Rightarrow> res_bind (from_ptr l p) (\<lambda>ns. Inr (start_ptr (tl ns))))"

definition prepend_node :: "string \<Rightarrow> edcontext \<Rightarrow> edcontext" where
  "prepend_node s ed = ed\<lparr>file_start := (next_node ed, new_item s None) # file_start ed, next_node := next_node ed + 1, num_edits := num_edits ed + 1\<rparr>"

fun insert_behind :: "nat \<Rightarrow> nat \<times> Item \<Rightarrow> nodes \<Rightarrow> nodes" where
  "insert_behind i n [] = []"
| "insert_behind i n ((j, ip) # l) = (if i = j then (j, ip) # n # l else (j, ip) # insert_behind i n l)"

text \<open>\<open>InsertAfter\<close>: without a node to insert behind, the line is appended.\<close>

definition insert_after :: "item_ptr \<Rightarrow> string \<Rightarrow> edcontext \<Rightarrow> edcontext" where
  "insert_after p s ed =
     (let n = (next_node ed, new_item s None)
      in ed\<lparr>file_start := (case p of Node i \<Rightarrow> if file_start ed = [] then [n] else insert_behind i n (file_start ed) | _ \<Rightarrow> file_start ed @ [n]),
            next_node := next_node ed + 1, num_edits := num_edits ed + 1\<rparr>)"

section \<open>Matching lines\<close>

definition matches :: "pcre \<Rightarrow> string \<Rightarrow> string \<Rightarrow> bool" where
  "matches pcre re s = FullTextMatch (full_match_of pcre) re s"

definition finds :: "pcre \<Rightarrow> string \<Rightarrow> string \<Rightarrow> (nat \<times> nat) option" where
  "finds pcre re s = (case pcre re of
     None \<Rightarrow> None
   | Some rx \<Rightarrow> (case rx s of Some (Some m # _) \<Rightarrow> Some m | _ \<Rightarrow> None))"

text \<open>A text is taken apart at its newlines; a text of one line has one piece.\<close>

fun chunk_lines :: "string \<Rightarrow> string list" where
  "chunk_lines [] = [[]]"
| "chunk_lines (c # s) = (if c = CHR 0x0A then [] # chunk_lines s else (c # hd (chunk_lines s)) # tl (chunk_lines s))"

fun match_region_loop :: "pcre \<Rightarrow> item_ptr \<Rightarrow> string list \<Rightarrow> nodes \<Rightarrow> nat \<Rightarrow> nat res" where
  "match_region_loop pcre end' [] l n = Inr n"
| "match_region_loop pcre end' (b # bs) [] n = (if length b \<ge> CF_BUFSIZE then Inl OutOfBounds else Inr 0)"
| "match_region_loop pcre end' (b # bs) ((i, ip) # l) n =
     (if length b \<ge> CF_BUFSIZE then Inl OutOfBounds
      else if \<not> matches pcre b (name ip) then Inr 0
      else if Node i = end' then Inr 0
      else if l = [] then Inr (if bs \<noteq> [] then 0 else n + 1)
      else match_region_loop pcre end' bs l (n + 1))"

text \<open>The number of lines that match the chunk, 0 when they do not.\<close>

definition MatchRegion :: "pcre \<Rightarrow> string \<Rightarrow> nodes \<Rightarrow> item_ptr \<Rightarrow> nat res" where
  "MatchRegion pcre chunk begin' end' = match_region_loop pcre end' (chunk_lines chunk) begin' 0"

fun any_item :: "('a \<Rightarrow> bool res) \<Rightarrow> 'a list \<Rightarrow> bool res" where
  "any_item p [] = Inr False"
| "any_item p (x # xs) = res_bind (p x) (\<lambda>b. if b then Inr True else any_item p xs)"

definition line_in_region :: "pcre \<Rightarrow> rval list \<Rightarrow> string \<Rightarrow> nodes \<Rightarrow> item_ptr \<Rightarrow> item_ptr \<Rightarrow> bool res" where
  "line_in_region pcre policies item l begin_ptr end_ptr =
     res_bind (from_ptr l begin_ptr) (\<lambda>ns.
       any_item (\<lambda>(i, ip). MatchPolicy (full_match_of pcre) item (name ip) policies) (until_ptr end_ptr ns))"

fun neighbour :: "nodes \<Rightarrow> item_ptr \<Rightarrow> cfeditorder \<Rightarrow> string option" where
  "neighbour ((i, ip) # (j, jp) # l) location pos =
     (if pos = cfe_before \<and> Node j = location then Some (name ip)
      else if pos = cfe_after \<and> Node i = location then Some (name jp)
      else neighbour ((j, jp) # l) location pos)"
| "neighbour l location pos = None"

definition neighbour_matches :: "pcre \<Rightarrow> rval list \<Rightarrow> nodes \<Rightarrow> item_ptr \<Rightarrow> string \<Rightarrow> cfeditorder \<Rightarrow> bool res" where
  "neighbour_matches pcre policies l location s pos = (case neighbour l location pos of
     None \<Rightarrow> Inr False
   | Some t \<Rightarrow> MatchPolicy (full_match_of pcre) s t policies)"

text \<open>The items of a selector are texts.\<close>

definition any_selector :: "(string \<Rightarrow> bool) \<Rightarrow> rval list \<Rightarrow> bool res" where
  "any_selector p l = any_item (\<lambda>v. case v of Scalar s \<Rightarrow> Inr (p s) | NoScalar \<Rightarrow> Inl NullDereference | _ \<Rightarrow> Inl OutOfBounds) l"

definition SelectLine :: "pcre \<Rightarrow> string \<Rightarrow> LineSelect \<Rightarrow> bool res" where
  "SelectLine pcre line ls =
     (if ls_startwith_from_list ls \<noteq> [] then any_selector (\<lambda>s. starts_with s line) (ls_startwith_from_list ls)
      else if ls_not_startwith_from_list ls \<noteq> [] then map_sum id Not (any_selector (\<lambda>s. starts_with s line) (ls_not_startwith_from_list ls))
      else if ls_match_from_list ls \<noteq> [] then any_selector (\<lambda>s. matches pcre s line) (ls_match_from_list ls)
      else if ls_not_match_from_list ls \<noteq> [] then map_sum id Not (any_selector (\<lambda>s. matches pcre s line) (ls_not_match_from_list ls))
      else if ls_contains_from_list ls \<noteq> [] then any_selector (\<lambda>s. finds pcre s line \<noteq> None) (ls_contains_from_list ls)
      else if ls_not_contains_from_list ls \<noteq> [] then map_sum id Not (any_selector (\<lambda>s. finds pcre s line \<noteq> None) (ls_not_contains_from_list ls))
      else Inr True)"

text \<open>The lines that delimit the region: nothing when it cannot be selected.\<close>

fun region_loop :: "pcre \<Rightarrow> EditRegion \<Rightarrow> nodes \<Rightarrow> item_ptr \<Rightarrow> (item_ptr \<times> item_ptr) option" where
  "region_loop pcre rg [] beg = Some (beg, UNDEFINED_ITEM)"
| "region_loop pcre rg ((i, ip) # l) beg =
     (if beg = UNDEFINED_ITEM \<and> (\<exists>re \<in> set_option (rg_select_start rg). matches pcre re (name ip)) then
        if \<not> rg_include_start rg \<and> l = [] then None else region_loop pcre rg l (Node i)
      else if beg \<noteq> UNDEFINED_ITEM \<and> (\<exists>re \<in> set_option (rg_select_end rg). matches pcre re (name ip)) then Some (beg, Node i)
      else region_loop pcre rg l beg)"

definition SelectRegion :: "pcre \<Rightarrow> EditRegion \<Rightarrow> nodes \<Rightarrow> (item_ptr \<times> item_ptr) option" where
  "SelectRegion pcre rg start = (case region_loop pcre rg start UNDEFINED_ITEM of
     None \<Rightarrow> None
   | Some (beg, end') \<Rightarrow>
       if beg = UNDEFINED_ITEM \<and> rg_select_start rg \<noteq> None then None
       else Some (beg, if end' = UNDEFINED_ITEM then NULL_ITEM else end'))"

section \<open>Deleting lines\<close>

text \<open>The nodes before the one looked at, and those from it on.  A chunk that matches has as many lines as are left at most.\<close>

function delete_lines :: "pcre \<Rightarrow> 'd DeletionAttributes \<Rightarrow> string \<Rightarrow> item_ptr \<Rightarrow> nodes \<Rightarrow> nodes \<Rightarrow> nat \<Rightarrow> (nodes \<times> nat) res" where
  "delete_lines pcre a prom terminator before rest edits = (case rest of
     [] \<Rightarrow> Inr (before, edits)
   | (i, ip) # l \<Rightarrow>
       if Node i = terminator then Inr (before @ rest, edits)
       else res_bind (MatchRegion pcre prom rest terminator) (\<lambda>m.
         let m' = (if dl_not_matching a then (if m = 0 then 1 else 0) else m)
         in res_bind (SelectLine pcre (name ip) (dl_line_select a)) (\<lambda>sel.
           if \<not> sel \<or> m' = 0 \<or> t_action (transaction (dl_common a)) = cfa_warn
           then delete_lines pcre a prom terminator (before @ [(i, ip)]) l edits
           else delete_lines pcre a prom terminator before (drop m' rest) (edits + m'))))"
  by pat_completeness auto
termination
  by (relation "measure (\<lambda>(p, a, s, t, b, rest, e). length rest)") (auto simp: Let_def split: if_splits)

declare delete_lines.simps [simp del]

definition deletion_start :: "'d DeletionAttributes \<Rightarrow> nodes \<Rightarrow> item_ptr \<Rightarrow> item_ptr res" where
  "deletion_start a start begin' =
     (if begin' = UNDEFINED_ITEM then Inr (start_ptr start)
      else if rg_include_start (dl_region a) then Inr begin' else next_ptr_of start begin')"

definition deletion_end :: "'d DeletionAttributes \<Rightarrow> nodes \<Rightarrow> item_ptr \<Rightarrow> item_ptr res" where
  "deletion_end a start end' =
     (if end' = UNDEFINED_ITEM then Inr NULL_ITEM
      else if rg_include_end (dl_region a) then next_ptr_of start end' else Inr end')"

text \<open>The outcome is whether a line was deleted.\<close>

definition DeletePromisedLinesMatching :: "pcre \<Rightarrow> 'd DeletionAttributes \<Rightarrow> string \<Rightarrow> item_ptr \<Rightarrow> item_ptr \<Rightarrow> edcontext \<Rightarrow> (bool \<times> edcontext) res" where
  "DeletePromisedLinesMatching pcre a prom begin' end' ed =
     res_bind (deletion_start a (file_start ed) begin') (\<lambda>initiator.
     res_bind (deletion_end a (file_start ed) end') (\<lambda>terminator.
     res_bind (from_ptr (file_start ed) initiator) (\<lambda>rest.
     res_bind (delete_lines pcre a prom terminator (take (length (file_start ed) - length rest) (file_start ed)) rest 0) (\<lambda>(l, n).
     Inr (n > 0, ed\<lparr>file_start := l, num_edits := num_edits ed + n\<rparr>)))))"

section \<open>Inserting lines\<close>

record edit_work =
  w_ed :: edcontext
  w_location :: item_ptr
  w_prev :: item_ptr

definition preserves_block :: "'d InsertionAttributes \<Rightarrow> bool" where
  "preserves_block a \<longleftrightarrow> ins_sourcetype a = Some ''preserve_block'' \<or> ins_sourcetype a = Some ''file_preserve_block''"

definition insert_or_warn :: "'d InsertionAttributes \<Rightarrow> (edcontext \<Rightarrow> edcontext) \<Rightarrow> edcontext \<Rightarrow> bool \<times> edcontext" where
  "insert_or_warn a f ed = (True, if t_action (transaction (ins_common a)) = cfa_warn then ed else f ed)"

definition InsertLineAtLocation :: "pcre \<Rightarrow> 'd InsertionAttributes \<Rightarrow> string \<Rightarrow> item_ptr \<Rightarrow> item_ptr \<Rightarrow> edcontext \<Rightarrow> (bool \<times> edcontext) res" where
  "InsertLineAtLocation pcre a newline location prev ed =
     (let preserve_block = (ins_sourcetype a = Some ''preserve_block'');
          order = l_before_after (ins_location a)
      in if prev = UNDEFINED_ITEM \<and> order = cfe_before then
           (case file_start ed of
              [] \<Rightarrow> Inr (insert_or_warn a (prepend_node newline) ed)
            | (_, ip) # _ \<Rightarrow> if strcmp (name ip) newline \<noteq> 0 then Inr (insert_or_warn a (prepend_node newline) ed) else Inr (False, ed))
         else res_bind (if preserve_block then Inr False else neighbour_matches pcre (ins_insert_match a) (file_start ed) location newline order) (\<lambda>there.
           if there then Inr (False, ed)
           else Inr (insert_or_warn a (insert_after (if order = cfe_before then prev else location) newline) ed)))"

definition step_ptr :: "nodes \<Rightarrow> item_ptr \<Rightarrow> item_ptr res" where
  "step_ptr l p = (case p of Node _ \<Rightarrow> next_ptr_of l p | _ \<Rightarrow> Inr (start_ptr l))"

text \<open>A chunk is read in pieces of at most 2048 characters, and the character behind each piece is passed over.\<close>

function chunk_pieces :: "string \<Rightarrow> string list" where
  "chunk_pieces s =
     (let p = take 2048 (takeWhile (\<lambda>c. c \<noteq> CHR 0x0A) s); rest = drop (length p) s
      in p # (if rest = [] then [] else chunk_pieces (tl rest)))"
  by pat_completeness auto
termination by (relation "measure length") (auto simp: Let_def)

declare chunk_pieces.simps [simp del]

text \<open>A location that is undefined is followed like a node.\<close>

fun insert_pieces :: "pcre \<Rightarrow> 'd InsertionAttributes \<Rightarrow> item_ptr \<Rightarrow> item_ptr \<Rightarrow> string list \<Rightarrow> bool \<Rightarrow> edit_work \<Rightarrow> (bool \<times> edit_work) res" where
  "insert_pieces pcre a begin_ptr end_ptr [] result w = Inr (result, w)"
| "insert_pieces pcre a begin_ptr end_ptr (buf # bs) result w =
     res_bind (SelectLine pcre buf (ins_line_select a)) (\<lambda>sel.
     if \<not> sel then insert_pieces pcre a begin_ptr end_ptr bs result w
     else res_bind (if preserves_block a then Inr False
         else line_in_region pcre (ins_insert_match a) buf (file_start (w_ed w)) begin_ptr end_ptr) (\<lambda>there.
     if there then insert_pieces pcre a begin_ptr end_ptr bs result w
     else res_bind (InsertLineAtLocation pcre a buf (w_location w) (w_prev w) (w_ed w)) (\<lambda>(done, ed).
     let l = file_start ed;
         location = (if preserves_block a \<and> l_before_after (ins_location a) = cfe_before \<and> w_location w = NULL_ITEM \<and> w_prev w = UNDEFINED_ITEM
           then start_ptr l else w_location w)
     in res_bind (step_ptr l (w_prev w)) (\<lambda>prev.
        res_bind (if location = NULL_ITEM then Inr (start_ptr l) else next_ptr_of l location) (\<lambda>location'.
        insert_pieces pcre a begin_ptr end_ptr bs (result \<or> done) \<lparr>w_ed = ed, w_location = location', w_prev = prev\<rparr>)))))"

definition InsertCompoundLineAtLocation :: "pcre \<Rightarrow> 'd InsertionAttributes \<Rightarrow> string \<Rightarrow> item_ptr \<Rightarrow> item_ptr \<Rightarrow> item_ptr \<Rightarrow> item_ptr \<Rightarrow> edcontext \<Rightarrow> (bool \<times> edcontext) res" where
  "InsertCompoundLineAtLocation pcre a chunk begin_ptr end_ptr location prev ed =
     res_bind (from_ptr (file_start ed) location) (\<lambda>ns.
     res_bind (MatchRegion pcre chunk ns NULL_ITEM) (\<lambda>m.
     if m \<noteq> 0 then Inr (False, ed)
     else res_bind (insert_pieces pcre a begin_ptr end_ptr (chunk_pieces chunk) False \<lparr>w_ed = ed, w_location = location, w_prev = prev\<rparr>) (\<lambda>(r, w). Inr (r, w_ed w))))"

text \<open>
  The lines of the promised file, one after the other, with their variables expanded when that is asked for.  Without a location the
  loop sets another variable, and the location stays NULL.
\<close>

fun insert_file_lines :: "pcre \<Rightarrow> (string \<Rightarrow> string run) \<Rightarrow> 'd InsertionAttributes \<Rightarrow> item_ptr \<Rightarrow> item_ptr \<Rightarrow> string list \<Rightarrow> bool \<Rightarrow> edit_work \<Rightarrow> (bool \<times> edcontext) run" where
  "insert_file_lines pcre expand a begin_ptr end_ptr [] retval w = ret (retval, w_ed w)"
| "insert_file_lines pcre expand a begin_ptr end_ptr (buf # bs) retval w =
     run_bind (if ins_expandvars a then expand buf else ret buf) (\<lambda>exp.
     run_bind (Some (SelectLine pcre exp (ins_line_select a))) (\<lambda>sel.
     if \<not> sel then insert_file_lines pcre expand a begin_ptr end_ptr bs retval w
     else run_bind (Some (if ins_sourcetype a = Some ''file_preserve_block'' then Inr False
         else line_in_region pcre (ins_insert_match a) exp (file_start (w_ed w)) begin_ptr end_ptr)) (\<lambda>there.
     if there then insert_file_lines pcre expand a begin_ptr end_ptr bs retval w
     else run_bind (Some (InsertCompoundLineAtLocation pcre a exp begin_ptr end_ptr (w_location w) (w_prev w) (w_ed w))) (\<lambda>(done, ed).
     let l = file_start ed
     in run_bind (Some (step_ptr l (w_prev w))) (\<lambda>prev.
        run_bind (Some (if w_location w = NULL_ITEM then Inr NULL_ITEM else next_ptr_of l (w_location w))) (\<lambda>location.
        insert_file_lines pcre expand a begin_ptr end_ptr bs (retval \<or> done) \<lparr>w_ed = ed, w_location = location, w_prev = prev\<rparr>))))))"

text \<open>The lines as \<open>fgets\<close> gives them with a buffer of \<open>CF_BUFSIZE\<close> bytes; behind a last newline there is no line.\<close>

function fgets_lines :: "string \<Rightarrow> string list" where
  "fgets_lines s =
     (if s = [] then []
      else let p = take (CF_BUFSIZE - 1) (takeWhile (\<lambda>c. c \<noteq> CHR 0x0A) s); rest = drop (length p) s
           in if rest \<noteq> [] \<and> hd rest = CHR 0x0A \<and> length p < CF_BUFSIZE - 1 then p # fgets_lines (tl rest) else p # fgets_lines rest)"
  by pat_completeness auto
termination
  by (relation "measure length") (auto simp: Let_def CF_BUFSIZE_def Suc_le_eq neq_Nil_conv split: if_splits)

declare fgets_lines.simps [simp del]

definition InsertFileAtLocation :: "pcre \<Rightarrow> (string \<Rightarrow> string run) \<Rightarrow> (string \<Rightarrow> string option) \<Rightarrow> 'd InsertionAttributes \<Rightarrow> string \<Rightarrow> item_ptr \<Rightarrow> item_ptr \<Rightarrow> item_ptr \<Rightarrow> item_ptr \<Rightarrow>
    edcontext \<Rightarrow> (bool \<times> edcontext) run" where
  "InsertFileAtLocation pcre expand fopen a prom begin_ptr end_ptr location prev ed = (case fopen prom of
     None \<Rightarrow> ret (False, ed)
   | Some contents \<Rightarrow> insert_file_lines pcre expand a begin_ptr end_ptr (fgets_lines contents) False \<lparr>w_ed = ed, w_location = location, w_prev = prev\<rparr>)"

definition InsertMultipleLinesAtLocation :: "pcre \<Rightarrow> (string \<Rightarrow> string run) \<Rightarrow> (string \<Rightarrow> string option) \<Rightarrow> 'd InsertionAttributes \<Rightarrow> string \<Rightarrow> item_ptr \<Rightarrow> item_ptr \<Rightarrow> item_ptr \<Rightarrow>
    item_ptr \<Rightarrow> edcontext \<Rightarrow> (bool \<times> edcontext) run" where
  "InsertMultipleLinesAtLocation pcre expand fopen a prom begin_ptr end_ptr location prev ed =
     (if ins_sourcetype a = Some ''file'' \<or> ins_sourcetype a = Some ''file_preserve_block''
      then InsertFileAtLocation pcre expand fopen a prom begin_ptr end_ptr location prev ed
      else Some (InsertCompoundLineAtLocation pcre a prom begin_ptr end_ptr location prev ed))"

text \<open>Where a region begins and ends: the place and the node before it.\<close>

fun region_begin :: "item_ptr \<Rightarrow> item_ptr \<Rightarrow> nodes \<Rightarrow> (item_ptr \<times> item_ptr) option" where
  "region_begin begin_ptr prev [] = None"
| "region_begin begin_ptr prev ((i, ip) # l) = (if Node i = begin_ptr then Some (Node i, prev) else region_begin begin_ptr (Node i) l)"

fun region_end :: "item_ptr \<Rightarrow> item_ptr \<Rightarrow> nodes \<Rightarrow> (item_ptr \<times> item_ptr) option" where
  "region_end end_ptr prev [] = None"
| "region_end end_ptr prev ((i, ip) # l) = (if l = [] \<or> start_ptr l = end_ptr then Some (Node i, prev) else region_end end_ptr (Node i) l)"

definition InsertMultipleLinesToRegion :: "pcre \<Rightarrow> (string \<Rightarrow> string run) \<Rightarrow> (string \<Rightarrow> string option) \<Rightarrow> 'd InsertionAttributes \<Rightarrow> string \<Rightarrow> item_ptr \<Rightarrow> item_ptr \<Rightarrow> edcontext \<Rightarrow>
    (bool \<times> edcontext) run" where
  "InsertMultipleLinesToRegion pcre expand fopen a prom begin_ptr end_ptr ed =
     (let at = (if file_start ed = [] then Some (NULL_ITEM, UNDEFINED_ITEM)
        else if l_before_after (ins_location a) = cfe_before then region_begin begin_ptr UNDEFINED_ITEM (file_start ed)
        else region_end end_ptr UNDEFINED_ITEM (file_start ed))
      in case at of
           None \<Rightarrow> ret (False, ed)
         | Some (location, prev) \<Rightarrow> InsertMultipleLinesAtLocation pcre expand fopen a prom begin_ptr end_ptr location prev ed)"

section \<open>Replacing patterns\<close>

definition CF_MAX_REPLACE :: nat where
  "CF_MAX_REPLACE = 20"

definition NotAnchored :: "string \<Rightarrow> bool" where
  "NotAnchored s \<longleftrightarrow> char_at s 0 \<noteq> CHR ''^'' \<or> last s \<noteq> CHR ''$''"

text \<open>What matching and expanding need.\<close>

record match_env =
  m_pcre :: pcre
  m_depth :: nat
  m_agent :: cfagenttype

definition find_block :: "match_env \<Rightarrow> var_state \<Rightarrow> string \<Rightarrow> string \<Rightarrow> (var_state \<times> (nat \<times> nat) option) run" where
  "find_block m st re s = BlockTextMatch (m_pcre m) (m_depth m) (m_agent m) st re s"

text \<open>
  The rounds of one line: the text that results and whether it was replaced.  A match as long as the last one in a text of that length
  ends them, and so does the round after the twentieth.
\<close>

function replace_rounds :: "match_env \<Rightarrow> string \<Rightarrow> string \<Rightarrow> bool \<Rightarrow> nat \<Rightarrow> nat \<Rightarrow> bool \<Rightarrow> string \<Rightarrow> var_state \<Rightarrow> (var_state \<times> bool \<times> string) run" where
  "replace_rounds m re value once_only cutoff match_len replaced line_buff st =
     run_bind (find_block m st re line_buff) (\<lambda>(st1, found). case found of
       None \<Rightarrow> ret (st1, replaced, line_buff)
     | Some (start_off, end_off) \<Rightarrow>
         if match_len = length line_buff then ret (st1, replaced, line_buff)
         else if cutoff > CF_MAX_REPLACE then ret (st1, replaced, line_buff)
         else if start_off \<ge> CF_BUFSIZE then Some (Inl OutOfBounds)
         else run_bind (ExpandScalar (m_depth m) st1 value) (\<lambda>(_, repl).
           let line' = take (CF_EXPANDSIZE - 2) (take start_off line_buff @ repl @ take (CF_BUFSIZE - 1) (drop end_off line_buff))
           in if once_only then ret (st1, True, line')
              else replace_rounds m re value once_only (cutoff + 1) (end_off - start_off) True line' st1))"
  by pat_completeness auto
termination by (relation "measure (\<lambda>(m, re, v, o1, cutoff, l, r, s, st). CF_MAX_REPLACE + 1 - cutoff)") auto

declare replace_rounds.simps [simp del]

text \<open>The lines so far, the rest of the file, the number of edits and whether a line was replaced.\<close>

fun replace_lines :: "match_env \<Rightarrow> bool \<Rightarrow> bool \<Rightarrow> string \<Rightarrow> string \<Rightarrow> item_ptr \<Rightarrow> nodes \<Rightarrow> nodes \<Rightarrow> nat \<Rightarrow> var_state \<Rightarrow> (var_state \<times> nodes \<times> nat) run" where
  "replace_lines m once_only warn re value file_end before [] n st = ret (st, before, n)"
| "replace_lines m once_only warn re value file_end before ((i, ip) # l) n st =
     (if Node i = file_end then ret (st, before @ (i, ip) # l, n)
      else if length (name ip) \<ge> CF_BUFSIZE then Some (Inl OutOfBounds)
      else run_bind (replace_rounds m re value once_only 1 0 False (name ip) st) (\<lambda>(st1, replaced, line_buff).
        run_bind (if NotAnchored re then find_block m st1 re line_buff else ret (st1, None)) (\<lambda>(st2, again).
          if again \<noteq> None then ret (st2, before @ (i, ip) # l, n)
          else if warn \<or> \<not> replaced then replace_lines m once_only warn re value file_end (before @ [(i, ip)]) l n st2
          else let ip' = ip\<lparr>name := line_buff\<rparr>
               in if once_only then ret (st2, before @ (i, ip') # l, n + 1)
                  else run_bind (find_block m st2 re line_buff) (\<lambda>(st3, _).
                    replace_lines m once_only warn re value file_end (before @ [(i, ip')]) l (n + 1) st3))))"

definition ReplacePatterns :: "match_env \<Rightarrow> 'd ReplaceAttributes \<Rightarrow> string \<Rightarrow> string \<Rightarrow> item_ptr \<Rightarrow> item_ptr \<Rightarrow> edcontext \<Rightarrow> var_state \<Rightarrow> (var_state \<times> bool \<times> edcontext) run" where
  "ReplacePatterns m a prom value file_start' file_end ed st =
     run_bind (Some (from_ptr (file_start ed) file_start')) (\<lambda>rest.
     run_bind (replace_lines m (rp_occurrences (rl_replace a) = Some ''first'') (t_action (transaction (rl_common a)) = cfa_warn) prom value file_end
         (take (length (file_start ed) - length rest) (file_start ed)) rest 0 st) (\<lambda>(st1, l, n).
     ret (st1, n > 0, ed\<lparr>file_start := l, num_edits := num_edits ed + n\<rparr>)))"

section \<open>Editing fields\<close>

text \<open>The fields of a line are texts; the outcome says whether something was changed.\<close>

definition DoEditColumn :: "rval list \<Rightarrow> string option \<Rightarrow> string \<Rightarrow> (bool \<times> rval list) res" where
  "DoEditColumn columns operation value =
     (if operation = Some ''delete'' then
        (case KeyInRlist columns value of
           Some i \<Rightarrow> Inr (True, DeleteRlistEntry columns (Some i))
         | None \<Rightarrow> Inr (False, columns))
      else if operation = Some ''set'' then
        (if columns = [Scalar value] then Inr (False, columns)
         else res_bind (IdempPrependRScalar [] (Scalar value)) (\<lambda>l. Inr (True, l)))
      else if operation = Some ''prepend'' then
        res_bind (IdempPrependRScalar columns (Scalar value)) (\<lambda>l. Inr (KeyInRlist columns value = None, l))
      else if operation = Some ''alphanum'' then
        res_bind (IdempPrependRScalar columns (Scalar value)) (\<lambda>l.
          Inr (KeyInRlist columns value = None, map Scalar (AlphaSortRListNames (scalar_items l))))
      else res_bind (IdempAppendRScalar columns (Scalar value)) (\<lambda>l. Inr (KeyInRlist columns value = None, l)))"

text \<open>The field at a position, for a file whose edits may only be announced.\<close>

definition edit_field :: "'d ColumnAttributes \<Rightarrow> string \<Rightarrow> string \<Rightarrow> (bool \<times> string) res" where
  "edit_field a value field =
     (let warn = (t_action (transaction (cl_common a)) = cfa_warn); operation = co_column_operation (cl_column a)
      in case co_value_separator (cl_column a) of
           Some sep \<Rightarrow>
             if strcmp field value = 0 then Inr (False, field)
             else res_bind (SplitStringAsRList (Some field) sep) (\<lambda>this_column.
               res_bind (DoEditColumn this_column operation value) (\<lambda>(changed, this_column').
               if \<not> changed \<or> warn then Inr (False, field)
               else res_bind (Rlist2String (scalar_items this_column') [sep]) (\<lambda>t. Inr (True, t))))
         | None \<Rightarrow>
             if warn then Inr (False, field)
             else if operation = Some ''delete'' then Inr (True, []) else Inr (True, value))"

text \<open>The number of the field counts from one; the columns are extended with empty ones when that is allowed.\<close>

definition EditLineByColumn :: "'d ColumnAttributes \<Rightarrow> string \<Rightarrow> nat \<Rightarrow> rval list \<Rightarrow> (bool \<times> rval list) res" where
  "EditLineByColumn a value select_column columns =
     (if select_column > length columns \<and> \<not> co_extend_columns (cl_column a) then Inr (False, columns)
      else let columns' = columns @ replicate (select_column - length columns) (Scalar [])
           in case columns' ! (select_column - 1) of
                Scalar field \<Rightarrow> res_bind (edit_field a value field) (\<lambda>(changed, field').
                  Inr (changed, columns'[select_column - 1 := Scalar field']))
              | _ \<Rightarrow> Inl OutOfBounds)"

text \<open>The outcome is that of the last line that matches; a line without the separator ends the edit.\<close>

fun edit_columns_loop :: "pcre \<Rightarrow> 'd ColumnAttributes \<Rightarrow> string \<Rightarrow> string \<Rightarrow> string \<Rightarrow> nat \<Rightarrow> item_ptr \<Rightarrow> nodes \<Rightarrow> nodes \<Rightarrow> bool \<Rightarrow> nat \<Rightarrow> (bool \<times> nodes \<times> nat) res" where
  "edit_columns_loop pcre a prom sepre value col file_end before [] retval n =
     (if file_end = NULL_ITEM then Inr (retval, before, n) else Inl NullDereference)"
| "edit_columns_loop pcre a prom sepre value col file_end before ((i, ip) # l) retval n =
     (if Node i = file_end then Inr (retval, before @ (i, ip) # l, n)
      else if \<not> matches pcre prom (name ip) then edit_columns_loop pcre a prom sepre value col file_end (before @ [(i, ip)]) l retval n
      else (case finds pcre sepre (name ip) of
          None \<Rightarrow> Inr (False, before @ (i, ip) # l, n)
        | Some (s, e) \<Rightarrow>
            if int e - int s > int CF_MAXVARSIZE div 2 then Inr (False, before @ (i, ip) # l, n)
            else res_bind (SplitRegexAsRList (finds pcre) (Some (name ip)) sepre (nat CF_INFINITY) (co_blanks_ok (cl_column a))) (\<lambda>columns.
              res_bind (EditLineByColumn a value col columns) (\<lambda>(changed, columns').
              if \<not> changed then edit_columns_loop pcre a prom sepre value col file_end (before @ [(i, ip)]) l False n
              else res_bind (Rlist2String (scalar_items columns') (substr (name ip) s e)) (\<lambda>t.
                edit_columns_loop pcre a prom sepre value col file_end (before @ [(i, ip\<lparr>name := t\<rparr>)]) l True (n + 1))))))"

definition EditColumns :: "pcre \<Rightarrow> 'd ColumnAttributes \<Rightarrow> string \<Rightarrow> string \<Rightarrow> string \<Rightarrow> nat \<Rightarrow> item_ptr \<Rightarrow> item_ptr \<Rightarrow> edcontext \<Rightarrow> (bool \<times> edcontext) res" where
  "EditColumns pcre a prom sepre value col file_start' file_end ed =
     (if \<not> ValidateRegEx pcre prom then Inr (False, ed)
      else res_bind (from_ptr (file_start ed) file_start') (\<lambda>rest.
        res_bind (edit_columns_loop pcre a prom sepre value col file_end (take (length (file_start ed) - length rest) (file_start ed)) rest False 0) (\<lambda>(r, l, n).
        Inr (r, ed\<lparr>file_start := l, num_edits := num_edits ed + n\<rparr>))))"

section \<open>Promises about lines\<close>

text \<open>\<open>k_lock\<close> says whether the lock of a name can be had.  Promises of other types than lines are the argument \<open>k_other\<close>.\<close>

record edit_state =
  es_ed :: edcontext
  es_vars :: var_state
  es_ctx :: context_state

record 'd keep_env =
  k_attr :: "'d attr_env"
  k_match :: match_env
  k_fopen :: "string \<Rightarrow> string option"
  k_lock :: "string \<Rightarrow> bool"
  k_server :: string
  k_other :: "Promise \<Rightarrow> edit_state \<Rightarrow> edit_state run"

definition lock_name :: "'d keep_env \<Rightarrow> string \<Rightarrow> Promise \<Rightarrow> string" where
  "lock_name k prefix pp = take (CF_BUFSIZE - 2) (prefix @ ''-'' @ promiser pp @ ''-'' @ k_server k)"

definition count_edit :: "bool \<times> edcontext \<Rightarrow> edcontext" where
  "count_edit r = (if fst r then (snd r)\<lparr>num_edits := num_edits (snd r) + 1\<rparr> else snd r)"

definition SanityCheckInsertions :: "'d InsertionAttributes \<Rightarrow> bool" where
  "SanityCheckInsertions a =
     (let s = ins_line_select a;
          with = length (filter (\<lambda>l. l \<noteq> []) [ls_startwith_from_list s, ls_match_from_list s, ls_contains_from_list s]);
          without = length (filter (\<lambda>l. l \<noteq> []) [ls_not_startwith_from_list s, ls_not_match_from_list s, ls_not_contains_from_list s]);
          opts = map (\<lambda>rp. String2InsertMatch (case rp of Scalar t \<Rightarrow> Some t | _ \<Rightarrow> None)) (ins_insert_match a);
          exact = (cf_exact_match \<in> set opts);
          ignore_something = (\<exists>opt \<in> set opts. opt \<noteq> cf_exact_match)
      in without \<le> 1 \<and> \<not> (with > 0 \<and> without > 0) \<and> \<not> (ignore_something \<and> ins_sourcetype a = Some ''preserve_block'') \<and>
         \<not> (exact \<and> ignore_something))"

definition MultiLineString :: "string \<Rightarrow> bool" where
  "MultiLineString s \<longleftrightarrow> CHR 0x0A \<in> set s"

text \<open>The check of a deletion only warns.\<close>

definition SanityCheckDeletions :: "'d DeletionAttributes \<Rightarrow> Promise \<Rightarrow> bool" where
  "SanityCheckDeletions a pp \<longleftrightarrow> True"

definition VerifyLineDeletions :: "'d keep_env \<Rightarrow> Promise \<Rightarrow> edcontext \<Rightarrow> edcontext res" where
  "VerifyLineDeletions k pp ed =
     res_bind (GetDeletionAttributes (k_attr k) pp) (\<lambda>a.
     case (if \<not> dl_haveregion a then Some (UNDEFINED_ITEM, UNDEFINED_ITEM) else SelectRegion (m_pcre (k_match k)) (dl_region a) (file_start ed)) of
       None \<Rightarrow> Inr ed
     | Some (begin_ptr, end_ptr) \<Rightarrow>
         if \<not> SanityCheckDeletions a pp \<or> \<not> k_lock k (lock_name k ''deleteline'' pp) then Inr ed
         else res_bind (DeletePromisedLinesMatching (m_pcre (k_match k)) a (promiser pp) begin_ptr end_ptr ed) (\<lambda>r. Inr (count_edit r)))"

definition VerifyColumnEdits :: "'d keep_env \<Rightarrow> Promise \<Rightarrow> edcontext \<Rightarrow> edcontext res" where
  "VerifyColumnEdits k pp ed =
     res_bind (GetColumnAttributes (k_attr k) pp) (\<lambda>a.
     case (co_column_separator (cl_column a), co_column_value (cl_column a)) of
       (Some sepre, Some value) \<Rightarrow>
         if co_select_column (cl_column a) \<le> 0 then Inr ed
         else (case (if \<not> cl_haveregion a then Some (start_ptr (file_start ed), NULL_ITEM) else SelectRegion (m_pcre (k_match k)) (cl_region a) (file_start ed)) of
             None \<Rightarrow> Inr ed
           | Some (begin_ptr, end_ptr) \<Rightarrow>
               if \<not> k_lock k (lock_name k ''column'' pp) then Inr ed
               else res_bind (EditColumns (m_pcre (k_match k)) a (promiser pp) sepre value (nat (co_select_column (cl_column a))) begin_ptr end_ptr ed)
                 (\<lambda>r. Inr (count_edit r)))
     | _ \<Rightarrow> Inr ed)"

definition VerifyPatterns :: "'d keep_env \<Rightarrow> Promise \<Rightarrow> edcontext \<Rightarrow> var_state \<Rightarrow> (var_state \<times> edcontext) run" where
  "VerifyPatterns k pp ed st =
     run_bind (Some (GetReplaceAttributes (k_attr k) pp)) (\<lambda>a.
     case rp_replace_value (rl_replace a) of
       None \<Rightarrow> ret (st, ed)
     | Some value \<Rightarrow>
         (case (if \<not> rl_haveregion a then Some (start_ptr (file_start ed), NULL_ITEM) else SelectRegion (m_pcre (k_match k)) (rl_region a) (file_start ed)) of
            None \<Rightarrow> ret (st, ed)
          | Some (begin_ptr, end_ptr) \<Rightarrow>
              if \<not> k_lock k (lock_name k ''replace'' pp) then ret (st, ed)
              else run_bind (ReplacePatterns (k_match k) a (promiser pp) value begin_ptr end_ptr ed st) (\<lambda>(st1, r).
                ret (DeleteScope st1 ''match'', count_edit r))))"

text \<open>The node that matches, the first or the last of the region, and the one before it in the file.\<close>

fun predecessor :: "item_ptr \<Rightarrow> nat \<Rightarrow> nodes \<Rightarrow> item_ptr" where
  "predecessor prev i [] = prev"
| "predecessor prev i ((j, ip) # l) = (if i = j then prev else predecessor (Node j) i l)"

definition select_item :: "pcre \<Rightarrow> nodes \<Rightarrow> string \<Rightarrow> item_ptr \<Rightarrow> item_ptr \<Rightarrow> string option \<Rightarrow> (item_ptr \<times> item_ptr) option res" where
  "select_item pcre start re begin_ptr end_ptr fl =
     res_bind (from_ptr start begin_ptr) (\<lambda>ns.
     let found = filter (\<lambda>(i, ip). matches pcre re (name ip)) (until_ptr end_ptr ns)
     in if found = [] then Inr None
        else let i = fst (if fl = Some ''first'' then hd found else last found)
             in Inr (Some (Node i, predecessor UNDEFINED_ITEM i start)))"

definition VerifyLineInsertions :: "'d keep_env \<Rightarrow> Promise \<Rightarrow> edcontext \<Rightarrow> var_state \<Rightarrow> edcontext run" where
  "VerifyLineInsertions k pp ed st =
     run_bind (Some (GetInsertionAttributes (k_attr k) pp)) (\<lambda>a.
     let pcre = m_pcre (k_match k); expand = (\<lambda>s. run_bind (ExpandScalar (m_depth (k_match k)) st s) (\<lambda>(_, t). ret t)) in
     if \<not> SanityCheckInsertions a then ret ed
     else (case (if \<not> ins_haveregion a then Some (start_ptr (file_start ed), NULL_ITEM) else SelectRegion pcre (ins_region a) (file_start ed)) of
         None \<Rightarrow> ret ed
       | Some (begin_ptr, end_ptr) \<Rightarrow>
           if \<not> k_lock k (lock_name k ''insertline'' pp) then ret ed
           else (case l_line_matching (ins_location a) of
               None \<Rightarrow> run_bind (InsertMultipleLinesToRegion pcre expand (k_fopen k) a (promiser pp) begin_ptr end_ptr ed) (\<lambda>r. ret (count_edit r))
             | Some re \<Rightarrow>
                 run_bind (Some (select_item pcre (file_start ed) re begin_ptr end_ptr (l_first_last (ins_location a)))) (\<lambda>found.
                 case found of
                   None \<Rightarrow> ret ed
                 | Some (match, prev) \<Rightarrow>
                     run_bind (InsertMultipleLinesAtLocation pcre expand (k_fopen k) a (promiser pp) begin_ptr end_ptr match prev ed)
                       (\<lambda>r. ret (count_edit r))))))"

definition KeepEditLinePromise :: "'d keep_env \<Rightarrow> Promise \<Rightarrow> edit_state \<Rightarrow> edit_state run" where
  "KeepEditLinePromise k0 pp s =
     (let k = k0\<lparr>k_attr := (k_attr k0)\<lparr>a_ctx := es_ctx s\<rparr>\<rparr> in
      if \<not> IsDefinedClass (es_ctx s) (pr_classes pp) (Some (pr_namespace pp)) \<or> varclass_excluded (es_ctx s) pp then ret s
      else if agentsubtype pp = ''classes'' then k_other k pp s
      else if agentsubtype pp = ''delete_lines'' then run_bind (Some (VerifyLineDeletions k pp (es_ed s))) (\<lambda>ed. ret (s\<lparr>es_ed := ed\<rparr>))
      else if agentsubtype pp = ''field_edits'' then run_bind (Some (VerifyColumnEdits k pp (es_ed s))) (\<lambda>ed. ret (s\<lparr>es_ed := ed\<rparr>))
      else if agentsubtype pp = ''insert_lines'' then run_bind (VerifyLineInsertions k pp (es_ed s) (es_vars s)) (\<lambda>ed. ret (s\<lparr>es_ed := ed\<rparr>))
      else if agentsubtype pp = ''replace_patterns'' then
        run_bind (VerifyPatterns k pp (es_ed s) (es_vars s)) (\<lambda>(st, ed). ret (s\<lparr>es_ed := ed, es_vars := st\<rparr>))
      else if agentsubtype pp = ''reports'' then k_other k pp s
      else ret s)"

section \<open>The bundle of edits\<close>

text \<open>
  Three passes over the types of promises in their order.  \<open>expand\<close> is \<open>ExpandPromise\<close>, which calls its argument for each instance of
  the promise, and \<open>abort\<close> asks for the class that ends the bundle; an abort leaves the current scope as it is.
\<close>

definition EDITLINETYPESEQUENCE :: "string list" where
  "EDITLINETYPESEQUENCE = [''vars'', ''classes'', ''delete_lines'', ''field_edits'', ''insert_lines'', ''replace_patterns'', ''reports'']"

type_synonym 'd expander = "(Promise \<Rightarrow> edit_state \<Rightarrow> edit_state run) \<Rightarrow> Promise \<Rightarrow> edit_state \<Rightarrow> edit_state run"

fun edit_promises :: "'d keep_env \<Rightarrow> 'd expander \<Rightarrow> (edit_state \<Rightarrow> bool) \<Rightarrow> Promise list \<Rightarrow> edit_state \<Rightarrow> (edit_state \<times> bool) run" where
  "edit_promises k expand abort [] s = ret (s, False)"
| "edit_promises k expand abort (pp # pps) s = run_bind (expand (KeepEditLinePromise k) pp s) (\<lambda>s1.
     if abort s1 then ret (s1, True) else edit_promises k expand abort pps s1)"

fun edit_types :: "'d keep_env \<Rightarrow> 'd expander \<Rightarrow> (edit_state \<Rightarrow> bool) \<Rightarrow> Bundle \<Rightarrow> string list \<Rightarrow> edit_state \<Rightarrow> (edit_state \<times> bool) run" where
  "edit_types k expand abort bp [] s = ret (s, False)"
| "edit_types k expand abort bp (type # types) s = (case GetSubTypeForBundle type (Some bp) of
     None \<Rightarrow> edit_types k expand abort bp types s
   | Some sp \<Rightarrow> run_bind (edit_promises k expand abort (promiselist sp) (s\<lparr>es_vars := SetScope (es_vars s) (bu_name bp)\<rparr>)) (\<lambda>(s1, aborted).
       if aborted then ret (s1, True) else edit_types k expand abort bp types s1))"

fun edit_passes :: "nat \<Rightarrow> 'd keep_env \<Rightarrow> 'd expander \<Rightarrow> (edit_state \<Rightarrow> bool) \<Rightarrow> Bundle \<Rightarrow> edit_state \<Rightarrow> (edit_state \<times> bool) run" where
  "edit_passes 0 k expand abort bp s = ret (s, False)"
| "edit_passes (Suc pass) k expand abort bp s = run_bind (edit_types k expand abort bp EDITLINETYPESEQUENCE s) (\<lambda>(s1, aborted).
     if aborted then ret (s1, True) else edit_passes pass k expand abort bp s1)"

definition CF_DONEPASSES :: nat where
  "CF_DONEPASSES = 4"

definition ScheduleEditLineOperations :: "'d keep_env \<Rightarrow> 'd expander \<Rightarrow> (edit_state \<Rightarrow> bool) \<Rightarrow> string \<Rightarrow> Bundle \<Rightarrow> Promise \<Rightarrow> edit_state \<Rightarrow> (edit_state \<times> bool) run" where
  "ScheduleEditLineOperations k expand abort fname bp parentp s =
     (if \<not> k_lock k (take (CF_BUFSIZE - 2) (''masterfilelock-'' @ fname)) then ret (s, False)
      else run_bind (NewScalar (m_depth (k_match k)) (NewScope (es_vars s) ''edit'') ''edit'' ''filename'' fname cf_str) (\<lambda>st.
        run_bind (edit_passes (CF_DONEPASSES - 1) (k\<lparr>k_server := fname\<rparr>) expand abort bp (s\<lparr>es_vars := st\<rparr>)) (\<lambda>(s1, aborted).
        let st1 = DeleteScope (es_vars s1) ''edit''
        in ret (s1\<lparr>es_vars := if aborted then st1 else SetScope st1 (pr_bundle parentp)\<rparr>, \<not> aborted))))"

section \<open>Insertion converges\<close>

definition node_names :: "nodes \<Rightarrow> string list" where
  "node_names l = map (\<lambda>n. name (snd n)) l"

definition nodes_ok :: "edcontext \<Rightarrow> bool" where
  "nodes_ok ed \<longleftrightarrow> distinct (map fst (file_start ed)) \<and> (\<forall>n \<in> set (file_start ed). fst n < next_node ed)"

text \<open>An insertion without selection, region or white space policy, behind the other lines.\<close>

definition plain_insertion :: "'d InsertionAttributes \<Rightarrow> bool" where
  "plain_insertion a \<longleftrightarrow> ins_line_select a = \<lparr>ls_startwith_from_list = [], ls_not_startwith_from_list = [], ls_match_from_list = [],
       ls_not_match_from_list = [], ls_contains_from_list = [], ls_not_contains_from_list = []\<rparr> \<and>
     ins_insert_match a = [] \<and> ins_sourcetype a = None \<and> l_before_after (ins_location a) = cfe_after \<and>
     t_action (transaction (ins_common a)) = cfa_fix"

definition line_ok :: "string \<Rightarrow> bool" where
  "line_ok s \<longleftrightarrow> CHR 0x0A \<notin> set s \<and> length s \<le> 2048"

fun add_missing :: "string list \<Rightarrow> string list \<Rightarrow> string list" where
  "add_missing [] fl = fl"
| "add_missing (s # ss) fl = add_missing ss (if s \<in> set fl then fl else fl @ [s])"

lemma add_missing_mono: "set fl \<subseteq> set (add_missing ss fl)"
  by (induction ss fl rule: add_missing.induct) (auto split: if_splits)

lemma add_missing_has: "set ss \<subseteq> set (add_missing ss fl)"
proof (induction ss fl rule: add_missing.induct)
  case (2 s ss fl)
  then show ?case using add_missing_mono [of "if s \<in> set fl then fl else fl @ [s]" ss] by (auto split: if_splits)
qed simp

lemma split_loop_some: "length before + length s < CF_BUFSIZE \<Longrightarrow> sep \<notin> set s \<Longrightarrow> \<exists>ips. split_loop sep s p before l = Inr ips \<and> ips \<noteq> []"
  by (induction s arbitrary: p before) (auto simp: AppendItem_def)

lemma MatchPolicy_plain: "line_ok s \<Longrightarrow> MatchPolicy fm s t [] = Inr (s = t)"
  using split_loop_some [of "[]" s "CHR 0x0A" None "[]"] MatchPolicy_exact [of s]
  by (fastforce simp: line_ok_def SplitString_def CF_BUFSIZE_def)

lemma any_item_exact: "any_item (\<lambda>(i, ip). Inr (s = name ip)) l = Inr (s \<in> set (node_names l))"
  by (induction l) (auto simp: node_names_def)

lemma from_start [simp]: "from_ptr l (start_ptr l) = Inr l"
  by (cases l) (auto simp: start_ptr_def from_ptr_def)

lemma until_null [simp]: "until_ptr NULL_ITEM l = l"
  by (auto simp: until_ptr_def takeWhile_eq_all_conv)

lemma line_in_plain: "line_ok s \<Longrightarrow> line_in_region pcre [] s l (start_ptr l) NULL_ITEM = Inr (s \<in> set (node_names l))"
  by (simp add: line_in_region_def MatchPolicy_plain any_item_exact)

lemma SelectLine_plain: "plain_insertion a \<Longrightarrow> SelectLine pcre s (ins_line_select a) = Inr True"
  by (simp add: SelectLine_def plain_insertion_def)

lemma neighbour_last: "distinct (map fst l) \<Longrightarrow> l \<noteq> [] \<Longrightarrow> neighbour l (Node (fst (last l))) cfe_after = None"
proof (induction l)
  case (Cons x l)
  then show ?case by (cases x; cases l) auto
qed simp

lemma insert_behind_last: "distinct (map fst l) \<Longrightarrow> l \<noteq> [] \<Longrightarrow> insert_behind (fst (last l)) n l = l @ [n]"
  by (induction l) auto

lemma drop_to_last: "distinct (map fst l) \<Longrightarrow> k < length l \<Longrightarrow> dropWhile (\<lambda>(j, _). j \<noteq> fst (l ! k)) l = drop k l"
proof (induction l arbitrary: k)
  case (Cons x l)
  show ?case
  proof (cases k)
    case (Suc k')
    with Cons.prems have "l ! k' \<in> set l" by simp
    with Cons.prems have "fst x \<noteq> fst (l ! k')" by auto
    with Cons Suc show ?thesis by (auto simp: case_prod_beta)
  qed (auto simp: case_prod_beta)
qed simp

lemma next_of_node:
  assumes "distinct (map fst l)" "k < length l"
  shows "next_ptr_of l (Node (fst (l ! k))) = Inr (start_ptr (drop (Suc k) l))"
  using drop_to_last [OF assms] by (simp add: next_ptr_of_def from_ptr_def drop_Suc tl_drop)

text \<open>The pointers of an insertion at the end of the file.\<close>

definition at_end :: "edit_work \<Rightarrow> bool" where
  "at_end w \<longleftrightarrow> (let l = file_start (w_ed w) in l \<noteq> [] \<and> nodes_ok (w_ed w) \<and> w_location w = Node (fst (last l)) \<and>
     w_prev w = (if length l = 1 then UNDEFINED_ITEM else Node (fst (l ! (length l - 2)))))"

lemma step_at_end:
  fixes s
  assumes "at_end w"
  defines "l' \<equiv> file_start (w_ed w) @ [(next_node (w_ed w), new_item s None)]"
  shows "step_ptr l' (w_prev w) = Inr (Node (fst (last (file_start (w_ed w)))))"
    "next_ptr_of l' (w_location w) = Inr (Node (next_node (w_ed w)))"
proof -
  let ?l = "file_start (w_ed w)"
  have d: "distinct (map fst l')" and l: "?l \<noteq> []" using assms by (auto simp: at_end_def nodes_ok_def Let_def)
  have k: "length ?l - 1 < length l'" "l' ! (length ?l - 1) = last ?l" using l by (auto simp: l'_def nth_append last_conv_nth)
  show "next_ptr_of l' (w_location w) = Inr (Node (next_node (w_ed w)))"
    using next_of_node [OF d k(1)] assms(1) l unfolding k(2) by (simp add: at_end_def Let_def l'_def start_ptr_def)
  show "step_ptr l' (w_prev w) = Inr (Node (fst (last ?l)))"
  proof (cases "length ?l = 1")
    case True
    then obtain n where "?l = [n]" by (auto simp: length_Suc_conv)
    with assms(1) show ?thesis by (simp add: at_end_def Let_def step_ptr_def l'_def start_ptr_def split: prod.splits)
  next
    case False
    with l have j: "length ?l - 2 < length l'" "l' ! (length ?l - 2) = ?l ! (length ?l - 2)" "Suc (length ?l - 2) = length ?l - 1"
      by (auto simp: l'_def nth_append) (cases ?l; auto)+
    have "drop (length ?l - 1) ?l = [last ?l]" using l by (metis append_butlast_last_id append_eq_conv_conj length_butlast)
    then have "start_ptr (drop (length ?l - 1) l') = Node (fst (last ?l))" by (auto simp: l'_def start_ptr_def split: prod.splits)
    with next_of_node [OF d j(1)] False assms(1) show ?thesis unfolding j by (simp add: at_end_def Let_def step_ptr_def)
  qed
qed

lemma insert_at_end:
  assumes "plain_insertion a" "at_end w" "line_ok s"
  shows "InsertLineAtLocation pcre a s (w_location w) (w_prev w) (w_ed w) =
    Inr (True, (w_ed w)\<lparr>file_start := file_start (w_ed w) @ [(next_node (w_ed w), new_item s None)], next_node := next_node (w_ed w) + 1,
      num_edits := num_edits (w_ed w) + 1\<rparr>)"
  using assms neighbour_last [of "file_start (w_ed w)"] insert_behind_last [of "file_start (w_ed w)"]
  by (auto simp: InsertLineAtLocation_def plain_insertion_def at_end_def Let_def nodes_ok_def neighbour_matches_def insert_or_warn_def insert_after_def)

lemma insert_pieces_plain:
  assumes "plain_insertion a" "at_end w" "\<forall>s \<in> set ss. line_ok s"
  shows "\<exists>r w'. insert_pieces pcre a (start_ptr (file_start (w_ed w))) NULL_ITEM ss r0 w = Inr (r, w') \<and> at_end w' \<and>
    node_names (file_start (w_ed w')) = add_missing ss (node_names (file_start (w_ed w))) \<and>
    (set ss \<subseteq> set (node_names (file_start (w_ed w))) \<longrightarrow> r = r0 \<and> w' = w)"
  using assms(2,3)
proof (induction ss arbitrary: r0 w)
  case (Cons s ss)
  let ?l = "file_start (w_ed w)"
  have plain: "ins_insert_match a = []" "\<not> preserves_block a" using assms(1) by (simp_all add: plain_insertion_def preserves_block_def)
  show ?case
  proof (cases "s \<in> set (node_names ?l)")
    case True
    with Cons.IH [OF Cons.prems(1), of r0] Cons.prems(2) show ?thesis
      by (simp add: SelectLine_plain [OF assms(1)] plain line_in_plain)
  next
    case False
    let ?ed = "(w_ed w)\<lparr>file_start := ?l @ [(next_node (w_ed w), new_item s None)], next_node := next_node (w_ed w) + 1, num_edits := num_edits (w_ed w) + 1\<rparr>"
    let ?w = "\<lparr>w_ed = ?ed, w_location = Node (next_node (w_ed w)), w_prev = Node (fst (last ?l))\<rparr>"
    have l: "?l \<noteq> []" using Cons.prems(1) by (simp add: at_end_def Let_def)
    have "at_end ?w" using Cons.prems(1) l
      by (auto simp: at_end_def Let_def nodes_ok_def nth_append last_conv_nth)
    from Cons.IH [OF this, of True] Cons.prems(2) l
    obtain r w' where "insert_pieces pcre a (start_ptr ?l) NULL_ITEM ss True ?w = Inr (r, w')" "at_end w'"
      "node_names (file_start (w_ed w')) = add_missing ss (node_names ?l @ [s])"
      by (fastforce simp: start_ptr_def node_names_def new_item_def split: list.splits)
    moreover have "w_location w \<noteq> NULL_ITEM" using Cons.prems(1) by (simp add: at_end_def Let_def)
    ultimately show ?thesis using False Cons.prems(2) step_at_end [OF Cons.prems(1), of s]
      by (simp add: SelectLine_plain [OF assms(1)] plain line_in_plain insert_at_end [OF assms(1) Cons.prems(1)] Let_def)
  qed
qed (simp add: start_ptr_def)

lemma chunk_lines_split: "chunk_lines s = takeWhile (\<lambda>c. c \<noteq> CHR 0x0A) s #
    (case dropWhile (\<lambda>c. c \<noteq> CHR 0x0A) s of [] \<Rightarrow> [] | _ # t \<Rightarrow> chunk_lines t)"
  by (induction s) auto

lemma chunk_lines_no_newline: "l \<in> set (chunk_lines s) \<Longrightarrow> CHR 0x0A \<notin> set l"
proof (induction s arbitrary: l)
  case (Cons c s)
  then show ?case by (cases "chunk_lines s") (auto simp: chunk_lines_split [of s] split: if_splits)
qed simp

lemma chunk_lines_single: "CHR 0x0A \<notin> set s \<Longrightarrow> chunk_lines s = [s]"
  by (induction s) auto

lemma chunk_lines_nonempty: "chunk_lines s \<noteq> []"
  by (induction s) auto

lemma chunk_pieces_lines:
  "\<forall>l \<in> set (chunk_lines s). length l \<le> 2048 \<Longrightarrow> chunk_pieces s = chunk_lines s"
proof (induction s rule: chunk_pieces.induct)
  case (1 s)
  let ?t = "takeWhile (\<lambda>c. c \<noteq> CHR 0x0A) s" and ?d = "dropWhile (\<lambda>c. c \<noteq> CHR 0x0A) s"
  have len: "length ?t \<le> 2048" using "1.prems" by (simp add: chunk_lines_split [of s])
  then have p: "take 2048 ?t = ?t" "drop (length ?t) s = ?d" by (simp_all add: dropWhile_eq_drop)
  show ?case
  proof (cases ?d)
    case Nil
    then have "CHR 0x0A \<notin> set s" by (auto simp: dropWhile_eq_Nil_conv)
    with p Nil show ?thesis by (subst chunk_pieces.simps) (simp add: Let_def chunk_lines_single)
  next
    case (Cons c t)
    with "1.prems" have "\<forall>l \<in> set (chunk_lines t). length l \<le> 2048" by (simp add: chunk_lines_split [of s])
    with "1.IH" [OF refl refl] p Cons have "chunk_pieces t = chunk_lines t" by simp
    with p Cons show ?thesis by (subst chunk_pieces.simps) (simp add: Let_def chunk_lines_split [of s] del: drop_eq_Nil)
  qed
qed

lemma region_end_null: "l \<noteq> [] \<Longrightarrow> region_end NULL_ITEM p l =
    Some (Node (fst (last l)), if length l = 1 then p else Node (fst (l ! (length l - 2))))"
proof (induction l arbitrary: p)
  case (Cons x l)
  then show ?case by (cases x; cases l; cases "tl l") (auto simp: start_ptr_def nth_Cons split: nat.splits prod.splits)
qed simp

lemma drop_last: "l \<noteq> [] \<Longrightarrow> drop (length l - 1) l = [last l]"
  by (metis append_butlast_last_id append_eq_conv_conj length_butlast)

lemma from_last: "distinct (map fst l) \<Longrightarrow> l \<noteq> [] \<Longrightarrow> from_ptr l (Node (fst (last l))) = Inr [last l]"
  using drop_to_last [of l "length l - 1"] drop_last [of l] by (simp add: from_ptr_def last_conv_nth)

text \<open>A single line that the last line of the file matches, as a regular expression, counts as there.\<close>

definition kept_at_end :: "pcre \<Rightarrow> string \<Rightarrow> string list \<Rightarrow> bool" where
  "kept_at_end pcre prom lines \<longleftrightarrow> \<not> MultiLineString prom \<and> matches pcre prom (last lines)"

lemma MatchRegion_last:
  assumes "\<forall>s \<in> set (chunk_lines prom). line_ok s"
  shows "MatchRegion pcre prom [n] NULL_ITEM = Inr (if kept_at_end pcre prom [name (snd n)] then 1 else 0)"
proof (cases "CHR 0x0A \<in> set prom")
  case False
  with assms chunk_lines_single [OF False] show ?thesis
    by (cases n) (simp add: MatchRegion_def kept_at_end_def MultiLineString_def line_ok_def CF_BUFSIZE_def)
next
  case True
  then obtain c t where "dropWhile (\<lambda>c. c \<noteq> CHR 0x0A) prom = c # t"
    by (cases "dropWhile (\<lambda>c. c \<noteq> CHR 0x0A) prom") (auto simp: dropWhile_eq_Nil_conv)
  then have "chunk_lines prom = takeWhile (\<lambda>c. c \<noteq> CHR 0x0A) prom # chunk_lines t" by (subst chunk_lines_split) simp
  with chunk_lines_nonempty [of t] obtain x y ys where lines: "chunk_lines prom = x # y # ys" by (metis neq_Nil_conv)
  with assms have "length x < CF_BUFSIZE" by (simp add: line_ok_def CF_BUFSIZE_def)
  with True lines show ?thesis by (cases n) (simp add: MatchRegion_def kept_at_end_def MultiLineString_def)
qed

lemma add_missing_id: "set ss \<subseteq> set fl \<Longrightarrow> add_missing ss fl = fl"
  by (induction ss) auto

lemma insert_region_plain:
  assumes "plain_insertion a" "nodes_ok ed" "file_start ed \<noteq> []" "\<forall>s \<in> set (chunk_lines prom). line_ok s"
  defines "lines \<equiv> node_names (file_start ed)"
  shows "\<exists>r ed'. InsertMultipleLinesToRegion pcre expand fopen a prom (start_ptr (file_start ed)) NULL_ITEM ed = ret (r, ed') \<and>
    nodes_ok ed' \<and> file_start ed' \<noteq> [] \<and>
    node_names (file_start ed') = (if kept_at_end pcre prom lines then lines else add_missing (chunk_lines prom) lines) \<and>
    (kept_at_end pcre prom lines \<or> set (chunk_lines prom) \<subseteq> set lines \<longrightarrow> \<not> r \<and> ed' = ed)"
proof -
  let ?l = "file_start ed"
  let ?w = "\<lparr>w_ed = ed, w_location = Node (fst (last ?l)), w_prev = (if length ?l = 1 then UNDEFINED_ITEM else Node (fst (?l ! (length ?l - 2))))\<rparr>"
  have w: "at_end ?w" using assms(2,3) by (simp add: at_end_def Let_def)
  have pieces: "chunk_pieces prom = chunk_lines prom" using assms(4) by (intro chunk_pieces_lines) (auto simp: line_ok_def)
  have kept: "kept_at_end pcre prom [name (snd (last ?l))] = kept_at_end pcre prom lines"
    using assms(3) by (simp add: kept_at_end_def lines_def node_names_def last_map)
  have start: "InsertMultipleLinesToRegion pcre expand fopen a prom (start_ptr ?l) NULL_ITEM ed =
    Some (if kept_at_end pcre prom lines then Inr (False, ed)
      else res_bind (insert_pieces pcre a (start_ptr ?l) NULL_ITEM (chunk_lines prom) False ?w) (\<lambda>(r, w). Inr (r, w_ed w)))"
    using assms(1,2,3) from_last [of ?l] region_end_null [OF assms(3), of UNDEFINED_ITEM]
    by (simp add: InsertMultipleLinesToRegion_def plain_insertion_def InsertMultipleLinesAtLocation_def InsertCompoundLineAtLocation_def
      nodes_ok_def MatchRegion_last [OF assms(4)] kept pieces)
  from insert_pieces_plain [OF assms(1) w, of "chunk_lines prom" pcre False] assms(4)
  obtain r w' where "insert_pieces pcre a (start_ptr ?l) NULL_ITEM (chunk_lines prom) False ?w = Inr (r, w')" "at_end w'"
    "node_names (file_start (w_ed w')) = add_missing (chunk_lines prom) lines" "set (chunk_lines prom) \<subseteq> set lines \<longrightarrow> \<not> r \<and> w' = ?w"
    by (auto simp: lines_def)
  then show ?thesis unfolding start using assms(2,3) by (auto simp: ret_def at_end_def Let_def lines_def)
qed

text \<open>C12: promising lines of up to 2048 characters at the end of a file that is not empty, without a region, a source type, a selection of
  lines or a white space policy, appends exactly those that are missing, in their order, unless the promise is a single line that matches the last
  one as an expression; and when the promise is kept a second time nothing changes.\<close>

lemma insert_lines_converges:
  assumes "plain_insertion a" "nodes_ok ed" "file_start ed \<noteq> []" "\<forall>s \<in> set (chunk_lines prom). line_ok s"
  shows "\<exists>r ed'. InsertMultipleLinesToRegion pcre expand fopen a prom (start_ptr (file_start ed)) NULL_ITEM ed = ret (r, ed') \<and>
    node_names (file_start ed') = (if kept_at_end pcre prom (node_names (file_start ed)) then node_names (file_start ed)
      else add_missing (chunk_lines prom) (node_names (file_start ed))) \<and>
    InsertMultipleLinesToRegion pcre expand fopen a prom (start_ptr (file_start ed')) NULL_ITEM ed' = ret (False, ed')"
proof -
  from insert_region_plain [OF assms]
  obtain r ed' where one: "InsertMultipleLinesToRegion pcre expand fopen a prom (start_ptr (file_start ed)) NULL_ITEM ed = ret (r, ed')"
    "nodes_ok ed'" "file_start ed' \<noteq> []"
    "node_names (file_start ed') = (if kept_at_end pcre prom (node_names (file_start ed)) then node_names (file_start ed)
      else add_missing (chunk_lines prom) (node_names (file_start ed)))"
    by blast
  then have "kept_at_end pcre prom (node_names (file_start ed')) \<or> set (chunk_lines prom) \<subseteq> set (node_names (file_start ed'))"
    using add_missing_has by (simp split: if_splits)
  with insert_region_plain [OF assms(1) one(2,3) assms(4), of pcre expand fopen]
  have "InsertMultipleLinesToRegion pcre expand fopen a prom (start_ptr (file_start ed')) NULL_ITEM ed' = ret (False, ed')" by auto
  with one show ?thesis by blast
qed

section \<open>Deletion takes out what matches\<close>

definition plain_deletion :: "'d DeletionAttributes \<Rightarrow> bool" where
  "plain_deletion a \<longleftrightarrow> dl_line_select a = \<lparr>ls_startwith_from_list = [], ls_not_startwith_from_list = [], ls_match_from_list = [],
       ls_not_match_from_list = [], ls_contains_from_list = [], ls_not_contains_from_list = []\<rparr> \<and>
     t_action (transaction (dl_common a)) = cfa_fix"

lemma MatchRegion_single:
  assumes "CHR 0x0A \<notin> set prom" "length prom < CF_BUFSIZE"
  shows "MatchRegion pcre prom (n # l) NULL_ITEM = Inr (if matches pcre prom (name (snd n)) then 1 else 0)"
  using assms by (cases n) (simp add: MatchRegion_def chunk_lines_single)

lemma delete_lines_plain:
  fixes pcre
  assumes "plain_deletion a" "CHR 0x0A \<notin> set prom" "length prom < CF_BUFSIZE"
  defines "keep \<equiv> \<lambda>n. matches pcre prom (name (snd n)) = dl_not_matching a"
  shows "delete_lines pcre a prom NULL_ITEM before rest e = Inr (before @ filter keep rest, e + length (filter (\<lambda>n. \<not> keep n) rest))"
proof (induction rest arbitrary: before e)
  case Nil show ?case by (simp add: delete_lines.simps)
next
  case (Cons n l)
  have sel: "SelectLine pcre s (dl_line_select a) = Inr True" for s using assms(1) by (simp add: SelectLine_def plain_deletion_def)
  have "t_action (transaction (dl_common a)) \<noteq> cfa_warn" using assms(1) by (simp add: plain_deletion_def)
  then show ?case
    using Cons by (cases n) (subst delete_lines.simps, auto simp: MatchRegion_single [OF assms(2,3)] sel keep_def Let_def)
qed

text \<open>a promise to delete lines without a region takes out exactly the lines that match its expression, or those that do not, keeps the
  others in their order, and says whether there were any.\<close>

lemma delete_lines_filters:
  assumes "plain_deletion a" "CHR 0x0A \<notin> set prom" "length prom < CF_BUFSIZE"
  shows "DeletePromisedLinesMatching pcre a prom UNDEFINED_ITEM UNDEFINED_ITEM ed =
    (let gone = filter (\<lambda>n. matches pcre prom (name (snd n)) \<noteq> dl_not_matching a) (file_start ed)
     in Inr (gone \<noteq> [], ed\<lparr>file_start := filter (\<lambda>n. matches pcre prom (name (snd n)) = dl_not_matching a) (file_start ed),
       num_edits := num_edits ed + length gone\<rparr>))"
  by (simp add: DeletePromisedLinesMatching_def deletion_start_def deletion_end_def delete_lines_plain [OF assms] Let_def)

section \<open>A region without its end\<close>

lemma region_loop_start:
  assumes "rg_select_start rg = Some re" "matches pcre re (name ip)" "l \<noteq> [] \<or> rg_include_start rg"
    and "\<forall>n \<in> set l. \<forall>e \<in> set_option (rg_select_end rg). \<not> matches pcre e (name (snd n))"
  shows "region_loop pcre rg ((i, ip) # l) UNDEFINED_ITEM = Some (Node i, UNDEFINED_ITEM)"
proof -
  have "region_loop pcre rg l (Node i) = Some (Node i, UNDEFINED_ITEM)" using assms(4) by (induction l) auto
  with assms show ?thesis by auto
qed

text \<open>Deleting lines with \<open>include_end_delimiter\<close> follows a NULL pointer when the region begins at the first line and its end is not in
  the file.\<close>

lemma delete_unclosed_region:
  assumes "GetDeletionAttributes (k_attr k) pp = Inr a" "dl_haveregion a" "rg_include_end (dl_region a)"
    and "rg_select_start (dl_region a) = Some re" "file_start ed = (i, ip) # n # l" "matches (m_pcre (k_match k)) re (name ip)"
    and "\<forall>n' \<in> set (n # l). \<forall>e \<in> set_option (rg_select_end (dl_region a)). \<not> matches (m_pcre (k_match k)) e (name (snd n'))"
    and "k_lock k (lock_name k ''deleteline'' pp)"
  shows "VerifyLineDeletions k pp ed = Inl NullDereference"
proof -
  have "SelectRegion (m_pcre (k_match k)) (dl_region a) (file_start ed) = Some (Node i, NULL_ITEM)"
    unfolding SelectRegion_def assms(5) using region_loop_start [OF assms(4,6) _ assms(7)] by simp
  with assms show ?thesis
    by (auto simp: VerifyLineDeletions_def SanityCheckDeletions_def DeletePromisedLinesMatching_def deletion_start_def deletion_end_def
      next_ptr_of_def from_ptr_def)
qed

section \<open>Replacement\<close>

lemma find_block_finds: "find_block m st re s = ret (st', found) \<Longrightarrow> found = finds (m_pcre m) re s"
  by (auto simp: find_block_def BlockTextMatch_def finds_def RegExMatchSubString_def ret_def run_bind_def split: option.splits list.splits sum.splits prod.splits)

lemma run_bind_returns: "run_bind x f = ret y \<longleftrightarrow> (\<exists>z. x = ret z \<and> f z = ret y)"
  by (auto simp: run_bind_def ret_def split: option.splits sum.splits)

definition only_replaced :: "pcre \<Rightarrow> string \<Rightarrow> nodes \<Rightarrow> nodes \<Rightarrow> bool" where
  "only_replaced pcre re l l' \<longleftrightarrow> list_all2 (\<lambda>n n'. fst n' = fst n \<and> (snd n' = snd n \<or> finds pcre re (name (snd n')) = None)) l l'"

lemma only_replaced_refl [simp]: "only_replaced pcre re l l"
  by (simp add: only_replaced_def list_all2_same)

lemma replace_lines_only:
  assumes "NotAnchored re" "replace_lines m once warn re value fe before rest n st = ret (st', l', n')"
  shows "\<exists>rest'. l' = before @ rest' \<and> only_replaced (m_pcre m) re rest rest'"
  using assms(2)
proof (induction rest arbitrary: before n st)
  case Nil then show ?case by (auto simp: ret_def)
next
  case (Cons x l)
  obtain i ip where x: "x = (i, ip)" by (cases x)
  have one: "only_replaced (m_pcre m) re ((i, ip) # l) ((i, jp) # l1) \<longleftrightarrow>
      (jp = ip \<or> finds (m_pcre m) re (name jp) = None) \<and> only_replaced (m_pcre m) re l l1" for jp l1
    by (auto simp: only_replaced_def)
  show ?case
  proof (cases "Node i = fe")
    case True
    with Cons.prems x show ?thesis by (auto simp: ret_def)
  next
    case False
    with Cons.prems x have "\<not> CF_BUFSIZE \<le> length (name ip)" by (auto simp: ret_def split: if_splits)
    with False Cons.prems assms(1) have "\<exists>st1 replaced line_buff st2 again. find_block m st1 re line_buff = ret (st2, again) \<and>
      (if again \<noteq> None then ret (st2, before @ (i, ip) # l, n)
        else if warn \<or> \<not> replaced then replace_lines m once warn re value fe (before @ [(i, ip)]) l n st2
        else if once then ret (st2, before @ (i, ip\<lparr>name := line_buff\<rparr>) # l, n + 1)
        else run_bind (find_block m st2 re line_buff) (\<lambda>(st3, _).
          replace_lines m once warn re value fe (before @ [(i, ip\<lparr>name := line_buff\<rparr>)]) l (n + 1) st3)) = ret (st', l', n')"
      by (simp only: x replace_lines.simps if_True if_False run_bind_returns split_paired_Ex prod.case Let_def simp_thms) blast
    then obtain st1 replaced line_buff st2 again where
      lines: "find_block m st1 re line_buff = ret (st2, again)"
      "(if again \<noteq> None then ret (st2, before @ (i, ip) # l, n)
        else if warn \<or> \<not> replaced then replace_lines m once warn re value fe (before @ [(i, ip)]) l n st2
        else if once then ret (st2, before @ (i, ip\<lparr>name := line_buff\<rparr>) # l, n + 1)
        else run_bind (find_block m st2 re line_buff) (\<lambda>(st3, _).
          replace_lines m once warn re value fe (before @ [(i, ip\<lparr>name := line_buff\<rparr>)]) l (n + 1) st3)) = ret (st', l', n')"
      by blast
    show ?thesis
    proof (cases "again \<noteq> None \<or> warn \<or> \<not> replaced")
      case True
      with lines(2) Cons.IH [of "before @ [(i, ip)]" n st2] show ?thesis
        unfolding x by (auto simp: ret_def one split: if_splits)
    next
      case False
      then have "again = None" by blast
      with find_block_finds [OF lines(1)] have none: "finds (m_pcre m) re line_buff = None" by simp
      show ?thesis
      proof (cases once)
        case True
        with False lines(2) none show ?thesis unfolding x by (auto simp: ret_def one)
      next
        case False
        with \<open>\<not> (again \<noteq> None \<or> warn \<or> \<not> replaced)\<close> lines(2) obtain st3 where
          "replace_lines m once warn re value fe (before @ [(i, ip\<lparr>name := line_buff\<rparr>)]) l (n + 1) st3 = ret (st', l', n')"
          by (auto simp: run_bind_returns)
        from Cons.IH [OF this] none show ?thesis unfolding x by (fastforce simp: one)
      qed
    qed
  qed
qed

text \<open>C13: in a run from the first line with an expression that is not anchored at both ends, a line is only replaced by a text in which the
  expression is no longer found; lines are not added, dropped or moved.\<close>

lemma ReplacePatterns_converges:
  assumes "NotAnchored prom" "ReplacePatterns m a prom value (start_ptr (file_start ed)) file_end ed st = ret (st', r, ed')"
  shows "only_replaced (m_pcre m) prom (file_start ed) (file_start ed')"
proof -
  have "from_ptr (file_start ed) (start_ptr (file_start ed)) = Inr (file_start ed)"
    by (cases "file_start ed") (auto simp: from_ptr_def start_ptr_def)
  with assms(2) obtain n where "replace_lines m (rp_occurrences (rl_replace a) = Some ''first'') (t_action (transaction (rl_common a)) = cfa_warn) prom value
      file_end [] (file_start ed) 0 st = ret (st', file_start ed', n)"
    by (auto simp: ReplacePatterns_def run_bind_returns ret_def [symmetric]) (auto simp: run_bind_returns ret_def)
  from replace_lines_only [OF assms(1) this] show ?thesis by simp
qed

section \<open>Small files\<close>

text \<open>A matcher that knows literal texts only, and promises whose other attributes are arbitrary.\<close>

definition exact_pcre :: pcre where
  "exact_pcre re = Some (\<lambda>s. if s = re then Some [Some (0, length s)] else None)"

definition no_select :: LineSelect where
  "no_select = \<lparr>ls_startwith_from_list = [], ls_not_startwith_from_list = [], ls_match_from_list = [],
     ls_not_match_from_list = [], ls_contains_from_list = [], ls_not_contains_from_list = []\<rparr>"

definition fixing :: "'d Attributes \<Rightarrow> 'd Attributes" where
  "fixing c = c\<lparr>transaction := (transaction c)\<lparr>t_action := cfa_fix\<rparr>\<rparr>"

definition appending :: "'d InsertionAttributes \<Rightarrow> 'd InsertionAttributes" where
  "appending a = a\<lparr>ins_line_select := no_select, ins_insert_match := [], ins_sourcetype := None,
     ins_location := (ins_location a)\<lparr>l_before_after := cfe_after\<rparr>, ins_common := fixing (ins_common a)\<rparr>"

definition deleting :: "'d DeletionAttributes \<Rightarrow> 'd DeletionAttributes" where
  "deleting a = a\<lparr>dl_line_select := no_select, dl_not_matching := False, dl_common := fixing (dl_common a)\<rparr>"

definition replacing :: "'d ReplaceAttributes \<Rightarrow> 'd ReplaceAttributes" where
  "replacing a = a\<lparr>rl_replace := \<lparr>rp_replace_value = Some ''b'', rp_occurrences = Some ''all''\<rparr>, rl_common := fixing (rl_common a)\<rparr>"

definition file_of :: "string list \<Rightarrow> edcontext \<Rightarrow> edcontext" where
  "file_of ss ed = ed\<lparr>file_start := zip [0..<length ss] (map (\<lambda>s. new_item s None) ss), next_node := length ss\<rparr>"

lemma exact_matches: "matches exact_pcre re s \<longleftrightarrow> s = re"
  by (auto simp: matches_def FullTextMatch_def full_match_of_def exact_pcre_def)

lemma insert_lines_converges_witness:
  "\<forall>a ed. \<exists>r ed'. InsertMultipleLinesToRegion exact_pcre ret (\<lambda>_. None) (appending (a :: int InsertionAttributes)) [CHR ''b'', CHR 0x0A, CHR ''a'', CHR 0x0A, CHR ''c'']
      (Node 0) NULL_ITEM (file_of [''a''] ed) = ret (r, ed') \<and> node_names (file_start ed') = [''a'', ''b'', ''c''] \<and>
    InsertMultipleLinesToRegion exact_pcre ret (\<lambda>_. None) (appending a) [CHR ''b'', CHR 0x0A, CHR ''a'', CHR 0x0A, CHR ''c''] (start_ptr (file_start ed')) NULL_ITEM ed' = ret (False, ed')"
proof (intro allI)
  fix a :: "int InsertionAttributes" and ed
  let ?p = "[CHR ''b'', CHR 0x0A, CHR ''a'', CHR 0x0A, CHR ''c'']"
  have plain: "plain_insertion (appending a)" by (simp add: plain_insertion_def appending_def no_select_def fixing_def)
  have ed: "nodes_ok (file_of [''a''] ed)" "file_start (file_of [''a''] ed) \<noteq> []" "start_ptr (file_start (file_of [''a''] ed)) = Node 0"
    "node_names (file_start (file_of [''a''] ed)) = [''a'']"
    by (simp_all add: nodes_ok_def file_of_def start_ptr_def node_names_def new_item_def)
  have chunks: "chunk_lines ?p = [''b'', ''a'', ''c'']" by simp
  have "\<forall>s \<in> set (chunk_lines ?p). line_ok s" by (simp add: line_ok_def)
  from insert_lines_converges [OF plain ed(1,2) this, of exact_pcre ret "\<lambda>_. None"]
  obtain r ed' where res: "InsertMultipleLinesToRegion exact_pcre ret (\<lambda>_. None) (appending a) ?p (Node 0) NULL_ITEM (file_of [''a''] ed) = ret (r, ed')"
    "node_names (file_start ed') = [''a'', ''b'', ''c'']"
    "InsertMultipleLinesToRegion exact_pcre ret (\<lambda>_. None) (appending a) ?p (start_ptr (file_start ed')) NULL_ITEM ed' = ret (False, ed')"
    unfolding ed(3,4) chunks by (auto simp: kept_at_end_def MultiLineString_def)
  show "\<exists>r ed'. InsertMultipleLinesToRegion exact_pcre ret (\<lambda>_. None) (appending a) ?p (Node 0) NULL_ITEM (file_of [''a''] ed) = ret (r, ed') \<and>
      node_names (file_start ed') = [''a'', ''b'', ''c''] \<and>
      InsertMultipleLinesToRegion exact_pcre ret (\<lambda>_. None) (appending a) ?p (start_ptr (file_start ed')) NULL_ITEM ed' = ret (False, ed')"
    using res by blast
qed

lemma delete_lines_filters_witness:
  "\<forall>a ed. DeletePromisedLinesMatching exact_pcre (deleting (a :: int DeletionAttributes)) ''b'' UNDEFINED_ITEM UNDEFINED_ITEM (file_of [''a'', ''b'', ''c''] ed) =
    Inr (True, (file_of [''a'', ''b'', ''c''] ed)\<lparr>file_start := [(0, new_item ''a'' None), (2, new_item ''c'' None)], num_edits := num_edits ed + 1\<rparr>)"
proof (intro allI)
  fix a :: "int DeletionAttributes" and ed
  have plain: "plain_deletion (deleting a)" by (simp add: plain_deletion_def deleting_def no_select_def fixing_def)
  have not: "\<not> dl_not_matching (deleting a)" by (simp add: deleting_def)
  have "file_start (file_of [''a'', ''b'', ''c''] ed) = [(0, new_item ''a'' None), (1, new_item ''b'' None), (2, new_item ''c'' None)]"
    "num_edits (file_of [''a'', ''b'', ''c''] ed) = num_edits ed"
    by (simp_all add: file_of_def upt_rec)
  with delete_lines_filters [OF plain, of "''b''" exact_pcre "file_of [''a'', ''b'', ''c''] ed"] not
  show "DeletePromisedLinesMatching exact_pcre (deleting a) ''b'' UNDEFINED_ITEM UNDEFINED_ITEM (file_of [''a'', ''b'', ''c''] ed) =
    Inr (True, (file_of [''a'', ''b'', ''c''] ed)\<lparr>file_start := [(0, new_item ''a'' None), (2, new_item ''c'' None)], num_edits := num_edits ed + 1\<rparr>)"
    by (simp add: exact_matches new_item_def CF_BUFSIZE_def)
qed

definition exact_env :: match_env where
  "exact_env = \<lparr>m_pcre = exact_pcre, m_depth = 1, m_agent = cf_agent\<rparr>"

lemma ReplacePatterns_converges_witness:
  "\<forall>a ed. \<exists>st r ed'. ReplacePatterns exact_env (replacing (a :: int ReplaceAttributes)) ''a'' ''b'' (Node 0) NULL_ITEM
      (file_of [''a'', ''c''] ed) looping_state = ret (st, r, ed') \<and> only_replaced exact_pcre ''a'' (file_start (file_of [''a'', ''c''] ed)) (file_start ed')"
proof (intro allI)
  fix a :: "int ReplaceAttributes" and ed
  let ?st = "match_scope looping_state ''a'' [Some (0, 1)]"
  have env: "m_pcre exact_env = exact_pcre" "m_depth exact_env = 1" "m_agent exact_env = cf_agent" by (simp_all add: exact_env_def)
  have found: "find_block exact_env looping_state ''a'' ''a'' = ret (?st, Some (0, 1))"
    using RegExMatchSubString_run [OF looping_wf, of "\<lambda>s. if s = ''a'' then Some [Some (0, length s)] else None" "''a''" 0 1 "[]" 0]
    by (simp add: find_block_def env BlockTextMatch_def exact_pcre_def group_length_def CF_MAXVARSIZE_def)
  have not: "s \<noteq> ''a'' \<Longrightarrow> find_block exact_env st ''a'' s = ret (st, None)" for st s
    by (simp add: find_block_def env BlockTextMatch_def exact_pcre_def RegExMatchSubString_def)
  have exp: "ExpandScalar 1 st ''b'' = ret (True, ''b'')" for st
    by (simp add: ExpandScalar_def) (simp add: expand_loop.simps ExpandOverflow_def strlcat_def CF_EXPANDSIZE_def CF_BUFFERMARGIN_def CF_BUFSIZE_def)
  have none: "replace_rounds exact_env ''a'' ''b'' False k n r s st = ret (st, r, s)" if "s \<noteq> ''a''" for k n r s st
    using not [OF that] by (subst replace_rounds.simps) simp
  have one: "replace_rounds exact_env ''a'' ''b'' False 1 0 False ''a'' looping_state = ret (?st, True, ''b'')"
    by (subst replace_rounds.simps, simp only: found)
      (simp add: none env exp [simplified] CF_MAX_REPLACE_def CF_BUFSIZE_def CF_EXPANDSIZE_def)
  have fs: "file_start (file_of [''a'', ''c''] ed) = [(0, new_item ''a'' None), (1, new_item ''c'' None)]"
    by (simp add: file_of_def upt_rec)
  have "\<exists>st r ed'. ReplacePatterns exact_env (replacing a) ''a'' ''b'' (Node 0) NULL_ITEM (file_of [''a'', ''c''] ed) looping_state = ret (st, r, ed')"
    using one none not
    by (simp add: ReplacePatterns_def fs from_ptr_def replacing_def new_item_def NotAnchored_def CF_BUFSIZE_def fixing_def) (auto simp: ret_def run_bind_def)
  moreover have "start_ptr (file_start (file_of [''a'', ''c''] ed)) = Node 0" by (simp add: fs start_ptr_def)
  ultimately show "\<exists>st r ed'. ReplacePatterns exact_env (replacing a) ''a'' ''b'' (Node 0) NULL_ITEM (file_of [''a'', ''c''] ed) looping_state = ret (st, r, ed') \<and>
    only_replaced exact_pcre ''a'' (file_start (file_of [''a'', ''c''] ed)) (file_start ed')"
    using ReplacePatterns_converges [of "''a''" exact_env "replacing a" "''b''"] by (fastforce simp: NotAnchored_def env)
qed

end
